(* ===== verification/Prelude.thy ===== *)
theory Prelude
  imports Main "HOL-Library.List_Lexorder" "HOL-Library.Char_ord" "HOL-Library.Multiset"
begin

text \<open>
  Shared vocabulary of the development: JavaScript exceptions as values, chains of
  \<open>if (cond) throw\<close> guards, early returns, loops over arrays that track the keys already
  seen, and a stable sort driven by a comparator.  The collections \<open>throws_simps\<close> and
  \<open>seen_simps\<close> carry most of the component proofs.
\<close>

named_theorems throws_simps "when a chain of guards throws nothing"
named_theorems result_simps "when a fallible computation returns"

section \<open>Exceptions\<close>

text \<open>
  \<open>Error\<close> is \<open>new Error(msg)\<close>; \<open>RangeError\<close> is what the standard library
  throws for an invalid date.  \<open>throws\<close> is the outcome of a function that returns nothing:
  \<open>None\<close> when it returns, \<open>Some e\<close> when it throws.
\<close>

datatype js_error = Error string | RangeError string

type_synonym throws = "js_error option"
type_synonym 'a result = "js_error + 'a"

primrec error_message :: "js_error \<Rightarrow> string" where
  "error_message (Error m) = m"
| "error_message (RangeError m) = m"

definition throw_if :: "bool \<Rightarrow> string \<Rightarrow> throws" where
  "throw_if b m = (if b then Some (Error m) else None)"

text \<open>Statements in sequence: the first one that throws decides.\<close>

fun first_throw :: "'e option list \<Rightarrow> 'e option" where
  "first_throw [] = None"
| "first_throw (t # ts) = (case t of None \<Rightarrow> first_throw ts | Some e \<Rightarrow> Some e)"

lemma first_throw_None [throws_simps]:
  "first_throw [] = None \<longleftrightarrow> True"
  "first_throw (t # ts) = None \<longleftrightarrow> t = None \<and> first_throw ts = None"
  by (auto split: option.splits)

lemma first_throw_all: "first_throw ts = None \<longleftrightarrow> (\<forall>t \<in> set ts. t = None)"
  by (induction ts) (auto split: option.splits)

lemma first_throw_mem: "first_throw ts = Some e \<Longrightarrow> Some e \<in> set ts"
  by (induction ts) (auto split: option.splits)

declare first_throw.simps [simp del]

definition after :: "'e option \<Rightarrow> 'e + 'a \<Rightarrow> 'e + 'a" where
  "after t r = (case t of None \<Rightarrow> r | Some e \<Rightarrow> Inl e)"

definition bind_result :: "'e + 'a \<Rightarrow> ('a \<Rightarrow> 'e + 'b) \<Rightarrow> 'e + 'b" where
  "bind_result r k = (case r of Inl e \<Rightarrow> Inl e | Inr x \<Rightarrow> k x)"

lemma throw_if_simps [simp]:
  "throw_if True m = Some (Error m)" "throw_if False m = None"
  by (simp_all add: throw_if_def)

lemma throw_if_None [simp, throws_simps]: "throw_if b m = None \<longleftrightarrow> \<not> b"
  by (simp add: throw_if_def)

lemma throw_if_Some [simp]: "throw_if b m = Some e \<longleftrightarrow> b \<and> e = Error m"
  by (auto simp: throw_if_def)

lemma after_simps [simp]: "after None r = r" "after (Some e) r = Inl e"
  by (simp_all add: after_def)

lemma after_Inr [result_simps]: "after t r = Inr x \<longleftrightarrow> t = None \<and> r = Inr x"
  by (auto simp: after_def split: option.splits)

lemma after_Inl: "after t r = Inl e \<longleftrightarrow> t = Some e \<or> t = None \<and> r = Inl e"
  by (auto simp: after_def split: option.splits)

lemma bind_result_simps [simp]: "bind_result (Inl e) k = Inl e" "bind_result (Inr x) k = k x"
  by (simp_all add: bind_result_def)

lemma bind_result_Inr [result_simps]:
  "bind_result r k = Inr y \<longleftrightarrow> (\<exists>x. r = Inr x \<and> k x = Inr y)"
  by (cases r) auto

section \<open>Loops over an array with a set of keys already seen\<close>

text \<open>
  \<open>for (i = 0; ...) { check(xs[i], i); if (seen.has(key)) throw dup; seen.add(key); }\<close>
\<close>

fun seen_loop :: "('a \<Rightarrow> nat \<Rightarrow> throws) \<Rightarrow> ('a \<Rightarrow> 'k) \<Rightarrow> ('a \<Rightarrow> string) \<Rightarrow>
    'k set \<Rightarrow> nat \<Rightarrow> 'a list \<Rightarrow> throws" where
  "seen_loop check key dup seen i [] = None"
| "seen_loop check key dup seen i (x # xs) =
     first_throw [check x i,
       throw_if (key x \<in> seen) (dup x),
       seen_loop check key dup (insert (key x) seen) (Suc i) xs]"

lemma seen_loop_None:
  "seen_loop check key dup seen i xs = None \<longleftrightarrow>
     (\<forall>j < length xs. check (xs ! j) (i + j) = None) \<and>
     distinct (map key xs) \<and> key ` set xs \<inter> seen = {}"
proof (induction xs arbitrary: seen i)
  case Nil
  then show ?case by simp
next
  case (Cons x xs)
  have step: "seen_loop check key dup seen i (x # xs) = None \<longleftrightarrow>
      check x i = None \<and> key x \<notin> seen \<and>
      seen_loop check key dup (insert (key x) seen) (Suc i) xs = None"
    by (simp add: throws_simps)
  have split_all: "(\<forall>j < length (x # xs). check ((x # xs) ! j) (i + j) = None) \<longleftrightarrow>
      check x i = None \<and> (\<forall>j < length xs. check (xs ! j) (Suc i + j) = None)"
    by (auto simp: less_Suc_eq_0_disj nth_Cons')
  show ?case
    unfolding split_all step Cons.IH by auto
qed

declare seen_loop.simps [simp del]

text \<open>A check whose verdict does not depend on the index.\<close>

lemma seen_loop_None_uniform:
  assumes "\<And>x i. check x i = None \<longleftrightarrow> ok x"
  shows "seen_loop check key dup seen i xs = None \<longleftrightarrow>
    (\<forall>x \<in> set xs. ok x) \<and> distinct (map key xs) \<and> key ` set xs \<inter> seen = {}"
  by (auto simp: seen_loop_None assms all_set_conv_all_nth)

text \<open>\<open>for (const x of xs) { if (bad(x)) throw new Error(msg(x)); }\<close>\<close>

fun each_throw :: "('a \<Rightarrow> throws) \<Rightarrow> 'a list \<Rightarrow> throws" where
  "each_throw check [] = None"
| "each_throw check (x # xs) = (case check x of None \<Rightarrow> each_throw check xs | Some e \<Rightarrow> Some e)"

lemma each_throw_None [throws_simps]: "each_throw check xs = None \<longleftrightarrow> (\<forall>x \<in> set xs. check x = None)"
  by (induction xs) (auto split: option.splits)

lemma each_throw_Some: "each_throw check xs = Some e \<Longrightarrow> \<exists>x \<in> set xs. check x = Some e"
  by (induction xs) (auto split: option.splits)

section \<open>Array.prototype.sort with a comparator\<close>

text \<open>
  The standard requires a stable sort whenever the comparator is consistent; insertion that
  keeps earlier elements first computes the only such arrangement.
\<close>

fun insert_cmp :: "('a \<Rightarrow> 'a \<Rightarrow> int) \<Rightarrow> 'a \<Rightarrow> 'a list \<Rightarrow> 'a list" where
  "insert_cmp cmp x [] = [x]"
| "insert_cmp cmp x (y # ys) = (if cmp x y \<le> 0 then x # y # ys else y # insert_cmp cmp x ys)"

fun sort_cmp :: "('a \<Rightarrow> 'a \<Rightarrow> int) \<Rightarrow> 'a list \<Rightarrow> 'a list" where
  "sort_cmp cmp [] = []"
| "sort_cmp cmp (x # xs) = insert_cmp cmp x (sort_cmp cmp xs)"

lemma mset_insert_cmp [simp]: "mset (insert_cmp cmp x xs) = add_mset x (mset xs)"
  by (induction xs) auto

lemma mset_sort_cmp [simp]: "mset (sort_cmp cmp xs) = mset xs"
  by (induction xs) auto

lemma set_sort_cmp [simp]: "set (sort_cmp cmp xs) = set xs"
  by (metis mset_sort_cmp set_mset_mset)

lemma length_sort_cmp [simp]: "length (sort_cmp cmp xs) = length xs"
  by (metis mset_sort_cmp size_mset)

lemma distinct_sort_cmp [simp]: "distinct (sort_cmp cmp xs) = distinct xs"
  by (metis mset_sort_cmp mset_eq_imp_distinct_iff)

text \<open>
  The contract of a comparator (ECMAScript's consistent comparator): a total preorder given by
  the sign of the answer.  A strict one tells distinct elements apart.
\<close>

locale comparator_order =
  fixes cmp :: "'a \<Rightarrow> 'a \<Rightarrow> int"
  assumes cmp_refl: "cmp x x = 0"
    and cmp_sym: "cmp x y \<le> 0 \<longleftrightarrow> 0 \<le> cmp y x"
    and cmp_trans: "cmp x y \<le> 0 \<Longrightarrow> cmp y z \<le> 0 \<Longrightarrow> cmp x z \<le> 0"
begin

lemma cmp_total: "cmp x y \<le> 0 \<or> cmp y x \<le> 0"
  using cmp_sym [of y x] by linarith

lemma sorted_insert_cmp:
  "sorted_wrt (\<lambda>a b. cmp a b \<le> 0) xs \<Longrightarrow> sorted_wrt (\<lambda>a b. cmp a b \<le> 0) (insert_cmp cmp x xs)"
proof (induction xs)
  case (Cons y ys)
  show ?case
  proof (cases "cmp x y \<le> 0")
    case True
    with Cons.prems show ?thesis by (auto intro: cmp_trans)
  next
    case False
    then have "cmp y x \<le> 0" using cmp_total by blast
    moreover have "set (insert_cmp cmp x ys) = insert x (set ys)"
      by (metis mset_insert_cmp set_mset_add_mset_insert set_mset_mset)
    ultimately show ?thesis using Cons False by auto
  qed
qed simp

lemma sorted_sort_cmp: "sorted_wrt (\<lambda>a b. cmp a b \<le> 0) (sort_cmp cmp xs)"
  by (induction xs) (auto intro: sorted_insert_cmp)

text \<open>A sorted list is determined by its elements when no two of them compare equal.\<close>

lemma sorted_unique_on:
  "sorted_wrt (\<lambda>a b. cmp a b \<le> 0) xs \<Longrightarrow> sorted_wrt (\<lambda>a b. cmp a b \<le> 0) ys \<Longrightarrow>
   mset xs = mset ys \<Longrightarrow> (\<And>a b. a \<in> set xs \<Longrightarrow> b \<in> set xs \<Longrightarrow> cmp a b \<le> 0 \<Longrightarrow> cmp b a \<le> 0 \<Longrightarrow> a = b) \<Longrightarrow>
   xs = ys"
proof (induction xs arbitrary: ys)
  case Nil
  then show ?case by simp
next
  case (Cons x xs)
  then obtain y ys' where ys: "ys = y # ys'"
    by (cases ys) auto
  have sets: "set (x # xs) = set ys" using Cons.prems(3) by (metis set_mset_mset)
  then have "x \<in> set ys" and "y \<in> set (x # xs)"
    using ys by auto
  then have "cmp x y \<le> 0" and "cmp y x \<le> 0"
    using Cons.prems ys cmp_refl by fastforce+
  then have "x = y"
    using Cons.prems(4) [of x y] \<open>y \<in> set (x # xs)\<close> by simp
  moreover have "xs = ys'"
    using Cons.prems \<open>x = y\<close> ys by (intro Cons.IH) auto
  ultimately show ?case using ys by simp
qed

lemma sort_cmp_sorted: "sorted_wrt (\<lambda>a b. cmp a b \<le> 0) xs \<Longrightarrow> sort_cmp cmp xs = xs"
proof (induction xs)
  case (Cons x xs)
  then show ?case by (cases xs) auto
qed simp

lemma sort_cmp_idem [simp]: "sort_cmp cmp (sort_cmp cmp xs) = sort_cmp cmp xs"
  by (rule sort_cmp_sorted) (rule sorted_sort_cmp)

end

text \<open>Sorting looks at the comparator on the elements only.\<close>

lemma insert_cmp_cong:
  "\<forall>y \<in> set xs. f x y = g x y \<Longrightarrow> insert_cmp f x xs = insert_cmp g x xs"
  by (induction xs) auto

lemma sort_cmp_cong_on:
  "\<forall>x \<in> set xs. \<forall>y \<in> set xs. f x y = g x y \<Longrightarrow> sort_cmp f xs = sort_cmp g xs"
proof (induction xs)
  case (Cons x xs)
  then have "sort_cmp f xs = sort_cmp g xs" by auto
  moreover have "insert_cmp f x (sort_cmp g xs) = insert_cmp g x (sort_cmp g xs)"
    using Cons.prems by (intro insert_cmp_cong) auto
  ultimately show ?case by simp
qed simp

text \<open>Comparing by one comparator and then, on a tie, by another.\<close>

lemma lexicographic_two:
  assumes "comparator_order c" and "comparator_order d"
  shows "comparator_order (\<lambda>x y. if c (f x) (f y) \<noteq> 0 then c (f x) (f y) else d (g x) (g y))"
proof
  note c = comparator_order.cmp_refl [OF assms(1)] comparator_order.cmp_sym [OF assms(1)] comparator_order.cmp_trans [OF assms(1)]
  note d = comparator_order.cmp_refl [OF assms(2)] comparator_order.cmp_sym [OF assms(2)] comparator_order.cmp_trans [OF assms(2)]
  have zero: "c a b = 0 \<longleftrightarrow> c a b \<le> 0 \<and> c b a \<le> 0" for a b
    using c(2) [of a b] c(2) [of b a] by auto
  let ?lex = "\<lambda>x y. if c (f x) (f y) \<noteq> 0 then c (f x) (f y) else d (g x) (g y)"
  have le: "?lex x y \<le> 0 \<longleftrightarrow> c (f x) (f y) \<le> 0 \<and> (c (f y) (f x) \<le> 0 \<longrightarrow> d (g x) (g y) \<le> 0)" for x y
    using zero [of "f x" "f y"] by (cases "c (f x) (f y) = 0") (simp_all, linarith?)
  fix x y z
  show "?lex x x = 0" by (simp add: c(1) d(1))
  show "?lex x y \<le> 0 \<longleftrightarrow> 0 \<le> ?lex y x"
    using c(2) [of "f x" "f y"] c(2) [of "f y" "f x"] d(2) [of "g x" "g y"]
    by (cases "c (f x) (f y) = 0"; cases "c (f y) (f x) = 0") simp_all
  show "?lex x y \<le> 0 \<Longrightarrow> ?lex y z \<le> 0 \<Longrightarrow> ?lex x z \<le> 0"
    unfolding le using c(3) [of "f x" "f y" "f z"] c(3) [of "f z" "f x" "f y"] c(3) [of "f y" "f z" "f x"]
      d(3) [of "g x" "g y" "g z"] by blast
qed

locale strict_comparator = comparator_order +
  assumes cmp_eq: "cmp x y = 0 \<Longrightarrow> x = y"
begin

lemma cmp_antisym: "cmp x y \<le> 0 \<Longrightarrow> cmp y x \<le> 0 \<Longrightarrow> x = y"
  using cmp_sym [of x y] cmp_eq [of y x] by auto

lemma sort_cmp_cong: "mset xs = mset ys \<Longrightarrow> sort_cmp cmp xs = sort_cmp cmp ys"
  by (rule sorted_unique_on) (simp_all add: sorted_sort_cmp cmp_antisym)

end

end
