(* ===== verification/Regex.thy ===== *)
theory Regex
  imports JsString
begin

text \<open>
  The fragment of JavaScript regular expressions that the validators use: character classes,
  sequence, alternation, \<open>*\<close>, \<open>+\<close> and bounded repetition, all of them anchored with
  \<open>^...$\<close>.  \<open>rx_test\<close> is \<open>RegExp.prototype.test\<close> by derivatives; \<open>lang\<close> is the
  set of strings a pattern describes, and \<open>rx_test_lang\<close> relates the two.
\<close>

datatype rx =
    Never
  | Eps
  | Cls "char \<Rightarrow> bool"
  | Cat rx rx
  | Alt rx rx
  | Star rx

section \<open>Matching\<close>

fun nullable :: "rx \<Rightarrow> bool" where
  "nullable Never = False"
| "nullable Eps = True"
| "nullable (Cls p) = False"
| "nullable (Cat r s) = (nullable r \<and> nullable s)"
| "nullable (Alt r s) = (nullable r \<or> nullable s)"
| "nullable (Star r) = True"

fun deriv :: "char \<Rightarrow> rx \<Rightarrow> rx" where
  "deriv c Never = Never"
| "deriv c Eps = Never"
| "deriv c (Cls p) = (if p c then Eps else Never)"
| "deriv c (Cat r s) = (if nullable r then Alt (Cat (deriv c r) s) (deriv c s) else Cat (deriv c r) s)"
| "deriv c (Alt r s) = Alt (deriv c r) (deriv c s)"
| "deriv c (Star r) = Cat (deriv c r) (Star r)"

definition rx_test :: "rx \<Rightarrow> string \<Rightarrow> bool" where
  "rx_test r s = nullable (foldl (\<lambda>q c. deriv c q) r s)"

section \<open>The language of a pattern\<close>

inductive_set star :: "string set \<Rightarrow> string set" for A where
  star_Nil: "[] \<in> star A"
| star_Cons: "w \<in> A \<Longrightarrow> u \<in> star A \<Longrightarrow> w @ u \<in> star A"

fun lang :: "rx \<Rightarrow> string set" where
  "lang Never = {}"
| "lang Eps = {[]}"
| "lang (Cls p) = {[c] | c. p c}"
| "lang (Cat r s) = {u @ v | u v. u \<in> lang r \<and> v \<in> lang s}"
| "lang (Alt r s) = lang r \<union> lang s"
| "lang (Star r) = star (lang r)"

lemma nullable_lang: "nullable r \<longleftrightarrow> [] \<in> lang r"
  by (induction r) (auto intro: star_Nil)

lemma star_Cons_iff: "c # s \<in> star A \<longleftrightarrow> (\<exists>u v. s = u @ v \<and> c # u \<in> A \<and> v \<in> star A)"
proof
  assume "c # s \<in> star A"
  then show "\<exists>u v. s = u @ v \<and> c # u \<in> A \<and> v \<in> star A"
    by (induction "c # s" arbitrary: s rule: star.induct) (auto simp: append_eq_Cons_conv)
next
  assume "\<exists>u v. s = u @ v \<and> c # u \<in> A \<and> v \<in> star A"
  then show "c # s \<in> star A"
    using star_Cons by fastforce
qed

lemma deriv_lang: "s \<in> lang (deriv c r) \<longleftrightarrow> c # s \<in> lang r"
proof (induction r arbitrary: s)
  case (Cat r1 r2)
  show ?case
    by (auto simp: Cat nullable_lang append_eq_Cons_conv Cons_eq_append_conv; blast?)
next
  case (Star r)
  then show ?case by (auto simp: star_Cons_iff; metis append_Cons)
qed auto

theorem rx_test_lang: "rx_test r s \<longleftrightarrow> s \<in> lang r"
  unfolding rx_test_def
  by (induction s arbitrary: r) (auto simp: nullable_lang deriv_lang)

section \<open>Pattern abbreviations\<close>

definition between :: "char \<Rightarrow> char \<Rightarrow> char \<Rightarrow> bool" where
  "between a b c \<longleftrightarrow> (of_char a :: nat) \<le> of_char c \<and> (of_char c :: nat) \<le> of_char b"

definition lower_alpha :: "char \<Rightarrow> bool" where
  "lower_alpha = between (CHR ''a'') (CHR ''z'')"

definition upper_alpha :: "char \<Rightarrow> bool" where
  "upper_alpha = between (CHR ''A'') (CHR ''Z'')"

definition dec_digit :: "char \<Rightarrow> bool" where
  "dec_digit = between (CHR ''0'') (CHR ''9'')"

definition lower_hex :: "char \<Rightarrow> bool" where
  "lower_hex c \<longleftrightarrow> between (CHR ''a'') (CHR ''f'') c \<or> dec_digit c"

definition Plus :: "rx \<Rightarrow> rx" where
  "Plus r = Cat r (Star r)"

definition Opt :: "rx \<Rightarrow> rx" where
  "Opt r = Alt Eps r"

primrec Times :: "nat \<Rightarrow> rx \<Rightarrow> rx" where
  "Times 0 r = Eps"
| "Times (Suc n) r = Cat r (Times n r)"

primrec Upto :: "nat \<Rightarrow> rx \<Rightarrow> rx" where
  "Upto 0 r = Eps"
| "Upto (Suc n) r = Opt (Cat r (Upto n r))"

primrec Lit :: "string \<Rightarrow> rx" where
  "Lit [] = Eps"
| "Lit (c # cs) = Cat (Cls (\<lambda>d. d = c)) (Lit cs)"

named_theorems rx_lang "the languages of the pattern constructors"

lemma mem_Cat: "s \<in> lang (Cat q r) \<longleftrightarrow> (\<exists>u v. s = u @ v \<and> u \<in> lang q \<and> v \<in> lang r)"
  by simp

lemma mem_Cls [rx_lang]: "s \<in> lang (Cls p) \<longleftrightarrow> (\<exists>c. s = [c] \<and> p c)"
  by simp

lemma mem_Eps [rx_lang]: "s \<in> lang Eps \<longleftrightarrow> s = []"
  by simp

lemma mem_Alt [rx_lang]: "s \<in> lang (Alt q r) \<longleftrightarrow> s \<in> lang q \<or> s \<in> lang r"
  by simp

lemma mem_Cat_Cls [rx_lang]: "s \<in> lang (Cat (Cls p) r) \<longleftrightarrow> (\<exists>c u. s = c # u \<and> p c \<and> u \<in> lang r)"
  by (auto, metis append_Cons append_Nil)

lemma mem_Lit [rx_lang]: "s \<in> lang (Lit w) \<longleftrightarrow> s = w"
proof (induction w arbitrary: s)
  case Nil
  then show ?case by simp
next
  case (Cons c w)
  have "s \<in> lang (Lit (c # w)) \<longleftrightarrow> (\<exists>u. s = c # u \<and> u \<in> lang (Lit w))"
    by (auto simp: mem_Cat_Cls simp del: lang.simps)
  then show ?case using Cons.IH by blast
qed

lemma mem_Cat_Lit [rx_lang]: "s \<in> lang (Cat (Lit w) r) \<longleftrightarrow> (\<exists>u. s = w @ u \<and> u \<in> lang r)"
  unfolding mem_Cat mem_Lit by blast

lemma mem_Star_Cls [rx_lang]: "s \<in> lang (Star (Cls p)) \<longleftrightarrow> (\<forall>c \<in> set s. p c)"
  by (induction s) (auto simp: star_Cons_iff intro: star_Nil)

lemma mem_Plus_Cls [rx_lang]: "s \<in> lang (Plus (Cls p)) \<longleftrightarrow> s \<noteq> [] \<and> (\<forall>c \<in> set s. p c)"
  unfolding Plus_def mem_Cat_Cls mem_Star_Cls by (cases s) auto

lemma mem_Times_Cls [rx_lang]:
  "s \<in> lang (Times n (Cls p)) \<longleftrightarrow> length s = n \<and> (\<forall>c \<in> set s. p c)"
proof (induction n arbitrary: s)
  case (Suc n)
  show ?case
    unfolding Times.simps mem_Cat_Cls Suc.IH by (cases s) auto
qed auto

lemma mem_Upto_Cls [rx_lang]:
  "s \<in> lang (Upto n (Cls p)) \<longleftrightarrow> length s \<le> n \<and> (\<forall>c \<in> set s. p c)"
proof (induction n arbitrary: s)
  case (Suc n)
  show ?case
    unfolding Upto.simps Opt_def mem_Alt mem_Cat_Cls Suc.IH by (cases s) auto
qed auto

declare lang.simps [simp del] Lit.simps [simp del] Times.simps [simp del] Upto.simps [simp del]

text \<open>Iterating a group: the strings that split into words of the group.\<close>

lemma star_concat: "s \<in> star A \<longleftrightarrow> (\<exists>ws. s = concat ws \<and> set ws \<subseteq> A)"
proof
  assume "s \<in> star A"
  then show "\<exists>ws. s = concat ws \<and> set ws \<subseteq> A"
  proof induction
    case star_Nil
    then show ?case by (auto intro: exI [of _ "[]"])
  next
    case (star_Cons w u)
    then obtain ws where "u = concat ws \<and> set ws \<subseteq> A" by blast
    with star_Cons(1) show ?case by (auto intro!: exI [of _ "w # ws"])
  qed
next
  assume "\<exists>ws. s = concat ws \<and> set ws \<subseteq> A"
  then obtain ws where "s = concat ws" "set ws \<subseteq> A" by blast
  then show "s \<in> star A"
    by (induction ws arbitrary: s) (auto intro: star.intros)
qed

section \<open>The patterns shared by several modules\<close>

text \<open>\<open>/^[a-f0-9]{64}$/\<close>, \<open>/^[0-9]+\.[0-9]+$/\<close> and the time stamp pattern.\<close>

definition HASH_HEX_PATTERN :: rx where
  "HASH_HEX_PATTERN = Times 64 (Cls lower_hex)"

definition VERSION_PATTERN :: rx where
  "VERSION_PATTERN = Cat (Plus (Cls dec_digit)) (Cat (Lit ''.'') (Plus (Cls dec_digit)))"

definition ISO8601_UTC_PATTERN :: rx where
  "ISO8601_UTC_PATTERN =
     Cat (Times 4 (Cls dec_digit)) (Cat (Lit ''-'') (Cat (Times 2 (Cls dec_digit)) (Cat (Lit ''-'')
     (Cat (Times 2 (Cls dec_digit)) (Cat (Lit ''T'') (Cat (Times 2 (Cls dec_digit)) (Cat (Lit '':'')
     (Cat (Times 2 (Cls dec_digit)) (Cat (Lit '':'') (Cat (Times 2 (Cls dec_digit)) (Lit ''Z'')))))))))))"

lemma hash_hex_iff: "rx_test HASH_HEX_PATTERN s \<longleftrightarrow> length s = 64 \<and> (\<forall>c \<in> set s. lower_hex c)"
  by (simp add: rx_test_lang HASH_HEX_PATTERN_def rx_lang)

lemma version_iff: "rx_test VERSION_PATTERN s \<longleftrightarrow> (\<exists>a b. s = a @ ''.'' @ b \<and>
    a \<noteq> [] \<and> b \<noteq> [] \<and> (\<forall>c \<in> set a. dec_digit c) \<and> (\<forall>c \<in> set b. dec_digit c))"
  unfolding rx_test_lang VERSION_PATTERN_def mem_Cat [of _ "Plus (Cls dec_digit)"] mem_Cat_Lit
    mem_Plus_Cls by blast

end
