(* ===== verification/Calendar.thy ===== *)
theory Calendar
  imports Main
begin

text \<open>
  The proleptic Gregorian calendar as ECMAScript computes it: day numbers from 1970-01-01, the
  year, month and day of a day number, and the facts that the two agree and that day numbers
  follow the order of the dates.
\<close>

section \<open>The calendar\<close>

definition leap_year :: "int \<Rightarrow> bool" where
  "leap_year y \<longleftrightarrow> 4 dvd y \<and> (\<not> 100 dvd y \<or> 400 dvd y)"

definition year_length :: "int \<Rightarrow> int" where
  "year_length y = (if leap_year y then 366 else 365)"

definition day_from_year :: "int \<Rightarrow> int" where
  "day_from_year y = 365 * (y - 1970) + (y - 1969) div 4 - (y - 1901) div 100 + (y - 1601) div 400"

definition month_starts :: "bool \<Rightarrow> int list" where
  "month_starts leap = (if leap then [0, 31, 60, 91, 121, 152, 182, 213, 244, 274, 305, 335, 366]
                        else [0, 31, 59, 90, 120, 151, 181, 212, 243, 273, 304, 334, 365])"

text \<open>Day within the year of the first of month \<open>m\<close> (counted from 1), and the month's length.\<close>

definition month_start :: "int \<Rightarrow> nat \<Rightarrow> int" where
  "month_start y m = month_starts (leap_year y) ! (m - 1)"

definition days_in_month :: "int \<Rightarrow> nat \<Rightarrow> int" where
  "days_in_month y m = month_starts (leap_year y) ! m - month_starts (leap_year y) ! (m - 1)"

definition make_day :: "int \<Rightarrow> nat \<Rightarrow> nat \<Rightarrow> int" where
  "make_day y m d = day_from_year y + month_start y m + int d - 1"

text \<open>Year, month and day of a day number, by 400-, 100-, 4- and 1-year cycles from year 1.\<close>

definition year_and_day :: "int \<Rightarrow> int \<times> int" where
  "year_and_day n = (let k = n + 719162;
     a = k div 146097; r = k mod 146097;
     b = min 3 (r div 36524); r2 = r - 36524 * b;
     c = r2 div 1461; r3 = r2 mod 1461;
     e = min 3 (r3 div 365)
   in (400 * a + 100 * b + 4 * c + e + 1, r3 - 365 * e))"

fun find_month :: "bool \<Rightarrow> int \<Rightarrow> nat \<Rightarrow> nat" where
  "find_month leap doy 0 = 0"
| "find_month leap doy (Suc m) = (if month_starts leap ! m \<le> doy then Suc m else find_month leap doy m)"

definition civil_from_day :: "int \<Rightarrow> int \<times> nat \<times> nat" where
  "civil_from_day n = (case year_and_day n of (y, doy) \<Rightarrow>
     let m = find_month (leap_year y) doy 12 in (y, m, nat (doy - month_start y m + 1)))"

lemma div_plus_one:
  fixes x k :: int
  assumes "0 < k"
  shows "(x + 1) div k = x div k + (if k dvd x + 1 then 1 else 0)"
proof (cases "x mod k = k - 1")
  case True
  then have "x + 1 = k * (x div k + 1) + 0"
    using mult_div_mod_eq [of k x] by (simp add: distrib_left)
  then have "(x + 1) div k = x div k + 1" and "k dvd x + 1"
    using assms by (auto intro: int_div_pos_eq)
  then show ?thesis by simp
next
  case False
  have bounds: "0 \<le> x mod k" "x mod k < k" using assms by simp_all
  have eq: "x + 1 = k * (x div k) + (x mod k + 1)" by simp
  have "(x + 1) div k = x div k" and "(x + 1) mod k = x mod k + 1"
    using int_div_pos_eq [OF eq] int_mod_pos_eq [OF eq] bounds False by linarith+
  moreover have "\<not> k dvd x + 1"
    using calculation(2) bounds(1) by (auto simp: dvd_eq_mod_eq_0)
  ultimately show ?thesis by simp
qed

lemma dvd_shift:
  fixes k y c :: int
  assumes "k dvd c"
  shows "k dvd y - c \<longleftrightarrow> k dvd y"
  using assms by (metis diff_add_cancel dvd_add dvd_diff)

lemma div_shift_Suc:
  fixes k y c :: int
  assumes "0 < k" and "k dvd c - 1"
  shows "(y + 1 - c) div k = (y - c) div k + (if k dvd y then 1 else 0)"
proof -
  have "y + 1 - c = (y - c) + 1" and "(y - c) + 1 = y - (c - 1)" by simp_all
  then show ?thesis
    using div_plus_one [OF assms(1), of "y - c"] dvd_shift [OF assms(2), of y] by metis
qed

lemma leap_sum:
  fixes y p q r :: int
  shows "(B \<Longrightarrow> A) \<Longrightarrow> (C \<Longrightarrow> B) \<Longrightarrow>
    365 * (y + 1 - 1970) + (p + (if A then 1 else 0)) - (q + (if B then 1 else 0))
      + (r + (if C then 1 else 0)) =
    365 * (y - 1970) + p - q + r + (if A \<and> (\<not> B \<or> C) then 366 else 365)"
  by (cases A; cases B; cases C) simp_all

lemma day_from_year_Suc: "day_from_year (y + 1) = day_from_year y + year_length y"
proof -
  have 1: "(100::int) dvd y \<Longrightarrow> 4 dvd y"
    by (erule dvd_trans [rotated]) simp
  have 2: "(400::int) dvd y \<Longrightarrow> 100 dvd y"
    by (erule dvd_trans [rotated]) simp
  have "(y + 1 - 1969) div 4 = (y - 1969) div 4 + (if 4 dvd y then 1 else 0)"
    by (rule div_shift_Suc) simp_all
  moreover have "(y + 1 - 1901) div 100 = (y - 1901) div 100 + (if 100 dvd y then 1 else 0)"
    by (rule div_shift_Suc) simp_all
  moreover have "(y + 1 - 1601) div 400 = (y - 1601) div 400 + (if 400 dvd y then 1 else 0)"
    by (rule div_shift_Suc) simp_all
  moreover have "365 * (y + 1 - 1970) + (p + (if 4 dvd y then 1 else 0))
      - (q + (if 100 dvd y then 1 else 0)) + (r + (if 400 dvd y then 1 else 0)) =
      365 * (y - 1970) + p - q + r + year_length y" for p q r :: int
    unfolding year_length_def leap_year_def using 1 2 by (rule leap_sum)
  ultimately show ?thesis
    unfolding day_from_year_def by (simp only:)
qed

lemma day_from_year_mono: "y \<le> y' \<Longrightarrow> day_from_year y \<le> day_from_year y'"
proof (induction y' rule: int_ge_induct)
  case (step i)
  then show ?case by (simp add: day_from_year_Suc year_length_def)
qed simp

text \<open>The cycle decomposition finds the year and the day within it.\<close>

lemma dvd_between:
  fixes k x :: int
  shows "0 < x \<Longrightarrow> x \<le> k \<Longrightarrow> k dvd x \<longleftrightarrow> x = k"
  using zdvd_imp_le by force

lemma dvd_cycle:
  fixes k m n x :: int
  shows "n = k * m + x \<Longrightarrow> k dvd n \<longleftrightarrow> k dvd x"
  by (simp add: dvd_add_right_iff)

lemma cycles:
  fixes a b c e :: int
  assumes "0 \<le> b" "b \<le> 3" "0 \<le> c" "c \<le> 24" "0 \<le> e" "e \<le> 3"
  defines "y \<equiv> 400 * a + 100 * b + 4 * c + e + 1"
  shows "day_from_year y = 146097 * a + 36524 * b + 1461 * c + 365 * e - 719162"
    and "leap_year y \<longleftrightarrow> e = 3 \<and> (c = 24 \<longrightarrow> b = 3)"
proof -
  have "(y - 1969) div 4 = 100 * a + 25 * b + c - 492"
    using assms by (intro int_div_pos_eq [of _ _ _ e]) (auto simp: y_def)
  moreover have "(y - 1901) div 100 = 4 * a + b - 19"
    using assms by (intro int_div_pos_eq [of _ _ _ "4 * c + e"]) (auto simp: y_def)
  moreover have "(y - 1601) div 400 = a - 4"
    using assms by (intro int_div_pos_eq [of _ _ _ "100 * b + 4 * c + e"]) (auto simp: y_def)
  ultimately show "day_from_year y = 146097 * a + 36524 * b + 1461 * c + 365 * e - 719162"
    by (simp add: day_from_year_def y_def)
  have hundred: "4 * c + e + 1 = 100 \<longleftrightarrow> e = 3 \<and> c = 24"
    using assms(3-6) by linarith
  have fourhundred: "100 * b + 4 * c + e + 1 = 400 \<longleftrightarrow> e = 3 \<and> c = 24 \<and> b = 3"
    using assms(1-6) by linarith
  have "4 dvd y \<longleftrightarrow> 4 dvd e + 1"
    unfolding y_def by (rule dvd_cycle [where m = "100 * a + 25 * b + c"]) simp
  then have 4: "4 dvd y \<longleftrightarrow> e = 3"
    using assms(5,6) dvd_between [of "e + 1" 4] by simp
  have "100 dvd y \<longleftrightarrow> 100 dvd 4 * c + e + 1"
    unfolding y_def by (rule dvd_cycle [where m = "4 * a + b"]) simp
  then have 100: "100 dvd y \<longleftrightarrow> e = 3 \<and> c = 24"
    using assms(3-6) dvd_between [of "4 * c + e + 1" 100] hundred by linarith
  have "400 dvd y \<longleftrightarrow> 400 dvd 100 * b + 4 * c + e + 1"
    unfolding y_def by (rule dvd_cycle [where m = a]) simp
  then have 400: "400 dvd y \<longleftrightarrow> e = 3 \<and> c = 24 \<and> b = 3"
    using assms(1-6) dvd_between [of "100 * b + 4 * c + e + 1" 400] fourhundred by linarith
  show "leap_year y \<longleftrightarrow> e = 3 \<and> (c = 24 \<longrightarrow> b = 3)"
    using 4 100 400 by (auto simp: leap_year_def)
qed

text \<open>Dividing a cycle of length \<open>4 * k + 1\<close> at most into four parts, the last one longer.\<close>

lemma last_part_longer:
  fixes r k :: int
  assumes "0 < k" and "0 \<le> r" and "r \<le> 4 * k"
  defines "b \<equiv> min 3 (r div k)"
  shows "0 \<le> b" and "b \<le> 3" and "k * b \<le> r" and "r - k * b < k \<or> b = 3 \<and> r - k * b \<le> k"
proof -
  have q: "0 \<le> r div k" and eq: "k * (r div k) + r mod k = r" and m: "0 \<le> r mod k" "r mod k < k"
    using assms(1,2) by (simp_all add: pos_imp_zdiv_nonneg_iff)
  show "0 \<le> b" and "b \<le> 3" using q by (simp_all add: b_def)
  have "k * b \<le> r \<and> (r - k * b < k \<or> b = 3 \<and> r - k * b \<le> k)"
  proof (cases "r div k \<le> 3")
    case True
    then have "r = k * b + r mod k" using eq by (simp add: b_def)
    then show ?thesis using m by simp
  next
    case False
    then have b3: "b = 3" by (simp add: b_def)
    have "k * 3 \<le> k * (r div k)"
      using assms(1) False by (intro mult_left_mono) simp_all
    then have "k * 3 \<le> r" and "r \<le> k * 4" using eq m assms(3) by linarith+
    then show ?thesis using b3 by simp
  qed
  then show "k * b \<le> r" and "r - k * b < k \<or> b = 3 \<and> r - k * b \<le> k"
    by simp_all
qed

lemma year_and_day_correct:
  assumes "year_and_day n = (y, doy)"
  shows "day_from_year y + doy = n" and "0 \<le> doy" and "doy < year_length y"
proof -
  define k where "k = n + 719162"
  define a where "a = k div 146097"
  define r where "r = k mod 146097"
  define b where "b = min 3 (r div 36524)"
  define r2 where "r2 = r - 36524 * b"
  define c where "c = r2 div 1461"
  define r3 where "r3 = r2 mod 1461"
  define e where "e = min 3 (r3 div 365)"
  have "year_and_day n = (400 * a + 100 * b + 4 * c + e + 1, r3 - 365 * e)"
    unfolding year_and_day_def Let_def e_def r3_def c_def r2_def b_def r_def a_def k_def by (rule refl)
  then have y: "y = 400 * a + 100 * b + 4 * c + e + 1" and doy: "doy = r3 - 365 * e"
    using assms by simp_all
  have k: "k = 146097 * a + r" and r: "0 \<le> r" "r < 146097"
    by (simp_all add: a_def r_def)
  have b: "0 \<le> b" "b \<le> 3" "36524 * b \<le> r" and r2: "r2 < 36524 \<or> b = 3 \<and> r2 \<le> 36524"
    using last_part_longer [of 36524 r] r by (auto simp: b_def r2_def)
  have r2_pos: "0 \<le> r2" using b by (simp add: r2_def)
  have r2_split: "r2 = 1461 * c + r3" and r3: "0 \<le> r3" "r3 < 1461" and c: "0 \<le> c"
    using r2_pos by (simp_all add: c_def r3_def)
  have c_le: "c \<le> 24" using r2 r2_split r3 by linarith
  have e: "0 \<le> e" "e \<le> 3" "365 * e \<le> r3" and doy_ub: "r3 - 365 * e < 365 \<or> e = 3 \<and> r3 \<le> 1460"
    using last_part_longer [of 365 r3] r3 by (auto simp: e_def)
  show "day_from_year y + doy = n"
    using cycles(1) [OF b(1,2) c c_le e(1,2), of a] y doy k r2_split
    by (simp add: k_def r2_def)
  show "0 \<le> doy" using e doy by simp
  have "leap_year y \<longleftrightarrow> e = 3 \<and> (c = 24 \<longrightarrow> b = 3)"
    using cycles(2) [OF b(1,2) c c_le e(1,2), of a] y by simp
  moreover have "doy < 365 \<or> e = 3 \<and> doy \<le> 365 \<and> (c = 24 \<longrightarrow> b = 3)"
  proof (cases "doy < 365")
    case False
    then have e3: "e = 3" and "r3 \<le> 1460" and "1460 \<le> r3"
      using doy doy_ub by (simp, simp, fastforce)
    moreover have "c = 24 \<Longrightarrow> b = 3"
    proof (rule ccontr)
      assume "c = 24" and "b \<noteq> 3"
      then have "r2 < 36524" and "r2 = 35064 + r3" using r2 r2_split by simp_all
      with \<open>1460 \<le> r3\<close> show False by simp
    qed
    ultimately show ?thesis using doy by simp
  qed simp
  ultimately show "doy < year_length y"
    by (auto simp: year_length_def)
qed

lemma find_month_correct:
  assumes "0 \<le> doy" and "doy < month_starts leap ! 12"
  defines "m \<equiv> find_month leap doy 12"
  shows "1 \<le> m" and "m \<le> 12" and "month_starts leap ! (m - 1) \<le> doy"
    and "doy < month_starts leap ! m"
proof -
  have rec: "find_month leap doy j \<le> j \<and>
      (find_month leap doy j \<noteq> 0 \<longrightarrow> month_starts leap ! (find_month leap doy j - 1) \<le> doy) \<and>
      (\<forall>i. find_month leap doy j \<le> i \<and> i < j \<longrightarrow> doy < month_starts leap ! i)" for j
    by (induction j) (auto simp: le_Suc_eq less_Suc_eq)
  have pos: "m \<noteq> 0"
    using rec [of 12] assms(1) by (auto simp: m_def month_starts_def split: if_splits)
  then show "1 \<le> m" by simp
  show "m \<le> 12" using rec [of 12] by (simp add: m_def)
  show "month_starts leap ! (m - 1) \<le> doy" using rec [of 12] pos by (simp add: m_def)
  show "doy < month_starts leap ! m"
    using rec [of 12] assms(2) \<open>m \<le> 12\<close> by (cases "m = 12") (auto simp: m_def)
qed

lemma month_starts_last: "month_starts (leap_year y) ! 12 = year_length y"
  by (simp add: month_starts_def year_length_def)

lemma civil_from_day_correct:
  assumes "civil_from_day n = (y, m, d)"
  shows "make_day y m d = n" and "1 \<le> m" and "m \<le> 12" and "1 \<le> d" and "int d \<le> days_in_month y m"
proof -
  obtain y' doy where yd: "year_and_day n = (y', doy)" by fastforce
  note yd' = year_and_day_correct [OF yd]
  have y: "y = y'" and m: "m = find_month (leap_year y) doy 12"
    and d: "d = nat (doy - month_start y m + 1)"
    using assms yd by (auto simp: civil_from_day_def Let_def)
  have fm: "1 \<le> m" "m \<le> 12" "month_starts (leap_year y) ! (m - 1) \<le> doy"
      "doy < month_starts (leap_year y) ! m"
    using find_month_correct [of doy "leap_year y"] yd' y m month_starts_last by simp_all
  show "1 \<le> m" "m \<le> 12" by fact+
  show "make_day y m d = n" and "1 \<le> d" and "int d \<le> days_in_month y m"
    using fm(3,4) d yd'(1) y by (simp_all add: make_day_def month_start_def days_in_month_def)
qed

text \<open>Days are counted in calendar order.\<close>

lemma month_starts_mono: "i \<le> j \<Longrightarrow> j \<le> 12 \<Longrightarrow> month_starts leap ! i \<le> month_starts leap ! j"
proof -
  have "sorted (month_starts leap)" and "length (month_starts leap) = 13"
    by (simp_all add: month_starts_def)
  then show "i \<le> j \<Longrightarrow> j \<le> 12 \<Longrightarrow> ?thesis"
    by (simp add: sorted_nth_mono)
qed

lemma month_starts_0 [simp]: "month_starts leap ! 0 = 0"
  by (simp add: month_starts_def)

definition calendar_date :: "int \<Rightarrow> nat \<Rightarrow> nat \<Rightarrow> bool" where
  "calendar_date y m d \<longleftrightarrow> 1 \<le> m \<and> m \<le> 12 \<and> 1 \<le> d \<and> int d \<le> days_in_month y m"

lemma make_day_less:
  assumes "calendar_date y m d" and "calendar_date y' m' d'"
    and "y < y' \<or> y = y' \<and> (m < m' \<or> m = m' \<and> d < d')"
  shows "make_day y m d < make_day y' m' d'"
  using assms(3)
proof (elim disjE conjE)
  assume "y < y'"
  have "make_day y m d < day_from_year y + month_starts (leap_year y) ! m"
    using assms(1) by (simp add: make_day_def month_start_def calendar_date_def days_in_month_def)
  also have "\<dots> \<le> day_from_year (y + 1)"
    using assms(1) month_starts_mono [of m 12 "leap_year y"]
    by (simp add: day_from_year_Suc calendar_date_def month_starts_last)
  also have "\<dots> \<le> day_from_year y'"
    using \<open>y < y'\<close> by (intro day_from_year_mono) simp
  also have "\<dots> \<le> make_day y' m' d'"
  proof -
    have "m' - 1 \<le> 12" and "1 \<le> d'"
      using assms(2) by (auto simp: calendar_date_def)
    then show ?thesis
      using month_starts_mono [of 0 "m' - 1" "leap_year y'"]
      by (simp add: make_day_def month_start_def)
  qed
  finally show ?thesis .
next
  assume y: "y = y'" and "m < m'"
  have le: "month_starts (leap_year y) ! m \<le> month_starts (leap_year y) ! (m' - 1)"
    using assms(2) \<open>m < m'\<close> by (intro month_starts_mono) (auto simp: calendar_date_def)
  have "make_day y m d < day_from_year y + month_starts (leap_year y) ! m"
    using assms(1) by (simp add: make_day_def month_start_def calendar_date_def days_in_month_def)
  also have "\<dots> \<le> make_day y' m' d'"
    using assms(2) le y by (simp add: make_day_def month_start_def calendar_date_def)
  finally show ?thesis .
next
  assume "y = y'" "m = m'" "d < d'"
  then show ?thesis by (simp add: make_day_def)
qed

text \<open>Day numbers name dates uniquely.\<close>

lemma civil_from_day_make_day:
  assumes "calendar_date y m d"
  shows "civil_from_day (make_day y m d) = (y, m, d)"
proof -
  obtain y' m' d' where c: "civil_from_day (make_day y m d) = (y', m', d')" by (cases "civil_from_day (make_day y m d)")
  note c' = civil_from_day_correct [OF c]
  have cal: "calendar_date y' m' d'" using c' by (simp add: calendar_date_def)
  consider "y' = y \<and> m' = m \<and> d' = d" | "y < y' \<or> y = y' \<and> (m < m' \<or> m = m' \<and> d < d')"
    | "y' < y \<or> y' = y \<and> (m' < m \<or> m' = m \<and> d' < d)"
    by linarith
  then show ?thesis
    using c c'(1) make_day_less [OF assms cal] make_day_less [OF cal assms] by cases auto
qed

end
