(* ===== verification/JsDate.thy ===== *)
theory JsDate
  imports Regex Calendar
begin

text \<open>
  Dates of the JavaScript standard library.  A \<open>Date\<close> is its time value, the milliseconds since
  1970-01-01T00:00:00Z, or \<open>None\<close> for an invalid date.  \<open>to_iso_string\<close> is
  \<open>toISOString\<close>; \<open>iso_parse\<close> is \<open>Date.parse\<close> on the two formats the code produces
  and accepts (\<open>YYYY-MM-DDTHH:mm:ssZ\<close> and the same with milliseconds).  What ECMAScript leaves
  to the implementation, the value of \<open>Date.parse\<close> on any other string, is a parameter of
  \<open>date_parse\<close>.  The main facts: printing and parsing agree, and on calendar-valid stamps the
  order of the strings is the order of the instants.
\<close>

type_synonym jsdate = "int option"

section \<open>Printing and parsing\<close>

text \<open>\<open>ToZeroPaddedDecimalString\<close>: \<open>w\<close> decimal digits, for \<open>n < 10 ^ w\<close>.\<close>

primrec pad :: "nat \<Rightarrow> nat \<Rightarrow> string" where
  "pad 0 n = []"
| "pad (Suc w) n = pad w (n div 10) @ [digit (n mod 10)]"

type_synonym stamp = "nat \<times> nat \<times> nat \<times> nat \<times> nat \<times> nat"

fun iso_string :: "stamp \<Rightarrow> string" where
  "iso_string (y, mo, d, h, mi, s) =
     pad 4 y @ ''-'' @ pad 2 mo @ ''-'' @ pad 2 d @ ''T'' @
     pad 2 h @ '':'' @ pad 2 mi @ '':'' @ pad 2 s @ ''Z''"

definition iso_fields :: "string \<Rightarrow> stamp" where
  "iso_fields s = (read_nat (take 4 s), read_nat (take 2 (drop 5 s)), read_nat (take 2 (drop 8 s)),
     read_nat (take 2 (drop 11 s)), read_nat (take 2 (drop 14 s)), read_nat (take 2 (drop 17 s)))"

text \<open>In range for the calendar; 24:00:00 is midnight at the end of the day.\<close>

fun valid_stamp :: "stamp \<Rightarrow> bool" where
  "valid_stamp (y, mo, d, h, mi, s) \<longleftrightarrow>
     calendar_date (int y) mo d \<and> mi \<le> 59 \<and> s \<le> 59 \<and> (h \<le> 23 \<or> h = 24 \<and> mi = 0 \<and> s = 0)"

definition ms_per_day :: int where "ms_per_day = 86400000"

fun stamp_seconds :: "stamp \<Rightarrow> int" where
  "stamp_seconds (y, mo, d, h, mi, s) =
     make_day (int y) mo d * 86400 + int h * 3600 + int mi * 60 + int s"

definition iso_parse :: "string \<Rightarrow> jsdate" where
  "iso_parse s =
     (if rx_test ISO8601_UTC_PATTERN s \<and> valid_stamp (iso_fields s)
      then Some (stamp_seconds (iso_fields s) * 1000)
      else if length s = 24 \<and> rx_test ISO8601_UTC_PATTERN (take 19 s @ ''Z'') \<and>
        s ! 19 = CHR ''.'' \<and> (\<forall>c \<in> set (take 3 (drop 20 s)). dec_digit c) \<and> s ! 23 = CHR ''Z'' \<and>
        valid_stamp (iso_fields (take 19 s @ ''Z'')) \<and>
        (case iso_fields s of (y, mo, d, h, mi, se) \<Rightarrow> h = 24 \<longrightarrow> read_nat (take 3 (drop 20 s)) = 0)
      then Some (stamp_seconds (iso_fields (take 19 s @ ''Z'')) * 1000 + int (read_nat (take 3 (drop 20 s))))
      else None)"

definition date_parse :: "(string \<Rightarrow> jsdate) \<Rightarrow> string \<Rightarrow> jsdate" where
  "date_parse other s = (case iso_parse s of Some t \<Rightarrow> Some t | None \<Rightarrow> other s)"

definition stamp_of_seconds :: "int \<Rightarrow> int \<times> nat \<times> nat \<times> nat \<times> nat \<times> nat" where
  "stamp_of_seconds t = (case civil_from_day (t div 86400) of (y, mo, d) \<Rightarrow>
     let r = nat (t mod 86400) in (y, mo, d, r div 3600, r mod 3600 div 60, r mod 60))"

text \<open>The year of \<open>toISOString\<close>: four digits, or a sign and six outside 0..9999.\<close>

definition iso_year :: "int \<Rightarrow> string" where
  "iso_year y = (if 0 \<le> y \<and> y \<le> 9999 then pad 4 (nat y)
     else (if y < 0 then ''-'' else ''+'') @ pad 6 (nat \<bar>y\<bar>))"

definition to_iso_string :: "jsdate \<Rightarrow> string result" where
  "to_iso_string date = (case date of
     None \<Rightarrow> Inl (RangeError ''Invalid time value'')
   | Some t \<Rightarrow> (case stamp_of_seconds (t div 1000) of (y, mo, d, h, mi, s) \<Rightarrow>
       Inr (iso_year y @ ''-'' @ pad 2 mo @ ''-'' @ pad 2 d @ ''T'' @ pad 2 h @ '':'' @ pad 2 mi @ '':'' @
         pad 2 s @ ''.'' @ pad 3 (nat (t mod 1000)) @ ''Z'')))"

text \<open>\<open>.replace(/\.\d{3}Z$/, 'Z')\<close>.\<close>

definition strip_millis :: "string \<Rightarrow> string" where
  "strip_millis s = (let n = length s in
     if 5 \<le> n \<and> s ! (n - 5) = CHR ''.'' \<and> (\<forall>c \<in> set (take 3 (drop (n - 4) s)). dec_digit c) \<and>
        s ! (n - 1) = CHR ''Z''
     then take (n - 5) s @ ''Z'' else s)"

definition iso_seconds :: "jsdate \<Rightarrow> string result" where
  "iso_seconds date = bind_result (to_iso_string date) (\<lambda>s. Inr (strip_millis s))"

section \<open>Stamps and their strings\<close>

lemma dec_digit_iff: "dec_digit c \<longleftrightarrow> is_digit c"
  by (simp add: dec_digit_def between_def is_digit_def)

lemma length_pad [simp]: "length (pad w n) = w"
  by (induction w arbitrary: n) auto

lemma pad_digits: "c \<in> set (pad w n) \<Longrightarrow> dec_digit c"
  by (induction w arbitrary: n) (auto simp: dec_digit_iff)

lemma read_nat_snoc: "read_nat (s @ [c]) = 10 * read_nat s + digit_value c"
  by (simp add: read_nat_def)

lemma read_pad [simp]: "n < 10 ^ w \<Longrightarrow> read_nat (pad w n) = n"
proof (induction w arbitrary: n)
  case (Suc w)
  have "n div 10 < 10 ^ w" using Suc.prems by (simp add: less_mult_imp_div_less mult.commute)
  then show ?case by (simp add: read_nat_snoc Suc.IH)
qed (simp add: read_nat_def)

lemma digit_value_less: "is_digit c \<Longrightarrow> digit_value c < 10"
  by (auto simp: is_digit_def digit_value_def)

lemma pad_read: "\<forall>c \<in> set s. dec_digit c \<Longrightarrow> pad (length s) (read_nat s) = s"
proof (induction s rule: rev_induct)
  case (snoc c s)
  then show ?case
    by (simp add: read_nat_snoc dec_digit_iff digit_value_less digit_digit_value)
qed simp

lemma read_nat_bound: "\<forall>c \<in> set s. dec_digit c \<Longrightarrow> read_nat s < 10 ^ length s"
proof (induction s rule: rev_induct)
  case (snoc c s)
  then have "read_nat s < 10 ^ length s" and "digit_value c < 10"
    by (simp_all add: dec_digit_iff digit_value_less)
  then show ?case by (simp add: read_nat_snoc)
qed (simp add: read_nat_def)

fun stamp_range :: "stamp \<Rightarrow> bool" where
  "stamp_range (y, mo, d, h, mi, s) \<longleftrightarrow> y < 10000 \<and> mo < 100 \<and> d < 100 \<and> h < 100 \<and> mi < 100 \<and> s < 100"

lemma length_iso_string [simp]: "length (iso_string f) = 20"
  by (cases f) simp

lemma iso_fields_string_append: "stamp_range f \<Longrightarrow> iso_fields (iso_string f @ r) = f"
  by (cases f) (simp add: iso_fields_def)

lemma iso_fields_string: "stamp_range f \<Longrightarrow> iso_fields (iso_string f) = f"
  using iso_fields_string_append [of f "[]"] by simp

lemma iso_pattern_string: "rx_test ISO8601_UTC_PATTERN (iso_string f)"
proof (cases f)
  case (fields y mo d h mi s)
  then show ?thesis
    unfolding rx_test_lang ISO8601_UTC_PATTERN_def mem_Cat [of _ "Times n r" for n r] mem_Cat_Lit mem_Lit mem_Times_Cls
    by (auto intro!: exI conjI pad_digits simp del: pad.simps)
qed

lemma iso_pattern_fields:
  assumes "rx_test ISO8601_UTC_PATTERN s"
  shows "s = iso_string (iso_fields s)" and "stamp_range (iso_fields s)"
proof -
  obtain a b c d e f where s: "s = a @ ''-'' @ b @ ''-'' @ c @ ''T'' @ d @ '':'' @ e @ '':'' @ f @ ''Z''"
    and digits: "\<forall>x \<in> set a \<union> set b \<union> set c \<union> set d \<union> set e \<union> set f. dec_digit x"
    and len: "length a = 4" "length b = 2" "length c = 2" "length d = 2" "length e = 2" "length f = 2"
    using assms unfolding rx_test_lang ISO8601_UTC_PATTERN_def mem_Cat [of _ "Times n r" for n r]
      mem_Cat_Lit mem_Lit mem_Times_Cls by (auto simp: ball_Un)
  have fields: "iso_fields s = (read_nat a, read_nat b, read_nat c, read_nat d, read_nat e, read_nat f)"
    using len by (simp add: s iso_fields_def)
  have "iso_string (iso_fields s) = a @ ''-'' @ b @ ''-'' @ c @ ''T'' @ d @ '':'' @ e @ '':'' @ f @ ''Z''"
    unfolding fields
    using digits len pad_read [of a] pad_read [of b] pad_read [of c] pad_read [of d] pad_read [of e]
      pad_read [of f] by (simp del: pad.simps)
  then show "s = iso_string (iso_fields s)"
    using s by (rule trans [OF _ sym, THEN sym])
  show "stamp_range (iso_fields s)"
    using digits len read_nat_bound [of a] read_nat_bound [of b] read_nat_bound [of c]
      read_nat_bound [of d] read_nat_bound [of e] read_nat_bound [of f]
    by (simp add: fields)
qed

section \<open>The order of the strings is the order of the stamps\<close>

lemma digit_less: "m < 10 \<Longrightarrow> n < 10 \<Longrightarrow> digit m < digit n \<longleftrightarrow> m < n"
  by (simp add: digit_def less_char_def)

lemma pad_less:
  "m < 10 ^ w \<Longrightarrow> n < 10 ^ w \<Longrightarrow> pad w m @ r < pad w n @ r' \<longleftrightarrow> m < n \<or> m = n \<and> r < r'"
proof (induction w arbitrary: m n r r')
  case (Suc w)
  have "m div 10 < 10 ^ w" and "n div 10 < 10 ^ w"
    using Suc.prems by (simp_all add: less_mult_imp_div_less mult.commute)
  then have "pad (Suc w) m @ r < pad (Suc w) n @ r' \<longleftrightarrow>
      m div 10 < n div 10 \<or> m div 10 = n div 10 \<and>
      (m mod 10 < n mod 10 \<or> digit (m mod 10) = digit (n mod 10) \<and> r < r')"
    by (simp add: Suc.IH digit_less)
  also have "digit (m mod 10) = digit (n mod 10) \<longleftrightarrow> m mod 10 = n mod 10"
    by (metis digit_value_digit mod_less_divisor zero_less_numeral)
  also have "m div 10 < n div 10 \<or> m div 10 = n div 10 \<and> (m mod 10 < n mod 10 \<or> m mod 10 = n mod 10 \<and> r < r') \<longleftrightarrow>
      m < n \<or> m = n \<and> r < r'"
    using div_mult_mod_eq [of m 10] div_mult_mod_eq [of n 10] mod_less_divisor [of 10 m] mod_less_divisor [of 10 n]
    by (smt (verit) div_le_mono less_le_not_le linorder_less_linear nat_add_left_cancel_less)
  finally show ?case .
qed simp

fun stamp_less :: "stamp \<Rightarrow> stamp \<Rightarrow> bool" where
  "stamp_less (y, mo, d, h, mi, s) (y', mo', d', h', mi', s') \<longleftrightarrow>
     y < y' \<or> y = y' \<and> (mo < mo' \<or> mo = mo' \<and> (d < d' \<or> d = d' \<and>
       (h < h' \<or> h = h' \<and> (mi < mi' \<or> mi = mi' \<and> s < s'))))"

lemma iso_string_less:
  "stamp_range f \<Longrightarrow> stamp_range g \<Longrightarrow> iso_string f < iso_string g \<longleftrightarrow> stamp_less f g"
  by (cases f; cases g) (simp add: pad_less del: pad.simps)

lemma stamp_seconds_less:
  assumes "valid_stamp f" and "valid_stamp g" and "stamp_less f g"
  shows "stamp_seconds f \<le> stamp_seconds g"
    and "fst (snd (snd (snd f))) \<le> 23 \<Longrightarrow> stamp_seconds f < stamp_seconds g"
proof -
  obtain y mo d h mi s where f: "f = (y, mo, d, h, mi, s)" by (cases f)
  obtain y' mo' d' h' mi' s' where g: "g = (y', mo', d', h', mi', s')" by (cases g)
  have cal: "calendar_date (int y) mo d" "calendar_date (int y') mo' d'"
    using assms by (simp_all add: f g)
  have day: "int h * 3600 + int mi * 60 + int s \<le> 86400" "h \<le> 23 \<Longrightarrow> int h * 3600 + int mi * 60 + int s < 86400"
    using assms(1) by (auto simp: f)
  consider "make_day (int y) mo d < make_day (int y') mo' d'"
    | "y = y'" "mo = mo'" "d = d'" "h < h' \<or> h = h' \<and> (mi < mi' \<or> mi = mi' \<and> s < s')"
    using assms(3) make_day_less [OF cal] by (auto simp: f g)
  then have "stamp_seconds f \<le> stamp_seconds g \<and> (h \<le> 23 \<longrightarrow> stamp_seconds f < stamp_seconds g)"
  proof cases
    case 1
    then have "make_day (int y) mo d * 86400 + 86400 \<le> make_day (int y') mo' d' * 86400" by simp
    then have "stamp_seconds g - stamp_seconds f \<ge> 86400 - (int h * 3600 + int mi * 60 + int s)"
      by (simp add: f g)
    then show ?thesis using day by linarith
  next
    case 2
    then show ?thesis using assms(1,2) by (auto simp: f g)
  qed
  then show "stamp_seconds f \<le> stamp_seconds g"
    and "fst (snd (snd (snd f))) \<le> 23 \<Longrightarrow> stamp_seconds f < stamp_seconds g"
    by (simp_all add: f)
qed


section \<open>toISOString and Date.parse\<close>

definition stamp_of :: "int \<Rightarrow> stamp" where
  "stamp_of t = (case stamp_of_seconds (t div 1000) of (y, r) \<Rightarrow> (nat y, r))"

definition four_digit_year :: "int \<Rightarrow> bool" where
  "four_digit_year t \<longleftrightarrow> 0 \<le> fst (stamp_of_seconds (t div 1000)) \<and> fst (stamp_of_seconds (t div 1000)) \<le> 9999"

lemma days_in_month_31: "m \<le> 12 \<Longrightarrow> 1 \<le> m \<Longrightarrow> days_in_month y m \<le> 31"
proof -
  assume m: "m \<le> 12" "1 \<le> m"
  have "\<forall>m \<in> {1..<13}. month_starts leap ! m - month_starts leap ! (m - 1) \<le> 31" for leap
    unfolding upt_conv_Cons [symmetric] atLeastLessThan_upt by (simp add: month_starts_def upt_rec)
  with m show ?thesis by (simp add: days_in_month_def)
qed

lemma stamp_of_valid:
  assumes "four_digit_year t"
  shows "valid_stamp (stamp_of t)" and "stamp_range (stamp_of t)"
    and "stamp_seconds (stamp_of t) = t div 1000" and "fst (snd (snd (snd (stamp_of t)))) \<le> 23"
proof -
  define u where "u = t div 1000"
  obtain y mo d where civil: "civil_from_day (u div 86400) = (y, mo, d)" by (cases "civil_from_day (u div 86400)")
  note c = civil_from_day_correct [OF civil]
  define r where "r = nat (u mod 86400)"
  have r: "r < 86400" "int r = u mod 86400" by (simp_all add: r_def nat_less_iff)
  have ss: "stamp_of_seconds u = (y, mo, d, r div 3600, r mod 3600 div 60, r mod 60)"
    by (simp add: stamp_of_seconds_def civil r_def Let_def)
  have y: "0 \<le> y" "y \<le> 9999" using assms by (simp_all add: four_digit_year_def u_def [symmetric] ss)
  have st: "stamp_of t = (nat y, mo, d, r div 3600, r mod 3600 div 60, r mod 60)"
    by (simp add: stamp_of_def u_def [symmetric] ss)
  have h: "r div 3600 \<le> 23" using r(1) by (simp add: div_le_mono less_mult_imp_div_less flip: less_Suc_eq_le)
  have mi: "r mod 3600 div 60 \<le> 59" by (simp add: less_mult_imp_div_less flip: less_Suc_eq_le)
  show "fst (snd (snd (snd (stamp_of t)))) \<le> 23" using h by (simp add: st)
  show "valid_stamp (stamp_of t)" using c y h mi by (simp add: st calendar_date_def flip: less_Suc_eq_le)
  show "stamp_range (stamp_of t)"
    using c y h mi days_in_month_31 [OF c(3,2), of y] by (simp add: st nat_less_iff)
  have sec: "r div 3600 * 3600 + r mod 3600 div 60 * 60 + r mod 60 = r"
  proof -
    have "r mod 60 = r mod 3600 mod 60" by (simp add: mod_mod_cancel)
    then have "r mod 3600 div 60 * 60 + r mod 60 = r mod 3600" by simp
    then show ?thesis by (metis add.assoc div_mult_mod_eq)
  qed
  have "int (r div 3600) * 3600 + int (r mod 3600 div 60) * 60 + int (r mod 60) = int r"
    using arg_cong [OF sec, of int] by (simp only: of_nat_add of_nat_mult of_nat_numeral)
  then show "stamp_seconds (stamp_of t) = t div 1000"
    using c(1) y r(2) div_mult_mod_eq [of u 86400]
    unfolding st u_def [symmetric] stamp_seconds.simps by (simp only: int_nat_eq if_True)
qed

lemma to_iso_string_four_digit:
  assumes "four_digit_year t"
  shows "to_iso_string (Some t) =
    Inr (take 19 (iso_string (stamp_of t)) @ ''.'' @ pad 3 (nat (t mod 1000)) @ ''Z'')"
  using assms
  by (auto simp: to_iso_string_def stamp_of_def four_digit_year_def iso_year_def simp del: pad.simps
      split: prod.splits)

lemma iso_seconds_stamp:
  assumes "four_digit_year t"
  shows "iso_seconds (Some t) = Inr (iso_string (stamp_of t))"
proof -
  let ?s = "iso_string (stamp_of t)"
  have Z: "?s = take 19 ?s @ ''Z''" by (cases "stamp_of t") simp
  have "strip_millis (take 19 ?s @ ''.'' @ pad 3 n @ ''Z'') = take 19 ?s @ ''Z''" for n
    by (auto simp: strip_millis_def nth_append simp del: pad.simps dest: pad_digits)
  then show ?thesis
    using Z by (simp add: iso_seconds_def to_iso_string_four_digit [OF assms] del: pad.simps)
qed

lemma iso_parse_stamp: "stamp_range f \<Longrightarrow> valid_stamp f \<Longrightarrow> iso_parse (iso_string f) = Some (stamp_seconds f * 1000)"
  by (simp add: iso_parse_def iso_pattern_string iso_fields_string)

lemma iso_seconds_parse:
  assumes "four_digit_year t"
  shows "\<exists>s. iso_seconds (Some t) = Inr s \<and> rx_test ISO8601_UTC_PATTERN s \<and> iso_parse s = Some (t div 1000 * 1000)"
  using assms by (simp add: iso_seconds_stamp iso_pattern_string iso_parse_stamp stamp_of_valid)

lemma iso_parse_pattern:
  assumes "rx_test ISO8601_UTC_PATTERN s"
  shows "iso_parse s = (if valid_stamp (iso_fields s) then Some (stamp_seconds (iso_fields s) * 1000) else None)"
proof -
  have "length s = 20" by (metis assms iso_pattern_fields(1) length_iso_string)
  then show ?thesis using assms by (simp add: iso_parse_def)
qed

text \<open>On stamps that name a moment, comparing the strings compares the moments.\<close>

lemma iso_parse_order:
  assumes "rx_test ISO8601_UTC_PATTERN s" and "rx_test ISO8601_UTC_PATTERN t"
    and "iso_parse s = Some a" and "iso_parse t = Some b" and "s \<le> t"
  shows "a \<le> b"
proof (cases "s = t")
  case True
  with assms(3,4) show ?thesis by simp
next
  case False
  then have "stamp_less (iso_fields s) (iso_fields t)"
    using assms iso_pattern_fields by (metis iso_string_less order_le_less)
  then show ?thesis
    using assms by (auto simp: iso_parse_pattern stamp_seconds_less split: if_splits)
qed

lemma stamp_of_seconds_stamp:
  assumes "calendar_date y mo d" and "h < 24" and "mi < 60" and "s < 60"
  shows "stamp_of_seconds (make_day y mo d * 86400 + int h * 3600 + int mi * 60 + int s) = (y, mo, d, h, mi, s)"
proof -
  let ?r = "h * 3600 + mi * 60 + s"
  have r: "?r < 86400" using assms by linarith
  have eq: "make_day y mo d * 86400 + int h * 3600 + int mi * 60 + int s = 86400 * make_day y mo d + int ?r" by simp
  have "(make_day y mo d * 86400 + int h * 3600 + int mi * 60 + int s) div 86400 = make_day y mo d"
    and "nat ((make_day y mo d * 86400 + int h * 3600 + int mi * 60 + int s) mod 86400) = ?r"
    unfolding eq using r by (simp_all add: div_add1_eq div_pos_pos_trivial mod_pos_pos_trivial nat_int del: of_nat_add of_nat_mult)
  moreover have "?r div 3600 = h" "?r mod 3600 div 60 = mi" "?r mod 60 = s"
  proof -
    have "mi * 60 + s < 3600" using assms by linarith
    then show "?r div 3600 = h" and "?r mod 3600 div 60 = mi" using assms by (simp_all add: add.assoc)
    have "?r = 60 * (h * 60 + mi) + s" by simp
    then show "?r mod 60 = s" using assms(4) by (metis mod_less mod_mult_self4 add.commute)
  qed
  ultimately show ?thesis
    using civil_from_day_make_day [OF assms(1)] by (simp only: stamp_of_seconds_def prod.case Let_def)
qed

lemma stamp_of_stamp:
  assumes "valid_stamp f" and "stamp_range f" and "fst (snd (snd (snd f))) \<le> 23"
  shows "four_digit_year (stamp_seconds f * 1000) \<and> stamp_of (stamp_seconds f * 1000) = f"
proof -
  obtain y mo d h mi s where f: "f = (y, mo, d, h, mi, s)" by (cases f)
  have "stamp_of_seconds (stamp_seconds f) = (int y, mo, d, h, mi, s)"
    unfolding f stamp_seconds.simps by (rule stamp_of_seconds_stamp) (use assms in \<open>auto simp: f\<close>)
  moreover have "stamp_seconds f * 1000 div 1000 = stamp_seconds f" by simp
  ultimately show ?thesis
    using assms(2) unfolding four_digit_year_def stamp_of_def by (simp only:) (simp add: f)
qed

lemma iso_seconds_of_stamp:
  assumes "valid_stamp f" and "stamp_range f" and "fst (snd (snd (snd f))) \<le> 23"
  shows "iso_seconds (Some (stamp_seconds f * 1000)) = Inr (iso_string f)"
  using stamp_of_stamp [OF assms] iso_seconds_stamp by simp

lemma find_month_numeral:
  "find_month l d (numeral k) = (if month_starts l ! pred_numeral k \<le> d then numeral k else find_month l d (pred_numeral k))"
  unfolding numeral_eq_Suc [of k] by (rule find_month.simps(2))

lemma pad_numeral: "pad (numeral k) n = pad (pred_numeral k) (n div 10) @ [digit (n mod 10)]"
  unfolding numeral_eq_Suc [of k] by (rule pad.simps(2))

lemma digit_numerals:
  "digit 0 = CHR ''0''" "digit (Suc 0) = CHR ''1''" "digit 2 = CHR ''2''" "digit 3 = CHR ''3''" "digit 4 = CHR ''4''"
  "digit 5 = CHR ''5''" "digit 6 = CHR ''6''" "digit 7 = CHR ''7''" "digit 8 = CHR ''8''" "digit 9 = CHR ''9''"
  by (simp_all add: digit_def char_of_def bit_0)

text \<open>A date used in the examples.\<close>

lemma sample_date: "iso_seconds (Some 1736951400000) = Inr ''2025-01-15T14:30:00Z''"
proof -
  let ?f = "(2025, 1, 15, 14, 30, 0) :: stamp"
  have "stamp_seconds ?f = 1736951400" and "valid_stamp ?f"
    by (simp_all add: make_day_def day_from_year_def month_start_def leap_year_def month_starts_def
        calendar_date_def days_in_month_def)
  then show ?thesis
    using iso_seconds_of_stamp [of ?f] by (simp add: pad_numeral digit_numerals)
qed

end
