(* ===== verification/Encoding.thy ===== *)
theory Encoding
  imports Regex
begin

text \<open>
  The three encodings every hash passes through (JSON string quoting, UTF-8, hexadecimal) lose
  nothing: each is injective, and a quoted string is recognised at the head of a longer text.
\<close>

section \<open>Reading a quoted string back\<close>

definition hex_value :: "char \<Rightarrow> nat" where
  "hex_value c = (let n = of_char c :: nat in if n \<le> 57 then n - 48 else n - 87)"

lemma hex_value_digit [simp]: "n < 16 \<Longrightarrow> hex_value (hex_digit n) = n"
  by (auto simp: hex_value_def hex_digit_def Let_def)

definition escape_value :: "char \<Rightarrow> char" where
  "escape_value c = (if c = CHR ''b'' then CHR 0x08 else if c = CHR ''t'' then CHR 0x09
     else if c = CHR ''n'' then CHR 0x0A else if c = CHR ''f'' then CHR 0x0C
     else if c = CHR ''r'' then CHR 0x0D else c)"

fun unquote_char :: "string \<Rightarrow> char \<times> string" where
  "unquote_char (c # d # s) = (if c \<noteq> CHR 0x5C then (c, d # s)
     else if d = CHR ''u'' then (char_of (16 * hex_value (s ! 2) + hex_value (s ! 3)), drop 4 s)
     else (escape_value d, s))"
| "unquote_char s = (hd s, tl s)"

lemma unat_byte: "unat (b :: byte) < 256"
proof -
  have "unat b < 2 ^ LENGTH(8)" by (rule unsigned_less)
  then show ?thesis by simp
qed

lemma map_unat_inj: "map unat (r :: bytes) = map unat r' \<Longrightarrow> r = r'"
  by (rule list.inj_map_strong) (auto intro: unsigned_word_eqI)

lemma unat_of_nat_byte: "n < 256 \<Longrightarrow> unat (of_nat n :: byte) = n"
  by (simp add: unsigned_of_nat take_bit_nat_eq_self)

lemma unquote_quote_char: "unquote_char (quote_char c @ d # r) = (c, d # r)"
proof -
  have c: "char_of (of_char c :: nat) = c" by simp
  have "of_char c = (n::nat) \<Longrightarrow> c = char_of n" for n by auto
  then show ?thesis
    using c by (auto simp: quote_char_def Let_def escape_value_def char_of_def bit_0)
qed

lemma quote_char_hd: "\<exists>x y. quote_char c = x # y \<and> x \<noteq> CHR 0x22"
  by (auto simp: quote_char_def Let_def)

lemma quote_chars_inj:
  "concat (map quote_char s) @ CHR 0x22 # r = concat (map quote_char t) @ CHR 0x22 # r' \<Longrightarrow> s = t \<and> r = r'"
proof (induction s arbitrary: t)
  case Nil
  then show ?case
  proof (cases t)
    case (Cons d t')
    then show ?thesis using Nil.prems quote_char_hd [of d] by auto
  qed simp
next
  case (Cons c s)
  show ?case
  proof (cases t)
    case Nil
    then show ?thesis using Cons.prems quote_char_hd [of c] by auto
  next
    case (Cons d t')
    obtain x u where u: "concat (map quote_char s) @ CHR 0x22 # r = x # u"
      by (cases "concat (map quote_char s)") auto
    obtain y v where v: "concat (map quote_char t') @ CHR 0x22 # r' = y # v"
      by (cases "concat (map quote_char t')") auto
    have "quote_char c @ x # u = quote_char d @ y # v"
      using Cons.prems Cons u v by simp
    then have "c = d \<and> x # u = y # v"
      by (metis Pair_inject unquote_quote_char)
    then show ?thesis using Cons.IH [of t'] Cons u v by simp
  qed
qed

lemma json_quote_inj: "json_quote s @ r = json_quote t @ r' \<longleftrightarrow> s = t \<and> r = r'"
  using quote_chars_inj [of s r t r'] by (auto simp: json_quote_def)

section \<open>Injectivity of UTF-8 and hexadecimal\<close>

lemma hex_byte_inj: "hex_byte a = hex_byte b \<Longrightarrow> a = b"
proof -
  assume "hex_byte a = hex_byte b"
  moreover have "unat a div 16 < 16" "unat b div 16 < 16"
    using unat_byte [of a] unat_byte [of b] by (simp_all add: less_mult_imp_div_less)
  ultimately have "unat a div 16 = unat b div 16" and "unat a mod 16 = unat b mod 16"
    unfolding hex_byte_def by (metis hex_value_digit list.inject mod_less_divisor zero_less_numeral)+
  then have "unat a = unat b" by (metis div_mult_mod_eq)
  then show "a = b" by (rule unsigned_word_eqI)
qed

lemma length_hex_encode [simp]: "length (hex_encode bs) = 2 * length bs"
  by (induction bs) (simp_all add: hex_encode_def hex_byte_def)

lemma hex_encode_inj: "hex_encode as = hex_encode bs \<Longrightarrow> as = bs"
proof (induction as arbitrary: bs)
  case Nil
  then show ?case by (cases bs) (simp_all add: hex_encode_def hex_byte_def)
next
  case (Cons a as)
  then obtain b bs' where bs: "bs = b # bs'" by (cases bs) (simp_all add: hex_encode_def hex_byte_def)
  then have "hex_byte a = hex_byte b" and "hex_encode as = hex_encode bs'"
    using Cons.prems by (simp_all add: hex_encode_def hex_byte_def)
  then show ?case using Cons.IH hex_byte_inj bs by blast
qed

lemma hex_digit_lower: "n < 16 \<Longrightarrow> lower_hex (hex_digit n)"
  by (auto simp: hex_digit_def lower_hex_def between_def dec_digit_def)

lemma hex_encode_lower: "c \<in> set (hex_encode bs) \<Longrightarrow> lower_hex c"
proof -
  have "unat b div 16 < 16" for b :: byte
    using unat_byte [of b] by (simp add: less_mult_imp_div_less)
  then show "c \<in> set (hex_encode bs) \<Longrightarrow> lower_hex c"
    by (auto simp: hex_encode_def hex_byte_def intro: hex_digit_lower)
qed

lemma utf8_char_cases:
  obtains n where "n < 128" "of_char c = n" "map unat (utf8_char c) = [n]"
  | n where "128 \<le> n" "n < 256" "of_char c = n" "map unat (utf8_char c) = [192 + n div 64, 128 + n mod 64]"
proof -
  have lt: "of_char c < (256 :: nat)" by simp
  show thesis
  proof (cases "of_char c < (128 :: nat)")
    case True
    then show ?thesis using that(1) [of "of_char c"] by (simp add: utf8_char_def unat_of_nat_byte)
  next
    case False
    moreover have "192 + of_char c div 64 < (256 :: nat)" and "128 + of_char c mod 64 < (256 :: nat)"
      using div_less_iff_less_mult [of 64 "of_char c" 64] mod_less_divisor [of 64 "of_char c"] lt
      by simp_all
    ultimately have "map unat (utf8_char c) = [192 + of_char c div 64, 128 + of_char c mod 64]"
      unfolding utf8_char_def Let_def by (simp only: if_False list.map unat_of_nat_byte)
    then show ?thesis using that(2) [of "of_char c"] lt False by simp
  qed
qed

lemma utf8_char_inj:
  assumes "utf8_char c @ r = utf8_char d @ r'"
  shows "c = d \<and> r = r'"
proof -
  have eq: "map unat (utf8_char c) @ map unat r = map unat (utf8_char d) @ map unat r'"
    using assms by (metis map_append)
  show ?thesis
  proof (cases rule: utf8_char_cases [of c]; cases rule: utf8_char_cases [of d])
    fix m n assume *: "m < 128" "of_char c = m" "map unat (utf8_char c) = [m]"
      "n < 128" "of_char d = n" "map unat (utf8_char d) = [n]"
    then have "(of_char c :: nat) = of_char d" and "map unat r = map unat r'" using eq by simp_all
    then show ?thesis by (simp add: map_unat_inj)
  next
    fix m n assume *: "128 \<le> m" "of_char c = m" "map unat (utf8_char c) = [192 + m div 64, 128 + m mod 64]"
      "128 \<le> n" "of_char d = n" "map unat (utf8_char d) = [192 + n div 64, 128 + n mod 64]"
    then have "m div 64 = n div 64" "m mod 64 = n mod 64" "map unat r = map unat r'" using eq by simp_all
    then have "m = n" "map unat r = map unat r'" by (metis div_mult_mod_eq)+
    moreover have "(of_char c :: nat) = of_char d" using * \<open>m = n\<close> by simp
    ultimately show ?thesis by (simp add: map_unat_inj)
  qed (use eq in simp_all)
qed

lemma utf8_encode_inj: "utf8_encode s = utf8_encode t \<Longrightarrow> s = t"
proof (induction s arbitrary: t)
  case Nil
  then show ?case by (cases t) (auto simp: utf8_encode_def utf8_char_def Let_def split: if_splits)
next
  case (Cons c s)
  then obtain d t' where t: "t = d # t'"
    by (cases t) (auto simp: utf8_encode_def utf8_char_def Let_def split: if_splits)
  then have "utf8_char c @ utf8_encode s = utf8_char d @ utf8_encode t'"
    using Cons.prems by (simp add: utf8_encode_def)
  then show ?case using utf8_char_inj Cons.IH t by blast
qed

end
