(* ===== verification/CanonicalJson.thy ===== *)
theory CanonicalJson
  imports JsDate Encoding
begin

text \<open>
  \<open>packages/protocol/src/canonical/canonicalize.ts\<close>: the deterministic serialization that every
  hash of the protocol is taken of.  JavaScript values are \<open>json\<close> (an object is its property
  list; \<open>JUndef\<close> is \<open>undefined\<close>); a number is its shortest decimal form
  \<open>Num negative m e\<close> = \<open>m * 10 ^ e\<close>, the form \<open>Number.prototype.toString\<close> prints.
  The lemmas: which values are refused, that the order in which properties were written is
  irrelevant, and that on values whose numbers print without an exponent the serialization can be
  read back uniquely.
\<close>

section \<open>JavaScript values\<close>

datatype jsnum = NaN | Infinite bool | Num bool nat int

datatype json =
    JNull
  | JBool bool
  | JNum jsnum
  | JStr string
  | JArr "json list"
  | JObj "(string \<times> json) list"
  | JUndef

definition int_num :: "int \<Rightarrow> jsnum" where
  "int_num i = Num (i < 0) (nat \<bar>i\<bar>) 0"

fun is_finite :: "jsnum \<Rightarrow> bool" where
  "is_finite (Num neg m e) = True"
| "is_finite n = False"

fun is_integer :: "jsnum \<Rightarrow> bool" where
  "is_integer (Num neg m e) \<longleftrightarrow> 0 \<le> e \<or> 10 ^ nat (- e) dvd m"
| "is_integer n = False"

fun num_positive :: "jsnum \<Rightarrow> bool" where
  "num_positive (Num neg m e) \<longleftrightarrow> \<not> neg \<and> m \<noteq> 0"
| "num_positive (Infinite neg) \<longleftrightarrow> \<not> neg"
| "num_positive NaN \<longleftrightarrow> False"

text \<open>The value of an integral number; the rounded quotient otherwise.\<close>

fun int_of_num :: "jsnum \<Rightarrow> int" where
  "int_of_num (Num neg m e) = (if neg then - 1 else 1) *
     (if 0 \<le> e then int m * 10 ^ nat e else int m div 10 ^ nat (- e))"
| "int_of_num x = 0"

text \<open>\<open>Number.prototype.toString\<close> (ECMAScript, Number::toString) on the shortest decimal form.\<close>

definition decimal_to_string :: "nat \<Rightarrow> int \<Rightarrow> string" where
  "decimal_to_string m e = (let ds = show_nat m; k = length ds; n = int k + e in
     if int k \<le> n \<and> n \<le> 21 then ds @ replicate (nat (n - int k)) (CHR ''0'')
     else if 0 < n \<and> n \<le> 21 then take (nat n) ds @ ''.'' @ drop (nat n) ds
     else if - 6 < n \<and> n \<le> 0 then ''0.'' @ replicate (nat (- n)) (CHR ''0'') @ ds
     else (if k = 1 then ds else take 1 ds @ ''.'' @ drop 1 ds) @ ''e'' @
       (if 0 < n - 1 then ''+'' else ''-'') @ show_nat (nat \<bar>n - 1\<bar>))"

fun number_to_string :: "jsnum \<Rightarrow> string" where
  "number_to_string NaN = ''NaN''"
| "number_to_string (Infinite neg) = (if neg then ''-Infinity'' else ''Infinity'')"
| "number_to_string (Num neg m e) =
     (if m = 0 then ''0'' else (if neg then ''-'' else []) @ decimal_to_string m e)"

text \<open>The default comparison of \<open>Array.prototype.sort\<close>: by UTF-16 code units.\<close>

definition code_unit_compare :: "string \<Rightarrow> string \<Rightarrow> int" where
  "code_unit_compare s t = (if s < t then - 1 else if s = t then 0 else 1)"

interpretation code_units: strict_comparator code_unit_compare
  by unfold_locales (auto simp: code_unit_compare_def split: if_splits)

section \<open>canonicalizeJSON\<close>

text \<open>\<open>s.replace(/0+$/, '')\<close>.\<close>

definition strip_zeros :: "string \<Rightarrow> string" where
  "strip_zeros s = rev (dropWhile (\<lambda>c. c = CHR ''0'') (rev s))"

definition canonicalize_number :: "jsnum \<Rightarrow> string result" where
  "canonicalize_number x =
     (if \<not> is_finite x then Inl (Error ''Non-finite numbers are not supported in canonical JSON'')
      else if is_integer x then Inr (number_to_string x)
      else let s = number_to_string x in
        if CHR ''.'' \<in> set s
        then let s = strip_zeros s in Inr (if ends_with s ''.'' then butlast s else s)
        else Inr s)"

text \<open>\<open>xs.map(f)\<close> where \<open>f\<close> may throw.\<close>

fun map_result :: "('a \<Rightarrow> 'e + 'b) \<Rightarrow> 'a list \<Rightarrow> 'e + 'b list" where
  "map_result f [] = Inr []"
| "map_result f (x # xs) = bind_result (f x) (\<lambda>y. bind_result (map_result f xs) (\<lambda>ys. Inr (y # ys)))"

lemma map_result_cong [fundef_cong]:
  "xs = ys \<Longrightarrow> (\<And>x. x \<in> set ys \<Longrightarrow> f x = g x) \<Longrightarrow> map_result f xs = map_result g ys"
  by (induction xs arbitrary: ys) (auto simp: bind_result_def split: sum.splits)

definition compare_keys :: "string \<times> 'a \<Rightarrow> string \<times> 'a \<Rightarrow> int" where
  "compare_keys p q = code_unit_compare (fst p) (fst q)"

definition sort_keys :: "(string \<times> 'a) list \<Rightarrow> (string \<times> 'a) list" where
  "sort_keys kvs = sort_cmp compare_keys kvs"

lemma set_sort_keys [simp]: "set (sort_keys kvs) = set kvs"
  by (simp add: sort_keys_def)

lemma size_property [termination_simp]: "(k, v) \<in> set kvs \<Longrightarrow> size v < size_list (size_prod size size) kvs"
  by (induction kvs) auto

lemma size_property' [termination_simp]: "(k, v) \<in> set kvs \<Longrightarrow> size v < Suc (size_list (size_prod (\<lambda>_. 0) size) kvs)"
  by (induction kvs) auto

fun canonicalizeJSON :: "json \<Rightarrow> string result" where
  "canonicalizeJSON JNull = Inr ''null''"
| "canonicalizeJSON (JStr s) = Inr (json_quote s)"
| "canonicalizeJSON (JNum x) = canonicalize_number x"
| "canonicalizeJSON (JBool b) = Inr (if b then ''true'' else ''false'')"
| "canonicalizeJSON (JArr vs) =
     bind_result (map_result (\<lambda>v. canonicalizeJSON v) vs) (\<lambda>items. Inr (''['' @ join '','' items @ '']''))"
| "canonicalizeJSON (JObj kvs) =
     bind_result (map_result (\<lambda>(k, v). bind_result (canonicalizeJSON v) (\<lambda>s. Inr (json_quote k @ '':'' @ s)))
         (sort_keys kvs))
       (\<lambda>pairs. Inr (''{'' @ join '','' pairs @ ''}''))"
| "canonicalizeJSON JUndef = Inl (Error ''Unsupported type in canonical JSON: undefined'')"

section \<open>Order of properties\<close>

interpretation key_order: comparator_order compare_keys
proof
  show "compare_keys p p = 0" for p :: "string \<times> 'a"
    by (simp add: compare_keys_def code_units.cmp_refl)
  show "compare_keys p q \<le> 0 \<longleftrightarrow> 0 \<le> compare_keys q p" for p q :: "string \<times> 'a"
    unfolding compare_keys_def by (rule code_units.cmp_sym)
  show "compare_keys p q \<le> 0 \<Longrightarrow> compare_keys q r \<le> 0 \<Longrightarrow> compare_keys p r \<le> 0" for p q r :: "string \<times> 'a"
    unfolding compare_keys_def by (rule code_units.cmp_trans)
qed

lemma compare_keys_eq: "compare_keys p q \<le> 0 \<Longrightarrow> compare_keys q p \<le> 0 \<Longrightarrow> fst p = fst q"
  by (simp add: compare_keys_def code_units.cmp_antisym)

lemma sort_keys_cong:
  assumes "mset kvs = mset kvs'" and "distinct (map fst kvs)"
  shows "sort_keys kvs = sort_keys kvs'"
  unfolding sort_keys_def
  using assms key_order.sorted_sort_cmp
  by (intro key_order.sorted_unique_on) (auto dest!: compare_keys_eq simp: distinct_map inj_on_def)

lemma insert_cmp_map:
  "map f (insert_cmp (\<lambda>x y. cmp (f x) (f y)) x xs) = insert_cmp cmp (f x) (map f xs)"
  by (induction xs) auto

lemma sort_keys_map_values: "sort_keys (map (apsnd f) kvs) = map (apsnd f) (sort_keys kvs)"
proof -
  have "insert_cmp compare_keys (apsnd f p) (map (apsnd f) qs) = map (apsnd f) (insert_cmp compare_keys p qs)" for p qs
    by (induction qs) (auto simp: compare_keys_def)
  then show ?thesis by (induction kvs) (simp_all add: sort_keys_def)
qed

lemma sort_keys_idem [simp]: "sort_keys (sort_keys kvs) = sort_keys kvs"
  by (simp add: sort_keys_def)

lemma distinct_fst_sort_keys [simp]: "distinct (map fst (sort_keys kvs)) = distinct (map fst kvs)"
proof -
  have "mset (map fst (sort_keys kvs)) = mset (map fst kvs)" by (simp add: sort_keys_def)
  then show ?thesis by (rule mset_eq_imp_distinct_iff)
qed

text \<open>The value with the properties of every object in the order they are rendered.\<close>

fun canon :: "json \<Rightarrow> json" where
  "canon (JArr vs) = JArr (map (\<lambda>v. canon v) vs)"
| "canon (JObj kvs) = JObj (sort_keys (map (\<lambda>(k, v). (k, canon v)) kvs))"
| "canon v = v"

fun render :: "json \<Rightarrow> string" where
  "render JNull = ''null''"
| "render (JStr s) = json_quote s"
| "render (JNum x) = (case canonicalize_number x of Inr s \<Rightarrow> s | Inl e \<Rightarrow> [])"
| "render (JBool b) = (if b then ''true'' else ''false'')"
| "render (JArr vs) = ''['' @ join '','' (map (\<lambda>v. render v) vs) @ '']''"
| "render (JObj kvs) = ''{'' @ join '','' (map (\<lambda>(k, v). json_quote k @ '':'' @ render v) kvs) @ ''}''"
| "render JUndef = []"

lemma sort_keys_canon [simp]:
  "sort_keys (map (\<lambda>(k, v). (k, canon v)) kvs) = map (\<lambda>(k, v). (k, canon v)) (sort_keys kvs)"
  using sort_keys_map_values [of canon kvs] by (simp add: apsnd_def map_prod_def split_def)

lemma map_result_Inr: "map_result f xs = Inr ys \<longleftrightarrow> list_all2 (\<lambda>x y. f x = Inr y) xs ys"
  by (induction xs arbitrary: ys) (auto simp: result_simps list_all2_Cons1)

lemma list_all2_map_eq: "list_all2 (\<lambda>x y. y = g x) xs ys \<longleftrightarrow> ys = map g xs"
  by (induction xs arbitrary: ys) (auto simp: list_all2_Cons1)

lemma map_result_Inr_map:
  assumes "map_result f xs = Inr ys" and "\<And>x y. x \<in> set xs \<Longrightarrow> f x = Inr y \<Longrightarrow> y = g x"
  shows "ys = map g xs"
proof -
  have "list_all2 (\<lambda>x y. y = g x) xs ys"
    using assms unfolding map_result_Inr by (auto intro: list.rel_mono_strong)
  then show ?thesis by (simp add: list_all2_map_eq)
qed

lemma canonicalize_render: "canonicalizeJSON v = Inr s \<Longrightarrow> s = render (canon v)"
proof (induction v arbitrary: s rule: canonicalizeJSON.induct)
  case (5 vs)
  then obtain items where m: "map_result canonicalizeJSON vs = Inr items" and s: "s = ''['' @ join '','' items @ '']''"
    by (auto simp: result_simps)
  have "items = map (\<lambda>v. render (canon v)) vs"
    using m 5(1) by (rule map_result_Inr_map) 
  then show ?case by (simp add: s comp_def)
next
  case (6 kvs)
  let ?g = "\<lambda>(k, v). json_quote k @ '':'' @ render (canon v)"
  obtain pairs where m: "map_result (\<lambda>(k, v). bind_result (canonicalizeJSON v) (\<lambda>s. Inr (json_quote k @ '':'' @ s)))
      (sort_keys kvs) = Inr pairs" and s: "s = ''{'' @ join '','' pairs @ ''}''"
    using 6(2) by (auto simp: result_simps)
  have IH: "(k, v) \<in> set kvs \<Longrightarrow> canonicalizeJSON v = Inr t \<Longrightarrow> t = render (canon v)" for k v t
    using 6(1) [of "(k, v)" k v t] by simp
  have "pairs = map ?g (sort_keys kvs)"
    using m by (rule map_result_Inr_map) (auto simp: result_simps split: prod.splits dest: IH)
  then show ?case by (simp add: s) (simp add: comp_def split_def)
qed auto

lemma map_result_cong_map:
  "(\<And>x. x \<in> set xs \<Longrightarrow> f x = g (h x)) \<Longrightarrow> map_result f xs = map_result g (map h xs)"
  by (induction xs) auto

lemma canonicalize_canon: "canonicalizeJSON (canon v) = canonicalizeJSON v"
proof (induction v rule: canonicalizeJSON.induct)
  case (5 vs)
  then show ?case by (simp add: map_result_cong_map [symmetric, where f = canonicalizeJSON])
next
  case (6 kvs)
  then show ?case
    by (auto intro!: arg_cong2 [where f = bind_result] map_result_cong_map [symmetric] split: prod.splits)
qed simp_all

text \<open>Values that differ only in the order of properties have one serialization.\<close>

lemma canonicalize_cong: "canon u = canon v \<Longrightarrow> canonicalizeJSON u = canonicalizeJSON v"
  by (metis canonicalize_canon)

lemma canonicalize_permuted:
  "mset kvs = mset kvs' \<Longrightarrow> distinct (map fst kvs) \<Longrightarrow> canonicalizeJSON (JObj kvs) = canonicalizeJSON (JObj kvs')"
  by (simp add: sort_keys_cong)


section \<open>The serialization can be read back\<close>

text \<open>
  Numbers in the range where \<open>toString\<close> writes no exponent, in normal form (no trailing zero in
  the mantissa, no negative zero).
\<close>

fun plain_num :: "jsnum \<Rightarrow> bool" where
  "plain_num (Num neg m e) \<longleftrightarrow> (if m = 0 then \<not> neg \<and> e = 0
     else \<not> 10 dvd m \<and> - 6 < int (length (show_nat m)) + e \<and> int (length (show_nat m)) + e \<le> 21)"
| "plain_num n = False"

fun plain :: "json \<Rightarrow> bool" where
  "plain (JNum x) = plain_num x"
| "plain (JArr vs) = (\<forall>v \<in> set vs. plain v)"
| "plain (JObj kvs) = (\<forall>(k, v) \<in> set kvs. plain v)"
| "plain JUndef = False"
| "plain v = True"

definition number_char :: "char \<Rightarrow> bool" where
  "number_char c \<longleftrightarrow> dec_digit c \<or> c = CHR ''-'' \<or> c = CHR ''.''"

text \<open>Sign, digits and length of the fraction of a number's text.\<close>

definition number_parts :: "string \<Rightarrow> bool \<times> nat \<times> nat" where
  "number_parts s = (hd s = CHR ''-'', read_nat (filter is_digit s),
     length (tl (dropWhile (\<lambda>c. c \<noteq> CHR ''.'') s)))"

lemma read_nat_append: "read_nat (s @ t) = read_nat s * 10 ^ length t + read_nat t"
proof (induction t rule: rev_induct)
  case (snoc c t)
  then show ?case
    by (simp add: read_nat_snoc distrib_left flip: append_assoc)
qed (simp add: read_nat_def)

lemma read_nat_zeros [simp]: "read_nat (replicate n (CHR ''0'')) = 0"
  by (induction n) (simp_all add: read_nat_def digit_value_def)

lemma read_nat_zero [simp]: "read_nat (CHR ''0'' # s) = read_nat s"
  by (simp add: read_nat_def digit_value_def)

lemma filter_digits [simp]: "filter is_digit (show_nat m) = show_nat m"
  using show_nat_digits by (simp add: filter_id_conv)

lemma digits_no_dot: "dropWhile (\<lambda>c. c \<noteq> CHR ''.'') (show_nat m) = []"
  using show_nat_digits [of m] by (auto simp: is_digit_def)

lemma last_show_nat: "last (show_nat m) = digit (m mod 10)"
  by (subst show_nat.simps) simp

lemma strip_zeros_id: "s \<noteq> [] \<Longrightarrow> last s \<noteq> CHR ''0'' \<Longrightarrow> strip_zeros s = s"
  by (simp add: strip_zeros_def dropWhile_hd hd_rev)

lemma digit_inject: "m < 10 \<Longrightarrow> n < 10 \<Longrightarrow> digit m = digit n \<longleftrightarrow> m = n"
  by (metis digit_value_digit)

text \<open>The three shapes of a number's text that have no exponent.\<close>

lemma plain_decimal_cases:
  assumes "plain_num (Num neg m e)" and "m \<noteq> 0"
  obtains (whole) "0 \<le> e" "decimal_to_string m e = show_nat m @ replicate (nat e) (CHR ''0'')"
  | (split) a b where "e < 0" "a @ b = show_nat m" "a \<noteq> []" "b \<noteq> []" "length b = nat (- e)"
      "decimal_to_string m e = a @ ''.'' @ b"
  | (small) z where "e < 0" "length z + length (show_nat m) = nat (- e)" "z = replicate (length z) (CHR ''0'')"
      "decimal_to_string m e = ''0.'' @ z @ show_nat m"
proof -
  let ?ds = "show_nat m"
  let ?k = "length ?ds"
  let ?n = "int ?k + e"
  have n: "- 6 < ?n" "?n \<le> 21" using assms by auto
  consider "0 \<le> e" | "e < 0" "0 < ?n" | "e < 0" "?n \<le> 0" by linarith
  then show thesis
  proof cases
    case 1
    then show ?thesis using n by (intro whole) (simp_all add: decimal_to_string_def Let_def)
  next
    case 2
    show ?thesis
    proof (rule split [of "take (nat ?n) ?ds" "drop (nat ?n) ?ds"])
      show "decimal_to_string m e = take (nat ?n) ?ds @ ''.'' @ drop (nat ?n) ?ds"
        using n 2 by (simp add: decimal_to_string_def Let_def)
    qed (use 2 in auto)
  next
    case 3
    show ?thesis
    proof (rule small [of "replicate (nat (- ?n)) (CHR ''0'')"])
      show "decimal_to_string m e = ''0.'' @ replicate (nat (- ?n)) (CHR ''0'') @ ?ds"
        using n 3 by (simp add: decimal_to_string_def Let_def)
    qed (use 3 in auto)
  qed
qed

lemma is_integer_plain:
  assumes "plain_num (Num neg m e)"
  shows "is_integer (Num neg m e) \<longleftrightarrow> m = 0 \<or> 0 \<le> e"
proof (cases "m = 0 \<or> 0 \<le> e")
  case False
  then have "(10 :: nat) dvd 10 ^ nat (- e)" by (simp add: dvd_power)
  moreover have "\<not> 10 dvd m" using assms False by auto
  ultimately have "\<not> 10 ^ nat (- e) dvd m" using dvd_trans by blast
  then show ?thesis using False by simp
qed auto

lemma last_digit_plain:
  assumes "plain_num (Num neg m e)" and "m \<noteq> 0"
  shows "last (show_nat m) \<noteq> CHR ''0''" and "last (show_nat m) \<noteq> CHR ''.''"
proof -
  have "m mod 10 \<noteq> 0" using assms by (auto simp: dvd_eq_mod_eq_0)
  then have "digit (m mod 10) \<noteq> digit 0" by (simp add: digit_inject)
  moreover have "digit 0 = CHR ''0''" by (simp add: digit_def char_of_def bit_0)
  ultimately show "last (show_nat m) \<noteq> CHR ''0''" by (simp add: last_show_nat)
  have "is_digit (last (show_nat m))" using show_nat_digits by (metis last_in_set show_nat_nonempty)
  then show "last (show_nat m) \<noteq> CHR ''.''" by (auto simp: is_digit_def)
qed

lemma ends_with_last: "s \<noteq> [] \<Longrightarrow> ends_with s [c] \<longleftrightarrow> last s = c"
  by (cases s rule: rev_cases) (simp_all add: ends_with_def)

lemma canonicalize_plain_num:
  assumes "plain_num (Num neg m e)"
  shows "canonicalize_number (Num neg m e) = Inr (number_to_string (Num neg m e))"
proof (cases "m = 0 \<or> 0 \<le> e")
  case True
  then show ?thesis using is_integer_plain [OF assms] by (simp add: canonicalize_number_def del: is_integer.simps)
next
  case False
  let ?s = "number_to_string (Num neg m e)"
  have "last ?s = last (show_nat m) \<and> ?s \<noteq> []"
    using False
    by (cases rule: plain_decimal_cases [OF assms]) (auto simp: last_append, metis last_appendR)
  then show ?thesis
    using is_integer_plain [OF assms] False last_digit_plain [OF assms]
    by (simp add: canonicalize_number_def strip_zeros_id ends_with_last Let_def del: is_integer.simps number_to_string.simps)
qed

lemma number_parts_sign:
  assumes "s \<noteq> []" and "hd s \<noteq> CHR ''-''"
  shows "number_parts ((if neg then ''-'' else []) @ s) = (neg, snd (number_parts s))"
  using assms by (simp add: number_parts_def is_digit_def)

lemma number_parts_plain:
  assumes "plain_num (Num neg m e)"
  shows "number_parts (number_to_string (Num neg m e)) = (neg, m * 10 ^ nat e, nat (- e))"
proof (cases "m = 0")
  case True
  then show ?thesis using assms by (simp add: number_parts_def is_digit_def read_nat_def digit_value_def)
next
  case False
  have dig: "c \<in> set (show_nat m) \<Longrightarrow> is_digit c" for c using show_nat_digits by blast
  have nodot: "\<not> is_digit (CHR ''.'')" and nominus: "\<not> is_digit (CHR ''-'')" by (simp_all add: is_digit_def)
  have zero: "is_digit (CHR ''0'')" by (simp add: is_digit_def)
  have "number_parts (decimal_to_string m e) = (False, m * 10 ^ nat e, nat (- e)) \<and>
      decimal_to_string m e \<noteq> [] \<and> hd (decimal_to_string m e) \<noteq> CHR ''-''"
  proof (cases rule: plain_decimal_cases [OF assms False, case_names whole split small])
    case whole
    have "dropWhile (\<lambda>c. c \<noteq> CHR ''.'') (show_nat m @ replicate (nat e) (CHR ''0'')) = []"
      using dig nodot by auto
    moreover have "hd (show_nat m) \<noteq> CHR ''-''" using dig nominus by (metis hd_in_set show_nat_nonempty)
    ultimately show ?thesis
      using whole zero by (simp add: number_parts_def read_nat_append del: dropWhile_eq_Nil_conv)
  next
    case (split a b)
    have a: "\<forall>c \<in> set a. is_digit c" and b: "\<forall>c \<in> set b. is_digit c"
      using dig split(2) by (metis Un_iff set_append)+
    then have "dropWhile (\<lambda>c. c \<noteq> CHR ''.'') (a @ ''.'' @ b) = ''.'' @ b"
      using nodot by (subst dropWhile_append2) auto
    moreover have "filter is_digit (a @ ''.'' @ b) = show_nat m"
      using a b nodot split(2) by (simp add: filter_id_conv [THEN iffD2])
    moreover have "hd a \<noteq> CHR ''-''" using a nominus split(3) by (metis hd_in_set)
    ultimately show ?thesis using split by (simp add: number_parts_def)
  next
    case (small z)
    obtain k where "z = replicate k (CHR ''0'')" using small(3) by blast
    then have z: "filter is_digit z = z" "read_nat z = 0" using zero by simp_all
    show ?thesis using small(1,2,4) z zero nodot by (simp add: number_parts_def read_nat_append)
  qed
  then show ?thesis using False by (simp add: number_parts_sign del: append.simps)
qed

lemma power_ten_unique:
  fixes m n :: nat
  assumes "m * 10 ^ a = n * 10 ^ b" and "\<not> 10 dvd m" and "\<not> 10 dvd n"
  shows "m = n \<and> a = b"
proof -
  have le: "b \<le> a" if eq: "m * 10 ^ a = n * 10 ^ b" and "\<not> 10 dvd m" for m n a b :: nat
  proof (rule ccontr)
    assume "\<not> b \<le> a"
    then obtain d where "b = a + Suc d" by (metis add_Suc_right less_iff_Suc_add not_le)
    then have "m = n * 10 ^ Suc d" using eq by (simp add: power_add)
    then show False using that(2) by simp
  qed
  have "a = b" using le [OF assms(1,2)] le [OF assms(1) [symmetric] assms(3)] by simp
  then show ?thesis using assms(1) by simp
qed

lemma plain_num_inj:
  assumes "plain_num x" and "plain_num y" and "number_to_string x = number_to_string y"
  shows "x = y"
proof -
  obtain s m e where x: "x = Num s m e" using assms(1) by (cases x) auto
  obtain t n f where y: "y = Num t n f" using assms(2) by (cases y) auto
  have eq: "s = t" "m * 10 ^ nat e = n * 10 ^ nat f" "nat (- e) = nat (- f)"
    using assms number_parts_plain [of s m e] number_parts_plain [of t n f] by (simp_all add: x y del: number_to_string.simps)
  show ?thesis
  proof (cases "m = 0 \<or> n = 0")
    case True
    then show ?thesis using eq(1,2) assms(1,2) by (auto simp: x y)
  next
    case False
    then have "m = n \<and> nat e = nat f"
      using eq(2) assms(1,2) by (intro power_ten_unique) (auto simp: x y)
    then show ?thesis using eq by (auto simp: x y)
  qed
qed

lemma plain_number_text:
  assumes "plain_num x"
  shows "\<forall>c \<in> set (number_to_string x). number_char c" and "number_to_string x \<noteq> []"
proof -
  obtain neg m e where x: "x = Num neg m e" using assms by (cases x) auto
  have dig: "c \<in> set (show_nat m) \<Longrightarrow> number_char c" for c
    using show_nat_digits by (auto simp: number_char_def dec_digit_iff)
  have sub: "a @ b = show_nat m \<Longrightarrow> c \<in> set a \<union> set b \<Longrightarrow> number_char c" for a b c
    using dig by (metis set_append)
  have zero: "number_char (CHR ''0'')" by (simp add: number_char_def dec_digit_iff is_digit_def)
  have dot: "number_char (CHR ''.'')" by (simp add: number_char_def)
  have zeros: "z = replicate (length z) (CHR ''0'') \<Longrightarrow> c \<in> set z \<Longrightarrow> number_char c" for z c
    using zero by (metis in_set_replicate)
  have "(\<forall>c \<in> set (decimal_to_string m e). number_char c) \<and> decimal_to_string m e \<noteq> []" if "m \<noteq> 0"
  proof (cases rule: plain_decimal_cases [OF assms [unfolded x] that, case_names whole split small])
    case whole
    then show ?thesis using dig zero by auto
  next
    case (split a b)
    then show ?thesis using sub [OF split(2)] dot by auto
  next
    case (small z)
    then show ?thesis using zeros [OF small(3)] dig zero dot by auto
  qed
  then show "\<forall>c \<in> set (number_to_string x). number_char c" and "number_to_string x \<noteq> []"
    using zero by (auto simp: x number_char_def)
qed

text \<open>What can follow a value inside a serialization: a separator or the end.\<close>

definition delimited :: "string \<Rightarrow> bool" where
  "delimited r \<longleftrightarrow> r = [] \<or> hd r \<in> {CHR '','', CHR '']'', CHR ''}''}"

lemma number_text_inj:
  assumes "plain_num x" and "plain_num y" and "delimited r" and "delimited r'"
    and "number_to_string x @ r = number_to_string y @ r'"
  shows "x = y \<and> r = r'"
proof -
  have tw: "takeWhile number_char (number_to_string z @ q) = number_to_string z"
    if "plain_num z" "delimited q" for z q
  proof -
    have "takeWhile number_char q = []"
      using that(2) by (cases q) (auto simp: delimited_def number_char_def dec_digit_iff is_digit_def)
    then show ?thesis using plain_number_text(1) [OF that(1)] by (simp add: takeWhile_append2)
  qed
  have "number_to_string x = number_to_string y" using tw assms by metis
  then show ?thesis using assms plain_num_inj by auto
qed


text \<open>The first character of a value's text tells what kind of value it is.\<close>

lemma number_char_simps [simp]:
  "\<not> number_char (CHR 0x22)" "\<not> number_char (CHR ''t'')" "\<not> number_char (CHR ''f'')" "\<not> number_char (CHR ''n'')"
  "\<not> number_char (CHR ''['')" "\<not> number_char (CHR ''{'')" "\<not> number_char (CHR '']'')" "\<not> number_char (CHR ''}'')"
  "\<not> number_char (CHR '','')"
  by (simp_all add: number_char_def dec_digit_iff is_digit_def)

lemma canonicalize_plain_number:
  "plain_num x \<Longrightarrow> canonicalize_number x = Inr (number_to_string x)"
  using canonicalize_plain_num by (cases x) (simp_all del: plain_num.simps(1) number_to_string.simps)

lemma render_plain_num: "plain_num x \<Longrightarrow> render (JNum x) = number_to_string x"
  by (simp add: canonicalize_plain_number)

lemma render_nonempty: "plain v \<Longrightarrow> render v \<noteq> []"
  by (cases v) (simp_all add: render_plain_num plain_number_text json_quote_def del: render.simps(3))

fun json_kind :: "json \<Rightarrow> nat" where
  "json_kind JNull = 0" | "json_kind (JBool b) = 1" | "json_kind (JNum x) = 2" | "json_kind (JStr s) = 3"
| "json_kind (JArr vs) = 4" | "json_kind (JObj kvs) = 5" | "json_kind JUndef = 6"

definition char_kind :: "char \<Rightarrow> nat" where
  "char_kind c = (if number_char c then 2 else if c = CHR ''n'' then 0
     else if c = CHR ''t'' \<or> c = CHR ''f'' then 1 else if c = CHR 0x22 then 3
     else if c = CHR ''['' then 4 else if c = CHR ''{'' then 5 else 6)"

lemma hd_number: "plain_num x \<Longrightarrow> number_char (hd (number_to_string x))"
  using plain_number_text by (metis hd_in_set)

lemma json_kind_hd: "plain v \<Longrightarrow> char_kind (hd (render v)) = json_kind v"
  by (cases v) (simp_all add: char_kind_def render_plain_num hd_number json_quote_def del: render.simps(3))

lemma json_kind_plain: "plain v \<Longrightarrow> json_kind v \<noteq> 6"
  by (cases v) simp_all

lemma hd_render_not_close: "plain v \<Longrightarrow> hd (render v) \<noteq> CHR '']'' \<and> hd (render v) \<noteq> CHR ''}''"
  using json_kind_hd [of v] json_kind_plain [of v] by (auto simp: char_kind_def)

text \<open>A comma-separated list of uniquely readable texts is uniquely readable.\<close>

lemma join_inj:
  assumes "\<And>x y r r'. x \<in> set xs \<Longrightarrow> y \<in> set ys \<Longrightarrow> delimited r \<Longrightarrow> delimited r' \<Longrightarrow>
      f x @ r = f y @ r' \<Longrightarrow> x = y \<and> r = r'"
    and "\<And>x. x \<in> set xs \<union> set ys \<Longrightarrow> f x \<noteq> [] \<and> hd (f x) \<noteq> c"
    and "c = CHR '']'' \<or> c = CHR ''}''"
    and "join '','' (map f xs) @ c # r = join '','' (map f ys) @ c # r'"
  shows "xs = ys \<and> r = r'"
  using assms(1,2,4)
proof (induction xs arbitrary: ys)
  case Nil
  show ?case
  proof (cases ys)
    case (Cons y ys')
    then show ?thesis using Nil.prems(2) [of y] Nil.prems(3)
      by (cases ys'; cases "f y") auto
  qed (use Nil in simp)
next
  case (Cons x xs)
  have c: "delimited (c # q)" "delimited (CHR '','' # q)" for q using assms(3) by (auto simp: delimited_def)
  have split: "join '','' (map f (z # zs)) @ c # q =
      f z @ (if zs = [] then c # q else CHR '','' # join '','' (map f zs) @ c # q)" for z zs q
    by (cases zs) simp_all
  show ?case
  proof (cases ys)
    case Nil
    then show ?thesis using Cons.prems(2) [of x] Cons.prems(3) by (cases xs; cases "f x") auto
  next
    case ys: (Cons y ys')
    let ?q = "if xs = [] then c # r else CHR '','' # join '','' (map f xs) @ c # r"
    let ?q' = "if ys' = [] then c # r' else CHR '','' # join '','' (map f ys') @ c # r'"
    have "f x @ ?q = f y @ ?q'" using Cons.prems(3) unfolding ys split .
    then have eq: "x = y" "?q = ?q'"
      using Cons.prems(1) [of x y ?q ?q'] c ys by simp_all
    show ?thesis
    proof (cases "xs = [] \<or> ys' = []")
      case True
      then show ?thesis using eq assms(3) ys by (auto split: if_splits)
    next
      case False
      then have "join '','' (map f xs) @ c # r = join '','' (map f ys') @ c # r'" using eq(2) by simp
      then have "xs = ys' \<and> r = r'"
        using Cons.prems(1,2) ys by (intro Cons.IH) auto
      then show ?thesis using eq(1) ys by simp
    qed
  qed
qed

lemma property_text_inj:
  assumes "json_quote k @ '':'' @ s = json_quote k' @ '':'' @ s'"
  shows "k = k' \<and> s = s'"
  using assms json_quote_inj [of k "'':'' @ s" k' "'':'' @ s'"] by simp

lemma same_json_kind:
  "plain u \<Longrightarrow> plain v \<Longrightarrow> render u @ r = render v @ r' \<Longrightarrow> json_kind u = json_kind v"
  by (metis hd_append2 json_kind_hd render_nonempty)

lemma json_kind_cases:
  "json_kind v = 0 \<longleftrightarrow> v = JNull" "json_kind v = 1 \<longleftrightarrow> (\<exists>b. v = JBool b)" "json_kind v = 2 \<longleftrightarrow> (\<exists>x. v = JNum x)"
  "json_kind v = 3 \<longleftrightarrow> (\<exists>s. v = JStr s)" "json_kind v = 4 \<longleftrightarrow> (\<exists>vs. v = JArr vs)" "json_kind v = 5 \<longleftrightarrow> (\<exists>kvs. v = JObj kvs)"
  by (cases v; simp)+

lemma render_inj:
  "plain u \<Longrightarrow> plain v \<Longrightarrow> delimited r \<Longrightarrow> delimited r' \<Longrightarrow> render u @ r = render v @ r' \<Longrightarrow> u = v \<and> r = r'"
proof (induction u arbitrary: v r r' rule: render.induct)
  case (3 x)
  then have "json_kind v = 2" using same_json_kind [OF 3(1,2,5)] by simp
  then obtain y where v: "v = JNum y" unfolding json_kind_cases by blast
  then show ?case
    using number_text_inj [of x y r r'] 3 by (simp add: render_plain_num del: render.simps)
next
  case (2 s)
  then have "json_kind v = 3" using same_json_kind [OF 2(1,2,5)] by simp
  then obtain t where v: "v = JStr t" unfolding json_kind_cases by blast
  then show ?case using 2 json_quote_inj by simp
next
  case (5 vs)
  then have "json_kind v = 4" using same_json_kind [OF 5(2,3,6)] by simp
  then obtain ws where v: "v = JArr ws" unfolding json_kind_cases by blast
  have "vs = ws \<and> r = r'"
  proof (rule join_inj [of vs ws render "CHR '']''"])
    show "join '','' (map render vs) @ CHR '']'' # r = join '','' (map render ws) @ CHR '']'' # r'"
      using 5(6) by (simp add: v)
    show "a \<in> set vs \<union> set ws \<Longrightarrow> render a \<noteq> [] \<and> hd (render a) \<noteq> CHR '']''" for a
      using 5(2,3) v render_nonempty hd_render_not_close by auto
  qed (use 5(1-3) v in auto)
  then show ?case by (simp add: v)
next
  case (6 ps)
  then have "json_kind v = 5" using same_json_kind [OF 6(2,3,6)] by simp
  then obtain qs where v: "v = JObj qs" unfolding json_kind_cases by blast
  let ?f = "\<lambda>(k, v). json_quote k @ '':'' @ render v"
  have "ps = qs \<and> r = r'"
  proof (rule join_inj [of ps qs ?f "CHR ''}''"])
    show "join '','' (map ?f ps) @ CHR ''}'' # r = join '','' (map ?f qs) @ CHR ''}'' # r'"
      using 6(6) by (simp add: v)
    show "a \<in> set ps \<union> set qs \<Longrightarrow> ?f a \<noteq> [] \<and> hd (?f a) \<noteq> CHR ''}''" for a
      by (cases a) (simp add: json_quote_def)
    show "a = b \<and> q = q'" if ab: "a \<in> set ps" "b \<in> set qs" "delimited q" "delimited q'" "?f a @ q = ?f b @ q'"
      for a b q q'
    proof -
      obtain k u k' w where a: "a = (k, u)" and b: "b = (k', w)" by fastforce
      have "k = k' \<and> render u @ q = render w @ q'"
        using ab(5) property_text_inj [of k "render u @ q" k' "render w @ q'"] by (simp add: a b)
      moreover have "plain u" "plain w" using ab 6(2,3) a b v by auto
      ultimately show ?thesis using 6(1) [of a k u w q q'] ab a b by simp
    qed
  qed simp
  then show ?case by (simp add: v)
next
  case 1
  then have "json_kind v = 0" using same_json_kind [OF 1(1,2,5)] by simp
  then have "v = JNull" unfolding json_kind_cases by blast
  then show ?case using 1 by simp
next
  case (4 b)
  then have "json_kind v = 1" using same_json_kind [OF 4(1,2,5)] by simp
  then obtain c where v: "v = JBool c" unfolding json_kind_cases by blast
  then show ?case using 4(5) by (auto split: if_splits)
qed simp

text \<open>Equal serializations of plain values: the values agree up to the order of properties.\<close>

lemma plain_canon: "plain v \<Longrightarrow> plain (canon v)"
  by (induction v rule: canon.induct) auto

theorem canonicalize_inj:
  assumes "plain u" and "plain v" and "canonicalizeJSON u = Inr s" and "canonicalizeJSON v = Inr s"
  shows "canon u = canon v"
proof -
  have "render (canon u) @ [] = render (canon v) @ []"
    using assms canonicalize_render by simp
  then show ?thesis
    using render_inj [of "canon u" "canon v" "[]" "[]"] assms plain_canon by (simp add: delimited_def)
qed

lemma map_result_total: "(\<And>x. x \<in> set xs \<Longrightarrow> \<exists>y. f x = Inr y) \<Longrightarrow> \<exists>ys. map_result f xs = Inr ys"
proof (induction xs)
  case (Cons x xs)
  then obtain y ys where "f x = Inr y" "map_result f xs = Inr ys" by (metis list.set_intros)
  then show ?case by simp
qed simp

lemma canonicalize_plain: "plain v \<Longrightarrow> \<exists>s. canonicalizeJSON v = Inr s"
proof (induction v rule: canonicalizeJSON.induct)
  case (3 x)
  then show ?case by (simp add: canonicalize_plain_number)
next
  case (5 vs)
  then have "\<exists>items. map_result canonicalizeJSON vs = Inr items" by (intro map_result_total) auto
  then show ?case by auto
next
  case (6 kvs)
  let ?f = "\<lambda>(k, v). bind_result (canonicalizeJSON v) (\<lambda>s. Inr (json_quote k @ '':'' @ s))"
  have IH: "\<exists>s. canonicalizeJSON v = Inr s" if "(k, v) \<in> set kvs" for k v
    using 6(1) [of "(k, v)" k v] 6(2) that by auto
  have "\<exists>y. ?f p = Inr y" if mem: "p \<in> set (sort_keys kvs)" for p
  proof -
    obtain k v where p: "p = (k, v)" by (cases p)
    then obtain s where "canonicalizeJSON v = Inr s" using IH mem by auto
    then show ?thesis by (simp add: p)
  qed
  then have "\<exists>pairs. map_result ?f (sort_keys kvs) = Inr pairs" by (rule map_result_total)
  then show ?case by (metis canonicalizeJSON.simps(6) bind_result_simps(2))
qed simp_all

text \<open>Equal normal forms of objects have equal normal forms of every property.\<close>

lemma canon_lookup:
  assumes "canon (JObj kvs) = canon (JObj kvs')" and "distinct (map fst kvs)" and "distinct (map fst kvs')"
  shows "map_option canon (map_of kvs k) = map_option canon (map_of kvs' k)"
proof -
  let ?f = "map (\<lambda>(k, v). (k, canon v))"
  have fst: "map fst (?f xs) = map fst xs" for xs :: "(string \<times> json) list"
    by (simp add: comp_def split_def)
  have "set (?f kvs) = set (?f kvs')"
    using arg_cong [OF assms(1) [unfolded canon.simps json.inject], of set] by (simp only: set_sort_keys)
  then have "map_of (?f kvs) = map_of (?f kvs')"
    by (subst map_of_inject_set) (simp_all only: fst assms(2,3))
  then have "map_of (?f kvs) k = map_of (?f kvs') k" by simp
  then show ?thesis by (simp add: map_of_map)
qed

lemma map_result_list_all2:
  "list_all2 (\<lambda>x y. f x = g y) xs ys \<Longrightarrow> map_result f xs = map_result g ys"
  by (induction rule: list_all2_induct) auto

lemma insert_cmp_list_all2:
  assumes "list_all2 R xs ys" and "R x y" and "\<And>a b c d. R a b \<Longrightarrow> R c d \<Longrightarrow> cmp a c = cmp' b d"
  shows "list_all2 R (insert_cmp cmp x xs) (insert_cmp cmp' y ys)"
  using assms(1) by (induction rule: list_all2_induct) (use assms(2,3) in auto)

lemma sort_cmp_list_all2:
  assumes "list_all2 R xs ys" and "\<And>a b c d. R a b \<Longrightarrow> R c d \<Longrightarrow> cmp a c = cmp' b d"
  shows "list_all2 R (sort_cmp cmp xs) (sort_cmp cmp' ys)"
  using assms(1) by (induction rule: list_all2_induct) (use assms(2) in \<open>auto intro: insert_cmp_list_all2\<close>)

text \<open>An object's serialization depends on its values only through theirs.\<close>

lemma canonicalize_object_cong:
  assumes "list_all2 (\<lambda>(k, v) (k', v'). k = k' \<and> canonicalizeJSON v = canonicalizeJSON v') kvs kvs'"
  shows "canonicalizeJSON (JObj kvs) = canonicalizeJSON (JObj kvs')"
proof -
  let ?R = "\<lambda>(k, v) (k', v'). k = k' \<and> canonicalizeJSON v = canonicalizeJSON v'"
  have "list_all2 ?R (sort_keys kvs) (sort_keys kvs')"
    unfolding sort_keys_def using assms by (rule sort_cmp_list_all2) (auto simp: compare_keys_def)
  then have "map_result (\<lambda>(k, v). bind_result (canonicalizeJSON v) (\<lambda>s. Inr (json_quote k @ '':'' @ s))) (sort_keys kvs) =
      map_result (\<lambda>(k, v). bind_result (canonicalizeJSON v) (\<lambda>s. Inr (json_quote k @ '':'' @ s))) (sort_keys kvs')"
    by (intro map_result_list_all2) (auto elim!: list.rel_mono_strong)
  then show ?thesis by simp
qed

text \<open>The values that have a serialization: no \<open>undefined\<close> and no non-finite number inside.\<close>

fun serializable :: "json \<Rightarrow> bool" where
  "serializable (JNum x) = is_finite x"
| "serializable (JArr vs) = (\<forall>v \<in> set vs. serializable v)"
| "serializable (JObj kvs) = (\<forall>(k, v) \<in> set kvs. serializable v)"
| "serializable JUndef = False"
| "serializable v = True"

lemma map_result_total_iff: "(\<exists>ys. map_result f xs = Inr ys) \<longleftrightarrow> (\<forall>x \<in> set xs. \<exists>y. f x = Inr y)"
  by (induction xs) (auto simp: result_simps)

lemma bind_result_ex: "(\<exists>y. bind_result r (\<lambda>x. Inr (g x)) = Inr y) \<longleftrightarrow> (\<exists>x. r = Inr x)"
  by (auto simp: result_simps)

lemma canonicalize_number_total: "(\<exists>s. canonicalize_number x = Inr s) \<longleftrightarrow> is_finite x"
  by (auto simp: canonicalize_number_def Let_def)

lemma canonicalize_total: "(\<exists>s. canonicalizeJSON v = Inr s) \<longleftrightarrow> serializable v"
proof (induction v rule: canonicalizeJSON.induct)
  case (3 x)
  then show ?case by (simp add: canonicalize_number_total)
next
  case (5 vs)
  then have "(\<forall>v \<in> set vs. \<exists>s. canonicalizeJSON v = Inr s) \<longleftrightarrow> (\<forall>v \<in> set vs. serializable v)" by blast
  then show ?case by (simp only: canonicalizeJSON.simps bind_result_ex map_result_total_iff serializable.simps)
next
  case (6 kvs)
  have IH: "(\<exists>s. canonicalizeJSON v = Inr s) \<longleftrightarrow> serializable v" if "(k, v) \<in> set kvs" for k v
    using 6 [of "(k, v)" k v] that by auto
  have "(\<exists>s. canonicalizeJSON (JObj kvs) = Inr s) \<longleftrightarrow>
      (\<forall>p \<in> set kvs. \<exists>y. (case p of (k, v) \<Rightarrow> bind_result (canonicalizeJSON v) (\<lambda>s. Inr (json_quote k @ '':'' @ s))) = Inr y)"
    by (simp only: canonicalizeJSON.simps bind_result_ex map_result_total_iff set_sort_keys)
  also have "\<dots> \<longleftrightarrow> serializable (JObj kvs)"
    using IH by (auto simp: bind_result_ex simp del: bind_result_Inr append.simps split: prod.splits)
  finally show ?case .
qed simp_all

lemma plain_serializable: "plain v \<Longrightarrow> serializable v"
proof (induction v rule: plain.induct)
  case (1 x)
  then show ?case by (cases x) auto
qed auto

end
