(* ===== verification/Platform.thy ===== *)
theory Platform
  imports JsDate CanonicalJson
begin

text \<open>
  \<open>src/hash.ts\<close>, \<open>src/aocId.ts\<close> and what the protocol takes from its host.  A
  \<open>platform\<close> carries the three functions whose code is not in the repository: SHA-256 (OpenSSL
  through Node's \<open>crypto\<close>), \<open>String.prototype.localeCompare\<close> (the host's collation data)
  and \<open>Date.parse\<close> on strings that are not in the ISO format.  Time and randomness are
  arguments of the operations that read them.
\<close>

record platform =
  sha256 :: "bytes \<Rightarrow> bytes"
  localeCompare :: "string \<Rightarrow> string \<Rightarrow> int"
  dateParseOther :: "string \<Rightarrow> jsdate"

text \<open>
  The documented behaviour the theorems rely on: a digest has 32 bytes; \<open>localeCompare\<close> is a
  consistent comparator, and it tells distinct words of lower case letters and digits apart.
\<close>

definition sha256_length :: "platform \<Rightarrow> bool" where
  "sha256_length P \<longleftrightarrow> (\<forall>data. length (sha256 P data) = 32)"

definition plain_word :: "string \<Rightarrow> bool" where
  "plain_word s \<longleftrightarrow> (\<forall>c \<in> set s. lower_alpha c \<or> dec_digit c)"

definition collation :: "platform \<Rightarrow> bool" where
  "collation P \<longleftrightarrow> comparator_order (localeCompare P) \<and>
     (\<forall>s t. plain_word s \<and> plain_word t \<and> localeCompare P s t = 0 \<longrightarrow> s = t)"

definition collides :: "platform \<Rightarrow> bytes \<Rightarrow> bytes \<Rightarrow> bool" where
  "collides P a b \<longleftrightarrow> a \<noteq> b \<and> sha256 P a = sha256 P b"

text \<open>\<open>Date.parse(s)\<close> / \<open>new Date(s).getTime()\<close>.\<close>

definition date_of :: "platform \<Rightarrow> string \<Rightarrow> jsdate" where
  "date_of P s = date_parse (dateParseOther P) s"

section \<open>Hashing\<close>

definition sha256Hex :: "platform \<Rightarrow> bytes \<Rightarrow> string" where
  "sha256Hex P data = hex_encode (sha256 P data)"

definition computeContentHash :: "platform \<Rightarrow> json \<Rightarrow> string result" where
  "computeContentHash P obj =
     bind_result (canonicalizeJSON obj) (\<lambda>canonical. Inr (sha256Hex P (utf8_encode canonical)))"

definition buildAOCId :: "platform \<Rightarrow> string \<Rightarrow> string \<Rightarrow> string \<Rightarrow> string \<Rightarrow> json \<Rightarrow> string result" where
  "buildAOCId P domain type schema version obj =
     bind_result (computeContentHash P obj) (\<lambda>contentHash.
       Inr (''aoc://'' @ domain @ ''/'' @ type @ ''/'' @ schema @ ''/'' @ version @ ''/0x'' @ contentHash))"

lemma sha256Hex_inj: "sha256Hex P a = sha256Hex P b \<longleftrightarrow> a = b \<or> collides P a b"
  unfolding sha256Hex_def collides_def by (metis hex_encode_inj)

lemma sha256Hex_hash_hex: "sha256_length P \<Longrightarrow> rx_test HASH_HEX_PATTERN (sha256Hex P data)"
  by (auto simp: sha256Hex_def sha256_length_def hash_hex_iff hex_encode_lower)

lemma hash_hex_word: "rx_test HASH_HEX_PATTERN s \<Longrightarrow> plain_word s"
  by (auto simp: hash_hex_iff plain_word_def lower_hex_def lower_alpha_def between_def)

lemma collation_word: "collation P \<Longrightarrow> plain_word s \<Longrightarrow> plain_word t \<Longrightarrow> localeCompare P s t = 0 \<Longrightarrow> s = t"
  by (simp add: collation_def)

text \<open>A platform for evaluation: all digests zero, code-unit collation, no other dates.\<close>

definition zero_platform :: platform where
  "zero_platform = \<lparr>sha256 = (\<lambda>_. replicate 32 0), localeCompare = code_unit_compare,
     dateParseOther = (\<lambda>_. None)\<rparr>"

lemma zero_platform_ok [simp]: "sha256_length zero_platform" "collation zero_platform"
  by (auto simp: zero_platform_def sha256_length_def collation_def code_units.comparator_order_axioms
      dest: code_units.cmp_eq)

lemma zero_hash: "sha256Hex zero_platform data = replicate 64 (CHR ''0'')"
proof -
  have "hex_encode (replicate n 0) = replicate (2 * n) (CHR ''0'')" for n
    by (induction n) (simp_all add: hex_encode_def hex_byte_def hex_digit_def char_of_def bit_0)
  then show ?thesis by (simp add: sha256Hex_def zero_platform_def)
qed

text \<open>Values with the same content hash: the same value up to property order, or a collision.\<close>

lemma computeContentHash_inj:
  assumes "plain u" and "plain v"
    and "computeContentHash P u = Inr h" and "computeContentHash P v = Inr h"
  shows "canon u = canon v \<or> (\<exists>s t. canonicalizeJSON u = Inr s \<and> canonicalizeJSON v = Inr t \<and>
    collides P (utf8_encode s) (utf8_encode t))"
proof -
  obtain s t where st: "canonicalizeJSON u = Inr s" "canonicalizeJSON v = Inr t"
      "sha256Hex P (utf8_encode s) = sha256Hex P (utf8_encode t)"
    using assms(3,4) by (auto simp: computeContentHash_def result_simps)
  then have "s = t \<or> collides P (utf8_encode s) (utf8_encode t)"
    using sha256Hex_inj utf8_encode_inj by blast
  then show ?thesis using st canonicalize_inj [OF assms(1,2)] by blast
qed

end
