(* ===== verification/Actions.thy ===== *)
theory Actions
  imports Regex
begin

text \<open>
  \<open>shared/capabilityActions.ts\<close> and \<open>shared/marketMakerId.ts\<close>: the vocabulary of permitted
  actions and the syntax of market maker identifiers, with the checks every consent and every
  token passes through.
\<close>

section \<open>Capability actions\<close>

text \<open>\<open>/^[a-z][a-z0-9-]*$/\<close>\<close>

definition ACTION_PATTERN :: rx where
  "ACTION_PATTERN = Cat (Cls lower_alpha)
     (Star (Cls (\<lambda>c. lower_alpha c \<or> dec_digit c \<or> c = CHR ''-'')))"

definition canonicalCapabilityActions :: "string list" where
  "canonicalCapabilityActions = [''read'', ''store'', ''share'', ''derive'', ''aggregate'']"

definition isCanonicalCapabilityAction :: "string \<Rightarrow> bool" where
  "isCanonicalCapabilityAction action \<longleftrightarrow> action \<in> set canonicalCapabilityActions"

definition validateCapabilityAction :: "string \<Rightarrow> string \<Rightarrow> throws" where
  "validateCapabilityAction action ctx = first_throw [
     throw_if (\<not> rx_test ACTION_PATTERN action) (ctx @ '': must be lowercase alphanumeric with hyphens.''),
     throw_if (\<not> isCanonicalCapabilityAction action)
       (ctx @ '' must be one of: '' @ join '', '' canonicalCapabilityActions @ ''.'')]"

record action_options =
  containerLabel :: string
  itemLabel :: string
  emptyMessage :: string
  maxEntries :: nat

definition validateCapabilityActions :: "string list \<Rightarrow> action_options \<Rightarrow> throws" where
  "validateCapabilityActions actions options = first_throw [
     throw_if (actions = []) (emptyMessage options),
     throw_if (length actions > maxEntries options)
       (containerLabel options @ '' must not exceed '' @ show_nat (maxEntries options) @ '' entries.''),
     seen_loop (\<lambda>action i. validateCapabilityAction action (itemLabel options @ '' '' @ show_nat i))
       (\<lambda>action. action)
       (\<lambda>action. containerLabel options @ '' contain duplicate: '' @ [CHR 0x22] @ action @ [CHR 0x22, CHR ''.''])
       {} 0 actions]"

lemma action_pattern_iff:
  "rx_test ACTION_PATTERN s \<longleftrightarrow> s \<noteq> [] \<and> lower_alpha (hd s) \<and>
     (\<forall>c \<in> set (tl s). lower_alpha c \<or> dec_digit c \<or> c = CHR ''-'')"
  by (cases s) (simp_all add: ACTION_PATTERN_def rx_test_lang mem_Cat_Cls mem_Star_Cls)

lemma canonical_action_letters:
  "\<forall>a \<in> set canonicalCapabilityActions. a \<noteq> [] \<and> (\<forall>c \<in> set a. lower_alpha c)"
  by (simp add: canonicalCapabilityActions_def lower_alpha_def between_def)

lemma canonical_action_pattern: "isCanonicalCapabilityAction action \<Longrightarrow> rx_test ACTION_PATTERN action"
  using canonical_action_letters
  by (cases action) (auto simp: isCanonicalCapabilityAction_def action_pattern_iff)

lemma validateCapabilityAction_None [throws_simps]:
  "validateCapabilityAction action ctx = None \<longleftrightarrow> isCanonicalCapabilityAction action"
  unfolding validateCapabilityAction_def throws_simps by (auto simp: canonical_action_pattern)

text \<open>A permission list passes exactly when it is a non-empty duplicate-free list of known actions.\<close>

lemma validateCapabilityActions_None [throws_simps]:
  "validateCapabilityActions actions options = None \<longleftrightarrow>
     actions \<noteq> [] \<and> length actions \<le> maxEntries options \<and>
     set actions \<subseteq> set canonicalCapabilityActions \<and> distinct actions"
  unfolding validateCapabilityActions_def throws_simps
  by (subst seen_loop_None_uniform [of _ isCanonicalCapabilityAction])
    (auto simp: validateCapabilityAction_None isCanonicalCapabilityAction_def)

section \<open>Market maker identifiers\<close>

text \<open>\<open>/^[a-z0-9][a-z0-9._-]{0,127}$/\<close>\<close>

definition MARKET_MAKER_ID_PATTERN :: rx where
  "MARKET_MAKER_ID_PATTERN = Cat (Cls (\<lambda>c. lower_alpha c \<or> dec_digit c))
     (Upto 127 (Cls (\<lambda>c. lower_alpha c \<or> dec_digit c \<or> c \<in> {CHR ''.'', CHR ''_'', CHR ''-''})))"

definition validateMarketMakerId :: "string option \<Rightarrow> string \<Rightarrow> throws" where
  "validateMarketMakerId marketMakerId fieldName = (case marketMakerId of
     None \<Rightarrow> None
   | Some i \<Rightarrow> first_throw [
       throw_if (trim i = []) (fieldName @ '' must be a non-empty string when provided.''),
       throw_if (\<not> rx_test MARKET_MAKER_ID_PATTERN i)
         (fieldName @ '' must contain only lowercase letters, numbers, dots, underscores, or hyphens and be at most 128 characters.'')])"

definition market_maker_id :: "string \<Rightarrow> bool" where
  "market_maker_id i \<longleftrightarrow> rx_test MARKET_MAKER_ID_PATTERN i"

lemma market_maker_id_iff:
  "market_maker_id i \<longleftrightarrow> i \<noteq> [] \<and> length i \<le> 128 \<and> (lower_alpha (hd i) \<or> dec_digit (hd i)) \<and>
     (\<forall>c \<in> set i. lower_alpha c \<or> dec_digit c \<or> c \<in> {CHR ''.'', CHR ''_'', CHR ''-''})"
  by (cases i) (auto simp: market_maker_id_def MARKET_MAKER_ID_PATTERN_def rx_test_lang mem_Cat_Cls mem_Upto_Cls)

lemma market_maker_id_trim: "market_maker_id i \<Longrightarrow> trim i = i \<and> i \<noteq> []"
proof -
  have space: "js_space c \<Longrightarrow> \<not> (lower_alpha c \<or> dec_digit c \<or> c \<in> {CHR ''.'', CHR ''_'', CHR ''-''})" for c
    by (auto simp: js_space_def lower_alpha_def dec_digit_def between_def)
  assume "market_maker_id i"
  then show ?thesis
    using space by (auto simp: market_maker_id_iff intro!: trim_no_space)
qed

lemma validateMarketMakerId_None [throws_simps]:
  "validateMarketMakerId m fieldName = None \<longleftrightarrow> (\<forall>i. m = Some i \<longrightarrow> market_maker_id i)"
  using market_maker_id_trim
  by (auto simp: validateMarketMakerId_def throws_simps market_maker_id_def split: option.splits)

end
