(* ===== verification/Consent.thy ===== *)
theory Consent
  imports Platform Actions
begin

text \<open>
  \<open>consent/types.ts\<close>, \<open>canonical.ts\<close>, \<open>hash.ts\<close>, \<open>consentId.ts\<close> and
  \<open>consentObject.ts\<close>: the consent object, its canonical payload and hash, its validation and
  its construction.  Optional properties are \<open>option\<close>; the string unions of the declared types
  (\<open>action\<close>, a scope entry's \<open>type\<close>, \<open>pricing.model\<close>) are strings, so that the
  guards that check them are part of the model.
\<close>

section \<open>Data\<close>

record scope_entry =
  se_type :: string
  se_ref :: string

record consent_pricing =
  pr_model :: string
  pr_amount :: jsnum
  pr_currency :: string

record consent_payload =
  c_version :: string
  c_subject :: string
  c_grantee :: string
  c_action :: string
  c_scope :: "scope_entry list"
  c_permissions :: "string list"
  c_pricing :: "consent_pricing option"
  c_marketMakerId :: "string option"
  c_revoke_target :: "string option"
  c_issued_at :: string
  c_expires_at :: "string option"
  c_prior_consent :: "string option"

record consent_object = consent_payload +
  c_consent_hash :: string

record build_consent_options =
  o_now :: "jsdate option"
  o_expires_at :: "string option"
  o_prior_consent :: "string option"
  o_revoke_target :: "string option"
  o_marketMakerId :: "string option"
  o_pricing :: "consent_pricing option"

definition default_consent_options :: build_consent_options where
  "default_consent_options = \<lparr>o_now = None, o_expires_at = None, o_prior_consent = None,
     o_revoke_target = None, o_marketMakerId = None, o_pricing = None\<rparr>"

section \<open>Canonical payload and hash\<close>

definition json_opt :: "string option \<Rightarrow> json" where
  "json_opt x = (case x of None \<Rightarrow> JNull | Some s \<Rightarrow> JStr s)"

text \<open>\<open>...(x !== undefined ? { key: value } : {})\<close>.\<close>

definition optional_property :: "string \<Rightarrow> ('a \<Rightarrow> json) \<Rightarrow> 'a option \<Rightarrow> (string \<times> json) list" where
  "optional_property k f x = (case x of None \<Rightarrow> [] | Some y \<Rightarrow> [(k, f y)])"

definition canonicalizeScopeEntry :: "scope_entry \<Rightarrow> json" where
  "canonicalizeScopeEntry entry = JObj [(''ref'', JStr (se_ref entry)), (''type'', JStr (se_type entry))]"

definition compare_scope :: "platform \<Rightarrow> scope_entry \<Rightarrow> scope_entry \<Rightarrow> int" where
  "compare_scope P a b = (let typeCmp = localeCompare P (se_type a) (se_type b) in
     if typeCmp \<noteq> 0 then typeCmp else localeCompare P (se_ref a) (se_ref b))"

definition pricing_json :: "consent_pricing \<Rightarrow> json" where
  "pricing_json p = JObj [(''amount'', JNum (pr_amount p)), (''currency'', JStr (pr_currency p)),
     (''model'', JStr (pr_model p))]"

definition consent_payload_json :: "platform \<Rightarrow> 'a consent_payload_scheme \<Rightarrow> json" where
  "consent_payload_json P payload = JObj (
     [(''action'', JStr (c_action payload)), (''expires_at'', json_opt (c_expires_at payload)),
      (''grantee'', JStr (c_grantee payload)), (''issued_at'', JStr (c_issued_at payload))] @
     optional_property ''marketMakerId'' JStr (c_marketMakerId payload) @
     [(''permissions'', JArr (map JStr (sort_cmp code_unit_compare (c_permissions payload))))] @
     optional_property ''pricing'' pricing_json (c_pricing payload) @
     [(''prior_consent'', json_opt (c_prior_consent payload))] @
     optional_property ''revoke_target'' (\<lambda>h. JObj [(''capability_hash'', JStr h)]) (c_revoke_target payload) @
     [(''scope'', JArr (map canonicalizeScopeEntry (sort_cmp (compare_scope P) (c_scope payload)))),
      (''subject'', JStr (c_subject payload)), (''version'', JStr (c_version payload))])"

definition canonicalizeConsentPayload :: "platform \<Rightarrow> 'a consent_payload_scheme \<Rightarrow> bytes result" where
  "canonicalizeConsentPayload P payload =
     bind_result (canonicalizeJSON (consent_payload_json P payload)) (\<lambda>canonical. Inr (utf8_encode canonical))"

definition computeConsentHash :: "platform \<Rightarrow> bytes \<Rightarrow> string" where
  "computeConsentHash P payloadBytes = sha256Hex P payloadBytes"

section \<open>Validation\<close>

text \<open>\<open>/^did:[a-z0-9]+:[a-zA-Z0-9._%-]+$/\<close>\<close>

definition did_char :: "char \<Rightarrow> bool" where
  "did_char c \<longleftrightarrow> lower_alpha c \<or> upper_alpha c \<or> dec_digit c \<or>
     c \<in> {CHR ''.'', CHR ''_'', CHR ''%'', CHR ''-''}"

definition DID_PATTERN :: rx where
  "DID_PATTERN = Cat (Lit ''did:'') (Cat (Plus (Cls (\<lambda>c. lower_alpha c \<or> dec_digit c)))
     (Cat (Lit '':'') (Plus (Cls did_char))))"

definition VALID_SCOPE_TYPES :: "string list" where
  "VALID_SCOPE_TYPES = [''field'', ''content'', ''pack'']"

definition MIN_DID_LENGTH :: nat where "MIN_DID_LENGTH = 8"
definition MAX_DID_LENGTH :: nat where "MAX_DID_LENGTH = 2048"
definition MAX_SCOPE_ENTRIES :: nat where "MAX_SCOPE_ENTRIES = 10000"
definition MAX_PERMISSIONS :: nat where "MAX_PERMISSIONS = 100"

definition validateVersion :: "string \<Rightarrow> throws" where
  "validateVersion version = throw_if (\<not> rx_test VERSION_PATTERN version)
     ''Consent version must match pattern MAJOR.MINOR (e.g., \"1.0\").''"

definition validateDID :: "string \<Rightarrow> string \<Rightarrow> throws" where
  "validateDID v fieldName = first_throw [
     throw_if (trim v = []) (''Consent '' @ fieldName @ '' must be non-empty.''),
     throw_if (length v < MIN_DID_LENGTH)
       (''Consent '' @ fieldName @ '' must be at least '' @ show_nat MIN_DID_LENGTH @ '' characters.''),
     throw_if (length v > MAX_DID_LENGTH)
       (''Consent '' @ fieldName @ '' must be at most '' @ show_nat MAX_DID_LENGTH @ '' characters.''),
     throw_if (\<not> rx_test DID_PATTERN v) (''Consent '' @ fieldName @ '' must be a valid DID.'')]"

definition validateAction :: "string \<Rightarrow> throws" where
  "validateAction action = throw_if (action \<notin> set [''grant'', ''revoke''])
     ''Consent action must be \"grant\" or \"revoke\".''"

definition validateScopeEntry :: "scope_entry \<Rightarrow> nat \<Rightarrow> throws" where
  "validateScopeEntry entry i = first_throw [
     throw_if (se_type entry \<notin> set VALID_SCOPE_TYPES)
       (''Scope entry '' @ show_nat i @ '': type must be \"field\", \"content\", or \"pack\".''),
     throw_if (\<not> rx_test HASH_HEX_PATTERN (se_ref entry))
       (''Scope entry '' @ show_nat i @ '': ref must be 64 lowercase hex characters.'')]"

definition scope_key :: "scope_entry \<Rightarrow> string" where
  "scope_key entry = se_type entry @ '':'' @ se_ref entry"

definition validateScope :: "scope_entry list \<Rightarrow> throws" where
  "validateScope scope = first_throw [
     throw_if (scope = []) ''Consent scope must be a non-empty array.'',
     throw_if (length scope > MAX_SCOPE_ENTRIES)
       (''Consent scope must not exceed '' @ show_nat MAX_SCOPE_ENTRIES @ '' entries.''),
     seen_loop validateScopeEntry scope_key
       (\<lambda>e. ''Consent scope contains duplicate entry: ('' @ se_type e @ '', '' @ se_ref e @ '').'')
       {} 0 scope]"

definition permission_options :: action_options where
  "permission_options = \<lparr>containerLabel = ''Consent permissions'', itemLabel = ''Consent permission'',
     emptyMessage = ''Consent permissions must be a non-empty array.'', maxEntries = MAX_PERMISSIONS\<rparr>"

definition validatePermissions :: "string list \<Rightarrow> throws" where
  "validatePermissions permissions = validateCapabilityActions permissions permission_options"

definition validatePricing :: "consent_pricing option \<Rightarrow> string \<Rightarrow> throws" where
  "validatePricing pricing action = (case pricing of
     None \<Rightarrow> None
   | Some p \<Rightarrow> first_throw [
       throw_if (action \<noteq> ''grant'') ''Consent pricing is only allowed for grant actions.'',
       throw_if (pr_model p \<noteq> ''per_use'') ''Consent pricing.model must be \"per_use\".'',
       throw_if (\<not> is_finite (pr_amount p) \<or> \<not> num_positive (pr_amount p))
         ''Consent pricing.amount must be a positive number.'',
       throw_if (trim (pr_currency p) = []) ''Consent pricing.currency must be a non-empty string.''])"

definition validateRevokeTarget :: "string option \<Rightarrow> throws" where
  "validateRevokeTarget revoke_target =
     throw_if (case revoke_target of None \<Rightarrow> True | Some h \<Rightarrow> \<not> rx_test HASH_HEX_PATTERN h)
       ''Consent revoke_target.capability_hash must be 64 lowercase hex characters for revoke actions.''"

definition validateIssuedAt :: "string \<Rightarrow> throws" where
  "validateIssuedAt issued_at = throw_if (\<not> rx_test ISO8601_UTC_PATTERN issued_at)
     ''Consent issued_at must be ISO 8601 UTC format (e.g., \"2025-01-15T14:30:00Z\").''"

definition validateExpiresAt :: "string option \<Rightarrow> string \<Rightarrow> throws" where
  "validateExpiresAt expires_at issued_at = (case expires_at of
     None \<Rightarrow> None
   | Some e \<Rightarrow> first_throw [
       throw_if (\<not> rx_test ISO8601_UTC_PATTERN e) ''Consent expires_at must be ISO 8601 UTC format or null.'',
       throw_if (e \<le> issued_at) ''Consent expires_at must be after issued_at.''])"

definition validatePriorConsent :: "string option \<Rightarrow> throws" where
  "validatePriorConsent prior_consent = (case prior_consent of
     None \<Rightarrow> None
   | Some h \<Rightarrow> throw_if (\<not> rx_test HASH_HEX_PATTERN h)
       ''Consent prior_consent must be 64 lowercase hex characters or null.'')"

text \<open>The guards that \<open>buildConsentObject\<close> and \<open>validateConsentObject\<close> share, in their order.\<close>

definition revoke_shape :: "'a consent_payload_scheme \<Rightarrow> throws" where
  "revoke_shape c = first_throw [
     throw_if (c_marketMakerId c \<noteq> None) ''Consent revoke actions must not include marketMakerId.'',
     validateRevokeTarget (c_revoke_target c),
     throw_if (length (c_scope c) > 0) ''Consent scope must be empty for revoke actions.'',
     throw_if (length (c_permissions c) > 0) ''Consent permissions must be empty for revoke actions.'',
     throw_if (c_expires_at c \<noteq> None) ''Consent expires_at must be null for revoke actions.'']"

definition validate_payload :: "'a consent_payload_scheme \<Rightarrow> throws" where
  "validate_payload c = first_throw [
     validateVersion (c_version c),
     validateDID (c_subject c) ''subject'',
     validateDID (c_grantee c) ''grantee'',
     validateAction (c_action c),
     validateIssuedAt (c_issued_at c),
     validateMarketMakerId (c_marketMakerId c) ''Consent marketMakerId'',
     validatePricing (c_pricing c) (c_action c),
     (if c_action c = ''revoke'' then revoke_shape c
      else first_throw [
        validateScope (c_scope c),
        validatePermissions (c_permissions c),
        validateExpiresAt (c_expires_at c) (c_issued_at c)]),
     validatePriorConsent (c_prior_consent c)]"

section \<open>Construction\<close>

text \<open>\<open>{ ...payload, consent_hash }\<close>.\<close>

definition seal :: "consent_payload \<Rightarrow> string \<Rightarrow> consent_object" where
  "seal payload consent_hash = consent_payload.extend payload \<lparr>c_consent_hash = consent_hash\<rparr>"

definition buildConsentObject ::
  "platform \<Rightarrow> int \<Rightarrow> string \<Rightarrow> string \<Rightarrow> string \<Rightarrow> scope_entry list \<Rightarrow> string list \<Rightarrow>
   build_consent_options \<Rightarrow> consent_object result" where
  "buildConsentObject P clock subject grantee action scope permissions opts =
     bind_result (iso_seconds (case o_now opts of None \<Rightarrow> Some clock | Some d \<Rightarrow> d)) (\<lambda>issued_at.
     let payload = \<lparr>c_version = ''1.0'', c_subject = subject, c_grantee = grantee, c_action = action,
           c_scope = scope, c_permissions = permissions, c_pricing = o_pricing opts,
           c_marketMakerId = o_marketMakerId opts, c_revoke_target = o_revoke_target opts,
           c_issued_at = issued_at, c_expires_at = o_expires_at opts,
           c_prior_consent = o_prior_consent opts\<rparr>
     in after (validate_payload payload)
       (bind_result (canonicalizeConsentPayload P payload) (\<lambda>payloadBytes.
        let consent_hash = computeConsentHash P payloadBytes in
        after (throw_if (o_prior_consent opts = Some consent_hash)
            ''Consent must not reference itself via prior_consent.'')
          (Inr (seal payload consent_hash)))))"

definition validateConsentObject :: "platform \<Rightarrow> consent_object \<Rightarrow> throws" where
  "validateConsentObject P consent = first_throw [
     validate_payload consent,
     throw_if (\<not> rx_test HASH_HEX_PATTERN (c_consent_hash consent))
       ''Consent consent_hash must be 64 lowercase hex characters.'',
     (case canonicalizeConsentPayload P consent of
        Inl e \<Rightarrow> Some e
      | Inr payloadBytes \<Rightarrow> throw_if (c_consent_hash consent \<noteq> computeConsentHash P payloadBytes)
          ''Consent consent_hash does not match canonical payload hash.''),
     throw_if (c_prior_consent consent = Some (c_consent_hash consent))
       ''Consent must not reference itself via prior_consent.'']"

section \<open>Identifier\<close>

text \<open>\<open>const [major, minor] = consent.version.split('.')\<close>.\<close>

definition buildConsentId :: "consent_object \<Rightarrow> string result" where
  "buildConsentId consent = after (first_throw [
      validateVersion (c_version consent),
      throw_if (\<not> rx_test HASH_HEX_PATTERN (c_consent_hash consent))
        ''Consent hash must be 64 lowercase hex characters.''])
     (case split_on (CHR ''.'') (c_version consent) of
        major # minor # _ \<Rightarrow> Inr (''aoc://consent/v'' @ major @ ''/'' @ minor @ ''/0x'' @ c_consent_hash consent)
      | _ \<Rightarrow> Inr [])"

section \<open>Well-formed consents\<close>

definition is_did :: "string \<Rightarrow> bool" where
  "is_did v \<longleftrightarrow> MIN_DID_LENGTH \<le> length v \<and> length v \<le> MAX_DID_LENGTH \<and> rx_test DID_PATTERN v"

lemma did_iff: "rx_test DID_PATTERN v \<longleftrightarrow> (\<exists>m i. v = ''did:'' @ m @ '':'' @ i \<and> m \<noteq> [] \<and> i \<noteq> [] \<and>
    (\<forall>c \<in> set m. lower_alpha c \<or> dec_digit c) \<and> (\<forall>c \<in> set i. did_char c))"
  unfolding rx_test_lang DID_PATTERN_def mem_Cat_Lit mem_Cat [of _ "Plus r" for r] mem_Plus_Cls by blast

lemma did_trim: "rx_test DID_PATTERN v \<Longrightarrow> trim v \<noteq> []"
proof -
  assume "rx_test DID_PATTERN v"
  then have "CHR ''d'' \<in> set v" unfolding did_iff by auto
  moreover have "\<not> js_space (CHR ''d'')" by (simp add: js_space_def)
  ultimately show ?thesis unfolding trim_eq_Nil by blast
qed

lemma validateDID_None [throws_simps]: "validateDID v f = None \<longleftrightarrow> is_did v"
  unfolding validateDID_def throws_simps is_did_def using did_trim by auto

definition scope_ok :: "scope_entry list \<Rightarrow> bool" where
  "scope_ok scope \<longleftrightarrow> scope \<noteq> [] \<and> length scope \<le> MAX_SCOPE_ENTRIES \<and> distinct scope \<and>
     (\<forall>e \<in> set scope. se_type e \<in> set VALID_SCOPE_TYPES \<and> rx_test HASH_HEX_PATTERN (se_ref e))"

definition permissions_ok :: "string list \<Rightarrow> bool" where
  "permissions_ok ps \<longleftrightarrow> ps \<noteq> [] \<and> length ps \<le> MAX_PERMISSIONS \<and> distinct ps \<and>
     set ps \<subseteq> set canonicalCapabilityActions"

lemma scope_types_no_colon: "t \<in> set VALID_SCOPE_TYPES \<Longrightarrow> CHR '':'' \<notin> set t"
  by (auto simp: VALID_SCOPE_TYPES_def)

lemma scope_key_inj:
  assumes "se_type a \<in> set VALID_SCOPE_TYPES" and "se_type b \<in> set VALID_SCOPE_TYPES"
    and "scope_key a = scope_key b"
  shows "a = (b :: scope_entry)"
proof -
  have "split_on (CHR '':'') (scope_key e) = se_type e # split_on (CHR '':'') (se_ref e)"
    if "se_type e \<in> set VALID_SCOPE_TYPES" for e :: scope_entry
    using scope_types_no_colon [OF that] split_on_append by (simp add: scope_key_def)
  then have "se_type a = se_type b" using assms by (metis list.inject)
  then show ?thesis using assms(3) by (simp add: scope_key_def)
qed

lemma validateScopeEntry_None [throws_simps]:
  "validateScopeEntry e i = None \<longleftrightarrow> se_type e \<in> set VALID_SCOPE_TYPES \<and> rx_test HASH_HEX_PATTERN (se_ref e)"
  by (simp add: validateScopeEntry_def throws_simps)

lemma validateScope_None [throws_simps]: "validateScope scope = None \<longleftrightarrow> scope_ok scope"
proof -
  let ?ok = "\<lambda>e. se_type e \<in> set VALID_SCOPE_TYPES \<and> rx_test HASH_HEX_PATTERN (se_ref e)"
  have "(\<forall>e \<in> set scope. ?ok e) \<Longrightarrow> distinct (map scope_key scope) \<longleftrightarrow> distinct scope"
    by (auto simp: distinct_map inj_on_def intro: scope_key_inj)
  then show ?thesis
    unfolding validateScope_def throws_simps seen_loop_None_uniform [of _ ?ok, OF validateScopeEntry_None]
    by (auto simp: scope_ok_def)
qed

lemma validatePermissions_None [throws_simps]: "validatePermissions ps = None \<longleftrightarrow> permissions_ok ps"
  by (auto simp: validatePermissions_def validateCapabilityActions_None permission_options_def permissions_ok_def)

definition stamp_ok :: "string \<Rightarrow> bool" where
  "stamp_ok s \<longleftrightarrow> rx_test ISO8601_UTC_PATTERN s"

definition hash_ok :: "string \<Rightarrow> bool" where
  "hash_ok s \<longleftrightarrow> rx_test HASH_HEX_PATTERN s"

definition pricing_ok :: "consent_pricing \<Rightarrow> bool" where
  "pricing_ok p \<longleftrightarrow> pr_model p = ''per_use'' \<and> is_finite (pr_amount p) \<and> num_positive (pr_amount p) \<and> trim (pr_currency p) \<noteq> []"

lemma validatePricing_None [throws_simps]:
  "validatePricing pricing action = None \<longleftrightarrow> (\<forall>p. pricing = Some p \<longrightarrow> action = ''grant'' \<and> pricing_ok p)"
  by (auto simp: validatePricing_def throws_simps pricing_ok_def split: option.splits)

lemma validateIssuedAt_None [throws_simps]: "validateIssuedAt s = None \<longleftrightarrow> stamp_ok s"
  by (simp add: validateIssuedAt_def stamp_ok_def)

lemma validateExpiresAt_None [throws_simps]:
  "validateExpiresAt expires_at issued_at = None \<longleftrightarrow> (\<forall>e. expires_at = Some e \<longrightarrow> stamp_ok e \<and> issued_at < e)"
  by (auto simp: validateExpiresAt_def throws_simps stamp_ok_def not_le split: option.splits)

lemma validatePriorConsent_None [throws_simps]:
  "validatePriorConsent prior = None \<longleftrightarrow> (\<forall>h. prior = Some h \<longrightarrow> hash_ok h)"
  by (auto simp: validatePriorConsent_def throws_simps hash_ok_def split: option.splits)

lemma validateRevokeTarget_None [throws_simps]:
  "validateRevokeTarget t = None \<longleftrightarrow> (\<exists>h. t = Some h \<and> hash_ok h)"
  by (auto simp: validateRevokeTarget_def throws_simps hash_ok_def split: option.splits)

text \<open>What a consent must be, independently of the order of the guards.\<close>

definition grant_terms :: "'a consent_payload_scheme \<Rightarrow> bool" where
  "grant_terms c \<longleftrightarrow> scope_ok (c_scope c) \<and> permissions_ok (c_permissions c) \<and>
     (\<forall>e. c_expires_at c = Some e \<longrightarrow> stamp_ok e \<and> c_issued_at c < e)"

definition revoke_terms :: "'a consent_payload_scheme \<Rightarrow> bool" where
  "revoke_terms c \<longleftrightarrow> c_marketMakerId c = None \<and> c_pricing c = None \<and> c_scope c = [] \<and> c_permissions c = [] \<and>
     c_expires_at c = None \<and> (\<exists>h. c_revoke_target c = Some h \<and> hash_ok h)"

definition consent_terms :: "'a consent_payload_scheme \<Rightarrow> bool" where
  "consent_terms c \<longleftrightarrow> rx_test VERSION_PATTERN (c_version c) \<and> is_did (c_subject c) \<and> is_did (c_grantee c) \<and>
     stamp_ok (c_issued_at c) \<and> (\<forall>m. c_marketMakerId c = Some m \<longrightarrow> market_maker_id m) \<and>
     (\<forall>p. c_pricing c = Some p \<longrightarrow> pricing_ok p) \<and> (\<forall>h. c_prior_consent c = Some h \<longrightarrow> hash_ok h) \<and>
     (c_action c = ''grant'' \<and> grant_terms c \<or> c_action c = ''revoke'' \<and> revoke_terms c)"

lemma validate_payload_None [throws_simps]: "validate_payload c = None \<longleftrightarrow> consent_terms c"
  unfolding validate_payload_def revoke_shape_def validateVersion_def validateAction_def
    consent_terms_def grant_terms_def revoke_terms_def
  by (cases "c_action c = ''revoke''") (auto simp: throws_simps)

section \<open>What validation and construction establish\<close>

lemma hash_ok_sha: "sha256_length P \<Longrightarrow> hash_ok (computeConsentHash P b)"
  by (simp add: hash_ok_def computeConsentHash_def sha256Hex_hash_hex)

lemma validateConsentObject_None [throws_simps]:
  "validateConsentObject P c = None \<longleftrightarrow> consent_terms c \<and> hash_ok (c_consent_hash c) \<and>
     (\<exists>b. canonicalizeConsentPayload P c = Inr b \<and> c_consent_hash c = computeConsentHash P b) \<and>
     c_prior_consent c \<noteq> Some (c_consent_hash c)"
  unfolding validateConsentObject_def throws_simps hash_ok_def by (auto split: sum.splits)

lemma canonicalizeConsentPayload_total:
  assumes "\<And>p. c_pricing c = Some p \<Longrightarrow> is_finite (pr_amount p)"
  shows "\<exists>b. canonicalizeConsentPayload P c = Inr b"
proof -
  have "serializable (consent_payload_json P c)"
    using assms by (auto simp: consent_payload_json_def optional_property_def json_opt_def pricing_json_def
        canonicalizeScopeEntry_def split: option.splits)
  then have "\<exists>s. canonicalizeJSON (consent_payload_json P c) = Inr s" by (simp only: canonicalize_total)
  then show ?thesis by (auto simp: canonicalizeConsentPayload_def)
qed

lemma seal_simps [simp]:
  "c_version (seal p h) = c_version p" "c_subject (seal p h) = c_subject p" "c_grantee (seal p h) = c_grantee p"
  "c_action (seal p h) = c_action p" "c_scope (seal p h) = c_scope p" "c_permissions (seal p h) = c_permissions p"
  "c_pricing (seal p h) = c_pricing p" "c_marketMakerId (seal p h) = c_marketMakerId p"
  "c_revoke_target (seal p h) = c_revoke_target p" "c_issued_at (seal p h) = c_issued_at p"
  "c_expires_at (seal p h) = c_expires_at p" "c_prior_consent (seal p h) = c_prior_consent p"
  "c_consent_hash (seal p h) = h"
  by (simp_all add: seal_def consent_payload.defs)

lemma consent_terms_seal [simp]: "consent_terms (seal p h) = consent_terms p"
  by (simp add: consent_terms_def grant_terms_def revoke_terms_def)

lemma canonicalizeConsentPayload_seal [simp]:
  "canonicalizeConsentPayload P (seal p h) = canonicalizeConsentPayload P p"
  by (simp add: canonicalizeConsentPayload_def consent_payload_json_def)

definition consent_draft ::
  "string \<Rightarrow> string \<Rightarrow> string \<Rightarrow> string \<Rightarrow> scope_entry list \<Rightarrow> string list \<Rightarrow> build_consent_options \<Rightarrow> consent_payload" where
  "consent_draft issued_at subject grantee action scope permissions opts =
     \<lparr>c_version = ''1.0'', c_subject = subject, c_grantee = grantee, c_action = action,
      c_scope = scope, c_permissions = permissions, c_pricing = o_pricing opts,
      c_marketMakerId = o_marketMakerId opts, c_revoke_target = o_revoke_target opts,
      c_issued_at = issued_at, c_expires_at = o_expires_at opts, c_prior_consent = o_prior_consent opts\<rparr>"

lemma draft_prior: "c_prior_consent (consent_draft i s g a sc ps opts) = o_prior_consent opts"
  by (simp add: consent_draft_def)

definition issue_time :: "int \<Rightarrow> build_consent_options \<Rightarrow> jsdate" where
  "issue_time clock opts = (case o_now opts of None \<Rightarrow> Some clock | Some d \<Rightarrow> d)"

lemma buildConsentObject_Inr:
  "buildConsentObject P clock subject grantee action scope permissions opts = Inr c \<longleftrightarrow>
     (\<exists>issued_at b. iso_seconds (issue_time clock opts) = Inr issued_at \<and>
        consent_terms (consent_draft issued_at subject grantee action scope permissions opts) \<and>
        canonicalizeConsentPayload P (consent_draft issued_at subject grantee action scope permissions opts) = Inr b \<and>
        o_prior_consent opts \<noteq> Some (computeConsentHash P b) \<and>
        c = seal (consent_draft issued_at subject grantee action scope permissions opts) (computeConsentHash P b))"
  unfolding buildConsentObject_def consent_draft_def [symmetric] issue_time_def [symmetric] Let_def
  by (auto simp: result_simps throws_simps)

section \<open>A sample consent\<close>

definition sample_ref :: string where
  "sample_ref = replicate 64 (CHR ''a'')"

definition sample_scope :: "scope_entry list" where
  "sample_scope = [\<lparr>se_type = ''field'', se_ref = sample_ref\<rparr>]"

definition sample_options :: build_consent_options where
  "sample_options = default_consent_options\<lparr>o_expires_at := Some ''2025-06-15T14:30:00Z'',
     o_marketMakerId := Some ''mm-1''\<rparr>"

definition sample_consent :: "consent_object result" where
  "sample_consent = buildConsentObject zero_platform 1736951400000 ''did:key:alice'' ''did:key:bob'' ''grant''
     sample_scope [''read'', ''share''] sample_options"

lemma sample_hash_ok [simp]: "rx_test HASH_HEX_PATTERN (replicate 64 (CHR ''a''))" "rx_test HASH_HEX_PATTERN (replicate 64 (CHR ''0''))"
  by (simp_all add: hash_hex_iff lower_hex_def between_def dec_digit_def)

lemma sample_scope_ok: "scope_ok sample_scope"
  by (simp add: scope_ok_def sample_scope_def sample_ref_def MAX_SCOPE_ENTRIES_def VALID_SCOPE_TYPES_def)

lemma sample_permissions_ok: "permissions_ok [''read'', ''share'']"
  by (simp add: permissions_ok_def MAX_PERMISSIONS_def canonicalCapabilityActions_def)

lemma sample_did: "is_did ''did:key:alice''" "is_did ''did:key:bob''"
  unfolding is_did_def MIN_DID_LENGTH_def MAX_DID_LENGTH_def by (simp, code_simp)+

lemma sample_market_maker_id: "market_maker_id ''mm-1''"
  by (simp add: market_maker_id_iff lower_alpha_def dec_digit_def between_def)

lemma sample_version: "rx_test VERSION_PATTERN ''1.0''"
  by code_simp

lemma sample_stamp: "stamp_ok ''2025-01-15T14:30:00Z''" "stamp_ok ''2025-06-15T14:30:00Z''"
    "''2025-01-15T14:30:00Z'' < ''2025-06-15T14:30:00Z''"
  unfolding stamp_ok_def by code_simp+

definition sample_payload :: consent_payload where
  "sample_payload = consent_draft ''2025-01-15T14:30:00Z'' ''did:key:alice'' ''did:key:bob'' ''grant''
     sample_scope [''read'', ''share''] sample_options"

lemma sample_terms: "consent_terms sample_payload"
  using sample_did sample_version sample_stamp sample_scope_ok sample_permissions_ok sample_market_maker_id
  by (simp add: consent_terms_def sample_payload_def consent_draft_def sample_options_def default_consent_options_def grant_terms_def)

lemma sample_consent_value: "sample_consent = Inr (seal sample_payload (replicate 64 (CHR ''0'')))"
proof -
  obtain b where b: "canonicalizeConsentPayload zero_platform sample_payload = Inr b"
    using canonicalizeConsentPayload_total [of sample_payload zero_platform]
    by (auto simp: sample_payload_def consent_draft_def sample_options_def default_consent_options_def)
  have "computeConsentHash zero_platform b = replicate 64 (CHR ''0'')"
    by (simp add: computeConsentHash_def zero_hash)
  then show ?thesis
    unfolding sample_consent_def buildConsentObject_Inr
    using b sample_terms sample_date
    by (auto simp: sample_payload_def issue_time_def sample_options_def default_consent_options_def)
qed

section \<open>The properties of consents\<close>

text \<open>Whatever \<open>buildConsentObject\<close> returns, \<open>validateConsentObject\<close> accepts.\<close>

theorem built_consent_validates:
  assumes "sha256_length P"
    and "buildConsentObject P clock subject grantee action scope permissions opts = Inr c"
  shows "validateConsentObject P c = None"
  using assms(2) hash_ok_sha [OF assms(1)] unfolding buildConsentObject_Inr throws_simps
  by (auto simp: draft_prior)

lemma built_consent_validates_witness:
  "validateConsentObject zero_platform (seal sample_payload (replicate 64 (CHR ''0''))) = None"
  by (rule built_consent_validates [of _ 1736951400000 "''did:key:alice''" "''did:key:bob''" "''grant''"
      sample_scope "[''read'', ''share'']" sample_options])
    (simp_all add: sample_consent_value [unfolded sample_consent_def])

text \<open>
  \<open>buildConsentObject\<close> returns a consent exactly for the inputs that meet the terms of a
  grant or of a revocation at the moment of issue, and then it is those inputs, sealed with the
  hash of their canonical form; the one other refusal is a consent that would be its own predecessor.
\<close>

theorem build_consent_succeeds:
  "(\<exists>c. buildConsentObject P clock subject grantee action scope permissions opts = Inr c) \<longleftrightarrow>
   (\<exists>issued_at b. iso_seconds (issue_time clock opts) = Inr issued_at \<and>
      consent_terms (consent_draft issued_at subject grantee action scope permissions opts) \<and>
      canonicalizeConsentPayload P (consent_draft issued_at subject grantee action scope permissions opts) = Inr b \<and>
      o_prior_consent opts \<noteq> Some (computeConsentHash P b))"
  unfolding buildConsentObject_Inr by blast

section \<open>The hash does not depend on the order of scope and permissions\<close>

lemma compare_scope_eq:
  assumes "collation P" and "compare_scope P a b = 0"
    and "se_type a \<in> set VALID_SCOPE_TYPES" "se_type b \<in> set VALID_SCOPE_TYPES"
    and "rx_test HASH_HEX_PATTERN (se_ref a)" "rx_test HASH_HEX_PATTERN (se_ref b)"
  shows "a = (b :: scope_entry)"
proof -
  have word: "t \<in> set VALID_SCOPE_TYPES \<Longrightarrow> plain_word t" for t
    by (auto simp: VALID_SCOPE_TYPES_def plain_word_def lower_alpha_def between_def)
  have "localeCompare P (se_type a) (se_type b) = 0" and "localeCompare P (se_ref a) (se_ref b) = 0"
    using assms(2) by (auto simp: compare_scope_def Let_def split: if_splits)
  then have "se_type a = se_type b" and "se_ref a = se_ref b"
    using assms(3-6) collation_word [OF assms(1)] word hash_hex_word by blast+
  then show ?thesis by simp
qed

lemma compare_scope_order: "collation P \<Longrightarrow> comparator_order (compare_scope P)"
  using lexicographic_two [of "localeCompare P" "localeCompare P" se_type se_ref]
  by (simp add: collation_def compare_scope_def [abs_def] Let_def)

lemma sort_scope_cong:
  assumes "collation P" and "scope_ok s" and "mset s = mset s'"
  shows "sort_cmp (compare_scope P) s = sort_cmp (compare_scope P) s'"
proof -
  note ord = compare_scope_order [OF assms(1)]
  have "a = b" if "a \<in> set s" "b \<in> set s" "compare_scope P a b \<le> 0" "compare_scope P b a \<le> 0" for a b
  proof -
    have "compare_scope P a b = 0"
      using that(3,4) comparator_order.cmp_sym [OF ord, of b a] by simp
    then show ?thesis
      using that(1,2) assms(2) compare_scope_eq [OF assms(1)] by (auto simp: scope_ok_def)
  qed
  then show ?thesis
    using assms(3) comparator_order.sorted_sort_cmp [OF ord]
    by (intro comparator_order.sorted_unique_on [OF ord]) auto
qed

text \<open>
  the canonical bytes of a consent, and with them its hash, do not depend on the order in which
  its scope entries and its permissions are listed.
\<close>

theorem consent_hash_order_independent:
  assumes "collation P" and "scope_ok (c_scope c)"
    and "mset (c_scope c) = mset scope'" and "mset (c_permissions c) = mset permissions'"
  shows "canonicalizeConsentPayload P (c\<lparr>c_scope := scope', c_permissions := permissions'\<rparr>) =
    canonicalizeConsentPayload P (c :: consent_object)"
  using sort_scope_cong [OF assms(1-3)] code_units.sort_cmp_cong [OF assms(4)]
  by (simp add: canonicalizeConsentPayload_def consent_payload_json_def)

lemma consent_hash_order_independent_witness:
  "canonicalizeConsentPayload zero_platform
     (seal sample_payload []\<lparr>c_scope := rev sample_scope, c_permissions := [''share'', ''read'']\<rparr>) =
   canonicalizeConsentPayload zero_platform (seal sample_payload [])"
  by (rule consent_hash_order_independent)
    (use sample_scope_ok in \<open>simp_all add: sample_payload_def consent_draft_def\<close>)

section \<open>The hash commits to every term\<close>

text \<open>Consents with the same terms: equal up to the order of scope and permissions.\<close>

definition same_terms :: "'a consent_payload_scheme \<Rightarrow> 'b consent_payload_scheme \<Rightarrow> bool" where
  "same_terms c d \<longleftrightarrow> c_version c = c_version d \<and> c_subject c = c_subject d \<and> c_grantee c = c_grantee d \<and>
     c_action c = c_action d \<and> mset (c_scope c) = mset (c_scope d) \<and>
     mset (c_permissions c) = mset (c_permissions d) \<and> c_pricing c = c_pricing d \<and>
     c_marketMakerId c = c_marketMakerId d \<and> c_revoke_target c = c_revoke_target d \<and>
     c_issued_at c = c_issued_at d \<and> c_expires_at c = c_expires_at d \<and> c_prior_consent c = c_prior_consent d"

definition plain_price :: "'a consent_payload_scheme \<Rightarrow> bool" where
  "plain_price c \<longleftrightarrow> (\<forall>p. c_pricing c = Some p \<longrightarrow> plain_num (pr_amount p))"

definition consent_properties :: "platform \<Rightarrow> 'a consent_payload_scheme \<Rightarrow> (string \<times> json) list" where
  "consent_properties P c = (case consent_payload_json P c of JObj kvs \<Rightarrow> kvs | _ \<Rightarrow> [])"

lemma consent_payload_object: "consent_payload_json P c = JObj (consent_properties P c)"
  by (simp add: consent_properties_def consent_payload_json_def)

lemma consent_properties_distinct: "distinct (map fst (consent_properties P c))"
  by (simp add: consent_properties_def consent_payload_json_def optional_property_def split: option.splits)

lemma consent_property_lookup:
  "map_of (consent_properties P c) ''version'' = Some (JStr (c_version c))"
  "map_of (consent_properties P c) ''subject'' = Some (JStr (c_subject c))"
  "map_of (consent_properties P c) ''grantee'' = Some (JStr (c_grantee c))"
  "map_of (consent_properties P c) ''action'' = Some (JStr (c_action c))"
  "map_of (consent_properties P c) ''issued_at'' = Some (JStr (c_issued_at c))"
  "map_of (consent_properties P c) ''expires_at'' = Some (json_opt (c_expires_at c))"
  "map_of (consent_properties P c) ''prior_consent'' = Some (json_opt (c_prior_consent c))"
  "map_of (consent_properties P c) ''permissions'' = Some (JArr (map JStr (sort_cmp code_unit_compare (c_permissions c))))"
  "map_of (consent_properties P c) ''scope'' = Some (JArr (map canonicalizeScopeEntry (sort_cmp (compare_scope P) (c_scope c))))"
  "map_of (consent_properties P c) ''marketMakerId'' = map_option JStr (c_marketMakerId c)"
  "map_of (consent_properties P c) ''pricing'' = map_option pricing_json (c_pricing c)"
  "map_of (consent_properties P c) ''revoke_target'' = map_option (\<lambda>h. JObj [(''capability_hash'', JStr h)]) (c_revoke_target c)"
  by (simp_all add: consent_properties_def consent_payload_json_def optional_property_def split: option.splits)

lemma plain_consent: "plain_price c \<Longrightarrow> plain (consent_payload_json P c)"
  by (auto simp: consent_payload_json_def optional_property_def json_opt_def pricing_json_def
      canonicalizeScopeEntry_def plain_price_def split: option.splits)

lemma json_opt_canon [simp]: "canon (json_opt x) = json_opt x" "json_opt x = json_opt y \<longleftrightarrow> x = y"
  by (auto simp: json_opt_def split: option.splits)

lemma two_keys: "canon (JObj [(k, a), (l, b)]) = canon (JObj [(k, a'), (l, b')]) \<Longrightarrow> k \<noteq> l \<Longrightarrow>
    canon a = canon a' \<and> canon b = canon b'"
  using canon_lookup [of "[(k, a), (l, b)]" "[(k, a'), (l, b')]" k]
    canon_lookup [of "[(k, a), (l, b)]" "[(k, a'), (l, b')]" l] by simp

lemma canon_scope_entry_inj: "canon (canonicalizeScopeEntry a) = canon (canonicalizeScopeEntry b) \<Longrightarrow> a = (b :: scope_entry)"
  using two_keys [of "''ref''" "JStr (se_ref a)" "''type''" "JStr (se_type a)" "JStr (se_ref b)" "JStr (se_type b)"]
  by (simp add: canonicalizeScopeEntry_def del: canon.simps(2))

lemma canon_pricing_inj: "canon (pricing_json p) = canon (pricing_json q) \<Longrightarrow> p = (q :: consent_pricing)"
proof -
  assume eq: "canon (pricing_json p) = canon (pricing_json q)"
  have d: "distinct (map fst [(''amount'', x), (''currency'', y), (''model'', z :: json)])" for x y z by simp
  note l = canon_lookup [OF eq [unfolded pricing_json_def] d d]
  show ?thesis using l [of "''amount''"] l [of "''currency''"] l [of "''model''"] by simp
qed

text \<open>The rendered scope and permission lists determine the multisets they were sorted from.\<close>

lemma scope_json_inj:
  assumes "canon (JArr (map canonicalizeScopeEntry (sort_cmp f xs))) = canon (JArr (map canonicalizeScopeEntry (sort_cmp g ys)))"
  shows "mset xs = mset ys"
proof -
  have "inj (\<lambda>e :: scope_entry. canon (canonicalizeScopeEntry e))" using canon_scope_entry_inj by (intro injI)
  moreover have "map (\<lambda>e. canon (canonicalizeScopeEntry e)) (sort_cmp f xs) = map (\<lambda>e. canon (canonicalizeScopeEntry e)) (sort_cmp g ys)"
    using assms by (simp add: comp_def)
  ultimately have "sort_cmp f xs = sort_cmp g ys" by (metis inj_map_eq_map)
  then show ?thesis by (metis mset_sort_cmp)
qed

lemma permissions_json_inj:
  assumes "canon (JArr (map JStr (sort_cmp f xs))) = canon (JArr (map JStr (sort_cmp g ys)))"
  shows "mset xs = mset ys"
proof -
  have "map JStr (sort_cmp f xs) = map JStr (sort_cmp g ys)" using assms by (simp add: comp_def)
  then have "sort_cmp f xs = sort_cmp g ys" by (metis inj_map_eq_map injI json.inject(3))
  then show ?thesis by (metis mset_sort_cmp)
qed

lemma json_str_option_inj [simp]: "map_option JStr x = map_option JStr y \<longleftrightarrow> x = y"
  by (cases x; cases y) auto

lemma same_canonical_terms:
  assumes "canon (consent_payload_json P c) = canon (consent_payload_json P d)"
  shows "same_terms c d"
proof -
  note l = canon_lookup [OF assms [unfolded consent_payload_object] consent_properties_distinct consent_properties_distinct]
  have "mset (c_scope c) = mset (c_scope d)"
    by (rule scope_json_inj) (use l [of "''scope''"] in \<open>simp add: consent_property_lookup\<close>)
  moreover have "mset (c_permissions c) = mset (c_permissions d)"
    by (rule permissions_json_inj) (use l [of "''permissions''"] in \<open>simp add: consent_property_lookup\<close>)
  moreover have "map_option (\<lambda>p. canon (pricing_json p)) (c_pricing c) = map_option (\<lambda>p. canon (pricing_json p)) (c_pricing d)"
    using l [of "''pricing''"] by (simp add: consent_property_lookup option.map_comp comp_def)
  then have "c_pricing c = c_pricing d"
    using canon_pricing_inj by (auto simp: map_option_case split: option.splits)
  moreover have "c_revoke_target c = c_revoke_target d"
    using l [of "''revoke_target''"]
    by (auto simp: consent_property_lookup option.map_comp comp_def map_option_case sort_keys_def split: option.splits)
  moreover have "c_marketMakerId c = c_marketMakerId d"
    using l [of "''marketMakerId''"] by (auto simp: consent_property_lookup map_option_case split: option.splits)
  ultimately show ?thesis
    using l [of "''version''"] l [of "''subject''"] l [of "''grantee''"] l [of "''action''"]
      l [of "''issued_at''"] l [of "''expires_at''"] l [of "''prior_consent''"]
    by (simp add: same_terms_def consent_property_lookup)
qed

lemma show_nat_numeral: "show_nat (numeral k) = (if (numeral k :: nat) < 10 then [digit (numeral k)]
    else show_nat (numeral k div 10) @ [digit (numeral k mod 10)])"
  by (rule show_nat.simps)

lemma show_nat_one: "show_nat 0 = [digit 0]" "show_nat (Suc 0) = [digit 1]"
  by (subst show_nat.simps, simp)+

text \<open>
  Two valid consents with the same hash (and amounts that print without an exponent) have the
  same terms, unless their two canonical texts are a SHA-256 collision.
\<close>

theorem consent_hash_commits:
  assumes "validateConsentObject P c = None" and "validateConsentObject P d = None"
    and "plain_price c" and "plain_price d" and "c_consent_hash c = c_consent_hash d"
  shows "same_terms c d \<or> (\<exists>a b. canonicalizeConsentPayload P c = Inr a \<and>
    canonicalizeConsentPayload P d = Inr b \<and> collides P a b)"
proof -
  obtain a b where ab: "canonicalizeConsentPayload P c = Inr a" "canonicalizeConsentPayload P d = Inr b"
      "sha256Hex P a = sha256Hex P b"
    using assms(1,2,5) unfolding throws_simps computeConsentHash_def by metis
  show ?thesis
  proof (cases "a = b")
    case True
    then obtain s where "canonicalizeJSON (consent_payload_json P c) = Inr s"
        "canonicalizeJSON (consent_payload_json P d) = Inr s"
      using ab(1,2) utf8_encode_inj by (auto simp: canonicalizeConsentPayload_def result_simps)
    then have "canon (consent_payload_json P c) = canon (consent_payload_json P d)"
      using plain_consent [OF assms(3)] plain_consent [OF assms(4)] by (intro canonicalize_inj)
    then show ?thesis using same_canonical_terms by blast
  next
    case False
    then show ?thesis using ab sha256Hex_inj by blast
  qed
qed

lemma sample_consent_valid: "validateConsentObject zero_platform (seal sample_payload (replicate 64 (CHR ''0''))) = None"
  using sample_terms canonicalizeConsentPayload_total [of sample_payload zero_platform]
  unfolding throws_simps hash_ok_def
  by (auto simp: computeConsentHash_def zero_hash sample_payload_def consent_draft_def sample_options_def default_consent_options_def)

lemma consent_hash_commits_witness:
  "same_terms (seal sample_payload (replicate 64 (CHR ''0''))) (seal sample_payload (replicate 64 (CHR ''0''))) \<or>
   (\<exists>a b. canonicalizeConsentPayload zero_platform (seal sample_payload (replicate 64 (CHR ''0''))) = Inr a \<and>
     canonicalizeConsentPayload zero_platform (seal sample_payload (replicate 64 (CHR ''0''))) = Inr b \<and>
     collides zero_platform a b)"
  by (rule consent_hash_commits)
    (simp_all add: sample_consent_valid, simp_all add: plain_price_def sample_payload_def consent_draft_def sample_options_def default_consent_options_def)

lemma exponent_texts:
  "number_to_string (Num False 15 (- 101)) = ''1.5e-100''" "number_to_string (Num False 15 (- 11)) = ''1.5e-10''"
  "canonicalize_number (Num False 15 (- 101)) = Inr ''1.5e-1''" "canonicalize_number (Num False 15 (- 11)) = Inr ''1.5e-1''"
proof -
  show texts: "number_to_string (Num False 15 (- 101)) = ''1.5e-100''" "number_to_string (Num False 15 (- 11)) = ''1.5e-10''"
    by (simp_all add: decimal_to_string_def show_nat_numeral show_nat_one digit_numerals Let_def)
  then show "canonicalize_number (Num False 15 (- 101)) = Inr ''1.5e-1''" "canonicalize_number (Num False 15 (- 11)) = Inr ''1.5e-1''"
    by (simp_all add: canonicalize_number_def strip_zeros_def ends_with_def del: number_to_string.simps)
qed

text \<open>
  Prices that differ by ninety orders of magnitude are indistinguishable to the hash.  Both
  amounts are valid; \<open>replace(/0+$/, '')\<close>, meant for the zeros of a fraction, removes the
  zeros that end the exponents of \<open>1.5e-10\<close> and \<open>1.5e-100\<close>.
\<close>

theorem exponent_zeros_collide:
  "number_to_string (Num False 15 (- 101)) = ''1.5e-100'' \<and>
   number_to_string (Num False 15 (- 11)) = ''1.5e-10'' \<and>
   canonicalizeConsentPayload P ((c :: consent_object)\<lparr>c_pricing :=
       Some \<lparr>pr_model = ''per_use'', pr_amount = Num False 15 (- 101), pr_currency = currency\<rparr>\<rparr>) =
   canonicalizeConsentPayload P (c\<lparr>c_pricing :=
       Some \<lparr>pr_model = ''per_use'', pr_amount = Num False 15 (- 11), pr_currency = currency\<rparr>\<rparr>)"
proof -
  let ?cheap = "\<lparr>pr_model = ''per_use'', pr_amount = Num False 15 (- 101), pr_currency = currency\<rparr>"
  let ?dear = "\<lparr>pr_model = ''per_use'', pr_amount = Num False 15 (- 11), pr_currency = currency\<rparr>"
  have "canonicalizeJSON (pricing_json ?cheap) = canonicalizeJSON (pricing_json ?dear)"
    unfolding pricing_json_def
    by (rule canonicalize_object_cong) (simp add: exponent_texts)
  then have "canonicalizeJSON (consent_payload_json P (c\<lparr>c_pricing := Some ?cheap\<rparr>)) =
      canonicalizeJSON (consent_payload_json P (c\<lparr>c_pricing := Some ?dear\<rparr>))"
    unfolding consent_payload_json_def
    by (intro canonicalize_object_cong)
      (auto simp: optional_property_def simp del: canonicalizeJSON.simps intro!: list_all2_appendI
        split: option.splits)
  then show ?thesis by (simp add: canonicalizeConsentPayload_def exponent_texts del: number_to_string.simps)
qed

lemma version_split:
  assumes "rx_test VERSION_PATTERN v"
  obtains a b where "split_on (CHR ''.'') v = [a, b]" "v = a @ ''.'' @ b" "a \<noteq> []" "b \<noteq> []"
    "\<forall>c \<in> set a. dec_digit c" "\<forall>c \<in> set b. dec_digit c"
proof -
  obtain a b where v: "v = a @ ''.'' @ b" "a \<noteq> []" "b \<noteq> []" "\<forall>c \<in> set a. dec_digit c" "\<forall>c \<in> set b. dec_digit c"
    using assms unfolding version_iff by blast
  then have "CHR ''.'' \<notin> set a" "CHR ''.'' \<notin> set b"
    by (auto simp: dec_digit_def between_def)
  then have "split_on (CHR ''.'') v = [a, b]" using v(1) by (simp add: split_on_append split_on_plain)
  then show thesis using v that by blast
qed


lemma buildConsentId_Inr:
  "buildConsentId c = Inr i \<longleftrightarrow> rx_test VERSION_PATTERN (c_version c) \<and> rx_test HASH_HEX_PATTERN (c_consent_hash c) \<and>
     (\<exists>major minor. c_version c = major @ ''.'' @ minor \<and> split_on (CHR ''.'') (c_version c) = [major, minor] \<and>
       i = ''aoc://consent/v'' @ major @ ''/'' @ minor @ ''/0x'' @ c_consent_hash c)"
proof (cases "rx_test VERSION_PATTERN (c_version c)")
  case True
  then obtain a b where v: "split_on (CHR ''.'') (c_version c) = [a, b]" "c_version c = a @ ''.'' @ b"
    by (rule version_split)
  have "buildConsentId c = Inr i \<longleftrightarrow> rx_test HASH_HEX_PATTERN (c_consent_hash c) \<and>
      Inr (''aoc://consent/v'' @ a @ ''/'' @ b @ ''/0x'' @ c_consent_hash c) = (Inr i :: string result)"
    unfolding buildConsentId_def result_simps throws_simps validateVersion_def v(1) using True by simp
  then show ?thesis using True v by auto
next
  case False
  then show ?thesis unfolding buildConsentId_def result_simps throws_simps validateVersion_def by blast
qed

text \<open>A consent identifier determines the version and the hash of the consent it names.\<close>

theorem consent_id_injective:
  assumes "buildConsentId c = Inr i" and "buildConsentId d = Inr i"
  shows "c_version c = c_version d \<and> c_consent_hash c = c_consent_hash d"
proof -
  obtain a b where c: "rx_test VERSION_PATTERN (c_version c)" "split_on (CHR ''.'') (c_version c) = [a, b]"
      "c_version c = a @ ''.'' @ b" "i = ''aoc://consent/v'' @ a @ ''/'' @ b @ ''/0x'' @ c_consent_hash c"
    using assms(1) unfolding buildConsentId_Inr by blast
  obtain a' b' where d: "rx_test VERSION_PATTERN (c_version d)" "split_on (CHR ''.'') (c_version d) = [a', b']"
      "c_version d = a' @ ''.'' @ b'" "i = ''aoc://consent/v'' @ a' @ ''/'' @ b' @ ''/0x'' @ c_consent_hash d"
    using assms(2) unfolding buildConsentId_Inr by blast
  have no_slash: "CHR ''/'' \<notin> set x \<and> CHR ''/'' \<notin> set y"
    if "rx_test VERSION_PATTERN v" "split_on (CHR ''.'') v = [x, y]" for v x y
    using that by (elim version_split [of v]) (auto simp: dec_digit_def between_def)
  have "split_on (CHR ''/'') (a @ ''/'' @ b @ ''/0x'' @ c_consent_hash c) =
      split_on (CHR ''/'') (a' @ ''/'' @ b' @ ''/0x'' @ c_consent_hash d)"
    using c(4) d(4) by simp
  then have "a = a'" and "b = b'"
    using no_slash [OF c(1,2)] no_slash [OF d(1,2)] by (simp_all add: split_on_append)
  then show ?thesis using c(3,4) d(3,4) by simp
qed

lemma consent_id_injective_witness:
  "c_version (seal sample_payload (replicate 64 (CHR ''0''))) = c_version (seal sample_payload (replicate 64 (CHR ''0''))) \<and>
   c_consent_hash (seal sample_payload (replicate 64 (CHR ''0''))) = c_consent_hash (seal sample_payload (replicate 64 (CHR ''0'')))"
  by (rule consent_id_injective [of _ "''aoc://consent/v1/0/0x'' @ replicate 64 (CHR ''0'')"])
    (simp_all add: buildConsentId_Inr sample_version, simp_all add: sample_payload_def consent_draft_def sample_version)

text \<open>
  a consent expires after the moment it was issued at: the string comparison of the two stamps
  decides the order of the instants.
\<close>

theorem built_consent_expires_later:
  assumes "buildConsentObject P clock subject grantee action scope permissions opts = Inr c"
    and "issue_time clock opts = Some now" and "four_digit_year now"
    and "c_expires_at c = Some e" and "iso_parse e = Some t"
  shows "now < t"
proof -
  let ?i = "iso_string (stamp_of now)"
  obtain h where c: "c = seal (consent_draft ?i subject grantee action scope permissions opts) h"
    and terms: "consent_terms (consent_draft ?i subject grantee action scope permissions opts)"
    using assms(1,2) iso_seconds_stamp [OF assms(3)] unfolding buildConsentObject_Inr by auto
  have "c_issued_at c = ?i" and "consent_terms c"
    using terms by (simp_all add: c, simp add: consent_draft_def)
  then have e: "stamp_ok e" "?i < e"
    using assms(4) by (auto simp: consent_terms_def grant_terms_def revoke_terms_def)
  have "rx_test ISO8601_UTC_PATTERN e" using e(1) by (simp add: stamp_ok_def)
  note f = iso_pattern_fields [OF this]
  have v: "valid_stamp (iso_fields e)" and t: "t = stamp_seconds (iso_fields e) * 1000"
    using assms(5) iso_parse_pattern [OF \<open>rx_test ISO8601_UTC_PATTERN e\<close>] by (auto split: if_splits)
  note s = stamp_of_valid [OF assms(3)]
  have "stamp_less (stamp_of now) (iso_fields e)"
    using e(2) f s(2) by (metis iso_string_less)
  then have "now div 1000 < stamp_seconds (iso_fields e)"
    using stamp_seconds_less(2) [OF s(1) v] s(3,4) by simp
  then show ?thesis using t by linarith
qed

lemma sample_now: "stamp_of 1736951400000 = (2025, 1, 15, 14, 30, 0)" "four_digit_year 1736951400000"
  and sample_expiry: "iso_parse ''2025-06-15T14:30:00Z'' = Some 1749997800000"
proof -
  let ?f = "(2025, 1, 15, 14, 30, 0) :: stamp" and ?g = "(2025, 6, 15, 14, 30, 0) :: stamp"
  have f: "stamp_seconds ?f = 1736951400" "valid_stamp ?f" and g: "stamp_seconds ?g = 1749997800" "valid_stamp ?g"
    by (simp_all add: make_day_def day_from_year_def month_start_def leap_year_def month_starts_def
        calendar_date_def days_in_month_def)
  show "stamp_of 1736951400000 = ?f" "four_digit_year 1736951400000"
    using stamp_of_stamp [of ?f] f by simp_all
  have "iso_string ?g = ''2025-06-15T14:30:00Z''" by (simp add: pad_numeral digit_numerals)
  moreover have "iso_parse (iso_string ?g) = Some (stamp_seconds ?g * 1000)"
    by (rule iso_parse_stamp) (use g in simp_all)
  ultimately show "iso_parse ''2025-06-15T14:30:00Z'' = Some 1749997800000"
    by (simp only: g(1)) simp
qed

lemma built_consent_expires_later_witness: "(1736951400000 :: int) < 1749997800000"
  by (rule built_consent_expires_later [OF sample_consent_value [unfolded sample_consent_def],
      where e = "''2025-06-15T14:30:00Z''"])
    (simp_all add: sample_now sample_expiry, simp_all add: issue_time_def sample_options_def
      default_consent_options_def sample_payload_def consent_draft_def sample_expiry)

end
