(* ===== verification/Registries.thy ===== *)
theory Registries
  imports Platform
begin

text \<open>
  \<open>capability/registries/*\<close> and \<open>capability/revocation.ts\<close>: the interfaces
  \<open>NonceRegistry\<close> and \<open>RevocationRegistry\<close> as records of operations over an abstract
  state, their contracts as locales, the in-memory implementations and the proof that these meet
  the contracts.
\<close>

section \<open>Interfaces\<close>

record 's nonce_registry_ops =
  hasSeen :: "'s \<Rightarrow> string \<Rightarrow> jsdate \<Rightarrow> bool"
  markSeen :: "string \<Rightarrow> string \<Rightarrow> 's \<Rightarrow> 's"
  cleanup :: "jsdate \<Rightarrow> 's \<Rightarrow> 's"

record 's revocation_registry_ops =
  rr_isRevoked :: "'s \<Rightarrow> string \<Rightarrow> bool"
  rr_revoke :: "string \<Rightarrow> 's \<Rightarrow> 's"

section \<open>In-memory implementations\<close>

text \<open>\<open>cleanup\<close> is the documented no-op.\<close>

definition InMemoryNonceRegistry :: "string set nonce_registry_ops" where
  "InMemoryNonceRegistry = \<lparr>hasSeen = (\<lambda>seen tokenId now. tokenId \<in> seen),
     markSeen = (\<lambda>tokenId expiresAt seen. insert tokenId seen),
     cleanup = (\<lambda>now seen. seen)\<rparr>"

definition InMemoryRevocationRegistry :: "string set revocation_registry_ops" where
  "InMemoryRevocationRegistry = \<lparr>rr_isRevoked = (\<lambda>revoked capabilityHash. capabilityHash \<in> revoked),
     rr_revoke = (\<lambda>capabilityHash revoked. insert capabilityHash revoked)\<rparr>"

text \<open>\<open>reset\<close> of either registry.\<close>

definition registry_reset :: "string set \<Rightarrow> string set" where
  "registry_reset s = {}"

section \<open>revocation.ts\<close>

definition validateCapabilityHash :: "string \<Rightarrow> throws" where
  "validateCapabilityHash capabilityHash = throw_if (\<not> rx_test HASH_HEX_PATTERN capabilityHash)
     ''Revocation target must be a valid capability_hash (64 lowercase hex characters).''"

definition revokeCapabilityToken :: "'r revocation_registry_ops \<Rightarrow> string \<Rightarrow> 'r \<Rightarrow> 'r result" where
  "revokeCapabilityToken R capabilityHash s =
     after (validateCapabilityHash capabilityHash) (Inr (rr_revoke R capabilityHash s))"

definition isRevoked :: "'r revocation_registry_ops \<Rightarrow> string \<Rightarrow> 'r \<Rightarrow> bool" where
  "isRevoked R capabilityHash s = rr_isRevoked R s capabilityHash"

section \<open>Contracts\<close>

text \<open>What both registries are: a set that only grows, with its membership test.\<close>

locale growing_set =
  fixes member :: "'s \<Rightarrow> string \<Rightarrow> bool" and add :: "string \<Rightarrow> 's \<Rightarrow> 's"
  assumes member_add: "member (add x s) y \<longleftrightarrow> y = x \<or> member s y"
begin

lemma member_fold_add: "member (fold add xs s) y \<longleftrightarrow> y \<in> set xs \<or> member s y"
  by (induction xs arbitrary: s) (auto simp: member_add)

lemma member_stays: "member s y \<Longrightarrow> member (add x s) y"
  by (simp add: member_add)

end

locale nonce_registry =
  fixes N :: "'s nonce_registry_ops"
  assumes seen_after_mark: "hasSeen N (markSeen N t e s) u now \<longleftrightarrow> u = t \<or> hasSeen N s u now"
    and seen_after_cleanup: "hasSeen N (cleanup N d s) u now \<longleftrightarrow> hasSeen N s u now"
begin

lemma seen_mark_cleanup:
  "hasSeen N (cleanup N d (markSeen N t e s)) u now \<longleftrightarrow> u = t \<or> hasSeen N s u now"
  by (simp add: seen_after_mark seen_after_cleanup)

end

sublocale nonce_registry \<subseteq> nonces: growing_set "\<lambda>s t. hasSeen N s t now" "\<lambda>t s. markSeen N t e s" for now e
  by unfold_locales (rule seen_after_mark)

locale revocation_registry =
  fixes R :: "'r revocation_registry_ops"
  assumes revoked_after_revoke: "rr_isRevoked R (rr_revoke R h s) g \<longleftrightarrow> g = h \<or> rr_isRevoked R s g"
begin

lemma revoke_then_revoked:
  "revokeCapabilityToken R h s = Inr s' \<Longrightarrow> isRevoked R g s' \<longleftrightarrow> g = h \<or> isRevoked R g s"
  by (auto simp: revokeCapabilityToken_def isRevoked_def after_Inr revoked_after_revoke)

lemma revoke_accepts: "(\<exists>s'. revokeCapabilityToken R h s = Inr s') \<longleftrightarrow> rx_test HASH_HEX_PATTERN h"
  by (simp add: revokeCapabilityToken_def validateCapabilityHash_def after_Inr)

end

sublocale revocation_registry \<subseteq> revocations: growing_set "rr_isRevoked R" "rr_revoke R"
  by unfold_locales (rule revoked_after_revoke)

interpretation memory_nonces: nonce_registry InMemoryNonceRegistry
  by unfold_locales (auto simp: InMemoryNonceRegistry_def)

interpretation memory_revocations: revocation_registry InMemoryRevocationRegistry
  by unfold_locales (auto simp: InMemoryRevocationRegistry_def)

end
