(* ===== verification/MarketMakers.thy ===== *)
theory MarketMakers
  imports Actions
begin

text \<open>
  \<open>shared/marketMakerRegistry.ts\<close>: the registry of market makers.  Its \<open>Map\<close> is an
  association list in insertion order without duplicate keys (\<open>registry_inv\<close>); records are
  values, so the copies and \<open>Object.freeze\<close> of \<open>cloneMarketMaker\<close> are the identity.
\<close>

record market_maker =
  mm_id :: string
  mm_name :: string
  mm_version :: string
  mm_capabilities :: "string list"
  mm_endpoint :: "string option"
  mm_publicKey :: "string option"
  mm_status :: string
  mm_created_at :: string

type_synonym market_maker_registry = "(string \<times> market_maker) list"

definition cloneMarketMaker :: "market_maker \<Rightarrow> market_maker" where
  "cloneMarketMaker marketMaker = marketMaker"

definition TRUSTED_MARKET_MAKER_STATUSES :: "string set" where
  "TRUSTED_MARKET_MAKER_STATUSES = {''active''}"

definition blank :: "string \<Rightarrow> bool" where
  "blank s \<longleftrightarrow> trim s = []"

definition blank_option :: "string option \<Rightarrow> bool" where
  "blank_option x = (case x of None \<Rightarrow> False | Some s \<Rightarrow> blank s)"

definition validateMarketMaker :: "market_maker \<Rightarrow> throws" where
  "validateMarketMaker m = first_throw [
     validateMarketMakerId (Some (mm_id m)) ''Market maker id'',
     throw_if (blank (mm_name m)) ''Market maker name must be a non-empty string.'',
     throw_if (blank (mm_version m)) ''Market maker version must be a non-empty string.'',
     throw_if (mm_capabilities m = [] \<or> list_ex blank (mm_capabilities m))
       ''Market maker capabilities must be a non-empty array of strings.'',
     throw_if (blank_option (mm_endpoint m)) ''Market maker endpoint must be a non-empty string when provided.'',
     throw_if (blank_option (mm_publicKey m)) ''Market maker publicKey must be a non-empty string when provided.'',
     throw_if (mm_status m \<notin> set [''active'', ''deprecated'', ''revoked''])
       ''Market maker status must be active, deprecated, or revoked.'',
     throw_if (\<not> rx_test ISO8601_UTC_PATTERN (mm_created_at m))
       ''Market maker created_at must be ISO 8601 UTC format.'']"

section \<open>The class MarketMakerRegistry\<close>

definition mm_exists :: "market_maker_registry \<Rightarrow> string \<Rightarrow> bool" where
  "mm_exists records i \<longleftrightarrow> map_of records i \<noteq> None"

definition mm_register :: "market_maker \<Rightarrow> market_maker_registry \<Rightarrow> market_maker_registry result" where
  "mm_register m records = after (first_throw [
       validateMarketMaker m,
       throw_if (mm_exists records (mm_id m))
         (''Market maker '' @ mm_id m @ '' is already registered.'')])
     (Inr (records @ [(mm_id m, cloneMarketMaker m)]))"

definition mm_get :: "market_maker_registry \<Rightarrow> string \<Rightarrow> market_maker option" where
  "mm_get records i = map_option cloneMarketMaker (map_of records i)"

definition mm_getStatus :: "market_maker_registry \<Rightarrow> string \<Rightarrow> string option" where
  "mm_getStatus records i = map_option mm_status (map_of records i)"

definition mm_isTrusted :: "market_maker_registry \<Rightarrow> string \<Rightarrow> bool" where
  "mm_isTrusted records i = (case mm_getStatus records i of
     None \<Rightarrow> False | Some status \<Rightarrow> status \<in> TRUSTED_MARKET_MAKER_STATUSES)"

definition mm_list :: "market_maker_registry \<Rightarrow> market_maker list" where
  "mm_list records = map (\<lambda>r. cloneMarketMaker (snd r)) records"

section \<open>Invariant and laws\<close>

definition market_maker_ok :: "market_maker \<Rightarrow> bool" where
  "market_maker_ok m \<longleftrightarrow> market_maker_id (mm_id m) \<and> \<not> blank (mm_name m) \<and> \<not> blank (mm_version m) \<and>
     mm_capabilities m \<noteq> [] \<and> (\<forall>c \<in> set (mm_capabilities m). \<not> blank c) \<and>
     \<not> blank_option (mm_endpoint m) \<and> \<not> blank_option (mm_publicKey m) \<and>
     mm_status m \<in> {''active'', ''deprecated'', ''revoked''} \<and> rx_test ISO8601_UTC_PATTERN (mm_created_at m)"

definition registry_inv :: "market_maker_registry \<Rightarrow> bool" where
  "registry_inv records \<longleftrightarrow> distinct (map fst records) \<and>
     (\<forall>(i, m) \<in> set records. i = mm_id m \<and> market_maker_ok m)"

lemma validateMarketMaker_None [throws_simps]: "validateMarketMaker m = None \<longleftrightarrow> market_maker_ok m"
  unfolding validateMarketMaker_def throws_simps market_maker_ok_def list_ex_iff by auto

lemma mm_register_Inr: "mm_register m records = Inr records' \<longleftrightarrow>
    market_maker_ok m \<and> mm_id m \<notin> fst ` set records \<and> records' = records @ [(mm_id m, m)]"
  unfolding mm_register_def result_simps throws_simps mm_exists_def cloneMarketMaker_def
  by (auto simp: map_of_eq_None_iff)

lemma registry_inv_empty: "registry_inv []"
  by (simp add: registry_inv_def)

lemma registry_inv_register: "registry_inv records \<Longrightarrow> mm_register m records = Inr records' \<Longrightarrow> registry_inv records'"
  by (auto simp: registry_inv_def mm_register_Inr)

text \<open>
  What the access checks ask of a directory of market makers: whether an identifier is registered,
  its status, and whether it is trusted.
\<close>

record 'd market_maker_directory =
  dir_exists :: "'d \<Rightarrow> string \<Rightarrow> bool"
  dir_status :: "'d \<Rightarrow> string \<Rightarrow> string option"
  dir_trusted :: "'d \<Rightarrow> string \<Rightarrow> bool"

locale trusted_directory =
  fixes D :: "'d market_maker_directory" and valid :: "'d \<Rightarrow> bool"
  assumes exists_status: "dir_exists D d i \<longleftrightarrow> dir_status D d i \<noteq> None"
    and trusted_active: "dir_trusted D d i \<longleftrightarrow> dir_status D d i = Some ''active''"
    and known_status: "valid d \<Longrightarrow> dir_status D d i = Some s \<Longrightarrow> s \<in> {''active'', ''deprecated'', ''revoked''}"
begin

lemma trusted_exists: "dir_trusted D d i \<Longrightarrow> dir_exists D d i"
  by (simp add: exists_status trusted_active)

lemma trusted_unless_withdrawn:
  "valid d \<Longrightarrow> dir_exists D d i \<Longrightarrow> dir_status D d i \<noteq> Some ''deprecated'' \<Longrightarrow>
   dir_status D d i \<noteq> Some ''revoked'' \<Longrightarrow> dir_trusted D d i"
  using known_status by (fastforce simp: exists_status trusted_active)

end

definition MarketMakerRegistry :: "market_maker_registry market_maker_directory" where
  "MarketMakerRegistry = \<lparr>dir_exists = mm_exists, dir_status = mm_getStatus, dir_trusted = mm_isTrusted\<rparr>"

interpretation registry_directory: trusted_directory MarketMakerRegistry registry_inv
proof
  show "dir_exists MarketMakerRegistry d i \<longleftrightarrow> dir_status MarketMakerRegistry d i \<noteq> None" for d i
    by (simp add: MarketMakerRegistry_def mm_exists_def mm_getStatus_def)
  show "dir_trusted MarketMakerRegistry d i \<longleftrightarrow> dir_status MarketMakerRegistry d i = Some ''active''" for d i
    by (simp add: MarketMakerRegistry_def mm_isTrusted_def TRUSTED_MARKET_MAKER_STATUSES_def split: option.splits)
  show "registry_inv d \<Longrightarrow> dir_status MarketMakerRegistry d i = Some s \<Longrightarrow> s \<in> {''active'', ''deprecated'', ''revoked''}" for d i s
    by (auto simp: MarketMakerRegistry_def mm_getStatus_def registry_inv_def market_maker_ok_def dest!: map_of_SomeD)
qed

text \<open>
  registering a market maker accepts exactly the well-formed records under a fresh identifier,
  keeps the invariant, and afterwards the new record is found, in the state it was given, at the end
  of the listing, while every other lookup is unchanged.
\<close>

theorem register_market_maker:
  assumes "registry_inv records" and "mm_register m records = Inr records'"
  shows "registry_inv records' \<and> market_maker_ok m \<and> \<not> mm_exists records (mm_id m) \<and>
    mm_get records' (mm_id m) = Some m \<and> mm_isTrusted records' (mm_id m) = (mm_status m = ''active'') \<and>
    mm_list records' = mm_list records @ [m] \<and>
    (\<forall>i. i \<noteq> mm_id m \<longrightarrow> mm_get records' i = mm_get records i \<and> mm_isTrusted records' i = mm_isTrusted records i)"
proof -
  have ok: "market_maker_ok m" "mm_id m \<notin> fst ` set records" "records' = records @ [(mm_id m, m)]"
    using assms(2) by (simp_all add: mm_register_Inr)
  then have none: "map_of records (mm_id m) = None" by (simp add: map_of_eq_None_iff)
  have look: "map_of records' i = (if i = mm_id m then Some m else map_of records i)" for i
    using none ok(3) by (auto simp: map_add_def split: option.splits)
  have list: "mm_list records' = mm_list records @ [m]"
    by (simp add: mm_list_def ok(3) cloneMarketMaker_def)
  show ?thesis
    using ok(1) none registry_inv_register [OF assms] list
    by (simp add: mm_exists_def mm_get_def mm_isTrusted_def mm_getStatus_def look cloneMarketMaker_def
        TRUSTED_MARKET_MAKER_STATUSES_def)
qed

definition sample_market_maker :: market_maker where
  "sample_market_maker = \<lparr>mm_id = ''mm-1'', mm_name = ''One'', mm_version = ''1'', mm_capabilities = [''pay''],
     mm_endpoint = None, mm_publicKey = None, mm_status = ''active'', mm_created_at = ''2025-01-15T14:30:00Z''\<rparr>"

lemma sample_market_maker_ok: "market_maker_ok sample_market_maker"
proof -
  have "rx_test ISO8601_UTC_PATTERN ''2025-01-15T14:30:00Z''" by code_simp
  moreover have "market_maker_id ''mm-1''"
    by (simp add: market_maker_id_iff lower_alpha_def dec_digit_def between_def)
  ultimately show ?thesis
    by (simp add: market_maker_ok_def sample_market_maker_def blank_def blank_option_def trim_def js_space_def)
qed

lemma register_market_maker_witness:
  "registry_inv [(''mm-1'', sample_market_maker)] \<and>
   mm_get [(''mm-1'', sample_market_maker)] ''mm-1'' = Some sample_market_maker \<and>
   mm_isTrusted [(''mm-1'', sample_market_maker)] ''mm-1'' \<and>
   mm_list [(''mm-1'', sample_market_maker)] = [sample_market_maker] \<and>
   mm_get [(''mm-1'', sample_market_maker)] ''mm-2'' = None"
proof -
  have id: "mm_id sample_market_maker = ''mm-1''" "mm_status sample_market_maker = ''active''"
    by (simp_all add: sample_market_maker_def)
  have "mm_register sample_market_maker [] = Inr [(''mm-1'', sample_market_maker)]"
    using sample_market_maker_ok by (simp add: mm_register_Inr id)
  then show ?thesis
    using register_market_maker [OF registry_inv_empty, of sample_market_maker] by (simp add: id mm_list_def mm_get_def)
qed

end
