(* ===== verification/Capability.thy ===== *)
theory Capability
  imports Consent Registries MarketMakers
begin

text \<open>
  \<open>capability/types.ts\<close>, \<open>canonical.ts\<close>, \<open>hash.ts\<close>, \<open>capabilityId.ts\<close> and
  \<open>capabilityToken.ts\<close>: capability tokens, derived from a consent.  \<open>mintCapabilityToken\<close>
  takes the bytes of \<open>crypto.randomBytes(32)\<close> and the clock as arguments;
  \<open>verifyCapabilityToken\<close> takes the registries' operations and their states and returns the
  new state of the nonce registry.
\<close>

section \<open>Data\<close>

record capability_payload =
  t_version :: string
  t_subject :: string
  t_grantee :: string
  t_consent_ref :: string
  t_scope :: "scope_entry list"
  t_permissions :: "string list"
  t_marketMakerId :: "string option"
  t_issued_at :: string
  t_not_before :: "string option"
  t_expires_at :: string
  t_token_id :: string

record capability_token = capability_payload +
  t_capability_hash :: string

record mint_options =
  m_now :: "jsdate option"
  m_not_before :: "string option"
  m_marketMakerId :: "string option"

definition default_mint_options :: mint_options where
  "default_mint_options = \<lparr>m_now = None, m_not_before = None, m_marketMakerId = None\<rparr>"

section \<open>Canonical payload, hash, identifier\<close>

definition capability_payload_json :: "platform \<Rightarrow> 'a capability_payload_scheme \<Rightarrow> json" where
  "capability_payload_json P payload = JObj (
     [(''consent_ref'', JStr (t_consent_ref payload)), (''expires_at'', JStr (t_expires_at payload)),
      (''grantee'', JStr (t_grantee payload)), (''issued_at'', JStr (t_issued_at payload))] @
     optional_property ''marketMakerId'' JStr (t_marketMakerId payload) @
     [(''not_before'', json_opt (t_not_before payload)),
      (''permissions'', JArr (map JStr (sort_cmp code_unit_compare (t_permissions payload)))),
      (''scope'', JArr (map canonicalizeScopeEntry (sort_cmp (compare_scope P) (t_scope payload)))),
      (''subject'', JStr (t_subject payload)), (''token_id'', JStr (t_token_id payload)),
      (''version'', JStr (t_version payload))])"

definition canonicalizeCapabilityPayload :: "platform \<Rightarrow> 'a capability_payload_scheme \<Rightarrow> bytes result" where
  "canonicalizeCapabilityPayload P payload =
     bind_result (canonicalizeJSON (capability_payload_json P payload)) (\<lambda>canonical. Inr (utf8_encode canonical))"

definition computeCapabilityHash :: "platform \<Rightarrow> bytes \<Rightarrow> string" where
  "computeCapabilityHash P payloadBytes = sha256Hex P payloadBytes"

definition cap_validateVersion :: "string \<Rightarrow> throws" where
  "cap_validateVersion version = throw_if (\<not> rx_test VERSION_PATTERN version)
     ''Capability version must match pattern MAJOR.MINOR (e.g., \"1.0\").''"

definition buildCapabilityId :: "capability_token \<Rightarrow> string result" where
  "buildCapabilityId token = after (first_throw [
      cap_validateVersion (t_version token),
      throw_if (\<not> rx_test HASH_HEX_PATTERN (t_capability_hash token))
        ''Capability hash must be 64 lowercase hex characters.''])
     (case split_on (CHR ''.'') (t_version token) of
        major # minor # _ \<Rightarrow> Inr (''aoc://capability/v'' @ major @ ''/'' @ minor @ ''/0x'' @ t_capability_hash token)
      | _ \<Rightarrow> Inr [])"

section \<open>Validation helpers\<close>

definition CLOCK_SKEW_SECONDS :: int where
  "CLOCK_SKEW_SECONDS = 300"

definition cap_validateDID :: "string \<Rightarrow> string \<Rightarrow> throws" where
  "cap_validateDID v fieldName = first_throw [
     throw_if (trim v = []) (''Capability '' @ fieldName @ '' must be non-empty.''),
     throw_if (length v < MIN_DID_LENGTH)
       (''Capability '' @ fieldName @ '' must be at least '' @ show_nat MIN_DID_LENGTH @ '' characters.''),
     throw_if (length v > MAX_DID_LENGTH)
       (''Capability '' @ fieldName @ '' must be at most '' @ show_nat MAX_DID_LENGTH @ '' characters.''),
     throw_if (\<not> rx_test DID_PATTERN v) (''Capability '' @ fieldName @ '' must be a valid DID.'')]"

definition validateConsentRef :: "string \<Rightarrow> throws" where
  "validateConsentRef consent_ref = throw_if (\<not> rx_test HASH_HEX_PATTERN consent_ref)
     ''Capability consent_ref must be 64 lowercase hex characters.''"

definition cap_validateScope :: "scope_entry list \<Rightarrow> throws" where
  "cap_validateScope scope = first_throw [
     throw_if (scope = []) ''Capability scope must be a non-empty array.'',
     throw_if (length scope > MAX_SCOPE_ENTRIES)
       (''Capability scope must not exceed '' @ show_nat MAX_SCOPE_ENTRIES @ '' entries.''),
     seen_loop validateScopeEntry scope_key
       (\<lambda>e. ''Capability scope contains duplicate entry: ('' @ se_type e @ '', '' @ se_ref e @ '').'')
       {} 0 scope]"

definition cap_permission_options :: action_options where
  "cap_permission_options = \<lparr>containerLabel = ''Capability permissions'', itemLabel = ''Capability permission'',
     emptyMessage = ''Capability permissions must be a non-empty array.'', maxEntries = MAX_PERMISSIONS\<rparr>"

definition cap_validatePermissions :: "string list \<Rightarrow> throws" where
  "cap_validatePermissions permissions = validateCapabilityActions permissions cap_permission_options"

definition validateTimestamp :: "string \<Rightarrow> string \<Rightarrow> throws" where
  "validateTimestamp v fieldName = throw_if (\<not> rx_test ISO8601_UTC_PATTERN v)
     (''Capability '' @ fieldName @ '' must be ISO 8601 UTC format (e.g., \"2025-06-15T10:00:00Z\").'')"

definition validateTokenId :: "string \<Rightarrow> throws" where
  "validateTokenId token_id = throw_if (\<not> rx_test HASH_HEX_PATTERN token_id)
     ''Capability token_id must be 64 lowercase hex characters.''"

definition assertScopeContainment :: "scope_entry list \<Rightarrow> scope_entry list \<Rightarrow> throws" where
  "assertScopeContainment tokenScope consentScope = (let allowed = scope_key ` set consentScope in
     each_throw (\<lambda>entry. throw_if (scope_key entry \<notin> allowed)
       (''Scope escalation: token scope entry ('' @ se_type entry @ '', '' @ se_ref entry @
        '') not found in parent consent scope.'')) tokenScope)"

definition assertPermissionContainment :: "string list \<Rightarrow> string list \<Rightarrow> throws" where
  "assertPermissionContainment tokenPermissions consentPermissions = (let allowed = set consentPermissions in
     each_throw (\<lambda>perm. throw_if (perm \<notin> allowed)
       (''Permission escalation: token permission \"'' @ perm @ ''\" not found in parent consent permissions.''))
       tokenPermissions)"

definition generateTokenId :: "bytes \<Rightarrow> string" where
  "generateTokenId random = hex_encode random"

section \<open>Minting\<close>

text \<open>Which market maker the token is bound to, from the request and the parent consent.\<close>

definition bindMarketMaker :: "string option \<Rightarrow> string option \<Rightarrow> string option result" where
  "bindMarketMaker requestedMarketMakerId parentMarketMakerId = (case parentMarketMakerId of
     Some parent \<Rightarrow> after (throw_if (requestedMarketMakerId \<noteq> None \<and> requestedMarketMakerId \<noteq> Some parent)
       ''Capability marketMakerId must match parent consent marketMakerId.'') (Inr (Some parent))
   | None \<Rightarrow> after (throw_if (requestedMarketMakerId \<noteq> None)
       ''Capability marketMakerId cannot be introduced when parent consent is unbound.'') (Inr None))"

definition not_before_bounds :: "string option \<Rightarrow> string \<Rightarrow> string \<Rightarrow> throws" where
  "not_before_bounds not_before issued_at expires_at = (case not_before of
     None \<Rightarrow> None
   | Some nb \<Rightarrow> first_throw [
       throw_if (nb < issued_at) ''Capability not_before must be at or after issued_at.'',
       throw_if (nb \<ge> expires_at) ''Capability not_before must be before expires_at.''])"

definition derivation_bounds :: "'a capability_payload_scheme \<Rightarrow> consent_object \<Rightarrow> throws" where
  "derivation_bounds t consent = first_throw [
     throw_if (t_issued_at t < c_issued_at consent)
       ''Capability issued_at must be at or after parent consent issued_at.'',
     throw_if (case c_expires_at consent of None \<Rightarrow> False | Some e \<Rightarrow> t_expires_at t > e)
       ''Capability expires_at must not exceed parent consent expires_at.'',
     throw_if (case t_not_before t of None \<Rightarrow> False | Some nb \<Rightarrow> nb < c_issued_at consent)
       ''Capability not_before must be at or after parent consent issued_at.'']"

definition mint_structure :: "capability_payload \<Rightarrow> string option \<Rightarrow> string option \<Rightarrow> throws" where
  "mint_structure t requestedMarketMakerId parentMarketMakerId = first_throw [
     cap_validateVersion (t_version t),
     cap_validateDID (t_subject t) ''subject'',
     cap_validateDID (t_grantee t) ''grantee'',
     validateConsentRef (t_consent_ref t),
     cap_validateScope (t_scope t),
     cap_validatePermissions (t_permissions t),
     validateTimestamp (t_issued_at t) ''issued_at'',
     validateTimestamp (t_expires_at t) ''expires_at'',
     validateTokenId (t_token_id t),
     validateMarketMakerId requestedMarketMakerId ''Capability marketMakerId'',
     validateMarketMakerId parentMarketMakerId ''Parent consent marketMakerId'',
     (case t_not_before t of None \<Rightarrow> None | Some nb \<Rightarrow> validateTimestamp nb ''not_before'')]"

definition cap_seal :: "capability_payload \<Rightarrow> string \<Rightarrow> capability_token" where
  "cap_seal payload capability_hash =
     capability_payload.extend payload \<lparr>t_capability_hash = capability_hash\<rparr>"

definition mintCapabilityToken ::
  "platform \<Rightarrow> int \<Rightarrow> bytes \<Rightarrow> consent_object \<Rightarrow> scope_entry list \<Rightarrow> string list \<Rightarrow> string \<Rightarrow>
   mint_options \<Rightarrow> capability_token result" where
  "mintCapabilityToken P clock random consent scope permissions expires_at opts =
     after (throw_if (c_action consent \<noteq> ''grant'')
         ''Capability token can only be derived from a consent with action \"grant\".'')
     (bind_result (iso_seconds (case m_now opts of None \<Rightarrow> Some clock | Some d \<Rightarrow> d)) (\<lambda>issued_at.
      let t = \<lparr>t_version = ''1.0'', t_subject = c_subject consent, t_grantee = c_grantee consent,
            t_consent_ref = c_consent_hash consent, t_scope = scope, t_permissions = permissions,
            t_marketMakerId = None, t_issued_at = issued_at, t_not_before = m_not_before opts,
            t_expires_at = expires_at, t_token_id = generateTokenId random\<rparr>
      in after (mint_structure t (m_marketMakerId opts) (c_marketMakerId consent))
       (bind_result (bindMarketMaker (m_marketMakerId opts) (c_marketMakerId consent)) (\<lambda>marketMakerId.
        let t = t\<lparr>t_marketMakerId := marketMakerId\<rparr> in
        after (first_throw [
            throw_if (expires_at \<le> issued_at) ''Capability expires_at must be after issued_at.'',
            not_before_bounds (t_not_before t) issued_at expires_at,
            derivation_bounds t consent,
            assertScopeContainment scope (c_scope consent),
            assertPermissionContainment permissions (c_permissions consent)])
        (bind_result (canonicalizeCapabilityPayload P t) (\<lambda>payloadBytes.
          Inr (cap_seal t (computeCapabilityHash P payloadBytes))))))))"

section \<open>Validation\<close>

definition validateCapabilityToken :: "platform \<Rightarrow> (string \<Rightarrow> bool) option \<Rightarrow> 'a capability_token_scheme \<Rightarrow> throws" where
  "validateCapabilityToken P registry_exists token = first_throw [
     cap_validateVersion (t_version token),
     cap_validateDID (t_subject token) ''subject'',
     cap_validateDID (t_grantee token) ''grantee'',
     validateConsentRef (t_consent_ref token),
     cap_validateScope (t_scope token),
     cap_validatePermissions (t_permissions token),
     validateTimestamp (t_issued_at token) ''issued_at'',
     validateTimestamp (t_expires_at token) ''expires_at'',
     validateTokenId (t_token_id token),
     validateMarketMakerId (t_marketMakerId token) ''Capability marketMakerId'',
     (case (t_marketMakerId token, registry_exists) of
        (Some i, Some exists) \<Rightarrow> throw_if (\<not> exists i) (''Capability marketMakerId '' @ i @ '' is not registered.'')
      | _ \<Rightarrow> None),
     (case t_not_before token of None \<Rightarrow> None | Some nb \<Rightarrow> validateTimestamp nb ''not_before''),
     throw_if (t_expires_at token \<le> t_issued_at token) ''Capability expires_at must be after issued_at.'',
     not_before_bounds (t_not_before token) (t_issued_at token) (t_expires_at token),
     throw_if (\<not> rx_test HASH_HEX_PATTERN (t_capability_hash token))
       ''Capability capability_hash must be 64 lowercase hex characters.'',
     (case canonicalizeCapabilityPayload P token of
        Inl e \<Rightarrow> Some e
      | Inr payloadBytes \<Rightarrow> throw_if (t_capability_hash token \<noteq> computeCapabilityHash P payloadBytes)
          ''Capability capability_hash does not match canonical payload hash.'')]"

section \<open>Verification\<close>

text \<open>Checks 2 to 7 of \<open>verifyCapabilityToken\<close>: the token against its parent consent.\<close>

definition verify_derivation :: "'a capability_token_scheme \<Rightarrow> consent_object \<Rightarrow> throws" where
  "verify_derivation token consent = first_throw [
     throw_if (t_consent_ref token \<noteq> c_consent_hash consent)
       ''Capability consent_ref does not match parent consent consent_hash.'',
     throw_if (c_action consent \<noteq> ''grant'') ''Parent consent action must be \"grant\".'',
     throw_if (t_subject token \<noteq> c_subject consent) ''Capability subject does not match parent consent subject.'',
     throw_if (t_grantee token \<noteq> c_grantee consent) ''Capability grantee does not match parent consent grantee.'',
     validateMarketMakerId (c_marketMakerId consent) ''Parent consent marketMakerId'',
     throw_if (c_marketMakerId consent \<noteq> t_marketMakerId token)
       ''Capability marketMakerId does not match parent consent marketMakerId.'',
     assertScopeContainment (t_scope token) (c_scope consent),
     assertPermissionContainment (t_permissions token) (c_permissions consent),
     derivation_bounds token consent]"

text \<open>Checks 8 to 10, at the time stamp \<open>now\<close>.\<close>

definition effective_start :: "'a capability_payload_scheme \<Rightarrow> string" where
  "effective_start token = (case t_not_before token of None \<Rightarrow> t_issued_at token | Some nb \<Rightarrow> nb)"

definition verify_time :: "'a capability_payload_scheme \<Rightarrow> string \<Rightarrow> throws" where
  "verify_time token now = first_throw [
     throw_if (now > t_expires_at token) ''Capability token has expired.'',
     throw_if (now < effective_start token) ''Capability token is not yet valid (before not_before).'']"

definition verifyCapabilityToken ::
  "platform \<Rightarrow> 'n nonce_registry_ops \<Rightarrow> 'r revocation_registry_ops \<Rightarrow> 'a capability_token_scheme \<Rightarrow>
   consent_object \<Rightarrow> jsdate \<Rightarrow> 'r \<Rightarrow> 'n \<Rightarrow> 'n result" where
  "verifyCapabilityToken P N R token consent now revocations nonces =
     after (first_throw [validateCapabilityToken P None token, verify_derivation token consent])
     (bind_result (iso_seconds now) (\<lambda>stamp.
      after (first_throw [
          verify_time token stamp,
          throw_if (isRevoked R (t_capability_hash token) revocations) ''Capability token has been revoked.'',
          throw_if (hasSeen N nonces (t_token_id token) now)
            ''Capability token_id has already been presented (replay detected).''])
        (Inr (cleanup N now (markSeen N (t_token_id token) (t_expires_at token) nonces)))))"

section \<open>What the guards mean\<close>

lemma cap_validateDID_None [throws_simps]: "cap_validateDID v f = None \<longleftrightarrow> is_did v"
  unfolding cap_validateDID_def throws_simps is_did_def using did_trim by auto

lemma cap_validateScope_None [throws_simps]: "cap_validateScope scope = None \<longleftrightarrow> scope_ok scope"
proof -
  have "cap_validateScope scope = None \<longleftrightarrow> validateScope scope = None"
    unfolding cap_validateScope_def validateScope_def throws_simps seen_loop_None ..
  then show ?thesis by (simp add: validateScope_None)
qed

lemma cap_validatePermissions_None [throws_simps]: "cap_validatePermissions ps = None \<longleftrightarrow> permissions_ok ps"
  by (auto simp: cap_validatePermissions_def validateCapabilityActions_None cap_permission_options_def permissions_ok_def)

lemma validateTimestamp_None [throws_simps]: "validateTimestamp s f = None \<longleftrightarrow> stamp_ok s"
  by (simp add: validateTimestamp_def stamp_ok_def)

lemma hash_guards_None [throws_simps]:
  "validateConsentRef h = None \<longleftrightarrow> hash_ok h" "validateTokenId h = None \<longleftrightarrow> hash_ok h"
  "validateCapabilityHash h = None \<longleftrightarrow> hash_ok h"
  by (simp_all add: validateConsentRef_def validateTokenId_def validateCapabilityHash_def hash_ok_def)

lemma cap_validateVersion_None [throws_simps]: "cap_validateVersion v = None \<longleftrightarrow> rx_test VERSION_PATTERN v"
  by (simp add: cap_validateVersion_def)

lemma hash_ok_no_colon: "hash_ok s \<Longrightarrow> CHR '':'' \<notin> set s"
  by (auto simp: hash_ok_def hash_hex_iff lower_hex_def between_def dec_digit_def)

text \<open>A valid entry's key contains one colon, so the entry with that key is unique.\<close>

lemma scope_key_unique:
  assumes "se_type a \<in> set VALID_SCOPE_TYPES" and "hash_ok (se_ref a)" and "scope_key a = scope_key b"
  shows "a = (b :: scope_entry)"
proof -
  have a: "split_on (CHR '':'') (scope_key a) = [se_type a, se_ref a]"
    using scope_types_no_colon [OF assms(1)] hash_ok_no_colon [OF assms(2)]
    by (simp add: scope_key_def split_on_append split_on_plain)
  have count: "length (split_on c s) = Suc (count_list s c)" for c :: char and s
    by (induction s) (auto split: list.splits)
  have "count_list (scope_key b) (CHR '':'') = 1" using count [of "CHR '':''" "scope_key b"] a assms(3) by simp
  then have "CHR '':'' \<notin> set (se_type b)"
    by (auto simp: scope_key_def count_list_0_iff)
  then have "split_on (CHR '':'') (scope_key b) = se_type b # split_on (CHR '':'') (se_ref b)"
    by (simp add: scope_key_def split_on_append)
  then have "se_type a = se_type b" using a assms(3) by simp
  then show ?thesis using assms(3) by (simp add: scope_key_def)
qed

lemma assertScopeContainment_None:
  assumes "scope_ok s"
  shows "assertScopeContainment s c = None \<longleftrightarrow> set s \<subseteq> set c"
proof -
  have "scope_key e \<in> scope_key ` set c \<longleftrightarrow> e \<in> set c" if "e \<in> set s" for e
    using that assms scope_key_unique [of e] by (auto simp: scope_ok_def hash_ok_def)
  then show ?thesis by (auto simp: assertScopeContainment_def throws_simps Let_def)
qed

lemma assertPermissionContainment_None [throws_simps]:
  "assertPermissionContainment ps qs = None \<longleftrightarrow> set ps \<subseteq> set qs"
  by (auto simp: assertPermissionContainment_def throws_simps Let_def)

text \<open>A token on its own, and a token as a restriction of its parent consent.\<close>

definition token_terms :: "'a capability_payload_scheme \<Rightarrow> bool" where
  "token_terms t \<longleftrightarrow> rx_test VERSION_PATTERN (t_version t) \<and> is_did (t_subject t) \<and> is_did (t_grantee t) \<and>
     hash_ok (t_consent_ref t) \<and> scope_ok (t_scope t) \<and> permissions_ok (t_permissions t) \<and>
     stamp_ok (t_issued_at t) \<and> stamp_ok (t_expires_at t) \<and> hash_ok (t_token_id t) \<and>
     (\<forall>m. t_marketMakerId t = Some m \<longrightarrow> market_maker_id m) \<and> t_issued_at t < t_expires_at t \<and>
     (\<forall>nb. t_not_before t = Some nb \<longrightarrow> stamp_ok nb \<and> t_issued_at t \<le> nb \<and> nb < t_expires_at t)"

definition within_bounds :: "'a capability_payload_scheme \<Rightarrow> consent_object \<Rightarrow> bool" where
  "within_bounds t c \<longleftrightarrow> c_issued_at c \<le> t_issued_at t \<and>
     (\<forall>e. c_expires_at c = Some e \<longrightarrow> t_expires_at t \<le> e) \<and>
     (\<forall>nb. t_not_before t = Some nb \<longrightarrow> c_issued_at c \<le> nb)"

definition attenuates :: "'a capability_payload_scheme \<Rightarrow> consent_object \<Rightarrow> bool" where
  "attenuates t c \<longleftrightarrow> c_action c = ''grant'' \<and> t_consent_ref t = c_consent_hash c \<and>
     t_subject t = c_subject c \<and> t_grantee t = c_grantee c \<and> t_marketMakerId t = c_marketMakerId c \<and>
     set (t_scope t) \<subseteq> set (c_scope c) \<and> set (t_permissions t) \<subseteq> set (c_permissions c) \<and> within_bounds t c"

lemma not_before_bounds_None [throws_simps]:
  "not_before_bounds nb i e = None \<longleftrightarrow> (\<forall>n. nb = Some n \<longrightarrow> i \<le> n \<and> n < e)"
  unfolding not_before_bounds_def by (auto simp: throws_simps not_less not_le split: option.splits)

lemma derivation_bounds_None [throws_simps]: "derivation_bounds t c = None \<longleftrightarrow> within_bounds t c"
  unfolding derivation_bounds_def within_bounds_def by (auto simp: throws_simps not_less split: option.splits)

definition sealed :: "platform \<Rightarrow> 'a capability_token_scheme \<Rightarrow> bool" where
  "sealed P t \<longleftrightarrow> hash_ok (t_capability_hash t) \<and>
     (\<exists>b. canonicalizeCapabilityPayload P t = Inr b \<and> t_capability_hash t = computeCapabilityHash P b)"

lemma validateCapabilityToken_None:
  "validateCapabilityToken P reg t = None \<longleftrightarrow> token_terms t \<and> sealed P t \<and>
     (\<forall>i exists. t_marketMakerId t = Some i \<and> reg = Some exists \<longrightarrow> exists i)"
proof -
  have mm: "(case (t_marketMakerId t, reg) of
        (Some i, Some exists) \<Rightarrow> throw_if (\<not> exists i) (m i)
      | _ \<Rightarrow> None) = None \<longleftrightarrow> (\<forall>i exists. t_marketMakerId t = Some i \<and> reg = Some exists \<longrightarrow> exists i)" for m
    by (auto split: option.splits)
  have nb: "(case t_not_before t of None \<Rightarrow> None | Some nb \<Rightarrow> validateTimestamp nb f) = None \<longleftrightarrow>
      (\<forall>n. t_not_before t = Some n \<longrightarrow> stamp_ok n)" for f
    by (auto simp: validateTimestamp_None split: option.splits)
  have hash: "(case canonicalizeCapabilityPayload P t of Inl e \<Rightarrow> Some e
      | Inr b \<Rightarrow> throw_if (t_capability_hash t \<noteq> computeCapabilityHash P b) m) = None \<longleftrightarrow>
      (\<exists>b. canonicalizeCapabilityPayload P t = Inr b \<and> t_capability_hash t = computeCapabilityHash P b)" for m
    by (auto split: sum.splits)
  show ?thesis
    unfolding validateCapabilityToken_def throws_simps mm nb hash token_terms_def sealed_def hash_ok_def [of "t_capability_hash t"]
    by (auto simp: not_le)
qed

lemma verify_derivation_None:
  assumes "scope_ok (t_scope t)" and "\<forall>m. t_marketMakerId t = Some m \<longrightarrow> market_maker_id m"
  shows "verify_derivation t c = None \<longleftrightarrow> attenuates t c"
  unfolding verify_derivation_def throws_simps assertScopeContainment_None [OF assms(1)] attenuates_def
  using assms(2) by auto

lemma verify_time_None: "verify_time t now = None \<longleftrightarrow> effective_start t \<le> now \<and> now \<le> t_expires_at t"
  by (auto simp: verify_time_def throws_simps not_less)

section \<open>Minting\<close>

lemma cap_seal_simps [simp]:
  "t_version (cap_seal p h) = t_version p" "t_subject (cap_seal p h) = t_subject p" "t_grantee (cap_seal p h) = t_grantee p"
  "t_consent_ref (cap_seal p h) = t_consent_ref p" "t_scope (cap_seal p h) = t_scope p"
  "t_permissions (cap_seal p h) = t_permissions p" "t_marketMakerId (cap_seal p h) = t_marketMakerId p"
  "t_issued_at (cap_seal p h) = t_issued_at p" "t_not_before (cap_seal p h) = t_not_before p"
  "t_expires_at (cap_seal p h) = t_expires_at p" "t_token_id (cap_seal p h) = t_token_id p"
  "t_capability_hash (cap_seal p h) = h"
  by (simp_all add: cap_seal_def capability_payload.defs)

lemma cap_seal_invariants [simp]:
  "token_terms (cap_seal p h) = token_terms p" "attenuates (cap_seal p h) c = attenuates p c"
  "canonicalizeCapabilityPayload P (cap_seal p h) = canonicalizeCapabilityPayload P p"
  "effective_start (cap_seal p h) = effective_start p"
  by (simp_all add: token_terms_def attenuates_def within_bounds_def effective_start_def
      canonicalizeCapabilityPayload_def capability_payload_json_def split: option.splits)

lemma canonicalizeCapabilityPayload_total: "\<exists>b. canonicalizeCapabilityPayload P t = Inr b"
proof -
  have "serializable (capability_payload_json P t)"
    by (auto simp: capability_payload_json_def optional_property_def json_opt_def canonicalizeScopeEntry_def
        split: option.splits)
  then have "\<exists>s. canonicalizeJSON (capability_payload_json P t) = Inr s" by (simp only: canonicalize_total)
  then show ?thesis by (auto simp: canonicalizeCapabilityPayload_def)
qed

lemma bindMarketMaker_Inr:
  "bindMarketMaker req parent = Inr m \<longleftrightarrow> m = parent \<and> (req = None \<or> req = parent)"
  by (auto simp: bindMarketMaker_def result_simps throws_simps split: option.splits)

definition token_draft ::
  "string \<Rightarrow> bytes \<Rightarrow> consent_object \<Rightarrow> scope_entry list \<Rightarrow> string list \<Rightarrow> string \<Rightarrow> mint_options \<Rightarrow> capability_payload" where
  "token_draft issued_at random consent scope permissions expires_at opts =
     \<lparr>t_version = ''1.0'', t_subject = c_subject consent, t_grantee = c_grantee consent,
      t_consent_ref = c_consent_hash consent, t_scope = scope, t_permissions = permissions,
      t_marketMakerId = c_marketMakerId consent, t_issued_at = issued_at, t_not_before = m_not_before opts,
      t_expires_at = expires_at, t_token_id = generateTokenId random\<rparr>"

definition mint_time :: "int \<Rightarrow> mint_options \<Rightarrow> jsdate" where
  "mint_time clock opts = (case m_now opts of None \<Rightarrow> Some clock | Some d \<Rightarrow> d)"

lemma version_1_0: "rx_test VERSION_PATTERN ''1.0''"
  by (rule sample_version)

lemma mint_structure_None:
  "mint_structure t req parent = None \<longleftrightarrow> rx_test VERSION_PATTERN (t_version t) \<and> is_did (t_subject t) \<and>
     is_did (t_grantee t) \<and> hash_ok (t_consent_ref t) \<and> scope_ok (t_scope t) \<and> permissions_ok (t_permissions t) \<and>
     stamp_ok (t_issued_at t) \<and> stamp_ok (t_expires_at t) \<and> hash_ok (t_token_id t) \<and>
     (\<forall>m. req = Some m \<longrightarrow> market_maker_id m) \<and> (\<forall>m. parent = Some m \<longrightarrow> market_maker_id m) \<and>
     (\<forall>nb. t_not_before t = Some nb \<longrightarrow> stamp_ok nb)"
proof -
  have nb: "(case t_not_before t of None \<Rightarrow> None | Some nb \<Rightarrow> validateTimestamp nb f) = None \<longleftrightarrow>
      (\<forall>n. t_not_before t = Some n \<longrightarrow> stamp_ok n)" for f
    by (auto simp: validateTimestamp_None split: option.splits)
  show ?thesis unfolding mint_structure_def throws_simps nb by auto
qed

lemma mintCapabilityToken_Inr:
  "mintCapabilityToken P clock random c scope permissions expires_at opts = Inr t \<longleftrightarrow>
     (\<exists>issued_at b. iso_seconds (mint_time clock opts) = Inr issued_at \<and>
       (let d = token_draft issued_at random c scope permissions expires_at opts in
        token_terms d \<and> attenuates d c \<and> (m_marketMakerId opts = None \<or> m_marketMakerId opts = c_marketMakerId c) \<and>
        canonicalizeCapabilityPayload P d = Inr b \<and> t = cap_seal d (computeCapabilityHash P b)))"
proof -
  have scope: "scope_ok scope \<and> assertScopeContainment scope s = None \<longleftrightarrow> scope_ok scope \<and> set scope \<subseteq> set s" for s
    using assertScopeContainment_None by blast
  show ?thesis
    unfolding mintCapabilityToken_def mint_time_def [symmetric] Let_def result_simps throws_simps
      mint_structure_None bindMarketMaker_Inr token_draft_def token_terms_def attenuates_def
    using scope by (auto simp: not_le within_bounds_def)
qed

section \<open>A sample token\<close>

definition sample_sealed_consent :: consent_object where
  "sample_sealed_consent = seal sample_payload (replicate 64 (CHR ''0''))"

definition sample_token_draft :: capability_payload where
  "sample_token_draft = token_draft ''2025-01-15T14:30:00Z'' (replicate 32 0) sample_sealed_consent sample_scope
     [''read''] ''2025-06-15T14:30:00Z'' default_mint_options"

definition sample_token :: capability_token where
  "sample_token = cap_seal sample_token_draft (replicate 64 (CHR ''0''))"

lemma zero_id: "generateTokenId (replicate 32 0) = replicate 64 (CHR ''0'')"
proof -
  have "hex_encode (replicate n 0) = replicate (2 * n) (CHR ''0'')" for n
    by (induction n) (simp_all add: hex_encode_def hex_byte_def hex_digit_def char_of_def bit_0)
  then show ?thesis by (simp add: generateTokenId_def)
qed

lemmas sample_token_defs = sample_token_draft_def token_draft_def sample_sealed_consent_def sample_payload_def
  consent_draft_def sample_options_def default_consent_options_def default_mint_options_def

lemma sample_token_terms: "token_terms sample_token_draft"
proof -
  have "permissions_ok [''read'']"
    by (simp add: permissions_ok_def MAX_PERMISSIONS_def canonicalCapabilityActions_def)
  then show ?thesis
    using sample_did sample_stamp sample_scope_ok sample_version sample_market_maker_id
    by (simp add: token_terms_def sample_token_defs zero_id hash_ok_def)
qed

lemma sample_token_attenuates: "attenuates sample_token_draft sample_sealed_consent"
  by (simp add: attenuates_def within_bounds_def sample_token_defs)

lemma zero_capability_hash [simp]: "computeCapabilityHash zero_platform b = replicate 64 (CHR ''0'')"
  by (simp add: computeCapabilityHash_def zero_hash)

lemma sample_mint:
  "mintCapabilityToken zero_platform 1736951400000 (replicate 32 0) sample_sealed_consent sample_scope [''read'']
     ''2025-06-15T14:30:00Z'' default_mint_options = Inr sample_token"
proof -
  obtain b where "canonicalizeCapabilityPayload zero_platform sample_token_draft = Inr b"
    using canonicalizeCapabilityPayload_total by blast
  moreover have "mint_time 1736951400000 default_mint_options = Some 1736951400000"
    by (simp add: mint_time_def default_mint_options_def)
  moreover have "m_marketMakerId default_mint_options = None" by (simp add: default_mint_options_def)
  ultimately show ?thesis
    unfolding mintCapabilityToken_Inr Let_def
    using sample_token_terms sample_token_attenuates sample_date
    by (auto simp: sample_token_def sample_token_draft_def)
qed

section \<open>Derivation\<close>

lemma mint_facts:
  assumes "sha256_length P" and "mintCapabilityToken P clock random c scope permissions expires_at opts = Inr t"
  shows "token_terms t" "attenuates t c" "sealed P t" "t_scope t = scope" "t_permissions t = permissions"
    "t_expires_at t = expires_at" "t_token_id t = hex_encode random" "iso_seconds (mint_time clock opts) = Inr (t_issued_at t)"
    "t_not_before t = m_not_before opts"
  using assms sha256Hex_hash_hex [OF assms(1)]
  unfolding mintCapabilityToken_Inr Let_def
  by (auto simp: sealed_def token_draft_def generateTokenId_def hash_ok_def computeCapabilityHash_def)

text \<open>
  A minted token grants no more than its parent consent: parties, market maker and consent
  reference are the consent's, the scope and the permissions are what was asked for and part of the
  consent's, and the validity interval lies inside the consent's.
\<close>

theorem minted_token_attenuates:
  assumes "mintCapabilityToken P clock random c scope permissions expires_at opts = Inr t"
  shows "attenuates t c \<and> token_terms t \<and> t_scope t = scope \<and> t_permissions t = permissions \<and>
    t_expires_at t = expires_at \<and> t_token_id t = hex_encode random"
  using assms unfolding mintCapabilityToken_Inr Let_def
  by (auto simp: token_draft_def generateTokenId_def)

lemma minted_token_attenuates_witness:
  "attenuates sample_token sample_sealed_consent \<and> token_terms sample_token \<and> t_scope sample_token = sample_scope \<and>
   t_permissions sample_token = [''read''] \<and> t_expires_at sample_token = ''2025-06-15T14:30:00Z'' \<and>
   t_token_id sample_token = hex_encode (replicate 32 0)"
  by (rule minted_token_attenuates [OF sample_mint])

text \<open>
  \<open>mintCapabilityToken\<close> returns a token exactly when the draft it builds from the consent, the
  request and the clock is well formed and within the consent, and the requested market maker, if
  any, is the consent's.
\<close>

theorem mint_succeeds:
  "(\<exists>t. mintCapabilityToken P clock random c scope permissions expires_at opts = Inr t) \<longleftrightarrow>
   (\<exists>issued_at. iso_seconds (mint_time clock opts) = Inr issued_at \<and>
      token_terms (token_draft issued_at random c scope permissions expires_at opts) \<and>
      attenuates (token_draft issued_at random c scope permissions expires_at opts) c \<and>
      (m_marketMakerId opts = None \<or> m_marketMakerId opts = c_marketMakerId c))"
  unfolding mintCapabilityToken_Inr Let_def using canonicalizeCapabilityPayload_total by blast

text \<open>A minted token passes \<open>validateCapabilityToken\<close>, with a directory that knows its market maker or with none.\<close>

theorem minted_token_validates:
  assumes "sha256_length P"
    and "mintCapabilityToken P clock random c scope permissions expires_at opts = Inr t"
    and "\<forall>i exists. c_marketMakerId c = Some i \<and> reg = Some exists \<longrightarrow> exists i"
  shows "validateCapabilityToken P reg t = None"
  using mint_facts [OF assms(1,2)] assms(3) by (auto simp: validateCapabilityToken_None attenuates_def)

lemma minted_token_validates_witness:
  "validateCapabilityToken zero_platform (Some (\<lambda>i. i = ''mm-1'')) sample_token = None"
  by (rule minted_token_validates [OF zero_platform_ok(1) sample_mint])
    (simp add: sample_sealed_consent_def sample_payload_def consent_draft_def sample_options_def default_consent_options_def)

section \<open>Verification\<close>

lemma verifyCapabilityToken_Inr:
  "verifyCapabilityToken P N R t c now revocations nonces = Inr nonces' \<longleftrightarrow>
     token_terms t \<and> sealed P t \<and> attenuates t c \<and>
     (\<exists>stamp. iso_seconds now = Inr stamp \<and> effective_start t \<le> stamp \<and> stamp \<le> t_expires_at t) \<and>
     \<not> isRevoked R (t_capability_hash t) revocations \<and> \<not> hasSeen N nonces (t_token_id t) now \<and>
     nonces' = cleanup N now (markSeen N (t_token_id t) (t_expires_at t) nonces)"
proof -
  have derivation: "token_terms t \<and> verify_derivation t c = None \<longleftrightarrow> token_terms t \<and> attenuates t c"
    using verify_derivation_None [of t c] by (auto simp: token_terms_def)
  show ?thesis
    unfolding verifyCapabilityToken_def result_simps throws_simps verify_time_None validateCapabilityToken_None
    using derivation by auto
qed

text \<open>
  A token that \<open>verifyCapabilityToken\<close> accepts is well formed and carries the hash of its own
  contents, restricts the given consent, is presented inside its validity interval, is not revoked
  and was not presented before; acceptance records it as presented.
\<close>

theorem verified_token_is_sound:
  assumes "verifyCapabilityToken P N R t c now revocations nonces = Inr nonces'"
  shows "token_terms t \<and> sealed P t \<and> attenuates t c \<and>
    (\<exists>stamp. iso_seconds now = Inr stamp \<and> effective_start t \<le> stamp \<and> stamp \<le> t_expires_at t) \<and>
    \<not> isRevoked R (t_capability_hash t) revocations \<and> \<not> hasSeen N nonces (t_token_id t) now \<and>
    nonces' = cleanup N now (markSeen N (t_token_id t) (t_expires_at t) nonces)"
  using assms unfolding verifyCapabilityToken_Inr .

lemma minted_verifies:
  assumes "sha256_length P"
    and "mintCapabilityToken P clock random c scope permissions expires_at opts = Inr t"
    and "iso_seconds now = Inr stamp" and "effective_start t \<le> stamp" and "stamp \<le> expires_at"
    and "\<not> isRevoked R (t_capability_hash t) revocations" and "\<not> hasSeen N nonces (t_token_id t) now"
  shows "verifyCapabilityToken P N R t c now revocations nonces =
    Inr (cleanup N now (markSeen N (t_token_id t) (t_expires_at t) nonces))"
  unfolding verifyCapabilityToken_Inr using mint_facts [OF assms(1,2)] assms(3-) by auto

text \<open>
  A minted token, presented for the first time against its consent between its start and its
  expiry and not revoked, is accepted.
\<close>

theorem minted_token_verifies:
  assumes "sha256_length P"
    and "mintCapabilityToken P clock random c scope permissions expires_at opts = Inr t"
    and "iso_seconds now = Inr stamp" and "effective_start t \<le> stamp" and "stamp \<le> expires_at"
    and "t_capability_hash t \<notin> revoked" and "t_token_id t \<notin> seen"
  shows "verifyCapabilityToken P InMemoryNonceRegistry InMemoryRevocationRegistry t c now revoked seen =
    Inr (insert (t_token_id t) seen)"
  using minted_verifies [OF assms(1-5), of InMemoryRevocationRegistry revoked InMemoryNonceRegistry seen] assms(6,7)
  by (simp add: InMemoryNonceRegistry_def InMemoryRevocationRegistry_def isRevoked_def)

lemma minted_token_verifies_witness:
  "verifyCapabilityToken zero_platform InMemoryNonceRegistry InMemoryRevocationRegistry sample_token
     sample_sealed_consent (Some 1736951400000) {} {} = Inr (insert (t_token_id sample_token) {})"
  by (rule minted_token_verifies [OF zero_platform_ok(1) sample_mint sample_date])
    (use sample_stamp(3) in \<open>simp_all add: sample_token_def effective_start_def sample_token_draft_def token_draft_def
      default_mint_options_def\<close>)

lemma verified_token_is_sound_witness:
  "token_terms sample_token \<and> sealed zero_platform sample_token \<and> attenuates sample_token sample_sealed_consent \<and>
    (\<exists>stamp. iso_seconds (Some 1736951400000) = Inr stamp \<and> effective_start sample_token \<le> stamp \<and>
      stamp \<le> t_expires_at sample_token) \<and>
    \<not> isRevoked InMemoryRevocationRegistry (t_capability_hash sample_token) {} \<and>
    \<not> hasSeen InMemoryNonceRegistry {} (t_token_id sample_token) (Some 1736951400000) \<and>
    cleanup InMemoryNonceRegistry (Some 1736951400000)
      (markSeen InMemoryNonceRegistry (t_token_id sample_token) (t_expires_at sample_token) {}) =
    cleanup InMemoryNonceRegistry (Some 1736951400000)
      (markSeen InMemoryNonceRegistry (t_token_id sample_token) (t_expires_at sample_token) {})"
  by (rule verified_token_is_sound)
    (rule minted_verifies [OF zero_platform_ok(1) sample_mint sample_date],
     use sample_stamp(3) in \<open>simp_all add: sample_token_def effective_start_def sample_token_draft_def token_draft_def
      default_mint_options_def InMemoryNonceRegistry_def InMemoryRevocationRegistry_def isRevoked_def\<close>)


section \<open>A token is accepted once\<close>

text \<open>The nonce registry after any further verifications, of any tokens, at any times.\<close>

inductive later_nonces ::
  "platform \<Rightarrow> 'n nonce_registry_ops \<Rightarrow> 'r revocation_registry_ops \<Rightarrow> 'n \<Rightarrow> 'n \<Rightarrow> bool"
  for P N R where
  same_nonces: "later_nonces P N R s s"
| more_nonces: "later_nonces P N R s s' \<Longrightarrow>
    verifyCapabilityToken P N R (u :: capability_token) c now revocations s' = Inr s'' \<Longrightarrow> later_nonces P N R s s''"

context nonce_registry
begin

lemma verified_seen:
  "verifyCapabilityToken P N R t c now revocations s = Inr s' \<Longrightarrow>
   hasSeen N s' i now' \<longleftrightarrow> i = t_token_id t \<or> hasSeen N s i now'"
  by (auto simp: verifyCapabilityToken_Inr seen_mark_cleanup)

lemma seen_forever: "later_nonces P N R s s' \<Longrightarrow> hasSeen N s i now \<Longrightarrow> hasSeen N s' i now"
  by (induction rule: later_nonces.induct) (auto simp: verified_seen)

lemma accepted_once:
  assumes "verifyCapabilityToken P N R t c now revocations s = Inr s1" and "later_nonces P N R s1 s2"
    and "t_token_id u = t_token_id t"
  shows "\<exists>e. verifyCapabilityToken P N R u d now' revocations' s2 = Inl e"
proof -
  have "hasSeen N s1 (t_token_id u) now'" using verified_seen [OF assms(1)] assms(3) by simp
  then have "hasSeen N s2 (t_token_id u) now'" by (rule seen_forever [OF assms(2)])
  then have "verifyCapabilityToken P N R u d now' revocations' s2 \<noteq> Inr s3" for s3
    by (auto simp: verifyCapabilityToken_Inr)
  then show ?thesis by (cases "verifyCapabilityToken P N R u d now' revocations' s2") auto
qed

end

text \<open>
  Once a token is accepted, no token with its identifier is accepted again, whichever
  verifications happen in between, against whichever consent, at whatever time.
\<close>

theorem token_accepted_once:
  fixes t u :: capability_token
  assumes "verifyCapabilityToken P InMemoryNonceRegistry R t c now revocations seen = Inr seen1"
    and "later_nonces P InMemoryNonceRegistry R seen1 seen2" and "t_token_id u = t_token_id t"
  shows "\<exists>e. verifyCapabilityToken P InMemoryNonceRegistry R u d now' revocations' seen2 = Inl e"
  using assms by (rule memory_nonces.accepted_once)

lemma sample_verified:
  "verifyCapabilityToken zero_platform InMemoryNonceRegistry InMemoryRevocationRegistry sample_token
     sample_sealed_consent (Some 1736951400000) {} {} = Inr {t_token_id sample_token}"
  using minted_verifies [OF zero_platform_ok(1) sample_mint sample_date, of InMemoryRevocationRegistry "{}" InMemoryNonceRegistry "{}"]
    sample_stamp(3)
  by (simp add: sample_token_def effective_start_def sample_token_draft_def token_draft_def
      default_mint_options_def InMemoryNonceRegistry_def InMemoryRevocationRegistry_def isRevoked_def)

lemma token_accepted_once_witness:
  "\<exists>e. verifyCapabilityToken zero_platform InMemoryNonceRegistry InMemoryRevocationRegistry sample_token
     sample_sealed_consent (Some 1736951400000) {} {t_token_id sample_token} = Inl e"
  by (rule token_accepted_once [OF sample_verified later_nonces.same_nonces refl])

section \<open>A revoked token is refused\<close>

context revocation_registry
begin

lemma revoked_refused:
  assumes "revokeCapabilityToken R h r = Inr r'" and "t_capability_hash t = h"
  shows "\<exists>e. verifyCapabilityToken P N R t c now (fold (rr_revoke R) hs r') nonces = Inl e"
proof -
  have "isRevoked R h (fold (rr_revoke R) hs r')"
    using revoke_then_revoked [OF assms(1), of h] revocations.member_fold_add by (simp add: isRevoked_def)
  then have "verifyCapabilityToken P N R t c now (fold (rr_revoke R) hs r') nonces \<noteq> Inr n" for n
    using assms(2) by (auto simp: verifyCapabilityToken_Inr)
  then show ?thesis by (cases "verifyCapabilityToken P N R t c now (fold (rr_revoke R) hs r') nonces") auto
qed

end

text \<open>
  After \<open>revokeCapabilityToken\<close> the token with that hash is refused, also after any further
  revocations; the call itself is accepted exactly for well-formed hashes.
\<close>

theorem revoked_token_is_refused:
  fixes t :: capability_token
  assumes "revokeCapabilityToken InMemoryRevocationRegistry (t_capability_hash t) revoked = Inr revoked'"
  shows "hash_ok (t_capability_hash t) \<and>
    (\<exists>e. verifyCapabilityToken P N InMemoryRevocationRegistry t c now
      (fold (rr_revoke InMemoryRevocationRegistry) hs revoked') nonces = Inl e)"
proof
  show "hash_ok (t_capability_hash t)"
    using memory_revocations.revoke_accepts assms unfolding hash_ok_def by metis
  show "\<exists>e. verifyCapabilityToken P N InMemoryRevocationRegistry t c now
      (fold (rr_revoke InMemoryRevocationRegistry) hs revoked') nonces = Inl e"
    by (rule memory_revocations.revoked_refused [OF assms refl])
qed

lemma revoked_token_is_refused_witness:
  "hash_ok (t_capability_hash sample_token) \<and>
    (\<exists>e. verifyCapabilityToken zero_platform InMemoryNonceRegistry InMemoryRevocationRegistry sample_token
      sample_sealed_consent (Some 1736951400000) (fold (rr_revoke InMemoryRevocationRegistry) []
        {t_capability_hash sample_token}) {} = Inl e)"
  by (rule revoked_token_is_refused [where revoked = "{}"])
    (simp add: revokeCapabilityToken_def validateCapabilityHash_def sample_token_def InMemoryRevocationRegistry_def)

section \<open>The hash commits to the token\<close>

definition same_token :: "'a capability_payload_scheme \<Rightarrow> 'b capability_payload_scheme \<Rightarrow> bool" where
  "same_token t u \<longleftrightarrow> t_version t = t_version u \<and> t_subject t = t_subject u \<and> t_grantee t = t_grantee u \<and>
     t_consent_ref t = t_consent_ref u \<and> mset (t_scope t) = mset (t_scope u) \<and>
     mset (t_permissions t) = mset (t_permissions u) \<and> t_marketMakerId t = t_marketMakerId u \<and>
     t_issued_at t = t_issued_at u \<and> t_not_before t = t_not_before u \<and> t_expires_at t = t_expires_at u \<and>
     t_token_id t = t_token_id u"

definition token_properties :: "platform \<Rightarrow> 'a capability_payload_scheme \<Rightarrow> (string \<times> json) list" where
  "token_properties P t = (case capability_payload_json P t of JObj kvs \<Rightarrow> kvs | _ \<Rightarrow> [])"

lemma token_payload_object: "capability_payload_json P t = JObj (token_properties P t)"
  by (simp add: token_properties_def capability_payload_json_def)

lemma token_properties_distinct: "distinct (map fst (token_properties P t))"
  by (simp add: token_properties_def capability_payload_json_def optional_property_def split: option.splits)

lemma token_property_lookup:
  "map_of (token_properties P t) ''version'' = Some (JStr (t_version t))"
  "map_of (token_properties P t) ''subject'' = Some (JStr (t_subject t))"
  "map_of (token_properties P t) ''grantee'' = Some (JStr (t_grantee t))"
  "map_of (token_properties P t) ''consent_ref'' = Some (JStr (t_consent_ref t))"
  "map_of (token_properties P t) ''issued_at'' = Some (JStr (t_issued_at t))"
  "map_of (token_properties P t) ''expires_at'' = Some (JStr (t_expires_at t))"
  "map_of (token_properties P t) ''token_id'' = Some (JStr (t_token_id t))"
  "map_of (token_properties P t) ''not_before'' = Some (json_opt (t_not_before t))"
  "map_of (token_properties P t) ''permissions'' = Some (JArr (map JStr (sort_cmp code_unit_compare (t_permissions t))))"
  "map_of (token_properties P t) ''scope'' = Some (JArr (map canonicalizeScopeEntry (sort_cmp (compare_scope P) (t_scope t))))"
  "map_of (token_properties P t) ''marketMakerId'' = map_option JStr (t_marketMakerId t)"
  by (simp_all add: token_properties_def capability_payload_json_def optional_property_def split: option.splits)

lemma plain_token: "plain (capability_payload_json P t)"
  by (auto simp: capability_payload_json_def optional_property_def json_opt_def
      canonicalizeScopeEntry_def split: option.splits)

lemma same_canonical_token:
  assumes "canon (capability_payload_json P t) = canon (capability_payload_json P u)"
  shows "same_token t u"
proof -
  note l = canon_lookup [OF assms [unfolded token_payload_object] token_properties_distinct token_properties_distinct]
  have "mset (t_scope t) = mset (t_scope u)"
    by (rule scope_json_inj) (use l [of "''scope''"] in \<open>simp add: token_property_lookup\<close>)
  moreover have "mset (t_permissions t) = mset (t_permissions u)"
    by (rule permissions_json_inj) (use l [of "''permissions''"] in \<open>simp add: token_property_lookup\<close>)
  moreover have "t_marketMakerId t = t_marketMakerId u"
    using l [of "''marketMakerId''"] by (simp add: token_property_lookup option.map_comp comp_def)
  ultimately show ?thesis
    using l [of "''version''"] l [of "''subject''"] l [of "''grantee''"] l [of "''consent_ref''"]
      l [of "''issued_at''"] l [of "''expires_at''"] l [of "''token_id''"] l [of "''not_before''"]
    by (simp add: same_token_def token_property_lookup)
qed

text \<open>
  Two tokens that pass validation with the same hash have the same contents, up to the order of
  scope and permissions, unless their two canonical texts are a SHA-256 collision: a token cannot be
  altered and keep its hash.
\<close>

theorem capability_hash_commits:
  assumes "validateCapabilityToken P reg t = None" and "validateCapabilityToken P reg' u = None"
    and "t_capability_hash t = t_capability_hash u"
  shows "same_token t u \<or> (\<exists>a b. canonicalizeCapabilityPayload P t = Inr a \<and>
    canonicalizeCapabilityPayload P u = Inr b \<and> collides P a b)"
proof -
  obtain a b where ab: "canonicalizeCapabilityPayload P t = Inr a" "canonicalizeCapabilityPayload P u = Inr b"
      "sha256Hex P a = sha256Hex P b"
    using assms unfolding validateCapabilityToken_None sealed_def computeCapabilityHash_def by metis
  show ?thesis
  proof (cases "a = b")
    case True
    then obtain s where "canonicalizeJSON (capability_payload_json P t) = Inr s"
        "canonicalizeJSON (capability_payload_json P u) = Inr s"
      using ab(1,2) utf8_encode_inj by (auto simp: canonicalizeCapabilityPayload_def result_simps)
    then show ?thesis using canonicalize_inj [OF plain_token plain_token] same_canonical_token by blast
  next
    case False
    then show ?thesis using ab sha256Hex_inj by blast
  qed
qed

lemma sample_token_valid: "validateCapabilityToken zero_platform None sample_token = None"
  using mint_facts [OF zero_platform_ok(1) sample_mint] by (simp add: validateCapabilityToken_None)

lemma capability_hash_commits_witness:
  "same_token sample_token sample_token \<or> (\<exists>a b. canonicalizeCapabilityPayload zero_platform sample_token = Inr a \<and>
    canonicalizeCapabilityPayload zero_platform sample_token = Inr b \<and> collides zero_platform a b)"
  by (rule capability_hash_commits [OF sample_token_valid sample_token_valid refl])

end
