(* ===== verification/AccessEvaluation.thy ===== *)
theory AccessEvaluation
  imports Capability
begin

text \<open>
  \<open>aoc/capabilities/core\<close>: evaluation of an access request against a capability.  The request
  is normalized (\<open>normalize.ts\<close>; its \<open>CapabilityAccessInputError\<close> is a pair of a reason
  code and a message) and passes the stages of \<open>evaluateCapabilityAccess\<close>, each of which either
  decides (\<open>Inl\<close>) or hands on the updated \<open>checks\<close> (\<open>Inr\<close>).  Hooks are functions of
  the normalized request that may throw.  Metadata are finite maps to JavaScript values.
\<close>

section \<open>Data\<close>

datatype reason_code =
    ACCESS_ALLOWED | CAPABILITY_MISSING | CAPABILITY_INVALID | CAPABILITY_INACTIVE
  | CAPABILITY_NOT_YET_VALID | CAPABILITY_EXPIRED | CONSENT_EXPIRED | EXPIRATION_MISMATCH
  | ACTION_MISSING | ACTION_NOT_ALLOWED | RESOURCE_MISSING | RESOURCE_NOT_ALLOWED
  | MARKET_MAKER_REQUIRED | MARKET_MAKER_MISMATCH | UNKNOWN_MARKET_MAKER | MARKET_MAKER_DEPRECATED
  | MARKET_MAKER_REVOKED | MARKET_MAKER_TRUST_UNVERIFIABLE | POLICY_DENIED | USAGE_DENIED
  | PAYMENT_REQUIRED | CONSENT_INVALID | CONSENT_MISMATCH | INTERNAL_EVALUATION_ERROR
  | CAPABILITY_REVOKED | CAPABILITY_REPLAYED | REPLAY_PROTECTION_REQUIRED | RATE_LIMITED

datatype check_state = Pass | Fail | NotApplicable

record access_checks =
  k_integrity :: check_state
  k_temporal :: check_state
  k_action :: check_state
  k_resource :: check_state
  k_marketMaker :: check_state
  k_usage :: check_state
  k_policy :: check_state

type_synonym metadata = "string \<rightharpoonup> json"

record access_decision =
  d_allowed :: bool
  d_decision :: string
  d_reasonCode :: reason_code
  d_reason :: string
  d_evaluatedAt :: string
  d_checks :: access_checks
  d_metadata :: metadata

text \<open>
  A capability as it arrives: a token and the further, unhashed properties that the code looks at
  when they are strings.
\<close>

record raw_capability = capability_token +
  raw_status :: "string option"
  raw_market_maker_id :: "string option"
  raw_startsAt :: "string option"

datatype resource = ResString string | ResEntry scope_entry

text \<open>\<open>now?: string | number | Date\<close>; a number is the date with that time value.\<close>

datatype now_input = NowString string | NowDate jsdate

record normalized_capability =
  n_raw :: raw_capability
  n_permissions :: "string list"
  n_scope :: "scope_entry list"
  n_notBefore :: "string option"
  n_expiresAt :: string
  n_status :: "string option"
  n_marketMakerId :: "string option"
  n_capabilityHash :: string
  n_tokenId :: string
  n_consentRef :: string

record normalized_request =
  q_capability :: normalized_capability
  q_consent :: "consent_object option"
  q_action :: string
  q_resource :: scope_entry
  q_marketMakerId :: "string option"
  q_evaluatedAt :: string
  q_usageContext :: "metadata option"
  q_policyContext :: "metadata option"

record hook_result =
  h_allowed :: bool
  h_reasonCode :: "reason_code option"
  h_reason :: "string option"
  h_metadata :: "metadata option"

type_synonym hook = "normalized_request \<Rightarrow> hook_result result"

text \<open>The directory of market makers, \<open>Pick<MarketMakerRegistry, 'exists' | 'getStatus'>\<close>, as its two functions.\<close>

record mm_lookup =
  l_exists :: "string \<Rightarrow> bool"
  l_status :: "string \<Rightarrow> string option"

record access_request =
  r_capability :: "raw_capability option"
  r_consent :: "consent_object option"
  r_action :: string
  r_resource :: resource
  r_marketMakerId :: "string option"
  r_now :: "now_input option"
  r_usageContext :: "metadata option"
  r_policyContext :: "metadata option"
  r_marketMakerRegistry :: "mm_lookup option"
  r_usageHook :: "hook option"
  r_policyHook :: "hook option"

type_synonym input_error = "reason_code \<times> string"

section \<open>normalize.ts\<close>

definition base_checks :: access_checks where
  "base_checks = \<lparr>k_integrity = Fail, k_temporal = NotApplicable, k_action = Fail, k_resource = Fail,
     k_marketMaker = NotApplicable, k_usage = NotApplicable, k_policy = NotApplicable\<rparr>"

definition denyDecision ::
  "string \<Rightarrow> reason_code \<Rightarrow> string \<Rightarrow> access_checks \<Rightarrow> metadata \<Rightarrow> access_decision" where
  "denyDecision evaluatedAt reasonCode reason checks metadata =
     \<lparr>d_allowed = False, d_decision = ''deny'', d_reasonCode = reasonCode, d_reason = reason,
      d_evaluatedAt = evaluatedAt, d_checks = checks,
      d_metadata = [''failureStage'' \<mapsto> JStr ''integrity''] ++ metadata\<rparr>"

definition allowDecision :: "string \<Rightarrow> string \<Rightarrow> access_checks \<Rightarrow> metadata \<Rightarrow> access_decision" where
  "allowDecision evaluatedAt reason checks metadata =
     \<lparr>d_allowed = True, d_decision = ''allow'', d_reasonCode = ACCESS_ALLOWED, d_reason = reason,
      d_evaluatedAt = evaluatedAt, d_checks = checks,
      d_metadata = [''failureStage'' \<mapsto> JStr ''completed''] ++ metadata\<rparr>"

definition to_date :: "platform \<Rightarrow> now_input \<Rightarrow> jsdate" where
  "to_date P now = (case now of NowString s \<Rightarrow> date_of P s | NowDate d \<Rightarrow> d)"

text \<open>\<open>(error as Error).message || fallback\<close>.\<close>

definition message_or :: "js_error \<Rightarrow> string \<Rightarrow> string" where
  "message_or e fallback = (if error_message e = [] then fallback else error_message e)"

definition as_input_error :: "reason_code \<Rightarrow> string \<Rightarrow> 'a result \<Rightarrow> input_error + 'a" where
  "as_input_error code fallback r = (case r of Inl e \<Rightarrow> Inl (code, message_or e fallback) | Inr x \<Rightarrow> Inr x)"

definition rethrow :: "reason_code \<Rightarrow> string \<Rightarrow> throws \<Rightarrow> input_error option" where
  "rethrow code fallback t = map_option (\<lambda>e. (code, message_or e fallback)) t"

definition normalizeEvaluationTime :: "platform \<Rightarrow> int \<Rightarrow> now_input option \<Rightarrow> input_error + string" where
  "normalizeEvaluationTime P clock now =
     (case now of
        None \<Rightarrow> as_input_error CAPABILITY_INVALID ''Capability could not be validated safely.'' (iso_seconds (Some clock))
      | Some n \<Rightarrow>
          (case to_date P n of
             None \<Rightarrow> Inl (CAPABILITY_INVALID, ''Evaluation timestamp must be a valid date.'')
           | Some t \<Rightarrow> as_input_error CAPABILITY_INVALID ''Capability could not be validated safely.'' (iso_seconds (Some t))))"

definition normalizeResource :: "resource \<Rightarrow> input_error + scope_entry" where
  "normalizeResource resource = (case resource of
     ResString s \<Rightarrow> (case split_on (CHR '':'') s of
         [type, ref] \<Rightarrow> (if type = [] \<or> ref = []
           then Inl (RESOURCE_MISSING, ''Requested resource must be a ScopeEntry or a \"type:ref\" string.'')
           else Inr \<lparr>se_type = type, se_ref = ref\<rparr>)
       | _ \<Rightarrow> Inl (RESOURCE_MISSING, ''Requested resource must be a ScopeEntry or a \"type:ref\" string.''))
   | ResEntry e \<Rightarrow> Inr e)"

definition known_statuses :: "string list" where
  "known_statuses = [''active'', ''inactive'', ''revoked'', ''suspended'']"

definition normalizeCapability :: "platform \<Rightarrow> raw_capability option \<Rightarrow> input_error + normalized_capability" where
  "normalizeCapability P capability = (case capability of
     None \<Rightarrow> Inl (CAPABILITY_MISSING, ''Capability is required for access evaluation.'')
   | Some raw \<Rightarrow> after (rethrow CAPABILITY_INVALID ''Capability could not be validated safely.''
         (validateCapabilityToken P None raw))
       (Inr \<lparr>n_raw = raw, n_permissions = t_permissions raw, n_scope = t_scope raw,
          n_notBefore = (case t_not_before raw of Some s \<Rightarrow> Some s | None \<Rightarrow> raw_startsAt raw),
          n_expiresAt = t_expires_at raw,
          n_status = (case raw_status raw of
              Some s \<Rightarrow> (if to_lower s \<in> set known_statuses then Some (to_lower s) else None) | None \<Rightarrow> None),
          n_marketMakerId = (case t_marketMakerId raw of Some m \<Rightarrow> Some m | None \<Rightarrow> raw_market_maker_id raw),
          n_capabilityHash = t_capability_hash raw, n_tokenId = t_token_id raw,
          n_consentRef = t_consent_ref raw\<rparr>))"

definition validateIsoTimestamp :: "string option \<Rightarrow> string \<Rightarrow> input_error option" where
  "validateIsoTimestamp v fieldName = (case v of
     None \<Rightarrow> None
   | Some s \<Rightarrow> if rx_test ISO8601_UTC_PATTERN s then None
       else Some (CAPABILITY_INVALID, fieldName @ '' must be ISO 8601 UTC format.''))"

definition normalizeCapabilityAccessRequest ::
  "platform \<Rightarrow> access_request \<Rightarrow> string \<Rightarrow> input_error + normalized_request" where
  "normalizeCapabilityAccessRequest P input evaluatedAt =
     after (if trim (r_action input) = []
            then Some (ACTION_MISSING, ''Requested action is required for access evaluation.'') else None)
     (after (rethrow CAPABILITY_INVALID ''Requested action could not be validated safely.''
          (validateCapabilityAction (trim (r_action input)) ''Requested action''))
     (bind_result (normalizeCapability P (r_capability input)) (\<lambda>capability.
      after (first_throw [
          validateIsoTimestamp (n_notBefore capability) ''Capability not_before'',
          validateIsoTimestamp (Some (n_expiresAt capability)) ''Capability expires_at'',
          (case r_consent input of
             None \<Rightarrow> None
           | Some consent \<Rightarrow> rethrow CONSENT_INVALID ''Consent could not be validated safely.''
               (validateConsentObject P consent))])
      (bind_result (normalizeResource (r_resource input)) (\<lambda>resource.
        Inr \<lparr>q_capability = capability, q_consent = r_consent input, q_action = trim (r_action input),
          q_resource = resource, q_marketMakerId = r_marketMakerId input, q_evaluatedAt = evaluatedAt,
          q_usageContext = r_usageContext input, q_policyContext = r_policyContext input\<rparr>)))))"

section \<open>The stages of evaluateCapabilityAccess\<close>

definition undef_or :: "string option \<Rightarrow> json" where
  "undef_or x = (case x of None \<Rightarrow> JUndef | Some s \<Rightarrow> JStr s)"

definition identity_metadata :: "string \<Rightarrow> normalized_capability \<Rightarrow> metadata" where
  "identity_metadata stage c = [''failureStage'' \<mapsto> JStr stage, ''capabilityHash'' \<mapsto> JStr (n_capabilityHash c),
     ''tokenId'' \<mapsto> JStr (n_tokenId c), ''consentRef'' \<mapsto> JStr (n_consentRef c)]"

definition evaluateConsentBinding :: "normalized_request \<Rightarrow> access_decision option" where
  "evaluateConsentBinding input = (case q_consent input of
     None \<Rightarrow> None
   | Some consent \<Rightarrow>
      let c = q_capability input;
          mismatch = (\<lambda>code reason extra. Some (denyDecision (q_evaluatedAt input) code reason base_checks
             ([''failureStage'' \<mapsto> JStr ''integrity'', ''capabilityHash'' \<mapsto> JStr (n_capabilityHash c),
               ''consentRef'' \<mapsto> JStr (n_consentRef c)] ++ extra)))
      in if c_action consent \<noteq> ''grant''
         then mismatch CONSENT_INVALID ''Parent consent must be an active grant for capability access.'' Map.empty
         else if n_consentRef c \<noteq> c_consent_hash consent
         then mismatch CONSENT_MISMATCH ''Capability consent reference does not match the supplied parent consent.'' Map.empty
         else if t_subject (n_raw c) \<noteq> c_subject consent
         then mismatch CONSENT_MISMATCH ''Capability subject does not match the supplied parent consent.'' Map.empty
         else if t_grantee (n_raw c) \<noteq> c_grantee consent
         then mismatch CONSENT_MISMATCH ''Capability grantee does not match the supplied parent consent.'' Map.empty
         else if n_marketMakerId c \<noteq> c_marketMakerId consent
         then mismatch CONSENT_MISMATCH ''Capability marketMakerId does not match the supplied parent consent.''
           [''boundMarketMakerId'' \<mapsto> undef_or (n_marketMakerId c),
            ''consentMarketMakerId'' \<mapsto> undef_or (c_marketMakerId consent)]
         else None)"

text \<open>\<open>a.getTime() <= b.getTime()\<close> and \<open>a.getTime() > b.getTime()\<close>: false when either is \<open>NaN\<close>.\<close>

definition date_le :: "jsdate \<Rightarrow> jsdate \<Rightarrow> bool" where
  "date_le a b = (case (a, b) of (Some x, Some y) \<Rightarrow> x \<le> y | _ \<Rightarrow> False)"

definition date_gt :: "jsdate \<Rightarrow> jsdate \<Rightarrow> bool" where
  "date_gt a b = (case (a, b) of (Some x, Some y) \<Rightarrow> x > y | _ \<Rightarrow> False)"

text \<open>The \<open>Date\<close> of a string property, \<open>None\<close> when there is none or it is invalid.\<close>

definition parseTimestampOrNull :: "platform \<Rightarrow> string option \<Rightarrow> jsdate" where
  "parseTimestampOrNull P v = (case v of None \<Rightarrow> None | Some s \<Rightarrow> date_of P s)"

definition status_stage :: "normalized_request \<Rightarrow> access_checks \<Rightarrow> access_decision + access_checks" where
  "status_stage q checks = (let checks = checks\<lparr>k_integrity := Pass\<rparr> in
     case n_status (q_capability q) of
       Some s \<Rightarrow> (if s \<noteq> ''active''
         then Inl (denyDecision (q_evaluatedAt q) CAPABILITY_INACTIVE
           (''Capability status '' @ s @ '' does not permit access.'') checks
           (identity_metadata ''integrity'' (q_capability q)))
         else Inr checks)
     | None \<Rightarrow> Inr checks)"

definition temporal_stage :: "platform \<Rightarrow> normalized_request \<Rightarrow> access_checks \<Rightarrow> access_decision + access_checks" where
  "temporal_stage P q checks = (let checks = checks\<lparr>k_temporal := Pass\<rparr>;
       c = q_capability q;
       at = q_evaluatedAt q;
       deny = (\<lambda>code reason. Inl (denyDecision at code reason (checks\<lparr>k_temporal := Fail\<rparr>) (identity_metadata ''temporal'' c)));
       capabilityExpiresAt = date_of P (n_expiresAt c);
       capabilityIssuedAt = parseTimestampOrNull P (Some (t_issued_at (n_raw c)));
       consentIssuedAt = parseTimestampOrNull P (map_option c_issued_at (q_consent q));
       consentExpiresAt = parseTimestampOrNull P (Option.bind (q_consent q) c_expires_at)
     in if (case n_notBefore c of None \<Rightarrow> False | Some effectiveStart \<Rightarrow> at < effectiveStart)
        then deny CAPABILITY_NOT_YET_VALID ''Capability is not yet valid at the requested evaluation time.''
        else if date_le capabilityExpiresAt capabilityIssuedAt
        then deny EXPIRATION_MISMATCH ''Capability expiration must be later than capability issuance.''
        else if date_le capabilityExpiresAt consentIssuedAt
        then deny EXPIRATION_MISMATCH ''Capability expiration must be later than parent consent issuance.''
        else if date_gt capabilityExpiresAt consentExpiresAt
        then deny EXPIRATION_MISMATCH ''Capability expiration exceeds parent consent expiration.''
        else if date_gt (date_of P at) consentExpiresAt
        then deny CONSENT_EXPIRED ''Parent consent has expired at the requested evaluation time.''
        else if date_gt (date_of P at) capabilityExpiresAt
        then deny CAPABILITY_EXPIRED ''Capability has expired at the requested evaluation time.''
        else Inr checks)"

definition action_stage :: "normalized_request \<Rightarrow> access_checks \<Rightarrow> access_decision + access_checks" where
  "action_stage q checks =
     (if q_action q \<notin> set (n_permissions (q_capability q))
      then Inl (denyDecision (q_evaluatedAt q) ACTION_NOT_ALLOWED
        (''Capability does not allow action \"'' @ q_action q @ ''\".'') (checks\<lparr>k_action := Fail\<rparr>)
        (identity_metadata ''action'' (q_capability q)))
      else Inr (checks\<lparr>k_action := Pass\<rparr>))"

definition resource_stage :: "normalized_request \<Rightarrow> access_checks \<Rightarrow> access_decision + access_checks" where
  "resource_stage q checks = (let requestedResourceKey = scope_key (q_resource q) in
     case find (\<lambda>e. scope_key e = requestedResourceKey) (n_scope (q_capability q)) of
       None \<Rightarrow> Inl (denyDecision (q_evaluatedAt q) RESOURCE_NOT_ALLOWED
         (''Capability does not allow resource \"'' @ requestedResourceKey @ ''\".'') (checks\<lparr>k_resource := Fail\<rparr>)
         (identity_metadata ''resource'' (q_capability q)))
     | Some _ \<Rightarrow> Inr (checks\<lparr>k_resource := Pass\<rparr>))"

definition evaluateMarketMakerTrust ::
  "string \<Rightarrow> mm_lookup option \<Rightarrow> normalized_request \<Rightarrow> access_checks \<Rightarrow> access_decision option" where
  "evaluateMarketMakerTrust marketMakerId registry q checks =
     (let bound = identity_metadata ''marketMaker'' (q_capability q) ++ [''boundMarketMakerId'' \<mapsto> JStr marketMakerId];
          deny = (\<lambda>code reason m. Some (denyDecision (q_evaluatedAt q) code reason (checks\<lparr>k_marketMaker := Fail\<rparr>) m))
      in case registry of
           None \<Rightarrow> deny MARKET_MAKER_TRUST_UNVERIFIABLE
             ''Capability is bound to a marketMakerId but no marketMakerRegistry was provided to verify its trust status.'' bound
         | Some reg \<Rightarrow>
             if \<not> l_exists reg marketMakerId
             then deny UNKNOWN_MARKET_MAKER ''Capability marketMakerId is structurally valid but not registered.'' bound
             else if l_status reg marketMakerId = Some ''deprecated''
             then deny MARKET_MAKER_DEPRECATED
               ''Capability marketMakerId is registered but deprecated and not trusted for runtime access.''
               (bound ++ [''marketMakerStatus'' \<mapsto> JStr ''deprecated''])
             else if l_status reg marketMakerId = Some ''revoked''
             then deny MARKET_MAKER_REVOKED
               ''Capability marketMakerId is registered but revoked and cannot operate.''
               (bound ++ [''marketMakerStatus'' \<mapsto> JStr ''revoked''])
             else None)"

definition market_maker_stage ::
  "mm_lookup option \<Rightarrow> normalized_request \<Rightarrow> access_checks \<Rightarrow> access_decision + access_checks" where
  "market_maker_stage registry q checks = (let c = q_capability q in
     case n_marketMakerId c of
       None \<Rightarrow> Inr checks
     | Some m \<Rightarrow>
         (case evaluateMarketMakerTrust m registry q checks of
            Some d \<Rightarrow> Inl d
          | None \<Rightarrow>
              if q_marketMakerId q = None \<or> q_marketMakerId q = Some []
              then Inl (denyDecision (q_evaluatedAt q) MARKET_MAKER_REQUIRED
                ''Capability is bound to a market maker and requires marketMakerId in the request.''
                (checks\<lparr>k_marketMaker := Fail\<rparr>)
                (identity_metadata ''marketMaker'' c ++ [''boundMarketMakerId'' \<mapsto> JStr m]))
              else if q_marketMakerId q \<noteq> Some m
              then Inl (denyDecision (q_evaluatedAt q) MARKET_MAKER_MISMATCH
                ''Requested market maker does not match the capability binding.''
                (checks\<lparr>k_marketMaker := Fail\<rparr>)
                (identity_metadata ''marketMaker'' c ++ [''marketMakerId'' \<mapsto> undef_or (q_marketMakerId q),
                  ''boundMarketMakerId'' \<mapsto> JStr m]))
              else Inr (checks\<lparr>k_marketMaker := Pass\<rparr>)))"

datatype hook_kind = UsageHook | PolicyHook

definition kind_name :: "hook_kind \<Rightarrow> string" where
  "kind_name kind = (case kind of UsageHook \<Rightarrow> ''usage'' | PolicyHook \<Rightarrow> ''policy'')"

definition set_kind :: "hook_kind \<Rightarrow> check_state \<Rightarrow> access_checks \<Rightarrow> access_checks" where
  "set_kind kind s checks = (case kind of UsageHook \<Rightarrow> checks\<lparr>k_usage := s\<rparr> | PolicyHook \<Rightarrow> checks\<lparr>k_policy := s\<rparr>)"

definition evaluateHookResult ::
  "hook_result \<Rightarrow> string \<Rightarrow> access_checks \<Rightarrow> hook_kind \<Rightarrow> reason_code \<Rightarrow> access_decision + access_checks" where
  "evaluateHookResult hookResult evaluatedAt checks kind defaultReasonCode =
     (if h_allowed hookResult then Inr (set_kind kind Pass checks)
      else Inl (denyDecision evaluatedAt
        (case h_reasonCode hookResult of Some r \<Rightarrow> r | None \<Rightarrow> defaultReasonCode)
        (case h_reason hookResult of Some r \<Rightarrow> r
         | None \<Rightarrow> (case kind of UsageHook \<Rightarrow> ''Usage'' | PolicyHook \<Rightarrow> ''Policy'') @ '' evaluation denied access.'')
        (set_kind kind Fail checks)
        ([''failureStage'' \<mapsto> JStr (kind_name kind)] ++
         (case h_metadata hookResult of Some m \<Rightarrow> m | None \<Rightarrow> Map.empty))))"

definition invokeOptionalHook ::
  "hook option \<Rightarrow> normalized_request \<Rightarrow> access_checks \<Rightarrow> hook_kind \<Rightarrow> reason_code \<Rightarrow> access_decision + access_checks" where
  "invokeOptionalHook hook q checks kind defaultReasonCode = (case hook of
     None \<Rightarrow> Inr checks
   | Some h \<Rightarrow> (case h q of
       Inr r \<Rightarrow> evaluateHookResult r (q_evaluatedAt q) checks kind defaultReasonCode
     | Inl e \<Rightarrow> Inl (denyDecision (q_evaluatedAt q) INTERNAL_EVALUATION_ERROR
         (message_or e ''Internal capability evaluation error.'') (set_kind kind Fail checks)
         [''failureStage'' \<mapsto> JStr (kind_name kind)])))"

definition allow_stage :: "normalized_request \<Rightarrow> access_checks \<Rightarrow> access_decision" where
  "allow_stage q checks = allowDecision (q_evaluatedAt q)
     ''Capability explicitly authorizes the requested action on the requested resource.'' checks
     [''capabilityHash'' \<mapsto> JStr (n_capabilityHash (q_capability q)), ''tokenId'' \<mapsto> JStr (n_tokenId (q_capability q)),
      ''consentRef'' \<mapsto> JStr (n_consentRef (q_capability q)), ''matchedAction'' \<mapsto> JStr (q_action q),
      ''matchedResource'' \<mapsto> JStr (scope_key (q_resource q)),
      ''marketMakerId'' \<mapsto> undef_or (q_marketMakerId q),
      ''boundMarketMakerId'' \<mapsto> undef_or (n_marketMakerId (q_capability q))]"

definition evaluate_normalized ::
  "platform \<Rightarrow> access_request \<Rightarrow> normalized_request \<Rightarrow> access_decision" where
  "evaluate_normalized P input q =
     (case evaluateConsentBinding q of
        Some d \<Rightarrow> d
      | None \<Rightarrow>
         (case bind_result (status_stage q base_checks) (\<lambda>checks.
               bind_result (temporal_stage P q checks) (\<lambda>checks.
               bind_result (action_stage q checks) (\<lambda>checks.
               bind_result (resource_stage q checks) (\<lambda>checks.
               bind_result (market_maker_stage (r_marketMakerRegistry input) q checks) (\<lambda>checks.
               bind_result (invokeOptionalHook (r_usageHook input) q checks UsageHook USAGE_DENIED) (\<lambda>checks.
               invokeOptionalHook (r_policyHook input) q checks PolicyHook POLICY_DENIED)))))) of
            Inl d \<Rightarrow> d
          | Inr checks \<Rightarrow> allow_stage q checks))"

text \<open>The time stamp reported when the request could not be normalized.\<close>

definition fallback_time :: "int \<Rightarrow> now_input option \<Rightarrow> string" where
  "fallback_time clock now = (case iso_seconds (Some (if now = None then clock else 0)) of Inr s \<Rightarrow> s | Inl _ \<Rightarrow> [])"

definition evaluateCapabilityAccess :: "platform \<Rightarrow> int \<Rightarrow> access_request \<Rightarrow> access_decision" where
  "evaluateCapabilityAccess P clock input =
     (case bind_result (normalizeEvaluationTime P clock (r_now input)) (normalizeCapabilityAccessRequest P input) of
        Inl (code, message) \<Rightarrow> denyDecision (fallback_time clock (r_now input)) code message base_checks
          [''failureStage'' \<mapsto> JStr ''integrity'']
      | Inr q \<Rightarrow> evaluate_normalized P input q)"

section \<open>What each stage lets through\<close>

text \<open>A stage that lets through under a condition, with a fixed effect on the checks.\<close>

lemma bind_stage:
  assumes "\<And>ks ks'. f ks = Inr ks' \<longleftrightarrow> C \<and> ks' = u ks"
  shows "bind_result (f ks) k = Inr y \<longleftrightarrow> C \<and> k (u ks) = Inr y"
  using assms by (auto simp: result_simps)

lemma status_stage_Inr: "status_stage q ks = Inr ks' \<longleftrightarrow>
    (\<forall>s. n_status (q_capability q) = Some s \<longrightarrow> s = ''active'') \<and> ks' = ks\<lparr>k_integrity := Pass\<rparr>"
  by (auto simp: status_stage_def Let_def split: option.splits if_splits)

definition in_time :: "platform \<Rightarrow> normalized_request \<Rightarrow> bool" where
  "in_time P q \<longleftrightarrow> (let c = q_capability q; at = q_evaluatedAt q; e = date_of P (n_expiresAt c);
       ce = parseTimestampOrNull P (Option.bind (q_consent q) c_expires_at)
     in (\<forall>s. n_notBefore c = Some s \<longrightarrow> s \<le> at) \<and>
        \<not> date_le e (date_of P (t_issued_at (n_raw c))) \<and>
        \<not> date_le e (parseTimestampOrNull P (map_option c_issued_at (q_consent q))) \<and>
        \<not> date_gt e ce \<and> \<not> date_gt (date_of P at) ce \<and> \<not> date_gt (date_of P at) e)"

lemma temporal_stage_Inr: "temporal_stage P q ks = Inr ks' \<longleftrightarrow> in_time P q \<and> ks' = ks\<lparr>k_temporal := Pass\<rparr>"
proof -
  have start: "(case n_notBefore (q_capability q) of None \<Rightarrow> False | Some s \<Rightarrow> q_evaluatedAt q < s) \<longleftrightarrow>
      \<not> (\<forall>s. n_notBefore (q_capability q) = Some s \<longrightarrow> s \<le> q_evaluatedAt q)"
    by (auto simp: not_le split: option.splits)
  have issued: "parseTimestampOrNull P (Some s) = date_of P s" for s by (simp add: parseTimestampOrNull_def)
  show ?thesis
    unfolding temporal_stage_def in_time_def Let_def start issued by auto
qed

lemma action_stage_Inr: "action_stage q ks = Inr ks' \<longleftrightarrow>
    q_action q \<in> set (n_permissions (q_capability q)) \<and> ks' = ks\<lparr>k_action := Pass\<rparr>"
  by (auto simp: action_stage_def)

lemma resource_stage_Inr: "resource_stage q ks = Inr ks' \<longleftrightarrow>
    scope_key (q_resource q) \<in> scope_key ` set (n_scope (q_capability q)) \<and> ks' = ks\<lparr>k_resource := Pass\<rparr>"
  by (auto simp: resource_stage_def Let_def find_None_iff find_Some_iff image_iff split: option.splits)
    (metis in_set_conv_nth)+

text \<open>The market maker a capability is bound to is registered, not withdrawn, and the one requested.\<close>

definition market_maker_cleared :: "mm_lookup option \<Rightarrow> normalized_request \<Rightarrow> string \<Rightarrow> bool" where
  "market_maker_cleared registry q m \<longleftrightarrow> (\<exists>reg. registry = Some reg \<and> l_exists reg m \<and>
     l_status reg m \<noteq> Some ''deprecated'' \<and> l_status reg m \<noteq> Some ''revoked'') \<and>
     q_marketMakerId q = Some m \<and> m \<noteq> []"

lemma evaluateMarketMakerTrust_None: "evaluateMarketMakerTrust m registry q ks = None \<longleftrightarrow>
    (\<exists>reg. registry = Some reg \<and> l_exists reg m \<and> l_status reg m \<noteq> Some ''deprecated'' \<and> l_status reg m \<noteq> Some ''revoked'')"
  by (auto simp: evaluateMarketMakerTrust_def Let_def split: option.splits if_splits)

lemma market_maker_stage_Inr: "market_maker_stage registry q ks = Inr ks' \<longleftrightarrow>
    (\<forall>m. n_marketMakerId (q_capability q) = Some m \<longrightarrow> market_maker_cleared registry q m) \<and>
    ks' = (if n_marketMakerId (q_capability q) = None then ks else ks\<lparr>k_marketMaker := Pass\<rparr>)"
proof (cases "n_marketMakerId (q_capability q)")
  case None
  then show ?thesis by (auto simp: market_maker_stage_def Let_def)
next
  case (Some m)
  show ?thesis
  proof (cases "evaluateMarketMakerTrust m registry q ks")
    case None
    then show ?thesis using Some evaluateMarketMakerTrust_None [of m registry q ks]
      by (auto simp: market_maker_stage_def market_maker_cleared_def Let_def)
  next
    case (Some d)
    then have "\<not> market_maker_cleared registry q m"
      using evaluateMarketMakerTrust_None [of m registry q ks] by (auto simp: market_maker_cleared_def)
    then show ?thesis using Some \<open>n_marketMakerId (q_capability q) = Some m\<close>
      by (simp add: market_maker_stage_def Let_def)
  qed
qed

definition hook_allows :: "hook option \<Rightarrow> normalized_request \<Rightarrow> bool" where
  "hook_allows hook q \<longleftrightarrow> (case hook of None \<Rightarrow> True | Some h \<Rightarrow> (case h q of Inl e \<Rightarrow> False | Inr r \<Rightarrow> h_allowed r))"

lemma invokeOptionalHook_Inr: "invokeOptionalHook hook q ks knd code = Inr ks' \<longleftrightarrow>
    hook_allows hook q \<and> ks' = (if hook = None then ks else set_kind knd Pass ks)"
  by (auto simp: invokeOptionalHook_def hook_allows_def evaluateHookResult_def split: option.splits sum.splits if_splits)

definition consent_bound :: "normalized_request \<Rightarrow> bool" where
  "consent_bound q \<longleftrightarrow> (\<forall>c. q_consent q = Some c \<longrightarrow> c_action c = ''grant'' \<and>
     n_consentRef (q_capability q) = c_consent_hash c \<and> t_subject (n_raw (q_capability q)) = c_subject c \<and>
     t_grantee (n_raw (q_capability q)) = c_grantee c \<and> n_marketMakerId (q_capability q) = c_marketMakerId c)"

lemma evaluateConsentBinding_None: "evaluateConsentBinding q = None \<longleftrightarrow> consent_bound q"
  by (auto simp: evaluateConsentBinding_def consent_bound_def Let_def split: option.splits if_splits)

text \<open>Everything a request must satisfy to be allowed.\<close>

definition authorized :: "platform \<Rightarrow> access_request \<Rightarrow> normalized_request \<Rightarrow> bool" where
  "authorized P input q \<longleftrightarrow> consent_bound q \<and>
     (\<forall>s. n_status (q_capability q) = Some s \<longrightarrow> s = ''active'') \<and> in_time P q \<and>
     q_action q \<in> set (n_permissions (q_capability q)) \<and>
     scope_key (q_resource q) \<in> scope_key ` set (n_scope (q_capability q)) \<and>
     (\<forall>m. n_marketMakerId (q_capability q) = Some m \<longrightarrow> market_maker_cleared (r_marketMakerRegistry input) q m) \<and>
     hook_allows (r_usageHook input) q \<and> hook_allows (r_policyHook input) q"

definition passed_checks :: "access_request \<Rightarrow> normalized_request \<Rightarrow> access_checks" where
  "passed_checks input q = \<lparr>k_integrity = Pass, k_temporal = Pass, k_action = Pass, k_resource = Pass,
     k_marketMaker = (if n_marketMakerId (q_capability q) = None then NotApplicable else Pass),
     k_usage = (if r_usageHook input = None then NotApplicable else Pass),
     k_policy = (if r_policyHook input = None then NotApplicable else Pass)\<rparr>"

text \<open>A denial always leaves a failed check behind.\<close>

definition has_failure :: "access_checks \<Rightarrow> bool" where
  "has_failure ks \<longleftrightarrow> Fail \<in> {k_integrity ks, k_temporal ks, k_action ks, k_resource ks, k_marketMaker ks, k_usage ks, k_policy ks}"

definition denial :: "access_decision \<Rightarrow> bool" where
  "denial d \<longleftrightarrow> \<not> d_allowed d \<and> d_decision d = ''deny'' \<and> has_failure (d_checks d)"

lemma denial_denyDecision [simp]: "denial (denyDecision at code reason ks m) \<longleftrightarrow> has_failure ks"
  by (simp add: denial_def denyDecision_def)

lemma has_failure_base [simp]: "has_failure base_checks"
  by (simp add: has_failure_def base_checks_def)

lemma denial_consent: "evaluateConsentBinding q = Some d \<Longrightarrow> denial d"
  by (auto simp: evaluateConsentBinding_def Let_def split: option.splits if_splits)

lemma denial_status: "status_stage q base_checks = Inl d \<Longrightarrow> denial d"
  by (auto simp: status_stage_def Let_def has_failure_def base_checks_def split: option.splits if_splits)

lemma denial_temporal: "temporal_stage P q ks = Inl d \<Longrightarrow> denial d"
  by (auto simp: temporal_stage_def Let_def has_failure_def split: if_splits)

lemma denial_action: "action_stage q ks = Inl d \<Longrightarrow> denial d"
  by (auto simp: action_stage_def has_failure_def split: if_splits)

lemma denial_resource: "resource_stage q ks = Inl d \<Longrightarrow> denial d"
  by (auto simp: resource_stage_def Let_def has_failure_def split: option.splits)

lemma denial_trust: "evaluateMarketMakerTrust m reg q ks = Some d \<Longrightarrow> denial d"
  by (auto simp: evaluateMarketMakerTrust_def Let_def has_failure_def split: option.splits if_splits)

lemma denial_market_maker: "market_maker_stage reg q ks = Inl d \<Longrightarrow> denial d"
  by (auto simp: market_maker_stage_def Let_def has_failure_def denial_trust split: option.splits if_splits)

lemma denial_hook: "invokeOptionalHook h q ks knd code = Inl d \<Longrightarrow> denial d"
  by (cases knd) (auto simp: invokeOptionalHook_def evaluateHookResult_def has_failure_def set_kind_def
      split: option.splits sum.splits if_splits)

lemma bind_result_Inl: "bind_result r k = Inl e \<longleftrightarrow> r = Inl e \<or> (\<exists>x. r = Inr x \<and> k x = Inl e)"
  by (cases r) auto

lemma evaluate_normalized_cases:
  "authorized P input q \<and> evaluate_normalized P input q = allow_stage q (passed_checks input q) \<or>
   \<not> authorized P input q \<and> denial (evaluate_normalized P input q)"
proof (cases "evaluateConsentBinding q")
  case (Some d)
  then have "\<not> authorized P input q" using evaluateConsentBinding_None [of q] by (auto simp: authorized_def)
  then show ?thesis using Some denial_consent by (simp add: evaluate_normalized_def)
next
  case None
  let ?r = "bind_result (status_stage q base_checks) (\<lambda>checks.
     bind_result (temporal_stage P q checks) (\<lambda>checks. bind_result (action_stage q checks) (\<lambda>checks.
     bind_result (resource_stage q checks) (\<lambda>checks.
     bind_result (market_maker_stage (r_marketMakerRegistry input) q checks) (\<lambda>checks.
     bind_result (invokeOptionalHook (r_usageHook input) q checks UsageHook USAGE_DENIED) (\<lambda>checks.
     invokeOptionalHook (r_policyHook input) q checks PolicyHook POLICY_DENIED))))))"
  have bound: "consent_bound q" using None evaluateConsentBinding_None by blast
  have ok: "?r = Inr ks \<longleftrightarrow> authorized P input q \<and> ks = passed_checks input q" for ks
    unfolding bind_stage [of "status_stage q", OF status_stage_Inr]
      bind_stage [of "temporal_stage P q", OF temporal_stage_Inr]
      bind_stage [of "action_stage q", OF action_stage_Inr]
      bind_stage [of "resource_stage q", OF resource_stage_Inr]
      bind_stage [of "market_maker_stage (r_marketMakerRegistry input) q", OF market_maker_stage_Inr]
      bind_stage [of "\<lambda>ks. invokeOptionalHook (r_usageHook input) q ks UsageHook USAGE_DENIED", OF invokeOptionalHook_Inr]
      invokeOptionalHook_Inr authorized_def passed_checks_def
    using bound
    by (cases "n_marketMakerId (q_capability q)"; cases "r_usageHook input"; cases "r_policyHook input")
      (simp_all add: set_kind_def base_checks_def)
  show ?thesis
  proof (cases ?r)
    case (Inl d)
    then have "denial d"
      unfolding bind_result_Inl
      using denial_status denial_temporal denial_action denial_resource denial_market_maker denial_hook by metis
    moreover have "\<not> authorized P input q" using ok Inl by (metis Inl_not_Inr)
    ultimately show ?thesis using None Inl by (simp add: evaluate_normalized_def)
  next
    case (Inr ks)
    then show ?thesis using ok [of ks] None by (simp add: evaluate_normalized_def)
  qed
qed

definition normalized :: "platform \<Rightarrow> int \<Rightarrow> access_request \<Rightarrow> normalized_request \<Rightarrow> bool" where
  "normalized P clock input q \<longleftrightarrow> (\<exists>at. normalizeEvaluationTime P clock (r_now input) = Inr at \<and>
     normalizeCapabilityAccessRequest P input at = Inr q)"

lemma allow_stage_simps [simp]:
  "d_allowed (allow_stage q ks) = True" "d_decision (allow_stage q ks) = ''allow''"
  "d_reasonCode (allow_stage q ks) = ACCESS_ALLOWED" "d_checks (allow_stage q ks) = ks"
  "d_evaluatedAt (allow_stage q ks) = q_evaluatedAt q"
  by (simp_all add: allow_stage_def allowDecision_def)

text \<open>The outcome of an evaluation: an allowance when the request is authorized, else a denial.\<close>

lemma evaluate_cases:
  "(\<exists>q. normalized P clock input q \<and> authorized P input q \<and>
      evaluateCapabilityAccess P clock input = allow_stage q (passed_checks input q)) \<or>
   (\<forall>q. normalized P clock input q \<longrightarrow> \<not> authorized P input q) \<and> denial (evaluateCapabilityAccess P clock input)"
proof (cases "bind_result (normalizeEvaluationTime P clock (r_now input)) (normalizeCapabilityAccessRequest P input)")
  case (Inl e)
  then have "\<not> normalized P clock input q" for q by (auto simp: normalized_def)
  moreover have "denial (evaluateCapabilityAccess P clock input)"
    using Inl by (cases e) (simp add: evaluateCapabilityAccess_def)
  ultimately show ?thesis by blast
next
  case (Inr q)
  then have q: "normalized P clock input q" and unique: "normalized P clock input q' \<Longrightarrow> q' = q" for q'
    by (auto simp: normalized_def result_simps)
  have "evaluateCapabilityAccess P clock input = evaluate_normalized P input q"
    unfolding evaluateCapabilityAccess_def Inr by (simp only: sum.case)
  then show ?thesis
    using evaluate_normalized_cases [of P input q] q unique by metis
qed

lemma evaluate_allowed:
  "d_allowed (evaluateCapabilityAccess P clock input) \<longleftrightarrow>
     (\<exists>q. normalized P clock input q \<and> authorized P input q)"
  using evaluate_cases [of P clock input] by (auto simp: denial_def)

section \<open>What an allowance implies\<close>

lemma as_input_error_Inr [result_simps]: "as_input_error code m r = Inr x \<longleftrightarrow> r = Inr x"
  by (auto simp: as_input_error_def split: sum.splits)

lemma rethrow_None [throws_simps]: "rethrow code m t = None \<longleftrightarrow> t = None"
  by (auto simp: rethrow_def)

lemma normalizeCapability_Inr:
  "normalizeCapability P capability = Inr n \<longleftrightarrow> (\<exists>raw. capability = Some raw \<and> token_terms raw \<and> sealed P raw \<and>
     n = \<lparr>n_raw = raw, n_permissions = t_permissions raw, n_scope = t_scope raw,
          n_notBefore = (case t_not_before raw of Some s \<Rightarrow> Some s | None \<Rightarrow> raw_startsAt raw),
          n_expiresAt = t_expires_at raw,
          n_status = (case raw_status raw of
              Some s \<Rightarrow> (if to_lower s \<in> set known_statuses then Some (to_lower s) else None) | None \<Rightarrow> None),
          n_marketMakerId = (case t_marketMakerId raw of Some m \<Rightarrow> Some m | None \<Rightarrow> raw_market_maker_id raw),
          n_capabilityHash = t_capability_hash raw, n_tokenId = t_token_id raw,
          n_consentRef = t_consent_ref raw\<rparr>)"
  unfolding normalizeCapability_def
  by (auto simp: result_simps throws_simps validateCapabilityToken_None split: option.splits)

lemma normalized_request:
  assumes "normalized P clock input q"
  obtains raw at where "r_capability input = Some raw" "token_terms raw" "sealed P raw"
    "normalizeCapability P (r_capability input) = Inr (q_capability q)"
    "n_raw (q_capability q) = raw" "n_permissions (q_capability q) = t_permissions raw"
    "n_scope (q_capability q) = t_scope raw"
    "n_notBefore (q_capability q) = (case t_not_before raw of Some s \<Rightarrow> Some s | None \<Rightarrow> raw_startsAt raw)"
    "n_expiresAt (q_capability q) = t_expires_at raw"
    "n_marketMakerId (q_capability q) = (case t_marketMakerId raw of Some m \<Rightarrow> Some m | None \<Rightarrow> raw_market_maker_id raw)"
    "n_consentRef (q_capability q) = t_consent_ref raw" "n_tokenId (q_capability q) = t_token_id raw"
    "n_capabilityHash (q_capability q) = t_capability_hash raw"
    "q_consent q = r_consent input" "\<forall>c. r_consent input = Some c \<longrightarrow> validateConsentObject P c = None"
    "q_action q = trim (r_action input)" "isCanonicalCapabilityAction (q_action q)"
    "normalizeResource (r_resource input) = Inr (q_resource q)" "q_marketMakerId q = r_marketMakerId input"
    "normalizeEvaluationTime P clock (r_now input) = Inr (q_evaluatedAt q)"
proof -
  obtain at where at: "normalizeEvaluationTime P clock (r_now input) = Inr at"
    and q: "normalizeCapabilityAccessRequest P input at = Inr q"
    using assms by (auto simp: normalized_def)
  obtain n e where n: "normalizeCapability P (r_capability input) = Inr n"
    and e: "normalizeResource (r_resource input) = Inr e"
    and act: "isCanonicalCapabilityAction (trim (r_action input))"
    and consent: "(case r_consent input of None \<Rightarrow> None
        | Some consent \<Rightarrow> rethrow CONSENT_INVALID ''Consent could not be validated safely.''
           (validateConsentObject P consent)) = None"
    and qv: "q = \<lparr>q_capability = n, q_consent = r_consent input, q_action = trim (r_action input),
          q_resource = e, q_marketMakerId = r_marketMakerId input, q_evaluatedAt = at,
          q_usageContext = r_usageContext input, q_policyContext = r_policyContext input\<rparr>"
    using q unfolding normalizeCapabilityAccessRequest_def result_simps throws_simps by blast
  have valid: "\<forall>c. r_consent input = Some c \<longrightarrow> validateConsentObject P c = None"
    using consent by (auto simp: rethrow_None)
  obtain raw where "r_capability input = Some raw" "token_terms raw" "sealed P raw"
    using n unfolding normalizeCapability_Inr by blast
  then show thesis
    using that [of raw] n e act at valid unfolding normalizeCapability_Inr qv by auto
qed

lemma date_compare_None [simp]: "\<not> date_le None b" "\<not> date_le a None" "\<not> date_gt None b" "\<not> date_gt a None"
  by (auto simp: date_le_def date_gt_def split: option.splits)

lemma scope_key_mem:
  assumes "scope_ok s" and "scope_key e \<in> scope_key ` set s"
  shows "e \<in> set s"
proof -
  obtain d where d: "d \<in> set s" "scope_key d = scope_key e" using assms(2) by auto
  then have "d = e" using assms(1) by (intro scope_key_unique) (auto simp: scope_ok_def hash_ok_def)
  then show ?thesis using d by simp
qed

lemma allowed_facts:
  assumes "d_allowed (evaluateCapabilityAccess P clock input)"
  shows "\<exists>raw e at. r_capability input = Some raw \<and> token_terms raw \<and> sealed P raw \<and>
    trim (r_action input) \<in> set (t_permissions raw) \<and>
    normalizeResource (r_resource input) = Inr e \<and> e \<in> set (t_scope raw) \<and>
    normalizeEvaluationTime P clock (r_now input) = Inr at \<and>
    (\<forall>nb. t_not_before raw = Some nb \<longrightarrow> nb \<le> at) \<and>
    \<not> date_gt (date_of P at) (date_of P (t_expires_at raw)) \<and>
    (\<forall>c. r_consent input = Some c \<longrightarrow> validateConsentObject P c = None \<and> c_action c = ''grant'' \<and>
      t_consent_ref raw = c_consent_hash c \<and> t_subject raw = c_subject c \<and> t_grantee raw = c_grantee c)"
proof -
  obtain q where q: "normalized P clock input q" "authorized P input q"
    using assms evaluate_allowed by blast
  show ?thesis
  proof (rule normalized_request [OF q(1)])
    fix raw
    assume raw: "r_capability input = Some raw" "token_terms raw" "sealed P raw"
      and n: "n_raw (q_capability q) = raw" "n_permissions (q_capability q) = t_permissions raw"
        "n_scope (q_capability q) = t_scope raw"
        "n_notBefore (q_capability q) = (case t_not_before raw of Some s \<Rightarrow> Some s | None \<Rightarrow> raw_startsAt raw)"
        "n_expiresAt (q_capability q) = t_expires_at raw" "n_consentRef (q_capability q) = t_consent_ref raw"
      and c: "q_consent q = r_consent input" "\<forall>c. r_consent input = Some c \<longrightarrow> validateConsentObject P c = None"
      and a: "q_action q = trim (r_action input)"
      and e: "normalizeResource (r_resource input) = Inr (q_resource q)"
      and at: "normalizeEvaluationTime P clock (r_now input) = Inr (q_evaluatedAt q)"
    have "q_resource q \<in> set (t_scope raw)"
      using q(2) raw(2) n(3) by (intro scope_key_mem) (auto simp: authorized_def token_terms_def)
    moreover have "\<forall>nb. t_not_before raw = Some nb \<longrightarrow> nb \<le> q_evaluatedAt q"
      and "\<not> date_gt (date_of P (q_evaluatedAt q)) (date_of P (t_expires_at raw))"
      using q(2) n(4,5) by (auto simp: authorized_def in_time_def Let_def)
    moreover have "trim (r_action input) \<in> set (t_permissions raw)"
      using q(2) n(2) a by (auto simp: authorized_def)
    moreover have "\<forall>c. r_consent input = Some c \<longrightarrow> c_action c = ''grant'' \<and> t_consent_ref raw = c_consent_hash c \<and>
        t_subject raw = c_subject c \<and> t_grantee raw = c_grantee c"
      using q(2) n(1,6) c(1) by (auto simp: authorized_def consent_bound_def)
    ultimately show ?thesis using raw e at c(2) by blast
  qed
qed

text \<open>
  C36: an allowed request presents a well-formed token that carries the hash of its contents; the
  action is one of the token's permissions and the resource an entry of its scope; the token has
  started and, where its expiry is a date, has not expired; a supplied consent is valid, a grant,
  and the token's parent.
\<close>

theorem allowed_access_is_authorized:
  assumes "d_allowed (evaluateCapabilityAccess P clock input)"
  shows "\<exists>raw e at. r_capability input = Some raw \<and> token_terms raw \<and> sealed P raw \<and>
    trim (r_action input) \<in> set (t_permissions raw) \<and>
    normalizeResource (r_resource input) = Inr e \<and> e \<in> set (t_scope raw) \<and>
    normalizeEvaluationTime P clock (r_now input) = Inr at \<and>
    (\<forall>nb. t_not_before raw = Some nb \<longrightarrow> nb \<le> at) \<and>
    \<not> date_gt (date_of P at) (date_of P (t_expires_at raw)) \<and>
    (\<forall>c. r_consent input = Some c \<longrightarrow> validateConsentObject P c = None \<and> c_action c = ''grant'' \<and>
      t_consent_ref raw = c_consent_hash c \<and> t_subject raw = c_subject c \<and> t_grantee raw = c_grantee c)"
  by (rule allowed_facts [OF assms])

text \<open>
  every decision is an allowance with all its checks passed or not applicable and the reason
  ACCESS_ALLOWED, or a denial that names at least one failed check.
\<close>

theorem decision_matches_checks:
  "(d_allowed (evaluateCapabilityAccess P clock input) \<and> d_decision (evaluateCapabilityAccess P clock input) = ''allow'' \<and>
     d_reasonCode (evaluateCapabilityAccess P clock input) = ACCESS_ALLOWED \<and>
     \<not> has_failure (d_checks (evaluateCapabilityAccess P clock input))) \<or>
   (\<not> d_allowed (evaluateCapabilityAccess P clock input) \<and> d_decision (evaluateCapabilityAccess P clock input) = ''deny'' \<and>
     has_failure (d_checks (evaluateCapabilityAccess P clock input)))"
  using evaluate_cases [of P clock input]
  by (auto simp: denial_def has_failure_def passed_checks_def split: if_splits)

section \<open>Market makers\<close>

definition registry_lookup :: "market_maker_registry \<Rightarrow> mm_lookup" where
  "registry_lookup records = \<lparr>l_exists = dir_exists MarketMakerRegistry records,
     l_status = dir_status MarketMakerRegistry records\<rparr>"

text \<open>
  a token bound to a market maker is honoured only when the caller supplies a registry in which
  that market maker is active, and names that market maker in the request; without a registry the
  request is denied.
\<close>

theorem bound_token_needs_trusted_market_maker:
  assumes "d_allowed (evaluateCapabilityAccess P clock input)"
    and "r_capability input = Some raw" and "t_marketMakerId raw = Some m"
    and "\<forall>reg. r_marketMakerRegistry input = Some reg \<longrightarrow> reg = registry_lookup records"
    and "registry_inv records"
  shows "r_marketMakerRegistry input = Some (registry_lookup records) \<and> mm_isTrusted records m \<and>
    r_marketMakerId input = Some m"
proof -
  obtain q where q: "normalized P clock input q" "authorized P input q"
    using assms(1) evaluate_allowed by blast
  have "n_marketMakerId (q_capability q) = Some m \<and> q_marketMakerId q = r_marketMakerId input"
    by (rule normalized_request [OF q(1)]) (use assms(2,3) in auto)
  then have m: "n_marketMakerId (q_capability q) = Some m" "q_marketMakerId q = r_marketMakerId input"
    by simp_all
  then have cleared: "market_maker_cleared (r_marketMakerRegistry input) q m"
    using q(2) by (simp add: authorized_def)
  then obtain reg where reg: "r_marketMakerRegistry input = Some reg" "l_exists reg m"
      "l_status reg m \<noteq> Some ''deprecated''" "l_status reg m \<noteq> Some ''revoked''"
    by (auto simp: market_maker_cleared_def)
  then have lookup: "reg = registry_lookup records" using assms(4) by blast
  have "dir_trusted MarketMakerRegistry records m"
    using reg lookup assms(5) by (intro registry_directory.trusted_unless_withdrawn) (simp_all add: registry_lookup_def)
  then show ?thesis
    using cleared m(2) reg(1) lookup by (simp add: MarketMakerRegistry_def market_maker_cleared_def)
qed

section \<open>A sample request\<close>

definition sample_raw :: raw_capability where
  "sample_raw = capability_token.extend sample_token
     \<lparr>raw_status = Some ''Active'', raw_market_maker_id = None, raw_startsAt = None\<rparr>"

definition sample_records :: market_maker_registry where
  "sample_records = [(''mm-1'', sample_market_maker)]"

definition sample_request :: access_request where
  "sample_request = \<lparr>r_capability = Some sample_raw, r_consent = Some sample_sealed_consent, r_action = '' read'',
     r_resource = ResString (''field:'' @ sample_ref), r_marketMakerId = Some ''mm-1'',
     r_now = Some (NowDate (Some 1736951400000)), r_usageContext = None, r_policyContext = None,
     r_marketMakerRegistry = Some (registry_lookup sample_records), r_usageHook = None, r_policyHook = None\<rparr>"

lemma sample_raw_simps [simp]:
  "t_version sample_raw = ''1.0''" "t_subject sample_raw = ''did:key:alice''" "t_grantee sample_raw = ''did:key:bob''"
  "t_consent_ref sample_raw = replicate 64 (CHR ''0'')" "t_scope sample_raw = sample_scope"
  "t_permissions sample_raw = [''read'']" "t_marketMakerId sample_raw = Some ''mm-1''"
  "t_issued_at sample_raw = ''2025-01-15T14:30:00Z''" "t_not_before sample_raw = None"
  "t_expires_at sample_raw = ''2025-06-15T14:30:00Z''" "t_token_id sample_raw = replicate 64 (CHR ''0'')"
  "t_capability_hash sample_raw = replicate 64 (CHR ''0'')"
  "raw_status sample_raw = Some ''Active''" "raw_market_maker_id sample_raw = None" "raw_startsAt sample_raw = None"
  by (simp_all add: sample_raw_def sample_token_def cap_seal_def capability_token.defs capability_payload.defs
      sample_token_defs zero_id)

lemma sample_raw_valid: "token_terms sample_raw" "sealed zero_platform sample_raw"
proof -
  have "permissions_ok [''read'']"
    by (simp add: permissions_ok_def MAX_PERMISSIONS_def canonicalCapabilityActions_def)
  then show "token_terms sample_raw"
    using sample_did sample_stamp sample_scope_ok sample_version sample_market_maker_id
    by (simp add: token_terms_def hash_ok_def)
  show "sealed zero_platform sample_raw"
    using canonicalizeCapabilityPayload_total [of zero_platform sample_raw]
    by (auto simp: sealed_def hash_ok_def)
qed


definition sample_normalized :: normalized_request where
  "sample_normalized = \<lparr>q_capability = \<lparr>n_raw = sample_raw, n_permissions = [''read''], n_scope = sample_scope,
       n_notBefore = None, n_expiresAt = ''2025-06-15T14:30:00Z'', n_status = Some ''active'',
       n_marketMakerId = Some ''mm-1'', n_capabilityHash = replicate 64 (CHR ''0''),
       n_tokenId = replicate 64 (CHR ''0''), n_consentRef = replicate 64 (CHR ''0'')\<rparr>,
     q_consent = Some sample_sealed_consent, q_action = ''read'',
     q_resource = \<lparr>se_type = ''field'', se_ref = sample_ref\<rparr>, q_marketMakerId = Some ''mm-1'',
     q_evaluatedAt = ''2025-01-15T14:30:00Z'', q_usageContext = None, q_policyContext = None\<rparr>"

lemma sample_resource:
  "normalizeResource (ResString (''field:'' @ sample_ref)) = Inr \<lparr>se_type = ''field'', se_ref = sample_ref\<rparr>"
proof -
  have "CHR '':'' \<notin> set sample_ref" by (simp add: sample_ref_def)
  then have "split_on (CHR '':'') (''field:'' @ sample_ref) = [''field'', sample_ref]"
    using split_on_append [of "CHR '':''" "''field''" sample_ref] by (simp add: split_on_plain)
  moreover have "sample_ref \<noteq> []" by (simp add: sample_ref_def)
  ultimately show ?thesis by (simp add: normalizeResource_def)
qed

lemma sample_is_normalized: "normalized zero_platform clock sample_request sample_normalized"
proof -
  have at: "normalizeEvaluationTime zero_platform clock (r_now sample_request) = Inr ''2025-01-15T14:30:00Z''"
    by (simp add: normalizeEvaluationTime_def sample_request_def to_date_def sample_date as_input_error_def)
  have cap: "normalizeCapability zero_platform (r_capability sample_request) = Inr (q_capability sample_normalized)"
  proof -
    have "to_lower ''Active'' = ''active''" by code_simp
    then show ?thesis
      unfolding normalizeCapability_Inr
      using sample_raw_valid by (simp add: sample_request_def sample_normalized_def known_statuses_def)
  qed
  have "trim '' read'' = ''read''" by code_simp
  moreover have "isCanonicalCapabilityAction ''read''"
    by (simp add: isCanonicalCapabilityAction_def canonicalCapabilityActions_def)
  ultimately have "normalizeCapabilityAccessRequest zero_platform sample_request ''2025-01-15T14:30:00Z'' = Inr sample_normalized"
    unfolding normalizeCapabilityAccessRequest_def result_simps throws_simps cap
    using sample_stamp sample_consent_valid sample_resource
    by (simp add: sample_request_def sample_normalized_def rethrow_def validateIsoTimestamp_def stamp_ok_def
        first_throw.simps sample_sealed_consent_def validateCapabilityAction_None)
  then show ?thesis using at by (auto simp: normalized_def)
qed

lemma sample_dates:
  "date_of zero_platform ''2025-01-15T14:30:00Z'' = Some 1736951400000"
  "date_of zero_platform ''2025-06-15T14:30:00Z'' = Some 1749997800000"
proof -
  have P: "date_of zero_platform s = iso_parse s" for s
    by (simp add: date_of_def date_parse_def zero_platform_def split: option.splits)
  obtain s where s: "iso_seconds (Some 1736951400000) = Inr s" "iso_parse s = Some (1736951400000 div 1000 * 1000)"
    using iso_seconds_parse [OF sample_now(2)] by blast
  then show "date_of zero_platform ''2025-01-15T14:30:00Z'' = Some 1736951400000"
    using sample_date by (simp add: P)
  show "date_of zero_platform ''2025-06-15T14:30:00Z'' = Some 1749997800000"
    by (simp add: P sample_expiry)
qed

lemma sample_authorized: "authorized zero_platform sample_request sample_normalized"
proof -
  have terms: "c_action sample_sealed_consent = ''grant''" "c_consent_hash sample_sealed_consent = replicate 64 (CHR ''0'')"
    "c_subject sample_sealed_consent = ''did:key:alice''" "c_grantee sample_sealed_consent = ''did:key:bob''"
    "c_marketMakerId sample_sealed_consent = Some ''mm-1''" "c_issued_at sample_sealed_consent = ''2025-01-15T14:30:00Z''"
    "c_expires_at sample_sealed_consent = Some ''2025-06-15T14:30:00Z''"
    by (simp_all add: sample_sealed_consent_def sample_payload_def consent_draft_def sample_options_def default_consent_options_def)
  have "in_time zero_platform sample_normalized"
    by (simp add: in_time_def sample_normalized_def parseTimestampOrNull_def terms sample_dates date_le_def date_gt_def)
  moreover have "market_maker_cleared (Some (registry_lookup sample_records)) sample_normalized ''mm-1''"
    by (simp add: market_maker_cleared_def registry_lookup_def sample_records_def MarketMakerRegistry_def mm_exists_def
        mm_getStatus_def sample_market_maker_def sample_normalized_def)
  ultimately show ?thesis
    by (simp add: authorized_def sample_request_def consent_bound_def terms hook_allows_def)
      (simp add: sample_normalized_def terms sample_scope_def)
qed

lemma sample_allowed: "d_allowed (evaluateCapabilityAccess zero_platform clock sample_request)"
  using sample_is_normalized sample_authorized evaluate_allowed by blast

lemma allowed_access_is_authorized_witness:
  "\<exists>raw e at. r_capability sample_request = Some raw \<and> token_terms raw \<and> sealed zero_platform raw \<and>
    trim (r_action sample_request) \<in> set (t_permissions raw) \<and>
    normalizeResource (r_resource sample_request) = Inr e \<and> e \<in> set (t_scope raw) \<and>
    normalizeEvaluationTime zero_platform 0 (r_now sample_request) = Inr at \<and>
    (\<forall>nb. t_not_before raw = Some nb \<longrightarrow> nb \<le> at) \<and>
    \<not> date_gt (date_of zero_platform at) (date_of zero_platform (t_expires_at raw)) \<and>
    (\<forall>c. r_consent sample_request = Some c \<longrightarrow> validateConsentObject zero_platform c = None \<and> c_action c = ''grant'' \<and>
      t_consent_ref raw = c_consent_hash c \<and> t_subject raw = c_subject c \<and> t_grantee raw = c_grantee c)"
  by (rule allowed_access_is_authorized [OF sample_allowed])

lemma sample_records_inv: "registry_inv sample_records"
  using sample_market_maker_ok by (simp add: registry_inv_def sample_records_def, simp add: sample_market_maker_def)

lemma bound_token_needs_trusted_market_maker_witness:
  "r_marketMakerRegistry sample_request = Some (registry_lookup sample_records) \<and> mm_isTrusted sample_records ''mm-1'' \<and>
    r_marketMakerId sample_request = Some ''mm-1''"
  by (rule bound_token_needs_trusted_market_maker [OF sample_allowed, where raw = sample_raw])
    (simp_all add: sample_records_inv, simp_all add: sample_request_def)

section \<open>An expiry that is not a date\<close>

text \<open>
  The expiry check of the evaluation fails open.  A token whose \<open>expires_at\<close> has the form of a
  time stamp but names no date (so that \<open>new Date\<close> gives an invalid date and every comparison is
  false), evaluated without a consent and without hooks, is allowed at every moment after one at
  which it is allowed: it never expires.
\<close>

theorem undated_expiry_never_expires:
  assumes "d_allowed (evaluateCapabilityAccess P clock input)"
    and "r_capability input = Some raw" and "date_of P (t_expires_at raw) = None"
    and "r_consent input = None" and "r_usageHook input = None" and "r_policyHook input = None"
    and "normalizeEvaluationTime P clock (r_now input) = Inr at"
    and "normalizeEvaluationTime P clock' now' = Inr at'" and "at \<le> at'"
  shows "d_allowed (evaluateCapabilityAccess P clock' (input\<lparr>r_now := now'\<rparr>))"
proof -
  obtain q where q: "normalized P clock input q" "authorized P input q"
    using assms(1) evaluate_allowed by blast
  let ?q = "q\<lparr>q_evaluatedAt := at'\<rparr>"
  have nq: "normalizeCapabilityAccessRequest P input at = Inr q"
    using q(1) assms(7) by (auto simp: normalized_def)
  then have "normalizeCapabilityAccessRequest P (input\<lparr>r_now := now'\<rparr>) at' = Inr ?q"
    by (auto simp: normalizeCapabilityAccessRequest_def result_simps)
  then have n': "normalized P clock' (input\<lparr>r_now := now'\<rparr>) ?q"
    using assms(8) by (auto simp: normalized_def)
  have e: "n_expiresAt (q_capability q) = t_expires_at raw \<and> q_consent q = None \<and> q_evaluatedAt q = at"
    by (rule normalized_request [OF q(1)]) (use assms(2,4,7) in auto)
  have "in_time P ?q"
    using q(2) e assms(3,9)
    by (auto simp: authorized_def in_time_def Let_def parseTimestampOrNull_def)
  then have "authorized P (input\<lparr>r_now := now'\<rparr>) ?q"
    using q(2) assms(5,6) by (auto simp: authorized_def consent_bound_def hook_allows_def market_maker_cleared_def)
  then show ?thesis using n' evaluate_allowed by blast
qed


definition undated_raw :: raw_capability where
  "undated_raw = sample_raw\<lparr>t_expires_at := ''9999-99-99T99:99:99Z'', t_marketMakerId := None, raw_status := None\<rparr>"

definition undated_request :: access_request where
  "undated_request = sample_request\<lparr>r_capability := Some undated_raw, r_consent := None\<rparr>"

lemma sample_later: "iso_seconds (Some 1749997800000) = Inr ''2025-06-15T14:30:00Z''"
proof -
  let ?g = "(2025, 6, 15, 14, 30, 0) :: stamp"
  have g: "stamp_seconds ?g = 1749997800" "valid_stamp ?g"
    by (simp_all add: make_day_def day_from_year_def month_start_def leap_year_def month_starts_def
        calendar_date_def days_in_month_def)
  then show ?thesis
    using iso_seconds_of_stamp [of ?g] by (simp add: pad_numeral digit_numerals)
qed

lemma undated_date: "date_of zero_platform ''9999-99-99T99:99:99Z'' = None" and undated_stamp:
  "stamp_ok ''9999-99-99T99:99:99Z''" "''2025-01-15T14:30:00Z'' < ''9999-99-99T99:99:99Z''"
proof -
  show s: "stamp_ok ''9999-99-99T99:99:99Z''" "''2025-01-15T14:30:00Z'' < ''9999-99-99T99:99:99Z''"
    unfolding stamp_ok_def by code_simp+
  let ?f = "(9999, 99, 99, 99, 99, 99) :: stamp"
  have f: "iso_string ?f = ''9999-99-99T99:99:99Z''" by (simp add: pad_numeral digit_numerals)
  have "iso_fields ''9999-99-99T99:99:99Z'' = ?f"
    by (subst f [symmetric], rule iso_fields_string) simp
  then have "iso_parse ''9999-99-99T99:99:99Z'' = None"
    using s(1) by (simp add: iso_parse_pattern stamp_ok_def calendar_date_def)
  then show "date_of zero_platform ''9999-99-99T99:99:99Z'' = None"
    by (simp add: date_of_def date_parse_def zero_platform_def)
qed

lemma undated_allowed: "d_allowed (evaluateCapabilityAccess zero_platform clock undated_request)"
proof -
  let ?c = "q_capability sample_normalized\<lparr>n_raw := undated_raw, n_expiresAt := ''9999-99-99T99:99:99Z'',
     n_marketMakerId := None, n_status := None\<rparr>"
  let ?q = "sample_normalized\<lparr>q_capability := ?c, q_consent := None\<rparr>"
  have raw: "token_terms undated_raw" "sealed zero_platform undated_raw"
    using sample_raw_valid(1) undated_stamp canonicalizeCapabilityPayload_total [of zero_platform undated_raw]
    by (auto simp: undated_raw_def token_terms_def sealed_def hash_ok_def)
  have cap: "normalizeCapability zero_platform (Some undated_raw) = Inr ?c"
    unfolding normalizeCapability_Inr using raw by (simp add: undated_raw_def sample_normalized_def)
  obtain at where at: "normalizeEvaluationTime zero_platform clock (r_now sample_request) = Inr at"
      and n: "normalizeCapabilityAccessRequest zero_platform sample_request at = Inr sample_normalized"
    using sample_is_normalized by (auto simp: normalized_def)
  have "normalizeCapabilityAccessRequest zero_platform undated_request at = Inr ?q"
    using n cap undated_stamp(1) unfolding normalizeCapabilityAccessRequest_def result_simps throws_simps
    by (auto simp: undated_request_def sample_request_def sample_normalized_def validateIsoTimestamp_def
        stamp_ok_def first_throw.simps)
  then have "normalized zero_platform clock undated_request ?q"
    using at by (auto simp: normalized_def undated_request_def)
  moreover have "authorized zero_platform undated_request ?q"
    using undated_date
    by (simp add: authorized_def undated_request_def consent_bound_def in_time_def hook_allows_def sample_request_def
        parseTimestampOrNull_def undated_raw_def)
      (simp add: sample_normalized_def sample_scope_def)
  ultimately show ?thesis using evaluate_allowed by blast
qed

lemma undated_expiry_never_expires_witness:
  "d_allowed (evaluateCapabilityAccess zero_platform 0
     (undated_request\<lparr>r_now := Some (NowDate (Some 1749997800000))\<rparr>))"
proof (rule undated_expiry_never_expires [OF undated_allowed [of 0], where raw = undated_raw and at = "''2025-01-15T14:30:00Z''"
      and at' = "''2025-06-15T14:30:00Z''"])
  show "normalizeEvaluationTime zero_platform 0 (r_now undated_request) = Inr ''2025-01-15T14:30:00Z''"
    by (simp add: normalizeEvaluationTime_def undated_request_def sample_request_def to_date_def sample_date as_input_error_def)
  show "normalizeEvaluationTime zero_platform 0 (Some (NowDate (Some 1749997800000))) = Inr ''2025-06-15T14:30:00Z''"
    by (simp add: normalizeEvaluationTime_def to_date_def sample_later as_input_error_def)
qed (use undated_date sample_stamp(3) in \<open>simp_all add: undated_request_def sample_request_def undated_raw_def\<close>)

end
