(* ===== verification/Consumption.thy ===== *)
theory Consumption
  imports AccessEvaluation
begin

text \<open>
  \<open>aoc/capabilities/runtime/consumeCapabilityAccess.ts\<close> and
  \<open>aoc/capabilities/consent/consentBinding.ts\<close>: consumption of a capability, with rate
  limits, revocation, replay protection, payment and the record of use.  The registries a request
  carries are records of operations over abstract states, the states are one record
  \<open>consumption_stores\<close> that is passed and returned.  \<open>cloneCapability\<close> and
  \<open>cloneConsent\<close> copy and freeze, which is the identity on values; an operation of a
  registry returns, except \<open>record\<close>, whose exceptions the source catches.
\<close>

section \<open>Rate limits\<close>

record rate_config =
  maxAttempts :: jsnum
  windowMs :: jsnum

record rate_state =
  rl_key :: string
  rl_count :: nat
  rl_windowStartedAt :: string

text \<open>\<open>interface RateLimitRegistry\<close>; \<open>increment\<close> also returns the state it stores.\<close>

record 'l rate_limit_ops =
  rl_get :: "'l \<Rightarrow> string \<Rightarrow> rate_state option"
  rl_increment :: "string \<Rightarrow> int \<Rightarrow> rate_config \<Rightarrow> 'l \<Rightarrow> rate_state \<times> 'l"
  rl_isLimited :: "'l \<Rightarrow> string \<Rightarrow> int \<Rightarrow> rate_config \<Rightarrow> bool"

text \<open>\<open>normalizeNow\<close> and \<open>normalizeEvaluatedAt\<close> (of a time value).\<close>

definition normalizeNow :: "platform \<Rightarrow> int \<Rightarrow> now_input option \<Rightarrow> int result" where
  "normalizeNow P clock now = (case (case now of None \<Rightarrow> Some clock | Some n \<Rightarrow> to_date P n) of
     None \<Rightarrow> Inl (Error ''Evaluation timestamp must be a valid date.'')
   | Some t \<Rightarrow> Inr t)"

definition normalizeEvaluatedAt :: "int \<Rightarrow> string" where
  "normalizeEvaluatedAt now = (case iso_seconds (Some now) of Inr s \<Rightarrow> s | Inl _ \<Rightarrow> [])"

text \<open>
  \<open>class InMemoryRateLimitRegistry\<close>, its \<open>Map\<close> as a finite map.  \<open>Date.parse\<close> of an
  unreadable stamp is \<open>NaN\<close>, with which both comparisons are false.
\<close>

type_synonym rate_states = "string \<rightharpoonup> rate_state"

definition window_over :: "platform \<Rightarrow> int \<Rightarrow> rate_config \<Rightarrow> rate_state \<Rightarrow> bool" where
  "window_over P now config s = (case date_of P (rl_windowStartedAt s) of
     None \<Rightarrow> False | Some t \<Rightarrow> now - t \<ge> int_of_num (windowMs config))"

definition within_window :: "platform \<Rightarrow> int \<Rightarrow> rate_config \<Rightarrow> rate_state \<Rightarrow> bool" where
  "within_window P now config s = (case date_of P (rl_windowStartedAt s) of
     None \<Rightarrow> False | Some t \<Rightarrow> now - t < int_of_num (windowMs config))"

definition rate_increment :: "platform \<Rightarrow> string \<Rightarrow> int \<Rightarrow> rate_config \<Rightarrow> rate_states \<Rightarrow> rate_state \<times> rate_states" where
  "rate_increment P key now config states =
     (let fresh = \<lparr>rl_key = key, rl_count = 1, rl_windowStartedAt = normalizeEvaluatedAt now\<rparr>;
          next = (case states key of
            None \<Rightarrow> fresh
          | Some current \<Rightarrow> if window_over P now config current then fresh
              else \<lparr>rl_key = key, rl_count = rl_count current + 1, rl_windowStartedAt = rl_windowStartedAt current\<rparr>)
      in (next, states(key \<mapsto> next)))"

definition rate_isLimited :: "platform \<Rightarrow> rate_states \<Rightarrow> string \<Rightarrow> int \<Rightarrow> rate_config \<Rightarrow> bool" where
  "rate_isLimited P states key now config = (case states key of
     None \<Rightarrow> False
   | Some s \<Rightarrow> if \<not> within_window P now config s then False
       else int (rl_count s) \<ge> int_of_num (maxAttempts config))"

definition InMemoryRateLimitRegistry :: "platform \<Rightarrow> rate_states rate_limit_ops" where
  "InMemoryRateLimitRegistry P = \<lparr>rl_get = (\<lambda>states key. states key), rl_increment = rate_increment P,
     rl_isLimited = rate_isLimited P\<rparr>"

definition validateRateLimitConfig :: "rate_config \<Rightarrow> throws" where
  "validateRateLimitConfig config = first_throw [
     throw_if (\<not> is_integer (maxAttempts config) \<or> \<not> num_positive (maxAttempts config))
       ''rateLimit.maxAttempts must be a positive integer.'',
     throw_if (\<not> is_integer (windowMs config) \<or> \<not> num_positive (windowMs config))
       ''rateLimit.windowMs must be a positive integer.'']"

section \<open>Usage of consents\<close>

record usage_state =
  us_consentRef :: string
  us_usageCount :: nat
  us_lastAccessedAt :: string
  us_lastAccessResult :: string

record usage_output =
  uo_usageCount :: nat
  uo_lastAccessedAt :: string
  uo_lastAccessResult :: string

text \<open>\<open>interface ConsentUsageRegistry\<close>; \<open>record\<close> may throw, after it has changed its state.\<close>

record 'u usage_ops =
  us_get :: "'u \<Rightarrow> string \<Rightarrow> usage_state option"
  us_record :: "string \<Rightarrow> string \<Rightarrow> string \<Rightarrow> 'u \<Rightarrow> usage_state result \<times> 'u"

type_synonym usage_states = "string \<rightharpoonup> usage_state"

definition usage_record :: "string \<Rightarrow> string \<Rightarrow> string \<Rightarrow> usage_states \<Rightarrow> usage_state result \<times> usage_states" where
  "usage_record consentRef outcome timestamp states =
     (let next = \<lparr>us_consentRef = consentRef,
            us_usageCount = (case states consentRef of None \<Rightarrow> 0 | Some current \<Rightarrow> us_usageCount current) +
              (if outcome = ''allow'' then 1 else 0),
            us_lastAccessedAt = timestamp, us_lastAccessResult = outcome\<rparr>
      in (Inr next, states(consentRef \<mapsto> next)))"

definition InMemoryConsentUsageRegistry :: "usage_states usage_ops" where
  "InMemoryConsentUsageRegistry = \<lparr>us_get = (\<lambda>states r. states r), us_record = usage_record\<rparr>"

definition toUsageOutput :: "usage_state \<Rightarrow> usage_output" where
  "toUsageOutput s = \<lparr>uo_usageCount = us_usageCount s, uo_lastAccessedAt = us_lastAccessedAt s,
     uo_lastAccessResult = us_lastAccessResult s\<rparr>"

section \<open>Requests, decisions, stores\<close>

record consumption_request =
  cr_capability :: "raw_capability option"
  cr_consent :: "consent_object option"
  cr_action :: string
  cr_resource :: resource
  cr_marketMakerId :: "string option"
  cr_now :: "now_input option"
  cr_usageContext :: "metadata option"
  cr_paid :: bool
  cr_policyContext :: "metadata option"
  cr_marketMakerRegistry :: "mm_lookup option"
  cr_usageHook :: "hook option"
  cr_policyHook :: "hook option"
  cr_consume :: "bool option"
  cr_requireReplayProtection :: bool

text \<open>The registries of a request; the revocation registry is the default one when none is supplied.\<close>

record ('n, 'r, 'u, 'l) consumption_registries =
  g_nonces :: "'n nonce_registry_ops option"
  g_revocations :: "'r revocation_registry_ops"
  g_usage :: "'u usage_ops option"
  g_rateLimit :: "('l rate_limit_ops \<times> rate_config) option"

record ('n, 'r, 'u, 'l) consumption_stores =
  s_nonces :: 'n
  s_revocations :: 'r
  s_usage :: 'u
  s_limits :: 'l

record consumption_checks = access_checks +
  k_consent :: check_state
  k_revocation :: check_state
  k_replay :: check_state

record payment_decision =
  pay_required :: bool
  pay_amount :: jsnum
  pay_currency :: string

record consumption_decision =
  u_allowed :: bool
  u_decision :: string
  u_reasonCode :: reason_code
  u_reason :: string
  u_evaluatedAt :: string
  u_checks :: consumption_checks
  u_metadata :: metadata
  u_consumed :: bool
  u_replayChecked :: bool
  u_revocationChecked :: bool
  u_usage :: "usage_output option"
  u_payment :: "payment_decision option"

section \<open>Helpers\<close>

definition makeChecks :: consumption_checks where
  "makeChecks = access_checks.extend base_checks
     \<lparr>k_consent = NotApplicable, k_revocation = NotApplicable, k_replay = NotApplicable\<rparr>"

definition normalizeAction :: "string \<Rightarrow> string result" where
  "normalizeAction action = (let normalizedAction = to_lower (trim action) in
     after (validateCapabilityActions [normalizedAction]
         \<lparr>containerLabel = ''Requested actions'', itemLabel = ''Requested action'',
          emptyMessage = ''Requested action is required for access evaluation.'', maxEntries = 1\<rparr>)
       (Inr normalizedAction))"

definition canonicalResource :: "resource \<Rightarrow> scope_entry result" where
  "canonicalResource resource = bind_result
     (case resource of
        ResString s \<Rightarrow> (case split_on (CHR '':'') (trim s) of
            [type, ref] \<Rightarrow> (if type = [] \<or> ref = []
              then Inl (Error ''Requested resource must be a canonical \"type:ref\" string.'')
              else Inr \<lparr>se_type = type, se_ref = ref\<rparr>)
          | _ \<Rightarrow> Inl (Error ''Requested resource must be a canonical \"type:ref\" string.''))
      | ResEntry e \<Rightarrow> Inr \<lparr>se_type = trim (se_type e), se_ref = trim (se_ref e)\<rparr>)
     (\<lambda>raw. after (first_throw [
          throw_if (se_type raw \<notin> set VALID_SCOPE_TYPES)
            ''Requested resource type must be one of: field, content, pack.'',
          throw_if (\<not> rx_test HASH_HEX_PATTERN (se_ref raw))
            ''Requested resource ref must be 64 lowercase hex characters.''])
        (Inr raw))"

definition parseTimestamp :: "platform \<Rightarrow> string \<Rightarrow> string \<Rightarrow> int result" where
  "parseTimestamp P timestamp label = (case date_of P timestamp of
     None \<Rightarrow> Inl (Error (label @ '' must be a valid date.''))
   | Some t \<Rightarrow> Inr t)"

definition enforceTimestampWithinSkew :: "platform \<Rightarrow> string \<Rightarrow> int \<Rightarrow> string \<Rightarrow> throws" where
  "enforceTimestampWithinSkew P timestamp now label = (case parseTimestamp P timestamp label of
     Inl e \<Rightarrow> Some e
   | Inr parsed \<Rightarrow> throw_if (\<bar>parsed - now\<bar> > CLOCK_SKEW_SECONDS * 1000)
       (label @ '' exceeds allowed clock skew.''))"

text \<open>\<open>if (capability.not_before)\<close> also skips an empty string.\<close>

definition enforceCapabilityTemporalIntegrity ::
  "platform \<Rightarrow> 'a capability_payload_scheme \<Rightarrow> consent_object option \<Rightarrow> int \<Rightarrow> throws" where
  "enforceCapabilityTemporalIntegrity P capability consent now = first_throw [
     enforceTimestampWithinSkew P (t_issued_at capability) now ''Capability issued_at'',
     (case t_not_before capability of
        None \<Rightarrow> None
      | Some nb \<Rightarrow> if nb = [] then None else enforceTimestampWithinSkew P nb now ''Capability not_before''),
     enforceTimestampWithinSkew P (t_expires_at capability) now ''Capability expires_at'',
     (case consent of
        None \<Rightarrow> None
      | Some c \<Rightarrow> enforceTimestampWithinSkew P (c_issued_at c) now ''Consent issued_at'')]"

text \<open>\<open>consent/consentBinding.ts\<close>.\<close>

definition verifyCapabilityConsentBinding :: "'a capability_token_scheme \<Rightarrow> consent_object \<Rightarrow> throws" where
  "verifyCapabilityConsentBinding token consent = first_throw [
     throw_if (t_consent_ref token \<noteq> c_consent_hash consent)
       ''Capability consent_ref does not match parent consent consent_hash.'',
     throw_if (c_action consent \<noteq> ''grant'') ''Parent consent action must be \"grant\".'',
     throw_if (t_subject token \<noteq> c_subject consent) ''Capability subject does not match parent consent subject.'',
     throw_if (t_grantee token \<noteq> c_grantee consent) ''Capability grantee does not match parent consent grantee.'',
     throw_if (t_marketMakerId token \<noteq> c_marketMakerId consent)
       ''Capability marketMakerId does not match parent consent marketMakerId.'',
     each_throw (\<lambda>entry. throw_if (scope_key entry \<notin> scope_key ` set (c_scope consent))
       ''Scope escalation: token scope entry not found in parent consent scope.'') (t_scope token),
     each_throw (\<lambda>permission. throw_if (permission \<notin> set (c_permissions consent))
       ''Permission escalation: token permission not found in parent consent permissions.'') (t_permissions token)]"

definition sanitized_keys :: "string list" where
  "sanitized_keys = [''capabilityHash'', ''tokenId'', ''rateLimitKey'', ''rateLimitWindowStartedAt'',
     ''rateLimitCount'', ''rateLimitMaxAttempts'', ''rateLimitWindowMs'', ''failureStage'']"

definition sanitizeMetadata :: "metadata \<Rightarrow> metadata" where
  "sanitizeMetadata base = (\<lambda>k. if k \<in> set sanitized_keys \<and> base k \<noteq> Some JUndef then base k else None)"

definition staged :: "metadata \<Rightarrow> string \<Rightarrow> metadata" where
  "staged metadata stage = sanitizeMetadata (metadata(''failureStage'' \<mapsto> JStr stage))"

definition recordUsage ::
  "('n, 'r, 'u, 'l) consumption_registries \<Rightarrow> 'a capability_payload_scheme \<Rightarrow> string \<Rightarrow> string \<Rightarrow> 'u \<Rightarrow>
   usage_output option \<times> 'u" where
  "recordUsage G capability outcome evaluatedAt usage = (case g_usage G of
     None \<Rightarrow> (None, usage)
   | Some U \<Rightarrow> if t_consent_ref capability = [] then (None, usage)
       else (case us_record U (t_consent_ref capability) outcome evaluatedAt usage of
          (Inr state, usage') \<Rightarrow> (Some (toUsageOutput state), usage')
        | (Inl _, usage') \<Rightarrow> (None, usage')))"

definition denied ::
  "string \<Rightarrow> reason_code \<Rightarrow> string \<Rightarrow> consumption_checks \<Rightarrow> metadata \<Rightarrow> bool \<Rightarrow> bool \<Rightarrow>
   payment_decision option \<Rightarrow> consumption_decision" where
  "denied evaluatedAt reasonCode reason checks metadata replayChecked revocationChecked payment =
     \<lparr>u_allowed = False, u_decision = ''deny'', u_reasonCode = reasonCode, u_reason = reason,
      u_evaluatedAt = evaluatedAt, u_checks = checks, u_metadata = metadata, u_consumed = False,
      u_replayChecked = replayChecked, u_revocationChecked = revocationChecked, u_usage = None,
      u_payment = payment\<rparr>"

definition buildPaymentDecision :: "consent_object option \<Rightarrow> bool \<Rightarrow> payment_decision option" where
  "buildPaymentDecision consent paid = (case Option.bind consent c_pricing of
     None \<Rightarrow> None
   | Some p \<Rightarrow> Some \<lparr>pay_required = (paid \<noteq> True), pay_amount = pr_amount p, pay_currency = pr_currency p\<rparr>)"

definition buildEvaluationRequest ::
  "consumption_request \<Rightarrow> raw_capability \<Rightarrow> string \<Rightarrow> scope_entry \<Rightarrow> string \<Rightarrow> access_request" where
  "buildEvaluationRequest request capability action resource evaluatedAt =
     \<lparr>r_capability = Some capability, r_consent = cr_consent request, r_action = action,
      r_resource = ResEntry resource, r_marketMakerId = cr_marketMakerId request,
      r_now = Some (NowString evaluatedAt), r_usageContext = cr_usageContext request,
      r_policyContext = cr_policyContext request, r_marketMakerRegistry = cr_marketMakerRegistry request,
      r_usageHook = cr_usageHook request, r_policyHook = cr_policyHook request\<rparr>"

section \<open>consumeCapabilityAccess, stage by stage\<close>

text \<open>Each stage decides (\<open>Inl\<close>) or hands on the checks.  The \<open>catch\<close> of the whole body:\<close>

definition caught :: "string \<Rightarrow> consumption_request \<Rightarrow> consumption_checks \<Rightarrow> js_error \<Rightarrow> consumption_decision" where
  "caught evaluatedAt request checks e =
     (let checks = (if k_consent checks = NotApplicable \<and> cr_consent request \<noteq> None
            then checks\<lparr>k_consent := Fail\<rparr> else checks)
      in denied evaluatedAt CAPABILITY_INVALID (message_or e ''Capability consumption request is invalid.'') checks
           (staged Map.empty ''integrity'') False (k_revocation checks \<noteq> NotApplicable) None)"

text \<open>A missing capability fails on its first property access, with the engine's message.\<close>

definition admit_stage :: "platform \<Rightarrow> consumption_request \<Rightarrow> (string \<times> scope_entry \<times> raw_capability) result" where
  "admit_stage P request =
     bind_result (normalizeAction (cr_action request)) (\<lambda>action.
     bind_result (canonicalResource (cr_resource request)) (\<lambda>resource.
     case cr_capability request of
       None \<Rightarrow> Inl (Error ''Cannot read properties of undefined (reading 'version')'')
     | Some capability \<Rightarrow> after (validateCapabilityToken P None capability) (Inr (action, resource, capability))))"

definition consent_stage ::
  "platform \<Rightarrow> string \<Rightarrow> raw_capability \<Rightarrow> consent_object option \<Rightarrow> metadata \<Rightarrow> consumption_checks \<Rightarrow>
   consumption_decision + consumption_checks" where
  "consent_stage P evaluatedAt capability consent metadata checks = (case consent of
     None \<Rightarrow> Inr checks
   | Some c \<Rightarrow> (case validateConsentObject P c of
       Some e \<Rightarrow> Inl (denied evaluatedAt CONSENT_INVALID
         (message_or e ''Parent consent is invalid for capability consumption.'')
         (checks\<lparr>k_consent := Fail\<rparr>) (staged metadata ''integrity'') False False None)
     | None \<Rightarrow> (case verifyCapabilityConsentBinding capability c of
         Some e \<Rightarrow> Inl (denied evaluatedAt CONSENT_MISMATCH
           (message_or e ''Capability does not match the supplied parent consent.'')
           (checks\<lparr>k_consent := Fail\<rparr>) (staged metadata ''integrity'') False False None)
       | None \<Rightarrow> Inr (checks\<lparr>k_consent := Pass\<rparr>))))"

definition skew_stage ::
  "platform \<Rightarrow> string \<Rightarrow> int \<Rightarrow> raw_capability \<Rightarrow> consent_object option \<Rightarrow> metadata \<Rightarrow> consumption_checks \<Rightarrow>
   consumption_decision + consumption_checks" where
  "skew_stage P evaluatedAt now capability consent metadata checks =
     (case enforceCapabilityTemporalIntegrity P capability consent now of
        None \<Rightarrow> Inr (checks\<lparr>k_temporal := Pass\<rparr>)
      | Some e \<Rightarrow> Inl (denied evaluatedAt CAPABILITY_INVALID (message_or e ''Capability temporal validation failed.'')
          (checks\<lparr>k_temporal := Fail\<rparr>) (staged metadata ''temporal'') False False None))"

definition evaluation_stage ::
  "platform \<Rightarrow> int \<Rightarrow> string \<Rightarrow> consumption_request \<Rightarrow> raw_capability \<Rightarrow> string \<Rightarrow> scope_entry \<Rightarrow> metadata \<Rightarrow>
   bool \<Rightarrow> consumption_checks \<Rightarrow> consumption_decision + consumption_checks" where
  "evaluation_stage P clock evaluatedAt request capability action resource metadata shouldCheckReplay checks =
     (let d = evaluateCapabilityAccess P clock (buildEvaluationRequest request capability action resource evaluatedAt);
          checks = checks\<lparr>k_temporal := k_temporal (d_checks d), k_action := k_action (d_checks d),
            k_resource := k_resource (d_checks d), k_marketMaker := k_marketMaker (d_checks d),
            k_usage := k_usage (d_checks d), k_policy := k_policy (d_checks d)\<rparr>
      in if \<not> d_allowed d
         then Inl (denied evaluatedAt (d_reasonCode d) (d_reason d) checks
           (staged metadata (case d_metadata d ''failureStage'' of Some (JStr stage) \<Rightarrow> stage | _ \<Rightarrow> ''integrity''))
           shouldCheckReplay True (buildPaymentDecision (cr_consent request) (cr_paid request)))
         else Inr checks)"

definition rate_metadata :: "string \<Rightarrow> rate_state option \<Rightarrow> rate_config \<Rightarrow> metadata" where
  "rate_metadata key state config = [''rateLimitKey'' \<mapsto> JStr key,
     ''rateLimitWindowStartedAt'' \<mapsto> (case state of None \<Rightarrow> JUndef | Some s \<Rightarrow> JStr (rl_windowStartedAt s)),
     ''rateLimitCount'' \<mapsto> (case state of None \<Rightarrow> JUndef | Some s \<Rightarrow> JNum (int_num (int (rl_count s)))),
     ''rateLimitMaxAttempts'' \<mapsto> JNum (maxAttempts config), ''rateLimitWindowMs'' \<mapsto> JNum (windowMs config)]"

definition rate_stage ::
  "('l rate_limit_ops \<times> rate_config) option \<Rightarrow> string \<Rightarrow> int \<Rightarrow> consumption_request \<Rightarrow> string \<Rightarrow> metadata \<Rightarrow> bool \<Rightarrow>
   consumption_checks \<Rightarrow> 'l \<Rightarrow> (consumption_decision + metadata) \<times> 'l" where
  "rate_stage limit evaluatedAt now request key metadata shouldCheckReplay checks l = (case limit of
     None \<Rightarrow> (Inr metadata, l)
   | Some (L, config) \<Rightarrow> (case validateRateLimitConfig config of
       Some e \<Rightarrow> (Inl (caught evaluatedAt request checks e), l)
     | None \<Rightarrow>
         if rl_isLimited L l key now config
         then (Inl (denied evaluatedAt RATE_LIMITED (''Rate limit exceeded for consent_ref \"'' @ key @ ''\".'') checks
             (staged (metadata ++ rate_metadata key (rl_get L l key) config) ''rate_limit'')
             shouldCheckReplay False None), l)
         else (case rl_increment L key now config l of
             (state, l') \<Rightarrow> (Inr (metadata ++ rate_metadata key (Some state) config), l'))))"

definition revocation_stage ::
  "'r revocation_registry_ops \<Rightarrow> string \<Rightarrow> raw_capability \<Rightarrow> metadata \<Rightarrow> bool \<Rightarrow> 'r \<Rightarrow> consumption_checks \<Rightarrow>
   consumption_decision + consumption_checks" where
  "revocation_stage R evaluatedAt capability metadata shouldCheckReplay revocations checks =
     (if isRevoked R (t_capability_hash capability) revocations
      then Inl (denied evaluatedAt CAPABILITY_REVOKED ''Capability token has been revoked.''
        (checks\<lparr>k_revocation := Fail\<rparr>) (staged metadata ''revocation'') shouldCheckReplay True None)
      else Inr (checks\<lparr>k_revocation := Pass\<rparr>))"

text \<open>\<open>Boolean(nonceRegistry) && request.consume !== false\<close>.\<close>

definition replay_registry :: "'n nonce_registry_ops option \<Rightarrow> consumption_request \<Rightarrow> 'n nonce_registry_ops option" where
  "replay_registry N request = (if cr_consume request \<noteq> Some False then N else None)"

definition replay_stage ::
  "'n nonce_registry_ops option \<Rightarrow> string \<Rightarrow> int \<Rightarrow> consumption_request \<Rightarrow> raw_capability \<Rightarrow> metadata \<Rightarrow> 'n \<Rightarrow>
   consumption_checks \<Rightarrow> consumption_decision + consumption_checks" where
  "replay_stage N evaluatedAt now request capability metadata nonces checks =
     (case replay_registry N request of
        Some N \<Rightarrow>
          if hasSeen N nonces (t_token_id capability) (Some now)
          then Inl (denied evaluatedAt CAPABILITY_REPLAYED
            ''Capability token_id has already been presented (replay detected).''
            (checks\<lparr>k_replay := Fail\<rparr>) (staged metadata ''replay'') True True None)
          else Inr (checks\<lparr>k_replay := Pass\<rparr>)
      | None \<Rightarrow>
          if cr_requireReplayProtection request
          then Inl (denied evaluatedAt REPLAY_PROTECTION_REQUIRED
            ''Replay protection is required for consumption but no nonce registry was supplied.''
            (checks\<lparr>k_replay := Fail\<rparr>) (staged metadata ''replay'') False True None)
          else Inr checks)"

definition payment_stage ::
  "string \<Rightarrow> consumption_request \<Rightarrow> metadata \<Rightarrow> bool \<Rightarrow> consumption_checks \<Rightarrow>
   consumption_decision + consumption_checks" where
  "payment_stage evaluatedAt request metadata shouldCheckReplay checks =
     (if Option.bind (cr_consent request) c_pricing \<noteq> None \<and> \<not> cr_paid request
      then Inl (denied evaluatedAt PAYMENT_REQUIRED ''Payment is required before this capability can be consumed.'' checks
        (staged metadata ''payment'') shouldCheckReplay True (buildPaymentDecision (cr_consent request) (cr_paid request)))
      else Inr checks)"

definition commit_stage ::
  "('n, 'r, 'u, 'l) consumption_registries \<Rightarrow> string \<Rightarrow> int \<Rightarrow> consumption_request \<Rightarrow> raw_capability \<Rightarrow> metadata \<Rightarrow>
   consumption_checks \<Rightarrow> ('n, 'r, 'u, 'l) consumption_stores \<Rightarrow> consumption_decision \<times> ('n, 'r, 'u, 'l) consumption_stores" where
  "commit_stage G evaluatedAt now request capability metadata checks s =
     (let replay = replay_registry (g_nonces G) request;
          s = (case replay of
                 None \<Rightarrow> s
               | Some N \<Rightarrow> s\<lparr>s_nonces := cleanup N (Some now)
                   (markSeen N (t_token_id capability) (t_expires_at capability) (s_nonces s))\<rparr>)
      in case recordUsage G capability ''allow'' evaluatedAt (s_usage s) of (usage, u) \<Rightarrow>
        (\<lparr>u_allowed = True, u_decision = ''allow'', u_reasonCode = ACCESS_ALLOWED,
          u_reason = ''Capability consumption is authorized and all runtime enforcement checks passed.'',
          u_evaluatedAt = evaluatedAt, u_checks = checks, u_metadata = staged metadata ''completed'',
          u_consumed = (replay \<noteq> None), u_replayChecked = (replay \<noteq> None), u_revocationChecked = True,
          u_usage = usage, u_payment = buildPaymentDecision (cr_consent request) (cr_paid request)\<rparr>,
         s\<lparr>s_usage := u\<rparr>))"

definition admitted_checks :: consumption_checks where
  "admitted_checks = makeChecks\<lparr>k_integrity := Pass, k_action := Pass, k_resource := Pass\<rparr>"

definition token_metadata :: "raw_capability \<Rightarrow> metadata" where
  "token_metadata capability = sanitizeMetadata [''capabilityHash'' \<mapsto> JStr (t_capability_hash capability),
     ''tokenId'' \<mapsto> JStr (t_token_id capability)]"

definition consume_at ::
  "platform \<Rightarrow> int \<Rightarrow> ('n, 'r, 'u, 'l) consumption_registries \<Rightarrow> consumption_request \<Rightarrow> int \<Rightarrow>
   ('n, 'r, 'u, 'l) consumption_stores \<Rightarrow> consumption_decision \<times> ('n, 'r, 'u, 'l) consumption_stores" where
  "consume_at P clock G request now s =
     (let evaluatedAt = normalizeEvaluatedAt now;
          shouldCheckReplay = (replay_registry (g_nonces G) request \<noteq> None)
      in case admit_stage P request of
        Inl e \<Rightarrow> (caught evaluatedAt request makeChecks e, s)
      | Inr (action, resource, capability) \<Rightarrow>
         (let metadata = token_metadata capability in
          case bind_result (consent_stage P evaluatedAt capability (cr_consent request) metadata admitted_checks) (\<lambda>checks.
               bind_result (skew_stage P evaluatedAt now capability (cr_consent request) metadata checks) (\<lambda>checks.
               evaluation_stage P clock evaluatedAt request capability action resource metadata shouldCheckReplay checks)) of
            Inl d \<Rightarrow> (d, s)
          | Inr checks \<Rightarrow>
             (case rate_stage (g_rateLimit G) evaluatedAt now request (t_consent_ref capability) metadata
                    shouldCheckReplay checks (s_limits s) of
                (Inl d, l) \<Rightarrow> (d, s\<lparr>s_limits := l\<rparr>)
              | (Inr metadata, l) \<Rightarrow>
                 (let s = s\<lparr>s_limits := l\<rparr> in
                  case bind_result (revocation_stage (g_revocations G) evaluatedAt capability metadata shouldCheckReplay
                            (s_revocations s) checks) (\<lambda>checks.
                       bind_result (replay_stage (g_nonces G) evaluatedAt now request capability metadata
                            (s_nonces s) checks) (\<lambda>checks.
                       payment_stage evaluatedAt request metadata shouldCheckReplay checks)) of
                    Inl d \<Rightarrow> (d, s)
                  | Inr checks \<Rightarrow> commit_stage G evaluatedAt now request capability metadata checks s))))"

definition consumeCapabilityAccess ::
  "platform \<Rightarrow> int \<Rightarrow> ('n, 'r, 'u, 'l) consumption_registries \<Rightarrow> consumption_request \<Rightarrow>
   ('n, 'r, 'u, 'l) consumption_stores \<Rightarrow> (consumption_decision \<times> ('n, 'r, 'u, 'l) consumption_stores) result" where
  "consumeCapabilityAccess P clock G request s =
     bind_result (normalizeNow P clock (cr_now request)) (\<lambda>now. Inr (consume_at P clock G request now s))"

section \<open>What each stage lets through\<close>

definition bound_to :: "'a capability_token_scheme \<Rightarrow> consent_object \<Rightarrow> bool" where
  "bound_to t c \<longleftrightarrow> c_action c = ''grant'' \<and> t_consent_ref t = c_consent_hash c \<and> t_subject t = c_subject c \<and>
     t_grantee t = c_grantee c \<and> t_marketMakerId t = c_marketMakerId c \<and>
     set (t_scope t) \<subseteq> set (c_scope c) \<and> set (t_permissions t) \<subseteq> set (c_permissions c)"

lemma verifyCapabilityConsentBinding_None:
  assumes "scope_ok (t_scope t)"
  shows "verifyCapabilityConsentBinding t c = None \<longleftrightarrow> bound_to t c"
proof -
  have "scope_key e \<in> scope_key ` set (c_scope c) \<longleftrightarrow> e \<in> set (c_scope c)" if "e \<in> set (t_scope t)" for e
    using that assms scope_key_unique [of e] by (auto simp: scope_ok_def hash_ok_def)
  then show ?thesis
    unfolding verifyCapabilityConsentBinding_def throws_simps bound_to_def by (auto simp: throws_simps)
qed

definition near :: "platform \<Rightarrow> int \<Rightarrow> string \<Rightarrow> bool" where
  "near P now stamp \<longleftrightarrow> (\<exists>t. date_of P stamp = Some t \<and> \<bar>t - now\<bar> \<le> 300000)"

lemma enforceTimestampWithinSkew_None [throws_simps]: "enforceTimestampWithinSkew P s now l = None \<longleftrightarrow> near P now s"
  by (auto simp: enforceTimestampWithinSkew_def parseTimestamp_def near_def CLOCK_SKEW_SECONDS_def split: option.splits)

definition fresh_times :: "platform \<Rightarrow> int \<Rightarrow> 'a capability_payload_scheme \<Rightarrow> consent_object option \<Rightarrow> bool" where
  "fresh_times P now t consent \<longleftrightarrow> near P now (t_issued_at t) \<and> near P now (t_expires_at t) \<and>
     (\<forall>nb. t_not_before t = Some nb \<and> nb \<noteq> [] \<longrightarrow> near P now nb) \<and>
     (\<forall>c. consent = Some c \<longrightarrow> near P now (c_issued_at c))"

lemma enforceCapabilityTemporalIntegrity_None:
  "enforceCapabilityTemporalIntegrity P t consent now = None \<longleftrightarrow> fresh_times P now t consent"
  unfolding enforceCapabilityTemporalIntegrity_def throws_simps fresh_times_def
  by (auto simp: throws_simps split: option.splits if_splits)

definition consent_accepted :: "platform \<Rightarrow> raw_capability \<Rightarrow> consent_object option \<Rightarrow> bool" where
  "consent_accepted P t consent \<longleftrightarrow> (\<forall>c. consent = Some c \<longrightarrow>
     validateConsentObject P c = None \<and> verifyCapabilityConsentBinding t c = None)"

lemma consent_stage_Inr: "consent_stage P at t consent m ks = Inr ks' \<longleftrightarrow>
    consent_accepted P t consent \<and> ks' = (if consent = None then ks else ks\<lparr>k_consent := Pass\<rparr>)"
  by (auto simp: consent_stage_def consent_accepted_def split: option.splits)

lemma skew_stage_Inr: "skew_stage P at now t consent m ks = Inr ks' \<longleftrightarrow>
    fresh_times P now t consent \<and> ks' = ks\<lparr>k_temporal := Pass\<rparr>"
  by (auto simp: skew_stage_def enforceCapabilityTemporalIntegrity_None [symmetric] split: option.splits)

definition copied_checks :: "access_checks \<Rightarrow> consumption_checks \<Rightarrow> consumption_checks" where
  "copied_checks a ks = ks\<lparr>k_temporal := k_temporal a, k_action := k_action a, k_resource := k_resource a,
     k_marketMaker := k_marketMaker a, k_usage := k_usage a, k_policy := k_policy a\<rparr>"

lemma evaluation_stage_Inr: "evaluation_stage P clock at request t action resource m r ks = Inr ks' \<longleftrightarrow>
    d_allowed (evaluateCapabilityAccess P clock (buildEvaluationRequest request t action resource at)) \<and>
    ks' = copied_checks (d_checks (evaluateCapabilityAccess P clock (buildEvaluationRequest request t action resource at))) ks"
  by (auto simp: evaluation_stage_def copied_checks_def Let_def)

lemma revocation_stage_Inr: "revocation_stage R at t m r revocations ks = Inr ks' \<longleftrightarrow>
    \<not> isRevoked R (t_capability_hash t) revocations \<and> ks' = ks\<lparr>k_revocation := Pass\<rparr>"
  by (auto simp: revocation_stage_def)

definition unseen :: "'n nonce_registry_ops option \<Rightarrow> int \<Rightarrow> consumption_request \<Rightarrow> raw_capability \<Rightarrow> 'n \<Rightarrow> bool" where
  "unseen N now request t nonces \<longleftrightarrow> (case replay_registry N request of
     Some N \<Rightarrow> \<not> hasSeen N nonces (t_token_id t) (Some now)
   | None \<Rightarrow> \<not> cr_requireReplayProtection request)"

lemma replay_stage_Inr: "replay_stage N at now request t m nonces ks = Inr ks' \<longleftrightarrow>
    unseen N now request t nonces \<and> ks' = (if replay_registry N request = None then ks else ks\<lparr>k_replay := Pass\<rparr>)"
  by (auto simp: replay_stage_def unseen_def split: option.splits)

definition paid_for :: "consumption_request \<Rightarrow> bool" where
  "paid_for request \<longleftrightarrow> (\<forall>c. cr_consent request = Some c \<and> c_pricing c \<noteq> None \<longrightarrow> cr_paid request)"

lemma payment_stage_Inr: "payment_stage at request m r ks = Inr ks' \<longleftrightarrow> paid_for request \<and> ks' = ks"
  by (cases "cr_consent request") (auto simp: payment_stage_def paid_for_def)

definition under_limit :: "('l rate_limit_ops \<times> rate_config) option \<Rightarrow> string \<Rightarrow> int \<Rightarrow> 'l \<Rightarrow> bool" where
  "under_limit limit key now l \<longleftrightarrow> (\<forall>L config. limit = Some (L, config) \<longrightarrow>
     validateRateLimitConfig config = None \<and> \<not> rl_isLimited L l key now config)"

definition count_attempt :: "('l rate_limit_ops \<times> rate_config) option \<Rightarrow> string \<Rightarrow> int \<Rightarrow> 'l \<Rightarrow> 'l" where
  "count_attempt limit key now l = (case limit of
     Some (L, config) \<Rightarrow> (if under_limit limit key now l then snd (rl_increment L key now config l) else l)
   | None \<Rightarrow> l)"

lemma rate_stage_store: "snd (rate_stage limit at now request key m r ks l) = count_attempt limit key now l"
  by (auto simp: rate_stage_def count_attempt_def under_limit_def split: option.splits prod.splits)

lemma rate_stage_passes: "(\<exists>m'. fst (rate_stage limit at now request key m r ks l) = Inr m') \<longleftrightarrow> under_limit limit key now l"
  by (auto simp: rate_stage_def under_limit_def split: option.splits prod.splits)

text \<open>Everything a request must satisfy to be consumed.\<close>

definition eligible ::
  "platform \<Rightarrow> int \<Rightarrow> consumption_request \<Rightarrow> int \<Rightarrow> string \<Rightarrow> scope_entry \<Rightarrow> raw_capability \<Rightarrow> bool" where
  "eligible P clock request now action resource t \<longleftrightarrow> admit_stage P request = Inr (action, resource, t) \<and>
     consent_accepted P t (cr_consent request) \<and> fresh_times P now t (cr_consent request) \<and>
     d_allowed (evaluateCapabilityAccess P clock
       (buildEvaluationRequest request t action resource (normalizeEvaluatedAt now)))"

definition unspent ::
  "('n, 'r, 'u, 'l) consumption_registries \<Rightarrow> consumption_request \<Rightarrow> int \<Rightarrow> raw_capability \<Rightarrow>
   ('n, 'r, 'u, 'l) consumption_stores \<Rightarrow> bool" where
  "unspent G request now t s \<longleftrightarrow> \<not> isRevoked (g_revocations G) (t_capability_hash t) (s_revocations s) \<and>
     unseen (g_nonces G) now request t (s_nonces s) \<and> paid_for request"

definition counted ::
  "('n, 'r, 'u, 'l) consumption_registries \<Rightarrow> int \<Rightarrow> raw_capability \<Rightarrow>
   ('n, 'r, 'u, 'l) consumption_stores \<Rightarrow> ('n, 'r, 'u, 'l) consumption_stores" where
  "counted G now t s = s\<lparr>s_limits := count_attempt (g_rateLimit G) (t_consent_ref t) now (s_limits s)\<rparr>"

definition refusal :: "consumption_decision \<Rightarrow> bool" where
  "refusal d \<longleftrightarrow> \<not> u_allowed d \<and> u_decision d = ''deny'' \<and> \<not> u_consumed d \<and> u_usage d = None"

lemma refusal_denied [simp]: "refusal (denied at code reason ks m r v p)"
  by (simp add: refusal_def denied_def)

lemma refusal_caught [simp]: "refusal (caught at request ks e)"
  by (simp add: caught_def Let_def)

lemma refusals:
  "consent_stage P at t consent m ks = Inl d \<Longrightarrow> refusal d"
  "skew_stage P at now t consent m ks = Inl d \<Longrightarrow> refusal d"
  "evaluation_stage P clock at request t action resource m r ks = Inl d \<Longrightarrow> refusal d"
  "fst (rate_stage limit at now request key m r ks l) = Inl d \<Longrightarrow> refusal d"
  "revocation_stage R at t m r revocations ks = Inl d \<Longrightarrow> refusal d"
  "replay_stage N at now request t m nonces ks = Inl d \<Longrightarrow> refusal d"
  "payment_stage at request m r ks = Inl d \<Longrightarrow> refusal d"
  by (auto simp: consent_stage_def skew_stage_def evaluation_stage_def rate_stage_def revocation_stage_def
      replay_stage_def payment_stage_def Let_def split: option.splits if_splits prod.splits)

lemma early_stages_Inr:
  "(\<exists>ks. bind_result (consent_stage P at t consent m ks0) (\<lambda>ks. bind_result (skew_stage P at now t consent m ks) (\<lambda>ks.
      evaluation_stage P clock at request t action resource m r ks)) = Inr ks) \<longleftrightarrow>
   consent_accepted P t consent \<and> fresh_times P now t consent \<and>
   d_allowed (evaluateCapabilityAccess P clock (buildEvaluationRequest request t action resource at))"
  unfolding result_simps consent_stage_Inr skew_stage_Inr evaluation_stage_Inr by blast

lemma early_stages_Inl:
  "bind_result (consent_stage P at t consent m ks0) (\<lambda>ks. bind_result (skew_stage P at now t consent m ks) (\<lambda>ks.
      evaluation_stage P clock at request t action resource m r ks)) = Inl d \<Longrightarrow> refusal d"
  unfolding bind_result_Inl by (elim disjE exE conjE) (erule refusals)+

lemma late_stages_Inr:
  "(\<exists>ks. bind_result (revocation_stage R at t m r revocations ks0) (\<lambda>ks.
      bind_result (replay_stage N at now request t m nonces ks) (\<lambda>ks. payment_stage at request m r ks)) = Inr ks) \<longleftrightarrow>
   \<not> isRevoked R (t_capability_hash t) revocations \<and> unseen N now request t nonces \<and> paid_for request"
  unfolding result_simps revocation_stage_Inr replay_stage_Inr payment_stage_Inr by blast

lemma late_stages_Inl:
  "bind_result (revocation_stage R at t m r revocations ks0) (\<lambda>ks.
      bind_result (replay_stage N at now request t m nonces ks) (\<lambda>ks. payment_stage at request m r ks)) = Inl d \<Longrightarrow> refusal d"
  unfolding bind_result_Inl by (elim disjE exE conjE) (erule refusals)+

text \<open>The stores after an allowed consumption.\<close>

definition spent ::
  "('n, 'r, 'u, 'l) consumption_registries \<Rightarrow> consumption_request \<Rightarrow> int \<Rightarrow> raw_capability \<Rightarrow>
   ('n, 'r, 'u, 'l) consumption_stores \<Rightarrow> ('n, 'r, 'u, 'l) consumption_stores" where
  "spent G request now t s = s\<lparr>
     s_nonces := (case replay_registry (g_nonces G) request of None \<Rightarrow> s_nonces s
       | Some N \<Rightarrow> cleanup N (Some now) (markSeen N (t_token_id t) (t_expires_at t) (s_nonces s))),
     s_usage := snd (recordUsage G t ''allow'' (normalizeEvaluatedAt now) (s_usage s))\<rparr>"

lemma counted_simps [simp]: "s_nonces (counted G now t s) = s_nonces s" "s_usage (counted G now t s) = s_usage s"
  "s_revocations (counted G now t s) = s_revocations s"
  by (simp_all add: counted_def)

lemma commit_stage_allows:
  "u_allowed (fst (commit_stage G (normalizeEvaluatedAt now) now request t m ks s))"
  "u_evaluatedAt (fst (commit_stage G (normalizeEvaluatedAt now) now request t m ks s)) = normalizeEvaluatedAt now"
  "u_consumed (fst (commit_stage G (normalizeEvaluatedAt now) now request t m ks s)) \<longleftrightarrow>
     replay_registry (g_nonces G) request \<noteq> None"
  "snd (commit_stage G (normalizeEvaluatedAt now) now request t m ks s) = spent G request now t s"
  by (simp_all add: commit_stage_def spent_def Let_def split: prod.splits option.splits)

text \<open>The three outcomes: nothing happened, the attempt was counted, or the capability was consumed.\<close>

lemma consume_at_cases:
  obtains (rejected) d where "consume_at P clock G request now s = (d, s)" "refusal d"
        "\<nexists>action resource t. eligible P clock request now action resource t"
    | (attempted) d action resource t where "consume_at P clock G request now s = (d, counted G now t s)" "refusal d"
        "eligible P clock request now action resource t"
        "\<not> (unspent G request now t s \<and> under_limit (g_rateLimit G) (t_consent_ref t) now (s_limits s))"
    | (consumed) d action resource t where "consume_at P clock G request now s = (d, spent G request now t (counted G now t s))"
        "u_allowed d" "u_consumed d \<longleftrightarrow> replay_registry (g_nonces G) request \<noteq> None"
        "eligible P clock request now action resource t" "unspent G request now t s"
        "under_limit (g_rateLimit G) (t_consent_ref t) now (s_limits s)"
proof (cases "admit_stage P request")
  case (Inl e)
  then show thesis using rejected by (simp add: consume_at_def eligible_def)
next
  case (Inr x)
  obtain action resource t where x: "x = (action, resource, t)" by (cases x) auto
  note admit = Inr [unfolded x]
  let ?at = "normalizeEvaluatedAt now" and ?r = "replay_registry (g_nonces G) request \<noteq> None"
  let ?early = "bind_result (consent_stage P ?at t (cr_consent request) (token_metadata t) admitted_checks) (\<lambda>ks.
     bind_result (skew_stage P ?at now t (cr_consent request) (token_metadata t) ks) (\<lambda>ks.
     evaluation_stage P clock ?at request t action resource (token_metadata t) ?r ks))"
  show thesis
  proof (cases ?early)
    case (Inl d)
    then have "\<not> (\<exists>ks. ?early = Inr ks)" by simp
    then have "\<not> eligible P clock request now a r t'" for a r t'
      using admit unfolding early_stages_Inr eligible_def by auto
    then show thesis using rejected early_stages_Inl [OF Inl] Inl admit by (simp add: consume_at_def)
  next
    case (Inr ks)
    then have ok: "eligible P clock request now action resource t"
      using early_stages_Inr admit unfolding eligible_def by blast
    let ?rate = "rate_stage (g_rateLimit G) ?at now request (t_consent_ref t) (token_metadata t) ?r ks (s_limits s)"
    have l: "s\<lparr>s_limits := snd ?rate\<rparr> = counted G now t s" by (simp only: rate_stage_store counted_def)
    show thesis
    proof (cases "fst ?rate")
      case (Inl d)
      then have "consume_at P clock G request now s = (d, counted G now t s)"
        using admit Inr l by (cases ?rate) (simp add: consume_at_def)
      moreover have "\<not> (\<exists>m. fst ?rate = Inr m)" using Inl by simp
      then have "\<not> under_limit (g_rateLimit G) (t_consent_ref t) now (s_limits s)" unfolding rate_stage_passes .
      ultimately show thesis by (intro attempted [OF _ refusals(4) [OF Inl] ok]) simp_all
    next
      case (Inr m)
      then have lim: "under_limit (g_rateLimit G) (t_consent_ref t) now (s_limits s)"
        by (rule iffD1 [OF rate_stage_passes, OF exI])
      let ?late = "bind_result (revocation_stage (g_revocations G) ?at t m ?r (s_revocations (counted G now t s)) ks) (\<lambda>ks.
         bind_result (replay_stage (g_nonces G) ?at now request t m (s_nonces (counted G now t s)) ks) (\<lambda>ks.
         payment_stage ?at request m ?r ks))"
      have run: "consume_at P clock G request now s = (case ?late of Inl d \<Rightarrow> (d, counted G now t s)
          | Inr ks \<Rightarrow> commit_stage G ?at now request t m ks (counted G now t s))"
        using admit \<open>?early = Inr ks\<close> Inr l by (cases ?rate) (simp add: consume_at_def Let_def split: sum.split)
      show thesis
      proof (cases ?late)
        case (Inl d)
        then have "\<not> (\<exists>ks. ?late = Inr ks)" by simp
        then have "\<not> unspent G request now t s" unfolding late_stages_Inr unspent_def counted_simps .
        moreover have "consume_at P clock G request now s = (d, counted G now t s)" unfolding run Inl by simp
        ultimately show thesis by (intro attempted [OF _ late_stages_Inl [OF Inl] ok]) simp_all
      next
        case (Inr ks')
        then have "\<exists>ks. ?late = Inr ks" by blast
        then have unspent: "unspent G request now t s"
          unfolding late_stages_Inr unspent_def counted_simps .
        have d: "consume_at P clock G request now s =
            (fst (commit_stage G ?at now request t m ks' (counted G now t s)), spent G request now t (counted G now t s))"
          unfolding run Inr sum.case by (simp only: prod_eq_iff fst_conv snd_conv commit_stage_allows)
        show thesis by (rule consumed [OF d _ _ ok unspent lim]) (rule commit_stage_allows)+
      qed
    qed
  qed
qed

section \<open>What a consumption implies\<close>

lemma normalizeAction_Inr: "normalizeAction action = Inr a \<longleftrightarrow> a = to_lower (trim action) \<and> isCanonicalCapabilityAction a"
  by (auto simp: normalizeAction_def Let_def result_simps validateCapabilityActions_None isCanonicalCapabilityAction_def)

lemma admit_stage_Inr: "admit_stage P request = Inr (action, resource, t) \<longleftrightarrow>
    normalizeAction (cr_action request) = Inr action \<and> canonicalResource (cr_resource request) = Inr resource \<and>
    cr_capability request = Some t \<and> token_terms t \<and> sealed P t"
  by (auto simp: admit_stage_def result_simps validateCapabilityToken_None split: option.splits)

lemma canonical_action_trim: "isCanonicalCapabilityAction a \<Longrightarrow> trim a = a"
proof -
  assume "isCanonicalCapabilityAction a"
  then have "\<forall>c \<in> set a. lower_alpha c" using canonical_action_letters by (auto simp: isCanonicalCapabilityAction_def)
  then have "\<forall>c \<in> set a. \<not> js_space c" by (auto simp: js_space_def lower_alpha_def between_def)
  then show "trim a = a" by (rule trim_no_space)
qed

lemma eligible_facts:
  assumes "eligible P clock request now action resource t"
  shows "cr_capability request = Some t" and "token_terms t" and "sealed P t"
    and "canonicalResource (cr_resource request) = Inr resource" and "resource \<in> set (t_scope t)"
    and "action = to_lower (trim (cr_action request))" and "action \<in> set (t_permissions t)"
    and "fresh_times P now t (cr_consent request)"
    and "\<forall>c. cr_consent request = Some c \<longrightarrow> validateConsentObject P c = None \<and> bound_to t c"
proof -
  show t: "cr_capability request = Some t" "token_terms t" "sealed P t"
    "canonicalResource (cr_resource request) = Inr resource" "fresh_times P now t (cr_consent request)"
    and a: "action = to_lower (trim (cr_action request))"
    using assms by (simp_all add: eligible_def admit_stage_Inr normalizeAction_Inr)
  have can: "isCanonicalCapabilityAction action" using assms by (auto simp: eligible_def admit_stage_Inr normalizeAction_Inr)
  have "d_allowed (evaluateCapabilityAccess P clock
      (buildEvaluationRequest request t action resource (normalizeEvaluatedAt now)))"
    using assms by (simp add: eligible_def)
  from allowed_facts [OF this] show "resource \<in> set (t_scope t)" and "action \<in> set (t_permissions t)"
    using canonical_action_trim [OF can] by (auto simp: buildEvaluationRequest_def normalizeResource_def)
  have "scope_ok (t_scope t)" using t(2) by (simp add: token_terms_def)
  then show "\<forall>c. cr_consent request = Some c \<longrightarrow> validateConsentObject P c = None \<and> bound_to t c"
    using assms by (auto simp: eligible_def consent_accepted_def verifyCapabilityConsentBinding_None)
qed

lemma consumeCapabilityAccess_Inr: "consumeCapabilityAccess P clock G request s = Inr r \<longleftrightarrow>
    (\<exists>now. normalizeNow P clock (cr_now request) = Inr now \<and> r = consume_at P clock G request now s)"
  by (auto simp: consumeCapabilityAccess_def result_simps)

lemma refusal_allowed: "refusal d \<Longrightarrow> \<not> u_allowed d" and refusal_consumed: "refusal d \<Longrightarrow> \<not> u_consumed d"
  by (simp_all add: refusal_def)

lemma consumed_allowed:
  assumes "consumeCapabilityAccess P clock G request s = Inr (d, s')" and "u_consumed d"
  shows "u_allowed d"
proof -
  obtain now where now: "(d, s') = consume_at P clock G request now s"
    using assms(1) by (auto simp: consumeCapabilityAccess_Inr)
  show ?thesis
    by (rule consume_at_cases [of P clock G request now s]) (use now assms(2) refusal_consumed in auto)
qed

lemma consumed_obtain:
  assumes "consumeCapabilityAccess P clock G request s = Inr (d, s')" and "u_allowed d"
  obtains now action resource t where "normalizeNow P clock (cr_now request) = Inr now"
    "eligible P clock request now action resource t" "unspent G request now t s"
    "under_limit (g_rateLimit G) (t_consent_ref t) now (s_limits s)"
    "s' = spent G request now t (counted G now t s)"
    "u_consumed d \<longleftrightarrow> replay_registry (g_nonces G) request \<noteq> None"
proof -
  obtain now where now: "normalizeNow P clock (cr_now request) = Inr now" "(d, s') = consume_at P clock G request now s"
    using assms(1) by (auto simp: consumeCapabilityAccess_Inr)
  show thesis
    by (rule consume_at_cases [of P clock G request now s])
      (use now assms(2) refusal_allowed that [of now] in auto)
qed

text \<open>
  C2: a consumption that is allowed presents a valid token that permits the action on the resource;
  a supplied consent is valid and the token a restriction of it, paid for when it is priced; the
  token is not revoked; and with a nonce registry it was not presented before and is recorded now.
\<close>

theorem consumed_access_is_sound:
  assumes "consumeCapabilityAccess P clock G request s = Inr (d, s')" and "u_allowed d"
  shows "\<exists>t e now. cr_capability request = Some t \<and> normalizeNow P clock (cr_now request) = Inr now \<and>
    token_terms t \<and> sealed P t \<and> to_lower (trim (cr_action request)) \<in> set (t_permissions t) \<and>
    canonicalResource (cr_resource request) = Inr e \<and> e \<in> set (t_scope t) \<and>
    (\<forall>c. cr_consent request = Some c \<longrightarrow> validateConsentObject P c = None \<and> bound_to t c \<and>
      (c_pricing c \<noteq> None \<longrightarrow> cr_paid request)) \<and>
    \<not> isRevoked (g_revocations G) (t_capability_hash t) (s_revocations s) \<and>
    (\<forall>N. g_nonces G = Some N \<and> cr_consume request \<noteq> Some False \<longrightarrow>
      \<not> hasSeen N (s_nonces s) (t_token_id t) (Some now) \<and>
      s_nonces s' = cleanup N (Some now) (markSeen N (t_token_id t) (t_expires_at t) (s_nonces s)))"
proof (rule consumed_obtain [OF assms])
  fix now action resource t
  assume ok: "normalizeNow P clock (cr_now request) = Inr now" "eligible P clock request now action resource t"
    "unspent G request now t s" "s' = spent G request now t (counted G now t s)"
  note t = eligible_facts [OF ok(2)]
  have "\<forall>N. g_nonces G = Some N \<and> cr_consume request \<noteq> Some False \<longrightarrow>
      \<not> hasSeen N (s_nonces s) (t_token_id t) (Some now) \<and>
      s_nonces s' = cleanup N (Some now) (markSeen N (t_token_id t) (t_expires_at t) (s_nonces s))"
    using ok(3) by (auto simp: ok(4) unspent_def unseen_def replay_registry_def spent_def)
  then show ?thesis using t ok(1,3) by (auto simp: unspent_def paid_for_def)
qed

text \<open>
  only short-lived capabilities of fresh consents can be consumed: the token was issued, and
  expires, within five minutes of the moment of consumption, so that it lives ten minutes at most;
  a supplied consent was issued within five minutes as well.
\<close>

theorem consumed_token_is_short_lived:
  assumes "consumeCapabilityAccess P clock G request s = Inr (d, s')" and "u_allowed d"
  shows "\<exists>t now issued expires. cr_capability request = Some t \<and> normalizeNow P clock (cr_now request) = Inr now \<and>
    date_of P (t_issued_at t) = Some issued \<and> date_of P (t_expires_at t) = Some expires \<and>
    \<bar>issued - now\<bar> \<le> 300000 \<and> \<bar>expires - now\<bar> \<le> 300000 \<and> expires - issued \<le> 600000 \<and>
    (\<forall>c. cr_consent request = Some c \<longrightarrow> near P now (c_issued_at c))"
proof (rule consumed_obtain [OF assms])
  fix now action resource t
  assume ok: "normalizeNow P clock (cr_now request) = Inr now" "eligible P clock request now action resource t"
  have "fresh_times P now t (cr_consent request)" "cr_capability request = Some t"
    using eligible_facts [OF ok(2)] by blast+
  then obtain i e where "date_of P (t_issued_at t) = Some i" "\<bar>i - now\<bar> \<le> 300000"
      "date_of P (t_expires_at t) = Some e" "\<bar>e - now\<bar> \<le> 300000"
      "\<forall>c. cr_consent request = Some c \<longrightarrow> near P now (c_issued_at c)"
    by (auto simp: fresh_times_def near_def)
  moreover from this have "e - i \<le> 600000" by linarith
  ultimately show ?thesis using ok(1) \<open>cr_capability request = Some t\<close> by blast
qed

text \<open>
  C37: a refused consumption leaves the nonces, the revocations and the record of use as they were;
  at most the attempt is counted against the rate limit of the token's consent.
\<close>

theorem refused_consumption_changes_nothing:
  assumes "consumeCapabilityAccess P clock G request s = Inr (d, s')" and "\<not> u_allowed d"
  shows "\<not> u_consumed d \<and> u_decision d = ''deny'' \<and>
    (s' = s \<or> (\<exists>t now. cr_capability request = Some t \<and> normalizeNow P clock (cr_now request) = Inr now \<and>
       s' = s\<lparr>s_limits := count_attempt (g_rateLimit G) (t_consent_ref t) now (s_limits s)\<rparr>))"
proof -
  obtain now where now: "normalizeNow P clock (cr_now request) = Inr now" "(d, s') = consume_at P clock G request now s"
    using assms(1) by (auto simp: consumeCapabilityAccess_Inr)
  show ?thesis
  proof (rule consume_at_cases [of P clock G request now s])
    fix d1 action resource t
    assume c: "consume_at P clock G request now s = (d1, counted G now t s)" "refusal d1"
      "eligible P clock request now action resource t"
    then show ?thesis using now eligible_facts(1) [OF c(3)] by (auto simp: refusal_def counted_def)
  qed (use now assms(2) in \<open>auto simp: refusal_def\<close>)
qed

text \<open>The converse: an eligible, unspent request under the limit is consumed.\<close>

lemma consume_at_allows:
  assumes "eligible P clock request now action resource t" and "unspent G request now t s"
    and "under_limit (g_rateLimit G) (t_consent_ref t) now (s_limits s)"
  shows "\<exists>d. consume_at P clock G request now s = (d, spent G request now t (counted G now t s)) \<and> u_allowed d \<and>
    (u_consumed d \<longleftrightarrow> replay_registry (g_nonces G) request \<noteq> None)"
proof -
  have same: "t' = t" if "eligible P clock request now a r t'" for a r t'
    using that assms(1) by (simp add: eligible_def)
  show ?thesis
    by (rule consume_at_cases [of P clock G request now s]) (use assms same in blast)+
qed

section \<open>A sample consumption\<close>

definition short_raw :: raw_capability where
  "short_raw = sample_raw\<lparr>t_expires_at := ''2025-01-15T14:34:00Z''\<rparr>"

definition sample_consumption :: consumption_request where
  "sample_consumption = \<lparr>cr_capability = Some short_raw, cr_consent = Some sample_sealed_consent, cr_action = '' Read'',
     cr_resource = ResEntry \<lparr>se_type = ''field'', se_ref = sample_ref\<rparr>, cr_marketMakerId = Some ''mm-1'',
     cr_now = Some (NowDate (Some 1736951400000)), cr_usageContext = None, cr_paid = True, cr_policyContext = None,
     cr_marketMakerRegistry = Some (registry_lookup sample_records), cr_usageHook = None, cr_policyHook = None,
     cr_consume = None, cr_requireReplayProtection = True\<rparr>"

type_synonym memory_registries = "(string set, string set, usage_states, rate_states) consumption_registries"
type_synonym memory_stores = "(string set, string set, usage_states, rate_states) consumption_stores"

definition sample_registries :: memory_registries where
  "sample_registries = \<lparr>g_nonces = Some InMemoryNonceRegistry, g_revocations = InMemoryRevocationRegistry,
     g_usage = Some InMemoryConsentUsageRegistry,
     g_rateLimit = Some (InMemoryRateLimitRegistry zero_platform, \<lparr>maxAttempts = Num False 3 0, windowMs = Num False 6 4\<rparr>)\<rparr>"

definition empty_stores :: memory_stores where
  "empty_stores = \<lparr>s_nonces = {}, s_revocations = {}, s_usage = Map.empty, s_limits = Map.empty\<rparr>"

lemma short_stamp: "stamp_ok ''2025-01-15T14:34:00Z''" "''2025-01-15T14:30:00Z'' < ''2025-01-15T14:34:00Z''"
  unfolding stamp_ok_def by code_simp+

lemma short_date: "date_of zero_platform ''2025-01-15T14:34:00Z'' = Some 1736951640000"
proof -
  let ?f = "(2025, 1, 15, 14, 34, 0) :: stamp"
  have f: "iso_string ?f = ''2025-01-15T14:34:00Z''" by (simp add: pad_numeral digit_numerals)
  have "valid_stamp ?f" and s: "stamp_seconds ?f = 1736951640"
    by (simp_all add: calendar_date_def days_in_month_def make_day_def day_from_year_def month_start_def leap_year_def month_starts_def)
  then have "iso_parse (iso_string ?f) = Some (stamp_seconds ?f * 1000)" by (intro iso_parse_stamp) simp_all
  then show ?thesis unfolding f s by (simp add: date_of_def date_parse_def)
qed

lemma short_raw_simps [simp]:
  "t_permissions short_raw = [''read'']" "t_scope short_raw = sample_scope" "t_issued_at short_raw = ''2025-01-15T14:30:00Z''"
  "t_expires_at short_raw = ''2025-01-15T14:34:00Z''" "t_not_before short_raw = None" "t_token_id short_raw = replicate 64 (CHR ''0'')"
  "t_consent_ref short_raw = replicate 64 (CHR ''0'')" "t_capability_hash short_raw = replicate 64 (CHR ''0'')"
  "t_marketMakerId short_raw = Some ''mm-1''" "t_subject short_raw = ''did:key:alice''" "t_grantee short_raw = ''did:key:bob''"
  "raw_status short_raw = Some ''Active''" "raw_startsAt short_raw = None" "raw_market_maker_id short_raw = None"
  by (simp_all add: short_raw_def)

lemma short_raw_valid: "token_terms short_raw" "sealed zero_platform short_raw"
proof -
  show "token_terms short_raw"
    using sample_raw_valid(1) short_stamp by (auto simp: short_raw_def token_terms_def)
  show "sealed zero_platform short_raw"
    using canonicalizeCapabilityPayload_total [of zero_platform short_raw] by (auto simp: sealed_def hash_ok_def)
qed

lemma sample_consent_terms:
  "c_action sample_sealed_consent = ''grant''" "c_consent_hash sample_sealed_consent = replicate 64 (CHR ''0'')"
  "c_subject sample_sealed_consent = ''did:key:alice''" "c_grantee sample_sealed_consent = ''did:key:bob''"
  "c_marketMakerId sample_sealed_consent = Some ''mm-1''" "c_issued_at sample_sealed_consent = ''2025-01-15T14:30:00Z''"
  "c_expires_at sample_sealed_consent = Some ''2025-06-15T14:30:00Z''" "c_scope sample_sealed_consent = sample_scope"
  "c_permissions sample_sealed_consent = [''read'', ''share'']"
  by (simp_all add: sample_sealed_consent_def sample_payload_def consent_draft_def sample_options_def default_consent_options_def)

lemma short_allowed: "d_allowed (evaluateCapabilityAccess zero_platform clock
    (buildEvaluationRequest sample_consumption short_raw ''read'' \<lparr>se_type = ''field'', se_ref = sample_ref\<rparr> ''2025-01-15T14:30:00Z''))"
    (is "d_allowed (evaluateCapabilityAccess _ _ ?input)")
proof -
  let ?c = "q_capability sample_normalized\<lparr>n_raw := short_raw, n_expiresAt := ''2025-01-15T14:34:00Z''\<rparr>"
  let ?q = "sample_normalized\<lparr>q_capability := ?c\<rparr>"
  have active: "to_lower ''Active'' = ''active''" by code_simp
  have cap: "normalizeCapability zero_platform (Some short_raw) = Inr ?c"
    unfolding normalizeCapability_Inr using short_raw_valid active
    by (simp add: sample_normalized_def known_statuses_def)
  have at: "normalizeEvaluationTime zero_platform clock (r_now ?input) = Inr ''2025-01-15T14:30:00Z''"
    by (simp add: normalizeEvaluationTime_def buildEvaluationRequest_def to_date_def sample_dates sample_date as_input_error_def)
  have read: "isCanonicalCapabilityAction ''read''" by (simp add: isCanonicalCapabilityAction_def canonicalCapabilityActions_def)
  have trim: "trim ''read'' = ''read''" by (rule canonical_action_trim [OF read])
  have "normalizeCapabilityAccessRequest zero_platform ?input ''2025-01-15T14:30:00Z'' = Inr ?q"
    unfolding normalizeCapabilityAccessRequest_def result_simps throws_simps
    using short_stamp sample_consent_valid cap read trim
    by (simp add: buildEvaluationRequest_def sample_consumption_def rethrow_def validateIsoTimestamp_def
        stamp_ok_def first_throw.simps sample_sealed_consent_def validateCapabilityAction_None normalizeResource_def)
      (simp add: sample_normalized_def sample_sealed_consent_def)
  then have "normalized zero_platform clock ?input ?q" using at by (auto simp: normalized_def)
  moreover have "authorized zero_platform ?input ?q"
  proof -
    have "in_time zero_platform ?q"
      by (simp add: in_time_def sample_normalized_def parseTimestampOrNull_def sample_consent_terms sample_dates short_date
          date_le_def date_gt_def)
    moreover have "market_maker_cleared (Some (registry_lookup sample_records)) ?q ''mm-1''"
      by (simp add: market_maker_cleared_def registry_lookup_def sample_records_def MarketMakerRegistry_def mm_exists_def
          mm_getStatus_def sample_market_maker_def sample_normalized_def)
    ultimately show ?thesis
      by (simp add: authorized_def buildEvaluationRequest_def sample_consumption_def consent_bound_def sample_consent_terms hook_allows_def)
        (simp add: sample_normalized_def sample_consent_terms sample_scope_def)
  qed
  ultimately show ?thesis using evaluate_allowed by blast
qed

lemma sample_eligible:
  "eligible zero_platform clock sample_consumption 1736951400000 ''read'' \<lparr>se_type = ''field'', se_ref = sample_ref\<rparr> short_raw"
proof -
  have at: "normalizeEvaluatedAt 1736951400000 = ''2025-01-15T14:30:00Z''" by (simp add: normalizeEvaluatedAt_def sample_date)
  have "to_lower (trim '' Read'') = ''read''" by code_simp
  then have action: "normalizeAction (cr_action sample_consumption) = Inr ''read''"
    by (simp add: normalizeAction_Inr sample_consumption_def isCanonicalCapabilityAction_def canonicalCapabilityActions_def)
  have ref: "rx_test HASH_HEX_PATTERN sample_ref" and trims: "trim ''field'' = ''field''" "trim sample_ref = sample_ref"
    using sample_scope_ok by (simp_all add: scope_ok_def sample_scope_def, code_simp, simp add: trim_no_space sample_ref_def js_space_def)
  then have resource: "canonicalResource (cr_resource sample_consumption) = Inr \<lparr>se_type = ''field'', se_ref = sample_ref\<rparr>"
    unfolding canonicalResource_def result_simps throws_simps by (simp add: sample_consumption_def VALID_SCOPE_TYPES_def)
  have scope: "scope_ok (t_scope short_raw)" using sample_scope_ok by simp
  have "consent_accepted zero_platform short_raw (cr_consent sample_consumption)"
    using sample_consent_valid verifyCapabilityConsentBinding_None [OF scope]
    by (simp add: consent_accepted_def sample_consumption_def bound_to_def sample_consent_terms)
      (simp add: sample_sealed_consent_def)
  moreover have "fresh_times zero_platform 1736951400000 short_raw (cr_consent sample_consumption)"
    by (simp add: fresh_times_def near_def sample_dates short_date sample_consumption_def sample_consent_terms)
  ultimately show ?thesis
    using action resource short_allowed [of clock] short_raw_valid
    by (simp add: eligible_def admit_stage_Inr at) (simp add: sample_consumption_def)
qed

lemma sample_rate_config: "validateRateLimitConfig \<lparr>maxAttempts = Num False 3 0, windowMs = Num False 6 4\<rparr> = None"
  by (simp add: validateRateLimitConfig_def throws_simps)

lemma sample_consumed:
  obtains d s' where "consumeCapabilityAccess zero_platform clock sample_registries sample_consumption empty_stores = Inr (d, s')"
    "u_allowed d" "u_consumed d"
proof -
  have now: "normalizeNow zero_platform clock (cr_now sample_consumption) = Inr 1736951400000"
    by (simp add: normalizeNow_def sample_consumption_def to_date_def)
  have unspent: "unspent sample_registries sample_consumption 1736951400000 short_raw empty_stores"
    by (simp add: unspent_def unseen_def replay_registry_def sample_registries_def sample_consumption_def paid_for_def
        empty_stores_def InMemoryRevocationRegistry_def InMemoryNonceRegistry_def isRevoked_def)
  have limit: "under_limit (g_rateLimit sample_registries) k now (s_limits empty_stores)" for k now
    using sample_rate_config
    by (simp add: under_limit_def sample_registries_def empty_stores_def InMemoryRateLimitRegistry_def rate_isLimited_def)
  obtain d where "consume_at zero_platform clock sample_registries sample_consumption 1736951400000 empty_stores =
      (d, spent sample_registries sample_consumption 1736951400000 short_raw
         (counted sample_registries 1736951400000 short_raw empty_stores))" "u_allowed d" "u_consumed d"
    using consume_at_allows [OF sample_eligible unspent limit, of clock]
    by (auto simp: replay_registry_def sample_registries_def sample_consumption_def)
  then show thesis using that now by (simp add: consumeCapabilityAccess_Inr)
qed

lemma consumed_access_is_sound_witness:
  "\<exists>t e now. cr_capability sample_consumption = Some t \<and> normalizeNow zero_platform 0 (cr_now sample_consumption) = Inr now \<and>
    token_terms t \<and> sealed zero_platform t \<and> to_lower (trim (cr_action sample_consumption)) \<in> set (t_permissions t) \<and>
    canonicalResource (cr_resource sample_consumption) = Inr e \<and> e \<in> set (t_scope t)"
  by (rule sample_consumed [of 0]) (use consumed_access_is_sound in blast)

lemma consumed_token_is_short_lived_witness:
  "\<exists>t now issued expires. cr_capability sample_consumption = Some t \<and>
    normalizeNow zero_platform 0 (cr_now sample_consumption) = Inr now \<and>
    date_of zero_platform (t_issued_at t) = Some issued \<and> date_of zero_platform (t_expires_at t) = Some expires \<and>
    expires - issued \<le> 600000"
  by (rule sample_consumed [of 0]) (use consumed_token_is_short_lived in blast)

section \<open>A token is consumed once\<close>

text \<open>
  The nonces after any further consumptions that use the registry \<open>N\<close> or none, whatever their other
  registries are.
\<close>

inductive later_stores ::
  "platform \<Rightarrow> 'n nonce_registry_ops \<Rightarrow> ('n, 'r, 'u, 'l) consumption_stores \<Rightarrow> ('n, 'r, 'u, 'l) consumption_stores \<Rightarrow> bool"
  for P N where
  same_stores: "later_stores P N s s"
| more_consumptions: "later_stores P N s s' \<Longrightarrow> g_nonces G \<in> {None, Some N} \<Longrightarrow>
    consumeCapabilityAccess P clock G request s' = Inr (d, s'') \<Longrightarrow> later_stores P N s s''"

context nonce_registry
begin

lemma consumption_keeps_seen:
  assumes "consumeCapabilityAccess P clock G request s = Inr (d, s')" and "g_nonces G \<in> {None, Some N}"
    and "hasSeen N (s_nonces s) i now'"
  shows "hasSeen N (s_nonces s') i now'"
proof -
  obtain now where now: "(d, s') = consume_at P clock G request now s"
    using assms(1) by (auto simp: consumeCapabilityAccess_Inr)
  have "hasSeen N (s_nonces (spent G request now t (counted G now t s))) i now'" for t
    using assms(2,3) by (auto simp: spent_def replay_registry_def seen_mark_cleanup split: option.splits)
  then show ?thesis
    by (cases rule: consume_at_cases [of P clock G request now s]) (use now assms(3) in auto)
qed

lemma later_stores_seen: "later_stores P N s s' \<Longrightarrow> hasSeen N (s_nonces s) i now \<Longrightarrow> hasSeen N (s_nonces s') i now"
  by (induction rule: later_stores.induct) (auto intro: consumption_keeps_seen)

lemma consumed_once:
  assumes "consumeCapabilityAccess P clock G request s = Inr (d, s1)" and "u_consumed d" and "g_nonces G = Some N"
    and "cr_capability request = Some t" and "later_stores P N s1 s2"
    and "cr_capability request' = Some t'" and "t_token_id t' = t_token_id t"
    and "g_nonces G' = Some N" and "cr_consume request' \<noteq> Some False"
    and "consumeCapabilityAccess P clock' G' request' s2 = Inr (d', s3)"
  shows "\<not> u_allowed d'"
proof
  assume allowed: "u_allowed d'"
  have "u_allowed d"
    by (rule consumed_allowed [OF assms(1,2)])
  have seen: "hasSeen N (s_nonces s1) (t_token_id t) now'" for now'
  proof (rule consumed_obtain [OF assms(1) \<open>u_allowed d\<close>])
    fix now action resource u
    assume u: "eligible P clock request now action resource u" "s1 = spent G request now u (counted G now u s)"
      "u_consumed d \<longleftrightarrow> replay_registry (g_nonces G) request \<noteq> None"
    have "u = t" using eligible_facts(1) [OF u(1)] assms(4) by simp
    then show ?thesis
      using u(2,3) assms(2,3) by (auto simp: spent_def seen_mark_cleanup replay_registry_def split: if_splits)
  qed
  have "hasSeen N (s_nonces s2) (t_token_id t') now'" for now'
    using later_stores_seen [OF assms(5) seen] assms(7) by simp
  moreover have "\<exists>now'. \<not> hasSeen N (s_nonces s2) (t_token_id t') now'"
  proof (rule consumed_obtain [OF assms(10) allowed])
    fix now action resource u
    assume u: "eligible P clock' request' now action resource u" "unspent G' request' now u s2"
    have "u = t'" using eligible_facts(1) [OF u(1)] assms(6) by simp
    then show ?thesis using u(2) assms(8,9) by (auto simp: unspent_def unseen_def replay_registry_def)
  qed
  ultimately show False by blast
qed

end

text \<open>
  C3: a capability is consumed at most once.  After a consumption that reports \<open>consumed\<close>, no request
  with a token of that identifier is allowed under the same nonce registry (unless it asks not to
  consume), whatever consumptions happened in between.
\<close>

theorem capability_consumed_once:
  assumes "consumeCapabilityAccess P clock G request s = Inr (d, s1)" and "u_consumed d"
    and "g_nonces G = Some InMemoryNonceRegistry" and "cr_capability request = Some t"
    and "later_stores P InMemoryNonceRegistry s1 s2"
    and "cr_capability request' = Some t'" and "t_token_id t' = t_token_id t"
    and "g_nonces G' = Some InMemoryNonceRegistry" and "cr_consume request' \<noteq> Some False"
    and "consumeCapabilityAccess P clock' G' request' s2 = Inr (d', s3)"
  shows "\<not> u_allowed d'"
  using assms by (rule memory_nonces.consumed_once)

lemma capability_consumed_once_witness:
  "\<exists>d s1 d' s2. consumeCapabilityAccess zero_platform 0 sample_registries sample_consumption empty_stores = Inr (d, s1) \<and>
     u_allowed d \<and> consumeCapabilityAccess zero_platform 0 sample_registries sample_consumption s1 = Inr (d', s2) \<and>
     \<not> u_allowed d'"
proof (rule sample_consumed [of 0])
  fix d s1 assume first: "consumeCapabilityAccess zero_platform 0 sample_registries sample_consumption empty_stores = Inr (d, s1)"
    "u_allowed d" "u_consumed d"
  obtain d' s2 where again: "consumeCapabilityAccess zero_platform 0 sample_registries sample_consumption s1 = Inr (d', s2)"
    by (cases "consume_at zero_platform 0 sample_registries sample_consumption 1736951400000 s1")
      (auto simp: consumeCapabilityAccess_Inr normalizeNow_def sample_consumption_def to_date_def)
  have t: "g_nonces sample_registries = Some InMemoryNonceRegistry" "cr_capability sample_consumption = Some short_raw"
    "cr_consume sample_consumption \<noteq> Some False"
    by (simp_all add: sample_registries_def sample_consumption_def)
  have "\<not> u_allowed d'"
    by (rule capability_consumed_once [OF first(1,3) t(1,2) same_stores t(2) refl t(1,3) again])
  then show ?thesis using first(1,2) again by blast
qed

lemma no_capability_refused:
  assumes "cr_capability request = None" and "consumeCapabilityAccess P clock G request s = Inr (d, s')"
  shows "\<not> u_allowed d"
proof
  assume "u_allowed d"
  show False by (rule consumed_obtain [OF assms(2) \<open>u_allowed d\<close>]) (use assms(1) eligible_facts(1) in fastforce)
qed

lemma refused_consumption_changes_nothing_witness:
  "\<exists>d s'. consumeCapabilityAccess zero_platform 0 sample_registries (sample_consumption\<lparr>cr_capability := None\<rparr>) empty_stores =
     Inr (d, s') \<and> \<not> u_consumed d \<and> u_decision d = ''deny'' \<and> s' = empty_stores"
proof -
  let ?request = "sample_consumption\<lparr>cr_capability := None\<rparr>"
  obtain d s' where r: "consumeCapabilityAccess zero_platform 0 sample_registries ?request empty_stores = Inr (d, s')"
    by (cases "consume_at zero_platform 0 sample_registries ?request 1736951400000 empty_stores")
      (auto simp: consumeCapabilityAccess_Inr normalizeNow_def sample_consumption_def to_date_def)
  have "\<not> u_allowed d" by (rule no_capability_refused [OF _ r]) simp
  then show ?thesis using refused_consumption_changes_nothing [OF r] r by auto
qed

section \<open>The record of use\<close>

definition uses :: "usage_states \<Rightarrow> string \<Rightarrow> nat" where
  "uses states r = (case states r of None \<Rightarrow> 0 | Some u \<Rightarrow> us_usageCount u)"

text \<open>Requests one after the other, under the same registries.\<close>

fun consume_all ::
  "platform \<Rightarrow> int \<Rightarrow> ('n, 'r, 'u, 'l) consumption_registries \<Rightarrow> consumption_request list \<Rightarrow>
   ('n, 'r, 'u, 'l) consumption_stores \<Rightarrow> (consumption_decision list \<times> ('n, 'r, 'u, 'l) consumption_stores) result" where
  "consume_all P clock G [] s = Inr ([], s)"
| "consume_all P clock G (r # rs) s = bind_result (consumeCapabilityAccess P clock G r s) (\<lambda>(d, s).
     bind_result (consume_all P clock G rs s) (\<lambda>(ds, s). Inr (d # ds, s)))"

definition counts_for :: "string \<Rightarrow> consumption_request \<times> consumption_decision \<Rightarrow> bool" where
  "counts_for r x \<longleftrightarrow> u_allowed (snd x) \<and> map_option t_consent_ref (cr_capability (fst x)) = Some r"

lemma consumption_uses:
  assumes "consumeCapabilityAccess P clock G request s = Inr (d, s')" and "g_usage G = Some InMemoryConsentUsageRegistry"
  shows "uses (s_usage s') r = uses (s_usage s) r + (if counts_for r (request, d) then 1 else 0)"
proof (cases "u_allowed d")
  case False
  then have "s_usage s' = s_usage s"
  proof -
    obtain now where now: "(d, s') = consume_at P clock G request now s"
      using assms(1) by (auto simp: consumeCapabilityAccess_Inr)
    show ?thesis by (rule consume_at_cases [of P clock G request now s]) (use now False in auto)
  qed
  then show ?thesis using False by (simp add: counts_for_def)
next
  case True
  show ?thesis
  proof (rule consumed_obtain [OF assms(1) True])
    fix now action resource t
    assume t: "eligible P clock request now action resource t" "s' = spent G request now t (counted G now t s)"
    have c: "cr_capability request = Some t" and "hash_ok (t_consent_ref t)"
      using eligible_facts(1,2) [OF t(1)] by (simp_all add: token_terms_def)
    then have "t_consent_ref t \<noteq> []" by (auto simp: hash_ok_def hash_hex_iff)
    then show ?thesis
      using True c assms(2)
      by (simp add: t(2) spent_def recordUsage_def InMemoryConsentUsageRegistry_def usage_record_def uses_def counts_for_def Let_def
          split: option.splits)
  qed
qed

text \<open>
  The usage count of a consent is the number of consumptions allowed for it, over any sequence of
  requests.
\<close>

theorem usage_counts_allowed_consumptions:
  assumes "consume_all P clock G requests s = Inr (decisions, s')" and "g_usage G = Some InMemoryConsentUsageRegistry"
  shows "uses (s_usage s') r = uses (s_usage s) r + length (filter (counts_for r) (zip requests decisions))"
  using assms(1)
proof (induction requests arbitrary: s decisions)
  case (Cons q requests)
  obtain d s1 ds where step: "consumeCapabilityAccess P clock G q s = Inr (d, s1)"
    and rest: "consume_all P clock G requests s1 = Inr (ds, s')" and ds: "decisions = d # ds"
    using Cons.prems by (auto simp: result_simps)
  show ?case using consumption_uses [OF step assms(2), of r] Cons.IH [OF rest] by (simp add: ds)
qed simp

lemma usage_counts_allowed_consumptions_witness:
  "\<exists>d s'. consume_all zero_platform 0 sample_registries [sample_consumption] empty_stores = Inr ([d], s') \<and>
     uses (s_usage s') (replicate 64 (CHR ''0'')) = 1"
proof (rule sample_consumed [of 0])
  fix d s' assume r: "consumeCapabilityAccess zero_platform 0 sample_registries sample_consumption empty_stores = Inr (d, s')"
    "u_allowed d"
  have run: "consume_all zero_platform 0 sample_registries [sample_consumption] empty_stores = Inr ([d], s')"
    using r(1) by simp
  have "counts_for (replicate 64 (CHR ''0'')) (sample_consumption, d)"
    using r(2) by (simp add: counts_for_def sample_consumption_def)
  then show ?thesis
    using usage_counts_allowed_consumptions [OF run, of "replicate 64 (CHR ''0'')"] run
    by (simp add: sample_registries_def uses_def empty_stores_def)
qed

section \<open>Rate limits\<close>

text \<open>The attempts on one key at the given times: which of them pass.\<close>

fun rate_attempts :: "platform \<Rightarrow> string \<Rightarrow> rate_config \<Rightarrow> int list \<Rightarrow> rate_states \<Rightarrow> bool list" where
  "rate_attempts P key config [] states = []"
| "rate_attempts P key config (t # ts) states =
     (if rate_isLimited P states key t config then False # rate_attempts P key config ts states
      else True # rate_attempts P key config ts (snd (rate_increment P key t config states)))"

lemma stamp_of_now:
  assumes "four_digit_year now"
  shows "date_of P (normalizeEvaluatedAt now) = Some (now div 1000 * 1000)"
  using iso_seconds_parse [OF assms] by (auto simp: normalizeEvaluatedAt_def date_of_def date_parse_def)

lemma attempts_in_window:
  assumes "states key = Some s" and "date_of P (rl_windowStartedAt s) = Some w"
    and "\<forall>t \<in> set ts. t - w < int_of_num (windowMs config)"
  shows "length (filter (\<lambda>b. b) (rate_attempts P key config ts states)) =
    min (length ts) (nat (int_of_num (maxAttempts config)) - rl_count s)"
  using assms
proof (induction ts arbitrary: states s)
  case (Cons t ts)
  have over: "\<not> window_over P t config s" "within_window P t config s"
    using Cons.prems by (simp_all add: window_over_def within_window_def)
  show ?case
  proof (cases "int_of_num (maxAttempts config) \<le> int (rl_count s)")
    case True
    then have "rate_isLimited P states key t config" using Cons.prems(1) over by (simp add: rate_isLimited_def)
    then show ?thesis using Cons.IH [of states s] Cons.prems True by simp
  next
    case False
    let ?s = "\<lparr>rl_key = key, rl_count = rl_count s + 1, rl_windowStartedAt = rl_windowStartedAt s\<rparr>"
    have "\<not> rate_isLimited P states key t config" using Cons.prems(1) over False by (simp add: rate_isLimited_def)
    moreover have "snd (rate_increment P key t config states) = states(key \<mapsto> ?s)"
      using Cons.prems(1) over by (simp add: rate_increment_def Let_def)
    moreover have "length (filter (\<lambda>b. b) (rate_attempts P key config ts (states(key \<mapsto> ?s)))) =
        min (length ts) (nat (int_of_num (maxAttempts config)) - rl_count ?s)"
      using Cons.prems by (intro Cons.IH) simp_all
    moreover have "Suc (min (length ts) (n - Suc k)) = min (Suc (length ts)) (n - k)" if "k < n" for n k
      using that by linarith
    moreover have "rl_count s < nat (int_of_num (maxAttempts config))" using False by linarith
    ultimately show ?thesis by simp
  qed
qed simp

text \<open>
  the limiter lets through exactly the first \<open>maxAttempts\<close> attempts of a window.  The window
  opens with the first attempt, at the beginning of its second, and is \<open>windowMs\<close> long.
\<close>

theorem rate_limit_bounds_window:
  assumes "validateRateLimitConfig config = None" and "four_digit_year t" and "states key = None"
    and "\<forall>u \<in> set ts. u < t div 1000 * 1000 + int_of_num (windowMs config)"
  shows "length (filter (\<lambda>b. b) (rate_attempts P key config (t # ts) states)) =
    min (Suc (length ts)) (nat (int_of_num (maxAttempts config)))"
proof -
  have pos: "0 < int_of_num (maxAttempts config)"
  proof (cases "maxAttempts config")
    case (Num neg m e)
    have "is_integer (maxAttempts config)" "num_positive (maxAttempts config)"
      using assms(1) by (auto simp: validateRateLimitConfig_def throws_simps)
    then show ?thesis using Num by (cases "0 \<le> e") (auto simp: pos_imp_zdiv_pos_iff dvd_imp_le simp flip: zdiv_int)
  qed (use assms(1) in \<open>auto simp: validateRateLimitConfig_def throws_simps\<close>)
  let ?s = "\<lparr>rl_key = key, rl_count = 1, rl_windowStartedAt = normalizeEvaluatedAt t\<rparr>"
  have "\<not> rate_isLimited P states key t config" and "snd (rate_increment P key t config states) = states(key \<mapsto> ?s)"
    using assms(3) by (simp_all add: rate_isLimited_def rate_increment_def Let_def)
  moreover have "length (filter (\<lambda>b. b) (rate_attempts P key config ts (states(key \<mapsto> ?s)))) =
      min (length ts) (nat (int_of_num (maxAttempts config)) - rl_count ?s)"
    using assms(4) stamp_of_now [OF assms(2)] by (intro attempts_in_window) auto
  ultimately show ?thesis using pos by simp
qed

lemma rate_limit_bounds_window_witness:
  "length (filter (\<lambda>b. b) (rate_attempts zero_platform ''k'' \<lparr>maxAttempts = Num False 2 0, windowMs = Num False 6 4\<rparr>
     [1736951400000, 1736951400500, 1736951401000] Map.empty)) = 2"
  using rate_limit_bounds_window [of "\<lparr>maxAttempts = Num False 2 0, windowMs = Num False 6 4\<rparr>" 1736951400000 Map.empty "''k''"
      "[1736951400500, 1736951401000]" zero_platform]
    sample_now(2) by (simp add: validateRateLimitConfig_def throws_simps)

lemma attempts_past_window:
  assumes "\<forall>s. states key = Some s \<longrightarrow> (\<exists>w. date_of P (rl_windowStartedAt s) = Some w \<and> (\<forall>t \<in> set ts. w \<le> t div 1000 * 1000))"
    and "\<forall>t \<in> set ts. four_digit_year t \<and> int_of_num (windowMs config) \<le> t mod 1000" and "sorted ts"
  shows "rate_attempts P key config ts states = replicate (length ts) True"
  using assms
proof (induction ts arbitrary: states)
  case (Cons t ts)
  let ?s = "\<lparr>rl_key = key, rl_count = 1, rl_windowStartedAt = normalizeEvaluatedAt t\<rparr>"
  have over: "window_over P t config s \<and> \<not> within_window P t config s" if s: "states key = Some s" for s
  proof -
    obtain w where "date_of P (rl_windowStartedAt s) = Some w" "w \<le> t div 1000 * 1000"
      using Cons.prems(1) s by auto
    moreover have "int_of_num (windowMs config) \<le> t - w"
    proof -
      have "w \<le> t - t mod 1000" using \<open>w \<le> t div 1000 * 1000\<close> by (simp add: minus_mod_eq_div_mult)
      moreover have "int_of_num (windowMs config) \<le> t mod 1000" using Cons.prems(2) by simp
      ultimately show ?thesis by linarith
    qed
    ultimately show ?thesis by (simp add: window_over_def within_window_def)
  qed
  have "\<not> rate_isLimited P states key t config" and "snd (rate_increment P key t config states) = states(key \<mapsto> ?s)"
    using over by (auto simp: rate_isLimited_def rate_increment_def Let_def split: option.splits)
  moreover have "rate_attempts P key config ts (states(key \<mapsto> ?s)) = replicate (length ts) True"
  proof (rule Cons.IH)
    have "t div 1000 * 1000 \<le> u div 1000 * 1000" if "u \<in> set ts" for u
      using Cons.prems(3) that by (auto intro: zdiv_mono1)
    then show "\<forall>s. (states(key \<mapsto> ?s)) key = Some s \<longrightarrow>
        (\<exists>w. date_of P (rl_windowStartedAt s) = Some w \<and> (\<forall>t \<in> set ts. w \<le> t div 1000 * 1000))"
      using stamp_of_now [of t P] Cons.prems(2) by auto
  qed (use Cons.prems in simp_all)
  ultimately show ?case by simp
qed simp

text \<open>
  A window shorter than a second may not limit anything.  The limiter remembers the beginning of
  the second in which a window opened, so that at every moment whose milliseconds reach
  \<open>windowMs\<close> the window has already passed: any number of attempts at such moments passes, whatever
  \<open>maxAttempts\<close> is.
\<close>

theorem short_window_limits_nothing:
  assumes "validateRateLimitConfig config = None"
    and "\<forall>t \<in> set ts. four_digit_year t \<and> int_of_num (windowMs config) \<le> t mod 1000" and "sorted ts"
  shows "rate_attempts P key config ts Map.empty = replicate (length ts) True"
  using assms(2,3) by (intro attempts_past_window) simp_all

lemma short_window_limits_nothing_witness:
  "rate_attempts zero_platform ''k'' \<lparr>maxAttempts = Num False 1 0, windowMs = Num False 5 2\<rparr>
     [1736951400600, 1736951400600, 1736951400600] Map.empty = [True, True, True]"
proof -
  have "four_digit_year 1736951400600" using sample_now(2) by (simp add: four_digit_year_def)
  then show ?thesis
    using short_window_limits_nothing [of "\<lparr>maxAttempts = Num False 1 0, windowMs = Num False 5 2\<rparr>"
        "[1736951400600, 1736951400600, 1736951400600]" zero_platform "''k''"]
    by (simp add: validateRateLimitConfig_def throws_simps numeral_3_eq_3)
qed

section \<open>What a denial claims to have checked\<close>

text \<open>
  When the evaluation denies access, the decision says \<open>revocationChecked\<close> although the
  revocation check is still not applicable: the answer is the same for every revocation registry.
\<close>

theorem denied_evaluation_claims_revocation_check:
  assumes "normalizeNow P clock (cr_now request) = Inr now" and "admit_stage P request = Inr (action, resource, t)"
    and "consent_accepted P t (cr_consent request)" and "fresh_times P now t (cr_consent request)"
    and "\<not> d_allowed (evaluateCapabilityAccess P clock
       (buildEvaluationRequest request t action resource (normalizeEvaluatedAt now)))"
  shows "\<exists>d. (\<forall>R r. consumeCapabilityAccess P clock (G\<lparr>g_revocations := R\<rparr>) request (s\<lparr>s_revocations := r\<rparr>) =
      Inr (d, s\<lparr>s_revocations := r\<rparr>)) \<and>
    \<not> u_allowed d \<and> u_revocationChecked d \<and> k_revocation (u_checks d) = NotApplicable"
proof -
  let ?at = "normalizeEvaluatedAt now" and ?r = "replay_registry (g_nonces G) request \<noteq> None"
  let ?ks = "(if cr_consent request = None then admitted_checks else admitted_checks\<lparr>k_consent := Pass\<rparr>)\<lparr>k_temporal := Pass\<rparr>"
  obtain d where d: "evaluation_stage P clock ?at request t action resource (token_metadata t) ?r ?ks = Inl d"
    and claims: "\<not> u_allowed d" "u_revocationChecked d" "k_revocation (u_checks d) = NotApplicable"
    using assms(5) by (auto simp: evaluation_stage_def denied_def Let_def admitted_checks_def makeChecks_def access_checks.defs)
  have c: "consent_stage P ?at t (cr_consent request) (token_metadata t) admitted_checks =
      Inr (if cr_consent request = None then admitted_checks else admitted_checks\<lparr>k_consent := Pass\<rparr>)"
    using assms(3) by (simp only: consent_stage_Inr)
  have k: "skew_stage P ?at now t (cr_consent request) (token_metadata t) ks = Inr (ks\<lparr>k_temporal := Pass\<rparr>)" for ks
    using assms(4) by (simp only: skew_stage_Inr)
  have "consumeCapabilityAccess P clock (G\<lparr>g_revocations := R\<rparr>) request (s\<lparr>s_revocations := r\<rparr>) =
      Inr (d, s\<lparr>s_revocations := r\<rparr>)" for R r
    using assms(1,2) c k d by (simp add: consumeCapabilityAccess_def consume_at_def Let_def)
  then show ?thesis using claims by blast
qed

lemma denied_evaluation_claims_revocation_check_witness:
  "\<exists>d. (\<exists>s. consumeCapabilityAccess zero_platform 0 (sample_registries\<lparr>g_revocations := InMemoryRevocationRegistry\<rparr>)
        (sample_consumption\<lparr>cr_action := ''share''\<rparr>) (empty_stores\<lparr>s_revocations := {replicate 64 (CHR ''0'')}\<rparr>) = Inr (d, s)) \<and>
    \<not> u_allowed d \<and> u_revocationChecked d \<and> k_revocation (u_checks d) = NotApplicable"
proof -
  let ?request = "sample_consumption\<lparr>cr_action := ''share''\<rparr>" and ?e = "\<lparr>se_type = ''field'', se_ref = sample_ref\<rparr>"
  note ok = sample_eligible [of 0, unfolded eligible_def admit_stage_Inr]
  have now: "normalizeNow zero_platform 0 (cr_now ?request) = Inr 1736951400000"
    by (simp add: normalizeNow_def sample_consumption_def to_date_def)
  have "to_lower (trim ''share'') = ''share''" by code_simp
  then have admit: "admit_stage zero_platform ?request = Inr (''share'', ?e, short_raw)"
    using ok by (simp add: admit_stage_Inr normalizeAction_Inr isCanonicalCapabilityAction_def canonicalCapabilityActions_def)
  have "trim ''share'' = ''share''" by code_simp
  then have deny: "\<not> d_allowed (evaluateCapabilityAccess zero_platform 0
      (buildEvaluationRequest ?request short_raw ''share'' ?e (normalizeEvaluatedAt 1736951400000)))"
    using allowed_facts [of zero_platform 0
        "buildEvaluationRequest ?request short_raw ''share'' ?e (normalizeEvaluatedAt 1736951400000)"]
    by (auto simp: buildEvaluationRequest_def)
  obtain d where d: "\<forall>R r. consumeCapabilityAccess zero_platform 0 (sample_registries\<lparr>g_revocations := R\<rparr>) ?request
        (empty_stores\<lparr>s_revocations := r\<rparr>) = Inr (d, empty_stores\<lparr>s_revocations := r\<rparr>)"
      "\<not> u_allowed d \<and> u_revocationChecked d \<and> k_revocation (u_checks d) = NotApplicable"
    using denied_evaluation_claims_revocation_check [OF now admit _ _ deny, of sample_registries empty_stores] ok by auto
  show ?thesis using d by blast
qed

end
