(* ===== verification/Storage.thy ===== *)
theory Storage
  imports Platform
begin

text \<open>
  \<open>storage/pointer.ts\<close>, \<open>storage/adapter.ts\<close>, \<open>storage/localFsAdapter.ts\<close> and the integrity check of
  \<open>enforcement/sem.ts\<close>: pointers to content-addressed blobs, the adapter interface with its contract
  as the locale \<open>content_store\<close>, and the adapter on the local file system as its interpretation.
\<close>

section \<open>Storage pointers\<close>

record storage_pointer =
  sp_uri :: string
  sp_backend :: string
  sp_hash :: string

text \<open>\<open>/^[a-z][a-z0-9]*(-[a-z0-9]+)*$/\<close>\<close>

definition lower_digit :: "char \<Rightarrow> bool" where
  "lower_digit c \<longleftrightarrow> lower_alpha c \<or> dec_digit c"

definition BACKEND_PATTERN :: rx where
  "BACKEND_PATTERN = Cat (Cls lower_alpha) (Cat (Star (Cls lower_digit))
     (Star (Cat (Lit ''-'') (Plus (Cls lower_digit)))))"

text \<open>\<open>/^aoc:\/\/storage\/([a-z][a-z0-9]*(?:-[a-z0-9]+)*)\/0x([a-f0-9]{64})$/\<close>\<close>

definition STORAGE_URI_PATTERN :: rx where
  "STORAGE_URI_PATTERN = Cat (Lit ''aoc://storage/'') (Cat BACKEND_PATTERN (Cat (Lit ''/0x'') HASH_HEX_PATTERN))"

definition storage_uri :: "string \<Rightarrow> string \<Rightarrow> string" where
  "storage_uri backend hash = ''aoc://storage/'' @ backend @ ''/0x'' @ hash"

definition buildStoragePointer :: "string \<Rightarrow> string \<Rightarrow> storage_pointer result" where
  "buildStoragePointer backend hashHex = after (first_throw [
      throw_if (\<not> rx_test BACKEND_PATTERN backend)
        ''Storage backend must match pattern: lowercase letters, digits, hyphens (e.g., \"local\", \"s3\", \"x-vendor\").'',
      throw_if (length backend > 64) ''Storage backend must be at most 64 characters.'',
      throw_if (\<not> rx_test HASH_HEX_PATTERN hashHex) ''Storage pointer hash must be 64 lowercase hex characters.''])
    (Inr \<lparr>sp_uri = storage_uri backend hashHex, sp_backend = backend, sp_hash = hashHex\<rparr>)"

text \<open>
  The groups of the match: neither group contains a slash, so that the first runs from the prefix
  to the next slash and the second is what follows \<open>/0x\<close>.
\<close>

definition parseStorageUri :: "string \<Rightarrow> (string \<times> string) result" where
  "parseStorageUri uri =
     (if \<not> rx_test STORAGE_URI_PATTERN uri
      then Inl (Error ''Storage URI must match pattern: aoc://storage/{backend}/0x{hash}'')
      else let rest = drop (length ''aoc://storage/'') uri;
               backend = takeWhile (\<lambda>c. c \<noteq> CHR ''/'') rest
           in Inr (backend, drop (length backend + length ''/0x'') rest))"

lemma backend_chars: "rx_test BACKEND_PATTERN s \<Longrightarrow> c \<in> set s \<Longrightarrow> lower_digit c \<or> c = CHR ''-''"
proof -
  have part: "t \<in> star (lang (Cat (Lit ''-'') (Plus (Cls lower_digit)))) \<Longrightarrow> \<forall>c \<in> set t. lower_digit c \<or> c = CHR ''-''" for t
    by (induction rule: star.induct) (auto simp: mem_Cat_Lit mem_Plus_Cls simp del: lang.simps)
  assume "rx_test BACKEND_PATTERN s" "c \<in> set s"
  then obtain d u v where "s = d # u @ v" "lower_alpha d" "\<forall>c \<in> set u. lower_digit c"
      "v \<in> star (lang (Cat (Lit ''-'') (Plus (Cls lower_digit))))"
    unfolding rx_test_lang BACKEND_PATTERN_def mem_Cat_Cls mem_Cat [of _ "Star (Cls lower_digit)"] mem_Star_Cls
    by (auto simp del: lang.simps simp: lang.simps(6))
  then show ?thesis using part [of v] \<open>c \<in> set s\<close> by (auto simp: lower_digit_def)
qed

lemma backend_no_slash: "rx_test BACKEND_PATTERN s \<Longrightarrow> CHR ''/'' \<notin> set s"
  using backend_chars [of s "CHR ''/''"] by (auto simp: lower_digit_def lower_alpha_def dec_digit_def between_def)

lemma storage_uri_pattern:
  "rx_test STORAGE_URI_PATTERN uri \<longleftrightarrow>
     (\<exists>b h. uri = storage_uri b h \<and> rx_test BACKEND_PATTERN b \<and> rx_test HASH_HEX_PATTERN h)"
  unfolding rx_test_lang STORAGE_URI_PATTERN_def storage_uri_def mem_Cat_Lit mem_Cat [of _ BACKEND_PATTERN] by blast

lemma parse_storage_uri:
  assumes "rx_test BACKEND_PATTERN b" and "rx_test HASH_HEX_PATTERN h"
  shows "parseStorageUri (storage_uri b h) = Inr (b, h)"
proof -
  have "rx_test STORAGE_URI_PATTERN (storage_uri b h)" using assms storage_uri_pattern by blast
  moreover have "takeWhile (\<lambda>c. c \<noteq> CHR ''/'') (b @ ''/0x'' @ h) = b"
    using backend_no_slash [OF assms(1)] by (subst takeWhile_append2) auto
  ultimately show ?thesis by (simp add: parseStorageUri_def storage_uri_def Let_def)
qed

text \<open>
  A pointer's URI reads back as its backend and hash, and the URIs that can be read are exactly
  those that some backend name and hash spell; up to the length of the name they are the URIs of
  pointers.
\<close>

theorem storage_uri_roundtrip:
  "(\<exists>p. buildStoragePointer backend hash = Inr p \<and> sp_uri p = uri) \<longleftrightarrow>
     parseStorageUri uri = Inr (backend, hash) \<and> length backend \<le> 64"
proof
  assume "\<exists>p. buildStoragePointer backend hash = Inr p \<and> sp_uri p = uri"
  then have "rx_test BACKEND_PATTERN backend" "rx_test HASH_HEX_PATTERN hash" "uri = storage_uri backend hash"
      "length backend \<le> 64"
    by (auto simp: buildStoragePointer_def result_simps throws_simps)
  then show "parseStorageUri uri = Inr (backend, hash) \<and> length backend \<le> 64" using parse_storage_uri by simp
next
  assume p: "parseStorageUri uri = Inr (backend, hash) \<and> length backend \<le> 64"
  then have "rx_test STORAGE_URI_PATTERN uri" by (auto simp: parseStorageUri_def Let_def split: if_splits)
  then obtain b h where "uri = storage_uri b h" "rx_test BACKEND_PATTERN b" "rx_test HASH_HEX_PATTERN h"
    using storage_uri_pattern by blast
  moreover from this have "b = backend" "h = hash" using parse_storage_uri p by auto
  ultimately show "\<exists>p. buildStoragePointer backend hash = Inr p \<and> sp_uri p = uri"
    using p by (simp add: buildStoragePointer_def result_simps throws_simps)
qed

section \<open>The local file system adapter\<close>

text \<open>
  Node's \<open>path.join\<close> under an absolute base: the segments of the joined path with \<open>.\<close> and
  empty ones dropped and \<open>..\<close> going up.  A file system maps absolute paths (their segments) to
  contents; creating a missing directory and reading an existing file succeed.
\<close>

fun normalize_segments :: "string list \<Rightarrow> string list \<Rightarrow> string list" where
  "normalize_segments done [] = done"
| "normalize_segments done (s # ss) =
     (if s = [] \<or> s = ''.'' then normalize_segments done ss
      else if s = ''..'' then normalize_segments (butlast done) ss
      else normalize_segments (done @ [s]) ss)"

definition path_join :: "string list \<Rightarrow> string list \<Rightarrow> string list" where
  "path_join base parts = normalize_segments base (concat (map (split_on (CHR ''/'')) parts))"

type_synonym file_system = "string list \<rightharpoonup> bytes"

definition getFilePath :: "string list \<Rightarrow> string \<Rightarrow> string list" where
  "getFilePath baseDir hashHex = path_join baseDir [''.aoc_storage'', hashHex]"

text \<open>\<open>None\<close> is the allowance, \<open>Some\<close> the message of the denial, whose code is always \<open>INTEGRITY_HASH_MISMATCH\<close>.\<close>

definition enforceStorageIntegrity :: "platform \<Rightarrow> storage_pointer \<Rightarrow> bytes \<Rightarrow> string option" where
  "enforceStorageIntegrity P pointer bytes =
     (if sha256Hex P bytes \<noteq> sp_hash pointer then Some (''Storage hash mismatch for '' @ sp_uri pointer) else None)"

definition local_put :: "platform \<Rightarrow> string list \<Rightarrow> bytes \<Rightarrow> file_system \<Rightarrow> (storage_pointer \<times> file_system) result" where
  "local_put P baseDir blob fs = (let hashHex = sha256Hex P blob in
     bind_result (buildStoragePointer ''local'' hashHex) (\<lambda>pointer.
       Inr (pointer, fs(getFilePath baseDir hashHex \<mapsto> blob))))"

definition local_get :: "platform \<Rightarrow> string list \<Rightarrow> storage_pointer \<Rightarrow> file_system \<Rightarrow> bytes result" where
  "local_get P baseDir pointer fs = (case fs (getFilePath baseDir (sp_hash pointer)) of
     None \<Rightarrow> Inl (Error ''ENOENT: no such file or directory'')
   | Some data \<Rightarrow> (case enforceStorageIntegrity P pointer data of
       Some message \<Rightarrow> Inl (Error message)
     | None \<Rightarrow> Inr data))"

definition local_delete :: "string list \<Rightarrow> storage_pointer \<Rightarrow> file_system \<Rightarrow> file_system" where
  "local_delete baseDir pointer fs = fs(getFilePath baseDir (sp_hash pointer) := None)"

text \<open>The interface \<open>IStorageAdapter\<close> and its contract: content-addressed storage.\<close>

record 's storage_adapter =
  sa_put :: "bytes \<Rightarrow> 's \<Rightarrow> (storage_pointer \<times> 's) result"
  sa_get :: "storage_pointer \<Rightarrow> 's \<Rightarrow> bytes result"
  sa_delete :: "storage_pointer \<Rightarrow> 's \<Rightarrow> 's"

locale content_store =
  fixes P :: platform and A :: "'s storage_adapter"
  assumes get_put: "sa_put A blob s = Inr (p, s') \<Longrightarrow> sp_hash q = sp_hash p \<Longrightarrow> sa_get A q s' = Inr blob"
    and put_keeps: "sa_put A blob s = Inr (p, s') \<Longrightarrow> sp_hash q \<noteq> sp_hash p \<Longrightarrow>
      rx_test HASH_HEX_PATTERN (sp_hash q) \<Longrightarrow> sa_get A q s' = sa_get A q s"
    and get_hash: "sa_get A p s = Inr blob \<Longrightarrow> sha256Hex P blob = sp_hash p"
    and put_hash: "sa_put A blob s = Inr (p, s') \<Longrightarrow> sp_hash p = sha256Hex P blob \<and> rx_test HASH_HEX_PATTERN (sp_hash p)"
begin

fun put_all :: "bytes list \<Rightarrow> 's \<Rightarrow> 's result" where
  "put_all [] s = Inr s"
| "put_all (b # bs) s = bind_result (sa_put A b s) (\<lambda>(p, s). put_all bs s)"

text \<open>Whatever is stored later, a pointer gets its blob back, unless two blobs collide.\<close>

lemma get_after_puts:
  assumes "sa_get A p s = Inr blob" and "rx_test HASH_HEX_PATTERN (sp_hash p)" and "put_all blobs s = Inr s'"
    and "\<forall>b \<in> set blobs. \<not> collides P blob b"
  shows "sa_get A p s' = Inr blob"
  using assms
proof (induction blobs arbitrary: s)
  case (Cons b blobs)
  obtain q s1 where put: "sa_put A b s = Inr (q, s1)" and rest: "put_all blobs s1 = Inr s'"
    using Cons.prems(3) by (auto simp: result_simps)
  have "sa_get A p s1 = Inr blob"
  proof (cases "sp_hash p = sp_hash q")
    case True
    then have "sha256Hex P blob = sha256Hex P b" using put_hash [OF put] get_hash [OF Cons.prems(1)] by simp
    then have "blob = b" using Cons.prems(4) by (auto simp: sha256Hex_inj)
    then show ?thesis using get_put [OF put True] by simp
  next
    case False
    then show ?thesis using put_keeps [OF put False Cons.prems(2)] Cons.prems(1) by simp
  qed
  then show ?case using Cons.IH rest Cons.prems(2,4) by simp
qed simp

end

definition LocalFilesystemAdapter :: "platform \<Rightarrow> string list \<Rightarrow> file_system storage_adapter" where
  "LocalFilesystemAdapter P baseDir = \<lparr>sa_put = local_put P baseDir, sa_get = local_get P baseDir,
     sa_delete = local_delete baseDir\<rparr>"

lemma lower_hex_no_slash: "rx_test HASH_HEX_PATTERN h \<Longrightarrow> CHR ''/'' \<notin> set h \<and> h \<noteq> [] \<and> h \<noteq> ''.'' \<and> h \<noteq> ''..''"
  by (auto simp: hash_hex_iff lower_hex_def between_def dec_digit_def)

lemma file_path: "rx_test HASH_HEX_PATTERN h \<Longrightarrow> getFilePath baseDir h = baseDir @ [''.aoc_storage'', h]"
  using lower_hex_no_slash [of h] by (simp add: getFilePath_def path_join_def split_on_plain)

lemma local_put_Inr: "local_put P baseDir blob fs = Inr (p, fs') \<longleftrightarrow>
    rx_test HASH_HEX_PATTERN (sha256Hex P blob) \<and> sp_hash p = sha256Hex P blob \<and>
    buildStoragePointer ''local'' (sha256Hex P blob) = Inr p \<and> fs' = fs(getFilePath baseDir (sha256Hex P blob) \<mapsto> blob)"
  by (auto simp: local_put_def Let_def result_simps buildStoragePointer_def throws_simps)

lemma local_get_Inr: "local_get P baseDir p fs = Inr blob \<longleftrightarrow>
    fs (getFilePath baseDir (sp_hash p)) = Some blob \<and> sha256Hex P blob = sp_hash p"
  by (auto simp: local_get_def enforceStorageIntegrity_def split: option.splits)

interpretation local_store: content_store P "LocalFilesystemAdapter P baseDir" for P baseDir
proof
  fix blob :: bytes and s s' :: file_system and p q :: storage_pointer
  assume put: "sa_put (LocalFilesystemAdapter P baseDir) blob s = Inr (p, s')"
  then show "sp_hash p = sha256Hex P blob \<and> rx_test HASH_HEX_PATTERN (sp_hash p)"
    by (simp add: LocalFilesystemAdapter_def local_put_Inr)
  show "sp_hash q = sp_hash p \<Longrightarrow> sa_get (LocalFilesystemAdapter P baseDir) q s' = Inr blob"
    using put by (simp add: LocalFilesystemAdapter_def local_put_Inr local_get_Inr)
  show "sp_hash q \<noteq> sp_hash p \<Longrightarrow> rx_test HASH_HEX_PATTERN (sp_hash q) \<Longrightarrow>
      sa_get (LocalFilesystemAdapter P baseDir) q s' = sa_get (LocalFilesystemAdapter P baseDir) q s"
    using put by (auto simp: LocalFilesystemAdapter_def local_put_Inr local_get_def file_path)
next
  fix blob :: bytes and s :: file_system and p :: storage_pointer
  show "sa_get (LocalFilesystemAdapter P baseDir) p s = Inr blob \<Longrightarrow> sha256Hex P blob = sp_hash p"
    by (simp add: LocalFilesystemAdapter_def local_get_Inr)
qed

text \<open>
  C38: a blob that was put comes back under its pointer, whatever is put afterwards (SHA-256
  collisions aside), and whatever is read has the hash its pointer promises, even from a file system
  that was tampered with.
\<close>

theorem stored_blob_comes_back:
  assumes "local_put P baseDir blob fs = Inr (p, fs1)"
    and "local_store.put_all P baseDir blobs fs1 = Inr fs2" and "\<forall>b \<in> set blobs. \<not> collides P blob b"
  shows "local_get P baseDir p fs2 = Inr blob \<and>
    (\<forall>q any_fs data. local_get P baseDir q any_fs = Inr data \<longrightarrow> sha256Hex P data = sp_hash q)"
proof -
  have put: "sa_put (LocalFilesystemAdapter P baseDir) blob fs = Inr (p, fs1)"
    using assms(1) by (simp add: LocalFilesystemAdapter_def)
  have "sa_get (LocalFilesystemAdapter P baseDir) p fs2 = Inr blob"
    by (rule local_store.get_after_puts [OF local_store.get_put [OF put refl]
          conjunct2 [OF local_store.put_hash [OF put]] assms(2,3)])
  then show ?thesis using local_get_Inr by (simp add: LocalFilesystemAdapter_def)
qed

lemma zero_put: "local_put zero_platform [''srv''] [1, 2] Map.empty =
    Inr (\<lparr>sp_uri = storage_uri ''local'' (replicate 64 (CHR ''0'')), sp_backend = ''local'', sp_hash = replicate 64 (CHR ''0'')\<rparr>,
      [[''srv'', ''.aoc_storage'', replicate 64 (CHR ''0'')] \<mapsto> [1, 2]])"
proof -
  have "rx_test BACKEND_PATTERN ''local''" by code_simp
  moreover have hash: "rx_test HASH_HEX_PATTERN (replicate 64 (CHR ''0''))"
    by (simp add: hash_hex_iff lower_hex_def between_def dec_digit_def)
  ultimately have "buildStoragePointer ''local'' (replicate 64 (CHR ''0'')) =
      Inr \<lparr>sp_uri = storage_uri ''local'' (replicate 64 (CHR ''0'')), sp_backend = ''local'', sp_hash = replicate 64 (CHR ''0'')\<rparr>"
    by (simp add: buildStoragePointer_def first_throw.simps)
  then show ?thesis using file_path [OF hash] by (simp add: local_put_def zero_hash Let_def)
qed

lemma stored_blob_comes_back_witness:
  "\<exists>p fs. local_put zero_platform [''srv''] [1, 2] Map.empty = Inr (p, fs) \<and> local_get zero_platform [''srv''] p fs = Inr [1, 2]"
  using stored_blob_comes_back [OF zero_put, of "[]"] zero_put by simp

text \<open>
  \<open>delete\<close> trusts the pointer's hash: with \<open>../x\<close> for a hash it removes the file \<open>x\<close> beside the
  storage directory, that is, any file of the base directory.
\<close>

lemma delete_escapes_storage:
  assumes "CHR ''/'' \<notin> set x" and "x \<noteq> []" and "x \<noteq> ''.''" and "x \<noteq> ''..''"
  shows "local_delete baseDir \<lparr>sp_uri = uri, sp_backend = backend, sp_hash = ''../'' @ x\<rparr> fs = fs(baseDir @ [x] := None)"
proof -
  have "split_on (CHR ''/'') (''../'' @ x) = [''..'', x]"
    using split_on_append [of "CHR ''/''" "''..''" x] assms(1) by (simp add: split_on_plain)
  moreover have "split_on (CHR ''/'') ''.aoc_storage'' = [''.aoc_storage'']" by (simp add: split_on_plain)
  ultimately show ?thesis using assms(2-4) by (simp add: local_delete_def getFilePath_def path_join_def)
qed

lemma delete_escapes_storage_witness:
  "local_delete [''srv''] \<lparr>sp_uri = [], sp_backend = ''local'', sp_hash = ''../package.json''\<rparr>
     [[''srv'', ''package.json''] \<mapsto> [1]] = Map.empty"
  using delete_escapes_storage [of "''package.json''" "[''srv'']" "[]" "''local''" "[[''srv'', ''package.json''] \<mapsto> [1]]"] by simp

end
