(* ===== verification/Manifests.thy ===== *)
theory Manifests
  imports Storage
begin

text \<open>
  \<open>field/\<close>, \<open>content/\<close> and \<open>pack/\<close>: the manifests that describe a field, a stored content and a pack of
  fields, each with its payload, canonical bytes, hash, construction and identifier.  The order of the
  fields of a pack does not enter its hash.
\<close>

section \<open>Field manifests\<close>

record field_payload =
  f_version :: jsnum
  f_field_id :: string
  f_data_type :: string
  f_semantics :: string
  f_created_at :: string

record field_manifest = field_payload +
  f_field_hash :: string

definition one :: jsnum where "one = int_num 1"

definition field_payload_json :: "'a field_payload_scheme \<Rightarrow> json" where
  "field_payload_json p = JObj [(''version'', JNum (f_version p)), (''field_id'', JStr (f_field_id p)),
     (''data_type'', JStr (f_data_type p)), (''semantics'', JStr (f_semantics p)), (''created_at'', JStr (f_created_at p))]"

definition canonicalizeFieldManifestPayload :: "'a field_payload_scheme \<Rightarrow> bytes result" where
  "canonicalizeFieldManifestPayload payload =
     bind_result (canonicalizeJSON (field_payload_json payload)) (\<lambda>canonical. Inr (utf8_encode canonical))"

definition computeFieldHash :: "platform \<Rightarrow> bytes \<Rightarrow> string" where
  "computeFieldHash P payloadBytes = sha256Hex P payloadBytes"

text \<open>\<open>opts.now ?? new Date()\<close>.\<close>

definition date_or :: "int \<Rightarrow> jsdate option \<Rightarrow> jsdate" where
  "date_or clock now = (case now of None \<Rightarrow> Some clock | Some d \<Rightarrow> d)"

definition blank_string :: "string \<Rightarrow> bool" where
  "blank_string s \<longleftrightarrow> trim s = []"

definition buildFieldManifest ::
  "platform \<Rightarrow> int \<Rightarrow> string \<Rightarrow> string \<Rightarrow> string \<Rightarrow> jsdate option \<Rightarrow> field_manifest result" where
  "buildFieldManifest P clock field_id data_type semantics now = after (first_throw [
      throw_if (blank_string field_id) ''Field field_id must be non-empty.'',
      throw_if (blank_string data_type) ''Field data_type must be non-empty.'',
      throw_if (blank_string semantics) ''Field semantics must be non-empty.''])
    (bind_result (to_iso_string (date_or clock now)) (\<lambda>created_at.
     let payload = \<lparr>f_version = one, f_field_id = trim field_id, f_data_type = trim data_type,
           f_semantics = trim semantics, f_created_at = created_at\<rparr>
     in bind_result (canonicalizeFieldManifestPayload payload) (\<lambda>payloadBytes.
          Inr (field_payload.extend payload \<lparr>f_field_hash = computeFieldHash P payloadBytes\<rparr>))))"

definition buildFieldId :: "platform \<Rightarrow> field_manifest \<Rightarrow> string result" where
  "buildFieldId P manifest = after (first_throw [
      throw_if (blank_string (f_field_id manifest)) ''Field field_id must be non-empty.'',
      throw_if (blank_string (f_data_type manifest)) ''Field data_type must be non-empty.'',
      throw_if (blank_string (f_semantics manifest)) ''Field semantics must be non-empty.'',
      throw_if (blank_string (f_created_at manifest)) ''Field created_at must be non-empty.'',
      throw_if (\<not> rx_test HASH_HEX_PATTERN (f_field_hash manifest)) ''Field hash must be 64 lowercase hex characters.''])
    (buildAOCId P ''field'' ''definition'' ''v1'' ''0'' (JObj [
       (''field_id'', JStr (f_field_id manifest)), (''data_type'', JStr (f_data_type manifest)),
       (''semantics'', JStr (f_semantics manifest)), (''created_at'', JStr (f_created_at manifest)),
       (''field_hash'', JStr (f_field_hash manifest))]))"

section \<open>Content manifests\<close>

record content_payload =
  ct_version :: jsnum
  ct_subject :: string
  ct_content_type :: string
  ct_bytes :: jsnum
  ct_storage :: storage_pointer
  ct_created_at :: string

record content_manifest = content_payload +
  ct_content_hash :: string

definition pointer_json :: "storage_pointer \<Rightarrow> json" where
  "pointer_json p = JObj [(''uri'', JStr (sp_uri p)), (''backend'', JStr (sp_backend p)), (''hash'', JStr (sp_hash p))]"

definition content_payload_json :: "'a content_payload_scheme \<Rightarrow> json" where
  "content_payload_json p = JObj [(''version'', JNum (ct_version p)), (''subject'', JStr (ct_subject p)),
     (''content_type'', JStr (ct_content_type p)), (''bytes'', JNum (ct_bytes p)),
     (''storage'', pointer_json (ct_storage p)), (''created_at'', JStr (ct_created_at p))]"

definition canonicalizeContentManifestPayload :: "'a content_payload_scheme \<Rightarrow> bytes result" where
  "canonicalizeContentManifestPayload payload =
     bind_result (canonicalizeJSON (content_payload_json payload)) (\<lambda>canonical. Inr (utf8_encode canonical))"

definition content_computeHash :: "platform \<Rightarrow> bytes \<Rightarrow> string" where
  "content_computeHash P payloadBytes = sha256Hex P payloadBytes"

definition positive_integer :: "jsnum \<Rightarrow> bool" where
  "positive_integer n \<longleftrightarrow> is_integer n \<and> num_positive n"

definition buildContentManifest ::
  "platform \<Rightarrow> int \<Rightarrow> string \<Rightarrow> string \<Rightarrow> jsnum \<Rightarrow> storage_pointer \<Rightarrow> jsdate option \<Rightarrow> content_manifest result" where
  "buildContentManifest P clock subject content_type bytes storage now = after (first_throw [
      throw_if (blank_string subject) ''Content subject must be non-empty.'',
      throw_if (blank_string content_type) ''Content content_type must be non-empty.'',
      throw_if (\<not> positive_integer bytes) ''Content bytes must be a positive integer.'',
      throw_if (blank_string (sp_backend storage)) ''Content storage backend must be non-empty.'',
      throw_if (\<not> rx_test HASH_HEX_PATTERN (sp_hash storage)) ''Content storage hash must be 64 lowercase hex characters.'',
      throw_if (sp_uri storage \<noteq> storage_uri (sp_backend storage) (sp_hash storage))
        ''Content storage uri must match backend and hash.''])
    (bind_result (to_iso_string (date_or clock now)) (\<lambda>created_at.
     let payload = \<lparr>ct_version = one, ct_subject = trim subject, ct_content_type = trim content_type, ct_bytes = bytes,
           ct_storage = storage, ct_created_at = created_at\<rparr>
     in bind_result (canonicalizeContentManifestPayload payload) (\<lambda>payloadBytes.
          Inr (content_payload.extend payload \<lparr>ct_content_hash = content_computeHash P payloadBytes\<rparr>))))"

definition buildContentId :: "platform \<Rightarrow> content_manifest \<Rightarrow> string result" where
  "buildContentId P manifest = after (first_throw [
      throw_if (blank_string (ct_subject manifest)) ''Content subject must be non-empty.'',
      throw_if (blank_string (ct_content_type manifest)) ''Content content_type must be non-empty.'',
      throw_if (\<not> positive_integer (ct_bytes manifest)) ''Content bytes must be a positive integer.'',
      throw_if (blank_string (ct_created_at manifest)) ''Content created_at must be non-empty.'',
      throw_if (\<not> rx_test HASH_HEX_PATTERN (ct_content_hash manifest)) ''Content hash must be 64 lowercase hex characters.''])
    (buildAOCId P ''content'' ''object'' ''v1'' ''0'' (JObj [
       (''version'', JNum (ct_version manifest)), (''subject'', JStr (ct_subject manifest)),
       (''content_type'', JStr (ct_content_type manifest)), (''bytes'', JNum (ct_bytes manifest)),
       (''storage'', pointer_json (ct_storage manifest)), (''created_at'', JStr (ct_created_at manifest)),
       (''content_hash'', JStr (ct_content_hash manifest))]))"

section \<open>Pack manifests\<close>

record field_reference =
  fr_field_id :: string
  fr_content_id :: string
  fr_storage :: storage_pointer
  fr_bytes :: jsnum

record pack_payload =
  pk_version :: string
  pk_subject :: string
  pk_created_at :: jsnum
  pk_fields :: "field_reference list"

record pack_manifest = pack_payload +
  pk_pack_hash :: string

definition canonicalizeFieldReference :: "field_reference \<Rightarrow> json" where
  "canonicalizeFieldReference ref = JObj [(''bytes'', JNum (fr_bytes ref)), (''content_id'', JStr (fr_content_id ref)),
     (''field_id'', JStr (fr_field_id ref)),
     (''storage'', JObj [(''backend'', JStr (sp_backend (fr_storage ref))), (''hash'', JStr (sp_hash (fr_storage ref))),
       (''uri'', JStr (sp_uri (fr_storage ref)))])]"

definition compare_fields :: "platform \<Rightarrow> field_reference \<Rightarrow> field_reference \<Rightarrow> int" where
  "compare_fields P a b = localeCompare P (fr_field_id a) (fr_field_id b)"

definition pack_payload_json :: "platform \<Rightarrow> 'a pack_payload_scheme \<Rightarrow> json" where
  "pack_payload_json P payload = JObj [(''created_at'', JNum (pk_created_at payload)),
     (''fields'', JArr (map canonicalizeFieldReference (sort_cmp (compare_fields P) (pk_fields payload)))),
     (''subject'', JStr (pk_subject payload)), (''version'', JStr (pk_version payload))]"

definition canonicalizePackManifestPayload :: "platform \<Rightarrow> 'a pack_payload_scheme \<Rightarrow> bytes result" where
  "canonicalizePackManifestPayload P payload =
     bind_result (canonicalizeJSON (pack_payload_json P payload)) (\<lambda>canonical. Inr (utf8_encode canonical))"

definition computePackHash :: "platform \<Rightarrow> bytes \<Rightarrow> string" where
  "computePackHash P payloadBytes = sha256Hex P payloadBytes"

text \<open>\<open>/^[a-z][a-z0-9_-]*$/\<close>\<close>

definition FIELD_ID_PATTERN :: rx where
  "FIELD_ID_PATTERN = Cat (Cls lower_alpha) (Star (Cls (\<lambda>c. lower_digit c \<or> c \<in> {CHR ''_'', CHR ''-''})))"

definition MAX_SUBJECT_BYTES :: nat where "MAX_SUBJECT_BYTES = 512"
definition MAX_FIELDS :: nat where "MAX_FIELDS = 65535"
definition MAX_FIELD_ID_LENGTH :: nat where "MAX_FIELD_ID_LENGTH = 128"
definition CLOCK_SKEW_TOLERANCE_SECONDS :: int where "CLOCK_SKEW_TOLERANCE_SECONDS = 300"

definition pack_validateVersion :: "string \<Rightarrow> throws" where
  "pack_validateVersion version = throw_if (\<not> rx_test VERSION_PATTERN version)
     ''Pack version must match pattern MAJOR.MINOR (e.g., \"1.0\").''"

definition validateSubject :: "string \<Rightarrow> throws" where
  "validateSubject subject = first_throw [
     throw_if (blank_string subject) ''Pack subject must be non-empty.'',
     throw_if (length (utf8_encode subject) > MAX_SUBJECT_BYTES)
       (''Pack subject must be at most '' @ show_nat MAX_SUBJECT_BYTES @ '' bytes.'')]"

definition validateCreatedAt :: "jsnum \<Rightarrow> int \<Rightarrow> throws" where
  "validateCreatedAt created_at nowSeconds = first_throw [
     throw_if (\<not> positive_integer created_at) ''Pack created_at must be a positive integer (Unix timestamp).'',
     throw_if (int_of_num created_at > nowSeconds + CLOCK_SKEW_TOLERANCE_SECONDS)
       ''Pack created_at must not be in the future.'']"

definition field_error :: "nat \<Rightarrow> string \<Rightarrow> string" where
  "field_error i m = ''Field reference '' @ show_nat i @ m"

definition validateFieldId :: "string \<Rightarrow> nat \<Rightarrow> throws" where
  "validateFieldId field_id i = first_throw [
     throw_if (field_id = []) (field_error i '': field_id must be non-empty.''),
     throw_if (length field_id > MAX_FIELD_ID_LENGTH)
       (field_error i ('': field_id must be at most '' @ show_nat MAX_FIELD_ID_LENGTH @ '' characters.'')),
     throw_if (\<not> rx_test FIELD_ID_PATTERN field_id)
       (field_error i '': field_id must match pattern ^[a-z][a-z0-9_-]*$.'')]"

definition validateContentId :: "string \<Rightarrow> nat \<Rightarrow> throws" where
  "validateContentId content_id i = throw_if (\<not> rx_test HASH_HEX_PATTERN content_id)
     (field_error i '': content_id must be 64 lowercase hex characters.'')"

definition validateBytes :: "jsnum \<Rightarrow> nat \<Rightarrow> throws" where
  "validateBytes bytes i = throw_if (\<not> positive_integer bytes) (field_error i '': bytes must be a positive integer.'')"

definition validateStoragePointer :: "storage_pointer \<Rightarrow> nat \<Rightarrow> throws" where
  "validateStoragePointer storage i = first_throw [
     throw_if (\<not> rx_test BACKEND_PATTERN (sp_backend storage)) (field_error i '': storage backend must match pattern.''),
     throw_if (\<not> rx_test HASH_HEX_PATTERN (sp_hash storage))
       (field_error i '': storage hash must be 64 lowercase hex characters.''),
     throw_if (sp_uri storage \<noteq> storage_uri (sp_backend storage) (sp_hash storage))
       (field_error i '': storage uri must match backend and hash.'')]"

definition validateFieldReference :: "field_reference \<Rightarrow> nat \<Rightarrow> throws" where
  "validateFieldReference ref i = first_throw [
     validateFieldId (fr_field_id ref) i, validateContentId (fr_content_id ref) i,
     validateBytes (fr_bytes ref) i, validateStoragePointer (fr_storage ref) i]"

definition validateFields :: "field_reference list \<Rightarrow> throws" where
  "validateFields refs = first_throw [
     throw_if (refs = []) ''Pack fields must be a non-empty array.'',
     throw_if (length refs > MAX_FIELDS) (''Pack fields must not exceed '' @ show_nat MAX_FIELDS @ '' elements.''),
     seen_loop validateFieldReference fr_field_id
       (\<lambda>f. ''Pack fields contain duplicate field_id: '' @ fr_field_id f @ ''.'') {} 0 refs]"

text \<open>\<open>Math.floor(now.getTime() / 1000)\<close>.\<close>

definition unix_seconds :: "jsdate \<Rightarrow> jsnum" where
  "unix_seconds d = (case d of None \<Rightarrow> NaN | Some t \<Rightarrow> int_num (t div 1000))"

definition buildPackManifest :: "platform \<Rightarrow> int \<Rightarrow> string \<Rightarrow> field_reference list \<Rightarrow> jsdate option \<Rightarrow> pack_manifest result" where
  "buildPackManifest P clock subject refs now =
     (let created_at = unix_seconds (date_or clock now) in
      after (first_throw [
          pack_validateVersion ''1.0'', validateSubject subject, validateCreatedAt created_at (clock div 1000),
          validateFields refs])
       (let payload = \<lparr>pk_version = ''1.0'', pk_subject = trim subject, pk_created_at = created_at, pk_fields = refs\<rparr>
        in bind_result (canonicalizePackManifestPayload P payload) (\<lambda>payloadBytes.
             Inr (pack_payload.extend payload \<lparr>pk_pack_hash = computePackHash P payloadBytes\<rparr>))))"

definition buildPackId :: "platform \<Rightarrow> pack_manifest \<Rightarrow> string result" where
  "buildPackId P manifest = after (first_throw [
      throw_if (blank_string (pk_subject manifest)) ''Pack subject must be non-empty.'',
      throw_if (\<not> rx_test VERSION_PATTERN (pk_version manifest)) ''Pack version must match pattern MAJOR.MINOR.'',
      throw_if (\<not> positive_integer (pk_created_at manifest)) ''Pack created_at must be a positive integer.'',
      throw_if (pk_fields manifest = []) ''Pack fields must be a non-empty array.'',
      throw_if (\<not> rx_test HASH_HEX_PATTERN (pk_pack_hash manifest)) ''Pack hash must be 64 lowercase hex characters.''])
    (buildAOCId P ''pack'' ''object'' ''v1'' ''0'' (JObj [
       (''version'', JStr (pk_version manifest)), (''subject'', JStr (pk_subject manifest)),
       (''created_at'', JNum (pk_created_at manifest)),
       (''fields'', JArr (map (\<lambda>f. JObj [(''field_id'', JStr (fr_field_id f)), (''content_id'', JStr (fr_content_id f)),
          (''storage'', pointer_json (fr_storage f)), (''bytes'', JNum (fr_bytes f))]) (pk_fields manifest))),
       (''pack_hash'', JStr (pk_pack_hash manifest))]))"

section \<open>What the guards mean\<close>

definition field_id_ok :: "string \<Rightarrow> bool" where
  "field_id_ok i \<longleftrightarrow> i \<noteq> [] \<and> length i \<le> MAX_FIELD_ID_LENGTH \<and> rx_test FIELD_ID_PATTERN i"

definition pointer_ok :: "storage_pointer \<Rightarrow> bool" where
  "pointer_ok p \<longleftrightarrow> rx_test BACKEND_PATTERN (sp_backend p) \<and> rx_test HASH_HEX_PATTERN (sp_hash p) \<and>
     sp_uri p = storage_uri (sp_backend p) (sp_hash p)"

definition reference_ok :: "field_reference \<Rightarrow> bool" where
  "reference_ok r \<longleftrightarrow> field_id_ok (fr_field_id r) \<and> rx_test HASH_HEX_PATTERN (fr_content_id r) \<and>
     positive_integer (fr_bytes r) \<and> pointer_ok (fr_storage r)"

definition fields_ok :: "field_reference list \<Rightarrow> bool" where
  "fields_ok rs \<longleftrightarrow> rs \<noteq> [] \<and> length rs \<le> MAX_FIELDS \<and> distinct (map fr_field_id rs) \<and> (\<forall>r \<in> set rs. reference_ok r)"

lemma validateFieldReference_None [throws_simps]: "validateFieldReference r i = None \<longleftrightarrow> reference_ok r"
  unfolding validateFieldReference_def validateFieldId_def validateContentId_def validateBytes_def
    validateStoragePointer_def throws_simps reference_ok_def field_id_ok_def pointer_ok_def by auto

lemma validateFields_None [throws_simps]: "validateFields rs = None \<longleftrightarrow> fields_ok rs"
  unfolding validateFields_def throws_simps seen_loop_None_uniform [of _ reference_ok, OF validateFieldReference_None]
  by (auto simp: fields_ok_def)

lemma pointer_ok_parses: "pointer_ok p \<Longrightarrow> parseStorageUri (sp_uri p) = Inr (sp_backend p, sp_hash p)"
  by (simp add: pointer_ok_def parse_storage_uri)

lemma canonicalizePackManifestPayload_total:
  assumes "\<forall>r \<in> set (pk_fields p). is_finite (fr_bytes r)" and "is_finite (pk_created_at p)"
  shows "\<exists>b. canonicalizePackManifestPayload P p = Inr b"
proof -
  have "serializable (pack_payload_json P p)"
    using assms by (auto simp: pack_payload_json_def canonicalizeFieldReference_def)
  then have "\<exists>s. canonicalizeJSON (pack_payload_json P p) = Inr s" by (simp only: canonicalize_total)
  then show ?thesis by (auto simp: canonicalizePackManifestPayload_def)
qed

lemma positive_integer_finite: "positive_integer n \<Longrightarrow> is_finite n"
  by (cases n) (auto simp: positive_integer_def)

lemma extend_pack [simp]:
  "pk_version (pack_payload.extend p e) = pk_version p" "pk_subject (pack_payload.extend p e) = pk_subject p"
  "pk_created_at (pack_payload.extend p e) = pk_created_at p" "pk_fields (pack_payload.extend p e) = pk_fields p"
  by (simp_all add: pack_payload.defs)

text \<open>A pack manifest as it is built.\<close>

definition pack_ok :: "int \<Rightarrow> 'a pack_payload_scheme \<Rightarrow> bool" where
  "pack_ok nowSeconds p \<longleftrightarrow> pk_version p = ''1.0'' \<and> pk_subject p \<noteq> [] \<and> trim (pk_subject p) = pk_subject p \<and>
     positive_integer (pk_created_at p) \<and> int_of_num (pk_created_at p) \<le> nowSeconds + 300 \<and> fields_ok (pk_fields p)"

lemma buildPackManifest_Inr: "buildPackManifest P clock subject rs now = Inr m \<longleftrightarrow>
    (\<exists>b. length (utf8_encode subject) \<le> MAX_SUBJECT_BYTES \<and> trim subject \<noteq> [] \<and>
      positive_integer (unix_seconds (date_or clock now)) \<and>
      int_of_num (unix_seconds (date_or clock now)) \<le> clock div 1000 + 300 \<and> fields_ok rs \<and>
      (let p = \<lparr>pk_version = ''1.0'', pk_subject = trim subject, pk_created_at = unix_seconds (date_or clock now), pk_fields = rs\<rparr>
       in canonicalizePackManifestPayload P p = Inr b \<and> m = pack_payload.extend p \<lparr>pk_pack_hash = computePackHash P b\<rparr>))"
proof -
  have version: "rx_test VERSION_PATTERN ''1.0''" by code_simp
  show ?thesis
    unfolding buildPackManifest_def Let_def result_simps throws_simps pack_validateVersion_def validateSubject_def
      validateCreatedAt_def CLOCK_SKEW_TOLERANCE_SECONDS_def blank_string_def not_le not_less
    using version by auto
qed

text \<open>
  the canonical bytes of a pack, and with them its hash, do not depend on the order in which its
  fields are listed, provided that the host's collation tells its field identifiers apart.
\<close>

theorem pack_hash_order_independent:
  assumes "comparator_order (localeCompare P)" and "mset (pk_fields p) = mset rs"
    and "\<forall>f \<in> set (pk_fields p). \<forall>g \<in> set (pk_fields p). compare_fields P f g = 0 \<longrightarrow> f = g"
  shows "canonicalizePackManifestPayload P (p\<lparr>pk_fields := rs\<rparr>) = canonicalizePackManifestPayload P (p :: pack_manifest)"
proof -
  have ord: "comparator_order (compare_fields P)"
    using assms(1) by (auto simp: compare_fields_def [abs_def] comparator_order_def)
  have "sort_cmp (compare_fields P) (pk_fields p) = sort_cmp (compare_fields P) rs"
  proof (rule comparator_order.sorted_unique_on [OF ord])
    fix a b
    assume ab: "a \<in> set (sort_cmp (compare_fields P) (pk_fields p))" "b \<in> set (sort_cmp (compare_fields P) (pk_fields p))"
      "compare_fields P a b \<le> 0" "compare_fields P b a \<le> 0"
    then have "compare_fields P a b = 0" using comparator_order.cmp_sym [OF ord, of b a] by simp
    then show "a = b" using ab(1,2) assms(3) by simp
  qed (use comparator_order.sorted_sort_cmp [OF ord] assms(2) in auto)
  then show ?thesis by (simp add: canonicalizePackManifestPayload_def pack_payload_json_def)
qed

definition sample_field :: "string \<Rightarrow> field_reference" where
  "sample_field i = \<lparr>fr_field_id = i, fr_content_id = replicate 64 (CHR ''0''),
     fr_storage = \<lparr>sp_uri = storage_uri ''local'' (replicate 64 (CHR ''0'')), sp_backend = ''local'',
       sp_hash = replicate 64 (CHR ''0'')\<rparr>, fr_bytes = int_num 7\<rparr>"

definition sample_pack :: pack_manifest where
  "sample_pack = \<lparr>pk_version = ''1.0'', pk_subject = ''did:key:alice'', pk_created_at = int_num 1736951400,
     pk_fields = [sample_field ''name'', sample_field ''email''], pk_pack_hash = replicate 64 (CHR ''0'')\<rparr>"

lemma zero_compare: "localeCompare zero_platform s t = code_unit_compare s t"
  by (simp add: zero_platform_def)

lemma pack_hash_order_independent_witness:
  "canonicalizePackManifestPayload zero_platform (sample_pack\<lparr>pk_fields := [sample_field ''email'', sample_field ''name'']\<rparr>) =
   canonicalizePackManifestPayload zero_platform sample_pack"
proof (rule pack_hash_order_independent)
  show "comparator_order (localeCompare zero_platform)"
    using zero_platform_ok(2) by (simp add: collation_def)
qed (auto simp: sample_pack_def compare_fields_def zero_compare code_unit_compare_def sample_field_def split: if_splits)

text \<open>
  \<open>buildContentManifest\<close> checks the pointer's backend for being non-empty only: a manifest can name a
  storage URI that \<open>parseStorageUri\<close> refuses.
\<close>

lemma content_pointer_unreadable:
  "\<exists>m. buildContentManifest zero_platform 1736951400000 ''did:key:alice'' ''text/plain'' (int_num 1)
       \<lparr>sp_uri = storage_uri ''My Disk'' (replicate 64 (CHR ''0'')), sp_backend = ''My Disk'',
        sp_hash = replicate 64 (CHR ''0'')\<rparr> None = Inr m \<and>
     parseStorageUri (sp_uri (ct_storage m)) =
       Inl (Error ''Storage URI must match pattern: aoc://storage/{backend}/0x{hash}'')"
proof -
  let ?p = "\<lparr>sp_uri = storage_uri ''My Disk'' (replicate 64 (CHR ''0'')), sp_backend = ''My Disk'',
        sp_hash = replicate 64 (CHR ''0'')\<rparr>"
  have trims: "trim ''did:key:alice'' \<noteq> []" "trim ''text/plain'' \<noteq> []" "trim ''My Disk'' \<noteq> []"
    by (simp_all add: trim_eq_Nil js_space_def)
  have hash: "rx_test HASH_HEX_PATTERN (replicate 64 (CHR ''0''))"
    by (simp add: hash_hex_iff lower_hex_def between_def dec_digit_def)
  obtain at where at: "to_iso_string (Some 1736951400000) = Inr at"
    by (cases "stamp_of_seconds (1736951400000 div 1000)") (auto simp: to_iso_string_def)
  have total: "\<exists>b. canonicalizeContentManifestPayload c = Inr b"
    if "is_finite (ct_version c)" "is_finite (ct_bytes c)" for c :: content_payload
  proof -
    have "serializable (content_payload_json c)" using that by (simp add: content_payload_json_def pointer_json_def)
    then have "\<exists>s. canonicalizeJSON (content_payload_json c) = Inr s" by (simp only: canonicalize_total)
    then show ?thesis by (auto simp: canonicalizeContentManifestPayload_def)
  qed
  let ?c = "\<lparr>ct_version = one, ct_subject = trim ''did:key:alice'', ct_content_type = trim ''text/plain'', ct_bytes = int_num 1,
           ct_storage = ?p, ct_created_at = at\<rparr>"
  obtain b where b: "canonicalizeContentManifestPayload ?c = Inr b"
    using total [of ?c] by (auto simp: one_def int_num_def)
  have "\<not> rx_test STORAGE_URI_PATTERN (storage_uri ''My Disk'' (replicate 64 (CHR ''0'')))"
  proof
    assume "rx_test STORAGE_URI_PATTERN (storage_uri ''My Disk'' (replicate 64 (CHR ''0'')))"
    then obtain n h where n: "storage_uri ''My Disk'' (replicate 64 (CHR ''0'')) = storage_uri n h" "rx_test BACKEND_PATTERN n"
      using storage_uri_pattern by blast
    have "takeWhile (\<lambda>c. c \<noteq> CHR ''/'') (n @ ''/0x'' @ h) = n"
      using backend_no_slash [OF n(2)] by (subst takeWhile_append2) auto
    moreover have "n @ ''/0x'' @ h = ''My Disk/0x'' @ replicate 64 (CHR ''0'')" using n(1) by (simp add: storage_uri_def)
    ultimately have "n = ''My Disk''" by simp
    then have "lower_digit (CHR ''M'') \<or> CHR ''M'' = CHR ''-''" using backend_chars [OF n(2), of "CHR ''M''"] by simp
    then show False by (simp add: lower_digit_def lower_alpha_def dec_digit_def between_def)
  qed
  then show ?thesis
    using trims hash at b
    by (simp add: buildContentManifest_def blank_string_def positive_integer_def int_num_def first_throw.simps
        date_or_def parseStorageUri_def content_payload.defs)
qed

end
