(* ===== verification/Sdl.thy ===== *)
theory Sdl
  imports Manifests
begin

text \<open>
  \<open>sdl/parser.ts\<close>, \<open>sdl/validator.ts\<close>, \<open>sdl/types.ts\<close>, \<open>resolver/resolve.ts\<close>: paths of the
  Sovereign Data Language, their parser and validator, and the resolution of paths against an index of
  field manifests.
\<close>

section \<open>Paths\<close>

record sdl_segment =
  seg_value :: string
  seg_index :: nat

record sdl_path =
  sdl_raw :: string
  sdl_segments :: "sdl_segment list"
  sdl_domain :: string
  sdl_attribute :: string

datatype sdl_error_code =
    EMPTY_INPUT | INVALID_SEGMENT | EMPTY_SEGMENT | TOO_FEW_SEGMENTS | LEADING_DOT | TRAILING_DOT | INVALID_TYPE

record sdl_error =
  err_input :: string
  err_code :: sdl_error_code
  err_message :: string

section \<open>Parsing\<close>

text \<open>\<open>/^[a-z][a-z0-9-]*$/\<close>\<close>

definition segment_char :: "char \<Rightarrow> bool" where
  "segment_char c \<longleftrightarrow> lower_alpha c \<or> dec_digit c \<or> c = CHR ''-''"

definition SEGMENT_PATTERN :: rx where
  "SEGMENT_PATTERN = Cat (Cls lower_alpha) (Star (Cls segment_char))"

definition sdl_fail :: "string \<Rightarrow> sdl_error_code \<Rightarrow> string \<Rightarrow> sdl_error + sdl_path" where
  "sdl_fail inp code message = Inl \<lparr>err_input = inp, err_code = code, err_message = message\<rparr>"

text \<open>The loops that fail at the first bad segment.\<close>

fun first_bad :: "(string \<Rightarrow> bool) \<Rightarrow> nat \<Rightarrow> string list \<Rightarrow> (nat \<times> string) option" where
  "first_bad bad i [] = None"
| "first_bad bad i (w # ws) = (if bad w then Some (i, w) else first_bad bad (Suc i) ws)"

definition segments_of :: "string list \<Rightarrow> sdl_segment list" where
  "segments_of ws = map (\<lambda>(i, w). \<lparr>seg_value = w, seg_index = i\<rparr>) (List.enumerate 0 ws)"

definition parseSDLPath :: "string \<Rightarrow> sdl_error + sdl_path" where
  "parseSDLPath inp =
     (if trim inp = [] then sdl_fail inp EMPTY_INPUT ''SDL path must be a non-empty string.''
      else let trimmed = trim inp in
        if starts_with trimmed ''.'' then sdl_fail trimmed LEADING_DOT ''SDL path must not start with a dot.''
        else if ends_with trimmed ''.'' then sdl_fail trimmed TRAILING_DOT ''SDL path must not end with a dot.''
        else let rawSegments = split_on (CHR ''.'') trimmed in
          case first_bad (\<lambda>w. w = []) 0 rawSegments of
            Some (i, w) \<Rightarrow> sdl_fail trimmed EMPTY_SEGMENT
              (''SDL path contains an empty segment at position '' @ show_nat i @ ''.'')
          | None \<Rightarrow>
              if length rawSegments < 2
              then sdl_fail trimmed TOO_FEW_SEGMENTS
                ''SDL path must contain at least two segments (domain + attribute).''
              else case first_bad (\<lambda>w. \<not> rx_test SEGMENT_PATTERN w) 0 rawSegments of
                Some (i, w) \<Rightarrow> sdl_fail trimmed INVALID_SEGMENT
                  (''SDL segment \"'' @ w @ ''\" at position '' @ show_nat i @ '' is invalid. Segments must start with a lowercase letter and contain only lowercase letters, digits, or hyphens.'')
              | None \<Rightarrow>
                  let segments = segments_of rawSegments in
                  Inr \<lparr>sdl_raw = trimmed, sdl_segments = segments, sdl_domain = seg_value (hd segments),
                       sdl_attribute = seg_value (last segments)\<rparr>)"

section \<open>Validation\<close>

definition CANONICAL_DOMAINS :: "string list" where
  "CANONICAL_DOMAINS = [''person'', ''identity'', ''contact'', ''location'', ''work'', ''education'', ''health'',
     ''finance'', ''legal'', ''biometric'', ''device'', ''reputation'', ''credential'', ''preference'', ''consent'']"

definition segment_errors :: "string \<Rightarrow> sdl_segment \<Rightarrow> sdl_error list" where
  "segment_errors raw s =
     (if seg_value s = []
      then [\<lparr>err_input = raw, err_code = EMPTY_SEGMENT,
             err_message = ''SDL path contains an empty segment at position '' @ show_nat (seg_index s) @ ''.''\<rparr>]
      else if \<not> rx_test SEGMENT_PATTERN (seg_value s)
      then [\<lparr>err_input = raw, err_code = INVALID_SEGMENT,
             err_message = ''SDL segment \"'' @ seg_value s @ ''\" at position '' @ show_nat (seg_index s) @ '' is invalid.''\<rparr>]
      else [])"

definition validateSDLPath :: "sdl_path \<Rightarrow> sdl_error list + sdl_path" where
  "validateSDLPath path =
     (let errors =
        (if length (sdl_segments path) < 2
         then [\<lparr>err_input = sdl_raw path, err_code = TOO_FEW_SEGMENTS,
                err_message = ''SDL path must contain at least two segments (domain + attribute).''\<rparr>] else [])
        @ concat (map (segment_errors (sdl_raw path)) (sdl_segments path))
      in if errors \<noteq> [] then Inl errors
         else let values = map seg_value (sdl_segments path)
              in Inr \<lparr>sdl_raw = join ''.'' values, sdl_segments = segments_of values,
                   sdl_domain = hd values, sdl_attribute = last values\<rparr>)"

definition parseAndValidateSDLPath :: "string \<Rightarrow> sdl_error list + sdl_path" where
  "parseAndValidateSDLPath inp = (case parseSDLPath inp of Inl e \<Rightarrow> Inl [e] | Inr path \<Rightarrow> validateSDLPath path)"

section \<open>What the parser and the validator accept\<close>

definition path_words :: "string list \<Rightarrow> bool" where
  "path_words ws \<longleftrightarrow> 2 \<le> length ws \<and> (\<forall>w \<in> set ws. rx_test SEGMENT_PATTERN w)"

definition path_of :: "string list \<Rightarrow> sdl_path" where
  "path_of ws = \<lparr>sdl_raw = join ''.'' ws, sdl_segments = segments_of ws, sdl_domain = hd ws, sdl_attribute = last ws\<rparr>"

lemma first_bad_None: "first_bad bad i ws = None \<longleftrightarrow> (\<forall>w \<in> set ws. \<not> bad w)"
  by (induction ws arbitrary: i) auto

lemma segment_iff: "rx_test SEGMENT_PATTERN w \<longleftrightarrow> (\<exists>c u. w = c # u \<and> lower_alpha c \<and> (\<forall>d \<in> set u. segment_char d))"
  by (simp add: rx_test_lang SEGMENT_PATTERN_def rx_lang)

lemma segment_chars: "rx_test SEGMENT_PATTERN w \<Longrightarrow> c \<in> set w \<Longrightarrow> segment_char c"
  by (auto simp: segment_iff segment_char_def)

lemma segment_char_plain: "segment_char c \<Longrightarrow> c \<noteq> CHR ''.'' \<and> \<not> js_space c"
  by (auto simp: segment_char_def lower_alpha_def dec_digit_def between_def js_space_def)

lemma segment_no_dot: "rx_test SEGMENT_PATTERN w \<Longrightarrow> CHR ''.'' \<notin> set w"
  using segment_chars segment_char_plain by blast

lemma values_segments [simp]: "map seg_value (segments_of ws) = ws"
  by (simp add: segments_of_def comp_def case_prod_unfold)

lemma length_segments [simp]: "length (segments_of ws) = length ws"
  by (simp add: segments_of_def)

lemma segments_ends: "ws \<noteq> [] \<Longrightarrow> seg_value (hd (segments_of ws)) = hd ws \<and> seg_value (last (segments_of ws)) = last ws"
  by (metis values_segments hd_map last_map length_segments length_0_conv)

lemma set_join: "set (join sep ws) \<subseteq> (\<Union>w \<in> set ws. set w) \<union> set sep"
  by (induction sep ws rule: join.induct) auto

lemma join_path:
  assumes "path_words ws"
  shows "split_on (CHR ''.'') (join ''.'' ws) = ws" and "trim (join ''.'' ws) = join ''.'' ws"
    and "join ''.'' ws \<noteq> []"
proof -
  have ne: "ws \<noteq> []" using assms by (auto simp: path_words_def)
  show "split_on (CHR ''.'') (join ''.'' ws) = ws"
    using assms ne by (intro split_join) (auto simp: path_words_def dest: segment_no_dot)
  have "\<forall>c \<in> set (join ''.'' ws). \<not> js_space c"
  proof
    fix c assume "c \<in> set (join ''.'' ws)"
    then have "(\<exists>w \<in> set ws. c \<in> set w) \<or> c = CHR ''.''" using set_join [of "''.''" ws] by auto
    then show "\<not> js_space c"
      using assms segment_chars segment_char_plain by (auto simp: path_words_def js_space_def)
  qed
  then show "trim (join ''.'' ws) = join ''.'' ws" by (rule trim_no_space)
  obtain w v us where "ws = w # v # us"
    using assms by (cases ws rule: remdups_adj.cases) (auto simp: path_words_def)
  then show "join ''.'' ws \<noteq> []" by simp
qed

lemma path_dots:
  assumes "path_words ws"
  shows "\<not> starts_with (join ''.'' ws) ''.''" and "\<not> ends_with (join ''.'' ws) ''.''"
proof -
  have parts: "split_on (CHR ''.'') (join ''.'' ws) = ws" by (rule join_path(1) [OF assms])
  have no_empty: "[] \<notin> set ws" using assms by (auto simp: path_words_def segment_iff)
  show "\<not> starts_with (join ''.'' ws) ''.''"
  proof
    assume "starts_with (join ''.'' ws) ''.''"
    then obtain r where "join ''.'' ws = CHR ''.'' # r" by (auto simp: starts_with_iff)
    then have "[] \<in> set ws" using parts by (metis split_on.simps(2) list.set_intros(1))
    then show False using no_empty by blast
  qed
  have "split_on c (s @ [c]) = split_on c s @ [[]]" for c :: char and s :: string
    by (induction s) (auto split: list.split)
  then have last_empty: "[] \<in> set (split_on c (s @ [c]))" for c :: char and s
    by simp
  show "\<not> ends_with (join ''.'' ws) ''.''"
  proof
    assume "ends_with (join ''.'' ws) ''.''"
    then obtain r where "rev (join ''.'' ws) = CHR ''.'' # r" by (auto simp: ends_with_def starts_with_iff)
    then have "join ''.'' ws = rev r @ [CHR ''.'']" by (metis rev_rev_ident rev.simps(2))
    then have "[] \<in> set ws" using parts last_empty by metis
    then show False using no_empty by blast
  qed
qed

lemma parseSDLPath_Inr:
  "parseSDLPath s = Inr p \<longleftrightarrow> path_words (split_on (CHR ''.'') (trim s)) \<and> p = path_of (split_on (CHR ''.'') (trim s))"
proof -
  define ws where "ws = split_on (CHR ''.'') (trim s)"
  have raw: "trim s = join ''.'' ws" by (simp add: ws_def)
  show ?thesis
  proof (cases "path_words ws")
    case True
    then have "first_bad (\<lambda>w. w = []) 0 ws = None" "first_bad (\<lambda>w. \<not> rx_test SEGMENT_PATTERN w) 0 ws = None"
      unfolding first_bad_None by (auto simp: path_words_def segment_iff)
    moreover have "\<not> length ws < 2" "ws \<noteq> []" using True by (auto simp: path_words_def)
    ultimately have "parseSDLPath s = Inr (path_of ws)"
      using join_path(1,3) [OF True] path_dots [OF True] segments_ends [of ws] raw
      by (simp add: parseSDLPath_def Let_def path_of_def flip: ws_def)
    then show ?thesis using True by (auto simp: ws_def)
  next
    case False
    then have "length ws < 2 \<or> first_bad (\<lambda>w. \<not> rx_test SEGMENT_PATTERN w) 0 ws \<noteq> None"
      by (auto simp: first_bad_None path_words_def)
    then have "\<nexists>p. parseSDLPath s = Inr p"
      by (auto simp: parseSDLPath_def Let_def sdl_fail_def simp flip: ws_def split: option.split if_split)
    then show ?thesis using False by (auto simp: ws_def)
  qed
qed

lemma segment_errors_Nil: "segment_errors raw s = [] \<longleftrightarrow> rx_test SEGMENT_PATTERN (seg_value s)"
  by (auto simp: segment_errors_def segment_iff)

lemma validateSDLPath_Inr:
  "validateSDLPath p = Inr q \<longleftrightarrow> path_words (map seg_value (sdl_segments p)) \<and> q = path_of (map seg_value (sdl_segments p))"
  by (auto simp: validateSDLPath_def Let_def path_words_def path_of_def segment_errors_Nil)

text \<open>
  the parser and the validator agree: what the parser returns for a text is a path whose raw form is
  the trimmed text, whose segments join to it and which the validator returns unchanged; and it parses
  again to itself.
\<close>

theorem parsed_path_validates:
  assumes "parseSDLPath s = Inr p"
  shows "validateSDLPath p = Inr p \<and> parseSDLPath (sdl_raw p) = Inr p \<and> sdl_raw p = trim s \<and>
         join ''.'' (map seg_value (sdl_segments p)) = trim s"
proof -
  define ws where "ws = split_on (CHR ''.'') (trim s)"
  have ws: "path_words ws" "p = path_of ws" "join ''.'' ws = trim s"
    using assms by (simp_all add: parseSDLPath_Inr ws_def)
  have vals: "map seg_value (sdl_segments p) = ws" "sdl_raw p = trim s" using ws by (simp_all add: path_of_def)
  have "validateSDLPath p = Inr p" unfolding validateSDLPath_Inr vals using ws by simp
  moreover have "parseSDLPath (sdl_raw p) = Inr p" unfolding parseSDLPath_Inr vals using ws by (simp add: ws_def)
  ultimately show ?thesis using vals ws(3) by simp
qed

theorem parsed_path_validates_witness:
  "parseSDLPath '' person.name.legal '' = Inr (path_of [''person'', ''name'', ''legal'']) \<and>
   validateSDLPath (path_of [''person'', ''name'', ''legal'']) = Inr (path_of [''person'', ''name'', ''legal''])"
proof -
  have p: "parseSDLPath '' person.name.legal '' = Inr (path_of [''person'', ''name'', ''legal''])"
    by code_simp
  show ?thesis using parsed_path_validates [OF p] p by blast
qed

text \<open>
  What the validator accepts can be parsed: the normalized path is the parse of its raw form and has the
  segments of the given path, whatever its other fields were.
\<close>

theorem validated_path_parses:
  assumes "validateSDLPath p = Inr q"
  shows "parseSDLPath (sdl_raw q) = Inr q \<and> map seg_value (sdl_segments q) = map seg_value (sdl_segments p)"
proof -
  define ws where "ws = map seg_value (sdl_segments p)"
  have ws: "path_words ws" "q = path_of ws" using assms by (simp_all add: validateSDLPath_Inr ws_def)
  have "sdl_raw q = join ''.'' ws" using ws(2) by (simp add: path_of_def)
  then show ?thesis using ws join_path [OF ws(1)] by (simp add: parseSDLPath_Inr path_of_def flip: ws_def)
qed

theorem validated_path_parses_witness:
  "validateSDLPath (path_of [''person'', ''name'']\<lparr>sdl_raw := ''other'', sdl_domain := ''x''\<rparr>) = Inr (path_of [''person'', ''name'']) \<and>
   parseSDLPath ''person.name'' = Inr (path_of [''person'', ''name''])"
proof -
  have v: "validateSDLPath (path_of [''person'', ''name'']\<lparr>sdl_raw := ''other'', sdl_domain := ''x''\<rparr>) = Inr (path_of [''person'', ''name''])"
    by code_simp
  have "sdl_raw (path_of [''person'', ''name'']) = ''person.name''" by code_simp
  then show ?thesis using validated_path_parses [OF v] v by simp
qed

section \<open>Resolution\<close>

record field_ref =
  ref_path :: sdl_path
  ref_field_id :: string

record resolved_manifest =
  rm_ref :: field_ref
  rm_manifest :: field_manifest

record unresolved_path =
  up_path :: sdl_path
  up_code :: string
  up_message :: string

type_synonym manifest_index = "string \<rightharpoonup> field_manifest"

fun resolve_each :: "manifest_index \<Rightarrow> sdl_path list \<Rightarrow> resolved_manifest list \<times> unresolved_path list" where
  "resolve_each index [] = ([], [])"
| "resolve_each index (path # paths) =
     (let (resolved, unresolved) = resolve_each index paths in
      case index (sdl_raw path) of
        Some manifest \<Rightarrow>
          (\<lparr>rm_ref = \<lparr>ref_path = path, ref_field_id = f_field_id manifest\<rparr>, rm_manifest = manifest\<rparr> # resolved, unresolved)
      | None \<Rightarrow>
          (resolved, \<lparr>up_path = path, up_code = ''FIELD_NOT_FOUND'',
             up_message = ''No field manifest found for SDL path \"'' @ sdl_raw path @ ''\".''\<rparr> # unresolved))"

definition resolveSDLToFields ::
  "platform \<Rightarrow> sdl_path list \<Rightarrow> manifest_index \<Rightarrow> resolved_manifest list \<times> unresolved_path list" where
  "resolveSDLToFields P paths fieldIndex =
     resolve_each fieldIndex (sort_cmp (\<lambda>a b. localeCompare P (sdl_raw a) (sdl_raw b)) paths)"

definition path_of_resolved :: "resolved_manifest \<Rightarrow> sdl_path" where
  "path_of_resolved r = ref_path (rm_ref r)"

lemma resolve_each_parts:
  "map path_of_resolved (fst (resolve_each index paths)) = filter (\<lambda>p. index (sdl_raw p) \<noteq> None) paths"
  "map up_path (snd (resolve_each index paths)) = filter (\<lambda>p. index (sdl_raw p) = None) paths"
  "map (\<lambda>r. Some (rm_manifest r)) (fst (resolve_each index paths)) =
     map (\<lambda>r. index (sdl_raw (path_of_resolved r))) (fst (resolve_each index paths))"
  by (induction paths) (simp_all add: path_of_resolved_def case_prod_unfold Let_def split: option.split)

text \<open>
  resolution loses and invents nothing: the resolved paths are, in the order of \<open>localeCompare\<close>, the
  given paths that have a manifest in the index, each with that manifest; the unresolved paths are the others.
\<close>

theorem resolution_partitions:
  "let (resolved, unresolved) = resolveSDLToFields P paths index;
       sorted = sort_cmp (\<lambda>a b. localeCompare P (sdl_raw a) (sdl_raw b)) paths
   in map path_of_resolved resolved = filter (\<lambda>p. index (sdl_raw p) \<noteq> None) sorted \<and>
      map up_path unresolved = filter (\<lambda>p. index (sdl_raw p) = None) sorted \<and>
      map (\<lambda>r. Some (rm_manifest r)) resolved = map (\<lambda>r. index (sdl_raw (path_of_resolved r))) resolved \<and>
      mset (map path_of_resolved resolved) + mset (map up_path unresolved) = mset paths"
proof -
  have parts: "mset (filter Q xs) + mset (filter (\<lambda>x. \<not> Q x) xs) = mset xs" for Q and xs :: "sdl_path list"
    by (simp flip: multiset_partition)
  show ?thesis
    unfolding resolveSDLToFields_def Let_def case_prod_unfold mset_map
    using parts [of "\<lambda>p. index (sdl_raw p) \<noteq> None" "sort_cmp (\<lambda>a b. localeCompare P (sdl_raw a) (sdl_raw b)) paths"]
    by (simp add: resolve_each_parts flip: mset_map)
qed

end
