(* ===== verification/Enforcement.thy ===== *)
theory Enforcement
  imports Consumption Manifests
begin

text \<open>
  \<open>aoc/capabilities/legacy/capabilityEnforcer.ts\<close> (re-exported by
  \<open>protocol/capabilities/capabilityEnforcer.ts\<close>) and \<open>enforcement/sem.ts\<close>: the bridge from the
  vault to the consumption of capabilities, and the decisions of the enforcement module.
\<close>

section \<open>The legacy bridge\<close>

text \<open>The registries and the rate limit of an input are an argument, \<open>G\<close>, of the operations.\<close>

record enforce_input =
  i_required_scope :: string
  i_token :: raw_capability
  i_consent :: "consent_object option"
  i_now :: "jsdate option"
  i_resource_context :: "metadata option"
  i_request_context :: "metadata option"
  i_consume :: "bool option"
  i_action :: "string option"
  i_usageHook :: "hook option"
  i_policyHook :: "hook option"
  i_marketMakerRegistry :: "mm_lookup option"

record enforce_decision =
  ed_allowed :: bool
  ed_reasonCode :: reason_code
  ed_code :: string
  ed_reason :: string
  ed_metadata :: "metadata option"

definition enforce_deny :: "string \<Rightarrow> string \<Rightarrow> enforce_decision" where
  "enforce_deny code reason = \<lparr>ed_allowed = False, ed_reasonCode = CAPABILITY_INVALID, ed_code = code,
     ed_reason = reason, ed_metadata = None\<rparr>"

fun mapReasonCode :: "reason_code \<Rightarrow> string" where
  "mapReasonCode ACCESS_ALLOWED = ''OK''"
| "mapReasonCode CAPABILITY_EXPIRED = ''EXPIRED''"
| "mapReasonCode CONSENT_EXPIRED = ''EXPIRED''"
| "mapReasonCode CAPABILITY_NOT_YET_VALID = ''NOT_YET_VALID''"
| "mapReasonCode RESOURCE_NOT_ALLOWED = ''SCOPE_MISMATCH''"
| "mapReasonCode RESOURCE_MISSING = ''INVALID_SCOPE''"
| "mapReasonCode CAPABILITY_INVALID = ''INVALID_CAPABILITY''"
| "mapReasonCode CAPABILITY_MISSING = ''INVALID_CAPABILITY''"
| "mapReasonCode ACTION_MISSING = ''INVALID_CAPABILITY''"
| "mapReasonCode ACTION_NOT_ALLOWED = ''INVALID_CAPABILITY''"
| "mapReasonCode CAPABILITY_INACTIVE = ''MALFORMED_CAPABILITY''"
| "mapReasonCode CONSENT_INVALID = ''CONSENT_MISMATCH''"
| "mapReasonCode CONSENT_MISMATCH = ''CONSENT_MISMATCH''"
| "mapReasonCode EXPIRATION_MISMATCH = ''CONSENT_MISMATCH''"
| "mapReasonCode MARKET_MAKER_REQUIRED = ''REQUEST_CONTEXT_MISMATCH''"
| "mapReasonCode MARKET_MAKER_MISMATCH = ''REQUEST_CONTEXT_MISMATCH''"
| "mapReasonCode UNKNOWN_MARKET_MAKER = ''REQUEST_CONTEXT_MISMATCH''"
| "mapReasonCode MARKET_MAKER_DEPRECATED = ''REQUEST_CONTEXT_MISMATCH''"
| "mapReasonCode MARKET_MAKER_REVOKED = ''REQUEST_CONTEXT_MISMATCH''"
| "mapReasonCode MARKET_MAKER_TRUST_UNVERIFIABLE = ''REQUEST_CONTEXT_MISMATCH''"
| "mapReasonCode POLICY_DENIED = ''RESOURCE_RESTRICTION_FAILED''"
| "mapReasonCode USAGE_DENIED = ''RESOURCE_RESTRICTION_FAILED''"
| "mapReasonCode PAYMENT_REQUIRED = ''RESOURCE_RESTRICTION_FAILED''"
| "mapReasonCode RATE_LIMITED = ''RESOURCE_RESTRICTION_FAILED''"
| "mapReasonCode INTERNAL_EVALUATION_ERROR = ''INTERNAL_DENY''"
| "mapReasonCode CAPABILITY_REVOKED = ''INTERNAL_DENY''"
| "mapReasonCode CAPABILITY_REPLAYED = ''INTERNAL_DENY''"
| "mapReasonCode REPLAY_PROTECTION_REQUIRED = ''INTERNAL_DENY''"

text \<open>The metadata of the request do not reach the consumption, which takes no such property.\<close>

definition enforced_action :: "enforce_input \<Rightarrow> string" where
  "enforced_action inp = (case i_action inp of None \<Rightarrow> ''read'' | Some a \<Rightarrow> a)"

definition buildLegacyAccessRequest :: "enforce_input \<Rightarrow> string \<Rightarrow> string \<Rightarrow> consumption_request" where
  "buildLegacyAccessRequest inp type ref =
     \<lparr>cr_capability = Some (i_token inp), cr_consent = i_consent inp, cr_action = enforced_action inp,
      cr_resource = ResEntry \<lparr>se_type = type, se_ref = ref\<rparr>,
      cr_marketMakerId = (case i_request_context inp of
          None \<Rightarrow> None
        | Some m \<Rightarrow> (case m ''marketMakerId'' of Some (JStr s) \<Rightarrow> Some s | _ \<Rightarrow> None)),
      cr_now = map_option NowDate (i_now inp), cr_usageContext = None, cr_paid = False, cr_policyContext = None,
      cr_marketMakerRegistry = i_marketMakerRegistry inp, cr_usageHook = i_usageHook inp,
      cr_policyHook = i_policyHook inp, cr_consume = i_consume inp, cr_requireReplayProtection = False\<rparr>"

definition mapped_code :: "consumption_decision \<Rightarrow> string" where
  "mapped_code decision =
     (if u_allowed decision then ''OK''
      else if u_reasonCode decision = CAPABILITY_REVOKED then ''REVOKED''
      else if u_reasonCode decision = CAPABILITY_REPLAYED then ''REPLAY''
      else mapReasonCode (u_reasonCode decision))"

definition bridge_decision :: "enforce_input \<Rightarrow> consumption_decision \<Rightarrow> enforce_decision" where
  "bridge_decision inp decision =
     \<lparr>ed_allowed = u_allowed decision, ed_reasonCode = u_reasonCode decision, ed_code = mapped_code decision,
      ed_reason = u_reason decision,
      ed_metadata = Some (u_metadata decision ++
        [''legacyBridgeAction'' \<mapsto> JStr (enforced_action inp), ''replayChecked'' \<mapsto> JBool (u_replayChecked decision),
         ''revocationChecked'' \<mapsto> JBool (u_revocationChecked decision), ''consumed'' \<mapsto> JBool (u_consumed decision)])\<rparr>"

text \<open>\<open>const [type, ref, ...rest] = required_scope.split(':')\<close>.\<close>

definition enforceCapability ::
  "platform \<Rightarrow> int \<Rightarrow> ('n, 'r, 'u, 'l) consumption_registries \<Rightarrow> enforce_input \<Rightarrow> ('n, 'r, 'u, 'l) consumption_stores \<Rightarrow>
   (enforce_decision \<times> ('n, 'r, 'u, 'l) consumption_stores) result" where
  "enforceCapability P clock G inp s =
     (let malformed = Inr (enforce_deny ''INVALID_SCOPE'' ''required_scope must be a \"type:ref\" string.'', s) in
      case split_on (CHR '':'') (i_required_scope inp) of
        [type, ref] \<Rightarrow>
          (if type = [] \<or> ref = [] then malformed
           else bind_result
             (consumeCapabilityAccess P clock (G\<lparr>g_usage := None\<rparr>) (buildLegacyAccessRequest inp type ref) s)
             (\<lambda>(decision, s). Inr (bridge_decision inp decision, s)))
      | _ \<Rightarrow> malformed)"

section \<open>The decisions of the enforcement module\<close>

record sem_error =
  sx_code :: string
  sx_message :: string
  sx_path :: "string option"

record sem_result =
  sr_decision :: string
  sr_reason_codes :: "string list"
  sr_error :: "sem_error option"

definition sem_allow :: sem_result where
  "sem_allow = \<lparr>sr_decision = ''ALLOW'', sr_reason_codes = [], sr_error = None\<rparr>"

definition sem_deny :: "string \<Rightarrow> string \<Rightarrow> string option \<Rightarrow> sem_result" where
  "sem_deny code message path = \<lparr>sr_decision = ''DENY'', sr_reason_codes = [code],
     sr_error = Some \<lparr>sx_code = code, sx_message = message, sx_path = path\<rparr>\<rparr>"

definition classifyCapabilityError :: "js_error \<Rightarrow> string" where
  "classifyCapabilityError e = (let msg = error_message e in
     if str_includes msg ''expired'' then ''EXPIRED''
     else if str_includes msg ''replay'' then ''REPLAY''
     else if str_includes msg ''revoked'' then ''REVOKED''
     else if str_includes msg ''Scope escalation'' \<or> str_includes msg ''Permission escalation'' then ''SCOPE_ESCALATION''
     else ''INVALID_CAPABILITY'')"

definition enforceConsentPresent :: "consent_object option \<Rightarrow> sem_result" where
  "enforceConsentPresent consent = (case consent of
     None \<Rightarrow> sem_deny ''INVALID_CAPABILITY'' ''Parent consent not found for capability token.'' None
   | Some _ \<Rightarrow> sem_allow)"

definition enforceTokenRedemption ::
  "platform \<Rightarrow> 'n nonce_registry_ops \<Rightarrow> 'r revocation_registry_ops \<Rightarrow> 'a capability_token_scheme \<Rightarrow>
   consent_object \<Rightarrow> jsdate \<Rightarrow> 'r \<Rightarrow> 'n \<Rightarrow> sem_result \<times> 'n" where
  "enforceTokenRedemption P N R token consent now revocations nonces =
     (case verifyCapabilityToken P N R token consent now revocations nonces of
        Inr nonces' \<Rightarrow> (sem_allow, nonces')
      | Inl e \<Rightarrow> (sem_deny (classifyCapabilityError e) (error_message e) None, nonces))"

definition enforcePackPresent :: "bool \<Rightarrow> string \<Rightarrow> sem_result" where
  "enforcePackPresent packFound packRef =
     (if \<not> packFound then sem_deny ''PACK_NOT_FOUND'' (''Pack not found: '' @ packRef) None else sem_allow)"

definition enforceResolverField :: "string \<Rightarrow> field_manifest option \<Rightarrow> sem_result" where
  "enforceResolverField path manifest = (case manifest of
     None \<Rightarrow> sem_deny ''FIELD_NOT_FOUND'' (''No field manifest found for SDL path \"'' @ path @ ''\".'') (Some path)
   | Some _ \<Rightarrow> sem_allow)"

definition enforcePathAccess :: "string set \<Rightarrow> string \<Rightarrow> string \<Rightarrow> sem_result" where
  "enforcePathAccess scopeKeys packRef contentId =
     (let packCovered = ''pack:'' @ packRef \<in> scopeKeys; contentCovered = ''content:'' @ contentId \<in> scopeKeys in
      if \<not> packCovered \<and> \<not> contentCovered
      then sem_deny ''SCOPE_ESCALATION'' (''Requested content \"'' @ contentId @ ''\" is outside capability scope for pack \"'' @ packRef @ ''\".'') None
      else sem_allow)"

section \<open>What the bridge allows\<close>

lemma redemption_classes:
  "classifyCapabilityError (Error ''Capability token has expired.'') = ''EXPIRED''"
  "classifyCapabilityError (Error ''Capability token is not yet valid (before not_before).'') = ''INVALID_CAPABILITY''"
  "classifyCapabilityError (Error ''Capability token has been revoked.'') = ''REVOKED''"
  "classifyCapabilityError (Error ''Capability token_id has already been presented (replay detected).'') = ''REPLAY''"
  by code_simp+

text \<open>
  the redemption of a well-formed token of its consent is allowed exactly when the moment lies in its
  validity interval and it is neither revoked nor presented before; otherwise the code tells which of these
  failed first, except that a token that is not yet valid is reported as invalid.
\<close>

theorem token_redemption_codes:
  assumes "validateCapabilityToken P None t = None" and "verify_derivation t c = None" and "iso_seconds now = Inr stamp"
  shows "enforceTokenRedemption P N R t c now revocations nonces =
    (if stamp > t_expires_at t then (sem_deny ''EXPIRED'' ''Capability token has expired.'' None, nonces)
     else if stamp < effective_start t
     then (sem_deny ''INVALID_CAPABILITY'' ''Capability token is not yet valid (before not_before).'' None, nonces)
     else if isRevoked R (t_capability_hash t) revocations
     then (sem_deny ''REVOKED'' ''Capability token has been revoked.'' None, nonces)
     else if hasSeen N nonces (t_token_id t) now
     then (sem_deny ''REPLAY'' ''Capability token_id has already been presented (replay detected).'' None, nonces)
     else (sem_allow, cleanup N now (markSeen N (t_token_id t) (t_expires_at t) nonces)))"
  using assms redemption_classes
  by (simp add: enforceTokenRedemption_def verifyCapabilityToken_def first_throw.simps verify_time_def throw_if_def)

text \<open>Without hooks, no denial carries the reason of an allowance.\<close>

lemma hook_free_codes:
  "evaluateConsentBinding q = Some d \<Longrightarrow> d_reasonCode d \<noteq> ACCESS_ALLOWED"
  "status_stage q ks = Inl d \<Longrightarrow> d_reasonCode d \<noteq> ACCESS_ALLOWED"
  "temporal_stage P q ks = Inl d \<Longrightarrow> d_reasonCode d \<noteq> ACCESS_ALLOWED"
  "action_stage q ks = Inl d \<Longrightarrow> d_reasonCode d \<noteq> ACCESS_ALLOWED"
  "resource_stage q ks = Inl d \<Longrightarrow> d_reasonCode d \<noteq> ACCESS_ALLOWED"
  "market_maker_stage reg q ks = Inl d \<Longrightarrow> d_reasonCode d \<noteq> ACCESS_ALLOWED"
  by (auto simp: evaluateConsentBinding_def status_stage_def temporal_stage_def action_stage_def resource_stage_def
      market_maker_stage_def evaluateMarketMakerTrust_def denyDecision_def Let_def split: option.splits if_splits)

lemma normalization_codes:
  assumes "bind_result (normalizeEvaluationTime P clock now) (normalizeCapabilityAccessRequest P input) = Inl (code, m)"
  shows "code \<noteq> ACCESS_ALLOWED"
proof -
  have time: "normalizeEvaluationTime P clock now = Inl e \<Longrightarrow> fst e \<noteq> ACCESS_ALLOWED" for e
    by (auto simp: normalizeEvaluationTime_def as_input_error_def split: option.splits sum.splits)
  have cap: "normalizeCapability P c = Inl e \<Longrightarrow> fst e \<noteq> ACCESS_ALLOWED" for c e
    by (auto simp: normalizeCapability_def rethrow_def after_Inl split: option.splits)
  have res: "normalizeResource r = Inl e \<Longrightarrow> fst e \<noteq> ACCESS_ALLOWED" for r e
    by (auto simp: normalizeResource_def split: resource.splits list.splits if_splits)
  have iso: "validateIsoTimestamp v f = Some e \<Longrightarrow> fst e \<noteq> ACCESS_ALLOWED" for v f e
    by (auto simp: validateIsoTimestamp_def split: option.splits if_splits)
  have throws: "rethrow c' f t = Some e \<Longrightarrow> fst e = c'" for c' f t e
    by (auto simp: rethrow_def)
  have "normalizeCapabilityAccessRequest P input at = Inl e \<Longrightarrow> fst e \<noteq> ACCESS_ALLOWED" for at e
    unfolding normalizeCapabilityAccessRequest_def after_Inl bind_result_Inl
    by (auto split: if_splits option.splits dest!: first_throw_mem throws cap res iso throws [OF sym] iso [OF sym])
  then show ?thesis using assms time unfolding bind_result_Inl by fastforce
qed

lemma evaluation_codes:
  assumes "r_usageHook input = None" and "r_policyHook input = None"
  shows "d_allowed (evaluateCapabilityAccess P clock input) \<longleftrightarrow> d_reasonCode (evaluateCapabilityAccess P clock input) = ACCESS_ALLOWED"
proof (cases "bind_result (normalizeEvaluationTime P clock (r_now input)) (normalizeCapabilityAccessRequest P input)")
  case (Inl e)
  then show ?thesis using normalization_codes [of P clock "r_now input" input]
    by (cases e) (simp add: evaluateCapabilityAccess_def denyDecision_def)
next
  case (Inr q)
  then have "evaluateCapabilityAccess P clock input = evaluate_normalized P input q"
    unfolding evaluateCapabilityAccess_def Inr by (simp only: sum.case)
  moreover have "d_allowed (evaluate_normalized P input q) \<longleftrightarrow> d_reasonCode (evaluate_normalized P input q) = ACCESS_ALLOWED"
    using evaluate_normalized_cases [of P input q]
  proof (elim disjE conjE)
    assume "denial (evaluate_normalized P input q)"
    moreover have "d_reasonCode (evaluate_normalized P input q) \<noteq> ACCESS_ALLOWED \<or> d_allowed (evaluate_normalized P input q)"
      using assms unfolding evaluate_normalized_def
      by (auto simp: bind_result_Inl invokeOptionalHook_def dest: hook_free_codes split: option.split sum.split)
    ultimately show ?thesis by (auto simp: denial_def)
  qed simp
  ultimately show ?thesis by simp
qed

lemma consumption_codes:
  assumes "cr_usageHook request = None" and "cr_policyHook request = None"
    and "consume_at P clock G request now s = (d, s')"
  shows "u_allowed d \<longleftrightarrow> u_reasonCode d = ACCESS_ALLOWED"
proof -
  let ?refused = "\<lambda>d. u_reasonCode d \<noteq> ACCESS_ALLOWED \<and> \<not> u_allowed d"
  have eval: "evaluation_stage P clock at request t action resource m r ks = Inl d \<Longrightarrow> ?refused d"
    for at t action resource m r ks d
    using evaluation_codes [of "buildEvaluationRequest request t action resource at" P clock] assms(1,2)
    by (auto simp: evaluation_stage_def denied_def Let_def buildEvaluationRequest_def split: if_splits)
  have consent: "consent_stage P at t c m ks = Inl d \<Longrightarrow> ?refused d" for at t c m ks d
    by (auto simp: consent_stage_def denied_def split: option.splits)
  have skew: "skew_stage P at now t c m ks = Inl d \<Longrightarrow> ?refused d" for at t c m ks d
    by (auto simp: skew_stage_def denied_def split: option.splits)
  have rate: "rate_stage limit at now request key m r ks l = (Inl d, l') \<Longrightarrow> ?refused d"
    for limit :: "('d rate_limit_ops \<times> rate_config) option" and at key m r ks l d l'
    by (auto simp: rate_stage_def denied_def caught_def Let_def split: option.splits prod.splits if_splits)
  have revocation: "revocation_stage R at t m r rs ks = Inl d \<Longrightarrow> ?refused d"
    for R :: "'b revocation_registry_ops" and at t m r rs ks d
    by (auto simp: revocation_stage_def denied_def split: if_splits)
  have replay: "replay_stage N at now request t m ns ks = Inl d \<Longrightarrow> ?refused d"
    for N :: "'a nonce_registry_ops option" and at t m ns ks d
    by (auto simp: replay_stage_def denied_def split: option.splits if_splits)
  have payment: "payment_stage at request m r ks = Inl d \<Longrightarrow> ?refused d" for at m r ks d
    by (auto simp: payment_stage_def denied_def split: if_splits)
  have commit: "commit_stage G at now request t m ks s = (d, s') \<Longrightarrow> u_reasonCode d = ACCESS_ALLOWED \<and> u_allowed d" for at t m ks s
    by (auto simp: commit_stage_def Let_def split: prod.splits)
  have caught: "?refused (caught at request ks e)" for at ks e
    by (simp add: caught_def denied_def Let_def)
  show ?thesis
    using assms(3) caught unfolding consume_at_def Let_def
    by (auto simp: bind_result_Inl split: sum.splits prod.splits
        dest!: consent skew eval rate revocation replay payment commit)
qed

text \<open>The outcomes of the bridge.\<close>

lemma enforceCapability_Inr:
  "enforceCapability P clock G inp s = Inr (d, s') \<longleftrightarrow>
   (\<exists>type ref u. i_required_scope inp = type @ '':'' @ ref \<and> type \<noteq> [] \<and> ref \<noteq> [] \<and>
      CHR '':'' \<notin> set type \<and> CHR '':'' \<notin> set ref \<and>
      consumeCapabilityAccess P clock (G\<lparr>g_usage := None\<rparr>) (buildLegacyAccessRequest inp type ref) s = Inr (u, s') \<and>
      d = bridge_decision inp u) \<or>
   (\<nexists>type ref. i_required_scope inp = type @ '':'' @ ref \<and> type \<noteq> [] \<and> ref \<noteq> [] \<and>
      CHR '':'' \<notin> set type \<and> CHR '':'' \<notin> set ref) \<and> s' = s \<and>
   d = enforce_deny ''INVALID_SCOPE'' ''required_scope must be a \"type:ref\" string.''"
  (is "_ \<longleftrightarrow> ?consumed \<or> ?malformed")
proof (cases "\<exists>type ref. i_required_scope inp = type @ '':'' @ ref \<and> type \<noteq> [] \<and> ref \<noteq> [] \<and>
      CHR '':'' \<notin> set type \<and> CHR '':'' \<notin> set ref")
  case True
  then obtain type ref where w: "i_required_scope inp = type @ '':'' @ ref" "type \<noteq> []" "ref \<noteq> []"
      "CHR '':'' \<notin> set type" "CHR '':'' \<notin> set ref" by blast
  have parts: "split_on (CHR '':'') (i_required_scope inp) = [type, ref]"
    using w split_on_append [of "CHR '':''" type ref] split_on_plain [of "CHR '':''" ref] by simp
  have unique: "type' = type \<and> ref' = ref" if "i_required_scope inp = type' @ '':'' @ ref'" "CHR '':'' \<notin> set type'"
    "CHR '':'' \<notin> set ref'" for type' ref'
    using that parts split_on_append [of "CHR '':''" type' ref'] split_on_plain [of "CHR '':''" ref'] by simp
  have "enforceCapability P clock G inp s = Inr (d, s') \<longleftrightarrow>
     (\<exists>u. consumeCapabilityAccess P clock (G\<lparr>g_usage := None\<rparr>) (buildLegacyAccessRequest inp type ref) s = Inr (u, s') \<and>
       d = bridge_decision inp u)"
    using w(2,3) by (auto simp: enforceCapability_def parts result_simps)
  then show ?thesis using w unique by metis
next
  case False
  have "split_on (CHR '':'') (i_required_scope inp) \<noteq> [type, ref] \<or> type = [] \<or> ref = []" for type ref
  proof (rule ccontr)
    assume "\<not> ?thesis"
    then have "split_on (CHR '':'') (i_required_scope inp) = [type, ref]" "type \<noteq> []" "ref \<noteq> []" by auto
    moreover from this have "i_required_scope inp = type @ '':'' @ ref"
      using join_split [of "CHR '':''" "i_required_scope inp"] by simp
    moreover from calculation have "CHR '':'' \<notin> set type" "CHR '':'' \<notin> set ref"
      using split_on_no_sep [of _ "CHR '':''" "i_required_scope inp"] by simp_all
    ultimately show False using False by blast
  qed
  then have "enforceCapability P clock G inp s =
      Inr (enforce_deny ''INVALID_SCOPE'' ''required_scope must be a \"type:ref\" string.'', s)"
    by (auto simp: enforceCapability_def Let_def split: list.split)
  then show ?thesis using False by auto
qed

text \<open>The code of a decision, and what a refused access leaves unchanged.\<close>

lemma enforcement_facts:
  assumes "enforceCapability P clock G inp s = Inr (d, s')" and "i_usageHook inp = None" and "i_policyHook inp = None"
  shows "(ed_code d = ''OK'' \<longleftrightarrow> ed_allowed d) \<and> (ed_allowed d \<longleftrightarrow> ed_reasonCode d = ACCESS_ALLOWED) \<and>
    (\<not> ed_allowed d \<longrightarrow> s_nonces s' = s_nonces s \<and> s_revocations s' = s_revocations s)"
proof -
  have mapped: "mapReasonCode c = ''OK'' \<Longrightarrow> c = ACCESS_ALLOWED" for c by (cases c) auto
  show ?thesis
    using assms(1) unfolding enforceCapability_Inr
  proof (elim disjE exE conjE)
    fix type ref u
    assume u: "consumeCapabilityAccess P clock (G\<lparr>g_usage := None\<rparr>) (buildLegacyAccessRequest inp type ref) s = Inr (u, s')"
      and d: "d = bridge_decision inp u"
    obtain now where at: "consume_at P clock (G\<lparr>g_usage := None\<rparr>) (buildLegacyAccessRequest inp type ref) now s = (u, s')"
      using u by (auto simp: consumeCapabilityAccess_Inr)
    have codes: "u_allowed u \<longleftrightarrow> u_reasonCode u = ACCESS_ALLOWED"
      by (rule consumption_codes [OF _ _ at]) (simp_all add: buildLegacyAccessRequest_def assms)
    have "\<not> u_allowed u \<Longrightarrow> s_nonces s' = s_nonces s \<and> s_revocations s' = s_revocations s"
      by (rule consume_at_cases [of P clock "G\<lparr>g_usage := None\<rparr>" "buildLegacyAccessRequest inp type ref" now s])
        (use at in auto)
    then show ?thesis using codes mapped by (auto simp: d bridge_decision_def mapped_code_def)
  qed (simp add: enforce_deny_def)
qed

text \<open>
  without hooks, the code of a decision of the bridge is OK exactly when access is allowed; a refused
  access changes no nonce and no revocation.
\<close>

theorem enforcement_code_ok:
  assumes "enforceCapability P clock G inp s = Inr (d, s')" and "i_usageHook inp = None" and "i_policyHook inp = None"
  shows "(ed_code d = ''OK'' \<longleftrightarrow> ed_allowed d) \<and> (ed_allowed d \<longleftrightarrow> ed_reasonCode d = ACCESS_ALLOWED) \<and>
    (\<not> ed_allowed d \<longrightarrow> s_nonces s' = s_nonces s \<and> s_revocations s' = s_revocations s)"
  by (rule enforcement_facts [OF assms])

lemma canonical_entry: "canonicalResource (ResEntry e) = Inr r \<Longrightarrow> r = \<lparr>se_type = trim (se_type e), se_ref = trim (se_ref e)\<rparr>"
  by (auto simp: canonicalResource_def result_simps)

lemma allowed_market_maker:
  assumes "d_allowed (evaluateCapabilityAccess P clock input)" and "r_capability input = Some t" and "t_marketMakerId t = Some m"
  shows "\<exists>reg. r_marketMakerRegistry input = Some reg \<and> l_exists reg m \<and> r_marketMakerId input = Some m"
proof -
  obtain q where q: "normalized P clock input q" "authorized P input q"
    using assms(1) evaluate_allowed by blast
  have "n_marketMakerId (q_capability q) = Some m \<and> q_marketMakerId q = r_marketMakerId input"
    by (rule normalized_request [OF q(1)]) (use assms(2,3) in auto)
  then show ?thesis using q(2) by (auto simp: authorized_def market_maker_cleared_def)
qed

text \<open>What an allowed enforcement establishes of the token and the consent.\<close>

definition honoured ::
  "platform \<Rightarrow> ('n, 'r, 'u, 'l) consumption_registries \<Rightarrow> enforce_input \<Rightarrow> ('n, 'r, 'u, 'l) consumption_stores \<Rightarrow> bool" where
  "honoured P G inp s \<longleftrightarrow> token_terms (i_token inp) \<and> sealed P (i_token inp) \<and>
     to_lower (trim (enforced_action inp)) \<in> set (t_permissions (i_token inp)) \<and>
     \<not> isRevoked (g_revocations G) (t_capability_hash (i_token inp)) (s_revocations s) \<and>
     (\<forall>c. i_consent inp = Some c \<longrightarrow> validateConsentObject P c = None \<and> bound_to (i_token inp) c \<and> c_pricing c = None) \<and>
     (\<forall>m. t_marketMakerId (i_token inp) = Some m \<longrightarrow> (\<exists>reg. i_marketMakerRegistry inp = Some reg \<and> l_exists reg m))"

lemma enforced_obtain:
  assumes "enforceCapability P clock G inp s = Inr (d, s')" and "ed_allowed d"
  obtains type ref now where "i_required_scope inp = type @ '':'' @ ref"
    "CHR '':'' \<notin> set type" "CHR '':'' \<notin> set ref"
    "\<lparr>se_type = trim type, se_ref = trim ref\<rparr> \<in> set (t_scope (i_token inp))" "honoured P G inp s"
    "normalizeNow P clock (map_option NowDate (i_now inp)) = Inr now"
    "\<And>N. g_nonces G = Some N \<Longrightarrow> i_consume inp \<noteq> Some False \<Longrightarrow>
       \<not> hasSeen N (s_nonces s) (t_token_id (i_token inp)) (Some now) \<and>
       s_nonces s' = cleanup N (Some now) (markSeen N (t_token_id (i_token inp)) (t_expires_at (i_token inp)) (s_nonces s))"
    "i_consume inp = Some False \<Longrightarrow> s_nonces s' = s_nonces s"
    "s_revocations s' = s_revocations s"
  using assms(1) unfolding enforceCapability_Inr
proof (elim disjE exE conjE)
  fix type ref u
  assume w: "i_required_scope inp = type @ '':'' @ ref" "CHR '':'' \<notin> set type" "CHR '':'' \<notin> set ref"
    and u: "consumeCapabilityAccess P clock (G\<lparr>g_usage := None\<rparr>) (buildLegacyAccessRequest inp type ref) s = Inr (u, s')"
    and d: "d = bridge_decision inp u"
  let ?request = "buildLegacyAccessRequest inp type ref"
  have allowed: "u_allowed u" using assms(2) by (simp add: d bridge_decision_def)
  show thesis
  proof (rule consumed_obtain [OF u allowed])
    fix now action resource t
    assume now: "normalizeNow P clock (cr_now ?request) = Inr now" and ok: "eligible P clock ?request now action resource t"
      and free: "unspent (G\<lparr>g_usage := None\<rparr>) ?request now t s"
      and s': "s' = spent (G\<lparr>g_usage := None\<rparr>) ?request now t (counted (G\<lparr>g_usage := None\<rparr>) now t s)"
    note facts = eligible_facts [OF ok]
    have t: "t = i_token inp" using facts(1) by (simp add: buildLegacyAccessRequest_def)
    have entry: "resource = \<lparr>se_type = trim type, se_ref = trim ref\<rparr>"
      using canonical_entry [of "\<lparr>se_type = type, se_ref = ref\<rparr>" resource] facts(4) by (simp add: buildLegacyAccessRequest_def)
    have "d_allowed (evaluateCapabilityAccess P clock (buildEvaluationRequest ?request t action resource (normalizeEvaluatedAt now)))"
      using ok by (simp add: eligible_def)
    from allowed_market_maker [OF this]
    have market: "\<forall>m. t_marketMakerId t = Some m \<longrightarrow> (\<exists>reg. i_marketMakerRegistry inp = Some reg \<and> l_exists reg m)"
      by (simp add: buildEvaluationRequest_def buildLegacyAccessRequest_def) blast
    have honoured: "honoured P G inp s"
      using facts free market unfolding honoured_def t
      by (auto simp: unspent_def paid_for_def buildLegacyAccessRequest_def)
    show thesis
    proof (rule that [OF w])
      show "\<lparr>se_type = trim type, se_ref = trim ref\<rparr> \<in> set (t_scope (i_token inp))" using facts(5) entry t by simp
      show "normalizeNow P clock (map_option NowDate (i_now inp)) = Inr now" using now by (simp add: buildLegacyAccessRequest_def)
    qed (use free honoured in \<open>auto simp: s' t spent_def unspent_def unseen_def replay_registry_def buildLegacyAccessRequest_def\<close>)
  qed
qed (use assms(2) in \<open>simp add: enforce_deny_def\<close>)

section \<open>Tokens that are honoured\<close>

text \<open>
  The dates of a token and its consent around a moment: both were issued, and the token expires, within five
  minutes; the token expires after it was issued, not before the moment, and not after the consent.
\<close>

definition timely :: "platform \<Rightarrow> int \<Rightarrow> 'a capability_payload_scheme \<Rightarrow> consent_object \<Rightarrow> bool" where
  "timely P now t c \<longleftrightarrow> four_digit_year now \<and> t_not_before t = None \<and>
     (\<exists>i e ci. date_of P (t_issued_at t) = Some i \<and> date_of P (t_expires_at t) = Some e \<and> date_of P (c_issued_at c) = Some ci \<and>
        \<bar>i - now\<bar> \<le> 300000 \<and> \<bar>e - now\<bar> \<le> 300000 \<and> \<bar>ci - now\<bar> \<le> 300000 \<and> i < e \<and> ci < e \<and> now div 1000 * 1000 \<le> e \<and>
        (\<forall>x ce. c_expires_at c = Some x \<and> date_of P x = Some ce \<longrightarrow> e \<le> ce))"

text \<open>A token without further properties, of a valid consent that is neither priced nor bound to a market maker.\<close>

definition plain_grant :: "platform \<Rightarrow> raw_capability \<Rightarrow> consent_object \<Rightarrow> bool" where
  "plain_grant P t c \<longleftrightarrow> token_terms t \<and> sealed P t \<and> validateConsentObject P c = None \<and> bound_to t c \<and>
     c_pricing c = None \<and> c_marketMakerId c = None \<and>
     raw_status t = None \<and> raw_market_maker_id t = None \<and> raw_startsAt t = None"

lemma now_stamp:
  assumes "four_digit_year now"
  shows "normalizeEvaluationTime P clock (Some (NowString (normalizeEvaluatedAt now))) = Inr (normalizeEvaluatedAt now)"
    and "date_of P (normalizeEvaluatedAt now) = Some (now div 1000 * 1000)"
proof -
  show d: "date_of P (normalizeEvaluatedAt now) = Some (now div 1000 * 1000)" by (rule stamp_of_now [OF assms])
  have "stamp_of (now div 1000 * 1000) = stamp_of now" and "four_digit_year (now div 1000 * 1000)"
    using assms by (simp_all add: stamp_of_def four_digit_year_def)
  then have "iso_seconds (Some (now div 1000 * 1000)) = Inr (normalizeEvaluatedAt now)"
    using iso_seconds_stamp [of now] iso_seconds_stamp [of "now div 1000 * 1000"] assms
    by (simp add: normalizeEvaluatedAt_def)
  then show "normalizeEvaluationTime P clock (Some (NowString (normalizeEvaluatedAt now))) = Inr (normalizeEvaluatedAt now)"
    using d by (simp add: normalizeEvaluationTime_def to_date_def as_input_error_def)
qed

lemma plain_evaluation:
  assumes t: "plain_grant P t c" and time: "timely P now t c"
    and e: "e \<in> set (t_scope t)" and action: "isCanonicalCapabilityAction a" "a \<in> set (t_permissions t)"
    and input: "r_capability input = Some t" "r_consent input = Some c" "r_action input = a"
      "r_resource input = ResEntry e" "r_now input = Some (NowString (normalizeEvaluatedAt now))"
      "r_usageHook input = None" "r_policyHook input = None"
  shows "d_allowed (evaluateCapabilityAccess P clock input)"
proof -
  let ?at = "normalizeEvaluatedAt now"
  let ?n = "\<lparr>n_raw = t, n_permissions = t_permissions t, n_scope = t_scope t, n_notBefore = None,
     n_expiresAt = t_expires_at t, n_status = None, n_marketMakerId = None, n_capabilityHash = t_capability_hash t,
     n_tokenId = t_token_id t, n_consentRef = t_consent_ref t\<rparr>"
  let ?q = "\<lparr>q_capability = ?n, q_consent = Some c, q_action = a, q_resource = e, q_marketMakerId = r_marketMakerId input,
     q_evaluatedAt = ?at, q_usageContext = r_usageContext input, q_policyContext = r_policyContext input\<rparr>"
  have free: "t_marketMakerId t = None" using t by (simp add: plain_grant_def bound_to_def)
  have cap: "normalizeCapability P (Some t) = Inr ?n"
    using t time free unfolding normalizeCapability_Inr by (simp add: plain_grant_def timely_def)
  have trim: "trim a = a" by (rule canonical_action_trim [OF action(1)])
  have ne: "a \<noteq> []" using action(1) by (auto simp: isCanonicalCapabilityAction_def canonicalCapabilityActions_def)
  have year: "four_digit_year now" using time by (simp add: timely_def)
  have stamp: "rx_test ISO8601_UTC_PATTERN (t_expires_at t)" using t by (simp add: plain_grant_def token_terms_def stamp_ok_def)
  have valid: "validateConsentObject P c = None" using t by (simp add: plain_grant_def)
  have "normalizeCapabilityAccessRequest P input ?at = Inr ?q"
    unfolding normalizeCapabilityAccessRequest_def result_simps throws_simps input trim cap
    using ne action(1) stamp valid
    by (simp add: rethrow_def validateIsoTimestamp_def first_throw.simps validateCapabilityAction_None normalizeResource_def)
  then have q: "normalized P clock input ?q" using now_stamp(1) [OF year] by (auto simp: normalized_def input)
  obtain i ex ci where d: "date_of P (t_issued_at t) = Some i" "date_of P (t_expires_at t) = Some ex"
      "date_of P (c_issued_at c) = Some ci" "i < ex" "ci < ex" "now div 1000 * 1000 \<le> ex"
      "\<forall>x ce. c_expires_at c = Some x \<and> date_of P x = Some ce \<longrightarrow> ex \<le> ce"
    using time by (auto simp: timely_def)
  have "\<not> date_gt (Some ex) (parseTimestampOrNull P (c_expires_at c)) \<and>
      \<not> date_gt (Some (now div 1000 * 1000)) (parseTimestampOrNull P (c_expires_at c))"
    using d(6,7) by (fastforce simp: parseTimestampOrNull_def date_gt_def split: option.splits)
  then have "in_time P ?q"
    using d now_stamp(2) [OF year, of P] by (simp add: in_time_def parseTimestampOrNull_def date_le_def date_gt_def)
  then have "authorized P input ?q"
    using t e action(2) free unfolding authorized_def
    by (simp add: plain_grant_def consent_bound_def bound_to_def hook_allows_def input)
  then show ?thesis using q evaluate_allowed by blast
qed

lemma read_action: "isCanonicalCapabilityAction ''read''" "to_lower (trim ''read'') = ''read''"
  by (simp add: isCanonicalCapabilityAction_def canonicalCapabilityActions_def, code_simp)

lemma plain_eligible:
  assumes t: "plain_grant P t c" and time: "timely P now t c"
    and e: "e \<in> set (t_scope t)" and read: "''read'' \<in> set (t_permissions t)"
    and inp: "i_token inp = t" "i_consent inp = Some c" "i_action inp = None" "i_usageHook inp = None" "i_policyHook inp = None"
  shows "eligible P clock (buildLegacyAccessRequest inp (se_type e) (se_ref e)) now ''read'' e t"
    (is "eligible P clock ?request now _ _ _")
proof -
  have ok: "scope_ok (t_scope t)" and terms: "token_terms t" "sealed P t" "validateConsentObject P c = None" "bound_to t c"
    using t by (simp_all add: plain_grant_def token_terms_def)
  then have "se_type e \<in> set VALID_SCOPE_TYPES" "rx_test HASH_HEX_PATTERN (se_ref e)" using e by (auto simp: scope_ok_def)
  moreover have "trim (se_type e) = se_type e"
    using calculation(1) by (auto simp: VALID_SCOPE_TYPES_def trim_def js_space_def)
  moreover have "trim (se_ref e) = se_ref e"
    using calculation(2) by (intro trim_no_space) (auto simp: hash_hex_iff lower_hex_def dec_digit_def between_def js_space_def)
  ultimately have resource: "canonicalResource (cr_resource ?request) = Inr e"
    unfolding canonicalResource_def result_simps throws_simps by (simp add: buildLegacyAccessRequest_def)
  have action: "normalizeAction (cr_action ?request) = Inr ''read''"
    using read_action by (simp add: normalizeAction_Inr buildLegacyAccessRequest_def enforced_action_def inp)
  have accepted: "consent_accepted P t (cr_consent ?request)"
    using terms verifyCapabilityConsentBinding_None [OF ok] by (simp add: consent_accepted_def buildLegacyAccessRequest_def inp)
  have fresh: "fresh_times P now t (cr_consent ?request)"
    using time by (auto simp: fresh_times_def near_def timely_def buildLegacyAccessRequest_def inp)
  have "d_allowed (evaluateCapabilityAccess P clock (buildEvaluationRequest ?request t ''read'' e (normalizeEvaluatedAt now)))"
    by (rule plain_evaluation [OF t time e read_action(1) read])
      (simp_all add: buildEvaluationRequest_def buildLegacyAccessRequest_def inp)
  then show ?thesis
    using action resource terms accepted fresh by (simp add: eligible_def admit_stage_Inr) (simp add: buildLegacyAccessRequest_def inp)
qed

lemma plain_enforced:
  assumes t: "plain_grant P t c" and time: "timely P now t c"
    and e: "e \<in> set (t_scope t)" and read: "''read'' \<in> set (t_permissions t)"
    and inp: "i_token inp = t" "i_consent inp = Some c" "i_action inp = None" "i_usageHook inp = None" "i_policyHook inp = None"
    and scope: "i_required_scope inp = scope_key e"
    and now: "normalizeNow P clock (map_option NowDate (i_now inp)) = Inr now"
    and free: "\<not> isRevoked (g_revocations G) (t_capability_hash t) (s_revocations s)" "g_rateLimit G = None"
    and unseen: "\<And>N. g_nonces G = Some N \<Longrightarrow> i_consume inp \<noteq> Some False \<Longrightarrow> \<not> hasSeen N (s_nonces s) (t_token_id t) (Some now)"
  shows "\<exists>d s'. enforceCapability P clock G inp s = Inr (d, s') \<and> ed_allowed d"
proof -
  let ?request = "buildLegacyAccessRequest inp (se_type e) (se_ref e)" and ?G = "G\<lparr>g_usage := None\<rparr>"
  have ok: "se_type e \<in> set VALID_SCOPE_TYPES" "rx_test HASH_HEX_PATTERN (se_ref e)"
    using t e by (auto simp: plain_grant_def token_terms_def scope_ok_def)
  have unspent: "unspent ?G ?request now t s"
    using free(1) unseen t
    by (auto simp: unspent_def unseen_def replay_registry_def paid_for_def buildLegacyAccessRequest_def inp plain_grant_def
        split: option.splits)
  have limit: "under_limit (g_rateLimit ?G) (t_consent_ref t) now (s_limits s)" using free(2) by (simp add: under_limit_def)
  obtain d s' where d: "consume_at P clock ?G ?request now s = (d, s')" "u_allowed d"
    using consume_at_allows [OF plain_eligible [OF t time e read inp] unspent limit, of clock] by auto
  have "consumeCapabilityAccess P clock ?G ?request s = Inr (d, s')"
    using now d(1) by (simp add: consumeCapabilityAccess_Inr buildLegacyAccessRequest_def)
  moreover have "se_type e \<noteq> []" "se_ref e \<noteq> []" "CHR '':'' \<notin> set (se_type e)" "CHR '':'' \<notin> set (se_ref e)"
    using ok scope_types_no_colon hash_ok_no_colon [of "se_ref e"] by (auto simp: VALID_SCOPE_TYPES_def hash_hex_iff hash_ok_def)
  ultimately have "enforceCapability P clock G inp s = Inr (bridge_decision inp d, s')"
    using scope unfolding enforceCapability_Inr by (intro disjI1 exI [of _ "se_type e"] exI [of _ "se_ref e"] exI [of _ d]) (simp add: scope_key_def)
  then show ?thesis using d(2) by (auto simp: bridge_decision_def)
qed

text \<open>
  The bridge is sound: an allowed enforcement presents a valid, unrevoked token whose scope contains the
  required entry and whose permissions contain the action; a supplied consent is valid, the token a restriction
  of it, and it asks for no payment; a market maker the token is bound to is registered; and with a nonce
  registry a consuming enforcement records a token that was not presented before.
\<close>

theorem enforced_access_is_sound:
  assumes "enforceCapability P clock G inp s = Inr (d, s')" and "ed_allowed d"
  shows "(\<exists>type ref. i_required_scope inp = type @ '':'' @ ref \<and>
      \<lparr>se_type = trim type, se_ref = trim ref\<rparr> \<in> set (t_scope (i_token inp))) \<and>
      token_terms (i_token inp) \<and> sealed P (i_token inp) \<and>
      to_lower (trim (enforced_action inp)) \<in> set (t_permissions (i_token inp)) \<and>
      \<not> isRevoked (g_revocations G) (t_capability_hash (i_token inp)) (s_revocations s) \<and>
      (\<forall>c. i_consent inp = Some c \<longrightarrow> validateConsentObject P c = None \<and> bound_to (i_token inp) c \<and> c_pricing c = None) \<and>
      (\<forall>m. t_marketMakerId (i_token inp) = Some m \<longrightarrow> (\<exists>reg. i_marketMakerRegistry inp = Some reg \<and> l_exists reg m)) \<and>
      (\<forall>N. g_nonces G = Some N \<and> i_consume inp \<noteq> Some False \<longrightarrow> (\<exists>now.
        \<not> hasSeen N (s_nonces s) (t_token_id (i_token inp)) (Some now) \<and>
        s_nonces s' = cleanup N (Some now) (markSeen N (t_token_id (i_token inp)) (t_expires_at (i_token inp)) (s_nonces s))))"
  by (rule enforced_obtain [OF assms]) (unfold honoured_def, blast)

section \<open>A sample enforcement\<close>

definition plain_scope :: "scope_entry list" where
  "plain_scope = [\<lparr>se_type = ''content'', se_ref = sample_ref\<rparr>]"

definition plain_consent :: consent_object where
  "plain_consent = seal (sample_payload\<lparr>c_marketMakerId := None, c_pricing := None, c_scope := plain_scope\<rparr>) (replicate 64 (CHR ''0''))"

definition plain_raw :: raw_capability where
  "plain_raw = short_raw\<lparr>t_marketMakerId := None, raw_status := None, t_scope := plain_scope\<rparr>"

lemma plain_scope_ok: "scope_ok plain_scope"
  by (simp add: scope_ok_def plain_scope_def sample_ref_def MAX_SCOPE_ENTRIES_def VALID_SCOPE_TYPES_def)

lemma plain_consent_simps [simp]:
  "c_action plain_consent = ''grant''" "c_consent_hash plain_consent = replicate 64 (CHR ''0'')"
  "c_subject plain_consent = ''did:key:alice''" "c_grantee plain_consent = ''did:key:bob''"
  "c_marketMakerId plain_consent = None" "c_pricing plain_consent = None" "c_issued_at plain_consent = ''2025-01-15T14:30:00Z''"
  "c_expires_at plain_consent = Some ''2025-06-15T14:30:00Z''" "c_scope plain_consent = plain_scope"
  "c_permissions plain_consent = [''read'', ''share'']"
  by (simp_all add: plain_consent_def sample_payload_def consent_draft_def sample_options_def default_consent_options_def)

lemma plain_raw_simps [simp]:
  "t_permissions plain_raw = [''read'']" "t_scope plain_raw = plain_scope" "t_issued_at plain_raw = ''2025-01-15T14:30:00Z''"
  "t_expires_at plain_raw = ''2025-01-15T14:34:00Z''" "t_not_before plain_raw = None" "t_token_id plain_raw = replicate 64 (CHR ''0'')"
  "t_consent_ref plain_raw = replicate 64 (CHR ''0'')" "t_capability_hash plain_raw = replicate 64 (CHR ''0'')"
  "t_marketMakerId plain_raw = None" "t_subject plain_raw = ''did:key:alice''" "t_grantee plain_raw = ''did:key:bob''"
  "raw_status plain_raw = None" "raw_startsAt plain_raw = None" "raw_market_maker_id plain_raw = None"
  by (simp_all add: plain_raw_def)

lemma plain_consent_valid: "validateConsentObject zero_platform plain_consent = None"
proof -
  have terms: "consent_terms plain_consent"
    using sample_terms plain_scope_ok by (simp add: plain_consent_def consent_terms_def grant_terms_def sample_payload_def consent_draft_def)
  obtain b where "canonicalizeConsentPayload zero_platform plain_consent = Inr b"
    using canonicalizeConsentPayload_total [of plain_consent zero_platform] by auto
  moreover have "c_prior_consent plain_consent = None"
    by (simp add: plain_consent_def sample_payload_def consent_draft_def sample_options_def default_consent_options_def)
  ultimately show ?thesis
    using terms by (simp add: throws_simps hash_ok_def computeConsentHash_def zero_hash)
qed

lemma plain_sample: "plain_grant zero_platform plain_raw plain_consent"
proof -
  have "token_terms plain_raw" using short_raw_valid(1) plain_scope_ok by (simp add: plain_raw_def token_terms_def)
  moreover have "sealed zero_platform plain_raw"
    using canonicalizeCapabilityPayload_total [of zero_platform plain_raw] by (auto simp: sealed_def hash_ok_def)
  ultimately show ?thesis using plain_consent_valid by (simp add: plain_grant_def bound_to_def)
qed

lemma timely_sample: "timely zero_platform 1736951400000 plain_raw plain_consent"
  using sample_now(2) by (simp add: timely_def sample_dates short_date)

definition plain_input :: enforce_input where
  "plain_input = \<lparr>i_required_scope = scope_key \<lparr>se_type = ''content'', se_ref = sample_ref\<rparr>, i_token = plain_raw,
     i_consent = Some plain_consent, i_now = Some (Some 1736951400000), i_resource_context = None,
     i_request_context = None, i_consume = None, i_action = None, i_usageHook = None, i_policyHook = None,
     i_marketMakerRegistry = None\<rparr>"

text \<open>The registries of a vault: no rate limit, no record of use.\<close>

definition vault_registries ::
  "'n nonce_registry_ops \<Rightarrow> 'r revocation_registry_ops \<Rightarrow> ('n, 'r, unit, unit) consumption_registries" where
  "vault_registries N R = \<lparr>g_nonces = Some N, g_revocations = R, g_usage = None, g_rateLimit = None\<rparr>"

definition vault_stores :: "'n \<Rightarrow> 'r \<Rightarrow> ('n, 'r, unit, unit) consumption_stores" where
  "vault_stores nonces revocations = \<lparr>s_nonces = nonces, s_revocations = revocations, s_usage = (), s_limits = ()\<rparr>"

lemma plain_enforcement:
  obtains d s' where "enforceCapability zero_platform clock (vault_registries InMemoryNonceRegistry InMemoryRevocationRegistry)
      plain_input (vault_stores {} {}) = Inr (d, s')" "ed_allowed d"
proof -
  have "\<exists>d s'. enforceCapability zero_platform clock (vault_registries InMemoryNonceRegistry InMemoryRevocationRegistry)
      plain_input (vault_stores {} {}) = Inr (d, s') \<and> ed_allowed d"
    by (rule plain_enforced [OF plain_sample timely_sample, of "\<lparr>se_type = ''content'', se_ref = sample_ref\<rparr>"])
      (simp_all add: plain_input_def plain_scope_def normalizeNow_def to_date_def vault_registries_def vault_stores_def
        InMemoryNonceRegistry_def InMemoryRevocationRegistry_def isRevoked_def)
  then show thesis using that by blast
qed

lemma enforced_access_is_sound_witness:
  "(\<exists>type ref. i_required_scope plain_input = type @ '':'' @ ref \<and>
      \<lparr>se_type = trim type, se_ref = trim ref\<rparr> \<in> set (t_scope plain_raw)) \<and> sealed zero_platform plain_raw"
proof -
  have token: "i_token plain_input = plain_raw" by (simp add: plain_input_def)
  show ?thesis
    by (rule plain_enforcement [of 0]) (use enforced_access_is_sound token in force)
qed

lemma enforcement_code_ok_witness:
  "\<exists>d s'. enforceCapability zero_platform 0 (vault_registries InMemoryNonceRegistry InMemoryRevocationRegistry)
      plain_input (vault_stores {} {}) = Inr (d, s') \<and> ed_code d = ''OK''"
proof (rule plain_enforcement [of 0])
  fix d s'
  assume d: "enforceCapability zero_platform 0 (vault_registries InMemoryNonceRegistry InMemoryRevocationRegistry)
      plain_input (vault_stores {} {}) = Inr (d, s')" "ed_allowed d"
  have hooks: "i_usageHook plain_input = None" "i_policyHook plain_input = None" by (simp_all add: plain_input_def)
  have "ed_code d = ''OK''" using enforcement_code_ok [OF d(1) hooks] d(2) by (elim conjE) simp
  then show ?thesis using d(1) by (intro exI conjI)
qed

lemma token_redemption_codes_witness:
  "fst (enforceTokenRedemption zero_platform InMemoryNonceRegistry InMemoryRevocationRegistry plain_raw plain_consent
     (Some 1736951400000) {replicate 64 (CHR ''0'')} {}) = sem_deny ''REVOKED'' ''Capability token has been revoked.'' None"
proof -
  have valid: "validateCapabilityToken zero_platform None plain_raw = None"
    using plain_sample by (simp add: validateCapabilityToken_None plain_grant_def)
  have derived: "verify_derivation plain_raw plain_consent = None"
    using plain_sample by (simp add: verify_derivation_None plain_grant_def token_terms_def attenuates_def within_bounds_def bound_to_def)
  have order: "\<not> ''2025-01-15T14:34:00Z'' < ''2025-01-15T14:30:00Z''" by code_simp
  show ?thesis
    unfolding token_redemption_codes [OF valid derived sample_date]
    by (simp add: effective_start_def isRevoked_def InMemoryRevocationRegistry_def order)
qed

end
