(* ===== verification/Vault.thy ===== *)
theory Vault
  imports Sdl Enforcement
begin

text \<open>
  \<open>vault/vault.ts\<close>: the in-memory vault.  Its state holds packs, consents, capabilities, the mapping of
  SDL paths to fields and the two registries; its operations are functions of the state; the step relation
  \<open>vault_step\<close> is any operation of the vault.  \<open>requestAccess\<close> may read the clock once per redemption:
  \<open>clock i\<close> is the \<open>i\<close>-th reading.
\<close>

section \<open>State\<close>

record ('n, 'r) vault =
  v_packs :: "string \<rightharpoonup> pack_manifest"
  v_consents :: "string \<rightharpoonup> consent_object"
  v_capabilities :: "string \<rightharpoonup> capability_token"
  v_sdl_mappings :: "string \<rightharpoonup> string"
  v_nonces :: 'n
  v_revocations :: 'r

definition createInMemoryVault :: "'n \<Rightarrow> 'r \<Rightarrow> ('n, 'r) vault" where
  "createInMemoryVault nonces revocations = \<lparr>v_packs = Map.empty, v_consents = Map.empty, v_capabilities = Map.empty,
     v_sdl_mappings = Map.empty, v_nonces = nonces, v_revocations = revocations\<rparr>"

record vault_error =
  ve_code :: string
  ve_message :: string
  ve_path :: "string option"

record resolved_field =
  rf_sdl_path :: string
  rf_field_id :: string
  rf_content_id :: string

record unresolved_field =
  uf_sdl_path :: string
  uf_error :: vault_error

record vault_access_request =
  va_capability_token :: raw_capability
  va_sdl_paths :: "string list"
  va_pack_ref :: string

record vault_access_result =
  vr_decision :: string
  vr_reason_codes :: "string list"
  vr_resolved_fields :: "resolved_field list"
  vr_unresolved_fields :: "unresolved_field list"

section \<open>SDL paths\<close>

text \<open>\<open>/^[a-z][a-z0-9-]*(\.[a-z][a-z0-9-]*)+$/\<close>\<close>

definition SDL_PATH_PATTERN :: rx where
  "SDL_PATH_PATTERN = Cat SEGMENT_PATTERN (Plus (Cat (Lit ''.'') SEGMENT_PATTERN))"

definition validateSdlPath :: "string \<Rightarrow> string option" where
  "validateSdlPath path =
     (if trim path = [] then Some (''Invalid SDL path: \"'' @ path @ ''\". Must be a non-empty dot-separated path with at least 2 segments.'')
      else if \<not> rx_test SDL_PATH_PATTERN (trim path)
      then Some (''Invalid SDL path: \"'' @ path @ ''\". Must be dot-separated lowercase segments allowing digits and hyphens.'')
      else None)"

section \<open>Decisions\<close>

definition mapCapabilityDenyCode :: "string \<Rightarrow> string" where
  "mapCapabilityDenyCode code =
     (if code = ''SCOPE_MISMATCH'' \<or> code = ''INVALID_SCOPE'' then ''SCOPE_ESCALATION''
      else if code = ''MALFORMED_CAPABILITY'' then ''INVALID_CAPABILITY'' else code)"

definition denyAccess :: "string list \<Rightarrow> vault_access_result" where
  "denyAccess reason_codes = \<lparr>vr_decision = ''DENY'', vr_reason_codes = reason_codes, vr_resolved_fields = [],
     vr_unresolved_fields = []\<rparr>"

definition allowAccess :: "resolved_field list \<Rightarrow> unresolved_field list \<Rightarrow> vault_access_result" where
  "allowAccess resolved unresolved = \<lparr>vr_decision = ''ALLOW'', vr_reason_codes = [], vr_resolved_fields = resolved,
     vr_unresolved_fields = unresolved\<rparr>"

section \<open>Operations on the store\<close>

definition storePack :: "platform \<Rightarrow> pack_manifest \<Rightarrow> ('n, 'r) vault \<Rightarrow> (string \<times> ('n, 'r) vault) result" where
  "storePack P pack v = bind_result (canonicalizePackManifestPayload P pack) (\<lambda>payloadBytes.
     after (throw_if (pk_pack_hash pack \<noteq> computePackHash P payloadBytes)
         ''Pack pack_hash does not match canonical payload hash.'')
       (Inr (pk_pack_hash pack, v\<lparr>v_packs := (v_packs v)(pk_pack_hash pack \<mapsto> pack)\<rparr>)))"

text \<open>The revocation a revoking consent asks for; a missing target fails on its property access.\<close>

definition revoke_by_consent ::
  "'r revocation_registry_ops \<Rightarrow> consent_object \<Rightarrow> ('n, 'r) vault \<Rightarrow> 'r result" where
  "revoke_by_consent R consent v = (case c_revoke_target consent of
     None \<Rightarrow> Inl (Error ''Cannot read properties of undefined (reading 'capability_hash')'')
   | Some targetCapabilityHash \<Rightarrow> (case v_capabilities v targetCapabilityHash of
       None \<Rightarrow> Inl (Error (''Capability not found: '' @ targetCapabilityHash))
     | Some targetCapability \<Rightarrow>
         after (throw_if (case v_consents v (t_consent_ref targetCapability) of
               None \<Rightarrow> True | Some originalConsent \<Rightarrow> c_subject originalConsent \<noteq> c_subject consent)
             ''Consent subject must match revoked capability subject.'')
           (revokeCapabilityToken R targetCapabilityHash (v_revocations v))))"

definition applyConsent ::
  "platform \<Rightarrow> 'r revocation_registry_ops \<Rightarrow> consent_object \<Rightarrow> ('n, 'r) vault \<Rightarrow> (string \<times> ('n, 'r) vault) result" where
  "applyConsent P R consent v = after (validateConsentObject P consent)
     (bind_result (if c_action consent = ''revoke'' then revoke_by_consent R consent v else Inr (v_revocations v))
       (\<lambda>revocations. Inr (c_consent_hash consent,
          v\<lparr>v_revocations := revocations, v_consents := (v_consents v)(c_consent_hash consent \<mapsto> consent)\<rparr>)))"

definition storeConsent ::
  "platform \<Rightarrow> 'r revocation_registry_ops \<Rightarrow> consent_object \<Rightarrow> ('n, 'r) vault \<Rightarrow> (string \<times> ('n, 'r) vault) result" where
  "storeConsent P R consent v = applyConsent P R consent v"

definition mintCapability ::
  "platform \<Rightarrow> int \<Rightarrow> bytes \<Rightarrow> string \<Rightarrow> scope_entry list \<Rightarrow> string list \<Rightarrow> string \<Rightarrow> mint_options \<Rightarrow>
   ('n, 'r) vault \<Rightarrow> (capability_token \<times> ('n, 'r) vault) result" where
  "mintCapability P clock random consent_hash scope permissions expires_at opts v = (case v_consents v consent_hash of
     None \<Rightarrow> Inl (Error (''Consent not found: '' @ consent_hash))
   | Some consent \<Rightarrow> bind_result (mintCapabilityToken P clock random consent scope permissions expires_at opts) (\<lambda>token.
       Inr (token, v\<lparr>v_capabilities := (v_capabilities v)(t_capability_hash token \<mapsto> token)\<rparr>)))"

definition registerSdlMapping :: "string \<Rightarrow> string \<Rightarrow> ('n, 'r) vault \<Rightarrow> ('n, 'r) vault result" where
  "registerSdlMapping sdl_path field_id v = (case validateSdlPath sdl_path of
     Some pathError \<Rightarrow> Inl (Error pathError)
   | None \<Rightarrow> Inr (v\<lparr>v_sdl_mappings := (v_sdl_mappings v)(sdl_path \<mapsto> field_id)\<rparr>))"

definition revokeCapability :: "'r revocation_registry_ops \<Rightarrow> string \<Rightarrow> ('n, 'r) vault \<Rightarrow> ('n, 'r) vault result" where
  "revokeCapability R capability_hash v =
     bind_result (revokeCapabilityToken R capability_hash (v_revocations v)) (\<lambda>revocations.
       Inr (v\<lparr>v_revocations := revocations\<rparr>))"

section \<open>Requests\<close>

text \<open>What the loop over the paths reads: the clock, the request and the field index.\<close>

record access_env =
  ae_clock :: "nat \<Rightarrow> int"
  ae_now :: "jsdate option"
  ae_token :: raw_capability
  ae_consent :: consent_object
  ae_pack_ref :: string
  ae_index :: "string \<rightharpoonup> string \<times> string"
  ae_mappings :: "string \<rightharpoonup> string"

definition field_index :: "field_reference list \<Rightarrow> (string \<rightharpoonup> string \<times> string)" where
  "field_index fs = foldl (\<lambda>m f. m(fr_field_id f \<mapsto> (fr_field_id f, fr_content_id f))) Map.empty fs"

definition unresolved_at :: "string \<Rightarrow> string \<Rightarrow> string \<Rightarrow> unresolved_field" where
  "unresolved_at sdl_path code message = \<lparr>uf_sdl_path = sdl_path,
     uf_error = \<lparr>ve_code = code, ve_message = message, ve_path = Some sdl_path\<rparr>\<rparr>"

text \<open>The field a path stands for; an empty field identifier counts as none.\<close>

definition locate_field :: "access_env \<Rightarrow> string \<Rightarrow> unresolved_field + string \<times> string" where
  "locate_field E sdl_path = (case validateSdlPath sdl_path of
     Some validationError \<Rightarrow> Inl (unresolved_at sdl_path ''INVALID_SDL_PATH'' validationError)
   | None \<Rightarrow>
      let field_id = (case ae_mappings E sdl_path of None \<Rightarrow> [] | Some f \<Rightarrow> f) in
      if field_id = [] then Inl (unresolved_at sdl_path ''UNRESOLVED_FIELD'' (''No mapping found for SDL path: '' @ sdl_path))
      else (case ae_index E field_id of
         None \<Rightarrow> Inl (unresolved_at sdl_path ''UNRESOLVED_FIELD''
           (''Field \"'' @ field_id @ ''\" not present in pack '' @ ae_pack_ref E))
       | Some fieldRef \<Rightarrow> Inr fieldRef))"

definition redemption_input :: "access_env \<Rightarrow> string \<Rightarrow> metadata \<Rightarrow> bool \<Rightarrow> enforce_input" where
  "redemption_input E required_scope resource_context consume =
     \<lparr>i_required_scope = required_scope, i_token = ae_token E, i_consent = Some (ae_consent E), i_now = ae_now E,
      i_resource_context = Some resource_context,
      i_request_context = Some [''subject'' \<mapsto> JStr (c_subject (ae_consent E)), ''grantee'' \<mapsto> JStr (t_grantee (ae_token E)),
        ''endpoint'' \<mapsto> JStr ''vault.requestAccess''],
      i_consume = Some consume, i_action = None, i_usageHook = None, i_policyHook = None, i_marketMakerRegistry = None\<rparr>"

definition content_input :: "access_env \<Rightarrow> string \<Rightarrow> bool \<Rightarrow> enforce_input" where
  "content_input E content_id consume = redemption_input E (''content:'' @ content_id)
     [''resource_type'' \<mapsto> JStr ''content'', ''content_ref'' \<mapsto> JStr content_id, ''pack_ref'' \<mapsto> JStr (ae_pack_ref E)] consume"

definition pack_input :: "access_env \<Rightarrow> bool \<Rightarrow> enforce_input" where
  "pack_input E consume = redemption_input E (''pack:'' @ ae_pack_ref E)
     [''resource_type'' \<mapsto> JStr ''pack'', ''pack_ref'' \<mapsto> JStr (ae_pack_ref E)] consume"

text \<open>The decision on one field: by its content, and by its pack when the content is out of scope.\<close>

definition decide_field ::
  "platform \<Rightarrow> 'n nonce_registry_ops \<Rightarrow> 'r revocation_registry_ops \<Rightarrow> access_env \<Rightarrow> string \<Rightarrow> bool \<Rightarrow> nat \<Rightarrow>
   ('n, 'r, unit, unit) consumption_stores \<Rightarrow> (enforce_decision \<times> ('n, 'r, unit, unit) consumption_stores) result" where
  "decide_field P N R E content_id consume k s =
     bind_result (enforceCapability P (ae_clock E k) (vault_registries N R) (content_input E content_id consume) s)
       (\<lambda>(contentDecision, s).
          if ed_allowed contentDecision then Inr (contentDecision, s)
          else if ed_code contentDecision = ''SCOPE_MISMATCH''
          then enforceCapability P (ae_clock E (Suc k)) (vault_registries N R) (pack_input E consume) s
          else Inr (contentDecision, s))"

text \<open>\<open>consumed\<close> is \<open>tokenConsumed\<close>; a redemption that throws does so before it changes a store.\<close>

fun access_loop ::
  "platform \<Rightarrow> 'n nonce_registry_ops \<Rightarrow> 'r revocation_registry_ops \<Rightarrow> access_env \<Rightarrow> string list \<Rightarrow> bool \<Rightarrow> nat \<Rightarrow>
   resolved_field list \<Rightarrow> unresolved_field list \<Rightarrow> ('n, 'r, unit, unit) consumption_stores \<Rightarrow>
   vault_access_result result \<times> ('n, 'r, unit, unit) consumption_stores" where
  "access_loop P N R E [] consumed k resolved unresolved s = (Inr (allowAccess resolved unresolved), s)"
| "access_loop P N R E (sdl_path # paths) consumed k resolved unresolved s = (case locate_field E sdl_path of
     Inl u \<Rightarrow> access_loop P N R E paths consumed k resolved (unresolved @ [u]) s
   | Inr (field_id, content_id) \<Rightarrow>
      (case decide_field P N R E content_id (\<not> consumed) k s of
         Inl e \<Rightarrow> (Inl e, s)
       | Inr (accessDecision, s') \<Rightarrow>
          if \<not> ed_allowed accessDecision
          then (Inr (denyAccess [mapCapabilityDenyCode (ed_code accessDecision)]), s')
          else access_loop P N R E paths True (k + 2)
            (resolved @ [\<lparr>rf_sdl_path = sdl_path, rf_field_id = field_id, rf_content_id = content_id\<rparr>]) unresolved s'))"

definition requestAccess ::
  "platform \<Rightarrow> (nat \<Rightarrow> int) \<Rightarrow> 'n nonce_registry_ops \<Rightarrow> 'r revocation_registry_ops \<Rightarrow> vault_access_request \<Rightarrow>
   jsdate option \<Rightarrow> ('n, 'r) vault \<Rightarrow> vault_access_result result \<times> ('n, 'r) vault" where
  "requestAccess P clock N R request now v =
     (let token = va_capability_token request;
          pack_ref = va_pack_ref request;
          consentDecision = enforceConsentPresent (v_consents v (t_consent_ref token));
          packDecision = enforcePackPresent (v_packs v pack_ref \<noteq> None) pack_ref
      in if sr_decision consentDecision = ''DENY'' then (Inr (denyAccess (sr_reason_codes consentDecision)), v)
         else if sr_decision packDecision = ''DENY'' then (Inr (denyAccess (sr_reason_codes packDecision)), v)
         else
          (let E = \<lparr>ae_clock = clock, ae_now = now, ae_token = token, ae_consent = the (v_consents v (t_consent_ref token)),
                 ae_pack_ref = pack_ref, ae_index = field_index (pk_fields (the (v_packs v pack_ref))),
                 ae_mappings = v_sdl_mappings v\<rparr>;
               (r, s) = access_loop P N R E (sort (va_sdl_paths request)) False 0 [] []
                 (vault_stores (v_nonces v) (v_revocations v))
           in (r, v\<lparr>v_nonces := s_nonces s, v_revocations := s_revocations s\<rparr>)))"

section \<open>The vault as a state machine\<close>

inductive vault_step ::
  "platform \<Rightarrow> 'n nonce_registry_ops \<Rightarrow> 'r revocation_registry_ops \<Rightarrow> ('n, 'r) vault \<Rightarrow> ('n, 'r) vault \<Rightarrow> bool"
  for P N R where
  pack_stored: "storePack P pack v = Inr (h, v') \<Longrightarrow> vault_step P N R v v'"
| consent_applied: "applyConsent P R consent v = Inr (h, v') \<Longrightarrow> vault_step P N R v v'"
| capability_minted: "mintCapability P clock random h scope permissions expires_at opts v = Inr (t, v') \<Longrightarrow> vault_step P N R v v'"
| mapping_registered: "registerSdlMapping path field_id v = Inr v' \<Longrightarrow> vault_step P N R v v'"
| capability_revoked: "revokeCapability R h v = Inr v' \<Longrightarrow> vault_step P N R v v'"
| access_requested: "requestAccess P readings N R request now v = (r, v') \<Longrightarrow> vault_step P N R v v'"

inductive_cases vault_stepE: "vault_step P N R v v'"

definition vault_reachable ::
  "platform \<Rightarrow> 'n nonce_registry_ops \<Rightarrow> 'r revocation_registry_ops \<Rightarrow> 'n \<Rightarrow> 'r \<Rightarrow> ('n, 'r) vault \<Rightarrow> bool" where
  "vault_reachable P N R n r v \<longleftrightarrow> (vault_step P N R)\<^sup>*\<^sup>* (createInMemoryVault n r) v"

section \<open>The paths the vault takes\<close>

lemma segment_star: "s \<in> star (lang (Cat (Lit ''.'') SEGMENT_PATTERN)) \<longleftrightarrow>
    (\<exists>ws. s = concat (map (\<lambda>w. CHR ''.'' # w) ws) \<and> (\<forall>w \<in> set ws. rx_test SEGMENT_PATTERN w))"
proof
  assume "s \<in> star (lang (Cat (Lit ''.'') SEGMENT_PATTERN))"
  then show "\<exists>ws. s = concat (map (\<lambda>w. CHR ''.'' # w) ws) \<and> (\<forall>w \<in> set ws. rx_test SEGMENT_PATTERN w)"
  proof induction
    case star_Nil
    then show ?case by (intro exI [of _ "[]"]) simp
  next
    case (star_Cons w u)
    then obtain x ws where "w = CHR ''.'' # x" "rx_test SEGMENT_PATTERN x" "u = concat (map (\<lambda>w. CHR ''.'' # w) ws)"
        "\<forall>w \<in> set ws. rx_test SEGMENT_PATTERN w"
      unfolding mem_Cat_Lit rx_test_lang by auto
    then show ?case by (intro exI [of _ "x # ws"]) simp
  qed
next
  assume "\<exists>ws. s = concat (map (\<lambda>w. CHR ''.'' # w) ws) \<and> (\<forall>w \<in> set ws. rx_test SEGMENT_PATTERN w)"
  then obtain ws where "s = concat (map (\<lambda>w. CHR ''.'' # w) ws)" "\<forall>w \<in> set ws. rx_test SEGMENT_PATTERN w" by blast
  then show "s \<in> star (lang (Cat (Lit ''.'') SEGMENT_PATTERN))"
    unfolding star_concat by (intro exI [of _ "map (\<lambda>w. CHR ''.'' # w) ws"]) (auto simp: mem_Cat_Lit rx_test_lang)
qed

lemma join_dots: "join ''.'' (w # ws) = w @ concat (map (\<lambda>w. CHR ''.'' # w) ws)"
  by (induction ws arbitrary: w) auto

lemma sdl_pattern: "rx_test SDL_PATH_PATTERN s \<longleftrightarrow> path_words (split_on (CHR ''.'') s)"
proof -
  have "rx_test SDL_PATH_PATTERN s \<longleftrightarrow> (\<exists>w t. s = w @ t \<and> rx_test SEGMENT_PATTERN w \<and> (\<exists>x u. t = (''.'' @ x) @ u \<and>
      rx_test SEGMENT_PATTERN x \<and> u \<in> star (lang (Cat (Lit ''.'') SEGMENT_PATTERN))))"
    unfolding rx_test_lang SDL_PATH_PATTERN_def Plus_def mem_Cat [of _ SEGMENT_PATTERN] mem_Cat [of _ "Cat (Lit ''.'') SEGMENT_PATTERN"]
      lang.simps(6) mem_Cat_Lit by blast
  also have "\<dots> \<longleftrightarrow> (\<exists>w x ws. s = w @ (''.'' @ x) @ concat (map (\<lambda>w. CHR ''.'' # w) ws) \<and>
      rx_test SEGMENT_PATTERN w \<and> rx_test SEGMENT_PATTERN x \<and> (\<forall>w \<in> set ws. rx_test SEGMENT_PATTERN w))"
    unfolding segment_star by blast
  also have "\<dots> \<longleftrightarrow> (\<exists>w x ws. s = join ''.'' (w # x # ws) \<and> path_words (w # x # ws))"
    by (simp only: join_dots path_words_def) simp
  also have "\<dots> \<longleftrightarrow> (\<exists>ws. s = join ''.'' ws \<and> path_words ws)"
  proof
    assume "\<exists>ws. s = join ''.'' ws \<and> path_words ws"
    then obtain ws where "s = join ''.'' ws" "path_words ws" by blast
    moreover from this obtain w x us where "ws = w # x # us" by (cases ws rule: remdups_adj.cases) (auto simp: path_words_def)
    ultimately show "\<exists>w x ws. s = join ''.'' (w # x # ws) \<and> path_words (w # x # ws)" by blast
  qed blast
  also have "\<dots> \<longleftrightarrow> path_words (split_on (CHR ''.'') s)"
    using join_path(1) join_split by metis
  finally show ?thesis .
qed

lemma vault_path_iff: "validateSdlPath s = None \<longleftrightarrow> (\<exists>p. parseSDLPath s = Inr p)"
proof -
  have "path_words (split_on (CHR ''.'') (trim s)) \<Longrightarrow> trim s \<noteq> []"
    using join_path(3) join_split by metis
  then show ?thesis by (auto simp: validateSdlPath_def parseSDLPath_Inr sdl_pattern)
qed

text \<open>
  the pattern of the vault, marked in the code as a stand-in for the SDL parser, accepts exactly the texts
  that the parser accepts.
\<close>

theorem vault_paths_are_sdl_paths:
  "validateSdlPath s = None \<longleftrightarrow> (\<exists>p. parseSDLPath s = Inr p)"
  by (rule vault_path_iff)

section \<open>What a request reads and changes\<close>

lemma vault_registries_simps [simp]:
  "g_nonces (vault_registries N R) = Some N" "g_revocations (vault_registries N R) = R" "g_rateLimit (vault_registries N R) = None"
  "s_nonces (vault_stores n r) = n" "s_revocations (vault_stores n r) = r"
  by (simp_all add: vault_registries_def vault_stores_def)

lemma redemption_input_simps [simp]:
  "i_token (redemption_input E scp ctx consume) = ae_token E" "i_consent (redemption_input E scp ctx consume) = Some (ae_consent E)"
  "i_required_scope (redemption_input E scp ctx consume) = scp" "i_now (redemption_input E scp ctx consume) = ae_now E"
  "i_consume (redemption_input E scp ctx consume) = Some consume" "i_action (redemption_input E scp ctx consume) = None"
  "i_usageHook (redemption_input E scp ctx consume) = None" "i_policyHook (redemption_input E scp ctx consume) = None"
  "i_marketMakerRegistry (redemption_input E scp ctx consume) = None"
  by (simp_all add: redemption_input_def)

lemma set_map_of_fold: "foldl (\<lambda>m f. m(g f \<mapsto> h f)) m0 fs k = Some y \<Longrightarrow> (\<exists>f \<in> set fs. g f = k \<and> h f = y) \<or> m0 k = Some y"
proof (induction fs arbitrary: m0)
  case (Cons a fs)
  then show ?case using Cons.IH [of "m0(g a \<mapsto> h a)"] by (auto split: if_splits)
qed simp

lemma field_index_Some: "field_index fs k = Some (f, c) \<Longrightarrow> \<exists>r \<in> set fs. fr_field_id r = k \<and> f = k \<and> fr_content_id r = c"
  using set_map_of_fold [of fr_field_id "\<lambda>f. (fr_field_id f, fr_content_id f)" Map.empty fs k "(f, c)"]
  by (auto simp: field_index_def)

text \<open>The token of a request as the vault honours it.\<close>

definition vault_honours :: "platform \<Rightarrow> 'r revocation_registry_ops \<Rightarrow> 'r \<Rightarrow> raw_capability \<Rightarrow> consent_object \<Rightarrow> bool" where
  "vault_honours P R revocations t c \<longleftrightarrow> token_terms t \<and> sealed P t \<and> ''read'' \<in> set (t_permissions t) \<and>
     \<not> isRevoked R (t_capability_hash t) revocations \<and> validateConsentObject P c = None \<and> bound_to t c \<and>
     c_pricing c = None \<and> t_marketMakerId t = None"

definition in_token_scope :: "access_env \<Rightarrow> string \<Rightarrow> bool" where
  "in_token_scope E content_id \<longleftrightarrow>
     \<lparr>se_type = ''content'', se_ref = trim content_id\<rparr> \<in> set (t_scope (ae_token E)) \<or>
     \<lparr>se_type = ''pack'', se_ref = trim (ae_pack_ref E)\<rparr> \<in> set (t_scope (ae_token E))"

lemma redemption_facts:
  assumes d: "enforceCapability P clock (vault_registries N R) (redemption_input E (w @ '':'' @ ref) ctx consume) s = Inr (d, s')"
    and ok: "ed_allowed d" and w: "w = ''content'' \<or> w = ''pack''"
  shows "\<lparr>se_type = w, se_ref = trim ref\<rparr> \<in> set (t_scope (ae_token E)) \<and>
    vault_honours P R (s_revocations s) (ae_token E) (ae_consent E) \<and> s_revocations s' = s_revocations s \<and>
    (if consume then \<exists>now. \<not> hasSeen N (s_nonces s) (t_token_id (ae_token E)) (Some now) \<and>
       s_nonces s' = cleanup N (Some now) (markSeen N (t_token_id (ae_token E)) (t_expires_at (ae_token E)) (s_nonces s))
     else s_nonces s' = s_nonces s)"
proof (rule enforced_obtain [OF d ok])
  fix type r now
  assume parts: "i_required_scope (redemption_input E (w @ '':'' @ ref) ctx consume) = type @ '':'' @ r"
      "CHR '':'' \<notin> set type" "CHR '':'' \<notin> set r"
    and entry: "\<lparr>se_type = trim type, se_ref = trim r\<rparr> \<in> set (t_scope (i_token (redemption_input E (w @ '':'' @ ref) ctx consume)))"
    and honoured: "honoured P (vault_registries N R) (redemption_input E (w @ '':'' @ ref) ctx consume) s"
    and nonces: "\<And>M. g_nonces (vault_registries N R) = Some M \<Longrightarrow>
       i_consume (redemption_input E (w @ '':'' @ ref) ctx consume) \<noteq> Some False \<Longrightarrow>
       \<not> hasSeen M (s_nonces s) (t_token_id (i_token (redemption_input E (w @ '':'' @ ref) ctx consume))) (Some now) \<and>
       s_nonces s' = cleanup M (Some now) (markSeen M (t_token_id (i_token (redemption_input E (w @ '':'' @ ref) ctx consume)))
         (t_expires_at (i_token (redemption_input E (w @ '':'' @ ref) ctx consume))) (s_nonces s))"
      "i_consume (redemption_input E (w @ '':'' @ ref) ctx consume) = Some False \<Longrightarrow> s_nonces s' = s_nonces s"
    and revocations: "s_revocations s' = s_revocations s"
  have "CHR '':'' \<notin> set w" and trim: "trim w = w" using w by (auto, code_simp+)
  then have "type = w \<and> r = ref"
    using parts split_on_append [of "CHR '':''" w ref] split_on_append [of "CHR '':''" type r] split_on_plain [of "CHR '':''" r]
    by (metis append_Cons append_Nil join.simps(2) join_split list.inject redemption_input_simps(3))
  moreover have "vault_honours P R (s_revocations s) (ae_token E) (ae_consent E)"
    using honoured read_action(2) by (auto simp: honoured_def vault_honours_def enforced_action_def)
  ultimately show ?thesis using entry trim nonces revocations by auto
qed

lemma redemption_refused:
  assumes "enforceCapability P clock G (redemption_input E scp ctx consume) s = Inr (d, s')" and "\<not> ed_allowed d"
  shows "s_nonces s' = s_nonces s \<and> s_revocations s' = s_revocations s"
  using enforcement_facts [OF assms(1)] assms(2) by simp

text \<open>What a decision on a field means and changes.\<close>

definition redeemed ::
  "platform \<Rightarrow> 'n nonce_registry_ops \<Rightarrow> 'r revocation_registry_ops \<Rightarrow> access_env \<Rightarrow> string \<Rightarrow> bool \<Rightarrow>
   ('n, 'r, unit, unit) consumption_stores \<Rightarrow> ('n, 'r, unit, unit) consumption_stores \<Rightarrow> bool" where
  "redeemed P N R E c consume s s' \<longleftrightarrow> in_token_scope E c \<and> vault_honours P R (s_revocations s) (ae_token E) (ae_consent E) \<and>
     (if consume then \<exists>now. \<not> hasSeen N (s_nonces s) (t_token_id (ae_token E)) (Some now) \<and>
        s_nonces s' = cleanup N (Some now) (markSeen N (t_token_id (ae_token E)) (t_expires_at (ae_token E)) (s_nonces s))
      else s_nonces s' = s_nonces s)"

lemma redemption_cases:
  assumes "enforceCapability P clock (vault_registries N R) (redemption_input E (w @ '':'' @ ref) ctx consume) s = Inr (d, s')"
    and "w = ''content'' \<and> ref = c \<or> w = ''pack'' \<and> ref = ae_pack_ref E"
  shows "s_revocations s' = s_revocations s \<and> (if ed_allowed d then redeemed P N R E c consume s s' else s_nonces s' = s_nonces s)"
proof (cases "ed_allowed d")
  case True
  then show ?thesis
    using redemption_facts [OF assms(1) True] assms(2) by (auto simp: redeemed_def in_token_scope_def)
next
  case False
  then show ?thesis using redemption_refused [OF assms(1)] by simp
qed

lemma decide_field_cases:
  assumes d: "decide_field P N R E c consume k s = Inr (d, s')"
  shows "s_revocations s' = s_revocations s \<and> (if ed_allowed d then redeemed P N R E c consume s s' else s_nonces s' = s_nonces s)"
proof -
  obtain d1 s1 where first: "enforceCapability P (ae_clock E k) (vault_registries N R) (content_input E c consume) s = Inr (d1, s1)"
    and rest: "(if ed_allowed d1 then Inr (d1, s1) else if ed_code d1 = ''SCOPE_MISMATCH''
      then enforceCapability P (ae_clock E (Suc k)) (vault_registries N R) (pack_input E consume) s1 else Inr (d1, s1)) = Inr (d, s')"
    using d by (auto simp: decide_field_def result_simps)
  have content: "s_revocations s1 = s_revocations s \<and> (if ed_allowed d1 then redeemed P N R E c consume s s1 else s_nonces s1 = s_nonces s)"
    by (rule redemption_cases [where w = "''content''" and ref = c]) (use first in \<open>simp_all add: content_input_def\<close>)
  show ?thesis
  proof (cases "ed_allowed d1 \<or> ed_code d1 \<noteq> ''SCOPE_MISMATCH''")
    case True
    then have "d = d1" "s' = s1" using rest by (auto split: if_splits)
    then show ?thesis using content by simp
  next
    case False
    then have pack: "enforceCapability P (ae_clock E (Suc k)) (vault_registries N R) (pack_input E consume) s1 = Inr (d, s')"
      using rest by simp
    have "s_revocations s' = s_revocations s1 \<and> (if ed_allowed d then redeemed P N R E c consume s1 s' else s_nonces s' = s_nonces s1)"
      by (rule redemption_cases [where w = "''pack''" and ref = "ae_pack_ref E"]) (use pack in \<open>simp_all add: pack_input_def\<close>)
    moreover have "redeemed P N R E c consume s1 s' \<longleftrightarrow> redeemed P N R E c consume s s'"
      using content False by (simp add: redeemed_def)
    ultimately show ?thesis using content False by (auto split: if_splits)
  qed
qed

text \<open>The token of the request is recorded as presented, for the first time.\<close>

definition token_spent :: "'n nonce_registry_ops \<Rightarrow> raw_capability \<Rightarrow> 'n \<Rightarrow> 'n \<Rightarrow> bool" where
  "token_spent N t n n' \<longleftrightarrow> (\<exists>now. \<not> hasSeen N n (t_token_id t) (Some now) \<and>
     n' = cleanup N (Some now) (markSeen N (t_token_id t) (t_expires_at t) n))"

lemma redeemed_spent:
  "redeemed P N R E c consume s s' \<longleftrightarrow> in_token_scope E c \<and> vault_honours P R (s_revocations s) (ae_token E) (ae_consent E) \<and>
     (if consume then token_spent N (ae_token E) (s_nonces s) (s_nonces s') else s_nonces s' = s_nonces s)"
  by (auto simp: redeemed_def token_spent_def)

lemma access_loop_stores:
  assumes "access_loop P N R E paths consumed k rs us s = (r, s')"
  shows "s_revocations s' = s_revocations s \<and> (s_nonces s' = s_nonces s \<or>
    \<not> consumed \<and> vault_honours P R (s_revocations s) (ae_token E) (ae_consent E) \<and> token_spent N (ae_token E) (s_nonces s) (s_nonces s'))"
  using assms
proof (induction paths arbitrary: consumed k rs us s)
  case (Cons p paths)
  show ?case
  proof (cases "locate_field E p")
    case (Inl u)
    then show ?thesis using Cons.IH Cons.prems by simp
  next
    case (Inr x)
    obtain f c where x: "x = (f, c)" by (cases x)
    show ?thesis
    proof (cases "decide_field P N R E c (\<not> consumed) k s")
      case (Inl e)
      then show ?thesis using \<open>locate_field E p = Inr x\<close> x Cons.prems by simp
    next
      case (Inr y)
      obtain d s1 where y: "y = (d, s1)" by (cases y)
      note d = decide_field_cases [OF Inr [unfolded y]]
      show ?thesis
      proof (cases "ed_allowed d")
        case False
        then show ?thesis using \<open>locate_field E p = Inr x\<close> x Inr y d Cons.prems by simp
      next
        case True
        have rest: "access_loop P N R E paths True (k + 2)
            (rs @ [\<lparr>rf_sdl_path = p, rf_field_id = f, rf_content_id = c\<rparr>]) us s1 = (r, s')"
          using \<open>locate_field E p = Inr x\<close> x Inr y True Cons.prems by simp
        have "s_revocations s' = s_revocations s1 \<and> s_nonces s' = s_nonces s1"
          using Cons.IH [OF rest] by simp
        then show ?thesis using d True by (auto simp: redeemed_spent split: if_splits)
      qed
    qed
  qed
qed simp

lemma access_loop_result:
  assumes "access_loop P N R E paths consumed k rs us s = (Inr v, s')"
  shows "vr_decision v = ''DENY'' \<and> vr_resolved_fields v = [] \<or>
    vr_decision v = ''ALLOW'' \<and> (\<exists>new. vr_resolved_fields v = rs @ new \<and>
      (\<forall>f \<in> set new. rf_sdl_path f \<in> set paths \<and> locate_field E (rf_sdl_path f) = Inr (rf_field_id f, rf_content_id f) \<and>
         in_token_scope E (rf_content_id f)) \<and>
      (new \<noteq> [] \<longrightarrow> vault_honours P R (s_revocations s) (ae_token E) (ae_consent E) \<and>
         (consumed \<or> token_spent N (ae_token E) (s_nonces s) (s_nonces s'))))"
  using assms
proof (induction paths arbitrary: consumed k rs us s)
  case Nil
  then show ?case by (auto simp: allowAccess_def)
next
  case (Cons p paths)
  show ?case
  proof (cases "locate_field E p")
    case (Inl u)
    then show ?thesis using Cons.IH [of consumed k rs "us @ [u]" s] Cons.prems by auto
  next
    case (Inr x)
    obtain f c where x: "x = (f, c)" by (cases x)
    obtain d s1 where y: "decide_field P N R E c (\<not> consumed) k s = Inr (d, s1)"
      using Cons.prems Inr x by (cases "decide_field P N R E c (\<not> consumed) k s") auto
    note d = decide_field_cases [OF y]
    show ?thesis
    proof (cases "ed_allowed d")
      case False
      then show ?thesis using Inr x y Cons.prems by (auto simp: denyAccess_def)
    next
      case True
      let ?f = "\<lparr>rf_sdl_path = p, rf_field_id = f, rf_content_id = c\<rparr>"
      have rest: "access_loop P N R E paths True (k + 2) (rs @ [?f]) us s1 = (Inr v, s')"
        using Inr x y True Cons.prems by simp
      have same: "s_nonces s' = s_nonces s1" using access_loop_stores [OF rest] by simp
      have now: "in_token_scope E c" "vault_honours P R (s_revocations s) (ae_token E) (ae_consent E)"
          "consumed \<or> token_spent N (ae_token E) (s_nonces s) (s_nonces s')"
        using d True same by (auto simp: redeemed_spent split: if_splits)
      show ?thesis
        using Cons.IH [OF rest]
      proof (elim disjE conjE exE)
        fix new
        assume ih: "vr_decision v = ''ALLOW''" "vr_resolved_fields v = (rs @ [?f]) @ new"
          "\<forall>f \<in> set new. rf_sdl_path f \<in> set paths \<and> locate_field E (rf_sdl_path f) = Inr (rf_field_id f, rf_content_id f) \<and>
             in_token_scope E (rf_content_id f)"
        show ?thesis
          by (rule disjI2) (use ih now Inr x in \<open>intro conjI exI [of _ "?f # new"]; auto\<close>)
      qed simp_all
    qed
  qed
qed

definition request_env ::
  "(nat \<Rightarrow> int) \<Rightarrow> vault_access_request \<Rightarrow> jsdate option \<Rightarrow> ('n, 'r) vault \<Rightarrow> consent_object \<Rightarrow> pack_manifest \<Rightarrow> access_env" where
  "request_env clock request now v c p = \<lparr>ae_clock = clock, ae_now = now, ae_token = va_capability_token request,
     ae_consent = c, ae_pack_ref = va_pack_ref request, ae_index = field_index (pk_fields p), ae_mappings = v_sdl_mappings v\<rparr>"

lemma requestAccess_cases:
  assumes "requestAccess P clock N R request now v = (r, v')"
  obtains (refused) codes where "r = Inr (denyAccess codes)" "v' = v"
    | (looped) c p s where "v_consents v (t_consent_ref (va_capability_token request)) = Some c"
        "v_packs v (va_pack_ref request) = Some p"
        "access_loop P N R (request_env clock request now v c p) (sort (va_sdl_paths request)) False 0 [] []
           (vault_stores (v_nonces v) (v_revocations v)) = (r, s)"
        "v' = v\<lparr>v_nonces := s_nonces s, v_revocations := s_revocations s\<rparr>"
proof (cases "v_consents v (t_consent_ref (va_capability_token request))")
  case None
  then show thesis using assms refused by (auto simp: requestAccess_def enforceConsentPresent_def sem_deny_def Let_def)
next
  case (Some c)
  show thesis
  proof (cases "v_packs v (va_pack_ref request)")
    case None
    then show thesis using assms refused Some
      by (auto simp: requestAccess_def enforceConsentPresent_def enforcePackPresent_def sem_deny_def sem_allow_def Let_def)
  next
    case (Some p)
    then show thesis using assms looped \<open>v_consents v (t_consent_ref (va_capability_token request)) = Some c\<close>
      by (auto simp: requestAccess_def enforceConsentPresent_def enforcePackPresent_def sem_allow_def Let_def
          request_env_def split: prod.splits)
  qed
qed

lemma locate_field_Inr:
  "locate_field E p = Inr (f, c) \<longleftrightarrow> validateSdlPath p = None \<and>
     (\<exists>k. ae_mappings E p = Some k \<and> k \<noteq> [] \<and> ae_index E k = Some (f, c))"
  by (auto simp: locate_field_def Let_def split: option.splits if_splits)

lemma request_changes:
  assumes "requestAccess P clock N R request now v = (r, v')"
  shows "v_packs v' = v_packs v \<and> v_consents v' = v_consents v \<and> v_capabilities v' = v_capabilities v \<and>
    v_sdl_mappings v' = v_sdl_mappings v \<and> v_revocations v' = v_revocations v \<and>
    (v_nonces v' = v_nonces v \<or> token_spent N (va_capability_token request) (v_nonces v) (v_nonces v'))"
  using assms
proof (cases rule: requestAccess_cases)
  case (looped c p s)
  then show ?thesis using access_loop_stores [OF looped(3)] by (simp add: request_env_def) blast
qed simp

lemma released_facts:
  assumes "requestAccess P clock N R request now v = (Inr r, v')" and "f \<in> set (vr_resolved_fields r)"
  shows "vr_decision r = ''ALLOW'' \<and> token_spent N (va_capability_token request) (v_nonces v) (v_nonces v') \<and>
    (\<exists>c p ref. v_consents v (t_consent_ref (va_capability_token request)) = Some c \<and> v_packs v (va_pack_ref request) = Some p \<and>
       vault_honours P R (v_revocations v) (va_capability_token request) c \<and>
       ref \<in> set (pk_fields p) \<and> fr_field_id ref = rf_field_id f \<and> fr_content_id ref = rf_content_id f \<and>
       rf_sdl_path f \<in> set (va_sdl_paths request) \<and> v_sdl_mappings v (rf_sdl_path f) = Some (rf_field_id f) \<and>
       (\<lparr>se_type = ''content'', se_ref = trim (rf_content_id f)\<rparr> \<in> set (t_scope (va_capability_token request)) \<or>
        \<lparr>se_type = ''pack'', se_ref = trim (va_pack_ref request)\<rparr> \<in> set (t_scope (va_capability_token request))))"
  using assms(1)
proof (cases rule: requestAccess_cases)
  case (refused codes)
  then show ?thesis using assms(2) by (simp add: denyAccess_def)
next
  case (looped c p s)
  let ?E = "request_env clock request now v c p"
  have "vr_resolved_fields r \<noteq> []" using assms(2) by auto
  then obtain new where new: "vr_decision r = ''ALLOW''" "vr_resolved_fields r = new" "f \<in> set new"
      "rf_sdl_path f \<in> set (va_sdl_paths request)" "locate_field ?E (rf_sdl_path f) = Inr (rf_field_id f, rf_content_id f)"
      "in_token_scope ?E (rf_content_id f)" "vault_honours P R (v_revocations v) (va_capability_token request) c"
      "token_spent N (va_capability_token request) (v_nonces v) (s_nonces s)"
    using access_loop_result [OF looped(3)] assms(2) by (auto simp: request_env_def)
  obtain k where k: "v_sdl_mappings v (rf_sdl_path f) = Some k" "field_index (pk_fields p) k = Some (rf_field_id f, rf_content_id f)"
    using new(5) by (auto simp: locate_field_Inr request_env_def)
  obtain ref where "ref \<in> set (pk_fields p)" "fr_field_id ref = k" "rf_field_id f = k" "fr_content_id ref = rf_content_id f"
    using field_index_Some [OF k(2)] by blast
  then show ?thesis
    using new k looped(1,2,4) by (intro conjI exI) (auto simp: in_token_scope_def request_env_def)
qed

text \<open>
  C1: what the vault releases is authorized: every resolved field is a field of the stored pack that the path is
  mapped to, within the scope of the token by its content or by the pack; the token is valid, permits reading,
  is not revoked, was not presented before and is recorded as presented; and the vault holds its consent, which
  is valid, a grant that the token restricts, and asks for no payment.
\<close>

theorem released_field_is_authorized:
  assumes "requestAccess P clock N R request now v = (Inr r, v')" and "f \<in> set (vr_resolved_fields r)"
    and "t = va_capability_token request"
  shows "vr_decision r = ''ALLOW'' \<and> token_terms t \<and> sealed P t \<and> ''read'' \<in> set (t_permissions t) \<and>
    \<not> isRevoked R (t_capability_hash t) (v_revocations v) \<and>
    (\<exists>at. \<not> hasSeen N (v_nonces v) (t_token_id t) (Some at) \<and>
      v_nonces v' = cleanup N (Some at) (markSeen N (t_token_id t) (t_expires_at t) (v_nonces v))) \<and>
    (\<exists>c p ref. v_consents v (t_consent_ref t) = Some c \<and> v_packs v (va_pack_ref request) = Some p \<and>
       validateConsentObject P c = None \<and> bound_to t c \<and> c_pricing c = None \<and> c_marketMakerId c = None \<and>
       ref \<in> set (pk_fields p) \<and> fr_field_id ref = rf_field_id f \<and> fr_content_id ref = rf_content_id f \<and>
       rf_sdl_path f \<in> set (va_sdl_paths request) \<and> v_sdl_mappings v (rf_sdl_path f) = Some (rf_field_id f) \<and>
       (\<lparr>se_type = ''content'', se_ref = trim (rf_content_id f)\<rparr> \<in> set (t_scope t) \<or>
        \<lparr>se_type = ''pack'', se_ref = trim (va_pack_ref request)\<rparr> \<in> set (t_scope t)))"
  using released_facts [OF assms(1,2)] unfolding assms(3) vault_honours_def token_spent_def bound_to_def by metis

section \<open>The invariant of the vault\<close>

definition vault_inv :: "platform \<Rightarrow> ('n, 'r) vault \<Rightarrow> bool" where
  "vault_inv P v \<longleftrightarrow>
     (\<forall>h p. v_packs v h = Some p \<longrightarrow> pk_pack_hash p = h \<and> (\<exists>b. canonicalizePackManifestPayload P p = Inr b \<and> h = computePackHash P b)) \<and>
     (\<forall>h c. v_consents v h = Some c \<longrightarrow> c_consent_hash c = h \<and> validateConsentObject P c = None) \<and>
     (\<forall>h t. v_capabilities v h = Some t \<longrightarrow> t_capability_hash t = h \<and> token_terms t \<and> sealed P t \<and> v_consents v (t_consent_ref t) \<noteq> None) \<and>
     (\<forall>p f. v_sdl_mappings v p = Some f \<longrightarrow> (\<exists>q. parseSDLPath p = Inr q))"

lemma inv_create: "vault_inv P (createInMemoryVault n r)"
  by (simp add: vault_inv_def createInMemoryVault_def)

lemma inv_storePack: "vault_inv P v \<Longrightarrow> storePack P pack v = Inr (h, v') \<Longrightarrow> vault_inv P v'"
  by (auto simp: storePack_def result_simps vault_inv_def split: if_splits)

lemma inv_applyConsent: "vault_inv P v \<Longrightarrow> applyConsent P R consent v = Inr (h, v') \<Longrightarrow> vault_inv P v'"
  by (auto simp: applyConsent_def after_Inr bind_result_Inr vault_inv_def split: if_splits)

lemma inv_mintCapability:
  assumes "sha256_length P" and "vault_inv P v"
    and mint: "mintCapability P clock random h scope permissions expires_at opts v = Inr (t, v')"
  shows "vault_inv P v'"
proof -
  obtain c where c: "v_consents v h = Some c"
      "mintCapabilityToken P clock random c scope permissions expires_at opts = Inr t"
      "v' = v\<lparr>v_capabilities := (v_capabilities v)(t_capability_hash t \<mapsto> t)\<rparr>"
    using mint by (auto simp: mintCapability_def result_simps split: option.splits)
  have "c_consent_hash c = h" using assms(2) c(1) by (simp add: vault_inv_def)
  then have "v_consents v (t_consent_ref t) = Some c" using mint_facts(2) [OF assms(1) c(2)] c(1) by (simp add: attenuates_def)
  then show ?thesis using assms(2) mint_facts(1,3) [OF assms(1) c(2)] c(3) by (simp add: vault_inv_def)
qed

lemma inv_registerSdlMapping: "vault_inv P v \<Longrightarrow> registerSdlMapping path f v = Inr v' \<Longrightarrow> vault_inv P v'"
  by (auto simp: registerSdlMapping_def vault_path_iff vault_inv_def split: option.splits if_splits)

lemma inv_step:
  assumes "sha256_length P" and "vault_step P N R v v'" and "vault_inv P v"
  shows "vault_inv P v'"
  using assms(2)
proof (cases rule: vault_step.cases)
  case capability_revoked
  then show ?thesis using assms(3) by (auto simp: revokeCapability_def result_simps vault_inv_def)
next
  case access_requested
  then show ?thesis using request_changes assms(3) by (fastforce simp: vault_inv_def)
next
  case (pack_stored pack h)
  then show ?thesis by (rule inv_storePack [OF assms(3)])
next
  case (consent_applied consent h)
  then show ?thesis by (rule inv_applyConsent [OF assms(3)])
next
  case (capability_minted clock random h scope permissions expires_at opts t)
  then show ?thesis by (rule inv_mintCapability [OF assms(1,3)])
next
  case (mapping_registered path f)
  then show ?thesis by (rule inv_registerSdlMapping [OF assms(3)])
qed

text \<open>
  C6: in every reachable vault, packs, consents and capabilities are filed under their own hashes, packs carry
  the hash of their contents, consents and capabilities are valid, every capability refers to a stored consent,
  and every mapped path is an SDL path.
\<close>

theorem reachable_vault_inv:
  assumes "sha256_length P" and "vault_reachable P N R n r v"
  shows "vault_inv P v"
  using assms(2) unfolding vault_reachable_def
proof (induction rule: rtranclp_induct)
  case base
  show ?case by (rule inv_create)
next
  case (step v v')
  show ?case by (rule inv_step [OF assms(1) step(2,3)])
qed

section \<open>Presentation and revocation are permanent\<close>

text \<open>A vault whose registries keep their contracts.\<close>

locale vault_host = nonce_registry N + revocation_registry R
  for N :: "'n nonce_registry_ops" and R :: "'r revocation_registry_ops"
begin

lemma spent_seen: "token_spent N t n n' \<Longrightarrow> hasSeen N n' i now \<longleftrightarrow> i = t_token_id t \<or> hasSeen N n i now"
  by (auto simp: token_spent_def seen_mark_cleanup)

lemma step_keeps_seen: "vault_step P N R v v' \<Longrightarrow> hasSeen N (v_nonces v) i now \<Longrightarrow> hasSeen N (v_nonces v') i now"
proof (induction rule: vault_step.induct)
  case (access_requested readings request nw v r v')
  then show ?case using request_changes [OF access_requested(1)] spent_seen by metis
qed (auto simp: storePack_def applyConsent_def mintCapability_def registerSdlMapping_def revokeCapability_def after_Inr
    bind_result_Inr split: option.splits)

lemma revoke_keeps: "revokeCapabilityToken R h r = Inr r' \<Longrightarrow> isRevoked R g r \<Longrightarrow> isRevoked R g r'"
  using revoke_then_revoked by blast

lemma step_keeps_revoked: "vault_step P N R v v' \<Longrightarrow> isRevoked R g (v_revocations v) \<Longrightarrow> isRevoked R g (v_revocations v')"
proof (induction rule: vault_step.induct)
  case (access_requested readings request nw v r v')
  then show ?case using request_changes [OF access_requested(1)] by simp
qed (auto simp: storePack_def applyConsent_def revoke_by_consent_def mintCapability_def registerSdlMapping_def revokeCapability_def
    after_Inr bind_result_Inr dest: revoke_keeps split: option.splits if_splits)

lemma steps_keep_seen: "(vault_step P N R)\<^sup>*\<^sup>* v v' \<Longrightarrow> hasSeen N (v_nonces v) i now \<Longrightarrow> hasSeen N (v_nonces v') i now"
  by (induction rule: rtranclp_induct) (blast intro: step_keeps_seen)+

lemma steps_keep_revoked:
  "(vault_step P N R)\<^sup>*\<^sup>* v v' \<Longrightarrow> isRevoked R g (v_revocations v) \<Longrightarrow> isRevoked R g (v_revocations v')"
  by (induction rule: rtranclp_induct) (blast intro: step_keeps_revoked)+

lemma released_once:
  assumes first: "requestAccess P readings N R request now v = (Inr r, v1)" "vr_resolved_fields r \<noteq> []"
    and later: "(vault_step P N R)\<^sup>*\<^sup>* v1 v2" "requestAccess P readings' N R request' now' v2 = (Inr r', v3)"
    and same: "t_token_id (va_capability_token request') = t_token_id (va_capability_token request)"
  shows "vr_resolved_fields r' = []"
proof (rule ccontr)
  assume again: "vr_resolved_fields r' \<noteq> []"
  obtain f f' where f: "f \<in> set (vr_resolved_fields r)" "f' \<in> set (vr_resolved_fields r')"
    using first(2) again by (meson hd_in_set)
  have "hasSeen N (v_nonces v1) (t_token_id (va_capability_token request)) at" for at
    using released_facts [OF first(1) f(1)] spent_seen by blast
  then have "hasSeen N (v_nonces v2) (t_token_id (va_capability_token request')) at" for at
    using steps_keep_seen [OF later(1)] same by simp
  then show False using released_facts [OF later(2) f(2)] by (auto simp: token_spent_def)
qed

lemma revoked_never_released:
  assumes "isRevoked R (t_capability_hash (va_capability_token request)) (v_revocations v1)"
    and later: "(vault_step P N R)\<^sup>*\<^sup>* v1 v2" "requestAccess P readings N R request now v2 = (Inr r, v3)"
  shows "vr_resolved_fields r = []"
proof (rule ccontr)
  assume "vr_resolved_fields r \<noteq> []"
  then obtain f where f: "f \<in> set (vr_resolved_fields r)" by (meson hd_in_set)
  have "isRevoked R (t_capability_hash (va_capability_token request)) (v_revocations v2)"
    by (rule steps_keep_revoked [OF later(1) assms(1)])
  then show False using released_facts [OF later(2) f] by (auto simp: vault_honours_def)
qed

lemma revokeCapability_revokes: "revokeCapability R h v = Inr v' \<Longrightarrow> isRevoked R h (v_revocations v')"
  using revoke_then_revoked by (auto simp: revokeCapability_def result_simps)

lemma consent_revokes:
  "applyConsent P R consent v = Inr (g, v') \<Longrightarrow> c_action consent = ''revoke'' \<Longrightarrow> c_revoke_target consent = Some h \<Longrightarrow>
   isRevoked R h (v_revocations v')"
  using revoke_then_revoked
  by (auto simp: applyConsent_def revoke_by_consent_def after_Inr bind_result_Inr split: option.splits)

end

interpretation memory_vault: vault_host InMemoryNonceRegistry InMemoryRevocationRegistry
  by unfold_locales

text \<open>
  C4: a token releases fields in one request only: after a request that released something, no request with a
  token of that identifier releases anything, whatever the vault does in between.
\<close>

theorem vault_releases_once:
  assumes "requestAccess P readings InMemoryNonceRegistry InMemoryRevocationRegistry request now v = (Inr r, v1)"
    and "vr_resolved_fields r \<noteq> []"
    and "(vault_step P InMemoryNonceRegistry InMemoryRevocationRegistry)\<^sup>*\<^sup>* v1 v2"
    and "requestAccess P readings' InMemoryNonceRegistry InMemoryRevocationRegistry request' now' v2 = (Inr r', v3)"
    and "t_token_id (va_capability_token request') = t_token_id (va_capability_token request)"
  shows "vr_resolved_fields r' = []"
  using assms by (rule memory_vault.released_once)

text \<open>
  C5: revocation is final: after \<open>revokeCapability\<close>, or a revoking consent, for the hash of a token, no
  request with that token releases anything, whatever the vault does in between.
\<close>

theorem revoked_capability_releases_nothing:
  assumes "revokeCapability InMemoryRevocationRegistry h v = Inr v1 \<or>
      (\<exists>consent. applyConsent P InMemoryRevocationRegistry consent v = Inr (g, v1) \<and> c_action consent = ''revoke'' \<and>
         c_revoke_target consent = Some h)"
    and "(vault_step P InMemoryNonceRegistry InMemoryRevocationRegistry)\<^sup>*\<^sup>* v1 v2"
    and "requestAccess P readings InMemoryNonceRegistry InMemoryRevocationRegistry request now v2 = (Inr r, v3)"
    and "t_capability_hash (va_capability_token request) = h"
  shows "vr_resolved_fields r = []"
proof -
  have "isRevoked InMemoryRevocationRegistry h (v_revocations v1)"
    using assms(1) memory_vault.revokeCapability_revokes memory_vault.consent_revokes by blast
  then show ?thesis
    using memory_vault.revoked_never_released [OF _ assms(2,3)] assms(4) by simp
qed

section \<open>Requests that are granted\<close>

definition located_fields :: "access_env \<Rightarrow> string list \<Rightarrow> resolved_field list" where
  "located_fields E paths = concat (map (\<lambda>p. case locate_field E p of Inl u \<Rightarrow> []
     | Inr (f, c) \<Rightarrow> [\<lparr>rf_sdl_path = p, rf_field_id = f, rf_content_id = c\<rparr>]) paths)"

definition unlocated_fields :: "access_env \<Rightarrow> string list \<Rightarrow> unresolved_field list" where
  "unlocated_fields E paths = concat (map (\<lambda>p. case locate_field E p of Inl u \<Rightarrow> [u] | Inr _ \<Rightarrow> []) paths)"

lemma located_simps [simp]: "located_fields E [] = []" "unlocated_fields E [] = []"
  "locate_field E p = Inl u \<Longrightarrow> located_fields E (p # ps) = located_fields E ps"
  "locate_field E p = Inl u \<Longrightarrow> unlocated_fields E (p # ps) = u # unlocated_fields E ps"
  "locate_field E p = Inr (f, c) \<Longrightarrow> located_fields E (p # ps) =
     \<lparr>rf_sdl_path = p, rf_field_id = f, rf_content_id = c\<rparr> # located_fields E ps"
  "locate_field E p = Inr (f, c) \<Longrightarrow> unlocated_fields E (p # ps) = unlocated_fields E ps"
  by (simp_all add: located_fields_def unlocated_fields_def)

text \<open>The token and the moment of a request under which a redemption succeeds.\<close>

definition ready :: "platform \<Rightarrow> 'r revocation_registry_ops \<Rightarrow> access_env \<Rightarrow> int \<Rightarrow> 'r \<Rightarrow> bool" where
  "ready P R E now revocations \<longleftrightarrow> ae_now E = Some (Some now) \<and> plain_grant P (ae_token E) (ae_consent E) \<and>
     timely P now (ae_token E) (ae_consent E) \<and> ''read'' \<in> set (t_permissions (ae_token E)) \<and>
     \<not> isRevoked R (t_capability_hash (ae_token E)) revocations"

lemma ready_decides:
  assumes "ready P R E now (s_revocations s)" and "\<lparr>se_type = ''content'', se_ref = c\<rparr> \<in> set (t_scope (ae_token E))"
    and "consume \<Longrightarrow> \<not> hasSeen N (s_nonces s) (t_token_id (ae_token E)) (Some now)"
  obtains d s' where "decide_field P N R E c consume k s = Inr (d, s')" "ed_allowed d"
proof -
  have "\<exists>d s'. enforceCapability P (ae_clock E k) (vault_registries N R) (content_input E c consume) s = Inr (d, s') \<and> ed_allowed d"
    by (rule plain_enforced [of P "ae_token E" "ae_consent E" now "\<lparr>se_type = ''content'', se_ref = c\<rparr>"])
      (use assms in \<open>simp_all add: ready_def content_input_def scope_key_def normalizeNow_def to_date_def\<close>)
  then show thesis using that by (auto simp: decide_field_def)
qed

lemma access_loop_grants:
  assumes "ready P R E now (s_revocations s)"
    and "\<And>p f c. p \<in> set paths \<Longrightarrow> locate_field E p = Inr (f, c) \<Longrightarrow> \<lparr>se_type = ''content'', se_ref = c\<rparr> \<in> set (t_scope (ae_token E))"
    and "\<not> consumed \<Longrightarrow> \<not> hasSeen N (s_nonces s) (t_token_id (ae_token E)) (Some now)"
  shows "\<exists>s'. access_loop P N R E paths consumed k rs us s =
    (Inr (allowAccess (rs @ located_fields E paths) (us @ unlocated_fields E paths)), s')"
  using assms
proof (induction paths arbitrary: consumed k rs us s)
  case (Cons p paths)
  show ?case
  proof (cases "locate_field E p")
    case (Inl u)
    have "\<exists>s'. access_loop P N R E paths consumed k rs (us @ [u]) s =
        (Inr (allowAccess (rs @ located_fields E paths) ((us @ [u]) @ unlocated_fields E paths)), s')"
      by (rule Cons.IH) (use Cons.prems in auto)
    then show ?thesis using Inl by simp
  next
    case (Inr x)
    obtain f c where x: "locate_field E p = Inr (f, c)" using Inr by (cases x) auto
    obtain d s1 where d: "decide_field P N R E c (\<not> consumed) k s = Inr (d, s1)" "ed_allowed d"
      using ready_decides [OF Cons.prems(1) Cons.prems(2) [OF _ x], of "\<not> consumed" N k] Cons.prems(3) by auto
    have same: "s_revocations s1 = s_revocations s" using decide_field_cases [OF d(1)] by simp
    have "\<exists>s'. access_loop P N R E paths True (k + 2) (rs @ [\<lparr>rf_sdl_path = p, rf_field_id = f, rf_content_id = c\<rparr>]) us s1 =
        (Inr (allowAccess ((rs @ [\<lparr>rf_sdl_path = p, rf_field_id = f, rf_content_id = c\<rparr>]) @ located_fields E paths)
          (us @ unlocated_fields E paths)), s')"
      by (rule Cons.IH) (use Cons.prems same in auto)
    then show ?thesis using x d by simp
  qed
qed simp

lemma request_run:
  assumes "v_consents v (t_consent_ref (va_capability_token request)) = Some c" and "v_packs v (va_pack_ref request) = Some p"
  shows "requestAccess P clock N R request now v =
    (let (r, s) = access_loop P N R (request_env clock request now v c p) (sort (va_sdl_paths request)) False 0 [] []
       (vault_stores (v_nonces v) (v_revocations v)) in (r, v\<lparr>v_nonces := s_nonces s, v_revocations := s_revocations s\<rparr>))"
  using assms by (simp add: requestAccess_def enforceConsentPresent_def enforcePackPresent_def sem_allow_def request_env_def)

lemma located_paths: "map rf_sdl_path (located_fields E ps) = filter (\<lambda>p. \<exists>x. locate_field E p = Inr x) ps"
  and unlocated_paths: "map uf_sdl_path (unlocated_fields E ps) = filter (\<lambda>p. \<nexists>x. locate_field E p = Inr x) ps"
proof -
  have u: "locate_field E p = Inl u \<Longrightarrow> uf_sdl_path u = p" for p u
    by (auto simp: locate_field_def Let_def unresolved_at_def split: option.splits if_splits)
  show "map rf_sdl_path (located_fields E ps) = filter (\<lambda>p. \<exists>x. locate_field E p = Inr x) ps"
    by (induction ps) (auto simp: located_fields_def split: sum.splits)
  show "map uf_sdl_path (unlocated_fields E ps) = filter (\<lambda>p. \<nexists>x. locate_field E p = Inr x) ps"
    by (induction ps) (auto simp: unlocated_fields_def u split: sum.splits)
qed

lemma granted_request:
  assumes t: "va_capability_token request = t"
    and stored: "v_consents v (t_consent_ref t) = Some c" "v_packs v (va_pack_ref request) = Some p"
    and grant: "plain_grant P t c" "timely P now t c" "''read'' \<in> set (t_permissions t)"
    and unspent: "\<not> isRevoked R (t_capability_hash t) (v_revocations v)" "\<not> hasSeen N (v_nonces v) (t_token_id t) (Some now)"
    and covered: "\<forall>f \<in> set (pk_fields p). \<lparr>se_type = ''content'', se_ref = fr_content_id f\<rparr> \<in> set (t_scope t)"
  shows "\<exists>r v'. requestAccess P readings N R request (Some (Some now)) v = (Inr r, v') \<and> vr_decision r = ''ALLOW'' \<and>
    map rf_sdl_path (vr_resolved_fields r) = filter (\<lambda>s. validateSdlPath s = None \<and>
      (\<exists>k. v_sdl_mappings v s = Some k \<and> k \<noteq> [] \<and> field_index (pk_fields p) k \<noteq> None)) (sort (va_sdl_paths request)) \<and>
    length (vr_resolved_fields r) + length (vr_unresolved_fields r) = length (va_sdl_paths request)"
proof -
  let ?E = "request_env readings request (Some (Some now)) v c p"
  have E: "ae_token ?E = t" "ae_consent ?E = c" "ae_now ?E = Some (Some now)" "ae_mappings ?E = v_sdl_mappings v"
      "ae_index ?E = field_index (pk_fields p)" by (simp_all add: request_env_def t)
  have "ready P R ?E now (s_revocations (vault_stores (v_nonces v) (v_revocations v)))"
    using grant unspent by (simp add: ready_def E)
  moreover have "\<lparr>se_type = ''content'', se_ref = ct\<rparr> \<in> set (t_scope (ae_token ?E))" if "locate_field ?E s = Inr (f, ct)" for s f ct
    using that covered field_index_Some by (fastforce simp: locate_field_Inr E)
  ultimately obtain s' where run: "access_loop P N R ?E (sort (va_sdl_paths request)) False 0 [] []
      (vault_stores (v_nonces v) (v_revocations v)) =
      (Inr (allowAccess (located_fields ?E (sort (va_sdl_paths request))) (unlocated_fields ?E (sort (va_sdl_paths request)))), s')"
    using access_loop_grants [of P R ?E now "vault_stores (v_nonces v) (v_revocations v)" "sort (va_sdl_paths request)" False N 0 "[]" "[]"]
      unspent(2) by (auto simp: E)
  have sizes: "length (located_fields ?E ps) + length (unlocated_fields ?E ps) = length ps" for ps
    using located_paths [of ?E ps] unlocated_paths [of ?E ps] sum_length_filter_compl [of "\<lambda>p. \<exists>x. locate_field ?E p = Inr x" ps]
    by (metis length_map)
  have loc: "(\<exists>x. locate_field ?E s = Inr x) \<longleftrightarrow> validateSdlPath s = None \<and>
      (\<exists>k. v_sdl_mappings v s = Some k \<and> k \<noteq> [] \<and> field_index (pk_fields p) k \<noteq> None)" for s
    using locate_field_Inr [of ?E s] by (auto simp: E)
  have located: "map rf_sdl_path (located_fields ?E ps) = filter (\<lambda>s. validateSdlPath s = None \<and>
      (\<exists>k. v_sdl_mappings v s = Some k \<and> k \<noteq> [] \<and> field_index (pk_fields p) k \<noteq> None)) ps" for ps
    by (simp only: located_paths loc)
  show ?thesis
    using stored run sizes [of "sort (va_sdl_paths request)"] located [of "sort (va_sdl_paths request)"]
    by (simp add: request_run t allowAccess_def)
qed

text \<open>
  A timely request with an unspent, unrevoked token of a stored consent, whose scope covers every content of
  the pack, is granted: exactly the SDL paths that are mapped to a field of the pack are resolved, in order, and
  the others are reported.
\<close>

theorem covered_request_is_granted:
  assumes t: "va_capability_token request = t"
    and stored: "v_consents v (t_consent_ref t) = Some c" "v_packs v (va_pack_ref request) = Some p"
    and grant: "plain_grant P t c" "timely P now t c" "''read'' \<in> set (t_permissions t)"
    and unspent: "\<not> isRevoked R (t_capability_hash t) (v_revocations v)" "\<not> hasSeen N (v_nonces v) (t_token_id t) (Some now)"
    and covered: "\<forall>f \<in> set (pk_fields p). \<lparr>se_type = ''content'', se_ref = fr_content_id f\<rparr> \<in> set (t_scope t)"
  shows "\<exists>r v'. requestAccess P readings N R request (Some (Some now)) v = (Inr r, v') \<and> vr_decision r = ''ALLOW'' \<and>
    map rf_sdl_path (vr_resolved_fields r) = filter (\<lambda>s. validateSdlPath s = None \<and>
      (\<exists>k. v_sdl_mappings v s = Some k \<and> k \<noteq> [] \<and> field_index (pk_fields p) k \<noteq> None)) (sort (va_sdl_paths request)) \<and>
    length (vr_resolved_fields r) + length (vr_unresolved_fields r) = length (va_sdl_paths request)"
  using assms by (rule granted_request)

section \<open>A sample vault\<close>

definition vault_pack :: pack_manifest where
  "vault_pack = \<lparr>pk_version = ''1.0'', pk_subject = ''did:key:alice'', pk_created_at = int_num 1736951400,
     pk_fields = [\<lparr>fr_field_id = ''legal-name'', fr_content_id = sample_ref,
       fr_storage = \<lparr>sp_uri = storage_uri ''local'' sample_ref, sp_backend = ''local'', sp_hash = sample_ref\<rparr>, fr_bytes = int_num 9\<rparr>],
     pk_pack_hash = replicate 64 (CHR ''0'')\<rparr>"

definition sample_vault :: "(string set, string set) vault" where
  "sample_vault = (createInMemoryVault {} {})
     \<lparr>v_packs := [replicate 64 (CHR ''0'') \<mapsto> vault_pack], v_consents := [replicate 64 (CHR ''0'') \<mapsto> plain_consent],
      v_sdl_mappings := [''person.name'' \<mapsto> ''legal-name'']\<rparr>"

definition sample_vault_request :: vault_access_request where
  "sample_vault_request = \<lparr>va_capability_token = plain_raw, va_sdl_paths = [''person.name'', ''no path''],
     va_pack_ref = replicate 64 (CHR ''0'')\<rparr>"

lemma sample_path: "validateSdlPath ''person.name'' = None" "validateSdlPath ''no path'' \<noteq> None"
  by code_simp+

lemma vault_pack_stored:
  "storePack zero_platform vault_pack (createInMemoryVault {} {}) = Inr (replicate 64 (CHR ''0''),
     (createInMemoryVault {} {})\<lparr>v_packs := [replicate 64 (CHR ''0'') \<mapsto> vault_pack]\<rparr>)"
proof -
  obtain b where "canonicalizePackManifestPayload zero_platform vault_pack = Inr b"
    using canonicalizePackManifestPayload_total [of vault_pack zero_platform] by (auto simp: vault_pack_def int_num_def)
  then show ?thesis
    by (simp add: storePack_def computePackHash_def zero_hash createInMemoryVault_def) (simp add: vault_pack_def)
qed

lemma sample_vault_reachable:
  "vault_reachable zero_platform InMemoryNonceRegistry InMemoryRevocationRegistry {} {} sample_vault"
proof -
  let ?v0 = "createInMemoryVault {} {} :: (string set, string set) vault"
  let ?v1 = "?v0\<lparr>v_packs := [replicate 64 (CHR ''0'') \<mapsto> vault_pack]\<rparr>"
  let ?v2 = "?v1\<lparr>v_consents := [replicate 64 (CHR ''0'') \<mapsto> plain_consent]\<rparr>"
  have "vault_step zero_platform InMemoryNonceRegistry InMemoryRevocationRegistry ?v0 ?v1"
    by (rule pack_stored [OF vault_pack_stored])
  moreover have "applyConsent zero_platform InMemoryRevocationRegistry plain_consent ?v1 = Inr (replicate 64 (CHR ''0''), ?v2)"
    using plain_consent_valid by (simp add: applyConsent_def createInMemoryVault_def)
  moreover have "registerSdlMapping ''person.name'' ''legal-name'' ?v2 = Inr sample_vault"
    using sample_path(1) by (simp add: registerSdlMapping_def sample_vault_def createInMemoryVault_def)
  ultimately show ?thesis
    unfolding vault_reachable_def
    by (meson consent_applied mapping_registered converse_rtranclp_into_rtranclp rtranclp.rtrancl_refl)
qed

lemma reachable_vault_inv_witness: "vault_inv zero_platform sample_vault"
  by (rule reachable_vault_inv [OF _ sample_vault_reachable]) simp

lemma sample_vault_simps [simp]:
  "v_consents sample_vault (replicate 64 (CHR ''0'')) = Some plain_consent" "v_packs sample_vault (replicate 64 (CHR ''0'')) = Some vault_pack"
  "v_nonces sample_vault = {}" "v_revocations sample_vault = {}" "v_sdl_mappings sample_vault = [''person.name'' \<mapsto> ''legal-name'']"
  "va_capability_token sample_vault_request = plain_raw" "va_pack_ref sample_vault_request = replicate 64 (CHR ''0'')"
  "va_sdl_paths sample_vault_request = [''person.name'', ''no path'']"
  by (simp_all add: sample_vault_def createInMemoryVault_def sample_vault_request_def)

lemma sample_covered: "\<forall>f \<in> set (pk_fields vault_pack). \<lparr>se_type = ''content'', se_ref = fr_content_id f\<rparr> \<in> set (t_scope plain_raw)"
  and sample_unspent: "\<not> isRevoked InMemoryRevocationRegistry h (v_revocations sample_vault)" "\<not> hasSeen InMemoryNonceRegistry (v_nonces sample_vault) i at"
  and sample_read: "''read'' \<in> set (t_permissions plain_raw)"
  by (simp_all add: vault_pack_def plain_scope_def isRevoked_def InMemoryRevocationRegistry_def InMemoryNonceRegistry_def)

lemma sample_stored: "v_consents sample_vault (t_consent_ref plain_raw) = Some plain_consent"
  "v_packs sample_vault (va_pack_ref sample_vault_request) = Some vault_pack"
  by simp_all

lemma sample_filter: "filter (\<lambda>s. validateSdlPath s = None \<and>
    (\<exists>k. v_sdl_mappings sample_vault s = Some k \<and> k \<noteq> [] \<and> field_index (pk_fields vault_pack) k \<noteq> None))
    (sort (va_sdl_paths sample_vault_request)) = [''person.name'']"
proof -
  have "sort [''person.name'', ''no path''] = [''no path'', ''person.name'']" by code_simp
  then show ?thesis using sample_path by (simp add: field_index_def vault_pack_def)
qed

lemma sample_granted:
  obtains r v' where "requestAccess zero_platform readings InMemoryNonceRegistry InMemoryRevocationRegistry sample_vault_request
      (Some (Some 1736951400000)) sample_vault = (Inr r, v')" "map rf_sdl_path (vr_resolved_fields r) = [''person.name'']"
  using granted_request [of sample_vault_request plain_raw, OF _ sample_stored plain_sample timely_sample sample_read
      sample_unspent sample_covered, of readings] unfolding sample_filter
  by (metis sample_vault_simps(6))

lemma covered_request_is_granted_witness:
  "\<exists>r v'. requestAccess zero_platform (\<lambda>i. 0) InMemoryNonceRegistry InMemoryRevocationRegistry sample_vault_request
      (Some (Some 1736951400000)) sample_vault = (Inr r, v') \<and> map rf_sdl_path (vr_resolved_fields r) = [''person.name'']"
  using covered_request_is_granted [of sample_vault_request plain_raw, OF _ sample_stored plain_sample timely_sample sample_read
      sample_unspent sample_covered, of "\<lambda>i. 0"] unfolding sample_filter
  by (metis sample_vault_simps(6))

lemma released_field_is_authorized_witness:
  "\<exists>f :: resolved_field. rf_sdl_path f = ''person.name'' \<and> v_sdl_mappings sample_vault (rf_sdl_path f) = Some (rf_field_id f) \<and>
     sealed zero_platform plain_raw"
proof (rule sample_granted [of "\<lambda>i. 0"])
  fix r v'
  assume r: "requestAccess zero_platform (\<lambda>i. 0) InMemoryNonceRegistry InMemoryRevocationRegistry sample_vault_request
      (Some (Some 1736951400000)) sample_vault = (Inr r, v')" "map rf_sdl_path (vr_resolved_fields r) = [''person.name'']"
  then obtain f where f: "f \<in> set (vr_resolved_fields r)" "rf_sdl_path f = ''person.name''" by auto
  have "v_sdl_mappings sample_vault (rf_sdl_path f) = Some (rf_field_id f)"
    and "sealed zero_platform (va_capability_token sample_vault_request)"
    using released_field_is_authorized [OF r(1) f(1) refl] by blast+
  then show ?thesis using f(2) by (intro exI [of _ f] conjI) (simp_all only: sample_vault_simps(6))
qed

lemma vault_releases_once_witness:
  "\<exists>r v1 r' v3. requestAccess zero_platform (\<lambda>i. 0) InMemoryNonceRegistry InMemoryRevocationRegistry sample_vault_request
      (Some (Some 1736951400000)) sample_vault = (Inr r, v1) \<and> vr_resolved_fields r \<noteq> [] \<and>
    requestAccess zero_platform (\<lambda>i. 0) InMemoryNonceRegistry InMemoryRevocationRegistry sample_vault_request
      (Some (Some 1736951400000)) v1 = (r', v3) \<and> \<not> (\<exists>q. r' = Inr q \<and> vr_resolved_fields q \<noteq> [])"
proof (rule sample_granted [of "\<lambda>i. 0"])
  fix r v1
  assume r: "requestAccess zero_platform (\<lambda>i. 0) InMemoryNonceRegistry InMemoryRevocationRegistry sample_vault_request
      (Some (Some 1736951400000)) sample_vault = (Inr r, v1)" "map rf_sdl_path (vr_resolved_fields r) = [''person.name'']"
  then have ne: "vr_resolved_fields r \<noteq> []" by auto
  obtain r' v3 where again: "requestAccess zero_platform (\<lambda>i. 0) InMemoryNonceRegistry InMemoryRevocationRegistry
      sample_vault_request (Some (Some 1736951400000)) v1 = (r', v3)" by (meson surj_pair)
  have "\<not> (\<exists>q. r' = Inr q \<and> vr_resolved_fields q \<noteq> [])"
    using vault_releases_once [OF r(1) ne rtranclp.rtrancl_refl _ refl] again by blast
  then show ?thesis using r(1) ne again by blast
qed

lemma revoked_capability_releases_nothing_witness:
  "\<exists>v1 r v2. revokeCapability InMemoryRevocationRegistry (replicate 64 (CHR ''0'')) sample_vault = Inr v1 \<and>
     requestAccess zero_platform (\<lambda>i. 0) InMemoryNonceRegistry InMemoryRevocationRegistry sample_vault_request
       (Some (Some 1736951400000)) v1 = (r, v2) \<and> \<not> (\<exists>q. r = Inr q \<and> vr_resolved_fields q \<noteq> [])"
proof -
  obtain v1 where v1: "revokeCapability InMemoryRevocationRegistry (replicate 64 (CHR ''0'')) sample_vault = Inr v1"
    by (simp add: revokeCapability_def revokeCapabilityToken_def validateCapabilityHash_def)
  obtain r v2 where r: "requestAccess zero_platform (\<lambda>i. 0) InMemoryNonceRegistry InMemoryRevocationRegistry
      sample_vault_request (Some (Some 1736951400000)) v1 = (r, v2)" by (meson surj_pair)
  have "t_capability_hash (va_capability_token sample_vault_request) = replicate 64 (CHR ''0'')" by simp
  then have "\<not> (\<exists>q. r = Inr q \<and> vr_resolved_fields q \<noteq> [])"
    using revoked_capability_releases_nothing [OF disjI1 [OF v1] rtranclp.rtrancl_refl] r by blast
  then show ?thesis using v1 r by blast
qed

section \<open>A request that is denied halfway\<close>

lemma enforce_total:
  assumes "normalizeNow P clock (map_option NowDate (i_now inp)) = Inr now"
  shows "\<exists>d s'. enforceCapability P clock G inp s = Inr (d, s')"
proof -
  have "\<exists>d s'. consumeCapabilityAccess P clock (G\<lparr>g_usage := None\<rparr>) (buildLegacyAccessRequest inp type ref) s = Inr (d, s')" for type ref
    using assms by (simp add: consumeCapabilityAccess_Inr buildLegacyAccessRequest_def) (metis prod.collapse)
  then have "\<exists>d s'. bind_result (consumeCapabilityAccess P clock (G\<lparr>g_usage := None\<rparr>) (buildLegacyAccessRequest inp type ref) s)
      (\<lambda>(decision, s). Inr (bridge_decision inp decision, s)) = Inr (d, s')" for type ref
    by (metis (mono_tags, lifting) bind_result_simps(2) case_prod_conv)
  then show ?thesis by (simp add: enforceCapability_def Let_def split: list.split)
qed

lemma decide_total:
  assumes "ae_now E = Some (Some now)"
  shows "\<exists>d s'. decide_field P N R E c consume k s = Inr (d, s')"
proof -
  have now: "normalizeNow P clock (map_option NowDate (i_now (redemption_input E scp ctx b))) = Inr now" for clock scp ctx b
    using assms by (simp add: normalizeNow_def to_date_def)
  obtain d1 s1 where "enforceCapability P (ae_clock E k) (vault_registries N R) (content_input E c consume) s = Inr (d1, s1)"
    using enforce_total [OF now] unfolding content_input_def by blast
  moreover obtain d2 s2 where "enforceCapability P (ae_clock E (Suc k)) (vault_registries N R) (pack_input E consume) s1 = Inr (d2, s2)"
    using enforce_total [OF now] unfolding pack_input_def by blast
  ultimately show ?thesis by (simp add: decide_field_def)
qed

text \<open>
  A denied request can spend the token: of two mapped paths, the first within the token's scope and the second
  outside it, nothing is released, and yet the token is recorded as presented, so that it is refused from then on.
\<close>

theorem denied_request_spends_token:
  assumes t: "va_capability_token request = t"
    and stored: "v_consents v (t_consent_ref t) = Some c" "v_packs v (va_pack_ref request) = Some p"
    and grant: "plain_grant P t c" "timely P now t c" "''read'' \<in> set (t_permissions t)"
    and unspent: "\<not> isRevoked R (t_capability_hash t) (v_revocations v)" "\<not> hasSeen N (v_nonces v) (t_token_id t) (Some now)"
    and paths: "sort (va_sdl_paths request) = [s1, s2]" "validateSdlPath s1 = None" "validateSdlPath s2 = None"
    and fields: "v_sdl_mappings v s1 = Some k1" "k1 \<noteq> []" "field_index (pk_fields p) k1 = Some (k1, c1)"
      "v_sdl_mappings v s2 = Some k2" "k2 \<noteq> []" "field_index (pk_fields p) k2 = Some (k2, c2)"
    and scope: "\<lparr>se_type = ''content'', se_ref = c1\<rparr> \<in> set (t_scope t)"
      "\<lparr>se_type = ''content'', se_ref = trim c2\<rparr> \<notin> set (t_scope t)"
      "\<lparr>se_type = ''pack'', se_ref = trim (va_pack_ref request)\<rparr> \<notin> set (t_scope t)"
  shows "\<exists>r v'. requestAccess P readings N R request (Some (Some now)) v = (Inr r, v') \<and> vr_decision r = ''DENY'' \<and>
    vr_resolved_fields r = [] \<and> (\<exists>at. v_nonces v' = cleanup N (Some at) (markSeen N (t_token_id t) (t_expires_at t) (v_nonces v)))"
proof -
  let ?E = "request_env readings request (Some (Some now)) v c p" and ?s = "vault_stores (v_nonces v) (v_revocations v)"
  have E: "ae_token ?E = t" "ae_consent ?E = c" "ae_now ?E = Some (Some now)" "ae_mappings ?E = v_sdl_mappings v"
      "ae_index ?E = field_index (pk_fields p)" "ae_pack_ref ?E = va_pack_ref request" by (simp_all add: request_env_def t)
  have loc: "locate_field ?E s1 = Inr (k1, c1)" "locate_field ?E s2 = Inr (k2, c2)"
    using paths fields by (simp_all add: locate_field_Inr E)
  have "ready P R ?E now (s_revocations ?s)" using grant unspent by (simp add: ready_def E)
  then obtain d1 s1' where one: "decide_field P N R ?E c1 True 0 ?s = Inr (d1, s1')" "ed_allowed d1"
    using ready_decides [of P R ?E now ?s c1 True N 0] scope(1) unspent(2) by (auto simp: E)
  obtain d2 s2' where two: "decide_field P N R ?E c2 False 2 s1' = Inr (d2, s2')" using decide_total [OF E(3)] by blast
  have "\<not> ed_allowed d2" using decide_field_cases [OF two] scope(2,3) by (auto simp: redeemed_def in_token_scope_def E split: if_splits)
  moreover have "token_spent N t (v_nonces v) (s_nonces s2')"
    using decide_field_cases [OF one(1)] decide_field_cases [OF two] one(2) calculation by (simp add: redeemed_spent E)
  ultimately show ?thesis
    using stored paths(1) loc one two by (auto simp: request_run t denyAccess_def token_spent_def numeral_2_eq_2)
qed

definition two_field_pack :: pack_manifest where
  "two_field_pack = vault_pack\<lparr>pk_fields := pk_fields vault_pack @
     [(hd (pk_fields vault_pack))\<lparr>fr_field_id := ''tax-id'', fr_content_id := replicate 64 (CHR ''0'')\<rparr>]\<rparr>"

definition two_field_vault :: "(string set, string set) vault" where
  "two_field_vault = sample_vault\<lparr>v_packs := [replicate 64 (CHR ''0'') \<mapsto> two_field_pack],
     v_sdl_mappings := [''person.name'' \<mapsto> ''legal-name'', ''person.tax'' \<mapsto> ''tax-id'']\<rparr>"

lemma denied_request_spends_token_witness:
  "\<exists>r v'. requestAccess zero_platform (\<lambda>i. 0) InMemoryNonceRegistry InMemoryRevocationRegistry
      (sample_vault_request\<lparr>va_sdl_paths := [''person.tax'', ''person.name'']\<rparr>) (Some (Some 1736951400000)) two_field_vault = (Inr r, v') \<and>
    vr_decision r = ''DENY'' \<and> v_nonces v' = {replicate 64 (CHR ''0'')}"
proof -
  let ?request = "sample_vault_request\<lparr>va_sdl_paths := [''person.tax'', ''person.name'']\<rparr>"
  have order: "sort (va_sdl_paths ?request) = [''person.name'', ''person.tax'']" by simp
  have tax: "validateSdlPath ''person.tax'' = None" by code_simp
  have ref: "trim (replicate 64 (CHR ''0'')) = replicate 64 (CHR ''0'')" by (rule trim_no_space) (simp add: js_space_def)
  have "\<exists>r v'. requestAccess zero_platform (\<lambda>i. 0) InMemoryNonceRegistry InMemoryRevocationRegistry ?request
      (Some (Some 1736951400000)) two_field_vault = (Inr r, v') \<and> vr_decision r = ''DENY'' \<and> vr_resolved_fields r = [] \<and>
      (\<exists>at. v_nonces v' = cleanup InMemoryNonceRegistry (Some at)
         (markSeen InMemoryNonceRegistry (t_token_id plain_raw) (t_expires_at plain_raw) (v_nonces two_field_vault)))"
    by (rule denied_request_spends_token [OF _ _ _ plain_sample timely_sample sample_read _ _ order sample_path(1) tax,
          where p = two_field_pack and ?k1.0 = "''legal-name''" and ?k2.0 = "''tax-id''" and ?c1.0 = sample_ref
            and ?c2.0 = "replicate 64 (CHR ''0'')"])
      (simp_all add: two_field_vault_def two_field_pack_def vault_pack_def field_index_def plain_scope_def sample_ref_def ref
        isRevoked_def InMemoryRevocationRegistry_def InMemoryNonceRegistry_def)
  then show ?thesis by (auto simp: InMemoryNonceRegistry_def two_field_vault_def)
qed

text \<open>Registering a path validates it trimmed and files it untrimmed, where its normalized form is not found.\<close>

lemma untrimmed_mapping_not_found:
  "registerSdlMapping '' person.name '' f v = Inr (v\<lparr>v_sdl_mappings := (v_sdl_mappings v)('' person.name '' \<mapsto> f)\<rparr>) \<and>
   ((v_sdl_mappings v)('' person.name '' \<mapsto> f)) ''person.name'' = v_sdl_mappings v ''person.name''"
proof -
  have "validateSdlPath '' person.name '' = None" by code_simp
  then show ?thesis by (simp add: registerSdlMapping_def)
qed

end
