(* ===== verification/Untrusted.thy ===== *)
theory Untrusted
  imports Consent
begin

text \<open>
  Reading values of which nothing is known (\<open>unknown\<close> in the source): the properties of an object,
  the loops over an array that name the index of a bad entry, and the collections the parsers of
  \<open>protocol/\<close> normalize with.  Values are \<open>json\<close>; reading a property that is absent
  gives \<open>undefined\<close>.
\<close>

section \<open>Objects\<close>

type_synonym json_object = "(string \<times> json) list"

definition get_prop :: "json_object \<Rightarrow> string \<Rightarrow> json" where
  "get_prop record field = (case map_of record field of None \<Rightarrow> JUndef | Some v \<Rightarrow> v)"

definition has_prop :: "json_object \<Rightarrow> string \<Rightarrow> bool" where
  "has_prop record field \<longleftrightarrow> map_of record field \<noteq> None"

text \<open>\<open>typeof v !== 'object' || v === null || Array.isArray(v)\<close> throws.\<close>

definition as_object :: "string \<Rightarrow> json \<Rightarrow> json_object result" where
  "as_object message v = (case v of JObj record \<Rightarrow> Inr record | _ \<Rightarrow> Inl (Error message))"

definition as_string :: "string \<Rightarrow> json \<Rightarrow> string result" where
  "as_string message v = (case v of JStr s \<Rightarrow> Inr s | _ \<Rightarrow> Inl (Error message))"

definition as_nonempty_array :: "string \<Rightarrow> json \<Rightarrow> json list result" where
  "as_nonempty_array message v = (case v of JArr (x # xs) \<Rightarrow> Inr (x # xs) | _ \<Rightarrow> Inl (Error message))"

text \<open>A text that trimming leaves as it is, and that is not blank.\<close>

definition text_ok :: "string \<Rightarrow> bool" where
  "text_ok s \<longleftrightarrow> s \<noteq> [] \<and> trim s = s"

text \<open>A property set to \<open>undefined\<close> when there is nothing to set it to.\<close>

definition undefined_or :: "('a \<Rightarrow> json) \<Rightarrow> 'a option \<Rightarrow> json" where
  "undefined_or f x = (case x of None \<Rightarrow> JUndef | Some v \<Rightarrow> f v)"

lemma prop_simps [simp]:
  "get_prop [] f = JUndef" "get_prop ((k, v) # kvs) f = (if f = k then v else get_prop kvs f)"
  by (simp_all add: get_prop_def)

lemma prop_append: "get_prop (kvs @ kvs') f = (if f \<in> fst ` set kvs then get_prop kvs f else get_prop kvs' f)"
  by (induction kvs) (auto simp: get_prop_def split: option.splits)

lemma prop_optional:
  "get_prop (optional_property k f v @ kvs) g = (if g = k \<and> v \<noteq> None then f (the v) else get_prop kvs g)"
  by (cases v) (simp_all add: optional_property_def)

lemma prop_optional_end [simp]:
  "get_prop (optional_property k f v) g = (if g = k \<and> v \<noteq> None then f (the v) else JUndef)"
  by (cases v) (simp_all add: optional_property_def)

lemma as_object_simps [simp]: "as_object m (JObj kvs) = Inr kvs"
  by (simp add: as_object_def)

lemma as_object_Inr [result_simps]: "as_object m v = Inr r \<longleftrightarrow> v = JObj r"
  by (cases v) (auto simp: as_object_def)

lemma as_string_simps [simp]: "as_string m (JStr s) = Inr s"
  by (simp add: as_string_def)

lemma as_string_Inr [result_simps]: "as_string m v = Inr s \<longleftrightarrow> v = JStr s"
  by (cases v) (auto simp: as_string_def)

lemma as_nonempty_array_simps [simp]: "as_nonempty_array m (JArr (x # xs)) = Inr (x # xs)"
  by (simp add: as_nonempty_array_def)

lemma as_nonempty_array_Inr [result_simps]: "as_nonempty_array m v = Inr xs \<longleftrightarrow> v = JArr xs \<and> xs \<noteq> []"
  by (cases v; cases xs) (auto simp: as_nonempty_array_def split: list.splits)

section \<open>Loops\<close>

fun map_index :: "(nat \<Rightarrow> 'a \<Rightarrow> 'e + 'b) \<Rightarrow> nat \<Rightarrow> 'a list \<Rightarrow> 'e + 'b list" where
  "map_index f i [] = Inr []"
| "map_index f i (x # xs) = (case f i x of Inl e \<Rightarrow> Inl e
     | Inr y \<Rightarrow> (case map_index f (Suc i) xs of Inl e \<Rightarrow> Inl e | Inr ys \<Rightarrow> Inr (y # ys)))"

lemma map_index_Inr:
  "(\<And>i x y. f i x = Inr y \<longleftrightarrow> R x y) \<Longrightarrow> map_index f i xs = Inr ys \<longleftrightarrow> list_all2 R xs ys"
proof (induction xs arbitrary: i ys)
  case Nil
  then show ?case by auto
next
  case (Cons x xs)
  note IH = Cons.IH [OF Cons.prems]
  show ?case
  proof
    assume "map_index f i (x # xs) = Inr ys"
    then obtain y zs where "f i x = Inr y" "map_index f (Suc i) xs = Inr zs" "ys = y # zs"
      by (auto split: sum.splits)
    then show "list_all2 R (x # xs) ys" using IH Cons.prems by auto
  next
    assume "list_all2 R (x # xs) ys"
    then obtain y zs where "ys = y # zs" "R x y" "list_all2 R xs zs" by (auto simp: list_all2_Cons1)
    moreover from this have "f i x = Inr y" "map_index f (Suc i) xs = Inr zs" using IH Cons.prems by auto
    ultimately show "map_index f i (x # xs) = Inr ys" by simp
  qed
qed

lemma map_index_same: "(\<And>i x. x \<in> set xs \<Longrightarrow> f i x = Inr (g x)) \<Longrightarrow> map_index f i xs = Inr (map g xs)"
  by (induction xs arbitrary: i) auto

lemma map_index_set:
  "map_index f i xs = Inr ys \<Longrightarrow> y \<in> set ys \<Longrightarrow> \<exists>x \<in> set xs. \<exists>j. f j x = Inr y"
  by (induction xs arbitrary: i ys) (fastforce split: sum.splits)+

lemma map_index_length: "map_index f i xs = Inr ys \<Longrightarrow> length ys = length xs"
  by (induction xs arbitrary: i ys) (auto split: sum.splits)

section \<open>Sets and maps in insertion order\<close>

text \<open>\<open>[...new Set(xs)]\<close>: the first occurrences.\<close>

fun unique :: "'a list \<Rightarrow> 'a list" where
  "unique [] = []"
| "unique (x # xs) = x # filter (\<lambda>y. y \<noteq> x) (unique xs)"

lemma set_unique [simp]: "set (unique xs) = set xs"
  by (induction xs) auto

lemma distinct_unique [simp]: "distinct (unique xs)"
  by (induction xs) auto

lemma unique_distinct: "distinct xs \<Longrightarrow> unique xs = xs"
  by (induction xs) (auto intro: filter_True)

lemma unique_Nil [simp]: "unique xs = [] \<longleftrightarrow> xs = []"
  by (cases xs) auto

text \<open>\<open>m = new Map(); for (x of xs) m.set(key(x), x); [...m.values()]\<close>.\<close>

text \<open>A key keeps the place of its first value and takes the last one.\<close>

fun keyed :: "('a \<Rightarrow> 'k) \<Rightarrow> 'a list \<Rightarrow> 'a list" where
  "keyed key [] = []"
| "keyed key (x # xs) = last (x # filter (\<lambda>y. key y = key x) xs) # keyed key (filter (\<lambda>y. key y \<noteq> key x) xs)"

lemma keyed_last: "key (last (x # filter (\<lambda>y. key y = key x) xs)) = key x"
    "last (x # filter (\<lambda>y. key y = key x) xs) \<in> insert x (set xs)"
  using last_in_set [of "x # filter (\<lambda>y. key y = key x) xs"] by auto

lemma keyed_subset: "set (keyed key xs) \<subseteq> set xs"
proof (induction key xs rule: keyed.induct)
  case (2 key x xs)
  then show ?case using keyed_last(2) [of x key xs] unfolding keyed.simps by auto
qed simp

lemma keys_keyed: "key ` set (keyed key xs) = key ` set xs"
proof (induction key xs rule: keyed.induct)
  case (2 key x xs)
  have "key ` set (keyed key (x # xs)) = insert (key x) (key ` set (filter (\<lambda>y. key y \<noteq> key x) xs))"
    unfolding keyed.simps using 2 keyed_last(1) [of key x xs] by simp
  then show ?case by auto
qed simp

lemma distinct_keyed: "distinct (map key (keyed key xs))"
proof (induction key xs rule: keyed.induct)
  case (2 key x xs)
  have "key x \<notin> key ` set (keyed key (filter (\<lambda>y. key y \<noteq> key x) xs))" unfolding keys_keyed by auto
  then show ?case unfolding keyed.simps using 2 keyed_last(1) [of key x xs] by simp
qed simp

lemma set_keyed: "inj_on key (set xs) \<Longrightarrow> set (keyed key xs) = set xs"
  using keys_keyed [of key xs] keyed_subset [of key xs] by (simp add: inj_on_image_eq_iff)

lemma keyed_distinct: "distinct (map key xs) \<Longrightarrow> keyed key xs = xs"
proof (induction xs)
  case (Cons x xs)
  then have "filter (\<lambda>y. key y = key x) xs = []" "filter (\<lambda>y. key y \<noteq> key x) xs = xs"
    by (auto simp: filter_empty_conv image_iff filter_id_conv)
  then show ?case using Cons by simp
qed simp

lemma keyed_Nil [simp]: "keyed key xs = [] \<longleftrightarrow> xs = []"
  by (cases xs) auto

text \<open>\<open>Map.prototype.set\<close>: a key keeps its place.\<close>

fun map_set :: "'k \<Rightarrow> 'v \<Rightarrow> ('k \<times> 'v) list \<Rightarrow> ('k \<times> 'v) list" where
  "map_set k v [] = [(k, v)]"
| "map_set k v ((j, w) # entries) = (if j = k then (j, v) # entries else (j, w) # map_set k v entries)"

text \<open>A map with a key per entry.\<close>

locale keyed_store =
  fixes look :: "'s \<Rightarrow> 'k \<Rightarrow> 'r option" and put :: "'k \<Rightarrow> 'r \<Rightarrow> 's \<Rightarrow> 's"
  assumes look_put: "look (put k r s) j = (if j = k then Some r else look s j)"
begin

definition all_entries :: "('k \<Rightarrow> 'r \<Rightarrow> bool) \<Rightarrow> 's \<Rightarrow> bool" where
  "all_entries I s \<longleftrightarrow> (\<forall>k r. look s k = Some r \<longrightarrow> I k r)"

lemma all_entries_put: "all_entries I s \<Longrightarrow> I k r \<Longrightarrow> all_entries I (put k r s)"
  by (simp add: all_entries_def look_put)

lemma all_entriesD: "all_entries I s \<Longrightarrow> look s k = Some r \<Longrightarrow> I k r"
  by (simp add: all_entries_def)

text \<open>An entry only moves along a preorder when every write moves along it.\<close>

lemma put_along:
  assumes "\<And>x. le x x" and "look s k = None \<or> (\<exists>q. look s k = Some q \<and> le q r)" and "look s j = Some x"
  shows "\<exists>y. look (put k r s) j = Some y \<and> le x y"
  using assms by (auto simp: look_put)

end

lemma map_of_map_set: "map_of (map_set k v xs) j = (if j = k then Some v else map_of xs j)"
  by (induction xs) auto

lemma keys_map_set: "map fst (map_set k v xs) = (if k \<in> set (map fst xs) then map fst xs else map fst xs @ [k])"
  by (induction xs) (auto, force)

lemma distinct_map_set: "distinct (map fst xs) \<Longrightarrow> distinct (map fst (map_set k v xs))"
  by (simp add: keys_map_set)

end
