(* ===== verification/Revocation.thy ===== *)
theory Revocation
  imports Untrusted
begin

text \<open>
  \<open>protocol/revocation/\<close>: the revocation status, the gate every material action passes, and the
  port through which a revocation source is asked.  A source that fails or answers nonsense gives the
  status \<open>unknown\<close>, which blocks.  A port is a function of the subject that may throw
  (\<open>Inl\<close>) or answer without a status (\<open>Inr None\<close>); the records of telemetry events are
  returned beside the answer.  \<open>withRevocationTimeout\<close>, a race of promises, is not modelled.
\<close>

section \<open>Statuses\<close>

record revocation_status =
  rs_status :: string
  rs_subjectId :: "string option"
  rs_subjectType :: "string option"
  rs_checkedAt :: string
  rs_sourceVersion :: "string option"
  rs_revocationId :: "string option"
  rs_reasonCode :: "string option"
  rs_revokedAt :: "string option"
  rs_errorCode :: "string option"
  rs_category :: "string option"
  rs_retryable :: "bool option"

record revocation_subject =
  sub_subjectId :: string
  sub_subjectType :: string

definition resolveMaterialActionDecision :: "revocation_status \<Rightarrow> string" where
  "resolveMaterialActionDecision status = (if rs_status status = ''verified_not_revoked'' then ''allow'' else ''block'')"

definition isRevocationBlocking :: "revocation_status \<Rightarrow> bool" where
  "isRevocationBlocking status \<longleftrightarrow> resolveMaterialActionDecision status = ''block''"

text \<open>\<open>(now ?? new Date()).toISOString()\<close>; \<open>clock\<close> is the reading of \<open>new Date()\<close>.\<close>

definition nowIso :: "int \<Rightarrow> jsdate option \<Rightarrow> string result" where
  "nowIso clock now = to_iso_string (case now of None \<Rightarrow> Some clock | Some d \<Rightarrow> d)"

definition verifiedNotRevokedStatus ::
  "int \<Rightarrow> string \<Rightarrow> string \<Rightarrow> jsdate option \<Rightarrow> string option \<Rightarrow> revocation_status result" where
  "verifiedNotRevokedStatus clock subjectId subjectType now sourceVersion = bind_result (nowIso clock now) (\<lambda>checkedAt.
     Inr \<lparr>rs_status = ''verified_not_revoked'', rs_subjectId = Some subjectId, rs_subjectType = Some subjectType,
       rs_checkedAt = checkedAt, rs_sourceVersion = Some (case sourceVersion of None \<Rightarrow> ''v1'' | Some v \<Rightarrow> v),
       rs_revocationId = None, rs_reasonCode = None, rs_revokedAt = None,
       rs_errorCode = None, rs_category = None, rs_retryable = None\<rparr>)"

definition revokedStatus ::
  "int \<Rightarrow> string \<Rightarrow> string \<Rightarrow> string \<Rightarrow> string \<Rightarrow> string \<Rightarrow> jsdate option \<Rightarrow> revocation_status result" where
  "revokedStatus clock subjectId subjectType revocationId reasonCode revokedAt now =
     bind_result (nowIso clock now) (\<lambda>checkedAt.
       Inr \<lparr>rs_status = ''revoked'', rs_subjectId = Some subjectId, rs_subjectType = Some subjectType,
         rs_checkedAt = checkedAt, rs_sourceVersion = None, rs_revocationId = Some revocationId,
         rs_reasonCode = Some reasonCode, rs_revokedAt = Some revokedAt,
         rs_errorCode = None, rs_category = None, rs_retryable = None\<rparr>)"

text \<open>The optional \<open>input\<close> of the constructors of an unknown status.\<close>

record unknown_input =
  ui_subjectId :: "string option"
  ui_subjectType :: "string option"
  ui_now :: "jsdate option"

definition unknownStatus ::
  "int \<Rightarrow> string \<Rightarrow> string \<Rightarrow> bool \<Rightarrow> unknown_input \<Rightarrow> revocation_status result" where
  "unknownStatus clock errorCode category retryable input = bind_result (nowIso clock (ui_now input)) (\<lambda>checkedAt.
     Inr \<lparr>rs_status = ''unknown'', rs_subjectId = ui_subjectId input, rs_subjectType = ui_subjectType input,
       rs_checkedAt = checkedAt, rs_sourceVersion = None, rs_revocationId = None, rs_reasonCode = None,
       rs_revokedAt = None, rs_errorCode = Some errorCode, rs_category = Some category,
       rs_retryable = Some retryable\<rparr>)"

definition unavailableRevocationStatus :: "int \<Rightarrow> unknown_input \<Rightarrow> revocation_status result" where
  "unavailableRevocationStatus clock = unknownStatus clock ''REVOCATION_STATUS_UNAVAILABLE'' ''not_checked'' False"

definition revocationLookupFailedStatus :: "int \<Rightarrow> unknown_input \<Rightarrow> revocation_status result" where
  "revocationLookupFailedStatus clock = unknownStatus clock ''REVOCATION_LOOKUP_FAILED'' ''lookup_error'' True"

definition revocationLookupTimeoutStatus :: "int \<Rightarrow> unknown_input \<Rightarrow> revocation_status result" where
  "revocationLookupTimeoutStatus clock = unknownStatus clock ''REVOCATION_LOOKUP_TIMEOUT'' ''timeout'' True"

definition revocationPermissionDeniedStatus :: "int \<Rightarrow> unknown_input \<Rightarrow> revocation_status result" where
  "revocationPermissionDeniedStatus clock =
     unknownStatus clock ''REVOCATION_PERMISSION_DENIED'' ''permission_denied'' False"

definition revocationRecordMalformedStatus :: "int \<Rightarrow> unknown_input \<Rightarrow> revocation_status result" where
  "revocationRecordMalformedStatus clock = unknownStatus clock ''REVOCATION_RECORD_MALFORMED'' ''malformed_record'' False"

definition revocationAuthorityMismatchStatus :: "int \<Rightarrow> unknown_input \<Rightarrow> revocation_status result" where
  "revocationAuthorityMismatchStatus clock =
     unknownStatus clock ''REVOCATION_AUTHORITY_MISMATCH'' ''authority_mismatch'' False"

definition revocationTrustDomainMismatchStatus :: "int \<Rightarrow> unknown_input \<Rightarrow> revocation_status result" where
  "revocationTrustDomainMismatchStatus clock =
     unknownStatus clock ''REVOCATION_TRUST_DOMAIN_MISMATCH'' ''trust_domain_mismatch'' False"

definition revocationSubjectMismatchStatus :: "int \<Rightarrow> unknown_input \<Rightarrow> revocation_status result" where
  "revocationSubjectMismatchStatus clock = unknownStatus clock ''REVOCATION_SUBJECT_MISMATCH'' ''subject_mismatch'' False"

definition revocationUnsupportedVersionStatus :: "int \<Rightarrow> unknown_input \<Rightarrow> revocation_status result" where
  "revocationUnsupportedVersionStatus clock =
     unknownStatus clock ''REVOCATION_UNSUPPORTED_VERSION'' ''unsupported_version'' False"

definition HTTP_STATUS_BY_ERROR_CODE :: "(string \<times> nat) list" where
  "HTTP_STATUS_BY_ERROR_CODE =
     [(''REVOCATION_STATUS_UNAVAILABLE'', 503), (''REVOCATION_LOOKUP_FAILED'', 503), (''REVOCATION_LOOKUP_TIMEOUT'', 503),
      (''REVOCATION_PERMISSION_DENIED'', 403), (''REVOCATION_RECORD_MALFORMED'', 503),
      (''REVOCATION_AUTHORITY_MISMATCH'', 403), (''REVOCATION_TRUST_DOMAIN_MISMATCH'', 403),
      (''REVOCATION_SUBJECT_MISMATCH'', 403), (''REVOCATION_UNSUPPORTED_VERSION'', 503)]"

definition mapRevocationStatusToHttpStatus :: "revocation_status \<Rightarrow> nat option" where
  "mapRevocationStatusToHttpStatus status =
     (if rs_status status = ''verified_not_revoked'' then Some 200
      else if rs_status status = ''revoked'' then Some 403
      else Option.bind (rs_errorCode status) (map_of HTTP_STATUS_BY_ERROR_CODE))"

section \<open>Telemetry\<close>

text \<open>\<open>/secret|private[_-]?key|password|token$|credential$|raw[_-]?claims|raw[_-]?passport/i\<close>\<close>

definition FORBIDDEN_PAYLOAD_KEY :: "string \<Rightarrow> bool" where
  "FORBIDDEN_PAYLOAD_KEY key = (let k = to_lower key in
     list_ex (str_includes k) [''secret'', ''privatekey'', ''private_key'', ''private-key'', ''password'',
       ''rawclaims'', ''raw_claims'', ''raw-claims'', ''rawpassport'', ''raw_passport'', ''raw-passport''] \<or>
     ends_with k ''token'' \<or> ends_with k ''credential'')"

definition redactRevocationTelemetryPayload :: "json_object \<Rightarrow> json_object" where
  "redactRevocationTelemetryPayload payload =
     map (\<lambda>(key, v). (key, if FORBIDDEN_PAYLOAD_KEY key then JStr ''[redacted]'' else v)) payload"

definition emitRevocationTelemetry :: "string \<Rightarrow> json_object \<Rightarrow> string \<times> json_object" where
  "emitRevocationTelemetry event payload = (event, redactRevocationTelemetryPayload payload)"

section \<open>Ports\<close>

type_synonym revocation_port = "revocation_subject \<Rightarrow> revocation_status option result"

definition subject_payload :: "revocation_subject \<Rightarrow> json_object" where
  "subject_payload s = [(''subjectId'', JStr (sub_subjectId s)), (''subjectType'', JStr (sub_subjectType s))]"

definition error_payload :: "revocation_subject \<Rightarrow> revocation_status \<Rightarrow> json_object" where
  "error_payload s status = subject_payload s @
     [(''errorCode'', case rs_errorCode status of None \<Rightarrow> JUndef | Some c \<Rightarrow> JStr c)]"

definition subject_unknown :: "revocation_subject \<Rightarrow> jsdate option \<Rightarrow> unknown_input" where
  "subject_unknown s now = \<lparr>ui_subjectId = Some (sub_subjectId s), ui_subjectType = Some (sub_subjectType s), ui_now = now\<rparr>"

text \<open>
  The registry answers a boolean, something else (\<open>Inr None\<close>) or throws.  The answer of the port
  comes with the telemetry it emits.
\<close>

definition registry_check ::
  "(string \<Rightarrow> bool option result) \<Rightarrow> string option \<Rightarrow> int \<Rightarrow> revocation_subject \<Rightarrow>
   revocation_status result \<times> (string \<times> json_object) list" where
  "registry_check isRevoked sourceVersion clock s =
     (let now = Some (Some clock);
          started = emitRevocationTelemetry ''revocation.check.started'' (subject_payload s);
          failed = revocationLookupFailedStatus clock (subject_unknown s now);
          failure = (\<lambda>event. (failed, started # (case failed of Inl e \<Rightarrow> []
            | Inr status \<Rightarrow> [emitRevocationTelemetry event (error_payload s status)])))
      in case isRevoked (sub_subjectId s) of
           Inl e \<Rightarrow> failure ''revocation.check.failed''
         | Inr None \<Rightarrow> failure ''revocation.check.unknown''
         | Inr (Some True) \<Rightarrow>
            (bind_result (to_iso_string (Some clock)) (\<lambda>revokedAt.
               revokedStatus clock (sub_subjectId s) (sub_subjectType s) (sub_subjectId s) ''REVOKED'' revokedAt now),
             [started, emitRevocationTelemetry ''revocation.check.revoked'' (subject_payload s)])
         | Inr (Some False) \<Rightarrow>
            (verifiedNotRevokedStatus clock (sub_subjectId s) (sub_subjectType s) now sourceVersion,
             [started, emitRevocationTelemetry ''revocation.check.not_revoked'' (subject_payload s)]))"

definition createRegistryRevocationCheck ::
  "(string \<Rightarrow> bool option result) \<Rightarrow> string option \<Rightarrow> int \<Rightarrow> revocation_port" where
  "createRegistryRevocationCheck isRevoked sourceVersion clock s =
     bind_result (fst (registry_check isRevoked sourceVersion clock s)) (\<lambda>status. Inr (Some status))"

definition ALWAYS_UNKNOWN_REVOCATION_CHECK :: "int \<Rightarrow> revocation_port" where
  "ALWAYS_UNKNOWN_REVOCATION_CHECK clock s =
     bind_result (revocationLookupFailedStatus clock (subject_unknown s None)) (\<lambda>status. Inr (Some status))"

definition createStaticRevocationCheck :: "revocation_status \<Rightarrow> revocation_port" where
  "createStaticRevocationCheck status s = Inr (Some status)"

text \<open>
  How the evaluations of consents and capabilities ask a port: what it throws, and an answer without a
  status, is a failed lookup.
\<close>

definition resolve_revocation :: "int \<Rightarrow> revocation_port \<Rightarrow> string \<Rightarrow> string \<Rightarrow> revocation_status result" where
  "resolve_revocation clock checkRevocation subjectId subjectType =
     (let s = \<lparr>sub_subjectId = subjectId, sub_subjectType = subjectType\<rparr> in
      case checkRevocation s of
        Inr (Some status) \<Rightarrow> Inr status
      | _ \<Rightarrow> revocationLookupFailedStatus clock (subject_unknown s None))"

section \<open>Lemmas\<close>

lemma to_iso_string_total: "\<exists>s. to_iso_string (Some t) = Inr s"
  by (auto simp: to_iso_string_def split: prod.splits)

lemma nowIso_total: "\<exists>s. nowIso clock None = Inr s" "\<exists>s. nowIso clock (Some (Some t)) = Inr s"
  using to_iso_string_total by (simp_all add: nowIso_def)

lemma lookup_failed_status:
  assumes "now \<noteq> Some None"
  shows "\<exists>status. revocationLookupFailedStatus clock \<lparr>ui_subjectId = i, ui_subjectType = t, ui_now = now\<rparr> = Inr status \<and>
    rs_status status = ''unknown'' \<and> rs_errorCode status = Some ''REVOCATION_LOOKUP_FAILED''"
proof -
  obtain s where "nowIso clock now = Inr s" using assms nowIso_total [of clock] by (cases now) auto
  then show ?thesis by (simp add: revocationLookupFailedStatus_def unknownStatus_def)
qed

text \<open>
  The promise of a port of this module: it answers, with one of the three statuses, and an unknown status
  has a code.  What the evaluations derive from it is proved once, for every such port.
\<close>

locale status_port =
  fixes check :: revocation_port
  assumes answers: "\<exists>status. check s = Inr (Some status) \<and>
    rs_status status \<in> {''verified_not_revoked'', ''revoked'', ''unknown''}"
begin

lemma resolve_total: "\<exists>status. resolve_revocation clock check i t = Inr status \<and>
    check \<lparr>sub_subjectId = i, sub_subjectType = t\<rparr> = Inr (Some status)"
  using answers [of "\<lparr>sub_subjectId = i, sub_subjectType = t\<rparr>"] by (auto simp: resolve_revocation_def Let_def)

text \<open>Neither revoked nor unknown is what the gate lets through.\<close>

lemma passes_gate:
  assumes "resolve_revocation clock check i t = Inr status"
  shows "rs_status status \<noteq> ''revoked'' \<and> rs_status status \<noteq> ''unknown'' \<longleftrightarrow>
    resolveMaterialActionDecision status = ''allow''"
  using assms answers [of "\<lparr>sub_subjectId = i, sub_subjectType = t\<rparr>"]
  by (auto simp: resolve_revocation_def Let_def resolveMaterialActionDecision_def)

end

lemma registry_check_status:
  "\<exists>status. fst (registry_check isRevoked v clock s) = Inr status \<and>
     rs_status status = (case isRevoked (sub_subjectId s) of
       Inr (Some True) \<Rightarrow> ''revoked'' | Inr (Some False) \<Rightarrow> ''verified_not_revoked'' | _ \<Rightarrow> ''unknown'') \<and>
     (rs_status status = ''unknown'' \<longrightarrow> rs_errorCode status = Some ''REVOCATION_LOOKUP_FAILED'')"
proof -
  obtain f where f: "revocationLookupFailedStatus clock (subject_unknown s (Some (Some clock))) = Inr f" "rs_status f = ''unknown''"
      "rs_errorCode f = Some ''REVOCATION_LOOKUP_FAILED''"
    using lookup_failed_status [of "Some (Some clock)" clock] by (auto simp: subject_unknown_def)
  obtain now where now: "nowIso clock (Some (Some clock)) = Inr now" "to_iso_string (Some clock) = Inr now"
    using to_iso_string_total by (auto simp: nowIso_def)
  show ?thesis
    by (auto simp: registry_check_def Let_def f now verifiedNotRevokedStatus_def revokedStatus_def
        split: sum.split option.split bool.split)
qed

interpretation registry_port: status_port "createRegistryRevocationCheck isRevoked v clock" for isRevoked v clock
proof
  fix s
  show "\<exists>status. createRegistryRevocationCheck isRevoked v clock s = Inr (Some status) \<and>
      rs_status status \<in> {''verified_not_revoked'', ''revoked'', ''unknown''}"
    using registry_check_status [of isRevoked v clock s]
    by (auto simp: createRegistryRevocationCheck_def split: sum.splits option.splits bool.splits)
qed

lemma registry_lets_through:
  "(\<exists>status. resolve_revocation clock (createRegistryRevocationCheck isRevoked v k) i t = Inr status \<and>
      rs_status status \<noteq> ''revoked'' \<and> rs_status status \<noteq> ''unknown'') \<longleftrightarrow> isRevoked i = Inr (Some False)"
  using registry_check_status [of isRevoked v k "\<lparr>sub_subjectId = i, sub_subjectType = t\<rparr>"]
  by (auto simp: resolve_revocation_def Let_def createRegistryRevocationCheck_def split: sum.splits option.splits bool.splits)

interpretation unknown_port: status_port "ALWAYS_UNKNOWN_REVOCATION_CHECK clock" for clock
proof
  fix s
  show "\<exists>status. ALWAYS_UNKNOWN_REVOCATION_CHECK clock s = Inr (Some status) \<and>
      rs_status status \<in> {''verified_not_revoked'', ''revoked'', ''unknown''}"
    using lookup_failed_status [of None clock "Some (sub_subjectId s)" "Some (sub_subjectType s)"]
    by (auto simp: ALWAYS_UNKNOWN_REVOCATION_CHECK_def subject_unknown_def)
qed

section \<open>The properties of revocation checks\<close>

text \<open>
  The check over a registry never throws, and it lets a material action through exactly when the
  registry answers that the subject is not revoked; a registry that throws or answers anything but a
  boolean blocks.
\<close>

theorem registry_check_fails_closed:
  "\<exists>status. createRegistryRevocationCheck isRevoked v clock s = Inr (Some status) \<and>
     (resolveMaterialActionDecision status = ''allow'' \<longleftrightarrow> isRevoked (sub_subjectId s) = Inr (Some False)) \<and>
     mapRevocationStatusToHttpStatus status =
       Some (case isRevoked (sub_subjectId s) of Inr (Some False) \<Rightarrow> 200 | Inr (Some True) \<Rightarrow> 403 | _ \<Rightarrow> 503)"
proof -
  obtain status where st: "fst (registry_check isRevoked v clock s) = Inr status"
    "rs_status status = (case isRevoked (sub_subjectId s) of
       Inr (Some True) \<Rightarrow> ''revoked'' | Inr (Some False) \<Rightarrow> ''verified_not_revoked'' | _ \<Rightarrow> ''unknown'')"
    "rs_status status = ''unknown'' \<Longrightarrow> rs_errorCode status = Some ''REVOCATION_LOOKUP_FAILED''"
    using registry_check_status by blast
  show ?thesis
    by (rule exI [of _ status])
      (use st in \<open>auto simp: createRegistryRevocationCheck_def resolveMaterialActionDecision_def
        mapRevocationStatusToHttpStatus_def HTTP_STATUS_BY_ERROR_CODE_def split: sum.splits option.splits bool.splits\<close>)
qed

end
