(* ===== verification/ProtocolConsent.thy ===== *)
theory ProtocolConsent
  imports Revocation
begin

text \<open>
  \<open>protocol/consent/consent-*.ts\<close>: the consent objects of the protocol layer, read from values of
  which nothing is known: parsing, normalization, validation with all errors, the state of a consent at a
  moment and the scopes it allows.
\<close>

section \<open>Parsing\<close>

text \<open>
  \<open>parseConsent\<close> returns its argument cast to \<open>ProtocolConsent\<close>.  What it has checked has a
  type here; the other properties are still values of which nothing is known.
\<close>

record parsed_consent =
  rc_version :: json
  rc_subject :: string
  rc_grantee :: string
  rc_action :: string
  rc_scope :: "scope_entry list"
  rc_permissions :: "string list"
  rc_pricing :: json
  rc_marketMakerId :: json
  rc_revoke_target :: json
  rc_issued_at :: string
  rc_expires_at :: json
  rc_prior_consent :: json
  rc_consent_hash :: string

definition consent_parseStringField :: "json_object \<Rightarrow> string \<Rightarrow> string result" where
  "consent_parseStringField kvs f =
     as_string (''Consent field \"'' @ f @ ''\" must be a string.'') (get_prop kvs f)"

definition consent_parseDateField :: "platform \<Rightarrow> json_object \<Rightarrow> string \<Rightarrow> string result" where
  "consent_parseDateField P kvs f = bind_result (consent_parseStringField kvs f) (\<lambda>v.
     after (throw_if (date_of P v = None) (''Consent field \"'' @ f @ ''\" must be a parseable ISO date string.'')) (Inr v))"

definition consent_scope_entry :: "nat \<Rightarrow> json \<Rightarrow> scope_entry result" where
  "consent_scope_entry i entry =
     bind_result (as_object (''Consent scope entry '' @ show_nat i @ '' must be a JSON object.'') entry) (\<lambda>entryRecord.
     bind_result (consent_parseStringField entryRecord ''type'') (\<lambda>type.
     bind_result (consent_parseStringField entryRecord ''ref'') (\<lambda>ref.
     after (throw_if (trim ref = []) (''Consent scope entry '' @ show_nat i @ '' ref must be non-empty.''))
       (Inr \<lparr>se_type = type, se_ref = ref\<rparr>))))"

definition consent_parseScope :: "json_object \<Rightarrow> scope_entry list result" where
  "consent_parseScope kvs =
     bind_result (as_nonempty_array ''Consent field \"scope\" must be a non-empty array.'' (get_prop kvs ''scope''))
       (map_index consent_scope_entry 0)"

definition consent_permission :: "nat \<Rightarrow> json \<Rightarrow> string result" where
  "consent_permission i permission =
     (let message = ''Consent permission '' @ show_nat i @ '' must be a non-empty string.'' in
     bind_result (as_string message permission) (\<lambda>p. after (throw_if (trim p = []) message) (Inr p)))"

definition consent_parsePermissions :: "json_object \<Rightarrow> string list result" where
  "consent_parsePermissions kvs =
     bind_result (as_nonempty_array ''Consent field \"permissions\" must be a non-empty array.'' (get_prop kvs ''permissions''))
       (map_index consent_permission 0)"

definition consent_nonempty :: "json_object \<Rightarrow> string \<Rightarrow> string result" where
  "consent_nonempty kvs f = bind_result (consent_parseStringField kvs f) (\<lambda>v.
     after (throw_if (trim v = []) (''Consent field \"'' @ f @ ''\" must be non-empty.'')) (Inr v))"

definition parseConsent :: "platform \<Rightarrow> json \<Rightarrow> parsed_consent result" where
  "parseConsent P input =
     bind_result (as_object ''Consent must be a non-null JSON object.'' input) (\<lambda>kvs.
     bind_result (consent_nonempty kvs ''subject'') (\<lambda>subject.
     bind_result (consent_nonempty kvs ''grantee'') (\<lambda>grantee.
     bind_result (consent_parseStringField kvs ''action'') (\<lambda>action.
     after (throw_if (action \<noteq> ''grant'' \<and> action \<noteq> ''revoke'') ''Consent field \"action\" must be one of: grant, revoke.'')
     (bind_result (consent_parseScope kvs) (\<lambda>scope.
     bind_result (consent_parsePermissions kvs) (\<lambda>permissions.
     bind_result (consent_parseDateField P kvs ''issued_at'') (\<lambda>issued_at.
     bind_result (consent_nonempty kvs ''consent_hash'') (\<lambda>consent_hash.
       Inr \<lparr>rc_version = get_prop kvs ''version'', rc_subject = subject, rc_grantee = grantee, rc_action = action,
         rc_scope = scope, rc_permissions = permissions, rc_pricing = get_prop kvs ''pricing'',
         rc_marketMakerId = get_prop kvs ''marketMakerId'', rc_revoke_target = get_prop kvs ''revoke_target'',
         rc_issued_at = issued_at, rc_expires_at = get_prop kvs ''expires_at'',
         rc_prior_consent = get_prop kvs ''prior_consent'', rc_consent_hash = consent_hash\<rparr>)))))))))"

section \<open>Normalization\<close>

record protocol_consent =
  pn_version :: string
  pn_subject :: string
  pn_grantee :: string
  pn_action :: string
  pn_scope :: "scope_entry list"
  pn_permissions :: "string list"
  pn_pricing :: json
  pn_marketMakerId :: "string option"
  pn_revoke_target :: "string option"
  pn_issued_at :: string
  pn_expires_at :: "string option"
  pn_prior_consent :: "string option"
  pn_consent_hash :: string

text \<open>\<open>v.trim()\<close> and \<open>v.f\<close> on a value that need not be a string or an object.\<close>

definition normalizeString :: "json \<Rightarrow> string result" where
  "normalizeString v = (case v of JStr s \<Rightarrow> Inr (trim s)
     | JUndef \<Rightarrow> Inl (Error ''Cannot read properties of undefined (reading 'trim')'')
     | JNull \<Rightarrow> Inl (Error ''Cannot read properties of null (reading 'trim')'')
     | _ \<Rightarrow> Inl (Error ''value.trim is not a function''))"

definition get_member :: "json \<Rightarrow> string \<Rightarrow> json result" where
  "get_member v f = (case v of JObj kvs \<Rightarrow> Inr (get_prop kvs f)
     | JUndef \<Rightarrow> Inl (Error (''Cannot read properties of undefined (reading '' @ [CHR 0x27] @ f @ [CHR 0x27] @ '')''))
     | JNull \<Rightarrow> Inl (Error (''Cannot read properties of null (reading '' @ [CHR 0x27] @ f @ [CHR 0x27] @ '')''))
     | _ \<Rightarrow> Inr JUndef)"

definition consent_normalizeScope :: "platform \<Rightarrow> scope_entry list \<Rightarrow> scope_entry list" where
  "consent_normalizeScope P scope = sort_cmp (compare_scope P)
     (map (\<lambda>entry. \<lparr>se_type = se_type entry, se_ref = to_lower (trim (se_ref entry))\<rparr>) scope)"

definition normalizeConsent :: "platform \<Rightarrow> json \<Rightarrow> protocol_consent result" where
  "normalizeConsent P input = bind_result (parseConsent P input) (\<lambda>consent.
     bind_result (normalizeString (rc_version consent)) (\<lambda>version.
     bind_result (if rc_expires_at consent = JNull then Inr None
         else bind_result (normalizeString (rc_expires_at consent)) (\<lambda>s. Inr (Some s))) (\<lambda>expires_at.
     bind_result (if rc_prior_consent consent = JNull then Inr None
         else bind_result (normalizeString (rc_prior_consent consent)) (\<lambda>s. Inr (Some (to_lower s)))) (\<lambda>prior_consent.
     bind_result (if rc_marketMakerId consent = JUndef then Inr None
         else bind_result (normalizeString (rc_marketMakerId consent)) (\<lambda>s. Inr (Some s))) (\<lambda>marketMakerId.
     bind_result (if rc_revoke_target consent = JUndef then Inr None
         else bind_result (get_member (rc_revoke_target consent) ''capability_hash'') (\<lambda>h.
           bind_result (normalizeString h) (\<lambda>s. Inr (Some (to_lower s))))) (\<lambda>revoke_target.
       Inr \<lparr>pn_version = version, pn_subject = trim (rc_subject consent), pn_grantee = trim (rc_grantee consent),
         pn_action = rc_action consent, pn_scope = consent_normalizeScope P (rc_scope consent),
         pn_permissions = sort (map (\<lambda>permission. to_lower (trim permission)) (rc_permissions consent)),
         pn_pricing = rc_pricing consent, pn_marketMakerId = marketMakerId, pn_revoke_target = revoke_target,
         pn_issued_at = trim (rc_issued_at consent), pn_expires_at = expires_at, pn_prior_consent = prior_consent,
         pn_consent_hash = to_lower (trim (rc_consent_hash consent))\<rparr>))))))"

section \<open>Validation\<close>

definition scope_json :: "scope_entry \<Rightarrow> json" where
  "scope_json entry = JObj [(''type'', JStr (se_type entry)), (''ref'', JStr (se_ref entry))]"

text \<open>A typed consent as the value it is.\<close>

definition consent_kvs :: "protocol_consent \<Rightarrow> json_object" where
  "consent_kvs c =
     [(''version'', JStr (pn_version c)), (''subject'', JStr (pn_subject c)), (''grantee'', JStr (pn_grantee c)),
      (''action'', JStr (pn_action c)), (''scope'', JArr (map scope_json (pn_scope c))),
      (''permissions'', JArr (map JStr (pn_permissions c))), (''pricing'', pn_pricing c),
      (''issued_at'', JStr (pn_issued_at c)), (''expires_at'', json_opt (pn_expires_at c)),
      (''prior_consent'', json_opt (pn_prior_consent c)), (''consent_hash'', JStr (pn_consent_hash c))] @
     optional_property ''marketMakerId'' JStr (pn_marketMakerId c) @
     optional_property ''revoke_target'' (\<lambda>h. JObj [(''capability_hash'', JStr h)]) (pn_revoke_target c)"

definition protocol_consent_json :: "protocol_consent \<Rightarrow> json" where
  "protocol_consent_json c = JObj (consent_kvs c)"

text \<open>\<open>/^[a-z0-9-]+$/\<close>\<close>

definition permission_char :: "char \<Rightarrow> bool" where
  "permission_char c \<longleftrightarrow> lower_alpha c \<or> dec_digit c \<or> c = CHR ''-''"

definition PERMISSION_PATTERN :: rx where
  "PERMISSION_PATTERN = Plus (Cls permission_char)"

definition toScopeKey :: "scope_entry \<Rightarrow> string" where
  "toScopeKey entry = se_type entry @ '':'' @ se_ref entry"

definition push_if :: "bool \<Rightarrow> string \<Rightarrow> string list" where
  "push_if b message = (if b then [message] else [])"

fun scope_errors :: "string set \<Rightarrow> nat \<Rightarrow> scope_entry list \<Rightarrow> string list" where
  "scope_errors seen i [] = []"
| "scope_errors seen i (entry # entries) =
     push_if (se_type entry \<notin> set VALID_SCOPE_TYPES) (''Consent scope entry '' @ show_nat i @ '' has invalid type.'') @
     push_if (\<not> rx_test HASH_HEX_PATTERN (se_ref entry)) (''Consent scope entry '' @ show_nat i @ '' ref must be 64 lowercase hex.'') @
     push_if (toScopeKey entry \<in> seen) (''Consent scope entry '' @ show_nat i @ '' is duplicated.'') @
     scope_errors (insert (toScopeKey entry) seen) (Suc i) entries"

fun permission_errors :: "string set \<Rightarrow> nat \<Rightarrow> string list \<Rightarrow> string list" where
  "permission_errors seen i [] = []"
| "permission_errors seen i (permission # permissions) =
     push_if (\<not> rx_test PERMISSION_PATTERN permission)
       (''Consent permission '' @ show_nat i @ '' must be lowercase alphanumeric with hyphens.'') @
     push_if (permission \<in> seen) (''Consent permission '' @ show_nat i @ '' is duplicated.'') @
     permission_errors (insert permission seen) (Suc i) permissions"

text \<open>The errors of a consent; it is valid when there is none.\<close>

definition consent_errors :: "protocol_consent \<Rightarrow> string list" where
  "consent_errors c = concat [
     push_if (\<not> rx_test VERSION_PATTERN (pn_version c)) ''Consent version must match MAJOR.MINOR.'',
     push_if (\<not> rx_test DID_PATTERN (pn_subject c)) ''Consent subject must be a valid DID.'',
     push_if (\<not> rx_test DID_PATTERN (pn_grantee c)) ''Consent grantee must be a valid DID.'',
     push_if (pn_action c \<notin> set [''grant'', ''revoke'']) ''Consent action must be grant or revoke.'',
     push_if (\<not> rx_test ISO8601_UTC_PATTERN (pn_issued_at c)) ''Consent issued_at must be ISO8601 UTC with second precision.'',
     push_if (\<not> rx_test HASH_HEX_PATTERN (pn_consent_hash c)) ''Consent consent_hash must be 64 lowercase hex.'',
     push_if (length (pn_scope c) > MAX_SCOPE_ENTRIES)
       (''Consent scope must not exceed '' @ show_nat MAX_SCOPE_ENTRIES @ '' entries.''),
     scope_errors {} 0 (pn_scope c),
     push_if (length (pn_permissions c) > MAX_PERMISSIONS)
       (''Consent permissions must not exceed '' @ show_nat MAX_PERMISSIONS @ '' entries.''),
     permission_errors {} 0 (pn_permissions c),
     (case pn_expires_at c of None \<Rightarrow> [] | Some expires_at \<Rightarrow>
       if \<not> rx_test ISO8601_UTC_PATTERN expires_at then [''Consent expires_at must be ISO8601 UTC or null.'']
       else push_if (expires_at \<le> pn_issued_at c) ''Consent expires_at must be greater than issued_at.''),
     (case pn_prior_consent c of None \<Rightarrow> [] | Some h \<Rightarrow>
       push_if (\<not> rx_test HASH_HEX_PATTERN h) ''Consent prior_consent must be 64 lowercase hex or null.''),
     (if pn_action c = ''grant''
      then push_if (pn_revoke_target c \<noteq> None) ''Consent revoke_target is only valid for revoke actions.''
      else if pn_action c = ''revoke''
      then push_if (case pn_revoke_target c of None \<Rightarrow> True | Some h \<Rightarrow> \<not> rx_test HASH_HEX_PATTERN h)
             ''Consent revoke_target.capability_hash must be 64 lowercase hex.'' @
           push_if (pn_expires_at c \<noteq> None) ''Consent revoke action must have expires_at = null.''
      else [])]"

definition validateConsent :: "platform \<Rightarrow> protocol_consent \<Rightarrow> string list" where
  "validateConsent P c = (case parseConsent P (protocol_consent_json c) of
     Inl e \<Rightarrow> [error_message e]
   | Inr _ \<Rightarrow> consent_errors c)"

section \<open>State\<close>

record consent_state_result =
  cs_state :: string
  cs_reasons :: "string list"
  cs_revocationStatus :: "revocation_status option"

text \<open>Comparisons of time values: false when one of them is \<open>NaN\<close>.\<close>

fun time_less :: "jsdate \<Rightarrow> jsdate \<Rightarrow> bool" where
  "time_less (Some a) (Some b) \<longleftrightarrow> a < b"
| "time_less _ _ \<longleftrightarrow> False"

fun time_at_least :: "jsdate \<Rightarrow> jsdate \<Rightarrow> bool" where
  "time_at_least (Some a) (Some b) \<longleftrightarrow> b \<le> a"
| "time_at_least _ _ \<longleftrightarrow> False"

definition errorCode_text :: "revocation_status \<Rightarrow> string" where
  "errorCode_text status = (case rs_errorCode status of None \<Rightarrow> ''undefined'' | Some c \<Rightarrow> c)"

definition evaluateConsentState ::
  "platform \<Rightarrow> int \<Rightarrow> protocol_consent \<Rightarrow> jsdate option \<Rightarrow> revocation_port \<Rightarrow> consent_state_result result" where
  "evaluateConsentState P clock consent now checkRevocation =
     (if pn_action consent \<noteq> ''grant'' \<and> pn_action consent \<noteq> ''revoke''
      then Inr \<lparr>cs_state = ''invalid'', cs_reasons = [''Consent action is invalid.''], cs_revocationStatus = None\<rparr>
      else if validateConsent P consent \<noteq> []
      then Inr \<lparr>cs_state = ''invalid'', cs_reasons = validateConsent P consent, cs_revocationStatus = None\<rparr>
      else if pn_action consent \<noteq> ''grant''
      then Inr \<lparr>cs_state = ''invalid'', cs_reasons = [''Consent action must be grant for active evaluation.''], cs_revocationStatus = None\<rparr>
      else bind_result (resolve_revocation clock checkRevocation (pn_consent_hash consent) ''consent_grant'') (\<lambda>status.
        if rs_status status = ''revoked''
        then Inr \<lparr>cs_state = ''revoked'', cs_reasons = [''Consent was revoked.''], cs_revocationStatus = Some status\<rparr>
        else if rs_status status = ''unknown''
        then Inr \<lparr>cs_state = ''revocation_unknown'',
               cs_reasons = [''Consent revocation status could not be verified ('' @ errorCode_text status @ '').''],
               cs_revocationStatus = Some status\<rparr>
        else
         (let time = (case now of None \<Rightarrow> Some clock | Some d \<Rightarrow> d); issuedAt = date_of P (pn_issued_at consent) in
          if issuedAt = None
          then Inr \<lparr>cs_state = ''invalid'', cs_reasons = [''Consent issued_at is not parseable.''], cs_revocationStatus = None\<rparr>
          else if time_less time issuedAt
          then Inr \<lparr>cs_state = ''inactive'', cs_reasons = [''Consent issued_at is in the future for evaluation time.''],
                 cs_revocationStatus = Some status\<rparr>
          else (case pn_expires_at consent of
            Some expires_at \<Rightarrow>
              if date_of P expires_at = None
              then Inr \<lparr>cs_state = ''invalid'', cs_reasons = [''Consent expires_at is not parseable.''], cs_revocationStatus = None\<rparr>
              else if time_at_least time (date_of P expires_at)
              then Inr \<lparr>cs_state = ''expired'', cs_reasons = [''Consent is expired.''], cs_revocationStatus = Some status\<rparr>
              else Inr \<lparr>cs_state = ''active'', cs_reasons = [], cs_revocationStatus = Some status\<rparr>
          | None \<Rightarrow> Inr \<lparr>cs_state = ''active'', cs_reasons = [], cs_revocationStatus = Some status\<rparr>))))"

definition isConsentActive ::
  "platform \<Rightarrow> int \<Rightarrow> protocol_consent \<Rightarrow> jsdate option \<Rightarrow> revocation_port \<Rightarrow> bool result" where
  "isConsentActive P clock consent now checkRevocation =
     bind_result (evaluateConsentState P clock consent now checkRevocation) (\<lambda>r. Inr (cs_state r = ''active''))"

definition isConsentRevoked ::
  "platform \<Rightarrow> int \<Rightarrow> protocol_consent \<Rightarrow> jsdate option \<Rightarrow> revocation_port \<Rightarrow> bool result" where
  "isConsentRevoked P clock consent now checkRevocation =
     bind_result (evaluateConsentState P clock consent now checkRevocation) (\<lambda>r. Inr (cs_state r = ''revoked''))"

section \<open>Scopes\<close>

record consent_scope_request =
  csr_scope :: "scope_entry list"
  csr_permissions :: "string list"
  csr_subject :: "string option"
  csr_grantee :: "string option"
  csr_marketMakerId :: "string option"
  csr_now :: "jsdate option"

definition doesConsentAllowScope ::
  "platform \<Rightarrow> int \<Rightarrow> protocol_consent \<Rightarrow> consent_scope_request \<Rightarrow> revocation_port \<Rightarrow> bool result" where
  "doesConsentAllowScope P clock consent request checkRevocation =
     bind_result (evaluateConsentState P clock consent (csr_now request) checkRevocation) (\<lambda>state. Inr (
       if cs_state state \<noteq> ''active'' then False
       else if csr_scope request = [] then False
       else if csr_permissions request = [] then False
       else if csr_subject request \<noteq> None \<and> csr_subject request \<noteq> Some (pn_subject consent) then False
       else if csr_grantee request \<noteq> None \<and> csr_grantee request \<noteq> Some (pn_grantee consent) then False
       else if csr_marketMakerId request \<noteq> None \<and> pn_marketMakerId consent \<noteq> None \<and>
           csr_marketMakerId request \<noteq> pn_marketMakerId consent then False
       else list_all (\<lambda>entry. trim (se_ref entry) \<noteq> [] \<and> toScopeKey entry \<in> toScopeKey ` set (pn_scope consent)) (csr_scope request) \<and>
         list_all (\<lambda>permission. trim permission \<noteq> [] \<and> permission \<in> set (pn_permissions consent)) (csr_permissions request)))"

section \<open>Lemmas\<close>

lemma push_if_Nil [simp]: "push_if b m = [] \<longleftrightarrow> \<not> b"
  by (simp add: push_if_def)

definition scope_valid :: "scope_entry list \<Rightarrow> bool" where
  "scope_valid scope \<longleftrightarrow> (\<forall>e \<in> set scope. se_type e \<in> set VALID_SCOPE_TYPES \<and> rx_test HASH_HEX_PATTERN (se_ref e))"

lemma scope_errors_Nil:
  "scope_errors seen i xs = [] \<longleftrightarrow> scope_valid xs \<and> distinct (map toScopeKey xs) \<and> toScopeKey ` set xs \<inter> seen = {}"
  by (induction xs arbitrary: seen i) (auto simp: scope_valid_def)

lemma permission_errors_Nil:
  "permission_errors seen i xs = [] \<longleftrightarrow> (\<forall>p \<in> set xs. rx_test PERMISSION_PATTERN p) \<and> distinct xs \<and> set xs \<inter> seen = {}"
  by (induction xs arbitrary: seen i) auto

text \<open>What validation accepts.\<close>

definition consent_valid :: "platform \<Rightarrow> protocol_consent \<Rightarrow> bool" where
  "consent_valid P c \<longleftrightarrow>
     rx_test VERSION_PATTERN (pn_version c) \<and> rx_test DID_PATTERN (pn_subject c) \<and> rx_test DID_PATTERN (pn_grantee c) \<and>
     rx_test ISO8601_UTC_PATTERN (pn_issued_at c) \<and> date_of P (pn_issued_at c) \<noteq> None \<and>
     rx_test HASH_HEX_PATTERN (pn_consent_hash c) \<and>
     pn_scope c \<noteq> [] \<and> length (pn_scope c) \<le> MAX_SCOPE_ENTRIES \<and> scope_valid (pn_scope c) \<and> distinct (map toScopeKey (pn_scope c)) \<and>
     pn_permissions c \<noteq> [] \<and> length (pn_permissions c) \<le> MAX_PERMISSIONS \<and>
     (\<forall>p \<in> set (pn_permissions c). rx_test PERMISSION_PATTERN p) \<and> distinct (pn_permissions c) \<and>
     (\<forall>h. pn_prior_consent c = Some h \<longrightarrow> rx_test HASH_HEX_PATTERN h) \<and>
     (pn_action c = ''grant'' \<and> pn_revoke_target c = None \<and>
        (\<forall>e. pn_expires_at c = Some e \<longrightarrow> rx_test ISO8601_UTC_PATTERN e \<and> pn_issued_at c < e) \<or>
      pn_action c = ''revoke'' \<and> pn_expires_at c = None \<and> (\<exists>h. pn_revoke_target c = Some h \<and> rx_test HASH_HEX_PATTERN h))"

lemma consent_props [simp]:
  "get_prop (consent_kvs c) ''version'' = JStr (pn_version c)" "get_prop (consent_kvs c) ''subject'' = JStr (pn_subject c)"
  "get_prop (consent_kvs c) ''grantee'' = JStr (pn_grantee c)" "get_prop (consent_kvs c) ''action'' = JStr (pn_action c)"
  "get_prop (consent_kvs c) ''scope'' = JArr (map scope_json (pn_scope c))"
  "get_prop (consent_kvs c) ''permissions'' = JArr (map JStr (pn_permissions c))"
  "get_prop (consent_kvs c) ''pricing'' = pn_pricing c" "get_prop (consent_kvs c) ''issued_at'' = JStr (pn_issued_at c)"
  "get_prop (consent_kvs c) ''expires_at'' = json_opt (pn_expires_at c)"
  "get_prop (consent_kvs c) ''prior_consent'' = json_opt (pn_prior_consent c)"
  "get_prop (consent_kvs c) ''consent_hash'' = JStr (pn_consent_hash c)"
  "get_prop (consent_kvs c) ''marketMakerId'' = (case pn_marketMakerId c of None \<Rightarrow> JUndef | Some m \<Rightarrow> JStr m)"
  "get_prop (consent_kvs c) ''revoke_target'' = (case pn_revoke_target c of None \<Rightarrow> JUndef | Some h \<Rightarrow> JObj [(''capability_hash'', JStr h)])"
  by (simp_all add: consent_kvs_def prop_optional split: option.split)

lemma did_nonempty: "rx_test DID_PATTERN v \<Longrightarrow> trim v \<noteq> []"
  by (rule did_trim)

lemma permission_char_fixed: "permission_char c \<Longrightarrow> \<not> js_space c \<and> to_lower_char c = c"
  by (auto simp: permission_char_def lower_alpha_def dec_digit_def between_def js_space_def to_lower_char_def Let_def)

lemma lower_hex_permission: "lower_hex c \<Longrightarrow> permission_char c"
  by (auto simp: lower_hex_def permission_char_def lower_alpha_def dec_digit_def between_def)

lemma permission_chars_fixed: "\<forall>c \<in> set s. permission_char c \<Longrightarrow> trim s = s \<and> to_lower s = s"
  using permission_char_fixed by (simp add: trim_no_space to_lower_def map_idI)

lemma hash_trim: "rx_test HASH_HEX_PATTERN h \<Longrightarrow> trim h = h \<and> to_lower h = h \<and> h \<noteq> []"
  using permission_chars_fixed [of h] lower_hex_permission by (auto simp: hash_hex_iff)

lemma permission_iff: "rx_test PERMISSION_PATTERN p \<longleftrightarrow> p \<noteq> [] \<and> (\<forall>c \<in> set p. permission_char c)"
  by (simp add: PERMISSION_PATTERN_def rx_test_lang mem_Plus_Cls)

lemma permission_trim: "rx_test PERMISSION_PATTERN p \<Longrightarrow> trim p = p \<and> to_lower p = p \<and> p \<noteq> []"
  using permission_chars_fixed [of p] by (simp add: permission_iff)

lemma map_index_map: "map_index f i (map g xs) = map_index (\<lambda>i x. f i (g x)) i xs"
  by (induction xs arbitrary: i) (auto split: sum.split)

lemma parse_scope_json:
  assumes "scope \<noteq> []" and "\<forall>e \<in> set scope. trim (se_ref e) \<noteq> []"
    and "get_prop kvs ''scope'' = JArr (map scope_json scope)"
  shows "consent_parseScope kvs = Inr scope"
proof -
  have "map scope_json scope \<noteq> []" using assms(1) by simp
  then obtain y ys where y: "map scope_json scope = y # ys" by (cases "map scope_json scope") auto
  have "map_index consent_scope_entry 0 (map scope_json scope) = Inr (map (\<lambda>e. e) scope)"
    unfolding map_index_map
    by (rule map_index_same) (use assms(2) in \<open>simp add: consent_scope_entry_def scope_json_def consent_parseStringField_def\<close>)
  then show ?thesis using y by (simp add: consent_parseScope_def assms(3))
qed

lemma parse_permissions_json:
  assumes "permissions \<noteq> []" and "\<forall>p \<in> set permissions. trim p \<noteq> []"
    and "get_prop kvs ''permissions'' = JArr (map JStr permissions)"
  shows "consent_parsePermissions kvs = Inr permissions"
proof -
  obtain y ys where y: "map JStr permissions = y # ys" using assms(1) by (cases permissions) auto
  have "map_index consent_permission 0 (map JStr permissions) = Inr (map (\<lambda>p. p) permissions)"
    unfolding map_index_map by (rule map_index_same) (use assms(2) in \<open>simp add: consent_permission_def Let_def\<close>)
  then show ?thesis using y by (simp add: consent_parsePermissions_def assms(3))
qed


text \<open>A typed consent parses to itself when its required strings are not blank.\<close>

definition parsed_of :: "protocol_consent \<Rightarrow> parsed_consent" where
  "parsed_of c = \<lparr>rc_version = JStr (pn_version c), rc_subject = pn_subject c, rc_grantee = pn_grantee c, rc_action = pn_action c,
     rc_scope = pn_scope c, rc_permissions = pn_permissions c, rc_pricing = pn_pricing c,
     rc_marketMakerId = (case pn_marketMakerId c of None \<Rightarrow> JUndef | Some m \<Rightarrow> JStr m),
     rc_revoke_target = (case pn_revoke_target c of None \<Rightarrow> JUndef | Some h \<Rightarrow> JObj [(''capability_hash'', JStr h)]),
     rc_issued_at = pn_issued_at c, rc_expires_at = json_opt (pn_expires_at c),
     rc_prior_consent = json_opt (pn_prior_consent c), rc_consent_hash = pn_consent_hash c\<rparr>"

lemma parse_typed:
  assumes "trim (pn_subject c) \<noteq> []" and "trim (pn_grantee c) \<noteq> []" and "pn_action c = ''grant'' \<or> pn_action c = ''revoke''"
    and "pn_scope c \<noteq> []" and "\<forall>e \<in> set (pn_scope c). trim (se_ref e) \<noteq> []"
    and "pn_permissions c \<noteq> []" and "\<forall>p \<in> set (pn_permissions c). trim p \<noteq> []"
    and "date_of P (pn_issued_at c) \<noteq> None" and "trim (pn_consent_hash c) \<noteq> []"
  shows "parseConsent P (protocol_consent_json c) = Inr (parsed_of c)"
proof -
  have "consent_parseScope (consent_kvs c) = Inr (pn_scope c)" by (rule parse_scope_json) (use assms in simp_all)
  moreover have "consent_parsePermissions (consent_kvs c) = Inr (pn_permissions c)"
    by (rule parse_permissions_json) (use assms in simp_all)
  ultimately show ?thesis
    using assms by (auto simp: parseConsent_def protocol_consent_json_def consent_nonempty_def consent_parseStringField_def
        consent_parseDateField_def parsed_of_def result_simps)
qed

lemma parse_typed_needs:
  assumes "parseConsent P (protocol_consent_json c) = Inr r"
  shows "pn_scope c \<noteq> [] \<and> pn_permissions c \<noteq> [] \<and> date_of P (pn_issued_at c) \<noteq> None"
  using assms by (auto simp: parseConsent_def protocol_consent_json_def consent_parseScope_def consent_parsePermissions_def
      consent_parseDateField_def consent_parseStringField_def result_simps)

lemma consent_errors_Nil:
  "consent_errors c = [] \<and> pn_scope c \<noteq> [] \<and> pn_permissions c \<noteq> [] \<and> date_of P (pn_issued_at c) \<noteq> None \<longleftrightarrow> consent_valid P c"
  unfolding consent_errors_def consent_valid_def
  by (auto simp: scope_errors_Nil permission_errors_Nil not_le split: option.splits if_splits)

lemma valid_parses: "consent_valid P c \<Longrightarrow> parseConsent P (protocol_consent_json c) = Inr (parsed_of c)"
  by (rule parse_typed)
    (auto simp: consent_valid_def scope_valid_def did_nonempty hash_trim permission_trim)

lemma validateConsent_Nil: "validateConsent P c = [] \<longleftrightarrow> consent_valid P c"
proof
  assume "validateConsent P c = []"
  then obtain r where "parseConsent P (protocol_consent_json c) = Inr r" and "consent_errors c = []"
    by (auto simp: validateConsent_def split: sum.splits)
  then show "consent_valid P c" using parse_typed_needs consent_errors_Nil by blast
next
  assume v: "consent_valid P c"
  then show "validateConsent P c = []"
    using valid_parses [OF v] consent_errors_Nil [of c P] by (simp add: validateConsent_def)
qed

lemma toScopeKey_valid:
  assumes "se_type e \<in> set VALID_SCOPE_TYPES" and "rx_test HASH_HEX_PATTERN (se_ref e)" and "toScopeKey x = toScopeKey e"
  shows "x = (e :: scope_entry)"
proof -
  have "CHR '':'' \<notin> set (se_type e)" using assms(1) by (rule scope_types_no_colon)
  moreover have "CHR '':'' \<notin> set (se_ref e)"
  proof
    have "\<not> lower_hex (CHR '':'')" by (simp add: lower_hex_def between_def dec_digit_def)
    moreover assume "CHR '':'' \<in> set (se_ref e)"
    ultimately show False using assms(2) by (auto simp: hash_hex_iff)
  qed
  ultimately have "se_type x = se_type e \<and> se_ref x = se_ref e"
    using assms(3) append_Cons_eq_iff [of "CHR '':''" "se_type e" "se_ref e" "se_type x" "se_ref x"]
    by (auto simp: toScopeKey_def eq_commute)
  then show ?thesis by simp
qed

lemma scope_keys_subset:
  assumes "scope_valid scope"
  shows "toScopeKey x \<in> toScopeKey ` set scope \<longleftrightarrow> x \<in> set scope"
proof
  assume "toScopeKey x \<in> toScopeKey ` set scope"
  then obtain e where "e \<in> set scope" "toScopeKey x = toScopeKey e" by blast
  then show "x \<in> set scope" using toScopeKey_valid [of e x] assms by (simp add: scope_valid_def)
qed simp

section \<open>The properties of consents\<close>

text \<open>The state at a time value, with what the port answered.\<close>

lemma consent_state_active:
  "(\<exists>r. evaluateConsentState P clock c now check = Inr r \<and> cs_state r = ''active'') \<longleftrightarrow>
   consent_valid P c \<and> pn_action c = ''grant'' \<and>
   (\<exists>status. resolve_revocation clock check (pn_consent_hash c) ''consent_grant'' = Inr status \<and>
      rs_status status \<noteq> ''revoked'' \<and> rs_status status \<noteq> ''unknown'') \<and>
   \<not> time_less (case now of None \<Rightarrow> Some clock | Some d \<Rightarrow> d) (date_of P (pn_issued_at c)) \<and>
   (\<forall>e. pn_expires_at c = Some e \<longrightarrow> date_of P e \<noteq> None \<and>
      \<not> time_at_least (case now of None \<Rightarrow> Some clock | Some d \<Rightarrow> d) (date_of P e))"
proof -
  have "consent_valid P c \<Longrightarrow> date_of P (pn_issued_at c) \<noteq> None" by (simp add: consent_valid_def)
  then show ?thesis
    by (cases "resolve_revocation clock check (pn_consent_hash c) ''consent_grant''"; cases "pn_expires_at c")
      (auto simp: evaluateConsentState_def validateConsent_Nil Let_def split: if_splits)
qed

lemma active_consent:
  "(\<exists>r. evaluateConsentState P clock c (Some (Some t)) (createRegistryRevocationCheck isRevoked v k) = Inr r \<and>
      cs_state r = ''active'') \<longleftrightarrow>
   validateConsent P c = [] \<and> pn_action c = ''grant'' \<and> isRevoked (pn_consent_hash c) = Inr (Some False) \<and>
   (\<exists>i. date_of P (pn_issued_at c) = Some i \<and> i \<le> t) \<and>
   (case pn_expires_at c of None \<Rightarrow> True | Some e \<Rightarrow> (\<exists>x. date_of P e = Some x \<and> t < x))"
proof -
  have port: "(\<exists>status. resolve_revocation clock (createRegistryRevocationCheck isRevoked v k) (pn_consent_hash c) ''consent_grant'' = Inr status \<and>
      rs_status status \<noteq> ''revoked'' \<and> rs_status status \<noteq> ''unknown'') \<longleftrightarrow> isRevoked (pn_consent_hash c) = Inr (Some False)"
    by (rule registry_lets_through)
  have issued: "consent_valid P c \<Longrightarrow> date_of P (pn_issued_at c) \<noteq> None" by (simp add: consent_valid_def)
  show ?thesis
    unfolding consent_state_active port validateConsent_Nil using issued
    by (cases "date_of P (pn_issued_at c)"; cases "pn_expires_at c") (auto split: option.splits)
qed

text \<open>
  With the check over a registry, a consent is active at a moment exactly when it is a valid grant, the
  registry answers that its hash is not revoked, and the moment is not before its issue and before its expiry.
\<close>

theorem consent_active_iff:
  "(\<exists>r. evaluateConsentState P clock c (Some (Some t)) (createRegistryRevocationCheck isRevoked v k) = Inr r \<and>
      cs_state r = ''active'') \<longleftrightarrow>
   validateConsent P c = [] \<and> pn_action c = ''grant'' \<and> isRevoked (pn_consent_hash c) = Inr (Some False) \<and>
   (\<exists>i. date_of P (pn_issued_at c) = Some i \<and> i \<le> t) \<and>
   (case pn_expires_at c of None \<Rightarrow> True | Some e \<Rightarrow> (\<exists>x. date_of P e = Some x \<and> t < x))"
  by (rule active_consent)

lemma normalizeString_Inr [result_simps]: "normalizeString v = Inr s \<longleftrightarrow> (\<exists>t. v = JStr t \<and> s = trim t)"
  by (cases v) (auto simp: normalizeString_def)

lemma normalized_scope_valid:
  assumes "collation P" and "scope_valid (consent_normalizeScope P s)"
  shows "consent_normalizeScope P (consent_normalizeScope P s) = consent_normalizeScope P s"
proof -
  let ?f = "\<lambda>entry :: scope_entry. \<lparr>se_type = se_type entry, se_ref = to_lower (trim (se_ref entry))\<rparr>"
  have "map ?f (consent_normalizeScope P s) = consent_normalizeScope P s"
    using assms(2) hash_trim by (intro map_idI) (simp add: scope_valid_def)
  then have "consent_normalizeScope P (consent_normalizeScope P s) = sort_cmp (compare_scope P) (consent_normalizeScope P s)"
    by (simp add: consent_normalizeScope_def)
  also have "\<dots> = consent_normalizeScope P s"
    unfolding consent_normalizeScope_def by (rule comparator_order.sort_cmp_idem [OF compare_scope_order [OF assms(1)]])
  finally show ?thesis .
qed

lemma normalizeConsent_parts:
  assumes "normalizeConsent P input = Inr c"
  shows "\<exists>scope. pn_scope c = consent_normalizeScope P scope"
    and "\<exists>permissions. pn_permissions c = sort (map (\<lambda>p. to_lower (trim p)) permissions)"
    and "trim (pn_version c) = pn_version c" "trim (pn_subject c) = pn_subject c" "trim (pn_grantee c) = pn_grantee c"
      "trim (pn_issued_at c) = pn_issued_at c" "pn_expires_at c = Some e \<Longrightarrow> trim e = e"
      "pn_marketMakerId c = Some m \<Longrightarrow> trim m = m"
proof -
  obtain r :: parsed_consent and version expires prior mm target where parts:
    "normalizeString (rc_version r) = Inr version"
    "(if rc_expires_at r = JNull then Inr None
         else bind_result (normalizeString (rc_expires_at r)) (\<lambda>s. Inr (Some s))) = Inr expires"
    "(if rc_marketMakerId r = JUndef then Inr None
         else bind_result (normalizeString (rc_marketMakerId r)) (\<lambda>s. Inr (Some s))) = Inr mm"
    "c = \<lparr>pn_version = version, pn_subject = trim (rc_subject r), pn_grantee = trim (rc_grantee r),
         pn_action = rc_action r, pn_scope = consent_normalizeScope P (rc_scope r),
         pn_permissions = sort (map (\<lambda>permission. to_lower (trim permission)) (rc_permissions r)),
         pn_pricing = rc_pricing r, pn_marketMakerId = mm, pn_revoke_target = target,
         pn_issued_at = trim (rc_issued_at r), pn_expires_at = expires, pn_prior_consent = prior,
         pn_consent_hash = to_lower (trim (rc_consent_hash r))\<rparr>"
    using assms unfolding normalizeConsent_def bind_result_Inr sum.inject by (elim exE conjE) (rule that, assumption+, rule sym, assumption)
  show "\<exists>scope. pn_scope c = consent_normalizeScope P scope"
    and "\<exists>permissions. pn_permissions c = sort (map (\<lambda>p. to_lower (trim p)) permissions)"
    and "trim (pn_subject c) = pn_subject c" "trim (pn_grantee c) = pn_grantee c" "trim (pn_issued_at c) = pn_issued_at c"
    unfolding parts(4) by auto
  show "trim (pn_version c) = pn_version c" using parts(1) by (auto simp: parts(4) result_simps)
  show "pn_expires_at c = Some e \<Longrightarrow> trim e = e" using parts(2) by (auto simp: parts(4) result_simps split: if_splits)
  show "pn_marketMakerId c = Some m \<Longrightarrow> trim m = m" using parts(3) by (auto simp: parts(4) result_simps split: if_splits)
qed

text \<open>
  normalization is idempotent: a consent that it returns and that is valid is read and normalized again
  to itself.
\<close>

theorem normalize_consent_idempotent:
  assumes "collation P" and "normalizeConsent P input = Inr c" and "validateConsent P c = []"
  shows "normalizeConsent P (protocol_consent_json c) = Inr c"
proof -
  have v: "consent_valid P c" using assms(3) validateConsent_Nil by blast
  note norm = normalizeConsent_parts [OF assms(2)]
  obtain scope permissions where lists: "pn_scope c = consent_normalizeScope P scope"
      "pn_permissions c = sort (map (\<lambda>p. to_lower (trim p)) permissions)" using norm(1,2) by blast
  have scope: "consent_normalizeScope P (pn_scope c) = pn_scope c"
    using normalized_scope_valid [OF assms(1)] v lists(1) by (simp add: consent_valid_def)
  have "map (\<lambda>p. to_lower (trim p)) (pn_permissions c) = pn_permissions c"
    using v permission_trim by (intro map_idI) (simp add: consent_valid_def)
  then have permissions: "sort (map (\<lambda>p. to_lower (trim p)) (pn_permissions c)) = pn_permissions c"
    using lists(2) by (simp add: sorted_sort_id)
  have hashes: "to_lower (trim (pn_consent_hash c)) = pn_consent_hash c"
      "\<And>h. pn_prior_consent c = Some h \<Longrightarrow> to_lower (trim h) = h" "\<And>h. pn_revoke_target c = Some h \<Longrightarrow> to_lower (trim h) = h"
    using v hash_trim by (auto simp: consent_valid_def)
  show ?thesis
    using valid_parses [OF v] norm scope permissions hashes
    by (cases c) (auto simp: normalizeConsent_def parsed_of_def json_opt_def get_member_def result_simps split: option.splits)
qed

section \<open>An example\<close>

definition zeros :: string where "zeros = replicate 64 (CHR ''0'')"

definition sample_entry :: scope_entry where "sample_entry = \<lparr>se_type = ''content'', se_ref = zeros\<rparr>"

definition sample_grant :: protocol_consent where
  "sample_grant = \<lparr>pn_version = ''1.0'', pn_subject = ''did:key:alice'', pn_grantee = ''did:key:bob'', pn_action = ''grant'',
     pn_scope = [sample_entry], pn_permissions = [''read''], pn_pricing = JUndef, pn_marketMakerId = None, pn_revoke_target = None,
     pn_issued_at = ''2025-01-15T14:30:00Z'', pn_expires_at = Some ''2025-06-15T14:30:00Z'', pn_prior_consent = None,
     pn_consent_hash = zeros\<rparr>"

lemma zeros_hex: "rx_test HASH_HEX_PATTERN zeros"
  by (simp add: hash_hex_iff zeros_def lower_hex_def dec_digit_def between_def)

lemma sample_issued: "date_of P ''2025-01-15T14:30:00Z'' = Some 1736951400000"
proof -
  have "iso_parse ''2025-01-15T14:30:00Z'' = Some 1736951400000" by code_simp
  then show ?thesis by (simp add: date_of_def date_parse_def)
qed

lemma sample_expires: "date_of P ''2025-06-15T14:30:00Z'' = Some 1749997800000"
proof -
  have "iso_parse ''2025-06-15T14:30:00Z'' = Some 1749997800000" by code_simp
  then show ?thesis by (simp add: date_of_def date_parse_def)
qed

lemma sample_iso: "rx_test ISO8601_UTC_PATTERN ''2025-01-15T14:30:00Z''" "rx_test ISO8601_UTC_PATTERN ''2025-06-15T14:30:00Z''"
  by code_simp+

lemma sample_permission: "rx_test PERMISSION_PATTERN ''read''"
  by code_simp

lemma sample_grant_valid: "consent_valid P sample_grant"
  using sample_issued sample_iso sample_permission zeros_hex sample_did sample_version
  by (simp add: consent_valid_def sample_grant_def sample_entry_def scope_valid_def VALID_SCOPE_TYPES_def MAX_SCOPE_ENTRIES_def
      MAX_PERMISSIONS_def is_did_def)

lemma sample_grant_fixed: "trim zeros = zeros" "to_lower zeros = zeros" "trim ''read'' = ''read''" "to_lower ''read'' = ''read''"
  using hash_trim [OF zeros_hex] permission_trim [OF sample_permission] by simp_all

lemma sample_grant_normal: "normalizeConsent P (protocol_consent_json sample_grant) = Inr sample_grant"
proof -
  have "trim ''1.0'' = ''1.0''" "trim ''did:key:alice'' = ''did:key:alice''" "trim ''did:key:bob'' = ''did:key:bob''"
      "trim ''2025-01-15T14:30:00Z'' = ''2025-01-15T14:30:00Z''" "trim ''2025-06-15T14:30:00Z'' = ''2025-06-15T14:30:00Z''"
    by code_simp+
  then show ?thesis
    using valid_parses [OF sample_grant_valid] sample_grant_fixed
    by (simp add: normalizeConsent_def parsed_of_def json_opt_def normalizeString_def sample_grant_def sample_entry_def
        consent_normalizeScope_def)
qed

lemma normalize_consent_idempotent_witness:
  "normalizeConsent zero_platform (protocol_consent_json sample_grant) = Inr sample_grant"
  by (rule normalize_consent_idempotent [of _ "protocol_consent_json sample_grant"])
    (simp_all add: sample_grant_normal validateConsent_Nil sample_grant_valid)

lemma sample_moments:
  "four_digit_year 1736951400000" "four_digit_year 1749997800000" "iso_seconds (Some 1749997800000) = Inr ''2025-06-15T14:30:00Z''"
proof -
  let ?f = "(2025, 1, 15, 14, 30, 0) :: stamp" and ?g = "(2025, 6, 15, 14, 30, 0) :: stamp"
  have f: "stamp_seconds ?f = 1736951400" "valid_stamp ?f" and g: "stamp_seconds ?g = 1749997800" "valid_stamp ?g"
    by (simp_all add: make_day_def day_from_year_def month_start_def leap_year_def month_starts_def
        calendar_date_def days_in_month_def)
  show "four_digit_year 1736951400000" using stamp_of_stamp [of ?f] f by simp
  show "four_digit_year 1749997800000" using stamp_of_stamp [of ?g] g by simp
  show "iso_seconds (Some 1749997800000) = Inr ''2025-06-15T14:30:00Z''"
    using iso_seconds_of_stamp [of ?g] g by (simp add: pad_numeral digit_numerals)
qed

end
