(* ===== verification/ProtocolCapability.thy ===== *)
theory ProtocolCapability
  imports ProtocolConsent
begin

text \<open>
  \<open>protocol/capability/\<close>: the capabilities of the protocol layer: reading one from a value of which
  nothing is known, its hash, minting from a consent, verification, its state at a moment and the access it
  gives.
\<close>

section \<open>Data\<close>

record capability_base =
  pc_parent_consent_hash :: string
  pc_subject :: string
  pc_grantee :: string
  pc_scope :: "scope_entry list"
  pc_permissions :: "string list"
  pc_issued_at :: string
  pc_expires_at :: string
  pc_not_before :: "string option"
  pc_marketMakerId :: "string option"

record protocol_capability = capability_base +
  pc_capability_hash :: string
  pc_metadata :: "json_object option"

text \<open>A typed capability as the value it is.\<close>

definition capability_kvs :: "protocol_capability \<Rightarrow> json_object" where
  "capability_kvs c =
     [(''capability_hash'', JStr (pc_capability_hash c)), (''parent_consent_hash'', JStr (pc_parent_consent_hash c)),
      (''subject'', JStr (pc_subject c)), (''grantee'', JStr (pc_grantee c)), (''scope'', JArr (map scope_json (pc_scope c))),
      (''permissions'', JArr (map JStr (pc_permissions c))), (''issued_at'', JStr (pc_issued_at c)),
      (''expires_at'', JStr (pc_expires_at c))] @
     optional_property ''not_before'' JStr (pc_not_before c) @
     optional_property ''marketMakerId'' JStr (pc_marketMakerId c) @
     optional_property ''metadata'' JObj (pc_metadata c)"

definition protocol_capability_json :: "protocol_capability \<Rightarrow> json" where
  "protocol_capability_json c = JObj (capability_kvs c)"

section \<open>Parsing\<close>

definition parseStringField :: "json_object \<Rightarrow> string \<Rightarrow> string result" where
  "parseStringField kvs f = as_string (''Capability field \"'' @ f @ ''\" must be a string.'') (get_prop kvs f)"

definition parseDateField :: "json_object \<Rightarrow> string \<Rightarrow> string result" where
  "parseDateField kvs f = bind_result (parseStringField kvs f) (\<lambda>v.
     after (throw_if (\<not> rx_test ISO8601_UTC_PATTERN v)
         (''Capability field \"'' @ f @ ''\" must be ISO8601 UTC with second precision.'')) (Inr v))"

definition parse_scope_entry :: "nat \<Rightarrow> json \<Rightarrow> scope_entry result" where
  "parse_scope_entry index entry =
     bind_result (as_object (''Capability scope entry '' @ show_nat index @ '' must be a JSON object.'') entry) (\<lambda>entryRecord.
     bind_result (parseStringField entryRecord ''type'') (\<lambda>type.
     bind_result (parseStringField entryRecord ''ref'') (\<lambda>r. let ref = to_lower (trim r) in
     after (first_throw [
         throw_if (type \<notin> set VALID_SCOPE_TYPES) (''Capability scope entry '' @ show_nat index @ '' has invalid type.''),
         throw_if (\<not> rx_test HASH_HEX_PATTERN ref)
           (''Capability scope entry '' @ show_nat index @ '' ref must be 64 lowercase hex.'')])
       (Inr \<lparr>se_type = type, se_ref = ref\<rparr>))))"

definition parseScope :: "json_object \<Rightarrow> scope_entry list result" where
  "parseScope kvs =
     bind_result (as_nonempty_array ''Capability field \"scope\" must be a non-empty array.'' (get_prop kvs ''scope''))
       (map_index parse_scope_entry 0)"

definition parse_permission :: "nat \<Rightarrow> json \<Rightarrow> string result" where
  "parse_permission index permission =
     bind_result (as_string (''Capability permission '' @ show_nat index @ '' must be a string.'') permission) (\<lambda>p.
     let normalized = to_lower (trim p) in
     after (throw_if (\<not> rx_test PERMISSION_PATTERN normalized)
         (''Capability permission '' @ show_nat index @ '' must be lowercase alphanumeric with hyphens.''))
       (Inr normalized))"

definition parsePermissions :: "json_object \<Rightarrow> string list result" where
  "parsePermissions kvs =
     bind_result (as_nonempty_array ''Capability field \"permissions\" must be a non-empty array.'' (get_prop kvs ''permissions''))
       (map_index parse_permission 0)"

definition normalizeScope :: "platform \<Rightarrow> scope_entry list \<Rightarrow> scope_entry list" where
  "normalizeScope P scope = sort_cmp (compare_scope P) scope"

definition parse_not_before :: "json \<Rightarrow> string option result" where
  "parse_not_before v = (case v of JUndef \<Rightarrow> Inr None
     | JStr s \<Rightarrow> after (throw_if (\<not> rx_test ISO8601_UTC_PATTERN s)
         ''Capability not_before must be ISO8601 UTC with second precision.'') (Inr (Some s))
     | _ \<Rightarrow> Inl (Error ''Capability not_before must be ISO8601 UTC with second precision.''))"

definition parse_marketMakerId :: "json \<Rightarrow> string option result" where
  "parse_marketMakerId v = (case v of JUndef \<Rightarrow> Inr None
     | JStr s \<Rightarrow> after (throw_if (trim s = [])
         ''Capability marketMakerId must be a non-empty string when provided.'') (Inr (Some (trim s)))
     | _ \<Rightarrow> Inl (Error ''Capability marketMakerId must be a non-empty string when provided.''))"

definition parse_metadata :: "json \<Rightarrow> json_object option result" where
  "parse_metadata v = (case v of JUndef \<Rightarrow> Inr None | JObj kvs \<Rightarrow> Inr (Some kvs)
     | _ \<Rightarrow> Inl (Error ''Capability metadata must be a JSON object when provided.''))"

definition parseCapability :: "platform \<Rightarrow> json \<Rightarrow> protocol_capability result" where
  "parseCapability P input =
     bind_result (as_object ''Capability must be a non-null JSON object.'' input) (\<lambda>kvs.
     bind_result (parseStringField kvs ''capability_hash'') (\<lambda>h. let capability_hash = to_lower (trim h) in
     bind_result (parseStringField kvs ''parent_consent_hash'') (\<lambda>h. let parent_consent_hash = to_lower (trim h) in
     bind_result (parseStringField kvs ''subject'') (\<lambda>s. let subject = trim s in
     bind_result (parseStringField kvs ''grantee'') (\<lambda>g. let grantee = trim g in
     bind_result (parseDateField kvs ''issued_at'') (\<lambda>issued_at.
     bind_result (parseDateField kvs ''expires_at'') (\<lambda>expires_at.
     after (first_throw [
        throw_if (\<not> rx_test HASH_HEX_PATTERN capability_hash) ''Capability capability_hash must be 64 lowercase hex.'',
        throw_if (\<not> rx_test HASH_HEX_PATTERN parent_consent_hash) ''Capability parent_consent_hash must be 64 lowercase hex.'',
        throw_if (\<not> rx_test DID_PATTERN subject) ''Capability subject must be a valid DID.'',
        throw_if (\<not> rx_test DID_PATTERN grantee) ''Capability grantee must be a valid DID.''])
     (bind_result (parseScope kvs) (\<lambda>scope.
     bind_result (parsePermissions kvs) (\<lambda>permissions.
     bind_result (parse_not_before (get_prop kvs ''not_before'')) (\<lambda>not_before.
     bind_result (parse_marketMakerId (get_prop kvs ''marketMakerId'')) (\<lambda>marketMakerId.
     bind_result (parse_metadata (get_prop kvs ''metadata'')) (\<lambda>metadata.
       Inr \<lparr>pc_parent_consent_hash = parent_consent_hash, pc_subject = subject, pc_grantee = grantee,
         pc_scope = normalizeScope P scope, pc_permissions = sort (unique permissions), pc_issued_at = issued_at,
         pc_expires_at = expires_at, pc_not_before = not_before, pc_marketMakerId = marketMakerId,
         pc_capability_hash = capability_hash, pc_metadata = metadata\<rparr>)))))))))))))"

section \<open>Hash\<close>

definition payload_kvs :: "platform \<Rightarrow> 'a capability_base_scheme \<Rightarrow> json_object" where
  "payload_kvs P capability = [
     (''parent_consent_hash'', JStr (pc_parent_consent_hash capability)), (''subject'', JStr (pc_subject capability)),
     (''grantee'', JStr (pc_grantee capability)), (''scope'', JArr (map scope_json (normalizeScope P (pc_scope capability)))),
     (''permissions'', JArr (map JStr (sort (pc_permissions capability)))), (''issued_at'', JStr (pc_issued_at capability)),
     (''expires_at'', JStr (pc_expires_at capability)), (''not_before'', json_opt (pc_not_before capability)),
     (''marketMakerId'', json_opt (pc_marketMakerId capability))]"

definition toCanonicalCapabilityHashPayload :: "platform \<Rightarrow> 'a capability_base_scheme \<Rightarrow> json" where
  "toCanonicalCapabilityHashPayload P capability = JObj (payload_kvs P capability)"

definition computeCapabilityDeterministicHash :: "platform \<Rightarrow> 'a capability_base_scheme \<Rightarrow> string result" where
  "computeCapabilityDeterministicHash P capability =
     bind_result (canonicalizeJSON (toCanonicalCapabilityHashPayload P capability)) (\<lambda>canonical.
       Inr (sha256Hex P (utf8_encode canonical)))"

section \<open>Verification\<close>

definition verifyTemporal :: "protocol_capability \<Rightarrow> string list" where
  "verifyTemporal c =
     push_if (pc_expires_at c \<le> pc_issued_at c) ''Capability expires_at must be strictly greater than issued_at.'' @
     push_if (case pc_not_before c of None \<Rightarrow> False | Some n \<Rightarrow> n < pc_issued_at c) ''Capability not_before cannot be earlier than issued_at.'' @
     push_if (case pc_not_before c of None \<Rightarrow> False | Some n \<Rightarrow> n \<ge> pc_expires_at c) ''Capability not_before must be earlier than expires_at.''"

text \<open>\<open>Inl errors\<close> is the result with \<open>valid: false\<close>, \<open>Inr c\<close> the one with \<open>normalized: c\<close>.\<close>

definition verifyCapability :: "platform \<Rightarrow> json \<Rightarrow> string list + protocol_capability" where
  "verifyCapability P input = (case parseCapability P input of
     Inl e \<Rightarrow> Inl [error_message e]
   | Inr capability \<Rightarrow>
      (let errors = verifyTemporal capability @
         push_if (computeCapabilityDeterministicHash P capability \<noteq> Inr (pc_capability_hash capability))
           ''Capability hash integrity mismatch.''
       in if errors \<noteq> [] then Inl errors else Inr capability))"

section \<open>Minting\<close>

record mint_input =
  mi_consent :: json
  mi_requested_scope :: "scope_entry list"
  mi_requested_permissions :: "string list"
  mi_issued_at :: string
  mi_expires_at :: "string option"
  mi_not_before :: "string option"
  mi_marketMakerId :: "string option"
  mi_metadata :: "json_object option"

definition assertConsentReady :: "platform \<Rightarrow> int \<Rightarrow> json \<Rightarrow> jsdate \<Rightarrow> revocation_port \<Rightarrow> protocol_consent result" where
  "assertConsentReady P clock consentInput now checkRevocation =
     bind_result (parseConsent P consentInput) (\<lambda>_.
     bind_result (normalizeConsent P consentInput) (\<lambda>normalized.
     after (throw_if (validateConsent P normalized \<noteq> [])
         (''Consent is invalid: '' @ join '' | '' (validateConsent P normalized)))
     (bind_result (evaluateConsentState P clock normalized (Some now) checkRevocation) (\<lambda>state.
     after (throw_if (cs_state state \<noteq> ''active'')
         (''Consent must be ACTIVE to mint capability. Current state: '' @ cs_state state @ ''.''))
     (Inr normalized)))))"

definition assertIsoTimestamp :: "string \<Rightarrow> string \<Rightarrow> throws" where
  "assertIsoTimestamp v fieldName =
     throw_if (\<not> rx_test ISO8601_UTC_PATTERN v) (fieldName @ '' must be ISO8601 UTC with second precision.'')"

definition compare_key :: "platform \<Rightarrow> scope_entry \<Rightarrow> scope_entry \<Rightarrow> int" where
  "compare_key P a b = localeCompare P (toScopeKey a) (toScopeKey b)"

definition requested_scope :: "platform \<Rightarrow> scope_entry list \<Rightarrow> scope_entry list" where
  "requested_scope P scope = sort_cmp (compare_key P)
     (map (\<lambda>entry. \<lparr>se_type = se_type entry, se_ref = to_lower (trim (se_ref entry))\<rparr>) scope)"

definition requested_permissions :: "string list \<Rightarrow> string list" where
  "requested_permissions permissions = sort (unique (map (\<lambda>p. to_lower (trim p)) permissions))"

text \<open>The expiry of the new capability, and its guards.\<close>

definition mint_expiry :: "protocol_consent \<Rightarrow> mint_input \<Rightarrow> string result" where
  "mint_expiry consent input = (case (case mi_expires_at input of None \<Rightarrow> pn_expires_at consent | Some e \<Rightarrow> Some e) of
     None \<Rightarrow> Inl (Error ''expires_at is required when consent.expires_at is null.'')
   | Some expires_at \<Rightarrow> after (first_throw [
       assertIsoTimestamp expires_at ''expires_at'',
       throw_if (expires_at \<le> mi_issued_at input) ''expires_at must be strictly greater than issued_at.'',
       throw_if (case pn_expires_at consent of None \<Rightarrow> False | Some e \<Rightarrow> expires_at > e) ''expires_at cannot exceed consent.expires_at.''])
     (Inr expires_at))"

definition mint_guards :: "platform \<Rightarrow> protocol_consent \<Rightarrow> mint_input \<Rightarrow> throws" where
  "mint_guards P consent input = first_throw [
     throw_if (mi_requested_scope input = []) ''requested_scope must be a non-empty array.'',
     throw_if (mi_requested_permissions input = []) ''requested_permissions must be a non-empty array.'',
     each_throw (\<lambda>entry. throw_if (toScopeKey entry \<notin> toScopeKey ` set (pn_scope consent))
         ''requested_scope must be a subset of consent.scope.'') (requested_scope P (mi_requested_scope input)),
     each_throw (\<lambda>permission. throw_if (permission \<notin> set (pn_permissions consent))
         ''requested_permissions must be a subset of consent.permissions.'') (requested_permissions (mi_requested_permissions input)),
     throw_if (pn_marketMakerId consent \<noteq> None \<and> mi_marketMakerId input \<noteq> None \<and> mi_marketMakerId input \<noteq> pn_marketMakerId consent)
       ''marketMakerId must match consent.marketMakerId when consent is bound.'',
     throw_if (pn_marketMakerId consent = None \<and> mi_marketMakerId input \<noteq> None)
       ''marketMakerId cannot be introduced if consent is unbound.'']"

definition mint_not_before :: "mint_input \<Rightarrow> string \<Rightarrow> throws" where
  "mint_not_before input expires_at = (case mi_not_before input of None \<Rightarrow> None
   | Some not_before \<Rightarrow> first_throw [
       assertIsoTimestamp not_before ''not_before'',
       throw_if (not_before < mi_issued_at input) ''not_before cannot be earlier than issued_at.'',
       throw_if (not_before \<ge> expires_at) ''not_before must be earlier than expires_at.''])"

definition minted_base :: "platform \<Rightarrow> protocol_consent \<Rightarrow> mint_input \<Rightarrow> string \<Rightarrow> capability_base" where
  "minted_base P consent input expires_at =
     \<lparr>pc_parent_consent_hash = pn_consent_hash consent, pc_subject = pn_subject consent,
       pc_grantee = pn_grantee consent, pc_scope = requested_scope P (mi_requested_scope input),
       pc_permissions = requested_permissions (mi_requested_permissions input),
       pc_issued_at = mi_issued_at input, pc_expires_at = expires_at,
       pc_not_before = mi_not_before input, pc_marketMakerId = pn_marketMakerId consent\<rparr>"

definition mintCapability_protocol :: "platform \<Rightarrow> int \<Rightarrow> mint_input \<Rightarrow> revocation_port \<Rightarrow> protocol_capability result" where
  "mintCapability_protocol P clock input checkConsentRevocation =
     after (assertIsoTimestamp (mi_issued_at input) ''issued_at'')
     (let mintNow = date_of P (mi_issued_at input) in
      after (throw_if (mintNow = None) ''issued_at must be parseable date.'')
      (bind_result (assertConsentReady P clock (mi_consent input) mintNow checkConsentRevocation) (\<lambda>consent.
       after (mint_guards P consent input)
       (bind_result (mint_expiry consent input) (\<lambda>expires_at.
        after (mint_not_before input expires_at)
        (let base = minted_base P consent input expires_at in
         bind_result (computeCapabilityDeterministicHash P base) (\<lambda>capability_hash.
           Inr (capability_base.extend base \<lparr>pc_capability_hash = capability_hash, pc_metadata = mi_metadata input\<rparr>))))))))"

section \<open>State and access\<close>

record capability_state_result =
  ps_state :: string
  ps_reasons :: "string list"
  ps_revocationStatus :: "revocation_status option"

definition evaluateCapabilityState ::
  "platform \<Rightarrow> int \<Rightarrow> json \<Rightarrow> jsdate option \<Rightarrow> revocation_port \<Rightarrow> capability_state_result result" where
  "evaluateCapabilityState P clock capabilityInput now checkRevocation = (case verifyCapability P capabilityInput of
     Inl errors \<Rightarrow> Inr \<lparr>ps_state = ''invalid'', ps_reasons = errors, ps_revocationStatus = None\<rparr>
   | Inr capability \<Rightarrow>
      bind_result (resolve_revocation clock checkRevocation (pc_capability_hash capability) ''capability_grant'') (\<lambda>status.
      if rs_status status = ''revoked''
      then Inr \<lparr>ps_state = ''revoked'', ps_reasons = [''Capability was revoked.''], ps_revocationStatus = Some status\<rparr>
      else if rs_status status = ''unknown''
      then Inr \<lparr>ps_state = ''revocation_unknown'',
             ps_reasons = [''Capability revocation status could not be verified ('' @ errorCode_text status @ '').''],
             ps_revocationStatus = Some status\<rparr>
      else
       (let time = (case now of None \<Rightarrow> Some clock | Some d \<Rightarrow> d) in
        bind_result (case pc_not_before capability of None \<Rightarrow> Inr False
            | Some not_before \<Rightarrow> bind_result (to_iso_string time) (\<lambda>n. Inr (n < not_before))) (\<lambda>early.
        if early
        then Inr \<lparr>ps_state = ''not_yet_active'', ps_reasons = [''Capability not_before is in the future.''], ps_revocationStatus = Some status\<rparr>
        else bind_result (to_iso_string time) (\<lambda>n.
          if n \<ge> pc_expires_at capability
          then Inr \<lparr>ps_state = ''expired'', ps_reasons = [''Capability is expired.''], ps_revocationStatus = Some status\<rparr>
          else Inr \<lparr>ps_state = ''active'', ps_reasons = [], ps_revocationStatus = Some status\<rparr>)))))"

record capability_access_request =
  ca_requested_scope :: "scope_entry list"
  ca_requested_permissions :: "string list"
  ca_subject :: "string option"
  ca_grantee :: "string option"
  ca_marketMakerId :: "string option"
  ca_now :: "jsdate option"

definition evaluateCapabilityAccess_protocol ::
  "platform \<Rightarrow> int \<Rightarrow> json \<Rightarrow> capability_access_request \<Rightarrow> revocation_port \<Rightarrow> bool result" where
  "evaluateCapabilityAccess_protocol P clock capabilityInput request checkRevocation =
     bind_result (evaluateCapabilityState P clock capabilityInput (ca_now request) checkRevocation) (\<lambda>state. Inr (
       if ps_state state \<noteq> ''active'' then False
       else if ca_requested_scope request = [] then False
       else if ca_requested_permissions request = [] then False
       else (case verifyCapability P capabilityInput of Inl _ \<Rightarrow> False | Inr capability \<Rightarrow>
         if ca_subject request \<noteq> None \<and> ca_subject request \<noteq> Some (pc_subject capability) then False
         else if ca_grantee request \<noteq> None \<and> ca_grantee request \<noteq> Some (pc_grantee capability) then False
         else if ca_marketMakerId request \<noteq> None \<and> ca_marketMakerId request \<noteq> pc_marketMakerId capability then False
         else list_all (\<lambda>requested. trim (se_ref requested) \<noteq> [] \<and>
               toScopeKey \<lparr>se_type = se_type requested, se_ref = to_lower (trim (se_ref requested))\<rparr> \<in> toScopeKey ` set (pc_scope capability))
               (ca_requested_scope request) \<and>
             list_all (\<lambda>permission. trim permission \<noteq> [] \<and> to_lower (trim permission) \<in> set (pc_permissions capability))
               (ca_requested_permissions request))))"

section \<open>Lemmas\<close>

subsection \<open>The hash\<close>

lemma payload_plain: "plain (toCanonicalCapabilityHashPayload P c)"
  by (auto simp: toCanonicalCapabilityHashPayload_def payload_kvs_def scope_json_def json_opt_def split: option.split)

lemma hash_total: "\<exists>h. computeCapabilityDeterministicHash P c = Inr h"
  using canonicalize_plain [OF payload_plain [of P c]] by (auto simp: computeCapabilityDeterministicHash_def)

lemma hash_hex:
  "sha256_length P \<Longrightarrow> computeCapabilityDeterministicHash P c = Inr h \<Longrightarrow> rx_test HASH_HEX_PATTERN h"
  by (auto simp: computeCapabilityDeterministicHash_def result_simps sha256Hex_hash_hex)

text \<open>The hash is that of the fields, with scope and permissions in their canonical order.\<close>

lemma hash_cong:
  assumes "collation P"
  shows "computeCapabilityDeterministicHash P (c\<lparr>pc_scope := normalizeScope P s, pc_permissions := sort ps\<rparr>) =
    computeCapabilityDeterministicHash P (c\<lparr>pc_scope := s, pc_permissions := ps\<rparr>)"
  using comparator_order.sort_cmp_idem [OF compare_scope_order [OF assms], of s]
  by (simp add: computeCapabilityDeterministicHash_def toCanonicalCapabilityHashPayload_def payload_kvs_def normalizeScope_def sorted_sort_id)

subsection \<open>Parsing\<close>

lemma capability_props [simp]:
  "get_prop (capability_kvs c) ''capability_hash'' = JStr (pc_capability_hash c)"
  "get_prop (capability_kvs c) ''parent_consent_hash'' = JStr (pc_parent_consent_hash c)"
  "get_prop (capability_kvs c) ''subject'' = JStr (pc_subject c)" "get_prop (capability_kvs c) ''grantee'' = JStr (pc_grantee c)"
  "get_prop (capability_kvs c) ''scope'' = JArr (map scope_json (pc_scope c))"
  "get_prop (capability_kvs c) ''permissions'' = JArr (map JStr (pc_permissions c))"
  "get_prop (capability_kvs c) ''issued_at'' = JStr (pc_issued_at c)" "get_prop (capability_kvs c) ''expires_at'' = JStr (pc_expires_at c)"
  "get_prop (capability_kvs c) ''not_before'' = (case pc_not_before c of None \<Rightarrow> JUndef | Some n \<Rightarrow> JStr n)"
  "get_prop (capability_kvs c) ''marketMakerId'' = (case pc_marketMakerId c of None \<Rightarrow> JUndef | Some m \<Rightarrow> JStr m)"
  "get_prop (capability_kvs c) ''metadata'' = (case pc_metadata c of None \<Rightarrow> JUndef | Some m \<Rightarrow> JObj m)"
  by (simp_all add: capability_kvs_def prop_optional split: option.split)

text \<open>What every parsed capability satisfies, in the order of its lists or not.\<close>

definition capability_shape :: "protocol_capability \<Rightarrow> bool" where
  "capability_shape c \<longleftrightarrow>
     rx_test HASH_HEX_PATTERN (pc_capability_hash c) \<and> rx_test HASH_HEX_PATTERN (pc_parent_consent_hash c) \<and>
     rx_test DID_PATTERN (pc_subject c) \<and> rx_test DID_PATTERN (pc_grantee c) \<and>
     pc_scope c \<noteq> [] \<and> scope_valid (pc_scope c) \<and>
     pc_permissions c \<noteq> [] \<and> (\<forall>p \<in> set (pc_permissions c). rx_test PERMISSION_PATTERN p) \<and>
     rx_test ISO8601_UTC_PATTERN (pc_issued_at c) \<and> rx_test ISO8601_UTC_PATTERN (pc_expires_at c) \<and>
     (\<forall>n. pc_not_before c = Some n \<longrightarrow> rx_test ISO8601_UTC_PATTERN n) \<and>
     (\<forall>m. pc_marketMakerId c = Some m \<longrightarrow> m \<noteq> [] \<and> trim m = m)"

definition capability_normal :: "platform \<Rightarrow> protocol_capability \<Rightarrow> protocol_capability" where
  "capability_normal P c = c\<lparr>pc_scope := normalizeScope P (pc_scope c), pc_permissions := sort (unique (pc_permissions c))\<rparr>"

lemma did_chars_space: "rx_test DID_PATTERN v \<Longrightarrow> trim v = v"
proof -
  assume "rx_test DID_PATTERN v"
  then have "\<forall>c \<in> set v. lower_alpha c \<or> dec_digit c \<or> did_char c \<or> c = CHR '':''"
    unfolding did_iff by (auto simp: lower_alpha_def between_def)
  moreover have "lower_alpha c \<or> dec_digit c \<or> did_char c \<or> c = CHR '':'' \<Longrightarrow> \<not> js_space c" for c
    by (auto simp: js_space_def lower_alpha_def upper_alpha_def dec_digit_def did_char_def between_def)
  ultimately show ?thesis by (simp add: trim_no_space)
qed

lemma parse_scope_entry_Inr:
  "parse_scope_entry i e = Inr y \<Longrightarrow> se_type y \<in> set VALID_SCOPE_TYPES \<and> rx_test HASH_HEX_PATTERN (se_ref y)"
  by (auto simp: parse_scope_entry_def Let_def result_simps throws_simps)

lemma parse_scope_typed:
  assumes "scope \<noteq> []" and "scope_valid scope" and "get_prop kvs ''scope'' = JArr (map scope_json scope)"
  shows "parseScope kvs = Inr scope"
proof -
  obtain y ys where y: "map scope_json scope = y # ys" using assms(1) by (cases scope) auto
  have "map_index parse_scope_entry 0 (map scope_json scope) = Inr (map (\<lambda>e. e) scope)"
    unfolding map_index_map
    by (rule map_index_same)
      (use assms(2) hash_trim in \<open>auto simp: parse_scope_entry_def scope_valid_def scope_json_def parseStringField_def Let_def
        result_simps throws_simps\<close>)
  then show ?thesis using y by (simp add: parseScope_def assms(3))
qed

lemma parse_permissions_typed:
  assumes "permissions \<noteq> []" and "\<forall>p \<in> set permissions. rx_test PERMISSION_PATTERN p"
    and "get_prop kvs ''permissions'' = JArr (map JStr permissions)"
  shows "parsePermissions kvs = Inr permissions"
proof -
  obtain y ys where y: "map JStr permissions = y # ys" using assms(1) by (cases permissions) auto
  have "map_index parse_permission 0 (map JStr permissions) = Inr (map (\<lambda>p. p) permissions)"
    unfolding map_index_map
    by (rule map_index_same) (use assms(2) permission_trim in \<open>auto simp: parse_permission_def Let_def\<close>)
  then show ?thesis using y by (simp add: parsePermissions_def assms(3))
qed

lemma parse_shape:
  assumes "capability_shape c"
  shows "parseCapability P (protocol_capability_json c) = Inr (capability_normal P c)"
proof -
  have "parseScope (capability_kvs c) = Inr (pc_scope c)"
    by (rule parse_scope_typed) (use assms in \<open>simp_all add: capability_shape_def\<close>)
  moreover have "parsePermissions (capability_kvs c) = Inr (pc_permissions c)"
    by (rule parse_permissions_typed) (use assms in \<open>simp_all add: capability_shape_def\<close>)
  moreover have "parse_not_before (case pc_not_before c of None \<Rightarrow> JUndef | Some n \<Rightarrow> JStr n) = Inr (pc_not_before c)"
    using assms by (auto simp: capability_shape_def parse_not_before_def split: option.split)
  moreover have "parse_marketMakerId (case pc_marketMakerId c of None \<Rightarrow> JUndef | Some n \<Rightarrow> JStr n) = Inr (pc_marketMakerId c)"
    using assms by (auto simp: capability_shape_def parse_marketMakerId_def split: option.split)
  moreover have "parse_metadata (case pc_metadata c of None \<Rightarrow> JUndef | Some m \<Rightarrow> JObj m) = Inr (pc_metadata c)"
    by (simp add: parse_metadata_def split: option.split)
  ultimately show ?thesis
    using assms hash_trim did_chars_space
    by (simp add: capability_shape_def parseCapability_def protocol_capability_json_def parseStringField_def parseDateField_def
        Let_def result_simps throws_simps capability_normal_def)
qed

lemma parseScope_valid:
  assumes "parseScope kvs = Inr scope"
  shows "scope \<noteq> [] \<and> scope_valid scope"
proof -
  obtain xs where xs: "xs \<noteq> []" "map_index parse_scope_entry 0 xs = Inr scope"
    using assms by (auto simp: parseScope_def result_simps)
  show ?thesis
    using map_index_set [OF xs(2)] parse_scope_entry_Inr map_index_length [OF xs(2)] xs(1) unfolding scope_valid_def
    by (metis length_0_conv)
qed

lemma parsePermissions_valid:
  assumes "parsePermissions kvs = Inr ps"
  shows "ps \<noteq> [] \<and> (\<forall>p \<in> set ps. rx_test PERMISSION_PATTERN p)"
proof -
  obtain xs where xs: "xs \<noteq> []" "map_index parse_permission 0 xs = Inr ps"
    using assms by (auto simp: parsePermissions_def result_simps)
  have "rx_test PERMISSION_PATTERN y" if "parse_permission j x = Inr y" for j x y
    using that by (auto simp: parse_permission_def result_simps Let_def)
  then show ?thesis using map_index_set [OF xs(2)] map_index_length [OF xs(2)] xs(1) by (metis length_0_conv)
qed

lemma parse_not_before_Inr: "parse_not_before v = Inr (Some n) \<Longrightarrow> rx_test ISO8601_UTC_PATTERN n"
  by (cases v) (auto simp: parse_not_before_def result_simps)

lemma parse_marketMakerId_Inr: "parse_marketMakerId v = Inr (Some m) \<Longrightarrow> m \<noteq> [] \<and> trim m = m"
  by (cases v) (auto simp: parse_marketMakerId_def result_simps)

lemma normalizeScope_facts [simp]:
  "set (normalizeScope P s) = set s" "normalizeScope P s = [] \<longleftrightarrow> s = []" "scope_valid (normalizeScope P s) \<longleftrightarrow> scope_valid s"
proof -
  show set: "set (normalizeScope P s) = set s" by (simp add: normalizeScope_def)
  then show "normalizeScope P s = [] \<longleftrightarrow> s = []" by (metis set_empty)
  show "scope_valid (normalizeScope P s) \<longleftrightarrow> scope_valid s" by (simp add: scope_valid_def set)
qed

lemma set_sort_unique [simp]: "set (sort (unique ps)) = set ps" "sort (unique ps) = [] \<longleftrightarrow> ps = []"
proof -
  show "set (sort (unique ps)) = set ps" by simp
  then show "sort (unique ps) = [] \<longleftrightarrow> ps = []" by (metis set_empty)
qed

lemma sort_unique_idem: "sort (unique (sort (unique ps))) = sort (unique ps)"
  by (simp add: unique_distinct sorted_sort_id)

lemma normal_normal: "collation P \<Longrightarrow> capability_normal P (capability_normal P c) = capability_normal P c"
  using comparator_order.sort_cmp_idem [OF compare_scope_order]
  by (simp add: capability_normal_def sort_unique_idem normalizeScope_def)

lemma shape_normal: "capability_shape (capability_normal P c) \<longleftrightarrow> capability_shape c"
  by (simp add: capability_shape_def capability_normal_def)

lemma parseCapability_shape:
  assumes "parseCapability P input = Inr c"
  shows "capability_shape c \<and> (collation P \<longrightarrow> capability_normal P c = c)"
proof -
  obtain kvs scope permissions where parts: "parseScope kvs = Inr scope" "parsePermissions kvs = Inr permissions"
      "pc_scope c = normalizeScope P scope" "pc_permissions c = sort (unique permissions)"
      "rx_test HASH_HEX_PATTERN (pc_capability_hash c)" "rx_test HASH_HEX_PATTERN (pc_parent_consent_hash c)"
      "rx_test DID_PATTERN (pc_subject c)" "rx_test DID_PATTERN (pc_grantee c)"
      "parseDateField kvs ''issued_at'' = Inr (pc_issued_at c)" "parseDateField kvs ''expires_at'' = Inr (pc_expires_at c)"
      "parse_not_before (get_prop kvs ''not_before'') = Inr (pc_not_before c)"
      "parse_marketMakerId (get_prop kvs ''marketMakerId'') = Inr (pc_marketMakerId c)"
    using assms unfolding parseCapability_def by (clarsimp simp: result_simps throws_simps Let_def)
  have dates: "rx_test ISO8601_UTC_PATTERN (pc_issued_at c)" "rx_test ISO8601_UTC_PATTERN (pc_expires_at c)"
    using parts by (auto simp: parseDateField_def result_simps)
  have lists: "pc_scope c \<noteq> []" "scope_valid (pc_scope c)" "pc_permissions c \<noteq> []"
      "\<forall>p \<in> set (pc_permissions c). rx_test PERMISSION_PATTERN p"
    using parseScope_valid [OF parts(1)] parsePermissions_valid [OF parts(2)] by (simp_all add: parts(3,4))
  have "capability_shape c"
    unfolding capability_shape_def
    using parts(5-8) dates lists parse_not_before_Inr [of _] parse_marketMakerId_Inr [of _] parts(11,12) by metis
  moreover have "collation P \<Longrightarrow> capability_normal P c = c"
    using comparator_order.sort_cmp_idem [OF compare_scope_order, of P scope] sort_unique_idem [of permissions] parts(3,4)
    by (cases c) (simp add: capability_normal_def normalizeScope_def)
  ultimately show ?thesis by blast
qed

text \<open>What verification accepts.\<close>

definition capability_verified :: "platform \<Rightarrow> protocol_capability \<Rightarrow> bool" where
  "capability_verified P c \<longleftrightarrow> capability_shape c \<and> pc_issued_at c < pc_expires_at c \<and>
     (\<forall>n. pc_not_before c = Some n \<longrightarrow> pc_issued_at c \<le> n \<and> n < pc_expires_at c) \<and>
     computeCapabilityDeterministicHash P c = Inr (pc_capability_hash c)"

lemma verifyTemporal_Nil:
  "verifyTemporal c = [] \<longleftrightarrow> pc_issued_at c < pc_expires_at c \<and>
     (\<forall>n. pc_not_before c = Some n \<longrightarrow> pc_issued_at c \<le> n \<and> n < pc_expires_at c)"
  by (auto simp: verifyTemporal_def not_le not_less split: option.splits)

lemma verifyCapability_Inr:
  "verifyCapability P input = Inr c \<longleftrightarrow> parseCapability P input = Inr c \<and> capability_verified P c"
proof -
  have "verifyCapability P input = Inr c \<longleftrightarrow> parseCapability P input = Inr c \<and> verifyTemporal c = [] \<and>
      computeCapabilityDeterministicHash P c = Inr (pc_capability_hash c)"
    by (auto simp: verifyCapability_def Let_def push_if_def split: sum.splits if_splits)
  then show ?thesis using parseCapability_shape [of P input c] by (auto simp: capability_verified_def verifyTemporal_Nil)
qed

lemma verify_typed:
  assumes "collation P" and "capability_shape c" and "capability_verified P (capability_normal P c)"
  shows "verifyCapability P (protocol_capability_json c) = Inr (capability_normal P c)"
  using assms by (simp add: verifyCapability_Inr parse_shape)

lemma verified_again:
  assumes "collation P" and "verifyCapability P input = Inr c"
  shows "verifyCapability P (protocol_capability_json c) = Inr c"
proof -
  have "capability_shape c" "capability_normal P c = c" "capability_verified P c"
    using assms(2) parseCapability_shape [of P input c] assms(1) by (auto simp: verifyCapability_Inr)
  then show ?thesis using verify_typed [OF assms(1), of c] by simp
qed

subsection \<open>Minting\<close>

lemma assertConsentReady_Inr:
  assumes "assertConsentReady P clock input now check = Inr consent"
  shows "normalizeConsent P input = Inr consent \<and> consent_valid P consent \<and>
    (\<exists>r. evaluateConsentState P clock consent (Some now) check = Inr r \<and> cs_state r = ''active'')"
  using assms by (auto simp: assertConsentReady_def result_simps validateConsent_Nil)

lemma requested_permissions_set: "set (requested_permissions ps) = (\<lambda>p. to_lower (trim p)) ` set ps"
  by (simp add: requested_permissions_def)

lemma requested_scope_mset:
  "set (requested_scope P s) = (\<lambda>entry. \<lparr>se_type = se_type entry, se_ref = to_lower (trim (se_ref entry))\<rparr>) ` set s"
  by (simp add: requested_scope_def)

text \<open>What a minted capability takes from the consent and from the request.\<close>

definition minted_from :: "platform \<Rightarrow> protocol_consent \<Rightarrow> mint_input \<Rightarrow> protocol_capability \<Rightarrow> bool" where
  "minted_from P consent input c \<longleftrightarrow>
     pc_parent_consent_hash c = pn_consent_hash consent \<and> pc_subject c = pn_subject consent \<and> pc_grantee c = pn_grantee consent \<and>
     pc_marketMakerId c = pn_marketMakerId consent \<and>
     pc_scope c = requested_scope P (mi_requested_scope input) \<and> pc_scope c \<noteq> [] \<and> set (pc_scope c) \<subseteq> set (pn_scope consent) \<and>
     pc_permissions c = requested_permissions (mi_requested_permissions input) \<and> pc_permissions c \<noteq> [] \<and>
     set (pc_permissions c) \<subseteq> set (pn_permissions consent) \<and>
     pc_issued_at c = mi_issued_at input \<and> pc_issued_at c < pc_expires_at c \<and>
     (\<forall>e. pn_expires_at consent = Some e \<longrightarrow> pc_expires_at c \<le> e) \<and>
     pc_not_before c = mi_not_before input \<and>
     (\<forall>n. pc_not_before c = Some n \<longrightarrow> rx_test ISO8601_UTC_PATTERN n \<and> pc_issued_at c \<le> n \<and> n < pc_expires_at c) \<and>
     rx_test ISO8601_UTC_PATTERN (pc_issued_at c) \<and> rx_test ISO8601_UTC_PATTERN (pc_expires_at c) \<and>
     pc_metadata c = mi_metadata input \<and> computeCapabilityDeterministicHash P c = Inr (pc_capability_hash c)"

lemma hash_extend:
  "computeCapabilityDeterministicHash P (capability_base.extend b e) = computeCapabilityDeterministicHash P b"
  by (simp add: computeCapabilityDeterministicHash_def toCanonicalCapabilityHashPayload_def payload_kvs_def capability_base.defs)

lemma mint_expiry_Inr:
  "mint_expiry consent input = Inr e \<Longrightarrow> rx_test ISO8601_UTC_PATTERN e \<and> mi_issued_at input < e \<and>
     (\<forall>x. pn_expires_at consent = Some x \<longrightarrow> e \<le> x)"
  by (auto simp: mint_expiry_def assertIsoTimestamp_def result_simps throws_simps not_le not_less split: option.splits)

lemma mint_not_before_None:
  "mint_not_before input e = None \<Longrightarrow> mi_not_before input = Some n \<Longrightarrow>
     rx_test ISO8601_UTC_PATTERN n \<and> mi_issued_at input \<le> n \<and> n < e"
  by (auto simp: mint_not_before_def assertIsoTimestamp_def throws_simps not_le not_less)

lemma mint_guards_None:
  assumes "mint_guards P consent input = None" and "scope_valid (pn_scope consent)"
  shows "mi_requested_scope input \<noteq> []" "mi_requested_permissions input \<noteq> []"
    and "set (requested_scope P (mi_requested_scope input)) \<subseteq> set (pn_scope consent)"
    and "set (requested_permissions (mi_requested_permissions input)) \<subseteq> set (pn_permissions consent)"
  using assms(1) scope_keys_subset [OF assms(2)] by (auto simp: mint_guards_def throws_simps)

lemma mint_Inr:
  assumes "mintCapability_protocol P clock input check = Inr c"
  shows "\<exists>consent t. normalizeConsent P (mi_consent input) = Inr consent \<and> consent_valid P consent \<and>
    date_of P (mi_issued_at input) = Some t \<and>
    (\<exists>r. evaluateConsentState P clock consent (Some (Some t)) check = Inr r \<and> cs_state r = ''active'') \<and>
    minted_from P consent input c"
proof -
  obtain consent expires h where parts:
    "rx_test ISO8601_UTC_PATTERN (mi_issued_at input)" "date_of P (mi_issued_at input) \<noteq> None"
    "assertConsentReady P clock (mi_consent input) (date_of P (mi_issued_at input)) check = Inr consent"
    "mint_guards P consent input = None" "mint_expiry consent input = Inr expires" "mint_not_before input expires = None"
    and h: "computeCapabilityDeterministicHash P (minted_base P consent input expires) = Inr h"
    and c: "c = capability_base.extend (minted_base P consent input expires)
      \<lparr>pc_capability_hash = h, pc_metadata = mi_metadata input\<rparr>"
    using assms unfolding mintCapability_protocol_def assertIsoTimestamp_def
    by (auto simp: Let_def result_simps)
  note ready = assertConsentReady_Inr [OF parts(3)]
  then have v: "scope_valid (pn_scope consent)" by (simp add: consent_valid_def)
  note guards = mint_guards_None [OF parts(4) v]
  have nonempty: "requested_scope P (mi_requested_scope input) \<noteq> []"
      "requested_permissions (mi_requested_permissions input) \<noteq> []"
    using guards(1,2) requested_scope_mset [of P "mi_requested_scope input"]
      requested_permissions_set [of "mi_requested_permissions input"] by (metis image_is_empty set_empty)+
  have "minted_from P consent input c"
    unfolding minted_from_def c hash_extend
    using h guards nonempty mint_expiry_Inr [OF parts(5)] mint_not_before_None [OF parts(6)] parts(1)
    by (simp add: capability_base.defs minted_base_def)
  then show ?thesis using ready parts(2) by auto
qed

text \<open>A minted capability verifies, with its lists in canonical order.\<close>

lemma minted_shape:
  assumes "sha256_length P" and "consent_valid P consent" and "minted_from P consent input c"
    and "\<forall>m. pn_marketMakerId consent = Some m \<longrightarrow> m \<noteq> [] \<and> trim m = m"
  shows "capability_shape c"
  unfolding capability_shape_def
proof (intro conjI allI impI)
  note facts = assms(2,3) [unfolded consent_valid_def minted_from_def]
  show "rx_test HASH_HEX_PATTERN (pc_capability_hash c)" using facts hash_hex [OF assms(1)] by blast
  show "rx_test HASH_HEX_PATTERN (pc_parent_consent_hash c)" "rx_test DID_PATTERN (pc_subject c)" "rx_test DID_PATTERN (pc_grantee c)"
      "pc_scope c \<noteq> []" "pc_permissions c \<noteq> []" "rx_test ISO8601_UTC_PATTERN (pc_issued_at c)" "rx_test ISO8601_UTC_PATTERN (pc_expires_at c)"
    using facts by auto
  show "scope_valid (pc_scope c)" using facts by (auto simp: scope_valid_def)
  show "\<forall>p \<in> set (pc_permissions c). rx_test PERMISSION_PATTERN p" using facts by auto
  show "rx_test ISO8601_UTC_PATTERN n" if "pc_not_before c = Some n" for n using facts that by auto
  show "m \<noteq> []" "trim m = m" if "pc_marketMakerId c = Some m" for m using assms(4) facts that by auto
qed

lemma minted_normal:
  assumes "collation P" and "minted_from P consent input c"
  shows "pc_permissions (capability_normal P c) = pc_permissions c"
    and "computeCapabilityDeterministicHash P (capability_normal P c) = computeCapabilityDeterministicHash P c"
proof -
  obtain ps where ps: "pc_permissions c = sort (unique ps)" using assms(2) by (auto simp: minted_from_def requested_permissions_def)
  show same: "pc_permissions (capability_normal P c) = pc_permissions c"
    by (simp add: capability_normal_def ps sort_unique_idem)
  have "capability_normal P c = c\<lparr>pc_scope := normalizeScope P (pc_scope c), pc_permissions := sort (pc_permissions c)\<rparr>"
    by (simp add: capability_normal_def ps sort_unique_idem sorted_sort_id)
  then show "computeCapabilityDeterministicHash P (capability_normal P c) = computeCapabilityDeterministicHash P c"
    using hash_cong [OF assms(1), where c = c and s = "pc_scope c" and ps = "pc_permissions c"] by simp
qed

lemma minted_normal_verifies:
  assumes "sha256_length P" and "collation P" and "consent_valid P consent" and "minted_from P consent input c"
    and "\<forall>m. pn_marketMakerId consent = Some m \<longrightarrow> m \<noteq> [] \<and> trim m = m"
  shows "verifyCapability P (protocol_capability_json c) = Inr (c\<lparr>pc_scope := normalizeScope P (pc_scope c)\<rparr>)"
proof -
  note shape = minted_shape [OF assms(1,3,4,5)]
  have n: "capability_normal P c = c\<lparr>pc_scope := normalizeScope P (pc_scope c)\<rparr>"
    using minted_normal(1) [OF assms(2,4)] by (cases c) (simp add: capability_normal_def)
  have "capability_shape (capability_normal P c)" using shape by (simp add: shape_normal)
  then have "capability_verified P (capability_normal P c)"
    unfolding capability_verified_def minted_normal(2) [OF assms(2,4)]
    using assms(4) by (auto simp: minted_from_def n)
  then show ?thesis using verify_typed [OF assms(2) shape] n by simp
qed

subsection \<open>Time\<close>

lemma append_less: "length a = length b \<Longrightarrow> a @ c < b @ d \<longleftrightarrow> a < b \<or> a = b \<and> c < (d :: string)"
  by (induction a b rule: list_induct2) auto

text \<open>The text of a moment with milliseconds precedes that of its own second, and follows those before.\<close>

lemma iso_words:
  assumes "four_digit_year t"
  obtains w where "length w = 19" "to_iso_string (Some t) = Inr (w @ ''.'' @ pad 3 (nat (t mod 1000)) @ ''Z'')"
    "iso_seconds (Some t) = Inr (w @ ''Z'')"
proof -
  have "iso_string (stamp_of t) = take 19 (iso_string (stamp_of t)) @ ''Z''" by (cases "stamp_of t") simp
  then show ?thesis
    using to_iso_string_four_digit [OF assms] iso_seconds_stamp [OF assms] by (intro that [of "take 19 (iso_string (stamp_of t))"]) auto
qed

lemma stamp_words:
  assumes "rx_test ISO8601_UTC_PATTERN s"
  obtains w where "length w = 19" "s = w @ ''Z''"
proof -
  have s: "s = iso_string (iso_fields s)" using iso_pattern_fields(1) [OF assms] by simp
  have "iso_string f = take 19 (iso_string f) @ ''Z''" for f by (cases f) simp
  from this [of "iso_fields s"] have "s = take 19 s @ ''Z''" unfolding s [symmetric] .
  moreover have "length s = 20" by (subst s) (rule length_iso_string)
  ultimately show ?thesis by (intro that [of "take 19 s"]) simp_all
qed

lemma iso_compare:
  assumes "four_digit_year t" and "to_iso_string (Some t) = Inr u" and "iso_seconds (Some t) = Inr s"
    and "rx_test ISO8601_UTC_PATTERN n"
  shows "u < n \<longleftrightarrow> s \<le> n"
proof -
  obtain w where w: "length w = 19" "u = w @ ''.'' @ pad 3 (nat (t mod 1000)) @ ''Z''" "s = w @ ''Z''"
    using iso_words [OF assms(1)] assms(2,3) by auto
  obtain v where v: "length v = 19" "n = v @ ''Z''" using stamp_words [OF assms(4)] .
  have "CHR ''.'' < CHR ''Z''" by (simp add: less_char_def)
  then show ?thesis
    using append_less [of w v] w v by (auto simp: order_le_less)
qed

subsection \<open>State and access\<close>

text \<open>Inside its validity as the code reads it: in seconds, and a second late at both ends.\<close>

definition in_interval :: "protocol_capability \<Rightarrow> int \<Rightarrow> bool" where
  "in_interval c t \<longleftrightarrow> (\<exists>s. iso_seconds (Some t) = Inr s \<and> (\<forall>n. pc_not_before c = Some n \<longrightarrow> n < s) \<and> s \<le> pc_expires_at c)"

lemma state_active:
  assumes "four_digit_year t"
  shows "(\<exists>r. evaluateCapabilityState P clock input (Some (Some t)) check = Inr r \<and> ps_state r = ''active'') \<longleftrightarrow>
    (\<exists>c status. verifyCapability P input = Inr c \<and>
       resolve_revocation clock check (pc_capability_hash c) ''capability_grant'' = Inr status \<and>
       rs_status status \<noteq> ''revoked'' \<and> rs_status status \<noteq> ''unknown'' \<and> in_interval c t)"
proof (cases "verifyCapability P input")
  case (Inl e)
  then show ?thesis by (simp add: evaluateCapabilityState_def)
next
  case (Inr c)
  obtain u s where us: "to_iso_string (Some t) = Inr u" "iso_seconds (Some t) = Inr s" using iso_words [OF assms] by metis
  have shape: "capability_shape c" using Inr by (simp add: verifyCapability_Inr capability_verified_def)
  have nb: "pc_not_before c = Some n \<Longrightarrow> u < n \<longleftrightarrow> s \<le> n" for n
    using iso_compare [OF assms us, of n] shape by (simp add: capability_shape_def)
  have ex: "u < pc_expires_at c \<longleftrightarrow> s \<le> pc_expires_at c"
    using iso_compare [OF assms us, of "pc_expires_at c"] shape by (simp add: capability_shape_def)
  have iv: "in_interval c t \<longleftrightarrow> (\<forall>n. pc_not_before c = Some n \<longrightarrow> \<not> u < n) \<and> u < pc_expires_at c"
    using nb ex us(2) by (auto simp: in_interval_def)
  show ?thesis
    using Inr us(1) iv
    by (cases "resolve_revocation clock check (pc_capability_hash c) ''capability_grant''"; cases "pc_not_before c")
      (auto simp: evaluateCapabilityState_def Let_def not_le split: if_splits)
qed

text \<open>The request is within the capability.\<close>

definition within_capability :: "capability_access_request \<Rightarrow> protocol_capability \<Rightarrow> bool" where
  "within_capability request c \<longleftrightarrow>
     ca_requested_scope request \<noteq> [] \<and> ca_requested_permissions request \<noteq> [] \<and>
     (\<forall>e \<in> set (ca_requested_scope request). \<lparr>se_type = se_type e, se_ref = to_lower (trim (se_ref e))\<rparr> \<in> set (pc_scope c)) \<and>
     (\<forall>p \<in> set (ca_requested_permissions request). to_lower (trim p) \<in> set (pc_permissions c)) \<and>
     (\<forall>x. ca_subject request = Some x \<longrightarrow> x = pc_subject c) \<and> (\<forall>x. ca_grantee request = Some x \<longrightarrow> x = pc_grantee c) \<and>
     (\<forall>x. ca_marketMakerId request = Some x \<longrightarrow> pc_marketMakerId c = Some x)"

lemma in_scope_nonempty:
  assumes "capability_shape c" and "\<lparr>se_type = t, se_ref = to_lower (trim r)\<rparr> \<in> set (pc_scope c)"
  shows "trim r \<noteq> []"
  using assms hash_trim [of "to_lower (trim r)"] by (auto simp: capability_shape_def scope_valid_def to_lower_def)

lemma permission_nonempty:
  assumes "capability_shape c" and "to_lower (trim p) \<in> set (pc_permissions c)"
  shows "trim p \<noteq> []"
  using assms permission_trim [of "to_lower (trim p)"] by (auto simp: capability_shape_def to_lower_def)

lemma access_iff:
  "evaluateCapabilityAccess_protocol P clock input request check = Inr True \<longleftrightarrow>
   (\<exists>r. evaluateCapabilityState P clock input (ca_now request) check = Inr r \<and> ps_state r = ''active'') \<and>
   (\<exists>c. verifyCapability P input = Inr c \<and> within_capability request c)"
proof (cases "verifyCapability P input")
  case (Inl e)
  then show ?thesis by (auto simp: evaluateCapabilityAccess_protocol_def result_simps split: if_splits)
next
  case (Inr c)
  have shape: "capability_shape c" using Inr by (simp add: verifyCapability_Inr capability_verified_def)
  then have keys: "toScopeKey x \<in> toScopeKey ` set (pc_scope c) \<longleftrightarrow> x \<in> set (pc_scope c)" for x
    by (intro scope_keys_subset) (simp add: capability_shape_def)
  have "list_all (\<lambda>requested. trim (se_ref requested) \<noteq> [] \<and>
      toScopeKey \<lparr>se_type = se_type requested, se_ref = to_lower (trim (se_ref requested))\<rparr> \<in> toScopeKey ` set (pc_scope c)) xs \<longleftrightarrow>
      (\<forall>e \<in> set xs. \<lparr>se_type = se_type e, se_ref = to_lower (trim (se_ref e))\<rparr> \<in> set (pc_scope c))" for xs :: "scope_entry list"
    unfolding keys using in_scope_nonempty [OF shape] by (auto simp: list_all_iff)
  moreover have "list_all (\<lambda>p. trim p \<noteq> [] \<and> to_lower (trim p) \<in> set (pc_permissions c)) ps \<longleftrightarrow>
      (\<forall>p \<in> set ps. to_lower (trim p) \<in> set (pc_permissions c))" for ps
    using permission_nonempty [OF shape] by (auto simp: list_all_iff)
  moreover have "(x \<noteq> None \<and> x \<noteq> Some y) \<longleftrightarrow> \<not> (\<forall>z. x = Some z \<longrightarrow> z = y)" for x and y :: string
    by (cases x) auto
  moreover have "(x \<noteq> None \<and> x \<noteq> y) \<longleftrightarrow> \<not> (\<forall>z. x = Some z \<longrightarrow> y = Some z)" for x y :: "string option"
    by (cases x) auto
  ultimately show ?thesis
    by (cases "evaluateCapabilityState P clock input (ca_now request) check")
      (simp_all add: evaluateCapabilityAccess_protocol_def Inr within_capability_def)
qed

section \<open>The properties of capabilities\<close>

text \<open>
  C8: with the check over a registry, a minted capability derives from its consent and grants no more: the
  consent is valid, not revoked and active at the time of issue; subject, grantee and market maker are its own;
  scope, permissions and expiry are within its.
\<close>

theorem minted_capability_attenuates:
  assumes "mintCapability_protocol P clock input (createRegistryRevocationCheck isRevoked v k) = Inr c"
  shows "\<exists>consent t. normalizeConsent P (mi_consent input) = Inr consent \<and> validateConsent P consent = [] \<and>
    pn_action consent = ''grant'' \<and> isRevoked (pn_consent_hash consent) = Inr (Some False) \<and>
    date_of P (pc_issued_at c) = Some t \<and> (\<exists>i. date_of P (pn_issued_at consent) = Some i \<and> i \<le> t) \<and>
    (\<forall>e. pn_expires_at consent = Some e \<longrightarrow> (\<exists>x. date_of P e = Some x \<and> t < x) \<and> pc_expires_at c \<le> e) \<and>
    pc_parent_consent_hash c = pn_consent_hash consent \<and> pc_subject c = pn_subject consent \<and>
    pc_grantee c = pn_grantee consent \<and> pc_marketMakerId c = pn_marketMakerId consent \<and>
    pc_scope c \<noteq> [] \<and> set (pc_scope c) \<subseteq> set (pn_scope consent) \<and>
    pc_permissions c \<noteq> [] \<and> set (pc_permissions c) \<subseteq> set (pn_permissions consent)"
proof -
  obtain consent t where m: "normalizeConsent P (mi_consent input) = Inr consent" "consent_valid P consent"
      "date_of P (mi_issued_at input) = Some t" "minted_from P consent input c"
      "\<exists>r. evaluateConsentState P clock consent (Some (Some t)) (createRegistryRevocationCheck isRevoked v k) = Inr r \<and>
        cs_state r = ''active''"
    using mint_Inr [OF assms] by blast
  then have a: "pn_action consent = ''grant''" "isRevoked (pn_consent_hash consent) = Inr (Some False)"
      "\<exists>i. date_of P (pn_issued_at consent) = Some i \<and> i \<le> t"
      "\<forall>e. pn_expires_at consent = Some e \<longrightarrow> (\<exists>x. date_of P e = Some x \<and> t < x)"
    using active_consent [of P clock consent t isRevoked v k] by (auto split: option.splits)
  show ?thesis
    using m(1-4) a by (intro exI [of _ consent] exI [of _ t]) (auto simp: minted_from_def validateConsent_Nil)
qed

lemma mint_verifies:
  assumes "sha256_length P" and "collation P" and "mintCapability_protocol P clock input check = Inr c"
    and "pc_marketMakerId c \<noteq> Some []"
  shows "verifyCapability P (protocol_capability_json c) = Inr (c\<lparr>pc_scope := normalizeScope P (pc_scope c)\<rparr>)"
proof -
  obtain consent t where m: "normalizeConsent P (mi_consent input) = Inr consent" "consent_valid P consent"
      "minted_from P consent input c"
    using mint_Inr [OF assms(3)] by blast
  have mm: "pn_marketMakerId consent = pc_marketMakerId c" using m(3) by (simp add: minted_from_def)
  have "\<forall>m. pn_marketMakerId consent = Some m \<longrightarrow> m \<noteq> [] \<and> trim m = m"
    using normalizeConsent_parts(8) [OF m(1)] assms(4) mm by auto
  then show ?thesis by (rule minted_normal_verifies [OF assms(1,2) m(2,3)])
qed

lemma blank_never_verifies: "pc_marketMakerId c = Some [] \<Longrightarrow> verifyCapability P (protocol_capability_json c) \<noteq> Inr c'"
proof
  assume c: "pc_marketMakerId c = Some []" and "verifyCapability P (protocol_capability_json c) = Inr c'"
  then have "\<exists>m. parse_marketMakerId (get_prop (capability_kvs c) ''marketMakerId'') = Inr m"
    by (auto simp: verifyCapability_Inr parseCapability_def protocol_capability_json_def Let_def result_simps)
  then show False using c by (simp add: parse_marketMakerId_def trim_def)
qed

text \<open>
  C12: a minted capability is accepted by verification exactly when its market maker is not the blank string, which the normalization
  of a consent can leave behind, and verification then returns it with its scope in canonical order.
\<close>

theorem minted_capability_verifies:
  assumes "sha256_length P" and "collation P" and "mintCapability_protocol P clock input check = Inr c"
  shows "verifyCapability P (protocol_capability_json c) = Inr c' \<longleftrightarrow>
    pc_marketMakerId c \<noteq> Some [] \<and> c' = c\<lparr>pc_scope := normalizeScope P (pc_scope c)\<rparr>"
proof (cases "pc_marketMakerId c = Some []")
  case True
  then show ?thesis using blank_never_verifies [of c P] by simp
next
  case False
  then show ?thesis using mint_verifies [OF assms False] by auto
qed

text \<open>
  with the check over a registry, access is given at a moment exactly when the value verifies as a
  capability that the registry answers is not revoked, the request is within it, and the moment in seconds is
  after its start and not after its expiry.
\<close>

theorem access_given_iff:
  assumes "four_digit_year t" and "ca_now request = Some (Some t)"
  shows "evaluateCapabilityAccess_protocol P clock input request (createRegistryRevocationCheck isRevoked v k) = Inr True \<longleftrightarrow>
    (\<exists>c. verifyCapability P input = Inr c \<and> within_capability request c \<and>
       isRevoked (pc_capability_hash c) = Inr (Some False) \<and> in_interval c t)"
  unfolding access_iff assms(2) state_active [OF assms(1)]
  using registry_lets_through [of clock isRevoked v k _ "''capability_grant''"] by force

text \<open>
  The state reads the clock with milliseconds and compares texts, so that a capability is active for the
  whole second of its expiry.
\<close>

theorem capability_outlives_expiry:
  assumes "four_digit_year t" and "verifyCapability P input = Inr c" and "isRevoked (pc_capability_hash c) = Inr (Some False)"
    and "iso_seconds (Some t) = Inr (pc_expires_at c)"
  shows "\<exists>r. evaluateCapabilityState P clock input (Some (Some t)) (createRegistryRevocationCheck isRevoked v k) = Inr r \<and>
    ps_state r = ''active''"
proof -
  have "\<forall>n. pc_not_before c = Some n \<longrightarrow> n < pc_expires_at c"
    using assms(2) by (simp add: verifyCapability_Inr capability_verified_def)
  then have "in_interval c t" using assms(4) by (auto simp: in_interval_def)
  then show ?thesis
    unfolding state_active [OF assms(1)]
    using assms(2,3) registry_lets_through [of clock isRevoked v k "pc_capability_hash c" "''capability_grant''"] by blast
qed

subsection \<open>The hash commits\<close>

definition same_capability :: "protocol_capability \<Rightarrow> protocol_capability \<Rightarrow> bool" where
  "same_capability c d \<longleftrightarrow> c\<lparr>pc_metadata := None\<rparr> = d\<lparr>pc_metadata := None\<rparr>"

lemma payload_lookup:
  "distinct (map fst (payload_kvs P c))"
  "map_of (payload_kvs P c) ''parent_consent_hash'' = Some (JStr (pc_parent_consent_hash c))"
  "map_of (payload_kvs P c) ''subject'' = Some (JStr (pc_subject c))" "map_of (payload_kvs P c) ''grantee'' = Some (JStr (pc_grantee c))"
  "map_of (payload_kvs P c) ''issued_at'' = Some (JStr (pc_issued_at c))" "map_of (payload_kvs P c) ''expires_at'' = Some (JStr (pc_expires_at c))"
  "map_of (payload_kvs P c) ''not_before'' = Some (json_opt (pc_not_before c))"
  "map_of (payload_kvs P c) ''marketMakerId'' = Some (json_opt (pc_marketMakerId c))"
  "map_of (payload_kvs P c) ''scope'' = Some (JArr (map scope_json (normalizeScope P (pc_scope c))))"
  "map_of (payload_kvs P c) ''permissions'' = Some (JArr (map JStr (sort (pc_permissions c))))"
  by (simp_all add: payload_kvs_def)

lemma scope_json_canon_inj: "inj (\<lambda>e. canon (scope_json e))"
proof (rule injI)
  fix a b :: scope_entry
  assume "canon (scope_json a) = canon (scope_json b)"
  then have l: "map_option canon (map_of [(''type'', JStr (se_type a)), (''ref'', JStr (se_ref a))] k) =
      map_option canon (map_of [(''type'', JStr (se_type b)), (''ref'', JStr (se_ref b))] k)" for k
    unfolding scope_json_def by (rule canon_lookup) simp_all
  show "a = b" using l [of "''type''"] l [of "''ref''"] by simp
qed

lemma string_json_inj: "inj (\<lambda>p. canon (JStr p))"
  by (rule injI) simp

lemma json_opt_inj: "canon (json_opt a) = canon (json_opt b) \<longleftrightarrow> a = b"
  by (cases a; cases b) (simp_all add: json_opt_def)

lemma same_payload:
  assumes "canon (toCanonicalCapabilityHashPayload P c) = canon (toCanonicalCapabilityHashPayload P d)"
    and "normalizeScope P (pc_scope c) = pc_scope c" "sort (pc_permissions c) = pc_permissions c"
    and "normalizeScope P (pc_scope d) = pc_scope d" "sort (pc_permissions d) = pc_permissions d"
    and "pc_capability_hash c = pc_capability_hash d"
  shows "same_capability c d"
proof -
  note l = canon_lookup [OF assms(1) [unfolded toCanonicalCapabilityHashPayload_def] payload_lookup(1) payload_lookup(1)]
  have "map (\<lambda>e. canon (scope_json e)) (pc_scope c) = map (\<lambda>e. canon (scope_json e)) (pc_scope d)"
    using l [of "''scope''"] assms(2,4) unfolding payload_lookup by (simp add: comp_def)
  then have "pc_scope c = pc_scope d" using scope_json_canon_inj by (simp add: inj_map_eq_map)
  moreover have "map (\<lambda>p. canon (JStr p)) (pc_permissions c) = map (\<lambda>p. canon (JStr p)) (pc_permissions d)"
    using l [of "''permissions''"] assms(3,5) unfolding payload_lookup by (simp add: comp_def)
  then have "pc_permissions c = pc_permissions d" using string_json_inj by (metis inj_map_eq_map)
  moreover have "pc_not_before c = pc_not_before d" "pc_marketMakerId c = pc_marketMakerId d"
    using l [of "''not_before''"] l [of "''marketMakerId''"] unfolding payload_lookup by (simp_all add: json_opt_inj)
  moreover have "pc_parent_consent_hash c = pc_parent_consent_hash d" "pc_subject c = pc_subject d" "pc_grantee c = pc_grantee d"
      "pc_issued_at c = pc_issued_at d" "pc_expires_at c = pc_expires_at d"
    using l [of "''parent_consent_hash''"] l [of "''subject''"] l [of "''grantee''"] l [of "''issued_at''"] l [of "''expires_at''"]
    unfolding payload_lookup by simp_all
  ultimately show ?thesis using assms(6) by (cases c; cases d) (simp add: same_capability_def)
qed

lemma verified_lists:
  assumes "collation P" and "verifyCapability P input = Inr c"
  shows "normalizeScope P (pc_scope c) = pc_scope c" and "sort (pc_permissions c) = pc_permissions c"
proof -
  have "capability_normal P c = c" using assms parseCapability_shape [of P input c] by (simp add: verifyCapability_Inr)
  then have "pc_scope (capability_normal P c) = pc_scope c" "pc_permissions (capability_normal P c) = pc_permissions c" by simp_all
  then show "normalizeScope P (pc_scope c) = pc_scope c" and "sort (pc_permissions c) = pc_permissions c"
    by (simp_all add: capability_normal_def) (metis sorted_sort sorted_sort_id)
qed

text \<open>
  two values that verify as capabilities with the same hash are the same capability up to metadata,
  which the hash leaves out, unless their canonical texts are a SHA-256 collision.
\<close>

theorem protocol_hash_commits:
  assumes "collation P" and "verifyCapability P x = Inr c" and "verifyCapability P y = Inr d"
    and "pc_capability_hash c = pc_capability_hash d"
  shows "same_capability c d \<or> (\<exists>a b. canonicalizeJSON (toCanonicalCapabilityHashPayload P c) = Inr a \<and>
    canonicalizeJSON (toCanonicalCapabilityHashPayload P d) = Inr b \<and> collides P (utf8_encode a) (utf8_encode b))"
proof -
  obtain a b where ab: "canonicalizeJSON (toCanonicalCapabilityHashPayload P c) = Inr a"
      "canonicalizeJSON (toCanonicalCapabilityHashPayload P d) = Inr b" "sha256Hex P (utf8_encode a) = sha256Hex P (utf8_encode b)"
    using assms(2-4) by (auto simp: verifyCapability_Inr capability_verified_def computeCapabilityDeterministicHash_def result_simps)
  show ?thesis
  proof (cases "a = b")
    case True
    then have "canon (toCanonicalCapabilityHashPayload P c) = canon (toCanonicalCapabilityHashPayload P d)"
      using ab canonicalize_inj [OF payload_plain payload_plain] by blast
    then show ?thesis
      using same_payload verified_lists [OF assms(1,2)] verified_lists [OF assms(1,3)] assms(4) by blast
  next
    case False
    then have "utf8_encode a \<noteq> utf8_encode b" using utf8_encode_inj by blast
    then show ?thesis using ab sha256Hex_inj by blast
  qed
qed

section \<open>An example\<close>

definition sample_input :: mint_input where
  "sample_input = \<lparr>mi_consent = protocol_consent_json sample_grant, mi_requested_scope = [sample_entry],
     mi_requested_permissions = [''read''], mi_issued_at = ''2025-01-15T14:30:00Z'', mi_expires_at = None,
     mi_not_before = None, mi_marketMakerId = None, mi_metadata = None\<rparr>"

definition sample_capability :: protocol_capability where
  "sample_capability = \<lparr>pc_parent_consent_hash = zeros, pc_subject = ''did:key:alice'', pc_grantee = ''did:key:bob'',
     pc_scope = [sample_entry], pc_permissions = [''read''], pc_issued_at = ''2025-01-15T14:30:00Z'',
     pc_expires_at = ''2025-06-15T14:30:00Z'', pc_not_before = None, pc_marketMakerId = None, pc_capability_hash = zeros,
     pc_metadata = None\<rparr>"

abbreviation nothing_revoked :: "string \<Rightarrow> bool option result" where
  "nothing_revoked \<equiv> \<lambda>_. Inr (Some False)"

lemma zero_protocol_hash: "computeCapabilityDeterministicHash zero_platform c = Inr zeros"
  using canonicalize_plain [OF payload_plain [of zero_platform c]]
  by (auto simp: computeCapabilityDeterministicHash_def zero_hash zeros_def)

lemma sample_ready:
  "assertConsentReady zero_platform k (protocol_consent_json sample_grant) (Some 1736951400000)
     (createRegistryRevocationCheck nothing_revoked v k) = Inr sample_grant"
proof -
  have "\<exists>r. evaluateConsentState zero_platform k sample_grant (Some (Some 1736951400000))
      (createRegistryRevocationCheck nothing_revoked v k) = Inr r \<and> cs_state r = ''active''"
    unfolding active_consent
    using sample_grant_valid [of zero_platform]
    by (simp add: validateConsent_Nil sample_grant_def sample_issued sample_expires)
  then show ?thesis
    using valid_parses [OF sample_grant_valid] sample_grant_normal [of zero_platform] sample_grant_valid [of zero_platform]
    by (auto simp: assertConsentReady_def validateConsent_Nil)
qed

lemma sample_mint_protocol:
  "mintCapability_protocol zero_platform k sample_input (createRegistryRevocationCheck nothing_revoked v k) = Inr sample_capability"
proof -
  have "requested_scope zero_platform [sample_entry] = [sample_entry]" "requested_permissions [''read''] = [''read'']"
    using sample_grant_fixed by (simp_all add: requested_scope_def requested_permissions_def sample_entry_def)
  then show ?thesis
    using sample_ready [of k v] sample_iso sample_issued [of zero_platform]
    by (simp add: zero_protocol_hash mintCapability_protocol_def sample_input_def assertIsoTimestamp_def mint_guards_def mint_expiry_def
        mint_not_before_def minted_base_def sample_capability_def sample_grant_def capability_base.defs first_throw.simps)
qed

lemma minted_capability_attenuates_witness:
  "\<exists>consent. normalizeConsent zero_platform (mi_consent sample_input) = Inr consent \<and>
    pc_subject sample_capability = pn_subject consent \<and> set (pc_scope sample_capability) \<subseteq> set (pn_scope consent)"
  using minted_capability_attenuates [OF sample_mint_protocol [of 0 None]] by blast

lemma sample_verifies: "verifyCapability zero_platform (protocol_capability_json sample_capability) = Inr sample_capability"
proof -
  obtain consent where c: "consent_valid zero_platform consent" "minted_from zero_platform consent sample_input sample_capability"
    using mint_Inr [OF sample_mint_protocol [of 0 None]] by blast
  have "\<forall>m. pn_marketMakerId consent = Some m \<longrightarrow> m \<noteq> [] \<and> trim m = m"
    using c(2) by (simp add: minted_from_def sample_capability_def)
  from minted_normal_verifies [OF zero_platform_ok c this] show ?thesis
    by (simp add: sample_capability_def normalizeScope_def)
qed

lemma minted_capability_verifies_witness:
  "verifyCapability zero_platform (protocol_capability_json sample_capability) =
   Inr (sample_capability\<lparr>pc_scope := normalizeScope zero_platform (pc_scope sample_capability)\<rparr>)"
  by (subst minted_capability_verifies [OF zero_platform_ok sample_mint_protocol [of 0 None]]) (simp add: sample_capability_def)

definition sample_request :: capability_access_request where
  "sample_request = \<lparr>ca_requested_scope = [sample_entry], ca_requested_permissions = [''read''], ca_subject = None,
     ca_grantee = None, ca_marketMakerId = None, ca_now = Some (Some 1736951400000)\<rparr>"

lemma access_given_iff_witness:
  "evaluateCapabilityAccess_protocol zero_platform 0 (protocol_capability_json sample_capability) sample_request
     (createRegistryRevocationCheck nothing_revoked None 0) = Inr True"
proof -
  have "within_capability sample_request sample_capability"
    using sample_grant_fixed by (simp add: within_capability_def sample_request_def sample_capability_def sample_entry_def)
  moreover have "in_interval sample_capability 1736951400000"
    using sample_date by (simp add: in_interval_def sample_capability_def)
  ultimately show ?thesis
    by (subst access_given_iff [OF sample_moments(1)]) (use sample_verifies in \<open>auto simp: sample_request_def\<close>)
qed

lemma capability_outlives_expiry_witness:
  "\<exists>r. evaluateCapabilityState zero_platform 0 (protocol_capability_json sample_capability) (Some (Some 1749997800000))
     (createRegistryRevocationCheck nothing_revoked None 0) = Inr r \<and> ps_state r = ''active''"
proof (rule capability_outlives_expiry [OF sample_moments(2) sample_verifies])
  show "iso_seconds (Some 1749997800000) = Inr (pc_expires_at sample_capability)"
    using sample_moments(3) by (simp add: sample_capability_def)
qed simp

lemma protocol_hash_commits_witness:
  "same_capability sample_capability sample_capability \<or>
   (\<exists>a b. canonicalizeJSON (toCanonicalCapabilityHashPayload zero_platform sample_capability) = Inr a \<and>
    canonicalizeJSON (toCanonicalCapabilityHashPayload zero_platform sample_capability) = Inr b \<and>
    collides zero_platform (utf8_encode a) (utf8_encode b))"
  by (rule protocol_hash_commits [OF zero_platform_ok(2) sample_verifies sample_verifies refl])

end
