(* ===== verification/ProtocolEnforcement.thy ===== *)
theory ProtocolEnforcement
  imports ProtocolCapability
begin

text \<open>
  \<open>protocol/enforcement/\<close> and \<open>protocol/execution/\<close>: the decision on a request that presents a
  capability, and the authorization of an execution, which hands the decision to an adapter as a contract.
  Requests are read from values of which nothing is known; the \<open>Date\<close> of a request, which no such
  value can hold, is passed beside it.  A port is a function of the subject, so that asking it again for the
  same subject gives the same answer.
\<close>

section \<open>Requests\<close>

text \<open>\<open>resource\<close> is \<open>None\<close> when undefined and \<open>Some None\<close> when null.\<close>

record enforcement_request =
  er_capability :: json
  er_requested_scope :: "scope_entry list"
  er_requested_permissions :: "string list"
  er_subject :: "string option"
  er_grantee :: "string option"
  er_marketMakerId :: "string option"
  er_resource :: "scope_entry option option"
  er_action_context :: "json_object option"
  er_now :: "jsdate option"

definition parseNonEmptyString :: "string \<Rightarrow> json \<Rightarrow> string \<Rightarrow> string result" where
  "parseNonEmptyString label v f =
     (let message = label @ '' field \"'' @ f @ ''\" must be a non-empty string.'' in
      bind_result (as_string message v) (\<lambda>s. after (throw_if (trim s = []) message) (Inr (trim s))))"

definition parseScopeEntry :: "nat \<Rightarrow> json \<Rightarrow> scope_entry result" where
  "parseScopeEntry index input =
     bind_result (as_object (''Enforcement scope entry '' @ show_nat index @ '' must be a JSON object.'') input) (\<lambda>kvs.
     bind_result (parseNonEmptyString ''Enforcement'' (get_prop kvs ''type'') (''requested_scope['' @ show_nat index @ ''].type'')) (\<lambda>type.
     bind_result (parseNonEmptyString ''Enforcement'' (get_prop kvs ''ref'') (''requested_scope['' @ show_nat index @ ''].ref'')) (\<lambda>ref.
     after (throw_if (type \<notin> set VALID_SCOPE_TYPES) (''Enforcement scope entry '' @ show_nat index @ '' has invalid type.''))
       (Inr \<lparr>se_type = type, se_ref = to_lower ref\<rparr>))))"

definition parseRequestedScope :: "json \<Rightarrow> scope_entry list result" where
  "parseRequestedScope v =
     bind_result (as_nonempty_array ''Enforcement field \"requested_scope\" must be a non-empty array.'' v) (map_index parseScopeEntry 0)"

definition parseRequestedPermission :: "nat \<Rightarrow> json \<Rightarrow> string result" where
  "parseRequestedPermission index permission =
     (let message = ''Enforcement permission '' @ show_nat index @ '' must be a non-empty string.'' in
      bind_result (as_string message permission) (\<lambda>p. after (throw_if (trim p = []) message) (Inr (to_lower (trim p)))))"

definition parseRequestedPermissions :: "json \<Rightarrow> string list result" where
  "parseRequestedPermissions v =
     bind_result (as_nonempty_array ''Enforcement field \"requested_permissions\" must be a non-empty array.'' v)
       (map_index parseRequestedPermission 0)"

definition parseOptionalBinding :: "string \<Rightarrow> json_object \<Rightarrow> string \<Rightarrow> string option result" where
  "parseOptionalBinding label kvs f = (if get_prop kvs f = JUndef then Inr None
     else bind_result (parseNonEmptyString label (get_prop kvs f) f) (\<lambda>s. Inr (Some s)))"

definition parseResource :: "string \<Rightarrow> json \<Rightarrow> scope_entry option option result" where
  "parseResource label v = (case v of JUndef \<Rightarrow> Inr None | JNull \<Rightarrow> Inr (Some None)
     | JObj kvs \<Rightarrow>
        bind_result (parseNonEmptyString label (get_prop kvs ''type'') ''resource.type'') (\<lambda>type.
        after (throw_if (type \<notin> set VALID_SCOPE_TYPES) (label @ '' resource.type is invalid.''))
        (bind_result (parseNonEmptyString label (get_prop kvs ''ref'') ''resource.ref'') (\<lambda>ref.
          Inr (Some (Some \<lparr>se_type = type, se_ref = to_lower ref\<rparr>)))))
     | _ \<Rightarrow> Inl (Error (label @ '' field \"resource\" must be an object or null when provided.'')))"

definition parseNow :: "string \<Rightarrow> jsdate option \<Rightarrow> jsdate option result" where
  "parseNow label now = after (throw_if (now = Some None)
     (label @ '' field \"now\" must be a valid Date when provided.'')) (Inr now)"

definition parseActionContext :: "string \<Rightarrow> json \<Rightarrow> json_object option result" where
  "parseActionContext label v = (case v of JUndef \<Rightarrow> Inr None | JObj kvs \<Rightarrow> Inr (Some kvs)
     | _ \<Rightarrow> Inl (Error (label @ '' field \"action_context\" must be a JSON object when provided.'')))"

definition parseEnforcementRequest :: "json \<Rightarrow> jsdate option \<Rightarrow> enforcement_request result" where
  "parseEnforcementRequest input requestNow =
     bind_result (as_object ''Enforcement request must be a non-null JSON object.'' input) (\<lambda>kvs.
     after (throw_if (\<not> has_prop kvs ''capability'') ''Enforcement field \"capability\" is required.'')
     (bind_result (parseRequestedScope (get_prop kvs ''requested_scope'')) (\<lambda>scope.
     bind_result (parseRequestedPermissions (get_prop kvs ''requested_permissions'')) (\<lambda>permissions.
     bind_result (parseOptionalBinding ''Enforcement'' kvs ''subject'') (\<lambda>subject.
     bind_result (parseOptionalBinding ''Enforcement'' kvs ''grantee'') (\<lambda>grantee.
     bind_result (parseOptionalBinding ''Enforcement'' kvs ''marketMakerId'') (\<lambda>marketMakerId.
     bind_result (parseResource ''Enforcement'' (get_prop kvs ''resource'')) (\<lambda>resource.
     bind_result (parseActionContext ''Enforcement'' (get_prop kvs ''action_context'')) (\<lambda>action_context.
     bind_result (parseNow ''Enforcement'' requestNow) (\<lambda>now.
       Inr \<lparr>er_capability = get_prop kvs ''capability'', er_requested_scope = scope, er_requested_permissions = permissions,
         er_subject = subject, er_grantee = grantee, er_marketMakerId = marketMakerId, er_resource = resource,
         er_action_context = action_context, er_now = now\<rparr>))))))))))"

definition dedupeScope :: "platform \<Rightarrow> scope_entry list \<Rightarrow> scope_entry list" where
  "dedupeScope P scope = sort_cmp (compare_scope P) (keyed toScopeKey scope)"

definition normalizeEnforcementRequest :: "platform \<Rightarrow> enforcement_request \<Rightarrow> enforcement_request" where
  "normalizeEnforcementRequest P input = input\<lparr>er_requested_scope := dedupeScope P (er_requested_scope input),
     er_requested_permissions := sort (unique (map (\<lambda>permission. to_lower (trim permission)) (er_requested_permissions input)))\<rparr>"

section \<open>Decisions\<close>

record enforcement_decision =
  ef_allowed :: bool
  ef_decision :: string
  ef_reason_code :: string
  ef_reasons :: "string list"
  ef_evaluated_at :: string
  ef_normalized_request :: "enforcement_request option"
  ef_normalized_capability :: "protocol_capability option"
  ef_matched_scope :: "scope_entry list option"
  ef_matched_permissions :: "string list option"

record decision_context =
  dx_now :: jsdate
  dx_request :: "enforcement_request option"
  dx_capability :: "protocol_capability option"
  dx_scope :: "scope_entry list option"
  dx_permissions :: "string list option"

definition mapCapabilityStateToReason :: "string \<Rightarrow> string" where
  "mapCapabilityStateToReason state =
     (if state = ''expired'' then ''CAPABILITY_EXPIRED''
      else if state = ''revoked'' then ''CAPABILITY_REVOKED''
      else if state = ''revocation_unknown'' then ''CAPABILITY_REVOCATION_UNKNOWN''
      else if state = ''not_yet_active'' then ''CAPABILITY_NOT_YET_ACTIVE''
      else if state = ''invalid'' then ''CAPABILITY_INVALID''
      else if state = ''active'' then ''ENFORCEMENT_ALLOW''
      else ''CAPABILITY_INVALID'')"

definition buildDenyDecision :: "string \<Rightarrow> string list \<Rightarrow> decision_context \<Rightarrow> enforcement_decision result" where
  "buildDenyDecision reason_code reasons ctx = bind_result (to_iso_string (dx_now ctx)) (\<lambda>evaluated_at.
     Inr \<lparr>ef_allowed = False, ef_decision = ''deny'', ef_reason_code = reason_code, ef_reasons = reasons,
       ef_evaluated_at = evaluated_at, ef_normalized_request = dx_request ctx, ef_normalized_capability = dx_capability ctx,
       ef_matched_scope = dx_scope ctx, ef_matched_permissions = dx_permissions ctx\<rparr>)"

definition buildAllowDecision :: "decision_context \<Rightarrow> enforcement_decision result" where
  "buildAllowDecision ctx = bind_result (to_iso_string (dx_now ctx)) (\<lambda>evaluated_at.
     Inr \<lparr>ef_allowed = True, ef_decision = ''allow'', ef_reason_code = ''ENFORCEMENT_ALLOW'',
       ef_reasons = [''Enforcement checks passed.''],
       ef_evaluated_at = evaluated_at, ef_normalized_request = dx_request ctx, ef_normalized_capability = dx_capability ctx,
       ef_matched_scope = dx_scope ctx, ef_matched_permissions = dx_permissions ctx\<rparr>)"

text \<open>What matched before the first entry that does not, and that entry.\<close>

fun find_mismatch :: "('a \<Rightarrow> bool) \<Rightarrow> 'a list \<Rightarrow> 'a list \<times> 'a option" where
  "find_mismatch ok [] = ([], None)"
| "find_mismatch ok (x # xs) = (if \<not> ok x then ([], Some x)
     else (case find_mismatch ok xs of (matched, mismatch) \<Rightarrow> (x # matched, mismatch)))"

definition findScopeMismatch :: "enforcement_request \<Rightarrow> scope_entry list \<Rightarrow> scope_entry list \<times> scope_entry option" where
  "findScopeMismatch request allowedScope =
     find_mismatch (\<lambda>requested. toScopeKey requested \<in> toScopeKey ` set allowedScope) (er_requested_scope request)"

definition findPermissionMismatch :: "enforcement_request \<Rightarrow> string list \<Rightarrow> string list \<times> string option" where
  "findPermissionMismatch request allowedPermissions =
     find_mismatch (\<lambda>permission. permission \<in> set allowedPermissions) (er_requested_permissions request)"

definition access_request_of :: "enforcement_request \<Rightarrow> jsdate \<Rightarrow> capability_access_request" where
  "access_request_of request now = \<lparr>ca_requested_scope = er_requested_scope request,
     ca_requested_permissions = er_requested_permissions request, ca_subject = er_subject request, ca_grantee = er_grantee request,
     ca_marketMakerId = er_marketMakerId request, ca_now = Some (case er_now request of None \<Rightarrow> now | Some d \<Rightarrow> d)\<rparr>"

text \<open>The checks after the capability has been verified and found active.\<close>

definition enforce_bindings ::
  "platform \<Rightarrow> int \<Rightarrow> revocation_port \<Rightarrow> jsdate \<Rightarrow> enforcement_request \<Rightarrow> protocol_capability \<Rightarrow> enforcement_decision result" where
  "enforce_bindings P clock checkRevocation now request capability =
     (let ctx = \<lparr>dx_now = now, dx_request = Some request, dx_capability = Some capability, dx_scope = None, dx_permissions = None\<rparr>;
          (scope, badScope) = findScopeMismatch request (pc_scope capability);
          ctx' = ctx\<lparr>dx_scope := Some scope\<rparr>;
          (permissions, badPermission) = findPermissionMismatch request (pc_permissions capability);
          ctx'' = ctx'\<lparr>dx_permissions := Some permissions\<rparr>
      in case badScope of
        Some entry \<Rightarrow> buildDenyDecision ''SCOPE_NOT_ALLOWED''
          [''Requested scope is not allowed: '' @ se_type entry @ '':'' @ se_ref entry @ ''.''] ctx'
      | None \<Rightarrow> (case badPermission of
        Some permission \<Rightarrow> buildDenyDecision ''PERMISSION_NOT_ALLOWED''
          [''Requested permission is not allowed: '' @ permission @ ''.''] ctx''
      | None \<Rightarrow>
         if er_subject request \<noteq> None \<and> er_subject request \<noteq> Some (pc_subject capability)
         then buildDenyDecision ''SUBJECT_MISMATCH'' [''Request subject does not match capability subject.''] ctx''
         else if er_grantee request \<noteq> None \<and> er_grantee request \<noteq> Some (pc_grantee capability)
         then buildDenyDecision ''GRANTEE_MISMATCH'' [''Request grantee does not match capability grantee.''] ctx''
         else if er_marketMakerId request \<noteq> None \<and> er_marketMakerId request \<noteq> pc_marketMakerId capability
         then buildDenyDecision ''MARKET_MAKER_MISMATCH'' [''Request market maker binding does not match capability marketMakerId.''] ctx''
         else bind_result (evaluateCapabilityAccess_protocol P clock (protocol_capability_json capability)
             (access_request_of request now) checkRevocation) (\<lambda>accessAllowed.
           if \<not> accessAllowed
           then buildDenyDecision ''REQUEST_INVALID'' [''Capability access evaluation denied the request.''] ctx''
           else buildAllowDecision ctx'')))"

text \<open>
  The port is consulted twice, when the state of the capability is evaluated and again when access is: it is the sequence of the
  ports of its consultations, since what it answers, or that it throws, may differ from one to the next.
\<close>

definition evaluateEnforcement ::
  "platform \<Rightarrow> int \<Rightarrow> json_object \<Rightarrow> jsdate option \<Rightarrow> (nat \<Rightarrow> revocation_port) \<Rightarrow> enforcement_decision result" where
  "evaluateEnforcement P clock input requestNow checkRevocation =
     (let now = (case requestNow of None \<Rightarrow> Some clock | Some d \<Rightarrow> d);
          ctx = \<lparr>dx_now = now, dx_request = None, dx_capability = None, dx_scope = None, dx_permissions = None\<rparr>
      in case parseEnforcementRequest (JObj input) requestNow of
        Inl e \<Rightarrow> buildDenyDecision ''REQUEST_INVALID'' [error_message e] ctx
      | Inr parsed \<Rightarrow>
         (let request = normalizeEnforcementRequest P parsed in
          case verifyCapability P (er_capability request) of
            Inl errors \<Rightarrow> buildDenyDecision ''CAPABILITY_INVALID'' errors (ctx\<lparr>dx_request := Some request\<rparr>)
          | Inr capability \<Rightarrow>
             bind_result (evaluateCapabilityState P clock (protocol_capability_json capability)
                 (Some (case er_now request of None \<Rightarrow> now | Some d \<Rightarrow> d)) (checkRevocation 0)) (\<lambda>state.
             if ps_state state \<noteq> ''active''
             then buildDenyDecision (mapCapabilityStateToReason (ps_state state)) (ps_reasons state)
               (ctx\<lparr>dx_request := Some request, dx_capability := Some capability\<rparr>)
             else enforce_bindings P clock (checkRevocation 1) now request capability)))"

section \<open>Lemmas\<close>

subsection \<open>Requests\<close>

lemma js_space_code: "js_space c \<longleftrightarrow> (of_char c :: nat) \<in> {9, 10, 11, 12, 13, 32, 160}"
proof -
  have "c = d \<longleftrightarrow> (of_char c :: nat) = of_char d" for d by simp
  then show ?thesis unfolding js_space_def by (simp add: of_char_def)
qed

lemma to_lower_code: "(of_char (to_lower_char c) :: nat) = (let n = of_char c in
    if 65 \<le> n \<and> n \<le> 90 \<or> 192 \<le> n \<and> n \<le> 222 \<and> n \<noteq> 215 then n + 32 else n)"
  by (auto simp: to_lower_char_def Let_def)

lemma to_lower_space: "js_space (to_lower_char c) \<longleftrightarrow> js_space c"
  unfolding js_space_code to_lower_code Let_def by (auto split: if_splits)

lemma to_lower_char_idem: "to_lower_char (to_lower_char c) = to_lower_char c"
proof -
  have "(of_char (to_lower_char (to_lower_char c)) :: nat) = of_char (to_lower_char c)"
    unfolding to_lower_code Let_def by (auto split: if_splits)
  then show ?thesis by simp
qed

lemma to_lower_idem [simp]: "to_lower (to_lower s) = to_lower s"
  by (simp add: to_lower_def to_lower_char_idem)

lemma trim_to_lower [simp]: "trim (to_lower s) = to_lower (trim s)"
  by (simp add: trim_def to_lower_def dropWhile_map rev_map comp_def to_lower_space)

lemma to_lower_Nil [simp]: "to_lower s = [] \<longleftrightarrow> s = []"
  by (simp add: to_lower_def)

text \<open>What every parsed request satisfies.\<close>

definition entry_ok :: "scope_entry \<Rightarrow> bool" where
  "entry_ok e \<longleftrightarrow> se_type e \<in> set VALID_SCOPE_TYPES \<and> se_ref e \<noteq> [] \<and> trim (se_ref e) = se_ref e \<and> to_lower (se_ref e) = se_ref e"

definition request_ok :: "enforcement_request \<Rightarrow> bool" where
  "request_ok r \<longleftrightarrow> er_requested_scope r \<noteq> [] \<and> (\<forall>e \<in> set (er_requested_scope r). entry_ok e) \<and>
     er_requested_permissions r \<noteq> [] \<and> (\<forall>p \<in> set (er_requested_permissions r). text_ok p \<and> to_lower p = p) \<and>
     (\<forall>s. er_subject r = Some s \<longrightarrow> text_ok s) \<and> (\<forall>s. er_grantee r = Some s \<longrightarrow> text_ok s) \<and>
     (\<forall>s. er_marketMakerId r = Some s \<longrightarrow> text_ok s) \<and> (\<forall>e. er_resource r = Some (Some e) \<longrightarrow> entry_ok e) \<and>
     er_now r \<noteq> Some None"

lemma parseNonEmptyString_Inr [result_simps]:
  "parseNonEmptyString l v f = Inr s \<longleftrightarrow> (\<exists>t. v = JStr t \<and> s = trim t \<and> trim t \<noteq> [])"
  by (auto simp: parseNonEmptyString_def Let_def result_simps)

lemma parseScopeEntry_Inr:
  "parseScopeEntry i v = Inr e \<longleftrightarrow> (\<exists>kvs t r. v = JObj kvs \<and> get_prop kvs ''type'' = JStr t \<and> get_prop kvs ''ref'' = JStr r \<and>
     trim t \<in> set VALID_SCOPE_TYPES \<and> trim r \<noteq> [] \<and> e = \<lparr>se_type = trim t, se_ref = to_lower (trim r)\<rparr>)"
  by (auto simp: parseScopeEntry_def result_simps VALID_SCOPE_TYPES_def)

lemma parseRequestedPermission_Inr:
  "parseRequestedPermission i v = Inr p \<longleftrightarrow> (\<exists>t. v = JStr t \<and> p = to_lower (trim t) \<and> trim t \<noteq> [])"
  by (auto simp: parseRequestedPermission_def Let_def result_simps)

lemma parseOptionalBinding_Inr [result_simps]:
  "parseOptionalBinding l kvs f = Inr x \<longleftrightarrow> (case x of None \<Rightarrow> get_prop kvs f = JUndef
     | Some s \<Rightarrow> (\<exists>t. get_prop kvs f = JStr t \<and> s = trim t \<and> trim t \<noteq> []))"
  by (auto simp: parseOptionalBinding_def result_simps split: option.splits)

lemma parseResource_Inr:
  "parseResource l v = Inr x \<longleftrightarrow> (case x of None \<Rightarrow> v = JUndef | Some None \<Rightarrow> v = JNull
     | Some (Some e) \<Rightarrow> \<exists>kvs t r. v = JObj kvs \<and> get_prop kvs ''type'' = JStr t \<and> get_prop kvs ''ref'' = JStr r \<and>
        trim t \<in> set VALID_SCOPE_TYPES \<and> trim r \<noteq> [] \<and> e = \<lparr>se_type = trim t, se_ref = to_lower (trim r)\<rparr>)"
  by (cases v) (auto simp: parseResource_def result_simps VALID_SCOPE_TYPES_def split: option.splits)

lemma parseActionContext_Inr:
  "parseActionContext l v = Inr x \<longleftrightarrow> (case x of None \<Rightarrow> v = JUndef | Some kvs \<Rightarrow> v = JObj kvs)"
  by (cases v) (auto simp: parseActionContext_def split: option.splits)

lemma parseNow_Inr [result_simps]: "parseNow l n = Inr m \<longleftrightarrow> m = n \<and> n \<noteq> Some None"
  by (auto simp: parseNow_def result_simps)

lemma requested_scope_ok:
  assumes "parseRequestedScope v = Inr scope"
  shows "scope \<noteq> [] \<and> (\<forall>e \<in> set scope. entry_ok e)"
proof -
  obtain xs where xs: "xs \<noteq> []" "map_index parseScopeEntry 0 xs = Inr scope"
    using assms by (auto simp: parseRequestedScope_def result_simps)
  have "\<forall>e \<in> set scope. entry_ok e"
    using map_index_set [OF xs(2)] by (fastforce simp: parseScopeEntry_Inr entry_ok_def)
  then show ?thesis using map_index_length [OF xs(2)] xs(1) by auto
qed

lemma requested_permissions_ok:
  assumes "parseRequestedPermissions v = Inr ps"
  shows "ps \<noteq> [] \<and> (\<forall>p \<in> set ps. text_ok p \<and> to_lower p = p)"
proof -
  obtain xs where xs: "xs \<noteq> []" "map_index parseRequestedPermission 0 xs = Inr ps"
    using assms by (auto simp: parseRequestedPermissions_def result_simps)
  have "\<forall>p \<in> set ps. text_ok p \<and> to_lower p = p"
    using map_index_set [OF xs(2)] by (fastforce simp: parseRequestedPermission_Inr text_ok_def)
  then show ?thesis using map_index_length [OF xs(2)] xs(1) by auto
qed

lemma parseEnforcementRequest_ok:
  assumes "parseEnforcementRequest input now = Inr r"
  shows "request_ok r \<and> er_now r = now"
proof -
  obtain kvs where parts: "parseRequestedScope (get_prop kvs ''requested_scope'') = Inr (er_requested_scope r)"
      "parseRequestedPermissions (get_prop kvs ''requested_permissions'') = Inr (er_requested_permissions r)"
      "parseOptionalBinding ''Enforcement'' kvs ''subject'' = Inr (er_subject r)"
      "parseOptionalBinding ''Enforcement'' kvs ''grantee'' = Inr (er_grantee r)"
      "parseOptionalBinding ''Enforcement'' kvs ''marketMakerId'' = Inr (er_marketMakerId r)"
      "parseResource ''Enforcement'' (get_prop kvs ''resource'') = Inr (er_resource r)"
      "parseNow ''Enforcement'' now = Inr (er_now r)"
    using assms unfolding parseEnforcementRequest_def bind_result_Inr after_Inr sum.inject by auto
  have "\<forall>e. er_resource r = Some (Some e) \<longrightarrow> entry_ok e"
    using parts(6) by (auto simp: parseResource_Inr entry_ok_def)
  then show ?thesis
    using requested_scope_ok [OF parts(1)] requested_permissions_ok [OF parts(2)] parts(3-5,7)
    by (auto simp: request_ok_def result_simps text_ok_def split: option.splits)
qed

text \<open>A parsed request as the value it is; an undefined property may be present.\<close>

definition resource_json :: "scope_entry option option \<Rightarrow> json" where
  "resource_json = undefined_or (\<lambda>r. case r of None \<Rightarrow> JNull | Some e \<Rightarrow> scope_json e)"

definition enforcement_kvs :: "enforcement_request \<Rightarrow> json_object" where
  "enforcement_kvs r = [
     (''capability'', er_capability r), (''requested_scope'', JArr (map scope_json (er_requested_scope r))),
     (''requested_permissions'', JArr (map JStr (er_requested_permissions r))), (''subject'', undefined_or JStr (er_subject r)),
     (''grantee'', undefined_or JStr (er_grantee r)), (''marketMakerId'', undefined_or JStr (er_marketMakerId r)),
     (''resource'', resource_json (er_resource r)), (''action_context'', undefined_or JObj (er_action_context r))]"

lemma scope_type_trim: "t \<in> set VALID_SCOPE_TYPES \<Longrightarrow> trim t = t"
proof -
  have "trim ''field'' = ''field''" "trim ''content'' = ''content''" "trim ''pack'' = ''pack''" by code_simp+
  then show "t \<in> set VALID_SCOPE_TYPES \<Longrightarrow> trim t = t" by (auto simp: VALID_SCOPE_TYPES_def)
qed

lemma requested_scope_json:
  assumes "scope \<noteq> []" and "\<forall>e \<in> set scope. entry_ok e"
  shows "parseRequestedScope (JArr (map scope_json scope)) = Inr scope"
proof -
  obtain y ys where y: "map scope_json scope = y # ys" using assms(1) by (cases scope) auto
  have "map_index parseScopeEntry 0 (map scope_json scope) = Inr (map (\<lambda>e. e) scope)"
    unfolding map_index_map
    by (rule map_index_same) (use assms(2) scope_type_trim in \<open>auto simp: parseScopeEntry_Inr scope_json_def entry_ok_def\<close>)
  then show ?thesis using y by (simp add: parseRequestedScope_def)
qed

lemma requested_permissions_json:
  assumes "ps \<noteq> []" and "\<forall>p \<in> set ps. text_ok p \<and> to_lower p = p"
  shows "parseRequestedPermissions (JArr (map JStr ps)) = Inr ps"
proof -
  obtain y ys where y: "map JStr ps = y # ys" using assms(1) by (cases ps) auto
  have "map_index parseRequestedPermission 0 (map JStr ps) = Inr (map (\<lambda>p. p) ps)"
    unfolding map_index_map
    by (rule map_index_same) (use assms(2) in \<open>auto simp: parseRequestedPermission_Inr text_ok_def\<close>)
  then show ?thesis using y by (simp add: parseRequestedPermissions_def)
qed

lemma request_roundtrip:
  assumes "request_ok r"
  shows "parseEnforcementRequest (JObj (enforcement_kvs r)) (er_now r) = Inr r"
proof -
  have kvs: "get_prop (enforcement_kvs r) ''capability'' = er_capability r" "has_prop (enforcement_kvs r) ''capability''"
      "get_prop (enforcement_kvs r) ''requested_scope'' = JArr (map scope_json (er_requested_scope r))"
      "get_prop (enforcement_kvs r) ''requested_permissions'' = JArr (map JStr (er_requested_permissions r))"
      "get_prop (enforcement_kvs r) ''subject'' = undefined_or JStr (er_subject r)"
      "get_prop (enforcement_kvs r) ''grantee'' = undefined_or JStr (er_grantee r)"
      "get_prop (enforcement_kvs r) ''marketMakerId'' = undefined_or JStr (er_marketMakerId r)"
      "get_prop (enforcement_kvs r) ''resource'' = resource_json (er_resource r)"
      "get_prop (enforcement_kvs r) ''action_context'' = undefined_or JObj (er_action_context r)"
    by (simp_all add: enforcement_kvs_def has_prop_def)
  have bindings: "parseOptionalBinding ''Enforcement'' (enforcement_kvs r) ''subject'' = Inr (er_subject r)"
      "parseOptionalBinding ''Enforcement'' (enforcement_kvs r) ''grantee'' = Inr (er_grantee r)"
      "parseOptionalBinding ''Enforcement'' (enforcement_kvs r) ''marketMakerId'' = Inr (er_marketMakerId r)"
    using assms by (auto simp: parseOptionalBinding_Inr kvs undefined_or_def request_ok_def text_ok_def split: option.splits)
  have resource: "parseResource ''Enforcement'' (resource_json (er_resource r)) = Inr (er_resource r)"
    using assms scope_type_trim
    by (auto simp: parseResource_Inr resource_json_def undefined_or_def request_ok_def entry_ok_def scope_json_def split: option.splits)
  have "parseActionContext ''Enforcement'' (undefined_or JObj (er_action_context r)) = Inr (er_action_context r)"
    by (auto simp: parseActionContext_Inr undefined_or_def split: option.splits)
  then show ?thesis
    using assms bindings resource requested_scope_json [of "er_requested_scope r"]
      requested_permissions_json [of "er_requested_permissions r"]
    by (simp add: parseEnforcementRequest_def kvs request_ok_def parseNow_def)
qed

subsection \<open>Normalization\<close>

lemma entry_key_inj: "\<forall>e \<in> set scope. entry_ok e \<Longrightarrow> inj_on toScopeKey (set scope)"
proof (rule inj_onI)
  fix x y assume ok: "\<forall>e \<in> set scope. entry_ok e" and xy: "x \<in> set scope" "y \<in> set scope" "toScopeKey x = toScopeKey y"
  then have "CHR '':'' \<notin> set (se_type x)" "CHR '':'' \<notin> set (se_type y)"
    using scope_types_no_colon by (auto simp: entry_ok_def)
  then have "split_on (CHR '':'') (toScopeKey x) = se_type x # split_on (CHR '':'') (se_ref x)"
      "split_on (CHR '':'') (toScopeKey y) = se_type y # split_on (CHR '':'') (se_ref y)"
    unfolding toScopeKey_def using split_on_append by (metis append_Cons append_Nil)+
  then have "se_type x = se_type y" using xy(3) by simp
  then show "x = y" using xy(3) by (simp add: toScopeKey_def)
qed

lemma set_dedupeScope: "\<forall>e \<in> set scope. entry_ok e \<Longrightarrow> set (dedupeScope P scope) = set scope"
  by (simp add: dedupeScope_def set_keyed entry_key_inj)

lemma normal_request_ok: "request_ok r \<Longrightarrow> request_ok (normalizeEnforcementRequest P r)"
proof -
  assume r: "request_ok r"
  then have scope: "set (dedupeScope P (er_requested_scope r)) = set (er_requested_scope r)"
    by (intro set_dedupeScope) (simp add: request_ok_def)
  have low: "map (\<lambda>p. to_lower (trim p)) (er_requested_permissions r) = er_requested_permissions r"
    using r by (intro map_idI) (simp add: request_ok_def text_ok_def)
  have "er_requested_scope r \<noteq> []" using r by (simp add: request_ok_def)
  then have "dedupeScope P (er_requested_scope r) \<noteq> []" using scope by (metis set_empty)
  then show ?thesis
    using r scope by (simp add: request_ok_def normalizeEnforcementRequest_def low)
qed

lemma normal_request_sets:
  assumes "request_ok r"
  shows "set (er_requested_scope (normalizeEnforcementRequest P r)) = set (er_requested_scope r)"
    and "set (er_requested_permissions (normalizeEnforcementRequest P r)) = set (er_requested_permissions r)"
proof -
  have "map (\<lambda>p. to_lower (trim p)) (er_requested_permissions r) = er_requested_permissions r"
    using assms by (intro map_idI) (simp add: request_ok_def text_ok_def)
  then show "set (er_requested_permissions (normalizeEnforcementRequest P r)) = set (er_requested_permissions r)"
    by (simp add: normalizeEnforcementRequest_def)
  show "set (er_requested_scope (normalizeEnforcementRequest P r)) = set (er_requested_scope r)"
    using assms by (simp add: normalizeEnforcementRequest_def request_ok_def set_dedupeScope)
qed

lemma normalize_request_idem:
  assumes "collation P"
  shows "normalizeEnforcementRequest P (normalizeEnforcementRequest P r) = normalizeEnforcementRequest P r"
proof -
  have "distinct (map toScopeKey (dedupeScope P s))" for s
    using distinct_keyed [of toScopeKey s] unfolding dedupeScope_def
    by (metis distinct_map distinct_sort_cmp set_sort_cmp)
  then have "keyed toScopeKey (dedupeScope P s) = dedupeScope P s" for s by (rule keyed_distinct)
  then have scope: "dedupeScope P (dedupeScope P s) = dedupeScope P s" for s
    using comparator_order.sort_cmp_idem [OF compare_scope_order [OF assms], of "keyed toScopeKey s"]
    by (simp add: dedupeScope_def)
  have "map (\<lambda>p. to_lower (trim p)) (sort (unique (map (\<lambda>p. to_lower (trim p)) ps))) =
      sort (unique (map (\<lambda>p. to_lower (trim p)) ps))" for ps
    by (intro map_idI) auto
  then show ?thesis
    using scope by (simp add: normalizeEnforcementRequest_def sort_unique_idem)
qed

subsection \<open>Decisions\<close>

lemma find_mismatch_None:
  "snd (find_mismatch ok xs) = None \<longleftrightarrow> (\<forall>x \<in> set xs. ok x)"
  "snd (find_mismatch ok xs) = None \<Longrightarrow> fst (find_mismatch ok xs) = xs"
  by (induction xs) (auto split: prod.splits if_splits)

lemma within_request:
  assumes "request_ok q"
  shows "within_capability (access_request_of q now) c \<longleftrightarrow>
    set (er_requested_scope q) \<subseteq> set (pc_scope c) \<and> set (er_requested_permissions q) \<subseteq> set (pc_permissions c) \<and>
    (\<forall>x. er_subject q = Some x \<longrightarrow> x = pc_subject c) \<and> (\<forall>x. er_grantee q = Some x \<longrightarrow> x = pc_grantee c) \<and>
    (\<forall>x. er_marketMakerId q = Some x \<longrightarrow> pc_marketMakerId c = Some x)"
proof -
  have "\<lparr>se_type = se_type e, se_ref = to_lower (trim (se_ref e))\<rparr> = e" if "e \<in> set (er_requested_scope q)" for e
    using assms that by (simp add: request_ok_def entry_ok_def)
  then have "(\<forall>e \<in> set (er_requested_scope q). \<lparr>se_type = se_type e, se_ref = to_lower (trim (se_ref e))\<rparr> \<in> set (pc_scope c)) \<longleftrightarrow>
      set (er_requested_scope q) \<subseteq> set (pc_scope c)"
    by (auto simp: subset_iff)
  moreover have "(\<forall>p \<in> set (er_requested_permissions q). to_lower (trim p) \<in> set (pc_permissions c)) \<longleftrightarrow>
      set (er_requested_permissions q) \<subseteq> set (pc_permissions c)"
    using assms by (auto simp: request_ok_def text_ok_def subset_iff)
  ultimately show ?thesis
    using assms by (simp add: within_capability_def access_request_of_def request_ok_def)
qed

text \<open>A result that is a decision to allow.\<close>

definition allows :: "enforcement_decision result \<Rightarrow> bool" where
  "allows r \<longleftrightarrow> (\<exists>d. r = Inr d \<and> ef_allowed d)"

lemma allows_Inl [simp]: "\<not> allows (Inl e)"
  by (simp add: allows_def)

lemma allows_deny [simp]: "\<not> allows (buildDenyDecision code reasons ctx)"
  by (auto simp: allows_def buildDenyDecision_def result_simps)

lemma allows_allow [simp]: "allows (buildAllowDecision ctx) \<longleftrightarrow> dx_now ctx \<noteq> None"
  using to_iso_string_total by (cases "dx_now ctx") (auto simp: allows_def buildAllowDecision_def result_simps to_iso_string_def split: prod.splits)

lemma allows_if [simp]: "allows (if b then r else r') \<longleftrightarrow> (if b then allows r else allows r')"
  by simp

lemma allows_bind [simp]: "allows (bind_result r k) \<longleftrightarrow> (\<exists>x. r = Inr x \<and> allows (k x))"
  by (auto simp: allows_def result_simps)

text \<open>The checks of the engine let through what is within the capability and what the last evaluation allows.\<close>

lemma enforce_bindings_allows:
  assumes "request_ok q" and "scope_valid (pc_scope c)"
  shows "allows (enforce_bindings P clock check (Some t) q c) \<longleftrightarrow>
    within_capability (access_request_of q (Some t)) c \<and>
    evaluateCapabilityAccess_protocol P clock (protocol_capability_json c) (access_request_of q (Some t)) check = Inr True"
proof -
  obtain sc bs where scope: "findScopeMismatch q (pc_scope c) = (sc, bs)" by fastforce
  obtain ps bp where perms: "findPermissionMismatch q (pc_permissions c) = (ps, bp)" by fastforce
  have bs: "bs = None \<longleftrightarrow> set (er_requested_scope q) \<subseteq> set (pc_scope c)"
    using find_mismatch_None(1) [of "\<lambda>e. toScopeKey e \<in> toScopeKey ` set (pc_scope c)" "er_requested_scope q"] scope
      scope_keys_subset [OF assms(2)] by (auto simp: findScopeMismatch_def)
  have bp: "bp = None \<longleftrightarrow> set (er_requested_permissions q) \<subseteq> set (pc_permissions c)"
    using find_mismatch_None(1) [of "\<lambda>p. p \<in> set (pc_permissions c)" "er_requested_permissions q"] perms
    by (auto simp: findPermissionMismatch_def)
  have b: "(x \<noteq> None \<and> x \<noteq> Some y) \<longleftrightarrow> \<not> (\<forall>z. x = Some z \<longrightarrow> z = y)" "(x \<noteq> None \<and> x \<noteq> m) \<longleftrightarrow> \<not> (\<forall>z. x = Some z \<longrightarrow> m = Some z)"
    for x m and y :: string by (cases x; auto)+
  have "allows (enforce_bindings P clock check (Some t) q c) \<longleftrightarrow> bs = None \<and> bp = None \<and>
      \<not> (er_subject q \<noteq> None \<and> er_subject q \<noteq> Some (pc_subject c)) \<and>
      \<not> (er_grantee q \<noteq> None \<and> er_grantee q \<noteq> Some (pc_grantee c)) \<and>
      \<not> (er_marketMakerId q \<noteq> None \<and> er_marketMakerId q \<noteq> pc_marketMakerId c) \<and>
      evaluateCapabilityAccess_protocol P clock (protocol_capability_json c) (access_request_of q (Some t)) check = Inr True"
    by (simp only: enforce_bindings_def scope perms Let_def prod.case) (cases bs; cases bp; simp add: ex_bool_eq)
  then show ?thesis
    unfolding within_request [OF assms(1)] bs [symmetric] bp [symmetric] b by blast
qed

text \<open>The moment a request is evaluated at.\<close>

definition request_moment :: "int \<Rightarrow> jsdate option \<Rightarrow> int" where
  "request_moment clock now = (case now of Some (Some t) \<Rightarrow> t | _ \<Rightarrow> clock)"

lemma evaluateEnforcement_allows:
  assumes "collation P" and "parseEnforcementRequest (JObj kvs) now = Inr r"
  defines "q \<equiv> normalizeEnforcementRequest P r"
  shows "allows (evaluateEnforcement P clock kvs now check) \<longleftrightarrow>
    evaluateCapabilityAccess_protocol P clock (er_capability r) (access_request_of q (Some (request_moment clock now))) (check 0) = Inr True \<and>
    evaluateCapabilityAccess_protocol P clock (er_capability r) (access_request_of q (Some (request_moment clock now))) (check 1) = Inr True"
proof -
  define t where "t = request_moment clock now"
  have r: "request_ok r" "er_now r = now" using parseEnforcementRequest_ok [OF assms(2)] by auto
  have now: "(case now of None \<Rightarrow> Some clock | Some d \<Rightarrow> d) = Some t"
    using r by (auto simp: t_def request_moment_def request_ok_def split: option.splits)
  have q: "request_ok q" "er_capability q = er_capability r" "er_now q = now"
    using normal_request_ok [OF r(1)] r(2) by (simp_all add: q_def normalizeEnforcementRequest_def)
  have time: "ca_now (access_request_of q (Some t)) = Some (Some t)"
    using now by (auto simp: access_request_of_def q(3) split: option.splits)
  then have time': "(case now of None \<Rightarrow> Some t | Some d \<Rightarrow> d) = Some t" by (simp add: access_request_of_def q(3))
  show ?thesis
  proof (cases "verifyCapability P (er_capability r)")
    case (Inl e)
    then show ?thesis unfolding t_def [symmetric]
      by (simp add: evaluateEnforcement_def now assms(2) q_def [symmetric] q(2) Let_def access_iff)
  next
    case (Inr c)
    have again: "verifyCapability P (protocol_capability_json c) = Inr c" by (rule verified_again [OF assms(1) Inr])
    have valid: "scope_valid (pc_scope c)" using Inr by (simp add: verifyCapability_Inr capability_verified_def capability_shape_def)
    have same: "evaluateCapabilityState P clock (protocol_capability_json c) n port =
        evaluateCapabilityState P clock (er_capability r) n port" for n port
      by (simp add: evaluateCapabilityState_def again Inr)
    show ?thesis unfolding t_def [symmetric]
      using enforce_bindings_allows [OF q(1) valid, of P clock "check 1" t]
      by (cases "evaluateCapabilityState P clock (er_capability r) (Some (Some t)) (check 0)")
        (auto simp: evaluateEnforcement_def now time time' assms(2) q_def [symmetric] q(2,3) Let_def access_iff Inr again same)
  qed
qed

text \<open>A result that is a decision with a reason, whose parts agree.\<close>

definition decides :: "(string \<Rightarrow> bool) \<Rightarrow> enforcement_decision result \<Rightarrow> bool" where
  "decides R r \<longleftrightarrow> (\<exists>d. r = Inr d \<and> R (ef_reason_code d) \<and> (ef_allowed d \<longleftrightarrow> ef_decision d = ''allow'') \<and>
     (ef_allowed d \<longleftrightarrow> ef_reason_code d = ''ENFORCEMENT_ALLOW''))"

lemma decides_deny [simp]:
  "decides R (buildDenyDecision code reasons ctx) \<longleftrightarrow> dx_now ctx \<noteq> None \<and> R code \<and> code \<noteq> ''ENFORCEMENT_ALLOW''"
  using to_iso_string_total
  by (cases "dx_now ctx") (auto simp: decides_def buildDenyDecision_def result_simps to_iso_string_def split: prod.splits)

lemma decides_allow [simp]:
  "decides R (buildAllowDecision ctx) \<longleftrightarrow> dx_now ctx \<noteq> None \<and> R ''ENFORCEMENT_ALLOW''"
  using to_iso_string_total
  by (cases "dx_now ctx") (auto simp: decides_def buildAllowDecision_def result_simps to_iso_string_def split: prod.splits)

lemma decides_if [simp]: "decides R (if b then r else r') \<longleftrightarrow> (if b then decides R r else decides R r')"
  by simp

lemma resolve_any_port: "\<exists>status. resolve_revocation clock check i t = Inr status"
  using lookup_failed_status [of None clock "Some i" "Some t"]
  by (auto simp: resolve_revocation_def Let_def subject_unknown_def split: sum.splits option.splits)

lemma state_total: "\<exists>r. evaluateCapabilityState P clock input (Some (Some t)) check = Inr r"
proof (cases "verifyCapability P input")
  case (Inr c)
  obtain st where "resolve_revocation clock check (pc_capability_hash c) ''capability_grant'' = Inr st" using resolve_any_port by blast
  moreover obtain u where "to_iso_string (Some t) = Inr u" using to_iso_string_total by blast
  ultimately show ?thesis
    by (cases "pc_not_before c") (auto simp: evaluateCapabilityState_def Inr Let_def split: if_splits)
qed (simp add: evaluateCapabilityState_def)

lemma reason_of_state: "mapCapabilityStateToReason s = ''ENFORCEMENT_ALLOW'' \<longleftrightarrow> s = ''active''"
    "mapCapabilityStateToReason s \<noteq> ''REQUEST_INVALID''"
  by (auto simp: mapCapabilityStateToReason_def)

text \<open>The state of a capability at a moment, by an answer of the port.\<close>

definition active_by :: "platform \<Rightarrow> int \<Rightarrow> revocation_port \<Rightarrow> int \<Rightarrow> protocol_capability \<Rightarrow> bool" where
  "active_by P clock port t c \<longleftrightarrow> (\<exists>st. evaluateCapabilityState P clock (protocol_capability_json c) (Some (Some t)) port = Inr st \<and>
     ps_state st = ''active'')"

lemma enforce_bindings_decides:
  assumes "request_ok q" and "verifyCapability P (protocol_capability_json c) = Inr c" and "scope_valid (pc_scope c)"
    and "ca_now (access_request_of q (Some t)) = Some (Some u)"
  shows "decides (\<lambda>code. code = ''REQUEST_INVALID'' \<longleftrightarrow> within_capability (access_request_of q (Some t)) c \<and> \<not> active_by P clock check u c)
    (enforce_bindings P clock check (Some t) q c)"
proof -
  obtain sc bs where scope: "findScopeMismatch q (pc_scope c) = (sc, bs)" by fastforce
  obtain ps bp where perms: "findPermissionMismatch q (pc_permissions c) = (ps, bp)" by fastforce
  have bs: "bs = None \<longleftrightarrow> set (er_requested_scope q) \<subseteq> set (pc_scope c)"
    using find_mismatch_None(1) [of "\<lambda>e. toScopeKey e \<in> toScopeKey ` set (pc_scope c)" "er_requested_scope q"] scope
      scope_keys_subset [OF assms(3)] by (auto simp: findScopeMismatch_def)
  have bp: "bp = None \<longleftrightarrow> set (er_requested_permissions q) \<subseteq> set (pc_permissions c)"
    using find_mismatch_None(1) [of "\<lambda>p. p \<in> set (pc_permissions c)" "er_requested_permissions q"] perms
    by (auto simp: findPermissionMismatch_def)
  obtain st where st: "evaluateCapabilityState P clock (protocol_capability_json c) (Some (Some u)) check = Inr st"
    using state_total by blast
  obtain a where a: "evaluateCapabilityAccess_protocol P clock (protocol_capability_json c) (access_request_of q (Some t)) check = Inr a"
    using st assms(2,4) by (auto simp: evaluateCapabilityAccess_protocol_def)
  have a_iff: "a \<longleftrightarrow> within_capability (access_request_of q (Some t)) c \<and> active_by P clock check u c"
    using access_iff [of P clock "protocol_capability_json c" "access_request_of q (Some t)" check] assms(2,4) a
    by (auto simp: active_by_def)
  define sub gra mar where "sub \<longleftrightarrow> er_subject q \<noteq> None \<and> er_subject q \<noteq> Some (pc_subject c)"
    and "gra \<longleftrightarrow> er_grantee q \<noteq> None \<and> er_grantee q \<noteq> Some (pc_grantee c)"
    and "mar \<longleftrightarrow> er_marketMakerId q \<noteq> None \<and> er_marketMakerId q \<noteq> pc_marketMakerId c"
  note named = sub_def [symmetric] gra_def [symmetric] mar_def [symmetric]
  have "sub \<longleftrightarrow> \<not> (\<forall>x. er_subject q = Some x \<longrightarrow> x = pc_subject c)" "gra \<longleftrightarrow> \<not> (\<forall>x. er_grantee q = Some x \<longrightarrow> x = pc_grantee c)"
    "mar \<longleftrightarrow> \<not> (\<forall>x. er_marketMakerId q = Some x \<longrightarrow> pc_marketMakerId c = Some x)"
    by (auto simp: sub_def gra_def mar_def)
  then have within: "within_capability (access_request_of q (Some t)) c \<longleftrightarrow> bs = None \<and> bp = None \<and> \<not> sub \<and> \<not> gra \<and> \<not> mar"
    unfolding within_request [OF assms(1)] bs bp by blast
  show ?thesis
    by (simp only: enforce_bindings_def scope perms Let_def prod.case a bind_result_simps named within)
      (cases bs; cases bp; simp add: a_iff within)
qed

section \<open>The properties of enforcement\<close>

text \<open>
  C10: enforcement is total and its decisions are coherent: for every request with a valid date, whatever the port answers or throws
  at each of the two times it is consulted, a decision is returned; it allows exactly when it says so and gives the reason for it.
  It finds a request invalid exactly when the request cannot be read, or when it can, asks for what its capability grants, and the
  capability was active by the first answer of the port and no longer is by the second.
\<close>

theorem enforcement_decides:
  assumes "collation P" and "now \<noteq> Some None"
  shows "\<exists>d. evaluateEnforcement P clock kvs now check = Inr d \<and>
    (ef_allowed d \<longleftrightarrow> ef_decision d = ''allow'') \<and> (ef_allowed d \<longleftrightarrow> ef_reason_code d = ''ENFORCEMENT_ALLOW'') \<and>
    (ef_reason_code d = ''REQUEST_INVALID'' \<longleftrightarrow> (\<nexists>r. parseEnforcementRequest (JObj kvs) now = Inr r) \<or>
      (\<exists>r c. parseEnforcementRequest (JObj kvs) now = Inr r \<and> verifyCapability P (er_capability r) = Inr c \<and>
        within_capability (access_request_of (normalizeEnforcementRequest P r) (Some (request_moment clock now))) c \<and>
        active_by P clock (check 0) (request_moment clock now) c \<and> \<not> active_by P clock (check 1) (request_moment clock now) c))"
proof -
  define t where "t = request_moment clock now"
  define broken where "broken = (\<lambda>r c. verifyCapability P (er_capability r) = Inr c \<and>
    within_capability (access_request_of (normalizeEnforcementRequest P r) (Some t)) c \<and>
    active_by P clock (check 0) t c \<and> \<not> active_by P clock (check 1) t c)"
  have now: "(case now of None \<Rightarrow> Some clock | Some d \<Rightarrow> d) = Some t"
    using assms(2) by (auto simp: t_def request_moment_def split: option.splits)
  have "decides (\<lambda>code. code = ''REQUEST_INVALID'' \<longleftrightarrow> (\<nexists>r. parseEnforcementRequest (JObj kvs) now = Inr r) \<or>
        (\<exists>r c. parseEnforcementRequest (JObj kvs) now = Inr r \<and> broken r c))
      (evaluateEnforcement P clock kvs now check)"
  proof (cases "parseEnforcementRequest (JObj kvs) now")
    case (Inl e)
    then show ?thesis by (simp add: evaluateEnforcement_def now Let_def)
  next
    case (Inr r)
    define q where "q = normalizeEnforcementRequest P r"
    have r: "request_ok r" "er_now r = now" using parseEnforcementRequest_ok [OF Inr] by auto
    have q: "request_ok q" "er_capability q = er_capability r" "er_now q = now"
      using normal_request_ok [OF r(1)] r(2) by (simp_all add: q_def normalizeEnforcementRequest_def)
    show ?thesis
    proof (cases "verifyCapability P (er_capability r)")
      case (Inl e)
      then show ?thesis by (simp add: evaluateEnforcement_def now Inr q_def [symmetric] q(2) Let_def broken_def)
    next
      fix c assume c: "verifyCapability P (er_capability r) = Inr c"
      have again: "verifyCapability P (protocol_capability_json c) = Inr c" by (rule verified_again [OF assms(1) c])
      have valid: "scope_valid (pc_scope c)" using c by (simp add: verifyCapability_Inr capability_verified_def capability_shape_def)
      have time: "(case now of None \<Rightarrow> Some t | Some d \<Rightarrow> d) = Some t"
          "ca_now (access_request_of q (Some t)) = Some (Some t)"
        using now by (auto simp: access_request_of_def q(3) split: option.splits)
      obtain st where st: "evaluateCapabilityState P clock (protocol_capability_json c) (Some (Some t)) (check 0) = Inr st"
        using state_total by blast
      have "broken r d \<longleftrightarrow> d = c \<and> within_capability (access_request_of q (Some t)) c \<and> ps_state st = ''active'' \<and>
          \<not> active_by P clock (check 1) t c" for d
        using c st by (auto simp: broken_def q_def active_by_def)
      then have "Ex (broken r) \<longleftrightarrow> within_capability (access_request_of q (Some t)) c \<and> ps_state st = ''active'' \<and>
          \<not> active_by P clock (check 1) t c" by blast
      then show ?thesis
        using enforce_bindings_decides [OF q(1) again valid time(2), of clock "check 1"]
        by (simp add: evaluateEnforcement_def now Inr q_def [symmetric] q(2,3) Let_def c time(1) st reason_of_state)
    qed
  qed
  then show ?thesis unfolding decides_def broken_def t_def by blast
qed

lemma enforcement_granted:
  assumes "collation P" and "four_digit_year (request_moment clock now)"
  shows "(\<exists>d. evaluateEnforcement P clock kvs now (\<lambda>n. createRegistryRevocationCheck (isRevoked n) v k) = Inr d \<and> ef_allowed d) \<longleftrightarrow>
    (\<exists>r c. parseEnforcementRequest (JObj kvs) now = Inr r \<and> verifyCapability P (er_capability r) = Inr c \<and>
       isRevoked 0 (pc_capability_hash c) = Inr (Some False) \<and> isRevoked 1 (pc_capability_hash c) = Inr (Some False) \<and>
       in_interval c (request_moment clock now) \<and>
       set (er_requested_scope r) \<subseteq> set (pc_scope c) \<and> set (er_requested_permissions r) \<subseteq> set (pc_permissions c) \<and>
       (\<forall>x. er_subject r = Some x \<longrightarrow> x = pc_subject c) \<and> (\<forall>x. er_grantee r = Some x \<longrightarrow> x = pc_grantee c) \<and>
       (\<forall>x. er_marketMakerId r = Some x \<longrightarrow> pc_marketMakerId c = Some x))"
proof (cases "parseEnforcementRequest (JObj kvs) now")
  case (Inl e)
  then show ?thesis
    using allows_deny unfolding allows_def by (simp add: evaluateEnforcement_def Let_def)
next
  case (Inr r)
  let ?q = "normalizeEnforcementRequest P r"
  have r: "request_ok r" "er_now r = now" using parseEnforcementRequest_ok [OF Inr] by auto
  note q = normal_request_ok [OF r(1), of P]
  have time: "ca_now (access_request_of ?q (Some (request_moment clock now))) = Some (Some (request_moment clock now))"
    using r by (auto simp: access_request_of_def normalizeEnforcementRequest_def request_moment_def request_ok_def split: option.splits)
  have fields: "er_subject ?q = er_subject r" "er_grantee ?q = er_grantee r" "er_marketMakerId ?q = er_marketMakerId r"
    by (simp_all add: normalizeEnforcementRequest_def)
  have "(\<exists>d. evaluateEnforcement P clock kvs now (\<lambda>n. createRegistryRevocationCheck (isRevoked n) v k) = Inr d \<and> ef_allowed d) \<longleftrightarrow>
      (\<exists>c. verifyCapability P (er_capability r) = Inr c \<and> within_capability (access_request_of ?q (Some (request_moment clock now))) c \<and>
        isRevoked 0 (pc_capability_hash c) = Inr (Some False) \<and> isRevoked 1 (pc_capability_hash c) = Inr (Some False) \<and>
       in_interval c (request_moment clock now))"
    unfolding allows_def [symmetric] evaluateEnforcement_allows [OF assms(1) Inr] access_iff time state_active [OF assms(2)]
    using registry_lets_through [of clock "isRevoked n" v k _ "''capability_grant''" for n] by force
  then show ?thesis
    unfolding within_request [OF q] normal_request_sets [OF r(1)] fields using Inr by auto
qed

text \<open>
  C9: with the check over a registry, which may change between the two times it is asked, enforcement allows exactly the requests
  that can be read and whose capability verifies, is not revoked either time, is inside its interval at the moment of the request,
  contains the requested scope and permissions and agrees with the bindings the request names.
\<close>

theorem enforcement_allows_iff:
  assumes "collation P" and "four_digit_year (request_moment clock now)"
  shows "(\<exists>d. evaluateEnforcement P clock kvs now (\<lambda>n. createRegistryRevocationCheck (isRevoked n) v k) = Inr d \<and> ef_allowed d) \<longleftrightarrow>
    (\<exists>r c. parseEnforcementRequest (JObj kvs) now = Inr r \<and> verifyCapability P (er_capability r) = Inr c \<and>
       isRevoked 0 (pc_capability_hash c) = Inr (Some False) \<and> isRevoked 1 (pc_capability_hash c) = Inr (Some False) \<and>
       in_interval c (request_moment clock now) \<and>
       set (er_requested_scope r) \<subseteq> set (pc_scope c) \<and> set (er_requested_permissions r) \<subseteq> set (pc_permissions c) \<and>
       (\<forall>x. er_subject r = Some x \<longrightarrow> x = pc_subject c) \<and> (\<forall>x. er_grantee r = Some x \<longrightarrow> x = pc_grantee c) \<and>
       (\<forall>x. er_marketMakerId r = Some x \<longrightarrow> pc_marketMakerId c = Some x))"
  by (rule enforcement_granted [OF assms])

definition sample_enforcement :: enforcement_request where
  "sample_enforcement = \<lparr>er_capability = protocol_capability_json sample_capability, er_requested_scope = [sample_entry],
     er_requested_permissions = [''read''], er_subject = None, er_grantee = None, er_marketMakerId = None, er_resource = None,
     er_action_context = None, er_now = Some (Some 1736951400000)\<rparr>"

lemma sample_entry_ok: "entry_ok sample_entry" "text_ok ''read''"
  using sample_grant_fixed hash_trim [OF zeros_hex]
  by (simp_all add: entry_ok_def text_ok_def sample_entry_def VALID_SCOPE_TYPES_def)

lemma sample_enforcement_ok: "request_ok sample_enforcement"
  using sample_entry_ok sample_grant_fixed by (simp add: request_ok_def sample_enforcement_def)

lemma sample_enforcement_parses:
  "parseEnforcementRequest (JObj (enforcement_kvs sample_enforcement)) (Some (Some 1736951400000)) = Inr sample_enforcement"
  using request_roundtrip [OF sample_enforcement_ok] by (simp add: sample_enforcement_def)

lemma sample_within: "in_interval sample_capability 1736951400000"
  using sample_date by (simp add: in_interval_def sample_capability_def)

lemma enforcement_allows_iff_witness:
  "\<exists>d. evaluateEnforcement zero_platform 0 (enforcement_kvs sample_enforcement) (Some (Some 1736951400000))
     (\<lambda>n. createRegistryRevocationCheck nothing_revoked None 0) = Inr d \<and> ef_allowed d"
proof -
  have "four_digit_year (request_moment 0 (Some (Some 1736951400000)))"
    using sample_moments(1) by (simp add: request_moment_def)
  then show ?thesis
    by (subst enforcement_allows_iff [OF zero_platform_ok(2)])
      (use sample_enforcement_parses sample_verifies sample_within in
        \<open>auto simp: sample_enforcement_def request_moment_def sample_capability_def\<close>)
qed

lemma enforcement_decides_witness:
  "\<exists>d. evaluateEnforcement zero_platform 0 (enforcement_kvs sample_enforcement) (Some (Some 1736951400000))
      (\<lambda>n. if n = 0 then createRegistryRevocationCheck nothing_revoked None 0 else (\<lambda>s. Inl (Error ''unreachable''))) = Inr d \<and>
    \<not> ef_allowed d \<and> ef_reason_code d = ''REQUEST_INVALID''"
proof -
  let ?port = "\<lambda>n :: nat. if n = 0 then createRegistryRevocationCheck nothing_revoked None 0 else (\<lambda>s. Inl (Error ''unreachable''))"
  let ?q = "normalizeEnforcementRequest zero_platform sample_enforcement"
  have moment: "request_moment 0 (Some (Some 1736951400000)) = 1736951400000" by (simp add: request_moment_def)
  have "within_capability (access_request_of ?q (Some 1736951400000)) sample_capability"
    unfolding within_request [OF normal_request_ok [OF sample_enforcement_ok]] normal_request_sets [OF sample_enforcement_ok]
    by (simp add: normalizeEnforcementRequest_def sample_enforcement_def sample_capability_def)
  moreover have "active_by zero_platform 0 (?port 0) 1736951400000 sample_capability"
    unfolding active_by_def state_active [OF sample_moments(1)]
    using sample_verifies sample_within registry_lets_through [of 0 nothing_revoked None 0 "pc_capability_hash sample_capability" "''capability_grant''"] by auto
  moreover have "\<not> active_by zero_platform 0 (?port 1) 1736951400000 sample_capability"
  proof -
    have "rs_status status = ''unknown''" if "resolve_revocation 0 (\<lambda>s. Inl (Error ''unreachable'')) i k = Inr status" for status i k
      using that lookup_failed_status [of None 0 "Some i" "Some k"] by (auto simp: resolve_revocation_def subject_unknown_def Let_def)
    then show ?thesis unfolding active_by_def state_active [OF sample_moments(1)] by auto
  qed
  moreover have "er_capability sample_enforcement = protocol_capability_json sample_capability" by (simp add: sample_enforcement_def)
  ultimately show ?thesis
    using enforcement_decides [OF zero_platform_ok(2), of "Some (Some 1736951400000)" 0 "enforcement_kvs sample_enforcement" ?port]
      sample_enforcement_parses sample_verifies unfolding moment by fastforce
qed


end
