(* ===== verification/ProtocolExecution.thy ===== *)
theory ProtocolExecution
  imports ProtocolEnforcement
begin

text \<open>
  \<open>protocol/execution/\<close>: the authorization of an execution.  It reads the request, has it enforced, and
  hands a contract to the adapter when enforcement allows.
\<close>

section \<open>Requests\<close>

record execution_request = enforcement_request +
  xr_adapter :: string
  xr_operation :: string
  xr_payload :: "json_object option option"

definition parseExecutionTarget :: "json \<Rightarrow> (string \<times> string) result" where
  "parseExecutionTarget v =
     bind_result (as_object ''Execution field \"execution_target\" must be a JSON object.'' v) (\<lambda>kvs.
     bind_result (parseNonEmptyString ''Execution'' (get_prop kvs ''adapter'') ''execution_target.adapter'') (\<lambda>adapter.
     bind_result (parseNonEmptyString ''Execution'' (get_prop kvs ''operation'') ''execution_target.operation'') (\<lambda>operation.
       Inr (adapter, operation))))"

definition parsePayload :: "json \<Rightarrow> json_object option option result" where
  "parsePayload v = (case v of JUndef \<Rightarrow> Inr None | JNull \<Rightarrow> Inr (Some None) | JObj kvs \<Rightarrow> Inr (Some (Some kvs))
     | _ \<Rightarrow> Inl (Error ''Execution field \"payload\" must be a JSON object or null when provided.''))"

text \<open>The object literal passed on to \<open>parseEnforcementRequest\<close>: lists as they came, the rest parsed.\<close>

definition forwarded_kvs ::
  "json_object \<Rightarrow> string option \<Rightarrow> string option \<Rightarrow> string option \<Rightarrow> scope_entry option option \<Rightarrow> json_object option \<Rightarrow> json_object" where
  "forwarded_kvs kvs subject grantee marketMakerId resource action_context = [
     (''capability'', get_prop kvs ''capability''), (''requested_scope'', get_prop kvs ''requested_scope''),
     (''requested_permissions'', get_prop kvs ''requested_permissions''), (''subject'', undefined_or JStr subject),
     (''grantee'', undefined_or JStr grantee), (''marketMakerId'', undefined_or JStr marketMakerId),
     (''resource'', resource_json resource), (''action_context'', undefined_or JObj action_context)]"

definition parseExecutionRequest :: "json \<Rightarrow> jsdate option \<Rightarrow> execution_request result" where
  "parseExecutionRequest input requestNow =
     bind_result (as_object ''Execution request must be a non-null JSON object.'' input) (\<lambda>kvs.
     after (throw_if (\<not> has_prop kvs ''capability'') ''Execution field \"capability\" is required.'')
     (bind_result (parseOptionalBinding ''Execution'' kvs ''subject'') (\<lambda>subject.
     bind_result (parseOptionalBinding ''Execution'' kvs ''grantee'') (\<lambda>grantee.
     bind_result (parseOptionalBinding ''Execution'' kvs ''marketMakerId'') (\<lambda>marketMakerId.
     bind_result (parseResource ''Execution'' (get_prop kvs ''resource'')) (\<lambda>resource.
     bind_result (parseActionContext ''Execution'' (get_prop kvs ''action_context'')) (\<lambda>action_context.
     bind_result (parseNow ''Execution'' requestNow) (\<lambda>now.
     bind_result (parseEnforcementRequest (JObj (forwarded_kvs kvs subject grantee marketMakerId resource action_context)) now)
       (\<lambda>parsedEnforcement.
     bind_result (parseExecutionTarget (get_prop kvs ''execution_target'')) (\<lambda>(adapter, operation).
     bind_result (parsePayload (get_prop kvs ''payload'')) (\<lambda>payload.
       Inr (enforcement_request.extend parsedEnforcement
         \<lparr>xr_adapter = adapter, xr_operation = operation, xr_payload = payload\<rparr>))))))))))))"

definition normalizeExecutionRequest :: "platform \<Rightarrow> execution_request \<Rightarrow> execution_request" where
  "normalizeExecutionRequest P input =
     enforcement_request.extend (normalizeEnforcementRequest P (enforcement_request.truncate input))
       \<lparr>xr_adapter = trim (xr_adapter input), xr_operation = trim (xr_operation input), xr_payload = xr_payload input\<rparr>"

section \<open>Contracts and results\<close>

record execution_contract =
  xc_adapter :: string
  xc_operation :: string
  xc_subject :: string
  xc_grantee :: string
  xc_allowed_scope :: "scope_entry list"
  xc_allowed_permissions :: "string list"
  xc_capability_hash :: string
  xc_parent_consent_hash :: string
  xc_marketMakerId :: "string option"
  xc_resource :: "scope_entry option option"
  xc_action_context :: "json_object option"
  xc_issued_at :: string

definition buildExecutionContract :: "execution_request \<Rightarrow> protocol_capability \<Rightarrow> string \<Rightarrow> execution_contract" where
  "buildExecutionContract request capability issued_at = \<lparr>
     xc_adapter = xr_adapter request, xc_operation = xr_operation request,
     xc_subject = pc_subject capability, xc_grantee = pc_grantee capability,
     xc_allowed_scope = er_requested_scope request, xc_allowed_permissions = er_requested_permissions request,
     xc_capability_hash = pc_capability_hash capability, xc_parent_consent_hash = pc_parent_consent_hash capability,
     xc_marketMakerId = er_marketMakerId request, xc_resource = er_resource request,
     xc_action_context = er_action_context request, xc_issued_at = issued_at\<rparr>"

record execution_result =
  xt_authorized :: bool
  xt_decision :: string
  xt_reason_code :: string
  xt_reasons :: "string list"
  xt_evaluated_at :: string
  xt_target :: "string \<times> string"
  xt_request :: "execution_request option"
  xt_enforcement :: "enforcement_decision option"
  xt_contract :: "execution_contract option"
  xt_authorization_token :: "string option"

definition buildRejectedExecutionResult ::
  "string \<Rightarrow> string list \<Rightarrow> jsdate \<Rightarrow> string \<times> string \<Rightarrow> execution_request option \<Rightarrow> enforcement_decision option \<Rightarrow> execution_result result" where
  "buildRejectedExecutionResult reason_code reasons now target request enforcement =
     bind_result (to_iso_string now) (\<lambda>evaluated_at.
       Inr \<lparr>xt_authorized = False, xt_decision = ''rejected'', xt_reason_code = reason_code, xt_reasons = reasons,
         xt_evaluated_at = evaluated_at, xt_target = target, xt_request = request, xt_enforcement = enforcement,
         xt_contract = None, xt_authorization_token = None\<rparr>)"

definition buildAuthorizedExecutionResult ::
  "jsdate \<Rightarrow> string \<times> string \<Rightarrow> execution_request \<Rightarrow> enforcement_decision \<Rightarrow> execution_contract \<Rightarrow> execution_result result" where
  "buildAuthorizedExecutionResult now target request enforcement contract =
     bind_result (to_iso_string now) (\<lambda>evaluated_at.
       Inr \<lparr>xt_authorized = True, xt_decision = ''authorized'', xt_reason_code = ''EXECUTION_AUTHORIZED'',
         xt_reasons = [''Execution request authorized by canonical enforcement runtime.''],
         xt_evaluated_at = evaluated_at, xt_target = target, xt_request = Some request, xt_enforcement = Some enforcement,
         xt_contract = Some contract, xt_authorization_token = None\<rparr>)"

section \<open>Authorization\<close>

text \<open>The target named in a result when the request cannot be read.\<close>

definition resolve_name :: "json \<Rightarrow> string" where
  "resolve_name v = (case v of JStr s \<Rightarrow> if trim s \<noteq> [] then trim s else ''unknown'' | _ \<Rightarrow> ''unknown'')"

definition resolveExecutionTarget :: "json \<Rightarrow> string \<times> string" where
  "resolveExecutionTarget v = (case v of JObj kvs \<Rightarrow> (resolve_name (get_prop kvs ''adapter''), resolve_name (get_prop kvs ''operation''))
     | _ \<Rightarrow> (''unknown'', ''unknown''))"

definition authorizeExecution ::
  "platform \<Rightarrow> int \<Rightarrow> json_object \<Rightarrow> jsdate option \<Rightarrow> (nat \<Rightarrow> revocation_port) \<Rightarrow> execution_result result" where
  "authorizeExecution P clock request requestNow checkRevocation =
     (let now = (case requestNow of None \<Rightarrow> Some clock | Some d \<Rightarrow> d);
          fallbackTarget = resolveExecutionTarget (get_prop request ''execution_target'')
      in case parseExecutionRequest (JObj request) requestNow of
        Inl e \<Rightarrow> buildRejectedExecutionResult ''EXECUTION_REQUEST_INVALID'' [error_message e] now fallbackTarget None None
      | Inr parsed \<Rightarrow>
         (let normalized = normalizeExecutionRequest P parsed;
              target = (xr_adapter normalized, xr_operation normalized)
          in bind_result (evaluateEnforcement P clock (enforcement_kvs (enforcement_request.truncate normalized))
              (Some (case er_now normalized of None \<Rightarrow> now | Some d \<Rightarrow> d)) checkRevocation) (\<lambda>decision.
             case (ef_allowed decision, ef_normalized_capability decision) of
               (True, Some capability) \<Rightarrow>
                 bind_result (to_iso_string now) (\<lambda>issued_at.
                   buildAuthorizedExecutionResult now target normalized decision
                     (buildExecutionContract normalized capability issued_at))
             | _ \<Rightarrow> buildRejectedExecutionResult (ef_reason_code decision) (ef_reasons decision) now target
                 (Some normalized) (Some decision))))"

section \<open>Lemmas\<close>

subsection \<open>Reading a request\<close>

text \<open>The request as enforcement reads it: the parts that an execution adds are dropped.\<close>

lemma truncate_simps [simp]:
  "enforcement_request.truncate (enforcement_request.extend r e) = r"
  "xr_adapter (enforcement_request.extend r \<lparr>xr_adapter = a, xr_operation = b, xr_payload = p\<rparr>) = a"
  "xr_operation (enforcement_request.extend r \<lparr>xr_adapter = a, xr_operation = b, xr_payload = p\<rparr>) = b"
  "xr_payload (enforcement_request.extend r \<lparr>xr_adapter = a, xr_operation = b, xr_payload = p\<rparr>) = p"
  by (simp_all add: enforcement_request.defs)

lemma parseRequest_parts:
  "parseEnforcementRequest (JObj kvs) now = Inr r \<longleftrightarrow> has_prop kvs ''capability'' \<and> er_capability r = get_prop kvs ''capability'' \<and>
     parseRequestedScope (get_prop kvs ''requested_scope'') = Inr (er_requested_scope r) \<and>
     parseRequestedPermissions (get_prop kvs ''requested_permissions'') = Inr (er_requested_permissions r) \<and>
     parseOptionalBinding l kvs ''subject'' = Inr (er_subject r) \<and> parseOptionalBinding l kvs ''grantee'' = Inr (er_grantee r) \<and>
     parseOptionalBinding l kvs ''marketMakerId'' = Inr (er_marketMakerId r) \<and>
     parseResource l (get_prop kvs ''resource'') = Inr (er_resource r) \<and>
     parseActionContext l (get_prop kvs ''action_context'') = Inr (er_action_context r) \<and> er_now r = now \<and> now \<noteq> Some None"
proof -
  have "parseOptionalBinding l kvs f = Inr x \<longleftrightarrow> parseOptionalBinding ''Enforcement'' kvs f = Inr x" for f x
    by (simp only: parseOptionalBinding_Inr)
  moreover have "parseResource l v = Inr x \<longleftrightarrow> parseResource ''Enforcement'' v = Inr x" for v x
    by (simp only: parseResource_Inr)
  moreover have "parseActionContext l v = Inr x \<longleftrightarrow> parseActionContext ''Enforcement'' v = Inr x" for v x
    by (simp only: parseActionContext_Inr)
  ultimately show ?thesis
    by (cases r) (auto simp: parseEnforcementRequest_def bind_result_Inr after_Inr parseNow_Inr)
qed

lemma forwarded_props:
  "get_prop (forwarded_kvs kvs s g m x a) ''capability'' = get_prop kvs ''capability''" "has_prop (forwarded_kvs kvs s g m x a) ''capability''"
  "get_prop (forwarded_kvs kvs s g m x a) ''requested_scope'' = get_prop kvs ''requested_scope''"
  "get_prop (forwarded_kvs kvs s g m x a) ''requested_permissions'' = get_prop kvs ''requested_permissions''"
  "get_prop (forwarded_kvs kvs s g m x a) ''subject'' = undefined_or JStr s" "get_prop (forwarded_kvs kvs s g m x a) ''grantee'' = undefined_or JStr g"
  "get_prop (forwarded_kvs kvs s g m x a) ''marketMakerId'' = undefined_or JStr m"
  "get_prop (forwarded_kvs kvs s g m x a) ''resource'' = resource_json x"
  "get_prop (forwarded_kvs kvs s g m x a) ''action_context'' = undefined_or JObj a"
  by (simp_all add: forwarded_kvs_def has_prop_def)

text \<open>Reading twice is reading once.\<close>

lemma binding_again:
  assumes "parseOptionalBinding l kvs f = Inr x" and "get_prop kvs' f = undefined_or JStr x"
  shows "parseOptionalBinding l' kvs' f = Inr y \<longleftrightarrow> y = x"
  using assms by (cases x; cases y) (auto simp: parseOptionalBinding_Inr undefined_or_def)

lemma resource_again: "parseResource l v = Inr x \<Longrightarrow> parseResource l' (resource_json x) = Inr y \<longleftrightarrow> y = x"
  using scope_type_trim
  by (cases x; cases y) (auto simp: parseResource_Inr resource_json_def undefined_or_def scope_json_def split: option.splits)

lemma context_again: "parseActionContext l' (undefined_or JObj x) = Inr y \<longleftrightarrow> y = x"
  by (cases x; cases y) (auto simp: parseActionContext_Inr undefined_or_def)

lemma parseExecutionRequest_Inr:
  "parseExecutionRequest (JObj kvs) now = Inr x \<longleftrightarrow> (\<exists>r a b p. parseEnforcementRequest (JObj kvs) now = Inr r \<and>
     parseExecutionTarget (get_prop kvs ''execution_target'') = Inr (a, b) \<and> parsePayload (get_prop kvs ''payload'') = Inr p \<and>
     x = enforcement_request.extend r \<lparr>xr_adapter = a, xr_operation = b, xr_payload = p\<rparr>)" (is "?L \<longleftrightarrow> ?R")
proof -
  have forwarded: "parseEnforcementRequest (JObj (forwarded_kvs kvs s g m y c)) now = Inr r \<longleftrightarrow>
      er_capability r = get_prop kvs ''capability'' \<and>
      parseRequestedScope (get_prop kvs ''requested_scope'') = Inr (er_requested_scope r) \<and>
      parseRequestedPermissions (get_prop kvs ''requested_permissions'') = Inr (er_requested_permissions r) \<and>
      er_subject r = s \<and> er_grantee r = g \<and> er_marketMakerId r = m \<and> er_resource r = y \<and> er_action_context r = c \<and>
      er_now r = now \<and> now \<noteq> Some None"
    if "parseOptionalBinding l kvs ''subject'' = Inr s" "parseOptionalBinding l kvs ''grantee'' = Inr g"
      "parseOptionalBinding l kvs ''marketMakerId'' = Inr m" "parseResource l (get_prop kvs ''resource'') = Inr y" for l s g m y c r
    unfolding parseRequest_parts [where l = l and kvs = "forwarded_kvs kvs s g m y c"] forwarded_props context_again
      binding_again [OF that(1) forwarded_props(5)] binding_again [OF that(2) forwarded_props(6)]
      binding_again [OF that(3) forwarded_props(7)] resource_again [OF that(4)]
    by (auto simp: forwarded_props(2))
  show ?thesis
  proof
    assume ?L
    then obtain s g m y c r a b p where parts: "has_prop kvs ''capability''"
      "parseOptionalBinding ''Execution'' kvs ''subject'' = Inr s" "parseOptionalBinding ''Execution'' kvs ''grantee'' = Inr g"
      "parseOptionalBinding ''Execution'' kvs ''marketMakerId'' = Inr m" "parseResource ''Execution'' (get_prop kvs ''resource'') = Inr y"
      "parseActionContext ''Execution'' (get_prop kvs ''action_context'') = Inr c"
      "parseEnforcementRequest (JObj (forwarded_kvs kvs s g m y c)) now = Inr r"
      "parseExecutionTarget (get_prop kvs ''execution_target'') = Inr (a, b)" "parsePayload (get_prop kvs ''payload'') = Inr p"
      "x = enforcement_request.extend r \<lparr>xr_adapter = a, xr_operation = b, xr_payload = p\<rparr>"
      by (auto simp: parseExecutionRequest_def bind_result_Inr after_Inr parseNow_Inr)
    have "parseEnforcementRequest (JObj kvs) now = Inr r"
      using parts(1-6) parts(7) [unfolded forwarded [OF parts(2-5)]]
      unfolding parseRequest_parts [where l = "''Execution''"] by simp
    then show ?R using parts(8-10) by blast
  next
    assume ?R
    then obtain r a b p where parts: "parseEnforcementRequest (JObj kvs) now = Inr r"
      "parseExecutionTarget (get_prop kvs ''execution_target'') = Inr (a, b)" "parsePayload (get_prop kvs ''payload'') = Inr p"
      "x = enforcement_request.extend r \<lparr>xr_adapter = a, xr_operation = b, xr_payload = p\<rparr>" by blast
    note r = parts(1) [unfolded parseRequest_parts [where l = "''Execution''"]]
    then have "parseEnforcementRequest (JObj (forwarded_kvs kvs (er_subject r) (er_grantee r) (er_marketMakerId r)
        (er_resource r) (er_action_context r))) now = Inr r"
      using forwarded [where l = "''Execution''" and s = "er_subject r" and g = "er_grantee r" and m = "er_marketMakerId r"
          and y = "er_resource r" and c = "er_action_context r" and r = r] by simp
    then show ?L using r parts(2-4) by (simp add: parseExecutionRequest_def parseNow_def)
  qed
qed

subsection \<open>Authorization is enforcement\<close>

definition authorizes :: "execution_result result \<Rightarrow> bool" where
  "authorizes r \<longleftrightarrow> (\<exists>x. r = Inr x \<and> xt_authorized x)"

lemma authorizes_rejected [simp]: "\<not> authorizes (buildRejectedExecutionResult code reasons now target request decision)"
  by (auto simp: authorizes_def buildRejectedExecutionResult_def result_simps)

lemma authorizes_bind [simp]: "authorizes (bind_result r k) \<longleftrightarrow> (\<exists>x. r = Inr x \<and> authorizes (k x))"
  by (auto simp: authorizes_def result_simps)

lemma authorizes_authorized [simp]: "authorizes (buildAuthorizedExecutionResult now target request decision contract) \<longleftrightarrow> now \<noteq> None"
  using to_iso_string_total
  by (cases now) (auto simp: authorizes_def buildAuthorizedExecutionResult_def result_simps to_iso_string_def split: prod.splits)

text \<open>An allowing decision carries the capability that was verified.\<close>

lemma built_decision:
  "buildDenyDecision code reasons ctx = Inr d \<Longrightarrow> \<not> ef_allowed d"
  "buildAllowDecision ctx = Inr d \<Longrightarrow> ef_normalized_capability d = dx_capability ctx"
  by (auto simp: buildDenyDecision_def buildAllowDecision_def result_simps)

lemma bound_capability:
  assumes "enforce_bindings P clock check now q c = Inr d" and "ef_allowed d"
  shows "ef_normalized_capability d = Some c"
proof -
  obtain sc bs where scope: "findScopeMismatch q (pc_scope c) = (sc, bs)" by fastforce
  obtain ps bp where perms: "findPermissionMismatch q (pc_permissions c) = (ps, bp)" by fastforce
  show ?thesis using assms
    by (simp add: enforce_bindings_def scope perms Let_def)
      (cases bs; cases bp; auto simp: result_simps dest: built_decision split: if_splits)
qed

lemma allowed_capability:
  assumes "parseEnforcementRequest (JObj kvs) now = Inr r" and "evaluateEnforcement P clock kvs now check = Inr d" and "ef_allowed d"
  shows "\<exists>c. verifyCapability P (er_capability r) = Inr c \<and> ef_normalized_capability d = Some c"
proof (cases "verifyCapability P (er_capability r)")
  case (Inl e)
  then show ?thesis using assms
    by (auto simp: evaluateEnforcement_def normalizeEnforcementRequest_def Let_def dest: built_decision)
next
  case (Inr c)
  then show ?thesis using assms
    by (auto simp: evaluateEnforcement_def normalizeEnforcementRequest_def Let_def result_simps
        dest: built_decision bound_capability split: if_splits)
qed

text \<open>The request that is passed on is read, normalized and evaluated as the one that came in.\<close>

lemma normalize_at: "normalizeEnforcementRequest P (q\<lparr>er_now := n\<rparr>) = (normalizeEnforcementRequest P q)\<lparr>er_now := n\<rparr>"
  by (simp add: normalizeEnforcementRequest_def)

lemma passed_on:
  fixes clock :: int
  assumes "collation P" and "parseEnforcementRequest (JObj kvs) now = Inr r"
  defines "q \<equiv> normalizeEnforcementRequest P r" and "t \<equiv> request_moment clock now"
  shows "parseEnforcementRequest (JObj (enforcement_kvs q)) (Some (Some t)) = Inr (q\<lparr>er_now := Some (Some t)\<rparr>)"
    and "allows (evaluateEnforcement P clock (enforcement_kvs q) (Some (Some t)) check) \<longleftrightarrow>
      allows (evaluateEnforcement P clock kvs now check)"
proof -
  let ?q = "q\<lparr>er_now := Some (Some t)\<rparr>"
  have r: "request_ok r" "er_now r = now" using parseEnforcementRequest_ok [OF assms(2)] by auto
  have q: "request_ok ?q" "er_capability q = er_capability r" "er_now q = now"
    using normal_request_ok [OF r(1), of P] r(2) by (simp_all add: q_def request_ok_def normalizeEnforcementRequest_def)
  have same: "enforcement_kvs ?q = enforcement_kvs q" by (simp add: enforcement_kvs_def)
  show parses: "parseEnforcementRequest (JObj (enforcement_kvs q)) (Some (Some t)) = Inr ?q"
    using request_roundtrip [OF q(1)] by (simp add: same)
  have idem: "normalizeEnforcementRequest P ?q = ?q"
    using normalize_request_idem [OF assms(1), of r] unfolding q_def [symmetric] normalize_at by simp
  have moment: "request_moment clock (Some (Some t)) = t" "access_request_of ?q (Some t) = access_request_of q (Some t)"
    using q(3) r by (auto simp: request_moment_def access_request_of_def t_def request_ok_def split: option.splits)
  show "allows (evaluateEnforcement P clock (enforcement_kvs q) (Some (Some t)) check) \<longleftrightarrow>
      allows (evaluateEnforcement P clock kvs now check)"
    unfolding evaluateEnforcement_allows [OF assms(1) parses] evaluateEnforcement_allows [OF assms(1,2)] idem moment
      q_def [symmetric] t_def [symmetric] using q(2) by simp
qed

lemma target_trimmed:
  "parseExecutionTarget v = Inr (a, b) \<longleftrightarrow> (\<exists>kvs s t. v = JObj kvs \<and> get_prop kvs ''adapter'' = JStr s \<and>
     get_prop kvs ''operation'' = JStr t \<and> trim s \<noteq> [] \<and> trim t \<noteq> [] \<and> a = trim s \<and> b = trim t)"
  by (auto simp: parseExecutionTarget_def result_simps)

text \<open>What is done with a request that can be read.\<close>

lemma authorize_read:
  fixes clock :: int and P :: platform
  assumes "parseEnforcementRequest (JObj kvs) now = Inr r"
    and "parseExecutionTarget (get_prop kvs ''execution_target'') = Inr (a, b)" and "parsePayload (get_prop kvs ''payload'') = Inr p"
  defines "q \<equiv> normalizeEnforcementRequest P r" and "t \<equiv> request_moment clock now"
  defines "n \<equiv> enforcement_request.extend q \<lparr>xr_adapter = a, xr_operation = b, xr_payload = p\<rparr>"
  shows "authorizeExecution P clock kvs now check =
    bind_result (evaluateEnforcement P clock (enforcement_kvs q) (Some (Some t)) check) (\<lambda>d.
      case (ef_allowed d, ef_normalized_capability d) of
        (True, Some c) \<Rightarrow> bind_result (to_iso_string (Some t)) (\<lambda>issued_at.
          buildAuthorizedExecutionResult (Some t) (a, b) n d (buildExecutionContract n c issued_at))
      | _ \<Rightarrow> buildRejectedExecutionResult (ef_reason_code d) (ef_reasons d) (Some t) (a, b) (Some n) (Some d))"
proof -
  have parsed: "parseExecutionRequest (JObj kvs) now =
      Inr (enforcement_request.extend r \<lparr>xr_adapter = a, xr_operation = b, xr_payload = p\<rparr>)"
    using assms(1-3) by (auto simp: parseExecutionRequest_Inr)
  have r: "request_ok r" "er_now r = now" using parseEnforcementRequest_ok [OF assms(1)] by auto
  have now: "(case now of None \<Rightarrow> Some clock | Some d \<Rightarrow> d) = Some t" "(case now of None \<Rightarrow> Some t | Some d \<Rightarrow> d) = Some t"
    using r by (auto simp: t_def request_moment_def request_ok_def split: option.splits)
  have "trim a = a" "trim b = b" using assms(2) by (auto simp: target_trimmed)
  then have normal: "normalizeExecutionRequest P (enforcement_request.extend r \<lparr>xr_adapter = a, xr_operation = b, xr_payload = p\<rparr>) = n"
    by (simp add: normalizeExecutionRequest_def n_def q_def)
  have n: "enforcement_request.truncate n = q" "xr_adapter n = a" "xr_operation n = b" "er_now n = now"
    using r(2) by (simp_all add: n_def q_def normalizeEnforcementRequest_def enforcement_request.defs)
  show ?thesis unfolding authorizeExecution_def parsed now Let_def sum.case normal n ..
qed

text \<open>An execution is authorized exactly when enforcement allows it and its target and payload can be read.\<close>

lemma authorized_parts:
  fixes clock :: int
  assumes "collation P"
  shows "authorizes (authorizeExecution P clock kvs now check) \<longleftrightarrow> allows (evaluateEnforcement P clock kvs now check) \<and>
    (\<exists>t. parseExecutionTarget (get_prop kvs ''execution_target'') = Inr t) \<and> (\<exists>p. parsePayload (get_prop kvs ''payload'') = Inr p)"
    (is "?L \<longleftrightarrow> ?R")
proof (cases "\<exists>x. parseExecutionRequest (JObj kvs) now = Inr x")
  case False
  then obtain e where e: "parseExecutionRequest (JObj kvs) now = Inl e"
    by (cases "parseExecutionRequest (JObj kvs) now") auto
  have "\<not> ?R"
  proof (cases "parseEnforcementRequest (JObj kvs) now")
    case (Inl d)
    then show ?thesis by (simp add: evaluateEnforcement_def Let_def)
  next
    case (Inr r)
    then show ?thesis using False by (fastforce simp: parseExecutionRequest_Inr)
  qed
  then show ?thesis by (simp add: authorizeExecution_def e Let_def)
next
  case True
  then obtain r a b p where parts: "parseEnforcementRequest (JObj kvs) now = Inr r"
    "parseExecutionTarget (get_prop kvs ''execution_target'') = Inr (a, b)" "parsePayload (get_prop kvs ''payload'') = Inr p"
    by (auto simp: parseExecutionRequest_Inr)
  note on = passed_on [OF assms parts(1), of clock]
  have "authorizes (authorizeExecution P clock kvs now check) \<longleftrightarrow>
      allows (evaluateEnforcement P clock (enforcement_kvs (normalizeEnforcementRequest P r)) (Some (Some (request_moment clock now))) check)"
    unfolding authorize_read [OF parts] allows_def authorizes_bind using allowed_capability [OF on(1)] to_iso_string_total
    by (fastforce split: bool.splits option.splits)
  then show ?thesis using on(2) parts(2,3) by simp
qed

section \<open>Properties\<close>

text \<open>
  An execution is authorized exactly when enforcement allows the request it came with and its target and
  payload can be read: reading, normalizing and forwarding the request changes nothing that enforcement decides by.
\<close>

theorem execution_is_enforcement:
  assumes "collation P"
  shows "(\<exists>x. authorizeExecution P clock kvs now check = Inr x \<and> xt_authorized x) \<longleftrightarrow>
    (\<exists>d. evaluateEnforcement P clock kvs now check = Inr d \<and> ef_allowed d) \<and>
    (\<exists>t. parseExecutionTarget (get_prop kvs ''execution_target'') = Inr t) \<and> (\<exists>p. parsePayload (get_prop kvs ''payload'') = Inr p)"
  using authorized_parts [OF assms] unfolding authorizes_def allows_def by blast

lemma execution_contract_of:
  assumes "authorizeExecution P clock kvs now check = Inr x" and "xt_authorized x"
    and "parseEnforcementRequest (JObj kvs) now = Inr r" and "collation P"
  shows "\<exists>c k. verifyCapability P (er_capability r) = Inr c \<and> xt_contract x = Some k \<and>
    parseExecutionTarget (get_prop kvs ''execution_target'') = Inr (xc_adapter k, xc_operation k) \<and>
    xc_subject k = pc_subject c \<and> xc_grantee k = pc_grantee c \<and> xc_capability_hash k = pc_capability_hash c \<and>
    xc_parent_consent_hash k = pc_parent_consent_hash c \<and> set (xc_allowed_scope k) = set (er_requested_scope r) \<and>
    set (xc_allowed_permissions k) = set (er_requested_permissions r) \<and> xc_marketMakerId k = er_marketMakerId r \<and>
    to_iso_string (Some (request_moment clock now)) = Inr (xc_issued_at k)"
proof -
  have "authorizes (authorizeExecution P clock kvs now check)" using assms(1,2) by (simp add: authorizes_def)
  then obtain a b p where parts: "parseExecutionTarget (get_prop kvs ''execution_target'') = Inr (a, b)"
      "parsePayload (get_prop kvs ''payload'') = Inr p"
    unfolding authorized_parts [OF assms(4)] by auto
  let ?q = "normalizeEnforcementRequest P r" and ?t = "request_moment clock now"
  let ?n = "enforcement_request.extend ?q \<lparr>xr_adapter = a, xr_operation = b, xr_payload = p\<rparr>"
  have r: "request_ok r" using parseEnforcementRequest_ok [OF assms(3)] by simp
  obtain d where d: "evaluateEnforcement P clock (enforcement_kvs ?q) (Some (Some ?t)) check = Inr d" "ef_allowed d"
    using assms(1,2) unfolding authorize_read [OF assms(3) parts] bind_result_Inr
    by (auto simp: buildRejectedExecutionResult_def result_simps split: bool.splits)
  obtain c where c: "verifyCapability P (er_capability r) = Inr c" "ef_normalized_capability d = Some c"
    using allowed_capability [OF passed_on(1) [OF assms(4,3)] d] by (auto simp: normalizeEnforcementRequest_def)
  then have "\<exists>u. to_iso_string (Some ?t) = Inr u \<and> xt_contract x = Some (buildExecutionContract ?n c u)"
    using assms(1) d unfolding authorize_read [OF assms(3) parts]
    by (auto simp: buildAuthorizedExecutionResult_def result_simps)
  moreover have "er_requested_scope ?n = er_requested_scope ?q" "er_requested_permissions ?n = er_requested_permissions ?q"
      "er_marketMakerId ?n = er_marketMakerId r"
    by (simp_all add: enforcement_request.defs normalizeEnforcementRequest_def)
  ultimately show ?thesis
    using c(1) parts(1) normal_request_sets [OF r, of P] by (auto simp: buildExecutionContract_def enforcement_request.defs)
qed

text \<open>
  C7: the contract of an authorized execution is covered by a capability: the value in the request verifies, is not
  revoked either time the registry is asked and is inside its interval, the contract's scope and permissions lie within the capability's, its
  subject, grantee and hashes are the capability's own, and its adapter and operation are those of the request.
\<close>

theorem authorized_contract_is_covered:
  assumes "collation P" and "four_digit_year (request_moment clock now)"
    and "authorizeExecution P clock kvs now (\<lambda>n. createRegistryRevocationCheck (isRevoked n) v k) = Inr x" and "xt_authorized x"
  shows "\<exists>c contract. xt_contract x = Some contract \<and> verifyCapability P (get_prop kvs ''capability'') = Inr c \<and>
    isRevoked 0 (pc_capability_hash c) = Inr (Some False) \<and> isRevoked 1 (pc_capability_hash c) = Inr (Some False) \<and>
    in_interval c (request_moment clock now) \<and>
    set (xc_allowed_scope contract) \<subseteq> set (pc_scope c) \<and> set (xc_allowed_permissions contract) \<subseteq> set (pc_permissions c) \<and>
    xc_subject contract = pc_subject c \<and> xc_grantee contract = pc_grantee c \<and>
    xc_capability_hash contract = pc_capability_hash c \<and> xc_parent_consent_hash contract = pc_parent_consent_hash c \<and>
    (xc_marketMakerId contract = None \<or> xc_marketMakerId contract = pc_marketMakerId c) \<and>
    parseExecutionTarget (get_prop kvs ''execution_target'') = Inr (xc_adapter contract, xc_operation contract)"
proof -
  have "allows (evaluateEnforcement P clock kvs now (\<lambda>n. createRegistryRevocationCheck (isRevoked n) v k))"
    using authorized_parts [OF assms(1), of clock kvs now "\<lambda>n. createRegistryRevocationCheck (isRevoked n) v k"] assms(3,4)
    unfolding authorizes_def by blast
  then obtain r c where r: "parseEnforcementRequest (JObj kvs) now = Inr r" "verifyCapability P (er_capability r) = Inr c"
      "isRevoked 0 (pc_capability_hash c) = Inr (Some False)" "isRevoked 1 (pc_capability_hash c) = Inr (Some False)" "in_interval c (request_moment clock now)"
      "set (er_requested_scope r) \<subseteq> set (pc_scope c)" "set (er_requested_permissions r) \<subseteq> set (pc_permissions c)"
      "\<forall>m. er_marketMakerId r = Some m \<longrightarrow> pc_marketMakerId c = Some m"
    unfolding allows_def enforcement_granted [OF assms(1,2)] by blast
  have "er_capability r = get_prop kvs ''capability''"
    using r(1) unfolding parseRequest_parts [where l = "''Execution''"] by simp
  then show ?thesis
    using execution_contract_of [OF assms(3,4) r(1) assms(1)] r(2-) by (cases "er_marketMakerId r") auto
qed

text \<open>The request that presents a capability for a part of what it grants.\<close>

definition present :: "protocol_capability \<Rightarrow> scope_entry list \<Rightarrow> string list \<Rightarrow> string \<Rightarrow> string \<Rightarrow> json_object" where
  "present c scope permissions adapter operation = [
     (''capability'', protocol_capability_json c), (''requested_scope'', JArr (map scope_json scope)),
     (''requested_permissions'', JArr (map JStr permissions)),
     (''execution_target'', JObj [(''adapter'', JStr adapter), (''operation'', JStr operation)])]"

lemma present_parses:
  assumes "scope \<noteq> []" and "\<forall>e \<in> set scope. entry_ok e" and "permissions \<noteq> []"
    and "\<forall>p \<in> set permissions. text_ok p \<and> to_lower p = p"
  shows "parseEnforcementRequest (JObj (present c scope permissions adapter operation)) (Some (Some t)) =
    Inr \<lparr>er_capability = protocol_capability_json c, er_requested_scope = scope, er_requested_permissions = permissions,
      er_subject = None, er_grantee = None, er_marketMakerId = None, er_resource = None, er_action_context = None,
      er_now = Some (Some t)\<rparr>"
  unfolding parseRequest_parts [where l = "''Execution''"]
  using requested_scope_json [OF assms(1,2)] requested_permissions_json [OF assms(3,4)]
  by (simp add: present_def has_prop_def parseOptionalBinding_Inr parseResource_Inr parseActionContext_Inr)

lemma minted_requestable:
  assumes "mintCapability_protocol P clock input check = Inr c"
  shows "\<forall>e \<in> set (pc_scope c). entry_ok e" and "\<forall>p \<in> set (pc_permissions c). text_ok p \<and> to_lower p = p"
proof -
  obtain consent where m: "consent_valid P consent" "minted_from P consent input c" using mint_Inr [OF assms] by blast
  then have part: "scope_valid (pn_scope consent)" "set (pc_scope c) \<subseteq> set (pn_scope consent)"
      "set (pc_permissions c) \<subseteq> set (pn_permissions consent)" "\<forall>p \<in> set (pn_permissions consent). rx_test PERMISSION_PATTERN p"
    unfolding consent_valid_def minted_from_def by blast+
  have "entry_ok e" if "e \<in> set (pc_scope c)" for e
    using part(1,2) that hash_trim [of "se_ref e"] by (auto simp: scope_valid_def entry_ok_def)
  then show "\<forall>e \<in> set (pc_scope c). entry_ok e" by blast
  have "text_ok p \<and> to_lower p = p" if "p \<in> set (pc_permissions c)" for p
    using part(3,4) that permission_trim [of p] by (auto simp: text_ok_def)
  then show "\<forall>p \<in> set (pc_permissions c). text_ok p \<and> to_lower p = p" by blast
qed

lemma mint_executes:
  assumes "sha256_length P" and "collation P" and "mintCapability_protocol P clock input check = Inr c"
    and "pc_marketMakerId c \<noteq> Some []" and "four_digit_year t" and "in_interval c t"
    and "isRevoked 0 (pc_capability_hash c) = Inr (Some False)" and "isRevoked 1 (pc_capability_hash c) = Inr (Some False)"
    and "scope \<noteq> []" and "set scope \<subseteq> set (pc_scope c)"
    and "permissions \<noteq> []" and "set permissions \<subseteq> set (pc_permissions c)"
    and "trim adapter \<noteq> []" and "trim operation \<noteq> []"
  shows "\<exists>x. authorizeExecution P clock' (present c scope permissions adapter operation) (Some (Some t))
      (\<lambda>n. createRegistryRevocationCheck (isRevoked n) v k) = Inr x \<and> xt_authorized x"
proof -
  let ?kvs = "present c scope permissions adapter operation" and ?port = "\<lambda>n. createRegistryRevocationCheck (isRevoked n) v k"
  have parses: "parseEnforcementRequest (JObj ?kvs) (Some (Some t)) = Inr \<lparr>er_capability = protocol_capability_json c,
      er_requested_scope = scope, er_requested_permissions = permissions, er_subject = None, er_grantee = None,
      er_marketMakerId = None, er_resource = None, er_action_context = None, er_now = Some (Some t)\<rparr>"
    using minted_requestable [OF assms(3)] assms(9-12) by (intro present_parses) auto
  have "in_interval (c\<lparr>pc_scope := normalizeScope P (pc_scope c)\<rparr>) t" using assms(6) by (simp add: in_interval_def)
  then have "allows (evaluateEnforcement P clock' ?kvs (Some (Some t)) ?port)"
    using parses mint_verifies [OF assms(1-4)] assms(5,7,8,10,12)
    unfolding allows_def by (subst enforcement_granted [OF assms(2)]) (auto simp: request_moment_def)
  moreover have "parseExecutionTarget (get_prop ?kvs ''execution_target'') = Inr (trim adapter, trim operation)"
    using assms(13,14) by (simp add: present_def target_trimmed)
  moreover have "parsePayload (get_prop ?kvs ''payload'') = Inr None" by (simp add: present_def parsePayload_def)
  ultimately show ?thesis
    using authorized_parts [OF assms(2), of clock' ?kvs "Some (Some t)" ?port] unfolding authorizes_def by blast
qed

lemma blank_never_executes:
  assumes "collation P" and "four_digit_year t" and "pc_marketMakerId c = Some []"
  shows "\<not> (\<exists>x. authorizeExecution P clock' (present c scope permissions adapter operation) (Some (Some t))
      (\<lambda>n. createRegistryRevocationCheck (isRevoked n) v k) = Inr x \<and> xt_authorized x)"
proof -
  let ?kvs = "present c scope permissions adapter operation"
  have "\<not> (\<exists>d. evaluateEnforcement P clock' ?kvs (Some (Some t)) (\<lambda>n. createRegistryRevocationCheck (isRevoked n) v k) = Inr d \<and> ef_allowed d)"
    using blank_never_verifies [OF assms(3), of P] assms(2)
    by (subst enforcement_granted [OF assms(1)]) (auto simp: request_moment_def present_def parseRequest_parts [where l = "''Execution''"])
  then show ?thesis using authorized_parts [OF assms(1)] unfolding authorizes_def allows_def by blast
qed

text \<open>
  C11: a minted capability can be used exactly when its market maker is not the blank string: any non-empty part of its scope and
  permissions, presented with a named target while the capability is unrevoked and inside its interval, is authorized for execution,
  and with a blank market maker, which a consent can leave behind, nothing ever is.
\<close>

theorem minted_capability_executes:
  assumes "sha256_length P" and "collation P" and "mintCapability_protocol P clock input check = Inr c"
    and "four_digit_year t" and "in_interval c t"
    and "isRevoked 0 (pc_capability_hash c) = Inr (Some False)" and "isRevoked 1 (pc_capability_hash c) = Inr (Some False)"
    and "scope \<noteq> []" and "set scope \<subseteq> set (pc_scope c)"
    and "permissions \<noteq> []" and "set permissions \<subseteq> set (pc_permissions c)"
    and "trim adapter \<noteq> []" and "trim operation \<noteq> []"
  shows "(\<exists>x. authorizeExecution P clock' (present c scope permissions adapter operation) (Some (Some t))
      (\<lambda>n. createRegistryRevocationCheck (isRevoked n) v k) = Inr x \<and> xt_authorized x) \<longleftrightarrow> pc_marketMakerId c \<noteq> Some []"
proof (cases "pc_marketMakerId c = Some []")
  case True
  then show ?thesis using blank_never_executes [OF assms(2,4) True] by blast
next
  case False
  then show ?thesis using mint_executes [OF assms(1-3) False assms(4,5), where isRevoked = isRevoked, OF assms(6-13)] by blast
qed

section \<open>Witnesses\<close>

lemma minted_capability_executes_witness:
  "\<exists>x. authorizeExecution zero_platform 0 (present sample_capability [sample_entry] [''read''] ''vault'' ''export'')
      (Some (Some 1736951400000)) (\<lambda>n. createRegistryRevocationCheck nothing_revoked None 0) = Inr x \<and> xt_authorized x"
  by (subst minted_capability_executes [OF zero_platform_ok sample_mint_protocol [of 0 None] sample_moments(1) sample_within])
    (simp_all add: sample_capability_def trim_def js_space_def)

lemma execution_is_enforcement_witness:
  "\<not> (\<exists>x. authorizeExecution zero_platform 0 (enforcement_kvs sample_enforcement) (Some (Some 1736951400000))
      (\<lambda>n. createRegistryRevocationCheck nothing_revoked None 0) = Inr x \<and> xt_authorized x)"
  unfolding execution_is_enforcement [OF zero_platform_ok(2)]
  by (simp add: enforcement_kvs_def parseExecutionTarget_def as_object_def)

lemma authorized_contract_is_covered_witness:
  "\<exists>x contract (c :: protocol_capability). authorizeExecution zero_platform 0 (present sample_capability [sample_entry] [''read''] ''vault'' ''export'')
      (Some (Some 1736951400000)) (\<lambda>n. createRegistryRevocationCheck nothing_revoked None 0) = Inr x \<and>
    xt_contract x = Some contract \<and> set (xc_allowed_scope contract) \<subseteq> set (pc_scope c) \<and>
    xc_capability_hash contract = pc_capability_hash c"
proof -
  let ?kvs = "present sample_capability [sample_entry] [''read''] ''vault'' ''export''"
  obtain x where x: "authorizeExecution zero_platform 0 ?kvs (Some (Some 1736951400000))
      (\<lambda>n. createRegistryRevocationCheck nothing_revoked None 0) = Inr x" "xt_authorized x"
    using mint_executes [OF zero_platform_ok sample_mint_protocol [of 0 None] _ sample_moments(1) sample_within,
        of "\<lambda>n. nothing_revoked" "[sample_entry]" "[''read'']" "''vault''" "''export''" 0 None 0]
    by (auto simp: sample_capability_def trim_def js_space_def)
  have "four_digit_year (request_moment 0 (Some (Some 1736951400000)))"
    using sample_moments(1) by (simp add: request_moment_def)
  from authorized_contract_is_covered [OF zero_platform_ok(2) this x] x(1) show ?thesis
    by (elim exE conjE) (intro exI conjI, assumption+)
qed

end
