(* ===== verification/ConsentDecisions.thy ===== *)
theory ConsentDecisions
  imports ProtocolConsent
begin

text \<open>
  \<open>protocol/consent/{types,validate,evaluate}.ts\<close>: the decision about a request under a stored record of
  consent, and \<open>protocol/consent/capability-*.ts\<close>: the signed token that carries an allowing decision, its
  validation and the authorization with it.  Records, requests and tokens come in as values of which nothing is
  known; a type guard is a predicate on values and the narrowed value a record.
\<close>

section \<open>Guards\<close>

definition is_object :: "json \<Rightarrow> bool" where
  "is_object v \<longleftrightarrow> (case v of JObj kvs \<Rightarrow> True | JArr vs \<Rightarrow> True | _ \<Rightarrow> False)"

text \<open>A property of an object; an array has none of the names read here.\<close>

definition member_of :: "json \<Rightarrow> string \<Rightarrow> json" where
  "member_of v f = (case v of JObj kvs \<Rightarrow> get_prop kvs f | _ \<Rightarrow> JUndef)"

definition isNonEmptyString :: "json \<Rightarrow> bool" where
  "isNonEmptyString v \<longleftrightarrow> (case v of JStr s \<Rightarrow> trim s \<noteq> [] | _ \<Rightarrow> False)"

definition isValidIsoDateString :: "platform \<Rightarrow> json \<Rightarrow> bool" where
  "isValidIsoDateString P v \<longleftrightarrow> (case v of JStr s \<Rightarrow> trim s \<noteq> [] \<and> date_of P s \<noteq> None | _ \<Rightarrow> False)"

definition hasValidMetadata :: "json \<Rightarrow> bool" where
  "hasValidMetadata v \<longleftrightarrow> (case v of JUndef \<Rightarrow> True | JObj kvs \<Rightarrow> True | _ \<Rightarrow> False)"

definition isValidConsentRequest :: "platform \<Rightarrow> json \<Rightarrow> bool" where
  "isValidConsentRequest P request \<longleftrightarrow> is_object request \<and>
     isNonEmptyString (member_of request ''subject_id'') \<and> isNonEmptyString (member_of request ''requester_id'') \<and>
     isNonEmptyString (member_of request ''resource'') \<and> isNonEmptyString (member_of request ''action'') \<and>
     isValidIsoDateString P (member_of request ''requested_at'')"

definition valid_actions :: "json \<Rightarrow> bool" where
  "valid_actions v \<longleftrightarrow> (case v of JArr vs \<Rightarrow> vs \<noteq> [] \<and> \<not> list_ex (\<lambda>action. \<not> isNonEmptyString action) vs | _ \<Rightarrow> False)"

definition isValidConsentRecord :: "platform \<Rightarrow> json \<Rightarrow> bool" where
  "isValidConsentRecord P consent \<longleftrightarrow> is_object consent \<and>
     isNonEmptyString (member_of consent ''consent_id'') \<and> isNonEmptyString (member_of consent ''subject_id'') \<and>
     isNonEmptyString (member_of consent ''requester_id'') \<and> isNonEmptyString (member_of consent ''resource'') \<and>
     (case member_of consent ''granted'' of JBool b \<Rightarrow> True | _ \<Rightarrow> False) \<and> isValidIsoDateString P (member_of consent ''created_at'') \<and>
     valid_actions (member_of consent ''actions'') \<and>
     (member_of consent ''expires_at'' = JNull \<or> isValidIsoDateString P (member_of consent ''expires_at'')) \<and>
     (member_of consent ''revoked_at'' = JNull \<or> isValidIsoDateString P (member_of consent ''revoked_at'')) \<and>
     (member_of consent ''consent_hash'' = JNull \<or> isNonEmptyString (member_of consent ''consent_hash'')) \<and>
     hasValidMetadata (member_of consent ''metadata'')"

section \<open>Narrowed values\<close>

record consent_request =
  cq_subject_id :: string
  cq_requester_id :: string
  cq_resource :: string
  cq_action :: string
  cq_requested_at :: string

record consent_record =
  cr_consent_id :: string
  cr_subject_id :: string
  cr_requester_id :: string
  cr_resource :: string
  cr_actions :: "string list"
  cr_granted :: bool
  cr_created_at :: string
  cr_expires_at :: "string option"
  cr_revoked_at :: "string option"

definition text_of :: "json \<Rightarrow> string" where
  "text_of v = (case v of JStr s \<Rightarrow> s | _ \<Rightarrow> [])"

definition nullable_text :: "json \<Rightarrow> string option" where
  "nullable_text v = (case v of JStr s \<Rightarrow> Some s | _ \<Rightarrow> None)"

definition the_request :: "json \<Rightarrow> consent_request" where
  "the_request v = \<lparr>cq_subject_id = text_of (member_of v ''subject_id''), cq_requester_id = text_of (member_of v ''requester_id''),
     cq_resource = text_of (member_of v ''resource''), cq_action = text_of (member_of v ''action''),
     cq_requested_at = text_of (member_of v ''requested_at'')\<rparr>"

definition the_record :: "json \<Rightarrow> consent_record" where
  "the_record v = \<lparr>cr_consent_id = text_of (member_of v ''consent_id''), cr_subject_id = text_of (member_of v ''subject_id''),
     cr_requester_id = text_of (member_of v ''requester_id''), cr_resource = text_of (member_of v ''resource''),
     cr_actions = (case member_of v ''actions'' of JArr vs \<Rightarrow> map text_of vs | _ \<Rightarrow> []),
     cr_granted = (member_of v ''granted'' = JBool True), cr_created_at = text_of (member_of v ''created_at''),
     cr_expires_at = nullable_text (member_of v ''expires_at''), cr_revoked_at = nullable_text (member_of v ''revoked_at'')\<rparr>"

section \<open>Decisions\<close>

record consent_decision =
  cd_allowed :: bool
  cd_reason_code :: string
  cd_evaluated_at :: string
  cd_consent_id :: "string option"

definition toDecision :: "bool \<Rightarrow> string \<Rightarrow> string \<Rightarrow> string option \<Rightarrow> consent_decision" where
  "toDecision allowed reason_code evaluated_at consent_id =
     \<lparr>cd_allowed = allowed, cd_reason_code = reason_code, cd_evaluated_at = evaluated_at, cd_consent_id = consent_id\<rparr>"

definition resolveEvaluatedAt :: "platform \<Rightarrow> json \<Rightarrow> string result" where
  "resolveEvaluatedAt P request = (case member_of request ''requested_at'' of
     JStr s \<Rightarrow> (if date_of P s \<noteq> None then to_iso_string (date_of P s) else Inr ''1970-01-01T00:00:00.000Z'')
   | _ \<Rightarrow> Inr ''1970-01-01T00:00:00.000Z'')"

definition resolveConsentId :: "json \<Rightarrow> string option" where
  "resolveConsentId consent = (case member_of consent ''consent_id'' of
     JStr s \<Rightarrow> (if trim s \<noteq> [] then Some s else None) | _ \<Rightarrow> None)"

definition decide :: "platform \<Rightarrow> consent_request \<Rightarrow> consent_record \<Rightarrow> string" where
  "decide P request consent =
     (let requestedAt = date_of P (cq_requested_at request); createdAt = date_of P (cr_created_at consent) in
      if cq_subject_id request \<noteq> cr_subject_id consent then ''DENY_SUBJECT_MISMATCH''
      else if cq_requester_id request \<noteq> cr_requester_id consent then ''DENY_REQUESTER_MISMATCH''
      else if cq_resource request \<noteq> cr_resource consent then ''DENY_RESOURCE_MISMATCH''
      else if \<not> cr_granted consent then ''DENY_NOT_GRANTED''
      else if cq_action request \<notin> set (cr_actions consent) then ''DENY_ACTION_NOT_GRANTED''
      else if time_less requestedAt createdAt then ''DENY_INVALID_INPUT''
      else if (case cr_revoked_at consent of None \<Rightarrow> False | Some r \<Rightarrow> time_at_least requestedAt (date_of P r)) then ''DENY_REVOKED''
      else if (case cr_expires_at consent of None \<Rightarrow> False | Some e \<Rightarrow> time_at_least requestedAt (date_of P e)) then ''DENY_EXPIRED''
      else ''ALLOW'')"

definition evaluateConsent :: "platform \<Rightarrow> json \<Rightarrow> json \<Rightarrow> consent_decision result" where
  "evaluateConsent P request consent =
     bind_result (resolveEvaluatedAt P request) (\<lambda>evaluatedAt.
       let consentId = resolveConsentId consent in Inr (
       if \<not> isValidConsentRequest P request then toDecision False ''DENY_INVALID_INPUT'' evaluatedAt consentId
       else if consent = JNull \<or> consent = JUndef then toDecision False ''DENY_NO_CONSENT'' evaluatedAt None
       else if \<not> isValidConsentRecord P consent then toDecision False ''DENY_INVALID_INPUT'' evaluatedAt consentId
       else (let code = decide P (the_request request) (the_record consent) in
         toDecision (code = ''ALLOW'') code evaluatedAt (Some (cr_consent_id (the_record consent))))))"

section \<open>Claims, their hash and signature\<close>

record capability_claim =
  cc_consent_id :: string
  cc_subject_id :: string
  cc_requester_id :: string
  cc_resource :: string
  cc_action :: string
  cc_issued_at :: string
  cc_expires_at :: "string option"
  cc_nonce :: string

record signed_capability = capability_claim +
  sc_capability_id :: string
  sc_capability_hash :: string
  sc_signature :: string

text \<open>\<open>JSON.stringify\<close> of an array of strings and \<open>null\<close>s.\<close>

definition stringify_array :: "string option list \<Rightarrow> string" where
  "stringify_array xs = ''['' @ join '','' (map (\<lambda>x. case x of None \<Rightarrow> ''null'' | Some s \<Rightarrow> json_quote s) xs) @ '']''"

definition claim_list :: "'a capability_claim_scheme \<Rightarrow> string option list" where
  "claim_list payload = [Some (cc_consent_id payload), Some (cc_subject_id payload), Some (cc_requester_id payload),
     Some (cc_resource payload), Some (cc_action payload), Some (cc_issued_at payload), cc_expires_at payload,
     Some (cc_nonce payload)]"

definition canonicalizeClaims :: "'a capability_claim_scheme \<Rightarrow> string" where
  "canonicalizeClaims payload = stringify_array (claim_list payload)"

definition hashCapabilityPayload :: "platform \<Rightarrow> 'a capability_claim_scheme \<Rightarrow> string" where
  "hashCapabilityPayload P payload = sha256Hex P (utf8_encode (canonicalizeClaims payload))"

text \<open>HMAC (RFC 2104) over the platform's SHA-256, whose blocks have 64 bytes.\<close>

definition hmac_key :: "platform \<Rightarrow> bytes \<Rightarrow> bytes" where
  "hmac_key P key = (let k = (if length key > 64 then sha256 P key else key) in k @ replicate (64 - length k) 0)"

definition hmac_sha256 :: "platform \<Rightarrow> bytes \<Rightarrow> bytes \<Rightarrow> bytes" where
  "hmac_sha256 P key message =
     (let k = hmac_key P key in
      sha256 P (map (\<lambda>b. xor b 0x5c) k @ sha256 P (map (\<lambda>b. xor b 0x36) k @ message)))"

definition signCapabilityHash :: "platform \<Rightarrow> string \<Rightarrow> string \<Rightarrow> string" where
  "signCapabilityHash P capabilityHash secret =
     hex_encode (hmac_sha256 P (utf8_encode secret) (utf8_encode capabilityHash))"

section \<open>Issuance\<close>

definition deriveNonce :: "platform \<Rightarrow> consent_record \<Rightarrow> consent_request \<Rightarrow> consent_decision \<Rightarrow> string" where
  "deriveNonce P consent request decision = sha256Hex P (utf8_encode (stringify_array [Some (cr_consent_id consent),
     Some (cq_subject_id request), Some (cq_requester_id request), Some (cq_resource request), Some (cq_action request),
     Some (cq_requested_at request), Some (cd_evaluated_at decision)]))"

definition assertIssuable :: "platform \<Rightarrow> json \<Rightarrow> json \<Rightarrow> consent_decision \<Rightarrow> string \<Rightarrow> throws" where
  "assertIssuable P consent request decision secret =
     (let c = the_record consent; r = the_request request in first_throw [
     throw_if (\<not> isValidConsentRecord P consent \<or> \<not> isValidConsentRequest P request) ''INVALID_INPUT'',
     throw_if (trim secret = []) ''INVALID_INPUT'',
     throw_if (\<not> isValidIsoDateString P (JStr (cd_evaluated_at decision))) ''INVALID_INPUT'',
     throw_if (\<not> cd_allowed decision \<or> cd_reason_code decision \<noteq> ''ALLOW'') ''DECISION_NOT_ALLOWED'',
     throw_if (cd_consent_id decision \<noteq> Some (cr_consent_id c)) ''CONSENT_MISMATCH'',
     throw_if (cq_subject_id r \<noteq> cr_subject_id c) ''SUBJECT_MISMATCH'',
     throw_if (cq_requester_id r \<noteq> cr_requester_id c) ''REQUESTER_MISMATCH'',
     throw_if (cq_resource r \<noteq> cr_resource c) ''RESOURCE_MISMATCH'',
     throw_if (cq_action r \<notin> set (cr_actions c)) ''ACTION_MISMATCH''])"

definition issueCapabilityToken :: "platform \<Rightarrow> json \<Rightarrow> json \<Rightarrow> consent_decision \<Rightarrow> string \<Rightarrow> signed_capability result" where
  "issueCapabilityToken P consent request decision secret =
     after (assertIssuable P consent request decision secret)
     (bind_result (to_iso_string (date_of P (cd_evaluated_at decision))) (\<lambda>issuedAt.
      let c = the_record consent; r = the_request request;
        payload = \<lparr>cc_consent_id = cr_consent_id c, cc_subject_id = cq_subject_id r, cc_requester_id = cq_requester_id r,
          cc_resource = cq_resource r, cc_action = cq_action r, cc_issued_at = issuedAt, cc_expires_at = cr_expires_at c,
          cc_nonce = deriveNonce P c r decision\<rparr>;
        capabilityHash = hashCapabilityPayload P payload
      in Inr (capability_claim.extend payload \<lparr>sc_capability_id = capabilityHash, sc_capability_hash = capabilityHash,
        sc_signature = signCapabilityHash P capabilityHash secret\<rparr>)))"

section \<open>Validation\<close>

definition isCapabilityTokenShape :: "platform \<Rightarrow> json \<Rightarrow> bool" where
  "isCapabilityTokenShape P token \<longleftrightarrow> is_object token \<and>
     isNonEmptyString (member_of token ''capability_id'') \<and> isNonEmptyString (member_of token ''consent_id'') \<and>
     isNonEmptyString (member_of token ''subject_id'') \<and> isNonEmptyString (member_of token ''requester_id'') \<and>
     isNonEmptyString (member_of token ''resource'') \<and> isNonEmptyString (member_of token ''action'') \<and>
     isValidIsoDateString P (member_of token ''issued_at'') \<and>
     (member_of token ''expires_at'' = JNull \<or> isValidIsoDateString P (member_of token ''expires_at'')) \<and>
     isNonEmptyString (member_of token ''nonce'') \<and> isNonEmptyString (member_of token ''capability_hash'') \<and>
     isNonEmptyString (member_of token ''signature'') \<and> hasValidMetadata (member_of token ''metadata'')"

definition the_token :: "json \<Rightarrow> signed_capability" where
  "the_token v = \<lparr>cc_consent_id = text_of (member_of v ''consent_id''), cc_subject_id = text_of (member_of v ''subject_id''),
     cc_requester_id = text_of (member_of v ''requester_id''), cc_resource = text_of (member_of v ''resource''),
     cc_action = text_of (member_of v ''action''), cc_issued_at = text_of (member_of v ''issued_at''),
     cc_expires_at = nullable_text (member_of v ''expires_at''), cc_nonce = text_of (member_of v ''nonce''),
     sc_capability_id = text_of (member_of v ''capability_id''), sc_capability_hash = text_of (member_of v ''capability_hash''),
     sc_signature = text_of (member_of v ''signature'')\<rparr>"

text \<open>The reason code; the result is valid exactly with \<open>VALID\<close>.\<close>

definition validateSignedToken :: "platform \<Rightarrow> int \<Rightarrow> json \<Rightarrow> string \<Rightarrow> bool \<times> string" where
  "validateSignedToken P clock token secret =
     (let t = the_token token; expectedHash = hashCapabilityPayload P t in
      if \<not> isCapabilityTokenShape P token \<or> trim secret = [] then (False, ''INVALID_INPUT'')
      else if expectedHash \<noteq> sc_capability_hash t then (False, ''INVALID_HASH'')
      else if signCapabilityHash P expectedHash secret \<noteq> sc_signature t then (False, ''INVALID_SIGNATURE'')
      else if (case cc_expires_at t of None \<Rightarrow> False | Some e \<Rightarrow> time_at_least (Some clock) (date_of P e)) then (False, ''EXPIRED'')
      else (True, ''VALID''))"

section \<open>Authorization\<close>

record authorization_request =
  ar_consent_id :: "string option"
  ar_subject_id :: string
  ar_requester_id :: string
  ar_resource :: string
  ar_action :: string

record authorization_result =
  az_allowed :: bool
  az_reason_code :: string
  az_evaluated_at :: string
  az_capability_id :: "string option"

definition deny_authorization :: "int \<Rightarrow> string \<Rightarrow> string option \<Rightarrow> authorization_result result" where
  "deny_authorization clock reason_code capability_id = bind_result (to_iso_string (Some clock)) (\<lambda>evaluated_at.
     Inr \<lparr>az_allowed = False, az_reason_code = reason_code, az_evaluated_at = evaluated_at, az_capability_id = capability_id\<rparr>)"

definition authorizeWithCapability ::
  "platform \<Rightarrow> int \<Rightarrow> authorization_request \<Rightarrow> json \<Rightarrow> string \<Rightarrow> authorization_result result" where
  "authorizeWithCapability P clock request token secret =
     (let t = the_token token; mismatch = (\<lambda>code. deny_authorization clock code (Some (sc_capability_id t))) in
      if \<not> fst (validateSignedToken P clock token secret) \<or> \<not> is_object token
      then deny_authorization clock ''DENY_INVALID_CAPABILITY'' None
      else if ar_consent_id request \<noteq> None \<and> ar_consent_id request \<noteq> Some (cc_consent_id t) then mismatch ''CONSENT_MISMATCH''
      else if ar_subject_id request \<noteq> cc_subject_id t then mismatch ''SUBJECT_MISMATCH''
      else if ar_requester_id request \<noteq> cc_requester_id t then mismatch ''REQUESTER_MISMATCH''
      else if ar_resource request \<noteq> cc_resource t then mismatch ''RESOURCE_MISMATCH''
      else if ar_action request \<noteq> cc_action t then mismatch ''ACTION_MISMATCH''
      else bind_result (to_iso_string (Some clock)) (\<lambda>evaluated_at.
        Inr \<lparr>az_allowed = True, az_reason_code = ''ALLOW'', az_evaluated_at = evaluated_at,
          az_capability_id = Some (sc_capability_id t)\<rparr>))"

section \<open>Lemmas\<close>

subsection \<open>Dates\<close>

text \<open>What \<open>toISOString\<close> prints is read back.\<close>

lemma iso_millis_parse:
  assumes "four_digit_year t" and "to_iso_string (Some t) = Inr s"
  shows "iso_parse s = Some t" and "trim s \<noteq> []"
proof -
  let ?f = "stamp_of t" and ?m = "pad 3 (nat (t mod 1000))"
  note f = stamp_of_valid [OF assms(1)]
  have Z: "iso_string ?f = take 19 (iso_string ?f) @ ''Z''" by (cases ?f) simp
  have s: "s = take 19 (iso_string ?f) @ ''.'' @ ?m @ ''Z''"
    using assms(2) to_iso_string_four_digit [OF assms(1)] by simp
  have len: "length s = 24" by (simp add: s)
  have head: "take 19 s = take 19 (iso_string ?f)" by (simp add: s)
  then have stamp: "take 19 s @ ''Z'' = iso_string ?f" using Z by simp
  have not_short: "\<not> rx_test ISO8601_UTC_PATTERN s"
    using iso_pattern_fields(1) [of s] len length_iso_string [of "iso_fields s"] by fastforce
  have parts: "s ! 19 = CHR ''.''" "take 3 (drop 20 s) = ?m" "s ! 23 = CHR ''Z''"
    by (simp_all add: s nth_append)
  have fields: "iso_fields s = iso_fields (iso_string ?f)"
    using head unfolding iso_fields_def by (simp add: s take_drop)
  have ms: "int (read_nat ?m) = t mod 1000" by (subst read_pad) (simp_all add: nat_less_iff)
  have "t div 1000 * 1000 + t mod 1000 = t" by simp
  moreover have "\<forall>c \<in> set ?m. dec_digit c" using pad_digits by blast
  moreover have "(case ?f of (y, mo, d, h, mi, se) \<Rightarrow> h = 24 \<longrightarrow> read_nat ?m = 0)"
    using f(4) by (cases ?f) simp
  ultimately show "iso_parse s = Some t"
    unfolding iso_parse_def using not_short
    by (simp only: len parts stamp iso_pattern_string iso_fields_string [OF f(2)] f(1,3) fields ms) simp
  have "CHR ''Z'' \<in> set s" by (simp add: s)
  moreover have "\<not> js_space (CHR ''Z'')" by (simp add: js_space_def)
  ultimately show "trim s \<noteq> []" unfolding trim_eq_Nil by blast
qed

lemma date_of_millis: "four_digit_year t \<Longrightarrow> to_iso_string (Some t) = Inr s \<Longrightarrow> date_of P s = Some t \<and> trim s \<noteq> []"
  using iso_millis_parse by (simp add: date_of_def date_parse_def)

lemma time_less_iff: "time_less a b \<longleftrightarrow> (\<exists>x y. a = Some x \<and> b = Some y \<and> x < y)"
  by (cases a; cases b) simp_all

lemma time_at_least_iff: "time_at_least a b \<longleftrightarrow> (\<exists>x y. a = Some x \<and> b = Some y \<and> x \<ge> y)"
  by (cases a; cases b) simp_all

subsection \<open>Guards and narrowed values\<close>

lemma isNonEmptyString_iff: "isNonEmptyString v \<longleftrightarrow> (\<exists>s. v = JStr s \<and> trim s \<noteq> [])"
  by (cases v) (auto simp: isNonEmptyString_def)

lemma isValidIsoDateString_iff: "isValidIsoDateString P v \<longleftrightarrow> (\<exists>s. v = JStr s \<and> trim s \<noteq> [] \<and> date_of P s \<noteq> None)"
  by (cases v) (auto simp: isValidIsoDateString_def)

lemma text_of_JStr [simp]: "text_of (JStr s) = s" "nullable_text (JStr s) = Some s" "nullable_text JNull = None"
  by (simp_all add: text_of_def nullable_text_def)

lemma request_dated: "isValidConsentRequest P v \<Longrightarrow> date_of P (cq_requested_at (the_request v)) \<noteq> None"
  by (auto simp: isValidConsentRequest_def isValidIsoDateString_iff the_request_def)

definition dated :: "platform \<Rightarrow> string option \<Rightarrow> bool" where
  "dated P x \<longleftrightarrow> (case x of None \<Rightarrow> True | Some s \<Rightarrow> trim s \<noteq> [] \<and> date_of P s \<noteq> None)"

lemma record_dated:
  assumes "isValidConsentRecord P v"
  shows "date_of P (cr_created_at (the_record v)) \<noteq> None" and "dated P (cr_expires_at (the_record v))"
    and "dated P (cr_revoked_at (the_record v))"
  using assms by (auto simp: isValidConsentRecord_def isValidIsoDateString_iff the_record_def dated_def)

subsection \<open>Decisions\<close>

text \<open>The moment a timestamp that is there is before.\<close>

definition before :: "platform \<Rightarrow> int \<Rightarrow> string option \<Rightarrow> bool" where
  "before P t x \<longleftrightarrow> (\<forall>s u. x = Some s \<longrightarrow> date_of P s = Some u \<longrightarrow> t < u)"

text \<open>What a consent grants: the request at the moment \<open>t\<close>.\<close>

definition grants :: "platform \<Rightarrow> consent_record \<Rightarrow> consent_request \<Rightarrow> int \<Rightarrow> bool" where
  "grants P c r t \<longleftrightarrow> cq_subject_id r = cr_subject_id c \<and> cq_requester_id r = cr_requester_id c \<and>
     cq_resource r = cr_resource c \<and> cr_granted c \<and> cq_action r \<in> set (cr_actions c) \<and>
     (\<exists>k. date_of P (cr_created_at c) = Some k \<and> k \<le> t) \<and> before P t (cr_revoked_at c) \<and> before P t (cr_expires_at c)"

lemma decide_ALLOW:
  assumes "date_of P (cq_requested_at r) = Some t" and "date_of P (cr_created_at c) \<noteq> None"
    and "dated P (cr_expires_at c)" and "dated P (cr_revoked_at c)"
  shows "decide P r c = ''ALLOW'' \<longleftrightarrow> grants P c r t"
proof -
  have "(case x of None \<Rightarrow> False | Some s \<Rightarrow> time_at_least (Some t) (date_of P s)) \<longleftrightarrow> \<not> before P t x" if "dated P x" for x
    using that by (auto simp: dated_def before_def time_at_least_iff not_less split: option.splits)
  note this [OF assms(3)] this [OF assms(4)]
  moreover have "time_less (Some t) (date_of P (cr_created_at c)) \<longleftrightarrow> \<not> (\<exists>k. date_of P (cr_created_at c) = Some k \<and> k \<le> t)"
    using assms(2) by (auto simp: time_less_iff not_le)
  ultimately show ?thesis by (simp add: decide_def Let_def assms(1) grants_def)
qed

lemma evaluate_allows:
  "(\<exists>d. evaluateConsent P request consent = Inr d \<and> cd_allowed d) \<longleftrightarrow>
   isValidConsentRequest P request \<and> isValidConsentRecord P consent \<and>
   (\<exists>t. date_of P (cq_requested_at (the_request request)) = Some t \<and> grants P (the_record consent) (the_request request) t)"
proof -
  have "\<exists>u. resolveEvaluatedAt P request = Inr u"
    using to_iso_string_total by (auto simp: resolveEvaluatedAt_def split: json.splits)
  then obtain u where u: "resolveEvaluatedAt P request = Inr u" by blast
  have "isValidConsentRecord P consent \<Longrightarrow> consent \<noteq> JNull \<and> consent \<noteq> JUndef"
    by (auto simp: isValidConsentRecord_def is_object_def)
  then show ?thesis
    using request_dated [of P request] record_dated [of P consent] decide_ALLOW [of P "the_request request" _ "the_record consent"]
    by (auto simp: evaluateConsent_def u toDecision_def Let_def)
qed

subsection \<open>Hash and signature\<close>

lemma hex_nonempty: "sha256_length P \<Longrightarrow> trim (sha256Hex P x) \<noteq> []"
  using sha256Hex_hash_hex hash_trim by metis

lemma signature_hex: "signCapabilityHash P h k = sha256Hex P
    (map (\<lambda>b. xor b 0x5c) (hmac_key P (utf8_encode k)) @ sha256 P (map (\<lambda>b. xor b 0x36) (hmac_key P (utf8_encode k)) @ utf8_encode h))"
  by (simp add: signCapabilityHash_def hmac_sha256_def Let_def sha256Hex_def)

text \<open>The text of the claims determines them.\<close>

lemma stringify_canonical: "canonicalizeJSON (JArr (map json_opt xs)) = Inr (stringify_array xs)"
proof -
  have "map_result canonicalizeJSON (map json_opt xs) = Inr (map (\<lambda>x. case x of None \<Rightarrow> ''null'' | Some s \<Rightarrow> json_quote s) xs)"
    by (induction xs) (auto simp: json_opt_def split: option.splits)
  then show ?thesis by (simp add: stringify_array_def)
qed

lemma null_text_inj: "json_opt x = json_opt y \<longleftrightarrow> x = y"
  by (auto simp: json_opt_def split: option.splits)

lemma stringify_inj:
  assumes "stringify_array xs = stringify_array ys"
  shows "xs = ys"
proof -
  have canon: "canon (JArr (map json_opt zs)) = JArr (map json_opt zs)" "plain (JArr (map json_opt zs))" for zs
    by (auto simp: json_opt_def split: option.splits)
  have "canonicalizeJSON (JArr (map json_opt xs)) = canonicalizeJSON (JArr (map json_opt ys))"
    using assms by (simp only: stringify_canonical)
  then have "map json_opt xs = map json_opt ys"
    using canonicalize_inj [OF canon(2) canon(2), of xs _ ys] stringify_canonical canon(1) by (metis json.inject(4))
  then show ?thesis by (simp add: null_text_inj inj_map_eq_map inj_def)
qed

lemma claims_commit:
  assumes "hashCapabilityPayload P t = hashCapabilityPayload P u"
  shows "claim_list t = claim_list u \<or>
    collides P (utf8_encode (canonicalizeClaims t)) (utf8_encode (canonicalizeClaims u))"
  using assms sha256Hex_inj utf8_encode_inj stringify_inj
  unfolding hashCapabilityPayload_def canonicalizeClaims_def by blast

subsection \<open>Tokens as values\<close>

definition token_json :: "signed_capability \<Rightarrow> json" where
  "token_json t = JObj [
     (''capability_id'', JStr (sc_capability_id t)), (''consent_id'', JStr (cc_consent_id t)),
     (''subject_id'', JStr (cc_subject_id t)), (''requester_id'', JStr (cc_requester_id t)),
     (''resource'', JStr (cc_resource t)), (''action'', JStr (cc_action t)), (''issued_at'', JStr (cc_issued_at t)),
     (''expires_at'', json_opt (cc_expires_at t)), (''nonce'', JStr (cc_nonce t)),
     (''capability_hash'', JStr (sc_capability_hash t)), (''signature'', JStr (sc_signature t))]"

lemma token_json_simps [simp]: "the_token (token_json t) = t" "is_object (token_json t)"
proof -
  have "nullable_text (json_opt x) = x" for x by (cases x) (simp_all add: json_opt_def)
  then show "the_token (token_json t) = t" by (cases t) (simp add: the_token_def token_json_def member_of_def)
  show "is_object (token_json t)" by (simp add: token_json_def is_object_def)
qed

lemma token_json_shape: "isCapabilityTokenShape P (token_json t) \<longleftrightarrow> trim (sc_capability_id t) \<noteq> [] \<and>
    trim (cc_consent_id t) \<noteq> [] \<and> trim (cc_subject_id t) \<noteq> [] \<and> trim (cc_requester_id t) \<noteq> [] \<and>
    trim (cc_resource t) \<noteq> [] \<and> trim (cc_action t) \<noteq> [] \<and> trim (cc_issued_at t) \<noteq> [] \<and> date_of P (cc_issued_at t) \<noteq> None \<and>
    dated P (cc_expires_at t) \<and> trim (cc_nonce t) \<noteq> [] \<and> trim (sc_capability_hash t) \<noteq> [] \<and> trim (sc_signature t) \<noteq> []"
  by (cases "cc_expires_at t") (auto simp: isCapabilityTokenShape_def token_json_def is_object_def member_of_def
    isNonEmptyString_def isValidIsoDateString_def hasValidMetadata_def dated_def json_opt_def)

lemma validate_VALID: "fst (validateSignedToken P clock v secret) \<longleftrightarrow> isCapabilityTokenShape P v \<and> trim secret \<noteq> [] \<and>
    hashCapabilityPayload P (the_token v) = sc_capability_hash (the_token v) \<and>
    signCapabilityHash P (sc_capability_hash (the_token v)) secret = sc_signature (the_token v) \<and>
    \<not> (case cc_expires_at (the_token v) of None \<Rightarrow> False | Some e \<Rightarrow> time_at_least (Some clock) (date_of P e))"
  by (auto simp: validateSignedToken_def Let_def)

lemma authorize_allows:
  "(\<exists>z. authorizeWithCapability P clock ar v secret = Inr z \<and> az_allowed z) \<longleftrightarrow> fst (validateSignedToken P clock v secret) \<and>
     (ar_consent_id ar = None \<or> ar_consent_id ar = Some (cc_consent_id (the_token v))) \<and>
     ar_subject_id ar = cc_subject_id (the_token v) \<and> ar_requester_id ar = cc_requester_id (the_token v) \<and>
     ar_resource ar = cc_resource (the_token v) \<and> ar_action ar = cc_action (the_token v)"
proof -
  obtain u where u: "to_iso_string (Some clock) = Inr u" using to_iso_string_total by blast
  have deny: "\<exists>z. deny_authorization clock code i = Inr z \<and> \<not> az_allowed z" for code i
    by (simp add: deny_authorization_def u)
  have object: "fst (validateSignedToken P clock v secret) \<Longrightarrow> is_object v"
    by (simp add: validate_VALID isCapabilityTokenShape_def)
  show ?thesis using deny object
    by (auto simp: authorizeWithCapability_def Let_def u deny_authorization_def)
qed

subsection \<open>From a decision to a token\<close>

lemma allowed_decision:
  assumes "evaluateConsent P request consent = Inr d" and "cd_allowed d"
    and "date_of P (cq_requested_at (the_request request)) = Some t"
  shows "to_iso_string (Some t) = Inr (cd_evaluated_at d)" and "cd_reason_code d = ''ALLOW''"
    and "cd_consent_id d = Some (cr_consent_id (the_record consent))"
    and "isValidConsentRequest P request" and "isValidConsentRecord P consent"
    and "grants P (the_record consent) (the_request request) t"
proof -
  obtain u where u: "resolveEvaluatedAt P request = Inr u" using assms(1) by (auto simp: evaluateConsent_def result_simps)
  have valid: "isValidConsentRequest P request" "isValidConsentRecord P consent"
      "grants P (the_record consent) (the_request request) t"
    using evaluate_allows [of P request consent] assms by auto
  then show "isValidConsentRequest P request" "isValidConsentRecord P consent"
    "grants P (the_record consent) (the_request request) t" by simp_all
  obtain s where "member_of request ''requested_at'' = JStr s" using valid(1)
    by (auto simp: isValidConsentRequest_def isValidIsoDateString_iff)
  then have "to_iso_string (Some t) = Inr u" using u assms(3) by (simp add: resolveEvaluatedAt_def the_request_def)
  then show "to_iso_string (Some t) = Inr (cd_evaluated_at d)" "cd_reason_code d = ''ALLOW''"
      "cd_consent_id d = Some (cr_consent_id (the_record consent))"
    using assms(1,2) u by (auto simp: evaluateConsent_def toDecision_def Let_def split: if_splits)
qed

text \<open>The token of a decision: what it claims, and that it validates until the consent expires.\<close>

lemma decision_issues:
  assumes "sha256_length P" and "trim secret \<noteq> []" and "evaluateConsent P request consent = Inr d" and "cd_allowed d"
    and "date_of P (cq_requested_at (the_request request)) = Some t" and "four_digit_year t"
  shows "\<exists>token. issueCapabilityToken P consent request d secret = Inr token \<and>
    cc_consent_id token = cr_consent_id (the_record consent) \<and> cc_subject_id token = cq_subject_id (the_request request) \<and>
    cc_requester_id token = cq_requester_id (the_request request) \<and> cc_resource token = cq_resource (the_request request) \<and>
    cc_action token = cq_action (the_request request) \<and> cc_expires_at token = cr_expires_at (the_record consent) \<and>
    (fst (validateSignedToken P clock (token_json token) secret) \<longleftrightarrow> before P clock (cr_expires_at (the_record consent)))"
proof -
  let ?c = "the_record consent" and ?r = "the_request request"
  note d = allowed_decision [OF assms(3-5)]
  note at = date_of_millis [OF assms(6) d(1), of P]
  have "assertIssuable P consent request d secret = None"
    using d assms(2,4) at by (simp add: assertIssuable_def throws_simps Let_def isValidIsoDateString_def grants_def)
  moreover have "to_iso_string (date_of P (cd_evaluated_at d)) = Inr (cd_evaluated_at d)" using at d(1) by simp
  moreover define payload where "payload = \<lparr>cc_consent_id = cr_consent_id ?c, cc_subject_id = cq_subject_id ?r,
    cc_requester_id = cq_requester_id ?r, cc_resource = cq_resource ?r, cc_action = cq_action ?r,
    cc_issued_at = cd_evaluated_at d, cc_expires_at = cr_expires_at ?c, cc_nonce = deriveNonce P ?c ?r d\<rparr>"
  moreover define token where "token = capability_claim.extend payload \<lparr>sc_capability_id = hashCapabilityPayload P payload,
    sc_capability_hash = hashCapabilityPayload P payload,
    sc_signature = signCapabilityHash P (hashCapabilityPayload P payload) secret\<rparr>"
  ultimately have issued: "issueCapabilityToken P consent request d secret = Inr token"
    by (simp add: issueCapabilityToken_def Let_def)
  note fields = token_def payload_def capability_claim.defs
  have hash: "hashCapabilityPayload P token = hashCapabilityPayload P payload"
    by (simp add: hashCapabilityPayload_def canonicalizeClaims_def claim_list_def fields)
  have texts: "trim (cr_consent_id ?c) \<noteq> []" "trim (cq_subject_id ?r) \<noteq> []" "trim (cq_requester_id ?r) \<noteq> []"
      "trim (cq_resource ?r) \<noteq> []" "trim (cq_action ?r) \<noteq> []"
    using d(4,5) by (auto simp: isValidConsentRequest_def isValidConsentRecord_def isNonEmptyString_iff the_request_def the_record_def)
  have expiry: "dated P (cr_expires_at ?c)" by (rule record_dated(2) [OF d(5)])
  have shape: "isCapabilityTokenShape P (token_json token)"
    unfolding token_json_shape using texts expiry at hex_nonempty [OF assms(1)]
    by (simp add: fields hashCapabilityPayload_def deriveNonce_def signature_hex)
  have "fst (validateSignedToken P clock (token_json token) secret) \<longleftrightarrow>
      \<not> (case cr_expires_at ?c of None \<Rightarrow> False | Some e \<Rightarrow> time_at_least (Some clock) (date_of P e))"
    unfolding validate_VALID token_json_simps using shape assms(2) hash by (simp add: fields)
  also have "\<dots> \<longleftrightarrow> before P clock (cr_expires_at ?c)"
    using expiry by (auto simp: dated_def before_def time_at_least_iff not_less split: option.splits)
  finally show ?thesis using issued by (intro exI [of _ token] conjI) (simp_all add: fields)
qed

section \<open>Properties\<close>

text \<open>
  C13: an allowing decision carries over to access: the token issued for it is accepted with the secret exactly
  before the consent expires, and then authorizes exactly the subject, requester, resource and action that were
  decided on, for the consent or without naming one.
\<close>

theorem decision_carries_access:
  assumes "sha256_length P" and "trim secret \<noteq> []" and "evaluateConsent P request consent = Inr d" and "cd_allowed d"
    and "date_of P (cq_requested_at (the_request request)) = Some t" and "four_digit_year t"
  shows "\<exists>token. issueCapabilityToken P consent request d secret = Inr token \<and>
    (\<forall>clock ar. (\<exists>z. authorizeWithCapability P clock ar (token_json token) secret = Inr z \<and> az_allowed z) \<longleftrightarrow>
       before P clock (cr_expires_at (the_record consent)) \<and>
       (ar_consent_id ar = None \<or> ar_consent_id ar = Some (cr_consent_id (the_record consent))) \<and>
       ar_subject_id ar = cq_subject_id (the_request request) \<and> ar_requester_id ar = cq_requester_id (the_request request) \<and>
       ar_resource ar = cq_resource (the_request request) \<and> ar_action ar = cq_action (the_request request))"
proof -
  obtain token where token: "issueCapabilityToken P consent request d secret = Inr token"
    using decision_issues [OF assms] by blast
  have "\<exists>token'. issueCapabilityToken P consent request d secret = Inr token' \<and>
    cc_consent_id token' = cr_consent_id (the_record consent) \<and> cc_subject_id token' = cq_subject_id (the_request request) \<and>
    cc_requester_id token' = cq_requester_id (the_request request) \<and> cc_resource token' = cq_resource (the_request request) \<and>
    cc_action token' = cq_action (the_request request) \<and> cc_expires_at token' = cr_expires_at (the_record consent) \<and>
    (fst (validateSignedToken P clock (token_json token') secret) \<longleftrightarrow> before P clock (cr_expires_at (the_record consent)))" for clock
    by (rule decision_issues [OF assms])
  then show ?thesis
    unfolding authorize_allows token_json_simps using token by (intro exI [of _ token]) auto
qed

text \<open>
  a consent record decides in favour of a request exactly when both can be read, the request is the granted one
  and its moment is not before the record was made, and before its revocation and expiry.
\<close>

theorem consent_decision_iff:
  "(\<exists>d. evaluateConsent P request consent = Inr d \<and> cd_allowed d) \<longleftrightarrow>
   isValidConsentRequest P request \<and> isValidConsentRecord P consent \<and>
   (\<exists>t. date_of P (cq_requested_at (the_request request)) = Some t \<and> grants P (the_record consent) (the_request request) t)"
  by (rule evaluate_allows)

text \<open>
  a signature covers the claims: two tokens accepted with the same hash claim the same, unless the texts of
  their claims are a SHA-256 collision.
\<close>

theorem signed_claims_commit:
  assumes "fst (validateSignedToken P clock v secret)" and "fst (validateSignedToken P clock' w secret')"
    and "sc_capability_hash (the_token v) = sc_capability_hash (the_token w)"
  shows "capability_claim.truncate (the_token v) = capability_claim.truncate (the_token w) \<or>
    collides P (utf8_encode (canonicalizeClaims (the_token v))) (utf8_encode (canonicalizeClaims (the_token w)))"
proof -
  have "hashCapabilityPayload P (the_token v) = hashCapabilityPayload P (the_token w)"
    using assms by (simp add: validate_VALID)
  from claims_commit [OF this] show ?thesis
    by (auto simp: claim_list_def capability_claim.defs)
qed

text \<open>
  The identifier of a token is not covered: with any other one that is not blank the token is accepted as
  before, and the authorization reports the identifier it was given.
\<close>

theorem capability_id_not_covered:
  assumes "fst (validateSignedToken P clock (token_json t) secret)" and "trim i \<noteq> []"
    and "authorizeWithCapability P clock ar (token_json t) secret = Inr z" and "az_allowed z"
  shows "authorizeWithCapability P clock ar (token_json (t\<lparr>sc_capability_id := i\<rparr>)) secret = Inr (z\<lparr>az_capability_id := Some i\<rparr>)"
proof -
  have same: "hashCapabilityPayload P (t\<lparr>sc_capability_id := i\<rparr>) = hashCapabilityPayload P t"
    by (simp add: hashCapabilityPayload_def canonicalizeClaims_def claim_list_def)
  have "fst (validateSignedToken P clock (token_json (t\<lparr>sc_capability_id := i\<rparr>)) secret)"
    using assms(1,2) unfolding validate_VALID token_json_simps token_json_shape same by simp
  then show ?thesis using assms(1,3,4)
    by (auto simp: authorizeWithCapability_def deny_authorization_def Let_def result_simps split: if_splits)
qed

section \<open>Witnesses\<close>

definition sample_decision_request :: json where
  "sample_decision_request = JObj [(''subject_id'', JStr ''alice''), (''requester_id'', JStr ''bob''), (''resource'', JStr ''diary''),
     (''action'', JStr ''read''), (''requested_at'', JStr ''2025-01-15T14:30:00Z'')]"

definition sample_consent_record :: json where
  "sample_consent_record = JObj [(''consent_id'', JStr ''c1''), (''subject_id'', JStr ''alice''), (''requester_id'', JStr ''bob''),
     (''resource'', JStr ''diary''), (''actions'', JArr [JStr ''read'']), (''granted'', JBool True),
     (''created_at'', JStr ''2025-01-15T14:30:00Z''), (''expires_at'', JNull), (''revoked_at'', JNull), (''consent_hash'', JNull)]"

lemma sample_decision_moment: "four_digit_year 1736951400000" "date_of P ''2025-01-15T14:30:00Z'' = Some 1736951400000"
  using sample_now(2) sample_issued by simp_all

lemma sample_decides:
  "\<exists>d. evaluateConsent zero_platform sample_decision_request sample_consent_record = Inr d \<and> cd_allowed d"
  "date_of zero_platform (cq_requested_at (the_request sample_decision_request)) = Some 1736951400000"
proof -
  have words: "trim ''alice'' \<noteq> []" "trim ''bob'' \<noteq> []" "trim ''diary'' \<noteq> []" "trim ''read'' \<noteq> []" "trim ''c1'' \<noteq> []"
      "trim ''2025-01-15T14:30:00Z'' \<noteq> []"
    by (simp_all add: trim_eq_Nil js_space_def)
  note sample = sample_decision_request_def sample_consent_record_def member_of_def is_object_def isNonEmptyString_def
    isValidIsoDateString_def valid_actions_def hasValidMetadata_def the_request_def the_record_def text_of_def nullable_text_def
  show moment: "date_of zero_platform (cq_requested_at (the_request sample_decision_request)) = Some 1736951400000"
    using sample_decision_moment(2) by (simp add: sample)
  have "isValidConsentRequest zero_platform sample_decision_request"
    using words sample_decision_moment(2) by (simp add: isValidConsentRequest_def sample)
  moreover have "isValidConsentRecord zero_platform sample_consent_record"
    using words sample_decision_moment(2) by (simp add: isValidConsentRecord_def sample)
  moreover have "grants zero_platform (the_record sample_consent_record) (the_request sample_decision_request) 1736951400000"
    using sample_decision_moment(2) by (simp add: grants_def before_def sample)
  ultimately show "\<exists>d. evaluateConsent zero_platform sample_decision_request sample_consent_record = Inr d \<and> cd_allowed d"
    unfolding evaluate_allows using moment by blast
qed

lemma secret_text: "trim ''s'' \<noteq> []" "trim ''forged'' \<noteq> []"
  by (simp_all add: trim_eq_Nil js_space_def)

lemma decision_carries_access_witness:
  "\<exists>d token z. evaluateConsent zero_platform sample_decision_request sample_consent_record = Inr d \<and>
     issueCapabilityToken zero_platform sample_consent_record sample_decision_request d ''s'' = Inr token \<and>
     authorizeWithCapability zero_platform 0 \<lparr>ar_consent_id = None, ar_subject_id = ''alice'', ar_requester_id = ''bob'',
       ar_resource = ''diary'', ar_action = ''read''\<rparr> (token_json token) ''s'' = Inr z \<and> az_allowed z"
proof -
  obtain d where d: "evaluateConsent zero_platform sample_decision_request sample_consent_record = Inr d" "cd_allowed d"
    using sample_decides(1) by blast
  have fields: "cr_expires_at (the_record sample_consent_record) = None" "cq_subject_id (the_request sample_decision_request) = ''alice''"
      "cq_requester_id (the_request sample_decision_request) = ''bob''" "cq_resource (the_request sample_decision_request) = ''diary''"
      "cq_action (the_request sample_decision_request) = ''read''"
    by (simp_all add: sample_decision_request_def sample_consent_record_def the_request_def the_record_def member_of_def)
  show ?thesis
    using decision_carries_access [OF zero_platform_ok(1) secret_text(1) d sample_decides(2) sample_decision_moment(1)] d(1)
    unfolding fields before_def by fastforce
qed

lemma sample_signed:
  "\<exists>t. fst (validateSignedToken zero_platform 0 (token_json t) ''s'')"
proof -
  obtain d where d: "evaluateConsent zero_platform sample_decision_request sample_consent_record = Inr d" "cd_allowed d"
    using sample_decides(1) by blast
  have "before zero_platform 0 (cr_expires_at (the_record sample_consent_record))"
    by (simp add: before_def sample_consent_record_def the_record_def member_of_def)
  then show ?thesis
    using decision_issues [OF zero_platform_ok(1) secret_text(1) d sample_decides(2) sample_decision_moment(1), of 0] by blast
qed

lemma signed_claims_commit_witness:
  "\<exists>v. fst (validateSignedToken zero_platform 0 v ''s'') \<and>
     (capability_claim.truncate (the_token v) = capability_claim.truncate (the_token v) \<or>
      collides zero_platform (utf8_encode (canonicalizeClaims (the_token v)))
        (utf8_encode (canonicalizeClaims (the_token v))))"
  using sample_signed signed_claims_commit by blast

lemma capability_id_not_covered_witness:
  "\<exists>t ar z. authorizeWithCapability zero_platform 0 ar (token_json t) ''s'' = Inr z \<and> az_allowed z \<and>
     authorizeWithCapability zero_platform 0 ar (token_json (t\<lparr>sc_capability_id := ''forged''\<rparr>)) ''s'' =
       Inr (z\<lparr>az_capability_id := Some ''forged''\<rparr>)"
proof -
  obtain t where t: "fst (validateSignedToken zero_platform 0 (token_json t) ''s'')" using sample_signed by blast
  let ?ar = "\<lparr>ar_consent_id = None, ar_subject_id = cc_subject_id t, ar_requester_id = cc_requester_id t,
    ar_resource = cc_resource t, ar_action = cc_action t\<rparr>"
  obtain z where "authorizeWithCapability zero_platform 0 ?ar (token_json t) ''s'' = Inr z" "az_allowed z"
    using authorize_allows [of zero_platform 0 ?ar "token_json t" "''s''"] t by auto
  then show ?thesis using capability_id_not_covered [OF t secret_text(2)] by blast
qed

end
