(* ===== verification/Adapters.thy ===== *)
theory Adapters
  imports ProtocolConsent
begin

text \<open>
  \<open>protocol/adapters/\<close>: records of adapters, read from values of which nothing is known, and the registry
  that holds them by identifier.  The registry is the association list of its map in insertion order; an adapter
  goes from declared to verified and from either to revoked.
\<close>

section \<open>Records\<close>

record adapter_record =
  ad_adapter_id :: string
  ad_display_name :: string
  ad_adapter_type :: string
  ad_owner_did :: "string option"
  ad_marketMakerId :: "string option"
  ad_supported_operations :: "string list"
  ad_supported_scope_types :: "string list"
  ad_endpoint_url :: "string option"
  ad_documentation_url :: "string option"
  ad_status :: string
  ad_registry_source :: string
  ad_created_at :: string
  ad_updated_at :: string
  ad_metadata :: "json_object option"

definition ADAPTER_TYPES :: "string list" where
  "ADAPTER_TYPES = [''market_maker'', ''storage_provider'', ''interpreter'', ''executor'', ''other'']"

definition ADAPTER_SCOPE_TYPES :: "string list" where
  "ADAPTER_SCOPE_TYPES = [''field'', ''content'', ''pack'']"

definition ADAPTER_STATUS :: "string list" where
  "ADAPTER_STATUS = [''declared'', ''verified'', ''revoked'']"

definition ADAPTER_REGISTRY_SOURCES :: "string list" where
  "ADAPTER_REGISTRY_SOURCES = [''self_declared'', ''official_aoc'']"

text \<open>Here the identifier of a DID may contain colons.\<close>

definition ADAPTER_DID_PATTERN :: rx where
  "ADAPTER_DID_PATTERN = Cat (Lit ''did:'') (Cat (Plus (Cls (\<lambda>c. lower_alpha c \<or> dec_digit c)))
     (Cat (Lit '':'') (Plus (Cls (\<lambda>c. did_char c \<or> c = CHR '':'')))))"

section \<open>Parsing\<close>

definition nonempty_text :: "string \<Rightarrow> json \<Rightarrow> string result" where
  "nonempty_text message v = bind_result (as_string message v) (\<lambda>s. after (throw_if (trim s = []) message) (Inr s))"

definition one_of :: "string list \<Rightarrow> string \<Rightarrow> json \<Rightarrow> string result" where
  "one_of values message v = bind_result (nonempty_text message v) (\<lambda>s. after (throw_if (s \<notin> set values) message) (Inr s))"

definition isISOStringUtc :: "platform \<Rightarrow> string \<Rightarrow> bool" where
  "isISOStringUtc P v \<longleftrightarrow> rx_test ISO8601_UTC_PATTERN v \<and>
     (case to_iso_string (date_of P v) of Inr s \<Rightarrow> take 19 s @ ''Z'' = v | Inl e \<Rightarrow> False)"

definition utc_text :: "platform \<Rightarrow> string \<Rightarrow> json \<Rightarrow> string result" where
  "utc_text P message v = bind_result (nonempty_text message v) (\<lambda>s. after (throw_if (\<not> isISOStringUtc P s) message) (Inr s))"

definition optional_text :: "string \<Rightarrow> json \<Rightarrow> string option result" where
  "optional_text message v = (if v = JUndef then Inr None else bind_result (nonempty_text message v) (\<lambda>s. Inr (Some s)))"

definition assertStringArray :: "json \<Rightarrow> string \<Rightarrow> string list result" where
  "assertStringArray v fieldName =
     bind_result (as_nonempty_array (fieldName @ '' must be a non-empty array.'') v) (\<lambda>vs.
     bind_result (map_index (\<lambda>index entry. bind_result
         (nonempty_text (fieldName @ ''['' @ show_nat index @ ''] must be a non-empty string.'') entry) (\<lambda>s. Inr (trim s))) 0 vs)
       (\<lambda>normalized. Inr (unique normalized)))"

definition parse_scope_type :: "nat \<Rightarrow> json \<Rightarrow> string result" where
  "parse_scope_type index scopeType = (let message = ''supported_scope_types['' @ show_nat index @ ''] is invalid.'' in
     bind_result (as_string message scopeType) (\<lambda>s. after (throw_if (s \<notin> set ADAPTER_SCOPE_TYPES) message) (Inr s)))"

definition parse_owner_did :: "json \<Rightarrow> string option result" where
  "parse_owner_did v = bind_result (optional_text ''owner_did must be a valid DID.'' v) (\<lambda>did.
     after (throw_if (case did of None \<Rightarrow> False | Some d \<Rightarrow> \<not> rx_test ADAPTER_DID_PATTERN (trim d)) ''owner_did must be a valid DID.'')
       (Inr did))"

definition parse_adapter_metadata :: "json \<Rightarrow> json_object option result" where
  "parse_adapter_metadata v = (case v of JUndef \<Rightarrow> Inr None | JObj kvs \<Rightarrow> Inr (Some kvs)
     | _ \<Rightarrow> Inl (Error ''metadata must be an object when provided.''))"

definition parseAdapterRecord :: "platform \<Rightarrow> json \<Rightarrow> adapter_record result" where
  "parseAdapterRecord P input =
     bind_result (as_object ''Adapter record must be an object.'' input) (\<lambda>kvs.
     bind_result (nonempty_text ''adapter_id must be a non-empty string.'' (get_prop kvs ''adapter_id'')) (\<lambda>adapter_id.
     bind_result (nonempty_text ''display_name must be a non-empty string.'' (get_prop kvs ''display_name'')) (\<lambda>display_name.
     bind_result (one_of ADAPTER_TYPES ''adapter_type is invalid.'' (get_prop kvs ''adapter_type'')) (\<lambda>adapter_type.
     bind_result (assertStringArray (get_prop kvs ''supported_operations'') ''supported_operations'') (\<lambda>operations.
     bind_result (as_nonempty_array ''supported_scope_types must be a non-empty array.'' (get_prop kvs ''supported_scope_types'')) (\<lambda>types.
     bind_result (map_index parse_scope_type 0 (unique types)) (\<lambda>scope_types.
     bind_result (one_of ADAPTER_STATUS ''status is invalid.'' (get_prop kvs ''status'')) (\<lambda>status.
     bind_result (one_of ADAPTER_REGISTRY_SOURCES ''registry_source is invalid.'' (get_prop kvs ''registry_source'')) (\<lambda>source.
     bind_result (utc_text P ''created_at must be ISO8601 UTC with second precision.'' (get_prop kvs ''created_at'')) (\<lambda>created_at.
     bind_result (utc_text P ''updated_at must be ISO8601 UTC with second precision.'' (get_prop kvs ''updated_at'')) (\<lambda>updated_at.
     bind_result (parse_owner_did (get_prop kvs ''owner_did'')) (\<lambda>owner_did.
     bind_result (optional_text ''marketMakerId must be a non-empty string when provided.'' (get_prop kvs ''marketMakerId'')) (\<lambda>marketMakerId.
     bind_result (optional_text ''endpoint_url must be a non-empty string when provided.'' (get_prop kvs ''endpoint_url'')) (\<lambda>endpoint_url.
     bind_result (optional_text ''documentation_url must be a non-empty string when provided.'' (get_prop kvs ''documentation_url'')) (\<lambda>documentation_url.
     bind_result (parse_adapter_metadata (get_prop kvs ''metadata'')) (\<lambda>metadata.
       Inr \<lparr>ad_adapter_id = trim adapter_id, ad_display_name = trim display_name, ad_adapter_type = adapter_type,
         ad_owner_did = map_option trim owner_did, ad_marketMakerId = map_option trim marketMakerId,
         ad_supported_operations = operations, ad_supported_scope_types = scope_types,
         ad_endpoint_url = map_option trim endpoint_url, ad_documentation_url = map_option trim documentation_url,
         ad_status = status, ad_registry_source = source, ad_created_at = created_at, ad_updated_at = updated_at,
         ad_metadata = metadata\<rparr>))))))))))))))))"

definition normalizeAdapterRecord :: "adapter_record \<Rightarrow> adapter_record" where
  "normalizeAdapterRecord record = record\<lparr>ad_adapter_id := trim (ad_adapter_id record),
     ad_display_name := trim (ad_display_name record), ad_owner_did := map_option trim (ad_owner_did record),
     ad_marketMakerId := map_option trim (ad_marketMakerId record), ad_endpoint_url := map_option trim (ad_endpoint_url record),
     ad_documentation_url := map_option trim (ad_documentation_url record),
     ad_supported_operations := unique (map trim (ad_supported_operations record)),
     ad_supported_scope_types := unique (ad_supported_scope_types record)\<rparr>"

text \<open>A typed record as the value that is parsed again.\<close>

definition adapter_json :: "adapter_record \<Rightarrow> json" where
  "adapter_json r = JObj [
     (''adapter_id'', JStr (ad_adapter_id r)), (''display_name'', JStr (ad_display_name r)),
     (''adapter_type'', JStr (ad_adapter_type r)), (''owner_did'', undefined_or JStr (ad_owner_did r)),
     (''marketMakerId'', undefined_or JStr (ad_marketMakerId r)),
     (''supported_operations'', JArr (map JStr (ad_supported_operations r))),
     (''supported_scope_types'', JArr (map JStr (ad_supported_scope_types r))),
     (''endpoint_url'', undefined_or JStr (ad_endpoint_url r)), (''documentation_url'', undefined_or JStr (ad_documentation_url r)),
     (''status'', JStr (ad_status r)), (''registry_source'', JStr (ad_registry_source r)),
     (''created_at'', JStr (ad_created_at r)), (''updated_at'', JStr (ad_updated_at r)),
     (''metadata'', undefined_or JObj (ad_metadata r))]"

definition validateAdapterRecord :: "platform \<Rightarrow> adapter_record \<Rightarrow> throws" where
  "validateAdapterRecord P record = (case parseAdapterRecord P (adapter_json record) of
     Inl e \<Rightarrow> Some e
   | Inr parsed \<Rightarrow> throw_if (ad_updated_at parsed < ad_created_at parsed) ''updated_at must be greater than or equal to created_at.'')"

section \<open>Policies\<close>

definition isAdapterUsable :: "adapter_record \<Rightarrow> bool" where
  "isAdapterUsable adapter \<longleftrightarrow> ad_status adapter \<noteq> ''revoked''"

definition isAdapterVerified :: "adapter_record \<Rightarrow> bool" where
  "isAdapterVerified adapter \<longleftrightarrow> ad_status adapter = ''verified''"

definition isAdapterOfficial :: "adapter_record \<Rightarrow> bool" where
  "isAdapterOfficial adapter \<longleftrightarrow> ad_registry_source adapter = ''official_aoc''"

definition supportsOperation :: "adapter_record \<Rightarrow> string \<Rightarrow> bool" where
  "supportsOperation adapter operation \<longleftrightarrow> operation \<in> set (ad_supported_operations adapter)"

definition supportsScopeType :: "adapter_record \<Rightarrow> string \<Rightarrow> bool" where
  "supportsScopeType adapter scopeType \<longleftrightarrow> scopeType \<in> set (ad_supported_scope_types adapter)"

section \<open>Registry\<close>

type_synonym adapter_registry = "(string \<times> adapter_record) list"

definition cloneRecord :: "adapter_record \<Rightarrow> adapter_record" where
  "cloneRecord record = record"

definition createAdapterRegistry :: adapter_registry where
  "createAdapterRegistry = []"

text \<open>The statuses that may follow; of a status that is none, \<open>undefined.includes\<close> throws.\<close>

definition ALLOWED_STATUS_TRANSITIONS :: "string \<Rightarrow> string list result" where
  "ALLOWED_STATUS_TRANSITIONS status =
     (if status = ''declared'' then Inr [''verified'', ''revoked'']
      else if status = ''verified'' then Inr [''revoked'']
      else if status = ''revoked'' then Inr []
      else Inl (Error ''Cannot read properties of undefined''))"

definition registerAdapter :: "platform \<Rightarrow> json \<Rightarrow> adapter_registry \<Rightarrow> (adapter_record \<times> adapter_registry) result" where
  "registerAdapter P record adaptersById =
     bind_result (parseAdapterRecord P record) (\<lambda>parsed.
     after (validateAdapterRecord P parsed)
     (let normalized = normalizeAdapterRecord parsed in
      after (throw_if (map_of adaptersById (ad_adapter_id normalized) \<noteq> None)
          (''Adapter '' @ ad_adapter_id normalized @ '' is already registered.''))
        (Inr (cloneRecord normalized, map_set (ad_adapter_id normalized) normalized adaptersById))))"

definition getAdapterById :: "adapter_registry \<Rightarrow> string \<Rightarrow> adapter_record option" where
  "getAdapterById adaptersById adapterId = map_option cloneRecord (map_of adaptersById adapterId)"

record adapter_filters =
  af_status :: "string option"
  af_adapter_type :: "string option"
  af_registry_source :: "string option"

definition listAdapters :: "adapter_registry \<Rightarrow> adapter_filters option \<Rightarrow> adapter_record list" where
  "listAdapters adaptersById filters = map cloneRecord (filter (\<lambda>adapter. case filters of None \<Rightarrow> True
     | Some f \<Rightarrow>
        if af_status f \<noteq> None \<and> Some (ad_status adapter) \<noteq> af_status f then False
        else if af_adapter_type f \<noteq> None \<and> Some (ad_adapter_type adapter) \<noteq> af_adapter_type f then False
        else if af_registry_source f \<noteq> None \<and> Some (ad_registry_source adapter) \<noteq> af_registry_source f then False
        else True) (map snd adaptersById))"

definition updateAdapterStatus ::
  "platform \<Rightarrow> int \<Rightarrow> string \<Rightarrow> string \<Rightarrow> adapter_registry \<Rightarrow> (adapter_record \<times> adapter_registry) result" where
  "updateAdapterStatus P clock adapterId nextStatus adaptersById = (case map_of adaptersById adapterId of
     None \<Rightarrow> Inl (Error (''Adapter '' @ adapterId @ '' is not registered.''))
   | Some current \<Rightarrow>
      bind_result (ALLOWED_STATUS_TRANSITIONS (ad_status current)) (\<lambda>allowed.
      after (throw_if (nextStatus \<notin> set allowed) (''Invalid status transition: '' @ ad_status current @ '' -> '' @ nextStatus @
          ''. Re-registration is required when revoked.''))
      (bind_result (to_iso_string (Some clock)) (\<lambda>now.
       let updated = current\<lparr>ad_status := nextStatus, ad_updated_at := take 19 now @ ''Z''\<rparr> in
       after (validateAdapterRecord P updated)
       (let normalized = normalizeAdapterRecord updated in
        Inr (cloneRecord normalized, map_set adapterId normalized adaptersById))))))"

definition resolveAdapter :: "string \<Rightarrow> (string \<Rightarrow> adapter_record option) \<Rightarrow> adapter_record option" where
  "resolveAdapter adapterId resolver = resolver adapterId"

definition registry_resolveAdapter :: "adapter_registry \<Rightarrow> string \<Rightarrow> adapter_record option" where
  "registry_resolveAdapter adaptersById adapterId = resolveAdapter adapterId (getAdapterById adaptersById)"

text \<open>The runs of a registry.\<close>

inductive adapter_step :: "platform \<Rightarrow> adapter_registry \<Rightarrow> adapter_registry \<Rightarrow> bool" for P where
  registers: "registerAdapter P record R = Inr (r, R') \<Longrightarrow> adapter_step P R R'"
| updates: "updateAdapterStatus P clock adapterId nextStatus R = Inr (r, R') \<Longrightarrow> adapter_step P R R'"

section \<open>Lemmas\<close>

subsection \<open>Records\<close>

definition optional_ok :: "string option \<Rightarrow> bool" where
  "optional_ok x \<longleftrightarrow> (\<forall>s. x = Some s \<longrightarrow> text_ok s)"

definition adapter_ok :: "platform \<Rightarrow> adapter_record \<Rightarrow> bool" where
  "adapter_ok P r \<longleftrightarrow> text_ok (ad_adapter_id r) \<and> text_ok (ad_display_name r) \<and> ad_adapter_type r \<in> set ADAPTER_TYPES \<and>
     optional_ok (ad_owner_did r) \<and> (\<forall>d. ad_owner_did r = Some d \<longrightarrow> rx_test ADAPTER_DID_PATTERN d) \<and>
     optional_ok (ad_marketMakerId r) \<and>
     ad_supported_operations r \<noteq> [] \<and> distinct (ad_supported_operations r) \<and> (\<forall>s \<in> set (ad_supported_operations r). text_ok s) \<and>
     ad_supported_scope_types r \<noteq> [] \<and> distinct (ad_supported_scope_types r) \<and>
     set (ad_supported_scope_types r) \<subseteq> set ADAPTER_SCOPE_TYPES \<and>
     optional_ok (ad_endpoint_url r) \<and> optional_ok (ad_documentation_url r) \<and>
     ad_status r \<in> set ADAPTER_STATUS \<and> ad_registry_source r \<in> set ADAPTER_REGISTRY_SOURCES \<and>
     isISOStringUtc P (ad_created_at r) \<and> isISOStringUtc P (ad_updated_at r)"

lemma nonempty_text_Inr [result_simps]: "nonempty_text m v = Inr s \<longleftrightarrow> v = JStr s \<and> trim s \<noteq> []"
  by (auto simp: nonempty_text_def result_simps)

lemma one_of_Inr [result_simps]: "one_of xs m v = Inr s \<longleftrightarrow> v = JStr s \<and> trim s \<noteq> [] \<and> s \<in> set xs"
  by (auto simp: one_of_def result_simps)

lemma utc_text_Inr [result_simps]: "utc_text P m v = Inr s \<longleftrightarrow> v = JStr s \<and> trim s \<noteq> [] \<and> isISOStringUtc P s"
  by (auto simp: utc_text_def result_simps)

lemma optional_text_Inr [result_simps]: "optional_text m v = Inr x \<longleftrightarrow> (case x of None \<Rightarrow> v = JUndef
    | Some s \<Rightarrow> v = JStr s \<and> trim s \<noteq> [])"
  by (cases x) (auto simp: optional_text_def result_simps)

lemma parse_owner_did_Inr [result_simps]: "parse_owner_did v = Inr x \<longleftrightarrow> (case x of None \<Rightarrow> v = JUndef
    | Some s \<Rightarrow> v = JStr s \<and> trim s \<noteq> [] \<and> rx_test ADAPTER_DID_PATTERN (trim s))"
  by (cases x) (auto simp: parse_owner_did_def result_simps)

lemma parse_adapter_metadata_Inr [result_simps]: "parse_adapter_metadata v = Inr x \<longleftrightarrow> v = undefined_or JObj x"
  by (cases v; cases x) (auto simp: parse_adapter_metadata_def undefined_or_def)

lemma text_ok_trim: "trim s \<noteq> [] \<Longrightarrow> text_ok (trim s)"
  by (simp add: text_ok_def trim_idem)

lemma text_ok_fixed: "text_ok s \<Longrightarrow> trim s = s \<and> s \<noteq> []"
  by (simp add: text_ok_def)

lemma string_array_ok:
  assumes "assertStringArray v f = Inr xs"
  shows "xs \<noteq> [] \<and> distinct xs \<and> (\<forall>s \<in> set xs. text_ok s)"
proof -
  obtain vs ys where ys: "vs \<noteq> []" "xs = unique ys" "map_index (\<lambda>index entry. bind_result
      (nonempty_text (f @ ''['' @ show_nat index @ ''] must be a non-empty string.'') entry) (\<lambda>s. Inr (trim s))) 0 vs = Inr ys"
    using assms by (auto simp: assertStringArray_def result_simps)
  have "list_all2 (\<lambda>v y. \<exists>s. v = JStr s \<and> trim s \<noteq> [] \<and> y = trim s) vs ys"
    using ys(3) by (subst (asm) map_index_Inr [where R = "\<lambda>v y. \<exists>s. v = JStr s \<and> trim s \<noteq> [] \<and> y = trim s"]) (auto simp: result_simps)
  then have "length vs = length ys \<and> (\<forall>y \<in> set ys. text_ok y)"
    by (induction rule: list_all2_induct) (auto intro: text_ok_trim)
  then have "ys \<noteq> []" "\<forall>y \<in> set ys. text_ok y" using ys(1) by auto
  then show ?thesis using ys(2) by simp
qed

lemma string_array_json:
  assumes "xs \<noteq> []" and "distinct xs" and "\<forall>s \<in> set xs. text_ok s"
  shows "assertStringArray (JArr (map JStr xs)) f = Inr xs"
proof -
  obtain y ys where y: "map JStr xs = y # ys" using assms(1) by (cases xs) auto
  have "map_index (\<lambda>index entry. bind_result (nonempty_text (f @ ''['' @ show_nat index @ ''] must be a non-empty string.'') entry)
      (\<lambda>s. Inr (trim s))) 0 (map JStr xs) = Inr xs"
    using assms(3) text_ok_fixed
    by (subst map_index_Inr [where R = "\<lambda>v y. \<exists>s. v = JStr s \<and> trim s \<noteq> [] \<and> y = trim s"])
      (auto simp: result_simps list_all2_conv_all_nth)
  then show ?thesis using assms(2) by (simp add: assertStringArray_def y unique_distinct)
qed

lemma parse_scope_type_Inr: "parse_scope_type i v = Inr s \<longleftrightarrow> v = JStr s \<and> s \<in> set ADAPTER_SCOPE_TYPES"
  by (auto simp: parse_scope_type_def Let_def result_simps)

lemma scope_types_parse: "map_index parse_scope_type i vs = Inr ys \<longleftrightarrow> vs = map JStr ys \<and> set ys \<subseteq> set ADAPTER_SCOPE_TYPES"
proof -
  have "list_all2 (\<lambda>v s. v = JStr s \<and> s \<in> A) vs ys \<longleftrightarrow> vs = map JStr ys \<and> set ys \<subseteq> A" for A
    by (induction vs arbitrary: ys) (auto simp: list_all2_Cons1 Cons_eq_map_conv)
  then show ?thesis
    by (subst map_index_Inr [where R = "\<lambda>v s. v = JStr s \<and> s \<in> set ADAPTER_SCOPE_TYPES"]) (auto simp: parse_scope_type_Inr)
qed

lemma unique_map: "inj f \<Longrightarrow> unique (map f xs) = map f (unique xs)"
  by (induction xs) (auto simp: filter_map comp_def inj_eq)

lemma trimmed_option: "(case x of None \<Rightarrow> v = JUndef | Some s \<Rightarrow> v = JStr s \<and> trim s \<noteq> []) \<Longrightarrow> optional_ok (map_option trim x)"
  by (cases x) (auto simp: optional_ok_def text_ok_trim)

lemma parsed_adapter_ok:
  assumes "parseAdapterRecord P v = Inr r"
  shows "adapter_ok P r"
proof -
  obtain kvs n name type ops types scope status source created updated did mm url doc meta where parts:
    "get_prop kvs ''adapter_id'' = JStr n" "get_prop kvs ''display_name'' = JStr name" "get_prop kvs ''adapter_type'' = JStr type"
    "get_prop kvs ''status'' = JStr status" "get_prop kvs ''registry_source'' = JStr source"
    "get_prop kvs ''created_at'' = JStr created" "get_prop kvs ''updated_at'' = JStr updated"
    "assertStringArray (get_prop kvs ''supported_operations'') ''supported_operations'' = Inr ops"
    "get_prop kvs ''supported_scope_types'' = JArr types" "map_index parse_scope_type 0 (unique types) = Inr scope"
    "parse_owner_did (get_prop kvs ''owner_did'') = Inr did"
    "optional_text ''marketMakerId must be a non-empty string when provided.'' (get_prop kvs ''marketMakerId'') = Inr mm"
    "optional_text ''endpoint_url must be a non-empty string when provided.'' (get_prop kvs ''endpoint_url'') = Inr url"
    "optional_text ''documentation_url must be a non-empty string when provided.'' (get_prop kvs ''documentation_url'') = Inr doc"
    "parse_adapter_metadata (get_prop kvs ''metadata'') = Inr meta"
    and facts: "trim n \<noteq> []" "trim name \<noteq> []" "type \<in> set ADAPTER_TYPES" "types \<noteq> []" "status \<in> set ADAPTER_STATUS"
    "source \<in> set ADAPTER_REGISTRY_SOURCES" "isISOStringUtc P created" "isISOStringUtc P updated"
    and r: "r = \<lparr>ad_adapter_id = trim n, ad_display_name = trim name, ad_adapter_type = type, ad_owner_did = map_option trim did,
      ad_marketMakerId = map_option trim mm, ad_supported_operations = ops, ad_supported_scope_types = scope,
      ad_endpoint_url = map_option trim url, ad_documentation_url = map_option trim doc, ad_status = status,
      ad_registry_source = source, ad_created_at = created, ad_updated_at = updated, ad_metadata = meta\<rparr>"
    using assms unfolding parseAdapterRecord_def bind_result_Inr nonempty_text_Inr one_of_Inr utc_text_Inr as_nonempty_array_Inr sum.inject
    by (elim exE conjE) (rule that, (assumption | (rule sym, assumption))+)
  have "distinct (map JStr scope)" "map JStr scope \<noteq> []" "set scope \<subseteq> set ADAPTER_SCOPE_TYPES"
    using facts(4) parts(10) distinct_unique [of types] unique_Nil [of types] unfolding scope_types_parse by auto
  then have scope: "distinct scope" "scope \<noteq> []" "set scope \<subseteq> set ADAPTER_SCOPE_TYPES" by (auto simp: distinct_map)
  have "rx_test ADAPTER_DID_PATTERN d" if "map_option trim did = Some d" for d
    using parts(11) that by (auto simp: parse_owner_did_Inr)
  moreover have "optional_ok (map_option trim did)"
    using parts(11) by (intro trimmed_option [where v = "get_prop kvs ''owner_did''"]) (auto simp: parse_owner_did_Inr split: option.splits)
  ultimately show ?thesis
    using facts scope string_array_ok [OF parts(8)] parts(12-14) [unfolded optional_text_Inr, THEN trimmed_option]
    unfolding adapter_ok_def r by (simp add: text_ok_trim)
qed

lemma text_fixed: "text_ok s \<Longrightarrow> trim s = s" "text_ok s \<Longrightarrow> s \<noteq> []"
  by (simp_all add: text_ok_def)

lemma option_fixed: "optional_ok x \<Longrightarrow> map_option trim x = x"
  by (cases x) (auto simp: optional_ok_def text_ok_def)

lemma optional_json: "optional_ok x \<Longrightarrow> optional_text m (undefined_or JStr x) = Inr x"
  by (cases x) (auto simp: optional_text_Inr optional_ok_def text_ok_def undefined_or_def)

lemma utc_nonempty: "isISOStringUtc P s \<Longrightarrow> trim s \<noteq> []"
proof -
  assume "isISOStringUtc P s"
  then have "CHR ''Z'' \<in> set s" by (auto simp: isISOStringUtc_def split: sum.splits)
  moreover have "\<not> js_space (CHR ''Z'')" by (simp add: js_space_def)
  ultimately show ?thesis unfolding trim_eq_Nil by blast
qed

lemma ok_parses:
  assumes "adapter_ok P r"
  shows "parseAdapterRecord P (adapter_json r) = Inr r"
proof -
  obtain x xs where types: "map JStr (ad_supported_scope_types r) = x # xs"
    using assms by (cases "ad_supported_scope_types r") (auto simp: adapter_ok_def)
  have scope: "map_index parse_scope_type 0 (unique (x # xs)) = Inr (ad_supported_scope_types r)"
    unfolding types [symmetric] using assms by (simp add: unique_map inj_def unique_distinct adapter_ok_def scope_types_parse)
  have "\<forall>t \<in> set (ADAPTER_TYPES @ ADAPTER_STATUS @ ADAPTER_REGISTRY_SOURCES). trim t \<noteq> []" by code_simp
  then have words: "t \<in> set ADAPTER_TYPES \<or> t \<in> set ADAPTER_STATUS \<or> t \<in> set ADAPTER_REGISTRY_SOURCES \<Longrightarrow> trim t \<noteq> []" for t
    by auto
  have did: "parse_owner_did (undefined_or JStr (ad_owner_did r)) = Inr (ad_owner_did r)"
    using assms by (cases "ad_owner_did r") (auto simp: parse_owner_did_Inr adapter_ok_def optional_ok_def text_ok_def undefined_or_def)
  note ok = assms [unfolded adapter_ok_def]
  have fields: "nonempty_text m (JStr (ad_adapter_id r)) = Inr (ad_adapter_id r)"
      "nonempty_text m (JStr (ad_display_name r)) = Inr (ad_display_name r)"
      "one_of ADAPTER_TYPES m (JStr (ad_adapter_type r)) = Inr (ad_adapter_type r)"
      "one_of ADAPTER_STATUS m (JStr (ad_status r)) = Inr (ad_status r)"
      "one_of ADAPTER_REGISTRY_SOURCES m (JStr (ad_registry_source r)) = Inr (ad_registry_source r)"
      "utc_text P m (JStr (ad_created_at r)) = Inr (ad_created_at r)"
      "utc_text P m (JStr (ad_updated_at r)) = Inr (ad_updated_at r)" for m
    unfolding nonempty_text_Inr one_of_Inr utc_text_Inr using ok words by (simp_all add: text_fixed utc_nonempty [of P])
  have lists: "assertStringArray (JArr (map JStr (ad_supported_operations r))) f = Inr (ad_supported_operations r)"
      "optional_text m (undefined_or JStr (ad_marketMakerId r)) = Inr (ad_marketMakerId r)"
      "optional_text m (undefined_or JStr (ad_endpoint_url r)) = Inr (ad_endpoint_url r)"
      "optional_text m (undefined_or JStr (ad_documentation_url r)) = Inr (ad_documentation_url r)"
      "parse_adapter_metadata (undefined_or JObj (ad_metadata r)) = Inr (ad_metadata r)" for m f
    using ok by (simp_all add: string_array_json optional_json parse_adapter_metadata_Inr)
  have trimmed: "trim (ad_adapter_id r) = ad_adapter_id r" "trim (ad_display_name r) = ad_display_name r"
      "map_option trim (ad_owner_did r) = ad_owner_did r" "map_option trim (ad_marketMakerId r) = ad_marketMakerId r"
      "map_option trim (ad_endpoint_url r) = ad_endpoint_url r" "map_option trim (ad_documentation_url r) = ad_documentation_url r"
    using assms by (simp_all add: adapter_ok_def text_fixed option_fixed)
  show ?thesis
    unfolding parseAdapterRecord_def adapter_json_def
    by (simp add: fields lists did scope trimmed types del: unique.simps map_index.simps)
qed

lemma ok_normal: "adapter_ok P r \<Longrightarrow> normalizeAdapterRecord r = r"
proof -
  assume r: "adapter_ok P r"
  then have "map trim (ad_supported_operations r) = ad_supported_operations r"
    by (intro map_idI) (auto simp: adapter_ok_def text_ok_def)
  with r show ?thesis by (cases r) (simp add: normalizeAdapterRecord_def adapter_ok_def text_fixed option_fixed unique_distinct)
qed

lemma validates_ok:
  assumes "adapter_ok P r"
  shows "validateAdapterRecord P r = None \<longleftrightarrow> ad_created_at r \<le> ad_updated_at r"
  by (simp add: validateAdapterRecord_def ok_parses [OF assms] throws_simps not_less)

text \<open>A record whose status and stamp have been replaced.\<close>

lemma validates_updated:
  assumes "adapter_ok P a" and "st \<in> set ADAPTER_STATUS"
  shows "validateAdapterRecord P (a\<lparr>ad_status := st, ad_updated_at := u\<rparr>) = None \<longleftrightarrow> isISOStringUtc P u \<and> ad_created_at a \<le> u"
    (is "?v = None \<longleftrightarrow> _")
proof -
  let ?b = "a\<lparr>ad_status := st, ad_updated_at := u\<rparr>"
  have ok: "isISOStringUtc P u \<Longrightarrow> adapter_ok P ?b" using assms by (simp add: adapter_ok_def)
  moreover have "?v = None \<Longrightarrow> isISOStringUtc P u"
    unfolding validateAdapterRecord_def parseAdapterRecord_def adapter_json_def
    by (auto simp: throws_simps bind_result_Inr utc_text_Inr split: sum.splits)
  ultimately show ?thesis using validates_ok [of P ?b] by auto
qed

subsection \<open>The registry\<close>

interpretation adapters: keyed_store "map_of :: adapter_registry \<Rightarrow> _" map_set
  by unfold_locales (rule map_of_map_set)

definition filed :: "platform \<Rightarrow> string \<Rightarrow> adapter_record \<Rightarrow> bool" where
  "filed P i r \<longleftrightarrow> i = ad_adapter_id r \<and> adapter_ok P r \<and> ad_created_at r \<le> ad_updated_at r"

definition adapter_inv :: "platform \<Rightarrow> adapter_registry \<Rightarrow> bool" where
  "adapter_inv P R \<longleftrightarrow> distinct (map fst R) \<and> adapters.all_entries (filed P) R"

lemma register_Inr: "registerAdapter P v R = Inr (r, R') \<longleftrightarrow> parseAdapterRecord P v = Inr r \<and>
    ad_created_at r \<le> ad_updated_at r \<and> map_of R (ad_adapter_id r) = None \<and> R' = map_set (ad_adapter_id r) r R"
proof (cases "parseAdapterRecord P v")
  case (Inr a)
  then have "adapter_ok P a" by (rule parsed_adapter_ok)
  then show ?thesis using Inr validates_ok [of P a] ok_normal [of P a]
    by (auto simp: registerAdapter_def Let_def result_simps throws_simps cloneRecord_def)
qed (simp add: registerAdapter_def)

definition moves :: "string \<Rightarrow> string \<Rightarrow> bool" where
  "moves s t \<longleftrightarrow> s = ''declared'' \<and> (t = ''verified'' \<or> t = ''revoked'') \<or> s = ''verified'' \<and> t = ''revoked''"

definition seconds_text :: "int \<Rightarrow> string" where
  "seconds_text clock = (case to_iso_string (Some clock) of Inr s \<Rightarrow> take 19 s @ ''Z'' | Inl e \<Rightarrow> [])"

lemma transitions: "s \<in> set ADAPTER_STATUS \<Longrightarrow> \<exists>xs. ALLOWED_STATUS_TRANSITIONS s = Inr xs \<and> (t \<in> set xs \<longleftrightarrow> moves s t)"
  by (auto simp: ADAPTER_STATUS_def ALLOWED_STATUS_TRANSITIONS_def moves_def)

lemma moves_status: "moves s t \<Longrightarrow> t \<in> set ADAPTER_STATUS"
  by (auto simp: moves_def ADAPTER_STATUS_def)

lemma update_Inr:
  assumes "adapter_inv P R"
  shows "updateAdapterStatus P clock i st R = Inr (b, R') \<longleftrightarrow> (\<exists>a. map_of R i = Some a \<and> moves (ad_status a) st \<and>
    isISOStringUtc P (seconds_text clock) \<and> ad_created_at a \<le> seconds_text clock \<and>
    b = a\<lparr>ad_status := st, ad_updated_at := seconds_text clock\<rparr> \<and> R' = map_set i b R)"
proof (cases "map_of R i")
  case (Some a)
  then have a: "adapter_ok P a" using assms adapters.all_entriesD by (fastforce simp: adapter_inv_def filed_def)
  then obtain xs where xs: "ALLOWED_STATUS_TRANSITIONS (ad_status a) = Inr xs" "st \<in> set xs \<longleftrightarrow> moves (ad_status a) st"
    using transitions [of "ad_status a" st] by (auto simp: adapter_ok_def)
  obtain now where now: "to_iso_string (Some clock) = Inr now" using to_iso_string_total by blast
  let ?b = "a\<lparr>ad_status := st, ad_updated_at := seconds_text clock\<rparr>"
  have stamp: "take 19 now @ ''Z'' = seconds_text clock" by (simp add: seconds_text_def now)
  have ok: "adapter_ok P ?b" if "moves (ad_status a) st" "isISOStringUtc P (seconds_text clock)"
    using a that moves_status by (simp add: adapter_ok_def)
  show ?thesis
  proof (cases "moves (ad_status a) st")
    case True
    then show ?thesis
      using validates_updated [OF a moves_status [OF True], of "seconds_text clock"] ok_normal [OF ok [OF True]]
      by (auto simp: updateAdapterStatus_def Some xs now stamp Let_def result_simps throws_simps cloneRecord_def)
  qed (simp add: updateAdapterStatus_def Some xs throws_simps after_Inr)
qed (simp add: updateAdapterStatus_def)

lemma seconds_text_iso:
  assumes "four_digit_year t"
  shows "iso_seconds (Some t) = Inr (seconds_text t)" and "isISOStringUtc P (seconds_text t)"
proof -
  let ?u = "t div 1000 * 1000"
  have Z: "iso_string f = take 19 (iso_string f) @ ''Z''" for f by (cases f) simp
  have length: "length (take 19 (iso_string f)) = 19" for f by simp
  have stamp: "seconds_text t = iso_string (stamp_of t)"
    using Z [of "stamp_of t"] by (simp add: seconds_text_def to_iso_string_four_digit [OF assms])
  then show "iso_seconds (Some t) = Inr (seconds_text t)" by (simp add: iso_seconds_stamp [OF assms])
  have u: "four_digit_year ?u" "stamp_of ?u = stamp_of t" using assms by (simp_all add: four_digit_year_def stamp_of_def)
  have "date_of P (seconds_text t) = Some ?u"
    using iso_parse_stamp [OF stamp_of_valid(2,1) [OF assms]] stamp_of_valid(3) [OF assms]
    by (simp add: stamp date_of_def date_parse_def)
  then show "isISOStringUtc P (seconds_text t)"
    using Z [of "stamp_of t"] unfolding isISOStringUtc_def stamp
    by (simp add: to_iso_string_four_digit [OF u(1)] u(2) iso_pattern_string)
qed

text \<open>Steps keep the invariant, and entries only advance.\<close>

definition advanced :: "adapter_record \<Rightarrow> adapter_record \<Rightarrow> bool" where
  "advanced a b \<longleftrightarrow> a = b \<or> moves (ad_status a) (ad_status b) \<and>
     b = a\<lparr>ad_status := ad_status b, ad_updated_at := ad_updated_at b\<rparr>"

lemma advanced_trans: "advanced a b \<Longrightarrow> advanced b c \<Longrightarrow> advanced a c"
  by (cases a; cases b; cases c) (auto simp: advanced_def moves_def)

lemma step_write:
  assumes "adapter_step P R R'" and "adapter_inv P R"
  shows "\<exists>i b. R' = map_set i b R \<and> filed P i b \<and> (map_of R i = None \<or> (\<exists>a. map_of R i = Some a \<and> advanced a b))"
  using assms(1)
proof cases
  case (registers v r)
  then show ?thesis using parsed_adapter_ok by (auto simp: register_Inr filed_def)
next
  case (updates clock i st b)
  then obtain a where a: "map_of R i = Some a" "moves (ad_status a) st" "isISOStringUtc P (seconds_text clock)"
      "ad_created_at a \<le> seconds_text clock" "b = a\<lparr>ad_status := st, ad_updated_at := seconds_text clock\<rparr>" "R' = map_set i b R"
    using update_Inr [OF assms(2)] by blast
  have "filed P i a" using adapters.all_entriesD [of "filed P" R i a] a(1) assms(2) by (simp add: adapter_inv_def)
  then have "filed P i b" using a(2-5) moves_status by (simp add: filed_def adapter_ok_def)
  moreover have "advanced a b" using a(2,5) by (simp add: advanced_def)
  ultimately show ?thesis using a(1,6) by blast
qed

lemma step_inv: "adapter_step P R R' \<Longrightarrow> adapter_inv P R \<Longrightarrow> adapter_inv P R'"
  using step_write [of P R R'] adapters.all_entries_put [of "filed P"] distinct_map_set by (auto simp: adapter_inv_def)

lemma steps_inv: "(adapter_step P)\<^sup>*\<^sup>* R R' \<Longrightarrow> adapter_inv P R \<Longrightarrow> adapter_inv P R'"
  by (induction rule: rtranclp_induct) (auto intro: step_inv)

lemma empty_inv: "adapter_inv P createAdapterRegistry"
  by (simp add: adapter_inv_def createAdapterRegistry_def adapters.all_entries_def)

lemma steps_advance:
  assumes "(adapter_step P)\<^sup>*\<^sup>* R R'" and "adapter_inv P R" and "map_of R i = Some a"
  shows "\<exists>b. map_of R' i = Some b \<and> advanced a b"
  using assms
proof (induction rule: rtranclp_induct)
  case (step S T)
  then obtain b where b: "map_of S i = Some b" "advanced a b" by blast
  have "adapter_inv P S" using step.hyps(1) step.prems(1) by (rule steps_inv)
  then obtain k c where "T = map_set k c S" "map_of S k = None \<or> (\<exists>q. map_of S k = Some q \<and> advanced q c)"
    using step_write [OF step.hyps(2)] by blast
  then show ?case using adapters.put_along [of advanced S k c i b] b advanced_trans by (auto simp: advanced_def)
qed (simp add: advanced_def)

section \<open>Properties\<close>

text \<open>
  C40: a parsed adapter is well formed (trimmed, non-blank texts, members of the enumerations, lists without
  repetition, stamps that are moments), and as such it is parsed and normalized to itself.
\<close>

theorem parsed_adapter_well_formed:
  assumes "parseAdapterRecord P v = Inr r"
  shows "adapter_ok P r \<and> parseAdapterRecord P (adapter_json r) = Inr r \<and> normalizeAdapterRecord r = r"
  using parsed_adapter_ok [OF assms] ok_parses ok_normal by blast

text \<open>
  In every reachable registry each adapter is filed once, under its own identifier, is well formed, and was
  not updated before it was created.
\<close>

theorem reachable_adapters:
  assumes "(adapter_step P)\<^sup>*\<^sup>* createAdapterRegistry R"
  shows "distinct (map fst R) \<and> (\<forall>i r. getAdapterById R i = Some r \<longrightarrow>
    ad_adapter_id r = i \<and> adapter_ok P r \<and> ad_created_at r \<le> ad_updated_at r)"
proof -
  have "adapter_inv P R" using steps_inv [OF assms empty_inv] .
  then show ?thesis
    by (auto simp: adapter_inv_def getAdapterById_def cloneRecord_def filed_def dest: adapters.all_entriesD)
qed

text \<open>
  C14: an adapter once registered stays in the registry, and only its status and stamp change, from declared to
  verified and from either to revoked; a revoked adapter does not change any more.
\<close>

theorem adapter_status_only_advances:
  assumes "(adapter_step P)\<^sup>*\<^sup>* createAdapterRegistry R" and "(adapter_step P)\<^sup>*\<^sup>* R R'" and "getAdapterById R i = Some a"
  shows "\<exists>b. getAdapterById R' i = Some b \<and> (b = a \<or>
    b = a\<lparr>ad_status := ad_status b, ad_updated_at := ad_updated_at b\<rparr> \<and> ad_status a \<noteq> ''revoked'' \<and> ad_status b \<noteq> ''declared'' \<and>
    (ad_status a = ''verified'' \<longrightarrow> ad_status b = ''revoked''))"
proof -
  have "map_of R i = Some a" using assms(3) by (simp add: getAdapterById_def cloneRecord_def)
  then obtain b where "map_of R' i = Some b" "advanced a b"
    using steps_advance [OF assms(2) steps_inv [OF assms(1) empty_inv]] by blast
  then show ?thesis by (intro exI [of _ b]) (auto simp: getAdapterById_def cloneRecord_def advanced_def moves_def)
qed

text \<open>
  An adapter that declared itself created in the future cannot be revoked, or otherwise updated, before that
  moment, since the stamp of the update would precede it.
\<close>

theorem future_adapter_cannot_be_revoked:
  assumes "(adapter_step P)\<^sup>*\<^sup>* createAdapterRegistry R" and "getAdapterById R i = Some a"
    and "seconds_text clock < ad_created_at a"
  shows "\<exists>e. updateAdapterStatus P clock i nextStatus R = Inl e"
proof -
  have "map_of R i = Some a" using assms(2) by (simp add: getAdapterById_def cloneRecord_def)
  then have "updateAdapterStatus P clock i nextStatus R \<noteq> Inr (b, R')" for b R'
    using update_Inr [OF steps_inv [OF assms(1) empty_inv], of clock i nextStatus b R'] assms(3) by auto
  then show ?thesis by (cases "updateAdapterStatus P clock i nextStatus R") auto
qed

section \<open>Witnesses\<close>

definition sample_adapter :: adapter_record where
  "sample_adapter = \<lparr>ad_adapter_id = ''a1'', ad_display_name = ''one'', ad_adapter_type = ''executor'', ad_owner_did = None,
     ad_marketMakerId = None, ad_supported_operations = [''export''], ad_supported_scope_types = [''field''],
     ad_endpoint_url = None, ad_documentation_url = None, ad_status = ''declared'', ad_registry_source = ''self_declared'',
     ad_created_at = ''2025-06-15T14:30:00Z'', ad_updated_at = ''2025-06-15T14:30:00Z'', ad_metadata = None\<rparr>"

lemma sample_texts: "seconds_text 1736951400000 = ''2025-01-15T14:30:00Z''" "seconds_text 1749997800000 = ''2025-06-15T14:30:00Z''"
  using seconds_text_iso(1) sample_moments sample_date by (metis sum.inject(2))+

lemma sample_adapter_ok: "adapter_ok P sample_adapter"
proof -
  have "isISOStringUtc P ''2025-06-15T14:30:00Z''" using seconds_text_iso(2) [OF sample_moments(2)] by (simp add: sample_texts)
  moreover have "text_ok ''a1''" "text_ok ''one''" "text_ok ''export''" by (simp_all add: text_ok_def trim_def js_space_def)
  ultimately show ?thesis
    by (simp add: adapter_ok_def sample_adapter_def optional_ok_def ADAPTER_TYPES_def ADAPTER_STATUS_def
        ADAPTER_REGISTRY_SOURCES_def ADAPTER_SCOPE_TYPES_def)
qed

lemma sample_registered: "registerAdapter P (adapter_json sample_adapter) createAdapterRegistry = Inr (sample_adapter, [(''a1'', sample_adapter)])"
  by (simp add: register_Inr ok_parses [OF sample_adapter_ok] createAdapterRegistry_def) (simp add: sample_adapter_def)

lemma sample_reached: "(adapter_step P)\<^sup>*\<^sup>* createAdapterRegistry [(''a1'', sample_adapter)]"
  using adapter_step.registers [OF sample_registered] by blast

lemma parsed_adapter_well_formed_witness:
  "adapter_ok zero_platform sample_adapter \<and> normalizeAdapterRecord sample_adapter = sample_adapter"
  using parsed_adapter_well_formed [OF ok_parses [OF sample_adapter_ok [of zero_platform]]] by simp

lemma reachable_adapters_witness: "distinct (map fst [(''a1'', sample_adapter)])"
  using reachable_adapters [OF sample_reached [of zero_platform]] by blast

lemma adapter_status_only_advances_witness:
  "\<exists>r R'. updateAdapterStatus zero_platform 1749997800000 ''a1'' ''revoked'' [(''a1'', sample_adapter)] = Inr (r, R') \<and>
    (\<exists>b. getAdapterById R' ''a1'' = Some b \<and> ad_display_name b = ''one'')"
proof -
  have inv: "adapter_inv zero_platform [(''a1'', sample_adapter)]" by (rule steps_inv [OF sample_reached empty_inv])
  have "moves (ad_status sample_adapter) ''revoked''" "ad_created_at sample_adapter \<le> seconds_text 1749997800000"
    by (simp_all add: moves_def sample_adapter_def sample_texts)
  then obtain r R' where update: "updateAdapterStatus zero_platform 1749997800000 ''a1'' ''revoked'' [(''a1'', sample_adapter)] = Inr (r, R')"
    using update_Inr [OF inv, of 1749997800000 "''a1''" "''revoked''"] seconds_text_iso(2) [OF sample_moments(2)] by auto
  have "getAdapterById [(''a1'', sample_adapter)] ''a1'' = Some sample_adapter" by (simp add: getAdapterById_def cloneRecord_def)
  from adapter_status_only_advances [OF sample_reached r_into_rtranclp this, OF adapter_step.updates, OF update]
  obtain b where "getAdapterById R' ''a1'' = Some b" "b = sample_adapter \<or>
      b = sample_adapter\<lparr>ad_status := ad_status b, ad_updated_at := ad_updated_at b\<rparr>" by blast
  moreover from this(2) have "ad_display_name b = ad_display_name sample_adapter" by (cases b) (auto simp: sample_adapter_def)
  ultimately show ?thesis using update by (auto simp: sample_adapter_def)
qed

lemma future_adapter_cannot_be_revoked_witness:
  "\<exists>e. updateAdapterStatus zero_platform 1736951400000 ''a1'' ''revoked'' [(''a1'', sample_adapter)] = Inl e"
  by (rule future_adapter_cannot_be_revoked [OF sample_reached, of _ sample_adapter])
    (simp_all add: getAdapterById_def cloneRecord_def sample_texts sample_adapter_def less_char_def)

end
