(* ===== verification/Identity.thy ===== *)
theory Identity
  imports Untrusted
begin

text \<open>
  \<open>protocol/identity/\<close>: actors and the registry that holds them, references to their identities,
  delegation grants, and trust chains, the paths of grants that lead from a root actor to a delegate.
  A chain is searched breadth first with the set of the actors already expanded.
\<close>

section \<open>Values\<close>

text \<open>\<open>Boolean(x)\<close> for a text that may be \<open>undefined\<close>.\<close>

definition truthy :: "string option \<Rightarrow> bool" where
  "truthy x \<longleftrightarrow> (case x of None \<Rightarrow> False | Some s \<Rightarrow> s \<noteq> [])"

text \<open>\<open>now ?? new Date()\<close>.\<close>

definition now_or :: "int \<Rightarrow> jsdate option \<Rightarrow> jsdate" where
  "now_or clock now = (case now of None \<Rightarrow> Some clock | Some date \<Rightarrow> date)"

text \<open>\<open>new Date().toISOString()\<close>: the system clock is within the range of dates.\<close>

definition clock_text :: "int \<Rightarrow> string" where
  "clock_text clock = (case to_iso_string (Some clock) of Inr s \<Rightarrow> s | Inl e \<Rightarrow> [])"

text \<open>\<open>a > b\<close> on dates: false when one of them is invalid.\<close>

definition date_later :: "jsdate \<Rightarrow> jsdate \<Rightarrow> bool" where
  "date_later a b \<longleftrightarrow> (case (a, b) of (Some s, Some t) \<Rightarrow> s > t | _ \<Rightarrow> False)"

text \<open>\<open>if (condition) reasons.push(reason)\<close>.\<close>

definition reason_if :: "bool \<Rightarrow> string \<Rightarrow> string list" where
  "reason_if condition reason = (if condition then [reason] else [])"

text \<open>\<open>a < b\<close> and \<open>Math.min(a, b)\<close> on numbers.\<close>

fun signed :: "bool \<Rightarrow> nat \<Rightarrow> int" where
  "signed negative m = (if negative then - int m else int m)"

fun num_less :: "jsnum \<Rightarrow> jsnum \<Rightarrow> bool" where
  "num_less NaN b = False"
| "num_less a NaN = False"
| "num_less (Infinite n) (Infinite n') = (n \<and> \<not> n')"
| "num_less (Infinite n) (Num s m e) = n"
| "num_less (Num s m e) (Infinite n) = (\<not> n)"
| "num_less (Num s m e) (Num s' m' e') = (signed s m * 10 ^ nat (e - min e e') < signed s' m' * 10 ^ nat (e' - min e e'))"

definition num_min :: "jsnum \<Rightarrow> jsnum \<Rightarrow> jsnum" where
  "num_min a b = (if a = NaN \<or> b = NaN then NaN else if num_less b a then b else a)"

section \<open>Actors\<close>

record ai_restrictions =
  ai_disallowAutonomousDelegation :: bool
  ai_requireHumanEscalationForActions :: "string list"
  ai_blockedScopes :: "string list"

record authority_boundary =
  ab_maxDelegationDepth :: jsnum
  ab_blockedActions :: "string list"
  ab_restrictedScopes :: "string list"
  ab_aiRestrictions :: ai_restrictions
  ab_requireHumanReview :: bool

record actor =
  act_actorId :: string
  act_actorType :: string
  act_displayName :: string
  act_organizationId :: "string option"
  act_parentActorId :: "string option"
  act_trustLevel :: string
  act_active :: bool
  act_authorityBoundary :: authority_boundary
  act_metadata :: "json_object option"
  act_createdAt :: string
  act_updatedAt :: string
  act_deactivatedAt :: "string option"

definition VALID_ACTOR_TYPES :: "string list" where
  "VALID_ACTOR_TYPES = [''human'', ''organization'', ''brand'', ''app'', ''ai_agent'', ''delegate'', ''system'']"

definition defaultAuthorityBoundary :: authority_boundary where
  "defaultAuthorityBoundary = \<lparr>ab_maxDelegationDepth = int_num 2, ab_blockedActions = [], ab_restrictedScopes = [],
     ab_aiRestrictions = \<lparr>ai_disallowAutonomousDelegation = True, ai_requireHumanEscalationForActions = [], ai_blockedScopes = []\<rparr>,
     ab_requireHumanReview = False\<rparr>"

record actor_input =
  ain_actorId :: string
  ain_actorType :: string
  ain_displayName :: string
  ain_trustLevel :: "string option"
  ain_organizationId :: "string option"
  ain_parentActorId :: "string option"
  ain_authorityBoundary :: "authority_boundary option"
  ain_metadata :: "json_object option"
  ain_now :: "jsdate option"

definition createActor :: "int \<Rightarrow> actor_input \<Rightarrow> actor result" where
  "createActor clock inp =
     after (first_throw [
       throw_if (trim (ain_actorId inp) = []) ''actorId is required.'',
       throw_if (ain_actorType inp \<notin> set VALID_ACTOR_TYPES) (''Invalid actorType: '' @ ain_actorType inp @ ''.''),
       throw_if (trim (ain_displayName inp) = []) ''displayName is required.''])
     (bind_result (to_iso_string (now_or clock (ain_now inp))) (\<lambda>now.
       Inr \<lparr>act_actorId = ain_actorId inp, act_actorType = ain_actorType inp, act_displayName = ain_displayName inp,
         act_organizationId = ain_organizationId inp, act_parentActorId = ain_parentActorId inp,
         act_trustLevel = (case ain_trustLevel inp of None \<Rightarrow> ''baseline'' | Some t \<Rightarrow> t), act_active = True,
         act_authorityBoundary = (case ain_authorityBoundary inp of None \<Rightarrow> defaultAuthorityBoundary | Some b \<Rightarrow> b),
         act_metadata = ain_metadata inp, act_createdAt = now, act_updatedAt = now, act_deactivatedAt = None\<rparr>))"

record identity_reference =
  ir_referenceId :: string
  ir_actorId :: string
  ir_kind :: string
  ir_value :: string
  ir_provider :: "string option"
  ir_verificationStatus :: string
  ir_verifiedAt :: "string option"
  ir_createdAt :: string
  ir_updatedAt :: string
  ir_metadata :: "json_object option"

definition createIdentityReference ::
  "int \<Rightarrow> string \<Rightarrow> string \<Rightarrow> string \<Rightarrow> string \<Rightarrow> string option \<Rightarrow> string option \<Rightarrow> jsdate option \<Rightarrow> json_object option \<Rightarrow>
   identity_reference result" where
  "createIdentityReference clock referenceId actorId kind val provider verificationStatus now metadata =
     after (throw_if (referenceId = [] \<or> actorId = [] \<or> val = []) ''referenceId, actorId, and value are required.'')
     (bind_result (to_iso_string (now_or clock now)) (\<lambda>nowIso.
       Inr \<lparr>ir_referenceId = referenceId, ir_actorId = actorId, ir_kind = kind, ir_value = val, ir_provider = provider,
         ir_verificationStatus = (case verificationStatus of None \<Rightarrow> ''unverified'' | Some s \<Rightarrow> s),
         ir_verifiedAt = (if verificationStatus = Some ''verified'' then Some nowIso else None),
         ir_createdAt = nowIso, ir_updatedAt = nowIso, ir_metadata = metadata\<rparr>))"

subsection \<open>Registry\<close>

type_synonym actor_registry = "(string \<times> actor) list"

text \<open>\<open>Partial<Actor>\<close>: the properties the patch has; an optional one may be set to \<open>undefined\<close>.\<close>

record actor_patch =
  ap_actorId :: "string option"
  ap_actorType :: "string option"
  ap_displayName :: "string option"
  ap_organizationId :: "string option option"
  ap_parentActorId :: "string option option"
  ap_trustLevel :: "string option"
  ap_active :: "bool option"
  ap_authorityBoundary :: "authority_boundary option"
  ap_metadata :: "json_object option option"
  ap_createdAt :: "string option"
  ap_updatedAt :: "string option"
  ap_deactivatedAt :: "string option option"

definition no_patch :: actor_patch where
  "no_patch = \<lparr>ap_actorId = None, ap_actorType = None, ap_displayName = None, ap_organizationId = None, ap_parentActorId = None,
     ap_trustLevel = None, ap_active = None, ap_authorityBoundary = None, ap_metadata = None, ap_createdAt = None,
     ap_updatedAt = None, ap_deactivatedAt = None\<rparr>"

definition patched :: "'a option \<Rightarrow> 'a \<Rightarrow> 'a" where
  "patched p x = (case p of None \<Rightarrow> x | Some v \<Rightarrow> v)"

definition spread_actor :: "actor \<Rightarrow> actor_patch \<Rightarrow> actor" where
  "spread_actor current patch = \<lparr>act_actorId = patched (ap_actorId patch) (act_actorId current),
     act_actorType = patched (ap_actorType patch) (act_actorType current),
     act_displayName = patched (ap_displayName patch) (act_displayName current),
     act_organizationId = patched (ap_organizationId patch) (act_organizationId current),
     act_parentActorId = patched (ap_parentActorId patch) (act_parentActorId current),
     act_trustLevel = patched (ap_trustLevel patch) (act_trustLevel current),
     act_active = patched (ap_active patch) (act_active current),
     act_authorityBoundary = patched (ap_authorityBoundary patch) (act_authorityBoundary current),
     act_metadata = patched (ap_metadata patch) (act_metadata current),
     act_createdAt = patched (ap_createdAt patch) (act_createdAt current),
     act_updatedAt = patched (ap_updatedAt patch) (act_updatedAt current),
     act_deactivatedAt = patched (ap_deactivatedAt patch) (act_deactivatedAt current)\<rparr>"

definition registerActor :: "actor \<Rightarrow> actor_registry \<Rightarrow> (actor \<times> actor_registry) result" where
  "registerActor actor actors =
     after (throw_if (map_of actors (act_actorId actor) \<noteq> None) (''Actor already exists: '' @ act_actorId actor))
       (Inr (actor, map_set (act_actorId actor) actor actors))"

definition resolveActor :: "actor_registry \<Rightarrow> string \<Rightarrow> actor result" where
  "resolveActor actors actorId = (case map_of actors actorId of
     None \<Rightarrow> Inl (Error (''Actor not found: '' @ actorId)) | Some actor \<Rightarrow> Inr actor)"

definition updateActor :: "string \<Rightarrow> actor_patch \<Rightarrow> jsdate \<Rightarrow> actor_registry \<Rightarrow> (actor \<times> actor_registry) result" where
  "updateActor actorId patch now actors =
     bind_result (resolveActor actors actorId) (\<lambda>current.
     bind_result (to_iso_string now) (\<lambda>nowIso.
       let updated = (spread_actor current patch)\<lparr>act_actorId := act_actorId current, act_updatedAt := nowIso\<rparr> in
       Inr (updated, map_set (act_actorId updated) updated actors)))"

definition deactivateActor :: "string \<Rightarrow> jsdate \<Rightarrow> actor_registry \<Rightarrow> (actor \<times> actor_registry) result" where
  "deactivateActor actorId now actors =
     bind_result (to_iso_string now) (\<lambda>nowIso.
       updateActor actorId (no_patch\<lparr>ap_active := Some False, ap_deactivatedAt := Some (Some nowIso)\<rparr>) now actors)"

definition resolveRelationshipActors :: "actor_registry \<Rightarrow> string \<Rightarrow> string \<Rightarrow> (actor \<times> actor) result" where
  "resolveRelationshipActors registry subjectActorId objectActorId =
     bind_result (resolveActor registry subjectActorId) (\<lambda>subject.
     bind_result (resolveActor registry objectActorId) (\<lambda>object. Inr (subject, object)))"

record normalized_actor =
  na_actorId :: string
  na_actorType :: string
  na_organizationId :: "string option"
  na_trustLevel :: string
  na_active :: bool

definition normalizeActorForPDP :: "actor \<Rightarrow> normalized_actor" where
  "normalizeActorForPDP actor = \<lparr>na_actorId = act_actorId actor, na_actorType = act_actorType actor,
     na_organizationId = act_organizationId actor, na_trustLevel = act_trustLevel actor, na_active = act_active actor\<rparr>"

text \<open>The runs of a registry.\<close>

inductive actor_step :: "actor_registry \<Rightarrow> actor_registry \<Rightarrow> bool" where
  registers: "registerActor actor R = Inr (a, R') \<Longrightarrow> actor_step R R'"
| updates: "updateActor actorId patch now R = Inr (a, R') \<Longrightarrow> actor_step R R'"
| deactivates: "deactivateActor actorId now R = Inr (a, R') \<Longrightarrow> actor_step R R'"

section \<open>Delegation\<close>

record delegation_grant =
  dg_grantId :: string
  dg_delegatorActorId :: string
  dg_delegateActorId :: string
  dg_allowedActions :: "string list"
  dg_allowedScopes :: "string list"
  dg_issuedAt :: string
  dg_expiresAt :: "string option"
  dg_revokedAt :: "string option"
  dg_metadata :: "json_object option"

record delegation_validation =
  dv_valid :: bool
  dv_reasons :: "string list"

definition createDelegationGrant ::
  "int \<Rightarrow> string \<Rightarrow> string \<Rightarrow> string \<Rightarrow> string list \<Rightarrow> string list \<Rightarrow> string option \<Rightarrow> jsdate option \<Rightarrow> json_object option \<Rightarrow>
   delegation_grant result" where
  "createDelegationGrant clock grantId delegator delegate allowedActions allowedScopes expiresAt now metadata =
     bind_result (to_iso_string (now_or clock now)) (\<lambda>issuedAt.
     after (first_throw [throw_if (allowedActions = []) ''allowedActions must be non-empty.'',
       throw_if (allowedScopes = []) ''allowedScopes must be non-empty.''])
     (Inr \<lparr>dg_grantId = grantId, dg_delegatorActorId = delegator, dg_delegateActorId = delegate,
       dg_allowedActions = unique allowedActions, dg_allowedScopes = unique allowedScopes, dg_issuedAt = issuedAt,
       dg_expiresAt = expiresAt, dg_revokedAt = None, dg_metadata = metadata\<rparr>))"

definition revokeDelegationGrant :: "delegation_grant \<Rightarrow> jsdate \<Rightarrow> delegation_grant result" where
  "revokeDelegationGrant grant now =
     bind_result (to_iso_string now) (\<lambda>nowIso. Inr (grant\<lparr>dg_revokedAt := Some nowIso\<rparr>))"

text \<open>\<open>moment && moment <= nowIso\<close>, on texts.\<close>

definition has_come :: "string option \<Rightarrow> string \<Rightarrow> bool" where
  "has_come moment nowIso \<longleftrightarrow> (case moment of None \<Rightarrow> False | Some s \<Rightarrow> s \<noteq> [] \<and> s \<le> nowIso)"

definition validateDelegationGrant ::
  "delegation_grant \<Rightarrow> string \<Rightarrow> string list \<Rightarrow> jsdate \<Rightarrow> delegation_validation result" where
  "validateDelegationGrant grant requestedAction requestedScopes now =
     bind_result (to_iso_string now) (\<lambda>nowIso.
       let missingScopes = filter (\<lambda>scope. scope \<notin> set (dg_allowedScopes grant)) requestedScopes;
           reasons = reason_if (has_come (dg_revokedAt grant) nowIso) ''GRANT_REVOKED'' @
             reason_if (has_come (dg_expiresAt grant) nowIso) ''GRANT_EXPIRED'' @
             reason_if (requestedAction \<notin> set (dg_allowedActions grant)) ''ACTION_NOT_ALLOWED'' @
             reason_if (missingScopes \<noteq> []) (''SCOPE_NOT_ALLOWED:'' @ join '','' missingScopes)
       in Inr \<lparr>dv_valid = (reasons = []), dv_reasons = reasons\<rparr>)"

definition listActiveDelegations :: "delegation_grant list \<Rightarrow> jsdate \<Rightarrow> delegation_grant list result" where
  "listActiveDelegations grants now =
     bind_result (to_iso_string now) (\<lambda>nowIso.
       Inr (filter (\<lambda>grant. \<not> truthy (dg_revokedAt grant) \<and>
         (\<not> truthy (dg_expiresAt grant) \<or> the (dg_expiresAt grant) > nowIso)) grants))"

definition evaluateDelegationAwareAccess ::
  "int \<Rightarrow> delegation_grant list \<Rightarrow> string \<Rightarrow> string \<Rightarrow> string \<Rightarrow> string list \<Rightarrow> jsdate option \<Rightarrow> delegation_validation result" where
  "evaluateDelegationAwareAccess clock grants delegator delegate action scopes now =
     bind_result (listActiveDelegations grants (now_or clock now)) (\<lambda>active.
     case find (\<lambda>grant. dg_delegatorActorId grant = delegator \<and> dg_delegateActorId grant = delegate) active of
       None \<Rightarrow> Inr \<lparr>dv_valid = False, dv_reasons = [''NO_ACTIVE_DELEGATION'']\<rparr>
     | Some candidate \<Rightarrow> validateDelegationGrant candidate action scopes (now_or clock now))"

section \<open>Trust chains\<close>

record trust_link =
  tl_fromActorId :: string
  tl_toActorId :: string
  tl_grantId :: string

record trust_chain =
  tc_rootActorId :: string
  tc_delegatedActors :: "string list"
  tc_trustPath :: "trust_link list"
  tc_chainValidity :: string
  tc_evaluatedAt :: string
  tc_reasons :: "string list"

definition link_of :: "delegation_grant \<Rightarrow> trust_link" where
  "link_of grant = \<lparr>tl_fromActorId = dg_delegatorActorId grant, tl_toActorId = dg_delegateActorId grant,
     tl_grantId = dg_grantId grant\<rparr>"

type_synonym adjacency = "(string \<times> delegation_grant list) list"

definition outgoing :: "adjacency \<Rightarrow> string \<Rightarrow> delegation_grant list" where
  "outgoing adjacency actorId = (case map_of adjacency actorId of None \<Rightarrow> [] | Some grants \<Rightarrow> grants)"

definition build_adjacency :: "delegation_grant list \<Rightarrow> adjacency" where
  "build_adjacency grants = foldl (\<lambda>adjacency grant.
     map_set (dg_delegatorActorId grant) (outgoing adjacency (dg_delegatorActorId grant) @ [grant]) adjacency) [] grants"

record trust_node =
  tn_actorId :: string
  tn_path :: "trust_link list"
  tn_actors :: "string list"

definition extend_node :: "trust_node \<Rightarrow> delegation_grant \<Rightarrow> trust_node" where
  "extend_node current grant = \<lparr>tn_actorId = dg_delegateActorId grant, tn_path = tn_path current @ [link_of grant],
     tn_actors = tn_actors current @ [dg_delegateActorId grant]\<rparr>"

text \<open>
  The loop over the queue.  It ends: an actor is expanded once, and only an actor with grants of its own
  adds to the queue.
\<close>

function trust_search :: "adjacency \<Rightarrow> string \<Rightarrow> trust_node list \<Rightarrow> string set \<Rightarrow> trust_node option" where
  "trust_search adjacency target [] visited = None"
| "trust_search adjacency target (current # queue) visited =
     (if tn_actorId current = target then Some current
      else if tn_actorId current \<in> visited then trust_search adjacency target queue visited
      else trust_search adjacency target (queue @ map (extend_node current) (outgoing adjacency (tn_actorId current)))
        (insert (tn_actorId current) visited))"
  by pat_completeness auto
termination
proof (relation "measures [\<lambda>(adj, t, q, V). card (fst ` set adj - V), \<lambda>(adj, t, q, V). length q]")
  fix adj :: adjacency and target :: string and current :: trust_node and queue and V :: "string set"
  let ?a = "tn_actorId current"
  let ?K = "fst ` set adj"
  assume new: "?a \<notin> V"
  show "((adj, target, queue @ map (extend_node current) (outgoing adj ?a), insert ?a V), adj, target, current # queue, V)
      \<in> measures [\<lambda>(adj, t, q, V). card (fst ` set adj - V), \<lambda>(adj, t, q, V). length q]"
  proof (cases "?a \<in> ?K")
    case True
    then have "?K - insert ?a V \<subset> ?K - V" using new by auto
    then have "card (?K - insert ?a V) < card (?K - V)" by (intro psubset_card_mono) auto
    then show ?thesis by simp
  next
    case False
    then have "?K - insert ?a V = ?K - V" and "map_of adj ?a = None" by (auto simp: map_of_eq_None_iff)
    then show ?thesis by (simp add: outgoing_def)
  qed
qed simp_all

definition buildTrustChain :: "string \<Rightarrow> string \<Rightarrow> delegation_grant list \<Rightarrow> jsdate \<Rightarrow> trust_chain result" where
  "buildTrustChain rootActorId targetActorId grants now =
     (case trust_search (build_adjacency grants) targetActorId
         [\<lparr>tn_actorId = rootActorId, tn_path = [], tn_actors = [rootActorId]\<rparr>] {} of
        Some current \<Rightarrow> bind_result (to_iso_string now) (\<lambda>evaluatedAt.
          Inr \<lparr>tc_rootActorId = rootActorId, tc_delegatedActors = drop 1 (tn_actors current), tc_trustPath = tn_path current,
            tc_chainValidity = ''valid'', tc_evaluatedAt = evaluatedAt, tc_reasons = []\<rparr>)
      | None \<Rightarrow> bind_result (to_iso_string now) (\<lambda>evaluatedAt.
          Inr \<lparr>tc_rootActorId = rootActorId, tc_delegatedActors = [], tc_trustPath = [],
            tc_chainValidity = ''invalid'', tc_evaluatedAt = evaluatedAt, tc_reasons = [''NO_TRUST_PATH'']\<rparr>))"

fun broken_link :: "trust_link list \<Rightarrow> bool" where
  "broken_link (a # b # links) \<longleftrightarrow> tl_toActorId a \<noteq> tl_fromActorId b \<or> broken_link (b # links)"
| "broken_link links \<longleftrightarrow> False"

definition validateTrustChain :: "trust_chain \<Rightarrow> jsnum \<Rightarrow> delegation_validation" where
  "validateTrustChain chain maxDepth =
     (let reasons = reason_if (tc_chainValidity chain \<noteq> ''valid'') ''CHAIN_MARKED_INVALID'' @
        reason_if (tc_trustPath chain = []) ''EMPTY_TRUST_PATH'' @
        reason_if (num_less maxDepth (int_num (int (length (tc_trustPath chain))))) ''MAX_DELEGATION_DEPTH_EXCEEDED'' @
        reason_if (broken_link (tc_trustPath chain)) ''BROKEN_TRUST_LINK''
      in \<lparr>dv_valid = (reasons = []), dv_reasons = reasons\<rparr>)"


section \<open>Lemmas\<close>

subsection \<open>The registry\<close>

interpretation actors: keyed_store "map_of :: actor_registry \<Rightarrow> _" map_set
  by unfold_locales (rule map_of_map_set)

definition actor_inv :: "actor_registry \<Rightarrow> bool" where
  "actor_inv R \<longleftrightarrow> distinct (map fst R) \<and> actors.all_entries (\<lambda>i a. i = act_actorId a) R"

lemma resolveActor_Inr [result_simps]: "resolveActor R i = Inr a \<longleftrightarrow> map_of R i = Some a"
  by (auto simp: resolveActor_def split: option.splits)

lemma updateActor_Inr [result_simps]: "updateActor i patch now R = Inr (a, R') \<longleftrightarrow>
    (\<exists>c text. map_of R i = Some c \<and> to_iso_string now = Inr text \<and>
      a = (spread_actor c patch)\<lparr>act_actorId := act_actorId c, act_updatedAt := text\<rparr> \<and> R' = map_set (act_actorId c) a R)"
  by (auto simp: updateActor_def result_simps Let_def)

text \<open>A step writes one actor, under its own identifier.\<close>

lemma actor_step_write:
  assumes "actor_step R R'" and "actor_inv R"
  shows "\<exists>a. R' = map_set (act_actorId a) a R"
  using assms
proof (cases rule: actor_step.cases)
  case (registers actor a)
  then show ?thesis by (auto simp: registerActor_def result_simps)
next
  case (updates i patch now a)
  then obtain c stamp where "a = (spread_actor c patch)\<lparr>act_actorId := act_actorId c, act_updatedAt := stamp\<rparr>"
    "R' = map_set (act_actorId c) a R" by (auto simp: updateActor_Inr)
  then show ?thesis by (intro exI [of _ a]) simp
next
  case (deactivates i now a)
  then obtain c patch stamp where "a = (spread_actor c patch)\<lparr>act_actorId := act_actorId c, act_updatedAt := stamp\<rparr>"
    "R' = map_set (act_actorId c) a R" by (auto simp: deactivateActor_def updateActor_Inr bind_result_Inr)
  then show ?thesis by (intro exI [of _ a]) simp
qed

lemma actor_step_inv: "actor_step R R' \<Longrightarrow> actor_inv R \<Longrightarrow> actor_inv R'"
  using actor_step_write [of R R'] actors.all_entries_put [of "\<lambda>i a. i = act_actorId a"] distinct_map_set
  by (auto simp: actor_inv_def)

lemma actor_runs_inv: "actor_step\<^sup>*\<^sup>* R R' \<Longrightarrow> actor_inv R \<Longrightarrow> actor_inv R'"
  by (induction rule: rtranclp_induct) (auto intro: actor_step_inv)

lemma actor_inv_Nil [simp]: "actor_inv []"
  by (simp add: actor_inv_def actors.all_entries_def)

lemma actor_runs_keep:
  assumes "actor_step\<^sup>*\<^sup>* R R'" and "actor_inv R" and "i \<in> fst ` set R"
  shows "i \<in> fst ` set R'"
  using assms
proof (induction rule: rtranclp_induct)
  case (step S T)
  then have "actor_inv S" by (blast intro: actor_runs_inv)
  then obtain a where "T = map_set (act_actorId a) a S" using actor_step_write step.hyps(2) by blast
  moreover have "i \<in> set (map fst S)" using step by simp
  ultimately show ?case using keys_map_set [of "act_actorId a" a S] by (auto simp flip: set_map split: if_splits)
qed

subsection \<open>Delegation\<close>

lemma reason_if_Nil [simp]: "reason_if c r = [] \<longleftrightarrow> \<not> c"
  by (simp add: reason_if_def)

lemma set_reason_if [simp]: "set (reason_if c r) = (if c then {r} else {})"
  by (simp add: reason_if_def)

text \<open>What a grant must be at a moment to license an action on scopes.\<close>

definition licenses :: "delegation_grant \<Rightarrow> string \<Rightarrow> string list \<Rightarrow> string \<Rightarrow> bool" where
  "licenses g action scopes nowIso \<longleftrightarrow> \<not> has_come (dg_revokedAt g) nowIso \<and> \<not> has_come (dg_expiresAt g) nowIso \<and>
     action \<in> set (dg_allowedActions g) \<and> set scopes \<subseteq> set (dg_allowedScopes g)"

lemma validates_grant:
  "to_iso_string now = Inr nowIso \<Longrightarrow> \<exists>r. validateDelegationGrant g action scopes now = Inr r \<and>
     (dv_valid r \<longleftrightarrow> licenses g action scopes nowIso)"
  by (auto simp: validateDelegationGrant_def Let_def licenses_def filter_empty_conv)

lemma active_delegation: "to_iso_string now = Inr nowIso \<Longrightarrow> listActiveDelegations grants now = Inr gs \<Longrightarrow> g \<in> set gs \<longleftrightarrow>
    g \<in> set grants \<and> \<not> truthy (dg_revokedAt g) \<and> \<not> has_come (dg_expiresAt g) nowIso"
  by (auto simp: listActiveDelegations_def truthy_def has_come_def not_le split: option.splits)

subsection \<open>Trust chains\<close>

lemma outgoing_map_set: "outgoing (map_set k gs adj) a = (if a = k then gs else outgoing adj a)"
  by (simp add: outgoing_def map_of_map_set)

lemma outgoing_build: "outgoing (build_adjacency grants) a = filter (\<lambda>g. dg_delegatorActorId g = a) grants"
proof (induction grants rule: rev_induct)
  case Nil
  then show ?case by (simp add: build_adjacency_def outgoing_def)
next
  case (snoc g grants)
  then show ?case by (auto simp: build_adjacency_def outgoing_map_set)
qed

text \<open>A path of links from one actor to another; the links a list of grants gives.\<close>

fun link_path :: "string \<Rightarrow> trust_link list \<Rightarrow> string \<Rightarrow> bool" where
  "link_path a [] b \<longleftrightarrow> a = b"
| "link_path a (l # links) b \<longleftrightarrow> tl_fromActorId l = a \<and> link_path (tl_toActorId l) links b"

definition delegation_path :: "delegation_grant list \<Rightarrow> string \<Rightarrow> trust_link list \<Rightarrow> string \<Rightarrow> bool" where
  "delegation_path grants a links b \<longleftrightarrow> link_path a links b \<and> set links \<subseteq> link_of ` set grants"

lemma link_path_append: "link_path a (ls @ ls') b \<longleftrightarrow> (\<exists>c. link_path a ls c \<and> link_path c ls' b)"
  by (induction ls arbitrary: a) auto

lemma link_path_unbroken: "link_path a ls b \<Longrightarrow> \<not> broken_link ls"
  by (induction ls arbitrary: a rule: broken_link.induct) auto

lemma link_of_simps [simp]: "tl_fromActorId (link_of g) = dg_delegatorActorId g" "tl_toActorId (link_of g) = dg_delegateActorId g"
    "tl_grantId (link_of g) = dg_grantId g"
  by (simp_all add: link_of_def)

lemma extend_node_simps [simp]: "tn_actorId (extend_node c g) = dg_delegateActorId g" "tn_path (extend_node c g) = tn_path c @ [link_of g]"
    "tn_actors (extend_node c g) = tn_actors c @ [dg_delegateActorId g]"
  by (simp_all add: extend_node_def)

text \<open>Soundness: a node of the queue carries a path from the root to its actor.\<close>

definition node_ok :: "delegation_grant list \<Rightarrow> string \<Rightarrow> trust_node \<Rightarrow> bool" where
  "node_ok grants root n \<longleftrightarrow> delegation_path grants root (tn_path n) (tn_actorId n) \<and>
     tn_actors n = root # map tl_toActorId (tn_path n)"

lemma node_ok_extend:
  "node_ok grants root n \<Longrightarrow> g \<in> set grants \<Longrightarrow> dg_delegatorActorId g = tn_actorId n \<Longrightarrow> node_ok grants root (extend_node n g)"
  by (auto simp: node_ok_def delegation_path_def link_path_append)

lemma search_sound:
  "trust_search adj target queue V = Some n \<Longrightarrow> adj = build_adjacency grants \<Longrightarrow> \<forall>q \<in> set queue. node_ok grants root q \<Longrightarrow>
   node_ok grants root n \<and> tn_actorId n = target"
proof (induction adj target queue V rule: trust_search.induct)
  case (2 adj target current queue V)
  show ?case
  proof (cases "tn_actorId current = target \<or> tn_actorId current \<in> V")
    case True
    then show ?thesis using 2 by (auto split: if_splits)
  next
    case False
    have "\<forall>q \<in> set (queue @ map (extend_node current) (outgoing adj (tn_actorId current))). node_ok grants root q"
      using 2(4,5) by (auto simp: outgoing_build intro: node_ok_extend)
    then show ?thesis using 2 False by simp
  qed
qed simp

text \<open>
  Completeness, with lengths: the queue holds paths of two lengths, the shorter ones first, and as long as some
  entry of it can be continued to the target through actors not yet expanded, the search answers with a path that
  is no longer.
\<close>

definition two_levels :: "trust_node list \<Rightarrow> bool" where
  "two_levels queue \<longleftrightarrow> sorted (map (\<lambda>n. length (tn_path n)) queue) \<and>
     (\<forall>p \<in> set queue. length (tn_path p) \<le> Suc (length (tn_path (hd queue))))"

definition continues :: "delegation_grant list \<Rightarrow> string set \<Rightarrow> string \<Rightarrow> nat \<Rightarrow> trust_node \<Rightarrow> bool" where
  "continues grants V target n q \<longleftrightarrow> (\<exists>ls. delegation_path grants (tn_actorId q) ls target \<and>
     tl_fromActorId ` set ls \<inter> V = {} \<and> length (tn_path q) + length ls \<le> n)"

lemma two_levels_tail: "two_levels (q # queue) \<Longrightarrow> two_levels queue"
  by (cases queue) (auto simp: two_levels_def)

lemma two_levels_expand:
  assumes "two_levels (q # queue)"
  shows "two_levels (queue @ map (extend_node q) gs)"
proof -
  have len: "\<forall>p \<in> set queue. length (tn_path q) \<le> length (tn_path p) \<and> length (tn_path p) \<le> Suc (length (tn_path q))"
    "sorted (map (\<lambda>n. length (tn_path n)) queue)" using assms by (auto simp: two_levels_def)
  then show ?thesis
    by (cases queue; cases gs) (fastforce simp: two_levels_def sorted_append comp_def sorted_replicate map_replicate_const)+
qed

lemma last_source:
  "a \<in> tl_fromActorId ` set ls \<Longrightarrow> link_path x ls b \<Longrightarrow> \<exists>l ls'. set (l # ls') \<subseteq> set ls \<and> length ls' < length ls \<and>
     tl_fromActorId l = a \<and> a \<notin> tl_fromActorId ` set ls' \<and> link_path (tl_toActorId l) ls' b"
proof (induction ls arbitrary: x)
  case (Cons l ls)
  show ?case
  proof (cases "a \<in> tl_fromActorId ` set ls")
    case True
    with Cons.IH [of "tl_toActorId l"] Cons.prems obtain k ls' where "set (k # ls') \<subseteq> set ls" "length ls' < length ls"
      "tl_fromActorId k = a" "a \<notin> tl_fromActorId ` set ls'" "link_path (tl_toActorId k) ls' b" by auto
    then show ?thesis by (intro exI [of _ k] exI [of _ ls']) auto
  next
    case False
    then show ?thesis using Cons.prems by (intro exI [of _ l] exI [of _ ls]) auto
  qed
qed simp


lemma search_complete:
  "adj = build_adjacency grants \<Longrightarrow> two_levels queue \<Longrightarrow> \<exists>q \<in> set queue. continues grants V target n q \<Longrightarrow>
   \<exists>r. trust_search adj target queue V = Some r \<and> length (tn_path r) \<le> n"
proof (induction adj target queue V rule: trust_search.induct)
  case (2 adj target current queue V)
  let ?a = "tn_actorId current"
  obtain q ls where q: "q \<in> set (current # queue)" "delegation_path grants (tn_actorId q) ls target"
    "tl_fromActorId ` set ls \<inter> V = {}" "length (tn_path q) + length ls \<le> n"
    using "2.prems"(3) by (auto simp: continues_def)
  have first: "length (tn_path current) \<le> length (tn_path q)" using "2.prems"(2) q(1) by (auto simp: two_levels_def)
  consider "?a = target" | "?a \<noteq> target" "?a \<in> V" | "?a \<noteq> target" "?a \<notin> V" by blast
  then show ?case
  proof cases
    case 1
    then show ?thesis using first q(4) by simp
  next
    case 2
    have "q \<noteq> current" using 2 q(2,3) by (cases ls) (auto simp: delegation_path_def)
    then have "\<exists>q \<in> set queue. continues grants V target n q" using q by (auto simp: continues_def)
    then show ?thesis using 2 "2.IH"(1) "2.prems" two_levels_tail [of current queue] by simp
  next
    case 3
    let ?next = "queue @ map (extend_node current) (outgoing adj ?a)"
    have "\<exists>p \<in> set ?next. continues grants (insert ?a V) target n p"
    proof (cases "?a \<in> tl_fromActorId ` set ls")
      case True
      then obtain l ls' where l: "set (l # ls') \<subseteq> set ls" "length ls' < length ls" "tl_fromActorId l = ?a"
        "?a \<notin> tl_fromActorId ` set ls'" "link_path (tl_toActorId l) ls' target"
        using last_source [of ?a ls] q(2) unfolding delegation_path_def by blast
      then have "l \<in> link_of ` set grants" using q(2) by (auto simp: delegation_path_def)
      then obtain g where g: "g \<in> set grants" "l = link_of g" by auto
      then have "extend_node current g \<in> set ?next" using l(3) "2.prems"(1) by (simp add: outgoing_build)
      moreover have "continues grants (insert ?a V) target n (extend_node current g)"
        unfolding continues_def using l g q first by (intro exI [of _ ls']) (auto simp: delegation_path_def)
      ultimately show ?thesis by blast
    next
      case False
      have "q \<noteq> current" using 3 False q(2) by (cases ls) (auto simp: delegation_path_def)
      then have "q \<in> set ?next" using q(1) by auto
      moreover have "continues grants (insert ?a V) target n q" using q False by (auto simp: continues_def)
      ultimately show ?thesis by blast
    qed
    then show ?thesis using 3 "2.IH"(2) "2.prems" two_levels_expand [of current queue] by simp
  qed
qed simp

lemma trust_chain_cases:
  assumes "buildTrustChain root target grants now = Inr c"
  shows "(tc_chainValidity c = ''valid'' \<and> delegation_path grants root (tc_trustPath c) target \<and>
      tc_delegatedActors c = map tl_toActorId (tc_trustPath c) \<and>
      (\<forall>links. delegation_path grants root links target \<longrightarrow> length (tc_trustPath c) \<le> length links)) \<or>
    (tc_chainValidity c = ''invalid'' \<and> tc_trustPath c = [] \<and> (\<nexists>links. delegation_path grants root links target))"
proof -
  let ?start = "\<lparr>tn_actorId = root, tn_path = [], tn_actors = [root]\<rparr>"
  let ?found = "trust_search (build_adjacency grants) target [?start] {}"
  have start: "two_levels [?start]" "node_ok grants root ?start"
    by (simp_all add: two_levels_def node_ok_def delegation_path_def)
  have complete: "delegation_path grants root links target \<Longrightarrow> \<exists>n. ?found = Some n \<and> length (tn_path n) \<le> length links" for links
    using search_complete [OF refl start(1), of grants "{}" target "length links"] by (auto simp: continues_def simp del: trust_search.simps)
  show ?thesis
  proof (cases ?found)
    case None
    then show ?thesis using assms complete by (auto simp: buildTrustChain_def result_simps)
  next
    case (Some n)
    then have "node_ok grants root n \<and> tn_actorId n = target" using search_sound [OF Some refl] start(2) by simp
    moreover have "tc_chainValidity c = ''valid'' \<and> tc_trustPath c = tn_path n \<and> tc_delegatedActors c = drop 1 (tn_actors n)"
      using assms Some by (auto simp: buildTrustChain_def result_simps)
    ultimately show ?thesis using complete Some by (auto simp: node_ok_def)
  qed
qed

lemma paths_reach: "(\<exists>links. delegation_path grants a links b) \<longleftrightarrow>
    (a, b) \<in> {(dg_delegatorActorId g, dg_delegateActorId g) | g. g \<in> set grants}\<^sup>*" (is "_ \<longleftrightarrow> _ \<in> ?R\<^sup>*")
proof
  assume "\<exists>links. delegation_path grants a links b"
  then obtain links where "link_path a links b" "set links \<subseteq> link_of ` set grants" by (auto simp: delegation_path_def)
  then show "(a, b) \<in> ?R\<^sup>*"
  proof (induction links arbitrary: a)
    case (Cons l links)
    then obtain g where "g \<in> set grants" "l = link_of g" by auto
    then have "(a, tl_toActorId l) \<in> ?R" using Cons.prems(1) by auto
    then show ?case using Cons by (auto intro: converse_rtrancl_into_rtrancl)
  qed simp
next
  assume "(a, b) \<in> ?R\<^sup>*"
  then show "\<exists>links. delegation_path grants a links b"
  proof (induction rule: converse_rtrancl_induct)
    case base
    then show ?case by (intro exI [of _ "[]"]) (simp add: delegation_path_def)
  next
    case (step x y)
    then obtain g links where "g \<in> set grants" "x = dg_delegatorActorId g" "y = dg_delegateActorId g" "delegation_path grants y links b"
      by auto
    then show ?case by (intro exI [of _ "link_of g # links"]) (auto simp: delegation_path_def)
  qed
qed

text \<open>A chain found in the grants passes its validation when it is not empty and not too long.\<close>

lemma chain_validates:
  assumes "buildTrustChain root target grants now = Inr chain"
  shows "dv_valid (validateTrustChain chain depth) \<longleftrightarrow>
    tc_chainValidity chain = ''valid'' \<and> root \<noteq> target \<and> \<not> num_less depth (int_num (int (length (tc_trustPath chain))))"
proof -
  have "tc_chainValidity chain = ''valid'' \<Longrightarrow> \<not> broken_link (tc_trustPath chain)"
    using trust_chain_cases [OF assms] link_path_unbroken by (auto simp: delegation_path_def)
  moreover have "tc_chainValidity chain = ''valid'' \<Longrightarrow> tc_trustPath chain = [] \<longleftrightarrow> root = target"
  proof -
    assume "tc_chainValidity chain = ''valid''"
    then have "delegation_path grants root (tc_trustPath chain) target"
      "delegation_path grants root [] target \<longrightarrow> length (tc_trustPath chain) \<le> length ([] :: trust_link list)"
      using trust_chain_cases [OF assms] by auto
    then show "tc_trustPath chain = [] \<longleftrightarrow> root = target" by (auto simp: delegation_path_def)
  qed
  ultimately show ?thesis by (auto simp: validateTrustChain_def Let_def)
qed

text \<open>The links of a list of grants do not say when they expire or were revoked.\<close>

lemma search_dates:
  "\<forall>a. map (\<lambda>g. (dg_delegateActorId g, link_of g)) (outgoing adj a) = map (\<lambda>g. (dg_delegateActorId g, link_of g)) (outgoing adj' a) \<Longrightarrow>
   trust_search adj target queue V = trust_search adj' target queue V"
proof (induction adj target queue V rule: trust_search.induct)
  case (2 adj target current queue V)
  have "map (extend_node n) gs = map (\<lambda>(d, l). \<lparr>tn_actorId = d, tn_path = tn_path n @ [l], tn_actors = tn_actors n @ [d]\<rparr>)
      (map (\<lambda>g. (dg_delegateActorId g, link_of g)) gs)" for n gs by (simp add: extend_node_def comp_def)
  note pairs = this
  have "map (extend_node current) (outgoing adj (tn_actorId current)) = map (extend_node current) (outgoing adj' (tn_actorId current))"
    unfolding pairs using "2.prems" by (simp only:)
  then show ?case using 2 by simp
qed simp

lemma chain_ignores_dates:
  "buildTrustChain root target (map (\<lambda>g. g\<lparr>dg_expiresAt := e g, dg_revokedAt := r g\<rparr>) grants) now = buildTrustChain root target grants now"
proof -
  have "map (\<lambda>g. (dg_delegateActorId g, link_of g)) (outgoing (build_adjacency (map (\<lambda>g. g\<lparr>dg_expiresAt := e g, dg_revokedAt := r g\<rparr>) grants)) a) =
      map (\<lambda>g. (dg_delegateActorId g, link_of g)) (outgoing (build_adjacency grants) a)" for a
    by (simp add: outgoing_build filter_map comp_def link_of_def)
  then have "trust_search (build_adjacency (map (\<lambda>g. g\<lparr>dg_expiresAt := e g, dg_revokedAt := r g\<rparr>) grants)) target queue V =
      trust_search (build_adjacency grants) target queue V" for queue V by (intro search_dates) blast
  then show ?thesis by (simp add: buildTrustChain_def del: trust_search.simps)
qed


lemma iso_total: "\<exists>s. to_iso_string (Some t) = Inr s"
  by (auto simp: to_iso_string_def split: prod.splits)

section \<open>Properties\<close>

text \<open> C18: A trust chain from a root actor to a target is marked valid exactly when the target can be reached from
  the root through the grants.\<close>

theorem trust_chain_reachable:
  assumes "buildTrustChain root target grants now = Inr chain"
  shows "tc_chainValidity chain = ''valid'' \<longleftrightarrow>
    (root, target) \<in> {(dg_delegatorActorId g, dg_delegateActorId g) | g. g \<in> set grants}\<^sup>*"
  unfolding paths_reach [symmetric] using trust_chain_cases [OF assms] by auto

definition sample_delegation :: "string \<Rightarrow> string \<Rightarrow> string \<Rightarrow> delegation_grant" where
  "sample_delegation i a b = \<lparr>dg_grantId = i, dg_delegatorActorId = a, dg_delegateActorId = b, dg_allowedActions = [''read''],
     dg_allowedScopes = [''mail''], dg_issuedAt = ''2024-01-01T00:00:00.000Z'', dg_expiresAt = None, dg_revokedAt = None,
     dg_metadata = None\<rparr>"

definition sample_delegations :: "delegation_grant list" where
  "sample_delegations = [sample_delegation ''g1'' ''ann'' ''bob'', sample_delegation ''g2'' ''bob'' ''ann'', sample_delegation ''g3'' ''bob'' ''cy'']"

lemma sample_chain: "\<exists>t. buildTrustChain ''ann'' ''cy'' sample_delegations (Some 0) = Inr \<lparr>tc_rootActorId = ''ann'',
    tc_delegatedActors = [''bob'', ''cy''], tc_trustPath = [link_of (sample_delegation ''g1'' ''ann'' ''bob''),
    link_of (sample_delegation ''g3'' ''bob'' ''cy'')], tc_chainValidity = ''valid'', tc_evaluatedAt = t, tc_reasons = []\<rparr>"
  using iso_total [of 0] by (auto simp: buildTrustChain_def outgoing_build extend_node_def sample_delegations_def sample_delegation_def link_of_def)

theorem trust_chain_reachable_witness: "(''ann'', ''cy'') \<in>
    {(dg_delegatorActorId g, dg_delegateActorId g) | g. g \<in> set sample_delegations}\<^sup>*"
  using sample_chain trust_chain_reachable by fastforce

text \<open> C19: The path of a valid chain leads from the root to the target, every link of it is a grant, the delegated
  actors are those it passes, and no path of grants between the two is shorter.\<close>

theorem trust_chain_shortest:
  assumes "buildTrustChain root target grants now = Inr chain" and "tc_chainValidity chain = ''valid''"
  shows "delegation_path grants root (tc_trustPath chain) target \<and>
    tc_delegatedActors chain = map tl_toActorId (tc_trustPath chain) \<and>
    (\<forall>links. delegation_path grants root links target \<longrightarrow> length (tc_trustPath chain) \<le> length links)"
  using trust_chain_cases [OF assms(1)] assms(2) by auto

theorem trust_chain_shortest_witness: "\<not> delegation_path sample_delegations ''ann'' [link_of (sample_delegation ''g3'' ''bob'' ''cy'')] ''cy''"
proof -
  obtain chain where c: "buildTrustChain ''ann'' ''cy'' sample_delegations (Some 0) = Inr chain" "tc_chainValidity chain = ''valid''"
    "length (tc_trustPath chain) = 2" using sample_chain by fastforce
  show ?thesis using trust_chain_shortest [OF c(1,2)] c(3) by fastforce
qed

text \<open>Revoking or expiring grants, all of them if one likes, changes no trust chain.\<close>

theorem trust_chain_ignores_revocation:
  "buildTrustChain root target (map (\<lambda>g. g\<lparr>dg_expiresAt := e g, dg_revokedAt := r g\<rparr>) grants) now =
   buildTrustChain root target grants now"
  by (rule chain_ignores_dates)

text \<open>In a registry that has been run from the empty one an actor is held under its own identifier, once, and
  whoever was registered at some time is there ever after.\<close>

theorem reachable_actors:
  assumes "actor_step\<^sup>*\<^sup>* [] S" and "actor_step\<^sup>*\<^sup>* S R"
  shows "distinct (map fst R) \<and> (\<forall>(i, a) \<in> set R. act_actorId a = i) \<and> fst ` set S \<subseteq> fst ` set R"
proof -
  have S: "actor_inv S" using actor_runs_inv [OF assms(1)] by simp
  then have "actor_inv R" by (rule actor_runs_inv [OF assms(2)])
  then have "distinct (map fst R)" "actors.all_entries (\<lambda>i a. i = act_actorId a) R" by (simp_all add: actor_inv_def)
  moreover have "fst ` set S \<subseteq> fst ` set R" using actor_runs_keep [OF assms(2) S] by blast
  ultimately show ?thesis by (auto simp: actors.all_entries_def)
qed

definition sample_actor :: actor where
  "sample_actor = \<lparr>act_actorId = ''ann'', act_actorType = ''human'', act_displayName = ''Ann'', act_organizationId = None,
     act_parentActorId = None, act_trustLevel = ''baseline'', act_active = True, act_authorityBoundary = defaultAuthorityBoundary,
     act_metadata = None, act_createdAt = ''2024-01-01T00:00:00.000Z'', act_updatedAt = ''2024-01-01T00:00:00.000Z'',
     act_deactivatedAt = None\<rparr>"

theorem reachable_actors_witness:
  "\<exists>R. actor_step\<^sup>*\<^sup>* [(''ann'', sample_actor)] R \<and> (\<exists>a. map_of R ''ann'' = Some a \<and> \<not> act_active a) \<and> ''ann'' \<in> fst ` set R"
proof -
  have reg: "actor_step [] [(''ann'', sample_actor)]"
    by (rule actor_step.registers [of sample_actor _ sample_actor]) (simp add: registerActor_def sample_actor_def)
  obtain t where t: "to_iso_string (Some 0) = Inr t" using iso_total by blast
  define a where "a = sample_actor\<lparr>act_active := False, act_deactivatedAt := Some t, act_updatedAt := t\<rparr>"
  have "actor_step [(''ann'', sample_actor)] [(''ann'', a)]"
    by (rule actor_step.deactivates [of "''ann''" "Some 0" _ a])
      (simp add: deactivateActor_def t updateActor_Inr no_patch_def spread_actor_def patched_def a_def sample_actor_def)
  then have "actor_step\<^sup>*\<^sup>* [(''ann'', sample_actor)] [(''ann'', a)]" by simp
  with reachable_actors [OF r_into_rtranclp, OF reg this] show ?thesis by (intro exI [of _ "[(''ann'', a)]"]) (simp add: a_def)
qed

text \<open>Access is granted to a delegate only through a grant from the delegator to the delegate that has not been
  revoked, has not expired, and allows the action and all the scopes.\<close>

theorem delegated_access_licensed:
  assumes "evaluateDelegationAwareAccess clock grants delegator delegate action scopes now = Inr v" and "dv_valid v"
    and "to_iso_string (now_or clock now) = Inr nowIso"
  shows "\<exists>g. g \<in> set grants \<and> dg_delegatorActorId g = delegator \<and> dg_delegateActorId g = delegate \<and>
    \<not> truthy (dg_revokedAt g) \<and> licenses g action scopes nowIso"
proof -
  obtain active where active: "listActiveDelegations grants (now_or clock now) = Inr active"
    using assms(1) by (auto simp: evaluateDelegationAwareAccess_def result_simps)
  with assms(1,2) obtain g where "find (\<lambda>g. dg_delegatorActorId g = delegator \<and> dg_delegateActorId g = delegate) active = Some g"
    and v: "validateDelegationGrant g action scopes (now_or clock now) = Inr v"
    by (auto simp: evaluateDelegationAwareAccess_def split: option.splits)
  then have g: "g \<in> set active" "dg_delegatorActorId g = delegator" "dg_delegateActorId g = delegate" by (auto simp: find_Some_iff)
  have "licenses g action scopes nowIso" using validates_grant [OF assms(3), of g action scopes] v assms(2) by auto
  then show ?thesis using g active_delegation [OF assms(3) active, of g] by auto
qed

theorem delegated_access_licensed_witness:
  "\<exists>g. g \<in> set sample_delegations \<and> dg_delegateActorId g = ''bob'' \<and> ''mail'' \<in> set (dg_allowedScopes g)"
proof -
  obtain t where t: "to_iso_string (Some 0) = Inr t" using iso_total by blast
  have "evaluateDelegationAwareAccess 0 sample_delegations ''ann'' ''bob'' ''read'' [''mail''] None = Inr \<lparr>dv_valid = True, dv_reasons = []\<rparr>"
    by (simp add: evaluateDelegationAwareAccess_def listActiveDelegations_def validateDelegationGrant_def now_or_def t truthy_def
        has_come_def sample_delegations_def sample_delegation_def reason_if_def)
  from delegated_access_licensed [OF this _, of t] show ?thesis by (auto simp: now_or_def t licenses_def)
qed

text \<open>Among the active grants between the two only the first is looked at.\<close>

theorem first_grant_decides:
  assumes "to_iso_string (now_or clock now) = Inr nowIso" and "dg_delegatorActorId g = delegator" and "dg_delegateActorId g = delegate"
    and "\<not> truthy (dg_revokedAt g)" and "\<not> has_come (dg_expiresAt g) nowIso" and "\<not> licenses g action scopes nowIso"
  shows "\<exists>v. evaluateDelegationAwareAccess clock (g # grants) delegator delegate action scopes now = Inr v \<and> \<not> dv_valid v"
proof -
  have "evaluateDelegationAwareAccess clock (g # grants) delegator delegate action scopes now =
      validateDelegationGrant g action scopes (now_or clock now)"
    using assms(1-5) by (cases "dg_expiresAt g") (auto simp: evaluateDelegationAwareAccess_def listActiveDelegations_def has_come_def truthy_def)
  then show ?thesis using validates_grant [OF assms(1), of g action scopes] assms(6) by auto
qed

end
