(* ===== verification/Policy.thy ===== *)
theory Policy
  imports Identity
begin

text \<open>
  \<open>protocol/policy/\<close>: the policy decision point.  A permission is checked against an actor, a resource and an
  action; the decision is traced in a store under its identifier and reported to the audit hook, when one has been
  registered.
\<close>

section \<open>Data\<close>

record pdp_actor =
  pa_id :: string
  pa_type :: string
  pa_organizationId :: "string option"
  pa_brandId :: "string option"
  pa_metadata :: "json_object option"

record pdp_resource =
  pr_id :: string
  pr_type :: string
  pr_ownerActorId :: "string option"
  pr_ownerOrganizationId :: "string option"
  pr_brandId :: "string option"
  pr_category :: "string option"
  pr_dataClassification :: "string option"
  pr_metadata :: "json_object option"

record frequency_limit =
  fl_maxCount :: jsnum
  fl_windowSeconds :: jsnum

record scoped_permission =
  sp_action :: string
  sp_category :: "string option"
  sp_purpose :: "string option"
  sp_allowedBrands :: "string list option"
  sp_allowedActions :: "string list option"
  sp_frequency :: "frequency_limit option"
  sp_expiresAt :: "string option"
  sp_dataClassification :: "string option"
  sp_metadata :: "json_object option"

record temporal_context =
  tx_now :: "string option"
  tx_timezone :: "string option"

record access_context =
  cx_runtime :: "json_object option"
  cx_request :: "json_object option"
  cx_environment :: "json_object option"
  cx_temporal :: "temporal_context option"
  cx_metadata :: "json_object option"

record policy_input =
  pi_actor :: pdp_actor
  pi_resource :: pdp_resource
  pi_action :: string
  pi_permission :: scoped_permission
  pi_context :: "access_context option"

record policy_decision =
  pd_allow :: bool
  pd_reason :: string
  pd_obligations :: "string list option"
  pd_traceId :: string
  pd_evaluatedPolicies :: "string list"

record decision_trace =
  dt_traceId :: string
  dt_evaluatedAt :: string
  dt_evaluatedPolicies :: "string list"
  dt_decisionReason :: string
  dt_actorId :: string
  dt_resourceId :: string

section \<open>State\<close>

text \<open>The store of the traces, whether a hook is registered, and what it has been called with.\<close>

record pdp_state =
  traceStore :: "(string \<times> decision_trace) list"
  policyHook :: bool
  policyEvents :: "json_object list"

definition recordDecisionTrace :: "decision_trace \<Rightarrow> pdp_state \<Rightarrow> pdp_state" where
  "recordDecisionTrace trace st = st\<lparr>traceStore := map_set (dt_traceId trace) trace (traceStore st)\<rparr>"

definition getDecisionTrace :: "pdp_state \<Rightarrow> string \<Rightarrow> decision_trace option" where
  "getDecisionTrace st traceId = map_of (traceStore st) traceId"

definition registerPolicyDecisionAuditHook :: "bool \<Rightarrow> pdp_state \<Rightarrow> pdp_state" where
  "registerPolicyDecisionAuditHook hook st = st\<lparr>policyHook := hook\<rparr>"

definition policy_hook :: "json_object \<Rightarrow> pdp_state \<Rightarrow> pdp_state" where
  "policy_hook event st = (if policyHook st then st\<lparr>policyEvents := policyEvents st @ [event]\<rparr> else st)"

section \<open>Decisions\<close>

definition POLICY_EXPIRATION :: string where "POLICY_EXPIRATION = ''policy.permission.expiration''"
definition POLICY_ACTION_MATCH :: string where "POLICY_ACTION_MATCH = ''policy.permission.action_match''"
definition POLICY_CATEGORY_MATCH :: string where "POLICY_CATEGORY_MATCH = ''policy.permission.category_match''"
definition POLICY_BRAND_ALIGNMENT :: string where "POLICY_BRAND_ALIGNMENT = ''policy.permission.brand_alignment''"
definition POLICY_ACTOR_RESOURCE :: string where "POLICY_ACTOR_RESOURCE = ''policy.actor_resource.alignment''"

text \<open>\<open>random\<close> is the text of the random number.\<close>

definition createTraceId :: "int \<Rightarrow> string \<Rightarrow> string" where
  "createTraceId clock random = ''pdp_'' @ show_nat (nat clock) @ ''_'' @ random"

definition decision_event :: "string \<Rightarrow> policy_input \<Rightarrow> bool \<Rightarrow> string \<Rightarrow> string list option \<Rightarrow> string list \<Rightarrow> json_object" where
  "decision_event traceId inp allow reason obligations evaluatedPolicies = [
     (''eventType'', JStr ''policy_decision''), (''traceId'', JStr traceId), (''actorId'', JStr (pa_id (pi_actor inp))),
     (''resourceId'', JStr (pr_id (pi_resource inp))), (''action'', JStr (pi_action inp)), (''allow'', JBool allow),
     (''reason'', JStr reason), (''obligations'', undefined_or (\<lambda>xs. JArr (map JStr xs)) obligations),
     (''metadata'', JObj [(''evaluatedPolicies'', JArr (map JStr evaluatedPolicies))])]"

definition decision_trace_of :: "string \<Rightarrow> int \<Rightarrow> string list \<Rightarrow> string \<Rightarrow> policy_input \<Rightarrow> decision_trace" where
  "decision_trace_of traceId clock evaluatedPolicies reason inp = \<lparr>dt_traceId = traceId, dt_evaluatedAt = clock_text clock,
     dt_evaluatedPolicies = evaluatedPolicies, dt_decisionReason = reason, dt_actorId = pa_id (pi_actor inp),
     dt_resourceId = pr_id (pi_resource inp)\<rparr>"

text \<open>As in the source, the event of a refusal says \<open>allow: true\<close>.\<close>

definition deny :: "string \<Rightarrow> int \<Rightarrow> string list \<Rightarrow> string \<Rightarrow> policy_input \<Rightarrow> string list option \<Rightarrow> pdp_state \<Rightarrow>
    policy_decision \<times> pdp_state" where
  "deny traceId clock evaluatedPolicies reason inp obligations st =
     (\<lparr>pd_allow = False, pd_reason = reason, pd_obligations = obligations, pd_traceId = traceId,
       pd_evaluatedPolicies = evaluatedPolicies\<rparr>,
      policy_hook (decision_event traceId inp True reason obligations evaluatedPolicies)
        (recordDecisionTrace (decision_trace_of traceId clock evaluatedPolicies reason inp) st))"

definition context_now :: "platform \<Rightarrow> int \<Rightarrow> policy_input \<Rightarrow> jsdate" where
  "context_now P clock inp = (case pi_context inp of None \<Rightarrow> Some clock
     | Some c \<Rightarrow> (case cx_temporal c of None \<Rightarrow> Some clock
       | Some t \<Rightarrow> (if truthy (tx_now t) then date_of P (the (tx_now t)) else Some clock)))"

definition permission_expired :: "platform \<Rightarrow> int \<Rightarrow> policy_input \<Rightarrow> bool" where
  "permission_expired P clock inp \<longleftrightarrow> truthy (sp_expiresAt (pi_permission inp)) \<and>
     (let expiresAt = date_of P (the (sp_expiresAt (pi_permission inp))) in
      expiresAt \<noteq> None \<and> date_later (context_now P clock inp) expiresAt)"

definition permitted_actions :: "scoped_permission \<Rightarrow> string list" where
  "permitted_actions permission = (case sp_allowedActions permission of None \<Rightarrow> [sp_action permission] | Some xs \<Rightarrow> xs)"

definition restricts_brands :: "scoped_permission \<Rightarrow> bool" where
  "restricts_brands permission \<longleftrightarrow> (case sp_allowedBrands permission of None \<Rightarrow> False | Some xs \<Rightarrow> xs \<noteq> [])"

definition brand_of :: "policy_input \<Rightarrow> string option" where
  "brand_of inp = (case pr_brandId (pi_resource inp) of None \<Rightarrow> pa_brandId (pi_actor inp) | Some b \<Rightarrow> Some b)"

definition evaluateAccess :: "platform \<Rightarrow> int \<Rightarrow> string \<Rightarrow> policy_input \<Rightarrow> pdp_state \<Rightarrow> policy_decision \<times> pdp_state" where
  "evaluateAccess P clock random inp st =
     (let traceId = createTraceId clock random;
          permission = pi_permission inp;
          resource = pi_resource inp;
          refuse = (\<lambda>policies reason. deny traceId clock policies reason inp None st);
          policies1 = reason_if (truthy (sp_expiresAt permission)) POLICY_EXPIRATION;
          policies2 = policies1 @ [POLICY_ACTION_MATCH];
          policies3 = policies2 @ reason_if (truthy (sp_category permission)) POLICY_CATEGORY_MATCH;
          policies4 = policies3 @ reason_if (restricts_brands permission) POLICY_BRAND_ALIGNMENT;
          policies5 = policies4 @ [POLICY_ACTOR_RESOURCE]
      in
      if permission_expired P clock inp then refuse policies1 ''DENY_PERMISSION_EXPIRED''
      else if pi_action inp \<notin> set (permitted_actions permission) then refuse policies2 ''DENY_ACTION_NOT_ALLOWED''
      else if truthy (sp_category permission) \<and> pr_category resource \<noteq> sp_category permission
      then refuse policies3 ''DENY_CATEGORY_MISMATCH''
      else if restricts_brands permission \<and>
        (\<not> truthy (brand_of inp) \<or> the (brand_of inp) \<notin> set (the (sp_allowedBrands permission)))
      then refuse policies4 ''DENY_BRAND_NOT_ALLOWED''
      else if truthy (pr_ownerActorId resource) \<and> pr_ownerActorId resource \<noteq> Some (pa_id (pi_actor inp))
      then refuse policies5 ''DENY_ACTOR_RESOURCE_MISMATCH''
      else
        (let reason = ''ALLOW_BASELINE_POLICY_CHECKS_PASSED'';
             obligations = reason_if (sp_frequency permission \<noteq> None) ''OBLIGATION_ENFORCE_FREQUENCY_OUTSIDE_PDP'' @
               reason_if (truthy (sp_purpose permission)) ''OBLIGATION_ASSERT_PURPOSE_AT_PEP''
         in (\<lparr>pd_allow = True, pd_reason = reason, pd_obligations = (if obligations \<noteq> [] then Some obligations else None),
              pd_traceId = traceId, pd_evaluatedPolicies = policies5\<rparr>,
             policy_hook (decision_event traceId inp False reason (Some obligations) policies5)
               (recordDecisionTrace (decision_trace_of traceId clock policies5 reason inp) st))))"

section \<open>Lemmas\<close>

text \<open>Every decision is traced and reported, a refusal as allowed and an approval as not.\<close>

definition permits :: "platform \<Rightarrow> int \<Rightarrow> policy_input \<Rightarrow> bool" where
  "permits P clock inp \<longleftrightarrow> \<not> permission_expired P clock inp \<and> pi_action inp \<in> set (permitted_actions (pi_permission inp)) \<and>
     (truthy (sp_category (pi_permission inp)) \<longrightarrow> pr_category (pi_resource inp) = sp_category (pi_permission inp)) \<and>
     (restricts_brands (pi_permission inp) \<longrightarrow> truthy (brand_of inp) \<and>
        the (brand_of inp) \<in> set (the (sp_allowedBrands (pi_permission inp)))) \<and>
     (truthy (pr_ownerActorId (pi_resource inp)) \<longrightarrow> pr_ownerActorId (pi_resource inp) = Some (pa_id (pi_actor inp)))"

definition recorded :: "int \<Rightarrow> policy_input \<Rightarrow> pdp_state \<Rightarrow> policy_decision \<Rightarrow> pdp_state \<Rightarrow> bool" where
  "recorded clock inp st d st' \<longleftrightarrow> (\<exists>reported.
     st' = policy_hook (decision_event (pd_traceId d) inp (\<not> pd_allow d) (pd_reason d) reported (pd_evaluatedPolicies d))
       (recordDecisionTrace (decision_trace_of (pd_traceId d) clock (pd_evaluatedPolicies d) (pd_reason d) inp) st) \<and>
     (reported = pd_obligations d \<or> reported = Some [] \<and> pd_obligations d = None))"

lemma evaluate_permits: "pd_allow (fst (evaluateAccess P clock random inp st)) \<longleftrightarrow> permits P clock inp"
  by (auto simp: evaluateAccess_def Let_def deny_def permits_def)

lemma evaluate_recorded:
  "evaluateAccess P clock random inp st = (d, st') \<Longrightarrow> pd_traceId d = createTraceId clock random \<and> recorded clock inp st d st'"
  by (auto simp: evaluateAccess_def Let_def deny_def recorded_def split: if_splits)

lemma hook_store [simp]: "traceStore (policy_hook e st) = traceStore st" "policyHook (policy_hook e st) = policyHook st"
  by (simp_all add: policy_hook_def)

lemma record_simps [simp]: "traceStore (recordDecisionTrace t st) = map_set (dt_traceId t) t (traceStore st)"
    "policyHook (recordDecisionTrace t st) = policyHook st" "policyEvents (recordDecisionTrace t st) = policyEvents st"
  by (simp_all add: recordDecisionTrace_def)

interpretation traces: keyed_store "map_of :: (string \<times> decision_trace) list \<Rightarrow> _" map_set
  by unfold_locales (rule map_of_map_set)

section \<open>Properties\<close>

text \<open>The decision point allows a request exactly when the permission has not expired, lists the action, and
  matches the category, the brand and the owner of the resource where these are set.\<close>

theorem decision_point_allows_iff:
  "pd_allow (fst (evaluateAccess P clock random inp st)) \<longleftrightarrow>
    \<not> permission_expired P clock inp \<and> pi_action inp \<in> set (permitted_actions (pi_permission inp)) \<and>
    (\<not> truthy (sp_category (pi_permission inp)) \<or> pr_category (pi_resource inp) = sp_category (pi_permission inp)) \<and>
    (\<not> restricts_brands (pi_permission inp) \<or> truthy (brand_of inp) \<and>
       the (brand_of inp) \<in> set (the (sp_allowedBrands (pi_permission inp)))) \<and>
    (\<not> truthy (pr_ownerActorId (pi_resource inp)) \<or> pr_ownerActorId (pi_resource inp) = Some (pa_id (pi_actor inp)))"
  unfolding evaluate_permits permits_def by blast

definition sample_policy_input :: policy_input where
  "sample_policy_input = \<lparr>
     pi_actor = \<lparr>pa_id = ''ann'', pa_type = ''human'', pa_organizationId = None, pa_brandId = None, pa_metadata = None\<rparr>,
     pi_resource = \<lparr>pr_id = ''r1'', pr_type = ''record'', pr_ownerActorId = None, pr_ownerOrganizationId = None,
       pr_brandId = None, pr_category = None, pr_dataClassification = None, pr_metadata = None\<rparr>,
     pi_action = ''write'',
     pi_permission = \<lparr>sp_action = ''read'', sp_category = None, sp_purpose = None, sp_allowedBrands = None,
       sp_allowedActions = None, sp_frequency = None, sp_expiresAt = None, sp_dataClassification = None, sp_metadata = None\<rparr>,
     pi_context = None\<rparr>"

definition empty_pdp :: pdp_state where
  "empty_pdp = \<lparr>traceStore = [], policyHook = False, policyEvents = []\<rparr>"

theorem decision_point_allows_iff_witness:
  "\<not> pd_allow (fst (evaluateAccess zero_platform 0 ''x'' sample_policy_input empty_pdp)) \<and>
   pd_allow (fst (evaluateAccess zero_platform 0 ''x'' (sample_policy_input\<lparr>pi_action := ''read''\<rparr>) empty_pdp))"
  unfolding decision_point_allows_iff
  by (simp add: sample_policy_input_def permission_expired_def truthy_def permitted_actions_def restricts_brands_def)

text \<open>A decision is found in the trace store under its identifier with its reason and the policies it evaluated,
  and the traces of other identifiers are still there.\<close>

theorem decision_is_traced:
  assumes "evaluateAccess P clock random inp st = (d, st')"
  shows "getDecisionTrace st' i = (if i = pd_traceId d
    then Some \<lparr>dt_traceId = i, dt_evaluatedAt = clock_text clock, dt_evaluatedPolicies = pd_evaluatedPolicies d,
      dt_decisionReason = pd_reason d, dt_actorId = pa_id (pi_actor inp), dt_resourceId = pr_id (pi_resource inp)\<rparr>
    else getDecisionTrace st i)"
proof -
  obtain reported where st': "st' = policy_hook (decision_event (pd_traceId d) inp (\<not> pd_allow d) (pd_reason d) reported (pd_evaluatedPolicies d))
      (recordDecisionTrace (decision_trace_of (pd_traceId d) clock (pd_evaluatedPolicies d) (pd_reason d) inp) st)"
    using evaluate_recorded [OF assms] by (auto simp: recorded_def)
  show ?thesis by (auto simp: st' getDecisionTrace_def traces.look_put decision_trace_of_def)
qed

theorem decision_is_traced_witness:
  "\<exists>st'. snd (evaluateAccess zero_platform 0 ''x'' sample_policy_input \<lparr>traceStore = [], policyHook = False, policyEvents = []\<rparr>) = st' \<and>
    getDecisionTrace st' ''other'' = None"
proof -
  let ?st = "\<lparr>traceStore = [], policyHook = False, policyEvents = []\<rparr>"
  obtain d st' where e: "evaluateAccess zero_platform 0 ''x'' sample_policy_input ?st = (d, st')" by fastforce
  then have "pd_traceId d \<noteq> ''other''" using evaluate_recorded [OF e] by (auto simp: createTraceId_def)
  then show ?thesis using decision_is_traced [OF e, of "''other''"] e by (auto simp: getDecisionTrace_def)
qed

text \<open>What is reported to a registered audit hook is the opposite of what was decided.\<close>

theorem decision_report_inverted:
  assumes "evaluateAccess P clock random inp st = (d, st')" and "policyHook st"
  shows "\<exists>event. policyEvents st' = policyEvents st @ [event] \<and> get_prop event ''traceId'' = JStr (pd_traceId d) \<and>
    get_prop event ''allow'' = JBool (\<not> pd_allow d)"
  using evaluate_recorded [OF assms(1)] assms(2) by (auto simp: recorded_def policy_hook_def decision_event_def)

theorem decision_report_inverted_witness:
  "\<exists>event. policyEvents (snd (evaluateAccess zero_platform 0 ''x'' sample_policy_input
      \<lparr>traceStore = [], policyHook = True, policyEvents = []\<rparr>)) = [event] \<and> get_prop event ''allow'' = JBool True"
proof -
  let ?st = "\<lparr>traceStore = [], policyHook = True, policyEvents = []\<rparr>"
  obtain d st' where e: "evaluateAccess zero_platform 0 ''x'' sample_policy_input ?st = (d, st')" by fastforce
  have "\<not> pd_allow (fst (evaluateAccess zero_platform 0 ''x'' sample_policy_input ?st))"
    by (simp add: evaluate_permits permits_def sample_policy_input_def permitted_actions_def)
  then show ?thesis using decision_report_inverted [OF e] e by auto
qed

text \<open>An expiry that is no date, like a moment of evaluation that is none, leaves the permission in force.\<close>

theorem unparsable_expiry_never_expires:
  "date_of P (the (sp_expiresAt (pi_permission inp))) = None \<or> context_now P clock inp = None \<Longrightarrow> \<not> permission_expired P clock inp"
  by (auto simp: permission_expired_def Let_def date_later_def split: option.splits)

end
