(* ===== verification/IdentityPolicy.thy ===== *)
theory IdentityPolicy
  imports Policy
begin

text \<open>
  \<open>protocol/identity-policy/\<close>: the check of an actor, of the delegation it acts under and of the restrictions on
  artificial agents, which runs before the policy decision point.
\<close>

section \<open>Data\<close>

record ai_governance_flags =
  gf_requiresHumanReview :: bool
  gf_autonomousDelegationBlocked :: bool
  gf_sensitiveActionEscalationRequired :: bool
  gf_blockedByAIScopeRestriction :: bool

record identity_context =
  ic_actor :: actor
  ic_rootActor :: "actor option"
  ic_delegateActor :: "actor option"
  ic_delegationGrants :: "delegation_grant list"
  ic_requestedAction :: string
  ic_requestedScopes :: "string list"
  ic_trustChain :: "trust_chain option"
  ic_now :: "jsdate option"

record trust_summary =
  ts_rootActorId :: string
  ts_delegatedActors :: "string list"
  ts_depth :: nat
  ts_valid :: bool
  ts_reasons :: "string list"

record identity_decision =
  id_allow :: bool
  id_reasons :: "string list"
  id_obligations :: "string list"
  id_normalizedActor :: normalized_actor
  id_trustChainSummary :: "trust_summary option"
  id_delegationGrantIds :: "string list"
  id_aiGovernanceFlags :: ai_governance_flags

section \<open>The grant of a delegate\<close>

text \<open>\<open>moment && moment <= now.toISOString()\<close>: the date is printed only when there is a moment.\<close>

definition has_come_by :: "string option \<Rightarrow> jsdate \<Rightarrow> bool result" where
  "has_come_by moment now = (if truthy moment
     then bind_result (to_iso_string now) (\<lambda>nowIso. Inr (the moment \<le> nowIso)) else Inr False)"

fun find_grant :: "string \<Rightarrow> string \<Rightarrow> jsdate \<Rightarrow> delegation_grant list \<Rightarrow> delegation_grant option result" where
  "find_grant root delegate now [] = Inr None"
| "find_grant root delegate now (grant # grants) =
     (if dg_delegatorActorId grant \<noteq> root then find_grant root delegate now grants
      else if dg_delegateActorId grant \<noteq> delegate then find_grant root delegate now grants
      else bind_result (has_come_by (dg_revokedAt grant) now) (\<lambda>revoked.
        if revoked then find_grant root delegate now grants
        else bind_result (has_come_by (dg_expiresAt grant) now) (\<lambda>expired.
          if expired then find_grant root delegate now grants else Inr (Some grant))))"

definition findDelegationGrant :: "identity_context \<Rightarrow> jsdate \<Rightarrow> delegation_grant option result" where
  "findDelegationGrant context now = (case (ic_rootActor context, ic_delegateActor context) of
     (Some root, Some delegate) \<Rightarrow> find_grant (act_actorId root) (act_actorId delegate) now (ic_delegationGrants context)
   | _ \<Rightarrow> Inr None)"

section \<open>Evaluation\<close>

text \<open>\<open>text.includes(needle)\<close>.\<close>

fun text_includes :: "string \<Rightarrow> string \<Rightarrow> bool" where
  "text_includes needle [] \<longleftrightarrow> needle = []"
| "text_includes needle (c # cs) \<longleftrightarrow> take (length needle) (c # cs) = needle \<or> text_includes needle cs"

definition actor_reasons :: "identity_context \<Rightarrow> string list" where
  "actor_reasons context = (let boundary = act_authorityBoundary (ic_actor context) in
     reason_if (\<not> act_active (ic_actor context)) ''DENY_ACTOR_INACTIVE'' @
     reason_if (ic_requestedAction context \<in> set (ab_blockedActions boundary)) ''DENY_ACTOR_ACTION_BLOCKED'' @
     reason_if (list_ex (\<lambda>scope. scope \<in> set (ab_restrictedScopes boundary)) (ic_requestedScopes context))
       ''DENY_ACTOR_SCOPE_RESTRICTED'')"

text \<open>What the grant gives: its identifier and the reasons against it.\<close>

definition grant_reasons :: "identity_context \<Rightarrow> jsdate \<Rightarrow> (string list \<times> string list) result" where
  "grant_reasons context now =
     bind_result (findDelegationGrant context now) (\<lambda>found. case found of
       None \<Rightarrow> Inr ([], [''DENY_NO_ACTIVE_DELEGATION''])
     | Some grant \<Rightarrow>
        bind_result (validateDelegationGrant grant (ic_requestedAction context) (ic_requestedScopes context) now) (\<lambda>validation.
        Inr ([dg_grantId grant], if dv_valid validation then [] else
          reason_if (list_ex (text_includes ''SCOPE_NOT_ALLOWED'') (dv_reasons validation)) ''DENY_DELEGATION_SCOPE_NOT_ALLOWED'' @
          reason_if (''ACTION_NOT_ALLOWED'' \<in> set (dv_reasons validation)) ''DENY_DELEGATION_ACTION_NOT_ALLOWED'' @
          reason_if (''GRANT_EXPIRED'' \<in> set (dv_reasons validation) \<or> ''GRANT_REVOKED'' \<in> set (dv_reasons validation))
            ''DENY_NO_ACTIVE_DELEGATION'')))"

definition chain_reasons :: "identity_context \<Rightarrow> actor \<Rightarrow> jsdate \<Rightarrow> string list result" where
  "chain_reasons context delegate now = (case ic_rootActor context of
     None \<Rightarrow> Inr []
   | Some root \<Rightarrow>
      bind_result (case ic_trustChain context of Some chain \<Rightarrow> Inr chain
        | None \<Rightarrow> buildTrustChain (act_actorId root) (act_actorId delegate) (ic_delegationGrants context) now) (\<lambda>chain.
      let maxDepth = num_min (ab_maxDelegationDepth (act_authorityBoundary root)) (ab_maxDelegationDepth (act_authorityBoundary delegate));
          validation = validateTrustChain chain maxDepth
      in Inr (if dv_valid validation then [] else
        [''DENY_TRUST_CHAIN_INVALID''] @
        reason_if (''MAX_DELEGATION_DEPTH_EXCEEDED'' \<in> set (dv_reasons validation)) ''DENY_MAX_DELEGATION_DEPTH_EXCEEDED'')))"

definition delegation_reasons :: "identity_context \<Rightarrow> jsdate \<Rightarrow> (string list \<times> string list) result" where
  "delegation_reasons context now = (case ic_delegateActor context of
     None \<Rightarrow> Inr ([], [])
   | Some delegate \<Rightarrow>
      bind_result (grant_reasons context now) (\<lambda>(grantIds, reasons).
      bind_result (chain_reasons context delegate now) (\<lambda>more.
      Inr (grantIds, reason_if (\<not> act_active delegate) ''DENY_ACTOR_INACTIVE'' @ reasons @ more))))"

text \<open>One turn of the loop over the artificial agents, on the flags, the reasons and the obligations.\<close>

type_synonym ai_findings = "ai_governance_flags \<times> string list \<times> string list"

definition ai_step :: "identity_context \<Rightarrow> ai_findings \<Rightarrow> actor \<Rightarrow> ai_findings" where
  "ai_step context findings aiActor = (case findings of (flags, reasons, obligations) \<Rightarrow>
     let boundary = act_authorityBoundary aiActor;
         aiPolicy = ab_aiRestrictions boundary;
         autonomous = ai_disallowAutonomousDelegation aiPolicy \<and> ic_delegateActor context \<noteq> None \<and>
           act_actorType (ic_actor context) = ''ai_agent'';
         blockedScope = list_ex (\<lambda>scope. scope \<in> set (ai_blockedScopes aiPolicy)) (ic_requestedScopes context);
         requiresEscalation = ic_requestedAction context \<in> set (ai_requireHumanEscalationForActions aiPolicy)
     in (flags\<lparr>gf_autonomousDelegationBlocked := gf_autonomousDelegationBlocked flags \<or> autonomous,
           gf_blockedByAIScopeRestriction := gf_blockedByAIScopeRestriction flags \<or> blockedScope,
           gf_sensitiveActionEscalationRequired := gf_sensitiveActionEscalationRequired flags \<or> requiresEscalation,
           gf_requiresHumanReview := gf_requiresHumanReview flags \<or> ab_requireHumanReview boundary\<rparr>,
         reasons @ reason_if autonomous ''DENY_NO_ACTIVE_DELEGATION'' @ reason_if blockedScope ''DENY_AI_SCOPE_BLOCKED'',
         obligations @ reason_if requiresEscalation ''OBLIGATION_AI_ESCALATION_REQUIRED'' @
           reason_if (ab_requireHumanReview boundary) ''OBLIGATION_HUMAN_REVIEW_REQUIRED''))"

definition ai_actors :: "identity_context \<Rightarrow> actor list" where
  "ai_actors context = filter (\<lambda>a. act_actorType a = ''ai_agent'')
     (ic_actor context # (case ic_delegateActor context of None \<Rightarrow> [] | Some d \<Rightarrow> [d]))"

definition summary_of :: "trust_chain \<Rightarrow> trust_summary" where
  "summary_of chain = \<lparr>ts_rootActorId = tc_rootActorId chain, ts_delegatedActors = tc_delegatedActors chain,
     ts_depth = length (tc_trustPath chain), ts_valid = (tc_chainValidity chain = ''valid''), ts_reasons = tc_reasons chain\<rparr>"

definition no_flags :: ai_governance_flags where
  "no_flags = \<lparr>gf_requiresHumanReview = False, gf_autonomousDelegationBlocked = False,
     gf_sensitiveActionEscalationRequired = False, gf_blockedByAIScopeRestriction = False\<rparr>"

definition evaluateIdentityPolicy :: "int \<Rightarrow> identity_context \<Rightarrow> identity_decision result" where
  "evaluateIdentityPolicy clock context =
     bind_result (delegation_reasons context (now_or clock (ic_now context))) (\<lambda>(grantIds, delegation).
     let depth = reason_if (num_less (ab_maxDelegationDepth (act_authorityBoundary (ic_actor context))) (int_num 0))
           ''DENY_MAX_DELEGATION_DEPTH_EXCEEDED'' in
     case foldl (ai_step context) (no_flags, actor_reasons context @ delegation @ depth, []) (ai_actors context) of
       (flags, reasons, obligations) \<Rightarrow>
         Inr \<lparr>id_allow = (reasons = []), id_reasons = unique reasons, id_obligations = unique obligations,
           id_normalizedActor = normalizeActorForPDP (ic_actor context),
           id_trustChainSummary = map_option summary_of (ic_trustChain context),
           id_delegationGrantIds = grantIds, id_aiGovernanceFlags = flags\<rparr>)"

section \<open>Before the decision point\<close>

record identity_trace =
  it_trustChainSummary :: "trust_summary option"
  it_delegationGrantIds :: "string list"
  it_aiGovernanceFlags :: ai_governance_flags

record identity_aware_decision =
  ia_decision :: policy_decision
  ia_identityReasons :: "string list"
  ia_identityTrace :: identity_trace

text \<open>The input of the decision point with an actor and an action of its own, or without.\<close>

record identity_policy_input =
  ip_actor :: "pdp_actor option"
  ip_action :: "string option"
  ip_resource :: pdp_resource
  ip_permission :: scoped_permission
  ip_context :: "access_context option"

record gate_state =
  gs_pdp :: pdp_state
  identityHook :: bool
  identityEvents :: "json_object list"

definition registerIdentityDecisionAuditHook :: "bool \<Rightarrow> gate_state \<Rightarrow> gate_state" where
  "registerIdentityDecisionAuditHook hook st = st\<lparr>identityHook := hook\<rparr>"

definition identity_hook :: "json_object \<Rightarrow> gate_state \<Rightarrow> gate_state" where
  "identity_hook event st = (if identityHook st then st\<lparr>identityEvents := identityEvents st @ [event]\<rparr> else st)"

definition json_texts :: "string list \<Rightarrow> json" where
  "json_texts xs = JArr (map JStr xs)"

definition flags_json :: "ai_governance_flags \<Rightarrow> json" where
  "flags_json flags = JObj [(''aiGovernanceFlags'', JObj [
     (''requiresHumanReview'', JBool (gf_requiresHumanReview flags)),
     (''autonomousDelegationBlocked'', JBool (gf_autonomousDelegationBlocked flags)),
     (''sensitiveActionEscalationRequired'', JBool (gf_sensitiveActionEscalationRequired flags)),
     (''blockedByAIScopeRestriction'', JBool (gf_blockedByAIScopeRestriction flags))])]"

definition identity_event ::
  "string \<Rightarrow> identity_context \<Rightarrow> identity_decision \<Rightarrow> bool \<Rightarrow> string list \<Rightarrow> string option \<Rightarrow> json_object" where
  "identity_event eventType context decision allow obligations traceId = [
     (''eventType'', JStr eventType), (''actorId'', JStr (act_actorId (ic_actor context))),
     (''action'', JStr (ic_requestedAction context)), (''allow'', JBool allow),
     (''reasons'', json_texts (id_reasons decision)), (''obligations'', json_texts obligations)] @
     optional_property ''traceId'' JStr traceId @ [
     (''delegationGrantIds'', json_texts (id_delegationGrantIds decision)),
     (''trustChainRef'', undefined_or (\<lambda>s. JStr (ts_rootActorId s)) (id_trustChainSummary decision)),
     (''metadata'', flags_json (id_aiGovernanceFlags decision))]"

definition identity_trace_of :: "identity_decision \<Rightarrow> identity_trace" where
  "identity_trace_of decision = \<lparr>it_trustChainSummary = id_trustChainSummary decision,
     it_delegationGrantIds = id_delegationGrantIds decision, it_aiGovernanceFlags = id_aiGovernanceFlags decision\<rparr>"

definition actor_for_pdp :: "normalized_actor \<Rightarrow> pdp_actor" where
  "actor_for_pdp actor = \<lparr>pa_id = na_actorId actor, pa_type = na_actorType actor, pa_organizationId = na_organizationId actor,
     pa_brandId = None, pa_metadata = Some [(''trustLevel'', JStr (na_trustLevel actor)), (''active'', JBool (na_active actor))]\<rparr>"

definition pdp_input :: "identity_policy_input \<Rightarrow> normalized_actor \<Rightarrow> string \<Rightarrow> policy_input" where
  "pdp_input inp actor requestedAction = \<lparr>
     pi_actor = (case ip_actor inp of None \<Rightarrow> actor_for_pdp actor | Some a \<Rightarrow> a), pi_resource = ip_resource inp,
     pi_action = (case ip_action inp of None \<Rightarrow> requestedAction | Some a \<Rightarrow> a), pi_permission = ip_permission inp,
     pi_context = ip_context inp\<rparr>"

definition evaluateAccessWithIdentity ::
  "platform \<Rightarrow> int \<Rightarrow> string \<Rightarrow> identity_context \<Rightarrow> identity_policy_input \<Rightarrow> gate_state \<Rightarrow> (identity_aware_decision \<times> gate_state) result" where
  "evaluateAccessWithIdentity P clock random context inp st =
     bind_result (evaluateIdentityPolicy clock context) (\<lambda>identity.
     if \<not> id_allow identity then
       Inr (\<lparr>ia_decision = \<lparr>pd_allow = False,
             pd_reason = (case id_reasons identity of [] \<Rightarrow> ''DENY_IDENTITY_POLICY'' | r # _ \<Rightarrow> r),
             pd_obligations = (if id_obligations identity \<noteq> [] then Some (id_obligations identity) else None),
             pd_traceId = ''pdp_identity_'' @ show_nat (nat clock), pd_evaluatedPolicies = [''policy.identity.precheck'']\<rparr>,
           ia_identityReasons = id_reasons identity, ia_identityTrace = identity_trace_of identity\<rparr>,
         identity_hook (identity_event ''identity_denied'' context identity False (id_obligations identity) None) st)
     else
       (case evaluateAccess P clock random (pdp_input inp (id_normalizedActor identity) (ic_requestedAction context)) (gs_pdp st) of
         (pdp, pdp_st) \<Rightarrow>
          let obligations = unique ((case pd_obligations pdp of None \<Rightarrow> [] | Some xs \<Rightarrow> xs) @ id_obligations identity);
              flags = id_aiGovernanceFlags identity;
              eventType = (if gf_blockedByAIScopeRestriction flags then ''ai_scope_blocked''
                else if gf_sensitiveActionEscalationRequired flags then ''ai_escalation_required'' else ''policy_decision'')
          in Inr (\<lparr>ia_decision = pdp\<lparr>pd_obligations := Some obligations,
                 pd_evaluatedPolicies := pd_evaluatedPolicies pdp @ [''policy.identity.precheck'']\<rparr>,
               ia_identityReasons = id_reasons identity, ia_identityTrace = identity_trace_of identity\<rparr>,
             identity_hook (identity_event eventType context identity (pd_allow pdp) obligations (Some (pd_traceId pdp)))
               (st\<lparr>gs_pdp := pdp_st\<rparr>))))"


section \<open>Lemmas\<close>

subsection \<open>Delegation\<close>

text \<open>A grant that leads directly from one actor to another and is in force.\<close>

definition direct_grant :: "string \<Rightarrow> string \<Rightarrow> string \<Rightarrow> delegation_grant \<Rightarrow> bool" where
  "direct_grant root delegate nowIso g \<longleftrightarrow> dg_delegatorActorId g = root \<and> dg_delegateActorId g = delegate \<and>
     \<not> has_come (dg_revokedAt g) nowIso \<and> \<not> has_come (dg_expiresAt g) nowIso"

lemma has_come_by_Inr: "to_iso_string now = Inr nowIso \<Longrightarrow> has_come_by m now = Inr (has_come m nowIso)"
  by (auto simp: has_come_by_def has_come_def truthy_def split: option.splits)

lemma find_grant_Inr: "to_iso_string now = Inr nowIso \<Longrightarrow> find_grant root delegate now gs = Inr (find (direct_grant root delegate nowIso) gs)"
  by (induction gs) (auto simp: has_come_by_Inr direct_grant_def)

lemma find_mem: "find Q xs = Some x \<Longrightarrow> x \<in> set xs \<and> Q x"
  by (auto simp: find_Some_iff)

text \<open>The first grant in force between the two licenses the request.\<close>

definition first_licenses :: "string \<Rightarrow> string \<Rightarrow> string \<Rightarrow> delegation_grant list \<Rightarrow> string \<Rightarrow> string list \<Rightarrow> bool" where
  "first_licenses root delegate nowIso grants action scopes \<longleftrightarrow>
     (case find (direct_grant root delegate nowIso) grants of None \<Rightarrow> False | Some g \<Rightarrow> licenses g action scopes nowIso)"

lemma first_licenses_grant: "first_licenses root delegate nowIso grants action scopes \<Longrightarrow> \<exists>g. g \<in> set grants \<and>
    dg_delegatorActorId g = root \<and> dg_delegateActorId g = delegate \<and> licenses g action scopes nowIso"
  unfolding first_licenses_def
  by (cases "find (direct_grant root delegate nowIso) grants") (auto simp: direct_grant_def dest!: find_mem)

lemma validation_reasons:
  assumes "to_iso_string now = Inr nowIso" and "validateDelegationGrant g action scopes now = Inr v"
  shows "dv_valid v \<or> list_ex (text_includes ''SCOPE_NOT_ALLOWED'') (dv_reasons v) \<or> ''ACTION_NOT_ALLOWED'' \<in> set (dv_reasons v) \<or>
    ''GRANT_EXPIRED'' \<in> set (dv_reasons v) \<or> ''GRANT_REVOKED'' \<in> set (dv_reasons v)"
proof -
  have scope: "text_includes ''SCOPE_NOT_ALLOWED'' (''SCOPE_NOT_ALLOWED:'' @ x)" for x by simp
  show ?thesis using assms scope [of "join '','' (filter (\<lambda>scope. scope \<notin> set (dg_allowedScopes g)) scopes)"]
    by (auto simp: validateDelegationGrant_def Let_def list_ex_iff simp del: append_Cons text_includes.simps split: if_splits)
qed

lemma grant_reasons_Inr:
  assumes "to_iso_string now = Inr nowIso" and "ic_rootActor context = Some root" and "ic_delegateActor context = Some delegate"
  shows "\<exists>ids rs. grant_reasons context now = Inr (ids, rs) \<and> (rs = [] \<longleftrightarrow> first_licenses (act_actorId root) (act_actorId delegate) nowIso
    (ic_delegationGrants context) (ic_requestedAction context) (ic_requestedScopes context))"
proof (cases "find (direct_grant (act_actorId root) (act_actorId delegate) nowIso) (ic_delegationGrants context)")
  case None
  then show ?thesis using assms by (simp add: grant_reasons_def findDelegationGrant_def find_grant_Inr [OF assms(1)] first_licenses_def)
next
  case (Some g)
  obtain v where v: "validateDelegationGrant g (ic_requestedAction context) (ic_requestedScopes context) now = Inr v"
    "dv_valid v \<longleftrightarrow> licenses g (ic_requestedAction context) (ic_requestedScopes context) nowIso"
    using validates_grant [OF assms(1)] by blast
  show ?thesis using validation_reasons [OF assms(1) v(1)] Some assms(2,3)
    by (auto simp: grant_reasons_def findDelegationGrant_def find_grant_Inr [OF assms(1)] first_licenses_def v)
qed

lemma no_root_reasons:
  "ic_rootActor context = None \<Longrightarrow> grant_reasons context now = Inr ([], [''DENY_NO_ACTIVE_DELEGATION''])"
  by (simp add: grant_reasons_def findDelegationGrant_def)

subsection \<open>Trust chains\<close>

lemma chain_built: "to_iso_string now = Inr nowIso \<Longrightarrow> \<exists>c. buildTrustChain root target grants now = Inr c"
  by (auto simp: buildTrustChain_def simp del: trust_search.simps split: option.splits)

lemma direct_chain:
  assumes "buildTrustChain root target grants now = Inr c" and "g \<in> set grants" and "dg_delegatorActorId g = root"
    and "dg_delegateActorId g = target" and "root \<noteq> target"
  shows "tc_chainValidity c = ''valid'' \<and> length (tc_trustPath c) = 1"
proof -
  have direct: "delegation_path grants root [link_of g] target" using assms by (simp add: delegation_path_def)
  then have c: "tc_chainValidity c = ''valid''" "delegation_path grants root (tc_trustPath c) target" "length (tc_trustPath c) \<le> 1"
    using trust_chain_cases [OF assms(1)] by force+
  moreover have "tc_trustPath c \<noteq> []" using c(2) assms(5) by (auto simp: delegation_path_def)
  ultimately show ?thesis by (cases "tc_trustPath c") auto
qed

text \<open>A chain that the evaluation admits: one that is supplied with the context is taken as it is, otherwise the chain is built.\<close>

definition admitted_chain :: "trust_chain \<Rightarrow> jsnum \<Rightarrow> bool" where
  "admitted_chain chain depth \<longleftrightarrow> tc_chainValidity chain = ''valid'' \<and> tc_trustPath chain \<noteq> [] \<and>
     \<not> num_less depth (int_num (int (length (tc_trustPath chain)))) \<and>
     (\<forall>i. Suc i < length (tc_trustPath chain) \<longrightarrow> tl_toActorId (tc_trustPath chain ! i) = tl_fromActorId (tc_trustPath chain ! Suc i))"

definition chain_admits :: "identity_context \<Rightarrow> actor \<Rightarrow> actor \<Rightarrow> bool" where
  "chain_admits context root delegate \<longleftrightarrow> (let
       depth = num_min (ab_maxDelegationDepth (act_authorityBoundary root)) (ab_maxDelegationDepth (act_authorityBoundary delegate)) in
     case ic_trustChain context of Some chain \<Rightarrow> admitted_chain chain depth
     | None \<Rightarrow> act_actorId root \<noteq> act_actorId delegate \<and> \<not> num_less depth (int_num 1))"

lemma broken_iff: "broken_link ls \<longleftrightarrow> \<not> (\<forall>i. Suc i < length ls \<longrightarrow> tl_toActorId (ls ! i) = tl_fromActorId (ls ! Suc i))"
proof (induction ls rule: broken_link.induct)
  case (1 a b ls)
  have "(\<forall>i. Suc i < length (a # b # ls) \<longrightarrow> tl_toActorId ((a # b # ls) ! i) = tl_fromActorId ((a # b # ls) ! Suc i)) \<longleftrightarrow>
      tl_toActorId a = tl_fromActorId b \<and> (\<forall>i. Suc i < length (b # ls) \<longrightarrow> tl_toActorId ((b # ls) ! i) = tl_fromActorId ((b # ls) ! Suc i))"
    by (auto simp: less_Suc_eq_0_disj nth_Cons')
  then show ?case using 1 by auto
qed auto

lemma chain_reasons_Inr:
  assumes "to_iso_string now = Inr nowIso" and "ic_rootActor context = Some root"
    and "first_licenses (act_actorId root) (act_actorId delegate) nowIso (ic_delegationGrants context) action scopes"
  shows "\<exists>rs. chain_reasons context delegate now = Inr rs \<and> (rs = [] \<longleftrightarrow> chain_admits context root delegate)"
proof (cases "ic_trustChain context")
  case None
  obtain c where c: "buildTrustChain (act_actorId root) (act_actorId delegate) (ic_delegationGrants context) now = Inr c"
    using chain_built [OF assms(1)] by blast
  obtain g where g: "g \<in> set (ic_delegationGrants context)" "dg_delegatorActorId g = act_actorId root" "dg_delegateActorId g = act_actorId delegate"
    using first_licenses_grant [OF assms(3)] by blast
  have "dv_valid (validateTrustChain c m) \<longleftrightarrow> act_actorId root \<noteq> act_actorId delegate \<and> \<not> num_less m (int_num 1)" for m
    using direct_chain [OF c g] by (auto simp: chain_validates [OF c])
  then show ?thesis using assms(2) None by (auto simp: chain_reasons_def c Let_def chain_admits_def)
next
  case (Some chain)
  have "dv_valid (validateTrustChain chain m) \<longleftrightarrow> admitted_chain chain m" for m
    by (auto simp: validateTrustChain_def Let_def admitted_chain_def broken_iff)
  then show ?thesis using assms(2) Some by (auto simp: chain_reasons_def Let_def chain_admits_def)
qed

lemma chain_reasons_total: "to_iso_string now = Inr nowIso \<Longrightarrow> \<exists>rs. chain_reasons context delegate now = Inr rs"
proof (cases "ic_rootActor context")
  case (Some root)
  assume "to_iso_string now = Inr nowIso"
  then obtain c where "buildTrustChain (act_actorId root) (act_actorId delegate) (ic_delegationGrants context) now = Inr c"
    using chain_built by blast
  then show ?thesis using Some by (cases "ic_trustChain context") (simp_all add: chain_reasons_def Let_def)
qed (simp add: chain_reasons_def)

subsection \<open>Artificial agents\<close>

definition ai_allows :: "identity_context \<Rightarrow> actor \<Rightarrow> bool" where
  "ai_allows context a \<longleftrightarrow> act_actorType a \<noteq> ''ai_agent'' \<or> (let policy = ab_aiRestrictions (act_authorityBoundary a) in
     \<not> (ai_disallowAutonomousDelegation policy \<and> ic_delegateActor context \<noteq> None \<and> act_actorType (ic_actor context) = ''ai_agent'') \<and>
     set (ic_requestedScopes context) \<inter> set (ai_blockedScopes policy) = {})"

lemma ai_step_reasons: "act_actorType a = ''ai_agent'' \<Longrightarrow>
    fst (snd (ai_step context (flags, reasons, obligations) a)) = [] \<longleftrightarrow> reasons = [] \<and> ai_allows context a"
  by (auto simp: ai_step_def ai_allows_def Let_def list_ex_iff)

lemma ai_fold_reasons: "\<forall>a \<in> set agents. act_actorType a = ''ai_agent'' \<Longrightarrow>
    fst (snd (foldl (ai_step context) found agents)) = [] \<longleftrightarrow> fst (snd found) = [] \<and> (\<forall>a \<in> set agents. ai_allows context a)"
proof (induction agents arbitrary: found)
  case (Cons a agents)
  then show ?case using ai_step_reasons [of a "context" "fst found" "fst (snd found)" "snd (snd found)"] by auto
qed simp

lemma ai_other: "act_actorType a \<noteq> ''ai_agent'' \<Longrightarrow> ai_allows context a"
  by (simp add: ai_allows_def)

lemma ai_actors_allow: "(\<forall>a \<in> set (ai_actors context). ai_allows context a) \<longleftrightarrow>
    ai_allows context (ic_actor context) \<and> (\<forall>d. ic_delegateActor context = Some d \<longrightarrow> ai_allows context d)"
  using ai_other [of _ "context"] by (auto simp: ai_actors_def split: option.splits)

subsection \<open>The decision\<close>

definition actor_allows :: "identity_context \<Rightarrow> bool" where
  "actor_allows context \<longleftrightarrow> (let boundary = act_authorityBoundary (ic_actor context) in
     act_active (ic_actor context) \<and> ic_requestedAction context \<notin> set (ab_blockedActions boundary) \<and>
     set (ic_requestedScopes context) \<inter> set (ab_restrictedScopes boundary) = {} \<and>
     \<not> num_less (ab_maxDelegationDepth boundary) (int_num 0))"

lemma actor_reasons_Nil: "actor_reasons context = [] \<and> \<not> num_less (ab_maxDelegationDepth (act_authorityBoundary (ic_actor context))) (int_num 0) \<longleftrightarrow>
    actor_allows context"
  by (auto simp: actor_reasons_def actor_allows_def Let_def list_ex_iff)

text \<open>Whatever the delegation gives, the request is allowed when none of the four has a reason against it.\<close>

lemma evaluates:
  assumes "delegation_reasons context (now_or clock (ic_now context)) = Inr (ids, rs)"
  shows "\<exists>d. evaluateIdentityPolicy clock context = Inr d \<and> (id_allow d \<longleftrightarrow> actor_allows context \<and> rs = [] \<and>
    ai_allows context (ic_actor context) \<and> (\<forall>d. ic_delegateActor context = Some d \<longrightarrow> ai_allows context d))"
proof -
  let ?depth = "reason_if (num_less (ab_maxDelegationDepth (act_authorityBoundary (ic_actor context))) (int_num 0)) ''DENY_MAX_DELEGATION_DEPTH_EXCEEDED''"
  obtain flags reasons obligations where fold: "foldl (ai_step context) (no_flags, actor_reasons context @ rs @ ?depth, []) (ai_actors context) =
    (flags, reasons, obligations)" by (metis prod_cases3)
  have "\<forall>a \<in> set (ai_actors context). act_actorType a = ''ai_agent''" by (simp add: ai_actors_def)
  from ai_fold_reasons [OF this, of "context" "(no_flags, actor_reasons context @ rs @ ?depth, [])"] fold
  have "reasons = [] \<longleftrightarrow> actor_allows context \<and> rs = [] \<and> ai_allows context (ic_actor context) \<and>
      (\<forall>d. ic_delegateActor context = Some d \<longrightarrow> ai_allows context d)"
    unfolding ai_actors_allow using actor_reasons_Nil [of "context"] by auto
  then show ?thesis by (simp add: evaluateIdentityPolicy_def assms fold Let_def)
qed

lemma allows_delegate:
  assumes "to_iso_string (now_or clock (ic_now context)) = Inr nowIso"
    and "ic_rootActor context = Some root" and "ic_delegateActor context = Some delegate"
  shows "\<exists>d. evaluateIdentityPolicy clock context = Inr d \<and> (id_allow d \<longleftrightarrow> actor_allows context \<and> act_active delegate \<and>
    first_licenses (act_actorId root) (act_actorId delegate) nowIso (ic_delegationGrants context)
      (ic_requestedAction context) (ic_requestedScopes context) \<and>
    chain_admits context root delegate \<and> ai_allows context (ic_actor context) \<and> ai_allows context delegate)"
proof -
  let ?now = "now_or clock (ic_now context)"
  obtain ids rs where g: "grant_reasons context ?now = Inr (ids, rs)" "rs = [] \<longleftrightarrow> first_licenses (act_actorId root) (act_actorId delegate) nowIso
    (ic_delegationGrants context) (ic_requestedAction context) (ic_requestedScopes context)"
    using grant_reasons_Inr [OF assms] by blast
  obtain cs where c: "chain_reasons context delegate ?now = Inr cs" "rs = [] \<Longrightarrow> cs = [] \<longleftrightarrow> chain_admits context root delegate"
    using chain_reasons_Inr [OF assms(1,2), of delegate "ic_requestedAction context" "ic_requestedScopes context"]
      chain_reasons_total [OF assms(1)] g(2) by blast
  have "delegation_reasons context ?now = Inr (ids, reason_if (\<not> act_active delegate) ''DENY_ACTOR_INACTIVE'' @ rs @ cs)"
    by (simp add: delegation_reasons_def assms(3) g(1) c(1))
  from evaluates [OF this] show ?thesis using g(2) c(2) assms(3) by auto
qed

lemma delegate_needs_grant:
  assumes "to_iso_string (now_or clock (ic_now context)) = Inr nowIso" and "evaluateIdentityPolicy clock context = Inr d"
    and "id_allow d" and "ic_delegateActor context = Some delegate"
  shows "\<exists>root. ic_rootActor context = Some root \<and> first_licenses (act_actorId root) (act_actorId delegate) nowIso
    (ic_delegationGrants context) (ic_requestedAction context) (ic_requestedScopes context)"
proof -
  obtain ids rs where rs: "delegation_reasons context (now_or clock (ic_now context)) = Inr (ids, rs)"
    using assms(2) by (auto simp: evaluateIdentityPolicy_def bind_result_Inr)
  then have none: "rs = []" using evaluates [OF rs] assms(2,3) by auto
  show ?thesis
  proof (cases "ic_rootActor context")
    case None
    then show ?thesis using rs none assms(4) by (auto simp: delegation_reasons_def no_root_reasons bind_result_Inr)
  next
    case (Some root)
    then show ?thesis using grant_reasons_Inr [OF assms(1) Some assms(4)] rs none assms(4)
      by (auto simp: delegation_reasons_def bind_result_Inr)
  qed
qed

text \<open>A scope that is blocked for an agent is a reason against the request.\<close>

lemma blocked_flag:
  "(gf_blockedByAIScopeRestriction (fst found) \<longrightarrow> fst (snd found) \<noteq> []) \<Longrightarrow>
   gf_blockedByAIScopeRestriction (fst (foldl (ai_step context) found agents)) \<longrightarrow>
   fst (snd (foldl (ai_step context) found agents)) \<noteq> []"
proof (induction agents arbitrary: found)
  case (Cons a agents)
  have "gf_blockedByAIScopeRestriction (fst (ai_step context found a)) \<longrightarrow> fst (snd (ai_step context found a)) \<noteq> []"
    using Cons.prems by (cases found) (auto simp: ai_step_def Let_def)
  then show ?case using Cons.IH by simp
qed simp

section \<open>Properties\<close>

text \<open> C15: A delegate of a root actor is allowed a request exactly when the acting actor's own boundary allows it, the
  delegate is active, the first grant in force that leads directly from the root to the delegate licenses the action and the
  scopes, no restriction on artificial agents stands against it, and the trust chain is admitted: a chain supplied with the
  context when it is marked valid, is not empty, has no gap and is no longer than both depths admit; without one, when the
  delegate is another actor than the root and both depths admit one delegation.\<close>

theorem delegated_request_iff:
  assumes "evaluateIdentityPolicy clock context = Inr decision" and "to_iso_string (now_or clock (ic_now context)) = Inr nowIso"
    and "ic_rootActor context = Some root" and "ic_delegateActor context = Some delegate"
  shows "id_allow decision \<longleftrightarrow> actor_allows context \<and> act_active delegate \<and>
    first_licenses (act_actorId root) (act_actorId delegate) nowIso (ic_delegationGrants context)
      (ic_requestedAction context) (ic_requestedScopes context) \<and>
    chain_admits context root delegate \<and> ai_allows context (ic_actor context) \<and> ai_allows context delegate"
  using allows_delegate [OF assms(2-4)] assms(1) by auto

definition bob :: actor where
  "bob = sample_actor\<lparr>act_actorId := ''bob''\<rparr>"

definition sample_context :: identity_context where
  "sample_context = \<lparr>ic_actor = bob, ic_rootActor = Some sample_actor, ic_delegateActor = Some bob,
     ic_delegationGrants = sample_delegations, ic_requestedAction = ''read'', ic_requestedScopes = [''mail''],
     ic_trustChain = None, ic_now = None\<rparr>"

lemma sample_context_ok:
  "actor_allows sample_context" "act_active bob" "act_actorId sample_actor = ''ann''" "act_actorId bob = ''bob''"
  "first_licenses ''ann'' ''bob'' nowIso sample_delegations ''read'' [''mail'']"
  "chain_admits sample_context sample_actor bob"
  "ai_allows sample_context bob"
  by (simp_all add: actor_allows_def chain_admits_def sample_context_def bob_def sample_actor_def defaultAuthorityBoundary_def int_num_def num_min_def
      first_licenses_def direct_grant_def licenses_def has_come_def sample_delegations_def sample_delegation_def ai_allows_def)

theorem delegated_request_iff_witness:
  "\<exists>decision. evaluateIdentityPolicy 0 sample_context = Inr decision \<and> id_allow decision"
proof -
  obtain t where t: "to_iso_string (now_or 0 (ic_now sample_context)) = Inr t"
    using iso_total [of 0] by (auto simp: now_or_def sample_context_def)
  have parts: "ic_rootActor sample_context = Some sample_actor"
    "ic_delegateActor sample_context = Some bob" by (simp_all add: sample_context_def)
  obtain d where d: "evaluateIdentityPolicy 0 sample_context = Inr d" using allows_delegate [OF t parts] by blast
  have "id_allow d" using delegated_request_iff [OF d t parts] sample_context_ok by (simp add: sample_context_def)
  then show ?thesis using d by blast
qed

text \<open> C16: No trust chain stands in for a grant: whoever acts as a delegate is allowed a request only if a root actor is
  named and one of the grants given, not revoked and not expired, leads directly from the root to the delegate and
  licenses the action and the scopes.\<close>

theorem delegation_is_direct:
  assumes "evaluateIdentityPolicy clock context = Inr decision" and "id_allow decision"
    and "ic_delegateActor context = Some delegate" and "to_iso_string (now_or clock (ic_now context)) = Inr nowIso"
  shows "\<exists>root g. ic_rootActor context = Some root \<and> g \<in> set (ic_delegationGrants context) \<and>
    dg_delegatorActorId g = act_actorId root \<and> dg_delegateActorId g = act_actorId delegate \<and>
    licenses g (ic_requestedAction context) (ic_requestedScopes context) nowIso"
  using delegate_needs_grant [OF assms(4,1,2,3)] by (blast dest: first_licenses_grant)

text \<open>Cy can be reached from Ann through Bob; acting for her is refused all the same.\<close>

theorem delegation_is_direct_witness:
  "\<nexists>decision. evaluateIdentityPolicy 0 (sample_context\<lparr>ic_delegateActor := Some (bob\<lparr>act_actorId := ''cy''\<rparr>)\<rparr>) = Inr decision \<and>
    id_allow decision"
proof -
  let ?c = "sample_context\<lparr>ic_delegateActor := Some (bob\<lparr>act_actorId := ''cy''\<rparr>)\<rparr>"
  obtain t where t: "to_iso_string (now_or 0 (ic_now ?c)) = Inr t"
    using iso_total [of 0] by (auto simp: now_or_def sample_context_def)
  have "evaluateIdentityPolicy 0 ?c = Inr d \<Longrightarrow> id_allow d \<Longrightarrow> False" for d
    using delegation_is_direct [of 0 ?c d "bob\<lparr>act_actorId := ''cy''\<rparr>", OF _ _ _ t]
    by (auto simp: sample_context_def sample_actor_def sample_delegations_def sample_delegation_def)
  then show ?thesis by blast
qed

text \<open> C17: Access behind the identity check is granted exactly when the identity check and the decision point both allow
  the request; a request that the identity check refuses never reaches the decision point.\<close>

theorem identity_gate_composes:
  assumes "evaluateAccessWithIdentity P clock random context inp st = Inr (r, st')"
  shows "\<exists>identity. evaluateIdentityPolicy clock context = Inr identity \<and>
    (pd_allow (ia_decision r) \<longleftrightarrow> id_allow identity \<and>
      permits P clock (pdp_input inp (id_normalizedActor identity) (ic_requestedAction context))) \<and>
    gs_pdp st' = (if id_allow identity
      then snd (evaluateAccess P clock random (pdp_input inp (id_normalizedActor identity) (ic_requestedAction context)) (gs_pdp st))
      else gs_pdp st)"
proof -
  obtain identity where i: "evaluateIdentityPolicy clock context = Inr identity"
    using assms by (auto simp: evaluateAccessWithIdentity_def bind_result_Inr)
  let ?inp = "pdp_input inp (id_normalizedActor identity) (ic_requestedAction context)"
  obtain pdp pdp_st where pdp: "evaluateAccess P clock random ?inp (gs_pdp st) = (pdp, pdp_st)" by fastforce
  then have allow: "pd_allow pdp \<longleftrightarrow> permits P clock ?inp" using evaluate_permits [of P clock random ?inp "gs_pdp st"] by simp
  have hook: "gs_pdp (identity_hook e s) = gs_pdp s" for e s by (simp add: identity_hook_def)
  show ?thesis using assms i pdp allow hook by (cases "id_allow identity") (auto simp: evaluateAccessWithIdentity_def Let_def)
qed

definition sample_identity_input :: identity_policy_input where
  "sample_identity_input = \<lparr>ip_actor = None, ip_action = None, ip_resource = pi_resource sample_policy_input,
     ip_permission = pi_permission sample_policy_input, ip_context = None\<rparr>"

definition empty_gate :: gate_state where
  "empty_gate = \<lparr>gs_pdp = \<lparr>traceStore = [], policyHook = True, policyEvents = []\<rparr>, identityHook = True, identityEvents = []\<rparr>"

lemma gate_total:
  "evaluateIdentityPolicy clock context = Inr identity \<Longrightarrow> \<exists>r st'. evaluateAccessWithIdentity P clock random context inp st = Inr (r, st')"
  by (auto simp: evaluateAccessWithIdentity_def Let_def split: prod.splits)

lemma sample_identity: "\<exists>i. evaluateIdentityPolicy 0 sample_context = Inr i \<and> id_allow i"
proof -
  obtain t where t: "to_iso_string (now_or 0 (ic_now sample_context)) = Inr t"
    using iso_total [of 0] by (auto simp: now_or_def sample_context_def)
  show ?thesis using allows_delegate [OF t, of sample_actor bob] sample_context_ok by (auto simp: sample_context_def)
qed

theorem identity_gate_composes_witness:
  "\<exists>r st'. evaluateAccessWithIdentity zero_platform 0 ''x'' sample_context sample_identity_input empty_gate = Inr (r, st') \<and>
    pd_allow (ia_decision r)"
proof -
  obtain i where i: "evaluateIdentityPolicy 0 sample_context = Inr i" "id_allow i" using sample_identity by blast
  obtain r st' where r: "evaluateAccessWithIdentity zero_platform 0 ''x'' sample_context sample_identity_input empty_gate = Inr (r, st')"
    using gate_total [OF i(1)] by blast
  have "permits zero_platform 0 (pdp_input sample_identity_input n ''read'')" for n
    by (simp add: permits_def pdp_input_def sample_identity_input_def sample_policy_input_def permission_expired_def truthy_def
        permitted_actions_def restricts_brands_def)
  then show ?thesis using identity_gate_composes [OF r] i r by (auto simp: sample_context_def)
qed

text \<open>An event of the kind \<open>ai_scope_blocked\<close> is never sent: such a request is refused before.\<close>

theorem blocked_scope_is_denied:
  assumes "evaluateIdentityPolicy clock context = Inr decision" and "gf_blockedByAIScopeRestriction (id_aiGovernanceFlags decision)"
  shows "\<not> id_allow decision"
proof -
  obtain ids rs where rs: "delegation_reasons context (now_or clock (ic_now context)) = Inr (ids, rs)"
    using assms(1) by (auto simp: evaluateIdentityPolicy_def bind_result_Inr)
  define start where "start = (no_flags, actor_reasons context @ rs @
    reason_if (num_less (ab_maxDelegationDepth (act_authorityBoundary (ic_actor context))) (int_num 0)) ''DENY_MAX_DELEGATION_DEPTH_EXCEEDED'', [] :: string list)"
  obtain flags reasons obligations where fold: "foldl (ai_step context) start (ai_actors context) = (flags, reasons, obligations)"
    by (metis prod_cases3)
  have "gf_blockedByAIScopeRestriction flags \<Longrightarrow> reasons \<noteq> []"
    using blocked_flag [of start "context" "ai_actors context"] fold by (simp add: start_def no_flags_def)
  moreover have "decision = decision\<lparr>id_allow := (reasons = []), id_aiGovernanceFlags := flags\<rparr>"
    using assms(1) fold by (auto simp: evaluateIdentityPolicy_def rs Let_def start_def)
  ultimately show ?thesis using assms(2) by (cases decision) simp
qed

end
