(* ===== verification/AuditPlane.thy ===== *)
theory AuditPlane
  imports IdentityPolicy
begin

text \<open>
  \<open>protocol/audit/\<close>: events of every origin brought into one form, the plane that keeps them in the order of their
  arrival, its queries, and correlations that gather the events that belong together.
\<close>

section \<open>Events\<close>

record audit_event =
  au_eventId :: string
  au_eventType :: string
  au_timestamp :: string
  au_actorId :: "string option"
  au_targetActorId :: "string option"
  au_relationshipId :: "string option"
  au_policyTraceId :: "string option"
  au_delegationGrantIds :: "string list"
  au_trustChainRef :: "string option"
  au_resourceId :: "string option"
  au_action :: "string option"
  au_decision :: "string option"
  au_reasons :: "string list"
  au_obligations :: "string list"
  au_metadata :: json

record audit_event_input =
  ae_eventId :: "string option"
  ae_eventType :: string
  ae_timestamp :: "string option"
  ae_actorId :: "string option"
  ae_targetActorId :: "string option"
  ae_relationshipId :: "string option"
  ae_policyTraceId :: "string option"
  ae_delegationGrantIds :: "string list option"
  ae_trustChainRef :: "string option"
  ae_resourceId :: "string option"
  ae_action :: "string option"
  ae_decision :: "string option"
  ae_reasons :: "string list option"
  ae_obligations :: "string list option"
  ae_metadata :: json

text \<open>\<open>a ?? b\<close> on values, and \<open>a ?? b\<close> on an optional one.\<close>

definition nullish :: "json \<Rightarrow> json \<Rightarrow> json" where
  "nullish a b = (if a = JUndef \<or> a = JNull then b else a)"

definition or_else :: "'a option \<Rightarrow> 'a \<Rightarrow> 'a" where
  "or_else x d = (case x of None \<Rightarrow> d | Some v \<Rightarrow> v)"

definition normalizeTimestamp :: "platform \<Rightarrow> int \<Rightarrow> string option \<Rightarrow> string" where
  "normalizeTimestamp P clock val = (if \<not> truthy val then clock_text clock
     else (case date_of P (the val) of None \<Rightarrow> clock_text clock | Some t \<Rightarrow> clock_text t))"

definition createAuditEvent :: "platform \<Rightarrow> int \<Rightarrow> string \<Rightarrow> audit_event_input \<Rightarrow> audit_event" where
  "createAuditEvent P clock uuid inp = \<lparr>au_eventId = or_else (ae_eventId inp) uuid, au_eventType = ae_eventType inp,
     au_timestamp = normalizeTimestamp P clock (ae_timestamp inp), au_actorId = ae_actorId inp,
     au_targetActorId = ae_targetActorId inp, au_relationshipId = ae_relationshipId inp,
     au_policyTraceId = ae_policyTraceId inp, au_delegationGrantIds = or_else (ae_delegationGrantIds inp) [],
     au_trustChainRef = ae_trustChainRef inp, au_resourceId = ae_resourceId inp, au_action = ae_action inp,
     au_decision = ae_decision inp, au_reasons = or_else (ae_reasons inp) [], au_obligations = or_else (ae_obligations inp) [],
     au_metadata = nullish (ae_metadata inp) (JObj [])\<rparr>"

definition inferEventTypeFromDecision :: "string \<Rightarrow> bool \<Rightarrow> bool \<Rightarrow> string" where
  "inferEventTypeFromDecision decision aiEscalation aiScopeBlocked =
     (if aiScopeBlocked then ''ai_scope_blocked''
      else if aiEscalation then ''ai_escalation_required''
      else ''policy_decision'')"

section \<open>Normalization\<close>

definition asString :: "json \<Rightarrow> string option" where
  "asString val = (case val of JStr (c # cs) \<Rightarrow> Some (c # cs) | _ \<Rightarrow> None)"

definition asDateish :: "json \<Rightarrow> string option" where
  "asDateish val = (case val of JStr s \<Rightarrow> Some s | _ \<Rightarrow> None)"

fun text_items :: "json list \<Rightarrow> string list" where
  "text_items [] = []"
| "text_items (JStr s # items) = s # text_items items"
| "text_items (item # items) = text_items items"

definition asStringArray :: "json \<Rightarrow> string list" where
  "asStringArray val = (case val of JArr items \<Rightarrow> text_items items | JStr s \<Rightarrow> [s] | _ \<Rightarrow> [])"

definition inferDecision :: "json_object \<Rightarrow> string" where
  "inferDecision inp = (case get_prop inp ''decision'' of JStr s \<Rightarrow> s
     | _ \<Rightarrow> (case get_prop inp ''allow'' of JBool b \<Rightarrow> (if b then ''allow'' else ''deny'')
       | _ \<Rightarrow> (case get_prop inp ''allowed'' of JBool b \<Rightarrow> (if b then ''allow'' else ''deny'') | _ \<Rightarrow> ''unknown'')))"

definition normalizeAuditEvent :: "platform \<Rightarrow> int \<Rightarrow> string \<Rightarrow> json_object \<Rightarrow> audit_event" where
  "normalizeAuditEvent P clock uuid inp = (let
     explicitType = (case get_prop inp ''eventType'' of JStr s \<Rightarrow> Some s | _ \<Rightarrow> None);
     reasons = asStringArray (nullish (nullish (get_prop inp ''reasons'') (get_prop inp ''identityReasons'')) (get_prop inp ''reason''));
     obligations = asStringArray (get_prop inp ''obligations'');
     aiEscalation = ''OBLIGATION_AI_ESCALATION_REQUIRED'' \<in> set obligations;
     aiScopeBlocked = ''DENY_AI_SCOPE_BLOCKED'' \<in> set reasons;
     decision = inferDecision inp;
     eventType = or_else explicitType (inferEventTypeFromDecision decision aiEscalation aiScopeBlocked)
   in createAuditEvent P clock uuid \<lparr>
     ae_eventId = asString (nullish (get_prop inp ''eventId'') (get_prop inp ''event_id'')),
     ae_eventType = eventType,
     ae_timestamp = asDateish (nullish (get_prop inp ''timestamp'') (get_prop inp ''occurred_at'')),
     ae_actorId = asString (nullish (nullish (get_prop inp ''actorId'') (get_prop inp ''actor_id'')) (get_prop inp ''subject_id'')),
     ae_targetActorId = asString (nullish (get_prop inp ''targetActorId'') (get_prop inp ''requester_id'')),
     ae_relationshipId = asString (get_prop inp ''relationshipId''),
     ae_policyTraceId = asString (nullish (get_prop inp ''policyTraceId'') (get_prop inp ''traceId'')),
     ae_delegationGrantIds = Some (asStringArray (nullish (get_prop inp ''delegationGrantIds'') (get_prop inp ''delegation_grant_ids''))),
     ae_trustChainRef = asString (get_prop inp ''trustChainRef''),
     ae_resourceId = asString (nullish (get_prop inp ''resourceId'') (get_prop inp ''resource'')),
     ae_action = asString (get_prop inp ''action''), ae_decision = Some decision, ae_reasons = Some reasons,
     ae_obligations = Some obligations, ae_metadata = nullish (get_prop inp ''metadata'') (JObj [])\<rparr>)"

section \<open>Queries\<close>

definition getEventsForActor :: "audit_event list \<Rightarrow> string \<Rightarrow> audit_event list" where
  "getEventsForActor events actorId = filter (\<lambda>e. au_actorId e = Some actorId \<or> au_targetActorId e = Some actorId) events"

definition getEventsForRelationship :: "audit_event list \<Rightarrow> string \<Rightarrow> audit_event list" where
  "getEventsForRelationship events relationshipId = filter (\<lambda>e. au_relationshipId e = Some relationshipId) events"

definition getEventsForTrace :: "audit_event list \<Rightarrow> string \<Rightarrow> audit_event list" where
  "getEventsForTrace events traceId = filter (\<lambda>e. au_policyTraceId e = Some traceId) events"

definition getDeniedActions :: "audit_event list \<Rightarrow> audit_event list" where
  "getDeniedActions events = filter (\<lambda>e. au_decision e = Some ''deny'') events"

definition getAIEscalationEvents :: "audit_event list \<Rightarrow> audit_event list" where
  "getAIEscalationEvents events = filter (\<lambda>e. au_eventType e = ''ai_escalation_required'' \<or>
     ''OBLIGATION_AI_ESCALATION_REQUIRED'' \<in> set (au_obligations e)) events"

section \<open>Correlations\<close>

record audit_correlation =
  ac_correlationId :: string
  ac_rootEventId :: string
  ac_relatedEventIds :: "string list"
  ac_traceIds :: "string list"
  ac_actorRefs :: "string list"

text \<open>\<open>[a, b].filter((v) => Boolean(v))\<close>.\<close>

definition present_texts :: "string option list \<Rightarrow> string list" where
  "present_texts xs = map the (filter truthy xs)"

definition createCorrelation :: "string \<Rightarrow> audit_event \<Rightarrow> audit_correlation" where
  "createCorrelation uuid rootEvent = \<lparr>ac_correlationId = uuid, ac_rootEventId = au_eventId rootEvent,
     ac_relatedEventIds = [au_eventId rootEvent],
     ac_traceIds = (if truthy (au_policyTraceId rootEvent) then [the (au_policyTraceId rootEvent)] else []),
     ac_actorRefs = present_texts [au_actorId rootEvent, au_targetActorId rootEvent]\<rparr>"

definition attachRelatedEvent :: "audit_correlation \<Rightarrow> audit_event \<Rightarrow> audit_correlation" where
  "attachRelatedEvent correlation event = correlation\<lparr>
     ac_relatedEventIds := unique (ac_relatedEventIds correlation @ [au_eventId event]),
     ac_traceIds := (if truthy (au_policyTraceId event) then unique (ac_traceIds correlation @ [the (au_policyTraceId event)])
       else ac_traceIds correlation),
     ac_actorRefs := unique (present_texts (map Some (ac_actorRefs correlation) @ [au_actorId event, au_targetActorId event]))\<rparr>"

text \<open>The difference of two time values; a comparator that answers NaN counts as 0.\<close>

definition compare_timestamps :: "platform \<Rightarrow> audit_event \<Rightarrow> audit_event \<Rightarrow> int" where
  "compare_timestamps P a b = (case (date_of P (au_timestamp a), date_of P (au_timestamp b)) of
     (Some s, Some t) \<Rightarrow> s - t | _ \<Rightarrow> 0)"

definition resolveCorrelation :: "platform \<Rightarrow> audit_correlation \<Rightarrow> audit_event list \<Rightarrow> audit_event list" where
  "resolveCorrelation P correlation events = sort_cmp (compare_timestamps P)
     (filter (\<lambda>e. au_eventId e \<in> set (ac_relatedEventIds correlation)) events)"

section \<open>The plane\<close>

record audit_plane =
  pl_events :: "audit_event list"
  pl_correlations :: "(string \<times> audit_correlation) list"

record audit_query_filter =
  qf_actorId :: "string option"
  qf_relationshipId :: "string option"
  qf_eventType :: "string option"
  qf_decision :: "string option"
  qf_from :: "jsdate option"
  qf_to :: "jsdate option"
  qf_traceId :: "string option"

definition empty_plane :: audit_plane where
  "empty_plane = \<lparr>pl_events = [], pl_correlations = []\<rparr>"

definition emitAuditEvent :: "platform \<Rightarrow> int \<Rightarrow> string \<Rightarrow> json_object \<Rightarrow> audit_plane \<Rightarrow> audit_event \<times> audit_plane" where
  "emitAuditEvent P clock uuid inp plane = (let event = normalizeAuditEvent P clock uuid inp in
     (event, plane\<lparr>pl_events := pl_events plane @ [event]\<rparr>))"

text \<open>The event stays in the plane when the correlation is unknown and the call throws.\<close>

definition emitCorrelatedAuditEvent ::
  "platform \<Rightarrow> int \<Rightarrow> string \<Rightarrow> string \<Rightarrow> json_object \<Rightarrow> audit_plane \<Rightarrow> audit_event result \<times> audit_plane" where
  "emitCorrelatedAuditEvent P clock uuid correlationId inp plane =
     (case emitAuditEvent P clock uuid inp plane of (event, emitted) \<Rightarrow>
       (case map_of (pl_correlations emitted) correlationId of
          None \<Rightarrow> (Inl (Error (''Unknown correlation: '' @ correlationId)), emitted)
        | Some correlation \<Rightarrow> (Inr event,
            emitted\<lparr>pl_correlations := map_set correlationId (attachRelatedEvent correlation event) (pl_correlations emitted)\<rparr>)))"

definition listAuditEvents :: "audit_plane \<Rightarrow> audit_event list" where
  "listAuditEvents plane = pl_events plane"

definition queryAuditEvents :: "platform \<Rightarrow> audit_plane \<Rightarrow> audit_query_filter \<Rightarrow> audit_event list" where
  "queryAuditEvents P plane flt = filter (\<lambda>event.
     if truthy (qf_actorId flt) \<and> au_actorId event \<noteq> qf_actorId flt \<and> au_targetActorId event \<noteq> qf_actorId flt then False
     else if truthy (qf_relationshipId flt) \<and> au_relationshipId event \<noteq> qf_relationshipId flt then False
     else if truthy (qf_eventType flt) \<and> Some (au_eventType event) \<noteq> qf_eventType flt then False
     else if truthy (qf_decision flt) \<and> au_decision event \<noteq> qf_decision flt then False
     else if truthy (qf_traceId flt) \<and> au_policyTraceId event \<noteq> qf_traceId flt then False
     else if (case qf_from flt of None \<Rightarrow> False | Some from \<Rightarrow> date_later from (date_of P (au_timestamp event))) then False
     else if (case qf_to flt of None \<Rightarrow> False | Some to \<Rightarrow> date_later (date_of P (au_timestamp event)) to) then False
     else True) (pl_events plane)"

definition createCorrelationFromEvent :: "string \<Rightarrow> audit_event \<Rightarrow> audit_plane \<Rightarrow> audit_correlation \<times> audit_plane" where
  "createCorrelationFromEvent uuid event plane = (let correlation = createCorrelation uuid event in
     (correlation, plane\<lparr>pl_correlations := map_set (ac_correlationId correlation) correlation (pl_correlations plane)\<rparr>))"

definition plane_resolveCorrelation :: "audit_plane \<Rightarrow> string \<Rightarrow> audit_event list" where
  "plane_resolveCorrelation plane correlationId = (case map_of (pl_correlations plane) correlationId of
     None \<Rightarrow> []
   | Some correlation \<Rightarrow> filter (\<lambda>event. au_eventId event \<in> set (ac_relatedEventIds correlation)) (pl_events plane))"

text \<open>The runs of a plane.\<close>

inductive plane_step :: "platform \<Rightarrow> audit_plane \<Rightarrow> audit_plane \<Rightarrow> bool" for P where
  emits: "emitAuditEvent P clock uuid inp S = (e, S') \<Longrightarrow> plane_step P S S'"
| emits_correlated: "emitCorrelatedAuditEvent P clock uuid c inp S = (r, S') \<Longrightarrow> plane_step P S S'"
| correlates: "createCorrelationFromEvent uuid e S = (c, S') \<Longrightarrow> plane_step P S S'"

inductive_cases plane_stepE: "plane_step P S S'"


section \<open>Lemmas\<close>

subsection \<open>The plane\<close>

interpretation correlations: keyed_store "map_of :: (string \<times> audit_correlation) list \<Rightarrow> _" map_set
  by unfold_locales (rule map_of_map_set)

text \<open>A correlation is held under its identifier, names its root and gathers each event once.  Any event may be made the
  root of a correlation, also one the plane has not recorded; every other related event is recorded.\<close>

definition correlation_ok :: "audit_event list \<Rightarrow> string \<Rightarrow> audit_correlation \<Rightarrow> bool" where
  "correlation_ok events i c \<longleftrightarrow> ac_correlationId c = i \<and> ac_rootEventId c \<in> set (ac_relatedEventIds c) \<and>
     distinct (ac_relatedEventIds c) \<and>
     set (ac_relatedEventIds c) \<subseteq> insert (ac_rootEventId c) (au_eventId ` set events)"

definition plane_inv :: "audit_plane \<Rightarrow> bool" where
  "plane_inv S \<longleftrightarrow> distinct (map fst (pl_correlations S)) \<and>
     correlations.all_entries (correlation_ok (pl_events S)) (pl_correlations S)"

lemma correlation_more: "correlation_ok es i c \<Longrightarrow> correlation_ok (es @ es') i c"
  by (auto simp: correlation_ok_def)

lemma entries_more: "correlations.all_entries (correlation_ok es) m \<Longrightarrow> correlations.all_entries (correlation_ok (es @ es')) m"
  by (auto simp: correlations.all_entries_def intro: correlation_more)

lemma correlation_attach: "correlation_ok es i c \<Longrightarrow> correlation_ok (es @ [e]) i (attachRelatedEvent c e)"
  by (auto simp: correlation_ok_def attachRelatedEvent_def)

lemma correlation_create: "correlation_ok es uuid (createCorrelation uuid e)"
  by (auto simp: correlation_ok_def createCorrelation_def)

lemma correlation_resolved:
  assumes "map_of (pl_correlations T) i = Some c" and "correlation_ok (pl_events T) i c"
  shows "set (ac_relatedEventIds c) \<subseteq> insert (ac_rootEventId c) (au_eventId ` set (plane_resolveCorrelation T i))"
  using assms by (auto simp: correlation_ok_def plane_resolveCorrelation_def)

lemma plane_step_inv:
  assumes "plane_step P S S'" and "plane_inv S"
  shows "plane_inv S' \<and> (\<exists>es. pl_events S' = pl_events S @ es)"
  using assms(1)
proof (cases rule: plane_step.cases)
  case (emits clock uuid inp e)
  then show ?thesis using assms(2) entries_more by (auto simp: emitAuditEvent_def Let_def plane_inv_def)
next
  case (emits_correlated clock uuid c inp r)
  let ?e = "normalizeAuditEvent P clock uuid inp"
  have entries: "correlations.all_entries (correlation_ok (pl_events S)) (pl_correlations S)" using assms(2) by (simp add: plane_inv_def)
  show ?thesis
  proof (cases "map_of (pl_correlations S) c")
    case None
    then show ?thesis using emits_correlated assms(2) entries_more
      by (auto simp: emitCorrelatedAuditEvent_def emitAuditEvent_def Let_def plane_inv_def)
  next
    case (Some k)
    have "correlation_ok (pl_events S @ [?e]) c (attachRelatedEvent k ?e)"
      using correlation_attach correlations.all_entriesD [OF entries Some] by blast
    then have "correlations.all_entries (correlation_ok (pl_events S @ [?e])) (map_set c (attachRelatedEvent k ?e) (pl_correlations S))"
      using entries_more [OF entries] correlations.all_entries_put by blast
    moreover have "S' = S\<lparr>pl_events := pl_events S @ [?e], pl_correlations := map_set c (attachRelatedEvent k ?e) (pl_correlations S)\<rparr>"
      using emits_correlated Some by (simp add: emitCorrelatedAuditEvent_def emitAuditEvent_def Let_def)
    ultimately show ?thesis using assms(2) by (simp add: plane_inv_def distinct_map_set)
  qed
next
  case (correlates uuid e c)
  have "correlations.all_entries (correlation_ok (pl_events S)) (map_set uuid (createCorrelation uuid e) (pl_correlations S))"
    using assms(2) correlation_create correlations.all_entries_put by (auto simp: plane_inv_def)
  moreover have "S' = S\<lparr>pl_correlations := map_set uuid (createCorrelation uuid e) (pl_correlations S)\<rparr>"
    using correlates by (auto simp: createCorrelationFromEvent_def Let_def createCorrelation_def)
  ultimately show ?thesis using assms(2) by (simp add: plane_inv_def distinct_map_set)
qed

lemma plane_runs:
  assumes "(plane_step P)\<^sup>*\<^sup>* S T" and "plane_inv S"
  shows "plane_inv T \<and> (\<exists>es. pl_events T = pl_events S @ es)"
  using assms(1)
proof (induction rule: rtranclp_induct)
  case (step T U)
  then show ?case using plane_step_inv [of P T U] by auto
qed (simp add: assms(2))

lemma plane_inv_empty [simp]: "plane_inv empty_plane"
  by (simp add: plane_inv_def empty_plane_def correlations.all_entries_def)

subsection \<open>Order of time\<close>

text \<open>On events whose timestamps name moments the comparator is the difference of these.\<close>

definition moment :: "platform \<Rightarrow> audit_event \<Rightarrow> int" where
  "moment P e = (case date_of P (au_timestamp e) of None \<Rightarrow> 0 | Some t \<Rightarrow> t)"

interpretation moments: comparator_order "\<lambda>a b. moment P a - moment P b" for P
  by unfold_locales auto

lemma resolved_order:
  assumes "\<forall>e \<in> set events. date_of P (au_timestamp e) \<noteq> None"
  shows "sorted_wrt (\<lambda>a b. moment P a \<le> moment P b) (resolveCorrelation P c events)"
proof -
  let ?es = "filter (\<lambda>e. au_eventId e \<in> set (ac_relatedEventIds c)) events"
  have "sort_cmp (compare_timestamps P) ?es = sort_cmp (\<lambda>a b. moment P a - moment P b) ?es"
  proof (intro sort_cmp_cong_on ballI)
    fix x y assume "x \<in> set ?es" "y \<in> set ?es"
    then have "date_of P (au_timestamp x) \<noteq> None" "date_of P (au_timestamp y) \<noteq> None" using assms by auto
    then show "compare_timestamps P x y = moment P x - moment P y" by (auto simp: compare_timestamps_def moment_def)
  qed
  then show ?thesis using moments.sorted_sort_cmp [of P ?es] by (simp add: resolveCorrelation_def)
qed

subsection \<open>Events of the decision point\<close>

lemma normalized_decision:
  "\<exists>e. normalizeAuditEvent P clock uuid (decision_event traceId inp allow reason obligations policies) = e \<and>
    au_decision e = Some (if allow then ''allow'' else ''deny'') \<and> au_policyTraceId e = asString (JStr traceId) \<and>
    au_eventType e = ''policy_decision'' \<and> au_actorId e = asString (JStr (pa_id (pi_actor inp))) \<and> au_reasons e = [reason]"
  by (simp add: normalizeAuditEvent_def decision_event_def createAuditEvent_def Let_def inferDecision_def or_else_def nullish_def
      asStringArray_def)

section \<open>Properties\<close>

text \<open> C20: A plane only grows: what it has recorded stays, in order.  Its correlations are held once each under their
  identifiers, name their root event among the related ones, and relate each event once.  The root may be an event that
  the plane never recorded, since any event may be passed for it; every other related event has been recorded, and is
  among the events the correlation resolves to.\<close>

theorem reachable_plane:
  assumes "(plane_step P)\<^sup>*\<^sup>* empty_plane S" and "(plane_step P)\<^sup>*\<^sup>* S T"
  shows "take (length (listAuditEvents S)) (listAuditEvents T) = listAuditEvents S \<and> distinct (map fst (pl_correlations T)) \<and>
    (\<forall>(i, c) \<in> set (pl_correlations T). correlation_ok (listAuditEvents T) i c \<and>
      set (ac_relatedEventIds c) \<subseteq> insert (ac_rootEventId c) (au_eventId ` set (plane_resolveCorrelation T i)))"
proof -
  have "plane_inv S" using plane_runs [OF assms(1)] by simp
  from plane_runs [OF assms(2) this] obtain es where T: "plane_inv T" "pl_events T = pl_events S @ es" by blast
  then have d: "distinct (map fst (pl_correlations T))"
    and ok: "correlations.all_entries (correlation_ok (pl_events T)) (pl_correlations T)"
    by (simp_all add: plane_inv_def)
  have "set (ac_relatedEventIds c) \<subseteq> insert (ac_rootEventId c) (au_eventId ` set (plane_resolveCorrelation T i))"
    if "(i, c) \<in> set (pl_correlations T)" for i c
    using correlation_resolved [of T i c] map_of_is_SomeI [OF d that]
      correlations.all_entriesD [OF ok] by blast
  then show ?thesis using T(2) d ok by (auto simp: listAuditEvents_def correlations.all_entries_def)
qed

definition sample_event :: audit_event where
  "sample_event = normalizeAuditEvent zero_platform 0 ''e1'' [(''allow'', JBool True)]"

lemma sample_event_id [simp]: "au_eventId sample_event = ''e1''"
  by (simp add: sample_event_def normalizeAuditEvent_def createAuditEvent_def Let_def asString_def nullish_def or_else_def)

text \<open>The root of the correlation below is not an event of the plane; the event emitted under the correlation is.\<close>

theorem reachable_plane_witness:
  "\<exists>T c. (plane_step zero_platform)\<^sup>*\<^sup>* \<lparr>pl_events = [sample_event], pl_correlations = []\<rparr> T \<and>
    pl_correlations T = [(''c1'', c)] \<and> ac_relatedEventIds c = [''root'', ''e2''] \<and>
    take 1 (listAuditEvents T) = [sample_event] \<and> ''e2'' \<in> au_eventId ` set (plane_resolveCorrelation T ''c1'')"
proof -
  let ?S = "\<lparr>pl_events = [sample_event], pl_correlations = []\<rparr>"
  let ?root = "sample_event\<lparr>au_eventId := ''root''\<rparr>"
  define U where "U = snd (createCorrelationFromEvent ''c1'' ?root ?S)"
  define T where "T = snd (emitCorrelatedAuditEvent zero_platform 0 ''e2'' ''c1'' [] U)"
  have "plane_step zero_platform empty_plane ?S"
    by (rule plane_step.emits [of _ 0 "''e1''" "[(''allow'', JBool True)]"])
      (simp add: emitAuditEvent_def empty_plane_def sample_event_def Let_def)
  moreover have "plane_step zero_platform ?S U"
    unfolding U_def by (rule plane_step.correlates [OF prod.collapse [symmetric]])
  moreover have "plane_step zero_platform U T"
    unfolding T_def by (rule plane_step.emits_correlated [OF prod.collapse [symmetric]])
  ultimately have run: "(plane_step zero_platform)\<^sup>*\<^sup>* ?S T" and start: "(plane_step zero_platform)\<^sup>*\<^sup>* empty_plane ?S"
    by (blast intro: rtranclp.intros)+
  obtain c where c: "pl_correlations T = [(''c1'', c)]" "ac_relatedEventIds c = [''root'', ''e2'']" "ac_rootEventId c = ''root''"
    by (simp add: T_def U_def createCorrelationFromEvent_def emitCorrelatedAuditEvent_def emitAuditEvent_def Let_def
        createCorrelation_def attachRelatedEvent_def normalizeAuditEvent_def createAuditEvent_def asString_def
        nullish_def or_else_def)
  have "take (length (listAuditEvents ?S)) (listAuditEvents T) = listAuditEvents ?S"
    and "set (ac_relatedEventIds c) \<subseteq> insert (ac_rootEventId c) (au_eventId ` set (plane_resolveCorrelation T ''c1''))"
    using reachable_plane [OF start run] by (auto simp: c(1))
  then have "take 1 (listAuditEvents T) = [sample_event]" "''e2'' \<in> au_eventId ` set (plane_resolveCorrelation T ''c1'')"
    by (auto simp: listAuditEvents_def c)
  then show ?thesis using run c by blast
qed

text \<open>A decision of the policy decision point that is passed on to a plane is found there under its trace, with the
  reason of the decision; but it is listed among the denied actions exactly when it was allowed.\<close>

theorem recorded_decision_inverted:
  assumes "evaluateAccess P clock random inp st = (d, st')" and "policyHook st"
  shows "\<exists>event e plane'. policyEvents st' = policyEvents st @ [event] \<and> emitAuditEvent P clock' uuid event plane = (e, plane') \<and>
    e \<in> set (getEventsForTrace (listAuditEvents plane') (pd_traceId d)) \<and> au_reasons e = [pd_reason d] \<and>
    (e \<in> set (getDeniedActions (listAuditEvents plane')) \<longleftrightarrow> pd_allow d)"
proof -
  obtain reported where st': "st' = policy_hook (decision_event (pd_traceId d) inp (\<not> pd_allow d) (pd_reason d) reported (pd_evaluatedPolicies d))
       (recordDecisionTrace (decision_trace_of (pd_traceId d) clock (pd_evaluatedPolicies d) (pd_reason d) inp) st)"
    and trace: "pd_traceId d = createTraceId clock random"
    using evaluate_recorded [OF assms(1)] by (auto simp: recorded_def)
  let ?event = "decision_event (pd_traceId d) inp (\<not> pd_allow d) (pd_reason d) reported (pd_evaluatedPolicies d)"
  let ?e = "normalizeAuditEvent P clock' uuid ?event"
  have e: "au_decision ?e = Some (if pd_allow d then ''deny'' else ''allow'')" "au_policyTraceId ?e = Some (pd_traceId d)"
    "au_reasons ?e = [pd_reason d]"
    using normalized_decision [of P clock' uuid "pd_traceId d" inp "\<not> pd_allow d" "pd_reason d" reported "pd_evaluatedPolicies d"]
    by (auto simp: trace createTraceId_def asString_def)
  have "policyEvents st' = policyEvents st @ [?event]" using st' assms(2) by (simp add: policy_hook_def)
  moreover have "emitAuditEvent P clock' uuid ?event plane = (?e, plane\<lparr>pl_events := pl_events plane @ [?e]\<rparr>)"
    by (simp add: emitAuditEvent_def Let_def)
  ultimately show ?thesis using e by (fastforce simp: getEventsForTrace_def getDeniedActions_def listAuditEvents_def)
qed

theorem recorded_decision_inverted_witness:
  "\<exists>event e plane'. policyEvents (snd (evaluateAccess zero_platform 0 ''x'' sample_policy_input
      \<lparr>traceStore = [], policyHook = True, policyEvents = []\<rparr>)) = [event] \<and>
    emitAuditEvent zero_platform 0 ''e1'' event empty_plane = (e, plane') \<and> e \<notin> set (getDeniedActions (listAuditEvents plane'))"
proof -
  let ?st = "\<lparr>traceStore = [], policyHook = True, policyEvents = []\<rparr>"
  obtain d st' where e: "evaluateAccess zero_platform 0 ''x'' sample_policy_input ?st = (d, st')" by fastforce
  have "\<not> pd_allow (fst (evaluateAccess zero_platform 0 ''x'' sample_policy_input ?st))"
    by (simp add: evaluate_permits permits_def sample_policy_input_def permitted_actions_def)
  then show ?thesis using recorded_decision_inverted [OF e, of 0 "''e1''" empty_plane] e by auto
qed

text \<open>The events of a correlation are those related to it, each as often as it was recorded, and in the order of
  time when their timestamps name moments.\<close>

theorem correlation_resolves_in_order:
  assumes "\<forall>e \<in> set events. date_of P (au_timestamp e) \<noteq> None"
  shows "mset (resolveCorrelation P c events) = mset (filter (\<lambda>e. au_eventId e \<in> set (ac_relatedEventIds c)) events) \<and>
    sorted_wrt (\<lambda>a b. moment P a \<le> moment P b) (resolveCorrelation P c events)"
  using resolved_order [OF assms] by (simp add: resolveCorrelation_def)

theorem correlation_resolves_in_order_witness:
  "mset (resolveCorrelation (zero_platform\<lparr>dateParseOther := \<lambda>_. Some 7\<rparr>) (createCorrelation ''c'' sample_event)
     [sample_event\<lparr>au_eventId := ''e2''\<rparr>, sample_event]) = {#sample_event#}"
proof -
  have "date_of (zero_platform\<lparr>dateParseOther := \<lambda>_. Some 7\<rparr>) s \<noteq> None" for s
    by (simp add: date_of_def date_parse_def split: option.splits)
  then show ?thesis
    using correlation_resolves_in_order [of "[sample_event\<lparr>au_eventId := ''e2''\<rparr>, sample_event]"
        "zero_platform\<lparr>dateParseOther := \<lambda>_. Some 7\<rparr>" "createCorrelation ''c'' sample_event"]
    by (simp add: createCorrelation_def)
qed

text \<open>An event for a correlation that does not exist is refused, and recorded all the same.\<close>

theorem refused_event_is_recorded:
  assumes "map_of (pl_correlations plane) c = None"
  shows "\<exists>plane' e. emitCorrelatedAuditEvent P clock uuid c inp plane = (Inl (Error (''Unknown correlation: '' @ c)), plane') \<and>
    listAuditEvents plane' = listAuditEvents plane @ [e] \<and> plane_resolveCorrelation plane' c = []"
  using assms by (simp add: emitCorrelatedAuditEvent_def emitAuditEvent_def listAuditEvents_def plane_resolveCorrelation_def Let_def)

theorem refused_event_is_recorded_witness:
  "\<exists>plane'. snd (emitCorrelatedAuditEvent zero_platform 0 ''e'' ''c'' [] empty_plane) = plane' \<and> length (listAuditEvents plane') = 1"
  using refused_event_is_recorded [of empty_plane "''c''" zero_platform 0 "''e''" "[]"] by (auto simp: empty_plane_def listAuditEvents_def)

text \<open>A query for an actor alone is the query for the events of the actor.\<close>

theorem query_by_actor:
  "actorId \<noteq> [] \<Longrightarrow> queryAuditEvents P plane \<lparr>qf_actorId = Some actorId, qf_relationshipId = None, qf_eventType = None,
    qf_decision = None, qf_from = None, qf_to = None, qf_traceId = None\<rparr> = getEventsForActor (listAuditEvents plane) actorId"
  by (auto simp: queryAuditEvents_def getEventsForActor_def listAuditEvents_def truthy_def intro: filter_cong)

end
