(* ===== verification/Relationships.thy ===== *)
theory Relationships
  imports Policy
begin

text \<open>
  \<open>protocol/relationships/\<close>: relationships between actors, the transitions of their state, the policies bound to
  them, the test whether one is in force at a moment, and the events that report what happened to them.
\<close>

section \<open>Data\<close>

record relationship_actor =
  ra_actorId :: string
  ra_actorType :: string
  ra_role :: string

record policy_binding =
  pb_policyId :: string
  pb_attachedAt :: string
  pb_active :: bool
  pb_version :: "string option"

record audit_reference =
  ar_auditEventIds :: "string list"
  ar_lastEvaluatedAt :: "string option"
  ar_lastPolicyTraceId :: "string option"

text \<open>The scope is carried along and never read.\<close>

record relationship =
  rl_id :: string
  rl_type :: string
  rl_state :: string
  rl_actors :: "relationship_actor list"
  rl_scope :: "json_object option"
  rl_policyBindings :: "policy_binding list option"
  rl_audit :: "audit_reference option"
  rl_createdAt :: string
  rl_updatedAt :: string
  rl_startsAt :: "string option"
  rl_expiresAt :: "string option"
  rl_suspendedAt :: "string option"
  rl_revokedAt :: "string option"

definition RELATIONSHIP_STATES :: "string list" where
  "RELATIONSHIP_STATES = [''proposed'', ''pending'', ''active'', ''suspended'', ''expired'', ''revoked'', ''disputed'']"

section \<open>Lifecycle\<close>

definition isoNow :: "int \<Rightarrow> string option \<Rightarrow> string" where
  "isoNow clock at = (case at of None \<Rightarrow> clock_text clock | Some s \<Rightarrow> s)"

definition applyState :: "int \<Rightarrow> relationship \<Rightarrow> string \<Rightarrow> string option \<Rightarrow> relationship" where
  "applyState clock relationship nextState at = relationship\<lparr>rl_state := nextState, rl_updatedAt := isoNow clock at\<rparr>"

definition assertHasSubjectActor :: "relationship_actor list \<Rightarrow> throws" where
  "assertHasSubjectActor actors =
     throw_if (\<not> list_ex (\<lambda>actor. ra_role actor = ''subject'') actors) ''Relationship must include at least one subject actor''"

definition createRelationship ::
  "int \<Rightarrow> string \<Rightarrow> string \<Rightarrow> relationship_actor list \<Rightarrow> string option \<Rightarrow> string option \<Rightarrow> json_object option \<Rightarrow> string option \<Rightarrow>
   relationship result" where
  "createRelationship clock i type actors startsAt expiresAt scope state =
     after (assertHasSubjectActor actors)
       (Inr \<lparr>rl_id = i, rl_type = type, rl_state = (case state of None \<Rightarrow> ''proposed'' | Some s \<Rightarrow> s), rl_actors = actors,
         rl_scope = scope, rl_policyBindings = Some [],
         rl_audit = Some \<lparr>ar_auditEventIds = [], ar_lastEvaluatedAt = None, ar_lastPolicyTraceId = None\<rparr>,
         rl_createdAt = clock_text clock, rl_updatedAt = clock_text clock, rl_startsAt = startsAt, rl_expiresAt = expiresAt,
         rl_suspendedAt = None, rl_revokedAt = None\<rparr>)"

definition activateRelationship :: "int \<Rightarrow> relationship \<Rightarrow> string option \<Rightarrow> relationship result" where
  "activateRelationship clock relationship at =
     after (first_throw [
       throw_if (rl_state relationship = ''revoked'') ''Revoked relationships cannot be reactivated'',
       throw_if (rl_state relationship = ''expired'') ''Expired relationships cannot transition to active'',
       throw_if (rl_state relationship = ''suspended'') ''Suspended relationships require an explicit restore path''])
     (Inr (applyState clock relationship ''active'' at))"

definition suspendRelationship :: "int \<Rightarrow> relationship \<Rightarrow> string option \<Rightarrow> relationship" where
  "suspendRelationship clock relationship at =
     (let suspended = applyState clock relationship ''suspended'' at in suspended\<lparr>rl_suspendedAt := Some (rl_updatedAt suspended)\<rparr>)"

definition revokeRelationship :: "int \<Rightarrow> relationship \<Rightarrow> string option \<Rightarrow> relationship" where
  "revokeRelationship clock relationship at =
     (let revoked = applyState clock relationship ''revoked'' at in revoked\<lparr>rl_revokedAt := Some (rl_updatedAt revoked)\<rparr>)"

definition expireRelationship :: "int \<Rightarrow> relationship \<Rightarrow> string option \<Rightarrow> relationship" where
  "expireRelationship clock relationship at =
     (let expired = applyState clock relationship ''expired'' at in expired\<lparr>rl_expiresAt := Some (rl_updatedAt expired)\<rparr>)"

definition disputeRelationship :: "int \<Rightarrow> relationship \<Rightarrow> string option \<Rightarrow> relationship" where
  "disputeRelationship clock relationship at = applyState clock relationship ''disputed'' at"

text \<open>\<open>a < b\<close> and \<open>a >= b\<close> on time values, false when one of them is NaN.\<close>

definition date_at_least :: "jsdate \<Rightarrow> jsdate \<Rightarrow> bool" where
  "date_at_least a b \<longleftrightarrow> (case (a, b) of (Some s, Some t) \<Rightarrow> s \<ge> t | _ \<Rightarrow> False)"

definition isRelationshipCurrentlyValid :: "platform \<Rightarrow> relationship \<Rightarrow> jsdate \<Rightarrow> bool" where
  "isRelationshipCurrentlyValid P relationship now \<longleftrightarrow>
     (if rl_state relationship \<noteq> ''active'' then False
      else if truthy (rl_revokedAt relationship) then False
      else if truthy (rl_startsAt relationship) \<and> date_later (date_of P (the (rl_startsAt relationship))) now then False
      else if truthy (rl_expiresAt relationship) \<and> date_at_least now (date_of P (the (rl_expiresAt relationship))) then False
      else True)"

section \<open>Policy bindings\<close>

definition attachPolicy :: "int \<Rightarrow> relationship \<Rightarrow> string \<Rightarrow> string option \<Rightarrow> string option \<Rightarrow> relationship" where
  "attachPolicy clock relationship policyId version at =
     (let attachedAt = isoNow clock at;
          currentBindings = (case rl_policyBindings relationship of None \<Rightarrow> [] | Some bs \<Rightarrow> bs);
          nextBindings = map (\<lambda>binding. if pb_policyId binding = policyId
            then binding\<lparr>pb_active := True, pb_version := (case version of None \<Rightarrow> pb_version binding | Some v \<Rightarrow> Some v),
              pb_attachedAt := attachedAt\<rparr> else binding) currentBindings;
          withPolicy = (if list_ex (\<lambda>binding. pb_policyId binding = policyId) nextBindings then nextBindings
            else nextBindings @ [\<lparr>pb_policyId = policyId, pb_attachedAt = attachedAt, pb_active = True, pb_version = version\<rparr>])
      in relationship\<lparr>rl_policyBindings := Some withPolicy, rl_updatedAt := attachedAt\<rparr>)"

definition detachPolicy :: "int \<Rightarrow> relationship \<Rightarrow> string \<Rightarrow> string option \<Rightarrow> relationship" where
  "detachPolicy clock relationship policyId at =
     (let detachedAt = isoNow clock at;
          nextBindings = map (\<lambda>binding. if pb_policyId binding = policyId then binding\<lparr>pb_active := False\<rparr> else binding)
            (case rl_policyBindings relationship of None \<Rightarrow> [] | Some bs \<Rightarrow> bs)
      in relationship\<lparr>rl_policyBindings := Some nextBindings, rl_updatedAt := detachedAt\<rparr>)"

definition listActivePolicies :: "relationship \<Rightarrow> policy_binding list" where
  "listActivePolicies relationship =
     filter pb_active (case rl_policyBindings relationship of None \<Rightarrow> [] | Some bs \<Rightarrow> bs)"

section \<open>Events\<close>

definition RELATIONSHIP_AUDIT_EVENT_TYPES :: "string list" where
  "RELATIONSHIP_AUDIT_EVENT_TYPES = [''relationship_created'', ''relationship_activated'', ''relationship_suspended'',
     ''relationship_revoked'', ''relationship_expired'', ''relationship_disputed'', ''policy_attached'', ''policy_detached'']"

record relationship_event_input =
  ri_relationshipId :: string
  ri_actorId :: "string option"
  ri_occurredAt :: "string option"
  ri_policyTraceId :: "string option"
  ri_metadata :: "json_object option"

record relationship_audit_event =
  re_eventId :: string
  re_type :: string
  re_relationshipId :: string
  re_actorId :: "string option"
  re_occurredAt :: string
  re_policyTraceId :: "string option"
  re_metadata :: "json_object option"

definition buildEvent :: "int \<Rightarrow> string \<Rightarrow> relationship_event_input \<Rightarrow> relationship_audit_event" where
  "buildEvent clock type inp = (let occurredAt = isoNow clock (ri_occurredAt inp) in
     \<lparr>re_eventId = type @ '':'' @ ri_relationshipId inp @ '':'' @ occurredAt, re_type = type,
      re_relationshipId = ri_relationshipId inp, re_actorId = ri_actorId inp, re_occurredAt = occurredAt,
      re_policyTraceId = ri_policyTraceId inp, re_metadata = ri_metadata inp\<rparr>)"

definition emitRelationshipCreated :: "int \<Rightarrow> relationship_event_input \<Rightarrow> relationship_audit_event" where
  "emitRelationshipCreated clock inp = buildEvent clock ''relationship_created'' inp"
definition emitRelationshipActivated :: "int \<Rightarrow> relationship_event_input \<Rightarrow> relationship_audit_event" where
  "emitRelationshipActivated clock inp = buildEvent clock ''relationship_activated'' inp"
definition emitRelationshipSuspended :: "int \<Rightarrow> relationship_event_input \<Rightarrow> relationship_audit_event" where
  "emitRelationshipSuspended clock inp = buildEvent clock ''relationship_suspended'' inp"
definition emitRelationshipRevoked :: "int \<Rightarrow> relationship_event_input \<Rightarrow> relationship_audit_event" where
  "emitRelationshipRevoked clock inp = buildEvent clock ''relationship_revoked'' inp"
definition emitRelationshipExpired :: "int \<Rightarrow> relationship_event_input \<Rightarrow> relationship_audit_event" where
  "emitRelationshipExpired clock inp = buildEvent clock ''relationship_expired'' inp"
definition emitRelationshipDisputed :: "int \<Rightarrow> relationship_event_input \<Rightarrow> relationship_audit_event" where
  "emitRelationshipDisputed clock inp = buildEvent clock ''relationship_disputed'' inp"
definition emitPolicyAttached :: "int \<Rightarrow> relationship_event_input \<Rightarrow> relationship_audit_event" where
  "emitPolicyAttached clock inp = buildEvent clock ''policy_attached'' inp"
definition emitPolicyDetached :: "int \<Rightarrow> relationship_event_input \<Rightarrow> relationship_audit_event" where
  "emitPolicyDetached clock inp = buildEvent clock ''policy_detached'' inp"

section \<open>Runs\<close>

text \<open>What can be done to a relationship, at a moment that is given or is the clock's.\<close>

datatype relationship_action =
    Activate "string option"
  | Suspend "string option"
  | Revoke "string option"
  | Expire "string option"
  | Dispute "string option"
  | Attach string "string option" "string option"
  | Detach string "string option"

primrec perform :: "int \<Rightarrow> relationship_action \<Rightarrow> relationship \<Rightarrow> relationship result" where
  "perform clock (Activate at) r = activateRelationship clock r at"
| "perform clock (Suspend at) r = Inr (suspendRelationship clock r at)"
| "perform clock (Revoke at) r = Inr (revokeRelationship clock r at)"
| "perform clock (Expire at) r = Inr (expireRelationship clock r at)"
| "perform clock (Dispute at) r = Inr (disputeRelationship clock r at)"
| "perform clock (Attach policyId version at) r = Inr (attachPolicy clock r policyId version at)"
| "perform clock (Detach policyId at) r = Inr (detachPolicy clock r policyId at)"

text \<open>A run performs its actions at the moments of the clock; one that throws leaves the relationship as it was.\<close>

fun perform_all :: "(int \<times> relationship_action) list \<Rightarrow> relationship \<Rightarrow> relationship" where
  "perform_all [] r = r"
| "perform_all ((clock, a) # run) r = perform_all run (case perform clock a r of Inl e \<Rightarrow> r | Inr r' \<Rightarrow> r')"

section \<open>Lemmas\<close>

lemma clock_text_nonempty: "clock_text clock \<noteq> []"
  by (auto simp: clock_text_def to_iso_string_def split: prod.splits)

text \<open>No action takes a revocation back, unless it dates a new one with an empty text.\<close>

lemma perform_revoked:
  "truthy (rl_revokedAt r) \<Longrightarrow> a \<noteq> Revoke (Some []) \<Longrightarrow> perform clock a r = Inr r' \<Longrightarrow> truthy (rl_revokedAt r')"
  using clock_text_nonempty [of clock]
  by (cases a) (auto simp: activateRelationship_def applyState_def suspendRelationship_def revokeRelationship_def
      expireRelationship_def disputeRelationship_def attachPolicy_def detachPolicy_def result_simps truthy_def isoNow_def Let_def
      split: option.splits)

lemma run_revoked:
  "truthy (rl_revokedAt r) \<Longrightarrow> \<forall>(clock, a) \<in> set run. a \<noteq> Revoke (Some []) \<Longrightarrow> truthy (rl_revokedAt (perform_all run r))"
proof (induction run arbitrary: r)
  case (Cons ca run)
  obtain clock a where ca: "ca = (clock, a)" by (cases ca)
  show ?case using Cons perform_revoked [of r a clock] by (cases "perform clock a r") (auto simp: ca)
qed simp

definition bindings :: "relationship \<Rightarrow> policy_binding list" where
  "bindings r = (case rl_policyBindings r of None \<Rightarrow> [] | Some bs \<Rightarrow> bs)"

definition relationship_inv :: "relationship \<Rightarrow> bool" where
  "relationship_inv r \<longleftrightarrow> rl_state r \<in> set RELATIONSHIP_STATES \<and> (\<exists>a \<in> set (rl_actors r). ra_role a = ''subject'') \<and>
     distinct (map pb_policyId (bindings r))"

lemma known_binding:
  "(\<And>b. pb_policyId (f b) = pb_policyId b) \<Longrightarrow> list_ex (\<lambda>b. pb_policyId b = p) (map f bs) \<longleftrightarrow> p \<in> pb_policyId ` set bs"
  by (induction bs) auto

lemma bindings_attach:
  "bindings (attachPolicy clock r p v at) = (let bs = map (\<lambda>b. if pb_policyId b = p
      then b\<lparr>pb_active := True, pb_version := (case v of None \<Rightarrow> pb_version b | Some w \<Rightarrow> Some w), pb_attachedAt := isoNow clock at\<rparr>
      else b) (bindings r)
    in if p \<in> pb_policyId ` set (bindings r) then bs
      else bs @ [\<lparr>pb_policyId = p, pb_attachedAt = isoNow clock at, pb_active = True, pb_version = v\<rparr>])"
  by (simp add: attachPolicy_def bindings_def Let_def known_binding)

lemma bindings_detach:
  "bindings (detachPolicy clock r p at) = map (\<lambda>b. if pb_policyId b = p then b\<lparr>pb_active := False\<rparr> else b) (bindings r)"
  by (simp add: detachPolicy_def bindings_def Let_def)

lemma ids_attach: "map pb_policyId (bindings (attachPolicy clock r p v at)) =
    (if p \<in> pb_policyId ` set (bindings r) then map pb_policyId (bindings r) else map pb_policyId (bindings r) @ [p])"
  by (auto simp: bindings_attach Let_def)

lemma ids_detach: "map pb_policyId (bindings (detachPolicy clock r p at)) = map pb_policyId (bindings r)"
  by (auto simp: bindings_detach)

lemma perform_inv: "relationship_inv r \<Longrightarrow> perform clock a r = Inr r' \<Longrightarrow> relationship_inv r'"
proof (cases a)
  case (Attach p v at)
  moreover assume "relationship_inv r" "perform clock a r = Inr r'"
  ultimately show ?thesis using ids_attach [of clock r p v at] by (auto simp: relationship_inv_def attachPolicy_def Let_def)
next
  case (Detach p at)
  moreover assume "relationship_inv r" "perform clock a r = Inr r'"
  ultimately show ?thesis using ids_detach [of clock r p at] by (auto simp: relationship_inv_def detachPolicy_def Let_def)
qed (auto simp: relationship_inv_def activateRelationship_def applyState_def suspendRelationship_def revokeRelationship_def
      expireRelationship_def disputeRelationship_def result_simps Let_def bindings_def RELATIONSHIP_STATES_def)

lemma run_inv: "relationship_inv r \<Longrightarrow> relationship_inv (perform_all run r)"
proof (induction run r rule: perform_all.induct)
  case (2 clock a run r)
  then show ?case using perform_inv [of r clock a] by (cases "perform clock a r") auto
qed simp


section \<open>Properties\<close>

text \<open>A relationship that has been revoked is in force at no moment, whatever is done to it afterwards (a second
  revocation dated with the empty text excepted).\<close>

theorem revoked_stays_invalid:
  assumes "at \<noteq> Some []" and "Revoke (Some []) \<notin> snd ` set run"
  shows "\<not> isRelationshipCurrentlyValid P (perform_all run (revokeRelationship clock r at)) now"
proof -
  have "truthy (rl_revokedAt (revokeRelationship clock r at))"
    using assms(1) clock_text_nonempty [of clock]
    by (auto simp: revokeRelationship_def applyState_def isoNow_def truthy_def Let_def split: option.splits)
  moreover have "\<forall>(c, a) \<in> set run. a \<noteq> Revoke (Some [])" using assms(2) by force
  ultimately have "truthy (rl_revokedAt (perform_all run (revokeRelationship clock r at)))" by (rule run_revoked)
  then show ?thesis by (simp add: isRelationshipCurrentlyValid_def)
qed


definition sample_relationship :: relationship where
  "sample_relationship = \<lparr>rl_id = ''rel'', rl_type = ''employment'', rl_state = ''active'',
     rl_actors = [\<lparr>ra_actorId = ''ann'', ra_actorType = ''human'', ra_role = ''subject''\<rparr>], rl_scope = None,
     rl_policyBindings = Some [], rl_audit = None, rl_createdAt = ''t'', rl_updatedAt = ''t'', rl_startsAt = None,
     rl_expiresAt = None, rl_suspendedAt = None, rl_revokedAt = None\<rparr>"

text \<open>The state of a revoked relationship may well become active again.\<close>

theorem revoked_stays_invalid_witness:
  "isRelationshipCurrentlyValid zero_platform sample_relationship (Some 4) \<and>
   rl_state (perform_all [(1, Dispute None), (2, Activate None)] (revokeRelationship 0 sample_relationship None)) = ''active'' \<and>
   \<not> isRelationshipCurrentlyValid zero_platform
      (perform_all [(1, Dispute None), (2, Activate None)] (revokeRelationship 0 sample_relationship None)) (Some 4)"
proof -
  let ?r = "perform_all [(1, Dispute None), (2, Activate None)] (revokeRelationship 0 sample_relationship None)"
  have "\<not> isRelationshipCurrentlyValid zero_platform ?r (Some 4)" by (rule revoked_stays_invalid) simp_all
  moreover have "rl_state ?r = ''active''"
    by (simp add: disputeRelationship_def applyState_def activateRelationship_def first_throw.simps)
  ultimately show ?thesis by (simp add: isRelationshipCurrentlyValid_def sample_relationship_def truthy_def)
qed

text \<open>Activating a suspended relationship is refused, and there is no operation to restore it; but a dispute about
  it makes activation possible, and if it was in force before, it is in force again.\<close>

theorem dispute_lifts_suspension:
  assumes "isRelationshipCurrentlyValid P r now"
  shows "(\<exists>e. activateRelationship clock (suspendRelationship clock r at) at = Inl e) \<and>
    (\<exists>active. activateRelationship clock'' (disputeRelationship clock' (suspendRelationship clock r at) at') at'' = Inr active \<and>
       isRelationshipCurrentlyValid P active now)"
proof -
  let ?d = "disputeRelationship clock' (suspendRelationship clock r at) at'"
  have "activateRelationship clock'' ?d at'' = Inr (applyState clock'' ?d ''active'' at'')"
    by (simp add: activateRelationship_def disputeRelationship_def applyState_def first_throw.simps)
  moreover have "isRelationshipCurrentlyValid P (applyState clock'' ?d ''active'' at'') now"
    using assms by (auto simp: isRelationshipCurrentlyValid_def disputeRelationship_def suspendRelationship_def applyState_def Let_def
        split: if_splits)
  ultimately show ?thesis
    by (simp add: activateRelationship_def suspendRelationship_def applyState_def Let_def first_throw.simps)
qed

theorem dispute_lifts_suspension_witness:
  "\<exists>active. activateRelationship 3 (disputeRelationship 2 (suspendRelationship 1 sample_relationship None) None) None = Inr active \<and>
    isRelationshipCurrentlyValid zero_platform active (Some 4)"
proof -
  have "isRelationshipCurrentlyValid zero_platform sample_relationship (Some 4)"
    by (simp add: isRelationshipCurrentlyValid_def sample_relationship_def truthy_def)
  from dispute_lifts_suspension [OF this] show ?thesis by blast
qed

text \<open>Activation is refused exactly in the states revoked, expired and suspended.\<close>

theorem activation_iff:
  "(\<exists>active. activateRelationship clock r at = Inr active) \<longleftrightarrow> rl_state r \<notin> {''revoked'', ''expired'', ''suspended''}"
  by (auto simp: activateRelationship_def result_simps throws_simps)

text \<open>A relationship that has been created and then run through any actions is in one of the seven states, has a
  subject among its actors, and binds no policy twice.\<close>

theorem reachable_relationship:
  assumes "createRelationship clock i type actors startsAt expiresAt scope state = Inr r"
    and "state \<in> {None, Some ''proposed'', Some ''pending''}"
  shows "rl_state (perform_all run r) \<in> set RELATIONSHIP_STATES \<and>
    (\<exists>a \<in> set (rl_actors (perform_all run r)). ra_role a = ''subject'') \<and>
    distinct (map pb_policyId (bindings (perform_all run r)))"
proof -
  have "relationship_inv r"
    using assms by (auto simp: createRelationship_def assertHasSubjectActor_def result_simps relationship_inv_def list_ex_iff
        bindings_def RELATIONSHIP_STATES_def)
  then show ?thesis using run_inv [of r run] by (simp add: relationship_inv_def)
qed

theorem reachable_relationship_witness:
  "\<exists>r. createRelationship 0 ''rel'' ''employment'' (rl_actors sample_relationship) None None None None = Inr r \<and>
    distinct (map pb_policyId (bindings (perform_all [(0, Attach ''p'' None None), (1, Detach ''p'' None), (2, Attach ''p'' None None)] r)))"
proof -
  obtain r where r: "createRelationship 0 ''rel'' ''employment'' (rl_actors sample_relationship) None None None None = Inr r"
    by (simp add: createRelationship_def assertHasSubjectActor_def sample_relationship_def)
  show ?thesis using reachable_relationship [OF r] r by blast
qed

lemma active_policies: "listActivePolicies r = filter pb_active (bindings r)"
  by (simp add: listActivePolicies_def bindings_def)

lemma other_bindings:
  "(\<And>b. pb_policyId (f b) = pb_policyId b) \<Longrightarrow>
   filter (\<lambda>b. pb_policyId b \<noteq> p) (filter pb_active (map (\<lambda>b. if pb_policyId b = p then f b else b) bs)) =
   filter (\<lambda>b. pb_policyId b \<noteq> p) (filter pb_active bs)"
  by (induction bs) auto

lemma attach_listed:
  "\<exists>b \<in> set (listActivePolicies (attachPolicy clock r p version at)). pb_policyId b = p \<and> pb_attachedAt b = isoNow clock at"
proof (cases "p \<in> pb_policyId ` set (bindings r)")
  case True
  then obtain b where "b \<in> set (bindings r)" "pb_policyId b = p" by blast
  then show ?thesis unfolding active_policies bindings_attach Let_def using True
    by (intro bexI [of _ "b\<lparr>pb_active := True, pb_version := (case version of None \<Rightarrow> pb_version b | Some w \<Rightarrow> Some w),
        pb_attachedAt := isoNow clock at\<rparr>"]) (simp_all add: image_iff, blast)
qed (simp add: active_policies bindings_attach Let_def)

lemma attach_others:
  "filter (\<lambda>b. pb_policyId b \<noteq> p) (listActivePolicies (attachPolicy clock r p version at)) =
   filter (\<lambda>b. pb_policyId b \<noteq> p) (listActivePolicies r)"
  unfolding active_policies bindings_attach Let_def
  by (cases "p \<in> pb_policyId ` set (bindings r)") (simp_all only: if_True if_False filter_append, simp_all add: other_bindings del: filter_filter)

lemma detached:
  "p \<notin> pb_policyId ` set (filter pb_active (map (\<lambda>b. if pb_policyId b = p then b\<lparr>pb_active := False\<rparr> else b) bs))"
  by (induction bs) simp_all

text \<open>An attached policy is listed as active with the moment of the attachment, a detached one is not listed, and
  the other policies are listed as before.\<close>

theorem listed_policies:
  "(\<exists>b \<in> set (listActivePolicies (attachPolicy clock r p version at)). pb_policyId b = p \<and> pb_attachedAt b = isoNow clock at) \<and>
   p \<notin> pb_policyId ` set (listActivePolicies (detachPolicy clock r p at)) \<and>
   filter (\<lambda>b. pb_policyId b \<noteq> p) (listActivePolicies (attachPolicy clock r p version at)) =
     filter (\<lambda>b. pb_policyId b \<noteq> p) (listActivePolicies r) \<and>
   filter (\<lambda>b. pb_policyId b \<noteq> p) (listActivePolicies (detachPolicy clock r p at)) =
     filter (\<lambda>b. pb_policyId b \<noteq> p) (listActivePolicies r)"
proof (intro conjI attach_listed attach_others)
  show "p \<notin> pb_policyId ` set (listActivePolicies (detachPolicy clock r p at))"
    unfolding active_policies bindings_detach by (rule detached)
  show "filter (\<lambda>b. pb_policyId b \<noteq> p) (listActivePolicies (detachPolicy clock r p at)) =
     filter (\<lambda>b. pb_policyId b \<noteq> p) (listActivePolicies r)"
    unfolding active_policies bindings_detach by (rule other_bindings) simp
qed

text \<open>Identifiers of events whose moments have the same length tell the kind and the moment apart.\<close>

theorem event_ids:
  assumes "re_eventId (buildEvent c (t :: string) a) = re_eventId (buildEvent c' t b)"
    and "length (re_occurredAt (buildEvent c t a)) = length (re_occurredAt (buildEvent c' t b))"
  shows "ri_relationshipId a = ri_relationshipId b \<and> re_occurredAt (buildEvent c t a) = re_occurredAt (buildEvent c' t b)"
proof -
  let ?x = "re_occurredAt (buildEvent c t a)" and ?y = "re_occurredAt (buildEvent c' t b)"
  have "(ri_relationshipId a @ '':'') @ ?x = (ri_relationshipId b @ '':'') @ ?y"
    using assms(1) by (simp add: buildEvent_def Let_def)
  moreover from this have "ri_relationshipId a @ '':'' = ri_relationshipId b @ '':'' \<and> ?x = ?y"
    using assms(2) by (subst (asm) append_eq_append_conv) simp_all
  ultimately show ?thesis by simp
qed

end
