(* ===== verification/SovereignIdentity.thy ===== *)
theory SovereignIdentity
  imports Untrusted
begin

text \<open>
  \<open>packages/protocol/src/identity/\<close>: identifiers of sovereign assets, references into foreign namespaces,
  references to subjects, and the identity of a content as the digest of its bytes.  The values are typed; the checks
  that a value has the shape of its type hold by typing.
\<close>

section \<open>Sovereign assets\<close>

definition SOVEREIGN_ASSET_ID_PREFIX :: string where
  "SOVEREIGN_ASSET_ID_PREFIX = ''aoc:sovereign-asset:''"

definition UUID_PATTERN :: rx where
  "UUID_PATTERN = Cat (Times 8 (Cls lower_hex)) (Cat (Lit ''-'') (Cat (Times 4 (Cls lower_hex)) (Cat (Lit ''-'')
     (Cat (Cls (between (CHR ''1'') (CHR ''8''))) (Cat (Times 3 (Cls lower_hex)) (Cat (Lit ''-'')
     (Cat (Cls (\<lambda>c. c \<in> set ''89ab'')) (Cat (Times 3 (Cls lower_hex)) (Cat (Lit ''-'') (Times 12 (Cls lower_hex)))))))))))"

definition SOVEREIGN_ASSET_ID_PATTERN :: rx where
  "SOVEREIGN_ASSET_ID_PATTERN = Cat (Lit SOVEREIGN_ASSET_ID_PREFIX) UUID_PATTERN"

definition mintSovereignAssetId :: "string \<Rightarrow> string" where
  "mintSovereignAssetId uuid = SOVEREIGN_ASSET_ID_PREFIX @ uuid"

definition isValidSovereignAssetId :: "string \<Rightarrow> bool" where
  "isValidSovereignAssetId v = rx_test SOVEREIGN_ASSET_ID_PATTERN v"

definition assertValidSovereignAssetId :: "string \<Rightarrow> throws" where
  "assertValidSovereignAssetId v = throw_if (\<not> isValidSovereignAssetId v) (''Malformed SovereignAssetId: '' @ json_quote v)"

definition parseSovereignAssetId :: "string \<Rightarrow> string result" where
  "parseSovereignAssetId v = after (assertValidSovereignAssetId v) (Inr v)"

section \<open>References\<close>

record external_reference =
  xr_namespace :: string
  xr_id :: string
  xr_locator :: "string option"

record subject_reference =
  sr_sovereignAssetId :: string
  sr_externalReference :: "external_reference option"

record reference_validation =
  rv_valid :: bool
  rv_reasons :: "string list"

definition isNonBlankString :: "string \<Rightarrow> bool" where
  "isNonBlankString v \<longleftrightarrow> trim v \<noteq> []"

definition validateSovereignExternalReference :: "external_reference \<Rightarrow> reference_validation" where
  "validateSovereignExternalReference v = (let reasons =
       (if \<not> isNonBlankString (xr_namespace v) then [''INVALID_EXTERNAL_REFERENCE_NAMESPACE''] else []) @
       (if \<not> isNonBlankString (xr_id v) then [''INVALID_EXTERNAL_REFERENCE_ID''] else []) @
       (case xr_locator v of None \<Rightarrow> [] | Some l \<Rightarrow>
          if \<not> isNonBlankString l then [''INVALID_EXTERNAL_REFERENCE_LOCATOR''] else [])
     in \<lparr>rv_valid = (reasons = []), rv_reasons = reasons\<rparr>)"

definition isValidSovereignExternalReference :: "external_reference \<Rightarrow> bool" where
  "isValidSovereignExternalReference v = rv_valid (validateSovereignExternalReference v)"

definition buildSovereignExternalReference :: "string \<Rightarrow> string \<Rightarrow> string option \<Rightarrow> external_reference result" where
  "buildSovereignExternalReference ns i locator = (let reference = \<lparr>xr_namespace = ns, xr_id = i, xr_locator = locator\<rparr>;
       validation = validateSovereignExternalReference reference
     in if \<not> rv_valid validation
        then Inl (Error (''Invalid SovereignExternalReference: '' @ join '', '' (rv_reasons validation)))
        else Inr reference)"

definition isValidSovereignSubjectRef :: "subject_reference \<Rightarrow> bool" where
  "isValidSovereignSubjectRef v \<longleftrightarrow> isValidSovereignAssetId (sr_sovereignAssetId v) \<and>
     (case sr_externalReference v of None \<Rightarrow> True | Some r \<Rightarrow> isValidSovereignExternalReference r)"

definition sovereignExternalReferencesEqual :: "external_reference \<Rightarrow> external_reference \<Rightarrow> bool" where
  "sovereignExternalReferencesEqual a b \<longleftrightarrow>
     xr_namespace a = xr_namespace b \<and> xr_id a = xr_id b \<and> xr_locator a = xr_locator b"

definition toSovereignSubjectRef :: "subject_reference \<Rightarrow> subject_reference" where
  "toSovereignSubjectRef subject = \<lparr>sr_sovereignAssetId = sr_sovereignAssetId subject,
     sr_externalReference = sr_externalReference subject\<rparr>"

section \<open>Contents\<close>

record content_identity =
  ci_algorithm :: string
  ci_digest :: string

definition computeContentIdentity :: "platform \<Rightarrow> bytes \<Rightarrow> content_identity" where
  "computeContentIdentity P data = \<lparr>ci_algorithm = ''sha256'', ci_digest = hex_encode (sha256 P data)\<rparr>"

definition isValidContentIdentity :: "content_identity \<Rightarrow> bool" where
  "isValidContentIdentity v \<longleftrightarrow> ci_algorithm v = ''sha256'' \<and> rx_test HASH_HEX_PATTERN (ci_digest v)"

definition contentIdentitiesEqual :: "content_identity \<Rightarrow> content_identity \<Rightarrow> bool" where
  "contentIdentitiesEqual a b \<longleftrightarrow> ci_algorithm a = ci_algorithm b \<and> ci_digest a = ci_digest b"

definition verifyContentIdentity :: "platform \<Rightarrow> bytes \<Rightarrow> content_identity \<Rightarrow> bool \<times> string option" where
  "verifyContentIdentity P data expected =
     (if ci_algorithm expected \<noteq> ''sha256'' then (False, Some ''UNSUPPORTED_CONTENT_DIGEST_ALGORITHM'')
      else if ci_digest (computeContentIdentity P data) \<noteq> ci_digest expected then (False, Some ''CONTENT_DIGEST_MISMATCH'')
      else (True, None))"

definition contentIdentityKey :: "content_identity \<Rightarrow> string" where
  "contentIdentityKey i = ci_algorithm i @ '':'' @ ci_digest i"

section \<open>Lemmas\<close>

lemma built_reference_valid: "buildSovereignExternalReference ns i l = Inr r \<Longrightarrow> isValidSovereignExternalReference r"
  by (auto simp: buildSovereignExternalReference_def isValidSovereignExternalReference_def Let_def split: if_splits)

lemma minted_asset_id: "rx_test UUID_PATTERN uuid \<Longrightarrow> isValidSovereignAssetId (mintSovereignAssetId uuid)"
  by (auto simp: isValidSovereignAssetId_def mintSovereignAssetId_def SOVEREIGN_ASSET_ID_PATTERN_def rx_test_lang mem_Cat_Lit)

text \<open>A digest that verifies identifies the bytes, unless they collide with others under the hash; the key of an
  identity says which it is.\<close>

theorem content_identity_commits:
  assumes "sha256_length P"
  shows "isValidContentIdentity (computeContentIdentity P data) \<and> fst (verifyContentIdentity P data (computeContentIdentity P data)) \<and>
    (fst (verifyContentIdentity P other (computeContentIdentity P data)) \<longrightarrow> other = data \<or> collides P other data)"
  using sha256Hex_inj [of P other data] sha256Hex_hash_hex [OF assms, of data]
  by (auto simp: isValidContentIdentity_def computeContentIdentity_def verifyContentIdentity_def sha256Hex_def)

lemma identity_key_inj:
  "isValidContentIdentity a \<Longrightarrow> isValidContentIdentity b \<Longrightarrow> contentIdentityKey a = contentIdentityKey b \<longleftrightarrow> contentIdentitiesEqual a b"
  by (simp add: isValidContentIdentity_def contentIdentityKey_def contentIdentitiesEqual_def)

end
