(* ===== verification/AssetProfile.thy ===== *)
theory AssetProfile
  imports SovereignIdentity
begin

text \<open>
  \<open>packages/asset-protocolization/src/\<close>: \<open>identifiers.ts\<close>, \<open>freshness.ts\<close>, \<open>jurisdiction.ts\<close>,
  \<open>metadata.ts\<close>, \<open>constraints.ts\<close>, \<open>requirements.ts\<close>, \<open>profile.ts\<close>, \<open>profile-selectors.ts\<close> and
  \<open>profile-validation.ts\<close>: the profiles that say what an asset needs, and their validator.  The values are typed: that a value is an
  object with the known keys, a list or an integer holds by typing, and so does the kind of a requirement; string unions are strings.
\<close>

section \<open>Identifiers\<close>

definition ASSET_IDENTIFIER_MAX_LENGTH :: nat where
  "ASSET_IDENTIFIER_MAX_LENGTH = 128"

definition token_word :: rx where
  "token_word = (let letters = Plus (Cls (\<lambda>c. lower_alpha c \<or> dec_digit c)) in
     Cat letters (Star (Cat (Lit ''-'') letters)))"

definition DOTTED_TOKEN_PATTERN :: rx where
  "DOTTED_TOKEN_PATTERN = Cat token_word (Star (Cat (Lit ''.'') token_word))"

definition isDottedToken :: "string \<Rightarrow> bool" where
  "isDottedToken v \<longleftrightarrow> length v \<le> ASSET_IDENTIFIER_MAX_LENGTH \<and> rx_test DOTTED_TOKEN_PATTERN v"

definition isValidAssetProfileId :: "string \<Rightarrow> bool" where
  "isValidAssetProfileId v = isDottedToken v"

definition isValidAssetRequirementId :: "string \<Rightarrow> bool" where
  "isValidAssetRequirementId v = isDottedToken v"

definition ASSET_PROFILE_VERSION_PATTERN :: rx where
  "ASSET_PROFILE_VERSION_PATTERN = Cat (Plus (Cls dec_digit)) (Cat (Lit ''.'') (Cat (Plus (Cls dec_digit))
     (Cat (Lit ''.'') (Plus (Cls dec_digit)))))"

definition isValidAssetProfileVersion :: "string \<Rightarrow> bool" where
  "isValidAssetProfileVersion v \<longleftrightarrow> length v \<le> ASSET_IDENTIFIER_MAX_LENGTH \<and> rx_test ASSET_PROFILE_VERSION_PATTERN v"

definition isValidAssetCategoryId :: "string \<Rightarrow> bool" where
  "isValidAssetCategoryId v = isDottedToken v"

definition isValidAssetVerificationCheckId :: "string \<Rightarrow> bool" where
  "isValidAssetVerificationCheckId v = isDottedToken v"

definition isValidAssetRequirementConditionId :: "string \<Rightarrow> bool" where
  "isValidAssetRequirementConditionId v = isDottedToken v"

definition assetProfileVersionKey :: "string \<Rightarrow> string \<Rightarrow> string" where
  "assetProfileVersionKey profileId version = profileId @ ''@'' @ version"

text \<open>\<open>Number\<close> of a numeral: the nearest double, the even one of two.\<close>

fun bit_length :: "nat \<Rightarrow> nat" where
  "bit_length n = (if n = 0 then 0 else Suc (bit_length (n div 2)))"

definition to_double :: "nat \<Rightarrow> nat" where
  "to_double n = (let b = bit_length n in
     if b \<le> 53 then n
     else let unit = 2 ^ (b - 53); q = n div unit; r = n mod unit in
       if 2 * r < unit \<or> 2 * r = unit \<and> even q then q * unit else (q + 1) * unit)"

text \<open>The fields of a version, a missing one being 0; a version is numerals between dots.\<close>

definition version_field :: "string \<Rightarrow> nat \<Rightarrow> int" where
  "version_field v index = (let fields = split_on (CHR ''.'') v in
     if index < length fields then int (to_double (read_nat (fields ! index))) else 0)"

fun compare_version_fields :: "nat list \<Rightarrow> string \<Rightarrow> string \<Rightarrow> int" where
  "compare_version_fields [] left right = 0"
| "compare_version_fields (index # indexes) left right = (let difference = version_field left index - version_field right index in
     if difference \<noteq> 0 then (if difference < 0 then -1 else 1) else compare_version_fields indexes left right)"

definition compareAssetProfileVersions :: "string \<Rightarrow> string \<Rightarrow> int" where
  "compareAssetProfileVersions left right = compare_version_fields [0, 1, 2] left right"

section \<open>Moments and freshness\<close>

definition UTC_DATE_TIME_PATTERN :: rx where
  "UTC_DATE_TIME_PATTERN = (let digits = (\<lambda>n. Times n (Cls dec_digit)) in
     Cat (digits 4) (Cat (Lit ''-'') (Cat (digits 2) (Cat (Lit ''-'') (Cat (digits 2) (Cat (Lit ''T'')
     (Cat (digits 2) (Cat (Lit '':'') (Cat (digits 2) (Cat (Lit '':'') (Cat (digits 2)
     (Cat (Opt (Cat (Lit ''.'') (Cat (Cls dec_digit) (Upto 8 (Cls dec_digit))))) (Lit ''Z'')))))))))))))"

definition isValidUtcDateTime :: "platform \<Rightarrow> string \<Rightarrow> bool" where
  "isValidUtcDateTime P v \<longleftrightarrow> rx_test UTC_DATE_TIME_PATTERN v \<and>
     (case date_of P v of None \<Rightarrow> False
      | Some t \<Rightarrow> (case to_iso_string (Some t) of Inr s \<Rightarrow> take 19 s = take 19 v | Inl e \<Rightarrow> False))"

definition MAX_SAFE_INTEGER :: int where
  "MAX_SAFE_INTEGER = 9007199254740991"

definition isPositiveInteger :: "int \<Rightarrow> bool" where
  "isPositiveInteger v \<longleftrightarrow> \<bar>v\<bar> \<le> MAX_SAFE_INTEGER \<and> v > 0"

record freshness_constraint =
  fr_maxAgeSeconds :: "int option"
  fr_observedAfter :: "string option"
  fr_mustNotBeExpired :: "bool option"

definition isValidAssetFreshnessConstraint :: "platform \<Rightarrow> freshness_constraint \<Rightarrow> bool" where
  "isValidAssetFreshnessConstraint P v \<longleftrightarrow>
     (if (case fr_maxAgeSeconds v of None \<Rightarrow> False | Some n \<Rightarrow> \<bar>n\<bar> > MAX_SAFE_INTEGER \<or> n \<le> 0) then False
      else if (case fr_observedAfter v of None \<Rightarrow> False | Some t \<Rightarrow> \<not> isValidUtcDateTime P t) then False
      else fr_maxAgeSeconds v \<noteq> None \<or> fr_observedAfter v \<noteq> None \<or> fr_mustNotBeExpired v = Some True)"

section \<open>Jurisdictions and metadata\<close>

definition JURISDICTION_CODE_PATTERN :: rx where
  "JURISDICTION_CODE_PATTERN = (let letter = (\<lambda>c. upper_alpha c \<or> dec_digit c) in
     Cat (Cls upper_alpha) (Cat (Star (Cls letter)) (Star (Cat (Lit ''-'') (Plus (Cls letter))))))"

definition JURISDICTION_CODE_MAX_LENGTH :: nat where
  "JURISDICTION_CODE_MAX_LENGTH = 32"

definition GLOBAL_JURISDICTION_CODE :: string where
  "GLOBAL_JURISDICTION_CODE = ''GLOBAL''"

record jurisdiction_ref =
  jr_code :: string
  jr_label :: "string option"

definition isValidJurisdictionCode :: "string \<Rightarrow> bool" where
  "isValidJurisdictionCode v \<longleftrightarrow> length v \<le> JURISDICTION_CODE_MAX_LENGTH \<and> rx_test JURISDICTION_CODE_PATTERN v"

definition blank_field :: "string option \<Rightarrow> bool" where
  "blank_field v \<longleftrightarrow> (case v of None \<Rightarrow> False | Some s \<Rightarrow> trim s = [])"

definition isValidJurisdictionRef :: "jurisdiction_ref \<Rightarrow> bool" where
  "isValidJurisdictionRef v \<longleftrightarrow> isValidJurisdictionCode (jr_code v) \<and> \<not> blank_field (jr_label v)"

definition jurisdictionRefsEqual :: "jurisdiction_ref \<Rightarrow> jurisdiction_ref \<Rightarrow> bool" where
  "jurisdictionRefsEqual left right \<longleftrightarrow> jr_code left = jr_code right"

record profile_metadata =
  md_label :: "string option"
  md_description :: "string option"
  md_reason :: "string option"

definition isValidAssetProfileMetadata :: "profile_metadata \<Rightarrow> bool" where
  "isValidAssetProfileMetadata v \<longleftrightarrow> \<not> list_ex blank_field [md_label v, md_description v, md_reason v]"

section \<open>Constraints\<close>

text \<open>Lists that are not empty and whose entries are distinct, each of a form.\<close>

fun unique_list_loop :: "('a \<Rightarrow> bool) \<Rightarrow> ('a \<Rightarrow> string) \<Rightarrow> string set \<Rightarrow> 'a list \<Rightarrow> bool" where
  "unique_list_loop ok key seen [] = True"
| "unique_list_loop ok key seen (entry # entries) =
     (if \<not> ok entry then False
      else if key entry \<in> seen then False
      else unique_list_loop ok key (insert (key entry) seen) entries)"

definition isNonEmptyUniqueMemberList :: "string list \<Rightarrow> string list \<Rightarrow> bool" where
  "isNonEmptyUniqueMemberList v members \<longleftrightarrow> v \<noteq> [] \<and> unique_list_loop (\<lambda>entry. entry \<in> set members) (\<lambda>entry. entry) {} v"

definition isNonEmptyUniqueTokenList :: "string list \<Rightarrow> bool" where
  "isNonEmptyUniqueTokenList v \<longleftrightarrow> v \<noteq> [] \<and> unique_list_loop (\<lambda>entry. trim entry \<noteq> []) (\<lambda>entry. entry) {} v"

definition isNonEmptyUniqueJurisdictionList :: "jurisdiction_ref list \<Rightarrow> bool" where
  "isNonEmptyUniqueJurisdictionList v \<longleftrightarrow> v \<noteq> [] \<and> unique_list_loop isValidJurisdictionRef jr_code {} v"

definition CLAIM_TYPES :: "string list" where
  "CLAIM_TYPES = [''Identity'', ''Capability'', ''Authorization'', ''Certification'', ''Role'', ''Credential'', ''Governance'',
     ''Origin'', ''Authorship'', ''Derivation'', ''Custom'']"

definition EVIDENCE_TYPES :: "string list" where
  "EVIDENCE_TYPES = [''Document'', ''Contract'', ''Certification'', ''BoardResolution'', ''AuditRecord'', ''Attestation'',
     ''AIOutput'', ''SystemRecord'', ''Custom'']"

definition ATTESTATION_TYPES :: "string list" where
  "ATTESTATION_TYPES = [''Human'', ''Organization'', ''System'', ''AI'', ''Remote'', ''Governance'']"

definition CREDENTIAL_TYPES :: "string list" where
  "CREDENTIAL_TYPES = [''IdentityCredential'', ''CapabilityCredential'', ''CertificationCredential'', ''AuthorizationCredential'',
     ''RoleCredential'', ''GovernanceCredential'', ''ProfessionalCredential'', ''OrganizationCredential'', ''SystemCredential'', ''Custom'']"

definition CREDENTIAL_STATUSES :: "string list" where
  "CREDENTIAL_STATUSES = [''Draft'', ''Issued'', ''Active'', ''Suspended'', ''Revoked'', ''Expired'', ''Superseded'', ''Archived'',
     ''Unknown'']"

definition REGISTRY_TYPES :: "string list" where
  "REGISTRY_TYPES = [''ClaimRegistry'', ''EvidenceRegistry'', ''AttestationRegistry'', ''ProofRegistry'', ''PrincipalRegistry'',
     ''CredentialRegistry'', ''PolicyRegistry'', ''AuthorityRegistry'', ''DecisionRegistry'', ''Custom'']"

definition REGISTRY_ENTRY_TYPES :: "string list" where
  "REGISTRY_ENTRY_TYPES = [''Claim'', ''Evidence'', ''Assertion'', ''Attestation'', ''Verification'', ''Standing'', ''Capability'',
     ''Authority'', ''Decision'', ''Principal'', ''Proof'', ''Credential'', ''Policy'', ''Custom'']"

definition REGISTRY_AUTHORITY_LEVELS :: "string list" where
  "REGISTRY_AUTHORITY_LEVELS = [''SelfDeclared'', ''OrganizationDeclared'', ''GovernanceDeclared'', ''ProtocolRecognized'',
     ''Federated'', ''External'', ''Unknown'']"

definition PRINCIPAL_KINDS :: "string list" where
  "PRINCIPAL_KINDS = [''Human'', ''Organization'', ''System'', ''AI'', ''Runtime'', ''GovernanceBody'', ''MarketMaker'',
     ''CredentialIssuer'', ''Unknown'']"

text \<open>A field that is present and not of the form.\<close>

definition bad_option :: "('a \<Rightarrow> bool) \<Rightarrow> 'a option \<Rightarrow> bool" where
  "bad_option ok v \<longleftrightarrow> (case v of None \<Rightarrow> False | Some x \<Rightarrow> \<not> ok x)"

record registry_constraint =
  rgc_acceptedTypes :: "string list option"
  rgc_acceptedAuthorityLevels :: "string list option"
  rgc_acceptedEntryTypes :: "string list option"
  rgc_acceptedNamespaces :: "string list option"

definition isValidAssetRegistryConstraint :: "registry_constraint \<Rightarrow> bool" where
  "isValidAssetRegistryConstraint v \<longleftrightarrow>
     (if bad_option (\<lambda>l. isNonEmptyUniqueMemberList l REGISTRY_TYPES) (rgc_acceptedTypes v) then False
      else if bad_option (\<lambda>l. isNonEmptyUniqueMemberList l REGISTRY_AUTHORITY_LEVELS) (rgc_acceptedAuthorityLevels v) then False
      else if bad_option (\<lambda>l. isNonEmptyUniqueMemberList l REGISTRY_ENTRY_TYPES) (rgc_acceptedEntryTypes v) then False
      else if bad_option isNonEmptyUniqueTokenList (rgc_acceptedNamespaces v) then False
      else rgc_acceptedTypes v \<noteq> None \<or> rgc_acceptedAuthorityLevels v \<noteq> None \<or> rgc_acceptedEntryTypes v \<noteq> None \<or>
        rgc_acceptedNamespaces v \<noteq> None)"

record credential_constraint =
  crc_acceptedTypes :: "string list"
  crc_acceptedStatuses :: "string list option"
  crc_acceptedIssuerNamespaces :: "string list option"
  crc_freshness :: "freshness_constraint option"

definition isValidAssetCredentialConstraint :: "platform \<Rightarrow> credential_constraint \<Rightarrow> bool" where
  "isValidAssetCredentialConstraint P v \<longleftrightarrow> isNonEmptyUniqueMemberList (crc_acceptedTypes v) CREDENTIAL_TYPES \<and>
     \<not> bad_option (\<lambda>l. isNonEmptyUniqueMemberList l CREDENTIAL_STATUSES) (crc_acceptedStatuses v) \<and>
     \<not> bad_option isNonEmptyUniqueTokenList (crc_acceptedIssuerNamespaces v) \<and>
     \<not> bad_option (isValidAssetFreshnessConstraint P) (crc_freshness v)"

record attester_constraint =
  atc_acceptedPrincipalKinds :: "string list option"
  atc_credential :: "credential_constraint option"
  atc_acceptedRoles :: "string list option"
  atc_jurisdictions :: "jurisdiction_ref list option"

definition isValidAssetAttesterConstraint :: "platform \<Rightarrow> attester_constraint \<Rightarrow> bool" where
  "isValidAssetAttesterConstraint P v \<longleftrightarrow>
     (if bad_option (\<lambda>l. isNonEmptyUniqueMemberList l PRINCIPAL_KINDS) (atc_acceptedPrincipalKinds v) then False
      else if bad_option (isValidAssetCredentialConstraint P) (atc_credential v) then False
      else if bad_option isNonEmptyUniqueTokenList (atc_acceptedRoles v) then False
      else if bad_option isNonEmptyUniqueJurisdictionList (atc_jurisdictions v) then False
      else atc_acceptedPrincipalKinds v \<noteq> None \<or> atc_credential v \<noteq> None \<or> atc_acceptedRoles v \<noteq> None \<or>
        atc_jurisdictions v \<noteq> None)"

section \<open>Requirements and profiles\<close>

record requirement_condition =
  cd_conditionId :: string
  cd_dependsOn :: "string list option"

text \<open>What a requirement of each kind asks for.\<close>

datatype requirement_terms =
    IdentityTerms (strategies: "string list") (id_satisfaction: string) "registry_constraint option" "freshness_constraint option"
  | DeclarationTerms (claim_type: string) (claim_subtype: "string option") "int option"
  | EvidenceTerms "string list" "string list option" "int option" "registry_constraint option" "credential_constraint option"
      "freshness_constraint option"
  | VerificationTerms (check_ids: "string list") string "freshness_constraint option"
  | AttestationTerms "string list" "attester_constraint option" "int option" "freshness_constraint option"

record asset_requirement =
  rq_id :: string
  rq_obligation :: string
  rq_condition :: "requirement_condition option"
  rq_jurisdictions :: "jurisdiction_ref list option"
  rq_metadata :: "profile_metadata option"
  rq_terms :: requirement_terms

definition rq_kind :: "asset_requirement \<Rightarrow> string" where
  "rq_kind r = (case rq_terms r of
     IdentityTerms ss s g f \<Rightarrow> ''Identity''
   | DeclarationTerms t s n \<Rightarrow> ''Declaration''
   | EvidenceTerms ts ss n g d f \<Rightarrow> ''Evidence''
   | VerificationTerms is s f \<Rightarrow> ''Verification''
   | AttestationTerms ts a n f \<Rightarrow> ''Attestation'')"

record asset_profile =
  ap_schemaVersion :: string
  ap_profileId :: string
  ap_version :: string
  ap_assetCategory :: string
  ap_scope :: string
  ap_jurisdictions :: "jurisdiction_ref list option"
  ap_requirements :: "asset_requirement list"
  ap_metadata :: "profile_metadata option"

definition ASSET_PROFILE_SCHEMA_VERSION :: string where
  "ASSET_PROFILE_SCHEMA_VERSION = ''aoc-asset-profile/1''"

definition OBLIGATIONS :: "string list" where
  "OBLIGATIONS = [''Required'', ''Optional'', ''Conditional'', ''NotRequired'']"

definition SATISFACTIONS :: "string list" where
  "SATISFACTIONS = [''All'', ''Any'']"

definition IDENTITY_STRATEGIES :: "string list" where
  "IDENTITY_STRATEGIES = [''ContentIdentity'', ''ExternalReference'', ''RegistryEntry'']"

section \<open>Selectors\<close>

record requirement_filter =
  rf_byKind :: "string option"
  rf_byObligation :: "string option"
  rf_byJurisdiction :: "string option"

definition appliesInJurisdiction :: "asset_requirement \<Rightarrow> string \<Rightarrow> bool" where
  "appliesInJurisdiction requirement jurisdictionCode \<longleftrightarrow> (case rq_jurisdictions requirement of None \<Rightarrow> True
     | Some js \<Rightarrow> list_ex (\<lambda>j. jr_code j = jurisdictionCode \<or> jr_code j = GLOBAL_JURISDICTION_CODE) js)"

definition getAssetProfileRequirement :: "asset_profile \<Rightarrow> string \<Rightarrow> asset_requirement option" where
  "getAssetProfileRequirement profile requirementId = find (\<lambda>requirement. rq_id requirement = requirementId) (ap_requirements profile)"

definition hasAssetProfileRequirement :: "asset_profile \<Rightarrow> string \<Rightarrow> bool" where
  "hasAssetProfileRequirement profile requirementId \<longleftrightarrow> getAssetProfileRequirement profile requirementId \<noteq> None"

definition listAssetProfileRequirements :: "asset_profile \<Rightarrow> requirement_filter \<Rightarrow> asset_requirement list" where
  "listAssetProfileRequirements profile flt = filter (\<lambda>requirement.
     if rf_byKind flt \<noteq> None \<and> Some (rq_kind requirement) \<noteq> rf_byKind flt then False
     else if rf_byObligation flt \<noteq> None \<and> Some (rq_obligation requirement) \<noteq> rf_byObligation flt then False
     else if (case rf_byJurisdiction flt of None \<Rightarrow> False | Some j \<Rightarrow> \<not> appliesInJurisdiction requirement j) then False
     else True) (ap_requirements profile)"

definition listAssetProfileReadinessRequirements :: "asset_profile \<Rightarrow> string option \<Rightarrow> asset_requirement list" where
  "listAssetProfileReadinessRequirements profile jurisdictionCode = filter (\<lambda>requirement.
     if rq_obligation requirement \<noteq> ''Required'' \<and> rq_obligation requirement \<noteq> ''Conditional'' then False
     else if (case jurisdictionCode of None \<Rightarrow> False | Some j \<Rightarrow> \<not> appliesInJurisdiction requirement j) then False
     else True) (ap_requirements profile)"

section \<open>Validation\<close>

text \<open>An issue is a reason and the path it is found at.\<close>

type_synonym issue = "string \<times> string"

definition report_if :: "bool \<Rightarrow> string \<Rightarrow> string \<Rightarrow> issue list" where
  "report_if b code path = (if b then [(code, path)] else [])"

definition indexed :: "string \<Rightarrow> nat \<Rightarrow> string" where
  "indexed name index = name @ ''['' @ show_nat index @ '']''"

definition freshness_issues :: "platform \<Rightarrow> freshness_constraint option \<Rightarrow> string \<Rightarrow> issue list" where
  "freshness_issues P freshness path =
     report_if (bad_option (isValidAssetFreshnessConstraint P) freshness) ''INVALID_FRESHNESS_CONSTRAINT'' (path @ ''.freshness'')"

definition minimum_count_issues :: "int option \<Rightarrow> string \<Rightarrow> string \<Rightarrow> issue list" where
  "minimum_count_issues minimumCount obligation path = (case minimumCount of None \<Rightarrow> []
     | Some n \<Rightarrow> if \<not> isPositiveInteger n then [(''INVALID_MINIMUM_COUNT'', path @ ''.minimumCount'')]
         else report_if (obligation = ''NotRequired'') ''CONTRADICTORY_OBLIGATION_MINIMUM_COUNT'' (path @ ''.minimumCount''))"

definition satisfaction_issues :: "string \<Rightarrow> string \<Rightarrow> issue list" where
  "satisfaction_issues satisfaction path =
     report_if (satisfaction \<notin> set SATISFACTIONS) ''INVALID_REQUIREMENT_SATISFACTION'' (path @ ''.satisfaction'')"

definition registry_issues :: "registry_constraint option \<Rightarrow> string \<Rightarrow> issue list" where
  "registry_issues registry path =
     report_if (bad_option isValidAssetRegistryConstraint registry) ''INVALID_REGISTRY_CONSTRAINT'' (path @ ''.registry'')"

definition validateRequirementShape :: "platform \<Rightarrow> requirement_terms \<Rightarrow> string \<Rightarrow> string \<Rightarrow> issue list" where
  "validateRequirementShape P terms obligation path = (case terms of
     IdentityTerms acceptedStrategies satisfaction registry freshness \<Rightarrow>
       report_if (\<not> isNonEmptyUniqueMemberList acceptedStrategies IDENTITY_STRATEGIES) ''INVALID_IDENTITY_STRATEGIES''
         (path @ ''.acceptedStrategies'') @
       satisfaction_issues satisfaction path @
       (case registry of None \<Rightarrow> []
        | Some r \<Rightarrow> if \<not> isValidAssetRegistryConstraint r then [(''INVALID_REGISTRY_CONSTRAINT'', path @ ''.registry'')]
            else report_if (''RegistryEntry'' \<notin> set acceptedStrategies) ''UNEXPECTED_REGISTRY_CONSTRAINT'' (path @ ''.registry'')) @
       freshness_issues P freshness path
   | DeclarationTerms claimType claimSubtype minimumCount \<Rightarrow>
       report_if (claimType \<notin> set CLAIM_TYPES) ''INVALID_CLAIM_TYPE'' (path @ ''.claimType'') @
       (case claimSubtype of Some s \<Rightarrow> report_if (trim s = []) ''INVALID_CLAIM_SUBTYPE'' (path @ ''.claimSubtype'')
        | None \<Rightarrow> report_if (claimType \<in> set CLAIM_TYPES \<and> claimType = ''Custom'') ''MISSING_CLAIM_SUBTYPE'' (path @ ''.claimSubtype'')) @
       minimum_count_issues minimumCount obligation path
   | EvidenceTerms acceptedTypes acceptedSubtypes minimumCount registry credential freshness \<Rightarrow>
       report_if (\<not> isNonEmptyUniqueMemberList acceptedTypes EVIDENCE_TYPES) ''INVALID_EVIDENCE_TYPES'' (path @ ''.acceptedTypes'') @
       (case acceptedSubtypes of
          Some l \<Rightarrow> report_if (\<not> isNonEmptyUniqueTokenList l) ''INVALID_EVIDENCE_SUBTYPES'' (path @ ''.acceptedSubtypes'')
        | None \<Rightarrow> report_if (isNonEmptyUniqueMemberList acceptedTypes EVIDENCE_TYPES \<and> ''Custom'' \<in> set acceptedTypes)
            ''MISSING_EVIDENCE_SUBTYPES'' (path @ ''.acceptedSubtypes'')) @
       minimum_count_issues minimumCount obligation path @
       registry_issues registry path @
       report_if (bad_option (isValidAssetCredentialConstraint P) credential) ''INVALID_CREDENTIAL_CONSTRAINT'' (path @ ''.credential'') @
       freshness_issues P freshness path
   | VerificationTerms checkIds satisfaction freshness \<Rightarrow>
       report_if (\<not> (checkIds \<noteq> [] \<and> list_all isValidAssetVerificationCheckId checkIds \<and> card (set checkIds) = length checkIds))
         ''INVALID_VERIFICATION_CHECK_IDS'' (path @ ''.checkIds'') @
       satisfaction_issues satisfaction path @
       freshness_issues P freshness path
   | AttestationTerms acceptedTypes attester minimumCount freshness \<Rightarrow>
       report_if (\<not> isNonEmptyUniqueMemberList acceptedTypes ATTESTATION_TYPES) ''INVALID_ATTESTATION_TYPES'' (path @ ''.acceptedTypes'') @
       report_if (bad_option (isValidAssetAttesterConstraint P) attester) ''INVALID_ATTESTER_CONSTRAINT'' (path @ ''.attester'') @
       minimum_count_issues minimumCount obligation path @
       freshness_issues P freshness path)"

definition condition_issues :: "asset_requirement \<Rightarrow> string \<Rightarrow> issue list" where
  "condition_issues r path = (let obligationValid = rq_obligation r \<in> set OBLIGATIONS in
     case rq_condition r of
       None \<Rightarrow> report_if (obligationValid \<and> rq_obligation r = ''Conditional'') ''MISSING_REQUIREMENT_CONDITION'' (path @ ''.condition'')
     | Some c \<Rightarrow>
         report_if (obligationValid \<and> rq_obligation r \<noteq> ''Conditional'') ''UNEXPECTED_REQUIREMENT_CONDITION'' (path @ ''.condition'') @
         report_if (\<not> isValidAssetRequirementConditionId (cd_conditionId c)) ''INVALID_REQUIREMENT_CONDITION'' (path @ ''.condition.conditionId'') @
         report_if (bad_option (\<lambda>l. l \<noteq> [] \<and> list_all isValidAssetRequirementId l \<and> card (set l) = length l) (cd_dependsOn c))
           ''INVALID_REQUIREMENT_CONDITION'' (path @ ''.condition.dependsOn''))"

text \<open>\<open>validateRequirement\<close> over the requirements, with the identifiers seen so far.\<close>

fun requirement_issues :: "platform \<Rightarrow> nat \<Rightarrow> string set \<Rightarrow> asset_requirement list \<Rightarrow> issue list" where
  "requirement_issues P index seenIds [] = []"
| "requirement_issues P index seenIds (r # rs) = (let path = indexed ''requirements'' index; idValid = isValidAssetRequirementId (rq_id r) in
     (if \<not> idValid then [(''INVALID_REQUIREMENT_ID'', path @ ''.id'')]
      else report_if (rq_id r \<in> seenIds) ''DUPLICATE_REQUIREMENT_ID'' (path @ ''.id'')) @
     report_if (rq_obligation r \<notin> set OBLIGATIONS) ''INVALID_REQUIREMENT_OBLIGATION'' (path @ ''.obligation'') @
     condition_issues r path @
     report_if (bad_option isNonEmptyUniqueJurisdictionList (rq_jurisdictions r)) ''INVALID_REQUIREMENT_JURISDICTIONS'' (path @ ''.jurisdictions'') @
     report_if (bad_option isValidAssetProfileMetadata (rq_metadata r)) ''INVALID_REQUIREMENT_METADATA'' (path @ ''.metadata'') @
     validateRequirementShape P (rq_terms r) (rq_obligation r) path @
     requirement_issues P (Suc index) (if idValid then insert (rq_id r) seenIds else seenIds) rs)"

text \<open>\<open>forEach\<close> with the index.\<close>

fun each_issue :: "('a \<Rightarrow> nat \<Rightarrow> issue list) \<Rightarrow> nat \<Rightarrow> 'a list \<Rightarrow> issue list" where
  "each_issue f index [] = []"
| "each_issue f index (x # xs) = f x index @ each_issue f (Suc index) xs"

definition dependency_issues :: "asset_requirement list \<Rightarrow> asset_requirement \<Rightarrow> string \<Rightarrow> issue list" where
  "dependency_issues requirements r path = (let
       declaredIds = set (map rq_id requirements);
       notRequiredIds = set (map rq_id (filter (\<lambda>q. rq_obligation q = ''NotRequired'') requirements)) in
     case rq_condition r of None \<Rightarrow> []
     | Some c \<Rightarrow> (case cd_dependsOn c of None \<Rightarrow> []
       | Some l \<Rightarrow> each_issue (\<lambda>reference referenceIndex. let referencePath = path @ indexed ''.condition.dependsOn'' referenceIndex in
           if reference = rq_id r then [(''SELF_REFERENTIAL_REQUIREMENT_CONDITION'', referencePath)]
           else if reference \<notin> declaredIds then [(''UNKNOWN_REQUIREMENT_REFERENCE'', referencePath)]
           else report_if (reference \<in> notRequiredIds) ''CONTRADICTORY_CONDITION_DEPENDENCY'' referencePath) 0 l))"

definition mandated_by :: "asset_requirement \<Rightarrow> string list" where
  "mandated_by r = (case rq_terms r of
     IdentityTerms ss satisfaction registry freshness \<Rightarrow>
       if rq_obligation r \<noteq> ''Required'' then []
       else if satisfaction = ''All'' \<or> length ss = 1 then ss else []
   | _ \<Rightarrow> [])"

definition strategy_issues :: "asset_requirement list \<Rightarrow> asset_requirement \<Rightarrow> nat \<Rightarrow> issue list" where
  "strategy_issues requirements r index = (case rq_terms r of
     IdentityTerms ss satisfaction registry freshness \<Rightarrow>
       if rq_obligation r \<noteq> ''NotRequired'' then []
       else report_if (list_ex (\<lambda>s. s \<in> set (concat (map mandated_by requirements))) ss) ''CONTRADICTORY_IDENTITY_STRATEGY''
         (indexed ''requirements'' index @ ''.acceptedStrategies'')
   | _ \<Rightarrow> [])"

definition validateCrossRequirementRules :: "asset_requirement list \<Rightarrow> issue list" where
  "validateCrossRequirementRules requirements =
     each_issue (\<lambda>r index. dependency_issues requirements r (indexed ''requirements'' index)) 0 requirements @
     each_issue (strategy_issues requirements) 0 requirements"

definition validateJurisdictionScope :: "jurisdiction_ref list option \<Rightarrow> asset_requirement list \<Rightarrow> issue list" where
  "validateJurisdictionScope profileJurisdictions requirements = (case profileJurisdictions of None \<Rightarrow> []
     | Some js \<Rightarrow> if \<not> isNonEmptyUniqueJurisdictionList js then []
         else let codes = set (map jr_code js) in
           if GLOBAL_JURISDICTION_CODE \<in> codes then []
           else each_issue (\<lambda>r index. case rq_jurisdictions r of None \<Rightarrow> []
             | Some l \<Rightarrow> if \<not> isNonEmptyUniqueJurisdictionList l then []
                 else each_issue (\<lambda>j jurisdictionIndex. report_if (jr_code j \<notin> codes) ''REQUIREMENT_JURISDICTION_OUTSIDE_PROFILE_SCOPE''
                   (indexed ''requirements'' index @ indexed ''.jurisdictions'' jurisdictionIndex)) 0 l) 0 requirements)"

definition profile_header_issues :: "asset_profile \<Rightarrow> issue list" where
  "profile_header_issues v =
     report_if (ap_schemaVersion v \<noteq> ASSET_PROFILE_SCHEMA_VERSION) ''UNSUPPORTED_PROFILE_SCHEMA_VERSION'' ''schemaVersion'' @
     report_if (\<not> isValidAssetProfileId (ap_profileId v)) ''INVALID_PROFILE_ID'' ''profileId'' @
     report_if (\<not> isValidAssetProfileVersion (ap_version v)) ''INVALID_PROFILE_VERSION'' ''version'' @
     report_if (\<not> isValidAssetCategoryId (ap_assetCategory v)) ''INVALID_ASSET_CATEGORY'' ''assetCategory'' @
     report_if (ap_scope v \<noteq> ''Global'') ''INVALID_PROFILE_SCOPE'' ''scope'' @
     report_if (bad_option isNonEmptyUniqueJurisdictionList (ap_jurisdictions v)) ''INVALID_PROFILE_JURISDICTIONS'' ''jurisdictions'' @
     report_if (bad_option isValidAssetProfileMetadata (ap_metadata v)) ''INVALID_PROFILE_METADATA'' ''metadata''"

definition validateAssetProfile :: "platform \<Rightarrow> asset_profile \<Rightarrow> issue list" where
  "validateAssetProfile P v = profile_header_issues v @
     (if ap_requirements v = [] then [(''EMPTY_REQUIREMENT_SET'', ''requirements'')]
      else requirement_issues P 0 {} (ap_requirements v) @ validateCrossRequirementRules (ap_requirements v) @
        validateJurisdictionScope (ap_jurisdictions v) (ap_requirements v))"

definition isValidAssetProfile :: "platform \<Rightarrow> asset_profile \<Rightarrow> bool" where
  "isValidAssetProfile P v \<longleftrightarrow> validateAssetProfile P v = []"

section \<open>Lemmas\<close>

lemma report_if_Nil [simp]: "report_if b code path = [] \<longleftrightarrow> \<not> b"
  by (simp add: report_if_def)

end
