(* ===== verification/ProtocolizationCase.thy ===== *)
theory ProtocolizationCase
  imports AssetProfile
begin

text \<open>
  \<open>packages/asset-protocolization/src/case/\<close>: the data of a protocolization case, one tenant's attempt to bring one
  subject under one pinned version of an asset profile, and its validator.  The values are typed: the checks that a value
  is an object with the known keys hold by typing, and an optional property is present when it is not \<open>None\<close>.
\<close>

section \<open>Identifiers\<close>

definition INSTANCE_IDENTIFIER_PATTERN :: rx where
  "INSTANCE_IDENTIFIER_PATTERN = (let letter = (\<lambda>c. upper_alpha c \<or> lower_alpha c \<or> dec_digit c) in
     Cat (Cls letter) (Star (Cls (\<lambda>c. letter c \<or> c \<in> set ''._:-''))))"

definition isProtocolizationInstanceIdentifier :: "string \<Rightarrow> bool" where
  "isProtocolizationInstanceIdentifier v \<longleftrightarrow>
     length v \<le> ASSET_IDENTIFIER_MAX_LENGTH \<and> rx_test INSTANCE_IDENTIFIER_PATTERN v"

definition isValidProtocolizationCaseId :: "string \<Rightarrow> bool" where
  "isValidProtocolizationCaseId v = isProtocolizationInstanceIdentifier v"

definition isValidProtocolizationMaterialId :: "string \<Rightarrow> bool" where
  "isValidProtocolizationMaterialId v = isProtocolizationInstanceIdentifier v"

text \<open>\<open>/[\s\u0000-\u001f\u007f-\u009f]/\<close>.\<close>

definition unsafe_character :: "char \<Rightarrow> bool" where
  "unsafe_character c \<longleftrightarrow> js_space c \<or> (of_char c :: nat) \<le> 0x1f \<or> 0x7f \<le> (of_char c :: nat) \<and> (of_char c :: nat) \<le> 0x9f"

definition isValidProtocolizationTenantId :: "string \<Rightarrow> bool" where
  "isValidProtocolizationTenantId v \<longleftrightarrow> v \<noteq> [] \<and> length v \<le> ASSET_IDENTIFIER_MAX_LENGTH \<and> \<not> list_ex unsafe_character v"

record profile_ref =
  pf_profileId :: string
  pf_profileVersion :: string

definition isValidProtocolizationProfileRef :: "profile_ref \<Rightarrow> bool" where
  "isValidProtocolizationProfileRef v \<longleftrightarrow> isValidAssetProfileId (pf_profileId v) \<and> isValidAssetProfileVersion (pf_profileVersion v)"

definition protocolizationProfileRefsEqual :: "profile_ref \<Rightarrow> profile_ref \<Rightarrow> bool" where
  "protocolizationProfileRefsEqual left right \<longleftrightarrow>
     pf_profileId left = pf_profileId right \<and> pf_profileVersion left = pf_profileVersion right"

section \<open>States\<close>

definition CASE_STATES :: "string list" where
  "CASE_STATES = [''Draft'', ''Active'', ''Cancelled'']"

definition isProtocolizationCaseState :: "string \<Rightarrow> bool" where
  "isProtocolizationCaseState v \<longleftrightarrow> v \<in> set CASE_STATES"

definition allowed_case_transitions :: "string \<Rightarrow> string list" where
  "allowed_case_transitions from_state = (if from_state = ''Draft'' then [''Active'', ''Cancelled'']
     else if from_state = ''Active'' then [''Cancelled''] else [])"

definition isAllowedProtocolizationCaseTransition :: "string \<Rightarrow> string \<Rightarrow> bool" where
  "isAllowedProtocolizationCaseTransition from_state to_state \<longleftrightarrow> to_state \<in> set (allowed_case_transitions from_state)"

definition acceptsProtocolizationMaterial :: "string \<Rightarrow> bool" where
  "acceptsProtocolizationMaterial state \<longleftrightarrow> state = ''Draft'' \<or> state = ''Active''"

section \<open>Subjects and materials\<close>

record case_subject =
  cs_subjectRef :: subject_reference
  cs_contentIdentity :: "content_identity option"

definition isValidProtocolizationCaseSubject :: "case_subject \<Rightarrow> bool" where
  "isValidProtocolizationCaseSubject v \<longleftrightarrow> isValidSovereignSubjectRef (cs_subjectRef v) \<and>
     (case cs_contentIdentity v of None \<Rightarrow> True | Some i \<Rightarrow> isValidContentIdentity i)"

text \<open>What is read of a reference into a registry, and of the registry it names.\<close>

record registry_entry_ref =
  rg_id :: string
  rg_registryId :: string
  rg_type :: string
  rg_namespace :: string
  rg_authorityLevel :: string
  rg_entryType :: string

datatype material_payload =
    ContentIdentityPayload content_identity
  | ExternalReferencePayload external_reference
  | RegistryEntryPayload registry_entry_ref
  | DeclarationPayload string
  | EvidencePayload string
  | VerificationPayload string
  | AttestationPayload string
  | CredentialPayload string

primrec material_kind :: "material_payload \<Rightarrow> string" where
  "material_kind (ContentIdentityPayload i) = ''ContentIdentity''"
| "material_kind (ExternalReferencePayload r) = ''ExternalReference''"
| "material_kind (RegistryEntryPayload r) = ''RegistryEntry''"
| "material_kind (DeclarationPayload r) = ''Declaration''"
| "material_kind (EvidencePayload r) = ''Evidence''"
| "material_kind (VerificationPayload r) = ''Verification''"
| "material_kind (AttestationPayload r) = ''Attestation''"
| "material_kind (CredentialPayload r) = ''Credential''"

record case_material =
  mt_materialId :: string
  mt_payload :: material_payload
  mt_requirementIds :: "string list"
  mt_addedAt :: string
  mt_correlationId :: "string option"

definition isCanonicalRecordId :: "string \<Rightarrow> bool" where
  "isCanonicalRecordId v \<longleftrightarrow> trim v \<noteq> [] \<and> length v \<le> ASSET_IDENTIFIER_MAX_LENGTH"

definition isUsableRegistryEntryRef :: "registry_entry_ref \<Rightarrow> bool" where
  "isUsableRegistryEntryRef v \<longleftrightarrow> isCanonicalRecordId (rg_id v) \<and> isCanonicalRecordId (rg_registryId v)"

fun requirement_ids_loop :: "string set \<Rightarrow> string list \<Rightarrow> bool" where
  "requirement_ids_loop seen [] = True"
| "requirement_ids_loop seen (entry # entries) =
     (if \<not> isValidAssetRequirementId entry then False
      else if entry \<in> seen then False
      else requirement_ids_loop (insert entry seen) entries)"

definition isValidRequirementIdList :: "string list \<Rightarrow> bool" where
  "isValidRequirementIdList v \<longleftrightarrow> v \<noteq> [] \<and> requirement_ids_loop {} v"

primrec isValidMaterialPayload :: "material_payload \<Rightarrow> bool" where
  "isValidMaterialPayload (ContentIdentityPayload i) = isValidContentIdentity i"
| "isValidMaterialPayload (ExternalReferencePayload r) = isValidSovereignExternalReference r"
| "isValidMaterialPayload (RegistryEntryPayload r) = isUsableRegistryEntryRef r"
| "isValidMaterialPayload (DeclarationPayload r) = isCanonicalRecordId r"
| "isValidMaterialPayload (EvidencePayload r) = isCanonicalRecordId r"
| "isValidMaterialPayload (VerificationPayload r) = isCanonicalRecordId r"
| "isValidMaterialPayload (AttestationPayload r) = isCanonicalRecordId r"
| "isValidMaterialPayload (CredentialPayload r) = isCanonicalRecordId r"

definition isValidProtocolizationCaseMaterial :: "platform \<Rightarrow> case_material \<Rightarrow> bool" where
  "isValidProtocolizationCaseMaterial P v \<longleftrightarrow>
     isValidProtocolizationMaterialId (mt_materialId v) \<and> isValidRequirementIdList (mt_requirementIds v) \<and>
     isValidUtcDateTime P (mt_addedAt v) \<and>
     (case mt_correlationId v of None \<Rightarrow> True | Some c \<Rightarrow> isCanonicalRecordId c) \<and> isValidMaterialPayload (mt_payload v)"

section \<open>Cases\<close>

record requirement_state =
  qs_requirementId :: string
  qs_materialStatus :: string
  qs_materialIds :: "string list"
  qs_firstMaterialAt :: "string option"
  qs_updatedAt :: string

text \<open>The revision is a number; that it is an integer is checked by the validator, here it holds by typing.\<close>

record protocolization_case =
  kc_schemaVersion :: string
  kc_caseId :: string
  kc_tenantId :: string
  kc_profile :: profile_ref
  kc_subject :: case_subject
  kc_state :: string
  kc_revision :: int
  kc_requirementStates :: "requirement_state list"
  kc_materials :: "case_material list"
  kc_createdAt :: string
  kc_updatedAt :: string
  kc_activatedAt :: "string option"
  kc_cancelledAt :: "string option"
  kc_cancellationReason :: "string option"
  kc_correlationId :: "string option"

definition PROTOCOLIZATION_CASE_SCHEMA_VERSION :: string where
  "PROTOCOLIZATION_CASE_SCHEMA_VERSION = ''aoc-protocolization-case/1''"

section \<open>Validation\<close>

definition isNotBefore :: "platform \<Rightarrow> string \<Rightarrow> string \<Rightarrow> bool" where
  "isNotBefore P later earlier \<longleftrightarrow> (case (date_of P later, date_of P earlier) of
     (Some l, Some e) \<Rightarrow> l \<ge> e | _ \<Rightarrow> False)"

definition isValidRequirementStateShape :: "platform \<Rightarrow> requirement_state \<Rightarrow> bool" where
  "isValidRequirementStateShape P s \<longleftrightarrow> qs_requirementId s \<noteq> [] \<and>
     (qs_materialStatus s = ''Pending'' \<or> qs_materialStatus s = ''MaterialPresent'') \<and>
     \<not> list_ex (\<lambda>entry. entry = []) (qs_materialIds s) \<and> distinct (qs_materialIds s) \<and> isValidUtcDateTime P (qs_updatedAt s) \<and>
     (case qs_firstMaterialAt s of None \<Rightarrow> True | Some t \<Rightarrow> isValidUtcDateTime P t) \<and>
     (qs_materialIds s \<noteq> [] \<longleftrightarrow> qs_firstMaterialAt s \<noteq> None)"

definition MAX_CANCELLATION_REASON_LENGTH :: nat where
  "MAX_CANCELLATION_REASON_LENGTH = 1024"

definition header_issues :: "platform \<Rightarrow> protocolization_case \<Rightarrow> issue list" where
  "header_issues P c = (let createdAtValid = isValidUtcDateTime P (kc_createdAt c) in
     report_if (kc_schemaVersion c \<noteq> PROTOCOLIZATION_CASE_SCHEMA_VERSION) ''UNSUPPORTED_CASE_SCHEMA_VERSION'' ''schemaVersion'' @
     report_if (\<not> isValidProtocolizationCaseId (kc_caseId c)) ''INVALID_CASE_ID'' ''caseId'' @
     report_if (\<not> isValidProtocolizationTenantId (kc_tenantId c)) ''INVALID_CASE_TENANT_ID'' ''tenantId'' @
     report_if (\<not> isValidProtocolizationProfileRef (kc_profile c)) ''INVALID_CASE_PROFILE_REF'' ''profile'' @
     report_if (\<not> isValidProtocolizationCaseSubject (kc_subject c)) ''INVALID_CASE_SUBJECT'' ''subject'' @
     report_if (\<not> isProtocolizationCaseState (kc_state c)) ''INVALID_CASE_STATE'' ''state'' @
     report_if (\<bar>kc_revision c\<bar> > MAX_SAFE_INTEGER \<or> kc_revision c < 1) ''INVALID_CASE_REVISION'' ''revision'' @
     report_if (\<not> createdAtValid) ''INVALID_CASE_CREATED_AT'' ''createdAt'' @
     report_if (\<not> isValidUtcDateTime P (kc_updatedAt c)) ''INVALID_CASE_UPDATED_AT'' ''updatedAt'' @
     report_if (createdAtValid \<and> isValidUtcDateTime P (kc_updatedAt c) \<and> \<not> isNotBefore P (kc_updatedAt c) (kc_createdAt c))
       ''CASE_UPDATED_BEFORE_CREATED'' ''updatedAt'')"

definition lifecycle_issues :: "platform \<Rightarrow> protocolization_case \<Rightarrow> issue list" where
  "lifecycle_issues P c = (let createdAtValid = isValidUtcDateTime P (kc_createdAt c); cancelled = (kc_state c = ''Cancelled'') in
     (case kc_activatedAt c of None \<Rightarrow> []
      | Some at \<Rightarrow> report_if (if \<not> isValidUtcDateTime P at then True else createdAtValid \<and> \<not> isNotBefore P at (kc_createdAt c))
          ''INVALID_CASE_ACTIVATED_AT'' ''activatedAt'') @
     report_if (kc_state c = ''Active'' \<and> kc_activatedAt c = None) ''INVALID_CASE_ACTIVATED_AT'' ''activatedAt'' @
     report_if (kc_state c = ''Draft'' \<and> kc_activatedAt c \<noteq> None) ''UNEXPECTED_CASE_ACTIVATED_AT'' ''activatedAt'' @
     (case kc_cancelledAt c of None \<Rightarrow> report_if cancelled ''MISSING_CASE_CANCELLED_AT'' ''cancelledAt''
      | Some at \<Rightarrow> report_if (\<not> cancelled) ''UNEXPECTED_CASE_CANCELLED_AT'' ''cancelledAt'' @
          report_if (if \<not> isValidUtcDateTime P at then True else createdAtValid \<and> \<not> isNotBefore P at (kc_createdAt c))
            ''INVALID_CASE_CANCELLED_AT'' ''cancelledAt'') @
     (case kc_cancellationReason c of None \<Rightarrow> []
      | Some reason \<Rightarrow> report_if (\<not> cancelled) ''UNEXPECTED_CASE_CANCELLATION_REASON'' ''cancellationReason'' @
          report_if (trim reason = [] \<or> length reason > MAX_CANCELLATION_REASON_LENGTH)
            ''INVALID_CASE_CANCELLATION_REASON'' ''cancellationReason'') @
     (case kc_correlationId c of None \<Rightarrow> []
      | Some i \<Rightarrow> report_if (trim i = []) ''INVALID_CASE_CORRELATION_ID'' ''correlationId''))"

fun material_issues :: "platform \<Rightarrow> string \<Rightarrow> nat \<Rightarrow> string set \<Rightarrow> case_material list \<Rightarrow> issue list" where
  "material_issues P createdAt index seen [] = []"
| "material_issues P createdAt index seen (material # materials) = (let path = indexed ''materials'' index in
     if \<not> isValidProtocolizationCaseMaterial P material
     then (''INVALID_CASE_MATERIAL'', path) # material_issues P createdAt (Suc index) seen materials
     else report_if (mt_materialId material \<in> seen) ''DUPLICATE_CASE_MATERIAL_ID'' (path @ ''.materialId'') @
       report_if (isValidUtcDateTime P createdAt \<and> \<not> isNotBefore P (mt_addedAt material) createdAt)
         ''CASE_MATERIAL_ADDED_BEFORE_CREATED'' (path @ ''.addedAt'') @
       material_issues P createdAt (Suc index) (insert (mt_materialId material) seen) materials)"

definition valid_materials :: "platform \<Rightarrow> protocolization_case \<Rightarrow> case_material list" where
  "valid_materials P c = filter (isValidProtocolizationCaseMaterial P) (kc_materials c)"

text \<open>\<open>materialRequirements\<close>: the last of the materials with an identifier counts.\<close>

definition material_requirements :: "platform \<Rightarrow> protocolization_case \<Rightarrow> string \<Rightarrow> string list option" where
  "material_requirements P c = map_of (rev (map (\<lambda>m. (mt_materialId m, mt_requirementIds m)) (valid_materials P c)))"

definition state_material_issues :: "platform \<Rightarrow> protocolization_case \<Rightarrow> string \<Rightarrow> string \<Rightarrow> string \<Rightarrow> issue list" where
  "state_material_issues P c requirementId path materialId = (case material_requirements P c materialId of
     None \<Rightarrow> [(''CASE_REQUIREMENT_STATE_MATERIAL_UNKNOWN'', path @ ''.materialIds'')]
   | Some requirementIds \<Rightarrow> report_if (requirementId \<notin> set requirementIds)
       ''CASE_REQUIREMENT_STATE_MATERIAL_NOT_CORRELATED'' (path @ ''.materialIds''))"

fun requirement_state_issues :: "platform \<Rightarrow> protocolization_case \<Rightarrow> nat \<Rightarrow> string set \<Rightarrow> requirement_state list \<Rightarrow> issue list" where
  "requirement_state_issues P c index seen [] = []"
| "requirement_state_issues P c index seen (state # states) = (let path = indexed ''requirementStates'' index in
     if \<not> isValidRequirementStateShape P state
     then (''INVALID_CASE_REQUIREMENT_STATE'', path) # requirement_state_issues P c (Suc index) seen states
     else report_if (qs_requirementId state \<in> seen) ''DUPLICATE_CASE_REQUIREMENT_STATE_ID'' (path @ ''.requirementId'') @
       report_if (qs_materialStatus state \<noteq> (if qs_materialIds state = [] then ''Pending'' else ''MaterialPresent''))
         ''CASE_REQUIREMENT_STATUS_MISMATCH'' (path @ ''.materialStatus'') @
       concat (map (state_material_issues P c (qs_requirementId state) path) (qs_materialIds state)) @
       requirement_state_issues P c (Suc index) (insert (qs_requirementId state) seen) states)"

definition projected_requirement_ids :: "platform \<Rightarrow> protocolization_case \<Rightarrow> string list" where
  "projected_requirement_ids P c = map qs_requirementId (filter (isValidRequirementStateShape P) (kc_requirementStates c))"

definition correlation_issues :: "platform \<Rightarrow> protocolization_case \<Rightarrow> string \<Rightarrow> case_material \<Rightarrow> string \<Rightarrow> issue list" where
  "correlation_issues P c path material requirementId =
     (if requirementId \<notin> set (projected_requirement_ids P c)
      then [(''CASE_MATERIAL_REQUIREMENT_NOT_PROJECTED'', path @ ''.requirementIds'')]
      else report_if (case find (\<lambda>state. qs_requirementId state = requirementId) (kc_requirementStates c) of
            None \<Rightarrow> True | Some state \<Rightarrow> mt_materialId material \<notin> set (qs_materialIds state))
        ''CASE_MATERIAL_NOT_CORRELATED'' (path @ ''.requirementIds''))"

fun material_correlation_issues :: "platform \<Rightarrow> protocolization_case \<Rightarrow> nat \<Rightarrow> case_material list \<Rightarrow> issue list" where
  "material_correlation_issues P c index [] = []"
| "material_correlation_issues P c index (material # materials) =
     (if isValidProtocolizationCaseMaterial P material
      then concat (map (correlation_issues P c (indexed ''materials'' index) material) (mt_requirementIds material)) else []) @
     material_correlation_issues P c (Suc index) materials"

definition ref_of :: "asset_profile \<Rightarrow> profile_ref" where
  "ref_of profile = \<lparr>pf_profileId = ap_profileId profile, pf_profileVersion = ap_version profile\<rparr>"

definition profile_issues :: "platform \<Rightarrow> protocolization_case \<Rightarrow> asset_profile option \<Rightarrow> issue list" where
  "profile_issues P c profile = (case profile of None \<Rightarrow> []
     | Some p \<Rightarrow>
        if \<not> isValidProtocolizationProfileRef (kc_profile c) \<or> \<not> protocolizationProfileRefsEqual (kc_profile c) (ref_of p)
        then [(''CASE_PROFILE_REF_MISMATCH'', ''profile'')]
        else concat (map (\<lambda>requirementId. report_if (requirementId \<notin> set (map rq_id (ap_requirements p)))
          ''CASE_REQUIREMENT_NOT_IN_PROFILE'' ''requirementStates'') (unique (projected_requirement_ids P c))))"

definition validateProtocolizationCase :: "platform \<Rightarrow> protocolization_case \<Rightarrow> asset_profile option \<Rightarrow> issue list" where
  "validateProtocolizationCase P c profile =
     header_issues P c @ lifecycle_issues P c @
     material_issues P (kc_createdAt c) 0 {} (kc_materials c) @
     requirement_state_issues P c 0 {} (kc_requirementStates c) @
     material_correlation_issues P c 0 (kc_materials c) @
     profile_issues P c profile"

definition isValidProtocolizationCase :: "platform \<Rightarrow> protocolization_case \<Rightarrow> asset_profile option \<Rightarrow> bool" where
  "isValidProtocolizationCase P c profile \<longleftrightarrow> validateProtocolizationCase P c profile = []"


section \<open>Lemmas\<close>

definition header_ok :: "platform \<Rightarrow> protocolization_case \<Rightarrow> bool" where
  "header_ok P c \<longleftrightarrow> kc_schemaVersion c = PROTOCOLIZATION_CASE_SCHEMA_VERSION \<and> isValidProtocolizationCaseId (kc_caseId c) \<and>
     isValidProtocolizationTenantId (kc_tenantId c) \<and> isValidProtocolizationProfileRef (kc_profile c) \<and>
     isValidProtocolizationCaseSubject (kc_subject c) \<and> kc_state c \<in> set CASE_STATES \<and>
     1 \<le> kc_revision c \<and> kc_revision c \<le> MAX_SAFE_INTEGER \<and> isValidUtcDateTime P (kc_createdAt c) \<and>
     isValidUtcDateTime P (kc_updatedAt c) \<and> isNotBefore P (kc_updatedAt c) (kc_createdAt c)"

definition moment_ok :: "platform \<Rightarrow> string \<Rightarrow> string option \<Rightarrow> bool" where
  "moment_ok P createdAt m \<longleftrightarrow> (case m of None \<Rightarrow> True | Some at \<Rightarrow> isValidUtcDateTime P at \<and> isNotBefore P at createdAt)"

definition reason_ok :: "string option \<Rightarrow> bool" where
  "reason_ok r \<longleftrightarrow> (case r of None \<Rightarrow> True | Some s \<Rightarrow> trim s \<noteq> [] \<and> length s \<le> MAX_CANCELLATION_REASON_LENGTH)"

definition correlation_id_ok :: "string option \<Rightarrow> bool" where
  "correlation_id_ok r \<longleftrightarrow> (case r of None \<Rightarrow> True | Some s \<Rightarrow> trim s \<noteq> [])"

definition lifecycle_ok :: "platform \<Rightarrow> protocolization_case \<Rightarrow> bool" where
  "lifecycle_ok P c \<longleftrightarrow> moment_ok P (kc_createdAt c) (kc_activatedAt c) \<and> moment_ok P (kc_createdAt c) (kc_cancelledAt c) \<and>
     (kc_state c = ''Active'' \<longrightarrow> kc_activatedAt c \<noteq> None) \<and> (kc_state c = ''Draft'' \<longrightarrow> kc_activatedAt c = None) \<and>
     (kc_cancelledAt c \<noteq> None \<longleftrightarrow> kc_state c = ''Cancelled'') \<and>
     (kc_cancellationReason c \<noteq> None \<longrightarrow> kc_state c = ''Cancelled'') \<and> reason_ok (kc_cancellationReason c) \<and>
     correlation_id_ok (kc_correlationId c)"

definition materials_ok :: "platform \<Rightarrow> string \<Rightarrow> case_material list \<Rightarrow> bool" where
  "materials_ok P createdAt ms \<longleftrightarrow> (\<forall>m \<in> set ms. isValidProtocolizationCaseMaterial P m \<and> isNotBefore P (mt_addedAt m) createdAt) \<and>
     distinct (map mt_materialId ms)"

text \<open>The two views of a correlation: a requirement points to its materials, a material to its requirements.\<close>

definition state_ok :: "platform \<Rightarrow> case_material list \<Rightarrow> requirement_state \<Rightarrow> bool" where
  "state_ok P ms s \<longleftrightarrow> isValidRequirementStateShape P s \<and>
     qs_materialStatus s = (if qs_materialIds s = [] then ''Pending'' else ''MaterialPresent'') \<and>
     (\<forall>i \<in> set (qs_materialIds s). \<exists>m \<in> set ms. mt_materialId m = i \<and> qs_requirementId s \<in> set (mt_requirementIds m))"

definition states_ok :: "platform \<Rightarrow> case_material list \<Rightarrow> requirement_state list \<Rightarrow> bool" where
  "states_ok P ms ss \<longleftrightarrow> (\<forall>s \<in> set ss. state_ok P ms s) \<and> distinct (map qs_requirementId ss)"

definition correlated :: "requirement_state list \<Rightarrow> case_material \<Rightarrow> bool" where
  "correlated ss m \<longleftrightarrow> (\<forall>r \<in> set (mt_requirementIds m). \<exists>s \<in> set ss. qs_requirementId s = r \<and> mt_materialId m \<in> set (qs_materialIds s))"

definition case_ok :: "platform \<Rightarrow> protocolization_case \<Rightarrow> bool" where
  "case_ok P c \<longleftrightarrow> header_ok P c \<and> lifecycle_ok P c \<and> materials_ok P (kc_createdAt c) (kc_materials c) \<and>
     states_ok P (kc_materials c) (kc_requirementStates c) \<and> (\<forall>m \<in> set (kc_materials c). correlated (kc_requirementStates c) m)"

lemma header_issues_Nil: "header_issues P c = [] \<longleftrightarrow> header_ok P c"
  by (auto simp: header_issues_def header_ok_def Let_def isProtocolizationCaseState_def)

lemma lifecycle_issues_Nil: "header_ok P c \<Longrightarrow> lifecycle_issues P c = [] \<longleftrightarrow> lifecycle_ok P c"
  by (auto simp: lifecycle_issues_def lifecycle_ok_def header_ok_def moment_ok_def reason_ok_def correlation_id_ok_def
      Let_def not_less split: option.splits)

lemma material_issues_Nil:
  "isValidUtcDateTime P createdAt \<Longrightarrow> material_issues P createdAt index seen ms = [] \<longleftrightarrow>
   materials_ok P createdAt ms \<and> mt_materialId ` set ms \<inter> seen = {}"
  by (induction P createdAt index seen ms rule: material_issues.induct) (auto simp: materials_ok_def Let_def)

lemma state_material_issues_Nil:
  assumes "materials_ok P t (kc_materials c)"
  shows "state_material_issues P c r path i = [] \<longleftrightarrow>
    (\<exists>m \<in> set (kc_materials c). mt_materialId m = i \<and> r \<in> set (mt_requirementIds m))"
proof -
  let ?ms = "kc_materials c"
  have "valid_materials P c = ?ms" using assms by (auto simp: valid_materials_def materials_ok_def intro: filter_True)
  then have "material_requirements P c i = Some rs \<longleftrightarrow> (\<exists>m \<in> set ?ms. mt_materialId m = i \<and> mt_requirementIds m = rs)" for rs
    using assms by (auto simp: material_requirements_def materials_ok_def map_of_eq_Some_iff rev_map [symmetric] comp_def)
  note known = this
  show ?thesis
  proof (cases "material_requirements P c i")
    case None
    then have "\<not> (\<exists>m \<in> set ?ms. mt_materialId m = i)" using known by fastforce
    then show ?thesis using None by (auto simp: state_material_issues_def)
  next
    case (Some rs)
    then have "(\<exists>m \<in> set ?ms. mt_materialId m = i \<and> r \<in> set (mt_requirementIds m)) \<longleftrightarrow> r \<in> set rs"
      using known by (metis option.inject)
    then show ?thesis using Some by (simp add: state_material_issues_def)
  qed
qed

lemma requirement_state_issues_Nil:
  assumes "materials_ok P t (kc_materials c)"
  shows "requirement_state_issues P c index seen ss = [] \<longleftrightarrow>
    states_ok P (kc_materials c) ss \<and> qs_requirementId ` set ss \<inter> seen = {}"
proof (induction ss arbitrary: index seen)
  case (Cons s ss)
  then show ?case
    by (auto simp: states_ok_def state_ok_def Let_def state_material_issues_Nil [OF assms])
qed (simp add: states_ok_def)

lemma material_correlation_issues_Nil:
  assumes "materials_ok P t ms" and "states_ok P ms' (kc_requirementStates c)"
  shows "material_correlation_issues P c index ms = [] \<longleftrightarrow> (\<forall>m \<in> set ms. correlated (kc_requirementStates c) m)"
proof -
  let ?ss = "kc_requirementStates c"
  have shaped: "filter (isValidRequirementStateShape P) ?ss = ?ss"
    using assms(2) by (auto simp: states_ok_def state_ok_def intro: filter_True)
  have found: "find (\<lambda>s. qs_requirementId s = r) ss = Some s \<longleftrightarrow> s \<in> set ss \<and> qs_requirementId s = r"
    if "distinct (map qs_requirementId ss)" for ss s r using that by (induction ss) auto
  have one: "correlation_issues P c path m r = [] \<longleftrightarrow> (\<exists>s \<in> set ?ss. qs_requirementId s = r \<and> mt_materialId m \<in> set (qs_materialIds s))" for path m r
  proof (cases "find (\<lambda>s. qs_requirementId s = r) ?ss")
    case None
    then have "r \<notin> qs_requirementId ` set ?ss" by (auto simp: find_None_iff)
    then show ?thesis by (auto simp: correlation_issues_def projected_requirement_ids_def shaped)
  next
    case (Some s)
    then have "s' \<in> set ?ss \<and> qs_requirementId s' = r \<longleftrightarrow> s' = s" for s'
      using found [of ?ss r s'] Some assms(2) unfolding states_ok_def by (metis option.inject)
    then have "(\<exists>s' \<in> set ?ss. qs_requirementId s' = r \<and> mt_materialId m \<in> set (qs_materialIds s')) \<longleftrightarrow>
        mt_materialId m \<in> set (qs_materialIds s)" by metis
    moreover have "r \<in> qs_requirementId ` set ?ss" using Some by (auto simp: find_Some_iff)
    ultimately show ?thesis using Some by (simp add: correlation_issues_def projected_requirement_ids_def shaped)
  qed
  show ?thesis using assms(1)
    by (induction ms arbitrary: index) (auto simp: materials_ok_def correlated_def one)
qed

lemma valid_case: "isValidProtocolizationCase P c None \<longleftrightarrow> case_ok P c"
proof -
  have "validateProtocolizationCase P c None = [] \<longleftrightarrow> case_ok P c"
  proof (cases "header_ok P c \<and> materials_ok P (kc_createdAt c) (kc_materials c) \<and> states_ok P (kc_materials c) (kc_requirementStates c)")
    case True
    then have "isValidUtcDateTime P (kc_createdAt c)" by (simp add: header_ok_def)
    then show ?thesis using True material_correlation_issues_Nil [of P "kc_createdAt c" "kc_materials c" "kc_materials c" c]
      by (auto simp: validateProtocolizationCase_def case_ok_def header_issues_Nil lifecycle_issues_Nil material_issues_Nil
          requirement_state_issues_Nil profile_issues_def)
  next
    case False
    moreover have "header_ok P c \<Longrightarrow> isValidUtcDateTime P (kc_createdAt c)" by (simp add: header_ok_def)
    ultimately show ?thesis
      by (auto simp: validateProtocolizationCase_def case_ok_def header_issues_Nil material_issues_Nil requirement_state_issues_Nil)
  qed
  then show ?thesis by (simp add: isValidProtocolizationCase_def)
qed

text \<open>C35: The validator accepts a case exactly when it is well formed: its header and its moments are, materials and states of
  requirements have identifiers of their own, and the two sides of a correlation, the materials a requirement points to and
  the requirements a material points to, say the same.\<close>

theorem valid_case_iff: "isValidProtocolizationCase P c None \<longleftrightarrow> case_ok P c"
  by (rule valid_case)

end
