(* ===== verification/CaseOperations.thy ===== *)
theory CaseOperations
  imports ProtocolizationCase
begin

text \<open>
  \<open>case-operations.ts\<close>, \<open>case-events.ts\<close> and \<open>case-progress.ts\<close>: the operations on a
  protocolization case.  Each checks the case it is given, changes it, and lets the result out only when it passes the
  validator again.  The lemmas show that this last check never refuses what the guards let through.
\<close>

section \<open>Errors\<close>

text \<open>Of the details of an error only the reason codes are kept; the others repeat identifiers of the call.\<close>

record case_error =
  ce_code :: string
  ce_message :: string
  ce_reasonCodes :: "string list"

type_synonym 'a case_result = "case_error + 'a"

definition case_failure :: "string \<Rightarrow> string \<Rightarrow> string list \<Rightarrow> case_error" where
  "case_failure code message reasonCodes = \<lparr>ce_code = code, ce_message = message, ce_reasonCodes = reasonCodes\<rparr>"

definition fail_if :: "bool \<Rightarrow> string \<Rightarrow> string \<Rightarrow> string list \<Rightarrow> case_error option" where
  "fail_if b code message reasonCodes = (if b then Some (case_failure code message reasonCodes) else None)"

section \<open>Events\<close>

record case_event_base =
  ev_caseId :: string
  ev_tenantId :: string
  ev_profile :: profile_ref
  ev_caseRevision :: int
  ev_occurredAt :: string
  ev_correlationId :: "string option"

datatype case_event =
    ProtocolizationCaseCreated case_event_base subject_reference "string list"
  | ProtocolizationCaseActivated case_event_base
  | ProtocolizationMaterialAdded case_event_base string string "string list"
  | ProtocolizationMaterialAssociated case_event_base string "string list"
  | ProtocolizationCaseCancelled case_event_base "string option"

primrec event_base :: "case_event \<Rightarrow> case_event_base" where
  "event_base (ProtocolizationCaseCreated b s rs) = b"
| "event_base (ProtocolizationCaseActivated b) = b"
| "event_base (ProtocolizationMaterialAdded b m k rs) = b"
| "event_base (ProtocolizationMaterialAssociated b m rs) = b"
| "event_base (ProtocolizationCaseCancelled b r) = b"

definition base_of :: "protocolization_case \<Rightarrow> string option \<Rightarrow> case_event_base" where
  "base_of c correlationId = \<lparr>ev_caseId = kc_caseId c, ev_tenantId = kc_tenantId c, ev_profile = kc_profile c,
     ev_caseRevision = kc_revision c, ev_occurredAt = kc_updatedAt c, ev_correlationId = correlationId\<rparr>"

section \<open>Guards\<close>

text \<open>The catalogue of profiles and the clock are the ports of an operation.\<close>

record case_context =
  cc_catalog :: "string \<Rightarrow> string \<Rightarrow> asset_profile option"
  cc_now :: string
  cc_tenantId :: string

definition assertActingTenant :: "case_context \<Rightarrow> case_error option" where
  "assertActingTenant ctx = fail_if (\<not> isValidProtocolizationTenantId (cc_tenantId ctx)) ''PROTOCOLIZATION_CASE_INVALID_TENANT''
     ''A non-blank acting tenantId is required'' [''INVALID_CASE_TENANT_ID'']"

definition assertOperableCase :: "platform \<Rightarrow> case_context \<Rightarrow> protocolization_case \<Rightarrow> case_error option" where
  "assertOperableCase P ctx c = (let reasons = map fst (validateProtocolizationCase P c None) in
     first_throw [
       fail_if (reasons \<noteq> []) ''PROTOCOLIZATION_CASE_INVALID'' (''Invalid ProtocolizationCase: '' @ join '', '' reasons) reasons,
       assertActingTenant ctx,
       fail_if (kc_tenantId c \<noteq> cc_tenantId ctx) ''PROTOCOLIZATION_CASE_TENANT_MISMATCH''
         ''The acting tenant does not own this ProtocolizationCase'' [''PROTOCOLIZATION_CASE_TENANT_MISMATCH'']])"

definition resolvePinnedProfile :: "case_context \<Rightarrow> profile_ref \<Rightarrow> asset_profile case_result" where
  "resolvePinnedProfile ctx pin = (case cc_catalog ctx (pf_profileId pin) (pf_profileVersion pin) of
     None \<Rightarrow> Inl (case_failure ''PROTOCOLIZATION_CASE_PROFILE_NOT_FOUND''
       (''No AssetProfile '' @ pf_profileId pin @ ''@'' @ pf_profileVersion pin @ '' is catalogued'')
       [''PROTOCOLIZATION_CASE_PROFILE_NOT_FOUND''])
   | Some profile \<Rightarrow> Inr profile)"

definition readClock :: "platform \<Rightarrow> case_context \<Rightarrow> string option \<Rightarrow> string case_result" where
  "readClock P ctx notBefore =
     after (first_throw [
       fail_if (\<not> isValidUtcDateTime P (cc_now ctx)) ''PROTOCOLIZATION_CASE_INVALID_TIMESTAMP''
         ''The clock returned a non-canonical instant'' [''PROTOCOLIZATION_CASE_INVALID_TIMESTAMP''],
       fail_if (case notBefore of None \<Rightarrow> False
           | Some m \<Rightarrow> (case (date_of P (cc_now ctx), date_of P m) of (Some n, Some b) \<Rightarrow> n < b | _ \<Rightarrow> False))
         ''PROTOCOLIZATION_CASE_INVALID_TIMESTAMP'' ''The clock moved backwards'' [''PROTOCOLIZATION_CASE_INVALID_TIMESTAMP'']])
     (Inr (cc_now ctx))"

definition assertKnownRequirements :: "string list \<Rightarrow> asset_profile \<Rightarrow> protocolization_case \<Rightarrow> case_error option" where
  "assertKnownRequirements requirementIds profile c = (let
       declared = set (map rq_id (ap_requirements profile));
       projected = set (map qs_requirementId (kc_requirementStates c));
       unknown = filter (\<lambda>i. i \<notin> declared \<or> i \<notin> projected) requirementIds
     in first_throw [
       fail_if (requirementIds = []) ''PROTOCOLIZATION_CASE_UNKNOWN_REQUIREMENT'' ''At least one requirement id is required''
         [''PROTOCOLIZATION_CASE_UNKNOWN_REQUIREMENT''],
       fail_if (card (set requirementIds) \<noteq> length requirementIds) ''PROTOCOLIZATION_CASE_DUPLICATE_ASSOCIATION''
         ''Duplicate requirement id'' [''PROTOCOLIZATION_CASE_DUPLICATE_ASSOCIATION''],
       fail_if (unknown \<noteq> []) ''PROTOCOLIZATION_CASE_UNKNOWN_REQUIREMENT''
         (''Requirement not declared by '' @ pf_profileId (kc_profile c) @ ''@'' @ pf_profileVersion (kc_profile c) @ '': '' @ join '', '' unknown)
         [''PROTOCOLIZATION_CASE_UNKNOWN_REQUIREMENT'']])"

definition correlate_state :: "string list \<Rightarrow> string \<Rightarrow> string \<Rightarrow> requirement_state \<Rightarrow> requirement_state" where
  "correlate_state requirementIds materialId at s = (if qs_requirementId s \<notin> set requirementIds then s
     else \<lparr>qs_requirementId = qs_requirementId s, qs_materialStatus = ''MaterialPresent'',
       qs_materialIds = qs_materialIds s @ [materialId],
       qs_firstMaterialAt = (case qs_firstMaterialAt s of None \<Rightarrow> Some at | Some t \<Rightarrow> Some t), qs_updatedAt = at\<rparr>)"

definition correlate :: "requirement_state list \<Rightarrow> string list \<Rightarrow> string \<Rightarrow> string \<Rightarrow> requirement_state list" where
  "correlate requirementStates requirementIds materialId at = map (correlate_state requirementIds materialId at) requirementStates"

definition sealed_case :: "platform \<Rightarrow> protocolization_case \<Rightarrow> protocolization_case case_result" where
  "sealed_case P c = (let reasons = map fst (validateProtocolizationCase P c None) in
     after (fail_if (reasons \<noteq> []) ''PROTOCOLIZATION_CASE_INVALID''
       (''Refusing to produce an invalid ProtocolizationCase: '' @ join '', '' reasons) reasons) (Inr c))"

definition assertTransition :: "protocolization_case \<Rightarrow> string \<Rightarrow> case_error option" where
  "assertTransition c to_state = fail_if (\<not> isAllowedProtocolizationCaseTransition (kc_state c) to_state)
     ''PROTOCOLIZATION_CASE_INVALID_TRANSITION'' (''A ProtocolizationCase cannot move from '' @ kc_state c @ '' to '' @ to_state)
     [''PROTOCOLIZATION_CASE_INVALID_TRANSITION'']"

definition assertAcceptsMaterial :: "protocolization_case \<Rightarrow> case_error option" where
  "assertAcceptsMaterial c = fail_if (\<not> acceptsProtocolizationMaterial (kc_state c)) ''PROTOCOLIZATION_CASE_INVALID_TRANSITION''
     (''A '' @ kc_state c @ '' ProtocolizationCase does not accept material'') [''PROTOCOLIZATION_CASE_INVALID_TRANSITION'']"

section \<open>Operations\<close>

type_synonym case_transition = "protocolization_case \<times> case_event"

record create_case_input =
  in_caseId :: string
  in_profile :: profile_ref
  in_subject :: case_subject
  in_correlationId :: "string option"

definition create_reasons :: "create_case_input \<Rightarrow> string list" where
  "create_reasons inp = map fst (
     report_if (\<not> isValidProtocolizationCaseId (in_caseId inp)) ''INVALID_CASE_ID'' [] @
     report_if (\<not> isValidProtocolizationProfileRef (in_profile inp)) ''INVALID_CASE_PROFILE_REF'' [] @
     report_if (\<not> isValidProtocolizationCaseSubject (in_subject inp)) ''INVALID_CASE_SUBJECT'' [] @
     report_if (case in_correlationId inp of None \<Rightarrow> False | Some i \<Rightarrow> trim i = []) ''INVALID_CASE_CORRELATION_ID'' [])"

definition initial_case :: "string \<Rightarrow> create_case_input \<Rightarrow> asset_profile \<Rightarrow> string \<Rightarrow> protocolization_case" where
  "initial_case tenantId inp profile createdAt = \<lparr>kc_schemaVersion = PROTOCOLIZATION_CASE_SCHEMA_VERSION,
     kc_caseId = in_caseId inp, kc_tenantId = tenantId, kc_profile = in_profile inp, kc_subject = in_subject inp,
     kc_state = ''Draft'', kc_revision = 1,
     kc_requirementStates = map (\<lambda>requirement. \<lparr>qs_requirementId = rq_id requirement, qs_materialStatus = ''Pending'',
       qs_materialIds = [], qs_firstMaterialAt = None, qs_updatedAt = createdAt\<rparr>) (ap_requirements profile),
     kc_materials = [], kc_createdAt = createdAt, kc_updatedAt = createdAt, kc_activatedAt = None, kc_cancelledAt = None,
     kc_cancellationReason = None, kc_correlationId = in_correlationId inp\<rparr>"

definition createProtocolizationCase :: "platform \<Rightarrow> case_context \<Rightarrow> create_case_input \<Rightarrow> case_transition case_result" where
  "createProtocolizationCase P ctx inp =
     after (first_throw [assertActingTenant ctx,
       fail_if (create_reasons inp \<noteq> []) ''PROTOCOLIZATION_CASE_INVALID''
         (''Cannot create ProtocolizationCase: '' @ join '', '' (create_reasons inp)) (create_reasons inp)])
     (bind_result (resolvePinnedProfile ctx (in_profile inp)) (\<lambda>profile.
      bind_result (readClock P ctx None) (\<lambda>createdAt.
      bind_result (sealed_case P (initial_case (cc_tenantId ctx) inp profile createdAt)) (\<lambda>c.
        Inr (c, ProtocolizationCaseCreated (base_of c (in_correlationId inp)) (cs_subjectRef (in_subject inp))
          (map qs_requirementId (kc_requirementStates c)))))))"

definition activated_case :: "protocolization_case \<Rightarrow> string \<Rightarrow> protocolization_case" where
  "activated_case c occurredAt = c\<lparr>kc_state := ''Active'', kc_revision := kc_revision c + 1, kc_updatedAt := occurredAt,
     kc_activatedAt := Some occurredAt\<rparr>"

definition activateProtocolizationCase :: "platform \<Rightarrow> case_context \<Rightarrow> protocolization_case \<Rightarrow> case_transition case_result" where
  "activateProtocolizationCase P ctx c =
     after (first_throw [assertOperableCase P ctx c, assertTransition c ''Active''])
     (bind_result (readClock P ctx (Some (kc_updatedAt c))) (\<lambda>occurredAt.
      bind_result (sealed_case P (activated_case c occurredAt)) (\<lambda>next.
        Inr (next, ProtocolizationCaseActivated (base_of next (kc_correlationId next))))))"

text \<open>A material without the moment of its addition.\<close>

record material_input =
  mn_materialId :: string
  mn_payload :: material_payload
  mn_requirementIds :: "string list"
  mn_correlationId :: "string option"

definition material_of :: "material_input \<Rightarrow> string \<Rightarrow> case_material" where
  "material_of inp addedAt = \<lparr>mt_materialId = mn_materialId inp, mt_payload = mn_payload inp,
     mt_requirementIds = mn_requirementIds inp, mt_addedAt = addedAt, mt_correlationId = mn_correlationId inp\<rparr>"

definition with_material :: "protocolization_case \<Rightarrow> case_material \<Rightarrow> protocolization_case" where
  "with_material c material = c\<lparr>kc_revision := kc_revision c + 1, kc_updatedAt := mt_addedAt material,
     kc_materials := kc_materials c @ [material],
     kc_requirementStates := correlate (kc_requirementStates c) (mt_requirementIds material) (mt_materialId material) (mt_addedAt material)\<rparr>"

definition addProtocolizationCaseMaterial ::
  "platform \<Rightarrow> case_context \<Rightarrow> protocolization_case \<Rightarrow> material_input \<Rightarrow> case_transition case_result" where
  "addProtocolizationCaseMaterial P ctx c inp =
     after (first_throw [assertOperableCase P ctx c, assertAcceptsMaterial c])
     (bind_result (resolvePinnedProfile ctx (kc_profile c)) (\<lambda>profile.
      after (first_throw [
        fail_if (list_ex (\<lambda>material. mt_materialId material = mn_materialId inp) (kc_materials c))
          ''PROTOCOLIZATION_CASE_DUPLICATE_MATERIAL'' (''Material '' @ mn_materialId inp @ '' already exists in this case'')
          [''PROTOCOLIZATION_CASE_DUPLICATE_MATERIAL''],
        assertKnownRequirements (mn_requirementIds inp) profile c])
      (bind_result (readClock P ctx (Some (kc_updatedAt c))) (\<lambda>addedAt.
       let material = material_of inp addedAt in
       after (fail_if (\<not> isValidProtocolizationCaseMaterial P material) ''PROTOCOLIZATION_CASE_INVALID'' ''Malformed case material''
         [''INVALID_CASE_MATERIAL''])
       (bind_result (sealed_case P (with_material c material)) (\<lambda>next.
         Inr (next, ProtocolizationMaterialAdded (base_of next (mt_correlationId material)) (mt_materialId material)
           (material_kind (mt_payload material)) (mt_requirementIds material))))))))"

definition with_association :: "protocolization_case \<Rightarrow> string \<Rightarrow> string list \<Rightarrow> string \<Rightarrow> protocolization_case" where
  "with_association c materialId requirementIds occurredAt = c\<lparr>kc_revision := kc_revision c + 1, kc_updatedAt := occurredAt,
     kc_materials := map (\<lambda>material. if mt_materialId material = materialId
       then material\<lparr>mt_requirementIds := mt_requirementIds material @ requirementIds\<rparr> else material) (kc_materials c),
     kc_requirementStates := correlate (kc_requirementStates c) requirementIds materialId occurredAt\<rparr>"

definition associateProtocolizationCaseMaterial ::
  "platform \<Rightarrow> case_context \<Rightarrow> protocolization_case \<Rightarrow> string \<Rightarrow> string list \<Rightarrow> case_transition case_result" where
  "associateProtocolizationCaseMaterial P ctx c materialId requirementIds =
     after (first_throw [assertOperableCase P ctx c, assertAcceptsMaterial c])
     (bind_result (resolvePinnedProfile ctx (kc_profile c)) (\<lambda>profile.
      case find (\<lambda>material. mt_materialId material = materialId) (kc_materials c) of
        None \<Rightarrow> Inl (case_failure ''PROTOCOLIZATION_CASE_UNKNOWN_MATERIAL''
          (''No material '' @ materialId @ '' exists in this case'') [''PROTOCOLIZATION_CASE_UNKNOWN_MATERIAL''])
      | Some existing \<Rightarrow>
         let alreadyAssociated = filter (\<lambda>i. i \<in> set (mt_requirementIds existing)) requirementIds in
         after (first_throw [assertKnownRequirements requirementIds profile c,
           fail_if (alreadyAssociated \<noteq> []) ''PROTOCOLIZATION_CASE_DUPLICATE_ASSOCIATION''
             (''Material '' @ materialId @ '' is already associated with: '' @ join '', '' alreadyAssociated)
             [''PROTOCOLIZATION_CASE_DUPLICATE_ASSOCIATION'']])
         (bind_result (readClock P ctx (Some (kc_updatedAt c))) (\<lambda>occurredAt.
          bind_result (sealed_case P (with_association c materialId requirementIds occurredAt)) (\<lambda>next.
            Inr (next, ProtocolizationMaterialAssociated (base_of next (mt_correlationId existing)) materialId requirementIds))))))"

definition cancelled_case :: "protocolization_case \<Rightarrow> string option \<Rightarrow> string \<Rightarrow> protocolization_case" where
  "cancelled_case c reason occurredAt = c\<lparr>kc_state := ''Cancelled'', kc_revision := kc_revision c + 1, kc_updatedAt := occurredAt,
     kc_cancelledAt := Some occurredAt,
     kc_cancellationReason := (case reason of None \<Rightarrow> kc_cancellationReason c | Some r \<Rightarrow> Some r)\<rparr>"

definition cancelProtocolizationCase ::
  "platform \<Rightarrow> case_context \<Rightarrow> protocolization_case \<Rightarrow> string option \<Rightarrow> case_transition case_result" where
  "cancelProtocolizationCase P ctx c reason =
     after (first_throw [assertOperableCase P ctx c, assertTransition c ''Cancelled'',
       fail_if (case reason of None \<Rightarrow> False | Some r \<Rightarrow> trim r = [] \<or> length r > MAX_CANCELLATION_REASON_LENGTH)
         ''PROTOCOLIZATION_CASE_INVALID'' ''Malformed cancellation reason'' [''INVALID_CASE_CANCELLATION_REASON'']])
     (bind_result (readClock P ctx (Some (kc_updatedAt c))) (\<lambda>occurredAt.
      bind_result (sealed_case P (cancelled_case c reason occurredAt)) (\<lambda>next.
        Inr (next, ProtocolizationCaseCancelled (base_of next (kc_correlationId next)) reason))))"

definition reconstituteProtocolizationCase :: "platform \<Rightarrow> protocolization_case \<Rightarrow> asset_profile option \<Rightarrow> protocolization_case case_result" where
  "reconstituteProtocolizationCase P c profile = (let reasons = map fst (validateProtocolizationCase P c profile) in
     after (fail_if (reasons \<noteq> []) ''PROTOCOLIZATION_CASE_INVALID''
       (''Refusing to reconstitute an invalid ProtocolizationCase: '' @ join '', '' reasons) reasons) (Inr c))"

text \<open>The operations on a case that exists; every one of them may be called by any tenant, at any moment.\<close>

inductive case_step :: "platform \<Rightarrow> protocolization_case \<Rightarrow> protocolization_case \<Rightarrow> bool" for P where
  activates: "activateProtocolizationCase P ctx c = Inr (c', e) \<Longrightarrow> case_step P c c'"
| adds: "addProtocolizationCaseMaterial P ctx c inp = Inr (c', e) \<Longrightarrow> case_step P c c'"
| associates: "associateProtocolizationCaseMaterial P ctx c i rs = Inr (c', e) \<Longrightarrow> case_step P c c'"
| cancels: "cancelProtocolizationCase P ctx c reason = Inr (c', e) \<Longrightarrow> case_step P c c'"

section \<open>Progress\<close>

record requirement_progress =
  pg_requirementId :: string
  pg_kind :: string
  pg_obligation :: string
  pg_materialStatus :: string
  pg_conditionStatus :: string
  pg_materialIds :: "string list"
  pg_firstMaterialAt :: "string option"
  pg_updatedAt :: string

record progress_filter =
  fl_kind :: "string option"
  fl_obligation :: "string option"
  fl_materialStatus :: "string option"

definition assertPinnedProfile :: "protocolization_case \<Rightarrow> asset_profile \<Rightarrow> case_error option" where
  "assertPinnedProfile c profile = fail_if (\<not> protocolizationProfileRefsEqual (kc_profile c) (ref_of profile))
     ''PROTOCOLIZATION_CASE_PROFILE_MISMATCH''
     (''This case is pinned to '' @ pf_profileId (kc_profile c) @ ''@'' @ pf_profileVersion (kc_profile c))
     [''PROTOCOLIZATION_CASE_PROFILE_MISMATCH'']"

definition progress_of :: "asset_requirement \<Rightarrow> requirement_state \<Rightarrow> requirement_progress" where
  "progress_of requirement s = \<lparr>pg_requirementId = rq_id requirement, pg_kind = rq_kind requirement,
     pg_obligation = rq_obligation requirement, pg_materialStatus = qs_materialStatus s,
     pg_conditionStatus = (if rq_obligation requirement = ''Conditional'' then ''Unresolved'' else ''NotApplicable''),
     pg_materialIds = qs_materialIds s, pg_firstMaterialAt = qs_firstMaterialAt s, pg_updatedAt = qs_updatedAt s\<rparr>"

definition states_by_requirement :: "protocolization_case \<Rightarrow> string \<Rightarrow> requirement_state option" where
  "states_by_requirement c = map_of (rev (map (\<lambda>s. (qs_requirementId s, s)) (kc_requirementStates c)))"

definition listProtocolizationCaseRequirementProgress ::
  "protocolization_case \<Rightarrow> asset_profile \<Rightarrow> progress_filter \<Rightarrow> requirement_progress list case_result" where
  "listProtocolizationCaseRequirementProgress c profile flt =
     after (assertPinnedProfile c profile)
     (Inr (filter (\<lambda>progress.
         if fl_kind flt \<noteq> None \<and> Some (pg_kind progress) \<noteq> fl_kind flt then False
         else if fl_obligation flt \<noteq> None \<and> Some (pg_obligation progress) \<noteq> fl_obligation flt then False
         else if fl_materialStatus flt \<noteq> None \<and> Some (pg_materialStatus progress) \<noteq> fl_materialStatus flt then False
         else True)
       (concat (map (\<lambda>requirement. case states_by_requirement c (rq_id requirement) of
           None \<Rightarrow> [] | Some s \<Rightarrow> [progress_of requirement s]) (ap_requirements profile)))))"

definition no_filter :: progress_filter where
  "no_filter = \<lparr>fl_kind = None, fl_obligation = None, fl_materialStatus = None\<rparr>"

definition listProtocolizationCasePendingMaterialRequirements ::
  "protocolization_case \<Rightarrow> asset_profile \<Rightarrow> requirement_progress list case_result" where
  "listProtocolizationCasePendingMaterialRequirements c profile =
     bind_result (listProtocolizationCaseRequirementProgress c profile no_filter) (\<lambda>all.
       Inr (filter (\<lambda>progress. pg_materialStatus progress = ''Pending'' \<and>
         (pg_obligation progress = ''Required'' \<or> pg_obligation progress = ''Conditional'')) all))"

definition getProtocolizationCaseRequirementProgress ::
  "protocolization_case \<Rightarrow> asset_profile \<Rightarrow> string \<Rightarrow> requirement_progress option case_result" where
  "getProtocolizationCaseRequirementProgress c profile requirementId =
     bind_result (listProtocolizationCaseRequirementProgress c profile no_filter) (\<lambda>all.
       Inr (find (\<lambda>progress. pg_requirementId progress = requirementId) all))"

section \<open>What the guards let through\<close>

lemma isNotBefore_trans: "isNotBefore P a b \<Longrightarrow> isNotBefore P b c \<Longrightarrow> isNotBefore P a c"
  by (auto simp: isNotBefore_def split: option.splits)

lemma isNotBefore_refl: "isValidUtcDateTime P a \<Longrightarrow> isNotBefore P a a"
  by (auto simp: isNotBefore_def isValidUtcDateTime_def split: option.splits)

lemma fail_if_None [throws_simps]: "fail_if b code message reasonCodes = None \<longleftrightarrow> \<not> b"
  by (simp add: fail_if_def)

lemma valid_case_reasons: "map fst (validateProtocolizationCase P c None) = [] \<longleftrightarrow> case_ok P c"
  using valid_case [of P c] by (simp add: isValidProtocolizationCase_def)

lemma case_okD:
  assumes "case_ok P c"
  shows "header_ok P c" "lifecycle_ok P c" "materials_ok P (kc_createdAt c) (kc_materials c)"
    "states_ok P (kc_materials c) (kc_requirementStates c)" "\<forall>m \<in> set (kc_materials c). correlated (kc_requirementStates c) m"
    "isValidUtcDateTime P (kc_updatedAt c)" "isNotBefore P (kc_updatedAt c) (kc_createdAt c)"
  using assms by (simp_all add: case_ok_def header_ok_def)

lemma sealed_case_Inr [result_simps]: "sealed_case P c = Inr c' \<longleftrightarrow> case_ok P c \<and> c' = c"
  using valid_case_reasons [of P c] by (auto simp: sealed_case_def Let_def after_Inr fail_if_None)

lemma assertOperableCase_None [throws_simps]:
  "assertOperableCase P ctx c = None \<longleftrightarrow> case_ok P c \<and> kc_tenantId c = cc_tenantId ctx"
  using valid_case_reasons [of P c]
  by (auto simp: assertOperableCase_def assertActingTenant_def Let_def first_throw_None fail_if_None case_ok_def header_ok_def)

text \<open>The clock of the call gives a moment that is not before the last change of the case.\<close>

definition clock_ok :: "platform \<Rightarrow> case_context \<Rightarrow> protocolization_case \<Rightarrow> bool" where
  "clock_ok P ctx c \<longleftrightarrow> isValidUtcDateTime P (cc_now ctx) \<and> isNotBefore P (cc_now ctx) (kc_updatedAt c)"

lemma readClock_case:
  assumes "case_ok P c"
  shows "readClock P ctx (Some (kc_updatedAt c)) = Inr t \<longleftrightarrow> clock_ok P ctx c \<and> t = cc_now ctx"
  using case_okD(6) [OF assms]
  by (auto simp: readClock_def clock_ok_def after_Inr first_throw_None fail_if_None isNotBefore_def isValidUtcDateTime_def
      split: option.splits)

lemma resolvePinnedProfile_Inr [result_simps]:
  "resolvePinnedProfile ctx pin = Inr p \<longleftrightarrow> cc_catalog ctx (pf_profileId pin) (pf_profileVersion pin) = Some p"
  by (auto simp: resolvePinnedProfile_def split: option.splits)

text \<open>The requirements a call names are distinct, declared by the profile and projected in the case.\<close>

definition requirements_ok :: "string list \<Rightarrow> asset_profile \<Rightarrow> protocolization_case \<Rightarrow> bool" where
  "requirements_ok rs profile c \<longleftrightarrow> rs \<noteq> [] \<and> distinct rs \<and> set rs \<subseteq> set (map rq_id (ap_requirements profile)) \<and>
     set rs \<subseteq> set (map qs_requirementId (kc_requirementStates c))"

lemma assertKnownRequirements_None [throws_simps]: "assertKnownRequirements rs profile c = None \<longleftrightarrow> requirements_ok rs profile c"
proof -
  have "card (set rs) = length rs \<longleftrightarrow> distinct rs" by (metis card_distinct distinct_card)
  then show ?thesis
    by (auto simp: assertKnownRequirements_def Let_def first_throw_None fail_if_None requirements_ok_def filter_empty_conv)
qed

section \<open>What the operations produce is a valid case\<close>

text \<open>The next revision exists.\<close>

definition revisable :: "protocolization_case \<Rightarrow> bool" where
  "revisable c \<longleftrightarrow> kc_revision c < MAX_SAFE_INTEGER"

lemma initial_revision: "1 \<le> MAX_SAFE_INTEGER" by (simp add: MAX_SAFE_INTEGER_def)

lemma clock_okD:
  assumes "case_ok P c" and "clock_ok P ctx c"
  shows "isValidUtcDateTime P (cc_now ctx)" "isNotBefore P (cc_now ctx) (kc_updatedAt c)" "isNotBefore P (cc_now ctx) (kc_createdAt c)"
  using assms case_okD(7) isNotBefore_trans unfolding clock_ok_def by blast+

lemma activated_case_ok:
  assumes "case_ok P c" and "clock_ok P ctx c"
  shows "case_ok P (activated_case c (cc_now ctx)) \<longleftrightarrow> revisable c \<and> kc_state c \<noteq> ''Cancelled''"
  using case_okD [OF assms(1)] clock_okD [OF assms]
  by (auto simp: case_ok_def activated_case_def header_ok_def lifecycle_ok_def revisable_def CASE_STATES_def moment_ok_def reason_ok_def)

lemma cancelled_case_ok:
  assumes "case_ok P c" and "clock_ok P ctx c" and "reason_ok reason"
  shows "case_ok P (cancelled_case c reason (cc_now ctx)) \<longleftrightarrow> revisable c"
  using case_okD [OF assms(1)] clock_okD [OF assms(1,2)] assms(3)
  by (auto simp: case_ok_def cancelled_case_def header_ok_def lifecycle_ok_def revisable_def CASE_STATES_def moment_ok_def
      reason_ok_def split: option.splits)

lemma instance_identifier_nonempty: "isProtocolizationInstanceIdentifier v \<Longrightarrow> v \<noteq> []"
  by (auto simp: isProtocolizationInstanceIdentifier_def INSTANCE_IDENTIFIER_PATTERN_def rx_test_def Let_def)

lemma requirement_ids_loop_iff:
  "requirement_ids_loop seen v \<longleftrightarrow> (\<forall>r \<in> set v. isValidAssetRequirementId r) \<and> distinct v \<and> set v \<inter> seen = {}"
  by (induction seen v rule: requirement_ids_loop.induct) auto

lemma isValidRequirementIdList_iff: "isValidRequirementIdList v \<longleftrightarrow> v \<noteq> [] \<and> distinct v \<and> (\<forall>r \<in> set v. isValidAssetRequirementId r)"
  by (auto simp: isValidRequirementIdList_def requirement_ids_loop_iff)

text \<open>Correlation adds the material to the states it names and to no other.\<close>

lemma correlate_state_simps [simp]:
  "qs_requirementId (correlate_state rs i at s) = qs_requirementId s"
  "set (qs_materialIds (correlate_state rs i at s)) = set (qs_materialIds s) \<union> (if qs_requirementId s \<in> set rs then {i} else {})"
  by (simp_all add: correlate_state_def)

lemma correlate_ids [simp]: "map qs_requirementId (correlate ss rs i at) = map qs_requirementId ss"
  by (simp add: correlate_def)

lemma correlate_shape:
  assumes "isValidRequirementStateShape P s" and "isValidUtcDateTime P at" and "i \<noteq> []"
    and "qs_requirementId s \<in> set rs \<longrightarrow> i \<notin> set (qs_materialIds s)"
  shows "isValidRequirementStateShape P (correlate_state rs i at s)"
  using assms by (auto simp: correlate_state_def isValidRequirementStateShape_def split: option.splits)

lemma correlate_states_ok:
  assumes ok: "states_ok P ms ss" and at: "isValidUtcDateTime P at" "i \<noteq> []"
    and fresh: "\<forall>s \<in> set ss. qs_requirementId s \<in> set rs \<longrightarrow> i \<notin> set (qs_materialIds s)"
    and kept: "\<And>j r. \<exists>m \<in> set ms. mt_materialId m = j \<and> r \<in> set (mt_requirementIds m) \<Longrightarrow>
      \<exists>m \<in> set ms'. mt_materialId m = j \<and> r \<in> set (mt_requirementIds m)"
    and new: "\<And>r. r \<in> set rs \<Longrightarrow> \<exists>m \<in> set ms'. mt_materialId m = i \<and> r \<in> set (mt_requirementIds m)"
  shows "states_ok P ms' (correlate ss rs i at)"
proof -
  have "state_ok P ms' (correlate_state rs i at s)" if s: "s \<in> set ss" for s
  proof -
    let ?s = "correlate_state rs i at s"
    have old: "state_ok P ms s" using ok s by (simp add: states_ok_def)
    have "qs_materialStatus ?s = (if qs_materialIds ?s = [] then ''Pending'' else ''MaterialPresent'')"
      using old by (simp add: state_ok_def correlate_state_def)
    moreover have "\<exists>m \<in> set ms'. mt_materialId m = j \<and> qs_requirementId s \<in> set (mt_requirementIds m)"
      if "j \<in> set (qs_materialIds ?s)" for j
    proof (cases "j \<in> set (qs_materialIds s)")
      case True
      then show ?thesis using kept old by (simp add: state_ok_def)
    next
      case False
      then have "j = i" "qs_requirementId s \<in> set rs" using that by (simp_all split: if_splits)
      then show ?thesis using new by simp
    qed
    ultimately show ?thesis using correlate_shape at fresh s old by (simp add: state_ok_def)
  qed
  then have "\<forall>s \<in> set (correlate ss rs i at). state_ok P ms' s" by (simp add: correlate_def)
  then show ?thesis using ok by (simp add: states_ok_def)
qed

lemma correlate_correlated:
  assumes "correlated ss m" and "mt_materialId m' = mt_materialId m"
    and new: "\<And>r. r \<in> set (mt_requirementIds m') \<Longrightarrow> r \<in> set (mt_requirementIds m) \<or> mt_materialId m = i \<and> r \<in> set rs"
    and "set rs \<subseteq> set (map qs_requirementId ss)"
  shows "correlated (correlate ss rs i at) m'"
  unfolding correlated_def
proof
  fix r assume r: "r \<in> set (mt_requirementIds m')"
  have "\<exists>s \<in> set ss. qs_requirementId s = r \<and> (mt_materialId m \<in> set (qs_materialIds s) \<or> mt_materialId m = i \<and> r \<in> set rs)"
  proof (cases "r \<in> set (mt_requirementIds m)")
    case True
    then show ?thesis using assms(1) by (auto simp: correlated_def)
  next
    case False
    then have "mt_materialId m = i" "r \<in> set rs" using new [OF r] by simp_all
    moreover from this obtain s where "s \<in> set ss" "qs_requirementId s = r" using assms(4) by auto
    ultimately show ?thesis by blast
  qed
  then obtain s where s: "s \<in> set ss" "qs_requirementId s = r" "mt_materialId m \<in> set (qs_materialIds s) \<or> mt_materialId m = i \<and> r \<in> set rs"
    by blast
  then have "qs_requirementId (correlate_state rs i at s) = r \<and> mt_materialId m' \<in> set (qs_materialIds (correlate_state rs i at s))"
    using assms(2) by auto
  moreover have "correlate_state rs i at s \<in> set (correlate ss rs i at)" using s(1) by (simp add: correlate_def)
  ultimately show "\<exists>s \<in> set (correlate ss rs i at). qs_requirementId s = r \<and> mt_materialId m' \<in> set (qs_materialIds s)" by blast
qed

text \<open>A requirement refers to a material only when the material names the requirement.\<close>

lemma state_refers:
  assumes "states_ok P ms ss" and "s \<in> set ss" and "i \<in> set (qs_materialIds s)"
  obtains m where "m \<in> set ms" and "mt_materialId m = i" and "qs_requirementId s \<in> set (mt_requirementIds m)"
  using assms unfolding states_ok_def state_ok_def by blast

lemma material_id_nonempty: "isValidProtocolizationCaseMaterial P m \<Longrightarrow> mt_materialId m \<noteq> []"
  by (simp add: isValidProtocolizationCaseMaterial_def isValidProtocolizationMaterialId_def instance_identifier_nonempty)

lemma with_material_ok:
  assumes c: "case_ok P c" and t: "clock_ok P ctx c" "mt_addedAt m = cc_now ctx"
    and m: "isValidProtocolizationCaseMaterial P m" "mt_materialId m \<notin> mt_materialId ` set (kc_materials c)"
    and rs: "requirements_ok (mt_requirementIds m) profile c"
  shows "case_ok P (with_material c m) \<longleftrightarrow> revisable c"
proof -
  let ?ms = "kc_materials c" and ?ss = "kc_requirementStates c" and ?i = "mt_materialId m" and ?rs = "mt_requirementIds m"
  let ?ss' = "correlate ?ss ?rs ?i (cc_now ctx)"
  note ok = case_okD [OF c] and now = clock_okD [OF c t(1)]
  have fresh: "\<forall>s \<in> set ?ss. qs_requirementId s \<in> set ?rs \<longrightarrow> ?i \<notin> set (qs_materialIds s)"
    using state_refers [OF ok(4)] m(2) by (metis image_eqI)
  have "states_ok P (?ms @ [m]) ?ss'"
    by (rule correlate_states_ok [OF ok(4) now(1) material_id_nonempty [OF m(1)] fresh]) auto
  moreover have "\<forall>m' \<in> set (?ms @ [m]). correlated ?ss' m'"
  proof
    fix m' assume m': "m' \<in> set (?ms @ [m])"
    have sub: "set ?rs \<subseteq> set (map qs_requirementId ?ss)" using rs by (simp add: requirements_ok_def)
    show "correlated ?ss' m'"
    proof (cases "m' = m")
      case True
      have "correlated ?ss (m\<lparr>mt_requirementIds := []\<rparr>)" by (simp add: correlated_def)
      then show ?thesis using True sub by (auto intro!: correlate_correlated [where m = "m\<lparr>mt_requirementIds := []\<rparr>"])
    next
      case False
      then show ?thesis using m' ok(5) sub by (auto intro!: correlate_correlated [where m = m'])
    qed
  qed
  moreover have "materials_ok P (kc_createdAt c) (?ms @ [m])" using ok(3) m now t(2) by (auto simp: materials_ok_def)
  ultimately show ?thesis using ok(1,2) now t(2)
    by (auto simp: case_ok_def with_material_def header_ok_def lifecycle_ok_def revisable_def)
qed

lemma with_association_ok:
  assumes c: "case_ok P c" and t: "clock_ok P ctx c"
    and m: "m \<in> set (kc_materials c)" "set rs \<inter> set (mt_requirementIds m) = {}" and rs: "requirements_ok rs profile c"
  shows "case_ok P (with_association c (mt_materialId m) rs (cc_now ctx)) \<longleftrightarrow> revisable c \<and> (\<forall>r \<in> set rs. isValidAssetRequirementId r)"
proof -
  let ?ms = "kc_materials c" and ?ss = "kc_requirementStates c" and ?i = "mt_materialId m"
  let ?f = "\<lambda>x. if mt_materialId x = ?i then x\<lparr>mt_requirementIds := mt_requirementIds x @ rs\<rparr> else x"
  let ?ms' = "map ?f ?ms" and ?ss' = "correlate ?ss rs ?i (cc_now ctx)"
  note ok = case_okD [OF c] and now = clock_okD [OF c t]
  have only: "x = m" if "x \<in> set ?ms" "mt_materialId x = ?i" for x
    using ok(3) m(1) that by (auto simp: materials_ok_def distinct_map inj_on_def)
  have ids: "map mt_materialId ?ms' = map mt_materialId ?ms" by simp
  have valid: "isValidProtocolizationCaseMaterial P x \<and> isNotBefore P (mt_addedAt x) (kc_createdAt c)" if "x \<in> set ?ms" for x
    using ok(3) that by (simp add: materials_ok_def)
  have "isValidProtocolizationCaseMaterial P (?f m) \<longleftrightarrow> (\<forall>r \<in> set rs. isValidAssetRequirementId r)"
    using valid [OF m(1)] m(2) rs
    by (auto simp: isValidProtocolizationCaseMaterial_def isValidRequirementIdList_iff requirements_ok_def)
  then have all: "isValidProtocolizationCaseMaterial P (?f x) \<longleftrightarrow> mt_materialId x \<noteq> ?i \<or> (\<forall>r \<in> set rs. isValidAssetRequirementId r)"
    if "x \<in> set ?ms" for x using that only [of x] valid [of x] by (cases "mt_materialId x = ?i") auto
  have materials: "materials_ok P (kc_createdAt c) ?ms' \<longleftrightarrow> (\<forall>r \<in> set rs. isValidAssetRequirementId r)"
  proof -
    have "(\<forall>y \<in> set ?ms'. isValidProtocolizationCaseMaterial P y \<and> isNotBefore P (mt_addedAt y) (kc_createdAt c)) \<longleftrightarrow>
        (\<forall>x \<in> set ?ms. isValidProtocolizationCaseMaterial P (?f x))" using valid by auto
    also have "\<dots> \<longleftrightarrow> (\<forall>r \<in> set rs. isValidAssetRequirementId r)" using all m(1) by blast
    finally show ?thesis using ok(3) ids by (simp only: materials_ok_def ids simp_thms)
  qed
  have fresh: "\<forall>s \<in> set ?ss. qs_requirementId s \<in> set rs \<longrightarrow> ?i \<notin> set (qs_materialIds s)"
  proof (intro ballI impI notI)
    fix s assume s: "s \<in> set ?ss" "qs_requirementId s \<in> set rs" "?i \<in> set (qs_materialIds s)"
    then show False using state_refers [OF ok(4) s(1,3)] only m(2) by blast
  qed
  have "states_ok P ?ms' ?ss'"
  proof (rule correlate_states_ok [OF ok(4) now(1) _ fresh])
    show "?i \<noteq> []" using valid [OF m(1)] material_id_nonempty by blast
    show "\<exists>x \<in> set ?ms'. mt_materialId x = j \<and> r \<in> set (mt_requirementIds x)"
      if "\<exists>x \<in> set ?ms. mt_materialId x = j \<and> r \<in> set (mt_requirementIds x)" for j r
    proof -
      from that obtain x where "x \<in> set ?ms" "mt_materialId x = j" "r \<in> set (mt_requirementIds x)" by blast
      then show ?thesis by (intro bexI [where x = "?f x"]) auto
    qed
    show "\<exists>x \<in> set ?ms'. mt_materialId x = ?i \<and> r \<in> set (mt_requirementIds x)" if "r \<in> set rs" for r
      using m(1) that by (intro bexI [where x = "?f m"]) auto
  qed
  moreover have "\<forall>x' \<in> set ?ms'. correlated ?ss' x'"
  proof
    fix x' assume "x' \<in> set ?ms'"
    then obtain x where x: "x \<in> set ?ms" "x' = ?f x" by auto
    have "correlated ?ss x" "set rs \<subseteq> set (map qs_requirementId ?ss)" using x(1) ok(5) rs by (simp_all add: requirements_ok_def)
    then show "correlated ?ss' x'"
      by (rule_tac m = x in correlate_correlated) (simp_all add: x(2) split: if_splits)
  qed
  ultimately show ?thesis using ok(1,2) now materials
    by (auto simp: case_ok_def with_association_def header_ok_def lifecycle_ok_def revisable_def)
qed

end
