(* ===== verification/CaseHistory.thy ===== *)
theory CaseHistory
  imports CaseOperations ProtocolConsent "HOL-Library.Sublist"
begin

text \<open>
  What the operations on a protocolization case do, exactly: when each succeeds and with which case; the life of a case under
  any sequence of them; and what the progress listings say of it.
\<close>

section \<open>The operations\<close>

text \<open>A tenant may change a case: the case is valid and its own, the clock has not moved backwards and the revision
  can be increased.\<close>

definition may_change :: "platform \<Rightarrow> case_context \<Rightarrow> protocolization_case \<Rightarrow> bool" where
  "may_change P ctx c \<longleftrightarrow> case_ok P c \<and> kc_tenantId c = cc_tenantId ctx \<and> clock_ok P ctx c \<and> revisable c"

lemma activates_iff:
  "activateProtocolizationCase P ctx c = Inr (c', e) \<longleftrightarrow> may_change P ctx c \<and> kc_state c = ''Draft'' \<and>
    c' = activated_case c (cc_now ctx) \<and> e = ProtocolizationCaseActivated (base_of c' (kc_correlationId c))"
proof -
  have "assertTransition c ''Active'' = None \<longleftrightarrow> kc_state c = ''Draft''"
    by (auto simp: assertTransition_def fail_if_None isAllowedProtocolizationCaseTransition_def allowed_case_transitions_def)
  then show ?thesis
    using activated_case_ok [of P c ctx]
    by (auto simp: activateProtocolizationCase_def after_Inr bind_result_Inr first_throw_None assertOperableCase_None
        readClock_case sealed_case_Inr may_change_def activated_case_def)
qed

lemma cancels_iff:
  "cancelProtocolizationCase P ctx c reason = Inr (c', e) \<longleftrightarrow> may_change P ctx c \<and> kc_state c \<noteq> ''Cancelled'' \<and>
    reason_ok reason \<and> c' = cancelled_case c reason (cc_now ctx) \<and>
    e = ProtocolizationCaseCancelled (base_of c' (kc_correlationId c)) reason"
proof -
  have "case_ok P c \<Longrightarrow> assertTransition c ''Cancelled'' = None \<longleftrightarrow> kc_state c \<noteq> ''Cancelled''"
    by (auto simp: assertTransition_def fail_if_None isAllowedProtocolizationCaseTransition_def allowed_case_transitions_def
        case_ok_def header_ok_def CASE_STATES_def)
  moreover have "(case reason of None \<Rightarrow> False | Some r \<Rightarrow> trim r = [] \<or> length r > MAX_CANCELLATION_REASON_LENGTH) \<longleftrightarrow> \<not> reason_ok reason"
    by (auto simp: reason_ok_def split: option.splits)
  ultimately show ?thesis
    unfolding cancelProtocolizationCase_def after_Inr bind_result_Inr first_throw_None assertOperableCase_None sealed_case_Inr
      may_change_def fail_if_None
    using cancelled_case_ok [of P c ctx reason] readClock_case [of P c ctx]
    by (cases "case_ok P c") (auto simp: sum.inject cancelled_case_def)
qed

lemma accepts_material: "case_ok P c \<Longrightarrow> assertAcceptsMaterial c = None \<longleftrightarrow> kc_state c \<noteq> ''Cancelled''"
  by (auto simp: assertAcceptsMaterial_def fail_if_None acceptsProtocolizationMaterial_def case_ok_def header_ok_def CASE_STATES_def)

definition pinned :: "case_context \<Rightarrow> profile_ref \<Rightarrow> asset_profile option" where
  "pinned ctx r = cc_catalog ctx (pf_profileId r) (pf_profileVersion r)"

lemma adds_iff:
  "addProtocolizationCaseMaterial P ctx c inp = Inr (c', e) \<longleftrightarrow> may_change P ctx c \<and> kc_state c \<noteq> ''Cancelled'' \<and>
    mn_materialId inp \<notin> mt_materialId ` set (kc_materials c) \<and>
    (\<exists>profile. pinned ctx (kc_profile c) = Some profile \<and> requirements_ok (mn_requirementIds inp) profile c) \<and>
    isValidProtocolizationCaseMaterial P (material_of inp (cc_now ctx)) \<and>
    c' = with_material c (material_of inp (cc_now ctx)) \<and>
    e = ProtocolizationMaterialAdded (base_of c' (mn_correlationId inp)) (mn_materialId inp) (material_kind (mn_payload inp)) (mn_requirementIds inp)"
proof -
  let ?m = "material_of inp (cc_now ctx)"
  have m: "mt_addedAt ?m = cc_now ctx" "mt_requirementIds ?m = mn_requirementIds inp" "mt_materialId ?m = mn_materialId inp"
    "mt_payload ?m = mn_payload inp" "mt_correlationId ?m = mn_correlationId inp"
    by (simp_all add: material_of_def)
  have dup: "list_ex (\<lambda>m. mt_materialId m = i) ms \<longleftrightarrow> i \<in> mt_materialId ` set ms" for i and ms :: "case_material list"
    by (auto simp: list_ex_iff)
  have seal: "case_ok P (with_material c ?m) \<longleftrightarrow> revisable c"
    if "case_ok P c" "clock_ok P ctx c" "isValidProtocolizationCaseMaterial P ?m"
      "mn_materialId inp \<notin> mt_materialId ` set (kc_materials c)" "requirements_ok (mn_requirementIds inp) p c" for p
    using with_material_ok [of P c ctx ?m p] that m by simp
  show ?thesis
    unfolding addProtocolizationCaseMaterial_def Let_def after_Inr bind_result_Inr first_throw_None assertOperableCase_None
      assertKnownRequirements_None resolvePinnedProfile_Inr fail_if_None sealed_case_Inr may_change_def pinned_def dup
    using seal accepts_material [of P c] readClock_case [of P c ctx] m
    by (cases "case_ok P c") (auto simp: sum.inject)
qed

lemma find_material: "find (\<lambda>m. mt_materialId m = i) ms = Some m \<Longrightarrow> m \<in> set ms \<and> mt_materialId m = i"
  by (induction ms) (auto split: if_splits)

lemma associates_iff:
  "associateProtocolizationCaseMaterial P ctx c i rs = Inr (c', e) \<longleftrightarrow> may_change P ctx c \<and> kc_state c \<noteq> ''Cancelled'' \<and>
    (\<exists>profile. pinned ctx (kc_profile c) = Some profile \<and> requirements_ok rs profile c) \<and> (\<forall>r \<in> set rs. isValidAssetRequirementId r) \<and>
    (\<exists>m. find (\<lambda>m. mt_materialId m = i) (kc_materials c) = Some m \<and> set rs \<inter> set (mt_requirementIds m) = {} \<and>
      e = ProtocolizationMaterialAssociated (base_of c' (mt_correlationId m)) i rs) \<and>
    c' = with_association c i rs (cc_now ctx)"
proof (cases "find (\<lambda>m. mt_materialId m = i) (kc_materials c)")
  case None
  then show ?thesis by (auto simp: associateProtocolizationCaseMaterial_def after_Inr bind_result_Inr)
next
  case (Some m)
  have new: "filter (\<lambda>r. r \<in> set (mt_requirementIds m)) rs = [] \<longleftrightarrow> set rs \<inter> set (mt_requirementIds m) = {}"
    by (auto simp: filter_empty_conv)
  have seal: "case_ok P (with_association c i rs (cc_now ctx)) \<longleftrightarrow> revisable c \<and> (\<forall>r \<in> set rs. isValidAssetRequirementId r)"
    if "case_ok P c" "clock_ok P ctx c" "set rs \<inter> set (mt_requirementIds m) = {}" "requirements_ok rs p c" for p
    using with_association_ok [of P c ctx m rs p] that find_material [OF Some] by simp
  show ?thesis
    unfolding associateProtocolizationCaseMaterial_def Some option.case Let_def after_Inr bind_result_Inr first_throw_None
      assertOperableCase_None assertKnownRequirements_None resolvePinnedProfile_Inr fail_if_None sealed_case_Inr may_change_def pinned_def
    using seal accepts_material [of P c] readClock_case [of P c ctx] new
    by (cases "case_ok P c") (auto simp: sum.inject)
qed

section \<open>Creation\<close>

definition creation_ok :: "create_case_input \<Rightarrow> bool" where
  "creation_ok inp \<longleftrightarrow> isValidProtocolizationCaseId (in_caseId inp) \<and> isValidProtocolizationProfileRef (in_profile inp) \<and>
     isValidProtocolizationCaseSubject (in_subject inp) \<and> correlation_id_ok (in_correlationId inp)"

lemma create_reasons_Nil: "create_reasons inp = [] \<longleftrightarrow> creation_ok inp"
  by (auto simp: create_reasons_def creation_ok_def correlation_id_ok_def split: option.splits)

lemma initial_case_ok:
  assumes "creation_ok inp" and "isValidProtocolizationTenantId tenantId" and "isValidUtcDateTime P t"
  shows "case_ok P (initial_case tenantId inp profile t) \<longleftrightarrow>
    distinct (map rq_id (ap_requirements profile)) \<and> (\<forall>r \<in> set (ap_requirements profile). rq_id r \<noteq> [])"
  using assms isNotBefore_refl [OF assms(3)]
  by (auto simp: case_ok_def header_ok_def lifecycle_ok_def creation_ok_def initial_case_def materials_ok_def states_ok_def
      state_ok_def isValidRequirementStateShape_def moment_ok_def reason_ok_def CASE_STATES_def MAX_SAFE_INTEGER_def comp_def)

lemma creates_iff:
  "createProtocolizationCase P ctx inp = Inr (c, e) \<longleftrightarrow> isValidProtocolizationTenantId (cc_tenantId ctx) \<and> creation_ok inp \<and>
    isValidUtcDateTime P (cc_now ctx) \<and>
    (\<exists>profile. pinned ctx (in_profile inp) = Some profile \<and> distinct (map rq_id (ap_requirements profile)) \<and>
      (\<forall>r \<in> set (ap_requirements profile). rq_id r \<noteq> []) \<and> c = initial_case (cc_tenantId ctx) inp profile (cc_now ctx)) \<and>
    e = ProtocolizationCaseCreated (base_of c (in_correlationId inp)) (cs_subjectRef (in_subject inp)) (map qs_requirementId (kc_requirementStates c))"
  unfolding createProtocolizationCase_def assertActingTenant_def after_Inr bind_result_Inr first_throw_None fail_if_None
    resolvePinnedProfile_Inr sealed_case_Inr pinned_def create_reasons_Nil
  using initial_case_ok [of inp "cc_tenantId ctx" P "cc_now ctx"]
  by (auto simp: readClock_def after_Inr first_throw_None fail_if_None)

lemma case_ok_created: "createProtocolizationCase P ctx inp = Inr (c, e) \<Longrightarrow> case_ok P c"
  using initial_case_ok [of inp "cc_tenantId ctx" P "cc_now ctx"] unfolding creates_iff by blast

section \<open>The history of a case\<close>

text \<open>A material stays what it was and only names further requirements.\<close>

definition material_grows :: "case_material \<Rightarrow> case_material \<Rightarrow> bool" where
  "material_grows m m' \<longleftrightarrow> mt_materialId m' = mt_materialId m \<and> mt_payload m' = mt_payload m \<and> mt_addedAt m' = mt_addedAt m \<and>
     mt_correlationId m' = mt_correlationId m \<and> prefix (mt_requirementIds m) (mt_requirementIds m')"

definition materials_grow :: "case_material list \<Rightarrow> case_material list \<Rightarrow> bool" where
  "materials_grow ms ms' \<longleftrightarrow> length ms \<le> length ms' \<and> list_all2 material_grows ms (take (length ms) ms')"

text \<open>What a case keeps through its life.\<close>

definition same_case :: "protocolization_case \<Rightarrow> protocolization_case \<Rightarrow> bool" where
  "same_case c c' \<longleftrightarrow> kc_caseId c' = kc_caseId c \<and> kc_tenantId c' = kc_tenantId c \<and> kc_profile c' = kc_profile c \<and>
     kc_subject c' = kc_subject c \<and> kc_createdAt c' = kc_createdAt c \<and> kc_correlationId c' = kc_correlationId c \<and>
     map qs_requirementId (kc_requirementStates c') = map qs_requirementId (kc_requirementStates c)"

definition case_advances :: "platform \<Rightarrow> protocolization_case \<Rightarrow> protocolization_case \<Rightarrow> bool" where
  "case_advances P c c' \<longleftrightarrow> same_case c c' \<and> materials_grow (kc_materials c) (kc_materials c') \<and>
     isNotBefore P (kc_updatedAt c') (kc_updatedAt c) \<and>
     (kc_state c', kc_state c) \<in> {(''Draft'', ''Draft''), (''Active'', ''Draft''), (''Cancelled'', ''Draft''), (''Active'', ''Active''),
       (''Cancelled'', ''Active'')}"

lemma material_grows_refl [simp]: "material_grows m m"
  by (simp add: material_grows_def)

lemma materials_grow_refl [simp]: "materials_grow ms ms"
  by (simp add: materials_grow_def list.rel_refl)

lemma materials_grow_trans:
  assumes "materials_grow a b" and "materials_grow b c"
  shows "materials_grow a c"
proof -
  have "list_all2 material_grows (take (length a) b) (take (length a) (take (length b) c))"
    using assms(2) unfolding materials_grow_def by (blast intro: list_all2_takeI)
  moreover have "take (length a) (take (length b) c) = take (length a) c" using assms(1) by (simp add: materials_grow_def min_def)
  ultimately have "list_all2 material_grows (take (length a) b) (take (length a) c)" by simp
  moreover have "list_all2 material_grows a (take (length a) b)" using assms(1) by (simp add: materials_grow_def)
  moreover have "material_grows x y \<Longrightarrow> material_grows y z \<Longrightarrow> material_grows x z" for x y z
    unfolding material_grows_def by (metis prefix_order.trans)
  ultimately have "list_all2 material_grows a (take (length a) c)"
    using list_all2_trans [of material_grows material_grows material_grows] by blast
  then show ?thesis using assms by (simp add: materials_grow_def)
qed

lemma material_appended: "materials_grow ms (ms @ [m])"
  by (simp add: materials_grow_def list.rel_refl)

lemma material_associated:
  "materials_grow ms (map (\<lambda>m. if mt_materialId m = i then m\<lparr>mt_requirementIds := mt_requirementIds m @ rs\<rparr> else m) ms)"
  by (auto simp: materials_grow_def list_all2_conv_all_nth material_grows_def)

lemma may_changeD: "may_change P ctx c \<Longrightarrow> case_ok P c \<and> isNotBefore P (cc_now ctx) (kc_updatedAt c)"
  by (simp add: may_change_def clock_ok_def)

lemma case_state_cases: "case_ok P c \<Longrightarrow> kc_state c \<noteq> ''Cancelled'' \<Longrightarrow> kc_state c = ''Draft'' \<or> kc_state c = ''Active''"
  by (auto simp: case_ok_def header_ok_def CASE_STATES_def)

lemmas operations_iff = activates_iff cancels_iff adds_iff associates_iff

text \<open>Every operation leaves a valid case of the next revision, that continues the one it was given.\<close>

lemma case_step_ok:
  assumes "case_step P c c'"
  shows "case_ok P c' \<and> kc_revision c' = kc_revision c + 1 \<and> case_advances P c c' \<and> kc_state c \<noteq> ''Cancelled''"
  using assms
proof cases
  case (activates ctx e)
  then have go: "may_change P ctx c" "kc_state c = ''Draft''" "c' = activated_case c (cc_now ctx)" by (simp_all add: activates_iff)
  then show ?thesis using activated_case_ok [of P c ctx] may_changeD [OF go(1)]
    by (simp add: may_change_def case_advances_def same_case_def activated_case_def)
next
  case (adds ctx inp e)
  then obtain profile where go: "may_change P ctx c" "kc_state c \<noteq> ''Cancelled''" "c' = with_material c (material_of inp (cc_now ctx))"
      "mn_materialId inp \<notin> mt_materialId ` set (kc_materials c)" "requirements_ok (mn_requirementIds inp) profile c"
      "isValidProtocolizationCaseMaterial P (material_of inp (cc_now ctx))" unfolding adds_iff by blast
  then have "case_ok P c'" using with_material_ok [of P c ctx "material_of inp (cc_now ctx)" profile]
    by (simp add: may_change_def material_of_def)
  then show ?thesis using go(2,3) may_changeD [OF go(1)] case_state_cases [of P c]
    by (auto simp: case_advances_def same_case_def with_material_def material_of_def material_appended)
next
  case (associates ctx i rs e)
  then obtain profile m where go: "may_change P ctx c" "kc_state c \<noteq> ''Cancelled''" "c' = with_association c i rs (cc_now ctx)"
      "requirements_ok rs profile c" "find (\<lambda>m. mt_materialId m = i) (kc_materials c) = Some m"
      "set rs \<inter> set (mt_requirementIds m) = {}" "\<forall>r \<in> set rs. isValidAssetRequirementId r" unfolding associates_iff by blast
  then have "case_ok P c'" using with_association_ok [of P c ctx m rs profile] find_material [OF go(5)]
    by (simp add: may_change_def)
  then show ?thesis using go(2,3) may_changeD [OF go(1)] case_state_cases [of P c]
    by (auto simp: case_advances_def same_case_def with_association_def material_associated)
next
  case (cancels ctx reason e)
  then have go: "may_change P ctx c" "kc_state c \<noteq> ''Cancelled''" "reason_ok reason" "c' = cancelled_case c reason (cc_now ctx)"
    by (simp_all add: cancels_iff)
  then show ?thesis using cancelled_case_ok [of P c ctx reason] may_changeD [OF go(1)] case_state_cases [of P c]
    by (auto simp: may_change_def case_advances_def same_case_def cancelled_case_def)
qed

lemma case_advances_trans:
  assumes "case_advances P a b" and "case_advances P b c"
  shows "case_advances P a c"
proof -
  have "materials_grow (kc_materials a) (kc_materials c)" using assms materials_grow_trans unfolding case_advances_def by blast
  moreover have "isNotBefore P (kc_updatedAt c) (kc_updatedAt a)" using assms isNotBefore_trans unfolding case_advances_def by blast
  ultimately show ?thesis using assms by (auto simp: case_advances_def same_case_def)
qed

lemma case_runs:
  assumes "(case_step P ^^ Suc n) c c'"
  shows "case_ok P c' \<and> kc_revision c' = kc_revision c + int (Suc n) \<and> case_advances P c c' \<and> kc_state c \<noteq> ''Cancelled''"
  using assms
proof (induction n arbitrary: c')
  case 0
  then show ?case using case_step_ok [of P c c'] by (simp add: eq_OO)
next
  case (Suc n)
  then obtain b where b: "(case_step P ^^ Suc n) c b" "case_step P b c'" by (auto elim: relpowp_Suc_E)
  then show ?case using Suc.IH [OF b(1)] case_step_ok [OF b(2)] case_advances_trans [of P c b c'] by auto
qed

text \<open>C21: A case that was created and then changed by any calls of the operations, by whatever tenants and with whatever clocks,
  is valid; its revision counts the calls that succeeded; its identifier, tenant, profile and subject are those of its creation, its
  requirements those of the profile; and every call was the work of its tenant.\<close>

theorem reachable_case:
  assumes "createProtocolizationCase P ctx inp = Inr (c, e)" and "(case_step P ^^ n) c c'"
  shows "isValidProtocolizationCase P c' None \<and> kc_revision c' = 1 + int n \<and> kc_caseId c' = in_caseId inp \<and>
    kc_tenantId c' = cc_tenantId ctx \<and> kc_profile c' = in_profile inp \<and> kc_subject c' = in_subject inp \<and>
    kc_createdAt c' = cc_now ctx \<and> materials_grow (kc_materials c) (kc_materials c') \<and>
    (\<exists>profile. pinned ctx (in_profile inp) = Some profile \<and>
      map qs_requirementId (kc_requirementStates c') = map rq_id (ap_requirements profile))"
proof -
  obtain profile where created: "pinned ctx (in_profile inp) = Some profile" "c = initial_case (cc_tenantId ctx) inp profile (cc_now ctx)"
    "case_ok P c" using assms(1) case_ok_created [OF assms(1)] unfolding creates_iff by blast
  then have start: "kc_revision c = 1" "kc_caseId c = in_caseId inp" "kc_tenantId c = cc_tenantId ctx" "kc_profile c = in_profile inp"
      "kc_subject c = in_subject inp" "kc_createdAt c = cc_now ctx" "map qs_requirementId (kc_requirementStates c) = map rq_id (ap_requirements profile)"
    by (simp_all add: initial_case_def comp_def)
  show ?thesis
  proof (cases n)
    case 0
    then show ?thesis using assms(2) start created by (simp add: valid_case)
  next
    case (Suc k)
    then show ?thesis using case_runs [of k P c c'] assms(2) start created(1) by (auto simp: valid_case case_advances_def same_case_def)
  qed
qed

text \<open>Cancellation is final: no operation succeeds on a cancelled case.  A case also never changes under the hands of
  another tenant.\<close>

theorem cancelled_case_is_final:
  assumes "kc_state c = ''Cancelled'' \<or> kc_tenantId c \<noteq> cc_tenantId ctx"
  shows "(\<nexists>t. activateProtocolizationCase P ctx c = Inr t) \<and> (\<nexists>t. addProtocolizationCaseMaterial P ctx c inp = Inr t) \<and>
    (\<nexists>t. associateProtocolizationCaseMaterial P ctx c i rs = Inr t) \<and> (\<nexists>t. cancelProtocolizationCase P ctx c reason = Inr t)"
  using assms by (auto simp: operations_iff may_change_def)

section \<open>A case\<close>

text \<open>The moments the clock prints to the second are the ones the validator accepts.\<close>

lemma utc_pattern_string: "rx_test UTC_DATE_TIME_PATTERN (iso_string f)"
proof (cases f)
  case (fields y mo d h mi s)
  have "''Z'' \<in> lang (Cat (Opt r) (Lit ''Z''))" for r
    unfolding mem_Cat Opt_def mem_Alt mem_Eps mem_Lit by (auto intro: exI [of _ "[]"])
  then show ?thesis using fields
    unfolding rx_test_lang UTC_DATE_TIME_PATTERN_def Let_def mem_Cat [of _ "Times n r" for n r] mem_Cat_Lit mem_Lit mem_Times_Cls
    by (auto intro!: exI conjI pad_digits simp del: pad.simps)
qed

lemma printed_moment:
  assumes "four_digit_year t" and "iso_seconds (Some t) = Inr s"
  shows "isValidUtcDateTime P s" and "date_of P s = Some (t div 1000 * 1000)"
proof -
  let ?u = "t div 1000 * 1000" and ?s = "iso_string (stamp_of t)"
  have s: "s = ?s" using assms by (simp add: iso_seconds_stamp)
  then have "iso_parse ?s = Some ?u" using iso_seconds_parse [OF assms(1)] assms(2) by auto
  then have date: "date_of P ?s = Some ?u" by (simp add: date_of_def date_parse_def)
  then show "date_of P s = Some ?u" using s by simp
  have u: "four_digit_year ?u" "stamp_of ?u = stamp_of t" using assms(1) by (simp_all add: four_digit_year_def stamp_of_def)
  have "length (take 19 ?s) = 19" by (simp add: length_iso_string)
  then have "(case to_iso_string (Some ?u) of Inr x \<Rightarrow> take 19 x = take 19 ?s | Inl e \<Rightarrow> False)"
    using to_iso_string_four_digit [OF u(1)] u(2) by simp
  then show "isValidUtcDateTime P s"
    unfolding s isValidUtcDateTime_def date option.case using utc_pattern_string by blast
qed

definition sample_requirement :: "string \<Rightarrow> string \<Rightarrow> requirement_terms \<Rightarrow> asset_requirement" where
  "sample_requirement i obligation terms = \<lparr>rq_id = i, rq_obligation = obligation, rq_condition = None, rq_jurisdictions = None,
     rq_metadata = None, rq_terms = terms\<rparr>"

definition sample_case_profile :: asset_profile where
  "sample_case_profile = \<lparr>ap_schemaVersion = ASSET_PROFILE_SCHEMA_VERSION, ap_profileId = ''real-estate'', ap_version = ''1.0.0'',
     ap_assetCategory = ''real-estate'', ap_scope = ''Global'', ap_jurisdictions = None,
     ap_requirements = [sample_requirement ''legal.title'' ''Required'' (EvidenceTerms [''Document''] None None None None None),
       sample_requirement ''valuation'' ''Optional'' (DeclarationTerms ''Authorship'' None None)], ap_metadata = None\<rparr>"

definition sample_case_context :: "string \<Rightarrow> case_context" where
  "sample_case_context t = \<lparr>cc_catalog = (\<lambda>i v. if i = ''real-estate'' \<and> v = ''1.0.0'' then Some sample_case_profile else None),
     cc_now = t, cc_tenantId = ''tenant-a''\<rparr>"

definition sample_case_input :: create_case_input where
  "sample_case_input = \<lparr>in_caseId = ''case-1'', in_profile = \<lparr>pf_profileId = ''real-estate'', pf_profileVersion = ''1.0.0''\<rparr>,
     in_subject = \<lparr>cs_subjectRef = \<lparr>sr_sovereignAssetId = ''aoc:sovereign-asset:00000000-0000-4000-8000-000000000000'',
       sr_externalReference = None\<rparr>, cs_contentIdentity = None\<rparr>, in_correlationId = None\<rparr>"

definition sample_material :: material_input where
  "sample_material = \<lparr>mn_materialId = ''deed'', mn_payload = EvidencePayload ''evidence-1'', mn_requirementIds = [''legal.title''],
     mn_correlationId = None\<rparr>"

definition sample_opened :: protocolization_case where
  "sample_opened = initial_case ''tenant-a'' sample_case_input sample_case_profile ''2025-01-15T14:30:00Z''"

definition sample_active :: protocolization_case where
  "sample_active = activated_case sample_opened ''2025-01-15T14:30:00Z''"

definition sample_documented :: protocolization_case where
  "sample_documented = with_material sample_active (material_of sample_material ''2025-06-15T14:30:00Z'')"

lemma sample_case_moments:
  "isValidUtcDateTime P ''2025-01-15T14:30:00Z''" "isValidUtcDateTime P ''2025-06-15T14:30:00Z''"
  "date_of P ''2025-01-15T14:30:00Z'' = Some 1736951400000" "date_of P ''2025-06-15T14:30:00Z'' = Some 1749997800000"
  using printed_moment [OF sample_moments(1) sample_date] printed_moment [OF sample_moments(2,3)] by simp_all

lemma sample_case_identifiers:
  "isValidAssetRequirementId ''legal.title''" "isValidAssetRequirementId ''valuation''" "isValidProtocolizationCaseId ''case-1''"
  "isValidProtocolizationProfileRef \<lparr>pf_profileId = ''real-estate'', pf_profileVersion = ''1.0.0''\<rparr>"
  "isValidSovereignAssetId ''aoc:sovereign-asset:00000000-0000-4000-8000-000000000000''"
  "isValidProtocolizationTenantId ''tenant-a''" "isProtocolizationInstanceIdentifier ''deed''"
  by code_simp+

lemma sample_created:
  "createProtocolizationCase P (sample_case_context ''2025-01-15T14:30:00Z'') sample_case_input =
    Inr (sample_opened, ProtocolizationCaseCreated (base_of sample_opened None) (cs_subjectRef (in_subject sample_case_input)) [''legal.title'', ''valuation''])"
  using sample_case_identifiers sample_case_moments
  by (simp add: creates_iff sample_case_context_def sample_case_input_def sample_case_profile_def sample_requirement_def pinned_def creation_ok_def
      isValidProtocolizationCaseSubject_def isValidSovereignSubjectRef_def correlation_id_ok_def sample_opened_def initial_case_def)

lemma sample_case_ok: "case_ok P sample_opened" "case_ok P sample_active"
proof -
  let ?ctx = "sample_case_context ''2025-01-15T14:30:00Z''"
  show ok: "case_ok P sample_opened" using sample_created [of P] case_ok_created by blast
  have "clock_ok P ?ctx sample_opened" using sample_case_moments [of P]
    by (simp add: clock_ok_def sample_opened_def initial_case_def sample_case_context_def isNotBefore_def)
  then show "case_ok P sample_active" using activated_case_ok [OF ok, of ?ctx]
    by (simp add: sample_active_def sample_case_context_def revisable_def sample_opened_def initial_case_def MAX_SAFE_INTEGER_def)
qed

lemma sample_activates:
  "activateProtocolizationCase P (sample_case_context ''2025-01-15T14:30:00Z'') sample_opened =
    Inr (sample_active, ProtocolizationCaseActivated (base_of sample_active None))"
  using sample_case_moments [of P] sample_case_ok [of P]
  by (simp add: activates_iff may_change_def clock_ok_def sample_active_def sample_case_context_def isNotBefore_def revisable_def
      MAX_SAFE_INTEGER_def sample_opened_def initial_case_def sample_case_input_def)

lemma sample_may_change:
  "may_change P (sample_case_context ''2025-06-15T14:30:00Z'') sample_active"
  using sample_case_moments [of P] sample_case_ok [of P]
  by (simp add: may_change_def clock_ok_def sample_active_def activated_case_def sample_case_context_def isNotBefore_def revisable_def
      MAX_SAFE_INTEGER_def sample_opened_def initial_case_def)

lemma sample_material_ok:
  "isValidProtocolizationCaseMaterial P (material_of sample_material ''2025-06-15T14:30:00Z'')"
  using sample_case_moments [of P] sample_case_identifiers
  by (simp add: isValidProtocolizationCaseMaterial_def material_of_def sample_material_def isValidProtocolizationMaterialId_def
      isValidRequirementIdList_iff isCanonicalRecordId_def trim_def js_space_def ASSET_IDENTIFIER_MAX_LENGTH_def)

lemma sample_adding:
  "pinned (sample_case_context t) (kc_profile sample_active) = Some sample_case_profile"
  "requirements_ok (mn_requirementIds sample_material) sample_case_profile sample_active"
  "kc_materials sample_active = []" "kc_state sample_active = ''Active''" "cc_now (sample_case_context t) = t"
  by (simp_all add: pinned_def requirements_ok_def sample_case_context_def sample_case_profile_def sample_requirement_def sample_active_def
      activated_case_def sample_opened_def initial_case_def sample_case_input_def sample_material_def)

lemma sample_adds:
  "addProtocolizationCaseMaterial P (sample_case_context ''2025-06-15T14:30:00Z'') sample_active sample_material =
    Inr (sample_documented, ProtocolizationMaterialAdded (base_of sample_documented None) ''deed'' ''Evidence'' [''legal.title''])"
proof -
  have "mn_requirementIds sample_material = [''legal.title'']" "mn_materialId sample_material = ''deed''"
      "material_kind (mn_payload sample_material) = ''Evidence''" "mn_correlationId sample_material = None"
    by (simp_all add: sample_material_def)
  then show ?thesis
    using sample_may_change [of P] sample_material_ok [of P] sample_adding by (simp add: adds_iff sample_documented_def)
qed

theorem reachable_case_witness:
  "isValidProtocolizationCase zero_platform sample_documented None \<and> kc_revision sample_documented = 3 \<and>
   kc_tenantId sample_documented = ''tenant-a''"
proof -
  have "(case_step zero_platform ^^ 2) sample_opened sample_documented"
    using activates [OF sample_activates] adds [OF sample_adds] by (auto simp: numeral_2_eq_2 eq_OO intro: relcomppI)
  from reachable_case [OF sample_created this] show ?thesis by (simp add: sample_case_context_def)
qed

theorem cancelled_case_is_final_witness:
  "\<nexists>t. cancelProtocolizationCase zero_platform (sample_case_context ''2025-06-15T14:30:00Z'')
     (cancelled_case sample_active None ''2025-06-15T14:30:00Z'') None = Inr t"
  using cancelled_case_is_final [of "cancelled_case sample_active None ''2025-06-15T14:30:00Z''"] by (simp add: cancelled_case_def)

section \<open>Properties of the operations\<close>

text \<open>C22: Exactly when a call adds or associates a material, and what it then leaves: the validator that runs on the result
  never refuses what the guards let through, but for the greatest revision, and for identifiers of requirements that the
  catalogue holds although they are not well formed.\<close>

theorem material_operations_iff:
  "((\<exists>e. addProtocolizationCaseMaterial P ctx c inp = Inr (c', e)) \<longleftrightarrow> may_change P ctx c \<and> kc_state c \<noteq> ''Cancelled'' \<and>
     mn_materialId inp \<notin> mt_materialId ` set (kc_materials c) \<and>
     (\<exists>profile. pinned ctx (kc_profile c) = Some profile \<and> requirements_ok (mn_requirementIds inp) profile c) \<and>
     isValidProtocolizationCaseMaterial P (material_of inp (cc_now ctx)) \<and>
     c' = with_material c (material_of inp (cc_now ctx))) \<and>
   ((\<exists>e. associateProtocolizationCaseMaterial P ctx c i rs = Inr (c', e)) \<longleftrightarrow> may_change P ctx c \<and> kc_state c \<noteq> ''Cancelled'' \<and>
     (\<exists>profile. pinned ctx (kc_profile c) = Some profile \<and> requirements_ok rs profile c) \<and> list_all isValidAssetRequirementId rs \<and>
     (\<exists>m. find (\<lambda>m. mt_materialId m = i) (kc_materials c) = Some m \<and> set rs \<inter> set (mt_requirementIds m) = {}) \<and>
     c' = with_association c i rs (cc_now ctx))"
  unfolding adds_iff associates_iff list_all_iff by blast

text \<open>Exactly when a call activates or cancels a case, and what it then leaves.\<close>

theorem lifecycle_operations_iff:
  "((\<exists>e. activateProtocolizationCase P ctx c = Inr (c', e)) \<longleftrightarrow>
     may_change P ctx c \<and> kc_state c = ''Draft'' \<and> c' = activated_case c (cc_now ctx)) \<and>
   ((\<exists>e. cancelProtocolizationCase P ctx c reason = Inr (c', e)) \<longleftrightarrow>
     may_change P ctx c \<and> kc_state c \<noteq> ''Cancelled'' \<and> reason_ok reason \<and> c' = cancelled_case c reason (cc_now ctx))"
  unfolding activates_iff cancels_iff by blast

section \<open>Progress\<close>

lemma states_by_requirement_Some:
  assumes "states_ok P ms (kc_requirementStates c)"
  shows "states_by_requirement c r = Some s \<longleftrightarrow> s \<in> set (kc_requirementStates c) \<and> qs_requirementId s = r"
  using assms by (auto simp: states_by_requirement_def states_ok_def map_of_eq_Some_iff rev_map [symmetric] comp_def)

text \<open>A requirement is pending when no material of the case names it.\<close>

lemma pending_iff:
  assumes "case_ok P c" and "s \<in> set (kc_requirementStates c)"
  shows "qs_materialStatus s = ''Pending'' \<longleftrightarrow> (\<forall>m \<in> set (kc_materials c). qs_requirementId s \<notin> set (mt_requirementIds m))"
proof -
  let ?ss = "kc_requirementStates c" and ?ms = "kc_materials c"
  note ok = case_okD [OF assms(1)]
  have same: "s' = s" if "s' \<in> set ?ss" "qs_requirementId s' = qs_requirementId s" for s'
    using that assms(2) ok(4) by (auto simp: states_ok_def distinct_map inj_on_def)
  have "state_ok P ?ms s" using ok(4) assms(2) by (simp add: states_ok_def)
  then have "qs_materialStatus s = ''Pending'' \<longleftrightarrow> qs_materialIds s = []" by (simp add: state_ok_def)
  also have "\<dots> \<longleftrightarrow> (\<forall>m \<in> set ?ms. qs_requirementId s \<notin> set (mt_requirementIds m))"
  proof
    assume none: "qs_materialIds s = []"
    show "\<forall>m \<in> set ?ms. qs_requirementId s \<notin> set (mt_requirementIds m)"
    proof (intro ballI notI)
      fix m assume "m \<in> set ?ms" "qs_requirementId s \<in> set (mt_requirementIds m)"
      then obtain s' where "s' \<in> set ?ss" "qs_requirementId s' = qs_requirementId s" "mt_materialId m \<in> set (qs_materialIds s')"
        using ok(5) unfolding correlated_def by metis
      then show False using same none by (metis empty_iff empty_set)
    qed
  next
    assume none: "\<forall>m \<in> set ?ms. qs_requirementId s \<notin> set (mt_requirementIds m)"
    show "qs_materialIds s = []"
    proof (cases "qs_materialIds s")
      case (Cons i others)
      then have "i \<in> set (qs_materialIds s)" by simp
      then show ?thesis using state_refers [OF ok(4) assms(2)] none by metis
    qed simp
  qed
  finally show ?thesis .
qed

text \<open>For a valid case and the profile it is pinned to, the pending requirements are the required and the conditional ones that no
  material of the case names, in the order of the profile.\<close>

theorem pending_requirements:
  assumes "case_ok P c" and "kc_profile c = ref_of profile"
    and "map qs_requirementId (kc_requirementStates c) = map rq_id (ap_requirements profile)"
  shows "\<exists>ps. listProtocolizationCasePendingMaterialRequirements c profile = Inr ps \<and>
    map pg_requirementId ps = map rq_id (filter (\<lambda>r. rq_obligation r \<in> {''Required'', ''Conditional''} \<and>
      (\<forall>m \<in> set (kc_materials c). rq_id r \<notin> set (mt_requirementIds m))) (ap_requirements profile))"
proof -
  note ok = case_okD [OF assms(1)]
  let ?reqs = "ap_requirements profile" and ?state = "\<lambda>r. the (states_by_requirement c (rq_id r))"
  have known: "states_by_requirement c (rq_id r) = Some (?state r) \<and> ?state r \<in> set (kc_requirementStates c) \<and> qs_requirementId (?state r) = rq_id r"
    if "r \<in> set ?reqs" for r
  proof -
    have "rq_id r \<in> set (map qs_requirementId (kc_requirementStates c))" using that assms(3) by simp
    then obtain s where "s \<in> set (kc_requirementStates c)" "qs_requirementId s = rq_id r" by auto
    then show ?thesis using states_by_requirement_Some [OF ok(4), of "rq_id r" s] by simp
  qed
  have list: "concat (map (\<lambda>r. case states_by_requirement c (rq_id r) of None \<Rightarrow> [] | Some s \<Rightarrow> [progress_of r s]) rs) =
      map (\<lambda>r. progress_of r (?state r)) rs" if "\<forall>r \<in> set rs. states_by_requirement c (rq_id r) \<noteq> None" for rs
    using that by (induction rs) auto
  have found: "\<forall>r \<in> set ?reqs. states_by_requirement c (rq_id r) \<noteq> None" using known by (metis option.discI)
  have pending: "qs_materialStatus (?state r) = ''Pending'' \<longleftrightarrow> (\<forall>m \<in> set (kc_materials c). rq_id r \<notin> set (mt_requirementIds m))"
    if "r \<in> set ?reqs" for r using known [OF that] pending_iff [OF assms(1), of "?state r"] by simp
  have "listProtocolizationCaseRequirementProgress c profile no_filter = Inr (map (\<lambda>r. progress_of r (?state r)) ?reqs)"
    using assms(2) list [OF found]
    by (simp add: listProtocolizationCaseRequirementProgress_def assertPinnedProfile_def protocolizationProfileRefsEqual_def fail_if_def no_filter_def)
  then have "listProtocolizationCasePendingMaterialRequirements c profile = Inr (filter (\<lambda>p. pg_materialStatus p = ''Pending'' \<and>
      (pg_obligation p = ''Required'' \<or> pg_obligation p = ''Conditional'')) (map (\<lambda>r. progress_of r (?state r)) ?reqs))"
    by (simp add: listProtocolizationCasePendingMaterialRequirements_def)
  moreover have "map pg_requirementId (filter (\<lambda>p. pg_materialStatus p = ''Pending'' \<and>
      (pg_obligation p = ''Required'' \<or> pg_obligation p = ''Conditional'')) (map (\<lambda>r. progress_of r (?state r)) rs)) =
    map rq_id (filter (\<lambda>r. rq_obligation r \<in> {''Required'', ''Conditional''} \<and>
      (\<forall>m \<in> set (kc_materials c). rq_id r \<notin> set (mt_requirementIds m))) rs)" if "set rs \<subseteq> set ?reqs" for rs
    using that pending by (induction rs) (auto simp: progress_of_def)
  ultimately show ?thesis by blast
qed

theorem pending_requirements_witness:
  "\<exists>ps. listProtocolizationCasePendingMaterialRequirements sample_active sample_case_profile = Inr ps \<and>
    map pg_requirementId ps = [''legal.title'']"
  using pending_requirements [OF sample_case_ok(2) [of zero_platform], of sample_case_profile]
  by (simp add: sample_active_def activated_case_def sample_opened_def initial_case_def sample_case_input_def ref_of_def sample_case_profile_def sample_requirement_def)

theorem material_operations_iff_witness:
  "\<exists>e. addProtocolizationCaseMaterial zero_platform (sample_case_context ''2025-06-15T14:30:00Z'') sample_active sample_material =
    Inr (sample_documented, e)"
  using sample_may_change [of zero_platform] sample_material_ok [of zero_platform] sample_adding
    material_operations_iff [of zero_platform "sample_case_context ''2025-06-15T14:30:00Z''" sample_active sample_material sample_documented]
  by (fastforce simp: sample_documented_def)

end
