(* ===== verification/CaseRepository.thy ===== *)
theory CaseRepository
  imports CaseHistory
begin

text \<open>
  \<open>case-repository.ts\<close>: the store of protocolization cases, addressed by tenant and case, in its in-memory implementation,
  and how it meets the operations: every case an operation makes can be stored, and of two changes of the same case only one is.
\<close>

section \<open>Definitions\<close>

type_synonym case_store = "(string \<times> protocolization_case) list"

definition line_feed :: char where
  "line_feed = CHR 0x0A"

definition storageKey :: "string \<Rightarrow> string \<Rightarrow> string" where
  "storageKey tenantId caseId = tenantId @ line_feed # caseId"

definition assertTenant :: "string \<Rightarrow> case_error option" where
  "assertTenant tenantId = fail_if (\<not> isValidProtocolizationTenantId tenantId) ''PROTOCOLIZATION_CASE_INVALID_TENANT''
     ''A non-blank tenantId is required to address a ProtocolizationCase'' [''PROTOCOLIZATION_CASE_INVALID_TENANT'']"

definition get_case :: "case_store \<Rightarrow> string \<Rightarrow> string \<Rightarrow> protocolization_case option case_result" where
  "get_case entries tenantId caseId = after (assertTenant tenantId) (Inr (map_of entries (storageKey tenantId caseId)))"

definition case_exists :: "case_store \<Rightarrow> string \<Rightarrow> string \<Rightarrow> bool case_result" where
  "case_exists entries tenantId caseId = after (assertTenant tenantId) (Inr (map_of entries (storageKey tenantId caseId) \<noteq> None))"

text \<open>The check of the revision: the first is new, any other replaces its predecessor.\<close>

definition revision_guard :: "protocolization_case option \<Rightarrow> protocolization_case \<Rightarrow> case_error option" where
  "revision_guard stored c = (case stored of
     None \<Rightarrow> fail_if (kc_revision c \<noteq> 1) ''PROTOCOLIZATION_CASE_NOT_FOUND''
       (''No stored ProtocolizationCase to update at revision '' @ show_nat (nat (kc_revision c))) [''PROTOCOLIZATION_CASE_NOT_FOUND'']
   | Some s \<Rightarrow> if kc_revision c = 1
       then Some (case_failure ''PROTOCOLIZATION_CASE_ALREADY_EXISTS''
         ''A ProtocolizationCase with this (tenantId, caseId) already exists'' [''PROTOCOLIZATION_CASE_ALREADY_EXISTS''])
       else fail_if (kc_revision c \<noteq> kc_revision s + 1) ''PROTOCOLIZATION_CASE_REVISION_CONFLICT''
         ''This ProtocolizationCase was modified by another writer'' [''PROTOCOLIZATION_CASE_REVISION_CONFLICT''])"

definition save_case :: "platform \<Rightarrow> case_store \<Rightarrow> protocolization_case \<Rightarrow> case_store case_result" where
  "save_case P entries c = (let reasons = map fst (validateProtocolizationCase P c None); key = storageKey (kc_tenantId c) (kc_caseId c) in
     after (fail_if (reasons \<noteq> []) ''PROTOCOLIZATION_CASE_INVALID''
       (''Refusing to store an invalid ProtocolizationCase: '' @ join '', '' reasons) reasons)
     (after (revision_guard (map_of entries key) c) (Inr (map_set key c entries))))"

inductive store_step :: "platform \<Rightarrow> case_store \<Rightarrow> case_store \<Rightarrow> bool" for P where
  saves: "save_case P entries c = Inr entries' \<Longrightarrow> store_step P entries entries'"

section \<open>Keys\<close>

lemma tenant_line: "isValidProtocolizationTenantId t \<Longrightarrow> line_feed \<notin> set t"
proof
  assume "isValidProtocolizationTenantId t" "line_feed \<in> set t"
  moreover have "unsafe_character line_feed" by (simp add: unsafe_character_def line_feed_def)
  ultimately show False by (auto simp: isValidProtocolizationTenantId_def list_ex_iff)
qed

lemma storageKey_inj:
  assumes "isValidProtocolizationTenantId t" and "isValidProtocolizationTenantId t'"
  shows "storageKey t i = storageKey t' i' \<longleftrightarrow> t = t' \<and> i = i'"
proof
  assume eq: "storageKey t i = storageKey t' i'"
  have part: "takeWhile (\<lambda>c. c \<noteq> line_feed) (storageKey u j) = u" if "isValidProtocolizationTenantId u" for u j
    using tenant_line [OF that] by (auto simp: storageKey_def takeWhile_append)
  from eq part [OF assms(1), of i] part [OF assms(2), of i'] have "t = t'" by simp
  then show "t = t' \<and> i = i'" using eq by (simp add: storageKey_def)
qed simp

section \<open>The store\<close>

interpretation cases: keyed_store "map_of :: case_store \<Rightarrow> _" map_set
  by unfold_locales (simp add: map_of_map_set)

text \<open>Every case is valid and stands under the key of its tenant and identifier.\<close>

definition stored_ok :: "platform \<Rightarrow> string \<Rightarrow> protocolization_case \<Rightarrow> bool" where
  "stored_ok P key c \<longleftrightarrow> case_ok P c \<and> key = storageKey (kc_tenantId c) (kc_caseId c)"

abbreviation store_inv :: "platform \<Rightarrow> case_store \<Rightarrow> bool" where
  "store_inv P \<equiv> cases.all_entries (stored_ok P)"

lemma case_tenant: "case_ok P c \<Longrightarrow> isValidProtocolizationTenantId (kc_tenantId c)"
  by (simp add: case_ok_def header_ok_def)

lemma save_case_Inr: "save_case P entries c = Inr entries' \<longleftrightarrow> case_ok P c \<and>
    revision_guard (map_of entries (storageKey (kc_tenantId c) (kc_caseId c))) c = None \<and>
    entries' = map_set (storageKey (kc_tenantId c) (kc_caseId c)) c entries"
  using valid_case_reasons [of P c] by (auto simp: save_case_def Let_def after_Inr fail_if_None)

lemma store_runs:
  assumes "(store_step P)\<^sup>*\<^sup>* entries entries'" and "store_inv P entries"
  shows "store_inv P entries'"
  using assms
proof (induction rule: rtranclp_induct)
  case (step b c)
  from step.hyps(2) obtain x where "save_case P b x = Inr c" by cases
  then show ?case using step by (auto simp: save_case_Inr stored_ok_def intro!: cases.all_entries_put)
qed

lemma get_case_Inr: "get_case entries t i = Inr r \<longleftrightarrow> isValidProtocolizationTenantId t \<and> r = map_of entries (storageKey t i)"
  by (auto simp: get_case_def assertTenant_def after_Inr fail_if_None)

lemma stored_case:
  assumes "store_inv P entries" and "get_case entries t i = Inr (Some c)"
  shows "case_ok P c" "kc_tenantId c = t" "kc_caseId c = i"
proof -
  have "stored_ok P (storageKey t i) c" using assms cases.all_entriesD by (fastforce simp: get_case_Inr)
  then show "case_ok P c" "kc_tenantId c = t" "kc_caseId c = i"
    using assms(2) storageKey_inj case_tenant unfolding stored_ok_def get_case_Inr by metis+
qed

text \<open>C34: In a store that was empty and took any sequence of cases, a tenant only ever finds valid cases, and only its own,
  under the identifier it asked for; and taking a case in changes what is found for its tenant and identifier and nothing else.\<close>

theorem store_isolates_tenants:
  assumes "(store_step P)\<^sup>*\<^sup>* [] entries" and "save_case P entries c = Inr entries'"
  shows "(get_case entries t i = Inr (Some found) \<longrightarrow>
      isValidProtocolizationCase P found None \<and> kc_tenantId found = t \<and> kc_caseId found = i) \<and>
    get_case entries' t i = (if t = kc_tenantId c \<and> i = kc_caseId c then Inr (Some c) else get_case entries t i)"
proof -
  have inv: "store_inv P entries" using store_runs [OF assms(1)] by (simp add: cases.all_entries_def)
  have "get_case entries' t i = (if t = kc_tenantId c \<and> i = kc_caseId c then Inr (Some c) else get_case entries t i)"
  proof (cases "isValidProtocolizationTenantId t")
    case True
    have "isValidProtocolizationTenantId (kc_tenantId c)" using assms(2) case_tenant [of P c] by (simp add: save_case_Inr)
    then show ?thesis using True assms(2) storageKey_inj [of "kc_tenantId c" t "kc_caseId c" i]
      by (auto simp: save_case_Inr get_case_def assertTenant_def fail_if_def map_of_map_set)
  next
    case False
    then show ?thesis using assms(2) case_tenant [of P c] by (auto simp: save_case_Inr get_case_def assertTenant_def fail_if_def)
  qed
  then show ?thesis using stored_case [OF inv] by (auto simp: valid_case)
qed

text \<open>C33: Two callers read the same case and change it: the change that is stored first stands, the other is refused as a conflict.\<close>

theorem no_lost_update:
  assumes "(store_step P)\<^sup>*\<^sup>* [] entries" and "get_case entries t i = Inr (Some c)"
    and "case_step P c first" and "case_step P c second"
  shows "\<exists>entries' e. save_case P entries first = Inr entries' \<and> get_case entries' t i = Inr (Some first) \<and>
    save_case P entries' second = Inl e \<and> ce_code e = ''PROTOCOLIZATION_CASE_REVISION_CONFLICT''"
proof -
  have inv: "store_inv P entries" using store_runs [OF assms(1)] by (simp add: cases.all_entries_def)
  note c = stored_case [OF inv assms(2)]
  have rev: "1 \<le> kc_revision c" using c(1) by (simp add: case_ok_def header_ok_def)
  have key: "map_of entries (storageKey t i) = Some c" "isValidProtocolizationTenantId t" using assms(2) by (simp_all add: get_case_Inr)
  have step: "case_ok P x \<and> kc_revision x = kc_revision c + 1 \<and> kc_tenantId x = t \<and> kc_caseId x = i" if "case_step P c x" for x
    using case_step_ok [OF that] c(2,3) by (simp add: case_advances_def same_case_def)
  let ?stored = "map_set (storageKey t i) first entries"
  have "save_case P entries first = Inr ?stored"
    using step [OF assms(3)] rev key by (simp add: save_case_Inr revision_guard_def fail_if_def)
  moreover have "get_case ?stored t i = Inr (Some first)" using key by (simp add: get_case_Inr map_of_map_set)
  moreover have "\<exists>e. save_case P ?stored second = Inl e \<and> ce_code e = ''PROTOCOLIZATION_CASE_REVISION_CONFLICT''"
    using step [OF assms(3)] step [OF assms(4)] rev valid_case_reasons [of P second]
    by (simp add: save_case_def Let_def map_of_map_set revision_guard_def fail_if_def case_failure_def)
  ultimately show ?thesis by blast
qed

text \<open>A store with a case of one tenant, and of a second tenant under the same identifier.\<close>

lemma sample_saved: "save_case P [] sample_opened = Inr [(storageKey ''tenant-a'' ''case-1'', sample_opened)]"
proof -
  have "kc_tenantId sample_opened = ''tenant-a''" "kc_caseId sample_opened = ''case-1''" "kc_revision sample_opened = 1"
    by (simp_all add: sample_opened_def initial_case_def sample_case_input_def)
  then show ?thesis using sample_case_ok(1) [of P] by (simp add: save_case_Inr revision_guard_def fail_if_def)
qed

lemma sample_store: "(store_step P)\<^sup>*\<^sup>* [] [(storageKey ''tenant-a'' ''case-1'', sample_opened)]"
  using saves [OF sample_saved] by (rule r_into_rtranclp)

theorem store_isolates_tenants_witness:
  "get_case [(storageKey ''tenant-a'' ''case-1'', sample_opened)] ''tenant-b'' ''case-1'' = Inr None \<and>
   get_case [(storageKey ''tenant-a'' ''case-1'', sample_opened)] ''tenant-a'' ''case-1'' = Inr (Some sample_opened)"
proof -
  have "isValidProtocolizationTenantId ''tenant-b''" by code_simp
  then have "get_case [] ''tenant-b'' ''case-1'' = Inr None" by (simp add: get_case_Inr)
  then show ?thesis
    using store_isolates_tenants [OF rtranclp.rtrancl_refl sample_saved [of zero_platform], of "''tenant-b''" "''case-1''"]
      store_isolates_tenants [OF rtranclp.rtrancl_refl sample_saved [of zero_platform], of "''tenant-a''" "''case-1''"]
    by (simp add: sample_opened_def initial_case_def sample_case_input_def)
qed

theorem no_lost_update_witness:
  "\<exists>entries e. save_case zero_platform [(storageKey ''tenant-a'' ''case-1'', sample_opened)] sample_active = Inr entries \<and>
    save_case zero_platform entries sample_active = Inl e \<and> ce_code e = ''PROTOCOLIZATION_CASE_REVISION_CONFLICT''"
proof -
  have found: "get_case [(storageKey ''tenant-a'' ''case-1'', sample_opened)] ''tenant-a'' ''case-1'' = Inr (Some sample_opened)"
    using sample_case_identifiers(6) by (simp add: get_case_Inr)
  from no_lost_update [OF sample_store this activates [OF sample_activates] activates [OF sample_activates]]
  show ?thesis by blast
qed

end
