(* ===== verification/CaseLog.thy ===== *)
theory CaseLog
  imports CaseRepository
begin

text \<open>
  What the intake of evidence and the recording of declarations have in common.  Both put a material into a case and keep a record
  of it in an append-only repository; the locale below states what such a record relies on, and its lemmas say what a repository of
  them then guarantees along any life of the case.
\<close>

section \<open>Reasons\<close>

definition reason_when :: "bool \<Rightarrow> string \<Rightarrow> string list" where
  "reason_when b reason = (if b then [reason] else [])"

lemma reason_when_Nil [simp]: "reason_when b reason = [] \<longleftrightarrow> \<not> b"
  by (simp add: reason_when_def)

definition present_and :: "('a \<Rightarrow> bool) \<Rightarrow> 'a option \<Rightarrow> bool" where
  "present_and p v = (case v of None \<Rightarrow> False | Some x \<Rightarrow> p x)"

definition optional_ok :: "('a \<Rightarrow> bool) \<Rightarrow> 'a option \<Rightarrow> bool" where
  "optional_ok p v \<longleftrightarrow> (case v of None \<Rightarrow> True | Some x \<Rightarrow> p x)"

lemma present_and_not [simp]: "present_and (\<lambda>x. \<not> p x) v \<longleftrightarrow> \<not> optional_ok p v"
  by (simp add: present_and_def optional_ok_def split: option.splits)

section \<open>Materials that stay\<close>

lemma find_holds: "find p xs = Some x \<Longrightarrow> x \<in> set xs \<and> p x"
  by (induction xs) (auto split: if_splits)

lemma no_such_payload: "find (\<lambda>m. mt_payload m = p) ms = None \<longleftrightarrow> p \<notin> mt_payload ` set ms"
  by (auto simp: find_None_iff)

lemma map_set_new: "map_of entries k = None \<Longrightarrow> map_set k v entries = entries @ [(k, v)]"
  by (induction entries) (auto split: if_splits)

text \<open>The case holds a material with this payload, added then, for at least these requirements.\<close>

definition holds_material :: "protocolization_case \<Rightarrow> string \<Rightarrow> material_payload \<Rightarrow> string \<Rightarrow> string list \<Rightarrow> bool" where
  "holds_material c i payload t rs \<longleftrightarrow> (\<exists>m \<in> set (kc_materials c). mt_materialId m = i \<and> mt_payload m = payload \<and>
     mt_addedAt m = t \<and> prefix rs (mt_requirementIds m))"

lemma material_kept:
  assumes "materials_grow ms ms'" and "m \<in> set ms"
  shows "\<exists>m' \<in> set ms'. material_grows m m'"
proof -
  obtain k where k: "k < length ms" "ms ! k = m" using assms(2) by (auto simp: in_set_conv_nth)
  then have "material_grows m (ms' ! k)" using assms(1) by (auto simp: materials_grow_def list_all2_conv_all_nth)
  moreover have "ms' ! k \<in> set ms'" using k(1) assms(1) by (simp add: materials_grow_def)
  ultimately show ?thesis by blast
qed

lemma payload_kept:
  assumes "case_advances P c c'" and "p \<in> mt_payload ` set (kc_materials c)"
  shows "p \<in> mt_payload ` set (kc_materials c')"
proof -
  obtain m where m: "m \<in> set (kc_materials c)" "p = mt_payload m" using assms(2) by blast
  then obtain m' where "m' \<in> set (kc_materials c')" "material_grows m m'"
    using material_kept [of "kc_materials c" "kc_materials c'" m] assms(1) by (auto simp: case_advances_def)
  then show ?thesis unfolding m(2) material_grows_def by (metis image_eqI)
qed

lemma holds_material_advances:
  assumes "holds_material c i p t rs" and "case_advances P c c'"
  shows "holds_material c' i p t rs"
proof -
  obtain m where m: "m \<in> set (kc_materials c)" "mt_materialId m = i" "mt_payload m = p" "mt_addedAt m = t"
    "prefix rs (mt_requirementIds m)" using assms(1) by (auto simp: holds_material_def)
  obtain m' where "m' \<in> set (kc_materials c')" "material_grows m m'"
    using material_kept [of "kc_materials c" "kc_materials c'" m] m(1) assms(2) by (auto simp: case_advances_def)
  then show ?thesis using m(2-) unfolding holds_material_def material_grows_def by (metis prefix_order.trans)
qed

lemma holds_names:
  "holds_material c i p t rs \<Longrightarrow> i \<in> mt_materialId ` set (kc_materials c) \<and> p \<in> mt_payload ` set (kc_materials c)"
  unfolding holds_material_def by (metis image_eqI)

lemma holds_added: "holds_material (with_material c m) (mt_materialId m) (mt_payload m) (mt_addedAt m) (mt_requirementIds m)"
  by (auto simp: holds_material_def with_material_def)

section \<open>Logs of records\<close>

text \<open>A case with the records kept for it: any operation on the case, or the entry of a record together with its change.\<close>

inductive log_step :: "platform \<Rightarrow> (protocolization_case \<Rightarrow> protocolization_case \<Rightarrow> 'r \<Rightarrow> bool) \<Rightarrow>
    protocolization_case \<times> 'r list \<Rightarrow> protocolization_case \<times> 'r list \<Rightarrow> bool" for P enters where
  changes: "case_step P c c' \<Longrightarrow> log_step P enters (c, rs) (c', rs)"
| logs: "enters c c' r \<Longrightarrow> log_step P enters (c, rs) (c', rs @ [r])"

text \<open>
  The contract of a record: what it says of the case (\<open>backs\<close>) survives every change of the case, and includes the material it
  names, with the payload of what it refers to, and a revision the case has reached; and it enters with the addition of a material
  and a payload that the case did not have.
\<close>

locale case_log =
  fixes backs :: "protocolization_case \<Rightarrow> 'r \<Rightarrow> bool" and material reference :: "'r \<Rightarrow> string" and revision :: "'r \<Rightarrow> int"
    and payload :: "string \<Rightarrow> material_payload"
    and enters :: "platform \<Rightarrow> protocolization_case \<Rightarrow> protocolization_case \<Rightarrow> 'r \<Rightarrow> bool"
  assumes backs_advances: "backs c r \<Longrightarrow> case_advances P c c' \<Longrightarrow> kc_revision c \<le> kc_revision c' \<Longrightarrow> backs c' r"
    and backs_revision: "backs c r \<Longrightarrow> revision r \<le> kc_revision c"
    and backs_material: "backs c r \<Longrightarrow> material r \<in> mt_materialId ` set (kc_materials c) \<and>
      payload (reference r) \<in> mt_payload ` set (kc_materials c)"
    and enters_step: "enters P c c' r \<Longrightarrow> case_step P c c'"
    and enters_backed: "enters P c c' r \<Longrightarrow> backs c' r \<and> kc_revision c < revision r"
    and enters_new: "enters P c c' r \<Longrightarrow> material r \<notin> mt_materialId ` set (kc_materials c) \<and>
      payload (reference r) \<notin> mt_payload ` set (kc_materials c)"
begin

definition log_ok :: "protocolization_case \<Rightarrow> 'r list \<Rightarrow> bool" where
  "log_ok c rs \<longleftrightarrow> (\<forall>r \<in> set rs. backs c r) \<and> distinct (map material rs) \<and> distinct (map reference rs) \<and>
     sorted_wrt (<) (map revision rs)"

lemma log_ok_filter: "log_ok c rs \<Longrightarrow> log_ok c (filter p rs)"
  by (auto simp: log_ok_def distinct_map_filter sorted_wrt_map sorted_wrt_filter)

lemma log_ok_changes: "log_ok c rs \<Longrightarrow> case_step P c c' \<Longrightarrow> log_ok c' rs"
  using case_step_ok [of P c c'] backs_advances [of c _ P c'] by (auto simp: log_ok_def)

lemma log_ok_enters:
  assumes ok: "log_ok c rs" and new: "enters P c c' r"
  shows "log_ok c' (rs @ [r])"
proof -
  have all: "backs c q" if "q \<in> set rs" for q using that ok unfolding log_ok_def by blast
  have "revision q < revision r" if "q \<in> set rs" for q
    using backs_revision [OF all [OF that]] enters_backed [OF new] by simp
  moreover have "material q \<noteq> material r \<and> reference q \<noteq> reference r" if "q \<in> set rs" for q
    using backs_material [OF all [OF that]] enters_new [OF new] by metis
  then have "material r \<notin> material ` set rs" "reference r \<notin> reference ` set rs" by (metis imageE)+
  moreover have "log_ok c' rs" by (rule log_ok_changes [OF ok enters_step [OF new]])
  ultimately show ?thesis using enters_backed [OF new] by (auto simp: log_ok_def sorted_wrt_append)
qed

theorem log_runs:
  assumes "(log_step P (enters P))\<^sup>*\<^sup>* (opened, []) (c, rs)"
  shows "log_ok c rs"
proof -
  have "log_ok (fst y) (snd y)" if "(log_step P (enters P))\<^sup>*\<^sup>* (opened, []) y" for y
    using that
  proof (induction rule: rtranclp_induct)
    case (step y z)
    from step.hyps(2) show ?case using step.IH by cases (auto intro: log_ok_changes log_ok_enters)
  qed (simp add: log_ok_def)
  then show ?thesis using assms by fastforce
qed

end

end
