(* ===== verification/EvidenceIntake.thy ===== *)
theory EvidenceIntake
  imports CaseLog
begin

text \<open>
  \<open>packages/asset-protocolization/src/evidence/\<close>: the intake of evidence into a protocolization case.  A submission that is
  structurally admissible becomes a material of the case and a receipt; receipts are kept in a repository of their own.  The
  lemmas show what each receipt in the repository is backed by in the case.
\<close>

section \<open>Submissions and receipts\<close>

record reference_source =
  rf_kind :: string
  rf_value :: string
  rf_label :: "string option"
  rf_metadata :: "json option"

text \<open>What intake reads of an evidence document; the document itself is discarded.\<close>

record canonical_evidence =
  cv_id :: string
  cv_type :: string
  cv_createdAt :: string

datatype submitted_evidence =
    ReferencedEvidence string
  | CanonicalEvidence canonical_evidence

record evidence_submission =
  sb_intakeId :: string
  sb_caseId :: string
  sb_materialId :: string
  sb_categoryId :: string
  sb_evidence :: submitted_evidence
  sb_requirementIds :: "string list"
  sb_observedAt :: "string option"
  sb_sourceRef :: "reference_source option"
  sb_correlationId :: "string option"

definition submittedEvidenceRef :: "evidence_submission \<Rightarrow> string" where
  "submittedEvidenceRef submission = (case sb_evidence submission of
     CanonicalEvidence evidence \<Rightarrow> cv_id evidence | ReferencedEvidence evidenceRef \<Rightarrow> evidenceRef)"

record intake_receipt =
  rc_schemaVersion :: string
  rc_intakeId :: string
  rc_tenantId :: string
  rc_caseId :: string
  rc_profile :: profile_ref
  rc_categoryId :: string
  rc_evidenceRef :: string
  rc_materialId :: string
  rc_requirementIds :: "string list"
  rc_receivedAt :: string
  rc_observedAt :: "string option"
  rc_sourceRef :: "reference_source option"
  rc_caseRevision :: int
  rc_correlationId :: "string option"

definition EVIDENCE_INTAKE_RECEIPT_SCHEMA_VERSION :: string where
  "EVIDENCE_INTAKE_RECEIPT_SCHEMA_VERSION = ''aoc-protocolization-evidence-intake/1''"

section \<open>Validation\<close>

definition REFERENCE_SOURCE_KINDS :: "string list" where
  "REFERENCE_SOURCE_KINDS = [''URI'', ''DID'', ''Wallet'', ''Email'', ''Domain'', ''Registry'', ''InternalId'', ''ExternalId'',
     ''Document'', ''AuditTrace'', ''RuntimeTrace'', ''Unknown'']"

definition isValidEvidenceIntakeId :: "string \<Rightarrow> bool" where
  "isValidEvidenceIntakeId v = isProtocolizationInstanceIdentifier v"

definition isValidEvidenceIntakeCategoryId :: "string \<Rightarrow> bool" where
  "isValidEvidenceIntakeCategoryId v = isDottedToken v"

definition isUsableReferenceSource :: "reference_source \<Rightarrow> bool" where
  "isUsableReferenceSource v \<longleftrightarrow> rf_kind v \<in> set REFERENCE_SOURCE_KINDS \<and> trim (rf_value v) \<noteq> []"

definition isAdmissibleCanonicalEvidence :: "platform \<Rightarrow> canonical_evidence \<Rightarrow> bool" where
  "isAdmissibleCanonicalEvidence P v \<longleftrightarrow>
     isCanonicalRecordId (cv_id v) \<and> cv_type v \<in> set EVIDENCE_TYPES \<and> isValidUtcDateTime P (cv_createdAt v)"

definition checkRequirementIds :: "string list \<Rightarrow> string list" where
  "checkRequirementIds v = (if v = [] then [''EVIDENCE_INTAKE_REQUIREMENT_IDS_INVALID'']
     else if \<not> requirement_ids_loop {} v then [''EVIDENCE_INTAKE_REQUIREMENT_IDS_INVALID''] else [])"

definition validateProtocolizationEvidenceSubmission :: "platform \<Rightarrow> evidence_submission \<Rightarrow> string list" where
  "validateProtocolizationEvidenceSubmission P v =
     reason_when (\<not> isValidEvidenceIntakeId (sb_intakeId v)) ''EVIDENCE_INTAKE_ID_INVALID'' @
     reason_when (\<not> isValidProtocolizationCaseId (sb_caseId v)) ''EVIDENCE_INTAKE_CASE_ID_INVALID'' @
     reason_when (\<not> isValidProtocolizationMaterialId (sb_materialId v)) ''EVIDENCE_INTAKE_MATERIAL_ID_INVALID'' @
     reason_when (\<not> isValidEvidenceIntakeCategoryId (sb_categoryId v)) ''EVIDENCE_INTAKE_CATEGORY_INVALID'' @
     checkRequirementIds (sb_requirementIds v) @
     (case sb_evidence v of
        ReferencedEvidence evidenceRef \<Rightarrow> reason_when (\<not> isCanonicalRecordId evidenceRef) ''EVIDENCE_INTAKE_EVIDENCE_REF_INVALID''
      | CanonicalEvidence evidence \<Rightarrow>
          reason_when (\<not> isAdmissibleCanonicalEvidence P evidence) ''EVIDENCE_INTAKE_EVIDENCE_DOCUMENT_INVALID'') @
     reason_when (present_and (\<lambda>t. \<not> isValidUtcDateTime P t) (sb_observedAt v)) ''EVIDENCE_INTAKE_OBSERVED_AT_INVALID'' @
     reason_when (present_and (\<lambda>s. \<not> isUsableReferenceSource s) (sb_sourceRef v)) ''EVIDENCE_INTAKE_SOURCE_REF_INVALID'' @
     reason_when (present_and (\<lambda>i. \<not> isCanonicalRecordId i) (sb_correlationId v)) ''EVIDENCE_INTAKE_CORRELATION_ID_INVALID''"

definition validateEvidenceIntakeReceipt :: "platform \<Rightarrow> intake_receipt \<Rightarrow> string list" where
  "validateEvidenceIntakeReceipt P v =
     reason_when (rc_schemaVersion v \<noteq> EVIDENCE_INTAKE_RECEIPT_SCHEMA_VERSION) ''EVIDENCE_INTAKE_SCHEMA_VERSION_INVALID'' @
     reason_when (\<not> isValidEvidenceIntakeId (rc_intakeId v)) ''EVIDENCE_INTAKE_ID_INVALID'' @
     reason_when (\<not> isValidProtocolizationTenantId (rc_tenantId v)) ''EVIDENCE_INTAKE_TENANT_ID_INVALID'' @
     reason_when (\<not> isValidProtocolizationCaseId (rc_caseId v)) ''EVIDENCE_INTAKE_CASE_ID_INVALID'' @
     reason_when (\<not> isValidProtocolizationProfileRef (rc_profile v)) ''EVIDENCE_INTAKE_PROFILE_REF_INVALID'' @
     reason_when (\<not> isValidEvidenceIntakeCategoryId (rc_categoryId v)) ''EVIDENCE_INTAKE_CATEGORY_INVALID'' @
     reason_when (\<not> isCanonicalRecordId (rc_evidenceRef v)) ''EVIDENCE_INTAKE_EVIDENCE_REF_INVALID'' @
     reason_when (\<not> isValidProtocolizationMaterialId (rc_materialId v)) ''EVIDENCE_INTAKE_MATERIAL_ID_INVALID'' @
     checkRequirementIds (rc_requirementIds v) @
     reason_when (\<not> isValidUtcDateTime P (rc_receivedAt v)) ''EVIDENCE_INTAKE_RECEIVED_AT_INVALID'' @
     reason_when (present_and (\<lambda>t. \<not> isValidUtcDateTime P t) (rc_observedAt v)) ''EVIDENCE_INTAKE_OBSERVED_AT_INVALID'' @
     reason_when (present_and (\<lambda>s. \<not> isUsableReferenceSource s) (rc_sourceRef v)) ''EVIDENCE_INTAKE_SOURCE_REF_INVALID'' @
     reason_when (\<bar>rc_caseRevision v\<bar> > MAX_SAFE_INTEGER \<or> rc_caseRevision v < 1) ''EVIDENCE_INTAKE_CASE_REVISION_INVALID'' @
     reason_when (present_and (\<lambda>i. \<not> isCanonicalRecordId i) (rc_correlationId v)) ''EVIDENCE_INTAKE_CORRELATION_ID_INVALID''"

section \<open>The intake\<close>

record received_event =
  rv_intakeId :: string
  rv_tenantId :: string
  rv_caseId :: string
  rv_profile :: profile_ref
  rv_categoryId :: string
  rv_evidenceRef :: string
  rv_materialId :: string
  rv_requirementIds :: "string list"
  rv_occurredAt :: string
  rv_observedAt :: "string option"
  rv_caseRevision :: int
  rv_correlationId :: "string option"

record intake_transition =
  it_case :: protocolization_case
  it_receipt :: intake_receipt
  it_caseEvent :: case_event
  it_intakeEvent :: received_event

definition assertActingTenantOwnsCase :: "case_context \<Rightarrow> protocolization_case \<Rightarrow> case_error option" where
  "assertActingTenantOwnsCase ctx c = first_throw [
     fail_if (\<not> isValidProtocolizationTenantId (cc_tenantId ctx)) ''EVIDENCE_INTAKE_TENANT_REQUIRED''
       ''A non-blank acting tenantId is required'' [''EVIDENCE_INTAKE_TENANT_REQUIRED''],
     fail_if (kc_tenantId c \<noteq> cc_tenantId ctx) ''PROTOCOLIZATION_CASE_TENANT_MISMATCH''
       ''The acting tenant does not own this ProtocolizationCase'' [''PROTOCOLIZATION_CASE_TENANT_MISMATCH'']]"

definition assertEvidenceNotAlreadyInCase :: "protocolization_case \<Rightarrow> string \<Rightarrow> case_error option" where
  "assertEvidenceNotAlreadyInCase c evidenceRef =
     (case find (\<lambda>material. mt_payload material = EvidencePayload evidenceRef) (kc_materials c) of
        None \<Rightarrow> None
      | Some existing \<Rightarrow> Some (case_failure ''EVIDENCE_INTAKE_DUPLICATE_EVIDENCE''
          (''This case already holds evidence material '' @ mt_materialId existing @ '' for this canonical evidence'')
          [''EVIDENCE_INTAKE_DUPLICATE_EVIDENCE'']))"

definition evidence_input :: "evidence_submission \<Rightarrow> material_input" where
  "evidence_input submission = \<lparr>mn_materialId = sb_materialId submission,
     mn_payload = EvidencePayload (submittedEvidenceRef submission), mn_requirementIds = sb_requirementIds submission,
     mn_correlationId = sb_correlationId submission\<rparr>"

definition receipt_of :: "evidence_submission \<Rightarrow> protocolization_case \<Rightarrow> case_event \<Rightarrow> intake_receipt" where
  "receipt_of submission next event = \<lparr>rc_schemaVersion = EVIDENCE_INTAKE_RECEIPT_SCHEMA_VERSION,
     rc_intakeId = sb_intakeId submission, rc_tenantId = kc_tenantId next, rc_caseId = kc_caseId next, rc_profile = kc_profile next,
     rc_categoryId = sb_categoryId submission, rc_evidenceRef = submittedEvidenceRef submission,
     rc_materialId = sb_materialId submission, rc_requirementIds = sb_requirementIds submission,
     rc_receivedAt = ev_occurredAt (event_base event), rc_observedAt = sb_observedAt submission,
     rc_sourceRef = sb_sourceRef submission, rc_caseRevision = kc_revision next, rc_correlationId = sb_correlationId submission\<rparr>"

definition received :: "intake_receipt \<Rightarrow> received_event" where
  "received receipt = \<lparr>rv_intakeId = rc_intakeId receipt, rv_tenantId = rc_tenantId receipt, rv_caseId = rc_caseId receipt,
     rv_profile = rc_profile receipt, rv_categoryId = rc_categoryId receipt, rv_evidenceRef = rc_evidenceRef receipt,
     rv_materialId = rc_materialId receipt, rv_requirementIds = rc_requirementIds receipt, rv_occurredAt = rc_receivedAt receipt,
     rv_observedAt = rc_observedAt receipt, rv_caseRevision = rc_caseRevision receipt, rv_correlationId = rc_correlationId receipt\<rparr>"

definition intakeProtocolizationEvidence ::
  "platform \<Rightarrow> case_context \<Rightarrow> protocolization_case \<Rightarrow> evidence_submission \<Rightarrow> intake_transition case_result" where
  "intakeProtocolizationEvidence P ctx c submission = (let reasons = validateProtocolizationEvidenceSubmission P submission in
     after (first_throw [assertActingTenantOwnsCase ctx c,
       fail_if (reasons \<noteq> []) ''EVIDENCE_INTAKE_SUBMISSION_INVALID'' (''Evidence submission was not admitted: '' @ join '', '' reasons) reasons,
       fail_if (sb_caseId submission \<noteq> kc_caseId c) ''EVIDENCE_INTAKE_CASE_MISMATCH''
         ''The submission names a different ProtocolizationCase'' [''EVIDENCE_INTAKE_CASE_MISMATCH''],
       assertEvidenceNotAlreadyInCase c (submittedEvidenceRef submission)])
     (bind_result (addProtocolizationCaseMaterial P ctx c (evidence_input submission)) (\<lambda>(next, event).
      let receipt = receipt_of submission next event; faults = validateEvidenceIntakeReceipt P receipt in
      after (fail_if (faults \<noteq> []) ''EVIDENCE_INTAKE_RECEIPT_INVALID''
        (''Refusing to produce an invalid EvidenceIntakeReceipt: '' @ join '', '' faults) faults)
      (Inr \<lparr>it_case = next, it_receipt = receipt, it_caseEvent = event, it_intakeEvent = received receipt\<rparr>))))"

definition reconstituteEvidenceIntakeReceipt :: "platform \<Rightarrow> intake_receipt \<Rightarrow> intake_receipt case_result" where
  "reconstituteEvidenceIntakeReceipt P v = (let faults = validateEvidenceIntakeReceipt P v in
     after (fail_if (faults \<noteq> []) ''EVIDENCE_INTAKE_RECEIPT_INVALID''
       (''Refusing to reconstitute an invalid EvidenceIntakeReceipt: '' @ join '', '' faults) faults) (Inr v))"

section \<open>The repository\<close>

type_synonym receipt_store = "(string \<times> intake_receipt) list"

definition receiptKey :: "string \<Rightarrow> string \<Rightarrow> string" where
  "receiptKey tenantId intakeId = tenantId @ line_feed # intakeId"

definition assertReceiptTenant :: "string \<Rightarrow> case_error option" where
  "assertReceiptTenant tenantId = fail_if (\<not> isValidProtocolizationTenantId tenantId) ''EVIDENCE_INTAKE_TENANT_REQUIRED''
     ''A non-blank tenantId is required to address an EvidenceIntakeReceipt'' [''EVIDENCE_INTAKE_TENANT_REQUIRED'']"

definition get_receipt :: "receipt_store \<Rightarrow> string \<Rightarrow> string \<Rightarrow> intake_receipt option case_result" where
  "get_receipt entries tenantId intakeId = after (assertReceiptTenant tenantId) (Inr (map_of entries (receiptKey tenantId intakeId)))"

definition receipt_exists :: "receipt_store \<Rightarrow> string \<Rightarrow> string \<Rightarrow> bool case_result" where
  "receipt_exists entries tenantId intakeId =
     after (assertReceiptTenant tenantId) (Inr (map_of entries (receiptKey tenantId intakeId) \<noteq> None))"

definition listByCase :: "receipt_store \<Rightarrow> string \<Rightarrow> string \<Rightarrow> intake_receipt list case_result" where
  "listByCase entries tenantId caseId = after (assertReceiptTenant tenantId)
     (Inr (filter (\<lambda>receipt. rc_tenantId receipt = tenantId \<and> rc_caseId receipt = caseId) (map snd entries)))"

definition save_receipt :: "platform \<Rightarrow> receipt_store \<Rightarrow> intake_receipt \<Rightarrow> receipt_store case_result" where
  "save_receipt P entries receipt = (let faults = validateEvidenceIntakeReceipt P receipt;
       key = receiptKey (rc_tenantId receipt) (rc_intakeId receipt) in
     after (first_throw [
       fail_if (faults \<noteq> []) ''EVIDENCE_INTAKE_RECEIPT_INVALID''
         (''Refusing to store an invalid EvidenceIntakeReceipt: '' @ join '', '' faults) faults,
       fail_if (map_of entries key \<noteq> None) ''EVIDENCE_INTAKE_DUPLICATE''
         ''An EvidenceIntakeReceipt with this (tenantId, intakeId) already exists'' [''EVIDENCE_INTAKE_DUPLICATE'']])
     (Inr (map_set key receipt entries)))"

section \<open>When an intake succeeds\<close>

lemma checkRequirementIds_Nil [simp]: "checkRequirementIds v = [] \<longleftrightarrow> isValidRequirementIdList v"
  by (simp add: checkRequirementIds_def isValidRequirementIdList_def)

text \<open>The identifiers and references that submission and receipt have in common.\<close>

definition intake_terms_ok :: "platform \<Rightarrow> string \<Rightarrow> string \<Rightarrow> string \<Rightarrow> string \<Rightarrow> string \<Rightarrow> string list \<Rightarrow>
    string option \<Rightarrow> reference_source option \<Rightarrow> string option \<Rightarrow> bool" where
  "intake_terms_ok P intakeId caseId materialId categoryId evidenceRef requirementIds observedAt sourceRef correlationId \<longleftrightarrow>
     isValidEvidenceIntakeId intakeId \<and> isValidProtocolizationCaseId caseId \<and> isValidProtocolizationMaterialId materialId \<and>
     isValidEvidenceIntakeCategoryId categoryId \<and> isCanonicalRecordId evidenceRef \<and> isValidRequirementIdList requirementIds \<and>
     optional_ok (isValidUtcDateTime P) observedAt \<and> optional_ok isUsableReferenceSource sourceRef \<and>
     optional_ok isCanonicalRecordId correlationId"

definition admissible :: "platform \<Rightarrow> evidence_submission \<Rightarrow> bool" where
  "admissible P v \<longleftrightarrow> intake_terms_ok P (sb_intakeId v) (sb_caseId v) (sb_materialId v) (sb_categoryId v) (submittedEvidenceRef v)
     (sb_requirementIds v) (sb_observedAt v) (sb_sourceRef v) (sb_correlationId v) \<and>
     (case sb_evidence v of ReferencedEvidence r \<Rightarrow> True | CanonicalEvidence e \<Rightarrow> isAdmissibleCanonicalEvidence P e)"

definition receipt_ok :: "platform \<Rightarrow> intake_receipt \<Rightarrow> bool" where
  "receipt_ok P v \<longleftrightarrow> intake_terms_ok P (rc_intakeId v) (rc_caseId v) (rc_materialId v) (rc_categoryId v) (rc_evidenceRef v)
     (rc_requirementIds v) (rc_observedAt v) (rc_sourceRef v) (rc_correlationId v) \<and>
     rc_schemaVersion v = EVIDENCE_INTAKE_RECEIPT_SCHEMA_VERSION \<and> isValidProtocolizationTenantId (rc_tenantId v) \<and>
     isValidProtocolizationProfileRef (rc_profile v) \<and> isValidUtcDateTime P (rc_receivedAt v) \<and>
     1 \<le> rc_caseRevision v \<and> rc_caseRevision v \<le> MAX_SAFE_INTEGER"

lemma admitted_iff: "validateProtocolizationEvidenceSubmission P v = [] \<longleftrightarrow> admissible P v"
  by (auto simp: validateProtocolizationEvidenceSubmission_def admissible_def intake_terms_ok_def submittedEvidenceRef_def
      isAdmissibleCanonicalEvidence_def split: submitted_evidence.splits)

lemma receipt_iff: "validateEvidenceIntakeReceipt P v = [] \<longleftrightarrow> receipt_ok P v"
  by (auto simp: validateEvidenceIntakeReceipt_def receipt_ok_def intake_terms_ok_def)

lemma not_in_case: "assertEvidenceNotAlreadyInCase c r = None \<longleftrightarrow> EvidencePayload r \<notin> mt_payload ` set (kc_materials c)"
  by (simp add: assertEvidenceNotAlreadyInCase_def no_such_payload [symmetric] split: option.splits)

lemma evidence_material_ok:
  "admissible P s \<Longrightarrow> isValidUtcDateTime P t \<Longrightarrow> isValidProtocolizationCaseMaterial P (material_of (evidence_input s) t)"
  by (auto simp: admissible_def intake_terms_ok_def isValidProtocolizationCaseMaterial_def material_of_def evidence_input_def
      optional_ok_def split: option.splits)

text \<open>A tenant may take a submission in: it may change the case, the case takes material, the submission is for it, and neither its
  material nor its evidence is in the case.\<close>

definition may_take_in :: "platform \<Rightarrow> case_context \<Rightarrow> protocolization_case \<Rightarrow> evidence_submission \<Rightarrow> bool" where
  "may_take_in P ctx c s \<longleftrightarrow> may_change P ctx c \<and> kc_state c \<noteq> ''Cancelled'' \<and> admissible P s \<and> sb_caseId s = kc_caseId c \<and>
     sb_materialId s \<notin> mt_materialId ` set (kc_materials c) \<and>
     EvidencePayload (submittedEvidenceRef s) \<notin> mt_payload ` set (kc_materials c) \<and>
     (\<exists>profile. pinned ctx (kc_profile c) = Some profile \<and> requirements_ok (sb_requirementIds s) profile c)"

definition evidence_material :: "evidence_submission \<Rightarrow> string \<Rightarrow> case_material" where
  "evidence_material s t = material_of (evidence_input s) t"

lemma evidence_input_simps [simp]:
  "mn_materialId (evidence_input s) = sb_materialId s" "mn_requirementIds (evidence_input s) = sb_requirementIds s"
  by (simp_all add: evidence_input_def)

lemma evidence_material_simps [simp]:
  "mt_materialId (evidence_material s t) = sb_materialId s" "mt_requirementIds (evidence_material s t) = sb_requirementIds s"
  "mt_payload (evidence_material s t) = EvidencePayload (submittedEvidenceRef s)" "mt_addedAt (evidence_material s t) = t"
  by (simp_all add: evidence_material_def evidence_input_def material_of_def)

lemma adds_evidence:
  "admissible P s \<Longrightarrow> sb_caseId s = kc_caseId c \<Longrightarrow> EvidencePayload (submittedEvidenceRef s) \<notin> mt_payload ` set (kc_materials c) \<Longrightarrow>
   (\<exists>e. addProtocolizationCaseMaterial P ctx c (evidence_input s) = Inr (next, e) \<and> ev_occurredAt (event_base e) = t) \<longleftrightarrow>
   may_take_in P ctx c s \<and> t = cc_now ctx \<and> next = with_material c (evidence_material s (cc_now ctx))"
  using evidence_material_ok [of P s "cc_now ctx"]
  by (auto simp: adds_iff may_take_in_def may_change_def clock_ok_def evidence_material_def base_of_def with_material_def material_of_def)

lemma receipt_never_refused:
  assumes "may_take_in P ctx c s" and "ev_occurredAt (event_base e) = cc_now ctx"
  shows "receipt_ok P (receipt_of s (with_material c (evidence_material s (cc_now ctx))) e)"
  using assms
  by (auto simp: receipt_ok_def receipt_of_def may_take_in_def may_change_def case_ok_def header_ok_def with_material_def
      admissible_def revisable_def clock_ok_def)

lemma intakes_iff:
  "intakeProtocolizationEvidence P ctx c s = Inr tr \<longleftrightarrow> may_take_in P ctx c s \<and>
    (\<exists>e. addProtocolizationCaseMaterial P ctx c (evidence_input s) = Inr (it_case tr, e) \<and>
      tr = \<lparr>it_case = it_case tr, it_receipt = receipt_of s (it_case tr) e, it_caseEvent = e,
        it_intakeEvent = received (receipt_of s (it_case tr) e)\<rparr>)"
proof (cases "admissible P s \<and> sb_caseId s = kc_caseId c \<and> EvidencePayload (submittedEvidenceRef s) \<notin> mt_payload ` set (kc_materials c)")
  case True
  then have go: "admissible P s" "sb_caseId s = kc_caseId c" "EvidencePayload (submittedEvidenceRef s) \<notin> mt_payload ` set (kc_materials c)"
    by auto
  have added: "may_take_in P ctx c s" "receipt_ok P (receipt_of s next e)" "isValidProtocolizationTenantId (cc_tenantId ctx)" "kc_tenantId c = cc_tenantId ctx"
    if "addProtocolizationCaseMaterial P ctx c (evidence_input s) = Inr (next, e)" for "next" e
  proof -
    note facts = adds_evidence [OF go, of ctx "next" "ev_occurredAt (event_base e)"]
    then show take_in: "may_take_in P ctx c s" using that by blast
    show "receipt_ok P (receipt_of s next e)" using facts that receipt_never_refused [OF take_in, of e] by metis
    have "may_change P ctx c" using take_in by (simp add: may_take_in_def)
    then show "kc_tenantId c = cc_tenantId ctx" "isValidProtocolizationTenantId (cc_tenantId ctx)"
      using case_tenant [of P c] by (auto simp: may_change_def)
  qed
  then show ?thesis using go
    by (cases tr) (auto simp: intakeProtocolizationEvidence_def Let_def after_Inr bind_result_Inr first_throw_None fail_if_None
        assertActingTenantOwnsCase_def admitted_iff receipt_iff not_in_case)
next
  case False
  then show ?thesis
    by (auto simp: intakeProtocolizationEvidence_def Let_def after_Inr first_throw_None fail_if_None admitted_iff not_in_case may_take_in_def)
qed

definition issued_receipt :: "evidence_submission \<Rightarrow> protocolization_case \<Rightarrow> string \<Rightarrow> intake_receipt" where
  "issued_receipt s c t = \<lparr>rc_schemaVersion = EVIDENCE_INTAKE_RECEIPT_SCHEMA_VERSION, rc_intakeId = sb_intakeId s,
     rc_tenantId = kc_tenantId c, rc_caseId = kc_caseId c, rc_profile = kc_profile c, rc_categoryId = sb_categoryId s,
     rc_evidenceRef = submittedEvidenceRef s, rc_materialId = sb_materialId s, rc_requirementIds = sb_requirementIds s,
     rc_receivedAt = t, rc_observedAt = sb_observedAt s, rc_sourceRef = sb_sourceRef s, rc_caseRevision = kc_revision c + 1,
     rc_correlationId = sb_correlationId s\<rparr>"

lemma receipt_issued: "receipt_of s (with_material c m) e = issued_receipt s c (ev_occurredAt (event_base e))"
  by (simp add: receipt_of_def issued_receipt_def with_material_def)

lemma intakes:
  "(\<exists>tr. intakeProtocolizationEvidence P ctx c s = Inr tr \<and> it_case tr = c' \<and> it_receipt tr = r) \<longleftrightarrow>
   may_take_in P ctx c s \<and> c' = with_material c (evidence_material s (cc_now ctx)) \<and> r = issued_receipt s c (cc_now ctx)"
proof (cases "may_take_in P ctx c s")
  case True
  then have go: "admissible P s" "sb_caseId s = kc_caseId c" "EvidencePayload (submittedEvidenceRef s) \<notin> mt_payload ` set (kc_materials c)"
    by (simp_all add: may_take_in_def)
  let ?next = "with_material c (evidence_material s (cc_now ctx))"
  have "(\<exists>tr. intakeProtocolizationEvidence P ctx c s = Inr tr \<and> it_case tr = c' \<and> it_receipt tr = r) \<longleftrightarrow>
      (\<exists>e. addProtocolizationCaseMaterial P ctx c (evidence_input s) = Inr (c', e) \<and> r = receipt_of s c' e)"
  proof
    assume "\<exists>tr. intakeProtocolizationEvidence P ctx c s = Inr tr \<and> it_case tr = c' \<and> it_receipt tr = r"
    then show "\<exists>e. addProtocolizationCaseMaterial P ctx c (evidence_input s) = Inr (c', e) \<and> r = receipt_of s c' e"
      unfolding intakes_iff by (metis intake_transition.select_convs(2))
  next
    assume "\<exists>e. addProtocolizationCaseMaterial P ctx c (evidence_input s) = Inr (c', e) \<and> r = receipt_of s c' e"
    then obtain e where "addProtocolizationCaseMaterial P ctx c (evidence_input s) = Inr (c', e)" "r = receipt_of s c' e" by blast
    then show "\<exists>tr. intakeProtocolizationEvidence P ctx c s = Inr tr \<and> it_case tr = c' \<and> it_receipt tr = r"
      using True by (intro exI [of _ "\<lparr>it_case = c', it_receipt = r, it_caseEvent = e, it_intakeEvent = received r\<rparr>"])
        (simp add: intakes_iff)
  qed
  also have "\<dots> \<longleftrightarrow> c' = ?next \<and> r = issued_receipt s c (cc_now ctx)"
    using adds_evidence [OF go, of ctx c'] True receipt_issued by metis
  finally show ?thesis using True by simp
qed (simp add: intakes_iff)

text \<open>A submission that is not admitted is refused as such even when it names another case.\<close>

lemma intake_admission_comes_before_case:
  assumes "assertActingTenantOwnsCase ctx c = None" and "\<not> admissible P s" and "sb_caseId s \<noteq> kc_caseId c"
  shows "\<exists>e. intakeProtocolizationEvidence P ctx c s = Inl e \<and> ce_code e = ''EVIDENCE_INTAKE_SUBMISSION_INVALID''"
  using assms by (simp add: intakeProtocolizationEvidence_def admitted_iff after_def first_throw.simps fail_if_def case_failure_def Let_def)

text \<open>Exactly when a submission is taken in, and what case and receipt it then leaves: the checks on material, case and receipt that
  follow the admission never refuse what it let through.\<close>

theorem evidence_intake_iff:
  "(\<exists>tr. intakeProtocolizationEvidence P ctx c s = Inr tr \<and> it_case tr = c' \<and> it_receipt tr = r) \<longleftrightarrow>
   may_take_in P ctx c s \<and> c' = with_material c (evidence_material s (cc_now ctx)) \<and> r = issued_receipt s c (cc_now ctx)"
  by (rule intakes)

section \<open>Receipts and the case\<close>

interpretation receipts: keyed_store "map_of :: receipt_store \<Rightarrow> _" map_set
  by unfold_locales (simp add: map_of_map_set)

text \<open>A receipt is backed by a case: the case holds the material the receipt names, with the evidence, the moment and at least the
  requirements of the receipt.\<close>

definition backed :: "protocolization_case \<Rightarrow> intake_receipt \<Rightarrow> bool" where
  "backed c r \<longleftrightarrow> rc_profile r = kc_profile c \<and> rc_caseRevision r \<le> kc_revision c \<and>
     holds_material c (rc_materialId r) (EvidencePayload (rc_evidenceRef r)) (rc_receivedAt r) (rc_requirementIds r)"

text \<open>Any operation on the case, or an intake whose receipt is stored.\<close>

inductive intake_step :: "platform \<Rightarrow> protocolization_case \<times> receipt_store \<Rightarrow> protocolization_case \<times> receipt_store \<Rightarrow> bool" for P where
  changes: "case_step P c c' \<Longrightarrow> intake_step P (c, entries) (c', entries)"
| takes_in: "intakeProtocolizationEvidence P ctx c s = Inr tr \<Longrightarrow> save_receipt P entries (it_receipt tr) = Inr entries' \<Longrightarrow>
    intake_step P (c, entries) (it_case tr, entries')"

text \<open>A submission is taken in, with this case and receipt.\<close>

definition taken_in :: "platform \<Rightarrow> protocolization_case \<Rightarrow> protocolization_case \<Rightarrow> intake_receipt \<Rightarrow> bool" where
  "taken_in P c c' r \<longleftrightarrow> (\<exists>ctx s tr. intakeProtocolizationEvidence P ctx c s = Inr tr \<and> it_case tr = c' \<and> it_receipt tr = r)"

lemma intake_is_step: "intakeProtocolizationEvidence P ctx c s = Inr tr \<Longrightarrow> case_step P c (it_case tr)"
  by (auto simp: intakes_iff intro: adds)

interpretation receipt_log: case_log backed rc_materialId rc_evidenceRef rc_caseRevision EvidencePayload taken_in
proof unfold_locales
  fix c c' P r
  show "backed c r \<Longrightarrow> case_advances P c c' \<Longrightarrow> kc_revision c \<le> kc_revision c' \<Longrightarrow> backed c' r"
    using holds_material_advances by (auto simp: backed_def case_advances_def same_case_def)
  show "backed c r \<Longrightarrow> rc_caseRevision r \<le> kc_revision c" by (simp add: backed_def)
  show "backed c r \<Longrightarrow> rc_materialId r \<in> mt_materialId ` set (kc_materials c) \<and>
      EvidencePayload (rc_evidenceRef r) \<in> mt_payload ` set (kc_materials c)"
    unfolding backed_def by (blast dest: holds_names)
  assume "taken_in P c c' r"
  then obtain ctx s tr where tr: "intakeProtocolizationEvidence P ctx c s = Inr tr" "it_case tr = c'" "it_receipt tr = r"
    by (auto simp: taken_in_def)
  then have took: "may_take_in P ctx c s" "c' = with_material c (evidence_material s (cc_now ctx))" "r = issued_receipt s c (cc_now ctx)"
    using intakes by blast+
  show "case_step P c c'" using intake_is_step [OF tr(1)] tr(2) by simp
  show "backed c' r \<and> kc_revision c < rc_caseRevision r"
    using holds_added [of c "evidence_material s (cc_now ctx)"]
    by (simp add: took(2,3) backed_def issued_receipt_def) (simp add: with_material_def)
  show "rc_materialId r \<notin> mt_materialId ` set (kc_materials c) \<and> EvidencePayload (rc_evidenceRef r) \<notin> mt_payload ` set (kc_materials c)"
    using took(1) by (simp add: took(3) may_take_in_def issued_receipt_def)
qed

lemma save_receipt_Inr: "save_receipt P entries r = Inr entries' \<longleftrightarrow> receipt_ok P r \<and>
    map_of entries (receiptKey (rc_tenantId r) (rc_intakeId r)) = None \<and>
    entries' = map_set (receiptKey (rc_tenantId r) (rc_intakeId r)) r entries"
  by (auto simp: save_receipt_def Let_def after_Inr first_throw_None fail_if_None receipt_iff)

lemma intake_step_logs:
  "intake_step P y z \<Longrightarrow> log_step P (taken_in P) (fst y, map snd (snd y)) (fst z, map snd (snd z))"
  by (induction rule: intake_step.induct)
    (auto simp: save_receipt_Inr map_set_new taken_in_def intro: log_step.changes intro!: log_step.logs)

text \<open>C30: Along any sequence of operations and intakes from a case without receipts, every receipt that the repository lists for it is
  backed by the case, no two are for the same material or the same evidence, and they stand in the order of the revisions they made.\<close>

theorem receipts_are_backed:
  assumes "(intake_step P)\<^sup>*\<^sup>* (opened, []) (c, entries)"
    and "listByCase entries (kc_tenantId c) (kc_caseId c) = Inr rs"
  shows "(\<forall>r \<in> set rs. backed c r) \<and> distinct (map rc_materialId rs) \<and> distinct (map rc_evidenceRef rs) \<and>
    sorted_wrt (<) (map rc_caseRevision rs)"
proof -
  have "(log_step P (taken_in P))\<^sup>*\<^sup>* (opened, []) (fst y, map snd (snd y))" if "(intake_step P)\<^sup>*\<^sup>* (opened, []) y" for y
    using that by (induction rule: rtranclp_induct) (auto dest!: intake_step_logs intro: rtranclp.rtrancl_into_rtrancl)
  then have "receipt_log.log_ok c (map snd entries)" using receipt_log.log_runs [of P opened c "map snd entries"] assms(1) by fastforce
  moreover have "rs = filter (\<lambda>r. rc_tenantId r = kc_tenantId c \<and> rc_caseId r = kc_caseId c) (map snd entries)"
    using assms(2) by (simp add: listByCase_def after_Inr)
  ultimately have "receipt_log.log_ok c rs" using receipt_log.log_ok_filter by blast
  then show ?thesis by (simp add: receipt_log.log_ok_def)
qed

definition sample_submission :: evidence_submission where
  "sample_submission = \<lparr>sb_intakeId = ''intake-1'', sb_caseId = ''case-1'', sb_materialId = ''deed'', sb_categoryId = ''title-deed'',
     sb_evidence = ReferencedEvidence ''evidence-1'', sb_requirementIds = [''legal.title''], sb_observedAt = None,
     sb_sourceRef = None, sb_correlationId = None\<rparr>"

lemma sample_take_in: "may_take_in P (sample_case_context ''2025-06-15T14:30:00Z'') sample_active sample_submission"
proof -
  have "isValidEvidenceIntakeId ''intake-1''" "isValidEvidenceIntakeCategoryId ''title-deed''" by code_simp+
  moreover have "kc_caseId sample_active = ''case-1''"
    by (simp add: sample_active_def activated_case_def sample_opened_def initial_case_def sample_case_input_def)
  moreover have "requirements_ok [''legal.title''] sample_case_profile sample_active"
    using sample_adding(2) by (simp add: sample_material_def)
  ultimately show ?thesis
    using sample_may_change [of P] sample_adding(1,3,4) sample_case_identifiers
    by (auto simp: may_take_in_def admissible_def intake_terms_ok_def submittedEvidenceRef_def isValidProtocolizationMaterialId_def
        isValidRequirementIdList_iff isCanonicalRecordId_def trim_def js_space_def ASSET_IDENTIFIER_MAX_LENGTH_def optional_ok_def
        sample_submission_def)
qed

theorem receipts_are_backed_witness:
  "\<exists>entries r. listByCase entries ''tenant-a'' ''case-1'' = Inr [r] \<and>
    backed (with_material sample_active (evidence_material sample_submission ''2025-06-15T14:30:00Z'')) r"
proof -
  let ?c = "with_material sample_active (evidence_material sample_submission ''2025-06-15T14:30:00Z'')"
    and ?r = "issued_receipt sample_submission sample_active ''2025-06-15T14:30:00Z''"
  let ?entries = "[(receiptKey ''tenant-a'' ''intake-1'', ?r)]"
  obtain tr where tr: "intakeProtocolizationEvidence zero_platform (sample_case_context ''2025-06-15T14:30:00Z'') sample_active sample_submission = Inr tr"
      "it_case tr = ?c" "it_receipt tr = ?r"
    using intakes [of zero_platform "sample_case_context ''2025-06-15T14:30:00Z''" sample_active sample_submission ?c ?r]
      sample_take_in [of zero_platform] sample_adding(5) by metis
  have ids: "kc_tenantId sample_active = ''tenant-a''" "kc_caseId sample_active = ''case-1''"
    by (simp_all add: sample_active_def activated_case_def sample_opened_def initial_case_def sample_case_input_def)
  then have r: "rc_tenantId ?r = ''tenant-a''" "rc_intakeId ?r = ''intake-1''" "rc_caseId ?r = ''case-1''"
    by (simp_all add: issued_receipt_def sample_submission_def)
  obtain e where "tr = \<lparr>it_case = ?c, it_receipt = receipt_of sample_submission ?c e, it_caseEvent = e,
      it_intakeEvent = received (receipt_of sample_submission ?c e)\<rparr>" and
      add: "addProtocolizationCaseMaterial zero_platform (sample_case_context ''2025-06-15T14:30:00Z'') sample_active (evidence_input sample_submission) = Inr (?c, e)"
    using tr(1) unfolding intakes_iff tr(2) by blast
  then have "?r = receipt_of sample_submission ?c e" using tr(3) by (metis intake_transition.select_convs(2))
  then have "?r = issued_receipt sample_submission sample_active (ev_occurredAt (event_base e))" by (simp add: receipt_issued)
  then have "ev_occurredAt (event_base e) = cc_now (sample_case_context ''2025-06-15T14:30:00Z'')"
    using sample_adding(5) by (simp add: issued_receipt_def)
  then have "receipt_ok zero_platform ?r"
    using receipt_never_refused [OF sample_take_in, of e zero_platform] receipt_issued sample_adding(5) by metis
  then have saved: "save_receipt zero_platform [] ?r = Inr ?entries" using r by (simp add: save_receipt_Inr)
  have "(intake_step zero_platform)\<^sup>*\<^sup>* (sample_opened, []) (sample_active, [])"
    by (rule r_into_rtranclp, rule changes, rule activates, rule sample_activates)
  moreover have "intake_step zero_platform (sample_active, []) (?c, ?entries)"
    using takes_in [OF tr(1), of "[]" ?entries] saved tr(2,3) by simp
  ultimately have run: "(intake_step zero_platform)\<^sup>*\<^sup>* (sample_opened, []) (?c, ?entries)" by (rule rtranclp.rtrancl_into_rtrancl)
  have list: "listByCase ?entries (kc_tenantId ?c) (kc_caseId ?c) = Inr [?r]"
    using r ids sample_case_identifiers(6) by (simp add: listByCase_def assertReceiptTenant_def fail_if_def with_material_def)
  have "backed ?c ?r" using receipts_are_backed [OF run list] by simp
  then show ?thesis using list ids by (auto simp: with_material_def)
qed

end
