(* ===== verification/Declarations.thy ===== *)
theory Declarations
  imports EvidenceIntake
begin

text \<open>
  \<open>packages/asset-protocolization/src/declarations/\<close>: the recording of a declaration, an assertion of a participant, in a
  protocolization case.  A declaration becomes a material of the case that names a claim, and a record; the lemmas show what
  each record in the repository is backed by in the case and in the profile the case is pinned to.  The rule for reference sources
  is that of evidence intake, whose definition is used.
\<close>

section \<open>Submissions and records\<close>

record principal_ref =
  pl_id :: string
  pl_kind :: string
  pl_displayName :: "string option"
  pl_source :: "reference_source option"
  pl_metadata :: "json option"

text \<open>What the recording reads of a claim document; the document itself is discarded.\<close>

record canonical_claim =
  cl_id :: string
  cl_type :: string
  cl_issuedAt :: string

datatype declaration_pathway =
    ReferencePathway string string
  | CanonicalPathway canonical_claim

record declaration_submission =
  ds_declarationId :: string
  ds_caseId :: string
  ds_materialId :: string
  ds_declarant :: principal_ref
  ds_pathway :: declaration_pathway
  ds_claimSubtype :: "string option"
  ds_statement :: "string option"
  ds_requirementIds :: "string list"
  ds_supportingEvidenceRefs :: "string list option"
  ds_declaredAt :: "string option"
  ds_sourceRef :: "reference_source option"
  ds_correlationId :: "string option"

definition submittedClaimRef :: "declaration_submission \<Rightarrow> string" where
  "submittedClaimRef submission = (case ds_pathway submission of CanonicalPathway claim \<Rightarrow> cl_id claim | ReferencePathway claimRef claimType \<Rightarrow> claimRef)"

definition submittedClaimType :: "declaration_submission \<Rightarrow> string" where
  "submittedClaimType submission = (case ds_pathway submission of CanonicalPathway claim \<Rightarrow> cl_type claim | ReferencePathway claimRef claimType \<Rightarrow> claimType)"

record declaration_record =
  dr_schemaVersion :: string
  dr_declarationId :: string
  dr_tenantId :: string
  dr_caseId :: string
  dr_profile :: profile_ref
  dr_declarant :: principal_ref
  dr_claimType :: string
  dr_claimSubtype :: "string option"
  dr_claimRef :: string
  dr_materialId :: string
  dr_requirementIds :: "string list"
  dr_supportingEvidenceRefs :: "string list option"
  dr_statement :: "string option"
  dr_declaredAt :: "string option"
  dr_recordedAt :: string
  dr_sourceRef :: "reference_source option"
  dr_caseRevision :: int
  dr_correlationId :: "string option"

definition PROTOCOLIZATION_DECLARATION_RECORD_SCHEMA_VERSION :: string where
  "PROTOCOLIZATION_DECLARATION_RECORD_SCHEMA_VERSION = ''aoc-protocolization-declaration/1''"

section \<open>Validation\<close>

definition isValidDeclarationId :: "string \<Rightarrow> bool" where
  "isValidDeclarationId v = isProtocolizationInstanceIdentifier v"

definition STATEMENT_MAX_LENGTH :: nat where
  "STATEMENT_MAX_LENGTH = 4096"

definition isClaimType :: "string \<Rightarrow> bool" where
  "isClaimType v \<longleftrightarrow> v \<in> set CLAIM_TYPES"

definition isUsableDeclarantRef :: "principal_ref \<Rightarrow> bool" where
  "isUsableDeclarantRef v \<longleftrightarrow> isCanonicalRecordId (pl_id v) \<and> pl_kind v \<in> set PRINCIPAL_KINDS"

definition isAdmissibleCanonicalClaim :: "platform \<Rightarrow> canonical_claim \<Rightarrow> bool" where
  "isAdmissibleCanonicalClaim P v \<longleftrightarrow> isCanonicalRecordId (cl_id v) \<and> isClaimType (cl_type v) \<and> isValidUtcDateTime P (cl_issuedAt v)"

definition isBoundedToken :: "string \<Rightarrow> bool" where
  "isBoundedToken v \<longleftrightarrow> trim v \<noteq> [] \<and> length v \<le> ASSET_IDENTIFIER_MAX_LENGTH"

definition declaration_checkRequirementIds :: "string list \<Rightarrow> string list" where
  "declaration_checkRequirementIds v = (if v = [] then [''DECLARATION_REQUIREMENT_IDS_INVALID'']
     else if \<not> requirement_ids_loop {} v then [''DECLARATION_REQUIREMENT_IDS_INVALID''] else [])"

definition checkSupportingEvidenceRefs :: "string list \<Rightarrow> string list" where
  "checkSupportingEvidenceRefs v = (if v = [] then [''DECLARATION_SUPPORTING_EVIDENCE_REFS_INVALID'']
     else if \<not> unique_list_loop isCanonicalRecordId (\<lambda>entry. entry) {} v then [''DECLARATION_SUPPORTING_EVIDENCE_REFS_INVALID'']
     else [])"

definition checkStatement :: "string \<Rightarrow> string list" where
  "checkStatement v = reason_when (trim v = [] \<or> length v > STATEMENT_MAX_LENGTH) ''DECLARATION_STATEMENT_INVALID''"

definition checkSharedOptionals :: "platform \<Rightarrow> string option \<Rightarrow> string option \<Rightarrow> string list option \<Rightarrow> string option \<Rightarrow>
    reference_source option \<Rightarrow> string option \<Rightarrow> string list" where
  "checkSharedOptionals P claimSubtype statement supportingEvidenceRefs declaredAt sourceRef correlationId =
     reason_when (present_and (\<lambda>s. \<not> isBoundedToken s) claimSubtype) ''DECLARATION_CLAIM_SUBTYPE_INVALID'' @
     (case statement of None \<Rightarrow> [] | Some s \<Rightarrow> checkStatement s) @
     (case supportingEvidenceRefs of None \<Rightarrow> [] | Some l \<Rightarrow> checkSupportingEvidenceRefs l) @
     reason_when (present_and (\<lambda>t. \<not> isValidUtcDateTime P t) declaredAt) ''DECLARATION_DECLARED_AT_INVALID'' @
     reason_when (present_and (\<lambda>s. \<not> isUsableReferenceSource s) sourceRef) ''DECLARATION_SOURCE_REF_INVALID'' @
     reason_when (present_and (\<lambda>i. \<not> isCanonicalRecordId i) correlationId) ''DECLARATION_CORRELATION_ID_INVALID''"

definition validateProtocolizationDeclarationSubmission :: "platform \<Rightarrow> declaration_submission \<Rightarrow> string list" where
  "validateProtocolizationDeclarationSubmission P v =
     reason_when (\<not> isValidDeclarationId (ds_declarationId v)) ''DECLARATION_ID_INVALID'' @
     reason_when (\<not> isValidProtocolizationCaseId (ds_caseId v)) ''DECLARATION_CASE_ID_INVALID'' @
     reason_when (\<not> isValidProtocolizationMaterialId (ds_materialId v)) ''DECLARATION_MATERIAL_ID_INVALID'' @
     reason_when (\<not> isUsableDeclarantRef (ds_declarant v)) ''DECLARATION_DECLARANT_INVALID'' @
     declaration_checkRequirementIds (ds_requirementIds v) @
     (case ds_pathway v of
        ReferencePathway claimRef claimType \<Rightarrow>
          reason_when (\<not> isCanonicalRecordId claimRef) ''DECLARATION_CLAIM_REF_INVALID'' @
          reason_when (\<not> isClaimType claimType) ''DECLARATION_CLAIM_TYPE_INVALID''
      | CanonicalPathway claim \<Rightarrow> reason_when (\<not> isAdmissibleCanonicalClaim P claim) ''DECLARATION_CLAIM_DOCUMENT_INVALID'') @
     checkSharedOptionals P (ds_claimSubtype v) (ds_statement v) (ds_supportingEvidenceRefs v) (ds_declaredAt v) (ds_sourceRef v)
       (ds_correlationId v)"

definition isAdmissibleProtocolizationDeclarationSubmission :: "platform \<Rightarrow> declaration_submission \<Rightarrow> bool" where
  "isAdmissibleProtocolizationDeclarationSubmission P v \<longleftrightarrow> validateProtocolizationDeclarationSubmission P v = []"

definition validateProtocolizationDeclarationRecord :: "platform \<Rightarrow> declaration_record \<Rightarrow> string list" where
  "validateProtocolizationDeclarationRecord P v =
     reason_when (dr_schemaVersion v \<noteq> PROTOCOLIZATION_DECLARATION_RECORD_SCHEMA_VERSION) ''DECLARATION_SCHEMA_VERSION_INVALID'' @
     reason_when (\<not> isValidDeclarationId (dr_declarationId v)) ''DECLARATION_ID_INVALID'' @
     reason_when (\<not> isValidProtocolizationTenantId (dr_tenantId v)) ''DECLARATION_TENANT_ID_INVALID'' @
     reason_when (\<not> isValidProtocolizationCaseId (dr_caseId v)) ''DECLARATION_CASE_ID_INVALID'' @
     reason_when (\<not> isValidProtocolizationProfileRef (dr_profile v)) ''DECLARATION_PROFILE_REF_INVALID'' @
     reason_when (\<not> isUsableDeclarantRef (dr_declarant v)) ''DECLARATION_DECLARANT_INVALID'' @
     reason_when (\<not> isClaimType (dr_claimType v)) ''DECLARATION_CLAIM_TYPE_INVALID'' @
     reason_when (\<not> isCanonicalRecordId (dr_claimRef v)) ''DECLARATION_CLAIM_REF_INVALID'' @
     reason_when (\<not> isValidProtocolizationMaterialId (dr_materialId v)) ''DECLARATION_MATERIAL_ID_INVALID'' @
     declaration_checkRequirementIds (dr_requirementIds v) @
     reason_when (\<not> isValidUtcDateTime P (dr_recordedAt v)) ''DECLARATION_RECORDED_AT_INVALID'' @
     reason_when (\<bar>dr_caseRevision v\<bar> > MAX_SAFE_INTEGER \<or> dr_caseRevision v < 1) ''DECLARATION_CASE_REVISION_INVALID'' @
     checkSharedOptionals P (dr_claimSubtype v) (dr_statement v) (dr_supportingEvidenceRefs v) (dr_declaredAt v) (dr_sourceRef v)
       (dr_correlationId v)"

definition isValidProtocolizationDeclarationRecord :: "platform \<Rightarrow> declaration_record \<Rightarrow> bool" where
  "isValidProtocolizationDeclarationRecord P v \<longleftrightarrow> validateProtocolizationDeclarationRecord P v = []"

section \<open>The recording\<close>

record recorded_event =
  rd_declarationId :: string
  rd_tenantId :: string
  rd_caseId :: string
  rd_profile :: profile_ref
  rd_declarant :: principal_ref
  rd_claimType :: string
  rd_claimSubtype :: "string option"
  rd_claimRef :: string
  rd_materialId :: string
  rd_requirementIds :: "string list"
  rd_supportingEvidenceRefs :: "string list option"
  rd_occurredAt :: string
  rd_declaredAt :: "string option"
  rd_caseRevision :: int
  rd_correlationId :: "string option"

record declaration_transition =
  dt_case :: protocolization_case
  dt_record :: declaration_record
  dt_caseEvent :: case_event
  dt_declarationEvent :: recorded_event

definition declaration_assertActingTenantOwnsCase :: "case_context \<Rightarrow> protocolization_case \<Rightarrow> case_error option" where
  "declaration_assertActingTenantOwnsCase ctx c = first_throw [
     fail_if (\<not> isValidProtocolizationTenantId (cc_tenantId ctx)) ''DECLARATION_TENANT_REQUIRED''
       ''A non-blank acting tenantId is required'' [''DECLARATION_TENANT_REQUIRED''],
     fail_if (kc_tenantId c \<noteq> cc_tenantId ctx) ''PROTOCOLIZATION_CASE_TENANT_MISMATCH''
       ''The acting tenant does not own this ProtocolizationCase'' [''PROTOCOLIZATION_CASE_TENANT_MISMATCH'']]"

definition assertClaimNotAlreadyInCase :: "protocolization_case \<Rightarrow> string \<Rightarrow> case_error option" where
  "assertClaimNotAlreadyInCase c claimRef =
     (case find (\<lambda>material. mt_payload material = DeclarationPayload claimRef) (kc_materials c) of
        None \<Rightarrow> None
      | Some existing \<Rightarrow> Some (case_failure ''DECLARATION_DUPLICATE_CLAIM''
          (''This case already holds declaration material '' @ mt_materialId existing @ '' for this canonical claim'')
          [''DECLARATION_DUPLICATE_CLAIM'']))"

text \<open>The references of the evidence materials of a case.\<close>

definition evidence_refs :: "protocolization_case \<Rightarrow> string list" where
  "evidence_refs c = concat (map (\<lambda>material. case mt_payload material of EvidencePayload r \<Rightarrow> [r] | _ \<Rightarrow> []) (kc_materials c))"

fun links_loop :: "string set \<Rightarrow> string list \<Rightarrow> case_error option" where
  "links_loop admitted [] = None"
| "links_loop admitted (evidenceRef # evidenceRefs) =
     (if evidenceRef \<notin> admitted then Some (case_failure ''DECLARATION_EVIDENCE_LINK_UNKNOWN''
        ''A supporting evidence reference is not evidence material in this case'' [''DECLARATION_EVIDENCE_LINK_UNKNOWN''])
      else links_loop admitted evidenceRefs)"

definition assertEvidenceLinksResolve :: "protocolization_case \<Rightarrow> declaration_submission \<Rightarrow> case_error option" where
  "assertEvidenceLinksResolve c submission = (case ds_supportingEvidenceRefs submission of None \<Rightarrow> None
     | Some evidenceRefs \<Rightarrow> links_loop (set (evidence_refs c)) evidenceRefs)"

text \<open>A requirement that asks for another declaration than the one submitted.\<close>

definition mismatched :: "string \<Rightarrow> string option \<Rightarrow> asset_requirement \<Rightarrow> bool" where
  "mismatched claimType claimSubtype requirement \<longleftrightarrow> (case rq_terms requirement of
     DeclarationTerms t s n \<Rightarrow> t \<noteq> claimType \<or> s \<noteq> None \<and> s \<noteq> claimSubtype | _ \<Rightarrow> False)"

text \<open>\<open>new Map\<close> of the requirements by identifier: of two with the same identifier the later stands.\<close>

definition requirement_by_id :: "asset_profile \<Rightarrow> string \<Rightarrow> asset_requirement option" where
  "requirement_by_id profile = map_of (rev (map (\<lambda>requirement. (rq_id requirement, requirement)) (ap_requirements profile)))"

definition assertDeclarationRequirementCompatibility ::
  "case_context \<Rightarrow> protocolization_case \<Rightarrow> declaration_submission \<Rightarrow> string \<Rightarrow> case_error option" where
  "assertDeclarationRequirementCompatibility ctx c submission claimType = (let pin = kc_profile c in
     case cc_catalog ctx (pf_profileId pin) (pf_profileVersion pin) of
       None \<Rightarrow> Some (case_failure ''PROTOCOLIZATION_CASE_PROFILE_NOT_FOUND''
         (''No AssetProfile '' @ pf_profileId pin @ ''@'' @ pf_profileVersion pin @ '' is catalogued'')
         [''PROTOCOLIZATION_CASE_PROFILE_NOT_FOUND''])
     | Some profile \<Rightarrow>
       let resolved = map (requirement_by_id profile) (ds_requirementIds submission) in
       if list_ex (\<lambda>requirement. requirement = None) resolved then None
       else let requirements = map the resolved;
           incompatible = filter (\<lambda>requirement. rq_kind requirement \<noteq> ''Declaration'') requirements;
           wrong = filter (mismatched claimType (ds_claimSubtype submission)) requirements in
         first_throw [
           fail_if (incompatible \<noteq> []) ''DECLARATION_REQUIREMENT_INCOMPATIBLE''
             (''A declaration may only be correlated to declaration requirements of the pinned profile; these are not: '' @
               join '', '' (map (\<lambda>requirement. rq_id requirement @ '' ('' @ rq_kind requirement @ '')'') incompatible))
             [''DECLARATION_REQUIREMENT_INCOMPATIBLE''],
           fail_if (wrong \<noteq> []) ''DECLARATION_CLAIM_TYPE_MISMATCH''
             (''The pinned profile requires a different declaration for: '' @ join '', '' (map rq_id wrong))
             [''DECLARATION_CLAIM_TYPE_MISMATCH'']])"

definition declaration_input :: "declaration_submission \<Rightarrow> material_input" where
  "declaration_input submission = \<lparr>mn_materialId = ds_materialId submission,
     mn_payload = DeclarationPayload (submittedClaimRef submission), mn_requirementIds = ds_requirementIds submission,
     mn_correlationId = ds_correlationId submission\<rparr>"

definition record_of :: "declaration_submission \<Rightarrow> protocolization_case \<Rightarrow> case_event \<Rightarrow> declaration_record" where
  "record_of submission next event = \<lparr>dr_schemaVersion = PROTOCOLIZATION_DECLARATION_RECORD_SCHEMA_VERSION,
     dr_declarationId = ds_declarationId submission, dr_tenantId = kc_tenantId next, dr_caseId = kc_caseId next,
     dr_profile = kc_profile next, dr_declarant = ds_declarant submission, dr_claimType = submittedClaimType submission,
     dr_claimSubtype = ds_claimSubtype submission, dr_claimRef = submittedClaimRef submission, dr_materialId = ds_materialId submission,
     dr_requirementIds = ds_requirementIds submission, dr_supportingEvidenceRefs = ds_supportingEvidenceRefs submission,
     dr_statement = ds_statement submission, dr_declaredAt = ds_declaredAt submission,
     dr_recordedAt = ev_occurredAt (event_base event), dr_sourceRef = ds_sourceRef submission, dr_caseRevision = kc_revision next,
     dr_correlationId = ds_correlationId submission\<rparr>"

definition declaration_event_of :: "declaration_record \<Rightarrow> recorded_event" where
  "declaration_event_of r = \<lparr>rd_declarationId = dr_declarationId r, rd_tenantId = dr_tenantId r, rd_caseId = dr_caseId r, rd_profile = dr_profile r,
     rd_declarant = dr_declarant r, rd_claimType = dr_claimType r, rd_claimSubtype = dr_claimSubtype r, rd_claimRef = dr_claimRef r,
     rd_materialId = dr_materialId r, rd_requirementIds = dr_requirementIds r,
     rd_supportingEvidenceRefs = dr_supportingEvidenceRefs r, rd_occurredAt = dr_recordedAt r, rd_declaredAt = dr_declaredAt r,
     rd_caseRevision = dr_caseRevision r, rd_correlationId = dr_correlationId r\<rparr>"

definition recordProtocolizationDeclaration ::
  "platform \<Rightarrow> case_context \<Rightarrow> protocolization_case \<Rightarrow> declaration_submission \<Rightarrow> declaration_transition case_result" where
  "recordProtocolizationDeclaration P ctx c submission = (let reasons = validateProtocolizationDeclarationSubmission P submission in
     after (first_throw [declaration_assertActingTenantOwnsCase ctx c,
       fail_if (reasons \<noteq> []) ''DECLARATION_SUBMISSION_INVALID'' (''Declaration submission was not admitted: '' @ join '', '' reasons) reasons,
       fail_if (ds_caseId submission \<noteq> kc_caseId c) ''DECLARATION_CASE_MISMATCH''
         ''The submission names a different ProtocolizationCase'' [''DECLARATION_CASE_MISMATCH''],
       assertClaimNotAlreadyInCase c (submittedClaimRef submission),
       assertEvidenceLinksResolve c submission,
       assertDeclarationRequirementCompatibility ctx c submission (submittedClaimType submission)])
     (bind_result (addProtocolizationCaseMaterial P ctx c (declaration_input submission)) (\<lambda>(next, event).
      let r = record_of submission next event; faults = validateProtocolizationDeclarationRecord P r in
      after (fail_if (faults \<noteq> []) ''DECLARATION_RECORD_INVALID''
        (''Refusing to produce an invalid ProtocolizationDeclarationRecord: '' @ join '', '' faults) faults)
      (Inr \<lparr>dt_case = next, dt_record = r, dt_caseEvent = event, dt_declarationEvent = declaration_event_of r\<rparr>))))"

definition reconstituteProtocolizationDeclarationRecord :: "platform \<Rightarrow> declaration_record \<Rightarrow> declaration_record case_result" where
  "reconstituteProtocolizationDeclarationRecord P v = (let faults = validateProtocolizationDeclarationRecord P v in
     after (fail_if (faults \<noteq> []) ''DECLARATION_RECORD_INVALID''
       (''Refusing to reconstitute an invalid ProtocolizationDeclarationRecord: '' @ join '', '' faults) faults) (Inr v))"

section \<open>The repository\<close>

type_synonym declaration_store = "(string \<times> declaration_record) list"

definition declarationKey :: "string \<Rightarrow> string \<Rightarrow> string" where
  "declarationKey tenantId declarationId = tenantId @ line_feed # declarationId"

definition assertDeclarationTenant :: "string \<Rightarrow> case_error option" where
  "assertDeclarationTenant tenantId = fail_if (\<not> isValidProtocolizationTenantId tenantId) ''DECLARATION_TENANT_REQUIRED''
     ''A non-blank tenantId is required to address a ProtocolizationDeclarationRecord'' [''DECLARATION_TENANT_REQUIRED'']"

definition get_declaration :: "declaration_store \<Rightarrow> string \<Rightarrow> string \<Rightarrow> declaration_record option case_result" where
  "get_declaration entries tenantId declarationId =
     after (assertDeclarationTenant tenantId) (Inr (map_of entries (declarationKey tenantId declarationId)))"

definition declaration_exists :: "declaration_store \<Rightarrow> string \<Rightarrow> string \<Rightarrow> bool case_result" where
  "declaration_exists entries tenantId declarationId =
     after (assertDeclarationTenant tenantId) (Inr (map_of entries (declarationKey tenantId declarationId) \<noteq> None))"

definition list_declarations :: "declaration_store \<Rightarrow> string \<Rightarrow> string \<Rightarrow> declaration_record list case_result" where
  "list_declarations entries tenantId caseId = after (assertDeclarationTenant tenantId)
     (Inr (filter (\<lambda>r. dr_tenantId r = tenantId \<and> dr_caseId r = caseId) (map snd entries)))"

definition save_declaration :: "platform \<Rightarrow> declaration_store \<Rightarrow> declaration_record \<Rightarrow> declaration_store case_result" where
  "save_declaration P entries r = (let faults = validateProtocolizationDeclarationRecord P r;
       key = declarationKey (dr_tenantId r) (dr_declarationId r) in
     after (first_throw [
       fail_if (faults \<noteq> []) ''DECLARATION_RECORD_INVALID''
         (''Refusing to store an invalid ProtocolizationDeclarationRecord: '' @ join '', '' faults) faults,
       fail_if (map_of entries key \<noteq> None) ''DECLARATION_DUPLICATE''
         ''A ProtocolizationDeclarationRecord with this (tenantId, declarationId) already exists'' [''DECLARATION_DUPLICATE'']])
     (Inr (map_set key r entries)))"

section \<open>When a recording succeeds\<close>

lemma declaration_requirement_ids_Nil [simp]: "declaration_checkRequirementIds v = [] \<longleftrightarrow> isValidRequirementIdList v"
  by (simp add: declaration_checkRequirementIds_def isValidRequirementIdList_def)

text \<open>What submission and record have in common.\<close>

definition declaration_terms_ok :: "platform \<Rightarrow> string \<Rightarrow> string \<Rightarrow> string \<Rightarrow> principal_ref \<Rightarrow> string list \<Rightarrow> string \<Rightarrow> string \<Rightarrow>
    string option \<Rightarrow> string option \<Rightarrow> string list option \<Rightarrow> string option \<Rightarrow> reference_source option \<Rightarrow> string option \<Rightarrow> bool" where
  "declaration_terms_ok P declarationId caseId materialId declarant requirementIds claimRef claimType claimSubtype statement
     evidenceRefs declaredAt sourceRef correlationId \<longleftrightarrow>
     isValidDeclarationId declarationId \<and> isValidProtocolizationCaseId caseId \<and> isValidProtocolizationMaterialId materialId \<and>
     isUsableDeclarantRef declarant \<and> isValidRequirementIdList requirementIds \<and> isCanonicalRecordId claimRef \<and> isClaimType claimType \<and>
     checkSharedOptionals P claimSubtype statement evidenceRefs declaredAt sourceRef correlationId = []"

definition declarable :: "platform \<Rightarrow> declaration_submission \<Rightarrow> bool" where
  "declarable P v \<longleftrightarrow> declaration_terms_ok P (ds_declarationId v) (ds_caseId v) (ds_materialId v) (ds_declarant v) (ds_requirementIds v)
     (submittedClaimRef v) (submittedClaimType v) (ds_claimSubtype v) (ds_statement v) (ds_supportingEvidenceRefs v) (ds_declaredAt v)
     (ds_sourceRef v) (ds_correlationId v) \<and>
     (case ds_pathway v of ReferencePathway r t \<Rightarrow> True | CanonicalPathway claim \<Rightarrow> isAdmissibleCanonicalClaim P claim)"

definition record_ok :: "platform \<Rightarrow> declaration_record \<Rightarrow> bool" where
  "record_ok P v \<longleftrightarrow> declaration_terms_ok P (dr_declarationId v) (dr_caseId v) (dr_materialId v) (dr_declarant v) (dr_requirementIds v)
     (dr_claimRef v) (dr_claimType v) (dr_claimSubtype v) (dr_statement v) (dr_supportingEvidenceRefs v) (dr_declaredAt v)
     (dr_sourceRef v) (dr_correlationId v) \<and>
     dr_schemaVersion v = PROTOCOLIZATION_DECLARATION_RECORD_SCHEMA_VERSION \<and> isValidProtocolizationTenantId (dr_tenantId v) \<and>
     isValidProtocolizationProfileRef (dr_profile v) \<and> isValidUtcDateTime P (dr_recordedAt v) \<and>
     1 \<le> dr_caseRevision v \<and> dr_caseRevision v \<le> MAX_SAFE_INTEGER"

lemma declarable_iff: "validateProtocolizationDeclarationSubmission P v = [] \<longleftrightarrow> declarable P v"
  by (auto simp: validateProtocolizationDeclarationSubmission_def declarable_def declaration_terms_ok_def submittedClaimRef_def
      submittedClaimType_def isAdmissibleCanonicalClaim_def split: declaration_pathway.splits)

lemma record_iff: "validateProtocolizationDeclarationRecord P v = [] \<longleftrightarrow> record_ok P v"
  by (auto simp: validateProtocolizationDeclarationRecord_def record_ok_def declaration_terms_ok_def)

lemma claim_not_in_case: "assertClaimNotAlreadyInCase c r = None \<longleftrightarrow> DeclarationPayload r \<notin> mt_payload ` set (kc_materials c)"
  by (simp add: assertClaimNotAlreadyInCase_def no_such_payload [symmetric] split: option.splits)

lemma set_evidence_refs: "r \<in> set (evidence_refs c) \<longleftrightarrow> EvidencePayload r \<in> mt_payload ` set (kc_materials c)"
  by (force simp: evidence_refs_def image_iff split: material_payload.splits)

text \<open>The evidence a declaration points at is in the case.\<close>

definition links_resolve :: "protocolization_case \<Rightarrow> string list option \<Rightarrow> bool" where
  "links_resolve c refs \<longleftrightarrow> (\<forall>r \<in> set (case refs of None \<Rightarrow> [] | Some l \<Rightarrow> l). EvidencePayload r \<in> mt_payload ` set (kc_materials c))"

lemma links_loop_None: "links_loop A l = None \<longleftrightarrow> set l \<subseteq> A"
  by (induction l) auto

lemma evidence_links_resolve: "assertEvidenceLinksResolve c s = None \<longleftrightarrow> links_resolve c (ds_supportingEvidenceRefs s)"
  by (auto simp: assertEvidenceLinksResolve_def links_resolve_def links_loop_None set_evidence_refs subset_iff split: option.splits)

text \<open>The profile asks, under a requirement, for a declaration of this type and subtype.\<close>

definition asks_for :: "asset_profile \<Rightarrow> string \<Rightarrow> string option \<Rightarrow> string \<Rightarrow> bool" where
  "asks_for profile t s i \<longleftrightarrow> (\<exists>q n sub. requirement_by_id profile i = Some q \<and> rq_terms q = DeclarationTerms t sub n \<and> (sub = None \<or> sub = s))"

lemma asks_for_iff: "requirement_by_id profile i = Some q \<Longrightarrow>
  asks_for profile t s i \<longleftrightarrow> rq_kind q = ''Declaration'' \<and> \<not> mismatched t s q"
  by (auto simp: asks_for_def rq_kind_def mismatched_def split: requirement_terms.splits)

lemma known_requirement: "i \<in> set (map rq_id (ap_requirements profile)) \<longleftrightarrow> requirement_by_id profile i \<noteq> None"
  by (simp add: requirement_by_id_def map_of_eq_None_iff image_image)

lemma compatible_iff:
  "assertDeclarationRequirementCompatibility ctx c s t = None \<longleftrightarrow> (\<exists>profile. pinned ctx (kc_profile c) = Some profile \<and>
    ((\<exists>i \<in> set (ds_requirementIds s). requirement_by_id profile i = None) \<or>
     (\<forall>i \<in> set (ds_requirementIds s). asks_for profile t (ds_claimSubtype s) i)))"
proof (cases "pinned ctx (kc_profile c)")
  case (Some profile)
  let ?ids = "ds_requirementIds s" and ?wrong = "mismatched t (ds_claimSubtype s)"
  let ?resolved = "map (requirement_by_id profile) ?ids"
  have "assertDeclarationRequirementCompatibility ctx c s t = None \<longleftrightarrow> list_ex (\<lambda>q. q = None) ?resolved \<or>
      filter (\<lambda>q. rq_kind q \<noteq> ''Declaration'') (map the ?resolved) = [] \<and> filter ?wrong (map the ?resolved) = []"
    using Some unfolding assertDeclarationRequirementCompatibility_def pinned_def Let_def
    by (cases "list_ex (\<lambda>q. q = None) ?resolved") (simp_all add: first_throw_None fail_if_None del: map_map filter_empty_conv)
  also have "\<dots> \<longleftrightarrow> (\<exists>i \<in> set ?ids. requirement_by_id profile i = None) \<or>
      (\<forall>i \<in> set ?ids. rq_kind (the (requirement_by_id profile i)) = ''Declaration'' \<and> \<not> ?wrong (the (requirement_by_id profile i)))"
    unfolding list_ex_iff filter_empty_conv set_map bex_simps ball_simps by metis
  also have "\<dots> \<longleftrightarrow> (\<exists>i \<in> set ?ids. requirement_by_id profile i = None) \<or> (\<forall>i \<in> set ?ids. asks_for profile t (ds_claimSubtype s) i)"
    using asks_for_iff by (metis option.exhaust_sel)
  finally show ?thesis using Some by simp
qed (simp add: assertDeclarationRequirementCompatibility_def pinned_def Let_def)

text \<open>A tenant may declare: it may change the case, the case takes material, the submission is for it, neither its material nor its
  claim is in the case, its links resolve and every requirement it names asks for it.\<close>

definition may_declare :: "platform \<Rightarrow> case_context \<Rightarrow> protocolization_case \<Rightarrow> declaration_submission \<Rightarrow> bool" where
  "may_declare P ctx c s \<longleftrightarrow> may_change P ctx c \<and> kc_state c \<noteq> ''Cancelled'' \<and> declarable P s \<and> ds_caseId s = kc_caseId c \<and>
     ds_materialId s \<notin> mt_materialId ` set (kc_materials c) \<and>
     DeclarationPayload (submittedClaimRef s) \<notin> mt_payload ` set (kc_materials c) \<and> links_resolve c (ds_supportingEvidenceRefs s) \<and>
     (\<exists>profile. pinned ctx (kc_profile c) = Some profile \<and> requirements_ok (ds_requirementIds s) profile c \<and>
       (\<forall>i \<in> set (ds_requirementIds s). asks_for profile (submittedClaimType s) (ds_claimSubtype s) i))"

definition declaration_material :: "declaration_submission \<Rightarrow> string \<Rightarrow> case_material" where
  "declaration_material s t = material_of (declaration_input s) t"

lemma declaration_input_simps [simp]:
  "mn_materialId (declaration_input s) = ds_materialId s" "mn_requirementIds (declaration_input s) = ds_requirementIds s"
  by (simp_all add: declaration_input_def)

lemma declaration_material_simps [simp]:
  "mt_materialId (declaration_material s t) = ds_materialId s" "mt_requirementIds (declaration_material s t) = ds_requirementIds s"
  "mt_payload (declaration_material s t) = DeclarationPayload (submittedClaimRef s)" "mt_addedAt (declaration_material s t) = t"
  by (simp_all add: declaration_material_def declaration_input_def material_of_def)

definition issued_record :: "declaration_submission \<Rightarrow> protocolization_case \<Rightarrow> string \<Rightarrow> declaration_record" where
  "issued_record s c t = \<lparr>dr_schemaVersion = PROTOCOLIZATION_DECLARATION_RECORD_SCHEMA_VERSION,
     dr_declarationId = ds_declarationId s, dr_tenantId = kc_tenantId c, dr_caseId = kc_caseId c,
     dr_profile = kc_profile c, dr_declarant = ds_declarant s, dr_claimType = submittedClaimType s,
     dr_claimSubtype = ds_claimSubtype s, dr_claimRef = submittedClaimRef s, dr_materialId = ds_materialId s,
     dr_requirementIds = ds_requirementIds s, dr_supportingEvidenceRefs = ds_supportingEvidenceRefs s,
     dr_statement = ds_statement s, dr_declaredAt = ds_declaredAt s, dr_recordedAt = t, dr_sourceRef = ds_sourceRef s,
     dr_caseRevision = kc_revision c + 1, dr_correlationId = ds_correlationId s\<rparr>"

lemma record_issued: "record_of s (with_material c m) e = issued_record s c (ev_occurredAt (event_base e))"
  by (simp add: record_of_def issued_record_def with_material_def)

text \<open>Once the guards have passed the case takes the material exactly when the tenant may declare.\<close>

definition declaration_guards :: "platform \<Rightarrow> case_context \<Rightarrow> protocolization_case \<Rightarrow> declaration_submission \<Rightarrow> bool" where
  "declaration_guards P ctx c s \<longleftrightarrow> declarable P s \<and> ds_caseId s = kc_caseId c \<and>
     DeclarationPayload (submittedClaimRef s) \<notin> mt_payload ` set (kc_materials c) \<and> links_resolve c (ds_supportingEvidenceRefs s) \<and>
     assertDeclarationRequirementCompatibility ctx c s (submittedClaimType s) = None"

lemma declaration_material_ok:
  "declarable P s \<Longrightarrow> isValidUtcDateTime P t \<Longrightarrow> isValidProtocolizationCaseMaterial P (material_of (declaration_input s) t)"
  by (auto simp: declarable_def declaration_terms_ok_def isValidProtocolizationCaseMaterial_def material_of_def declaration_input_def
      checkSharedOptionals_def optional_ok_def split: option.splits)

lemma adds_declaration:
  assumes "declaration_guards P ctx c s"
  shows "addProtocolizationCaseMaterial P ctx c (declaration_input s) = Inr (next, e) \<longleftrightarrow>
    may_declare P ctx c s \<and> next = with_material c (declaration_material s (cc_now ctx)) \<and>
    e = ProtocolizationMaterialAdded (base_of next (ds_correlationId s)) (ds_materialId s) (material_kind (DeclarationPayload (submittedClaimRef s)))
      (ds_requirementIds s)"
proof -
  have "(\<exists>profile. pinned ctx (kc_profile c) = Some profile \<and> requirements_ok (ds_requirementIds s) profile c) \<longleftrightarrow>
    (\<exists>profile. pinned ctx (kc_profile c) = Some profile \<and> requirements_ok (ds_requirementIds s) profile c \<and>
       (\<forall>i \<in> set (ds_requirementIds s). asks_for profile (submittedClaimType s) (ds_claimSubtype s) i))"
    (is "(\<exists>profile. ?pin profile \<and> ?ok profile) \<longleftrightarrow> (\<exists>profile. ?pin profile \<and> ?ok profile \<and> ?asks profile)")
  proof -
    have "?asks profile" if "?pin profile" "?ok profile" for profile
    proof -
      have "set (ds_requirementIds s) \<subseteq> set (map rq_id (ap_requirements profile))" using that(2) by (simp add: requirements_ok_def)
      then have "\<forall>i \<in> set (ds_requirementIds s). requirement_by_id profile i \<noteq> None" using known_requirement by blast
      then show ?thesis using assms that(1) unfolding declaration_guards_def compatible_iff by force
    qed
    then show ?thesis by blast
  qed
  moreover have "may_change P ctx c \<Longrightarrow> isValidProtocolizationCaseMaterial P (material_of (declaration_input s) (cc_now ctx))"
    using assms declaration_material_ok [of P s "cc_now ctx"] by (simp add: declaration_guards_def may_change_def clock_ok_def)
  moreover have "mn_payload (declaration_input s) = DeclarationPayload (submittedClaimRef s)" "mn_correlationId (declaration_input s) = ds_correlationId s"
    by (simp_all add: declaration_input_def)
  ultimately show ?thesis
    using assms unfolding adds_iff may_declare_def declaration_guards_def declaration_material_def by (simp, blast)
qed

lemma record_never_refused:
  "may_declare P ctx c s \<Longrightarrow> record_ok P (issued_record s c (cc_now ctx))"
  by (auto simp: record_ok_def issued_record_def may_declare_def may_change_def case_ok_def header_ok_def
      declarable_def revisable_def clock_ok_def)

lemma record_guards:
  assumes "isValidProtocolizationTenantId (cc_tenantId ctx)" and "kc_tenantId c = cc_tenantId ctx" and "declaration_guards P ctx c s"
  shows "recordProtocolizationDeclaration P ctx c s =
    bind_result (addProtocolizationCaseMaterial P ctx c (declaration_input s)) (\<lambda>(next, event).
      let r = record_of s next event; faults = validateProtocolizationDeclarationRecord P r in
      after (fail_if (faults \<noteq> []) ''DECLARATION_RECORD_INVALID''
        (''Refusing to produce an invalid ProtocolizationDeclarationRecord: '' @ join '', '' faults) faults)
      (Inr \<lparr>dt_case = next, dt_record = r, dt_caseEvent = event, dt_declarationEvent = declaration_event_of r\<rparr>))"
proof -
  have "declaration_assertActingTenantOwnsCase ctx c = None"
    using assms(1,2) by (simp add: declaration_assertActingTenantOwnsCase_def first_throw_None fail_if_None)
  moreover have "assertClaimNotAlreadyInCase c (submittedClaimRef s) = None" "assertEvidenceLinksResolve c s = None"
    using assms(3) by (simp_all add: declaration_guards_def claim_not_in_case evidence_links_resolve)
  ultimately show ?thesis using assms(3)
    by (simp add: recordProtocolizationDeclaration_def declaration_guards_def declarable_iff fail_if_def after_def first_throw.simps)
qed

lemma may_declare_guards:
  assumes "may_declare P ctx c s"
  shows "isValidProtocolizationTenantId (cc_tenantId ctx)" "kc_tenantId c = cc_tenantId ctx" "declaration_guards P ctx c s"
  using assms case_tenant [of P c] by (auto simp: may_declare_def may_change_def declaration_guards_def compatible_iff)

lemma declared_guards:
  "recordProtocolizationDeclaration P ctx c s = Inr tr \<Longrightarrow> isValidProtocolizationTenantId (cc_tenantId ctx) \<and>
    kc_tenantId c = cc_tenantId ctx \<and> declaration_guards P ctx c s"
  unfolding recordProtocolizationDeclaration_def Let_def
  by (auto simp: after_Inr first_throw_None fail_if_None declaration_guards_def declarable_iff claim_not_in_case evidence_links_resolve
      declaration_assertActingTenantOwnsCase_def)

lemma declares:
  "(\<exists>tr. recordProtocolizationDeclaration P ctx c s = Inr tr \<and> dt_case tr = c' \<and> dt_record tr = r) \<longleftrightarrow>
   may_declare P ctx c s \<and> c' = with_material c (declaration_material s (cc_now ctx)) \<and> r = issued_record s c (cc_now ctx)"
proof (cases "isValidProtocolizationTenantId (cc_tenantId ctx) \<and> kc_tenantId c = cc_tenantId ctx \<and> declaration_guards P ctx c s")
  case True
  let ?next = "with_material c (declaration_material s (cc_now ctx))"
  let ?e = "ProtocolizationMaterialAdded (base_of ?next (ds_correlationId s)) (ds_materialId s)
    ''Declaration'' (ds_requirementIds s)"
  from True have guards: "isValidProtocolizationTenantId (cc_tenantId ctx)" "kc_tenantId c = cc_tenantId ctx" "declaration_guards P ctx c s"
    by simp_all
  have rec: "record_of s ?next ?e = issued_record s c (cc_now ctx)"
    unfolding record_issued by (simp add: base_of_def with_material_def)
  show ?thesis
  proof (cases "may_declare P ctx c s")
    case True
    then have "addProtocolizationCaseMaterial P ctx c (declaration_input s) = Inr (?next, ?e)"
      using adds_declaration [OF guards(3)] by simp
    then show ?thesis using True record_never_refused [OF True] unfolding record_guards [OF guards]
      by (auto simp: bind_result_def rec record_iff fail_if_def after_def Let_def)
  next
    case False
    then have "addProtocolizationCaseMaterial P ctx c (declaration_input s) \<noteq> Inr x" for x
      using adds_declaration [OF guards(3)] by (cases x) simp
    then show ?thesis using False unfolding record_guards [OF guards] by (auto simp: bind_result_Inr)
  qed
qed (use may_declare_guards declared_guards in blast)

text \<open>A submission that is not admitted is refused as such even when it names another case.\<close>

lemma admission_comes_before_case:
  assumes "declaration_assertActingTenantOwnsCase ctx c = None" and "\<not> declarable P s" and "ds_caseId s \<noteq> kc_caseId c"
  shows "\<exists>e. recordProtocolizationDeclaration P ctx c s = Inl e \<and> ce_code e = ''DECLARATION_SUBMISSION_INVALID''"
  using assms by (simp add: recordProtocolizationDeclaration_def declarable_iff after_def first_throw.simps fail_if_def case_failure_def Let_def)

text \<open>C29: Exactly when a declaration is recorded, and what case and record it then leaves: each requirement it names is one by which the
  pinned profile asks for a declaration of its type and subtype, and the evidence it points at is in the case.\<close>

theorem declaration_iff:
  "(\<exists>tr. recordProtocolizationDeclaration P ctx c s = Inr tr \<and> dt_case tr = c' \<and> dt_record tr = r) \<longleftrightarrow>
   may_declare P ctx c s \<and> c' = with_material c (declaration_material s (cc_now ctx)) \<and> r = issued_record s c (cc_now ctx)"
  by (rule declares)

section \<open>Records and the case\<close>

interpretation declarations: keyed_store "map_of :: declaration_store \<Rightarrow> _" map_set
  by unfold_locales (simp add: map_of_map_set)

text \<open>A record is backed by a case and the catalogue: the case holds the material with the claim, and the evidence pointed at; and the
  pinned profile asks for the declaration under each requirement of the record.\<close>

definition declaration_backed :: "(string \<Rightarrow> string \<Rightarrow> asset_profile option) \<Rightarrow> protocolization_case \<Rightarrow> declaration_record \<Rightarrow> bool" where
  "declaration_backed resolve c r \<longleftrightarrow> dr_profile r = kc_profile c \<and> dr_caseRevision r \<le> kc_revision c \<and>
     holds_material c (dr_materialId r) (DeclarationPayload (dr_claimRef r)) (dr_recordedAt r) (dr_requirementIds r) \<and>
     links_resolve c (dr_supportingEvidenceRefs r) \<and>
     (\<exists>profile. resolve (pf_profileId (dr_profile r)) (pf_profileVersion (dr_profile r)) = Some profile \<and>
       (\<forall>i \<in> set (dr_requirementIds r). asks_for profile (dr_claimType r) (dr_claimSubtype r) i))"

text \<open>A declaration is recorded under the catalogue, with this case and record.\<close>

definition declared :: "(string \<Rightarrow> string \<Rightarrow> asset_profile option) \<Rightarrow> platform \<Rightarrow> protocolization_case \<Rightarrow> protocolization_case \<Rightarrow>
    declaration_record \<Rightarrow> bool" where
  "declared resolve P c c' r \<longleftrightarrow> (\<exists>ctx s tr. cc_catalog ctx = resolve \<and> recordProtocolizationDeclaration P ctx c s = Inr tr \<and>
     dt_case tr = c' \<and> dt_record tr = r)"

lemma declaration_is_step:
  assumes "recordProtocolizationDeclaration P ctx c s = Inr tr"
  shows "case_step P c (dt_case tr)"
proof -
  have "may_declare P ctx c s" "dt_case tr = with_material c (declaration_material s (cc_now ctx))"
    using assms declares by blast+
  moreover have "declaration_guards P ctx c s" using declared_guards [OF assms] by blast
  ultimately show ?thesis using adds_declaration by (metis adds)
qed

lemma links_resolve_advances: "links_resolve c refs \<Longrightarrow> case_advances P c c' \<Longrightarrow> links_resolve c' refs"
  using payload_kept [of P c c'] unfolding links_resolve_def by blast

interpretation declaration_log: case_log "declaration_backed resolve" dr_materialId dr_claimRef dr_caseRevision DeclarationPayload
  "declared resolve" for resolve
proof unfold_locales
  fix c c' P r
  show "declaration_backed resolve c r \<Longrightarrow> case_advances P c c' \<Longrightarrow> kc_revision c \<le> kc_revision c' \<Longrightarrow> declaration_backed resolve c' r"
    using holds_material_advances [of c _ _ _ _ P c'] links_resolve_advances [of c _ P c']
    by (auto simp: declaration_backed_def case_advances_def same_case_def)
  show "declaration_backed resolve c r \<Longrightarrow> dr_caseRevision r \<le> kc_revision c" by (simp add: declaration_backed_def)
  show "declaration_backed resolve c r \<Longrightarrow> dr_materialId r \<in> mt_materialId ` set (kc_materials c) \<and>
      DeclarationPayload (dr_claimRef r) \<in> mt_payload ` set (kc_materials c)"
    unfolding declaration_backed_def by (blast dest: holds_names)
  assume "declared resolve P c c' r"
  then obtain ctx s tr where tr: "cc_catalog ctx = resolve" "recordProtocolizationDeclaration P ctx c s = Inr tr" "dt_case tr = c'" "dt_record tr = r"
    by (auto simp: declared_def)
  then have may: "may_declare P ctx c s" and c': "c' = with_material c (declaration_material s (cc_now ctx))"
    and r: "r = issued_record s c (cc_now ctx)"
    using declares by blast+
  show step: "case_step P c c'" using declaration_is_step [OF tr(2)] tr(3) by simp
  have "case_advances P c c'" using case_step_ok [OF step] by simp
  then have "links_resolve c' (ds_supportingEvidenceRefs s)" using may links_resolve_advances by (auto simp: may_declare_def)
  then show "declaration_backed resolve c' r \<and> kc_revision c < dr_caseRevision r"
    using holds_added [of c "declaration_material s (cc_now ctx)"] may tr(1)
    by (auto simp: c' r declaration_backed_def issued_record_def may_declare_def pinned_def with_material_def)
  show "dr_materialId r \<notin> mt_materialId ` set (kc_materials c) \<and> DeclarationPayload (dr_claimRef r) \<notin> mt_payload ` set (kc_materials c)"
    using may by (simp add: r may_declare_def issued_record_def)
qed

text \<open>Any operation on the case, or a declaration under the catalogue whose record is stored.\<close>

inductive declaration_step :: "(string \<Rightarrow> string \<Rightarrow> asset_profile option) \<Rightarrow> platform \<Rightarrow> protocolization_case \<times> declaration_store \<Rightarrow>
    protocolization_case \<times> declaration_store \<Rightarrow> bool" for resolve P where
  changes_case: "case_step P c c' \<Longrightarrow> declaration_step resolve P (c, entries) (c', entries)"
| declares_in: "cc_catalog ctx = resolve \<Longrightarrow> recordProtocolizationDeclaration P ctx c s = Inr tr \<Longrightarrow>
    save_declaration P entries (dt_record tr) = Inr entries' \<Longrightarrow> declaration_step resolve P (c, entries) (dt_case tr, entries')"

lemma save_declaration_Inr: "save_declaration P entries r = Inr entries' \<longleftrightarrow> record_ok P r \<and>
    map_of entries (declarationKey (dr_tenantId r) (dr_declarationId r)) = None \<and>
    entries' = map_set (declarationKey (dr_tenantId r) (dr_declarationId r)) r entries"
  by (auto simp: save_declaration_def Let_def after_Inr first_throw_None fail_if_None record_iff)

lemma declaration_step_logs:
  "declaration_step resolve P y z \<Longrightarrow> log_step P (declared resolve P) (fst y, map snd (snd y)) (fst z, map snd (snd z))"
  by (induction rule: declaration_step.induct)
    (auto simp: save_declaration_Inr map_set_new declared_def intro: log_step.changes intro!: log_step.logs)

text \<open>C28: Along any operations and declarations, under a catalogue that does not change, from a case without records: each record
  the repository lists for it is backed by the case and by the pinned profile, which asks for such a declaration under each requirement
  the record names; no two records are for the same material or claim, and they stand in the order of the revisions they made.\<close>

theorem declarations_are_backed:
  assumes "(declaration_step resolve P)\<^sup>*\<^sup>* (opened, []) (c, entries)"
    and "list_declarations entries (kc_tenantId c) (kc_caseId c) = Inr rs"
  shows "(\<forall>r \<in> set rs. declaration_backed resolve c r) \<and> distinct (map dr_materialId rs) \<and> distinct (map dr_claimRef rs) \<and>
    sorted_wrt (<) (map dr_caseRevision rs)"
proof -
  have "(log_step P (declared resolve P))\<^sup>*\<^sup>* (opened, []) (fst y, map snd (snd y))" if "(declaration_step resolve P)\<^sup>*\<^sup>* (opened, []) y" for y
    using that by (induction rule: rtranclp_induct) (auto dest!: declaration_step_logs intro: rtranclp.rtrancl_into_rtrancl)
  then have "declaration_log.log_ok resolve c (map snd entries)"
    using declaration_log.log_runs assms(1) by fastforce
  moreover have "rs = filter (\<lambda>r. dr_tenantId r = kc_tenantId c \<and> dr_caseId r = kc_caseId c) (map snd entries)"
    using assms(2) by (simp add: list_declarations_def after_Inr)
  ultimately have "declaration_log.log_ok resolve c rs" using declaration_log.log_ok_filter by blast
  then show ?thesis by (simp add: declaration_log.log_ok_def)
qed

section \<open>Witnesses\<close>

definition sample_declaration :: declaration_submission where
  "sample_declaration = \<lparr>ds_declarationId = ''declaration-1'', ds_caseId = ''case-1'', ds_materialId = ''valuation-1'',
     ds_declarant = \<lparr>pl_id = ''owner-1'', pl_kind = ''Human'', pl_displayName = None, pl_source = None, pl_metadata = None\<rparr>,
     ds_pathway = ReferencePathway ''claim-1'' ''Authorship'', ds_claimSubtype = None, ds_statement = Some ''I drew the plans.'',
     ds_requirementIds = [''valuation''], ds_supportingEvidenceRefs = None, ds_declaredAt = None, ds_sourceRef = None,
     ds_correlationId = None\<rparr>"

definition sample_declared_case :: protocolization_case where
  "sample_declared_case = with_material sample_active (declaration_material sample_declaration ''2025-06-15T14:30:00Z'')"

definition sample_record :: declaration_record where
  "sample_record = issued_record sample_declaration sample_active ''2025-06-15T14:30:00Z''"

lemma sample_declarable: "declarable P sample_declaration"
proof -
  have "isValidDeclarationId ''declaration-1''" "isValidProtocolizationMaterialId ''valuation-1''" by code_simp+
  moreover have "checkSharedOptionals P None (Some ''I drew the plans.'') None None None None = []"
    by (simp add: checkSharedOptionals_def checkStatement_def optional_ok_def trim_def js_space_def STATEMENT_MAX_LENGTH_def)
  ultimately show ?thesis using sample_case_identifiers
    by (simp add: declarable_def declaration_terms_ok_def sample_declaration_def submittedClaimRef_def submittedClaimType_def
        isUsableDeclarantRef_def PRINCIPAL_KINDS_def isClaimType_def CLAIM_TYPES_def isCanonicalRecordId_def trim_def js_space_def
        ASSET_IDENTIFIER_MAX_LENGTH_def isValidRequirementIdList_iff)
qed

lemma sample_ids: "kc_tenantId sample_active = ''tenant-a''" "kc_caseId sample_active = ''case-1''"
  by (simp_all add: sample_active_def activated_case_def sample_opened_def initial_case_def sample_case_input_def)

lemma sample_may_declare: "may_declare P (sample_case_context ''2025-06-15T14:30:00Z'') sample_active sample_declaration"
proof -
  have "requirements_ok [''valuation''] sample_case_profile sample_active"
    by (simp add: requirements_ok_def sample_case_profile_def sample_requirement_def sample_active_def activated_case_def
        sample_opened_def initial_case_def)
  moreover have "asks_for sample_case_profile ''Authorship'' None ''valuation''"
    by (simp add: asks_for_def requirement_by_id_def sample_case_profile_def sample_requirement_def)
  ultimately show ?thesis
    using sample_may_change [of P] sample_adding(1,3,4) sample_declarable [of P] sample_ids
    by (simp add: may_declare_def links_resolve_def) (simp add: sample_declaration_def submittedClaimType_def)
qed

lemma sample_declared: "\<exists>tr. recordProtocolizationDeclaration P (sample_case_context ''2025-06-15T14:30:00Z'') sample_active sample_declaration = Inr tr \<and>
    dt_case tr = sample_declared_case \<and> dt_record tr = sample_record"
  unfolding declares sample_declared_case_def sample_record_def using sample_may_declare sample_adding(5) by simp

theorem declarations_are_backed_witness:
  "list_declarations [(declarationKey ''tenant-a'' ''declaration-1'', sample_record)] ''tenant-a'' ''case-1'' = Inr [sample_record] \<and>
   declaration_backed (cc_catalog (sample_case_context ''2025-06-15T14:30:00Z'')) sample_declared_case sample_record"
proof -
  let ?ctx = "sample_case_context ''2025-06-15T14:30:00Z''" and ?entries = "[(declarationKey ''tenant-a'' ''declaration-1'', sample_record)]"
  obtain tr where tr: "recordProtocolizationDeclaration zero_platform ?ctx sample_active sample_declaration = Inr tr"
    "dt_case tr = sample_declared_case" "dt_record tr = sample_record" using sample_declared by blast
  have r: "dr_tenantId sample_record = ''tenant-a''" "dr_caseId sample_record = ''case-1''" "dr_declarationId sample_record = ''declaration-1''"
    using sample_ids by (simp_all add: sample_record_def issued_record_def sample_declaration_def)
  have "record_ok zero_platform sample_record"
    using record_never_refused [OF sample_may_declare] sample_adding(5) by (simp add: sample_record_def)
  then have "save_declaration zero_platform [] (dt_record tr) = Inr ?entries" using r tr(3) by (simp add: save_declaration_Inr)
  then have "declaration_step (cc_catalog ?ctx) zero_platform (sample_active, []) (sample_declared_case, ?entries)"
    using declares_in [OF refl tr(1)] tr(2) by metis
  then have run: "(declaration_step (cc_catalog ?ctx) zero_platform)\<^sup>*\<^sup>* (sample_active, []) (sample_declared_case, ?entries)" by (rule r_into_rtranclp)
  have ids: "kc_tenantId sample_declared_case = ''tenant-a''" "kc_caseId sample_declared_case = ''case-1''"
    using sample_ids by (simp_all add: sample_declared_case_def with_material_def)
  then have list: "list_declarations ?entries (kc_tenantId sample_declared_case) (kc_caseId sample_declared_case) = Inr [sample_record]"
    using r sample_case_identifiers(6) by (simp add: list_declarations_def assertDeclarationTenant_def fail_if_def)
  show ?thesis using declarations_are_backed [OF run list] list ids by simp
qed

text \<open>
  The rule that a declaration answers only declaration requirements holds when it is recorded; the association of the recorded
  material with a further requirement does not look at its kind.
\<close>

lemma association_ignores_kind:
  "\<exists>t. associateProtocolizationCaseMaterial P (sample_case_context ''2025-06-15T14:30:00Z'') sample_declared_case ''valuation-1'' [''legal.title''] =
     Inr t \<and> rq_kind (hd (ap_requirements sample_case_profile)) = ''Evidence'' \<and>
     (\<exists>s \<in> set (kc_requirementStates (fst t)). qs_requirementId s = ''legal.title'' \<and> qs_materialStatus s = ''MaterialPresent'') \<and>
     map mt_payload (kc_materials (fst t)) = [DeclarationPayload ''claim-1'']"
proof -
  let ?ctx = "sample_case_context ''2025-06-15T14:30:00Z''" and ?c = sample_declared_case
  let ?next = "with_association ?c ''valuation-1'' [''legal.title''] ''2025-06-15T14:30:00Z''"
  have case_fields: "kc_materials ?c = [declaration_material sample_declaration ''2025-06-15T14:30:00Z'']" "kc_profile ?c = kc_profile sample_active"
    "kc_state ?c = ''Active''" "kc_revision ?c = 3" "kc_updatedAt ?c = ''2025-06-15T14:30:00Z''" "kc_tenantId ?c = ''tenant-a''"
    by (simp_all add: sample_declared_case_def with_material_def sample_adding(3,4) sample_ids)
      (simp_all add: sample_active_def activated_case_def sample_opened_def initial_case_def)
  obtain tr where tr: "recordProtocolizationDeclaration P ?ctx sample_active sample_declaration = Inr tr" "dt_case tr = ?c"
    using sample_declared by blast
  then have "case_ok P ?c" using case_step_ok [OF declaration_is_step [OF tr(1)]] by simp
  then have "may_change P ?ctx ?c"
    using case_fields sample_case_moments [of P]
    by (simp add: may_change_def clock_ok_def revisable_def MAX_SAFE_INTEGER_def sample_case_context_def isNotBefore_def)
  moreover have "requirements_ok [''legal.title''] sample_case_profile ?c"
    by (simp add: requirements_ok_def sample_case_profile_def sample_requirement_def sample_declared_case_def with_material_def
        correlate_def correlate_state_def sample_active_def activated_case_def sample_opened_def initial_case_def)
  moreover have m: "mt_materialId (declaration_material sample_declaration t) = ''valuation-1''"
    "mt_requirementIds (declaration_material sample_declaration t) = [''valuation'']"
    "mt_payload (declaration_material sample_declaration t) = DeclarationPayload ''claim-1''" for t
    by (simp_all add: sample_declaration_def submittedClaimRef_def)
  ultimately have "\<exists>e. associateProtocolizationCaseMaterial P ?ctx ?c ''valuation-1'' [''legal.title''] = Inr (?next, e)"
    using case_fields(1-3) sample_adding(1,5) sample_case_identifiers(1) unfolding associates_iff by simp
  moreover have "\<exists>s \<in> set (kc_requirementStates ?next). qs_requirementId s = ''legal.title'' \<and> qs_materialStatus s = ''MaterialPresent''"
    by (simp add: with_association_def correlate_def correlate_state_def sample_declared_case_def with_material_def
        sample_active_def activated_case_def sample_opened_def initial_case_def sample_case_profile_def sample_requirement_def)
  moreover have "map mt_payload (kc_materials ?next) = [DeclarationPayload ''claim-1'']"
    using case_fields(1) m by (simp add: with_association_def)
  moreover have "rq_kind (hd (ap_requirements sample_case_profile)) = ''Evidence''"
    by (simp add: sample_case_profile_def sample_requirement_def rq_kind_def)
  ultimately show ?thesis by (metis fst_conv)
qed

end
