(* ===== verification/ProfileCatalog.thy ===== *)
theory ProfileCatalog
  imports CaseHistory
begin

text \<open>
  \<open>profile-catalog.ts\<close>: the catalogue of asset profiles, and the contract on which the operations of a case rely when they resolve
  the profile a case is pinned to.
\<close>

section \<open>Definitions\<close>

type_synonym catalog_store = "(string \<times> asset_profile) list"

definition register_profile :: "platform \<Rightarrow> asset_profile \<Rightarrow> catalog_store \<Rightarrow> catalog_store case_result" where
  "register_profile P profile entries = (let reasons = map fst (validateAssetProfile P profile);
       key = assetProfileVersionKey (ap_profileId profile) (ap_version profile) in
     after (first_throw [
       fail_if (reasons \<noteq> []) ''ASSET_PROFILE_INVALID'' (''Invalid AssetProfile: '' @ join '', '' reasons) reasons,
       fail_if (map_of entries key \<noteq> None) ''ASSET_PROFILE_VERSION_ALREADY_REGISTERED''
         (''AssetProfile '' @ key @ '' is already registered'') [''ASSET_PROFILE_VERSION_ALREADY_REGISTERED'']])
     (Inr (map_set key profile entries)))"

definition get_profile :: "catalog_store \<Rightarrow> string \<Rightarrow> string \<Rightarrow> asset_profile option" where
  "get_profile entries profileId version = map_of entries (assetProfileVersionKey profileId version)"

definition has_profile :: "catalog_store \<Rightarrow> string \<Rightarrow> string \<Rightarrow> bool" where
  "has_profile entries profileId version \<longleftrightarrow> map_of entries (assetProfileVersionKey profileId version) \<noteq> None"

record catalog_filter =
  cf_profileId :: "string option"
  cf_assetCategory :: "string option"

definition compare_profiles :: "platform \<Rightarrow> asset_profile \<Rightarrow> asset_profile \<Rightarrow> int" where
  "compare_profiles P left right = (let c = localeCompare P (ap_profileId left) (ap_profileId right) in
     if c \<noteq> 0 then c else compareAssetProfileVersions (ap_version left) (ap_version right))"

definition list_profiles :: "platform \<Rightarrow> catalog_store \<Rightarrow> catalog_filter \<Rightarrow> asset_profile list" where
  "list_profiles P entries flt = sort_cmp (compare_profiles P) (filter (\<lambda>profile.
     if cf_profileId flt \<noteq> None \<and> Some (ap_profileId profile) \<noteq> cf_profileId flt then False
     else if cf_assetCategory flt \<noteq> None \<and> Some (ap_assetCategory profile) \<noteq> cf_assetCategory flt then False
     else True) (map snd entries))"

definition versionsOf :: "platform \<Rightarrow> catalog_store \<Rightarrow> string \<Rightarrow> string list" where
  "versionsOf P entries profileId =
     map ap_version (list_profiles P entries \<lparr>cf_profileId = Some profileId, cf_assetCategory = None\<rparr>)"

fun register_all :: "platform \<Rightarrow> asset_profile list \<Rightarrow> catalog_store \<Rightarrow> catalog_store case_result" where
  "register_all P [] entries = Inr entries"
| "register_all P (profile # profiles) entries = bind_result (register_profile P profile entries) (register_all P profiles)"

definition createAssetProfileCatalog :: "platform \<Rightarrow> asset_profile list \<Rightarrow> catalog_store case_result" where
  "createAssetProfileCatalog P profiles = register_all P profiles []"

inductive catalog_step :: "platform \<Rightarrow> catalog_store \<Rightarrow> catalog_store \<Rightarrow> bool" for P where
  registers: "register_profile P profile entries = Inr entries' \<Longrightarrow> catalog_step P entries entries'"

section \<open>Keys\<close>

text \<open>A pattern whose classes are within a set of characters matches words over that set.\<close>

primrec rx_over :: "char set \<Rightarrow> rx \<Rightarrow> bool" where
  "rx_over A Never \<longleftrightarrow> True"
| "rx_over A rx.Eps \<longleftrightarrow> True"
| "rx_over A (Cls p) \<longleftrightarrow> (\<forall>c. p c \<longrightarrow> c \<in> A)"
| "rx_over A (Cat q r) \<longleftrightarrow> rx_over A q \<and> rx_over A r"
| "rx_over A (Alt q r) \<longleftrightarrow> rx_over A q \<and> rx_over A r"
| "rx_over A (Star r) \<longleftrightarrow> rx_over A r"

lemma star_over: "s \<in> star L \<Longrightarrow> (\<And>w. w \<in> L \<Longrightarrow> set w \<subseteq> A) \<Longrightarrow> set s \<subseteq> A"
  by (induction rule: star.induct) auto

lemma lang_over: "s \<in> lang r \<Longrightarrow> rx_over A r \<Longrightarrow> set s \<subseteq> A"
proof (induction r arbitrary: s)
  case (Star r)
  then show ?case using star_over [of s "lang r" A] by (simp add: lang.simps)
next
  case (Cat q r)
  then show ?case by (fastforce simp: lang.simps)
qed (auto simp: lang.simps)

lemma rx_over_simps [simp]:
  "rx_over A (Lit w) \<longleftrightarrow> set w \<subseteq> A" "rx_over A (Plus r) \<longleftrightarrow> rx_over A r"
  by (induction w) (auto simp: Lit.simps Plus_def)

lemma no_at:
  "isDottedToken v \<Longrightarrow> CHR ''@'' \<notin> set v" "isValidAssetProfileVersion v \<Longrightarrow> CHR ''@'' \<notin> set v"
proof -
  have "rx_over {c. lower_alpha c \<or> dec_digit c \<or> c \<in> {CHR ''-'', CHR ''.''}} DOTTED_TOKEN_PATTERN"
    by (auto simp: DOTTED_TOKEN_PATTERN_def token_word_def Let_def)
  moreover have "rx_over {c. lower_alpha c \<or> dec_digit c \<or> c \<in> {CHR ''-'', CHR ''.''}} ASSET_PROFILE_VERSION_PATTERN"
    by (auto simp: ASSET_PROFILE_VERSION_PATTERN_def)
  moreover have "\<not> lower_alpha (CHR ''@'') \<and> \<not> dec_digit (CHR ''@'')" by code_simp
  ultimately show "isDottedToken v \<Longrightarrow> CHR ''@'' \<notin> set v" "isValidAssetProfileVersion v \<Longrightarrow> CHR ''@'' \<notin> set v"
    by (auto simp: isDottedToken_def isValidAssetProfileVersion_def rx_test_lang dest!: lang_over)
qed

lemma version_key_inj:
  assumes "CHR ''@'' \<notin> set j" and "CHR ''@'' \<notin> set w"
  shows "assetProfileVersionKey i v = assetProfileVersionKey j w \<longleftrightarrow> i = j \<and> v = w"
  using assms by (auto simp: assetProfileVersionKey_def append_eq_append_conv2 append_eq_Cons_conv Cons_eq_append_conv)

section \<open>The catalogue\<close>

interpretation profiles: keyed_store "map_of :: catalog_store \<Rightarrow> _" map_set
  by unfold_locales (simp add: map_of_map_set)

text \<open>What the validator guarantees of a profile here.\<close>

definition profile_sound :: "asset_profile \<Rightarrow> bool" where
  "profile_sound p \<longleftrightarrow> isValidAssetProfileId (ap_profileId p) \<and> isValidAssetProfileVersion (ap_version p) \<and>
     distinct (map rq_id (ap_requirements p)) \<and> (\<forall>r \<in> set (ap_requirements p). isValidAssetRequirementId (rq_id r))"

lemma requirement_issues_ids:
  "requirement_issues P index seen rs = [] \<Longrightarrow>
   distinct (map rq_id rs) \<and> (\<forall>r \<in> set rs. isValidAssetRequirementId (rq_id r) \<and> rq_id r \<notin> seen)"
proof (induction rs arbitrary: index seen)
  case (Cons r rs)
  from Cons.prems have "isValidAssetRequirementId (rq_id r)" by (simp add: Let_def split: if_splits)
  with Cons.prems have "rq_id r \<notin> seen" "requirement_issues P (Suc index) (insert (rq_id r) seen) rs = []"
    by (simp_all add: Let_def)
  then show ?case using Cons.IH [of "Suc index" "insert (rq_id r) seen"] \<open>isValidAssetRequirementId (rq_id r)\<close> by auto
qed simp

lemma valid_profile_sound: "validateAssetProfile P p = [] \<Longrightarrow> profile_sound p"
  using requirement_issues_ids [of P 0 "{}" "ap_requirements p"]
  by (auto simp: validateAssetProfile_def profile_header_issues_def profile_sound_def split: if_splits)

definition filed_profile :: "platform \<Rightarrow> string \<Rightarrow> asset_profile \<Rightarrow> bool" where
  "filed_profile P key p \<longleftrightarrow> validateAssetProfile P p = [] \<and> key = assetProfileVersionKey (ap_profileId p) (ap_version p)"

definition catalog_inv :: "platform \<Rightarrow> catalog_store \<Rightarrow> bool" where
  "catalog_inv P entries \<longleftrightarrow> profiles.all_entries (filed_profile P) entries \<and> distinct (map fst entries)"

lemma register_profile_Inr: "register_profile P p entries = Inr entries' \<longleftrightarrow> validateAssetProfile P p = [] \<and>
    get_profile entries (ap_profileId p) (ap_version p) = None \<and>
    entries' = map_set (assetProfileVersionKey (ap_profileId p) (ap_version p)) p entries"
  by (auto simp: register_profile_def Let_def after_Inr first_throw_None fail_if_None get_profile_def)

lemma catalog_inv_empty [simp]: "catalog_inv P []"
  by (simp add: catalog_inv_def profiles.all_entries_def)

lemma register_inv: "catalog_inv P entries \<Longrightarrow> register_profile P p entries = Inr entries' \<Longrightarrow> catalog_inv P entries'"
  by (auto simp: catalog_inv_def register_profile_Inr filed_profile_def distinct_map_set intro!: profiles.all_entries_put)

lemma catalog_runs: "(catalog_step P)\<^sup>*\<^sup>* entries entries' \<Longrightarrow> catalog_inv P entries \<Longrightarrow> catalog_inv P entries'"
  by (induction rule: rtranclp_induct) (auto elim!: catalog_step.cases intro: register_inv)

lemma created_catalog: "register_all P ps entries = Inr entries' \<Longrightarrow> (catalog_step P)\<^sup>*\<^sup>* entries entries'"
  by (induction ps arbitrary: entries) (auto simp: bind_result_Inr intro: registers converse_rtranclp_into_rtranclp)

lemma found_profile:
  assumes "catalog_inv P entries" and "get_profile entries i v = Some p"
  shows "validateAssetProfile P p = []" "ap_profileId p = i" "ap_version p = v"
proof -
  have "filed_profile P (assetProfileVersionKey i v) p"
    using assms profiles.all_entriesD by (fastforce simp: catalog_inv_def get_profile_def)
  then have p: "validateAssetProfile P p = []" "assetProfileVersionKey i v = assetProfileVersionKey (ap_profileId p) (ap_version p)"
    by (simp_all add: filed_profile_def)
  then have "CHR ''@'' \<notin> set (ap_profileId p)" "CHR ''@'' \<notin> set (ap_version p)"
    using valid_profile_sound [OF p(1)] no_at by (auto simp: profile_sound_def isValidAssetProfileId_def)
  then show "validateAssetProfile P p = []" "ap_profileId p = i" "ap_version p = v" using p version_key_inj by auto
qed

section \<open>The contract with the cases\<close>

text \<open>
  A source of profiles: what it resolves is the profile of that identifier and version, with requirements that are
  well formed and distinct.  Under this contract the case operations are never refused for the profile's sake.
\<close>

locale profile_source =
  fixes ok :: "'s \<Rightarrow> bool" and resolve :: "'s \<Rightarrow> string \<Rightarrow> string \<Rightarrow> asset_profile option"
  assumes resolves_named: "ok s \<Longrightarrow> resolve s i v = Some p \<Longrightarrow> ap_profileId p = i \<and> ap_version p = v"
    and resolves_distinct: "ok s \<Longrightarrow> resolve s i v = Some p \<Longrightarrow> distinct (map rq_id (ap_requirements p))"
    and resolves_formed: "ok s \<Longrightarrow> resolve s i v = Some p \<Longrightarrow> r \<in> set (ap_requirements p) \<Longrightarrow> isValidAssetRequirementId (rq_id r)"
begin

lemma requirement_nonempty: "ok s \<Longrightarrow> resolve s i v = Some p \<Longrightarrow> r \<in> set (ap_requirements p) \<Longrightarrow> rq_id r \<noteq> []"
  using resolves_formed [of s i v p r] by (auto simp: isValidAssetRequirementId_def isDottedToken_def rx_test_def DOTTED_TOKEN_PATTERN_def
      token_word_def Let_def Plus_def)

lemma creates:
  assumes "ok s" and "cc_catalog ctx = resolve s"
  shows "(\<exists>t. createProtocolizationCase P ctx inp = Inr t) \<longleftrightarrow> isValidProtocolizationTenantId (cc_tenantId ctx) \<and> creation_ok inp \<and>
    isValidUtcDateTime P (cc_now ctx) \<and> resolve s (pf_profileId (in_profile inp)) (pf_profileVersion (in_profile inp)) \<noteq> None"
proof -
  have "distinct (map rq_id (ap_requirements p)) \<and> (\<forall>r \<in> set (ap_requirements p). rq_id r \<noteq> [])"
    if "pinned ctx (in_profile inp) = Some p" for p
    using that assms resolves_distinct requirement_nonempty unfolding pinned_def by metis
  then show ?thesis
    using assms(2) by (auto simp: creates_iff pinned_def)
qed

lemma associates:
  assumes "ok s" and "cc_catalog ctx = resolve s"
  shows "(\<exists>t. associateProtocolizationCaseMaterial P ctx c i rs = Inr t) \<longleftrightarrow> may_change P ctx c \<and> kc_state c \<noteq> ''Cancelled'' \<and>
    (\<exists>profile. pinned ctx (kc_profile c) = Some profile \<and> requirements_ok rs profile c) \<and>
    (\<exists>m. find (\<lambda>m. mt_materialId m = i) (kc_materials c) = Some m \<and> set rs \<inter> set (mt_requirementIds m) = {})"
proof -
  have "isValidAssetRequirementId r" if "pinned ctx (kc_profile c) = Some p" "requirements_ok rs p c" "r \<in> set rs" for p r
    using that assms resolves_formed unfolding pinned_def requirements_ok_def by fastforce
  then show ?thesis by (auto simp: associates_iff)
qed

end

interpretation catalog: profile_source "catalog_inv P" get_profile for P
proof unfold_locales
  fix entries i v p assume "catalog_inv P entries" "get_profile entries i v = Some p"
  note found = found_profile [OF this] valid_profile_sound [OF found_profile(1) [OF this]]
  show "ap_profileId p = i \<and> ap_version p = v" using found by simp
  show "distinct (map rq_id (ap_requirements p))" using found(4) by (simp add: profile_sound_def)
  show "isValidAssetRequirementId (rq_id r)" if "r \<in> set (ap_requirements p)" for r using found(4) that by (simp add: profile_sound_def)
qed

section \<open>Properties\<close>

text \<open>C31: In a catalogue made by registrations alone a profile is found under its own identifier and version only, and is valid; a
  registration adds the profile where there was none, and changes nothing that was found before.\<close>

theorem catalog_is_immutable:
  assumes "(catalog_step P)\<^sup>*\<^sup>* [] entries" and "register_profile P profile entries = Inr entries'"
  shows "(get_profile entries i v = Some found \<longrightarrow> isValidAssetProfile P found \<and> ap_profileId found = i \<and> ap_version found = v \<and>
      get_profile entries' i v = Some found) \<and>
    get_profile entries' i v = (if i = ap_profileId profile \<and> v = ap_version profile then Some profile else get_profile entries i v)"
proof -
  have inv: "catalog_inv P entries" using catalog_runs [OF assms(1)] by simp
  have new: "validateAssetProfile P profile = []" "get_profile entries (ap_profileId profile) (ap_version profile) = None"
    using assms(2) by (simp_all add: register_profile_Inr)
  then have "CHR ''@'' \<notin> set (ap_profileId profile)" "CHR ''@'' \<notin> set (ap_version profile)"
    using valid_profile_sound [OF new(1)] no_at by (auto simp: profile_sound_def isValidAssetProfileId_def)
  then have "get_profile entries' i v = (if i = ap_profileId profile \<and> v = ap_version profile then Some profile else get_profile entries i v)"
    using assms(2) version_key_inj [of "ap_profileId profile" "ap_version profile" i v]
    by (auto simp: register_profile_Inr get_profile_def map_of_map_set)
  then show ?thesis using found_profile [OF inv, of i v found] new(2) by (auto simp: isValidAssetProfile_def)
qed

lemma version_order: "comparator_order compareAssetProfileVersions"
proof -
  have key: "compareAssetProfileVersions l r = (if version_field l 0 \<noteq> version_field r 0 then (if version_field l 0 < version_field r 0 then -1 else 1)
      else if version_field l 1 \<noteq> version_field r 1 then (if version_field l 1 < version_field r 1 then -1 else 1)
      else if version_field l 2 \<noteq> version_field r 2 then (if version_field l 2 < version_field r 2 then -1 else 1) else 0)" for l r
    by (simp add: compareAssetProfileVersions_def Let_def)
  show ?thesis by unfold_locales (auto simp: key split: if_splits)
qed

lemma profile_order: "collation P \<Longrightarrow> comparator_order (compare_profiles P)"
  using lexicographic_two [OF _ version_order, of "localeCompare P" ap_profileId ap_version]
  by (simp add: collation_def compare_profiles_def [abs_def] Let_def)

lemma catalog_values:
  assumes "catalog_inv P entries"
  shows "p \<in> set (map snd entries) \<longleftrightarrow> get_profile entries (ap_profileId p) (ap_version p) = Some p"
proof
  assume "p \<in> set (map snd entries)"
  then obtain k where k: "(k, p) \<in> set entries" by auto
  with assms have m: "map_of entries k = Some p" by (simp add: catalog_inv_def)
  with assms have "filed_profile P k p" using profiles.all_entriesD by (fastforce simp: catalog_inv_def)
  with m show "get_profile entries (ap_profileId p) (ap_version p) = Some p" by (simp add: filed_profile_def get_profile_def)
qed (force simp: get_profile_def dest: map_of_SomeD)

lemma filed_keys: "catalog_inv P entries \<Longrightarrow> (k, p) \<in> set entries \<Longrightarrow> k = assetProfileVersionKey (ap_profileId p) (ap_version p)"
  using profiles.all_entriesD [of "filed_profile P" entries k p] by (simp add: catalog_inv_def filed_profile_def)

lemma distinct_versions:
  assumes "catalog_inv P entries"
  shows "distinct (map ap_version (filter (\<lambda>p. ap_profileId p = i) (map snd entries)))"
proof -
  have "distinct (map fst entries) \<Longrightarrow> \<forall>(k, p) \<in> set entries. k = assetProfileVersionKey (ap_profileId p) (ap_version p) \<Longrightarrow>
    distinct (map ap_version (filter (\<lambda>p. ap_profileId p = i) (map snd entries)))" for entries :: catalog_store
  proof (induction entries)
    case (Cons e entries)
    obtain k p where [simp]: "e = (k, p)" by (cases e)
    have "ap_version q \<noteq> ap_version p" if "(l, q) \<in> set entries" "ap_profileId q = ap_profileId p" for l q
      using Cons.prems that by (force simp: image_iff)
    then show ?case using Cons by (force simp: image_iff)
  qed simp
  then show ?thesis using assms filed_keys [OF assms] by (auto simp: catalog_inv_def)
qed

lemma versions_listed:
  assumes "collation P" and "catalog_inv P entries"
  shows "sorted_wrt (\<lambda>v w. compareAssetProfileVersions v w \<le> 0) (versionsOf P entries i)"
    "distinct (versionsOf P entries i)"
    "v \<in> set (versionsOf P entries i) \<longleftrightarrow> has_profile entries i v"
proof -
  let ?ps = "filter (\<lambda>p. ap_profileId p = i) (map snd entries)"
  have vs: "versionsOf P entries i = map ap_version (sort_cmp (compare_profiles P) ?ps)"
    by (simp add: versionsOf_def list_profiles_def cong: filter_cong)
  have mem: "set (sort_cmp (compare_profiles P) ?ps) = set ?ps" by (metis mset_sort_cmp set_mset_mset)
  have "sorted_wrt (\<lambda>a b. compare_profiles P a b \<le> 0) (sort_cmp (compare_profiles P) ?ps)"
    by (rule comparator_order.sorted_sort_cmp [OF profile_order [OF assms(1)]])
  then have "sorted_wrt (\<lambda>a b. compareAssetProfileVersions (ap_version a) (ap_version b) \<le> 0) (sort_cmp (compare_profiles P) ?ps)"
  proof (rule sorted_wrt_mono_rel [rotated])
    fix a b assume "a \<in> set (sort_cmp (compare_profiles P) ?ps)" "b \<in> set (sort_cmp (compare_profiles P) ?ps)"
      and "compare_profiles P a b \<le> 0"
    then show "compareAssetProfileVersions (ap_version a) (ap_version b) \<le> 0"
      using comparator_order.cmp_refl [of "localeCompare P"] assms(1) unfolding mem
      by (simp add: compare_profiles_def collation_def)
  qed
  then show "sorted_wrt (\<lambda>v w. compareAssetProfileVersions v w \<le> 0) (versionsOf P entries i)"
    by (simp add: vs sorted_wrt_map)
  have "mset (versionsOf P entries i) = mset (map ap_version ?ps)" by (simp add: vs)
  then show "distinct (versionsOf P entries i)"
    using distinct_versions [OF assms(2), of i] by (metis mset_eq_imp_distinct_iff)
  show "v \<in> set (versionsOf P entries i) \<longleftrightarrow> has_profile entries i v"
  proof
    assume "v \<in> set (versionsOf P entries i)"
    then obtain p where p: "p \<in> set (map snd entries)" "ap_profileId p = i" "ap_version p = v" by (auto simp: vs mem)
    then show "has_profile entries i v" using catalog_values [OF assms(2), of p] by (auto simp: has_profile_def get_profile_def)
  next
    assume "has_profile entries i v"
    then obtain p where p: "get_profile entries i v = Some p" by (auto simp: has_profile_def get_profile_def)
    note found = found_profile [OF assms(2) p]
    then have "p \<in> set ?ps" using p catalog_values [OF assms(2), of p] by simp
    then show "v \<in> set (versionsOf P entries i)" using found(3) mem by (auto simp: vs)
  qed
qed


text \<open>The versions the catalogue lists for a profile line are exactly those it holds, each once and in ascending order of their
  three numbers.\<close>

theorem versions_are_listed_in_order:
  assumes "collation P" and "(catalog_step P)\<^sup>*\<^sup>* [] entries"
  shows "sorted_wrt (\<lambda>v w. compareAssetProfileVersions v w \<le> 0) (versionsOf P entries i) \<and> distinct (versionsOf P entries i) \<and>
    (v \<in> set (versionsOf P entries i) \<longleftrightarrow> has_profile entries i v)"
  using versions_listed [OF assms(1) catalog_runs [OF assms(2) catalog_inv_empty]] by blast

text \<open>C32: Against a catalogue built from a list of profiles, the creation of a case succeeds exactly when the tenant and the instant are
  well formed, the input is, and the profile version asked for is in the list: the profile itself can no longer refuse it.\<close>

theorem cases_follow_the_catalogue:
  assumes "createAssetProfileCatalog P ps = Inr entries" and "cc_catalog ctx = get_profile entries"
  shows "(\<exists>t. createProtocolizationCase P ctx inp = Inr t) \<longleftrightarrow> isValidProtocolizationTenantId (cc_tenantId ctx) \<and> creation_ok inp \<and>
    isValidUtcDateTime P (cc_now ctx) \<and> has_profile entries (pf_profileId (in_profile inp)) (pf_profileVersion (in_profile inp))"
proof -
  have "(catalog_step P)\<^sup>*\<^sup>* [] entries" using assms(1) created_catalog by (simp add: createAssetProfileCatalog_def)
  from catalog.creates [OF catalog_runs [OF this catalog_inv_empty] assms(2)]
  show ?thesis by (simp add: has_profile_def get_profile_def)
qed

lemma versions_that_compare_equal:
  "isValidAssetProfileVersion ''01.0.0''" "isValidAssetProfileVersion ''1.0.0''"
  "compareAssetProfileVersions ''01.0.0'' ''1.0.0'' = 0"
  by code_simp+


section \<open>Witnesses\<close>

definition sample_next_profile :: asset_profile where
  "sample_next_profile = sample_case_profile\<lparr>ap_version := ''1.10.0''\<rparr>"

definition sample_catalog :: catalog_store where
  "sample_catalog = [(assetProfileVersionKey ''real-estate'' ''1.0.0'', sample_case_profile)]"

lemma sample_profile_words:
  "isValidAssetProfileId ''real-estate''" "isValidAssetCategoryId ''real-estate''" "isValidAssetProfileVersion ''1.0.0''"
  "isValidAssetProfileVersion ''1.10.0''"
  by code_simp+

lemma sample_profile_lists:
  "isNonEmptyUniqueMemberList [''Document''] EVIDENCE_TYPES" "''Authorship'' \<in> set CLAIM_TYPES" "''Required'' \<in> set OBLIGATIONS"
  "''Optional'' \<in> set OBLIGATIONS"
  by (simp_all add: isNonEmptyUniqueMemberList_def EVIDENCE_TYPES_def CLAIM_TYPES_def OBLIGATIONS_def)

lemma sample_profiles_valid [simp]:
  "validateAssetProfile P sample_case_profile = []" "validateAssetProfile P sample_next_profile = []"
  using sample_profile_words sample_profile_lists sample_case_identifiers
  by (simp_all add: validateAssetProfile_def profile_header_issues_def sample_next_profile_def sample_case_profile_def
      sample_requirement_def condition_issues_def validateRequirementShape_def minimum_count_issues_def registry_issues_def
      freshness_issues_def bad_option_def validateCrossRequirementRules_def dependency_issues_def strategy_issues_def
      validateJurisdictionScope_def Let_def)

lemma sample_profile_fields [simp]:
  "ap_profileId sample_case_profile = ''real-estate''" "ap_version sample_case_profile = ''1.0.0''"
  "ap_profileId sample_next_profile = ''real-estate''" "ap_version sample_next_profile = ''1.10.0''"
  by (simp_all add: sample_case_profile_def sample_next_profile_def)

lemma sample_registers:
  "register_profile zero_platform sample_case_profile [] = Inr sample_catalog"
  "register_profile zero_platform sample_next_profile sample_catalog =
    Inr (map_set (assetProfileVersionKey ''real-estate'' ''1.10.0'') sample_next_profile sample_catalog)"
  by (simp_all add: register_profile_Inr sample_catalog_def get_profile_def assetProfileVersionKey_def)

lemma sample_catalog_reached: "(catalog_step zero_platform)\<^sup>*\<^sup>* [] sample_catalog"
  using registers [OF sample_registers(1)] by blast

theorem catalog_is_immutable_witness:
  "get_profile sample_catalog ''real-estate'' ''1.0.0'' = Some sample_case_profile \<and>
   get_profile (map_set (assetProfileVersionKey ''real-estate'' ''1.10.0'') sample_next_profile sample_catalog) ''real-estate'' ''1.0.0'' =
     Some sample_case_profile"
proof -
  have "get_profile sample_catalog ''real-estate'' ''1.0.0'' = Some sample_case_profile" by (simp add: get_profile_def sample_catalog_def)
  then show ?thesis
    using catalog_is_immutable [OF sample_catalog_reached sample_registers(2), of "''real-estate''" "''1.0.0''" sample_case_profile] by simp
qed

theorem versions_are_listed_in_order_witness:
  "''1.0.0'' \<in> set (versionsOf zero_platform sample_catalog ''real-estate'') \<and> distinct (versionsOf zero_platform sample_catalog ''real-estate'')"
  using versions_are_listed_in_order [OF _ sample_catalog_reached, of "''real-estate''" "''1.0.0''"]
  by (simp add: has_profile_def sample_catalog_def)

theorem cases_follow_the_catalogue_witness:
  "\<exists>t. createProtocolizationCase zero_platform ((sample_case_context ''2025-01-15T14:30:00Z'')\<lparr>cc_catalog := get_profile sample_catalog\<rparr>)
     sample_case_input = Inr t"
proof -
  have "createAssetProfileCatalog zero_platform [sample_case_profile] = Inr sample_catalog"
    by (simp add: createAssetProfileCatalog_def sample_registers bind_result_def)
  from cases_follow_the_catalogue [OF this, of "(sample_case_context ''2025-01-15T14:30:00Z'')\<lparr>cc_catalog := get_profile sample_catalog\<rparr>"]
  show ?thesis using sample_case_identifiers sample_case_moments [of zero_platform]
    by (simp add: creation_ok_def sample_case_input_def sample_case_context_def has_profile_def sample_catalog_def
        isValidProtocolizationCaseSubject_def isValidSovereignSubjectRef_def correlation_id_ok_def)
qed

end
