(* ===== verification/Verification.thy ===== *)
theory Verification
  imports Declarations ProfileCatalog
begin

text \<open>
  \<open>packages/asset-protocolization/src/verification/\<close>: the execution of the checks a profile declares against one revision of a
  case.  A check is a port: a function of the context it is given, whose exception is a value of the left summand.  The resolvers of
  claims and of contents are ports that answer; a rejection of theirs would be the check's.  The clock is
  read once for each execution; a run reads it again for each of its executions, so that it takes the sequence of its readings.
  The built-in checks are in \<open>VerificationChecks\<close>.
\<close>

section \<open>Results\<close>

definition VERIFICATION_CHECK_OUTCOMES :: "string list" where
  "VERIFICATION_CHECK_OUTCOMES = [''Pass'', ''Fail'', ''Warning'', ''ManualReview'', ''Unavailable'']"

definition isVerificationCheckOutcome :: "string \<Rightarrow> bool" where
  "isVerificationCheckOutcome v \<longleftrightarrow> v \<in> set VERIFICATION_CHECK_OUTCOMES"

definition VERIFICATION_INPUT_KINDS :: "string list" where
  "VERIFICATION_INPUT_KINDS = [''Material'', ''Requirement'', ''EvidenceRecord'', ''ClaimRecord'', ''IntakeReceipt'',
     ''DeclarationRecord'', ''Subject'', ''RegistryEntry'', ''Observation'']"

definition isVerificationInputKind :: "string \<Rightarrow> bool" where
  "isVerificationInputKind v \<longleftrightarrow> v \<in> set VERIFICATION_INPUT_KINDS"

record input_ref =
  nr_kind :: string
  nr_ref :: string

record check_execution =
  vx_outcome :: string
  vx_reasonCode :: "string option"
  vx_summary :: "string option"
  vx_inputRefs :: "input_ref list option"
  vx_canonicalVerificationRef :: "string option"

record verification_result =
  vr_schemaVersion :: string
  vr_executionId :: string
  vr_tenantId :: string
  vr_caseId :: string
  vr_profile :: profile_ref
  vr_requirementId :: string
  vr_checkId :: string
  vr_evaluatedCaseRevision :: int
  vr_outcome :: string
  vr_reasonCode :: "string option"
  vr_summary :: "string option"
  vr_inputRefs :: "input_ref list option"
  vr_executedAt :: string
  vr_canonicalVerificationRef :: "string option"
  vr_correlationId :: "string option"

definition PROTOCOLIZATION_VERIFICATION_RESULT_SCHEMA_VERSION :: string where
  "PROTOCOLIZATION_VERIFICATION_RESULT_SCHEMA_VERSION = ''aoc-protocolization-verification/1''"

record executed_event =
  xe_executionId :: string
  xe_tenantId :: string
  xe_caseId :: string
  xe_profile :: profile_ref
  xe_requirementId :: string
  xe_checkId :: string
  xe_evaluatedCaseRevision :: int
  xe_outcome :: string
  xe_reasonCode :: "string option"
  xe_occurredAt :: string
  xe_correlationId :: "string option"

section \<open>Validation\<close>

definition isValidVerificationExecutionId :: "string \<Rightarrow> bool" where
  "isValidVerificationExecutionId v = isProtocolizationInstanceIdentifier v"

definition isValidVerificationReasonCode :: "string \<Rightarrow> bool" where
  "isValidVerificationReasonCode v = isDottedToken v"

definition SUMMARY_MAX_LENGTH :: nat where
  "SUMMARY_MAX_LENGTH = 1024"

definition INPUT_REFS_MAX_LENGTH :: nat where
  "INPUT_REFS_MAX_LENGTH = 256"

definition isValidSummary :: "string \<Rightarrow> bool" where
  "isValidSummary v \<longleftrightarrow> trim v \<noteq> [] \<and> length v \<le> SUMMARY_MAX_LENGTH"

definition isValidInputRefList :: "input_ref list \<Rightarrow> bool" where
  "isValidInputRefList v \<longleftrightarrow> (if length v > INPUT_REFS_MAX_LENGTH then False
     else list_all (\<lambda>entry. isVerificationInputKind (nr_kind entry) \<and> isCanonicalRecordId (nr_ref entry)) v)"

definition validateVerificationCheckExecution :: "check_execution \<Rightarrow> string list" where
  "validateVerificationCheckExecution v =
     reason_when (\<not> isVerificationCheckOutcome (vx_outcome v)) ''VERIFICATION_OUTCOME_INVALID'' @
     reason_when (present_and (\<lambda>r. \<not> isValidVerificationReasonCode r) (vx_reasonCode v)) ''VERIFICATION_REASON_CODE_INVALID'' @
     reason_when (present_and (\<lambda>s. \<not> isValidSummary s) (vx_summary v)) ''VERIFICATION_SUMMARY_INVALID'' @
     reason_when (present_and (\<lambda>l. \<not> isValidInputRefList l) (vx_inputRefs v)) ''VERIFICATION_INPUT_REFS_INVALID'' @
     reason_when (present_and (\<lambda>i. \<not> isCanonicalRecordId i) (vx_canonicalVerificationRef v))
       ''VERIFICATION_CANONICAL_VERIFICATION_REF_INVALID''"

definition isAdmissibleVerificationCheckExecution :: "check_execution \<Rightarrow> bool" where
  "isAdmissibleVerificationCheckExecution v \<longleftrightarrow> validateVerificationCheckExecution v = []"

definition validateProtocolizationVerificationResult :: "platform \<Rightarrow> verification_result \<Rightarrow> string list" where
  "validateProtocolizationVerificationResult P v =
     reason_when (vr_schemaVersion v \<noteq> PROTOCOLIZATION_VERIFICATION_RESULT_SCHEMA_VERSION) ''VERIFICATION_SCHEMA_VERSION_INVALID'' @
     reason_when (\<not> isValidVerificationExecutionId (vr_executionId v)) ''VERIFICATION_EXECUTION_ID_INVALID'' @
     reason_when (\<not> isValidProtocolizationTenantId (vr_tenantId v)) ''VERIFICATION_TENANT_ID_INVALID'' @
     reason_when (\<not> isValidProtocolizationCaseId (vr_caseId v)) ''VERIFICATION_CASE_ID_INVALID'' @
     reason_when (\<not> isValidProtocolizationProfileRef (vr_profile v)) ''VERIFICATION_PROFILE_REF_INVALID'' @
     reason_when (\<not> isValidAssetRequirementId (vr_requirementId v)) ''VERIFICATION_REQUIREMENT_ID_INVALID'' @
     reason_when (\<not> isValidAssetVerificationCheckId (vr_checkId v)) ''VERIFICATION_CHECK_ID_INVALID'' @
     reason_when (\<bar>vr_evaluatedCaseRevision v\<bar> > MAX_SAFE_INTEGER \<or> vr_evaluatedCaseRevision v < 1) ''VERIFICATION_CASE_REVISION_INVALID'' @
     reason_when (\<not> isVerificationCheckOutcome (vr_outcome v)) ''VERIFICATION_OUTCOME_INVALID'' @
     reason_when (present_and (\<lambda>r. \<not> isValidVerificationReasonCode r) (vr_reasonCode v)) ''VERIFICATION_REASON_CODE_INVALID'' @
     reason_when (present_and (\<lambda>s. \<not> isValidSummary s) (vr_summary v)) ''VERIFICATION_SUMMARY_INVALID'' @
     reason_when (present_and (\<lambda>l. \<not> isValidInputRefList l) (vr_inputRefs v)) ''VERIFICATION_INPUT_REFS_INVALID'' @
     reason_when (\<not> isValidUtcDateTime P (vr_executedAt v)) ''VERIFICATION_EXECUTED_AT_INVALID'' @
     reason_when (present_and (\<lambda>i. \<not> isCanonicalRecordId i) (vr_canonicalVerificationRef v))
       ''VERIFICATION_CANONICAL_VERIFICATION_REF_INVALID'' @
     reason_when (present_and (\<lambda>i. \<not> isCanonicalRecordId i) (vr_correlationId v)) ''VERIFICATION_CORRELATION_ID_INVALID''"

definition isValidProtocolizationVerificationResult :: "platform \<Rightarrow> verification_result \<Rightarrow> bool" where
  "isValidProtocolizationVerificationResult P v \<longleftrightarrow> validateProtocolizationVerificationResult P v = []"

section \<open>Checks and their registry\<close>

record claim_resolution =
  cn_status :: string
  cn_claim :: "canonical_claim option"

record content_resolution =
  tn_status :: string
  tn_bytes :: "bytes option"

record resolvers =
  rs_claim :: "(string \<Rightarrow> claim_resolution) option"
  rs_content :: "(subject_reference \<Rightarrow> content_resolution) option"

record check_context =
  vc_tenantId :: string
  vc_caseId :: string
  vc_profile :: profile_ref
  vc_assetProfile :: asset_profile
  vc_requirementId :: string
  vc_requirement :: asset_requirement
  vc_checkId :: string
  vc_subject :: case_subject
  vc_caseState :: string
  vc_caseRevision :: int
  vc_requirementProgress :: "requirement_progress list"
  vc_materials :: "case_material list"
  vc_evidenceReceipts :: "intake_receipt list"
  vc_declarations :: "declaration_record list"
  vc_now :: string
  vc_resolvers :: resolvers

record asset_check =
  ck_checkId :: string
  ck_execute :: "check_context \<Rightarrow> check_execution case_result"

type_synonym check_registry = "(string \<times> asset_check) list"

definition register_check :: "asset_check \<Rightarrow> check_registry \<Rightarrow> check_registry case_result" where
  "register_check check entries = after (first_throw [
     fail_if (\<not> isValidAssetVerificationCheckId (ck_checkId check)) ''VERIFICATION_CHECK_REGISTRATION_INVALID''
       ''A verification check must carry a well-formed AssetVerificationCheckId'' [''VERIFICATION_CHECK_REGISTRATION_INVALID''],
     fail_if (map_of entries (ck_checkId check) \<noteq> None) ''VERIFICATION_CHECK_REGISTRATION_INVALID''
       (''A verification check is already registered for '' @ ck_checkId check) [''VERIFICATION_CHECK_REGISTRATION_INVALID'']])
     (Inr (map_set (ck_checkId check) check entries))"

definition get_check :: "check_registry \<Rightarrow> string \<Rightarrow> asset_check option" where
  "get_check entries checkId = map_of entries checkId"

definition has_check :: "check_registry \<Rightarrow> string \<Rightarrow> bool" where
  "has_check entries checkId \<longleftrightarrow> map_of entries checkId \<noteq> None"

definition registeredCheckIds :: "check_registry \<Rightarrow> string list" where
  "registeredCheckIds entries = sort_cmp code_unit_compare (map fst entries)"

fun register_checks :: "asset_check list \<Rightarrow> check_registry \<Rightarrow> check_registry case_result" where
  "register_checks [] entries = Inr entries"
| "register_checks (check # checks) entries = bind_result (register_check check entries) (register_checks checks)"

definition createVerificationCheckRegistry :: "asset_check list \<Rightarrow> check_registry case_result" where
  "createVerificationCheckRegistry checks = register_checks checks []"

section \<open>Execution\<close>

record verification_context =
  vn_case :: case_context
  vn_checks :: check_registry
  vn_resolvers :: "resolvers option"

record verification_inputs =
  vi_evidenceReceipts :: "intake_receipt list option"
  vi_declarations :: "declaration_record list option"

record execute_input =
  xi_executionId :: string
  xi_requirementId :: string
  xi_checkId :: string
  xi_inputs :: verification_inputs
  xi_correlationId :: "string option"

record run_input =
  ri_executionIds :: "string list"
  ri_inputs :: verification_inputs
  ri_correlationId :: "string option"

record verification_transition =
  vt_result :: verification_result
  vt_event :: executed_event

record verification_run =
  vu_results :: "verification_result list"
  vu_events :: "executed_event list"
  vu_evaluatedCaseRevision :: int
  vu_executedAt :: string

text \<open>Errors whose only reason is their code.\<close>

definition verification_fail :: "bool \<Rightarrow> string \<Rightarrow> string \<Rightarrow> case_error option" where
  "verification_fail b code message = fail_if b code message [code]"

definition verification_assertActingTenantOwnsCase :: "verification_context \<Rightarrow> protocolization_case \<Rightarrow> case_error option" where
  "verification_assertActingTenantOwnsCase ctx c = (let tenantId = cc_tenantId (vn_case ctx) in first_throw [
     verification_fail (\<not> isValidProtocolizationTenantId tenantId) ''VERIFICATION_TENANT_REQUIRED''
       ''A non-blank acting tenantId is required'',
     verification_fail (kc_tenantId c \<noteq> tenantId) ''VERIFICATION_TENANT_MISMATCH''
       ''The acting tenant does not own this ProtocolizationCase''])"

definition assertReadableCase :: "platform \<Rightarrow> protocolization_case \<Rightarrow> case_error option" where
  "assertReadableCase P c = (let reasons = map fst (validateProtocolizationCase P c None) in
     fail_if (reasons \<noteq> []) ''PROTOCOLIZATION_CASE_INVALID'' (''Invalid ProtocolizationCase: '' @ join '', '' reasons) reasons)"

definition assertCaseAcceptsVerification :: "protocolization_case \<Rightarrow> case_error option" where
  "assertCaseAcceptsVerification c = verification_fail (kc_state c = ''Cancelled'') ''VERIFICATION_CASE_CANCELLED''
     ''A Cancelled ProtocolizationCase does not accept further verification execution''"

definition profile_name :: "protocolization_case \<Rightarrow> string" where
  "profile_name c = pf_profileId (kc_profile c) @ ''@'' @ pf_profileVersion (kc_profile c)"

definition verification_resolvePinnedProfile :: "verification_context \<Rightarrow> protocolization_case \<Rightarrow> asset_profile case_result" where
  "verification_resolvePinnedProfile ctx c =
     (case cc_catalog (vn_case ctx) (pf_profileId (kc_profile c)) (pf_profileVersion (kc_profile c)) of
        None \<Rightarrow> Inl (case_failure ''PROTOCOLIZATION_CASE_PROFILE_NOT_FOUND'' (''No AssetProfile '' @ profile_name c @ '' is catalogued'')
          [''PROTOCOLIZATION_CASE_PROFILE_NOT_FOUND''])
      | Some profile \<Rightarrow> Inr profile)"

definition resolveVerificationRequirement :: "asset_profile \<Rightarrow> protocolization_case \<Rightarrow> string \<Rightarrow> asset_requirement case_result" where
  "resolveVerificationRequirement profile c requirementId =
     (case find (\<lambda>entry. rq_id entry = requirementId) (ap_requirements profile) of
        None \<Rightarrow> Inl (case_failure ''PROTOCOLIZATION_CASE_UNKNOWN_REQUIREMENT''
          (''Requirement not declared by '' @ profile_name c @ '': '' @ requirementId) [''PROTOCOLIZATION_CASE_UNKNOWN_REQUIREMENT''])
      | Some requirement \<Rightarrow> after (verification_fail (rq_kind requirement \<noteq> ''Verification'') ''VERIFICATION_REQUIREMENT_INCOMPATIBLE''
          (''A verification check may only be executed against a Verification requirement; '' @ rq_id requirement @ '' is '' @
            rq_kind requirement)) (Inr requirement))"

text \<open>The checks a verification requirement declares.\<close>

definition declared_checks :: "asset_requirement \<Rightarrow> string list" where
  "declared_checks requirement = (case rq_terms requirement of VerificationTerms checkIds satisfaction freshness \<Rightarrow> checkIds | _ \<Rightarrow> [])"

definition assertCheckDeclared :: "asset_requirement \<Rightarrow> protocolization_case \<Rightarrow> string \<Rightarrow> case_error option" where
  "assertCheckDeclared requirement c checkId = (let occurrences = length (filter (\<lambda>declared. declared = checkId) (declared_checks requirement)) in
     first_throw [
       verification_fail (occurrences = 0) ''VERIFICATION_CHECK_NOT_DECLARED''
         (''Requirement '' @ rq_id requirement @ '' of '' @ profile_name c @ '' does not declare check '' @ checkId),
       verification_fail (occurrences > 1) ''VERIFICATION_CHECK_DECLARED_TWICE''
         (''Requirement '' @ rq_id requirement @ '' declares check '' @ checkId @ '' more than once'')])"

definition receipts_of :: "verification_inputs \<Rightarrow> intake_receipt list" where
  "receipts_of inputs = (case vi_evidenceReceipts inputs of None \<Rightarrow> [] | Some l \<Rightarrow> l)"

definition declarations_of :: "verification_inputs \<Rightarrow> declaration_record list" where
  "declarations_of inputs = (case vi_declarations inputs of None \<Rightarrow> [] | Some l \<Rightarrow> l)"

definition assertInputsBelongToCase :: "verification_context \<Rightarrow> protocolization_case \<Rightarrow> verification_inputs \<Rightarrow> case_error option" where
  "assertInputsBelongToCase ctx c inputs = (let
       foreignTenant = list_ex (\<lambda>tenantId. tenantId \<noteq> cc_tenantId (vn_case ctx))
         (map rc_tenantId (receipts_of inputs) @ map dr_tenantId (declarations_of inputs));
       foreignCase = list_ex (\<lambda>caseId. caseId \<noteq> kc_caseId c)
         (map rc_caseId (receipts_of inputs) @ map dr_caseId (declarations_of inputs)) in
     first_throw [
       verification_fail foreignTenant ''VERIFICATION_TENANT_MISMATCH'' ''A supplied verification input belongs to another tenant'',
       verification_fail foreignCase ''VERIFICATION_CASE_MISMATCH'' ''A supplied verification input belongs to another case''])"

definition verification_readClock :: "platform \<Rightarrow> verification_context \<Rightarrow> protocolization_case \<Rightarrow> string case_result" where
  "verification_readClock P ctx c = (let now = cc_now (vn_case ctx) in
     after (first_throw [
       verification_fail (\<not> isValidUtcDateTime P now) ''VERIFICATION_TIMESTAMP_INVALID'' ''The clock returned a non-canonical instant'',
       verification_fail (case (date_of P now, date_of P (kc_updatedAt c)) of (Some a, Some b) \<Rightarrow> a < b | _ \<Rightarrow> False)
         ''VERIFICATION_TIMESTAMP_INVALID'' ''The clock is earlier than the case it is verifying'']) (Inr now))"

definition MAX_CORRELATION_ID_LENGTH :: nat where
  "MAX_CORRELATION_ID_LENGTH = 128"

definition assertAdmissibleRequest :: "execute_input \<Rightarrow> case_error option" where
  "assertAdmissibleRequest inp = (let code = ''VERIFICATION_REQUEST_INVALID''; reasons =
       reason_when (\<not> isValidVerificationExecutionId (xi_executionId inp)) code @
       reason_when (\<not> isValidAssetRequirementId (xi_requirementId inp)) code @
       reason_when (\<not> isValidAssetVerificationCheckId (xi_checkId inp)) code @
       reason_when (present_and (\<lambda>i. trim i = [] \<or> length i > MAX_CORRELATION_ID_LENGTH) (xi_correlationId inp)) code in
     fail_if (reasons \<noteq> []) code ''Cannot execute a verification check: the request is malformed'' reasons)"

definition buildCheckContext :: "verification_context \<Rightarrow> protocolization_case \<Rightarrow> asset_profile \<Rightarrow> asset_requirement \<Rightarrow> string \<Rightarrow>
    verification_inputs \<Rightarrow> string \<Rightarrow> check_context case_result" where
  "buildCheckContext ctx c profile requirement checkId inputs now =
     bind_result (listProtocolizationCaseRequirementProgress c profile no_filter) (\<lambda>progress.
     Inr \<lparr>vc_tenantId = kc_tenantId c, vc_caseId = kc_caseId c, vc_profile = kc_profile c, vc_assetProfile = profile,
       vc_requirementId = rq_id requirement, vc_requirement = requirement, vc_checkId = checkId, vc_subject = kc_subject c,
       vc_caseState = kc_state c, vc_caseRevision = kc_revision c, vc_requirementProgress = progress, vc_materials = kc_materials c,
       vc_evidenceReceipts = receipts_of inputs, vc_declarations = declarations_of inputs, vc_now = now,
       vc_resolvers = (case vn_resolvers ctx of None \<Rightarrow> \<lparr>rs_claim = None, rs_content = None\<rparr> | Some r \<Rightarrow> r)\<rparr>)"

definition result_of :: "protocolization_case \<Rightarrow> asset_requirement \<Rightarrow> string \<Rightarrow> string \<Rightarrow> check_execution \<Rightarrow> string \<Rightarrow> string option \<Rightarrow>
    verification_result" where
  "result_of c requirement checkId executionId x executedAt correlationId =
     \<lparr>vr_schemaVersion = PROTOCOLIZATION_VERIFICATION_RESULT_SCHEMA_VERSION, vr_executionId = executionId,
      vr_tenantId = kc_tenantId c, vr_caseId = kc_caseId c, vr_profile = kc_profile c, vr_requirementId = rq_id requirement,
      vr_checkId = checkId, vr_evaluatedCaseRevision = kc_revision c, vr_outcome = vx_outcome x, vr_reasonCode = vx_reasonCode x,
      vr_summary = vx_summary x, vr_inputRefs = vx_inputRefs x, vr_executedAt = executedAt,
      vr_canonicalVerificationRef = vx_canonicalVerificationRef x, vr_correlationId = correlationId\<rparr>"

definition executed_event_of :: "verification_result \<Rightarrow> executed_event" where
  "executed_event_of r = \<lparr>xe_executionId = vr_executionId r, xe_tenantId = vr_tenantId r, xe_caseId = vr_caseId r,
     xe_profile = vr_profile r, xe_requirementId = vr_requirementId r, xe_checkId = vr_checkId r,
     xe_evaluatedCaseRevision = vr_evaluatedCaseRevision r, xe_outcome = vr_outcome r, xe_reasonCode = vr_reasonCode r,
     xe_occurredAt = vr_executedAt r, xe_correlationId = vr_correlationId r\<rparr>"

definition sealResult :: "platform \<Rightarrow> protocolization_case \<Rightarrow> asset_requirement \<Rightarrow> string \<Rightarrow> string \<Rightarrow> check_execution \<Rightarrow> string \<Rightarrow>
    string option \<Rightarrow> verification_transition case_result" where
  "sealResult P c requirement checkId executionId x executedAt correlationId = (let reasons = validateVerificationCheckExecution x;
       r = result_of c requirement checkId executionId x executedAt correlationId; faults = validateProtocolizationVerificationResult P r in
     after (first_throw [
       fail_if (reasons \<noteq> []) ''VERIFICATION_CHECK_EXECUTION_INVALID''
         (''Verification check '' @ checkId @ '' returned a malformed execution: '' @ join '', '' reasons) reasons,
       fail_if (faults \<noteq> []) ''VERIFICATION_RESULT_INVALID''
         (''Refusing to produce an invalid ProtocolizationVerificationResult: '' @ join '', '' faults) faults])
     (Inr \<lparr>vt_result = r, vt_event = executed_event_of r\<rparr>))"

definition executeProtocolizationVerificationCheck ::
  "platform \<Rightarrow> verification_context \<Rightarrow> protocolization_case \<Rightarrow> execute_input \<Rightarrow> verification_transition case_result" where
  "executeProtocolizationVerificationCheck P ctx c inp =
     after (first_throw [verification_assertActingTenantOwnsCase ctx c, assertReadableCase P c, assertAdmissibleRequest inp,
       assertCaseAcceptsVerification c])
     (bind_result (verification_resolvePinnedProfile ctx c) (\<lambda>profile.
      bind_result (resolveVerificationRequirement profile c (xi_requirementId inp)) (\<lambda>requirement.
      after (assertCheckDeclared requirement c (xi_checkId inp))
      (case get_check (vn_checks ctx) (xi_checkId inp) of
         None \<Rightarrow> Inl (case_failure ''VERIFICATION_CHECK_NOT_REGISTERED''
           (''No verification check implementation is registered for '' @ xi_checkId inp) [''VERIFICATION_CHECK_NOT_REGISTERED''])
       | Some check \<Rightarrow>
         after (assertInputsBelongToCase ctx c (xi_inputs inp))
         (bind_result (verification_readClock P ctx c) (\<lambda>executedAt.
          bind_result (buildCheckContext ctx c profile requirement (xi_checkId inp) (xi_inputs inp) executedAt) (\<lambda>context.
          bind_result (ck_execute check context) (\<lambda>execution.
          sealResult P c requirement (xi_checkId inp) (xi_executionId inp) execution executedAt (xi_correlationId inp)))))))))"

section \<open>Runs\<close>

fun plan_checks :: "string \<Rightarrow> string set \<Rightarrow> string list \<Rightarrow> (string \<times> string) list case_result" where
  "plan_checks requirementId seen [] = Inr []"
| "plan_checks requirementId seen (checkId # checkIds) =
     after (verification_fail (checkId \<in> seen) ''VERIFICATION_CHECK_DECLARED_TWICE''
       (''Requirement '' @ requirementId @ '' declares check '' @ checkId @ '' more than once''))
     (bind_result (plan_checks requirementId (insert checkId seen) checkIds) (\<lambda>plan. Inr ((requirementId, checkId) # plan)))"

fun plan_requirements :: "asset_requirement list \<Rightarrow> (string \<times> string) list case_result" where
  "plan_requirements [] = Inr []"
| "plan_requirements (requirement # requirements) =
     bind_result (if rq_kind requirement \<noteq> ''Verification'' then Inr [] else plan_checks (rq_id requirement) {} (declared_checks requirement)) (\<lambda>here.
     bind_result (plan_requirements requirements) (\<lambda>rest. Inr (here @ rest)))"

definition listProtocolizationVerificationPlan ::
  "platform \<Rightarrow> verification_context \<Rightarrow> protocolization_case \<Rightarrow> (string \<times> string) list case_result" where
  "listProtocolizationVerificationPlan P ctx c = after (first_throw [verification_assertActingTenantOwnsCase ctx c, assertReadableCase P c])
     (bind_result (verification_resolvePinnedProfile ctx c) (\<lambda>profile. plan_requirements (ap_requirements profile)))"

text \<open>The context at one reading of the clock.\<close>

definition reading :: "verification_context \<Rightarrow> string \<Rightarrow> verification_context" where
  "reading ctx t = ctx\<lparr>vn_case := (vn_case ctx)\<lparr>cc_now := t\<rparr>\<rparr>"

fun run_loop :: "platform \<Rightarrow> (nat \<Rightarrow> string) \<Rightarrow> verification_context \<Rightarrow> protocolization_case \<Rightarrow> run_input \<Rightarrow> nat \<Rightarrow> (string \<times> string) list \<Rightarrow>
    verification_transition list case_result" where
  "run_loop P clock ctx c inp index [] = Inr []"
| "run_loop P clock ctx c inp index ((requirementId, checkId) # plan) =
     bind_result (executeProtocolizationVerificationCheck P (reading ctx (clock index)) c
       \<lparr>xi_executionId = ri_executionIds inp ! index, xi_requirementId = requirementId, xi_checkId = checkId,
        xi_inputs = ri_inputs inp, xi_correlationId = ri_correlationId inp\<rparr>) (\<lambda>transition.
     bind_result (run_loop P clock ctx c inp (Suc index) plan) (\<lambda>transitions. Inr (transition # transitions)))"

definition runProtocolizationVerification ::
  "platform \<Rightarrow> (nat \<Rightarrow> string) \<Rightarrow> verification_context \<Rightarrow> protocolization_case \<Rightarrow> run_input \<Rightarrow> verification_run case_result" where
  "runProtocolizationVerification P clock ctx c inp =
     after (first_throw [verification_assertActingTenantOwnsCase ctx c, assertReadableCase P c, assertCaseAcceptsVerification c])
     (bind_result (listProtocolizationVerificationPlan P ctx c) (\<lambda>plan.
      after (first_throw [
        verification_fail (length (ri_executionIds inp) \<noteq> length plan) ''VERIFICATION_REQUEST_INVALID''
          (''This case'' @ [CHR 0x27] @ ''s pinned profile declares '' @ show_nat (length plan) @
            '' check execution(s); exactly that many execution ids are required''),
        verification_fail (card (set (ri_executionIds inp)) \<noteq> length (ri_executionIds inp)) ''VERIFICATION_REQUEST_INVALID''
          ''Execution ids within one run must be distinct''])
      (bind_result (run_loop P clock ctx c inp 0 plan) (\<lambda>transitions.
       bind_result (case transitions of [] \<Rightarrow> verification_readClock P (reading ctx (clock 0)) c
         | t # ts \<Rightarrow> Inr (vr_executedAt (vt_result t))) (\<lambda>executedAt.
       Inr \<lparr>vu_results = map vt_result transitions, vu_events = map vt_event transitions,
         vu_evaluatedCaseRevision = kc_revision c, vu_executedAt = executedAt\<rparr>)))))"

definition reconstituteProtocolizationVerificationResult :: "platform \<Rightarrow> verification_result \<Rightarrow> verification_result case_result" where
  "reconstituteProtocolizationVerificationResult P v = (let faults = validateProtocolizationVerificationResult P v in
     after (fail_if (faults \<noteq> []) ''VERIFICATION_RESULT_INVALID''
       (''Refusing to reconstitute an invalid ProtocolizationVerificationResult: '' @ join '', '' faults) faults) (Inr v))"

section \<open>The repository\<close>

type_synonym result_store = "(string \<times> verification_result) list"

definition resultKey :: "string \<Rightarrow> string \<Rightarrow> string" where
  "resultKey tenantId executionId = tenantId @ line_feed # executionId"

definition assertResultTenant :: "string \<Rightarrow> case_error option" where
  "assertResultTenant tenantId = verification_fail (\<not> isValidProtocolizationTenantId tenantId) ''VERIFICATION_TENANT_REQUIRED''
     ''A non-blank tenantId is required to address a ProtocolizationVerificationResult''"

definition compareVerificationResults :: "platform \<Rightarrow> verification_result \<Rightarrow> verification_result \<Rightarrow> int" where
  "compareVerificationResults P left right = (case (date_of P (vr_executedAt left), date_of P (vr_executedAt right)) of
     (Some a, Some b) \<Rightarrow> if a - b \<noteq> 0 then (if a - b < 0 then -1 else 1)
       else if vr_executionId left = vr_executionId right then 0
       else if code_unit_compare (vr_executionId left) (vr_executionId right) < 0 then -1 else 1
   | _ \<Rightarrow> 1)"

definition forCase :: "platform \<Rightarrow> result_store \<Rightarrow> string \<Rightarrow> string \<Rightarrow> verification_result list" where
  "forCase P entries tenantId caseId = sort_cmp (compareVerificationResults P)
     (filter (\<lambda>r. vr_tenantId r = tenantId \<and> vr_caseId r = caseId) (map snd entries))"

definition get_result :: "result_store \<Rightarrow> string \<Rightarrow> string \<Rightarrow> verification_result option case_result" where
  "get_result entries tenantId executionId = after (assertResultTenant tenantId) (Inr (map_of entries (resultKey tenantId executionId)))"

definition result_exists :: "result_store \<Rightarrow> string \<Rightarrow> string \<Rightarrow> bool case_result" where
  "result_exists entries tenantId executionId =
     after (assertResultTenant tenantId) (Inr (map_of entries (resultKey tenantId executionId) \<noteq> None))"

definition list_results :: "platform \<Rightarrow> result_store \<Rightarrow> string \<Rightarrow> string \<Rightarrow> verification_result list case_result" where
  "list_results P entries tenantId caseId = after (assertResultTenant tenantId) (Inr (forCase P entries tenantId caseId))"

definition listByRequirementCheck :: "platform \<Rightarrow> result_store \<Rightarrow> string \<Rightarrow> string \<Rightarrow> string \<Rightarrow> string \<Rightarrow> verification_result list case_result" where
  "listByRequirementCheck P entries tenantId caseId requirementId checkId = after (assertResultTenant tenantId)
     (Inr (filter (\<lambda>r. vr_requirementId r = requirementId \<and> vr_checkId r = checkId) (forCase P entries tenantId caseId)))"

definition save_result :: "platform \<Rightarrow> result_store \<Rightarrow> verification_result \<Rightarrow> result_store case_result" where
  "save_result P entries r = (let faults = validateProtocolizationVerificationResult P r;
       key = resultKey (vr_tenantId r) (vr_executionId r) in
     after (first_throw [
       fail_if (faults \<noteq> []) ''VERIFICATION_RESULT_INVALID''
         (''Refusing to store an invalid ProtocolizationVerificationResult: '' @ join '', '' faults) faults,
       verification_fail (map_of entries key \<noteq> None) ''VERIFICATION_RESULT_DUPLICATE''
         ''A ProtocolizationVerificationResult with this (tenantId, executionId) already exists''])
     (Inr (map_set key r entries)))"

section \<open>Projections\<close>

definition isVerificationResultCurrentForRevision :: "verification_result \<Rightarrow> int \<Rightarrow> bool" where
  "isVerificationResultCurrentForRevision r caseRevision \<longleftrightarrow> vr_evaluatedCaseRevision r = caseRevision"

definition listVerificationResultsForRevision :: "platform \<Rightarrow> verification_result list \<Rightarrow> int \<Rightarrow> verification_result list" where
  "listVerificationResultsForRevision P results caseRevision = sort_cmp (compareVerificationResults P)
     (filter (\<lambda>r. isVerificationResultCurrentForRevision r caseRevision) results)"

definition keyOf :: "verification_result \<Rightarrow> string" where
  "keyOf r = vr_requirementId r @ line_feed # vr_checkId r"

definition keep_latest :: "platform \<Rightarrow> verification_result \<Rightarrow> result_store \<Rightarrow> result_store" where
  "keep_latest P r latest = (case map_of latest (keyOf r) of
     None \<Rightarrow> map_set (keyOf r) r latest
   | Some held \<Rightarrow> if compareVerificationResults P held r < 0 then map_set (keyOf r) r latest else latest)"

definition listLatestVerificationResults :: "platform \<Rightarrow> verification_result list \<Rightarrow> verification_result list" where
  "listLatestVerificationResults P results =
     sort_cmp (compareVerificationResults P) (map snd (fold (keep_latest P) results []))"

text \<open>The counts by outcome, as an object in the order of its keys.\<close>

definition count_outcome :: "verification_result \<Rightarrow> (string \<times> nat) list \<Rightarrow> (string \<times> nat) list" where
  "count_outcome r counts = map_set (vr_outcome r) ((case map_of counts (vr_outcome r) of None \<Rightarrow> 0 | Some n \<Rightarrow> n) + 1) counts"

definition countVerificationOutcomes :: "verification_result list \<Rightarrow> (string \<times> nat) list" where
  "countVerificationOutcomes results = fold count_outcome results (map (\<lambda>v. (v, 0)) VERIFICATION_CHECK_OUTCOMES)"

section \<open>When a check is executed\<close>

lemma verification_fail_None [simp]: "verification_fail b code message = None \<longleftrightarrow> \<not> b"
  by (simp add: verification_fail_def fail_if_None)

definition execution_ok :: "check_execution \<Rightarrow> bool" where
  "execution_ok x \<longleftrightarrow> isVerificationCheckOutcome (vx_outcome x) \<and> optional_ok isValidVerificationReasonCode (vx_reasonCode x) \<and>
     optional_ok isValidSummary (vx_summary x) \<and> optional_ok isValidInputRefList (vx_inputRefs x) \<and>
     optional_ok isCanonicalRecordId (vx_canonicalVerificationRef x)"

lemma execution_iff: "validateVerificationCheckExecution x = [] \<longleftrightarrow> execution_ok x"
  by (auto simp: validateVerificationCheckExecution_def execution_ok_def)

definition execute_request_ok :: "execute_input \<Rightarrow> bool" where
  "execute_request_ok inp \<longleftrightarrow> isValidVerificationExecutionId (xi_executionId inp) \<and> isValidAssetRequirementId (xi_requirementId inp) \<and>
     isValidAssetVerificationCheckId (xi_checkId inp) \<and> optional_ok isCanonicalRecordId (xi_correlationId inp)"

lemma request_iff: "assertAdmissibleRequest inp = None \<longleftrightarrow> execute_request_ok inp"
proof -
  have "present_and (\<lambda>i. trim i = [] \<or> length i > MAX_CORRELATION_ID_LENGTH) v \<longleftrightarrow> \<not> optional_ok isCanonicalRecordId v" for v
    by (auto simp: present_and_def optional_ok_def isCanonicalRecordId_def MAX_CORRELATION_ID_LENGTH_def
        ASSET_IDENTIFIER_MAX_LENGTH_def split: option.splits)
  then show ?thesis by (auto simp: assertAdmissibleRequest_def Let_def fail_if_None execute_request_ok_def)
qed

text \<open>The tenant may have checks executed against the case; the profile its pin resolves to; what the profile declares; what the call
  supplies belongs to the case.\<close>

definition may_verify :: "platform \<Rightarrow> verification_context \<Rightarrow> protocolization_case \<Rightarrow> bool" where
  "may_verify P ctx c \<longleftrightarrow> case_ok P c \<and> kc_tenantId c = cc_tenantId (vn_case ctx) \<and> kc_state c \<noteq> ''Cancelled''"

definition resolves_to :: "verification_context \<Rightarrow> protocolization_case \<Rightarrow> asset_profile \<Rightarrow> bool" where
  "resolves_to ctx c profile \<longleftrightarrow> pinned (vn_case ctx) (kc_profile c) = Some profile"

definition declares_check :: "asset_profile \<Rightarrow> string \<Rightarrow> string \<Rightarrow> asset_requirement \<Rightarrow> bool" where
  "declares_check profile requirementId checkId requirement \<longleftrightarrow>
     find (\<lambda>entry. rq_id entry = requirementId) (ap_requirements profile) = Some requirement \<and>
     rq_kind requirement = ''Verification'' \<and> count_list (declared_checks requirement) checkId = 1"

definition inputs_owned :: "verification_context \<Rightarrow> protocolization_case \<Rightarrow> verification_inputs \<Rightarrow> bool" where
  "inputs_owned ctx c inputs \<longleftrightarrow>
     (\<forall>r \<in> set (receipts_of inputs). rc_tenantId r = cc_tenantId (vn_case ctx) \<and> rc_caseId r = kc_caseId c) \<and>
     (\<forall>r \<in> set (declarations_of inputs). dr_tenantId r = cc_tenantId (vn_case ctx) \<and> dr_caseId r = kc_caseId c)"

text \<open>What a check sees of the case and its profile.\<close>

definition progress_list :: "protocolization_case \<Rightarrow> asset_profile \<Rightarrow> requirement_progress list" where
  "progress_list c profile = concat (map (\<lambda>requirement. case states_by_requirement c (rq_id requirement) of
     None \<Rightarrow> [] | Some s \<Rightarrow> [progress_of requirement s]) (ap_requirements profile))"

definition view :: "verification_context \<Rightarrow> protocolization_case \<Rightarrow> asset_profile \<Rightarrow> asset_requirement \<Rightarrow> string \<Rightarrow> verification_inputs \<Rightarrow>
    check_context" where
  "view ctx c profile requirement checkId inputs =
     \<lparr>vc_tenantId = kc_tenantId c, vc_caseId = kc_caseId c, vc_profile = kc_profile c, vc_assetProfile = profile,
      vc_requirementId = rq_id requirement, vc_requirement = requirement, vc_checkId = checkId, vc_subject = kc_subject c,
      vc_caseState = kc_state c, vc_caseRevision = kc_revision c, vc_requirementProgress = progress_list c profile,
      vc_materials = kc_materials c, vc_evidenceReceipts = receipts_of inputs, vc_declarations = declarations_of inputs,
      vc_now = cc_now (vn_case ctx),
      vc_resolvers = (case vn_resolvers ctx of None \<Rightarrow> \<lparr>rs_claim = None, rs_content = None\<rparr> | Some r \<Rightarrow> r)\<rparr>"

lemma acting_tenant_None:
  "case_ok P c \<Longrightarrow> verification_assertActingTenantOwnsCase ctx c = None \<longleftrightarrow> kc_tenantId c = cc_tenantId (vn_case ctx)"
  using case_tenant [of P c] by (auto simp: verification_assertActingTenantOwnsCase_def Let_def first_throw_None)

lemma readable_None [simp]: "assertReadableCase P c = None \<longleftrightarrow> case_ok P c"
  using valid_case_reasons [of P c] by (simp add: assertReadableCase_def fail_if_None Let_def)

lemma may_verify_iff:
  "verification_assertActingTenantOwnsCase ctx c = None \<and> case_ok P c \<and> assertCaseAcceptsVerification c = None \<longleftrightarrow> may_verify P ctx c"
  using acting_tenant_None [of P c ctx] by (auto simp: may_verify_def assertCaseAcceptsVerification_def)

lemma resolves_iff: "verification_resolvePinnedProfile ctx c = Inr profile \<longleftrightarrow> resolves_to ctx c profile"
  by (auto simp: verification_resolvePinnedProfile_def resolves_to_def pinned_def split: option.splits)

lemma declares_iff:
  "resolveVerificationRequirement profile c requirementId = Inr requirement \<and> assertCheckDeclared requirement c checkId = None \<longleftrightarrow>
   declares_check profile requirementId checkId requirement"
proof -
  have "length (filter (\<lambda>declared. declared = checkId) l) = count_list l checkId" for l
    by (induction l) auto
  then have "assertCheckDeclared requirement c checkId = None \<longleftrightarrow> count_list (declared_checks requirement) checkId = 1"
    by (auto simp: assertCheckDeclared_def Let_def first_throw_None)
  then show ?thesis
    by (auto simp: resolveVerificationRequirement_def declares_check_def after_Inr split: option.splits)
qed

lemma owned_iff: "assertInputsBelongToCase ctx c inputs = None \<longleftrightarrow> inputs_owned ctx c inputs"
  by (auto simp: assertInputsBelongToCase_def Let_def first_throw_None inputs_owned_def list_ex_iff)

lemma verification_clock_iff:
  assumes "case_ok P c"
  shows "verification_readClock P ctx c = Inr t \<longleftrightarrow> clock_ok P (vn_case ctx) c \<and> t = cc_now (vn_case ctx)"
  using case_okD(6) [OF assms]
  by (auto simp: verification_readClock_def clock_ok_def Let_def after_Inr first_throw_None isNotBefore_def isValidUtcDateTime_def
      split: option.splits)

lemma refs_equal [simp]: "protocolizationProfileRefsEqual r s \<longleftrightarrow> r = s"
  by (cases r; cases s) (auto simp: protocolizationProfileRefsEqual_def)

lemma context_iff:
  "buildCheckContext ctx c profile requirement checkId inputs (cc_now (vn_case ctx)) = Inr v \<longleftrightarrow>
   kc_profile c = ref_of profile \<and> v = view ctx c profile requirement checkId inputs"
  by (auto simp: buildCheckContext_def bind_result_Inr listProtocolizationCaseRequirementProgress_def after_Inr assertPinnedProfile_def
      fail_if_None no_filter_def view_def progress_list_def)

text \<open>A result is never refused when its execution was admitted.\<close>

lemma result_never_refused:
  assumes "case_ok P c" and "execution_ok x" and "isValidVerificationExecutionId i" and "isValidAssetRequirementId (rq_id requirement)"
    and "isValidAssetVerificationCheckId checkId" and "isValidUtcDateTime P t" and "optional_ok isCanonicalRecordId correlationId"
  shows "isValidProtocolizationVerificationResult P (result_of c requirement checkId i x t correlationId)"
  using assms by (auto simp: isValidProtocolizationVerificationResult_def validateProtocolizationVerificationResult_def result_of_def
      case_ok_def header_ok_def execution_ok_def)

lemma seals_iff:
  assumes "case_ok P c" and "isValidVerificationExecutionId i" and "isValidAssetRequirementId (rq_id requirement)"
    and "isValidAssetVerificationCheckId checkId" and "isValidUtcDateTime P t" and "optional_ok isCanonicalRecordId correlationId"
  shows "sealResult P c requirement checkId i x t correlationId = Inr tr \<longleftrightarrow> execution_ok x \<and>
    tr = \<lparr>vt_result = result_of c requirement checkId i x t correlationId,
      vt_event = executed_event_of (result_of c requirement checkId i x t correlationId)\<rparr>"
  using result_never_refused [OF assms(1) _ assms(2-), of x]
  by (auto simp: sealResult_def Let_def after_Inr first_throw_None fail_if_None execution_iff isValidProtocolizationVerificationResult_def)

lemma found_id: "find (\<lambda>entry. rq_id entry = i) rs = Some requirement \<Longrightarrow> rq_id requirement = i"
  by (drule find_holds) simp

text \<open>The registered check answers the view with an execution.\<close>

definition answers :: "verification_context \<Rightarrow> protocolization_case \<Rightarrow> asset_profile \<Rightarrow> asset_requirement \<Rightarrow> string \<Rightarrow> verification_inputs \<Rightarrow>
    check_execution \<Rightarrow> bool" where
  "answers ctx c profile requirement checkId inputs x \<longleftrightarrow> (\<exists>check. get_check (vn_checks ctx) checkId = Some check \<and>
     ck_execute check (view ctx c profile requirement checkId inputs) = Inr x)"

definition executable :: "platform \<Rightarrow> verification_context \<Rightarrow> protocolization_case \<Rightarrow> execute_input \<Rightarrow> asset_profile \<Rightarrow> asset_requirement \<Rightarrow>
    check_execution \<Rightarrow> bool" where
  "executable P ctx c inp profile requirement x \<longleftrightarrow> may_verify P ctx c \<and> execute_request_ok inp \<and> resolves_to ctx c profile \<and>
     kc_profile c = ref_of profile \<and> declares_check profile (xi_requirementId inp) (xi_checkId inp) requirement \<and>
     inputs_owned ctx c (xi_inputs inp) \<and> clock_ok P (vn_case ctx) c \<and>
     answers ctx c profile requirement (xi_checkId inp) (xi_inputs inp) x \<and> execution_ok x"

definition issued_result :: "verification_context \<Rightarrow> protocolization_case \<Rightarrow> execute_input \<Rightarrow> asset_requirement \<Rightarrow> check_execution \<Rightarrow>
    verification_result" where
  "issued_result ctx c inp requirement x =
     result_of c requirement (xi_checkId inp) (xi_executionId inp) x (cc_now (vn_case ctx)) (xi_correlationId inp)"

lemma declared_id: "declares_check profile i checkId requirement \<Longrightarrow> rq_id requirement = i"
  by (auto simp: declares_check_def dest: found_id)

lemma executes_iff:
  "executeProtocolizationVerificationCheck P ctx c inp = Inr tr \<longleftrightarrow> (\<exists>profile requirement x. executable P ctx c inp profile requirement x \<and>
     tr = \<lparr>vt_result = issued_result ctx c inp requirement x, vt_event = executed_event_of (issued_result ctx c inp requirement x)\<rparr>)"
proof (cases "may_verify P ctx c \<and> execute_request_ok inp")
  case True
  then have go: "case_ok P c" "kc_tenantId c = cc_tenantId (vn_case ctx)" "assertCaseAcceptsVerification c = None"
    "verification_assertActingTenantOwnsCase ctx c = None" "assertAdmissibleRequest inp = None"
    using acting_tenant_None [of P c ctx] by (auto simp: may_verify_def assertCaseAcceptsVerification_def request_iff)
  let ?seal = "\<lambda>requirement x. sealResult P c requirement (xi_checkId inp) (xi_executionId inp) x (cc_now (vn_case ctx)) (xi_correlationId inp)"
  have seal: "?seal requirement x = Inr tr \<longleftrightarrow> execution_ok x \<and>
      tr = \<lparr>vt_result = issued_result ctx c inp requirement x, vt_event = executed_event_of (issued_result ctx c inp requirement x)\<rparr>"
    if "rq_id requirement = xi_requirementId inp" "clock_ok P (vn_case ctx) c" for requirement x
    using True that seals_iff [OF go(1), of "xi_executionId inp" requirement "xi_checkId inp" "cc_now (vn_case ctx)" "xi_correlationId inp" x]
    by (auto simp: execute_request_ok_def clock_ok_def issued_result_def)
  have "executeProtocolizationVerificationCheck P ctx c inp = Inr tr \<longleftrightarrow> (\<exists>profile requirement check x. resolves_to ctx c profile \<and>
      declares_check profile (xi_requirementId inp) (xi_checkId inp) requirement \<and> get_check (vn_checks ctx) (xi_checkId inp) = Some check \<and>
      inputs_owned ctx c (xi_inputs inp) \<and> clock_ok P (vn_case ctx) c \<and> kc_profile c = ref_of profile \<and>
      ck_execute check (view ctx c profile requirement (xi_checkId inp) (xi_inputs inp)) = Inr x \<and> ?seal requirement x = Inr tr)"
    unfolding declares_iff [symmetric, of _ "xi_requirementId inp" "xi_checkId inp" _ c]
    using go by (auto simp: executeProtocolizationVerificationCheck_def after_Inr first_throw_None bind_result_Inr resolves_iff owned_iff
        verification_clock_iff context_iff split: option.splits)
  then show ?thesis using True seal declared_id unfolding executable_def answers_def by metis
next
  case False
  then show ?thesis using may_verify_iff [of ctx c P]
    by (auto simp: executeProtocolizationVerificationCheck_def after_Inr first_throw_None request_iff executable_def)
qed

section \<open>Runs cover the plan\<close>

definition planned :: "asset_requirement list \<Rightarrow> (string \<times> string) list" where
  "planned rs = concat (map (\<lambda>r. map (Pair (rq_id r)) (declared_checks r)) (filter (\<lambda>r. rq_kind r = ''Verification'') rs))"

definition checks_once :: "asset_requirement list \<Rightarrow> bool" where
  "checks_once rs \<longleftrightarrow> (\<forall>r \<in> set rs. rq_kind r = ''Verification'' \<longrightarrow> distinct (declared_checks r))"

lemma plan_checks_iff: "plan_checks i seen l = Inr plan \<longleftrightarrow> distinct l \<and> set l \<inter> seen = {} \<and> plan = map (Pair i) l"
  by (induction l arbitrary: seen plan) (auto simp: after_Inr bind_result_Inr)

lemma plan_iff: "plan_requirements rs = Inr plan \<longleftrightarrow> checks_once rs \<and> plan = planned rs"
  by (induction rs arbitrary: plan) (auto simp: bind_result_Inr plan_checks_iff checks_once_def planned_def)

lemma lists_plan:
  assumes "may_verify P ctx c"
  shows "listProtocolizationVerificationPlan P ctx c = Inr plan \<longleftrightarrow>
    (\<exists>profile. resolves_to ctx c profile \<and> checks_once (ap_requirements profile) \<and> plan = planned (ap_requirements profile))"
  using assms may_verify_iff [of ctx c P]
  by (auto simp: listProtocolizationVerificationPlan_def after_Inr first_throw_None bind_result_Inr resolves_iff plan_iff)

text \<open>The request of a run for the entry of its plan at an index.\<close>

definition request_at :: "run_input \<Rightarrow> nat \<Rightarrow> string \<times> string \<Rightarrow> execute_input" where
  "request_at inp k entry = \<lparr>xi_executionId = ri_executionIds inp ! k, xi_requirementId = fst entry, xi_checkId = snd entry,
     xi_inputs = ri_inputs inp, xi_correlationId = ri_correlationId inp\<rparr>"

lemma run_loop_iff:
  "run_loop P clock ctx c inp index plan = Inr ts \<longleftrightarrow> list_all2 (\<lambda>(k, entry) t.
     executeProtocolizationVerificationCheck P (reading ctx (clock k)) c (request_at inp k entry) = Inr t)
     (zip [index..<index + length plan] plan) ts"
proof (induction plan arbitrary: index ts)
  case (Cons entry plan)
  obtain i k where entry: "entry = (i, k)" by (cases entry)
  have "zip [index..<index + length (entry # plan)] (entry # plan) = (index, entry) # zip [Suc index..<Suc index + length plan] plan"
    by (simp add: upt_conv_Cons del: upt_Suc)
  then show ?case using Cons.IH [of "Suc index"]
    by (auto simp: entry bind_result_Inr request_at_def list_all2_Cons1 simp del: upt_Suc)
qed auto

lemma reading_simps [simp]:
  "resolves_to (reading ctx t) c profile = resolves_to ctx c profile" "may_verify P (reading ctx t) c = may_verify P ctx c"
  "inputs_owned (reading ctx t) c inputs = inputs_owned ctx c inputs" "cc_now (vn_case (reading ctx t)) = t"
  "vn_checks (reading ctx t) = vn_checks ctx"
  by (simp_all add: resolves_to_def may_verify_def inputs_owned_def reading_def pinned_def)

lemma resolves_unique: "resolves_to ctx c p \<Longrightarrow> resolves_to ctx c q \<Longrightarrow> p = q"
  by (simp add: resolves_to_def)

definition run_ids_ok :: "run_input \<Rightarrow> (string \<times> string) list \<Rightarrow> bool" where
  "run_ids_ok inp plan \<longleftrightarrow> length (ri_executionIds inp) = length plan \<and> distinct (ri_executionIds inp)"

lemma runs_iff:
  "runProtocolizationVerification P clock ctx c inp = Inr u \<longleftrightarrow> may_verify P ctx c \<and> (\<exists>profile ts. resolves_to ctx c profile \<and>
     checks_once (ap_requirements profile) \<and> run_ids_ok inp (planned (ap_requirements profile)) \<and>
     run_loop P clock ctx c inp 0 (planned (ap_requirements profile)) = Inr ts \<and>
     (ts = [] \<longrightarrow> clock_ok P (vn_case (reading ctx (clock 0))) c) \<and>
     u = \<lparr>vu_results = map vt_result ts, vu_events = map vt_event ts, vu_evaluatedCaseRevision = kc_revision c,
       vu_executedAt = (case ts of [] \<Rightarrow> clock 0 | t # ts' \<Rightarrow> vr_executedAt (vt_result t))\<rparr>)"
proof (cases "may_verify P ctx c")
  case True
  have card: "card (set l) = length l \<longleftrightarrow> distinct l" for l :: "string list" by (metis card_distinct distinct_card)
  have clock: "(case ts of [] \<Rightarrow> verification_readClock P (reading ctx (clock 0)) c | t # ts' \<Rightarrow> Inr (vr_executedAt (vt_result t))) = Inr w \<longleftrightarrow>
      (ts = [] \<longrightarrow> clock_ok P (vn_case (reading ctx (clock 0))) c) \<and> w = (case ts of [] \<Rightarrow> clock 0 | t # ts' \<Rightarrow> vr_executedAt (vt_result t))"
    for ts w using True verification_clock_iff [of P c "reading ctx (clock 0)" w] by (cases ts) (auto simp: may_verify_def)
  show ?thesis using True may_verify_iff [of ctx c P]
    by (simp add: runProtocolizationVerification_def after_Inr first_throw_None bind_result_Inr lists_plan card clock run_ids_ok_def) blast
next
  case False
  then show ?thesis using may_verify_iff [of ctx c P]
    by (auto simp: runProtocolizationVerification_def after_Inr first_throw_None)
qed

lemma sealed_fields:
  assumes "executeProtocolizationVerificationCheck P ctx c inp = Inr tr"
  shows "vr_requirementId (vt_result tr) = xi_requirementId inp" "vr_checkId (vt_result tr) = xi_checkId inp"
    "vr_executionId (vt_result tr) = xi_executionId inp" "vr_executedAt (vt_result tr) = cc_now (vn_case ctx)"
    "isValidProtocolizationVerificationResult P (vt_result tr)" "vr_tenantId (vt_result tr) = kc_tenantId c"
    "vr_caseId (vt_result tr) = kc_caseId c" "vr_profile (vt_result tr) = kc_profile c"
    "vr_evaluatedCaseRevision (vt_result tr) = kc_revision c" "vt_event tr = executed_event_of (vt_result tr)"
proof -
  obtain profile requirement x where x: "executable P ctx c inp profile requirement x"
    "tr = \<lparr>vt_result = issued_result ctx c inp requirement x, vt_event = executed_event_of (issued_result ctx c inp requirement x)\<rparr>"
    using assms unfolding executes_iff by blast
  then have i: "rq_id requirement = xi_requirementId inp" using declared_id by (auto simp: executable_def)
  show "isValidProtocolizationVerificationResult P (vt_result tr)"
    using x i result_never_refused [of P c x "xi_executionId inp" requirement "xi_checkId inp" "cc_now (vn_case ctx)" "xi_correlationId inp"]
    by (simp add: executable_def may_verify_def execute_request_ok_def clock_ok_def issued_result_def)
qed (use assms in \<open>auto simp: executes_iff executable_def issued_result_def result_of_def dest: declared_id\<close>)

lemma run_results:
  assumes "run_loop P clock ctx c inp 0 plan = Inr ts" and "length (ri_executionIds inp) = length plan"
  shows "length ts = length plan" and "map (\<lambda>t. (vr_requirementId (vt_result t), vr_checkId (vt_result t))) ts = plan"
    and "map (\<lambda>t. vr_executionId (vt_result t)) ts = ri_executionIds inp"
    and "map (\<lambda>t. vr_executedAt (vt_result t)) ts = map clock [0..<length plan]"
    and "\<forall>t \<in> set ts. \<exists>k < length plan. executeProtocolizationVerificationCheck P (reading ctx (clock k)) c (request_at inp k (plan ! k)) = Inr t"
proof -
  show len: "length ts = length plan" using assms(1) by (auto simp: run_loop_iff dest: list_all2_lengthD)
  have at: "executeProtocolizationVerificationCheck P (reading ctx (clock k)) c (request_at inp k (plan ! k)) = Inr (ts ! k)"
    if "k < length plan" for k
    using assms(1) that list_all2_nthD [of _ "zip [0..<0 + length plan] plan" ts k] by (fastforce simp: run_loop_iff)
  note fields = sealed_fields [OF at]
  show "map (\<lambda>t. (vr_requirementId (vt_result t), vr_checkId (vt_result t))) ts = plan"
    "map (\<lambda>t. vr_executionId (vt_result t)) ts = ri_executionIds inp"
    "map (\<lambda>t. vr_executedAt (vt_result t)) ts = map clock [0..<length plan]"
    using assms(2) by (auto intro!: nth_equalityI simp: len fields request_at_def)
  show "\<forall>t \<in> set ts. \<exists>k < length plan. executeProtocolizationVerificationCheck P (reading ctx (clock k)) c (request_at inp k (plan ! k)) = Inr t"
    using at len by (metis in_set_conv_nth)
qed

section \<open>Runs return\<close>

lemma valid_profile_shape:
  assumes "isValidAssetProfile P profile" and "r \<in> set (ap_requirements profile)"
  shows "\<exists>path. validateRequirementShape P (rq_terms r) (rq_obligation r) path = []"
proof -
  have shape: "requirement_issues P index seen rs = [] \<Longrightarrow> r \<in> set rs \<Longrightarrow> \<exists>path. validateRequirementShape P (rq_terms r) (rq_obligation r) path = []"
    for index seen rs by (induction P index seen rs rule: requirement_issues.induct) (auto simp: Let_def)
  have "requirement_issues P 0 {} (ap_requirements profile) = []" using assms
    by (auto simp: isValidAssetProfile_def validateAssetProfile_def split: if_splits)
  from shape [OF this assms(2)] show ?thesis .
qed

lemma valid_profile_checks:
  assumes "isValidAssetProfile P profile" and "r \<in> set (ap_requirements profile)"
  shows "distinct (declared_checks r) \<and> (\<forall>i \<in> set (declared_checks r). isValidAssetVerificationCheckId i) \<and> isValidAssetRequirementId (rq_id r)"
proof -
  obtain path where "validateRequirementShape P (rq_terms r) (rq_obligation r) path = []" using valid_profile_shape [OF assms] by blast
  then have "distinct (declared_checks r) \<and> (\<forall>i \<in> set (declared_checks r). isValidAssetVerificationCheckId i)"
    by (cases "rq_terms r") (auto simp: validateRequirementShape_def declared_checks_def list_all_iff card_distinct)
  then show ?thesis using assms valid_profile_sound [of P profile] by (auto simp: isValidAssetProfile_def profile_sound_def)
qed

lemma find_own: "distinct (map rq_id rs) \<Longrightarrow> r \<in> set rs \<Longrightarrow> find (\<lambda>entry. rq_id entry = rq_id r) rs = Some r"
  by (induction rs) (auto simp: image_iff)

lemma count_once: "distinct l \<Longrightarrow> k \<in> set l \<Longrightarrow> count_list l k = 1"
  by (induction l) auto

lemma planned_declared:
  assumes "isValidAssetProfile P profile" and "(i, k) \<in> set (planned (ap_requirements profile))"
  shows "\<exists>r \<in> set (ap_requirements profile). declares_check profile i k r \<and> isValidAssetRequirementId i \<and> isValidAssetVerificationCheckId k"
proof -
  obtain r where r: "r \<in> set (ap_requirements profile)" "rq_kind r = ''Verification''" "i = rq_id r" "k \<in> set (declared_checks r)"
    using assms(2) by (auto simp: planned_def)
  note checks = valid_profile_checks [OF assms(1) r(1)]
  have "find (\<lambda>entry. rq_id entry = i) (ap_requirements profile) = Some r"
    using find_own [OF _ r(1)] assms(1) valid_profile_sound [of P profile] by (simp add: isValidAssetProfile_def profile_sound_def r(3))
  moreover have "count_list (declared_checks r) k = 1" by (rule count_once) (use checks r(4) in simp_all)
  ultimately show ?thesis using r checks by (auto simp: declares_check_def)
qed

text \<open>Every check that the pinned profile declares is registered and answers, at any moment, with an execution that is admitted.\<close>

definition all_answer :: "verification_context \<Rightarrow> protocolization_case \<Rightarrow> asset_profile \<Rightarrow> verification_inputs \<Rightarrow> bool" where
  "all_answer ctx c profile inputs \<longleftrightarrow> (\<forall>r \<in> set (ap_requirements profile). \<forall>k \<in> set (declared_checks r). \<forall>t.
     \<exists>x. answers (reading ctx t) c profile r k inputs x \<and> execution_ok x)"

text \<open>With a valid profile, identifiers in the right number, a clock that does not run behind the case, and checks that answer, a run
  returns.\<close>

lemma run_returns:
  assumes "may_verify P ctx c" and "resolves_to ctx c profile" and "kc_profile c = ref_of profile" and "isValidAssetProfile P profile"
    and "run_ids_ok inp (planned (ap_requirements profile))" and "\<forall>i \<in> set (ri_executionIds inp). isValidVerificationExecutionId i"
    and "optional_ok isCanonicalRecordId (ri_correlationId inp)" and "inputs_owned ctx c (ri_inputs inp)"
    and "\<forall>k. clock_ok P (vn_case (reading ctx (clock k))) c" and "all_answer ctx c profile (ri_inputs inp)"
  shows "\<exists>u. runProtocolizationVerification P clock ctx c inp = Inr u"
proof -
  let ?plan = "planned (ap_requirements profile)"
  have each: "\<exists>t. executeProtocolizationVerificationCheck P (reading ctx (clock k)) c (request_at inp k (?plan ! k)) = Inr t"
    if "k < length ?plan" for k
  proof -
    obtain i j where entry: "?plan ! k = (i, j)" by (cases "?plan ! k")
    then have "(i, j) \<in> set ?plan" using that by (metis nth_mem)
    from planned_declared [OF assms(4) this] obtain r where r: "r \<in> set (ap_requirements profile)" "declares_check profile i j r"
      "isValidAssetRequirementId i" "isValidAssetVerificationCheckId j" by blast
    then have "j \<in> set (declared_checks r)" using count_notin [of j "declared_checks r"] by (fastforce simp: declares_check_def)
    then obtain x where x: "answers (reading ctx (clock k)) c profile r j (ri_inputs inp) x" "execution_ok x"
      using assms(10) r(1) unfolding all_answer_def by blast
    have "ri_executionIds inp ! k \<in> set (ri_executionIds inp)" using that assms(5) by (simp add: run_ids_ok_def)
    then have "execute_request_ok (request_at inp k (i, j))" using r assms(6,7) by (simp add: execute_request_ok_def request_at_def)
    then have "executable P (reading ctx (clock k)) c (request_at inp k (i, j)) profile r x"
      using assms r x by (simp add: executable_def) (simp add: request_at_def)
    then show ?thesis unfolding entry executes_iff by blast
  qed
  define ts where "ts = map (\<lambda>k. SOME t. executeProtocolizationVerificationCheck P (reading ctx (clock k)) c (request_at inp k (?plan ! k)) = Inr t) [0..<length ?plan]"
  have "run_loop P clock ctx c inp 0 ?plan = Inr ts"
    unfolding run_loop_iff using each by (auto simp: list_all2_conv_all_nth ts_def intro: someI_ex)
  moreover have "checks_once (ap_requirements profile)" using valid_profile_checks [OF assms(4)] by (auto simp: checks_once_def)
  ultimately show ?thesis unfolding runs_iff using assms by blast
qed

section \<open>The store of results\<close>

interpretation results: keyed_store "map_of :: result_store \<Rightarrow> _" map_set
  by unfold_locales (simp add: map_of_map_set)

text \<open>No result of the repository is ever replaced.\<close>

inductive result_step :: "platform \<Rightarrow> result_store \<Rightarrow> result_store \<Rightarrow> bool" for P where
  saves: "save_result P entries r = Inr entries' \<Longrightarrow> result_step P entries entries'"

lemma save_result_Inr: "save_result P entries r = Inr entries' \<longleftrightarrow> isValidProtocolizationVerificationResult P r \<and>
    map_of entries (resultKey (vr_tenantId r) (vr_executionId r)) = None \<and>
    entries' = map_set (resultKey (vr_tenantId r) (vr_executionId r)) r entries"
  by (auto simp: save_result_def Let_def after_Inr first_throw_None fail_if_None isValidProtocolizationVerificationResult_def)

definition filed_result :: "platform \<Rightarrow> string \<Rightarrow> verification_result \<Rightarrow> bool" where
  "filed_result P key r \<longleftrightarrow> isValidProtocolizationVerificationResult P r \<and> key = resultKey (vr_tenantId r) (vr_executionId r)"

lemma result_runs:
  "(result_step P)\<^sup>*\<^sup>* entries entries' \<Longrightarrow> results.all_entries (filed_result P) entries \<Longrightarrow> results.all_entries (filed_result P) entries'"
  by (induction rule: rtranclp_induct)
    (auto elim!: result_step.cases simp: save_result_Inr filed_result_def intro!: results.all_entries_put)

lemma result_kept: "(result_step P)\<^sup>*\<^sup>* entries entries' \<Longrightarrow> map_of entries k = Some r \<Longrightarrow> map_of entries' k = Some r"
  by (induction rule: rtranclp_induct) (auto elim!: result_step.cases simp: save_result_Inr map_of_map_set)

section \<open>The order of results\<close>

definition executed_moment :: "platform \<Rightarrow> verification_result \<Rightarrow> int" where
  "executed_moment P r = (case date_of P (vr_executedAt r) of None \<Rightarrow> 0 | Some t \<Rightarrow> t)"

definition by_moment :: "platform \<Rightarrow> verification_result \<Rightarrow> verification_result \<Rightarrow> int" where
  "by_moment P x y = (if executed_moment P x - executed_moment P y \<noteq> 0 then executed_moment P x - executed_moment P y
     else code_unit_compare (vr_executionId x) (vr_executionId y))"

lemma by_moment_order: "comparator_order (by_moment P)"
proof -
  have "comparator_order (\<lambda>a b :: int. a - b)" by unfold_locales auto
  then show ?thesis
    unfolding by_moment_def [abs_def] by (rule lexicographic_two) (rule code_units.comparator_order_axioms)
qed

interpretation by_moment: comparator_order "\<lambda>x y. sgn (by_moment P x y)" for P
proof
  have sign: "sgn a \<le> 0 \<longleftrightarrow> a \<le> 0" "0 \<le> sgn a \<longleftrightarrow> 0 \<le> a" for a :: int by (simp_all add: sgn_if)
  note order = comparator_order.cmp_refl [OF by_moment_order] comparator_order.cmp_sym [OF by_moment_order] comparator_order.cmp_trans [OF by_moment_order]
  fix x y z
  show "sgn (by_moment P x x) = 0" by (simp add: order(1))
  show "sgn (by_moment P x y) \<le> 0 \<longleftrightarrow> 0 \<le> sgn (by_moment P y x)" unfolding sign by (rule order(2))
  show "sgn (by_moment P x y) \<le> 0 \<Longrightarrow> sgn (by_moment P y z) \<le> 0 \<Longrightarrow> sgn (by_moment P x z) \<le> 0" unfolding sign by (rule order(3))
qed

lemma valid_moment: "isValidProtocolizationVerificationResult P r \<Longrightarrow> date_of P (vr_executedAt r) = Some (executed_moment P r)"
  by (auto simp: isValidProtocolizationVerificationResult_def validateProtocolizationVerificationResult_def isValidUtcDateTime_def
      executed_moment_def split: option.splits)

text \<open>On valid results the comparator has the sign of \<open>by_moment\<close>.\<close>

lemma compare_sign:
  assumes "isValidProtocolizationVerificationResult P x" and "isValidProtocolizationVerificationResult P y"
  shows "compareVerificationResults P x y = sgn (by_moment P x y)"
  using valid_moment [OF assms(1)] valid_moment [OF assms(2)]
  by (auto simp: compareVerificationResults_def by_moment_def sgn_if code_unit_compare_def)

lemma sorted_results:
  assumes "\<forall>r \<in> set rs. isValidProtocolizationVerificationResult P r"
  shows "sorted_wrt (\<lambda>a b. compareVerificationResults P a b \<le> 0) (sort_cmp (compareVerificationResults P) rs)"
proof -
  have "sort_cmp (compareVerificationResults P) rs = sort_cmp (\<lambda>x y. sgn (by_moment P x y)) rs"
    by (rule sort_cmp_cong_on) (use assms compare_sign in blast)
  then have "sorted_wrt (\<lambda>a b. sgn (by_moment P a b) \<le> 0) (sort_cmp (compareVerificationResults P) rs)"
    using by_moment.sorted_sort_cmp [of P rs] by simp
  then show ?thesis
    by (rule sorted_wrt_mono_rel [rotated]) (use assms compare_sign in \<open>simp add: compare_sign\<close>)
qed

lemma no_line_feed: "isDottedToken v \<Longrightarrow> line_feed \<notin> set v"
proof -
  have "rx_over {c. lower_alpha c \<or> dec_digit c \<or> c \<in> {CHR ''-'', CHR ''.''}} DOTTED_TOKEN_PATTERN"
    by (auto simp: DOTTED_TOKEN_PATTERN_def token_word_def Let_def)
  moreover have "\<not> lower_alpha line_feed \<and> \<not> dec_digit line_feed \<and> line_feed \<notin> {CHR ''-'', CHR ''.''}" by code_simp
  ultimately show "isDottedToken v \<Longrightarrow> line_feed \<notin> set v"
    by (auto simp: isDottedToken_def rx_test_lang dest!: lang_over)
qed

lemma line_split:
  assumes "line_feed \<notin> set a" and "line_feed \<notin> set b"
  shows "a @ line_feed # u = b @ line_feed # v \<longleftrightarrow> a = b \<and> u = v"
proof
  assume eq: "a @ line_feed # u = b @ line_feed # v"
  have part: "takeWhile (\<lambda>c. c \<noteq> line_feed) (w @ line_feed # z) = w" if "line_feed \<notin> set w" for w z
    using that by (auto simp: takeWhile_append)
  from eq part [OF assms(1), of u] part [OF assms(2), of v] have "a = b" by simp
  then show "a = b \<and> u = v" using eq by simp
qed simp

definition subject_of :: "verification_result \<Rightarrow> string \<times> string" where
  "subject_of r = (vr_requirementId r, vr_checkId r)"

lemma keyOf_inj:
  assumes "isValidProtocolizationVerificationResult P q" and "isValidProtocolizationVerificationResult P r"
  shows "keyOf q = keyOf r \<longleftrightarrow> subject_of q = subject_of r"
proof -
  have "line_feed \<notin> set (vr_requirementId q)" "line_feed \<notin> set (vr_requirementId r)"
    using assms no_line_feed by (auto simp: isValidProtocolizationVerificationResult_def validateProtocolizationVerificationResult_def
      isValidAssetRequirementId_def)
  then show ?thesis by (simp add: keyOf_def subject_of_def line_split)
qed

section \<open>The latest results\<close>

text \<open>What the fold holds after some results: for each of their keys a result that no other of the key comes after.\<close>

definition holds_latest :: "platform \<Rightarrow> verification_result list \<Rightarrow> result_store \<Rightarrow> bool" where
  "holds_latest P rs held \<longleftrightarrow> (\<forall>k r. map_of held k = Some r \<longrightarrow>
      r \<in> set rs \<and> keyOf r = k \<and> (\<forall>q \<in> set rs. keyOf q = k \<longrightarrow> compareVerificationResults P q r \<le> 0)) \<and>
    (\<forall>r \<in> set rs. map_of held (keyOf r) \<noteq> None) \<and> distinct (map fst held)"

lemma keeps_latest:
  assumes "\<forall>r \<in> set (rs @ [x]). isValidProtocolizationVerificationResult P r" and "holds_latest P rs held"
  shows "holds_latest P (rs @ [x]) (keep_latest P x held)"
proof -
  let ?cmp = "compareVerificationResults P"
  have ok: "isValidProtocolizationVerificationResult P r" if "r \<in> insert x (set rs)" for r using that assms(1) by auto
  then have le: "?cmp a b \<le> 0 \<longleftrightarrow> sgn (by_moment P a b) \<le> 0" if "a \<in> insert x (set rs)" "b \<in> insert x (set rs)" for a b
    using compare_sign that by simp
  have trans: "?cmp a c \<le> 0" if "?cmp a b \<le> 0" "?cmp b c \<le> 0" "{a, b, c} \<subseteq> insert x (set rs)" for a b c
    using that le by_moment.cmp_trans [of P a b c] by simp
  have flip: "?cmp a b < 0 \<or> ?cmp b a \<le> 0" if "{a, b} \<subseteq> insert x (set rs)" for a b
    using that le by_moment.cmp_sym [of P b a] ok compare_sign by (smt (verit, best) insert_subset)
  have refl: "?cmp x x \<le> 0" using le by_moment.cmp_refl [of P x] by simp
  have inv: "\<And>k r. map_of held k = Some r \<Longrightarrow> r \<in> set rs \<and> keyOf r = k \<and> (\<forall>q \<in> set rs. keyOf q = k \<longrightarrow> ?cmp q r \<le> 0)"
    "\<And>r. r \<in> set rs \<Longrightarrow> map_of held (keyOf r) \<noteq> None" "distinct (map fst held)" using assms(2) unfolding holds_latest_def by blast+
  show ?thesis
  proof (cases "map_of held (keyOf x)")
    case None
    then have "keyOf q \<noteq> keyOf x" if "q \<in> set rs" for q using inv(2) that by metis
    then show ?thesis using None inv refl
      by (simp add: holds_latest_def keep_latest_def map_of_map_set distinct_map_set del: map_of_eq_Some_iff)
  next
    case (Some h)
    then have h: "h \<in> set rs" "keyOf h = keyOf x" "\<forall>q \<in> set rs. keyOf q = keyOf x \<longrightarrow> ?cmp q h \<le> 0" using inv(1) by blast+
    show ?thesis
    proof (cases "?cmp h x < 0")
      case True
      then have "?cmp q x \<le> 0" if "q \<in> set rs" "keyOf q = keyOf x" for q using trans [of q h x] h that by auto
      then show ?thesis using True Some inv refl
        by (simp add: holds_latest_def keep_latest_def map_of_map_set distinct_map_set del: map_of_eq_Some_iff)
    next
      case False
      then have "?cmp x h \<le> 0" using flip [of h x] h(1) by auto
      then show ?thesis using False Some inv h
        by (simp add: holds_latest_def keep_latest_def del: map_of_eq_Some_iff)
    qed
  qed
qed

lemma fold_latest:
  "\<forall>r \<in> set rs. isValidProtocolizationVerificationResult P r \<Longrightarrow> holds_latest P rs (fold (keep_latest P) rs [])"
proof (induction rs rule: rev_induct)
  case (snoc x rs)
  then have "holds_latest P rs (fold (keep_latest P) rs [])" by auto
  from keeps_latest [OF snoc.prems this] show ?case by simp
qed (simp add: holds_latest_def)

lemma latest_mem:
  assumes "\<forall>r \<in> set rs. isValidProtocolizationVerificationResult P r" and "distinct (map vr_executionId rs)"
  shows "r \<in> set (listLatestVerificationResults P rs) \<longleftrightarrow>
    r \<in> set rs \<and> (\<forall>q \<in> set rs. subject_of q = subject_of r \<longrightarrow> compareVerificationResults P q r \<le> 0)"
proof -
  let ?held = "fold (keep_latest P) rs []" and ?cmp = "compareVerificationResults P"
  note held = fold_latest [OF assms(1), unfolded holds_latest_def]
  have key: "keyOf q = keyOf r \<longleftrightarrow> subject_of q = subject_of r" if "q \<in> set rs" "r \<in> set rs" for q r
    using that assms(1) keyOf_inj by blast
  have held_by: "r \<in> set (map snd ?held) \<longleftrightarrow> (\<exists>k. map_of ?held k = Some r)" using held by force
  have same: "q = r" if "q \<in> set rs" "r \<in> set rs" "?cmp q r \<le> 0" "?cmp r q \<le> 0" for q r
  proof -
    have "sgn (by_moment P q r) \<le> 0" "sgn (by_moment P r q) \<le> 0" using that compare_sign assms(1) by simp_all
    then have "by_moment P q r = 0" using by_moment.cmp_sym [of P q r] by_moment.cmp_sym [of P r q] by (simp add: sgn_if split: if_splits)
    then have "vr_executionId q = vr_executionId r" using code_units.cmp_eq by (auto simp: by_moment_def split: if_splits)
    then show ?thesis using that(1,2) assms(2) by (meson distinct_map inj_on_def)
  qed
  have "(\<exists>k. map_of ?held k = Some r) \<longleftrightarrow> r \<in> set rs \<and> (\<forall>q \<in> set rs. subject_of q = subject_of r \<longrightarrow> ?cmp q r \<le> 0)"
  proof
    assume "\<exists>k. map_of ?held k = Some r"
    then show "r \<in> set rs \<and> (\<forall>q \<in> set rs. subject_of q = subject_of r \<longrightarrow> ?cmp q r \<le> 0)" using held key by metis
  next
    assume r: "r \<in> set rs \<and> (\<forall>q \<in> set rs. subject_of q = subject_of r \<longrightarrow> ?cmp q r \<le> 0)"
    then obtain h where h: "map_of ?held (keyOf r) = Some h" using held by blast
    then have "h \<in> set rs" "keyOf h = keyOf r" "?cmp r h \<le> 0" using held r by metis+
    then show "\<exists>k. map_of ?held k = Some r" using h r key same by metis
  qed
  then show ?thesis by (simp add: listLatestVerificationResults_def held_by [unfolded set_map])
qed

definition result_store_inv :: "platform \<Rightarrow> result_store \<Rightarrow> bool" where
  "result_store_inv P entries \<longleftrightarrow> results.all_entries (filed_result P) entries \<and> distinct (map fst entries)"

lemma reached_store: "(result_step P)\<^sup>*\<^sup>* [] entries \<Longrightarrow> result_store_inv P entries"
proof (induction rule: rtranclp_induct)
  case (step a b)
  from step.hyps(2) obtain r where "save_result P a r = Inr b" by cases
  then show ?case using step.IH
    by (auto simp: result_store_inv_def save_result_Inr filed_result_def distinct_map_set intro!: results.all_entries_put)
qed (simp add: result_store_inv_def results.all_entries_def)

lemma listed_results:
  assumes "result_store_inv P entries" and "list_results P entries tenantId caseId = Inr rs"
  shows "\<forall>r \<in> set rs. isValidProtocolizationVerificationResult P r \<and> vr_tenantId r = tenantId \<and> vr_caseId r = caseId"
    and "distinct (map vr_executionId rs)" and "sorted_wrt (\<lambda>a b. compareVerificationResults P a b \<le> 0) rs"
proof -
  let ?own = "\<lambda>r. vr_tenantId r = tenantId \<and> vr_caseId r = caseId"
  have filed: "filed_result P k r" if "(k, r) \<in> set entries" for k r
    using that assms(1) results.all_entriesD [of "filed_result P" entries k r] by (simp add: result_store_inv_def)
  have rs: "rs = sort_cmp (compareVerificationResults P) (filter ?own (map snd entries))"
    using assms(2) by (simp add: list_results_def forCase_def after_Inr)
  have valid: "\<forall>r \<in> set (filter ?own (map snd entries)). isValidProtocolizationVerificationResult P r"
    using filed by (fastforce simp: filed_result_def)
  then show "\<forall>r \<in> set rs. isValidProtocolizationVerificationResult P r \<and> ?own r" unfolding rs by simp
  show "sorted_wrt (\<lambda>a b. compareVerificationResults P a b \<le> 0) rs" unfolding rs by (rule sorted_results [OF valid])
  have "distinct (map (\<lambda>r. resultKey tenantId (vr_executionId r)) (map snd (filter (\<lambda>e. ?own (snd e)) entries)))"
  proof -
    have "map (\<lambda>r. resultKey tenantId (vr_executionId r)) (map snd (filter (\<lambda>e. ?own (snd e)) entries)) = map fst (filter (\<lambda>e. ?own (snd e)) entries)"
      using filed by (auto simp: filed_result_def)
    moreover have "distinct (map fst (filter (\<lambda>e. ?own (snd e)) entries))"
      using assms(1) by (simp add: result_store_inv_def distinct_map_filter)
    ultimately show ?thesis by metis
  qed
  then have "distinct (map (\<lambda>r. resultKey tenantId (vr_executionId r)) (filter ?own (map snd entries)))" by (simp add: filter_map comp_def)
  then have "distinct (map vr_executionId (filter ?own (map snd entries)))"
    by (simp add: distinct_map inj_on_def resultKey_def)
  moreover have "mset (map vr_executionId rs) = mset (map vr_executionId (filter ?own (map snd entries)))" by (simp add: rs)
  ultimately show "distinct (map vr_executionId rs)" by (metis mset_eq_imp_distinct_iff)
qed

lemma latest_of_store:
  assumes "(result_step P)\<^sup>*\<^sup>* [] entries" and "list_results P entries tenantId caseId = Inr rs"
  shows "(r \<in> set (listLatestVerificationResults P rs) \<longleftrightarrow> r \<in> set rs \<and>
      (\<forall>q \<in> set rs. subject_of q = subject_of r \<longrightarrow> compareVerificationResults P q r \<le> 0)) \<and>
    distinct (map subject_of (listLatestVerificationResults P rs)) \<and>
    subject_of ` set (listLatestVerificationResults P rs) = subject_of ` set rs"
proof -
  note listed = listed_results [OF reached_store [OF assms(1)] assms(2)]
  have valid: "\<forall>r \<in> set rs. isValidProtocolizationVerificationResult P r" using listed(1) by blast
  note held = fold_latest [OF valid, unfolded holds_latest_def]
  let ?held = "fold (keep_latest P) rs []"
  have key: "k = keyOf r \<and> r \<in> set rs" if "(k, r) \<in> set ?held" for k r
    using that held map_of_is_SomeI [of ?held k r] by metis
  have "map keyOf (map snd ?held) = map fst ?held" using key by auto
  then have "distinct (map keyOf (map snd ?held))" using held by metis
  then have "distinct (map subject_of (map snd ?held))"
    using key valid keyOf_inj [of P] unfolding distinct_map inj_on_def by (smt (verit) imageE prod.collapse set_map)
  moreover have "mset (map subject_of (listLatestVerificationResults P rs)) = mset (map subject_of (map snd ?held))"
    by (simp add: listLatestVerificationResults_def image_mset.compositionality comp_def)
  ultimately have "distinct (map subject_of (listLatestVerificationResults P rs))" by (metis mset_eq_imp_distinct_iff)
  moreover have "subject_of ` set (listLatestVerificationResults P rs) = subject_of ` set rs"
  proof
    show "subject_of ` set (listLatestVerificationResults P rs) \<subseteq> subject_of ` set rs"
      using latest_mem [OF valid listed(2)] by auto
    show "subject_of ` set rs \<subseteq> subject_of ` set (listLatestVerificationResults P rs)"
    proof
      fix s assume "s \<in> subject_of ` set rs"
      then obtain r where r: "r \<in> set rs" "s = subject_of r" by blast
      then obtain h where h: "map_of ?held (keyOf r) = Some h" using held by blast
      then have "h \<in> set rs" "keyOf h = keyOf r" using held by blast+
      then have "subject_of h = s" using keyOf_inj valid r by metis
      moreover have "h \<in> set (map snd ?held)" using map_of_SomeD [OF h] by force
      ultimately show "s \<in> subject_of ` set (listLatestVerificationResults P rs)"
        by (auto simp: listLatestVerificationResults_def)
    qed
  qed
  ultimately show ?thesis using latest_mem [OF valid listed(2)] by blast
qed

text \<open>The counts have every outcome, each with the number of results that have it.\<close>

lemma outcomes_counted:
  assumes "v \<in> set VERIFICATION_CHECK_OUTCOMES"
  shows "map_of (countVerificationOutcomes rs) v = Some (length (filter (\<lambda>r. vr_outcome r = v) rs))"
proof -
  have step: "map_of counts v = Some n \<Longrightarrow> map_of (fold count_outcome rs counts) v = Some (n + length (filter (\<lambda>r. vr_outcome r = v) rs))"
    for counts n by (induction rs arbitrary: counts n) (auto simp: count_outcome_def map_of_map_set)
  have "map_of (map (\<lambda>v. (v, 0)) VERIFICATION_CHECK_OUTCOMES) v = Some 0" using assms by (auto simp: VERIFICATION_CHECK_OUTCOMES_def)
  from step [OF this] show ?thesis by (simp add: countVerificationOutcomes_def)
qed

end
