(* ===== verification/VerificationChecks.thy ===== *)
theory VerificationChecks
  imports Verification
begin

text \<open>
  \<open>verification-builtin-checks.ts\<close>: the seven checks the package ships.  An age in seconds is a difference of two moments in
  milliseconds; it is compared with a number of seconds by comparing the milliseconds, which is exact for the years 0000 to 9999.
\<close>

section \<open>Observations\<close>

definition outcome_precedence :: "string \<Rightarrow> int" where
  "outcome_precedence v = (if v = ''Fail'' then 4 else if v = ''Unavailable'' then 3 else if v = ''Warning'' then 2
     else if v = ''ManualReview'' then 1 else 0)"

fun strongest_loop :: "check_execution list \<Rightarrow> check_execution option \<Rightarrow> check_execution option" where
  "strongest_loop [] held = held"
| "strongest_loop (finding # findings) held = strongest_loop findings
     (case held of None \<Rightarrow> Some finding
      | Some h \<Rightarrow> if outcome_precedence (vx_outcome finding) > outcome_precedence (vx_outcome h) then Some finding else held)"

definition strongest :: "check_execution list \<Rightarrow> check_execution \<Rightarrow> check_execution" where
  "strongest observations fallback = (case strongest_loop observations None of None \<Rightarrow> fallback | Some held \<Rightarrow> held)"

definition observation :: "string \<Rightarrow> string \<Rightarrow> string \<Rightarrow> input_ref list option \<Rightarrow> check_execution" where
  "observation outcome reasonCode summary refs = \<lparr>vx_outcome = outcome, vx_reasonCode = Some reasonCode, vx_summary = Some summary,
     vx_inputRefs = refs, vx_canonicalVerificationRef = None\<rparr>"

definition requirementRefs :: "string list \<Rightarrow> input_ref list" where
  "requirementRefs requirementIds = map (\<lambda>requirementId. \<lparr>nr_kind = ''Requirement'', nr_ref = requirementId\<rparr>) requirementIds"

definition materialsFor :: "case_material list \<Rightarrow> string \<Rightarrow> string \<Rightarrow> case_material list" where
  "materialsFor materials requirementId kind =
     filter (\<lambda>material. material_kind (mt_payload material) = kind \<and> requirementId \<in> set (mt_requirementIds material)) materials"

definition COUNTED_MATERIAL_KIND :: "string \<Rightarrow> string option" where
  "COUNTED_MATERIAL_KIND kind = (if kind \<in> {''Declaration'', ''Evidence'', ''Attestation''} then Some kind else None)"

section \<open>Material\<close>

definition run_material_present :: "check_context \<Rightarrow> check_execution" where
  "run_material_present ctx = (let
       considered = filter (\<lambda>progress. pg_kind progress \<noteq> ''Verification'') (vc_requirementProgress ctx);
       missing = map pg_requirementId (filter (\<lambda>progress. pg_obligation progress = ''Required'' \<and> pg_materialStatus progress = ''Pending'') considered);
       unresolved = map pg_requirementId
         (filter (\<lambda>progress. pg_conditionStatus progress = ''Unresolved'' \<and> pg_materialStatus progress = ''Pending'') considered) in
     if length missing > 0
     then observation ''Fail'' ''material.missing'' (show_nat (length missing) @ '' required requirement(s) of the pinned profile have no material.'')
       (Some (requirementRefs missing))
     else if length unresolved > 0
     then observation ''ManualReview'' ''condition.unresolved''
       (show_nat (length unresolved) @ '' conditional requirement(s) have no material and no evaluated condition.'') (Some (requirementRefs unresolved))
     else observation ''Pass'' ''material.present'' ''Every required requirement of the pinned profile has material associated.'' None)"

definition minimumCount :: "asset_requirement \<Rightarrow> int option" where
  "minimumCount requirement = (case rq_terms requirement of
     DeclarationTerms t s n \<Rightarrow> n | EvidenceTerms ts ss n registry credential freshness \<Rightarrow> n | AttestationTerms ts attester n freshness \<Rightarrow> n
   | _ \<Rightarrow> None)"

definition run_minimum_count :: "check_context \<Rightarrow> check_execution" where
  "run_minimum_count ctx = (let
       constrained = filter (\<lambda>r. rq_obligation r = ''Required'' \<and> minimumCount r \<noteq> None \<and> COUNTED_MATERIAL_KIND (rq_kind r) \<noteq> None)
         (ap_requirements (vc_assetProfile ctx));
       short = filter (\<lambda>r. int (length (materialsFor (vc_materials ctx) (rq_id r) (the (COUNTED_MATERIAL_KIND (rq_kind r)))))
         < the (minimumCount r)) constrained in
     if length constrained = 0
     then observation ''Pass'' ''count.not.constrained'' ''The pinned profile declares no minimum material count.'' None
     else if length short > 0
     then observation ''Fail'' ''material.count.insufficient''
       (show_nat (length short) @ '' requirement(s) hold fewer materials than the pinned profile'' @ [CHR 0x27] @ ''s minimum.'')
       (Some (requirementRefs (map rq_id short)))
     else observation ''Pass'' ''count.satisfied'' ''Every declared minimum material count is met.''
       (Some (requirementRefs (map rq_id constrained))))"

section \<open>Identity\<close>

definition outside :: "string list option \<Rightarrow> string \<Rightarrow> bool" where
  "outside accepted v \<longleftrightarrow> (case accepted of None \<Rightarrow> False | Some l \<Rightarrow> v \<notin> set l)"

definition registryEntryConforms :: "registry_entry_ref \<Rightarrow> registry_constraint \<Rightarrow> bool" where
  "registryEntryConforms entryRef constraint \<longleftrightarrow>
     (if outside (rgc_acceptedTypes constraint) (rg_type entryRef) then False
      else if outside (rgc_acceptedAuthorityLevels constraint) (rg_authorityLevel entryRef) then False
      else if outside (rgc_acceptedEntryTypes constraint) (rg_entryType entryRef) then False
      else if outside (rgc_acceptedNamespaces constraint) (rg_namespace entryRef) then False
      else True)"

definition evidencedStrategies :: "check_context \<Rightarrow> asset_requirement \<Rightarrow> string set" where
  "evidencedStrategies ctx requirement = (let holds = (\<lambda>kind. materialsFor (vc_materials ctx) (rq_id requirement) kind \<noteq> []) in
     (if cs_contentIdentity (vc_subject ctx) \<noteq> None \<or> holds ''ContentIdentity'' then {''ContentIdentity''} else {}) \<union>
     (if sr_externalReference (cs_subjectRef (vc_subject ctx)) \<noteq> None \<or> holds ''ExternalReference'' then {''ExternalReference''} else {}) \<union>
     (if holds ''RegistryEntry'' then {''RegistryEntry''} else {}))"

text \<open>The registry entries of a requirement outside its constraint.\<close>

definition nonconforming :: "check_context \<Rightarrow> asset_requirement \<Rightarrow> registry_constraint \<Rightarrow> case_material list" where
  "nonconforming ctx requirement constraint = filter (\<lambda>material. case mt_payload material of
       RegistryEntryPayload entryRef \<Rightarrow> \<not> registryEntryConforms entryRef constraint | _ \<Rightarrow> False)
     (materialsFor (vc_materials ctx) (rq_id requirement) ''RegistryEntry'')"

definition identity_observations :: "check_context \<Rightarrow> asset_requirement \<Rightarrow> check_execution list" where
  "identity_observations ctx requirement = (case rq_terms requirement of
     IdentityTerms acceptedStrategies satisfaction registry freshness \<Rightarrow>
       (let evidenced = evidencedStrategies ctx requirement;
            satisfied = (if satisfaction = ''All'' then list_all (\<lambda>strategy. strategy \<in> evidenced) acceptedStrategies
              else list_ex (\<lambda>strategy. strategy \<in> evidenced) acceptedStrategies) in
        if \<not> satisfied
        then [observation ''Fail'' ''identity.strategy.unsatisfied''
          (''Requirement '' @ rq_id requirement @ '' is not evidenced by the strategies it accepts.'') (Some (requirementRefs [rq_id requirement]))]
        else case registry of None \<Rightarrow> []
          | Some constraint \<Rightarrow> if nonconforming ctx requirement constraint = [] then []
              else [observation ''Fail'' ''identity.registry.mismatch''
                (''Requirement '' @ rq_id requirement @ '' holds a registry entry outside the registry constraint it declares.'')
                (Some (requirementRefs [rq_id requirement] @
                  map (\<lambda>material. \<lparr>nr_kind = ''Material'', nr_ref = mt_materialId material\<rparr>) (nonconforming ctx requirement constraint)))])
   | _ \<Rightarrow> [])"

definition run_identity_strategy :: "check_context \<Rightarrow> check_execution" where
  "run_identity_strategy ctx = (let
       requirements = filter (\<lambda>r. rq_kind r = ''Identity'' \<and> rq_obligation r = ''Required'') (ap_requirements (vc_assetProfile ctx)) in
     if length requirements = 0
     then observation ''Pass'' ''identity.not.constrained'' ''The pinned profile requires no identity material.'' None
     else strongest (concat (map (identity_observations ctx) requirements))
       (observation ''Pass'' ''identity.strategy.satisfied'' ''Every required identity requirement is evidenced by an accepted strategy.''
         (Some (requirementRefs (map rq_id requirements)))))"

section \<open>Freshness\<close>

definition evidence_freshness :: "asset_requirement \<Rightarrow> freshness_constraint option" where
  "evidence_freshness requirement = (case rq_terms requirement of
     EvidenceTerms ts ss n registry credential freshness \<Rightarrow> freshness | _ \<Rightarrow> None)"

text \<open>The milliseconds from one moment to another, none when either cannot be read.\<close>

definition age_millis :: "platform \<Rightarrow> string \<Rightarrow> string \<Rightarrow> int option" where
  "age_millis P observedAt now = (case (date_of P now, date_of P observedAt) of (Some n, Some t) \<Rightarrow> Some (n - t) | _ \<Rightarrow> None)"

text \<open>What is observed of one piece of evidence, and whether its age was evaluated.\<close>

definition freshness_of :: "platform \<Rightarrow> check_context \<Rightarrow> asset_requirement \<Rightarrow> freshness_constraint \<Rightarrow> case_material \<Rightarrow> string \<Rightarrow>
    check_execution list \<times> bool" where
  "freshness_of P ctx requirement constraint material evidenceRef = (let
       refs = requirementRefs [rq_id requirement] @ [\<lparr>nr_kind = ''EvidenceRecord'', nr_ref = evidenceRef\<rparr>];
       receipt = find (\<lambda>candidate. rc_materialId candidate = mt_materialId material \<or> rc_evidenceRef candidate = evidenceRef)
         (vc_evidenceReceipts ctx) in
     case (case receipt of None \<Rightarrow> None | Some r \<Rightarrow> rc_observedAt r) of
       None \<Rightarrow> ([observation ''Unavailable'' ''freshness.observation.missing''
         (''No observation instant is available for the evidence answering '' @ rq_id requirement @ ''.'') (Some refs)], False)
     | Some observedAt \<Rightarrow>
       let basis = refs @ (case receipt of None \<Rightarrow> [] | Some r \<Rightarrow> [\<lparr>nr_kind = ''IntakeReceipt'', nr_ref = rc_intakeId r\<rparr>]);
           expiry = (if fr_mustNotBeExpired constraint = Some True
             then [observation ''Unavailable'' ''dependency.unavailable'' (''Expiry for the evidence answering '' @ rq_id requirement @
               '' is carried by a Protocol record this check cannot resolve.'') (Some basis)] else []);
           age = age_millis P observedAt (vc_now ctx);
           observe = (\<lambda>outcome reasonCode how. (expiry @ [observation outcome reasonCode
             (''The evidence answering '' @ rq_id requirement @ how) (Some basis)], True)) in
       if (case age of None \<Rightarrow> False | Some a \<Rightarrow> a < 0)
       then observe ''Warning'' ''freshness.observed.in.future'' '' records an observation later than the execution instant.''
       else if (case (age, fr_maxAgeSeconds constraint) of (Some a, Some m) \<Rightarrow> a > 1000 * m | _ \<Rightarrow> False)
       then observe ''Fail'' ''freshness.exceeded'' '' was observed longer ago than the pinned profile permits.''
       else if (case fr_observedAfter constraint of None \<Rightarrow> False
         | Some earliest \<Rightarrow> (case (date_of P observedAt, date_of P earliest) of (Some a, Some b) \<Rightarrow> a < b | _ \<Rightarrow> False))
       then observe ''Fail'' ''freshness.exceeded'' '' was observed before the instant the pinned profile requires.''
       else (expiry, True))"

definition freshness_findings :: "platform \<Rightarrow> check_context \<Rightarrow> asset_requirement \<Rightarrow> (check_execution list \<times> bool) list" where
  "freshness_findings P ctx requirement = concat (map (\<lambda>material. case mt_payload material of
       EvidencePayload evidenceRef \<Rightarrow> [freshness_of P ctx requirement (the (evidence_freshness requirement)) material evidenceRef] | _ \<Rightarrow> [])
     (materialsFor (vc_materials ctx) (rq_id requirement) ''Evidence''))"

definition run_evidence_freshness :: "platform \<Rightarrow> check_context \<Rightarrow> check_execution" where
  "run_evidence_freshness P ctx = (let
       requirements = filter (\<lambda>r. rq_kind r = ''Evidence'' \<and> evidence_freshness r \<noteq> None) (ap_requirements (vc_assetProfile ctx));
       findings = concat (map (freshness_findings P ctx) requirements);
       evaluated = length (filter snd findings) in
     if length requirements = 0
     then observation ''Pass'' ''freshness.not.constrained'' ''The pinned profile declares no evidence freshness constraint.'' None
     else strongest (concat (map fst findings))
       (observation ''Pass'' (if evaluated > 0 then ''freshness.satisfied'' else ''freshness.no.material'')
         (if evaluated > 0 then ''Every evaluable observation satisfies the freshness constraint the pinned profile declares.''
          else ''No evidence is associated with the freshness-constrained requirements of the pinned profile.'') None))"

section \<open>Declarations\<close>

definition claim_type_observations :: "(string \<Rightarrow> claim_resolution) \<Rightarrow> declaration_record \<Rightarrow> check_execution list" where
  "claim_type_observations resolveClaim r = (let
       refs = [\<lparr>nr_kind = ''DeclarationRecord'', nr_ref = dr_declarationId r\<rparr>, \<lparr>nr_kind = ''ClaimRecord'', nr_ref = dr_claimRef r\<rparr>];
       resolution = resolveClaim (dr_claimRef r) in
     if cn_status resolution = ''Unavailable''
     then [observation ''Unavailable'' ''dependency.unavailable'' ''The claim source could not be consulted.'' (Some refs)]
     else if cn_status resolution = ''NotFound'' \<or> cn_claim resolution = None
     then [observation ''Unavailable'' ''claim.unresolved'' ''The named claim record could not be resolved, so its type is unchecked.'' (Some refs)]
     else if cl_type (the (cn_claim resolution)) \<noteq> dr_claimType r
     then [observation ''Fail'' ''claim.type.mismatch''
       ''A resolved claim record is of a different type than the declaration recorded.'' (Some refs)]
     else [])"

definition run_claim_type :: "check_context \<Rightarrow> check_execution" where
  "run_claim_type ctx =
     (if length (vc_declarations ctx) = 0
      then observation ''Pass'' ''declaration.none'' ''This case holds no declaration to corroborate.'' None
      else case rs_claim (vc_resolvers ctx) of
        None \<Rightarrow> observation ''Unavailable'' ''claim.resolver.unavailable''
          ''No claim resolver is bound, so the recorded claim types cannot be corroborated.'' None
      | Some resolveClaim \<Rightarrow> strongest (concat (map (claim_type_observations resolveClaim) (vc_declarations ctx)))
          (observation ''Pass'' ''claim.type.consistent'' ''Every resolved claim record carries the type its declaration recorded.''
            (Some (map (\<lambda>r. \<lparr>nr_kind = ''DeclarationRecord'', nr_ref = dr_declarationId r\<rparr>) (vc_declarations ctx)))))"

definition declarantKey :: "principal_ref \<Rightarrow> string" where
  "declarantKey declarant = pl_kind declarant @ line_feed # pl_id declarant"

fun hold_declarant :: "string set \<Rightarrow> string \<Rightarrow> string list \<Rightarrow> (string \<times> string set) list \<Rightarrow> (string \<times> string set) list" where
  "hold_declarant ids key [] held = held"
| "hold_declarant ids key (requirementId # requirementIds) held = hold_declarant ids key requirementIds
     (if requirementId \<notin> ids then held
      else map_set requirementId (insert key (case map_of held requirementId of None \<Rightarrow> {} | Some s \<Rightarrow> s)) held)"

definition declarantsByRequirement :: "string set \<Rightarrow> declaration_record list \<Rightarrow> (string \<times> string set) list" where
  "declarantsByRequirement ids records = fold (\<lambda>r. hold_declarant ids (declarantKey (dr_declarant r)) (dr_requirementIds r)) records []"

definition run_competing :: "check_context \<Rightarrow> check_execution" where
  "run_competing ctx = (let
       declarationRequirementIds = set (map rq_id (filter (\<lambda>r. rq_kind r = ''Declaration'') (ap_requirements (vc_assetProfile ctx))));
       competing = map fst (filter (\<lambda>entry. card (snd entry) > 1) (declarantsByRequirement declarationRequirementIds (vc_declarations ctx))) in
     if length competing > 0
     then observation ''ManualReview'' ''declaration.competing'' (show_nat (length competing) @
       '' declaration requirement(s) carry assertions from more than one declarant; automation cannot adjudicate between them.'')
       (Some (requirementRefs competing))
     else observation ''Pass'' ''declaration.uncontested''
       ''No declaration requirement carries assertions from more than one declarant.'' None)"

section \<open>Content\<close>

definition run_content_digest :: "platform \<Rightarrow> check_context \<Rightarrow> check_execution" where
  "run_content_digest P ctx = (let subjectRef = cs_subjectRef (vc_subject ctx);
       refs = Some [\<lparr>nr_kind = ''Subject'', nr_ref = sr_sovereignAssetId subjectRef\<rparr>] in
     case cs_contentIdentity (vc_subject ctx) of
       None \<Rightarrow> observation ''Unavailable'' ''content.identity.absent''
         ''This case binds no content identity, so there is no digest to compare.'' refs
     | Some expected \<Rightarrow>
       (case rs_content (vc_resolvers ctx) of
          None \<Rightarrow> observation ''Unavailable'' ''content.resolver.unavailable''
            ''No content resolver is bound, so the subject bytes cannot be read.'' refs
        | Some readContent \<Rightarrow>
          let resolution = readContent subjectRef in
          if tn_status resolution = ''Unavailable''
          then observation ''Unavailable'' ''dependency.unavailable'' ''The content source could not be consulted.'' refs
          else if tn_status resolution = ''NotFound'' \<or> tn_bytes resolution = None
          then observation ''Unavailable'' ''content.unavailable'' ''The subject bytes are not available, so no digest was computed.'' refs
          else let verified = verifyContentIdentity P (the (tn_bytes resolution)) expected in
            if fst verified
            then observation ''Pass'' ''digest.matches'' ''The subject bytes produce exactly the content identity this case pinned.'' refs
            else if snd verified = Some ''UNSUPPORTED_CONTENT_DIGEST_ALGORITHM''
            then observation ''Unavailable'' ''digest.algorithm.unsupported''
              ''The pinned content identity names a digest algorithm this substrate cannot compute.'' refs
            else observation ''Fail'' ''digest.mismatch'' ''The subject bytes do not produce the content identity this case pinned.'' refs))"

section \<open>The checks\<close>

definition built_in :: "string \<Rightarrow> (check_context \<Rightarrow> check_execution) \<Rightarrow> asset_check" where
  "built_in checkId execute = \<lparr>ck_checkId = checkId, ck_execute = (\<lambda>ctx. Inr (execute ctx))\<rparr>"

definition BUILT_IN_VERIFICATION_CHECKS :: "platform \<Rightarrow> asset_check list" where
  "BUILT_IN_VERIFICATION_CHECKS P = [built_in ''check.material.present'' run_material_present,
     built_in ''check.material.minimum-count'' run_minimum_count, built_in ''check.identity.strategy'' run_identity_strategy,
     built_in ''check.evidence.freshness'' (run_evidence_freshness P), built_in ''check.declaration.claim-type'' run_claim_type,
     built_in ''check.declaration.competing'' run_competing, built_in ''check.content.digest'' (run_content_digest P)]"

section \<open>The strongest observation\<close>

lemma strongest_loop_held:
  "\<exists>x \<in> insert h (set xs). strongest_loop xs (Some h) = Some x \<and>
     (\<forall>y \<in> insert h (set xs). outcome_precedence (vx_outcome y) \<le> outcome_precedence (vx_outcome x))"
proof (induction xs arbitrary: h)
  case (Cons y ys)
  show ?case
  proof (cases "outcome_precedence (vx_outcome y) > outcome_precedence (vx_outcome h)")
    case True
    then show ?thesis using Cons.IH [of y] by (force simp: order.trans)
  next
    case False
    then show ?thesis using Cons.IH [of h] by (force simp: order.trans)
  qed
qed simp

text \<open>What a check reports is one of its observations, and none of them outranks it; without any it is the fallback.\<close>

lemma strongest_mem: "strongest xs fallback \<in> insert fallback (set xs)"
  using strongest_loop_held [of "hd xs" "tl xs"] by (cases xs) (auto simp: strongest_def)

lemma strongest_max: "x \<in> set xs \<Longrightarrow> outcome_precedence (vx_outcome x) \<le> outcome_precedence (vx_outcome (strongest xs fallback))"
  using strongest_loop_held [of "hd xs" "tl xs"] by (cases xs) (auto simp: strongest_def)

lemma strongest_pass:
  assumes "\<forall>x \<in> set xs. outcome_precedence (vx_outcome x) > 0" and "vx_outcome fallback = ''Pass''"
  shows "vx_outcome (strongest xs fallback) = ''Pass'' \<longleftrightarrow> xs = []"
proof (cases xs)
  case (Cons y ys)
  then have "outcome_precedence (vx_outcome (strongest xs fallback)) > 0"
    using strongest_max [of y xs fallback] assms(1) by fastforce
  then show ?thesis using Cons by (auto simp: outcome_precedence_def)
qed (use assms(2) in \<open>simp add: strongest_def\<close>)

lemma observation_simps [simp]: "vx_outcome (observation outcome reasonCode summary refs) = outcome"
  "vx_inputRefs (observation outcome reasonCode summary refs) = refs"
  by (simp_all add: observation_def)

section \<open>What the checks find\<close>

text \<open>The states of a case are for the requirements of its profile, in their order.\<close>

definition projects :: "protocolization_case \<Rightarrow> asset_profile \<Rightarrow> bool" where
  "projects c profile \<longleftrightarrow> map qs_requirementId (kc_requirementStates c) = map rq_id (ap_requirements profile)"

definition has_material :: "protocolization_case \<Rightarrow> asset_requirement \<Rightarrow> bool" where
  "has_material c r \<longleftrightarrow> (\<exists>m \<in> set (kc_materials c). rq_id r \<in> set (mt_requirementIds m))"

lemma projected_progress:
  assumes "case_ok P c" and "projects c profile"
  shows "\<exists>state. progress_list c profile = map (\<lambda>r. progress_of r (state r)) (ap_requirements profile) \<and>
    (\<forall>r \<in> set (ap_requirements profile). qs_materialStatus (state r) = ''Pending'' \<longleftrightarrow> \<not> has_material c r)"
proof -
  let ?state = "\<lambda>r. the (states_by_requirement c (rq_id r))"
  have known: "states_by_requirement c (rq_id r) = Some (?state r) \<and> (qs_materialStatus (?state r) = ''Pending'' \<longleftrightarrow> \<not> has_material c r)"
    if "r \<in> set (ap_requirements profile)" for r
  proof -
    have "rq_id r \<in> set (map qs_requirementId (kc_requirementStates c))" using that assms(2) by (simp add: projects_def)
    then obtain s where s: "s \<in> set (kc_requirementStates c)" "qs_requirementId s = rq_id r" by auto
    then have "states_by_requirement c (rq_id r) = Some s" using states_by_requirement_Some [OF case_okD(4) [OF assms(1)]] by blast
    then show ?thesis using pending_iff [OF assms(1) s(1)] s(2) by (simp add: has_material_def)
  qed
  have one: "(case states_by_requirement c (rq_id r) of None \<Rightarrow> [] | Some s \<Rightarrow> [progress_of r s]) = [progress_of r (?state r)]"
    if "r \<in> set (ap_requirements profile)" for r using known [OF that] by (metis option.simps(5))
  have "progress_list c profile = map (\<lambda>r. progress_of r (?state r)) (ap_requirements profile)"
  proof -
    have "concat (map (\<lambda>r. case states_by_requirement c (rq_id r) of None \<Rightarrow> [] | Some s \<Rightarrow> [progress_of r s]) rs) =
        map (\<lambda>r. progress_of r (?state r)) rs" if "set rs \<subseteq> set (ap_requirements profile)" for rs
      using that one by (induction rs) auto
    then show ?thesis by (simp add: progress_list_def)
  qed
  then show ?thesis using known by (intro exI [of _ ?state]) blast
qed

lemma progress_of_simps [simp]: "pg_kind (progress_of r s) = rq_kind r" "pg_obligation (progress_of r s) = rq_obligation r"
  "pg_materialStatus (progress_of r s) = qs_materialStatus s" "pg_requirementId (progress_of r s) = rq_id r"
  "pg_conditionStatus (progress_of r s) = ''Unresolved'' \<longleftrightarrow> rq_obligation r = ''Conditional''"
  by (simp_all add: progress_of_def)

lemma view_simps [simp]:
  "vc_requirementProgress (view ctx c profile requirement k inputs) = progress_list c profile"
  "vc_assetProfile (view ctx c profile requirement k inputs) = profile" "vc_materials (view ctx c profile requirement k inputs) = kc_materials c"
  "vc_subject (view ctx c profile requirement k inputs) = kc_subject c" "vc_now (view ctx c profile requirement k inputs) = cc_now (vn_case ctx)"
  "vc_evidenceReceipts (view ctx c profile requirement k inputs) = receipts_of inputs"
  "vc_declarations (view ctx c profile requirement k inputs) = declarations_of inputs"
  by (simp_all add: view_def)

text \<open>The requirements without material that the check reports.\<close>

definition lacking :: "string \<Rightarrow> protocolization_case \<Rightarrow> asset_profile \<Rightarrow> asset_requirement list" where
  "lacking obligation c profile =
     filter (\<lambda>r. rq_kind r \<noteq> ''Verification'' \<and> rq_obligation r = obligation \<and> \<not> has_material c r) (ap_requirements profile)"

lemma material_present_finds:
  assumes "case_ok P c" and "projects c profile"
  shows "run_material_present (view ctx c profile requirement k inputs) =
    (if lacking ''Required'' c profile \<noteq> []
     then observation ''Fail'' ''material.missing'' (show_nat (length (lacking ''Required'' c profile)) @
       '' required requirement(s) of the pinned profile have no material.'') (Some (requirementRefs (map rq_id (lacking ''Required'' c profile))))
     else if lacking ''Conditional'' c profile \<noteq> []
     then observation ''ManualReview'' ''condition.unresolved'' (show_nat (length (lacking ''Conditional'' c profile)) @
       '' conditional requirement(s) have no material and no evaluated condition.'')
       (Some (requirementRefs (map rq_id (lacking ''Conditional'' c profile))))
     else observation ''Pass'' ''material.present'' ''Every required requirement of the pinned profile has material associated.'' None)"
proof -
  obtain state where state: "progress_list c profile = map (\<lambda>r. progress_of r (state r)) (ap_requirements profile)"
    "\<forall>r \<in> set (ap_requirements profile). qs_materialStatus (state r) = ''Pending'' \<longleftrightarrow> \<not> has_material c r"
    using projected_progress [OF assms] by blast
  have lack: "map pg_requirementId (filter (\<lambda>progress. p progress \<and> pg_materialStatus progress = ''Pending'')
      (filter (\<lambda>progress. pg_kind progress \<noteq> ''Verification'') (map (\<lambda>r. progress_of r (state r)) rs))) =
    map rq_id (filter (\<lambda>r. rq_kind r \<noteq> ''Verification'' \<and> rq_obligation r = obligation \<and> \<not> has_material c r) rs)"
    if "\<And>r s. p (progress_of r s) \<longleftrightarrow> rq_obligation r = obligation" "set rs \<subseteq> set (ap_requirements profile)" for p obligation rs
    using that state(2) by (induction rs) auto
  have missing: "map pg_requirementId (filter (\<lambda>progress. pg_obligation progress = ''Required'' \<and> pg_materialStatus progress = ''Pending'')
      (filter (\<lambda>progress. pg_kind progress \<noteq> ''Verification'') (progress_list c profile))) = map rq_id (lacking ''Required'' c profile)"
    unfolding state(1) lacking_def by (rule lack) simp_all
  have unresolved: "map pg_requirementId (filter (\<lambda>progress. pg_conditionStatus progress = ''Unresolved'' \<and> pg_materialStatus progress = ''Pending'')
      (filter (\<lambda>progress. pg_kind progress \<noteq> ''Verification'') (progress_list c profile))) = map rq_id (lacking ''Conditional'' c profile)"
    unfolding state(1) lacking_def by (rule lack) simp_all
  show ?thesis unfolding run_material_present_def Let_def view_simps missing unresolved by simp
qed

text \<open>More than \<open>INPUT_REFS_MAX_LENGTH\<close> requirements without material are not reported: the execution is refused as malformed.\<close>

lemma many_missing_refused:
  assumes "case_ok P c" and "projects c profile" and "length (lacking ''Required'' c profile) > INPUT_REFS_MAX_LENGTH"
  shows "\<not> execution_ok (run_material_present (view ctx c profile requirement k inputs))"
proof -
  have "lacking ''Required'' c profile \<noteq> []" using assms(3) by auto
  then show ?thesis using assms(3)
    by (simp add: material_present_finds [OF assms(1,2)] execution_ok_def optional_ok_def isValidInputRefList_def requirementRefs_def)
qed

lemma minimum_kind: "minimumCount r \<noteq> None \<Longrightarrow> COUNTED_MATERIAL_KIND (rq_kind r) = Some (rq_kind r)"
  by (cases "rq_terms r") (auto simp: minimumCount_def COUNTED_MATERIAL_KIND_def rq_kind_def)

lemma minimum_count_passes:
  "vx_outcome (run_minimum_count ctx) = ''Pass'' \<longleftrightarrow> (\<forall>r \<in> set (ap_requirements (vc_assetProfile ctx)). \<forall>n.
     rq_obligation r = ''Required'' \<and> minimumCount r = Some n \<longrightarrow>
     n \<le> int (length (filter (\<lambda>m. material_kind (mt_payload m) = rq_kind r \<and> rq_id r \<in> set (mt_requirementIds m)) (vc_materials ctx))))"
  by (auto simp: run_minimum_count_def Let_def filter_empty_conv minimum_kind materialsFor_def not_less)

text \<open>The declarants of a requirement.\<close>

lemma hold_declarant_spec:
  "map_of (hold_declarant ids key rs held) i = (if i \<in> ids \<and> i \<in> set rs
     then Some (insert key (case map_of held i of None \<Rightarrow> {} | Some s \<Rightarrow> s)) else map_of held i)"
  by (induction ids key rs held rule: hold_declarant.induct) (auto simp: map_of_map_set split: option.splits)

lemma hold_declarant_keys: "distinct (map fst held) \<Longrightarrow> distinct (map fst (hold_declarant ids key rs held))"
  by (induction ids key rs held rule: hold_declarant.induct) (auto simp: distinct_map_set)

definition declarants :: "declaration_record list \<Rightarrow> string \<Rightarrow> string set" where
  "declarants records i = declarantKey ` dr_declarant ` {r \<in> set records. i \<in> set (dr_requirementIds r)}"

lemma declarants_held:
  "distinct (map fst (declarantsByRequirement ids records)) \<and> map_of (declarantsByRequirement ids records) i =
     (if i \<in> ids \<and> declarants records i \<noteq> {} then Some (declarants records i) else None)"
proof (induction records rule: rev_induct)
  case (snoc r records)
  have "declarants (records @ [r]) i = (if i \<in> set (dr_requirementIds r) then insert (declarantKey (dr_declarant r)) (declarants records i)
      else declarants records i)" by (auto simp: declarants_def)
  then show ?case using snoc by (auto simp: declarantsByRequirement_def hold_declarant_spec hold_declarant_keys)
qed (simp add: declarantsByRequirement_def declarants_def)

lemma finite_declarants [simp]: "finite (declarants records i)"
  by (simp add: declarants_def)

lemma entries_all: "distinct (map fst entries) \<Longrightarrow> (\<forall>e \<in> set entries. p (snd e)) \<longleftrightarrow> (\<forall>i s. map_of entries i = Some s \<longrightarrow> p s)"
  by (auto simp: map_of_eq_Some_iff)

lemma competing_passes:
  "vx_outcome (run_competing ctx) = ''Pass'' \<longleftrightarrow> (\<forall>r \<in> set (ap_requirements (vc_assetProfile ctx)). rq_kind r = ''Declaration'' \<longrightarrow>
     (\<forall>p \<in> set (vc_declarations ctx). \<forall>q \<in> set (vc_declarations ctx). rq_id r \<in> set (dr_requirementIds p) \<and> rq_id r \<in> set (dr_requirementIds q) \<longrightarrow>
       declarantKey (dr_declarant p) = declarantKey (dr_declarant q)))"
proof -
  define ids where "ids = set (map rq_id (filter (\<lambda>r. rq_kind r = ''Declaration'') (ap_requirements (vc_assetProfile ctx))))"
  define held where "held = declarantsByRequirement ids (vc_declarations ctx)"
  have look: "map_of held i = (if i \<in> ids \<and> declarants (vc_declarations ctx) i \<noteq> {} then Some (declarants (vc_declarations ctx) i) else None)"
    and keys: "distinct (map fst held)" for i
    unfolding held_def using declarants_held by blast+
  have "vx_outcome (run_competing ctx) = ''Pass'' \<longleftrightarrow> (\<forall>e \<in> set held. card (snd e) \<le> 1)"
    by (auto simp: run_competing_def Let_def filter_empty_conv not_less held_def ids_def)
  also have "\<dots> \<longleftrightarrow> (\<forall>i s. map_of held i = Some s \<longrightarrow> card s \<le> 1)" by (rule entries_all [OF keys])
  also have "\<dots> \<longleftrightarrow> (\<forall>i \<in> ids. card (declarants (vc_declarations ctx) i) \<le> 1)"
    unfolding look by (metis card.empty option.inject option.simps(3) zero_le)
  also have "\<dots> \<longleftrightarrow> (\<forall>i \<in> ids. \<forall>a \<in> declarants (vc_declarations ctx) i. \<forall>b \<in> declarants (vc_declarations ctx) i. a = b)"
    by (simp add: card_le_Suc0_iff_eq)
  finally show ?thesis by (auto simp: declarants_def ids_def)
qed

text \<open>A digest that matches means the bytes have the pinned identity.\<close>

lemma digest_passes:
  "vx_outcome (run_content_digest P ctx) = ''Pass'' \<longleftrightarrow> (\<exists>expected readContent data.
     cs_contentIdentity (vc_subject ctx) = Some expected \<and> rs_content (vc_resolvers ctx) = Some readContent \<and>
     tn_status (readContent (cs_subjectRef (vc_subject ctx))) \<notin> {''Unavailable'', ''NotFound''} \<and>
     tn_bytes (readContent (cs_subjectRef (vc_subject ctx))) = Some data \<and> fst (verifyContentIdentity P data expected))"
  by (auto simp: run_content_digest_def Let_def split: option.splits)

text \<open>Evidence is taken for fresh by the check: a receipt says when it was observed, its expiry is not asked for, and the moment is not
  found to be after the execution, too long ago, or before the moment required.  A moment that cannot be read is found to be none
  of these.\<close>

definition taken_for_fresh :: "platform \<Rightarrow> intake_receipt list \<Rightarrow> string \<Rightarrow> freshness_constraint \<Rightarrow> case_material \<Rightarrow> string \<Rightarrow> bool" where
  "taken_for_fresh P receipts now constraint material evidenceRef \<longleftrightarrow> (\<exists>r observedAt.
     find (\<lambda>candidate. rc_materialId candidate = mt_materialId material \<or> rc_evidenceRef candidate = evidenceRef) receipts = Some r \<and>
     rc_observedAt r = Some observedAt \<and> fr_mustNotBeExpired constraint \<noteq> Some True \<and>
     (\<forall>a. age_millis P observedAt now = Some a \<longrightarrow> 0 \<le> a \<and> (\<forall>m. fr_maxAgeSeconds constraint = Some m \<longrightarrow> a \<le> 1000 * m)) \<and>
     (\<forall>earliest a b. fr_observedAfter constraint = Some earliest \<and> date_of P observedAt = Some a \<and> date_of P earliest = Some b \<longrightarrow> b \<le> a))"

lemma freshness_of_cases:
  "freshness_of P ctx r constraint material evidenceRef = ([], True) \<and> taken_for_fresh P (vc_evidenceReceipts ctx) (vc_now ctx) constraint material evidenceRef \<or>
   fst (freshness_of P ctx r constraint material evidenceRef) \<noteq> [] \<and> \<not> taken_for_fresh P (vc_evidenceReceipts ctx) (vc_now ctx) constraint material evidenceRef \<and>
   (\<forall>x \<in> set (fst (freshness_of P ctx r constraint material evidenceRef)). outcome_precedence (vx_outcome x) > 0)"
proof (cases "find (\<lambda>candidate. rc_materialId candidate = mt_materialId material \<or> rc_evidenceRef candidate = evidenceRef) (vc_evidenceReceipts ctx)")
  case (Some q)
  show ?thesis
  proof (cases "rc_observedAt q")
    case None
    then show ?thesis using Some by (simp add: freshness_of_def taken_for_fresh_def outcome_precedence_def)
  next
    case at: (Some t)
    show ?thesis
      by (cases "age_millis P t (vc_now ctx)"; cases "fr_maxAgeSeconds constraint"; cases "fr_observedAfter constraint"; cases "date_of P t")
        (use Some at in \<open>simp_all add: freshness_of_def taken_for_fresh_def outcome_precedence_def not_less Let_def split: option.splits\<close>)
  qed
qed (simp add: freshness_of_def taken_for_fresh_def outcome_precedence_def)

lemma freshness_of_Nil: "fst (freshness_of P ctx r constraint material evidenceRef) = [] \<longleftrightarrow> taken_for_fresh P (vc_evidenceReceipts ctx) (vc_now ctx) constraint material evidenceRef"
  using freshness_of_cases [of P ctx r constraint material evidenceRef] by auto

lemma freshness_of_ranks: "x \<in> set (fst (freshness_of P ctx r constraint material evidenceRef)) \<Longrightarrow> outcome_precedence (vx_outcome x) > 0"
  using freshness_of_cases [of P ctx r constraint material evidenceRef] by auto

lemma evidence_kind: "evidence_freshness r \<noteq> None \<Longrightarrow> rq_kind r = ''Evidence''"
  by (cases "rq_terms r") (auto simp: evidence_freshness_def rq_kind_def)

lemma evidence_material_kind: "material_kind p = ''Evidence'' \<longleftrightarrow> (\<exists>e. p = EvidencePayload e)"
  by (cases p) auto

lemma freshness_findings_all:
  "(\<forall>f \<in> set (freshness_findings P ctx r). p f) \<longleftrightarrow> (\<forall>m \<in> set (vc_materials ctx). \<forall>e. mt_payload m = EvidencePayload e \<and>
     rq_id r \<in> set (mt_requirementIds m) \<longrightarrow> p (freshness_of P ctx r (the (evidence_freshness r)) m e))"
proof -
  have one: "(\<forall>f \<in> set (case q of EvidencePayload e \<Rightarrow> [g e] | _ \<Rightarrow> []). p f) \<longleftrightarrow> (\<forall>e. q = EvidencePayload e \<longrightarrow> p (g e))" for q g
    by (cases q) auto
  have "(\<forall>f \<in> set (freshness_findings P ctx r). p f) \<longleftrightarrow> (\<forall>m \<in> set (materialsFor (vc_materials ctx) (rq_id r) ''Evidence'').
      \<forall>f \<in> set (case mt_payload m of EvidencePayload e \<Rightarrow> [freshness_of P ctx r (the (evidence_freshness r)) m e] | _ \<Rightarrow> []). p f)"
    by (simp add: freshness_findings_def)
  then show ?thesis unfolding one by (auto simp: materialsFor_def)
qed

lemma freshness_passes:
  "vx_outcome (run_evidence_freshness P ctx) = ''Pass'' \<longleftrightarrow> (\<forall>r \<in> set (ap_requirements (vc_assetProfile ctx)). \<forall>constraint.
     evidence_freshness r = Some constraint \<longrightarrow> (\<forall>m \<in> set (vc_materials ctx). \<forall>e. mt_payload m = EvidencePayload e \<and>
       rq_id r \<in> set (mt_requirementIds m) \<longrightarrow> taken_for_fresh P (vc_evidenceReceipts ctx) (vc_now ctx) constraint m e))"
proof -
  define reqs where "reqs = filter (\<lambda>r. rq_kind r = ''Evidence'' \<and> evidence_freshness r \<noteq> None) (ap_requirements (vc_assetProfile ctx))"
  define findings where "findings = concat (map (freshness_findings P ctx) reqs)"
  have all: "(\<forall>f \<in> set findings. p f) \<longleftrightarrow> (\<forall>r \<in> set (ap_requirements (vc_assetProfile ctx)). \<forall>constraint. evidence_freshness r = Some constraint \<longrightarrow>
      (\<forall>m \<in> set (vc_materials ctx). \<forall>e. mt_payload m = EvidencePayload e \<and> rq_id r \<in> set (mt_requirementIds m) \<longrightarrow>
        p (freshness_of P ctx r constraint m e)))" for p
  proof -
    have "(\<forall>f \<in> set findings. p f) \<longleftrightarrow> (\<forall>r \<in> set reqs. \<forall>f \<in> set (freshness_findings P ctx r). p f)"
      unfolding findings_def by simp
    moreover have "r \<in> set reqs \<longleftrightarrow> r \<in> set (ap_requirements (vc_assetProfile ctx)) \<and> evidence_freshness r \<noteq> None" for r
      using evidence_kind [of r] unfolding reqs_def by auto
    ultimately show ?thesis unfolding freshness_findings_all by (auto, metis option.sel)
  qed
  have "\<forall>x \<in> set (concat (map fst findings)). outcome_precedence (vx_outcome x) > 0"
    using all [of "\<lambda>f. \<forall>x \<in> set (fst f). outcome_precedence (vx_outcome x) > 0"] freshness_of_ranks by auto
  then have "vx_outcome (strongest (concat (map fst findings)) (observation ''Pass'' reasonCode summary None)) = ''Pass'' \<longleftrightarrow>
      concat (map fst findings) = []" for reasonCode summary by (rule strongest_pass) simp
  moreover have "concat (map fst findings) = [] \<longleftrightarrow> (\<forall>f \<in> set findings. fst f = [])" by auto
  moreover have "reqs = [] \<Longrightarrow> findings = []" by (simp add: findings_def)
  ultimately have "vx_outcome (run_evidence_freshness P ctx) = ''Pass'' \<longleftrightarrow> (\<forall>f \<in> set findings. fst f = [])"
    unfolding run_evidence_freshness_def Let_def reqs_def [symmetric] findings_def [symmetric] by auto
  then show ?thesis unfolding all [of "\<lambda>f. fst f = []"] freshness_of_Nil .
qed

text \<open>An observation whose instant cannot be read is taken for fresh under any maximum age.\<close>

lemma unreadable_observation_is_taken_for_fresh:
  assumes "vc_evidenceReceipts ctx = [r]" and "rc_materialId r = mt_materialId m" and "rc_observedAt r = Some t" and "date_of P t = None"
  shows "taken_for_fresh P (vc_evidenceReceipts ctx) (vc_now ctx) \<lparr>fr_maxAgeSeconds = Some n, fr_observedAfter = Some s, fr_mustNotBeExpired = None\<rparr> m e"
  using assms by (simp add: taken_for_fresh_def age_millis_def split: option.splits)

text \<open>Evidence is fresh for a constraint: a receipt says when it was observed, its expiry is not asked for, and its age at the
  execution can be told, is not negative, is within the maximum, and does not reach back before the moment required.\<close>

definition fresh :: "platform \<Rightarrow> intake_receipt list \<Rightarrow> string \<Rightarrow> freshness_constraint \<Rightarrow> case_material \<Rightarrow> string \<Rightarrow> bool" where
  "fresh P receipts now constraint material evidenceRef \<longleftrightarrow> (\<exists>r observedAt a n.
     find (\<lambda>candidate. rc_materialId candidate = mt_materialId material \<or> rc_evidenceRef candidate = evidenceRef) receipts = Some r \<and>
     rc_observedAt r = Some observedAt \<and> fr_mustNotBeExpired constraint \<noteq> Some True \<and>
     date_of P observedAt = Some a \<and> date_of P now = Some n \<and> a \<le> n \<and>
     (\<forall>m. fr_maxAgeSeconds constraint = Some m \<longrightarrow> n - a \<le> 1000 * m) \<and>
     (\<forall>earliest. fr_observedAfter constraint = Some earliest \<longrightarrow> (\<exists>b. date_of P earliest = Some b \<and> b \<le> a)))"

lemma utc_read: "isValidUtcDateTime P t \<Longrightarrow> \<exists>n. date_of P t = Some n"
  by (auto simp: isValidUtcDateTime_def split: option.splits)

lemma receipt_observed: "receipt_ok P r \<Longrightarrow> rc_observedAt r = Some t \<Longrightarrow> isValidUtcDateTime P t"
  by (simp add: receipt_ok_def intake_terms_ok_def optional_ok_def)

lemma found_in: "find p xs = Some x \<Longrightarrow> x \<in> set xs"
  by (auto simp: find_Some_iff)

text \<open>With receipts, a constraint and an execution whose moments are valid the check takes for fresh what is fresh.\<close>

lemma taken_for_fresh_iff:
  assumes "\<forall>r \<in> set receipts. receipt_ok P r" and "isValidUtcDateTime P now" and "isValidAssetFreshnessConstraint P constraint"
  shows "taken_for_fresh P receipts now constraint material evidenceRef \<longleftrightarrow> fresh P receipts now constraint material evidenceRef"
proof -
  let ?find = "find (\<lambda>candidate. rc_materialId candidate = mt_materialId material \<or> rc_evidenceRef candidate = evidenceRef) receipts"
  obtain n where n: "date_of P now = Some n" using utc_read [OF assms(2)] by blast
  have after: "\<exists>b. date_of P earliest = Some b" if "fr_observedAfter constraint = Some earliest" for earliest
    using assms(3) that utc_read [of P earliest] by (auto simp: isValidAssetFreshnessConstraint_def split: if_splits)
  have read: "\<exists>a. date_of P t = Some a" if "?find = Some r" "rc_observedAt r = Some t" for r t
    using assms(1) found_in [OF that(1)] receipt_observed [OF _ that(2)] utc_read [of P t] by blast
  show ?thesis
  proof (cases "\<exists>r t. ?find = Some r \<and> rc_observedAt r = Some t")
    case True
    then obtain r t where rt: "?find = Some r" "rc_observedAt r = Some t" by blast
    obtain a where a: "date_of P t = Some a" using read [OF rt] by blast
    show ?thesis
    proof (cases "fr_observedAfter constraint")
      case None
      then show ?thesis using rt a n by (auto simp: taken_for_fresh_def fresh_def age_millis_def)
    next
      case (Some earliest)
      then obtain b where "date_of P earliest = Some b" using after by blast
      then show ?thesis using rt a n Some by (auto simp: taken_for_fresh_def fresh_def age_millis_def)
    qed
  qed (auto simp: taken_for_fresh_def fresh_def)
qed

text \<open>A valid profile states valid constraints.\<close>

lemma valid_profile_freshness:
  assumes "isValidAssetProfile P profile" and "r \<in> set (ap_requirements profile)" and "evidence_freshness r = Some constraint"
  shows "isValidAssetFreshnessConstraint P constraint"
proof -
  obtain path where "validateRequirementShape P (rq_terms r) (rq_obligation r) path = []"
    using valid_profile_shape [OF assms(1,2)] by blast
  then show ?thesis using assms(3)
    by (auto simp: evidence_freshness_def validateRequirementShape_def freshness_issues_def bad_option_def split: requirement_terms.splits)
qed

section \<open>What the checks report is admitted\<close>

lemma no_space:
  assumes "upper_alpha c \<or> lower_alpha c \<or> dec_digit c \<or> lower_hex c \<or> between (CHR ''1'') (CHR ''8'') c \<or> c \<in> set ''._:-89ab''"
  shows "\<not> js_space c"
proof -
  have "list_all (\<lambda>c. \<not> (upper_alpha c \<or> lower_alpha c \<or> dec_digit c \<or> lower_hex c \<or> between (CHR ''1'') (CHR ''8'') c \<or> c \<in> set ''._:-89ab''))
      [CHR 0x09, CHR 0x0A, CHR 0x0B, CHR 0x0C, CHR 0x0D, CHR '' '', CHR 0xA0]" by code_simp
  then show ?thesis using assms unfolding list_all_iff js_space_def by blast
qed

abbreviation visible :: "char set" where
  "visible \<equiv> {c. \<not> js_space c}"

lemma visible_record_id:
  assumes "v \<noteq> []" and "length v \<le> ASSET_IDENTIFIER_MAX_LENGTH" and "set v \<subseteq> visible"
  shows "isCanonicalRecordId v"
proof -
  have "trim v = v" using assms(3) by (intro trim_no_space) auto
  then show ?thesis using assms by (simp add: isCanonicalRecordId_def)
qed

lemma token_record_id: "isDottedToken v \<Longrightarrow> isCanonicalRecordId v"
proof (rule visible_record_id)
  assume v: "isDottedToken v"
  have "rx_over visible DOTTED_TOKEN_PATTERN"
    using no_space by (auto simp: DOTTED_TOKEN_PATTERN_def token_word_def Let_def)
  then show "set v \<subseteq> visible" using v by (auto simp: isDottedToken_def rx_test_lang dest!: lang_over)
  show "v \<noteq> []"
  proof
    assume "v = []"
    then have "isDottedToken []" using v by simp
    moreover have "\<not> isDottedToken []" by code_simp
    ultimately show False by simp
  qed
qed (simp add: isDottedToken_def)

lemma instance_record_id: "isProtocolizationInstanceIdentifier v \<Longrightarrow> isCanonicalRecordId v"
proof (rule visible_record_id)
  assume v: "isProtocolizationInstanceIdentifier v"
  have "rx_over visible INSTANCE_IDENTIFIER_PATTERN"
    using no_space by (auto simp: INSTANCE_IDENTIFIER_PATTERN_def Let_def)
  then show "set v \<subseteq> visible" using v by (auto simp: isProtocolizationInstanceIdentifier_def rx_test_lang dest!: lang_over)
qed (simp_all add: isProtocolizationInstanceIdentifier_def instance_identifier_nonempty)

lemma rx_over_Times: "rx_over A r \<Longrightarrow> rx_over A (Times n r)"
  by (induction n) (simp_all add: Times.simps)

lemma sovereign_record_id: "isValidSovereignAssetId v \<Longrightarrow> isCanonicalRecordId v"
proof (rule visible_record_id)
  assume v: "isValidSovereignAssetId v"
  have "list_all (\<lambda>c. \<not> js_space c) SOVEREIGN_ASSET_ID_PREFIX" by code_simp
  then have "set SOVEREIGN_ASSET_ID_PREFIX \<subseteq> visible" unfolding list_all_iff by blast
  then have "rx_over visible SOVEREIGN_ASSET_ID_PATTERN"
    unfolding SOVEREIGN_ASSET_ID_PATTERN_def UUID_PATTERN_def rx_over.simps(4) rx_over_simps
    using no_space by (intro conjI rx_over_Times) auto
  then show "set v \<subseteq> visible" using v by (simp add: isValidSovereignAssetId_def rx_test_lang lang_over)
  have "length v = length SOVEREIGN_ASSET_ID_PREFIX + 36" using v
    unfolding isValidSovereignAssetId_def rx_test_lang SOVEREIGN_ASSET_ID_PATTERN_def UUID_PATTERN_def mem_Cat_Lit mem_Cat_Cls
      mem_Cat [of _ "Times n r" for n r] mem_Times_Cls by auto
  then show "length v \<le> ASSET_IDENTIFIER_MAX_LENGTH" "v \<noteq> []"
    by (auto simp: SOVEREIGN_ASSET_ID_PREFIX_def ASSET_IDENTIFIER_MAX_LENGTH_def)
qed

lemma show_nat_short: "length (show_nat n) \<le> Suc n"
proof (induction n rule: show_nat.induct)
  case (1 n)
  then show ?case by (subst show_nat.simps) (auto simp: Let_def)
qed

definition refs_ok :: "input_ref list \<Rightarrow> bool" where
  "refs_ok l \<longleftrightarrow> length l \<le> INPUT_REFS_MAX_LENGTH \<and> (\<forall>r \<in> set l. isVerificationInputKind (nr_kind r) \<and> isCanonicalRecordId (nr_ref r))"

lemma observation_ok:
  assumes "outcome \<in> set VERIFICATION_CHECK_OUTCOMES" and "isDottedToken reasonCode" and "\<exists>c \<in> set summary. \<not> js_space c"
    and "length summary \<le> SUMMARY_MAX_LENGTH" and "\<forall>l. refs = Some l \<longrightarrow> refs_ok l"
  shows "execution_ok (observation outcome reasonCode summary refs)"
proof -
  have "optional_ok isValidInputRefList refs"
    using assms(5) by (auto simp: optional_ok_def isValidInputRefList_def refs_ok_def list_all_iff split: option.splits)
  then show ?thesis using assms(1-4)
    by (simp add: execution_ok_def observation_def isVerificationCheckOutcome_def isValidVerificationReasonCode_def isValidSummary_def
        trim_eq_Nil optional_ok_def)
qed

lemma strongest_ok: "\<forall>x \<in> set xs. execution_ok x \<Longrightarrow> execution_ok fallback \<Longrightarrow> execution_ok (strongest xs fallback)"
  using strongest_mem [of xs fallback] by auto

text \<open>Words of lower-case letters with points between them.\<close>

definition dotted :: "string \<Rightarrow> string list \<Rightarrow> string" where
  "dotted w ws = w @ concat (map (\<lambda>u. CHR ''.'' # u) ws)"

lemma star_of_words: "set ws \<subseteq> lang q \<Longrightarrow> concat ws \<in> lang (Star q)"
  using star_concat by (fastforce simp: lang.simps)

lemma lower_word: "u \<noteq> [] \<and> list_all lower_alpha u \<Longrightarrow> u \<in> lang (Plus (Cls (\<lambda>c. lower_alpha c \<or> dec_digit c)))"
  by (auto simp: mem_Plus_Cls list_all_iff)

lemma hyphen_word:
  assumes "list_all (\<lambda>u. u \<noteq> [] \<and> list_all lower_alpha u) (w # ws)"
  shows "w @ concat (map (\<lambda>u. CHR ''-'' # u) ws) \<in> lang token_word"
proof -
  have "concat (map (\<lambda>u. CHR ''-'' # u) ws) \<in> lang (Star (Cat (Lit ''-'') (Plus (Cls (\<lambda>c. lower_alpha c \<or> dec_digit c)))))"
    using assms lower_word by (intro star_of_words) (auto simp: mem_Cat_Lit list_all_iff)
  moreover have "w \<in> lang (Plus (Cls (\<lambda>c. lower_alpha c \<or> dec_digit c)))" using assms lower_word by simp
  ultimately show ?thesis unfolding token_word_def Let_def mem_Cat by blast
qed

lemma dotted_words:
  assumes "\<forall>u \<in> set (w # ws). u \<in> lang token_word" and "length (dotted w ws) \<le> ASSET_IDENTIFIER_MAX_LENGTH"
  shows "isDottedToken (dotted w ws)"
proof -
  have "concat (map (\<lambda>u. CHR ''.'' # u) ws) \<in> lang (Star (Cat (Lit ''.'') token_word))"
    using assms(1) by (intro star_of_words) (auto simp: mem_Cat_Lit)
  then have "dotted w ws \<in> lang DOTTED_TOKEN_PATTERN" using assms(1) unfolding DOTTED_TOKEN_PATTERN_def mem_Cat dotted_def by auto
  then show ?thesis using assms(2) by (simp add: isDottedToken_def rx_test_lang)
qed

lemma dotted_token:
  assumes "list_all (\<lambda>u. u \<noteq> [] \<and> list_all lower_alpha u) (w # ws)" and "length (dotted w ws) \<le> ASSET_IDENTIFIER_MAX_LENGTH"
  shows "isDottedToken (dotted w ws)"
  using assms(1) hyphen_word [of _ "[]"] by (intro dotted_words assms(2)) (auto simp: list_all_iff)

definition REASON_WORDS :: "(string \<times> string list) list" where
  "REASON_WORDS =
   [(''material'', [''missing'']), (''condition'', [''unresolved'']), (''material'', [''present'']),
    (''count'', [''not'', ''constrained'']), (''material'', [''count'', ''insufficient'']), (''count'', [''satisfied'']),
    (''identity'', [''strategy'', ''unsatisfied'']), (''identity'', [''registry'', ''mismatch'']),
    (''identity'', [''not'', ''constrained'']), (''identity'', [''strategy'', ''satisfied'']),
    (''freshness'', [''observation'', ''missing'']), (''dependency'', [''unavailable'']),
    (''freshness'', [''observed'', ''in'', ''future'']), (''freshness'', [''exceeded'']),
    (''freshness'', [''not'', ''constrained'']), (''freshness'', [''satisfied'']), (''freshness'', [''no'', ''material'']),
    (''declaration'', [''none'']), (''claim'', [''resolver'', ''unavailable'']), (''claim'', [''unresolved'']),
    (''claim'', [''type'', ''mismatch'']), (''claim'', [''type'', ''consistent'']), (''declaration'', [''competing'']),
    (''declaration'', [''uncontested'']), (''content'', [''identity'', ''absent'']),
    (''content'', [''resolver'', ''unavailable'']), (''content'', [''unavailable'']), (''digest'', [''matches'']),
    (''digest'', [''algorithm'', ''unsupported'']), (''digest'', [''mismatch''])]"

lemma reason_words: "list_all isDottedToken (map (\<lambda>(w, ws). dotted w ws) REASON_WORDS)"
proof -
  have "list_all (\<lambda>(w, ws). list_all (\<lambda>u. u \<noteq> [] \<and> list_all lower_alpha u) (w # ws) \<and> length (dotted w ws) \<le> ASSET_IDENTIFIER_MAX_LENGTH) REASON_WORDS"
    by code_simp
  then show ?thesis unfolding list_all_iff by (auto intro!: dotted_token simp: list_all_iff)
qed

lemma reason_codes:
  "isDottedToken ''material.missing''" "isDottedToken ''condition.unresolved''" "isDottedToken ''material.present''"
  "isDottedToken ''count.not.constrained''" "isDottedToken ''material.count.insufficient''" "isDottedToken ''count.satisfied''"
  "isDottedToken ''identity.strategy.unsatisfied''" "isDottedToken ''identity.registry.mismatch''" "isDottedToken ''identity.not.constrained''"
  "isDottedToken ''identity.strategy.satisfied''" "isDottedToken ''freshness.observation.missing''" "isDottedToken ''dependency.unavailable''"
  "isDottedToken ''freshness.observed.in.future''" "isDottedToken ''freshness.exceeded''" "isDottedToken ''freshness.not.constrained''"
  "isDottedToken ''freshness.satisfied''" "isDottedToken ''freshness.no.material''" "isDottedToken ''declaration.none''"
  "isDottedToken ''claim.resolver.unavailable''" "isDottedToken ''claim.unresolved''" "isDottedToken ''claim.type.mismatch''"
  "isDottedToken ''claim.type.consistent''" "isDottedToken ''declaration.competing''" "isDottedToken ''declaration.uncontested''"
  "isDottedToken ''content.identity.absent''" "isDottedToken ''content.resolver.unavailable''" "isDottedToken ''content.unavailable''"
  "isDottedToken ''digest.matches''" "isDottedToken ''digest.algorithm.unsupported''" "isDottedToken ''digest.mismatch''"
  using reason_words by (simp_all add: REASON_WORDS_def dotted_def)

text \<open>A case is modest when its profile and materials, and the declarations supplied, are few enough to be referred to by one result.\<close>

definition modest :: "protocolization_case \<Rightarrow> asset_profile \<Rightarrow> verification_inputs \<Rightarrow> bool" where
  "modest c profile inputs \<longleftrightarrow> length (ap_requirements profile) + length (kc_materials c) \<le> INPUT_REFS_MAX_LENGTH \<and>
     length (declarations_of inputs) \<le> INPUT_REFS_MAX_LENGTH"

definition inputs_valid :: "platform \<Rightarrow> verification_inputs \<Rightarrow> bool" where
  "inputs_valid P inputs \<longleftrightarrow> (\<forall>r \<in> set (receipts_of inputs). receipt_ok P r) \<and> (\<forall>r \<in> set (declarations_of inputs). record_ok P r)"

lemma requirement_refs_ok:
  "length ids \<le> INPUT_REFS_MAX_LENGTH \<Longrightarrow> \<forall>i \<in> set ids. isValidAssetRequirementId i \<Longrightarrow> refs_ok (requirementRefs ids)"
  by (auto simp: refs_ok_def requirementRefs_def isVerificationInputKind_def VERIFICATION_INPUT_KINDS_def isValidAssetRequirementId_def token_record_id)

lemma count_short: "n \<le> INPUT_REFS_MAX_LENGTH \<Longrightarrow> length (show_nat n) \<le> 257"
  using show_nat_short [of n] by (simp add: INPUT_REFS_MAX_LENGTH_def)

lemma sentence: "CHR ''.'' \<in> set summary \<Longrightarrow> \<exists>c \<in> set summary. \<not> js_space c"
  by (rule bexI [of _ "CHR ''.''"]) (simp_all add: js_space_def)

lemma material_present_admitted:
  assumes "case_ok P c" and "projects c profile" and "isValidAssetProfile P profile" and "modest c profile inputs"
  shows "execution_ok (run_material_present (view ctx c profile requirement k inputs))"
proof -
  have ids: "\<forall>i \<in> set (map rq_id (lacking obligation c profile)). isValidAssetRequirementId i" for obligation
    using valid_profile_checks [OF assms(3)] by (auto simp: lacking_def)
  have len: "length (lacking obligation c profile) \<le> INPUT_REFS_MAX_LENGTH" for obligation
    using assms(4) length_filter_le [of _ "ap_requirements profile"] unfolding lacking_def modest_def by (meson add_leD1 le_trans)
  have refs: "refs_ok (requirementRefs (map rq_id (lacking obligation c profile)))" for obligation
    using requirement_refs_ok [OF _ ids] len by simp
  show ?thesis unfolding material_present_finds [OF assms(1,2)]
    using refs count_short [OF len [of "''Required''"]] count_short [OF len [of "''Conditional''"]]
    by (auto intro!: observation_ok sentence simp: VERIFICATION_CHECK_OUTCOMES_def reason_codes SUMMARY_MAX_LENGTH_def)
qed

lemmas report_simps = VERIFICATION_CHECK_OUTCOMES_def reason_codes SUMMARY_MAX_LENGTH_def

lemma profile_refs_ok:
  assumes "isValidAssetProfile P profile" and "modest c profile inputs" and "set rs \<subseteq> set (ap_requirements profile)"
    and "length rs \<le> length (ap_requirements profile)"
  shows "refs_ok (requirementRefs (map rq_id rs)) \<and> length (show_nat (length rs)) \<le> 257"
proof -
  have "length rs \<le> INPUT_REFS_MAX_LENGTH" using assms(2,4) by (simp add: modest_def)
  moreover have "\<forall>i \<in> set (map rq_id rs). isValidAssetRequirementId i" using assms(3) valid_profile_checks [OF assms(1)] by auto
  ultimately show ?thesis using requirement_refs_ok [of "map rq_id rs"] count_short by simp
qed

lemma minimum_count_admitted:
  assumes "isValidAssetProfile P profile" and "modest c profile inputs"
  shows "execution_ok (run_minimum_count (view ctx c profile requirement k inputs))"
proof -
  have "refs_ok (requirementRefs (map rq_id (filter p (ap_requirements profile)))) \<and> length (show_nat (length (filter p (ap_requirements profile)))) \<le> 257"
    for p by (rule profile_refs_ok [OF assms]) auto
  note one = this
  have two: "refs_ok (requirementRefs (map rq_id (filter q (filter p (ap_requirements profile))))) \<and>
      length (show_nat (length (filter q (filter p (ap_requirements profile))))) \<le> 257" for p q
    by (rule profile_refs_ok [OF assms]) (auto intro: le_trans [OF length_filter_le])
  define constrained where "constrained = filter (\<lambda>r. rq_obligation r = ''Required'' \<and> minimumCount r \<noteq> None \<and> COUNTED_MATERIAL_KIND (rq_kind r) \<noteq> None)
      (ap_requirements profile)"
  define short where "short = filter (\<lambda>r. int (length (materialsFor (kc_materials c) (rq_id r) (the (COUNTED_MATERIAL_KIND (rq_kind r)))))
      < the (minimumCount r)) constrained"
  have "refs_ok (requirementRefs (map rq_id constrained))" "refs_ok (requirementRefs (map rq_id short))" "length (show_nat (length short)) \<le> 257"
    using one two unfolding constrained_def short_def by blast+
  then show ?thesis unfolding run_minimum_count_def Let_def view_simps constrained_def [symmetric] short_def [symmetric]
    by (auto intro!: observation_ok sentence simp: report_simps)
qed

lemma token_length: "isValidAssetRequirementId i \<Longrightarrow> length i \<le> 128"
  by (simp add: isValidAssetRequirementId_def isDottedToken_def ASSET_IDENTIFIER_MAX_LENGTH_def)

lemma nonconforming_refs:
  assumes "case_ok P c"
  shows "\<forall>m \<in> set (nonconforming (view ctx c profile requirement k inputs) r constraint). isCanonicalRecordId (mt_materialId m)"
    and "length (nonconforming (view ctx c profile requirement k inputs) r constraint) \<le> length (kc_materials c)"
proof -
  have "isCanonicalRecordId (mt_materialId m)" if "m \<in> set (kc_materials c)" for m
    using that case_okD(3) [OF assms] instance_record_id
    by (auto simp: materials_ok_def isValidProtocolizationCaseMaterial_def isValidProtocolizationMaterialId_def)
  then show "\<forall>m \<in> set (nonconforming (view ctx c profile requirement k inputs) r constraint). isCanonicalRecordId (mt_materialId m)"
    by (auto simp: nonconforming_def materialsFor_def)
  show "length (nonconforming (view ctx c profile requirement k inputs) r constraint) \<le> length (kc_materials c)"
    unfolding nonconforming_def materialsFor_def view_simps by (rule le_trans [OF length_filter_le length_filter_le])
qed

definition unsatisfied_identity :: "asset_requirement \<Rightarrow> check_execution" where
  "unsatisfied_identity r = observation ''Fail'' ''identity.strategy.unsatisfied''
     (''Requirement '' @ rq_id r @ '' is not evidenced by the strategies it accepts.'') (Some (requirementRefs [rq_id r]))"

definition mismatched_registry :: "check_context \<Rightarrow> asset_requirement \<Rightarrow> registry_constraint \<Rightarrow> check_execution" where
  "mismatched_registry ctx r constraint = observation ''Fail'' ''identity.registry.mismatch''
     (''Requirement '' @ rq_id r @ '' holds a registry entry outside the registry constraint it declares.'')
     (Some (requirementRefs [rq_id r] @ map (\<lambda>material. \<lparr>nr_kind = ''Material'', nr_ref = mt_materialId material\<rparr>) (nonconforming ctx r constraint)))"

lemma identity_observed:
  assumes "x \<in> set (identity_observations ctx r)"
  shows "x = unsatisfied_identity r \<or> (\<exists>constraint. x = mismatched_registry ctx r constraint)"
  using assms
  unfolding identity_observations_def Let_def unsatisfied_identity_def [symmetric] mismatched_registry_def [symmetric]
  by (cases "rq_terms r") (auto split: option.splits if_splits)

lemma identity_admitted:
  assumes "case_ok P c" and "isValidAssetProfile P profile" and "modest c profile inputs"
  shows "execution_ok (run_identity_strategy (view ctx c profile requirement k inputs))"
proof -
  let ?v = "view ctx c profile requirement k inputs"
  have observed: "execution_ok x" if "r \<in> set (ap_requirements profile)" "x \<in> set (identity_observations ?v r)" for r x
  proof -
    have id: "isValidAssetRequirementId (rq_id r)" using valid_profile_checks [OF assms(2) that(1)] by blast
    have "length (ap_requirements profile) \<ge> 1" using that(1) by (cases "ap_requirements profile") auto
    then have len: "Suc (length (nonconforming ?v r constraint)) \<le> INPUT_REFS_MAX_LENGTH" for constraint
      using assms(3) nonconforming_refs(2) [OF assms(1), of ctx profile requirement k inputs r constraint] by (simp add: modest_def)
    have own: "refs_ok (requirementRefs [rq_id r])"
      by (rule requirement_refs_ok) (simp_all add: id INPUT_REFS_MAX_LENGTH_def)
    have "refs_ok (requirementRefs [rq_id r] @ map (\<lambda>m. \<lparr>nr_kind = ''Material'', nr_ref = mt_materialId m\<rparr>) (nonconforming ?v r constraint))"
      for constraint using own len [of constraint] nonconforming_refs(1) [OF assms(1), of ctx profile requirement k inputs r constraint]
      by (auto simp: refs_ok_def requirementRefs_def isVerificationInputKind_def VERIFICATION_INPUT_KINDS_def)
    then have made: "execution_ok (unsatisfied_identity r)" "execution_ok (mismatched_registry ?v r constraint)" for constraint
      unfolding unsatisfied_identity_def mismatched_registry_def using own token_length [OF id]
      by (auto simp: report_simps intro!: observation_ok sentence)
    then show ?thesis using identity_observed [OF that(2)] by auto
  qed
  have "refs_ok (requirementRefs (map rq_id (filter p (ap_requirements profile))))" for p
    using profile_refs_ok [OF assms(2,3), of "filter p (ap_requirements profile)"] by auto
  then show ?thesis using observed
    by (auto simp: run_identity_strategy_def Let_def report_simps intro!: strongest_ok observation_ok sentence)
qed

text \<open>What a check of freshness can report of a requirement.\<close>

definition missing_observation :: "asset_requirement \<Rightarrow> input_ref list \<Rightarrow> check_execution" where
  "missing_observation r refs = observation ''Unavailable'' ''freshness.observation.missing''
     (''No observation instant is available for the evidence answering '' @ rq_id r @ ''.'') (Some refs)"

definition unknown_expiry :: "asset_requirement \<Rightarrow> input_ref list \<Rightarrow> check_execution" where
  "unknown_expiry r refs = observation ''Unavailable'' ''dependency.unavailable'' (''Expiry for the evidence answering '' @ rq_id r @
     '' is carried by a Protocol record this check cannot resolve.'') (Some refs)"

definition future_observation :: "asset_requirement \<Rightarrow> input_ref list \<Rightarrow> check_execution" where
  "future_observation r refs = observation ''Warning'' ''freshness.observed.in.future''
     (''The evidence answering '' @ rq_id r @ '' records an observation later than the execution instant.'') (Some refs)"

definition stale_observation :: "asset_requirement \<Rightarrow> input_ref list \<Rightarrow> check_execution" where
  "stale_observation r refs = observation ''Fail'' ''freshness.exceeded''
     (''The evidence answering '' @ rq_id r @ '' was observed longer ago than the pinned profile permits.'') (Some refs)"

definition early_observation :: "asset_requirement \<Rightarrow> input_ref list \<Rightarrow> check_execution" where
  "early_observation r refs = observation ''Fail'' ''freshness.exceeded''
     (''The evidence answering '' @ rq_id r @ '' was observed before the instant the pinned profile requires.'') (Some refs)"

lemmas freshness_reports = missing_observation_def unknown_expiry_def future_observation_def stale_observation_def early_observation_def

definition evidence_input_refs :: "asset_requirement \<Rightarrow> string \<Rightarrow> input_ref list" where
  "evidence_input_refs r evidenceRef = requirementRefs [rq_id r] @ [\<lparr>nr_kind = ''EvidenceRecord'', nr_ref = evidenceRef\<rparr>]"

lemma branches_mem:
  "x \<in> set (fst (if A then (e @ [a], True) else if B then (e @ [b], True) else if C then (e @ [c], True) else (e, True))) \<Longrightarrow>
   x \<in> set e \<or> x = a \<or> x = b \<or> x = c"
  by (auto split: if_splits)

lemma freshness_observed:
  assumes "x \<in> set (fst (freshness_of P ctx r constraint material evidenceRef))"
  shows "\<exists>refs. (refs = evidence_input_refs r evidenceRef \<or>
      (\<exists>q \<in> set (vc_evidenceReceipts ctx). refs = evidence_input_refs r evidenceRef @ [\<lparr>nr_kind = ''IntakeReceipt'', nr_ref = rc_intakeId q\<rparr>])) \<and>
    x \<in> {missing_observation r refs, unknown_expiry r refs, future_observation r refs, stale_observation r refs, early_observation r refs}"
proof (cases "find (\<lambda>candidate. rc_materialId candidate = mt_materialId material \<or> rc_evidenceRef candidate = evidenceRef) (vc_evidenceReceipts ctx)")
  case None
  then show ?thesis using assms unfolding freshness_of_def Let_def freshness_reports [symmetric] evidence_input_refs_def [symmetric] by auto
next
  case (Some q)
  note q = conjunct1 [OF find_holds [OF Some]]
  show ?thesis
  proof (cases "rc_observedAt q")
    case None
    then show ?thesis
      using Some assms unfolding freshness_of_def Let_def freshness_reports [symmetric] evidence_input_refs_def [symmetric] by auto
  next
    case at: (Some t)
    let ?refs = "evidence_input_refs r evidenceRef @ [\<lparr>nr_kind = ''IntakeReceipt'', nr_ref = rc_intakeId q\<rparr>]"
    have "x \<in> set (if fr_mustNotBeExpired constraint = Some True then [unknown_expiry r ?refs] else []) \<or>
        x = future_observation r ?refs \<or> x = stale_observation r ?refs \<or> x = early_observation r ?refs"
      using assms unfolding freshness_of_def Let_def freshness_reports [symmetric] evidence_input_refs_def [symmetric] Some option.case at
      by (rule branches_mem)
    then show ?thesis using q by (intro exI [of _ ?refs]) (auto split: if_splits)
  qed
qed

lemma claim_type_admitted:
  assumes "modest c profile inputs" and "inputs_valid P inputs"
  shows "execution_ok (run_claim_type (view ctx c profile requirement k inputs))"
proof -
  have ids: "isCanonicalRecordId (dr_declarationId r) \<and> isCanonicalRecordId (dr_claimRef r)" if "r \<in> set (declarations_of inputs)" for r
    using that assms(2) instance_record_id
    by (auto simp: inputs_valid_def record_ok_def declaration_terms_ok_def isValidDeclarationId_def)
  have "execution_ok x" if "r \<in> set (declarations_of inputs)" "x \<in> set (claim_type_observations resolveClaim r)" for r x resolveClaim
  proof -
    have "refs_ok [\<lparr>nr_kind = ''DeclarationRecord'', nr_ref = dr_declarationId r\<rparr>, \<lparr>nr_kind = ''ClaimRecord'', nr_ref = dr_claimRef r\<rparr>]"
      using ids [OF that(1)] by (simp add: refs_ok_def isVerificationInputKind_def VERIFICATION_INPUT_KINDS_def INPUT_REFS_MAX_LENGTH_def)
    then show ?thesis using that(2)
      by (auto simp: claim_type_observations_def Let_def report_simps intro!: observation_ok sentence split: if_splits)
  qed
  moreover have "refs_ok (map (\<lambda>r. \<lparr>nr_kind = ''DeclarationRecord'', nr_ref = dr_declarationId r\<rparr>) (declarations_of inputs))"
    using ids assms(1) by (auto simp: refs_ok_def isVerificationInputKind_def VERIFICATION_INPUT_KINDS_def modest_def)
  ultimately show ?thesis
    by (auto simp: run_claim_type_def report_simps intro!: strongest_ok observation_ok sentence split: option.splits)
qed

lemma freshness_admitted:
  assumes "case_ok P c" and "isValidAssetProfile P profile" and "inputs_valid P inputs"
  shows "execution_ok (run_evidence_freshness P (view ctx c profile requirement k inputs))"
proof -
  let ?v = "view ctx c profile requirement k inputs"
  have observed: "execution_ok x" if r: "r \<in> set (ap_requirements profile)" and m: "m \<in> set (kc_materials c)" "mt_payload m = EvidencePayload e"
    and x: "x \<in> set (fst (freshness_of P ?v r constraint m e))" for r m e constraint x
  proof -
    have id: "isValidAssetRequirementId (rq_id r)" using valid_profile_checks [OF assms(2) r] by blast
    then have r_ref: "isCanonicalRecordId (rq_id r)" using token_record_id by (simp add: isValidAssetRequirementId_def)
    have "isValidProtocolizationCaseMaterial P m" using m(1) case_okD(3) [OF assms(1)] by (simp add: materials_ok_def)
    then have e_ref: "isCanonicalRecordId e" using m(2) by (simp add: isValidProtocolizationCaseMaterial_def)
    have q_ref: "isCanonicalRecordId (rc_intakeId q)" if "q \<in> set (receipts_of inputs)" for q
      using that assms(3) instance_record_id by (auto simp: inputs_valid_def receipt_ok_def intake_terms_ok_def isValidEvidenceIntakeId_def)
    obtain refs where refs: "refs = evidence_input_refs r e \<or> (\<exists>q \<in> set (receipts_of inputs). refs = evidence_input_refs r e @ [\<lparr>nr_kind = ''IntakeReceipt'', nr_ref = rc_intakeId q\<rparr>])"
      "x \<in> {missing_observation r refs, unknown_expiry r refs, future_observation r refs, stale_observation r refs, early_observation r refs}"
      using freshness_observed [OF x] by auto
    have "refs_ok refs" using refs(1) r_ref e_ref q_ref
      by (auto simp: evidence_input_refs_def requirementRefs_def refs_ok_def isVerificationInputKind_def VERIFICATION_INPUT_KINDS_def INPUT_REFS_MAX_LENGTH_def)
    then have "execution_ok (missing_observation r refs)" "execution_ok (unknown_expiry r refs)" "execution_ok (future_observation r refs)"
      "execution_ok (stale_observation r refs)" "execution_ok (early_observation r refs)"
      unfolding freshness_reports using token_length [OF id] by (auto simp: report_simps intro!: observation_ok sentence)
    then show ?thesis using refs(2) by auto
  qed
  have each: "\<forall>f \<in> set (freshness_findings P ?v r). \<forall>x \<in> set (fst f). execution_ok x" if "r \<in> set (ap_requirements profile)" for r
    unfolding freshness_findings_all view_simps using observed [OF that] by blast
  have report: "execution_ok (strongest (concat (map fst (concat (map (freshness_findings P ?v) (filter p (ap_requirements profile)))))) fallback)"
    if "execution_ok fallback" for p fallback using that each by (intro strongest_ok) auto
  show ?thesis unfolding run_evidence_freshness_def Let_def view_simps
    by (auto simp: report_simps intro!: report observation_ok sentence)
qed

lemma competing_admitted:
  assumes "isValidAssetProfile P profile" and "modest c profile inputs"
  shows "execution_ok (run_competing (view ctx c profile requirement k inputs))"
proof -
  define ids where "ids = set (map rq_id (filter (\<lambda>r. rq_kind r = ''Declaration'') (ap_requirements profile)))"
  define held where "held = declarantsByRequirement ids (declarations_of inputs)"
  define competing where "competing = map fst (filter (\<lambda>entry. card (snd entry) > 1) held)"
  have "distinct (map fst held)" unfolding held_def using declarants_held by blast
  then have distinct: "distinct competing" unfolding competing_def by (rule distinct_map_filter)
  have "i \<in> ids" if "(i, s) \<in> set held" for i s
    using declarants_held [of ids "declarations_of inputs" i] map_of_is_SomeI [OF _ that] unfolding held_def by (metis option.discI)
  then have sub: "set competing \<subseteq> ids" unfolding competing_def by auto
  have "length competing = card (set competing)" using distinct by (simp add: distinct_card)
  also have "\<dots> \<le> card ids" using sub by (intro card_mono) (simp_all add: ids_def)
  also have "\<dots> \<le> length (ap_requirements profile)"
    unfolding ids_def by (metis (lifting) card_length le_trans length_filter_le length_map)
  finally have len: "length competing \<le> INPUT_REFS_MAX_LENGTH" using assms(2) by (simp add: modest_def)
  have "\<forall>i \<in> set competing. isValidAssetRequirementId i" using sub valid_profile_checks [OF assms(1)] by (auto simp: ids_def)
  then have "refs_ok (requirementRefs competing)" "length (show_nat (length competing)) \<le> 257"
    using len requirement_refs_ok count_short by auto
  then show ?thesis unfolding run_competing_def Let_def view_simps ids_def [symmetric] held_def [symmetric] competing_def [symmetric]
    by (auto simp: report_simps intro!: observation_ok sentence)
qed

lemma digest_admitted:
  assumes "case_ok P c"
  shows "execution_ok (run_content_digest P (view ctx c profile requirement k inputs))"
proof -
  let ?refs = "[\<lparr>nr_kind = ''Subject'', nr_ref = sr_sovereignAssetId (cs_subjectRef (kc_subject c))\<rparr>]"
  have "isCanonicalRecordId (sr_sovereignAssetId (cs_subjectRef (kc_subject c)))"
    using assms sovereign_record_id by (simp add: case_ok_def header_ok_def isValidProtocolizationCaseSubject_def isValidSovereignSubjectRef_def)
  then have "refs_ok ?refs" by (simp add: refs_ok_def isVerificationInputKind_def VERIFICATION_INPUT_KINDS_def INPUT_REFS_MAX_LENGTH_def)
  then have made: "execution_ok (observation outcome reasonCode summary (Some ?refs))"
    if "outcome \<in> set VERIFICATION_CHECK_OUTCOMES" "isDottedToken reasonCode" "CHR ''.'' \<in> set summary" "length summary \<le> SUMMARY_MAX_LENGTH"
    for outcome reasonCode summary using that by (intro observation_ok sentence) auto
  show ?thesis unfolding run_content_digest_def Let_def view_simps
    by (auto split: option.splits simp: report_simps intro!: made)
qed

section \<open>Runs of the built-in checks\<close>

definition built_in_ids :: "string list" where
  "built_in_ids = [''check.material.present'', ''check.material.minimum-count'', ''check.identity.strategy'', ''check.evidence.freshness'',
     ''check.declaration.claim-type'', ''check.declaration.competing'', ''check.content.digest'']"

lemma built_in_names: "map ck_checkId (BUILT_IN_VERIFICATION_CHECKS P) = built_in_ids"
  by (simp add: BUILT_IN_VERIFICATION_CHECKS_def built_in_def built_in_ids_def)

lemma register_checks_iff: "register_checks checks entries = Inr entries' \<longleftrightarrow>
    entries' = entries @ map (\<lambda>check. (ck_checkId check, check)) checks \<and>
    distinct (map ck_checkId checks) \<and> set (map ck_checkId checks) \<inter> set (map fst entries) = {} \<and>
    (\<forall>check \<in> set checks. isValidAssetVerificationCheckId (ck_checkId check))"
proof (induction checks arbitrary: entries)
  case (Cons check checks)
  have none: "map_of entries (ck_checkId check) = None \<longleftrightarrow> ck_checkId check \<notin> set (map fst entries)" by (simp add: map_of_eq_None_iff)
  have "register_checks (check # checks) entries = Inr entries' \<longleftrightarrow> isValidAssetVerificationCheckId (ck_checkId check) \<and>
      map_of entries (ck_checkId check) = None \<and> register_checks checks (entries @ [(ck_checkId check, check)]) = Inr entries'"
    using map_set_new [of entries "ck_checkId check" check]
    by (auto simp: bind_result_Inr register_check_def after_Inr first_throw_None fail_if_None)
  then show ?case unfolding Cons.IH none by auto
qed auto

lemma registered_check:
  assumes "createVerificationCheckRegistry checks = Inr entries" and "check \<in> set checks"
  shows "get_check entries (ck_checkId check) = Some check"
proof -
  note reg = assms(1) [unfolded createVerificationCheckRegistry_def register_checks_iff]
  then have "distinct (map fst entries)" "(ck_checkId check, check) \<in> set entries" using assms(2) by (auto simp: comp_def)
  then show ?thesis by (simp add: get_check_def)
qed

lemma built_in_admitted:
  assumes "case_ok P c" and "projects c profile" and "isValidAssetProfile P profile" and "modest c profile inputs" and "inputs_valid P inputs"
    and "check \<in> set (BUILT_IN_VERIFICATION_CHECKS P)"
  shows "\<exists>x. ck_execute check (view ctx c profile requirement k inputs) = Inr x \<and> execution_ok x"
  using assms(6) material_present_admitted [OF assms(1-4)] minimum_count_admitted [OF assms(3,4)] identity_admitted [OF assms(1,3,4)]
    freshness_admitted [OF assms(1,3,5)] claim_type_admitted [OF assms(4,5)] competing_admitted [OF assms(3,4)] digest_admitted [OF assms(1)]
  by (auto simp: BUILT_IN_VERIFICATION_CHECKS_def built_in_def)

text \<open>Every check that the profile declares is built in.\<close>

definition only_built_in :: "asset_profile \<Rightarrow> bool" where
  "only_built_in profile \<longleftrightarrow> (\<forall>r \<in> set (ap_requirements profile). set (declared_checks r) \<subseteq> set built_in_ids)"

lemma built_ins_answer:
  assumes "createVerificationCheckRegistry (BUILT_IN_VERIFICATION_CHECKS P) = Inr (vn_checks ctx)" and "only_built_in profile"
    and "case_ok P c" and "projects c profile" and "isValidAssetProfile P profile" and "modest c profile inputs" and "inputs_valid P inputs"
  shows "all_answer ctx c profile inputs"
  unfolding all_answer_def
proof (intro ballI allI)
  fix r k t assume "r \<in> set (ap_requirements profile)" and "k \<in> set (declared_checks r)"
  then have "k \<in> set (map ck_checkId (BUILT_IN_VERIFICATION_CHECKS P))" using assms(2) unfolding built_in_names only_built_in_def by blast
  then obtain check where check: "check \<in> set (BUILT_IN_VERIFICATION_CHECKS P)" "k = ck_checkId check" by auto
  from built_in_admitted [OF assms(3-7) check(1), of "reading ctx t" r k]
  show "\<exists>x. answers (reading ctx t) c profile r k inputs x \<and> execution_ok x"
    using registered_check [OF assms(1) check(1)] check(2) by (auto simp: answers_def)
qed

lemma built_in_run:
  assumes "createVerificationCheckRegistry (BUILT_IN_VERIFICATION_CHECKS P) = Inr (vn_checks ctx)" and "only_built_in profile"
    and "may_verify P ctx c" and "resolves_to ctx c profile" and "kc_profile c = ref_of profile" and "projects c profile"
    and "isValidAssetProfile P profile" and "modest c profile (ri_inputs inp)" and "inputs_valid P (ri_inputs inp)"
    and "inputs_owned ctx c (ri_inputs inp)" and "run_ids_ok inp (planned (ap_requirements profile))"
    and "\<forall>i \<in> set (ri_executionIds inp). isValidVerificationExecutionId i" and "optional_ok isCanonicalRecordId (ri_correlationId inp)"
    and "\<forall>k. clock_ok P (vn_case (reading ctx (clock k))) c"
  shows "\<exists>u. runProtocolizationVerification P clock ctx c inp = Inr u"
proof -
  have "case_ok P c" using assms(3) by (simp add: may_verify_def)
  from built_ins_answer [OF assms(1,2) this assms(6-9)] show ?thesis
    using run_returns [OF assms(3,4,5,7,11,12,13,10,14)] by blast
qed

text \<open>A run that returns found every check that the profile declares.\<close>

lemma run_needs_checks:
  assumes "createVerificationCheckRegistry (BUILT_IN_VERIFICATION_CHECKS P) = Inr (vn_checks ctx)"
    and "runProtocolizationVerification P clock ctx c inp = Inr u" and "resolves_to ctx c profile"
  shows "only_built_in profile"
  unfolding only_built_in_def
proof (intro ballI subsetI)
  fix r k assume r: "r \<in> set (ap_requirements profile)" and k: "k \<in> set (declared_checks r)"
  obtain ts where ts: "run_ids_ok inp (planned (ap_requirements profile))"
    "run_loop P clock ctx c inp 0 (planned (ap_requirements profile)) = Inr ts"
    using assms(2) resolves_unique [OF assms(3)] unfolding runs_iff by blast
  have "rq_kind r = ''Verification''" using k by (cases "rq_terms r") (auto simp: declared_checks_def rq_kind_def)
  then have "(rq_id r, k) \<in> set (planned (ap_requirements profile))" using r k by (auto simp: planned_def)
  moreover have "map (\<lambda>t. (vr_requirementId (vt_result t), vr_checkId (vt_result t))) ts = planned (ap_requirements profile)"
    using run_results(2) [OF ts(2)] ts(1) by (simp add: run_ids_ok_def)
  ultimately have "(rq_id r, k) \<in> set (map (\<lambda>t. (vr_requirementId (vt_result t), vr_checkId (vt_result t))) ts)" by simp
  then obtain t where t: "t \<in> set ts" "vr_checkId (vt_result t) = k" by auto
  then obtain n i where n: "executeProtocolizationVerificationCheck P (reading ctx (clock n)) c i = Inr t"
    using run_results(5) [OF ts(2)] ts(1) unfolding run_ids_ok_def by blast
  then have "get_check (vn_checks ctx) (xi_checkId i) \<noteq> None"
    unfolding executes_iff executable_def answers_def by (auto simp: reading_def)
  then have "k \<in> set (map fst (vn_checks ctx))"
    using sealed_fields(2) [OF n] t(2) by (auto simp: get_check_def map_of_eq_None_iff)
  moreover have "map fst (vn_checks ctx) = built_in_ids"
    using assms(1) built_in_names [of P] by (simp add: createVerificationCheckRegistry_def register_checks_iff comp_def)
  ultimately show "k \<in> set built_in_ids" by simp
qed

lemma executed_check:
  assumes "executeProtocolizationVerificationCheck P ctx c inp = Inr tr" and "get_check (vn_checks ctx) (xi_checkId inp) = Some (built_in i f)"
  shows "\<exists>profile requirement. pinned (vn_case ctx) (kc_profile c) = Some profile \<and> case_ok P c \<and>
    vr_outcome (vt_result tr) = vx_outcome (f (view ctx c profile requirement (xi_checkId inp) (xi_inputs inp)))"
  using assms by (fastforce simp: executes_iff executable_def answers_def built_in_def issued_result_def result_of_def may_verify_def resolves_to_def)

text \<open>C23: A run that returns has executed every check that a verification requirement of the pinned profile declares, once and in the
  order of the profile, under the identifiers it was given, which are distinct; every result is valid, of the case at its revision and under
  its profile, and not earlier than the case's last change; every event mirrors its result; and when the clock stands still during the
  run, the results and the run all carry its instant.\<close>

theorem run_covers_the_plan:
  assumes "runProtocolizationVerification P clock ctx c inp = Inr u"
  shows "\<exists>profile. pinned (vn_case ctx) (kc_profile c) = Some profile \<and>
    map (\<lambda>r. (vr_requirementId r, vr_checkId r)) (vu_results u) = planned (ap_requirements profile) \<and>
    map vr_executionId (vu_results u) = ri_executionIds inp \<and> distinct (ri_executionIds inp) \<and>
    (\<forall>r \<in> set (vu_results u). isValidProtocolizationVerificationResult P r \<and> vr_tenantId r = kc_tenantId c \<and> vr_caseId r = kc_caseId c \<and>
      vr_profile r = kc_profile c \<and> vr_evaluatedCaseRevision r = kc_revision c \<and> isNotBefore P (vr_executedAt r) (kc_updatedAt c)) \<and>
    vu_events u = map executed_event_of (vu_results u) \<and> vu_evaluatedCaseRevision u = kc_revision c \<and>
    (\<forall>t. (\<forall>k. clock k = t) \<longrightarrow> vu_executedAt u = t \<and> (\<forall>r \<in> set (vu_results u). vr_executedAt r = t))"
proof -
  obtain profile ts where ts: "resolves_to ctx c profile" "run_ids_ok inp (planned (ap_requirements profile))"
    "run_loop P clock ctx c inp 0 (planned (ap_requirements profile)) = Inr ts"
    "vu_results u = map vt_result ts" "vu_events u = map vt_event ts" "vu_evaluatedCaseRevision u = kc_revision c"
    "vu_executedAt u = (case ts of [] \<Rightarrow> clock 0 | t # ts' \<Rightarrow> vr_executedAt (vt_result t))" using assms unfolding runs_iff by fastforce
  note run = run_results [OF ts(3)]
  have executed: "isNotBefore P (vr_executedAt (vt_result t)) (kc_updatedAt c) \<and> vr_executedAt (vt_result t) \<in> range clock"
    if t: "t \<in> set ts" for t
  proof -
    obtain k i where k: "executeProtocolizationVerificationCheck P (reading ctx (clock k)) c i = Inr t"
      using run(5) ts(2) t unfolding run_ids_ok_def by blast
    then have "clock_ok P (vn_case (reading ctx (clock k))) c" unfolding executes_iff executable_def by blast
    then show ?thesis using sealed_fields(4) [OF k] by (simp add: clock_ok_def reading_def)
  qed
  have all: "isValidProtocolizationVerificationResult P (vt_result t) \<and> vr_tenantId (vt_result t) = kc_tenantId c \<and>
      vr_caseId (vt_result t) = kc_caseId c \<and> vr_profile (vt_result t) = kc_profile c \<and>
      vr_evaluatedCaseRevision (vt_result t) = kc_revision c \<and> vt_event t = executed_event_of (vt_result t)" if "t \<in> set ts" for t
    using run(5) ts(2) that sealed_fields unfolding run_ids_ok_def by metis
  have lists: "map (\<lambda>r. (vr_requirementId r, vr_checkId r)) (map vt_result ts) = planned (ap_requirements profile)"
    "map vr_executionId (map vt_result ts) = ri_executionIds inp"
    using run ts(2) by (simp_all add: comp_def run_ids_ok_def)
  show ?thesis
  proof (intro exI [of _ profile] conjI allI impI)
    show "pinned (vn_case ctx) (kc_profile c) = Some profile" using ts(1) by (simp add: resolves_to_def)
    show "vu_events u = map executed_event_of (vu_results u)" using all by (simp add: ts(4,5))
    show "distinct (ri_executionIds inp)" using ts(2) by (simp add: run_ids_ok_def)
    show "\<forall>r \<in> set (vu_results u). vr_executedAt r = t" if "\<forall>k. clock k = t" for t using executed that by (auto simp: ts(4))
    show "vu_executedAt u = t" if "\<forall>k. clock k = t" for t using executed that by (cases ts) (auto simp: ts(7))
  qed (use lists all executed in \<open>auto simp: ts(4,6)\<close>)
qed

text \<open>A clock that moves during a run gives every result the instant of its own execution.\<close>

lemma run_reads_the_clock_again:
  assumes "runProtocolizationVerification P clock ctx c inp = Inr u"
  shows "map vr_executedAt (vu_results u) = map clock [0..<length (vu_results u)]"
proof -
  obtain profile ts where ts: "resolves_to ctx c profile" "run_ids_ok inp (planned (ap_requirements profile))"
    "run_loop P clock ctx c inp 0 (planned (ap_requirements profile)) = Inr ts" "vu_results u = map vt_result ts"
    using assms unfolding runs_iff by fastforce
  then show ?thesis using run_results(1,4) [OF ts(3)] by (simp add: run_ids_ok_def comp_def)
qed

text \<open>C24: With the built-in checks registered and no others, a run returns exactly when every check that the pinned profile declares is
  built in: no built-in check refuses, no report of one is refused, and a check that is declared but not registered makes the run refuse.
  This holds for a case that is valid, projects the requirements of its profile (as every case that the operations make does), and is modest
  in size, under a valid profile that answers to the reference the case pins, with valid inputs of its own, as many distinct valid
  execution identifiers as the profile plans checks, and a clock that is not behind the case.\<close>

theorem built_in_runs_return:
  assumes "createVerificationCheckRegistry (BUILT_IN_VERIFICATION_CHECKS P) = Inr (vn_checks ctx)"
    and "may_verify P ctx c" and "resolves_to ctx c profile" and "kc_profile c = ref_of profile" and "projects c profile"
    and "isValidAssetProfile P profile" and "modest c profile (ri_inputs inp)" and "inputs_valid P (ri_inputs inp)"
    and "inputs_owned ctx c (ri_inputs inp)" and "run_ids_ok inp (planned (ap_requirements profile))"
    and "\<forall>i \<in> set (ri_executionIds inp). isValidVerificationExecutionId i" and "optional_ok isCanonicalRecordId (ri_correlationId inp)"
    and "\<forall>k. clock_ok P (vn_case (reading ctx (clock k))) c"
  shows "(\<exists>u. runProtocolizationVerification P clock ctx c inp = Inr u) \<longleftrightarrow> only_built_in profile"
  using built_in_run [OF assms(1) _ assms(2-13)] run_needs_checks [OF assms(1) _ assms(3)] by blast

text \<open>C25: The check of the presence of material passes exactly when every requirement of the pinned profile that is required or conditional, and
  is not itself answered by checks, is named by some material of the case.\<close>

theorem material_check_verdict:
  assumes "executeProtocolizationVerificationCheck P ctx c inp = Inr tr"
    and "get_check (vn_checks ctx) (xi_checkId inp) = Some (built_in i run_material_present)"
    and "pinned (vn_case ctx) (kc_profile c) = Some profile" and "projects c profile"
  shows "vr_outcome (vt_result tr) = ''Pass'' \<longleftrightarrow> (\<forall>r \<in> set (ap_requirements profile). rq_kind r \<noteq> ''Verification'' \<and>
    rq_obligation r \<in> {''Required'', ''Conditional''} \<longrightarrow> (\<exists>m \<in> set (kc_materials c). rq_id r \<in> set (mt_requirementIds m)))"
proof -
  obtain requirement where run: "case_ok P c"
    "vr_outcome (vt_result tr) = vx_outcome (run_material_present (view ctx c profile requirement (xi_checkId inp) (xi_inputs inp)))"
    using executed_check [OF assms(1,2)] assms(3) by auto
  then show ?thesis unfolding run(2) material_present_finds [OF run(1) assms(4)]
    by (auto simp: lacking_def filter_empty_conv has_material_def)
qed

text \<open>C26: When the receipts supplied are valid and the pinned profile is, the check of freshness passes exactly when every piece
  of evidence that answers a requirement with a freshness constraint has a receipt that shows it to be fresh: observed at a moment that
  can be read, not after the execution, within the maximum age and not before the moment required, under a constraint that does not ask
  for the expiry.  What the check does with a receipt whose moment cannot be read is the lemma
  \<open>unreadable_observation_is_taken_for_fresh\<close>.\<close>

theorem freshness_check_verdict:
  assumes "executeProtocolizationVerificationCheck P ctx c inp = Inr tr"
    and "get_check (vn_checks ctx) (xi_checkId inp) = Some (built_in i (run_evidence_freshness P))"
    and "pinned (vn_case ctx) (kc_profile c) = Some profile" and "isValidAssetProfile P profile"
    and "\<forall>r \<in> set (receipts_of (xi_inputs inp)). validateEvidenceIntakeReceipt P r = []"
  shows "vr_outcome (vt_result tr) = ''Pass'' \<longleftrightarrow> (\<forall>r \<in> set (ap_requirements profile). \<forall>constraint. evidence_freshness r = Some constraint \<longrightarrow>
    (\<forall>m \<in> set (kc_materials c). \<forall>e. mt_payload m = EvidencePayload e \<and> rq_id r \<in> set (mt_requirementIds m) \<longrightarrow>
      fresh P (receipts_of (xi_inputs inp)) (vr_executedAt (vt_result tr)) constraint m e))"
proof -
  obtain requirement where run:
    "vr_outcome (vt_result tr) = vx_outcome (run_evidence_freshness P (view ctx c profile requirement (xi_checkId inp) (xi_inputs inp)))"
    using executed_check [OF assms(1,2)] assms(3) by auto
  have now: "isValidUtcDateTime P (vr_executedAt (vt_result tr))"
    using assms(1) by (auto simp: executes_iff executable_def clock_ok_def sealed_fields(4) [OF assms(1)])
  have receipts: "\<forall>r \<in> set (receipts_of (xi_inputs inp)). receipt_ok P r" using assms(5) by (simp add: receipt_iff)
  show ?thesis unfolding run freshness_passes view_simps sealed_fields(4) [OF assms(1), symmetric]
    using taken_for_fresh_iff [OF receipts now valid_profile_freshness [OF assms(4)]] by blast
qed

lemma large_case_unverifiable:
  assumes "get_check (vn_checks ctx) (xi_checkId inp) = Some (built_in i run_material_present)"
    and "pinned (vn_case ctx) (kc_profile c) = Some profile" and "projects c profile"
    and "length (lacking ''Required'' c profile) > INPUT_REFS_MAX_LENGTH"
  shows "\<not> (\<exists>tr. executeProtocolizationVerificationCheck P ctx c inp = Inr tr)"
  using assms many_missing_refused [of P c profile ctx]
  by (auto simp: executes_iff executable_def answers_def built_in_def may_verify_def resolves_to_def)

section \<open>Witnesses\<close>

definition checked_profile :: asset_profile where
  "checked_profile = sample_case_profile\<lparr>ap_requirements := [sample_requirement ''legal.title'' ''Required''
     (EvidenceTerms [''Document''] None None None None (Some \<lparr>fr_maxAgeSeconds = Some 3600, fr_observedAfter = None, fr_mustNotBeExpired = None\<rparr>)),
     sample_requirement ''automated.checks'' ''Required'' (VerificationTerms [''check.material.present'', ''check.evidence.freshness''] ''All'' None)]\<rparr>"

definition checked_case :: protocolization_case where
  "checked_case = initial_case ''tenant-a'' sample_case_input checked_profile ''2025-01-15T14:30:00Z''"

definition sample_checking :: verification_context where
  "sample_checking = \<lparr>vn_case = (sample_case_context ''2025-06-15T14:30:00Z'')\<lparr>cc_catalog := (\<lambda>i v.
       if i = ''real-estate'' \<and> v = ''1.0.0'' then Some checked_profile else None)\<rparr>,
     vn_checks = map (\<lambda>check. (ck_checkId check, check)) (BUILT_IN_VERIFICATION_CHECKS zero_platform), vn_resolvers = None\<rparr>"

definition sample_run :: run_input where
  "sample_run = \<lparr>ri_executionIds = [''run-1'', ''run-2''], ri_inputs = \<lparr>vi_evidenceReceipts = None, vi_declarations = None\<rparr>,
     ri_correlationId = None\<rparr>"

lemma sample_check_words: "isValidAssetRequirementId ''automated.checks''" "isValidVerificationExecutionId ''run-1''"
  "isValidVerificationExecutionId ''run-2''" "\<forall>i \<in> set built_in_ids. isValidAssetVerificationCheckId i"
proof -
  show "isValidAssetRequirementId ''automated.checks''" "isValidVerificationExecutionId ''run-1''" "isValidVerificationExecutionId ''run-2''"
    by code_simp+
  let ?words = "[(''check'', [''material'', ''present'']), (''check'', [''identity'', ''strategy'']), (''check'', [''evidence'', ''freshness'']),
      (''check'', [''declaration'', ''competing'']), (''check'', [''content'', ''digest''])]"
  have "list_all (\<lambda>(w, ws). list_all (\<lambda>u. u \<noteq> [] \<and> list_all lower_alpha u) (w # ws) \<and> length (dotted w ws) \<le> ASSET_IDENTIFIER_MAX_LENGTH) ?words"
    by code_simp
  then have "list_all isDottedToken (map (\<lambda>(w, ws). dotted w ws) ?words)" unfolding list_all_iff by (auto intro!: dotted_token simp: list_all_iff)
  moreover have "isDottedToken ''check.material.minimum-count''" "isDottedToken ''check.declaration.claim-type''"
  proof -
    have words: "list_all (\<lambda>u. u \<noteq> [] \<and> list_all lower_alpha u)
        [''check'', ''material'', ''minimum'', ''count'', ''declaration'', ''claim'', ''type'']" by code_simp
    then have "''minimum'' @ concat (map (\<lambda>u. CHR ''-'' # u) [''count'']) \<in> lang token_word"
      "''claim'' @ concat (map (\<lambda>u. CHR ''-'' # u) [''type'']) \<in> lang token_word"
      "''check'' @ concat (map (\<lambda>u. CHR ''-'' # u) []) \<in> lang token_word"
      "''material'' @ concat (map (\<lambda>u. CHR ''-'' # u) []) \<in> lang token_word"
      "''declaration'' @ concat (map (\<lambda>u. CHR ''-'' # u) []) \<in> lang token_word"
      by (intro hyphen_word; simp)+
    then show "isDottedToken ''check.material.minimum-count''" "isDottedToken ''check.declaration.claim-type''"
      using dotted_words [of "''check''" "[''material'', ''minimum-count'']"] dotted_words [of "''check''" "[''declaration'', ''claim-type'']"]
      by (simp_all add: dotted_def ASSET_IDENTIFIER_MAX_LENGTH_def)
  qed
  ultimately show "\<forall>i \<in> set built_in_ids. isValidAssetVerificationCheckId i"
    by (simp add: built_in_ids_def dotted_def isValidAssetVerificationCheckId_def)
qed

lemma checked_profile_ok: "isValidAssetProfile P checked_profile" "only_built_in checked_profile"
  "planned (ap_requirements checked_profile) = [(''automated.checks'', ''check.material.present''), (''automated.checks'', ''check.evidence.freshness'')]"
  "ref_of checked_profile = \<lparr>pf_profileId = ''real-estate'', pf_profileVersion = ''1.0.0''\<rparr>"
  "map rq_id (ap_requirements checked_profile) = [''legal.title'', ''automated.checks'']"
proof -
  show "isValidAssetProfile P checked_profile"
    using sample_profile_words sample_profile_lists sample_case_identifiers sample_check_words
    by (simp add: isValidAssetProfile_def validateAssetProfile_def profile_header_issues_def checked_profile_def sample_case_profile_def
      sample_requirement_def condition_issues_def validateRequirementShape_def minimum_count_issues_def registry_issues_def
      freshness_issues_def bad_option_def validateCrossRequirementRules_def dependency_issues_def strategy_issues_def
      validateJurisdictionScope_def Let_def built_in_ids_def satisfaction_issues_def SATISFACTIONS_def isValidAssetFreshnessConstraint_def
      isPositiveInteger_def MAX_SAFE_INTEGER_def)
qed (auto simp: checked_profile_def sample_case_profile_def sample_requirement_def only_built_in_def declared_checks_def built_in_ids_def
    planned_def rq_kind_def ref_of_def)

lemma checked_case_ok: "case_ok P checked_case" "kc_tenantId checked_case = ''tenant-a''" "kc_caseId checked_case = ''case-1''"
  "kc_profile checked_case = \<lparr>pf_profileId = ''real-estate'', pf_profileVersion = ''1.0.0''\<rparr>" "kc_state checked_case = ''Draft''"
  "projects checked_case checked_profile" "kc_materials checked_case = []" "kc_updatedAt checked_case = ''2025-01-15T14:30:00Z''"
proof -
  have "creation_ok sample_case_input" using sample_case_identifiers
    by (simp add: creation_ok_def sample_case_input_def isValidProtocolizationCaseSubject_def isValidSovereignSubjectRef_def correlation_id_ok_def)
  then show "case_ok P checked_case"
    using initial_case_ok [of sample_case_input "''tenant-a''" P "''2025-01-15T14:30:00Z''" checked_profile] sample_case_moments
      sample_case_identifiers(6) checked_profile_ok(5)
    by (simp add: checked_case_def) (simp add: checked_profile_def sample_requirement_def)
qed (simp_all add: checked_case_def initial_case_def sample_case_input_def projects_def comp_def)

lemma sample_registry: "createVerificationCheckRegistry (BUILT_IN_VERIFICATION_CHECKS zero_platform) = Inr (vn_checks sample_checking)"
proof -
  have "distinct built_in_ids" by (simp add: built_in_ids_def)
  moreover have "(\<forall>check \<in> set (BUILT_IN_VERIFICATION_CHECKS zero_platform). isValidAssetVerificationCheckId (ck_checkId check)) \<longleftrightarrow>
      (\<forall>i \<in> set (map ck_checkId (BUILT_IN_VERIFICATION_CHECKS zero_platform)). isValidAssetVerificationCheckId i)" by simp
  ultimately show ?thesis using sample_check_words(4)
    unfolding createVerificationCheckRegistry_def register_checks_iff built_in_names sample_checking_def by simp
qed

lemma sample_may_verify: "may_verify zero_platform sample_checking checked_case" "resolves_to sample_checking checked_case checked_profile"
  "inputs_owned sample_checking checked_case (ri_inputs sample_run)" "clock_ok zero_platform (vn_case (reading sample_checking ''2025-06-15T14:30:00Z'')) checked_case"
  using checked_case_ok(1) [of zero_platform] checked_case_ok(2-5,8) sample_case_moments [of zero_platform]
  by (simp_all add: may_verify_def sample_checking_def sample_case_context_def resolves_to_def pinned_def inputs_owned_def sample_run_def
      receipts_of_def declarations_of_def clock_ok_def reading_def isNotBefore_def)

lemma sample_modest: "modest checked_case checked_profile (ri_inputs sample_run)" "inputs_valid P (ri_inputs sample_run)"
  "run_ids_ok sample_run (planned (ap_requirements checked_profile))" "\<forall>i \<in> set (ri_executionIds sample_run). isValidVerificationExecutionId i"
  "optional_ok isCanonicalRecordId (ri_correlationId sample_run)"
  using checked_case_ok(7) sample_check_words(2,3) checked_profile_ok(3)
  by (simp_all add: modest_def inputs_valid_def sample_run_def receipts_of_def declarations_of_def run_ids_ok_def optional_ok_def
      INPUT_REFS_MAX_LENGTH_def checked_profile_def)

theorem built_in_runs_return_witness:
  "\<exists>u. runProtocolizationVerification zero_platform (\<lambda>k. ''2025-06-15T14:30:00Z'') sample_checking checked_case sample_run = Inr u"
proof -
  have pin: "kc_profile checked_case = ref_of checked_profile" using checked_case_ok(4) checked_profile_ok(4) by simp
  from built_in_runs_return [OF sample_registry sample_may_verify(1,2) pin checked_case_ok(6) checked_profile_ok(1)
      sample_modest(1,2) sample_may_verify(3) sample_modest(3-5), of "\<lambda>k. ''2025-06-15T14:30:00Z''"]
  show ?thesis using sample_may_verify(4) checked_profile_ok(2) by blast
qed

lemma sample_run_returns:
  "\<exists>u. runProtocolizationVerification zero_platform (\<lambda>k. ''2025-06-15T14:30:00Z'') sample_checking checked_case sample_run = Inr u"
proof -
  have pin: "kc_profile checked_case = ref_of checked_profile" using checked_case_ok(4) checked_profile_ok(4) by simp
  from built_in_run [OF sample_registry checked_profile_ok(2) sample_may_verify(1,2) pin checked_case_ok(6) checked_profile_ok(1)
      sample_modest(1,2) sample_may_verify(3) sample_modest(3-5), of "\<lambda>k. ''2025-06-15T14:30:00Z''"]
  show ?thesis using sample_may_verify(4) by blast
qed

lemma sample_pinned: "pinned (vn_case sample_checking) (kc_profile checked_case) = Some checked_profile"
  using sample_may_verify(2) by (simp add: resolves_to_def)

theorem run_covers_the_plan_witness:
  "\<exists>u. runProtocolizationVerification zero_platform (\<lambda>k. ''2025-06-15T14:30:00Z'') sample_checking checked_case sample_run = Inr u \<and>
     map (\<lambda>r. (vr_requirementId r, vr_checkId r)) (vu_results u) =
       [(''automated.checks'', ''check.material.present''), (''automated.checks'', ''check.evidence.freshness'')] \<and>
     map vr_executionId (vu_results u) = [''run-1'', ''run-2'']"
proof -
  obtain u where u: "runProtocolizationVerification zero_platform (\<lambda>k. ''2025-06-15T14:30:00Z'') sample_checking checked_case sample_run = Inr u"
    using sample_run_returns by blast
  from run_covers_the_plan [OF u] show ?thesis using u sample_pinned checked_profile_ok(3)
    by (intro exI [of _ u]) (auto simp: sample_run_def)
qed

text \<open>The two executions of the run.\<close>

definition sample_execution :: "string \<Rightarrow> string \<Rightarrow> execute_input" where
  "sample_execution i k = \<lparr>xi_executionId = i, xi_requirementId = ''automated.checks'', xi_checkId = k,
     xi_inputs = \<lparr>vi_evidenceReceipts = None, vi_declarations = None\<rparr>, xi_correlationId = None\<rparr>"

lemma sample_executions:
  "\<exists>tr. executeProtocolizationVerificationCheck zero_platform sample_checking checked_case (sample_execution ''run-1'' ''check.material.present'') = Inr tr"
  "\<exists>tr. executeProtocolizationVerificationCheck zero_platform sample_checking checked_case (sample_execution ''run-2'' ''check.evidence.freshness'') = Inr tr"
proof -
  obtain u where "runProtocolizationVerification zero_platform (\<lambda>k. ''2025-06-15T14:30:00Z'') sample_checking checked_case sample_run = Inr u"
    using sample_run_returns by blast
  then obtain ts where "run_loop zero_platform (\<lambda>k. ''2025-06-15T14:30:00Z'') sample_checking checked_case sample_run 0
      [(''automated.checks'', ''check.material.present''), (''automated.checks'', ''check.evidence.freshness'')] = Inr ts"
    using resolves_unique [OF sample_may_verify(2)] checked_profile_ok(3) unfolding runs_iff by metis
  moreover have "reading sample_checking ''2025-06-15T14:30:00Z'' = sample_checking"
    by (simp add: reading_def sample_checking_def sample_case_context_def)
  ultimately show "\<exists>tr. executeProtocolizationVerificationCheck zero_platform sample_checking checked_case (sample_execution ''run-1'' ''check.material.present'') = Inr tr"
    "\<exists>tr. executeProtocolizationVerificationCheck zero_platform sample_checking checked_case (sample_execution ''run-2'' ''check.evidence.freshness'') = Inr tr"
    by (auto simp: bind_result_Inr sample_run_def sample_execution_def)
qed

lemma sample_built_in:
  "get_check (vn_checks sample_checking) ''check.material.present'' = Some (built_in ''check.material.present'' run_material_present)"
  "get_check (vn_checks sample_checking) ''check.evidence.freshness'' = Some (built_in ''check.evidence.freshness'' (run_evidence_freshness zero_platform))"
  using registered_check [OF sample_registry, of "built_in ''check.material.present'' run_material_present"]
    registered_check [OF sample_registry, of "built_in ''check.evidence.freshness'' (run_evidence_freshness zero_platform)"]
  by (simp_all add: BUILT_IN_VERIFICATION_CHECKS_def) (simp_all add: built_in_def)

theorem material_check_verdict_witness:
  "\<exists>tr. executeProtocolizationVerificationCheck zero_platform sample_checking checked_case (sample_execution ''run-1'' ''check.material.present'') = Inr tr \<and>
     vr_outcome (vt_result tr) \<noteq> ''Pass''"
proof -
  obtain tr where tr: "executeProtocolizationVerificationCheck zero_platform sample_checking checked_case
      (sample_execution ''run-1'' ''check.material.present'') = Inr tr" using sample_executions(1) by blast
  have "get_check (vn_checks sample_checking) (xi_checkId (sample_execution ''run-1'' ''check.material.present'')) =
      Some (built_in ''check.material.present'' run_material_present)" using sample_built_in(1) by (simp add: sample_execution_def)
  from material_check_verdict [OF tr this sample_pinned checked_case_ok(6)] show ?thesis
    using tr checked_case_ok(7) by (intro exI [of _ tr]) (simp add: checked_profile_def sample_requirement_def rq_kind_def)
qed

text \<open>A case that has taken evidence in, with the receipt of the intake.\<close>

definition fresh_submission :: evidence_submission where
  "fresh_submission = sample_submission\<lparr>sb_observedAt := Some ''2025-06-15T14:30:00Z''\<rparr>"

definition fresh_case :: protocolization_case where
  "fresh_case = with_material checked_case (evidence_material fresh_submission ''2025-06-15T14:30:00Z'')"

definition fresh_receipt :: intake_receipt where
  "fresh_receipt = issued_receipt fresh_submission checked_case ''2025-06-15T14:30:00Z''"

lemma fresh_taken_in: "may_take_in zero_platform (vn_case sample_checking) checked_case fresh_submission"
proof -
  have "isValidEvidenceIntakeId ''intake-1''" "isValidEvidenceIntakeCategoryId ''title-deed''" by code_simp+
  moreover have "may_change zero_platform (vn_case sample_checking) checked_case"
    using sample_may_verify(1,4) by (simp add: may_change_def may_verify_def reading_def sample_checking_def sample_case_context_def
        revisable_def checked_case_def initial_case_def MAX_SAFE_INTEGER_def)
  moreover have "requirements_ok [''legal.title''] checked_profile checked_case"
    by (simp add: requirements_ok_def checked_profile_def sample_requirement_def checked_case_def initial_case_def)
  ultimately show ?thesis
    using checked_case_ok(3,5,7) sample_pinned sample_case_identifiers sample_case_moments
    by (auto simp: may_take_in_def admissible_def intake_terms_ok_def submittedEvidenceRef_def isValidProtocolizationMaterialId_def
        isValidRequirementIdList_iff isCanonicalRecordId_def trim_def js_space_def ASSET_IDENTIFIER_MAX_LENGTH_def optional_ok_def
        sample_submission_def fresh_submission_def)
qed


lemma fresh_intake:
  "\<exists>tr. intakeProtocolizationEvidence zero_platform (vn_case sample_checking) checked_case fresh_submission = Inr tr \<and>
     it_case tr = fresh_case \<and> it_receipt tr = fresh_receipt"
proof -
  have "cc_now (vn_case sample_checking) = ''2025-06-15T14:30:00Z''" by (simp add: sample_checking_def sample_case_context_def)
  then show ?thesis
    using intakes [of zero_platform "vn_case sample_checking" checked_case fresh_submission fresh_case fresh_receipt] fresh_taken_in
    by (simp add: fresh_case_def fresh_receipt_def)
qed

lemma fresh_case_ok: "case_ok zero_platform fresh_case" "projects fresh_case checked_profile" "kc_tenantId fresh_case = ''tenant-a''"
  "kc_caseId fresh_case = ''case-1''" "kc_profile fresh_case = kc_profile checked_case" "kc_state fresh_case = ''Draft''"
  "kc_materials fresh_case = [evidence_material fresh_submission ''2025-06-15T14:30:00Z'']" "kc_updatedAt fresh_case = ''2025-06-15T14:30:00Z''"
proof -
  let ?m = "evidence_material fresh_submission ''2025-06-15T14:30:00Z''"
  have now: "cc_now (vn_case sample_checking) = ''2025-06-15T14:30:00Z''" by (simp add: sample_checking_def sample_case_context_def)
  have "may_change zero_platform (vn_case sample_checking) checked_case" "admissible zero_platform fresh_submission"
    using fresh_taken_in by (simp_all add: may_take_in_def)
  then have go: "case_ok zero_platform checked_case" "clock_ok zero_platform (vn_case sample_checking) checked_case" "revisable checked_case"
    "isValidProtocolizationCaseMaterial zero_platform ?m"
    using evidence_material_ok [of zero_platform fresh_submission "''2025-06-15T14:30:00Z''"] sample_case_moments
    by (simp_all add: may_change_def evidence_material_def)
  show "case_ok zero_platform fresh_case"
    using with_material_ok [OF go(1,2) _ go(4), of checked_profile] fresh_taken_in go(3) sample_pinned
    by (auto simp: fresh_case_def may_take_in_def now)
  show "projects fresh_case checked_profile"
    using checked_case_ok(6) by (simp add: fresh_case_def with_material_def projects_def)
qed (use checked_case_ok(2-5,7) in \<open>simp_all add: fresh_case_def with_material_def\<close>)

lemma fresh_receipt_valid: "receipt_ok zero_platform fresh_receipt" "rc_tenantId fresh_receipt = ''tenant-a''" "rc_caseId fresh_receipt = ''case-1''"
proof -
  let ?e = "ProtocolizationMaterialAdded (base_of fresh_case None) ''deed'' ''Evidence'' [''legal.title'']"
  have now: "cc_now (vn_case sample_checking) = ''2025-06-15T14:30:00Z''" by (simp add: sample_checking_def sample_case_context_def)
  have at: "ev_occurredAt (event_base ?e) = ''2025-06-15T14:30:00Z''" using fresh_case_ok(8) by (simp add: base_of_def)
  from receipt_never_refused [OF fresh_taken_in, of ?e] at show "receipt_ok zero_platform fresh_receipt"
    by (simp add: receipt_issued now fresh_receipt_def)
qed (use checked_case_ok(2,3) in \<open>simp_all add: fresh_receipt_def issued_receipt_def\<close>)

definition fresh_inputs :: verification_inputs where
  "fresh_inputs = \<lparr>vi_evidenceReceipts = Some [fresh_receipt], vi_declarations = None\<rparr>"

definition fresh_execution :: execute_input where
  "fresh_execution = sample_execution ''run-2'' ''check.evidence.freshness'' \<lparr>xi_inputs := fresh_inputs\<rparr>"

lemma fresh_executes:
  "\<exists>tr. executeProtocolizationVerificationCheck zero_platform sample_checking fresh_case fresh_execution = Inr tr"
proof -
  let ?i = "''automated.checks''" and ?k = "''check.evidence.freshness''"
  obtain r where r: "declares_check checked_profile ?i ?k r" "isValidAssetRequirementId ?i" "isValidAssetVerificationCheckId ?k"
    using planned_declared [OF checked_profile_ok(1), of ?i ?k] checked_profile_ok(3) by auto
  have inputs: "inputs_valid zero_platform fresh_inputs" "inputs_owned sample_checking fresh_case fresh_inputs"
    using fresh_receipt_valid fresh_case_ok(3,4)
    by (simp_all add: inputs_valid_def inputs_owned_def fresh_inputs_def receipts_of_def declarations_of_def sample_checking_def sample_case_context_def)
  have "execution_ok (run_evidence_freshness zero_platform (view sample_checking fresh_case checked_profile r ?k fresh_inputs))"
    by (rule freshness_admitted [OF fresh_case_ok(1) checked_profile_ok(1) inputs(1)])
  moreover have "answers sample_checking fresh_case checked_profile r ?k fresh_inputs
      (run_evidence_freshness zero_platform (view sample_checking fresh_case checked_profile r ?k fresh_inputs))"
    using sample_built_in(2) by (simp add: answers_def built_in_def)
  moreover have "may_verify zero_platform sample_checking fresh_case" "resolves_to sample_checking fresh_case checked_profile"
    "clock_ok zero_platform (vn_case sample_checking) fresh_case"
    using fresh_case_ok sample_pinned sample_case_moments [of zero_platform]
    by (simp_all add: may_verify_def resolves_to_def clock_ok_def sample_checking_def sample_case_context_def isNotBefore_def)
  moreover have "kc_profile fresh_case = ref_of checked_profile" using fresh_case_ok(5) checked_case_ok(4) checked_profile_ok(4) by simp
  moreover have "execute_request_ok fresh_execution" using r(2,3) sample_check_words(3)
    by (simp add: execute_request_ok_def fresh_execution_def sample_execution_def optional_ok_def)
  ultimately have "\<exists>x. executable zero_platform sample_checking fresh_case fresh_execution checked_profile r x"
    using r(1) inputs(2) by (auto simp: executable_def fresh_execution_def sample_execution_def)
  then show ?thesis unfolding executes_iff by blast
qed

theorem freshness_check_verdict_witness:
  "\<exists>tr. executeProtocolizationVerificationCheck zero_platform sample_checking fresh_case fresh_execution = Inr tr \<and>
     vr_outcome (vt_result tr) = ''Pass''"
proof -
  obtain tr where tr: "executeProtocolizationVerificationCheck zero_platform sample_checking fresh_case fresh_execution = Inr tr"
    using fresh_executes by blast
  have check: "get_check (vn_checks sample_checking) (xi_checkId fresh_execution) =
      Some (built_in ''check.evidence.freshness'' (run_evidence_freshness zero_platform))"
    using sample_built_in(2) by (simp add: fresh_execution_def sample_execution_def)
  have pin: "pinned (vn_case sample_checking) (kc_profile fresh_case) = Some checked_profile"
    using sample_pinned by (simp add: fresh_case_ok(5))
  have inputs: "receipts_of (xi_inputs fresh_execution) = [fresh_receipt]"
    by (simp add: fresh_execution_def fresh_inputs_def receipts_of_def)
  have now: "vr_executedAt (vt_result tr) = ''2025-06-15T14:30:00Z''"
    using sealed_fields(4) [OF tr] by (simp add: sample_checking_def sample_case_context_def)
  have "fresh zero_platform [fresh_receipt] ''2025-06-15T14:30:00Z''
      \<lparr>fr_maxAgeSeconds = Some 3600, fr_observedAfter = None, fr_mustNotBeExpired = None\<rparr>
      (evidence_material fresh_submission ''2025-06-15T14:30:00Z'') ''evidence-1''"
    using sample_case_moments(4) [of zero_platform]
    by (simp add: fresh_def fresh_receipt_def issued_receipt_def fresh_submission_def sample_submission_def submittedEvidenceRef_def)
  moreover have "mt_payload (evidence_material fresh_submission t) = EvidencePayload ''evidence-1''" for t
    by (simp add: fresh_submission_def sample_submission_def submittedEvidenceRef_def)
  moreover have "\<forall>r \<in> set (receipts_of (xi_inputs fresh_execution)). validateEvidenceIntakeReceipt zero_platform r = []"
    using fresh_receipt_valid(1) by (simp add: inputs receipt_iff)
  from freshness_check_verdict [OF tr check pin checked_profile_ok(1) this] have
    "vr_outcome (vt_result tr) = ''Pass'' \<longleftrightarrow> (\<forall>r \<in> set (ap_requirements checked_profile). \<forall>constraint. evidence_freshness r = Some constraint \<longrightarrow>
      (\<forall>m \<in> set (kc_materials fresh_case). \<forall>e. mt_payload m = EvidencePayload e \<and> rq_id r \<in> set (mt_requirementIds m) \<longrightarrow>
        fresh zero_platform [fresh_receipt] ''2025-06-15T14:30:00Z'' constraint m e))" unfolding inputs now .
  ultimately have "vr_outcome (vt_result tr) = ''Pass''"
    by (simp add: fresh_case_ok(7) checked_profile_def sample_requirement_def evidence_freshness_def)
  then show ?thesis using tr by blast
qed

lemma sample_result_stored:
  "\<exists>r entries. isValidProtocolizationVerificationResult zero_platform r \<and> vr_tenantId r = ''tenant-a'' \<and> vr_caseId r = ''case-1'' \<and>
     vr_executionId r = ''run-1'' \<and> (result_step zero_platform)\<^sup>*\<^sup>* [] entries \<and> list_results zero_platform entries ''tenant-a'' ''case-1'' = Inr [r]"
proof -
  obtain tr where tr: "executeProtocolizationVerificationCheck zero_platform sample_checking checked_case
      (sample_execution ''run-1'' ''check.material.present'') = Inr tr" using sample_executions(1) by blast
  let ?r = "vt_result tr"
  have r: "isValidProtocolizationVerificationResult zero_platform ?r" "vr_tenantId ?r = ''tenant-a''" "vr_caseId ?r = ''case-1''"
    "vr_executionId ?r = ''run-1''" using sealed_fields [OF tr] checked_case_ok(2,3) by (simp_all add: sample_execution_def)
  let ?entries = "[(resultKey ''tenant-a'' ''run-1'', ?r)]"
  have "result_step zero_platform [] ?entries" using r by (intro saves [of _ _ ?r]) (simp add: save_result_Inr)
  moreover have "list_results zero_platform ?entries ''tenant-a'' ''case-1'' = Inr [?r]"
    using r sample_case_identifiers(6) by (simp add: list_results_def assertResultTenant_def verification_fail_def fail_if_def forCase_def)
  ultimately show ?thesis using r by blast
qed

text \<open>C27: Of the results that the repository lists for a case, the projection keeps exactly one for every requirement and check that has any: the
  one that no other of them comes after in time.\<close>

theorem latest_results_stand:
  assumes "(result_step P)\<^sup>*\<^sup>* [] entries" and "list_results P entries tenantId caseId = Inr rs"
  shows "(r \<in> set (listLatestVerificationResults P rs) \<longleftrightarrow> r \<in> set rs \<and>
      (\<forall>q \<in> set rs. subject_of q = subject_of r \<longrightarrow> compareVerificationResults P q r \<le> 0)) \<and>
    distinct (map subject_of (listLatestVerificationResults P rs)) \<and>
    subject_of ` set (listLatestVerificationResults P rs) = subject_of ` set rs"
  by (rule latest_of_store [OF assms])

theorem latest_results_stand_witness:
  "\<exists>r entries. list_results zero_platform entries ''tenant-a'' ''case-1'' = Inr [r] \<and> vr_executionId r = ''run-1'' \<and>
     subject_of ` set (listLatestVerificationResults zero_platform [r]) = {subject_of r}"
proof -
  obtain r entries where r: "vr_executionId r = ''run-1''" "(result_step zero_platform)\<^sup>*\<^sup>* [] entries"
    "list_results zero_platform entries ''tenant-a'' ''case-1'' = Inr [r]" using sample_result_stored by blast
  from latest_results_stand [OF r(2,3), of r] r show ?thesis by (intro exI [of _ r] exI [of _ entries]) simp
qed

end
