(* ===== verification/Review.thy ===== *)
theory Review
  imports Verification
begin

text \<open>
  \<open>packages/asset-protocolization/src/attestation/\<close>: requests for a professional review of a case, the decisions of reviewers, their
  validation (\<open>review-validation.ts\<close>) and their repositories (\<open>review-repository.ts\<close>), with the lemmas that say what the validators admit
  and that the repository of decisions is a partial function from the requests of tenants.  The operations of \<open>review-operations.ts\<close>,
  which build the packet of a review and ask a signer, are not modelled.  The values are typed, so that the checks of a validator that a
  value is an object with the known keys hold by typing; \<open>decision_has\<close> is \<open>hasOwn\<close> on a decision.
\<close>

section \<open>Actions, scopes and references\<close>

definition PROFESSIONAL_REVIEW_ACTIONS :: "string list" where
  "PROFESSIONAL_REVIEW_ACTIONS = [''Attest'', ''Reject'', ''RequestMoreEvidence'', ''Abstain'']"

definition isProfessionalReviewAction :: "string \<Rightarrow> bool" where
  "isProfessionalReviewAction v \<longleftrightarrow> v \<in> set PROFESSIONAL_REVIEW_ACTIONS"

definition PROFESSIONAL_REVIEW_BASIS_KINDS :: "string list" where
  "PROFESSIONAL_REVIEW_BASIS_KINDS = [''Material'', ''Requirement'', ''IntakeReceipt'', ''EvidenceRecord'', ''DeclarationRecord'',
     ''ClaimRecord'', ''VerificationResult'', ''Subject'']"

definition isProfessionalReviewBasisKind :: "string \<Rightarrow> bool" where
  "isProfessionalReviewBasisKind v \<longleftrightarrow> v \<in> set PROFESSIONAL_REVIEW_BASIS_KINDS"

record basis_ref =
  br_kind :: string
  br_ref :: string

record review_scope =
  sc_requirementId :: string
  sc_attestationType :: string
  sc_subjectRef :: subject_reference
  sc_caseRevision :: int
  sc_propositionRefs :: "basis_ref list"
  sc_scopeStatement :: "string option"
  sc_limitations :: "string list option"

text \<open>Of a reference to a credential the validators read the identifier and the type; \<open>kr_details\<close> are its other properties.\<close>

record credential_ref =
  kr_id :: string
  kr_type :: string
  kr_details :: json

section \<open>Requests and decisions\<close>

record review_request =
  rw_schemaVersion :: string
  rw_reviewRequestId :: string
  rw_tenantId :: string
  rw_caseId :: string
  rw_profile :: profile_ref
  rw_attestationRequirementId :: string
  rw_requestedAttestationType :: string
  rw_requestedScope :: review_scope
  rw_reviewBasisRevision :: int
  rw_requestedAt :: string
  rw_correlationId :: "string option"

definition PROFESSIONAL_REVIEW_REQUEST_SCHEMA_VERSION :: string where
  "PROFESSIONAL_REVIEW_REQUEST_SCHEMA_VERSION = ''aoc-protocolization-professional-review-request/1''"

record material_request =
  mq_requirementId :: "string option"
  mq_evidenceCategoryId :: "string option"
  mq_reasonCode :: string
  mq_note :: "string option"

record review_decision =
  dn_schemaVersion :: string
  dn_decisionId :: string
  dn_reviewRequestId :: string
  dn_tenantId :: string
  dn_caseId :: string
  dn_profile :: profile_ref
  dn_attestationRequirementId :: string
  dn_reviewer :: principal_ref
  dn_reviewerCredentialRefs :: "credential_ref list option"
  dn_action :: string
  dn_scope :: "review_scope option"
  dn_reviewBasisRevision :: int
  dn_resultingCaseRevision :: "int option"
  dn_reviewedRefs :: "basis_ref list option"
  dn_reasonCode :: "string option"
  dn_requestedMaterial :: "material_request list option"
  dn_note :: "string option"
  dn_canonicalAttestationRef :: "string option"
  dn_attestationMaterialId :: "string option"
  dn_decidedAt :: string
  dn_correlationId :: "string option"

definition PROFESSIONAL_REVIEW_DECISION_SCHEMA_VERSION :: string where
  "PROFESSIONAL_REVIEW_DECISION_SCHEMA_VERSION = ''aoc-protocolization-professional-review-decision/1''"

section \<open>Validation\<close>

definition isValidProfessionalReviewRequestId :: "string \<Rightarrow> bool" where
  "isValidProfessionalReviewRequestId v = isProtocolizationInstanceIdentifier v"

definition isValidProfessionalReviewDecisionId :: "string \<Rightarrow> bool" where
  "isValidProfessionalReviewDecisionId v = isProtocolizationInstanceIdentifier v"

definition isValidProfessionalReviewReasonCode :: "string \<Rightarrow> bool" where
  "isValidProfessionalReviewReasonCode v = isDottedToken v"

definition NOTE_MAX_LENGTH :: nat where "NOTE_MAX_LENGTH = 2048"

definition SCOPE_STATEMENT_MAX_LENGTH :: nat where "SCOPE_STATEMENT_MAX_LENGTH = 2048"

definition LIMITATION_MAX_LENGTH :: nat where "LIMITATION_MAX_LENGTH = 512"

definition LIMITATIONS_MAX_COUNT :: nat where "LIMITATIONS_MAX_COUNT = 32"

definition BASIS_REFS_MAX_COUNT :: nat where "BASIS_REFS_MAX_COUNT = 512"

definition MATERIAL_REQUESTS_MAX_COUNT :: nat where "MATERIAL_REQUESTS_MAX_COUNT = 64"

definition CREDENTIAL_REFS_MAX_COUNT :: nat where "CREDENTIAL_REFS_MAX_COUNT = 16"

definition isBoundedText :: "string \<Rightarrow> nat \<Rightarrow> bool" where
  "isBoundedText v max_length \<longleftrightarrow> trim v \<noteq> [] \<and> length v \<le> max_length"

definition isCaseRevision :: "int \<Rightarrow> bool" where
  "isCaseRevision v \<longleftrightarrow> \<bar>v\<bar> \<le> MAX_SAFE_INTEGER \<and> v \<ge> 1"

definition isAttestationType :: "string \<Rightarrow> bool" where
  "isAttestationType v \<longleftrightarrow> v \<in> set ATTESTATION_TYPES"

definition isUsablePrincipalRef :: "principal_ref \<Rightarrow> bool" where
  "isUsablePrincipalRef v \<longleftrightarrow> isCanonicalRecordId (pl_id v) \<and> pl_kind v \<in> set PRINCIPAL_KINDS"

definition isUsableCredentialRef :: "credential_ref \<Rightarrow> bool" where
  "isUsableCredentialRef v \<longleftrightarrow> isCanonicalRecordId (kr_id v) \<and> kr_type v \<in> set CREDENTIAL_TYPES"

definition isValidBasisRefList :: "basis_ref list \<Rightarrow> bool" where
  "isValidBasisRefList v \<longleftrightarrow> (if v = [] \<or> length v > BASIS_REFS_MAX_COUNT then False
     else list_all (\<lambda>entry. isProfessionalReviewBasisKind (br_kind entry) \<and> isCanonicalRecordId (br_ref entry)) v)"

definition isValidCredentialRefList :: "credential_ref list \<Rightarrow> bool" where
  "isValidCredentialRefList v \<longleftrightarrow> (if v = [] \<or> length v > CREDENTIAL_REFS_MAX_COUNT then False else list_all isUsableCredentialRef v)"

definition isValidMaterialRequest :: "material_request \<Rightarrow> bool" where
  "isValidMaterialRequest entry \<longleftrightarrow>
     (if \<not> isValidProfessionalReviewReasonCode (mq_reasonCode entry) then False
      else if present_and (\<lambda>i. \<not> isValidAssetRequirementId i) (mq_requirementId entry) then False
      else if present_and (\<lambda>i. \<not> isValidEvidenceIntakeCategoryId i) (mq_evidenceCategoryId entry) then False
      else if mq_requirementId entry = None \<and> mq_evidenceCategoryId entry = None then False
      else \<not> present_and (\<lambda>t. \<not> isBoundedText t NOTE_MAX_LENGTH) (mq_note entry))"

definition isValidMaterialRequestList :: "material_request list \<Rightarrow> bool" where
  "isValidMaterialRequestList v \<longleftrightarrow> (if v = [] \<or> length v > MATERIAL_REQUESTS_MAX_COUNT then False else list_all isValidMaterialRequest v)"

definition usable_limitations :: "string list \<Rightarrow> bool" where
  "usable_limitations limitations \<longleftrightarrow> limitations \<noteq> [] \<and> length limitations \<le> LIMITATIONS_MAX_COUNT \<and>
     list_all (\<lambda>entry. isBoundedText entry LIMITATION_MAX_LENGTH) limitations"

definition validateProfessionalReviewScope :: "review_scope \<Rightarrow> string list" where
  "validateProfessionalReviewScope v =
     reason_when (\<not> isValidAssetRequirementId (sc_requirementId v)) ''REVIEW_REQUIREMENT_ID_INVALID'' @
     reason_when (\<not> isAttestationType (sc_attestationType v)) ''REVIEW_ATTESTATION_TYPE_INVALID'' @
     reason_when (\<not> isValidSovereignSubjectRef (sc_subjectRef v)) ''REVIEW_SCOPE_INVALID'' @
     reason_when (\<not> isCaseRevision (sc_caseRevision v)) ''REVIEW_BASIS_REVISION_INVALID'' @
     reason_when (\<not> isValidBasisRefList (sc_propositionRefs v)) ''REVIEW_SCOPE_INVALID'' @
     reason_when (present_and (\<lambda>t. \<not> isBoundedText t SCOPE_STATEMENT_MAX_LENGTH) (sc_scopeStatement v)) ''REVIEW_SCOPE_INVALID'' @
     reason_when (present_and (\<lambda>l. \<not> usable_limitations l) (sc_limitations v)) ''REVIEW_SCOPE_INVALID''"

definition isValidProfessionalReviewScope :: "review_scope \<Rightarrow> bool" where
  "isValidProfessionalReviewScope v \<longleftrightarrow> validateProfessionalReviewScope v = []"

definition validateProfessionalReviewRequest :: "platform \<Rightarrow> review_request \<Rightarrow> string list" where
  "validateProfessionalReviewRequest P v = (let scope = rw_requestedScope v; admitted = validateProfessionalReviewScope scope = [] in
     reason_when (rw_schemaVersion v \<noteq> PROFESSIONAL_REVIEW_REQUEST_SCHEMA_VERSION) ''REVIEW_SCHEMA_VERSION_INVALID'' @
     reason_when (\<not> isValidProfessionalReviewRequestId (rw_reviewRequestId v)) ''REVIEW_REQUEST_ID_INVALID'' @
     reason_when (\<not> isValidProtocolizationTenantId (rw_tenantId v)) ''REVIEW_TENANT_ID_INVALID'' @
     reason_when (\<not> isValidProtocolizationCaseId (rw_caseId v)) ''REVIEW_CASE_ID_INVALID'' @
     reason_when (\<not> isValidProtocolizationProfileRef (rw_profile v)) ''REVIEW_PROFILE_REF_INVALID'' @
     reason_when (\<not> isValidAssetRequirementId (rw_attestationRequirementId v)) ''REVIEW_REQUIREMENT_ID_INVALID'' @
     reason_when (\<not> isAttestationType (rw_requestedAttestationType v)) ''REVIEW_ATTESTATION_TYPE_INVALID'' @
     reason_when (\<not> admitted) ''REVIEW_SCOPE_INVALID'' @
     reason_when (\<not> isCaseRevision (rw_reviewBasisRevision v)) ''REVIEW_BASIS_REVISION_INVALID'' @
     reason_when (admitted \<and> isCaseRevision (rw_reviewBasisRevision v) \<and> sc_caseRevision scope \<noteq> rw_reviewBasisRevision v)
       ''REVIEW_SCOPE_INVALID'' @
     reason_when (admitted \<and> sc_requirementId scope \<noteq> rw_attestationRequirementId v) ''REVIEW_SCOPE_INVALID'' @
     reason_when (admitted \<and> sc_attestationType scope \<noteq> rw_requestedAttestationType v) ''REVIEW_SCOPE_INVALID'' @
     reason_when (\<not> isValidUtcDateTime P (rw_requestedAt v)) ''REVIEW_REQUESTED_AT_INVALID'' @
     reason_when (present_and (\<lambda>i. \<not> isCanonicalRecordId i) (rw_correlationId v)) ''REVIEW_CORRELATION_ID_INVALID'')"

definition isValidProfessionalReviewRequest :: "platform \<Rightarrow> review_request \<Rightarrow> bool" where
  "isValidProfessionalReviewRequest P v \<longleftrightarrow> validateProfessionalReviewRequest P v = []"

text \<open>The fields an action requires and forbids.\<close>

definition ACTION_FIELD_RULES :: "string \<Rightarrow> string list \<times> string list" where
  "ACTION_FIELD_RULES action = (
     if action = ''Attest'' then ([''scope'', ''reviewedRefs''], [''requestedMaterial''])
     else if action = ''Reject'' then ([''reasonCode''],
       [''scope'', ''requestedMaterial'', ''canonicalAttestationRef'', ''attestationMaterialId'', ''resultingCaseRevision''])
     else if action = ''RequestMoreEvidence'' then ([''reasonCode'', ''requestedMaterial''],
       [''scope'', ''canonicalAttestationRef'', ''attestationMaterialId'', ''resultingCaseRevision''])
     else ([''reasonCode''],
       [''scope'', ''requestedMaterial'', ''canonicalAttestationRef'', ''attestationMaterialId'', ''resultingCaseRevision'']))"

definition decision_has :: "review_decision \<Rightarrow> string \<Rightarrow> bool" where
  "decision_has v field =
     (if field = ''scope'' then dn_scope v \<noteq> None
      else if field = ''reviewedRefs'' then dn_reviewedRefs v \<noteq> None
      else if field = ''reasonCode'' then dn_reasonCode v \<noteq> None
      else if field = ''requestedMaterial'' then dn_requestedMaterial v \<noteq> None
      else if field = ''canonicalAttestationRef'' then dn_canonicalAttestationRef v \<noteq> None
      else if field = ''attestationMaterialId'' then dn_attestationMaterialId v \<noteq> None
      else if field = ''resultingCaseRevision'' then dn_resultingCaseRevision v \<noteq> None
      else False)"

definition coherent_revision :: "int \<Rightarrow> int \<Rightarrow> bool" where
  "coherent_revision basis resulting \<longleftrightarrow> isCaseRevision resulting \<and> isCaseRevision basis \<and> resulting > basis"

definition action_reasons :: "review_decision \<Rightarrow> string list" where
  "action_reasons v = (let (needed, forbidden) = ACTION_FIELD_RULES (dn_action v) in
     reason_when (list_ex (\<lambda>field. \<not> decision_has v field) needed) ''REVIEW_ACTION_FIELD_MISSING'' @
     reason_when (list_ex (decision_has v) forbidden) ''REVIEW_ACTION_FIELD_UNEXPECTED'' @
     reason_when (decision_has v ''canonicalAttestationRef'' \<noteq> decision_has v ''attestationMaterialId'' \<or>
       decision_has v ''canonicalAttestationRef'' \<noteq> decision_has v ''resultingCaseRevision'') ''REVIEW_ACTION_FIELD_MISSING'' @
     reason_when (dn_action v = ''Attest'' \<and> present_and (\<lambda>scope. isValidProfessionalReviewScope scope \<and>
       isCaseRevision (dn_reviewBasisRevision v) \<and> (sc_caseRevision scope \<noteq> dn_reviewBasisRevision v \<or>
         sc_requirementId scope \<noteq> dn_attestationRequirementId v)) (dn_scope v)) ''REVIEW_SCOPE_INVALID'')"

definition validateProfessionalReviewDecision :: "platform \<Rightarrow> review_decision \<Rightarrow> string list" where
  "validateProfessionalReviewDecision P v =
     reason_when (dn_schemaVersion v \<noteq> PROFESSIONAL_REVIEW_DECISION_SCHEMA_VERSION) ''REVIEW_SCHEMA_VERSION_INVALID'' @
     reason_when (\<not> isValidProfessionalReviewDecisionId (dn_decisionId v)) ''REVIEW_DECISION_ID_INVALID'' @
     reason_when (\<not> isValidProfessionalReviewRequestId (dn_reviewRequestId v)) ''REVIEW_REQUEST_ID_INVALID'' @
     reason_when (\<not> isValidProtocolizationTenantId (dn_tenantId v)) ''REVIEW_TENANT_ID_INVALID'' @
     reason_when (\<not> isValidProtocolizationCaseId (dn_caseId v)) ''REVIEW_CASE_ID_INVALID'' @
     reason_when (\<not> isValidProtocolizationProfileRef (dn_profile v)) ''REVIEW_PROFILE_REF_INVALID'' @
     reason_when (\<not> isValidAssetRequirementId (dn_attestationRequirementId v)) ''REVIEW_REQUIREMENT_ID_INVALID'' @
     reason_when (\<not> isUsablePrincipalRef (dn_reviewer v)) ''REVIEW_REVIEWER_INVALID'' @
     reason_when (present_and (\<lambda>l. \<not> isValidCredentialRefList l) (dn_reviewerCredentialRefs v)) ''REVIEW_CREDENTIAL_REFS_INVALID'' @
     reason_when (\<not> isProfessionalReviewAction (dn_action v)) ''REVIEW_ACTION_INVALID'' @
     reason_when (present_and (\<lambda>s. \<not> isValidProfessionalReviewScope s) (dn_scope v)) ''REVIEW_SCOPE_INVALID'' @
     reason_when (\<not> isCaseRevision (dn_reviewBasisRevision v)) ''REVIEW_BASIS_REVISION_INVALID'' @
     reason_when (present_and (\<lambda>r. \<not> coherent_revision (dn_reviewBasisRevision v) r) (dn_resultingCaseRevision v))
       ''REVIEW_RESULTING_REVISION_INVALID'' @
     reason_when (present_and (\<lambda>l. \<not> isValidBasisRefList l) (dn_reviewedRefs v)) ''REVIEW_REVIEWED_REFS_INVALID'' @
     reason_when (present_and (\<lambda>r. \<not> isValidProfessionalReviewReasonCode r) (dn_reasonCode v)) ''REVIEW_REASON_CODE_INVALID'' @
     reason_when (present_and (\<lambda>l. \<not> isValidMaterialRequestList l) (dn_requestedMaterial v)) ''REVIEW_REQUESTED_MATERIAL_INVALID'' @
     reason_when (present_and (\<lambda>t. \<not> isBoundedText t NOTE_MAX_LENGTH) (dn_note v)) ''REVIEW_NOTE_INVALID'' @
     reason_when (present_and (\<lambda>i. \<not> isCanonicalRecordId i) (dn_canonicalAttestationRef v)) ''REVIEW_ATTESTATION_REF_INVALID'' @
     reason_when (present_and (\<lambda>i. \<not> isValidProtocolizationMaterialId i) (dn_attestationMaterialId v)) ''REVIEW_MATERIAL_ID_INVALID'' @
     reason_when (\<not> isValidUtcDateTime P (dn_decidedAt v)) ''REVIEW_DECIDED_AT_INVALID'' @
     reason_when (present_and (\<lambda>i. \<not> isCanonicalRecordId i) (dn_correlationId v)) ''REVIEW_CORRELATION_ID_INVALID'' @
     (if isProfessionalReviewAction (dn_action v) then action_reasons v else [])"

definition isValidProfessionalReviewDecision :: "platform \<Rightarrow> review_decision \<Rightarrow> bool" where
  "isValidProfessionalReviewDecision P v \<longleftrightarrow> validateProfessionalReviewDecision P v = []"

definition reconstituteProfessionalReviewRequest :: "platform \<Rightarrow> review_request \<Rightarrow> review_request case_result" where
  "reconstituteProfessionalReviewRequest P v = (let reasons = validateProfessionalReviewRequest P v in
     after (fail_if (reasons \<noteq> []) ''REVIEW_REQUEST_RECORD_INVALID''
       (''Refusing to reconstitute an invalid ProfessionalReviewRequest: '' @ join '', '' reasons) reasons) (Inr v))"

definition reconstituteProfessionalReviewDecision :: "platform \<Rightarrow> review_decision \<Rightarrow> review_decision case_result" where
  "reconstituteProfessionalReviewDecision P v = (let reasons = validateProfessionalReviewDecision P v in
     after (fail_if (reasons \<noteq> []) ''REVIEW_DECISION_INVALID''
       (''Refusing to reconstitute an invalid ProfessionalReviewDecision: '' @ join '', '' reasons) reasons) (Inr v))"

section \<open>Repositories\<close>

type_synonym request_store = "(string \<times> review_request) list"

record decision_store =
  dz_entries :: "(string \<times> review_decision) list"
  dz_byRequest :: "(string \<times> string) list"

definition reviewKey :: "string \<Rightarrow> string \<Rightarrow> string" where
  "reviewKey tenantId i = tenantId @ line_feed # i"

definition assertReviewTenant :: "string \<Rightarrow> case_error option" where
  "assertReviewTenant tenantId = verification_fail (\<not> isValidProtocolizationTenantId tenantId) ''REVIEW_TENANT_REQUIRED''
     ''A non-blank tenantId is required to address professional review history''"

definition compareProfessionalReviewRequests :: "platform \<Rightarrow> review_request \<Rightarrow> review_request \<Rightarrow> int" where
  "compareProfessionalReviewRequests P left right = (case (date_of P (rw_requestedAt left), date_of P (rw_requestedAt right)) of
     (Some a, Some b) \<Rightarrow> if a - b \<noteq> 0 then (if a - b < 0 then -1 else 1)
       else if rw_reviewRequestId left = rw_reviewRequestId right then 0
       else if code_unit_compare (rw_reviewRequestId left) (rw_reviewRequestId right) < 0 then -1 else 1
   | _ \<Rightarrow> 1)"

definition compareProfessionalReviewDecisions :: "platform \<Rightarrow> review_decision \<Rightarrow> review_decision \<Rightarrow> int" where
  "compareProfessionalReviewDecisions P left right = (case (date_of P (dn_decidedAt left), date_of P (dn_decidedAt right)) of
     (Some a, Some b) \<Rightarrow> if a - b \<noteq> 0 then (if a - b < 0 then -1 else 1)
       else if dn_decisionId left = dn_decisionId right then 0
       else if code_unit_compare (dn_decisionId left) (dn_decisionId right) < 0 then -1 else 1
   | _ \<Rightarrow> 1)"

definition get_request :: "request_store \<Rightarrow> string \<Rightarrow> string \<Rightarrow> review_request option case_result" where
  "get_request entries tenantId i = after (assertReviewTenant tenantId) (Inr (map_of entries (reviewKey tenantId i)))"

definition request_exists :: "request_store \<Rightarrow> string \<Rightarrow> string \<Rightarrow> bool case_result" where
  "request_exists entries tenantId i = after (assertReviewTenant tenantId) (Inr (map_of entries (reviewKey tenantId i) \<noteq> None))"

definition list_requests :: "platform \<Rightarrow> request_store \<Rightarrow> string \<Rightarrow> string \<Rightarrow> review_request list case_result" where
  "list_requests P entries tenantId caseId = after (assertReviewTenant tenantId) (Inr (sort_cmp (compareProfessionalReviewRequests P)
     (filter (\<lambda>request. rw_tenantId request = tenantId \<and> rw_caseId request = caseId) (map snd entries))))"

definition save_request :: "platform \<Rightarrow> request_store \<Rightarrow> review_request \<Rightarrow> request_store case_result" where
  "save_request P entries request = (let reasons = validateProfessionalReviewRequest P request;
       key = reviewKey (rw_tenantId request) (rw_reviewRequestId request) in
     after (first_throw [
       fail_if (reasons \<noteq> []) ''REVIEW_REQUEST_RECORD_INVALID''
         (''Refusing to store an invalid ProfessionalReviewRequest: '' @ join '', '' reasons) reasons,
       verification_fail (map_of entries key \<noteq> None) ''REVIEW_REQUEST_DUPLICATE''
         ''A ProfessionalReviewRequest with this (tenantId, reviewRequestId) already exists''])
     (Inr (map_set key request entries)))"

definition get_decision :: "decision_store \<Rightarrow> string \<Rightarrow> string \<Rightarrow> review_decision option case_result" where
  "get_decision s tenantId i = after (assertReviewTenant tenantId) (Inr (map_of (dz_entries s) (reviewKey tenantId i)))"

definition decision_exists :: "decision_store \<Rightarrow> string \<Rightarrow> string \<Rightarrow> bool case_result" where
  "decision_exists s tenantId i = after (assertReviewTenant tenantId) (Inr (map_of (dz_entries s) (reviewKey tenantId i) \<noteq> None))"

definition list_decisions :: "platform \<Rightarrow> decision_store \<Rightarrow> string \<Rightarrow> string \<Rightarrow> review_decision list case_result" where
  "list_decisions P s tenantId caseId = after (assertReviewTenant tenantId) (Inr (sort_cmp (compareProfessionalReviewDecisions P)
     (filter (\<lambda>decision. dn_tenantId decision = tenantId \<and> dn_caseId decision = caseId) (map snd (dz_entries s)))))"

definition getByRequest :: "decision_store \<Rightarrow> string \<Rightarrow> string \<Rightarrow> review_decision option case_result" where
  "getByRequest s tenantId reviewRequestId = after (assertReviewTenant tenantId)
     (Inr (case map_of (dz_byRequest s) (reviewKey tenantId reviewRequestId) of None \<Rightarrow> None
       | Some decisionId \<Rightarrow> map_of (dz_entries s) (reviewKey tenantId decisionId)))"

definition save_decision :: "platform \<Rightarrow> decision_store \<Rightarrow> review_decision \<Rightarrow> decision_store case_result" where
  "save_decision P s decision = (let reasons = validateProfessionalReviewDecision P decision;
       key = reviewKey (dn_tenantId decision) (dn_decisionId decision);
       requestKey = reviewKey (dn_tenantId decision) (dn_reviewRequestId decision) in
     after (first_throw [
       fail_if (reasons \<noteq> []) ''REVIEW_DECISION_INVALID''
         (''Refusing to store an invalid ProfessionalReviewDecision: '' @ join '', '' reasons) reasons,
       verification_fail (map_of (dz_entries s) key \<noteq> None) ''REVIEW_DECISION_DUPLICATE''
         ''A ProfessionalReviewDecision with this (tenantId, decisionId) already exists'',
       verification_fail (map_of (dz_byRequest s) requestKey \<noteq> None) ''REVIEW_REQUEST_ALREADY_DECIDED''
         ''This ProfessionalReviewRequest already has a decision; a further review needs a new request''])
     (Inr \<lparr>dz_entries = map_set key decision (dz_entries s),
       dz_byRequest = map_set requestKey (dn_decisionId decision) (dz_byRequest s)\<rparr>))"

section \<open>What the validators admit\<close>

definition review_scope_ok :: "review_scope \<Rightarrow> bool" where
  "review_scope_ok v \<longleftrightarrow> isValidAssetRequirementId (sc_requirementId v) \<and> isAttestationType (sc_attestationType v) \<and>
     isValidSovereignSubjectRef (sc_subjectRef v) \<and> isCaseRevision (sc_caseRevision v) \<and> isValidBasisRefList (sc_propositionRefs v) \<and>
     optional_ok (\<lambda>t. isBoundedText t SCOPE_STATEMENT_MAX_LENGTH) (sc_scopeStatement v) \<and> optional_ok usable_limitations (sc_limitations v)"

lemma scope_iff: "validateProfessionalReviewScope v = [] \<longleftrightarrow> review_scope_ok v"
  by (auto simp: validateProfessionalReviewScope_def review_scope_ok_def)

definition review_request_ok :: "platform \<Rightarrow> review_request \<Rightarrow> bool" where
  "review_request_ok P v \<longleftrightarrow> rw_schemaVersion v = PROFESSIONAL_REVIEW_REQUEST_SCHEMA_VERSION \<and>
     isValidProfessionalReviewRequestId (rw_reviewRequestId v) \<and> isValidProtocolizationTenantId (rw_tenantId v) \<and>
     isValidProtocolizationCaseId (rw_caseId v) \<and> isValidProtocolizationProfileRef (rw_profile v) \<and>
     review_scope_ok (rw_requestedScope v) \<and> sc_requirementId (rw_requestedScope v) = rw_attestationRequirementId v \<and>
     sc_attestationType (rw_requestedScope v) = rw_requestedAttestationType v \<and>
     sc_caseRevision (rw_requestedScope v) = rw_reviewBasisRevision v \<and> isValidUtcDateTime P (rw_requestedAt v) \<and>
     optional_ok isCanonicalRecordId (rw_correlationId v)"

lemma request_valid_iff: "validateProfessionalReviewRequest P v = [] \<longleftrightarrow> review_request_ok P v"
  by (auto simp: validateProfessionalReviewRequest_def review_request_ok_def scope_iff Let_def review_scope_ok_def)

text \<open>What a decision of each action carries.\<close>

definition action_ok :: "review_decision \<Rightarrow> bool" where
  "action_ok v \<longleftrightarrow> (if dn_action v = ''Attest'' then
       (\<exists>scope. dn_scope v = Some scope \<and> sc_caseRevision scope = dn_reviewBasisRevision v \<and>
         sc_requirementId scope = dn_attestationRequirementId v) \<and> dn_reviewedRefs v \<noteq> None \<and> dn_requestedMaterial v = None \<and>
       (dn_canonicalAttestationRef v = None \<longleftrightarrow> dn_attestationMaterialId v = None) \<and>
       (dn_canonicalAttestationRef v = None \<longleftrightarrow> dn_resultingCaseRevision v = None)
     else dn_scope v = None \<and> dn_reasonCode v \<noteq> None \<and> (dn_requestedMaterial v \<noteq> None \<longleftrightarrow> dn_action v = ''RequestMoreEvidence'') \<and>
       dn_canonicalAttestationRef v = None \<and> dn_attestationMaterialId v = None \<and> dn_resultingCaseRevision v = None)"

definition terms_ok :: "platform \<Rightarrow> review_decision \<Rightarrow> bool" where
  "terms_ok P v \<longleftrightarrow> dn_schemaVersion v = PROFESSIONAL_REVIEW_DECISION_SCHEMA_VERSION \<and>
     isValidProfessionalReviewDecisionId (dn_decisionId v) \<and> isValidProfessionalReviewRequestId (dn_reviewRequestId v) \<and>
     isValidProtocolizationTenantId (dn_tenantId v) \<and> isValidProtocolizationCaseId (dn_caseId v) \<and>
     isValidProtocolizationProfileRef (dn_profile v) \<and> isValidAssetRequirementId (dn_attestationRequirementId v) \<and>
     isUsablePrincipalRef (dn_reviewer v) \<and> optional_ok isValidCredentialRefList (dn_reviewerCredentialRefs v) \<and>
     isProfessionalReviewAction (dn_action v) \<and> optional_ok review_scope_ok (dn_scope v) \<and> isCaseRevision (dn_reviewBasisRevision v) \<and>
     optional_ok (coherent_revision (dn_reviewBasisRevision v)) (dn_resultingCaseRevision v) \<and>
     optional_ok isValidBasisRefList (dn_reviewedRefs v) \<and> optional_ok isValidProfessionalReviewReasonCode (dn_reasonCode v) \<and>
     optional_ok isValidMaterialRequestList (dn_requestedMaterial v) \<and> optional_ok (\<lambda>t. isBoundedText t NOTE_MAX_LENGTH) (dn_note v) \<and>
     optional_ok isCanonicalRecordId (dn_canonicalAttestationRef v) \<and>
     optional_ok isValidProtocolizationMaterialId (dn_attestationMaterialId v) \<and> isValidUtcDateTime P (dn_decidedAt v) \<and>
     optional_ok isCanonicalRecordId (dn_correlationId v)"

lemma actions: "isProfessionalReviewAction a \<longleftrightarrow> a = ''Attest'' \<or> a = ''Reject'' \<or> a = ''RequestMoreEvidence'' \<or> a = ''Abstain''"
  by (simp add: isProfessionalReviewAction_def PROFESSIONAL_REVIEW_ACTIONS_def)

lemma field_rules:
  "ACTION_FIELD_RULES ''Attest'' = ([''scope'', ''reviewedRefs''], [''requestedMaterial''])"
  "ACTION_FIELD_RULES ''Reject'' = ([''reasonCode''],
     [''scope'', ''requestedMaterial'', ''canonicalAttestationRef'', ''attestationMaterialId'', ''resultingCaseRevision''])"
  "ACTION_FIELD_RULES ''RequestMoreEvidence'' = ([''reasonCode'', ''requestedMaterial''],
     [''scope'', ''canonicalAttestationRef'', ''attestationMaterialId'', ''resultingCaseRevision''])"
  "ACTION_FIELD_RULES ''Abstain'' = ([''reasonCode''],
     [''scope'', ''requestedMaterial'', ''canonicalAttestationRef'', ''attestationMaterialId'', ''resultingCaseRevision''])"
  by (simp_all add: ACTION_FIELD_RULES_def)

lemma has_fields:
  "decision_has v ''scope'' \<longleftrightarrow> dn_scope v \<noteq> None" "decision_has v ''reviewedRefs'' \<longleftrightarrow> dn_reviewedRefs v \<noteq> None"
  "decision_has v ''reasonCode'' \<longleftrightarrow> dn_reasonCode v \<noteq> None" "decision_has v ''requestedMaterial'' \<longleftrightarrow> dn_requestedMaterial v \<noteq> None"
  "decision_has v ''canonicalAttestationRef'' \<longleftrightarrow> dn_canonicalAttestationRef v \<noteq> None"
  "decision_has v ''attestationMaterialId'' \<longleftrightarrow> dn_attestationMaterialId v \<noteq> None"
  "decision_has v ''resultingCaseRevision'' \<longleftrightarrow> dn_resultingCaseRevision v \<noteq> None"
  by (simp_all add: decision_has_def)

lemma action_reasons_iff:
  assumes "isProfessionalReviewAction (dn_action v)" and "isCaseRevision (dn_reviewBasisRevision v)" and "optional_ok review_scope_ok (dn_scope v)"
  shows "action_reasons v = [] \<longleftrightarrow> action_ok v"
proof -
  have bound: "present_and (\<lambda>scope. isValidProfessionalReviewScope scope \<and> isCaseRevision (dn_reviewBasisRevision v) \<and>
      (sc_caseRevision scope \<noteq> dn_reviewBasisRevision v \<or> sc_requirementId scope \<noteq> dn_attestationRequirementId v)) (dn_scope v) \<longleftrightarrow>
    dn_scope v \<noteq> None \<and> \<not> (\<exists>scope. dn_scope v = Some scope \<and> sc_caseRevision scope = dn_reviewBasisRevision v \<and>
      sc_requirementId scope = dn_attestationRequirementId v)"
    using assms(2,3) by (auto simp: present_and_def optional_ok_def isValidProfessionalReviewScope_def scope_iff split: option.splits)
  note facts = action_reasons_def field_rules case_prod_conv Let_def list_ex_iff list.set ball_simps bex_simps insert_iff empty_iff has_fields append_is_Nil_conv reason_when_Nil bound action_ok_def
  show ?thesis
    using assms(1) unfolding actions
  proof (elim disjE)
    assume "dn_action v = ''Attest''"
    then show ?thesis by (simp only: facts refl if_True) auto
  next
    assume "dn_action v = ''Reject''"
    then show ?thesis by (simp only: facts) auto
  next
    assume "dn_action v = ''RequestMoreEvidence''"
    then show ?thesis by (simp only: facts) auto
  next
    assume "dn_action v = ''Abstain''"
    then show ?thesis by (simp only: facts) auto
  qed
qed

lemma decision_iff: "validateProfessionalReviewDecision P v = [] \<longleftrightarrow> terms_ok P v \<and> action_ok v"
proof (cases "isProfessionalReviewAction (dn_action v) \<and> isCaseRevision (dn_reviewBasisRevision v) \<and> optional_ok review_scope_ok (dn_scope v)")
  case True
  have scopes: "optional_ok isValidProfessionalReviewScope = optional_ok review_scope_ok"
    by (auto simp: fun_eq_iff optional_ok_def isValidProfessionalReviewScope_def scope_iff split: option.splits)
  show ?thesis
    using True action_reasons_iff [of v] unfolding validateProfessionalReviewDecision_def present_and_not
    by (auto simp: terms_ok_def scopes)
next
  case False
  have scopes: "optional_ok isValidProfessionalReviewScope = optional_ok review_scope_ok"
    by (auto simp: fun_eq_iff optional_ok_def isValidProfessionalReviewScope_def scope_iff split: option.splits)
  show ?thesis using False unfolding validateProfessionalReviewDecision_def present_and_not by (auto simp: terms_ok_def scopes)
qed

section \<open>One decision for a request\<close>

interpretation requests: keyed_store "map_of :: request_store \<Rightarrow> _" map_set
  by unfold_locales (simp add: map_of_map_set)

interpretation decided: keyed_store "map_of :: (string \<times> review_decision) list \<Rightarrow> _" map_set
  by unfold_locales (simp add: map_of_map_set)

definition no_decisions :: decision_store where
  "no_decisions = \<lparr>dz_entries = [], dz_byRequest = []\<rparr>"

inductive decision_step :: "platform \<Rightarrow> decision_store \<Rightarrow> decision_store \<Rightarrow> bool" for P where
  saves: "save_decision P s decision = Inr s' \<Longrightarrow> decision_step P s s'"

lemma reviewKey_inj:
  "isValidProtocolizationTenantId t \<Longrightarrow> isValidProtocolizationTenantId u \<Longrightarrow> reviewKey t i = reviewKey u j \<longleftrightarrow> t = u \<and> i = j"
  unfolding reviewKey_def using tenant_line by (intro line_split) blast+

definition decisionKey :: "review_decision \<Rightarrow> string" where
  "decisionKey d = reviewKey (dn_tenantId d) (dn_decisionId d)"

definition requestKey :: "review_decision \<Rightarrow> string" where
  "requestKey d = reviewKey (dn_tenantId d) (dn_reviewRequestId d)"

definition stored :: "decision_store \<Rightarrow> review_decision \<Rightarrow> bool" where
  "stored s d \<longleftrightarrow> map_of (dz_entries s) (decisionKey d) = Some d"

text \<open>Every entry is a valid decision under its own key, and the index by request is exact.\<close>

definition decisions_ok :: "platform \<Rightarrow> decision_store \<Rightarrow> bool" where
  "decisions_ok P s \<longleftrightarrow> (\<forall>k d. map_of (dz_entries s) k = Some d \<longrightarrow> isValidProfessionalReviewDecision P d \<and> k = decisionKey d) \<and>
     (\<forall>d. stored s d \<longrightarrow> map_of (dz_byRequest s) (requestKey d) = Some (dn_decisionId d)) \<and>
     (\<forall>k i. map_of (dz_byRequest s) k = Some i \<longrightarrow> (\<exists>d. stored s d \<and> requestKey d = k \<and> dn_decisionId d = i))"

lemma save_decision_Inr: "save_decision P s d = Inr s' \<longleftrightarrow> isValidProfessionalReviewDecision P d \<and>
    map_of (dz_entries s) (decisionKey d) = None \<and> map_of (dz_byRequest s) (requestKey d) = None \<and>
    s' = \<lparr>dz_entries = map_set (decisionKey d) d (dz_entries s), dz_byRequest = map_set (requestKey d) (dn_decisionId d) (dz_byRequest s)\<rparr>"
  by (auto simp: save_decision_def Let_def after_Inr first_throw_None fail_if_None isValidProfessionalReviewDecision_def decisionKey_def
      requestKey_def)

lemma valid_tenant: "isValidProfessionalReviewDecision P d \<Longrightarrow> isValidProtocolizationTenantId (dn_tenantId d)"
  by (simp add: isValidProfessionalReviewDecision_def decision_iff terms_ok_def)

lemma stored_saved:
  assumes "save_decision P s d = Inr s'"
  shows "stored s' e \<longleftrightarrow> e = d \<or> stored s e"
  using assms by (auto simp: save_decision_Inr stored_def map_of_map_set)

lemma decisions_ok_step: "decisions_ok P s \<Longrightarrow> decision_step P s s' \<Longrightarrow> decisions_ok P s'"
proof (elim decision_step.cases)
  fix r t d assume ok: "decisions_ok P s" and "s = r" "s' = t" "save_decision P r d = Inr t"
  then have save: "save_decision P s d = Inr s'" by simp
  note saved = stored_saved [OF save] and new = save [unfolded save_decision_Inr]
  have other: "requestKey e \<noteq> requestKey d" if "stored s e" for e
    using that ok new unfolding decisions_ok_def by fastforce
  have entries: "map_of (dz_entries s') k = Some e \<longrightarrow> isValidProfessionalReviewDecision P e \<and> k = decisionKey e" for k e
    using ok new by (auto simp: decisions_ok_def map_of_map_set)
  have index: "map_of (dz_byRequest s') k = (if k = requestKey d then Some (dn_decisionId d) else map_of (dz_byRequest s) k)" for k
    using new by (simp add: map_of_map_set)
  have "\<exists>e. (e = d \<or> stored s e) \<and> requestKey e = k \<and> dn_decisionId e = i"
    if "(if k = requestKey d then Some (dn_decisionId d) else map_of (dz_byRequest s) k) = Some i" for k i
    using that ok unfolding decisions_ok_def by (cases "k = requestKey d") (simp, blast)+
  then show "decisions_ok P s'"
    using ok entries other unfolding decisions_ok_def saved index by auto
qed

lemma decisions_reachable: "(decision_step P)\<^sup>*\<^sup>* no_decisions s \<Longrightarrow> decisions_ok P s"
proof (induction rule: rtranclp_induct)
  case base
  then show ?case by (simp add: decisions_ok_def no_decisions_def stored_def)
qed (rule decisions_ok_step)

lemma stored_kept: "(decision_step P)\<^sup>*\<^sup>* s s' \<Longrightarrow> stored s d \<Longrightarrow> stored s' d"
  by (induction rule: rtranclp_induct) (auto elim!: decision_step.cases dest: stored_saved)

lemma assertReviewTenant_None [simp]: "assertReviewTenant t = None \<longleftrightarrow> isValidProtocolizationTenantId t"
  by (simp add: assertReviewTenant_def)

lemma by_request_iff:
  assumes "decisions_ok P s" and "isValidProtocolizationTenantId t"
  shows "getByRequest s t r = Inr (Some d) \<longleftrightarrow> stored s d \<and> dn_tenantId d = t \<and> dn_reviewRequestId d = r"
proof
  assume "getByRequest s t r = Inr (Some d)"
  then obtain i where i: "map_of (dz_byRequest s) (reviewKey t r) = Some i" "map_of (dz_entries s) (reviewKey t i) = Some d"
    by (auto simp: getByRequest_def after_Inr split: option.splits)
  then obtain e where e: "stored s e" "requestKey e = reviewKey t r" "dn_decisionId e = i" using assms(1) unfolding decisions_ok_def by meson
  then have "isValidProfessionalReviewDecision P e" using assms(1) by (auto simp: decisions_ok_def stored_def)
  then have own: "dn_tenantId e = t" "dn_reviewRequestId e = r"
    using e(2) reviewKey_inj [OF valid_tenant assms(2), of P e] by (auto simp: requestKey_def)
  then have "e = d" using e i(2) by (simp add: stored_def decisionKey_def)
  then show "stored s d \<and> dn_tenantId d = t \<and> dn_reviewRequestId d = r" using e(1) own by simp
next
  assume d: "stored s d \<and> dn_tenantId d = t \<and> dn_reviewRequestId d = r"
  then have "map_of (dz_byRequest s) (requestKey d) = Some (dn_decisionId d)" using assms(1) by (simp add: decisions_ok_def)
  then show "getByRequest s t r = Inr (Some d)" using d assms(2)
    by (auto simp: getByRequest_def assertReviewTenant_def requestKey_def stored_def decisionKey_def after_Inr)
qed

text \<open>The repository refines a partial function from the requests of tenants to decisions.\<close>

definition decision_on :: "decision_store \<Rightarrow> string \<times> string \<Rightarrow> review_decision option" where
  "decision_on s = (\<lambda>(t, r). case getByRequest s t r of Inr found \<Rightarrow> found | Inl e \<Rightarrow> None)"

lemma decision_on_iff:
  assumes "decisions_ok P s"
  shows "decision_on s (t, r) = Some d \<longleftrightarrow> stored s d \<and> dn_tenantId d = t \<and> dn_reviewRequestId d = r"
proof (cases "isValidProtocolizationTenantId t")
  case True
  then have "getByRequest s t r = Inr (decision_on s (t, r))"
    using after_simps(1) by (simp add: decision_on_def getByRequest_def after_def split: option.splits)
  then show ?thesis using by_request_iff [OF assms True, of r d] by simp
next
  case False
  moreover have "isValidProtocolizationTenantId (dn_tenantId d)" if "stored s d"
    using that assms valid_tenant by (auto simp: decisions_ok_def stored_def)
  ultimately show ?thesis using assertReviewTenant_None [of t]
    by (auto simp: decision_on_def getByRequest_def after_def split: option.splits)
qed

lemma decides_once:
  assumes "decisions_ok P s" and "save_decision P s d = Inr s'"
  shows "decision_on s (dn_tenantId d, dn_reviewRequestId d) = None"
    and "decision_on s' = (decision_on s)((dn_tenantId d, dn_reviewRequestId d) \<mapsto> d)"
proof -
  have ok: "decisions_ok P s'" using assms decisions_ok_step saves by blast
  show none: "decision_on s (dn_tenantId d, dn_reviewRequestId d) = None"
  proof (rule ccontr)
    assume "decision_on s (dn_tenantId d, dn_reviewRequestId d) \<noteq> None"
    then obtain e where e: "stored s e" "requestKey e = requestKey d" using decision_on_iff [OF assms(1)] by (auto simp: requestKey_def)
    then show False using assms unfolding decisions_ok_def save_decision_Inr by fastforce
  qed
  have "decision_on s' (t, r) = ((decision_on s)((dn_tenantId d, dn_reviewRequestId d) \<mapsto> d)) (t, r)" for t r
  proof (cases "(t, r) = (dn_tenantId d, dn_reviewRequestId d)")
    case True
    then show ?thesis using decision_on_iff [OF ok, of t r d] stored_saved [OF assms(2)] by auto
  next
    case False
    then have "decision_on s' (t, r) = Some e \<longleftrightarrow> decision_on s (t, r) = Some e" for e
      unfolding decision_on_iff [OF ok] decision_on_iff [OF assms(1)] stored_saved [OF assms(2)] by auto
    then have "decision_on s' (t, r) = decision_on s (t, r)" by (metis option.exhaust)
    then show ?thesis using False by auto
  qed
  then show "decision_on s' = (decision_on s)((dn_tenantId d, dn_reviewRequestId d) \<mapsto> d)" by auto
qed

section \<open>Properties\<close>

lemma getByRequest_on: "getByRequest s t r = after (assertReviewTenant t) (Inr (decision_on s (t, r)))"
  by (cases "isValidProtocolizationTenantId t") (auto simp: getByRequest_def decision_on_def after_def split: option.splits)

text \<open>C39: A request for review is decided once.  Along any saves from the empty repository, a decision is saved only when its request had
  none; from then on the repository answers the request with that decision, whatever is saved later, and refuses every other decision on
  it; and saving it changes the answer to no other request.\<close>

theorem request_decided_once:
  assumes "(decision_step P)\<^sup>*\<^sup>* no_decisions s" and "save_decision P s d = Inr s'" and "(decision_step P)\<^sup>*\<^sup>* s' t"
  shows "getByRequest s (dn_tenantId d) (dn_reviewRequestId d) = Inr None \<and>
    getByRequest t (dn_tenantId d) (dn_reviewRequestId d) = Inr (Some d) \<and>
    (\<forall>u r. (u, r) \<noteq> (dn_tenantId d, dn_reviewRequestId d) \<longrightarrow> getByRequest s' u r = getByRequest s u r) \<and>
    (\<forall>e z. dn_tenantId e = dn_tenantId d \<and> dn_reviewRequestId e = dn_reviewRequestId d \<longrightarrow> save_decision P t e \<noteq> Inr z)"
proof -
  have ok: "decisions_ok P s" by (rule decisions_reachable [OF assms(1)])
  have run: "(decision_step P)\<^sup>*\<^sup>* no_decisions t" using assms by (meson rtranclp.rtrancl_into_rtrancl rtranclp_trans saves)
  note ok_t = decisions_reachable [OF run] and once = decides_once [OF ok assms(2)]
  have tenant: "isValidProtocolizationTenantId (dn_tenantId d)" using assms(2) valid_tenant unfolding save_decision_Inr by blast
  have "stored t d" using stored_kept [OF assms(3)] stored_saved [OF assms(2)] by blast
  then have held: "decision_on t (dn_tenantId d, dn_reviewRequestId d) = Some d" using decision_on_iff [OF ok_t] by blast
  have "save_decision P t e \<noteq> Inr z" if "dn_tenantId e = dn_tenantId d \<and> dn_reviewRequestId e = dn_reviewRequestId d" for e z
    using decides_once(1) [OF ok_t, of e z] held that by fastforce
  moreover have own: "getByRequest q (dn_tenantId d) r = Inr (decision_on q (dn_tenantId d, r))" for q r
    using tenant unfolding getByRequest_on assertReviewTenant_None [symmetric] by (simp only: after_def option.case)
  moreover have "getByRequest s' u r = getByRequest s u r" if "(u, r) \<noteq> (dn_tenantId d, dn_reviewRequestId d)" for u r
    using that unfolding getByRequest_on once(2) by (simp only: fun_upd_apply if_False)
  ultimately show ?thesis unfolding own once(1) held by blast
qed

definition sample_abstention :: review_decision where
  "sample_abstention = \<lparr>dn_schemaVersion = PROFESSIONAL_REVIEW_DECISION_SCHEMA_VERSION, dn_decisionId = ''deed'',
     dn_reviewRequestId = ''deed'', dn_tenantId = ''tenant-a'', dn_caseId = ''case-1'',
     dn_profile = \<lparr>pf_profileId = ''real-estate'', pf_profileVersion = ''1.0.0''\<rparr>, dn_attestationRequirementId = ''legal.title'',
     dn_reviewer = \<lparr>pl_id = ''deed'', pl_kind = ''Human'', pl_displayName = None, pl_source = None, pl_metadata = None\<rparr>,
     dn_reviewerCredentialRefs = None, dn_action = ''Abstain'', dn_scope = None,
     dn_reviewBasisRevision = 1, dn_resultingCaseRevision = None, dn_reviewedRefs = None, dn_reasonCode = Some ''legal.title'',
     dn_requestedMaterial = None, dn_note = None, dn_canonicalAttestationRef = None, dn_attestationMaterialId = None,
     dn_decidedAt = ''2025-06-15T14:30:00Z'', dn_correlationId = None\<rparr>"

theorem request_decided_once_witness:
  "\<exists>t. save_decision zero_platform no_decisions sample_abstention = Inr t \<and> getByRequest t ''tenant-a'' ''deed'' = Inr (Some sample_abstention) \<and>
     (\<forall>z. save_decision zero_platform t (sample_abstention\<lparr>dn_decisionId := ''other'', dn_action := ''Reject''\<rparr>) \<noteq> Inr z)"
proof -
  have valid: "isValidProfessionalReviewDecision zero_platform sample_abstention"
    using sample_case_identifiers sample_case_moments [of zero_platform]
    by (simp add: isValidProfessionalReviewDecision_def decision_iff terms_ok_def action_ok_def sample_abstention_def actions optional_ok_def
        isValidProfessionalReviewDecisionId_def isValidProfessionalReviewRequestId_def isUsablePrincipalRef_def PRINCIPAL_KINDS_def
        isCanonicalRecordId_def isCaseRevision_def MAX_SAFE_INTEGER_def isValidProfessionalReviewReasonCode_def
        isValidAssetRequirementId_def trim_def js_space_def ASSET_IDENTIFIER_MAX_LENGTH_def)
  then obtain t where t: "save_decision zero_platform no_decisions sample_abstention = Inr t"
    by (simp add: save_decision_Inr no_decisions_def)
  from request_decided_once [OF rtranclp.rtrancl_refl t rtranclp.rtrancl_refl] show ?thesis
    using t by (intro exI [of _ t]) (simp add: sample_abstention_def)
qed

end
