(* ===== verification/Spec2Isabelle.thy ===== *)
theory Spec2Isabelle
  imports Consumption Vault ProtocolExecution ConsentDecisions Adapters AuditPlane Relationships VerificationChecks Review
begin

text \<open>
  A model of the Architects of Change Protocol: consents and the capabilities derived from them, the decisions about access they
  authorize and their enforcement, vaults that release fields under them, identities and policies, the audit of decisions, and the
  protocolization of assets.

  \<^bold>\<open>The program and its parts.\<close>  A data subject grants or revokes a \<^emph>\<open>consent\<close>: a hashed object that names subject,
  grantee, scope and permitted actions.  From a granting consent \<^emph>\<open>capability tokens\<close> are minted, each with a narrower scope,
  permissions and lifetime.  A token is presented with a request; the request is evaluated, the token verified against replay and
  revocation, and consumed; an enforcement bridge and a vault resolve the fields it covers through manifests and \<^emph>\<open>SDL\<close> paths and
  release those only.  Beside this older stack the protocol has a second one, of signed consents and capabilities: consent to mint,
  capability to enforcement engine, decision to execution contract; adapters are registered under a policy.  Actors are identities
  with delegations, trust chains and relationships; an identity gate and a policy decision point decide over requests, and an audit
  plane records and correlates what was decided.  Assets are \<^emph>\<open>protocolized\<close>: a profile in a catalogue says what an asset of a
  category needs, a case pinned to it gathers material, evidence and declarations put material in with a record, the checks
  the profile declares are executed against a revision of the case, and professionals decide on requests for review.

  \<^bold>\<open>Foundations.\<close>
  \<^item> \<open>Prelude\<close>: errors and guards (\<open>throw_if\<close>, \<open>first_throw\<close>, \<open>after\<close>), loops that throw, the locale
    \<open>comparator_order\<close> of comparators with the stable sort of arrays, the collections \<open>throws_simps\<close> and \<open>result_simps\<close>.
  \<^item> \<open>JsString\<close>, \<open>Regex\<close>, \<open>Calendar\<close>, \<open>JsDate\<close>, \<open>Encoding\<close>, \<open>Untrusted\<close>: the parts of the JavaScript standard library the
    source uses: string methods, regular expressions by derivatives with their languages, the proleptic Gregorian calendar, \<open>Date\<close>
    with its ISO strings, JSON quoting, UTF-8 and hexadecimal with their injectivity, values of unknown type.
  \<^item> \<open>CanonicalJson\<close> (\<open>packages/protocol/src/canonical/canonicalize.ts\<close>): the serializer below every hash, proved injective up
    to the order of keys for numbers that print without an exponent.
  \<^item> \<open>Platform\<close> (\<open>hash.ts\<close>, \<open>aocId.ts\<close>): what is not under \<open>src/\<close>: SHA-256, \<open>localeCompare\<close> and the dates of strings outside
    the ISO format are fields of a record \<open>platform\<close>; theorems name what they need of them (\<open>sha256_length\<close>, \<open>collation\<close>) and
    speak of collisions instead of assuming there are none.  Signatures are HMACs over that SHA-256.

  \<^bold>\<open>Consents, capabilities, access.\<close>
  \<^item> \<open>Actions\<close> (\<open>shared/capabilityActions.ts\<close>, \<open>shared/marketMakerId.ts\<close>), \<open>Consent\<close> (\<open>consent/\<close>): payload, hash, construction,
    validation, identifier.
  \<^item> \<open>Registries\<close> (\<open>capability/registries/\<close>, \<open>capability/revocation.ts\<close>): the registry interfaces as records of operations over
    an abstract state, their contracts as locales, and the in-memory implementations as interpretations.
  \<^item> \<open>MarketMakers\<close> (\<open>shared/marketMakerRegistry.ts\<close>): the registry with its invariant and the contract the access checks rely on.
  \<^item> \<open>Capability\<close> (\<open>capability/\<close>): minting, validation, verification with replay and revocation.
  \<^item> \<open>AccessEvaluation\<close> (\<open>aoc/capabilities/core/\<close>): normalization of a request and the stages of its evaluation.
  \<^item> \<open>Consumption\<close> (\<open>aoc/capabilities/runtime/\<close>, \<open>aoc/capabilities/consent/\<close>): consumption of a capability over the stores it
    reads and changes (nonces, revocations, record of use, rate limits).

  \<^bold>\<open>Storage and vaults.\<close>
  \<^item> \<open>Storage\<close> (\<open>storage/\<close>), \<open>Manifests\<close> (fields, contents and packs), \<open>Sdl\<close> (\<open>sdl/\<close>: paths, their parser and resolution),
    \<open>Enforcement\<close> (\<open>enforcement/\<close>), \<open>Vault\<close> (\<open>vault/vault.ts\<close>): blobs by content address, hashed manifests, and the vault that
    resolves a request to fields, spends the capability once and releases what is authorized.

  \<^bold>\<open>The protocol stack.\<close>
  \<^item> \<open>Revocation\<close>, \<open>ProtocolConsent\<close>, \<open>ProtocolCapability\<close>, \<open>ProtocolEnforcement\<close>, \<open>ProtocolExecution\<close> (\<open>protocol/\<close>): revocation
    records and ports, consents with their scopes, minting and evaluation of capabilities, the enforcement engine, and the contract
    of an authorized execution; the properties compose them end to end.
  \<^item> \<open>ConsentDecisions\<close>: the decision over a consent and the signed capability that carries it; \<open>Adapters\<close> (\<open>protocol/adapters/\<close>): the
    parsing of adapters, their policy and registry.

  \<^bold>\<open>Identities, policies, audit.\<close>
  \<^item> \<open>Identity\<close> (delegations, trust chains by breadth first search), \<open>Policy\<close> (the policy decision point), \<open>IdentityPolicy\<close> (the gate
    that joins them), \<open>Relationships\<close> (their lifecycle), \<open>AuditPlane\<close> (events, correlations, the queries over them).

  \<^bold>\<open>Protocolization of assets\<close> (\<open>packages/asset-protocolization/src/\<close>).
  \<^item> \<open>SovereignIdentity\<close> (\<open>packages/protocol/src/identity/\<close>), \<open>AssetProfile\<close> (identifiers, constraints, requirements, the validator of
    profiles) and \<open>ProfileCatalog\<close> (the catalogue of profiles).
  \<^item> \<open>ProtocolizationCase\<close> (the aggregate and its validator), \<open>CaseOperations\<close> (its operations and projections), \<open>CaseHistory\<close> (when
    each succeeds, what it leaves, and what every run preserves), \<open>CaseRepository\<close> (the store with its revision check).
  \<^item> \<open>CaseLog\<close> (what records of material have in common), \<open>EvidenceIntake\<close> (\<open>evidence/\<close>) and \<open>Declarations\<close> (\<open>declarations/\<close>).
  \<^item> \<open>Verification\<close> (\<open>verification/\<close>: results, the registry of checks, execution, plan, run, repository, projections) and
    \<open>VerificationChecks\<close> (the seven built-in checks, when each passes, that no report of theirs is refused on a case of modest size,
    and so that a run returns exactly when it declares no others).  Checks and resolvers are ports; the clock of a run is the sequence
    of its readings.
  \<^item> \<open>Review\<close> (\<open>attestation/\<close>): requests for a professional review and decisions on them, their validators, and the repositories, of
    which that of decisions is a partial function from the requests of tenants.

  \<^bold>\<open>Interfaces.\<close>  \<open>comparator_order\<close> is what sorting needs of a comparator; the registry contracts of \<open>Registries\<close> and
  \<open>MarketMakers\<close> are what verification and access need of the stores; \<open>keyed_store\<close> is a map that is only added to, interpreted on
  the repositories; \<open>profile_source\<close> is what the operations of a case need of the catalogue; \<open>case_log\<close> is what a repository of
  receipts or records guarantees of a case.  Every locale is interpreted on the definitions of the component that provides it.

  \<^bold>\<open>Conventions.\<close>  A \<open>throw\<close> is a value: a guard is an option of an error, a function that may throw returns a sum, and errors
  carry the source's codes and messages.  Strings are lists of characters (code points up to 255, which the validated alphabets stay
  within); clock, random bytes and ports (resolvers, checks, lookups) are arguments, a port being a function, and the revocation port of
  the enforcement engine, which is asked twice, a function of the number of the consultation as well; state is passed and returned.  The declared TypeScript types of the parameters hold, so that \<open>typeof\<close> guards are vacuous, unless the source takes a
  value of unknown type, which is then a JSON value; string unions are strings, so that the guards on them are not vacuous.
  Freezing is the identity on values; hooks are lists of events.

  \<^bold>\<open>Lemmas.\<close>  Each guard has a lemma that says what it lets through, each operation one that characterizes its results; the
  properties follow from these.  Step relations collect the operations of a component, and invariants are proved by rule induction
  along their runs.  Regular expressions are decided by their languages (\<open>rx_test_lang\<close>), so that no fuel occurs anywhere; all loops
  are structural or have a measure.

  \<^bold>\<open>Not modelled.\<close>
  \<^item> \<open>packages/asset-protocolization/src/attestation/review-operations.ts\<close> with the packet, the preparation of an attestation and its
    signer: they join the records of \<open>Review\<close> with the case as the modelled parts do.
  \<^item> The legacy audit builders, memory taxonomy, language interpreters and the capability catalogues for interfaces: tables of
    literals, or calls to a model outside the repository.
  \<^item> The runtimes, the enterprise server and the packages over databases and networks: their core is \<open>await\<close>s on clients that
    are not under \<open>src/\<close>.
  \<^item> The user interfaces, scripts, examples, test consumers and compiled output (\<open>dist/\<close>).
\<close>

end
